(* ===== verification/Prelude.thy ===== *)
theory Prelude
  imports Complex_Main "HOL-Library.Word"
begin

text \<open>
  What every other theory of the development shares: the machine types of the
  TypeScript code, the numeric helpers of the JavaScript standard library that it
  calls (\<open>Math.round\<close>, clamping with \<open>Math.max\<close> and \<open>Math.min\<close>), generic lemmas on
  lists and on first-match search, and the run-invariant interface.

  Numbers. A JavaScript number that the code uses as an identifier, a tick, a time in
  milliseconds or a count is an \<open>int\<close>; one that carries a fraction (positions,
  speeds, ratios) is a \<open>real\<close>, so double rounding is not modelled; one that is
  used bitwise is a word of the width the operator works at.
\<close>

section \<open>Types and collections\<close>

type_synonym byte = "8 word"

named_theorems wire_simps \<open>evaluation of byte writers and readers\<close>
named_theorems sim_simps \<open>projections of the simulation's updates\<close>
named_theorems room_simps \<open>projections of the room's updates\<close>

section \<open>Numbers\<close>

text \<open>\<open>Math.round\<close> rounds half towards plus infinity.\<close>

definition js_round :: "real \<Rightarrow> int" where
  "js_round v = \<lfloor>v + 1 / 2\<rfloor>"

text \<open>A number that comes from outside keeps the special values.\<close>

datatype js_number = Fin real | PosInf | NegInf | NotANumber

fun js_isFinite :: "js_number \<Rightarrow> bool" where
  "js_isFinite (Fin _) = True"
| "js_isFinite _ = False"

definition clamp_int :: "int \<Rightarrow> int \<Rightarrow> int \<Rightarrow> int" where
  "clamp_int lo hi v = max lo (min hi v)"

lemma js_round_of_int [simp]: "js_round (of_int n) = n"
  unfolding js_round_def by linarith

lemma js_round_numeral [simp]: "js_round (numeral n) = numeral n"
  using js_round_of_int [of "numeral n"] by simp

lemma js_round_01 [simp]: "js_round 0 = 0" "js_round 1 = 1"
  using js_round_of_int [of 0] js_round_of_int [of 1] by simp_all

lemma js_round_mono: "a \<le> b \<Longrightarrow> js_round a \<le> js_round b"
  by (simp add: js_round_def floor_mono)

lemma js_round_ge: "of_int n \<le> v \<Longrightarrow> n \<le> js_round v"
  using js_round_mono [of "of_int n" v] by simp

lemma js_round_le: "v \<le> of_int n \<Longrightarrow> js_round v \<le> n"
  using js_round_mono [of v "of_int n"] by simp

lemma js_round_near: "\<bar>of_int (js_round v) - v\<bar> \<le> 1 / 2"
  unfolding js_round_def by linarith

lemma clamp_int_id [simp]: "lo \<le> v \<Longrightarrow> v \<le> hi \<Longrightarrow> clamp_int lo hi v = v"
  by (simp add: clamp_int_def)

lemma clamp_int_range: "lo \<le> hi \<Longrightarrow> lo \<le> clamp_int lo hi v \<and> clamp_int lo hi v \<le> hi"
  by (simp add: clamp_int_def)

section \<open>Lists and first-match search\<close>

text \<open>\<open>Array.prototype.find\<close> is \<open>List.find\<close>: the first element that satisfies the predicate.\<close>

lemma find_SomeD: "List.find P xs = Some x \<Longrightarrow> x \<in> set xs \<and> P x"
  by (induction xs) (auto split: if_splits)

lemma find_None_iff_all: "List.find P xs = None \<longleftrightarrow> (\<forall>x \<in> set xs. \<not> P x)"
  by (induction xs) auto

lemma find_key_unique:
  assumes "distinct (map k xs)" and "x \<in> set xs"
  shows "List.find (\<lambda>y. k y = k x) xs = Some x"
  using assms by (induction xs) (auto split: if_splits)

lemma find_map: "List.find P (map f xs) = map_option f (List.find (\<lambda>x. P (f x)) xs)"
  by (induction xs) auto

lemma find_cong_on: "(\<And>x. x \<in> set xs \<Longrightarrow> P x = Q x) \<Longrightarrow> List.find P xs = List.find Q xs"
  by (induction xs) auto

lemma distinct_map_inj: "distinct (map k xs) \<Longrightarrow> x \<in> set xs \<Longrightarrow> y \<in> set xs \<Longrightarrow> k x = k y \<Longrightarrow> x = y"
  by (auto simp: distinct_map dest: inj_onD)

lemma filter_length_le_1_unique:
  "length (filter P xs) \<le> 1 \<Longrightarrow> x \<in> set xs \<Longrightarrow> y \<in> set xs \<Longrightarrow> P x \<Longrightarrow> P y \<Longrightarrow> x = y"
  by (induction xs) (auto simp: filter_empty_conv split: if_splits)

lemma sum_list_nonneg_int: "(\<And>x. x \<in> set xs \<Longrightarrow> (0::int) \<le> x) \<Longrightarrow> 0 \<le> sum_list xs"
  by (induction xs) auto

section \<open>Results that may be errors\<close>

text \<open>A throw ends the computation: \<open>and_then\<close> runs the rest on a value, \<open>all_of\<close> is a \<open>map\<close> whose callback may throw.\<close>

definition and_then :: "'e + 'a \<Rightarrow> ('a \<Rightarrow> 'e + 'b) \<Rightarrow> 'e + 'b" where
  "and_then r f = (case r of Inl e \<Rightarrow> Inl e | Inr v \<Rightarrow> f v)"

definition require :: "bool \<Rightarrow> 'e \<Rightarrow> 'e + 'a \<Rightarrow> 'e + 'a" where
  "require ok e r = (if ok then r else Inl e)"

fun all_of :: "('a \<Rightarrow> 'e + 'b) \<Rightarrow> 'a list \<Rightarrow> 'e + 'b list" where
  "all_of f [] = Inr []"
| "all_of f (x # xs) = and_then (f x) (\<lambda>y. and_then (all_of f xs) (\<lambda>ys. Inr (y # ys)))"

lemma and_then_Inr [simp]: "and_then r f = Inr v \<longleftrightarrow> (\<exists>x. r = Inr x \<and> f x = Inr v)"
  by (cases r) (auto simp: and_then_def)

lemma require_Inr [simp]: "require ok e r = Inr v \<longleftrightarrow> ok \<and> r = Inr v"
  by (simp add: require_def)

lemma all_of_Inr: "all_of f xs = Inr ys \<longleftrightarrow> list_all2 (\<lambda>x y. f x = Inr y) xs ys"
  by (induction xs arbitrary: ys) (auto simp: list_all2_Cons1)

lemma all_of_length: "all_of f xs = Inr ys \<Longrightarrow> length ys = length xs"
  by (auto simp: all_of_Inr dest: list_all2_lengthD)

lemma all_of_each: "all_of f xs = Inr ys \<Longrightarrow> y \<in> set ys \<Longrightarrow> \<exists>x \<in> set xs. f x = Inr y"
  unfolding all_of_Inr by (induction rule: list_all2_induct) auto

section \<open>Machines and their invariants\<close>

text \<open>
  Several components are objects whose methods are called one after another. Each is a
  step function \<open>step\<close> over a datatype of calls; an invariant that every call keeps holds
  after any sequence of calls.
\<close>

locale invariant_machine =
  fixes step :: "'e \<Rightarrow> 's \<Rightarrow> 's"
    and inv :: "'s \<Rightarrow> bool"
  assumes step_inv: "inv s \<Longrightarrow> inv (step e s)"
begin

lemma run_inv: "inv s \<Longrightarrow> inv (fold step es s)"
  by (induction es arbitrary: s) (auto intro: step_inv)

lemma run_inv_prefix: "inv s \<Longrightarrow> inv (fold step (take n es) s)"
  by (rule run_inv)

end

text \<open>A machine with a relation between successive states that composes over a run.\<close>

locale ordered_machine = invariant_machine step inv
  for step :: "'e \<Rightarrow> 's \<Rightarrow> 's" and inv :: "'s \<Rightarrow> bool" +
  fixes below :: "'s \<Rightarrow> 's \<Rightarrow> bool"
  assumes below_refl: "below s s"
    and below_trans: "below s t \<Longrightarrow> below t u \<Longrightarrow> below s u"
    and step_below: "inv s \<Longrightarrow> below s (step e s)"
begin

lemma run_below: "inv s \<Longrightarrow> below s (fold step es s)"
proof (induction es arbitrary: s)
  case Nil
  then show ?case by (simp add: below_refl)
next
  case (Cons e es)
  have "below (step e s) (fold step es (step e s))"
    using Cons.IH step_inv [OF Cons.prems] by blast
  with step_below [OF Cons.prems] show ?case
    by (auto intro: below_trans)
qed

end

end
