(* ===== verification/JsMap.thy ===== *)
theory JsMap
  imports Prelude "HOL-Library.AList"
begin

text \<open>
  JavaScript's \<open>Map\<close>: a finite map that iterates in insertion order. It is an association
  list with distinct keys; \<open>set\<close> on a present key keeps the key's place, \<open>set\<close> on a
  new key appends, \<open>delete\<close> removes. The components that own such a map (tickets,
  connections, rate limits, the lobby roster) use it through the interface
  \<open>keyed_store\<close>, which the definitions below implement.
\<close>

type_synonym ('k, 'v) js_map = "('k \<times> 'v) list"

definition js_empty :: "('k, 'v) js_map" where
  "js_empty = []"

definition js_get :: "('k, 'v) js_map \<Rightarrow> 'k \<Rightarrow> 'v option" where
  "js_get m k = map_of m k"

definition js_has :: "('k, 'v) js_map \<Rightarrow> 'k \<Rightarrow> bool" where
  "js_has m k = (js_get m k \<noteq> None)"

definition js_set :: "'k \<Rightarrow> 'v \<Rightarrow> ('k, 'v) js_map \<Rightarrow> ('k, 'v) js_map" where
  "js_set k v m = AList.update k v m"

definition js_delete :: "'k \<Rightarrow> ('k, 'v) js_map \<Rightarrow> ('k, 'v) js_map" where
  "js_delete k m = filter (\<lambda>p. fst p \<noteq> k) m"

definition js_size :: "('k, 'v) js_map \<Rightarrow> nat" where
  "js_size m = length m"

definition js_values :: "('k, 'v) js_map \<Rightarrow> 'v list" where
  "js_values m = map snd m"

text \<open>The loop \<open>for (const [k, v] of m) if (p(k, v)) m.delete(k)\<close>.\<close>

definition js_delete_where :: "('k \<Rightarrow> 'v \<Rightarrow> bool) \<Rightarrow> ('k, 'v) js_map \<Rightarrow> ('k, 'v) js_map" where
  "js_delete_where p m = filter (\<lambda>(k, v). \<not> p k v) m"

definition js_ok :: "('k, 'v) js_map \<Rightarrow> bool" where
  "js_ok m = distinct (map fst m)"

section \<open>The interface\<close>

locale keyed_store =
  fixes empty :: "'m"
    and lookup :: "'m \<Rightarrow> 'k \<Rightarrow> 'v option"
    and put :: "'k \<Rightarrow> 'v \<Rightarrow> 'm \<Rightarrow> 'm"
    and drop_key :: "'k \<Rightarrow> 'm \<Rightarrow> 'm"
    and count :: "'m \<Rightarrow> nat"
    and ok :: "'m \<Rightarrow> bool"
  assumes ok_empty: "ok empty"
    and ok_put: "ok m \<Longrightarrow> ok (put k v m)"
    and ok_drop: "ok m \<Longrightarrow> ok (drop_key k m)"
    and lookup_empty: "lookup empty k = None"
    and lookup_put: "ok m \<Longrightarrow> lookup (put k v m) k' = (if k' = k then Some v else lookup m k')"
    and lookup_drop: "ok m \<Longrightarrow> lookup (drop_key k m) k' = (if k' = k then None else lookup m k')"
    and count_empty: "count empty = 0"
    and count_put: "ok m \<Longrightarrow> count (put k v m) = (if lookup m k = None then Suc (count m) else count m)"
    and count_drop: "ok m \<Longrightarrow> count (drop_key k m) = (if lookup m k = None then count m else count m - 1)"
    and count_pos: "ok m \<Longrightarrow> lookup m k \<noteq> None \<Longrightarrow> 0 < count m"
begin

lemma take_once: "ok m \<Longrightarrow> lookup (drop_key k m) k = None"
  by (simp add: lookup_drop)

lemma put_twice: "ok m \<Longrightarrow> lookup (put k w (put k v m)) k' = lookup (put k w m) k'"
  by (simp add: lookup_put ok_put)

lemma count_put_le: "ok m \<Longrightarrow> count (put k v m) \<le> Suc (count m)"
  by (simp add: count_put)

lemma count_drop_le: "ok m \<Longrightarrow> count (drop_key k m) \<le> count m"
  by (simp add: count_drop)

lemma drop_put_count: "ok m \<Longrightarrow> lookup m k = None \<Longrightarrow> count (drop_key k (put k v m)) = count m"
  by (simp add: count_put count_drop ok_put lookup_put)

lemma put_existing_count: "ok m \<Longrightarrow> lookup m k = Some v \<Longrightarrow> count (put k w m) = count m"
  by (simp add: count_put)

end

section \<open>The implementation\<close>

lemma js_ok_empty [simp]: "js_ok js_empty"
  by (simp add: js_ok_def js_empty_def)

lemma js_get_empty [simp]: "js_get js_empty k = None"
  by (simp add: js_get_def js_empty_def)

lemma js_ok_set [simp, intro]: "js_ok m \<Longrightarrow> js_ok (js_set k v m)"
  by (simp add: js_ok_def js_set_def distinct_update)

lemma js_ok_delete [simp, intro]: "js_ok m \<Longrightarrow> js_ok (js_delete k m)"
  by (auto simp: js_ok_def js_delete_def distinct_map inj_on_def)

lemma js_get_set [simp]: "js_get (js_set k v m) k' = (if k' = k then Some v else js_get m k')"
  by (simp add: js_get_def js_set_def update_conv)

lemma js_get_delete [simp]: "js_get (js_delete k m) k' = (if k' = k then None else js_get m k')"
  unfolding js_get_def js_delete_def by (induction m) auto

lemma js_get_Some_iff: "js_ok m \<Longrightarrow> js_get m k = Some v \<longleftrightarrow> (k, v) \<in> set m"
  by (simp add: js_ok_def js_get_def)

lemma js_get_mem: "js_get m k = Some v \<Longrightarrow> (k, v) \<in> set m"
  by (simp add: js_get_def map_of_SomeD)

lemma js_get_None_iff: "js_get m k = None \<longleftrightarrow> k \<notin> fst ` set m"
  by (simp add: js_get_def map_of_eq_None_iff)

lemma js_size_set:
  "js_size (js_set k v m) = (if js_get m k = None then Suc (js_size m) else js_size m)"
  unfolding js_size_def js_set_def js_get_def by (induction m) (auto split: if_splits)

lemma filter_absent_key: "k \<notin> fst ` set m \<Longrightarrow> filter (\<lambda>p. fst p \<noteq> k) m = m"
  by (auto simp: filter_id_conv)

lemma js_size_delete:
  assumes "js_ok m"
  shows "js_size (js_delete k m) = (if js_get m k = None then js_size m else js_size m - 1)"
  using assms unfolding js_size_def js_delete_def js_get_def js_ok_def
proof (induction m)
  case Nil
  then show ?case by simp
next
  case (Cons p m)
  show ?case
  proof (cases "fst p = k")
    case True
    with Cons.prems show ?thesis by (cases p) (simp add: filter_absent_key)
  next
    case False
    moreover have "map_of m k \<noteq> None \<Longrightarrow> 0 < length m" by (cases m) auto
    ultimately show ?thesis using Cons by (cases p) (auto split: if_splits)
  qed
qed

lemma js_size_pos: "js_get m k \<noteq> None \<Longrightarrow> 0 < js_size m"
  by (cases m) (auto simp: js_get_def js_size_def)

interpretation js: keyed_store js_empty js_get js_set js_delete js_size js_ok
  by unfold_locales (simp_all add: js_size_set js_size_delete js_size_pos, simp add: js_size_def js_empty_def)

lemma js_ok_delete_where [simp, intro]: "js_ok m \<Longrightarrow> js_ok (js_delete_where p m)"
  unfolding js_ok_def js_delete_where_def by (induction m) auto

lemma js_get_delete_where:
  "js_ok m \<Longrightarrow> js_get (js_delete_where p m) k =
     (case js_get m k of None \<Rightarrow> None | Some v \<Rightarrow> if p k v then None else Some v)"
  unfolding js_ok_def js_get_def js_delete_where_def
  by (induction m) (auto split: option.splits simp: map_of_eq_None_iff)

lemma set_js_set:
  "js_ok m \<Longrightarrow> set (js_set k v m) = insert (k, v) {p \<in> set m. fst p \<noteq> k}"
  unfolding js_ok_def js_set_def by (induction m) (auto split: if_splits simp: image_iff)

lemma set_js_delete: "set (js_delete k m) = {p \<in> set m. fst p \<noteq> k}"
  by (auto simp: js_delete_def)

lemma js_set_absent: "js_get m k = None \<Longrightarrow> js_set k v m = m @ [(k, v)]"
  unfolding js_get_def js_set_def by (induction m) (auto split: if_splits)

lemma js_delete_where_size: "js_size (js_delete_where p m) \<le> js_size m"
  by (simp add: js_size_def js_delete_where_def)

end
