(* ===== verification/Journal.thy ===== *)
theory Journal
  imports JsMap "HOL-Library.Char_ord" "HOL-Library.List_Lexorder"
begin

text \<open>
  \<open>server-game/src/redis/result-journal.ts\<close>: results of matches on a disk that all workers of a game server share. Appending is a
  machine that makes one call of the file system per step, so that other workers, crashes and failing calls come in between. The disk
  is \<open>node:fs\<close> as far as the journal uses it: files behind names, and what of both a power loss cannot take back. SHA-256, the
  JSON texts and the UTF-8 length are the argument \<open>'r journal_env\<close>.
\<close>

section \<open>The disk\<close>

text \<open>
  Names lead to inodes. \<open>dk_kept\<close> is the directory as it was last synced, \<open>dk_synced\<close> the inodes whose content was.
\<close>

record disk =
  dk_names :: "(string, nat) js_map"
  dk_kept :: "(string, nat) js_map"
  dk_data :: "nat \<Rightarrow> string"
  dk_synced :: "nat set"
  dk_fresh :: nat

definition empty_disk :: disk where
  "empty_disk = \<lparr>dk_names = js_empty, dk_kept = js_empty, dk_data = (\<lambda>_. []), dk_synced = {}, dk_fresh = 0\<rparr>"

text \<open>\<open>openSync(name, 'wx')\<close> creates a file that must not exist.\<close>

definition fs_create :: "string \<Rightarrow> disk \<Rightarrow> disk" where
  "fs_create n d = d\<lparr>dk_names := js_set n (dk_fresh d) (dk_names d), dk_data := (dk_data d)(dk_fresh d := []),
     dk_synced := dk_synced d - {dk_fresh d}, dk_fresh := Suc (dk_fresh d)\<rparr>"

definition fs_write :: "nat \<Rightarrow> string \<Rightarrow> disk \<Rightarrow> disk" where
  "fs_write i s d = d\<lparr>dk_data := (dk_data d)(i := s), dk_synced := dk_synced d - {i}\<rparr>"

definition fs_sync :: "nat \<Rightarrow> disk \<Rightarrow> disk" where
  "fs_sync i d = d\<lparr>dk_synced := insert i (dk_synced d)\<rparr>"

definition fs_link :: "nat \<Rightarrow> string \<Rightarrow> disk \<Rightarrow> disk" where
  "fs_link i n d = d\<lparr>dk_names := js_set n i (dk_names d)\<rparr>"

definition fs_unlink :: "string \<Rightarrow> disk \<Rightarrow> disk" where
  "fs_unlink n d = d\<lparr>dk_names := js_delete n (dk_names d)\<rparr>"

definition syncDirectory :: "disk \<Rightarrow> disk" where
  "syncDirectory d = d\<lparr>dk_kept := dk_names d\<rparr>"

text \<open>
  What a power loss may leave: each name as it is or as it was synced, content where it was synced, anything elsewhere.
\<close>

definition power_loss :: "disk \<Rightarrow> disk \<Rightarrow> bool" where
  "power_loss d d' \<longleftrightarrow>
     (\<forall>n. js_get (dk_names d') n = js_get (dk_names d) n \<or> js_get (dk_names d') n = js_get (dk_kept d) n)
   \<and> dk_kept d' = dk_names d' \<and> (\<forall>i \<in> dk_synced d. dk_data d' i = dk_data d i) \<and> dk_synced d' = dk_synced d \<and> dk_fresh d' = dk_fresh d"

section \<open>Entries\<close>

record 'r journal_env =
  je_hash :: "string \<Rightarrow> string"
  je_stringify :: "'r \<Rightarrow> string"
  je_parse :: "string \<Rightarrow> 'r option"
  je_matchId :: "'r \<Rightarrow> string option"
  je_envelope :: "string \<Rightarrow> string \<Rightarrow> string"
  je_open :: "string \<Rightarrow> (string \<times> string) option"
  je_bytes :: "string \<Rightarrow> nat"

definition MAX_RESULT_JOURNAL_BYTES :: nat where "MAX_RESULT_JOURNAL_BYTES = 256 * 1024"

datatype journal_error =
    BadBatchSize
  | PayloadTooLarge
  | EntryTooLarge string
  | ConflictingEntry
  | CorruptEntry string
  | NoEntry string
  | CallFailed

text \<open>\<open>String.endsWith\<close>.\<close>

definition ends_with :: "string \<Rightarrow> string \<Rightarrow> bool" where
  "ends_with s suffix = (length suffix \<le> length s \<and> drop (length s - length suffix) s = suffix)"

definition entry_name :: "'r journal_env \<Rightarrow> string \<Rightarrow> string" where
  "entry_name E matchId = je_hash E matchId @ ''.json''"

definition temp_name :: "string \<Rightarrow> string" where
  "temp_name uuid = uuid @ ''.tmp''"

definition journal_names :: "disk \<Rightarrow> string list" where
  "journal_names d = filter (\<lambda>n. ends_with n ''.json'') (map fst (dk_names d))"

definition journal_count :: "disk \<Rightarrow> nat" where
  "journal_count d = length (journal_names d)"

definition read_file :: "'r journal_env \<Rightarrow> disk \<Rightarrow> string \<Rightarrow> journal_error + string" where
  "read_file E d n =
     (case js_get (dk_names d) n of
        None \<Rightarrow> Inl (NoEntry n)
      | Some i \<Rightarrow> if MAX_RESULT_JOURNAL_BYTES < je_bytes E (dk_data d i) then Inl (EntryTooLarge n) else Inr (dk_data d i))"

text \<open>The two JSON texts of an entry; \<open>null\<close> and a missing or empty match id make it corrupt like a text that does not parse.\<close>

definition decode_entry :: "'r journal_env \<Rightarrow> string \<Rightarrow> string \<Rightarrow> 'r option" where
  "decode_entry E n raw =
     (case je_open E raw of
        None \<Rightarrow> None
      | Some (checksum, payload) \<Rightarrow>
          if checksum \<noteq> je_hash E payload then None
          else case je_parse E payload of
              None \<Rightarrow> None
            | Some r \<Rightarrow> (case je_matchId E r of
                  None \<Rightarrow> None
                | Some m \<Rightarrow> if m = [] \<or> n \<noteq> entry_name E m then None else Some r))"

text \<open>Files that disappear between the listing and the reading are skipped; \<open>look\<close> is what the reading of a name gives.\<close>

fun read_batch :: "'r journal_env \<Rightarrow> (string \<Rightarrow> journal_error + string) \<Rightarrow> string list \<Rightarrow> journal_error + 'r list" where
  "read_batch E look [] = Inr []"
| "read_batch E look (n # ns) =
     (case look n of
        Inl (NoEntry _) \<Rightarrow> read_batch E look ns
      | Inl e \<Rightarrow> Inl e
      | Inr raw \<Rightarrow> (case decode_entry E n raw of
            None \<Rightarrow> Inl (CorruptEntry n)
          | Some r \<Rightarrow> (case read_batch E look ns of Inl e \<Rightarrow> Inl e | Inr rs \<Rightarrow> Inr (r # rs))))"

definition journal_batch :: "string \<Rightarrow> nat \<Rightarrow> string list \<Rightarrow> string list" where
  "journal_batch cursor limit names =
     (let sorted = sort names;
          next = List.find (\<lambda>i. cursor < sorted ! i) [0..<length sorted];
          start = (case next of None \<Rightarrow> 0 | Some i \<Rightarrow> i)
      in take limit (drop start sorted @ take start sorted))"

text \<open>The results and the new cursor; the cursor only moves after a healthy batch.\<close>

definition journal_entries :: "'r journal_env \<Rightarrow> nat \<Rightarrow> (string \<Rightarrow> journal_error + string) \<Rightarrow> string \<Rightarrow> string list \<Rightarrow> journal_error + 'r list \<times> string" where
  "journal_entries E limit look cursor names =
     (if limit < 1 then Inl BadBatchSize
      else let batch = journal_batch cursor limit names in
        case read_batch E look batch of
          Inl e \<Rightarrow> Inl e
        | Inr rs \<Rightarrow> Inr (rs, if batch = [] then [] else List.last batch))"

section \<open>Appending\<close>

datatype append_pc = ApOpen | ApWrite | ApSync | ApClose | ApLink | ApCompare | ApDirectory | ApUnlink | ApDone

record 'r append =
  ap_pc :: append_pc
  ap_result :: 'r
  ap_text :: string
  ap_dest :: string
  ap_temp :: string
  ap_inode :: nat
  ap_error :: "journal_error option"

text \<open>How a call of the file system ends. A failing write leaves some prefix; a failing sync of the directory may have synced it.\<close>

datatype outcome = Fine | Fails nat

definition append_begin :: "'r journal_env \<Rightarrow> 'r \<Rightarrow> string \<Rightarrow> string \<Rightarrow> journal_error + 'r append" where
  "append_begin E r matchId uuid =
     (let payload = je_stringify E r in
      if MAX_RESULT_JOURNAL_BYTES < je_bytes E payload then Inl PayloadTooLarge
      else let serialized = je_envelope E (je_hash E payload) payload in
        if MAX_RESULT_JOURNAL_BYTES < je_bytes E serialized then Inl (EntryTooLarge (entry_name E matchId))
        else Inr \<lparr>ap_pc = ApOpen, ap_result = r, ap_text = serialized, ap_dest = entry_name E matchId, ap_temp = temp_name uuid,
          ap_inode = 0, ap_error = None\<rparr>)"

definition ap_goto :: "append_pc \<Rightarrow> 'r append \<Rightarrow> 'r append" where
  "ap_goto pc a = a\<lparr>ap_pc := pc\<rparr>"

definition ap_fail :: "append_pc \<Rightarrow> journal_error \<Rightarrow> 'r append \<Rightarrow> 'r append" where
  "ap_fail pc e a = a\<lparr>ap_pc := pc, ap_error := Some e\<rparr>"

text \<open>
  One call. The two \<open>finally\<close> blocks are \<open>ApClose\<close> and \<open>ApUnlink\<close>: they run with the pending error, which an error of their own
  replaces.
\<close>

definition append_step :: "'r journal_env \<Rightarrow> outcome \<Rightarrow> disk \<times> 'r append \<Rightarrow> disk \<times> 'r append" where
  "append_step E out s = (case s of (d, a) \<Rightarrow>
     (case ap_pc a of
        ApOpen \<Rightarrow>
          if out \<noteq> Fine \<or> js_has (dk_names d) (ap_temp a) then (d, ap_fail ApDone CallFailed a)
          else (fs_create (ap_temp a) d, ap_goto ApWrite (a\<lparr>ap_inode := dk_fresh d\<rparr>))
      | ApWrite \<Rightarrow> (case out of
            Fine \<Rightarrow> (fs_write (ap_inode a) (ap_text a) d, ap_goto ApSync a)
          | Fails k \<Rightarrow> (fs_write (ap_inode a) (take k (ap_text a)) d, ap_fail ApClose CallFailed a))
      | ApSync \<Rightarrow> if out = Fine then (fs_sync (ap_inode a) d, ap_goto ApClose a) else (d, ap_fail ApClose CallFailed a)
      | ApClose \<Rightarrow>
          if out \<noteq> Fine then (d, ap_fail ApUnlink CallFailed a)
          else if ap_error a \<noteq> None then (d, ap_goto ApUnlink a)
          else (d, ap_goto ApLink a)
      | ApLink \<Rightarrow>
          if out \<noteq> Fine then (d, ap_fail ApUnlink CallFailed a)
          else (case js_get (dk_names d) (ap_temp a) of
              None \<Rightarrow> (d, ap_fail ApUnlink (NoEntry (ap_temp a)) a)
            | Some i \<Rightarrow> if js_has (dk_names d) (ap_dest a) then (d, ap_goto ApCompare a)
                else (fs_link i (ap_dest a) d, ap_goto ApDirectory a))
      | ApCompare \<Rightarrow>
          if out \<noteq> Fine then (d, ap_fail ApUnlink CallFailed a)
          else (case read_file E d (ap_dest a) of
              Inl e \<Rightarrow> (d, ap_fail ApUnlink e a)
            | Inr raw \<Rightarrow> if raw \<noteq> ap_text a then (d, ap_fail ApUnlink ConflictingEntry a) else (d, ap_goto ApDirectory a))
      | ApDirectory \<Rightarrow> (case out of
            Fine \<Rightarrow> (syncDirectory d, ap_goto ApUnlink a)
          | Fails k \<Rightarrow> (if k = 0 then d else syncDirectory d, ap_fail ApUnlink CallFailed a))
      | ApUnlink \<Rightarrow>
          if out \<noteq> Fine then (d, ap_fail ApDone CallFailed a) else (fs_unlink (ap_temp a) d, ap_goto ApDone a)
      | ApDone \<Rightarrow> (d, a)))"

text \<open>An append that nothing interrupts, with the outcomes of its calls.\<close>

definition append_run :: "'r journal_env \<Rightarrow> outcome list \<Rightarrow> disk \<times> 'r append \<Rightarrow> disk \<times> 'r append" where
  "append_run E outs s = fold (append_step E) outs s"

definition journal_append :: "'r journal_env \<Rightarrow> 'r \<Rightarrow> string \<Rightarrow> string \<Rightarrow> outcome list \<Rightarrow> disk \<Rightarrow> journal_error option \<times> disk" where
  "journal_append E r matchId uuid outs d =
     (case append_begin E r matchId uuid of
        Inl e \<Rightarrow> (Some e, d)
      | Inr a \<Rightarrow> (case append_run E outs (d, a) of (d', a') \<Rightarrow> (ap_error a', d')))"

text \<open>\<open>acknowledge\<close>: the entry goes, and the directory is synced; a missing entry is fine.\<close>

definition ack_unlink :: "'r journal_env \<Rightarrow> string \<Rightarrow> disk \<Rightarrow> disk" where
  "ack_unlink E matchId d = fs_unlink (entry_name E matchId) d"

definition journal_acknowledge :: "'r journal_env \<Rightarrow> string \<Rightarrow> disk \<Rightarrow> disk" where
  "journal_acknowledge E matchId d = syncDirectory (ack_unlink E matchId d)"

end
