(* ===== verification/JournalProps.thy ===== *)
theory JournalProps
  imports Journal
begin

text \<open>
  The journal survives. Workers append, fail, crash and lose power in any order; every entry that can be read is complete, and what an
  append returned for is on the disk until the database has acknowledged it.
\<close>

section \<open>Workers on one disk\<close>

record 'r journal_world =
  jw_disk :: disk
  jw_work :: "nat \<Rightarrow> 'r append option"
  jw_returned :: "'r set"
  jw_acked :: "string set"

text \<open>
  What can happen. A worker begins an append, makes a call that ends one way or another, or returns from it; somebody removes an entry
  that the database has; the system syncs the directory on its own; a worker dies; the machine loses power.
\<close>

inductive journal_step :: "'r journal_env \<Rightarrow> 'r journal_world \<Rightarrow> 'r journal_world \<Rightarrow> bool" for E where
  begin_append: "jw_work w k = None \<Longrightarrow> je_matchId E r = Some m \<Longrightarrow> m \<noteq> [] \<Longrightarrow> append_begin E r m uuid = Inr a
    \<Longrightarrow> journal_step E w (w\<lparr>jw_work := (jw_work w)(k := Some a)\<rparr>)"
| call: "jw_work w k = Some a \<Longrightarrow> append_step E out (jw_disk w, a) = (d', a')
    \<Longrightarrow> journal_step E w (w\<lparr>jw_disk := d', jw_work := (jw_work w)(k := Some a')\<rparr>)"
| return: "jw_work w k = Some a \<Longrightarrow> ap_pc a = ApDone
    \<Longrightarrow> journal_step E w (w\<lparr>jw_work := (jw_work w)(k := None), jw_returned := jw_returned w \<union> (if ap_error a = None then {ap_result a} else {})\<rparr>)"
| acknowledge: "journal_step E w (w\<lparr>jw_disk := ack_unlink E m (jw_disk w), jw_acked := insert (entry_name E m) (jw_acked w)\<rparr>)"
| sync: "journal_step E w (w\<lparr>jw_disk := syncDirectory (jw_disk w)\<rparr>)"
| die: "journal_step E w (w\<lparr>jw_work := (jw_work w)(k := None)\<rparr>)"
| power: "power_loss (jw_disk w) d' \<Longrightarrow> journal_step E w (w\<lparr>jw_disk := d', jw_work := (\<lambda>_. None)\<rparr>)"

definition new_journal :: "'r journal_world" where
  "new_journal = \<lparr>jw_disk = empty_disk, jw_work = (\<lambda>_. None), jw_returned = {}, jw_acked = {}\<rparr>"

text \<open>The documented laws of the texts: what \<open>JSON.stringify\<close> wrote, \<open>JSON.parse\<close> reads back.\<close>

definition journal_laws :: "'r journal_env \<Rightarrow> bool" where
  "journal_laws E \<longleftrightarrow> (\<forall>r. je_parse E (je_stringify E r) = Some r) \<and> (\<forall>p. je_open E (je_envelope E (je_hash E p) p) = Some (je_hash E p, p))"

section \<open>The invariant\<close>

definition json_name :: "string \<Rightarrow> bool" where
  "json_name n \<longleftrightarrow> ends_with n ''.json''"

lemma json_entry_name [simp]: "json_name (entry_name E m)"
  by (simp add: json_name_def entry_name_def ends_with_def)

lemma ends_with_append: "ends_with s t \<Longrightarrow> \<exists>p. s = p @ t"
  by (metis append_take_drop_id ends_with_def)

lemma not_json_temp [simp]: "\<not> json_name (temp_name u)"
proof
  assume "json_name (temp_name u)"
  then obtain p where "u @ ''.tmp'' = p @ ''.json''" using ends_with_append unfolding json_name_def temp_name_def by blast
  then have "List.last (u @ ''.tmp'') = List.last (p @ ''.json'')" by (rule arg_cong)
  then show False by simp
qed

definition entry_text :: "'r journal_env \<Rightarrow> 'r \<Rightarrow> string" where
  "entry_text E r = je_envelope E (je_hash E (je_stringify E r)) (je_stringify E r)"

definition good_entry :: "'r journal_env \<Rightarrow> string \<Rightarrow> string \<Rightarrow> bool" where
  "good_entry E n s \<longleftrightarrow> (\<exists>r m. je_matchId E r = Some m \<and> m \<noteq> [] \<and> n = entry_name E m \<and> s = entry_text E r \<and> je_bytes E s \<le> MAX_RESULT_JOURNAL_BYTES)"

definition refers :: "disk \<Rightarrow> string \<Rightarrow> nat \<Rightarrow> bool" where
  "refers d n i \<longleftrightarrow> js_get (dk_names d) n = Some i \<or> js_get (dk_kept d) n = Some i"

definition disk_inv :: "'r journal_env \<Rightarrow> string set \<Rightarrow> disk \<Rightarrow> bool" where
  "disk_inv E acked d \<longleftrightarrow>
     (\<forall>n i. refers d n i \<longrightarrow> i < dk_fresh d)
   \<and> (\<forall>n i. json_name n \<longrightarrow> refers d n i \<longrightarrow> i \<in> dk_synced d \<and> good_entry E n (dk_data d i))
   \<and> (\<forall>n i. json_name n \<longrightarrow> n \<notin> acked \<longrightarrow> js_get (dk_kept d) n = Some i \<longrightarrow> js_get (dk_names d) n = Some i)"

definition present :: "disk \<Rightarrow> string \<Rightarrow> string \<Rightarrow> bool" where
  "present d n s \<longleftrightarrow> (\<exists>i. js_get (dk_names d) n = Some i \<and> dk_data d i = s)"

definition durable :: "disk \<Rightarrow> string \<Rightarrow> string \<Rightarrow> bool" where
  "durable d n s \<longleftrightarrow> (\<exists>i. js_get (dk_names d) n = Some i \<and> js_get (dk_kept d) n = Some i \<and> dk_data d i = s)"

definition active :: "'r append \<Rightarrow> bool" where
  "active a \<longleftrightarrow> ap_pc a \<noteq> ApOpen \<and> ap_pc a \<noteq> ApDone"

definition append_ok :: "'r journal_env \<Rightarrow> 'r append \<Rightarrow> bool" where
  "append_ok E a \<longleftrightarrow> ap_text a = entry_text E (ap_result a) \<and> good_entry E (ap_dest a) (ap_text a)
     \<and> je_matchId E (ap_result a) \<noteq> None \<and> ap_dest a = entry_name E (the (je_matchId E (ap_result a))) \<and> \<not> json_name (ap_temp a)"

definition worker_inv :: "string set \<Rightarrow> disk \<Rightarrow> 'r append \<Rightarrow> bool" where
  "worker_inv acked d a \<longleftrightarrow>
     (active a \<longrightarrow> js_get (dk_names d) (ap_temp a) = Some (ap_inode a))
   \<and> (ap_pc a = ApWrite \<longrightarrow> (\<forall>n. json_name n \<longrightarrow> \<not> refers d n (ap_inode a)))
   \<and> (ap_pc a = ApSync \<longrightarrow> dk_data d (ap_inode a) = ap_text a)
   \<and> (ap_pc a = ApClose \<and> ap_error a = None \<or> ap_pc a = ApLink \<longrightarrow> dk_data d (ap_inode a) = ap_text a \<and> ap_inode a \<in> dk_synced d)
   \<and> (ap_pc a = ApDirectory \<longrightarrow> ap_dest a \<in> acked \<or> present d (ap_dest a) (ap_text a))
   \<and> ((ap_pc a = ApUnlink \<or> ap_pc a = ApDone) \<and> ap_error a = None \<longrightarrow> ap_dest a \<in> acked \<or> durable d (ap_dest a) (ap_text a))"

text \<open>What a call of an append leaves to the others.\<close>

definition frame :: "string set \<Rightarrow> 'r append \<Rightarrow> disk \<Rightarrow> disk \<Rightarrow> bool" where
  "frame acked a d d' \<longleftrightarrow>
     dk_fresh d \<le> dk_fresh d'
   \<and> (\<forall>i. i < dk_fresh d \<longrightarrow> \<not> active a \<or> i \<noteq> ap_inode a \<longrightarrow> dk_data d' i = dk_data d i \<and> (i \<in> dk_synced d \<longrightarrow> i \<in> dk_synced d'))
   \<and> (\<forall>n i. json_name n \<longrightarrow> refers d n i \<longrightarrow> dk_data d' i = dk_data d i \<and> (i \<in> dk_synced d \<longrightarrow> i \<in> dk_synced d'))
   \<and> (\<forall>n i. \<not> active a \<or> n \<noteq> ap_temp a \<longrightarrow> js_get (dk_names d) n = Some i \<longrightarrow> js_get (dk_names d') n = Some i)
   \<and> (\<forall>n i. json_name n \<longrightarrow> n \<notin> acked \<longrightarrow> js_get (dk_kept d) n = Some i \<longrightarrow> js_get (dk_kept d') n = Some i)
   \<and> (\<forall>n i. json_name n \<longrightarrow> refers d' n i \<longrightarrow> refers d n i \<or> active a \<and> i = ap_inode a)"

named_theorems disk_simps \<open>what the calls of the file system do to a disk\<close>

lemma fs_names [disk_simps]:
  "js_get (dk_names (fs_create n d)) m = (if m = n then Some (dk_fresh d) else js_get (dk_names d) m)"
  "js_get (dk_names (fs_link i n d)) m = (if m = n then Some i else js_get (dk_names d) m)"
  "js_get (dk_names (fs_unlink n d)) m = (if m = n then None else js_get (dk_names d) m)"
  "dk_names (fs_write i s d) = dk_names d" "dk_names (fs_sync i d) = dk_names d" "dk_names (syncDirectory d) = dk_names d"
  by (simp_all add: fs_create_def fs_link_def fs_unlink_def fs_write_def fs_sync_def syncDirectory_def js_get_set js_get_delete)

lemma fs_kept [disk_simps]:
  "dk_kept (fs_create n d) = dk_kept d" "dk_kept (fs_link i n d) = dk_kept d" "dk_kept (fs_unlink n d) = dk_kept d"
  "dk_kept (fs_write i s d) = dk_kept d" "dk_kept (fs_sync i d) = dk_kept d" "dk_kept (syncDirectory d) = dk_names d"
  by (simp_all add: fs_create_def fs_link_def fs_unlink_def fs_write_def fs_sync_def syncDirectory_def)

lemma fs_data [disk_simps]:
  "dk_data (fs_create n d) j = (if j = dk_fresh d then [] else dk_data d j)" "dk_data (fs_write i s d) j = (if j = i then s else dk_data d j)"
  "dk_data (fs_link i n d) = dk_data d" "dk_data (fs_unlink n d) = dk_data d" "dk_data (fs_sync i d) = dk_data d" "dk_data (syncDirectory d) = dk_data d"
  by (simp_all add: fs_create_def fs_link_def fs_unlink_def fs_write_def fs_sync_def syncDirectory_def)

lemma fs_synced [disk_simps]:
  "dk_synced (fs_create n d) = dk_synced d - {dk_fresh d}" "dk_synced (fs_write i s d) = dk_synced d - {i}" "dk_synced (fs_sync i d) = insert i (dk_synced d)"
  "dk_synced (fs_link i n d) = dk_synced d" "dk_synced (fs_unlink n d) = dk_synced d" "dk_synced (syncDirectory d) = dk_synced d"
  by (simp_all add: fs_create_def fs_link_def fs_unlink_def fs_write_def fs_sync_def syncDirectory_def)

lemma fs_fresh [disk_simps]:
  "dk_fresh (fs_create n d) = Suc (dk_fresh d)" "dk_fresh (fs_write i s d) = dk_fresh d" "dk_fresh (fs_sync i d) = dk_fresh d"
  "dk_fresh (fs_link i n d) = dk_fresh d" "dk_fresh (fs_unlink n d) = dk_fresh d" "dk_fresh (syncDirectory d) = dk_fresh d"
  by (simp_all add: fs_create_def fs_link_def fs_unlink_def fs_write_def fs_sync_def syncDirectory_def)

text \<open>The calls that may follow each other, with what the disk looks like then.\<close>

lemma append_step_cases:
  assumes "append_step E out (d, a) = (d', a')"
  obtains (fail) pc e where "a' = ap_fail pc e a" "d' = d" "pc = ApUnlink \<and> active a \<or> pc = ApClose \<and> active a \<or> pc = ApDone"
    | (create) "ap_pc a = ApOpen" "js_get (dk_names d) (ap_temp a) = None" "d' = fs_create (ap_temp a) d" "a' = ap_goto ApWrite (a\<lparr>ap_inode := dk_fresh d\<rparr>)"
    | (whole) "ap_pc a = ApWrite" "d' = fs_write (ap_inode a) (ap_text a) d" "a' = ap_goto ApSync a"
    | (part) k where "ap_pc a = ApWrite" "d' = fs_write (ap_inode a) (take k (ap_text a)) d" "a' = ap_fail ApClose CallFailed a"
    | (flush) "ap_pc a = ApSync" "d' = fs_sync (ap_inode a) d" "a' = ap_goto ApClose a"
    | (close) "ap_pc a = ApClose" "ap_error a = None" "d' = d" "a' = ap_goto ApLink a"
    | (shut) "ap_pc a = ApClose" "ap_error a \<noteq> None" "d' = d" "a' = ap_goto ApUnlink a"
    | (exists) "ap_pc a = ApLink" "d' = d" "a' = ap_goto ApCompare a"
    | (link) i where "ap_pc a = ApLink" "js_get (dk_names d) (ap_temp a) = Some i" "js_get (dk_names d) (ap_dest a) = None" "d' = fs_link i (ap_dest a) d" "a' = ap_goto ApDirectory a"
    | (same) "ap_pc a = ApCompare" "present d (ap_dest a) (ap_text a)" "d' = d" "a' = ap_goto ApDirectory a"
    | (dir) "ap_pc a = ApDirectory" "d' = syncDirectory d" "a' = ap_goto ApUnlink a"
    | (half) "ap_pc a = ApDirectory" "d' = syncDirectory d" "a' = ap_fail ApUnlink CallFailed a"
    | (remove) "ap_pc a = ApUnlink" "d' = fs_unlink (ap_temp a) d" "a' = ap_goto ApDone a"
    | (stay) "ap_pc a = ApDone" "d' = d" "a' = a"
proof (cases "ap_pc a")
  case ApOpen
  then show thesis using assms
    by (cases "out \<noteq> Fine \<or> js_has (dk_names d) (ap_temp a)") (auto simp: append_step_def js_has_def intro: fail create)
next
  case ApWrite
  then show thesis using assms by (cases out) (auto simp: append_step_def intro: whole part)
next
  case ApSync
  then show thesis using assms by (cases "out = Fine") (auto simp: append_step_def active_def intro: fail flush)
next
  case ApClose
  then show thesis using assms
    by (cases "out = Fine"; cases "ap_error a = None") (auto simp: append_step_def active_def intro: fail close shut)
next
  case ApLink
  show thesis
  proof (cases "out = Fine")
    case True
    then show thesis using assms ApLink
      by (cases "js_get (dk_names d) (ap_temp a)"; cases "js_get (dk_names d) (ap_dest a)")
        (auto simp: append_step_def active_def js_has_def intro: fail exists link)
  qed (use assms ApLink in \<open>auto simp: append_step_def active_def intro: fail\<close>)
next
  case ApCompare
  show thesis
  proof (cases "read_file E d (ap_dest a)")
    case (Inl e)
    then show thesis using assms ApCompare by (cases "out = Fine") (auto simp: append_step_def active_def intro: fail)
  next
    case (Inr raw)
    then have "raw = ap_text a \<Longrightarrow> present d (ap_dest a) (ap_text a)"
      by (auto simp: read_file_def present_def split: option.splits if_splits)
    then show thesis using assms ApCompare Inr
      by (cases "out = Fine"; cases "raw = ap_text a") (auto simp: append_step_def active_def intro: fail same)
  qed
next
  case ApDirectory
  show thesis
  proof (cases out)
    case Fine
    then show thesis using assms ApDirectory by (auto simp: append_step_def intro: dir)
  next
    case (Fails k)
    then show thesis using assms ApDirectory by (cases "k = 0") (auto simp: append_step_def active_def intro: fail half)
  qed
next
  case ApUnlink
  then show thesis using assms by (cases "out = Fine") (auto simp: append_step_def intro: fail remove)
next
  case ApDone
  then show thesis using assms by (auto simp: append_step_def intro: stay)
qed

lemmas goto_simps = ap_goto_def ap_fail_def active_def

lemma disk_invD:
  assumes "disk_inv E acked d"
  shows "refers d n i \<Longrightarrow> i < dk_fresh d" and "json_name n \<Longrightarrow> refers d n i \<Longrightarrow> i \<in> dk_synced d"
    and "json_name n \<Longrightarrow> refers d n i \<Longrightarrow> good_entry E n (dk_data d i)"
    and "json_name n \<Longrightarrow> n \<notin> acked \<Longrightarrow> js_get (dk_kept d) n = Some i \<Longrightarrow> js_get (dk_names d) n = Some i"
  using assms unfolding disk_inv_def by blast+

lemma append_okD:
  assumes "append_ok E a"
  shows "ap_text a = entry_text E (ap_result a)" and "good_entry E (ap_dest a) (ap_text a)" and "json_name (ap_dest a)"
    and "\<not> json_name (ap_temp a)"
  using assms by (auto simp only: append_ok_def json_entry_name)

lemma worker_invD:
  assumes "worker_inv acked d a"
  shows "active a \<Longrightarrow> js_get (dk_names d) (ap_temp a) = Some (ap_inode a)"
    and "ap_pc a = ApWrite \<Longrightarrow> json_name n \<Longrightarrow> \<not> refers d n (ap_inode a)"
    and "ap_pc a = ApSync \<Longrightarrow> dk_data d (ap_inode a) = ap_text a"
    and "ap_pc a = ApClose \<Longrightarrow> ap_error a = None \<Longrightarrow> dk_data d (ap_inode a) = ap_text a \<and> ap_inode a \<in> dk_synced d"
    and "ap_pc a = ApLink \<Longrightarrow> dk_data d (ap_inode a) = ap_text a \<and> ap_inode a \<in> dk_synced d"
    and "ap_pc a = ApDirectory \<Longrightarrow> ap_dest a \<in> acked \<or> present d (ap_dest a) (ap_text a)"
    and "ap_pc a = ApUnlink \<Longrightarrow> ap_error a = None \<Longrightarrow> ap_dest a \<in> acked \<or> durable d (ap_dest a) (ap_text a)"
    and "ap_pc a = ApDone \<Longrightarrow> ap_error a = None \<Longrightarrow> ap_dest a \<in> acked \<or> durable d (ap_dest a) (ap_text a)"
  using assms unfolding worker_inv_def by blast+

lemma append_frame:
  assumes D: "disk_inv E acked d" and W: "worker_inv acked d a" and A: "append_ok E a" and step: "append_step E out (d, a) = (d', a')"
  shows "frame acked a d d'"
proof -
  note kept = disk_invD(4) [OF D]
  have temp: "\<not> json_name (ap_temp a)" using append_okD [OF A] by blast
  have fresh: "refers d n i \<Longrightarrow> i < dk_fresh d" for n i using disk_invD(1) [OF D] .
  from step show ?thesis
  proof (cases rule: append_step_cases)
    case create
    then show ?thesis using fresh temp unfolding frame_def by (auto simp: disk_simps refers_def active_def dest: less_not_refl2)
  next
    case whole
    then show ?thesis using worker_invD(2) [OF W whole(1)] unfolding frame_def by (auto simp: disk_simps refers_def active_def)
  next
    case (part k)
    then show ?thesis using worker_invD(2) [OF W part(1)] unfolding frame_def by (auto simp: disk_simps refers_def active_def)
  next
    case (link i)
    then show ?thesis using worker_invD(1) [OF W] unfolding frame_def by (auto simp: disk_simps refers_def active_def)
  next
    case remove
    then show ?thesis using temp unfolding frame_def by (auto simp: disk_simps refers_def active_def split: if_splits)
  qed (use kept in \<open>auto simp: frame_def disk_simps refers_def\<close>)
qed

lemma append_keeps_disk:
  assumes D: "disk_inv E acked d" and W: "worker_inv acked d a" and A: "append_ok E a" and step: "append_step E out (d, a) = (d', a')"
  shows "disk_inv E acked d'"
proof -
  have temp: "\<not> json_name (ap_temp a)" using append_okD [OF A] by blast
  from step show ?thesis
  proof (cases rule: append_step_cases)
    case create
    have fresh: "refers d n i \<Longrightarrow> i < dk_fresh d" for n i using disk_invD(1) [OF D] .
    then have "refers d n i \<Longrightarrow> i \<noteq> dk_fresh d" for n i by blast
    then show ?thesis using D temp fresh unfolding create(3) disk_inv_def
      by (auto simp: disk_simps refers_def less_Suc_eq split: if_splits)
  next
    case whole
    then show ?thesis using D worker_invD(2) [OF W whole(1)] unfolding disk_inv_def refers_def by (auto simp: disk_simps refers_def)
  next
    case (part k)
    then show ?thesis using D worker_invD(2) [OF W part(1)] unfolding disk_inv_def refers_def by (auto simp: disk_simps refers_def)
  next
    case (link i)
    have i: "i = ap_inode a" "dk_data d i = ap_text a" "i \<in> dk_synced d" "i < dk_fresh d"
      using link worker_invD(1,5) [OF W] disk_invD(1) [OF D, of "ap_temp a"] by (auto simp: active_def refers_def)
    have "good_entry E (ap_dest a) (ap_text a)" using append_okD(2) [OF A] .
    then show ?thesis using D i link(3) unfolding link(4) disk_inv_def refers_def by (auto simp: disk_simps split: if_splits)
  next
    case remove
    then show ?thesis using D temp unfolding disk_inv_def refers_def by (auto simp: disk_simps split: if_splits)
  qed (use D in \<open>auto simp: disk_inv_def disk_simps refers_def\<close>)
qed

lemma append_keeps_self:
  assumes D: "disk_inv E acked d" and W: "worker_inv acked d a" and A: "append_ok E a" and step: "append_step E out (d, a) = (d', a')"
  shows "worker_inv acked d' a'"
proof -
  have temp: "\<not> json_name (ap_temp a)" and dest: "json_name (ap_dest a)" using append_okD [OF A] by blast+
  then have apart: "ap_dest a \<noteq> ap_temp a" by metis
  from step show ?thesis
  proof (cases rule: append_step_cases)
    case (fail pc e)
    then show ?thesis using worker_invD(1) [OF W] by (auto simp: worker_inv_def goto_simps)
  next
    case create
    have "refers d n i \<Longrightarrow> i < dk_fresh d" for n i using disk_invD(1) [OF D] .
    then show ?thesis using create temp by (auto simp: worker_inv_def goto_simps disk_simps refers_def)
  next
    case dir
    then show ?thesis using worker_invD(1,6) [OF W] by (auto simp: worker_inv_def goto_simps disk_simps present_def durable_def)
  next
    case remove
    then show ?thesis using worker_invD(7) [OF W] apart by (auto simp: worker_inv_def goto_simps disk_simps durable_def)
  next
    case (link i)
    then show ?thesis using worker_invD(1,5) [OF W] apart by (auto simp: worker_inv_def goto_simps disk_simps present_def)
  next
    case stay
    then show ?thesis using W by simp
  qed (use W in \<open>auto simp: worker_inv_def goto_simps disk_simps refers_def\<close>)
qed

text \<open>Another worker keeps what it relies on.\<close>

lemma frame_keeps_promise:
  assumes "frame acked a d d'" and "json_name n" and "n \<noteq> ap_temp a"
  shows "present d n s \<Longrightarrow> present d' n s" and "n \<notin> acked \<Longrightarrow> durable d n s \<Longrightarrow> durable d' n s"
  using assms unfolding frame_def present_def durable_def refers_def by blast+

lemma frame_keeps_other:
  assumes D: "disk_inv E acked d" and F: "frame acked a d d'" and W: "worker_inv acked d b" and B: "append_ok E b" and A: "append_ok E a"
    and apart: "active a \<Longrightarrow> active b \<Longrightarrow> ap_inode a \<noteq> ap_inode b" and Wa: "worker_inv acked d a"
  shows "worker_inv acked d' b"
proof -
  have dest: "json_name (ap_dest b)" "ap_dest b \<noteq> ap_temp a" using append_okD(3) [OF B] append_okD(4) [OF A] by auto
  have temps: "active a \<Longrightarrow> active b \<Longrightarrow> ap_temp a \<noteq> ap_temp b" using apart worker_invD(1) [OF W] worker_invD(1) [OF Wa] by force
  have named: "active b \<Longrightarrow> js_get (dk_names d') (ap_temp b) = Some (ap_inode b)"
    using F worker_invD(1) [OF W] temps unfolding frame_def by metis
  have old: "active b \<Longrightarrow> ap_inode b < dk_fresh d" using disk_invD(1) [OF D, of "ap_temp b"] worker_invD(1) [OF W] by (simp add: refers_def)
  then have data: "active b \<Longrightarrow> dk_data d' (ap_inode b) = dk_data d (ap_inode b) \<and> (ap_inode b \<in> dk_synced d \<longrightarrow> ap_inode b \<in> dk_synced d')"
    using F apart unfolding frame_def by metis
  have hidden: "active b \<Longrightarrow> json_name n \<Longrightarrow> refers d' n (ap_inode b) \<Longrightarrow> refers d n (ap_inode b)" for n
    using F apart unfolding frame_def by metis
  have runs: "ap_pc b = pc \<Longrightarrow> pc \<noteq> ApOpen \<Longrightarrow> pc \<noteq> ApDone \<Longrightarrow> active b" for pc by (simp add: active_def)
  show ?thesis
    unfolding worker_inv_def
  proof (intro conjI impI allI, goal_cases)
    case 1
    then show ?case by (rule named)
  next
    case (2 n)
    then show ?case using hidden runs worker_invD(2) [OF W] by blast
  next
    case 3
    then show ?case using data runs [OF 3] worker_invD(3) [OF W 3] by simp
  next
    case 4
    then have "active b" by (auto simp: active_def)
    then show ?case using 4 data worker_invD(4,5) [OF W] by auto
  next
    case 5
    then have "active b" by (auto simp: active_def)
    then show ?case using 5 data worker_invD(4,5) [OF W] by auto
  next
    case 6
    then show ?case using worker_invD(6) [OF W 6] frame_keeps_promise(1) [OF F dest] by blast
  next
    case 7
    then show ?case using worker_invD(7,8) [OF W] frame_keeps_promise(2) [OF F dest] by blast
  qed
qed

section \<open>Every reachable state\<close>

definition world_inv :: "'r journal_env \<Rightarrow> 'r journal_world \<Rightarrow> bool" where
  "world_inv E w \<longleftrightarrow>
     disk_inv E (jw_acked w) (jw_disk w)
   \<and> (\<forall>k a. jw_work w k = Some a \<longrightarrow> append_ok E a \<and> worker_inv (jw_acked w) (jw_disk w) a)
   \<and> (\<forall>k l a b. jw_work w k = Some a \<longrightarrow> jw_work w l = Some b \<longrightarrow> k \<noteq> l \<longrightarrow> active a \<longrightarrow> active b \<longrightarrow> ap_inode a \<noteq> ap_inode b)
   \<and> (\<forall>r \<in> jw_returned w. \<exists>m. je_matchId E r = Some m \<and> (entry_name E m \<in> jw_acked w \<or> durable (jw_disk w) (entry_name E m) (entry_text E r)))"

lemma world_invD:
  assumes "world_inv E w"
  shows "disk_inv E (jw_acked w) (jw_disk w)"
    and "jw_work w k = Some a \<Longrightarrow> append_ok E a" and "jw_work w k = Some a \<Longrightarrow> worker_inv (jw_acked w) (jw_disk w) a"
    and "jw_work w k = Some a \<Longrightarrow> jw_work w l = Some b \<Longrightarrow> k \<noteq> l \<Longrightarrow> active a \<Longrightarrow> active b \<Longrightarrow> ap_inode a \<noteq> ap_inode b"
    and "r \<in> jw_returned w \<Longrightarrow> \<exists>m. je_matchId E r = Some m \<and> (entry_name E m \<in> jw_acked w \<or> durable (jw_disk w) (entry_name E m) (entry_text E r))"
  using assms unfolding world_inv_def by blast+

lemma append_step_same:
  "append_step E out (d, a) = (d', a') \<Longrightarrow> ap_result a' = ap_result a \<and> ap_text a' = ap_text a \<and> ap_dest a' = ap_dest a \<and> ap_temp a' = ap_temp a"
  by (erule append_step_cases) (simp_all add: goto_simps)

lemma append_step_inode:
  assumes "append_step E out (d, a) = (d', a')" and "active a'"
  shows "active a \<and> ap_inode a' = ap_inode a \<or> ap_inode a' = dk_fresh d"
  using assms by (elim append_step_cases) (auto simp: goto_simps)

lemma append_step_ok: "append_step E out (d, a) = (d', a') \<Longrightarrow> append_ok E a \<Longrightarrow> append_ok E a'"
  using append_step_same unfolding append_ok_def by metis

lemma append_begin_ok:
  assumes "append_begin E r m uuid = Inr a" and "je_matchId E r = Some m" and "m \<noteq> []"
  shows "append_ok E a \<and> ap_result a = r \<and> ap_pc a = ApOpen"
proof -
  have small: "je_bytes E (entry_text E r) \<le> MAX_RESULT_JOURNAL_BYTES"
    and a: "a = \<lparr>ap_pc = ApOpen, ap_result = r, ap_text = entry_text E r, ap_dest = entry_name E m, ap_temp = temp_name uuid, ap_inode = 0, ap_error = None\<rparr>"
    using assms(1) by (auto simp: append_begin_def entry_text_def Let_def split: if_splits)
  have "good_entry E (entry_name E m) (entry_text E r)" using assms(2,3) small unfolding good_entry_def by blast
  then show ?thesis using assms(2) by (simp add: a append_ok_def)
qed

lemma disk_inv_mono: "disk_inv E acked d \<Longrightarrow> acked \<subseteq> acked' \<Longrightarrow> disk_inv E acked' d"
  unfolding disk_inv_def by blast

lemma worker_inv_mono: "worker_inv acked d a \<Longrightarrow> acked \<subseteq> acked' \<Longrightarrow> worker_inv acked' d a"
  unfolding worker_inv_def by blast

lemma world_inv_call:
  assumes I: "world_inv E w" and a: "jw_work w k = Some a" and step: "append_step E out (jw_disk w, a) = (d', a')"
  shows "world_inv E (w\<lparr>jw_disk := d', jw_work := (jw_work w)(k := Some a')\<rparr>)"
proof -
  note D = world_invD(1) [OF I] and ok = world_invD(2) [OF I] and W = world_invD(3) [OF I] and apart = world_invD(4) [OF I]
  note F = append_frame [OF D W [OF a] ok [OF a] step]
  have others: "worker_inv (jw_acked w) d' b" if "jw_work w l = Some b" "l \<noteq> k" for l b
    using frame_keeps_other [OF D F W ok ok [OF a] apart W [OF a]] that a by metis
  have inodes: "ap_inode a' \<noteq> ap_inode b" if b: "jw_work w l = Some b" "l \<noteq> k" "active a'" "active b" for l b
  proof -
    have "ap_inode b < dk_fresh (jw_disk w)"
      using disk_invD(1) [OF D, of "ap_temp b"] worker_invD(1) [OF W [OF b(1)] b(4)] by (simp add: refers_def)
    then show ?thesis using append_step_inode [OF step b(3)] apart [OF a b(1)] b by auto
  qed
  have returned: "\<exists>m. je_matchId E r = Some m \<and> (entry_name E m \<in> jw_acked w \<or> durable d' (entry_name E m) (entry_text E r))"
    if r: "r \<in> jw_returned w" for r
  proof -
    obtain m where m: "je_matchId E r = Some m" "entry_name E m \<in> jw_acked w \<or> durable (jw_disk w) (entry_name E m) (entry_text E r)"
      using world_invD(5) [OF I r] by blast
    have "entry_name E m \<noteq> ap_temp a" using append_okD(4) [OF ok [OF a]] by (metis json_entry_name)
    then show ?thesis using m frame_keeps_promise(2) [OF F json_entry_name] by blast
  qed
  have pairs: "ap_inode x \<noteq> ap_inode y"
    if "((jw_work w)(k := Some a')) i = Some x" "((jw_work w)(k := Some a')) j = Some y" "i \<noteq> j" "active x" "active y" for i j x y
    using that apart inodes by (cases "i = k"; cases "j = k") (simp_all, metis+)
  have mine: "append_ok E x \<and> worker_inv (jw_acked w) d' x" if "((jw_work w)(k := Some a')) i = Some x" for i x
    using that append_keeps_self [OF D W [OF a] ok [OF a] step] append_step_ok [OF step ok [OF a]] ok others by (cases "i = k") simp_all
  show ?thesis
    using append_keeps_disk [OF D W [OF a] ok [OF a] step] mine pairs returned unfolding world_inv_def by simp
qed

text \<open>The system syncs the directory, or somebody removes an entry.\<close>

lemma world_inv_sync:
  assumes I: "world_inv E w"
  shows "world_inv E (w\<lparr>jw_disk := syncDirectory (jw_disk w)\<rparr>)"
proof -
  have D: "disk_inv E (jw_acked w) (syncDirectory (jw_disk w))"
    using world_invD(1) [OF I] unfolding disk_inv_def refers_def by (auto simp: disk_simps)
  have W: "worker_inv (jw_acked w) (syncDirectory (jw_disk w)) a" if "worker_inv (jw_acked w) (jw_disk w) a" for a
    using that unfolding worker_inv_def refers_def present_def durable_def by (auto simp: disk_simps)
  have R: "durable (jw_disk w) n s \<Longrightarrow> durable (syncDirectory (jw_disk w)) n s" for n s by (auto simp: durable_def disk_simps)
  show ?thesis
    using I D W R unfolding world_inv_def by simp blast
qed

lemma world_inv_acknowledge:
  assumes I: "world_inv E w"
  shows "world_inv E (w\<lparr>jw_disk := ack_unlink E m (jw_disk w), jw_acked := insert (entry_name E m) (jw_acked w)\<rparr>)"
proof -
  define d where "d = jw_disk w"
  define n where "n = entry_name E m"
  define acked where "acked = insert n (jw_acked w)"
  have json: "json_name n" by (simp add: n_def)
  have D: "disk_inv E acked (fs_unlink n d)"
    using world_invD(1) [OF I] unfolding disk_inv_def refers_def acked_def d_def [symmetric] by (auto simp: disk_simps split: if_splits)
  have kept: "\<And>k s. k \<noteq> n \<Longrightarrow> present d k s \<Longrightarrow> present (fs_unlink n d) k s" "\<And>k s. k \<noteq> n \<Longrightarrow> durable d k s \<Longrightarrow> durable (fs_unlink n d) k s"
    by (auto simp: present_def durable_def disk_simps)
  have W: "worker_inv acked (fs_unlink n d) a" if "append_ok E a" "worker_inv (jw_acked w) d a" for a
  proof -
    have "ap_temp a \<noteq> n" using append_okD(4) [OF that(1)] json by metis
    then show ?thesis
      using that(2) kept [of "ap_dest a" "ap_text a"] unfolding worker_inv_def acked_def refers_def
      by (auto simp: disk_simps split: if_splits)
  qed
  show ?thesis
    using I D W kept(2) unfolding world_inv_def ack_unlink_def n_def [symmetric] d_def [symmetric] acked_def [symmetric]
    by simp (metis acked_def insert_iff)
qed

lemma world_inv_power:
  assumes I: "world_inv E w" and P: "power_loss (jw_disk w) d'"
  shows "world_inv E (w\<lparr>jw_disk := d', jw_work := (\<lambda>_. None)\<rparr>)"
proof -
  note D = world_invD(1) [OF I]
  have names: "js_get (dk_names d') n = js_get (dk_names (jw_disk w)) n \<or> js_get (dk_names d') n = js_get (dk_kept (jw_disk w)) n" for n
    using P by (simp add: power_loss_def)
  have rest: "dk_kept d' = dk_names d'" "dk_synced d' = dk_synced (jw_disk w)" "dk_fresh d' = dk_fresh (jw_disk w)"
      "\<And>i. i \<in> dk_synced (jw_disk w) \<Longrightarrow> dk_data d' i = dk_data (jw_disk w) i"
    using P by (simp_all add: power_loss_def)
  have old: "refers d' n i \<Longrightarrow> refers (jw_disk w) n i" for n i using names [of n] by (auto simp: refers_def rest(1))
  have D': "disk_inv E (jw_acked w) d'"
    unfolding disk_inv_def rest using disk_invD [OF D] old rest(4) by (metis rest(1))
  have "durable d' n s" if d: "durable (jw_disk w) n s" and json: "json_name n" for n s
  proof -
    obtain i where i: "js_get (dk_names (jw_disk w)) n = Some i" "js_get (dk_kept (jw_disk w)) n = Some i" "dk_data (jw_disk w) i = s"
      using d by (auto simp: durable_def)
    then have "i \<in> dk_synced (jw_disk w)" using disk_invD(2) [OF D json] by (simp add: refers_def)
    then have "dk_data d' i = s" using i(3) rest(4) by simp
    moreover have "js_get (dk_names d') n = Some i" using names [of n] i(1,2) by metis
    ultimately show ?thesis by (simp add: durable_def rest(1))
  qed
  then show ?thesis using I D' unfolding world_inv_def by simp (metis json_entry_name)
qed

lemma world_inv_step: "journal_step E w w' \<Longrightarrow> world_inv E w \<Longrightarrow> world_inv E w'"
proof (induction rule: journal_step.induct)
  case (begin_append w k r m uuid a)
  have "append_ok E a" "ap_pc a = ApOpen" using append_begin_ok [OF begin_append(4,2,3)] by blast+
  moreover have "worker_inv (jw_acked w) (jw_disk w) a" using calculation by (simp add: worker_inv_def active_def)
  ultimately show ?case using begin_append(5) unfolding world_inv_def by (simp add: active_def)
next
  case (call w k a out d' a')
  then show ?case by (intro world_inv_call)
next
  case (return w k a)
  have ok: "append_ok E a" "worker_inv (jw_acked w) (jw_disk w) a" using world_invD(2,3) [OF return(3,1)] by blast+
  have "\<exists>m. je_matchId E (ap_result a) = Some m \<and> (entry_name E m \<in> jw_acked w \<or> durable (jw_disk w) (entry_name E m) (entry_text E (ap_result a)))"
    if "ap_error a = None"
    using worker_invD(8) [OF ok(2) return(2) that] ok(1) unfolding append_ok_def by auto
  then show ?case using return(3) unfolding world_inv_def by auto
next
  case (die w k)
  then show ?case unfolding world_inv_def by simp
qed (simp_all add: world_inv_acknowledge world_inv_sync world_inv_power)

lemma world_inv_reached: "(journal_step E)\<^sup>*\<^sup>* new_journal w \<Longrightarrow> world_inv E w"
proof (induction rule: rtranclp_induct)
  case base
  show ?case by (simp add: world_inv_def new_journal_def disk_inv_def refers_def empty_disk_def)
qed (rule world_inv_step)

lemma decode_good:
  assumes "journal_laws E" and "good_entry E n s"
  shows "\<exists>r m. decode_entry E n s = Some r \<and> je_matchId E r = Some m \<and> n = entry_name E m \<and> s = entry_text E r"
proof -
  obtain r m where r: "je_matchId E r = Some m" "m \<noteq> []" "n = entry_name E m" "s = entry_text E r"
    using assms(2) unfolding good_entry_def by blast
  then have "decode_entry E n s = Some r" using assms(1) by (simp add: decode_entry_def entry_text_def journal_laws_def)
  with r show ?thesis by blast
qed

lemma read_good:
  assumes "disk_inv E acked d" and "json_name n" and "refers d n i" and "js_get (dk_names d) n = Some i"
  shows "read_file E d n = Inr (dk_data d i)"
  using disk_invD(3) [OF assms(1-3)] assms(4) by (auto simp: read_file_def good_entry_def)

lemma batch_subset: "set (journal_batch cursor limit names) \<subseteq> set names"
proof -
  have "set (take limit (drop i xs @ take i xs)) \<subseteq> set xs" for i and xs :: "string list"
    by (auto dest!: in_set_takeD dest: in_set_dropD in_set_takeD)
  from this [of _ "sort names"] show ?thesis by (simp add: journal_batch_def Let_def)
qed

text \<open>
  C11. The journal is never corrupt. However workers append to the shared directory, fail between any two calls, die or lose power, every entry
  that a worker then lists can be read and decoded, and is the result of the match that its name belongs to: what a crash leaves
  behind is a complete entry or a temporary file that is never listed.
\<close>

theorem journal_healthy:
  assumes "journal_laws E" and "(journal_step E)\<^sup>*\<^sup>* new_journal w" and "0 < limit"
  shows "\<exists>rs cursor'. journal_entries E limit (read_file E (jw_disk w)) cursor (journal_names (jw_disk w)) = Inr (rs, cursor')
    \<and> map (\<lambda>r. entry_name E (the (je_matchId E r))) rs = journal_batch cursor limit (journal_names (jw_disk w))"
proof -
  define d where "d = jw_disk w"
  have D: "disk_inv E (jw_acked w) d" unfolding d_def by (rule world_invD(1) [OF world_inv_reached [OF assms(2)]])
  have one: "\<exists>raw r m. read_file E d n = Inr raw \<and> decode_entry E n raw = Some r \<and> je_matchId E r = Some m \<and> n = entry_name E m"
    if "n \<in> set (journal_names d)" for n
  proof -
    have json: "json_name n" and "n \<in> fst ` set (dk_names d)" using that by (auto simp: journal_names_def json_name_def)
    then obtain i where i: "js_get (dk_names d) n = Some i" by (metis js_get_def map_of_eq_None_iff option.exhaust)
    then have "refers d n i" by (simp add: refers_def)
    then show ?thesis using read_good [OF D json _ i] decode_good [OF assms(1) disk_invD(3) [OF D json]] by metis
  qed
  have batch: "\<exists>rs. read_batch E (read_file E d) ns = Inr rs \<and> map (\<lambda>r. entry_name E (the (je_matchId E r))) rs = ns"
    if "set ns \<subseteq> set (journal_names d)" for ns
    using that
  proof (induction ns)
    case (Cons n ns)
    then obtain rs where "read_batch E (read_file E d) ns = Inr rs" "map (\<lambda>r. entry_name E (the (je_matchId E r))) rs = ns" by auto
    moreover obtain raw r m where "read_file E d n = Inr raw" "decode_entry E n raw = Some r" "je_matchId E r = Some m" "n = entry_name E m"
      using one [of n] Cons.prems by auto
    ultimately show ?case by simp
  qed simp
  obtain rs where "read_batch E (read_file E d) (journal_batch cursor limit (journal_names d)) = Inr rs"
      "map (\<lambda>r. entry_name E (the (je_matchId E r))) rs = journal_batch cursor limit (journal_names d)"
    using batch [OF batch_subset] by blast
  then show ?thesis using assms(3) by (simp add: journal_entries_def Let_def d_def)
qed

lemma journal_kept:
  assumes "journal_laws E" and I: "world_inv E w" and "r \<in> jw_returned w" and "d' = jw_disk w \<or> power_loss (jw_disk w) d'"
  shows "\<exists>m. je_matchId E r = Some m \<and> (entry_name E m \<in> jw_acked w \<or>
    (\<exists>raw. read_file E d' (entry_name E m) = Inr raw \<and> decode_entry E (entry_name E m) raw = Some r))"
proof -
  obtain v where v: "world_inv E v" "jw_disk v = d'" "jw_returned v = jw_returned w" "jw_acked v = jw_acked w"
  proof (cases "d' = jw_disk w")
    case True
    then show thesis using that [of w] I by simp
  next
    case False
    then show thesis using that [of "w\<lparr>jw_disk := d', jw_work := (\<lambda>_. None)\<rparr>"] world_inv_power [OF I, of d'] assms(4) by simp
  qed
  obtain m where m: "je_matchId E r = Some m" "entry_name E m \<in> jw_acked w \<or> durable d' (entry_name E m) (entry_text E r)"
    using world_invD(5) [OF v(1), of r] assms(3) unfolding v by blast
  show ?thesis
  proof (cases "entry_name E m \<in> jw_acked w")
    case False
    then obtain i where i: "js_get (dk_names d') (entry_name E m) = Some i" "dk_data d' i = entry_text E r" using m(2) by (auto simp: durable_def)
    have D: "disk_inv E (jw_acked v) d'" using world_invD(1) [OF v(1)] v(2) by simp
    have refs: "refers d' (entry_name E m) i" using i(1) by (simp add: refers_def)
    have read: "read_file E d' (entry_name E m) = Inr (entry_text E r)" using read_good [OF D json_entry_name refs i(1)] i(2) by simp
    have good: "good_entry E (entry_name E m) (entry_text E r)" using disk_invD(3) [OF D json_entry_name refs] i(2) by simp
    then obtain r' where r': "decode_entry E (entry_name E m) (entry_text E r) = Some r'" "entry_text E r = entry_text E r'"
      using decode_good [OF assms(1) good] by blast
    then have "r' = r" using assms(1) unfolding entry_text_def journal_laws_def by (metis option.inject prod.inject)
    then show ?thesis using m(1) read r' by blast
  qed (use m(1) in blast)
qed

text \<open>
  What is appended stays. A result whose append has returned without an error is read back from its entry, now and after a loss of
  power, until somebody removes the entry because the database has it.
\<close>

theorem journal_durable:
  assumes "journal_laws E" and "(journal_step E)\<^sup>*\<^sup>* new_journal w" and "r \<in> jw_returned w" and "d' = jw_disk w \<or> power_loss (jw_disk w) d'"
  shows "\<exists>m. je_matchId E r = Some m \<and> (entry_name E m \<in> jw_acked w \<or>
    (\<exists>raw. read_file E d' (entry_name E m) = Inr raw \<and> decode_entry E (entry_name E m) raw = Some r))"
  by (rule journal_kept [OF assms(1) world_inv_reached [OF assms(2)] assms(3,4)])

text \<open>An append that runs without interruption is a run of the machine.\<close>

lemma append_run_steps:
  "jw_work w k = Some a \<Longrightarrow> append_run E outs (jw_disk w, a) = (d', a')
     \<Longrightarrow> (journal_step E)\<^sup>*\<^sup>* w (w\<lparr>jw_disk := d', jw_work := (jw_work w)(k := Some a')\<rparr>)"
proof (induction outs arbitrary: w a)
  case Nil
  then have "w\<lparr>jw_disk := d', jw_work := (jw_work w)(k := Some a')\<rparr> = w" by (simp add: append_run_def fun_upd_idem)
  then show ?case by (simp only: rtranclp.rtrancl_refl)
next
  case (Cons out outs)
  obtain d1 a1 where step: "append_step E out (jw_disk w, a) = (d1, a1)" by fastforce
  define w1 where "w1 = w\<lparr>jw_disk := d1, jw_work := (jw_work w)(k := Some a1)\<rparr>"
  have "jw_work w1 k = Some a1" "append_run E outs (jw_disk w1, a1) = (d', a')"
    using Cons.prems(2) step by (simp_all add: append_run_def w1_def)
  from Cons.IH [OF this] have "(journal_step E)\<^sup>*\<^sup>* w1 (w1\<lparr>jw_disk := d', jw_work := (jw_work w1)(k := Some a')\<rparr>)" .
  moreover have "w1\<lparr>jw_disk := d', jw_work := (jw_work w1)(k := Some a')\<rparr> = w\<lparr>jw_disk := d', jw_work := (jw_work w)(k := Some a')\<rparr>"
    by (simp add: w1_def)
  moreover have "journal_step E w w1" unfolding w1_def by (rule journal_step.call [OF Cons.prems(1) step])
  ultimately show ?case by (simp only: converse_rtranclp_into_rtranclp)
qed

text \<open>Texts that are their own JSON, with a checksum of one character.\<close>

definition plain_env :: "string journal_env" where
  "plain_env = \<lparr>je_hash = (\<lambda>_. ''h''), je_stringify = (\<lambda>r. r), je_parse = (\<lambda>s. Some s), je_matchId = (\<lambda>r. Some ''m''),
     je_envelope = (\<lambda>c p. c @ p), je_open = (\<lambda>s. case s of [] \<Rightarrow> None | c # p \<Rightarrow> Some ([c], p)), je_bytes = length\<rparr>"

lemma plain_laws: "journal_laws plain_env"
  by (simp add: journal_laws_def plain_env_def)

definition plain_append :: "string append" where
  "plain_append = \<lparr>ap_pc = ApOpen, ap_result = ''r'', ap_text = ''hr'', ap_dest = ''h.json'', ap_temp = ''u.tmp'', ap_inode = 0, ap_error = None\<rparr>"

lemma plain_begin: "append_begin plain_env ''r'' ''m'' ''u'' = Inr plain_append"
  by (simp add: append_begin_def plain_env_def plain_append_def MAX_RESULT_JOURNAL_BYTES_def entry_name_def temp_name_def Let_def)

definition plain_end :: "disk \<times> string append" where
  "plain_end = append_run plain_env (replicate 7 Fine) (empty_disk, plain_append)"

lemma plain_end_done: "ap_pc (snd plain_end) = ApDone \<and> ap_error (snd plain_end) = None \<and> ap_result (snd plain_end) = ''r''"
  by code_simp

definition plain_world :: "string journal_world" where
  "plain_world = \<lparr>jw_disk = fst plain_end, jw_work = (\<lambda>_. None), jw_returned = {''r''}, jw_acked = {}\<rparr>"

lemma plain_world_reached: "(journal_step plain_env)\<^sup>*\<^sup>* new_journal plain_world"
proof -
  define w where "w = (new_journal :: string journal_world)\<lparr>jw_work := (jw_work new_journal)(0 := Some plain_append)\<rparr>"
  define v where "v = w\<lparr>jw_disk := fst plain_end, jw_work := (jw_work w)(0 := Some (snd plain_end))\<rparr>"
  have "journal_step plain_env new_journal w"
    unfolding w_def by (rule journal_step.begin_append [OF _ _ _ plain_begin]) (simp_all add: new_journal_def plain_env_def)
  moreover have "(journal_step plain_env)\<^sup>*\<^sup>* w v"
    unfolding v_def by (rule append_run_steps [where a = plain_append]) (simp_all add: w_def new_journal_def plain_end_def)
  moreover have "journal_step plain_env v plain_world"
  proof -
    have a: "jw_work v 0 = Some (snd plain_end)" by (simp add: v_def)
    have "plain_world = v\<lparr>jw_work := (jw_work v)(0 := None), jw_returned := jw_returned v \<union> (if ap_error (snd plain_end) = None then {ap_result (snd plain_end)} else {})\<rparr>"
      using plain_end_done by (simp add: plain_world_def v_def w_def new_journal_def fun_upd_idem)
    then show ?thesis using journal_step.return [OF a] plain_end_done by simp
  qed
  ultimately show ?thesis by (metis (no_types, lifting) converse_rtranclp_into_rtranclp rtranclp.rtrancl_into_rtrancl)
qed

theorem journal_healthy_witness:
  "\<exists>rs cursor'. journal_entries plain_env 1 (read_file plain_env (jw_disk plain_world)) [] (journal_names (jw_disk plain_world)) = Inr (rs, cursor')"
  using journal_healthy [OF plain_laws plain_world_reached, of 1 "[]"] by auto

theorem journal_durable_witness:
  "entry_name plain_env ''m'' \<in> jw_acked plain_world
    \<or> (\<exists>raw. read_file plain_env (jw_disk plain_world) (entry_name plain_env ''m'') = Inr raw)"
proof -
  have "''r'' \<in> jw_returned plain_world" by (simp add: plain_world_def)
  from journal_durable [OF plain_laws plain_world_reached this disjI1 [OF refl]]
  show ?thesis by (auto simp: plain_env_def)
qed

section \<open>The cursor\<close>

text \<open>The batches of consecutive calls, each beginning where the one before it ended.\<close>

fun journal_batches :: "nat \<Rightarrow> nat \<Rightarrow> string list \<Rightarrow> string \<Rightarrow> string list" where
  "journal_batches 0 limit names cursor = []"
| "journal_batches (Suc k) limit names cursor =
     (let batch = journal_batch cursor limit names in batch @ journal_batches k limit names (if batch = [] then [] else List.last batch))"

definition journal_start :: "string \<Rightarrow> string list \<Rightarrow> nat" where
  "journal_start cursor xs = (case List.find (\<lambda>i. cursor < xs ! i) [0..<length xs] of None \<Rightarrow> 0 | Some i \<Rightarrow> i)"

lemma journal_start_less: "xs \<noteq> [] \<Longrightarrow> journal_start cursor xs < length xs"
  by (auto simp: journal_start_def find_Some_iff split: option.split)

lemma journal_start_next:
  assumes "sorted_wrt (<) xs" and "p < length xs"
  shows "journal_start (xs ! p) xs = Suc p mod length xs"
proof -
  have less: "xs ! p < xs ! i \<longleftrightarrow> p < i" if "i < length xs" for i
    using assms that sorted_wrt_nth_less [OF assms(1)] by (metis linorder_neqE_nat order_less_asym order_less_irrefl)
  show ?thesis
  proof (cases "Suc p < length xs")
    case True
    have "List.find (\<lambda>i. xs ! p < xs ! i) [0..<length xs] = Some (Suc p)"
      unfolding find_Some_iff using True less by (intro exI [of _ "Suc p"]) auto
    then show ?thesis using True by (simp add: journal_start_def)
  next
    case False
    have "List.find (\<lambda>i. xs ! p < xs ! i) [0..<length xs] = None"
      unfolding find_None_iff using False less assms(2) by auto
    moreover have "Suc p = length xs" using False assms(2) by simp
    ultimately show ?thesis by (simp add: journal_start_def)
  qed
qed

lemma rotation_nth: "s < length xs \<Longrightarrow> t < length xs \<Longrightarrow> (drop s xs @ take s xs) ! t = xs ! ((s + t) mod length xs)"
  by (auto simp: nth_append mod_if add.commute)

lemma journal_batch_rotation: "journal_batch cursor limit names = (let xs = sort names; s = journal_start cursor xs in take limit (drop s xs @ take s xs))"
  by (simp add: journal_batch_def journal_start_def Let_def)

text \<open>
  C40. Every entry is reached. As long as the directory does not change, as many calls as it has batches give every entry, wherever the
  cursor starts: no entry starves behind others.
\<close>

theorem journal_visits_all:
  assumes "distinct names" and "0 < limit" and "length names \<le> k * limit"
  shows "set (journal_batches k limit names cursor) = set names"
proof -
  define xs where "xs = sort names"
  define n where "n = length xs"
  have xs: "sorted_wrt (<) xs" "set xs = set names" "n \<le> k * limit"
    using assms by (simp_all add: xs_def n_def strict_sorted_iff)
  have reach: "t < j * limit \<Longrightarrow> t < n \<Longrightarrow> xs ! ((journal_start cur xs + t) mod n) \<in> set (journal_batches j limit names cur)" for t j cur
  proof (induction j arbitrary: cur t)
    case (Suc j)
    define s where "s = journal_start cur xs"
    define batch where "batch = take limit (drop s xs @ take s xs)"
    have b: "journal_batch cur limit names = batch" by (simp add: journal_batch_rotation Let_def xs_def batch_def s_def)
    have "xs \<noteq> []" using Suc.prems(2) by (auto simp: n_def)
    then have s: "s < n" using journal_start_less by (simp add: s_def n_def)
    have len: "length batch = min limit n" using s by (simp add: batch_def n_def)
    have nth: "batch ! i = xs ! ((s + i) mod n)" if "i < length batch" for i
    proof -
      have i: "i < limit" "i < n" using that len by simp_all
      then have "batch ! i = (drop s xs @ take s xs) ! i" by (simp only: batch_def nth_take)
      then show ?thesis using rotation_nth [of s xs i] s i(2) by (simp add: n_def)
    qed
    show ?case
    proof (cases "t < limit")
      case True
      then have "batch ! t \<in> set batch" using Suc.prems(2) len by (intro nth_mem) simp
      then show ?thesis using nth [of t] True Suc.prems(2) len b by (simp add: s_def [symmetric] Let_def)
    next
      case False
      then have lim: "limit < n" "length batch = limit" using Suc.prems(2) len by simp_all
      then have ne: "batch \<noteq> []" using assms(2) by auto
      have "List.last batch = batch ! (limit - 1)" using ne lim(2) by (simp add: last_conv_nth)
      also have "\<dots> = xs ! ((s + (limit - 1)) mod n)" using nth [of "limit - 1"] lim(2) assms(2) by simp
      finally have cur': "journal_start (List.last batch) xs = (s + limit) mod n"
        using journal_start_next [OF xs(1), of "(s + (limit - 1)) mod n"] s assms(2) unfolding n_def [symmetric]
        by (simp add: mod_Suc_eq)
      have "xs ! ((journal_start (List.last batch) xs + (t - limit)) mod n) \<in> set (journal_batches j limit names (List.last batch))"
        using Suc.IH [of "t - limit" "List.last batch"] Suc.prems False by simp
      moreover have "((s + limit) mod n + (t - limit)) mod n = (s + t) mod n"
      proof -
        have "s + t = s + limit + (t - limit)" using False by simp
        then show ?thesis by (simp only: mod_add_left_eq)
      qed
      ultimately show ?thesis using b ne by (simp add: cur' s_def [symmetric] Let_def)
    qed
  qed simp
  have "set names \<subseteq> set (journal_batches k limit names cursor)"
  proof
    fix x
    assume "x \<in> set names"
    then obtain p where p: "p < n" "x = xs ! p" using xs(2) by (metis in_set_conv_nth n_def)
    define s where "s = journal_start cursor xs"
    have "xs \<noteq> []" using p(1) by (auto simp: n_def)
    then have s: "s < n" using journal_start_less by (simp add: s_def n_def)
    define t where "t = (if s \<le> p then p - s else p + n - s)"
    have t: "t < n" "(s + t) mod n = p" using s p by (auto simp: t_def)
    then show "x \<in> set (journal_batches k limit names cursor)"
      using reach [of t k cursor] xs(3) p by (simp add: s_def)
  qed
  moreover have "set (journal_batches j limit names cur) \<subseteq> set names" for j cur
    using batch_subset by (induction j arbitrary: cur) (fastforce simp: Let_def)+
  ultimately show ?thesis by blast
qed

theorem journal_visits_all_witness: "set (journal_batches 2 2 [''c'', ''a'', ''b''] ''a'') = {''a'', ''b'', ''c''}"
  using journal_visits_all [of "[''c'', ''a'', ''b'']" 2 2 "''a''"] by auto

end
