(* ===== verification/Outbox.thy ===== *)
theory Outbox
  imports JournalProps
begin

text \<open>
  \<open>server-game/src/redis/result-outbox.ts\<close>: results of matches on their way to the match server. Without a journal they wait in memory
  and are added to a Redis stream in their order. With a journal every result is written to the shared disk first, and is published
  again and again until the database has it. A synchronous part of the code is a step of its own here only where it makes calls that
  can fail; \<open>ob_sync\<close> keeps everything else out until it is over.
\<close>

section \<open>In memory\<close>

record 'r memory_box =
  mb_queue :: "'r list"
  mb_sending :: "nat option"

text \<open>\<open>None\<close> is the error of a full outbox.\<close>

definition enqueue_memory :: "nat \<Rightarrow> 'r \<Rightarrow> 'r memory_box \<Rightarrow> 'r memory_box option" where
  "enqueue_memory maxEntries r b =
     (if maxEntries \<le> length (mb_queue b) then None else Some (b\<lparr>mb_queue := mb_queue b @ [r]\<rparr>))"

text \<open>\<open>flush\<close>: a second call waits for the first; nothing happens while Redis is not ready.\<close>

definition flush_memory :: "bool \<Rightarrow> 'r memory_box \<Rightarrow> 'r memory_box" where
  "flush_memory ready b = (if mb_sending b \<noteq> None \<or> \<not> ready then b else b\<lparr>mb_sending := Some 0\<rparr>)"

text \<open>What is left of the queue after a flush that sent \<open>n\<close> results.\<close>

definition flush_splice :: "nat \<Rightarrow> 'r memory_box \<Rightarrow> 'r memory_box" where
  "flush_splice n b = b\<lparr>mb_queue := drop n (mb_queue b), mb_sending := None\<rparr>"

text \<open>One turn of the loop: the result it sends, and the outbox once the call has ended well or not.\<close>

definition flush_next :: "'r memory_box \<Rightarrow> 'r option" where
  "flush_next b = (case mb_sending b of None \<Rightarrow> None | Some n \<Rightarrow> if n < length (mb_queue b) then Some (mb_queue b ! n) else None)"

definition flush_sent :: "bool \<Rightarrow> 'r memory_box \<Rightarrow> 'r memory_box" where
  "flush_sent ok b =
     (case mb_sending b of
        None \<Rightarrow> b
      | Some n \<Rightarrow> if n < length (mb_queue b) \<and> ok then b\<lparr>mb_sending := Some (Suc n)\<rparr> else flush_splice n b)"

section \<open>With a journal\<close>

datatype sync_pc = SyIdle | SyEnqueue | SyFlush

datatype 'r flush_pc =
    FlIdle
  | FlAsk "'r list"
  | FlLease 'r "'r list"
  | FlAdd 'r "'r list"
  | FlUndo

record 'r outbox =
  ob_queue :: "'r list"
  ob_failed :: bool
  ob_cursor :: string
  ob_sync :: sync_pc
  ob_flush :: "'r flush_pc"

definition new_outbox :: "'r outbox" where
  "new_outbox = \<lparr>ob_queue = [], ob_failed = False, ob_cursor = [], ob_sync = SyIdle, ob_flush = FlIdle\<rparr>"

definition JOURNAL_BATCH :: nat where "JOURNAL_BATCH = 128"

text \<open>\<open>count\<close> is \<open>None\<close> when the directory cannot be listed, which counts as a failed journal from then on.\<close>

definition canStartNewGame :: "nat \<Rightarrow> nat option \<Rightarrow> 'r outbox \<Rightarrow> bool \<times> 'r outbox" where
  "canStartNewGame maxEntries count b =
     (if ob_failed b then (False, b)
      else case count of
          None \<Rightarrow> (False, b\<lparr>ob_failed := True\<rparr>)
        | Some c \<Rightarrow> (length (ob_queue b) + c < maxEntries, b))"

definition box_enqueue :: "'r \<Rightarrow> 'r outbox \<Rightarrow> 'r outbox" where
  "box_enqueue r b = b\<lparr>ob_queue := ob_queue b @ [r], ob_sync := SyEnqueue\<rparr>"

definition box_flush :: "'r outbox \<Rightarrow> 'r outbox" where
  "box_flush b = (if ob_flush b = FlIdle then b\<lparr>ob_sync := SyFlush\<rparr> else b)"

text \<open>The loop of \<open>persistPending\<close>: the head leaves the queue once it is in the journal, and an error ends it.\<close>

definition persist_shift :: "'r outbox \<Rightarrow> 'r outbox" where
  "persist_shift b = b\<lparr>ob_queue := drop 1 (ob_queue b)\<rparr>"

definition persist_throw :: "'r outbox \<Rightarrow> 'r outbox" where
  "persist_throw b = b\<lparr>ob_failed := True, ob_sync := SyIdle\<rparr>"

text \<open>The loop is over. A flush then reads the next batch, and publishes it when Redis is ready.\<close>

definition persist_end :: "bool \<Rightarrow> (string \<Rightarrow> journal_error + 'r list \<times> string) \<Rightarrow> 'r outbox \<Rightarrow> 'r outbox" where
  "persist_end ready entries b =
     (if ob_sync b = SyFlush then
        (case entries (ob_cursor b) of
           Inl _ \<Rightarrow> b\<lparr>ob_failed := True, ob_sync := SyIdle\<rparr>
         | Inr (rs, cursor) \<Rightarrow> b\<lparr>ob_failed := False, ob_cursor := cursor, ob_sync := SyIdle, ob_flush := if ready then FlAsk rs else FlIdle\<rparr>)
      else b\<lparr>ob_sync := SyIdle\<rparr>)"

text \<open>
  The loop over the batch. \<open>None\<close> is a call that threw. \<open>flush_ask\<close> also says whether the entry is acknowledged now; if that
  throws, the answer counts as \<open>None\<close> afterwards.
\<close>

definition flush_ask :: "bool option \<Rightarrow> 'r outbox \<Rightarrow> 'r outbox \<times> 'r option" where
  "flush_ask answer b =
     (case ob_flush b of
        FlAsk (r # rs) \<Rightarrow>
          (case answer of
             None \<Rightarrow> (b\<lparr>ob_flush := FlIdle\<rparr>, None)
           | Some True \<Rightarrow> (b\<lparr>ob_flush := FlAsk rs\<rparr>, Some r)
           | Some False \<Rightarrow> (b\<lparr>ob_flush := FlLease r rs\<rparr>, None))
      | FlAsk [] \<Rightarrow> (b\<lparr>ob_flush := FlIdle\<rparr>, None)
      | _ \<Rightarrow> (b, None))"

definition flush_lease :: "bool option \<Rightarrow> 'r outbox \<Rightarrow> 'r outbox" where
  "flush_lease granted b =
     (case ob_flush b of
        FlLease r rs \<Rightarrow>
          (case granted of
             None \<Rightarrow> b\<lparr>ob_flush := FlIdle\<rparr>
           | Some False \<Rightarrow> b\<lparr>ob_flush := FlAsk rs\<rparr>
           | Some True \<Rightarrow> b\<lparr>ob_flush := FlAdd r rs\<rparr>)
      | _ \<Rightarrow> b)"

definition flush_add :: "bool \<Rightarrow> 'r outbox \<Rightarrow> 'r outbox" where
  "flush_add ok b =
     (case ob_flush b of FlAdd r rs \<Rightarrow> b\<lparr>ob_flush := if ok then FlAsk rs else FlUndo\<rparr> | _ \<Rightarrow> b)"

text \<open>The lease is given back, whatever comes of it, and the flush ends.\<close>

definition flush_undo :: "'r outbox \<Rightarrow> 'r outbox" where
  "flush_undo b = (if ob_flush b = FlUndo then b\<lparr>ob_flush := FlIdle\<rparr> else b)"

section \<open>Nothing is lost in memory\<close>

text \<open>\<open>mw_accepted\<close> are the results that were taken, \<open>mw_confirmed\<close> those whose adding to the stream was confirmed.\<close>

record 'r memory_world =
  mw_box :: "'r memory_box"
  mw_accepted :: "'r list"
  mw_confirmed :: "'r list"

inductive memory_step :: "nat \<Rightarrow> 'r memory_world \<Rightarrow> 'r memory_world \<Rightarrow> bool" for maxEntries where
  enqueue: "enqueue_memory maxEntries r (mw_box w) = Some b
    \<Longrightarrow> memory_step maxEntries w (w\<lparr>mw_box := b, mw_accepted := mw_accepted w @ [r]\<rparr>)"
| flush: "memory_step maxEntries w (w\<lparr>mw_box := flush_memory ready (mw_box w)\<rparr>)"
| sent: "memory_step maxEntries w (w\<lparr>mw_box := flush_sent ok (mw_box w),
    mw_confirmed := mw_confirmed w @ (case flush_next (mw_box w) of Some r \<Rightarrow> if ok then [r] else [] | None \<Rightarrow> [])\<rparr>)"

definition new_memory :: "'r memory_world" where
  "new_memory = \<lparr>mw_box = \<lparr>mb_queue = [], mb_sending = None\<rparr>, mw_accepted = [], mw_confirmed = []\<rparr>"

definition sent_count :: "'r memory_box \<Rightarrow> nat" where
  "sent_count b = (case mb_sending b of None \<Rightarrow> 0 | Some n \<Rightarrow> n)"

definition memory_inv :: "nat \<Rightarrow> 'r memory_world \<Rightarrow> bool" where
  "memory_inv maxEntries w \<longleftrightarrow> sent_count (mw_box w) \<le> length (mb_queue (mw_box w)) \<and> length (mb_queue (mw_box w)) \<le> maxEntries
     \<and> mw_accepted w = mw_confirmed w @ drop (sent_count (mw_box w)) (mb_queue (mw_box w))"

lemma memory_inv_step: "memory_step maxEntries w w' \<Longrightarrow> memory_inv maxEntries w \<Longrightarrow> memory_inv maxEntries w'"
proof (induction rule: memory_step.induct)
  case (enqueue r w b)
  then show ?case by (auto simp: memory_inv_def enqueue_memory_def sent_count_def split: if_splits option.splits)
next
  case (flush w ready)
  then show ?case by (auto simp: memory_inv_def flush_memory_def sent_count_def split: option.splits)
next
  case (sent w ok)
  then show ?case
    by (cases "mb_sending (mw_box w)")
      (auto simp: memory_inv_def flush_sent_def flush_next_def flush_splice_def sent_count_def Cons_nth_drop_Suc)
qed

text \<open>
  The outbox in memory is a queue. However results come in while a flush waits for Redis and however its calls end, the results
  accepted are exactly those whose delivery was confirmed, followed by those still waiting, in the order they came: none is lost,
  none is confirmed twice, none overtakes another.
\<close>

theorem memory_outbox_fifo:
  assumes "(memory_step maxEntries)\<^sup>*\<^sup>* new_memory w"
  shows "mw_accepted w = mw_confirmed w @ drop (sent_count (mw_box w)) (mb_queue (mw_box w)) \<and> length (mb_queue (mw_box w)) \<le> maxEntries"
proof -
  from assms have "memory_inv maxEntries w"
  proof (induction rule: rtranclp_induct)
    case base
    show ?case by (simp add: memory_inv_def new_memory_def sent_count_def)
  qed (rule memory_inv_step)
  then show ?thesis by (simp add: memory_inv_def)
qed

theorem memory_outbox_fifo_witness:
  "length (mb_queue (mw_box (new_memory\<lparr>mw_box := \<lparr>mb_queue = [7 :: nat], mb_sending = None\<rparr>, mw_accepted := [7]\<rparr>))) \<le> 1"
proof -
  have "memory_step 1 new_memory (new_memory\<lparr>mw_box := \<lparr>mb_queue = [7 :: nat], mb_sending = None\<rparr>, mw_accepted := mw_accepted new_memory @ [7]\<rparr>)"
    by (rule memory_step.enqueue) (simp add: enqueue_memory_def new_memory_def)
  then have "(memory_step 1)\<^sup>*\<^sup>* new_memory (new_memory\<lparr>mw_box := \<lparr>mb_queue = [7 :: nat], mb_sending = None\<rparr>, mw_accepted := [7]\<rparr>)"
    by (simp add: new_memory_def r_into_rtranclp)
  from memory_outbox_fifo [OF this] show ?thesis by (rule conjunct2)
qed

end
