(* ===== verification/OutboxProps.thy ===== *)
theory OutboxProps
  imports Outbox
begin

text \<open>
  The outbox with a journal, beside the other workers of the shared directory: no result that was handed to it is lost.
\<close>

section \<open>One worker's outbox and the rest of the world\<close>

text \<open>
  This process is worker 0 of the journal. \<open>ow_enqueued\<close> are the results handed to \<open>enqueue\<close> by a process that lives, or that got them
  onto the disk before it died; \<open>ow_stored\<close> the matches that the database has; \<open>ow_stream\<close> what was added to the Redis stream.
\<close>

record 'r outbox_world =
  ow_journal :: "'r journal_world"
  ow_box :: "'r outbox"
  ow_enqueued :: "'r set"
  ow_stored :: "string set"
  ow_stream :: "'r list"

definition box_entries :: "'r journal_env \<Rightarrow> 'r journal_world \<Rightarrow> string \<Rightarrow> journal_error + 'r list \<times> string" where
  "box_entries E j cursor = journal_entries E JOURNAL_BATCH (read_file E (jw_disk j)) cursor (journal_names (jw_disk j))"

inductive outbox_step :: "'r journal_env \<Rightarrow> 'r outbox_world \<Rightarrow> 'r outbox_world \<Rightarrow> bool" for E where
  enqueue: "ob_sync (ow_box w) = SyIdle \<Longrightarrow> je_matchId E r = Some m \<Longrightarrow> m \<noteq> []
    \<Longrightarrow> outbox_step E w (w\<lparr>ow_box := box_enqueue r (ow_box w), ow_enqueued := insert r (ow_enqueued w)\<rparr>)"
| flush: "ob_sync (ow_box w) = SyIdle \<Longrightarrow> outbox_step E w (w\<lparr>ow_box := box_flush (ow_box w)\<rparr>)"
| persist_begin: "ob_sync (ow_box w) \<noteq> SyIdle \<Longrightarrow> ob_queue (ow_box w) = r # rs \<Longrightarrow> jw_work (ow_journal w) 0 = None
    \<Longrightarrow> je_matchId E r = Some m \<Longrightarrow> append_begin E r m uuid = Inr a
    \<Longrightarrow> outbox_step E w (w\<lparr>ow_journal := (ow_journal w)\<lparr>jw_work := (jw_work (ow_journal w))(0 := Some a)\<rparr>\<rparr>)"
| persist_refused: "ob_sync (ow_box w) \<noteq> SyIdle \<Longrightarrow> ob_queue (ow_box w) = r # rs \<Longrightarrow> jw_work (ow_journal w) 0 = None
    \<Longrightarrow> je_matchId E r = Some m \<Longrightarrow> append_begin E r m uuid = Inl e
    \<Longrightarrow> outbox_step E w (w\<lparr>ow_box := persist_throw (ow_box w)\<rparr>)"
| persist_call: "jw_work (ow_journal w) 0 = Some a \<Longrightarrow> append_step E out (jw_disk (ow_journal w), a) = (d', a')
    \<Longrightarrow> outbox_step E w (w\<lparr>ow_journal := (ow_journal w)\<lparr>jw_disk := d', jw_work := (jw_work (ow_journal w))(0 := Some a')\<rparr>\<rparr>)"
| persist_return: "jw_work (ow_journal w) 0 = Some a \<Longrightarrow> ap_pc a = ApDone
    \<Longrightarrow> outbox_step E w (w\<lparr>ow_journal := (ow_journal w)\<lparr>jw_work := (jw_work (ow_journal w))(0 := None),
          jw_returned := jw_returned (ow_journal w) \<union> (if ap_error a = None then {ap_result a} else {})\<rparr>,
        ow_box := if ap_error a = None then persist_shift (ow_box w) else persist_throw (ow_box w)\<rparr>)"
| persist_end: "ob_sync (ow_box w) \<noteq> SyIdle \<Longrightarrow> ob_queue (ow_box w) = [] \<Longrightarrow> jw_work (ow_journal w) 0 = None
    \<Longrightarrow> outbox_step E w (w\<lparr>ow_box := persist_end ready (box_entries E (ow_journal w)) (ow_box w)\<rparr>)"
| ask: "ob_sync (ow_box w) = SyIdle \<Longrightarrow> flush_ask answer (ow_box w) = (b, None) \<Longrightarrow> outbox_step E w (w\<lparr>ow_box := b\<rparr>)"
| ask_stored: "ob_sync (ow_box w) = SyIdle \<Longrightarrow> flush_ask (Some True) (ow_box w) = (b, Some r) \<Longrightarrow> je_matchId E r = Some m \<Longrightarrow> m \<in> ow_stored w
    \<Longrightarrow> outbox_step E w (w\<lparr>ow_box := b, ow_journal := (ow_journal w)\<lparr>jw_disk := ack_unlink E m (jw_disk (ow_journal w)),
          jw_acked := insert (entry_name E m) (jw_acked (ow_journal w))\<rparr>\<rparr>)"
| lease: "ob_sync (ow_box w) = SyIdle \<Longrightarrow> outbox_step E w (w\<lparr>ow_box := flush_lease granted (ow_box w)\<rparr>)"
| add: "ob_sync (ow_box w) = SyIdle \<Longrightarrow> ob_flush (ow_box w) = FlAdd r rs
    \<Longrightarrow> outbox_step E w (w\<lparr>ow_box := flush_add ok (ow_box w), ow_stream := ow_stream w @ (if ok \<or> late then [r] else [])\<rparr>)"
| undo: "ob_sync (ow_box w) = SyIdle \<Longrightarrow> outbox_step E w (w\<lparr>ow_box := flush_undo (ow_box w)\<rparr>)"
| can_start: "ob_sync (ow_box w) = SyIdle \<Longrightarrow> outbox_step E w (w\<lparr>ow_box := snd (canStartNewGame maxEntries count (ow_box w))\<rparr>)"
| store: "outbox_step E w (w\<lparr>ow_stored := insert m (ow_stored w)\<rparr>)"
| others: "journal_step E (ow_journal w) j \<Longrightarrow> jw_work j 0 = jw_work (ow_journal w) 0 \<Longrightarrow> jw_returned (ow_journal w) \<subseteq> jw_returned j
    \<Longrightarrow> jw_acked j \<subseteq> jw_acked (ow_journal w) \<union> {entry_name E m | m. m \<in> ow_stored w}
    \<Longrightarrow> outbox_step E w (w\<lparr>ow_journal := j\<rparr>)"
| restart: "outbox_step E w (w\<lparr>ow_journal := (ow_journal w)\<lparr>jw_work := (jw_work (ow_journal w))(0 := None)\<rparr>, ow_box := new_outbox,
      ow_enqueued := ow_enqueued w \<inter> jw_returned (ow_journal w)\<rparr>)"
| power: "power_loss (jw_disk (ow_journal w)) d'
    \<Longrightarrow> outbox_step E w (w\<lparr>ow_journal := (ow_journal w)\<lparr>jw_disk := d', jw_work := (\<lambda>_. None)\<rparr>, ow_box := new_outbox,
          ow_enqueued := ow_enqueued w \<inter> jw_returned (ow_journal w)\<rparr>)"

definition new_world :: "'r outbox_world" where
  "new_world = \<lparr>ow_journal = new_journal, ow_box = new_outbox, ow_enqueued = {}, ow_stored = {}, ow_stream = []\<rparr>"

section \<open>The outbox keeps what it has not written\<close>

definition outbox_inv :: "'r journal_env \<Rightarrow> 'r outbox_world \<Rightarrow> bool" where
  "outbox_inv E w \<longleftrightarrow>
     ow_enqueued w \<subseteq> set (ob_queue (ow_box w)) \<union> jw_returned (ow_journal w)
   \<and> (\<forall>r \<in> set (ob_queue (ow_box w)). \<exists>m. je_matchId E r = Some m \<and> m \<noteq> [])
   \<and> (\<forall>a. jw_work (ow_journal w) 0 = Some a \<longrightarrow> ob_sync (ow_box w) \<noteq> SyIdle \<and> (\<exists>rs. ob_queue (ow_box w) = ap_result a # rs))
   \<and> (ob_sync (ow_box w) = SyIdle \<and> ob_queue (ow_box w) \<noteq> [] \<longrightarrow> ob_failed (ow_box w))
   \<and> jw_acked (ow_journal w) \<subseteq> {entry_name E m | m. m \<in> ow_stored w}"

lemma flush_ask_box: "flush_ask answer b = (b', x) \<Longrightarrow> ob_queue b' = ob_queue b \<and> ob_sync b' = ob_sync b \<and> ob_failed b' = ob_failed b"
  by (auto simp: flush_ask_def split: flush_pc.splits list.splits option.splits bool.splits)

lemma flush_lease_box: "ob_queue (flush_lease g b) = ob_queue b" "ob_sync (flush_lease g b) = ob_sync b" "ob_failed (flush_lease g b) = ob_failed b"
  by (auto simp: flush_lease_def split: flush_pc.splits option.splits bool.splits)

lemma flush_add_box: "ob_queue (flush_add ok b) = ob_queue b" "ob_sync (flush_add ok b) = ob_sync b" "ob_failed (flush_add ok b) = ob_failed b"
  by (auto simp: flush_add_def split: flush_pc.splits)

lemma flush_undo_box: "ob_queue (flush_undo b) = ob_queue b" "ob_sync (flush_undo b) = ob_sync b" "ob_failed (flush_undo b) = ob_failed b"
  by (auto simp: flush_undo_def)

lemmas box_simps = flush_lease_box flush_add_box flush_undo_box

lemma persist_end_box:
  "ob_queue (persist_end ready entries b) = ob_queue b" "ob_sync (persist_end ready entries b) = SyIdle"
  by (auto simp: persist_end_def split: sum.splits)

lemma can_start_box:
  "ob_queue (snd (canStartNewGame n c b)) = ob_queue b" "ob_sync (snd (canStartNewGame n c b)) = ob_sync b"
  "ob_failed b \<Longrightarrow> ob_failed (snd (canStartNewGame n c b))"
  by (auto simp: canStartNewGame_def split: option.splits)

lemma outbox_inv_step: "outbox_step E w w' \<Longrightarrow> outbox_inv E w \<Longrightarrow> outbox_inv E w'"
proof (induction rule: outbox_step.induct)
  case (enqueue w r m)
  then show ?case by (auto simp: outbox_inv_def box_enqueue_def)
next
  case (flush w)
  then show ?case by (auto simp: outbox_inv_def box_flush_def)
next
  case (persist_begin w r rs m uuid a)
  have "ap_result a = r" using persist_begin(5) by (auto simp: append_begin_def Let_def split: if_splits)
  then show ?case using persist_begin by (auto simp: outbox_inv_def)
next
  case (persist_refused w r rs m uuid e)
  then show ?case by (auto simp: outbox_inv_def persist_throw_def)
next
  case (persist_call w a out d' a')
  have "ap_result a' = ap_result a" using append_step_same [OF persist_call(2)] by blast
  then show ?case using persist_call by (auto simp: outbox_inv_def)
next
  case (persist_return w a)
  obtain rs where rs: "ob_queue (ow_box w) = ap_result a # rs" "ob_sync (ow_box w) \<noteq> SyIdle"
    using persist_return(1,3) unfolding outbox_inv_def by blast
  then show ?case using persist_return(3) by (auto simp: outbox_inv_def persist_shift_def persist_throw_def)
next
  case (persist_end w ready)
  then show ?case by (auto simp: outbox_inv_def persist_end_box)
next
  case (ask w answer b)
  then show ?case using flush_ask_box [OF ask(2)] by (auto simp: outbox_inv_def)
next
  case (ask_stored w b r m)
  then show ?case using flush_ask_box [OF ask_stored(2)] by (auto simp: outbox_inv_def)
next
  case (lease w granted)
  then show ?case by (auto simp: outbox_inv_def box_simps)
next
  case (add w r rs ok late)
  then show ?case by (auto simp: outbox_inv_def box_simps)
next
  case (undo w)
  then show ?case by (auto simp: outbox_inv_def box_simps)
next
  case (can_start w maxEntries count)
  then show ?case using can_start_box(3) by (auto simp: outbox_inv_def can_start_box)
next
  case (store w m)
  then show ?case by (auto simp: outbox_inv_def)
next
  case (others w j)
  then show ?case by (auto simp: outbox_inv_def)
next
  case (restart w)
  then show ?case by (auto simp: outbox_inv_def new_outbox_def)
next
  case (power w d')
  then show ?case by (auto simp: outbox_inv_def new_outbox_def)
qed

text \<open>Seen from the journal, a step of the outbox is a run of the journal.\<close>

lemma outbox_journal_step: "outbox_step E w w' \<Longrightarrow> outbox_inv E w \<Longrightarrow> world_inv E (ow_journal w) \<Longrightarrow> world_inv E (ow_journal w')"
proof (induction rule: outbox_step.induct)
  case (persist_begin w r rs m uuid a)
  have "m \<noteq> []" using persist_begin(2,4,6) unfolding outbox_inv_def by fastforce
  from journal_step.begin_append [OF persist_begin(3,4) this persist_begin(5)] show ?case using world_inv_step persist_begin(7) by fastforce
next
  case (persist_call w a out d' a')
  from world_inv_call [OF persist_call(4,1,2)] show ?case by simp
next
  case (persist_return w a)
  from world_inv_step [OF journal_step.return [OF persist_return(1,2)] persist_return(4)] show ?case by simp
next
  case (ask_stored w b r m)
  from world_inv_acknowledge [OF ask_stored(6)] show ?case by simp
next
  case (others w j)
  from world_inv_step [OF others(1,6)] show ?case by simp
next
  case (restart w)
  from world_inv_step [OF journal_step.die [of E "ow_journal w" 0] restart(2)] show ?case by simp
next
  case (power w d')
  from world_inv_power [OF power(3,1)] show ?case by simp
qed simp_all

lemma outbox_reached:
  "(outbox_step E)\<^sup>*\<^sup>* new_world w \<Longrightarrow> outbox_inv E w \<and> world_inv E (ow_journal w)"
proof (induction rule: rtranclp_induct)
  case base
  have "world_inv E new_journal" by (rule world_inv_reached) simp
  then show ?case by (simp add: outbox_inv_def new_world_def new_outbox_def new_journal_def)
next
  case (step w w')
  then show ?case using outbox_inv_step outbox_journal_step by blast
qed



end
