(* ===== verification/Protocol.thy ===== *)
theory Protocol
  imports JsMap
begin

text \<open>
  The constants and enumerations of \<open>shared/src/protocol\<close> that several components share:
  \<open>constants.ts\<close>, \<open>skills.ts\<close>, \<open>tuning.ts\<close>, and from \<open>events.ts\<close> and
  \<open>control/commands.ts\<close> the room states, roles, error codes and identities. A TypeScript
  \<open>as const\<close> object of distinct values is a datatype with one constructor per value where
  the code only compares the values, and numeric constants where they go over the wire.
\<close>

section \<open>Wire constants (constants.ts)\<close>

definition PROTOCOL_VERSION :: int where "PROTOCOL_VERSION = 2"
definition SNAPSHOT_HEADER_BYTES :: nat where "SNAPSHOT_HEADER_BYTES = 6"
definition SECTION_HEADER_BYTES :: nat where "SECTION_HEADER_BYTES = 3"

datatype section_type =
  SecMap | SecTileChanges | SecTileAlphas | SecStorm | SecPlayers | SecRegions | SecSelf | SecRoster

fun section_code :: "section_type \<Rightarrow> int" where
  "section_code SecMap = 1"
| "section_code SecTileChanges = 2"
| "section_code SecTileAlphas = 3"
| "section_code SecStorm = 4"
| "section_code SecPlayers = 5"
| "section_code SecRegions = 6"
| "section_code SecSelf = 7"
| "section_code SecRoster = 9"

definition RETIRED_SECTION_TYPES :: "int list" where "RETIRED_SECTION_TYPES = [8]"

definition FLAG_FULL :: int where "FLAG_FULL = 1"
definition PLAYER_OBSCURED :: int where "PLAYER_OBSCURED = 1"
definition PLAYER_TAGGER :: int where "PLAYER_TAGGER = 2"
definition PLAYER_HAS_EMOJI :: int where "PLAYER_HAS_EMOJI = 4"

text \<open>A tile is a number: the decoder casts any byte to \<open>TilePhysics\<close> without a check.\<close>

type_synonym tile = int

definition TILE_FLOOR :: tile where "TILE_FLOOR = 0"
definition TILE_WALL :: tile where "TILE_WALL = 1"
definition TILE_BUSH :: tile where "TILE_BUSH = 2"
definition TILE_GAS :: tile where "TILE_GAS = 3"

datatype effect_type = EffDash | EffFrenzy | EffExhaust

definition EFFECT_BITS :: "effect_type list" where
  "EFFECT_BITS = [EffDash, EffFrenzy, EffExhaust]"

definition MAX_PLAYERS_PER_ROOM :: int where "MAX_PLAYERS_PER_ROOM = 8"

section \<open>Skills (skills.ts)\<close>

datatype skill_id = SkDash | SkFlash | SkExhaust | SkSwitch

fun skill_name :: "skill_id \<Rightarrow> string" where
  "skill_name SkDash = ''dash''"
| "skill_name SkFlash = ''flash''"
| "skill_name SkExhaust = ''exhaust''"
| "skill_name SkSwitch = ''switch''"

definition SLOT_SWITCH :: int where "SLOT_SWITCH = 1"
definition SLOT_MOVEMENT :: int where "SLOT_MOVEMENT = 2"

definition LOADOUT_SKILLS :: "skill_id list" where
  "LOADOUT_SKILLS = [SkDash, SkFlash, SkExhaust]"

definition isLoadoutSkill :: "string \<Rightarrow> bool" where
  "isLoadoutSkill value \<longleftrightarrow> value \<in> set (map skill_name LOADOUT_SKILLS)"

definition isSkillSlot :: "int \<Rightarrow> bool" where
  "isSkillSlot value \<longleftrightarrow> value = SLOT_SWITCH \<or> value = SLOT_MOVEMENT"

datatype skill_rejection =
  NotAlive | NoSkill | OnCooldown | RoleMismatch | OutOfRange | NoTarget | NoTagger

section \<open>Tuning (tuning.ts)\<close>

definition TILE_PX :: real where "TILE_PX = 256"

record movement_tuning =
  PLAYER_RADIUS_TILES :: real
  BASE_SPEED_TILES_PER_SEC :: real

definition MOVEMENT :: movement_tuning where
  "MOVEMENT = \<lparr>PLAYER_RADIUS_TILES = 4 / 10, BASE_SPEED_TILES_PER_SEC = 21 / 10\<rparr>"

record skill_tuning =
  DASH_SPEED_INCREASE :: real
  DASH_DURATION_MS :: real
  DASH_COOLDOWN_MS :: real
  FLASH_DISTANCE_TILES :: real
  FLASH_COOLDOWN_MS :: real
  EXHAUST_SPEED_DECREASE :: real
  EXHAUST_DURATION_MS :: real
  EXHAUST_RANGE_TILES :: real
  EXHAUST_COOLDOWN_MS :: real
  EXHAUST_SELF_DECREASE :: real
  EXHAUST_SELF_DURATION_MS :: real
  SWITCH_RANGE_TILES :: real
  SWITCH_COOLDOWN_MS :: real
  FRENZY_SPEED_INCREASE :: real
  FRENZY_DURATION_MS :: real
  FRENZY_TAG_BONUS_INCREASE :: real
  FRENZY_TAG_BONUS_MS :: real
  SWITCH_VICTIM_SPEED_DECREASE :: real
  SWITCH_VICTIM_DURATION_MS :: real
  NEAR_TAGGER_COOLDOWN_BONUS :: real
  NEAR_TAGGER_RADIUS_TILES :: real
  TAGGER_CHANGE_COOLDOWN_MS :: real

definition SKILL_TUNING :: skill_tuning where
  "SKILL_TUNING = \<lparr>
     DASH_SPEED_INCREASE = 5 / 10,
     DASH_DURATION_MS = 4000,
     DASH_COOLDOWN_MS = 13000,
     FLASH_DISTANCE_TILES = 35 / 10,
     FLASH_COOLDOWN_MS = 10000,
     EXHAUST_SPEED_DECREASE = 25 / 100,
     EXHAUST_DURATION_MS = 4000,
     EXHAUST_RANGE_TILES = 18 / 10,
     EXHAUST_COOLDOWN_MS = 18000,
     EXHAUST_SELF_DECREASE = 1 / 10,
     EXHAUST_SELF_DURATION_MS = 2500,
     SWITCH_RANGE_TILES = 14 / 10,
     SWITCH_COOLDOWN_MS = 4000,
     FRENZY_SPEED_INCREASE = 2 / 10,
     FRENZY_DURATION_MS = 5000,
     FRENZY_TAG_BONUS_INCREASE = 5 / 100,
     FRENZY_TAG_BONUS_MS = 5000,
     SWITCH_VICTIM_SPEED_DECREASE = 1 / 10,
     SWITCH_VICTIM_DURATION_MS = 4000,
     NEAR_TAGGER_COOLDOWN_BONUS = 5 / 10,
     NEAR_TAGGER_RADIUS_TILES = 6,
     TAGGER_CHANGE_COOLDOWN_MS = 15000\<rparr>"

definition SPEED_DECREASE_FLOOR :: real where "SPEED_DECREASE_FLOOR = 3 / 10"

definition ROOM_POST_GAME_MS :: int where "ROOM_POST_GAME_MS = 10000"

section \<open>Rooms, roles and errors (events.ts)\<close>

datatype room_state = Allocating | Waiting | Countdown | Playing | PostGame | Closed

datatype room_mode = MatchMode | TrainingMode

datatype player_role = RolePlayer | RoleWaiting | RoleSpectator

datatype error_code =
  AuthFailed | AuthTimeout | ProtocolMismatch | NotHost | BadState | InvalidPayload
  | RateLimited | RoomClosed | Kicked | SpectateDenied | StartLocked | ResultBacklog
  | ServerDraining | ServerShutdown | InternalError

definition NON_RETRYABLE_ERRORS :: "error_code list" where
  "NON_RETRYABLE_ERRORS = [AuthFailed, AuthTimeout, ProtocolMismatch, Kicked, RoomClosed]"

definition isRetryable :: "error_code \<Rightarrow> bool" where
  "isRetryable code \<longleftrightarrow> code \<notin> set NON_RETRYABLE_ERRORS"

definition CLOSE_NORMAL :: int where "CLOSE_NORMAL = 1000"
definition CLOSE_POLICY_VIOLATION :: int where "CLOSE_POLICY_VIOLATION = 1008"
definition CLOSE_MESSAGE_TOO_BIG :: int where "CLOSE_MESSAGE_TOO_BIG = 1009"
definition CLOSE_TRY_AGAIN_LATER :: int where "CLOSE_TRY_AGAIN_LATER = 1013"

datatype player_control = Keyboard | Touch | Gamepad

definition EMOJI_ID_MIN :: int where "EMOJI_ID_MIN = 1"
definition EMOJI_ID_MAX :: int where "EMOJI_ID_MAX = 8"

definition isEmojiId :: "int \<Rightarrow> bool" where
  "isEmojiId value \<longleftrightarrow> EMOJI_ID_MIN \<le> value \<and> value \<le> EMOJI_ID_MAX"

record lobby_stats =
  ls_games :: int
  ls_wins :: int
  ls_winRate :: real
  ls_switchSuccessRate :: real

section \<open>Control plane (control/commands.ts)\<close>

datatype control_error =
  CtlServerDraining | CtlServerFull | CtlInvalidMap | CtlRoomNotFound | CtlRoomFull
  | CtlRoomLocked | CtlBadPassword | CtlAlreadyInRoom | CtlKickedFromRoom | CtlRejoinCooldown
  | CtlNoGraceSlot | CtlExpired | CtlInternal

definition CLIENT_MASKED_ERRORS :: "control_error list" where
  "CLIENT_MASKED_ERRORS = [CtlRoomNotFound, CtlBadPassword]"

text \<open>An account is a number, a guest the string \<open>g:{uuid}\<close>.\<close>

datatype actor_id = Account int | Guest string

fun isGuestActor :: "actor_id \<Rightarrow> bool" where
  "isGuestActor (Account _) = False"
| "isGuestActor (Guest _) = True"

definition HEARTBEAT_INTERVAL_MS :: int where "HEARTBEAT_INTERVAL_MS = 2000"
definition HEARTBEAT_TTL_MS :: int where "HEARTBEAT_TTL_MS = 6000"

section \<open>Facts\<close>

lemma EFFECT_BITS_distinct: "distinct EFFECT_BITS"
  by (simp add: EFFECT_BITS_def)

lemma EFFECT_BITS_all: "e \<in> set EFFECT_BITS"
  by (cases e) (simp_all add: EFFECT_BITS_def)

lemma section_code_inj: "section_code s = section_code t \<longleftrightarrow> s = t"
  by (cases s; cases t) simp_all

lemma section_code_not_retired: "section_code s \<notin> set RETIRED_SECTION_TYPES"
  by (cases s) (simp_all add: RETIRED_SECTION_TYPES_def)

lemma isLoadoutSkill_name: "isLoadoutSkill (skill_name s) \<longleftrightarrow> s \<noteq> SkSwitch"
  by (cases s) (simp_all add: isLoadoutSkill_def LOADOUT_SKILLS_def)

end
