(* ===== verification/Config.thy ===== *)
theory Config
  imports Protocol
begin

text \<open>
  The numbers of the game server that its logic depends on: \<open>server-game/src/config/network.ts\<close> and
  \<open>gameplay.ts\<close>, and the relations between them that \<open>balance-invariants.ts\<close> checks.
\<close>

section \<open>NETWORK\<close>

definition SIMULATION_HZ :: int where "SIMULATION_HZ = 60"
definition SNAPSHOT_HZ :: int where "SNAPSHOT_HZ = 30"
definition MAX_CATCHUP_STEPS :: nat where "MAX_CATCHUP_STEPS = 5"
definition LOOP_LAG_DRAIN_THRESHOLD_MS :: real where "LOOP_LAG_DRAIN_THRESHOLD_MS = 50"
definition AUTH_TIMEOUT_MS :: int where "AUTH_TIMEOUT_MS = 5000"
definition MAX_UNAUTHENTICATED_PER_IP :: nat where "MAX_UNAUTHENTICATED_PER_IP = 15"
definition MAX_AUTHENTICATED_PER_IP :: nat where "MAX_AUTHENTICATED_PER_IP = 100"
definition MAX_CONNECTIONS :: nat where "MAX_CONNECTIONS = 2000"
definition MAX_BINARY_FRAME_BYTES :: int where "MAX_BINARY_FRAME_BYTES = 64"
definition MAX_JSON_FRAME_BYTES :: int where "MAX_JSON_FRAME_BYTES = 2048"
definition MAX_INPUT_PACKETS_PER_SEC :: nat where "MAX_INPUT_PACKETS_PER_SEC = 90"
definition MAX_JSON_COMMANDS_PER_SEC :: nat where "MAX_JSON_COMMANDS_PER_SEC = 20"
definition MAX_IP_INPUT_PACKETS_PER_SEC :: nat where "MAX_IP_INPUT_PACKETS_PER_SEC = 900"
definition MAX_IP_JSON_COMMANDS_PER_SEC :: nat where "MAX_IP_JSON_COMMANDS_PER_SEC = 200"
definition EMOJI_COOLDOWN_MS :: int where "EMOJI_COOLDOWN_MS = 2000"
definition MAX_REPLAY_REQUESTS_PER_MINUTE :: nat where "MAX_REPLAY_REQUESTS_PER_MINUTE = 30"
definition SEAT_RESERVATION_TTL_MS :: int where "SEAT_RESERVATION_TTL_MS = 15000"
definition RECONNECT_GRACE_MS :: int where "RECONNECT_GRACE_MS = 5000"
definition COUNTDOWN_MS :: int where "COUNTDOWN_MS = 9000"
definition POST_GAME_MS :: int where "POST_GAME_MS = ROOM_POST_GAME_MS"
definition START_LOCK_ON_JOIN_MS :: int where "START_LOCK_ON_JOIN_MS = 5000"
definition START_LOCK_ON_MAP_CHANGE_MS :: int where "START_LOCK_ON_MAP_CHANGE_MS = 10000"
definition START_LOCK_JOIN_BUDGET_MS :: int where "START_LOCK_JOIN_BUDGET_MS = 15000"
definition START_LOCK_JOIN_BUDGET_WINDOW_MS :: int where "START_LOCK_JOIN_BUDGET_WINDOW_MS = 60000"
definition STREAM_MAXLEN :: nat where "STREAM_MAXLEN = 10000"

definition SIMULATION_STEP_MS :: real where
  "SIMULATION_STEP_MS = 1000 / of_int SIMULATION_HZ"

definition SNAPSHOT_INTERVAL_TICKS :: int where
  "SNAPSHOT_INTERVAL_TICKS = js_round (of_int SIMULATION_HZ / of_int SNAPSHOT_HZ)"

section \<open>GAMEPLAY\<close>

definition EMOJI_DISPLAY_MS :: real where "EMOJI_DISPLAY_MS = 3000"
definition PLAYER_RADIUS_PX :: real where "PLAYER_RADIUS_PX = PLAYER_RADIUS_TILES MOVEMENT * TILE_PX"
definition BASE_MOVE_SPEED_PX_PER_SEC :: real where
  "BASE_MOVE_SPEED_PX_PER_SEC = BASE_SPEED_TILES_PER_SEC MOVEMENT * TILE_PX"
definition MAX_SUBSTEP_DISTANCE_PX :: real where "MAX_SUBSTEP_DISTANCE_PX = 48"
definition PUSH_BASE_POWER :: real where "PUSH_BASE_POWER = 1"
definition PUSH_SPEED_FACTOR :: real where "PUSH_SPEED_FACTOR = 1 / 100"
definition PLAYER_COLLISION_ITERATIONS :: nat where "PLAYER_COLLISION_ITERATIONS = 4"
definition SIGHT_RANGE_PX :: real where "SIGHT_RANGE_PX = 16 * TILE_PX"
definition TAGGER_CHANGE_COOLDOWN :: real where "TAGGER_CHANGE_COOLDOWN = TAGGER_CHANGE_COOLDOWN_MS SKILL_TUNING"
definition MIN_PLAYERS_TO_START :: nat where "MIN_PLAYERS_TO_START = 3"
definition MAX_PLAYERS :: nat where "MAX_PLAYERS = 8"
definition SURVIVORS_TO_WIN :: nat where "SURVIVORS_TO_WIN = 2"
definition MAX_MATCH_DURATION_TICKS :: int where "MAX_MATCH_DURATION_TICKS = 20 * 60 * SIMULATION_HZ"
definition DECREASE_FLOOR :: real where "DECREASE_FLOOR = SPEED_DECREASE_FLOOR"

text \<open>\<open>SKILLS\<close>: the tuning table with distances in pixels.\<close>

definition NEAR_TAGGER_RADIUS_PX :: real where "NEAR_TAGGER_RADIUS_PX = NEAR_TAGGER_RADIUS_TILES SKILL_TUNING * TILE_PX"
definition FLASH_DISTANCE_PX :: real where "FLASH_DISTANCE_PX = FLASH_DISTANCE_TILES SKILL_TUNING * TILE_PX"
definition FLASH_WALL_EXIT_MAX_PX :: real where "FLASH_WALL_EXIT_MAX_PX = 2 * TILE_PX"
definition EXHAUST_RANGE_PX :: real where "EXHAUST_RANGE_PX = EXHAUST_RANGE_TILES SKILL_TUNING * TILE_PX"
definition SWITCH_RANGE_PX :: real where "SWITCH_RANGE_PX = SWITCH_RANGE_TILES SKILL_TUNING * TILE_PX"

section \<open>Balance relations\<close>

text \<open>The verdicts of \<open>balanceInvariants\<close>, in its order; names and detail texts are for people only.\<close>

definition balanceInvariants :: "bool list" where
  "balanceInvariants =
     (let t = SKILL_TUNING;
          dashExtraTiles = DASH_SPEED_INCREASE t * BASE_SPEED_TILES_PER_SEC MOVEMENT * (DASH_DURATION_MS t / 1000)
      in [dashExtraTiles > FLASH_DISTANCE_TILES t,
          FLASH_COOLDOWN_MS t < DASH_COOLDOWN_MS t \<and> DASH_COOLDOWN_MS t < EXHAUST_COOLDOWN_MS t,
          EXHAUST_SELF_DECREASE t < EXHAUST_SPEED_DECREASE t \<and> EXHAUST_SELF_DURATION_MS t < EXHAUST_DURATION_MS t,
          SPEED_DECREASE_FLOOR > 0 \<and> SPEED_DECREASE_FLOOR < 1,
          MIN_PLAYERS_TO_START = 3 \<and> MAX_PLAYERS = 8 \<and> SURVIVORS_TO_WIN < MIN_PLAYERS_TO_START,
          NEAR_TAGGER_COOLDOWN_BONUS t > 0 \<and> NEAR_TAGGER_RADIUS_TILES t > 0,
          SWITCH_RANGE_TILES t * 4 < SIGHT_RANGE_PX / TILE_PX])"

lemma balance_ok: "list_all (\<lambda>ok. ok) balanceInvariants"
  by (simp add: balanceInvariants_def SKILL_TUNING_def MOVEMENT_def SPEED_DECREASE_FLOOR_def
      MIN_PLAYERS_TO_START_def MAX_PLAYERS_def SURVIVORS_TO_WIN_def SIGHT_RANGE_PX_def TILE_PX_def Let_def)

lemma snapshot_interval: "SNAPSHOT_INTERVAL_TICKS = 2"
  by (simp add: SNAPSHOT_INTERVAL_TICKS_def SIMULATION_HZ_def SNAPSHOT_HZ_def)

end
