(* ===== verification/Connections.thy ===== *)
theory Connections
  imports JsMap Config
begin

text \<open>
  The connections of the process: \<open>server-game/src/gateway/connection-manager.ts\<close>. One record per open
  socket, and counters by address and by user that are kept beside the records. Every counter is shown
  to be the number it stands for after any sequence of calls.
\<close>

section \<open>Model\<close>

record connection_record =
  cr_id :: int
  cr_ip :: string
  cr_userId :: "actor_id option"

record connection_limits =
  cl_maxConnections :: int
  cl_maxUnauthenticatedPerIp :: int
  cl_maxAuthenticatedPerIp :: int

record connection_manager =
  cm_connections :: "(int, connection_record) js_map"
  cm_unauthenticatedByIp :: "(string, int) js_map"
  cm_authenticatedByIp :: "(string, int) js_map"
  cm_activeUsers :: "(actor_id, int) js_map"
  cm_limits :: connection_limits
  cm_nextId :: int

definition new_manager :: "connection_limits \<Rightarrow> connection_manager" where
  "new_manager limits = \<lparr>cm_connections = js_empty, cm_unauthenticatedByIp = js_empty,
     cm_authenticatedByIp = js_empty, cm_activeUsers = js_empty, cm_limits = limits, cm_nextId = 1\<rparr>"

text \<open>\<open>map.get(ip) ?? d\<close>.\<close>

definition get_or :: "int \<Rightarrow> (string, int) js_map \<Rightarrow> string \<Rightarrow> int" where
  "get_or d m ip = (case js_get m ip of None \<Rightarrow> d | Some n \<Rightarrow> n)"

definition connection_count :: "connection_manager \<Rightarrow> int" where
  "connection_count c = int (js_size (cm_connections c))"

definition unauthenticatedCount :: "connection_manager \<Rightarrow> string \<Rightarrow> int" where
  "unauthenticatedCount c ip = get_or 0 (cm_unauthenticatedByIp c) ip"

definition authenticatedCount :: "connection_manager \<Rightarrow> string \<Rightarrow> int" where
  "authenticatedCount c ip = get_or 0 (cm_authenticatedByIp c) ip"

text \<open>\<open>#decrementUnauthenticated\<close> and \<open>#decrementAuthenticated\<close> are the same code over two maps.\<close>

definition decrement :: "string \<Rightarrow> (string, int) js_map \<Rightarrow> (string, int) js_map" where
  "decrement ip m =
     (let n = get_or 1 m ip - 1 in if n \<le> 0 then js_delete ip m else js_set ip n m)"

definition canOpen :: "connection_manager \<Rightarrow> string \<Rightarrow> bool" where
  "canOpen c ip \<longleftrightarrow> connection_count c < cl_maxConnections (cm_limits c)
     \<and> get_or 0 (cm_unauthenticatedByIp c) ip < cl_maxUnauthenticatedPerIp (cm_limits c)"

definition open_connection :: "string \<Rightarrow> connection_manager \<Rightarrow> (int \<times> string) option \<times> connection_manager" where
  "open_connection ip c =
     (if \<not> canOpen c ip then (None, c)
      else
        let new_id = cm_nextId c;
            record = \<lparr>cr_id = new_id, cr_ip = ip, cr_userId = None\<rparr>
        in (Some (new_id, ip),
            c\<lparr>cm_nextId := cm_nextId c + 1,
              cm_connections := js_set new_id record (cm_connections c),
              cm_unauthenticatedByIp :=
                js_set ip (get_or 0 (cm_unauthenticatedByIp c) ip + 1) (cm_unauthenticatedByIp c)\<rparr>))"

definition isUserConnected :: "connection_manager \<Rightarrow> actor_id \<Rightarrow> bool" where
  "isUserConnected c u = js_has (cm_activeUsers c) u"

definition canAuthenticate :: "connection_manager \<Rightarrow> int \<Rightarrow> actor_id \<Rightarrow> bool" where
  "canAuthenticate c k u =
     (case js_get (cm_connections c) k of
        None \<Rightarrow> False
      | Some r \<Rightarrow> cr_userId r = None \<and> \<not> js_has (cm_activeUsers c) u
          \<and> get_or 0 (cm_authenticatedByIp c) (cr_ip r) < cl_maxAuthenticatedPerIp (cm_limits c))"

definition authenticate_connection :: "int \<Rightarrow> actor_id \<Rightarrow> connection_manager \<Rightarrow> bool \<times> connection_manager" where
  "authenticate_connection k u c =
     (case js_get (cm_connections c) k of
        None \<Rightarrow> (False, c)
      | Some r \<Rightarrow>
          if \<not> canAuthenticate c k u then (False, c)
          else (True,
            c\<lparr>cm_connections := js_set k (r\<lparr>cr_userId := Some u\<rparr>) (cm_connections c),
              cm_unauthenticatedByIp := decrement (cr_ip r) (cm_unauthenticatedByIp c),
              cm_authenticatedByIp :=
                js_set (cr_ip r) (get_or 0 (cm_authenticatedByIp c) (cr_ip r) + 1) (cm_authenticatedByIp c),
              cm_activeUsers := js_set u k (cm_activeUsers c)\<rparr>))"

definition close_connection :: "int \<Rightarrow> connection_manager \<Rightarrow> connection_record option \<times> connection_manager" where
  "close_connection k c =
     (case js_get (cm_connections c) k of
        None \<Rightarrow> (None, c)
      | Some r \<Rightarrow>
          let c1 = c\<lparr>cm_connections := js_delete k (cm_connections c)\<rparr> in
          (Some r,
           case cr_userId r of
             None \<Rightarrow> c1\<lparr>cm_unauthenticatedByIp := decrement (cr_ip r) (cm_unauthenticatedByIp c1)\<rparr>
           | Some u \<Rightarrow>
               let c2 = c1\<lparr>cm_authenticatedByIp := decrement (cr_ip r) (cm_authenticatedByIp c1)\<rparr> in
               if js_get (cm_activeUsers c2) u = Some k
               then c2\<lparr>cm_activeUsers := js_delete u (cm_activeUsers c2)\<rparr> else c2))"

text \<open>The calls that change the manager.\<close>

datatype manager_call = CmOpen string | CmAuthenticate int actor_id | CmClose int

fun manager_step :: "manager_call \<Rightarrow> connection_manager \<Rightarrow> connection_manager" where
  "manager_step (CmOpen ip) c = snd (open_connection ip c)"
| "manager_step (CmAuthenticate k u) c = snd (authenticate_connection k u c)"
| "manager_step (CmClose k) c = snd (close_connection k c)"

section \<open>What the counters stand for\<close>

definition waiting_at :: "string \<Rightarrow> connection_record \<Rightarrow> bool" where
  "waiting_at ip r \<longleftrightarrow> cr_ip r = ip \<and> cr_userId r = None"

definition signed_at :: "string \<Rightarrow> connection_record \<Rightarrow> bool" where
  "signed_at ip r \<longleftrightarrow> cr_ip r = ip \<and> cr_userId r \<noteq> None"

definition number_of :: "(connection_record \<Rightarrow> bool) \<Rightarrow> connection_manager \<Rightarrow> int" where
  "number_of P c = int (length (filter P (js_values (cm_connections c))))"

definition counters_ok :: "connection_manager \<Rightarrow> bool" where
  "counters_ok c \<longleftrightarrow>
     js_ok (cm_connections c)
     \<and> (\<forall>k r. js_get (cm_connections c) k = Some r \<longrightarrow> k < cm_nextId c \<and> cr_id r = k)
     \<and> (\<forall>ip. unauthenticatedCount c ip = number_of (waiting_at ip) c)
     \<and> (\<forall>ip. authenticatedCount c ip = number_of (signed_at ip) c)
     \<and> (\<forall>u k. js_get (cm_activeUsers c) u = Some k
          \<longleftrightarrow> (\<exists>r. js_get (cm_connections c) k = Some r \<and> cr_userId r = Some u))"

definition within_limits :: "connection_manager \<Rightarrow> bool" where
  "within_limits c \<longleftrightarrow> connection_count c \<le> cl_maxConnections (cm_limits c)
     \<and> (\<forall>ip. number_of (waiting_at ip) c \<le> cl_maxUnauthenticatedPerIp (cm_limits c)
           \<and> number_of (signed_at ip) c \<le> cl_maxAuthenticatedPerIp (cm_limits c))"

definition manager_ok :: "connection_manager \<Rightarrow> bool" where
  "manager_ok c \<longleftrightarrow> counters_ok c \<and> within_limits c"

section \<open>Lemmas\<close>

definition indicator_int :: "bool \<Rightarrow> int" where
  "indicator_int b = (if b then 1 else 0)"

lemma number_set_new:
  assumes "js_get m k = None"
  shows "length (filter P (js_values (js_set k v m))) = length (filter P (js_values m)) + (if P v then 1 else 0)"
  using assms by (simp add: js_set_absent js_values_def)

lemma number_set_old:
  assumes "js_get m k = Some v0"
  shows "int (length (filter P (js_values (js_set k v m))))
     = int (length (filter P (js_values m))) - indicator_int (P v0) + indicator_int (P v)"
  using assms unfolding js_get_def js_set_def js_values_def indicator_int_def
  by (induction m) (auto split: if_splits)

lemma number_delete:
  assumes "js_ok m" "js_get m k = Some v0"
  shows "int (length (filter P (js_values (js_delete k m)))) = int (length (filter P (js_values m))) - indicator_int (P v0)"
  using assms unfolding js_get_def js_delete_def js_values_def indicator_int_def js_ok_def filter_map length_map
proof (induction m)
  case (Cons p m)
  then show ?case
    by (cases p) (auto simp: image_iff intro!: filter_cong arg_cong [where f = length] split: if_splits)
qed simp

lemma get_or_set: "get_or d (js_set ip n m) ip' = (if ip' = ip then n else get_or d m ip')"
  by (simp add: get_or_def)

lemma get_or_decrement:
  assumes "1 \<le> get_or 0 m ip"
  shows "get_or 0 (decrement ip m) ip' = get_or 0 m ip' - (if ip' = ip then 1 else 0)"
proof (cases "js_get m ip")
  case None
  with assms show ?thesis by (simp add: get_or_def)
next
  case (Some n)
  with assms show ?thesis by (auto simp: get_or_def decrement_def Let_def)
qed

lemma number_pos:
  assumes "js_get (cm_connections c) k = Some r" "P r"
  shows "1 \<le> number_of P c"
proof -
  have "r \<in> set (filter P (js_values (cm_connections c)))"
    using assms js_get_mem [OF assms(1)] by (force simp: js_values_def)
  then have "0 < length (filter P (js_values (cm_connections c)))" by (rule length_pos_if_in_set)
  then show ?thesis unfolding number_of_def by linarith
qed

text \<open>How the counters change with the records.\<close>

lemma count_indicator: "indicator_int True = 1" "indicator_int False = 0" "0 \<le> indicator_int b" "indicator_int b \<le> 1"
  by (simp_all add: indicator_int_def)

lemma counters_okD:
  assumes "counters_ok c"
  shows "js_ok (cm_connections c)"
    "js_get (cm_connections c) k = Some r \<Longrightarrow> k < cm_nextId c"
    "js_get (cm_connections c) k = Some r \<Longrightarrow> cr_id r = k"
    "get_or 0 (cm_unauthenticatedByIp c) ip = number_of (waiting_at ip) c"
    "get_or 0 (cm_authenticatedByIp c) ip = number_of (signed_at ip) c"
    "js_get (cm_activeUsers c) u = Some k \<longleftrightarrow> (\<exists>r. js_get (cm_connections c) k = Some r \<and> cr_userId r = Some u)"
  using assms unfolding counters_ok_def unauthenticatedCount_def authenticatedCount_def by blast+

lemma counters_okI:
  assumes "js_ok (cm_connections c)"
    and "\<And>k r. js_get (cm_connections c) k = Some r \<Longrightarrow> k < cm_nextId c \<and> cr_id r = k"
    and "\<And>ip. get_or 0 (cm_unauthenticatedByIp c) ip = number_of (waiting_at ip) c"
    and "\<And>ip. get_or 0 (cm_authenticatedByIp c) ip = number_of (signed_at ip) c"
    and "\<And>u k. js_get (cm_activeUsers c) u = Some k
       \<longleftrightarrow> (\<exists>r. js_get (cm_connections c) k = Some r \<and> cr_userId r = Some u)"
  shows "counters_ok c"
  using assms unfolding counters_ok_def unauthenticatedCount_def authenticatedCount_def by blast

lemma new_manager_ok:
  assumes "0 \<le> cl_maxConnections l" "0 \<le> cl_maxUnauthenticatedPerIp l" "0 \<le> cl_maxAuthenticatedPerIp l"
  shows "manager_ok (new_manager l)"
  using assms by (simp add: manager_ok_def counters_ok_def within_limits_def new_manager_def unauthenticatedCount_def
      authenticatedCount_def get_or_def number_of_def connection_count_def js_values_def js_size_def)
    (simp add: js_empty_def)

lemma open_ok:
  assumes "manager_ok c"
  shows "manager_ok (snd (open_connection ip c))"
proof (cases "canOpen c ip")
  case False
  with assms show ?thesis by (simp add: open_connection_def)
next
  case True
  have ok: "counters_ok c" and lim: "within_limits c" using assms by (simp_all add: manager_ok_def)
  note D = counters_okD [OF ok]
  let ?k = "cm_nextId c"
  let ?r = "\<lparr>cr_id = ?k, cr_ip = ip, cr_userId = None\<rparr>"
  let ?c = "snd (open_connection ip c)"
  have new: "js_get (cm_connections c) ?k = None"
    using D(2) [of ?k] by (cases "js_get (cm_connections c) ?k") auto
  have eq: "?c = c\<lparr>cm_nextId := ?k + 1, cm_connections := js_set ?k ?r (cm_connections c),
      cm_unauthenticatedByIp := js_set ip (get_or 0 (cm_unauthenticatedByIp c) ip + 1) (cm_unauthenticatedByIp c)\<rparr>"
    using True by (simp add: open_connection_def Let_def)
  have num: "number_of P ?c = number_of P c + indicator_int (P ?r)" for P
    by (simp add: eq number_of_def number_set_new [OF new] indicator_int_def)
  have w: "waiting_at ip' ?r \<longleftrightarrow> ip' = ip" "\<not> signed_at ip' ?r" for ip'
    by (auto simp: waiting_at_def signed_at_def)
  have "counters_ok ?c"
  proof (rule counters_okI)
    show "js_ok (cm_connections ?c)" using D(1) by (simp add: eq)
    show "k < cm_nextId ?c \<and> cr_id r = k" if "js_get (cm_connections ?c) k = Some r" for k r
      using that D(2) [of k r] D(3) [of k r] by (auto simp: eq split: if_splits)
    show "get_or 0 (cm_unauthenticatedByIp ?c) ip' = number_of (waiting_at ip') ?c" for ip'
      by (simp add: num w) (simp add: eq get_or_set D(4) indicator_int_def)
    show "get_or 0 (cm_authenticatedByIp ?c) ip' = number_of (signed_at ip') ?c" for ip'
      by (simp add: num w) (simp add: eq D(5) indicator_int_def)
    show "js_get (cm_activeUsers ?c) u = Some k
       \<longleftrightarrow> (\<exists>r. js_get (cm_connections ?c) k = Some r \<and> cr_userId r = Some u)" for u k
      using new by (auto simp: eq D(6))
  qed
  moreover have "within_limits ?c"
  proof -
    have "connection_count ?c = connection_count c + 1"
      using new by (simp add: eq connection_count_def js_size_set)
    moreover have "connection_count c < cl_maxConnections (cm_limits c)"
      "number_of (waiting_at ip) c < cl_maxUnauthenticatedPerIp (cm_limits c)"
      using True by (simp_all add: canOpen_def D(4))
    moreover have "cm_limits ?c = cm_limits c" by (simp add: eq)
    ultimately show ?thesis using lim
      by (auto simp: within_limits_def num w indicator_int_def)
  qed
  ultimately show ?thesis by (simp add: manager_ok_def)
qed

lemma authenticate_ok:
  assumes "manager_ok c"
  shows "manager_ok (snd (authenticate_connection k u c))"
proof (cases "canAuthenticate c k u")
  case False
  with assms show ?thesis by (simp add: authenticate_connection_def split: option.splits)
next
  case True
  have ok: "counters_ok c" and lim: "within_limits c" using assms by (simp_all add: manager_ok_def)
  note D = counters_okD [OF ok]
  from True obtain r where r: "js_get (cm_connections c) k = Some r" and none: "cr_userId r = None"
    and free: "js_get (cm_activeUsers c) u = None"
    and room: "number_of (signed_at (cr_ip r)) c < cl_maxAuthenticatedPerIp (cm_limits c)"
    by (auto simp: canAuthenticate_def js_has_def D(5) split: option.splits)
  let ?r = "r\<lparr>cr_userId := Some u\<rparr>" and ?ip = "cr_ip r"
  let ?c = "snd (authenticate_connection k u c)"
  have eq: "?c = c\<lparr>cm_connections := js_set k ?r (cm_connections c),
      cm_unauthenticatedByIp := decrement ?ip (cm_unauthenticatedByIp c),
      cm_authenticatedByIp := js_set ?ip (get_or 0 (cm_authenticatedByIp c) ?ip + 1) (cm_authenticatedByIp c),
      cm_activeUsers := js_set u k (cm_activeUsers c)\<rparr>"
    using True r by (simp add: authenticate_connection_def)
  have num: "number_of P ?c = number_of P c - indicator_int (P r) + indicator_int (P ?r)" for P
    by (simp add: eq number_of_def number_set_old [OF r])
  have w: "waiting_at ip' r \<longleftrightarrow> ip' = ?ip" "\<not> signed_at ip' r" "signed_at ip' ?r \<longleftrightarrow> ip' = ?ip" "\<not> waiting_at ip' ?r" for ip'
    using none by (auto simp: waiting_at_def signed_at_def)
  have pos: "1 \<le> get_or 0 (cm_unauthenticatedByIp c) ?ip"
    unfolding D(4) by (rule number_pos [OF r]) (simp add: w)
  have "counters_ok ?c"
  proof (rule counters_okI)
    show "js_ok (cm_connections ?c)" using D(1) by (simp add: eq)
    show "k' < cm_nextId ?c \<and> cr_id r' = k'" if "js_get (cm_connections ?c) k' = Some r'" for k' r'
      using that D(2) [of k' r'] D(3) [of k' r'] D(2) [OF r] D(3) [OF r] by (auto simp: eq split: if_splits)
    show "get_or 0 (cm_unauthenticatedByIp ?c) ip' = number_of (waiting_at ip') ?c" for ip'
      by (simp add: num w) (simp add: eq get_or_decrement [OF pos] D(4) indicator_int_def)
    show "get_or 0 (cm_authenticatedByIp ?c) ip' = number_of (signed_at ip') ?c" for ip'
      by (simp add: num w) (simp add: eq get_or_set D(5) indicator_int_def)
    show "js_get (cm_activeUsers ?c) u' = Some k'
       \<longleftrightarrow> (\<exists>r'. js_get (cm_connections ?c) k' = Some r' \<and> cr_userId r' = Some u')" for u' k'
    proof (cases "u' = u")
      case True
      then show ?thesis using r free D(6) [of u k'] by (auto simp: eq)
    next
      case False
      then show ?thesis using r none D(6) [of u' k'] by (auto simp: eq)
    qed
  qed
  moreover have "within_limits ?c"
  proof -
    have "connection_count ?c = connection_count c" "cm_limits ?c = cm_limits c"
      using r by (simp_all add: eq connection_count_def js_size_set)
    moreover have "number_of (waiting_at ip') ?c \<le> cl_maxUnauthenticatedPerIp (cm_limits c)
        \<and> number_of (signed_at ip') ?c \<le> cl_maxAuthenticatedPerIp (cm_limits c)" for ip'
    proof -
      have "number_of (waiting_at ip') c \<le> cl_maxUnauthenticatedPerIp (cm_limits c)"
        "number_of (signed_at ip') c \<le> cl_maxAuthenticatedPerIp (cm_limits c)"
        using lim by (simp_all add: within_limits_def)
      with room show ?thesis by (auto simp: num w indicator_int_def)
    qed
    ultimately show ?thesis using lim by (simp add: within_limits_def)
  qed
  ultimately show ?thesis by (simp add: manager_ok_def)
qed

lemma close_ok:
  assumes "manager_ok c"
  shows "manager_ok (snd (close_connection k c))"
proof (cases "js_get (cm_connections c) k")
  case None
  with assms show ?thesis by (simp add: close_connection_def)
next
  case (Some r)
  have ok: "counters_ok c" and lim: "within_limits c" using assms by (simp_all add: manager_ok_def)
  note D = counters_okD [OF ok]
  let ?ip = "cr_ip r" and ?c = "snd (close_connection k c)"
  have conns: "cm_connections ?c = js_delete k (cm_connections c)" "cm_limits ?c = cm_limits c"
    "cm_nextId ?c = cm_nextId c"
    by (simp_all add: close_connection_def Some Let_def split: option.split)
  have num: "number_of P ?c = number_of P c - indicator_int (P r)" for P
    by (simp add: conns number_of_def number_delete [OF D(1) Some])
  have unauth: "get_or 0 (cm_unauthenticatedByIp ?c) ip' = number_of (waiting_at ip') ?c" for ip'
  proof (cases "cr_userId r")
    case None
    then have "1 \<le> get_or 0 (cm_unauthenticatedByIp c) ?ip"
      unfolding D(4) by (intro number_pos [OF Some]) (simp add: waiting_at_def)
    with None show ?thesis unfolding num
      by (simp add: close_connection_def Some Let_def get_or_decrement D(4) waiting_at_def indicator_int_def)
  next
    case (Some u)
    with \<open>js_get (cm_connections c) k = Some r\<close> show ?thesis unfolding num
      by (simp add: close_connection_def Let_def D(4) waiting_at_def indicator_int_def)
  qed
  have auth: "get_or 0 (cm_authenticatedByIp ?c) ip' = number_of (signed_at ip') ?c" for ip'
  proof (cases "cr_userId r")
    case None
    then show ?thesis unfolding num
      by (simp add: close_connection_def Some Let_def D(5) signed_at_def indicator_int_def)
  next
    case (Some u)
    then have "1 \<le> get_or 0 (cm_authenticatedByIp c) ?ip"
      unfolding D(5) using \<open>js_get (cm_connections c) k = Some r\<close>
      by (intro number_pos [where k = k and r = r]) (simp_all add: signed_at_def)
    with Some \<open>js_get (cm_connections c) k = Some r\<close> show ?thesis unfolding num
      using get_or_decrement [of "cm_authenticatedByIp c" ?ip ip']
      by (cases "?ip = ip'") (simp_all add: close_connection_def Let_def D(5) signed_at_def indicator_int_def)
  qed
  have active: "js_get (cm_activeUsers ?c) u
      = (if cr_userId r = Some u then None else js_get (cm_activeUsers c) u)" for u
    using Some D(6) [of u k] by (auto simp: close_connection_def Let_def split: option.split)
  have "counters_ok ?c"
  proof (rule counters_okI)
    show "js_ok (cm_connections ?c)" using D(1) by (simp add: conns)
    show "k' < cm_nextId ?c \<and> cr_id r' = k'" if "js_get (cm_connections ?c) k' = Some r'" for k' r'
      using that D(2) [of k' r'] D(3) [of k' r'] by (auto simp: conns split: if_splits)
    show "js_get (cm_activeUsers ?c) u = Some k'
       \<longleftrightarrow> (\<exists>r'. js_get (cm_connections ?c) k' = Some r' \<and> cr_userId r' = Some u)" for u k'
    proof (cases "cr_userId r = Some u")
      case True
      then have "js_get (cm_activeUsers c) u = Some k" using Some D(6) by blast
      then have "k' = k" if "js_get (cm_connections c) k' = Some r'" "cr_userId r' = Some u" for r'
        using that D(6) [of u k'] by auto
      with True show ?thesis by (auto simp: active conns)
    next
      case False
      with Some D(6) [of u k'] show ?thesis by (auto simp: active conns)
    qed
  qed (rule unauth auth)+
  moreover have "within_limits ?c"
  proof -
    have "connection_count ?c \<le> connection_count c"
      using D(1) by (simp add: connection_count_def conns js_size_delete)
    moreover have "number_of P ?c \<le> number_of P c" for P by (simp add: num count_indicator)
    ultimately show ?thesis using lim unfolding within_limits_def conns
      by (meson order_trans)
  qed
  ultimately show ?thesis by (simp add: manager_ok_def)
qed

interpretation manager: invariant_machine manager_step manager_ok
proof
  show "manager_ok (manager_step e c)" if "manager_ok c" for c e
    using that by (cases e) (simp_all add: open_ok authenticate_ok close_ok)
qed

lemma manager_step_limits: "cm_limits (manager_step e c) = cm_limits c"
  by (cases e) (simp_all add: open_connection_def authenticate_connection_def close_connection_def Let_def
      split: option.split)

lemma manager_run_limits: "cm_limits (fold manager_step es c) = cm_limits c"
  by (induction es arbitrary: c) (simp_all add: manager_step_limits)

section \<open>Properties\<close>

text \<open>
  C30. Connections are counted right. After any sequence of opened, authenticated and closed connections the
  counters by address are the numbers of connections that wait for authentication and that have it, all of
  them and the total are within the limits, and a user has at most one connection, the one found for it.
\<close>

theorem connections_accounted:
  assumes "0 \<le> cl_maxConnections l" "0 \<le> cl_maxUnauthenticatedPerIp l" "0 \<le> cl_maxAuthenticatedPerIp l"
    and c: "c = fold manager_step calls (new_manager l)"
  shows "connection_count c \<le> cl_maxConnections l
     \<and> (\<forall>ip. unauthenticatedCount c ip = number_of (waiting_at ip) c \<and> unauthenticatedCount c ip \<le> cl_maxUnauthenticatedPerIp l)
     \<and> (\<forall>ip. authenticatedCount c ip = number_of (signed_at ip) c \<and> authenticatedCount c ip \<le> cl_maxAuthenticatedPerIp l)
     \<and> (\<forall>u k. (case js_get (cm_connections c) k of None \<Rightarrow> False | Some r \<Rightarrow> cr_userId r = Some u)
          = (js_get (cm_activeUsers c) u = Some k))"
proof -
  have "manager_ok c" unfolding c by (intro manager.run_inv new_manager_ok assms)
  moreover have "cm_limits c = l" unfolding c manager_run_limits by (simp add: new_manager_def)
  ultimately show ?thesis
    unfolding manager_ok_def counters_ok_def within_limits_def by (auto split: option.split)
qed

definition demo_limits :: connection_limits where
  "demo_limits = \<lparr>cl_maxConnections = MAX_CONNECTIONS, cl_maxUnauthenticatedPerIp = MAX_UNAUTHENTICATED_PER_IP,
     cl_maxAuthenticatedPerIp = MAX_AUTHENTICATED_PER_IP\<rparr>"

theorem connections_accounted_witness:
  "unauthenticatedCount (fold manager_step [CmOpen ''a'', CmOpen ''a'', CmAuthenticate 1 (Account 7)] (new_manager demo_limits)) ''a''
     \<le> cl_maxUnauthenticatedPerIp demo_limits"
proof -
  have l: "0 \<le> cl_maxConnections demo_limits" "0 \<le> cl_maxUnauthenticatedPerIp demo_limits"
    "0 \<le> cl_maxAuthenticatedPerIp demo_limits"
    by (simp_all add: demo_limits_def MAX_CONNECTIONS_def MAX_UNAUTHENTICATED_PER_IP_def MAX_AUTHENTICATED_PER_IP_def)
  show ?thesis using connections_accounted [OF l refl] by blast
qed

end
