(* ===== verification/Tickets.thy ===== *)
theory Tickets
  imports Connections
begin

text \<open>
  Seat tickets: \<open>server-game/src/gateway/ticket-store.ts\<close>, and the authentication of a connection with one,
  \<open>gateway/ticket-auth.ts\<close>. SHA-256 is the parameter \<open>hash\<close>; the random bytes are a list of
  candidate tickets, drawn in order. The clock is an argument; a call of the store does not wait, so it is read as
  one value in a call. The room's side of an admission is a parameter over a state of its own.
\<close>

section \<open>Ticket store\<close>

record seat_reservation =
  sr_userId :: actor_id
  sr_nickname :: string
  sr_lobbyStats :: "lobby_stats option"
  sr_roomId :: string
  sr_serverId :: string
  sr_issuedAt :: int
  sr_expiresAt :: int
  sr_resume :: bool

record issued_ticket =
  it_ticket :: string
  it_expiresAt :: int

record 'd ticket_store =
  tk_reservations :: "('d, seat_reservation) js_map"
  tk_nextSweepAt :: int

definition TICKET_SWEEP_INTERVAL_MS :: int where "TICKET_SWEEP_INTERVAL_MS = 10000"

definition new_ticket_store :: "'d ticket_store" where
  "new_ticket_store = \<lparr>tk_reservations = js_empty, tk_nextSweepAt = 0\<rparr>"

definition ticket_size :: "'d ticket_store \<Rightarrow> nat" where
  "ticket_size s = js_size (tk_reservations s)"

definition deleteExpired :: "int \<Rightarrow> 'd ticket_store \<Rightarrow> nat \<times> 'd ticket_store" where
  "deleteExpired now s =
     (let m = js_delete_where (\<lambda>_ r. sr_expiresAt r \<le> now) (tk_reservations s)
      in (js_size (tk_reservations s) - js_size m, s\<lparr>tk_reservations := m\<rparr>))"

definition sweepExpired :: "int \<Rightarrow> 'd ticket_store \<Rightarrow> 'd ticket_store" where
  "sweepExpired now s =
     (if now < tk_nextSweepAt s then s
      else snd (deleteExpired now (s\<lparr>tk_nextSweepAt := now + TICKET_SWEEP_INTERVAL_MS\<rparr>)))"

text \<open>The \<open>do ... while\<close> loop over random tickets; \<open>None\<close> when the candidates do not suffice.\<close>

fun draw_ticket :: "(string \<Rightarrow> 'd) \<Rightarrow> string list \<Rightarrow> ('d, 'v) js_map \<Rightarrow> (string \<times> 'd) option" where
  "draw_ticket hash [] m = None"
| "draw_ticket hash (t # ts) m = (if js_has m (hash t) then draw_ticket hash ts m else Some (t, hash t))"

datatype issue_result = IssueRefused | IssueNoRandom | Issued issued_ticket

definition issue_ticket ::
  "(string \<Rightarrow> 'd) \<Rightarrow> string list \<Rightarrow> int \<Rightarrow> seat_reservation \<Rightarrow> 'd ticket_store \<Rightarrow> issue_result \<times> 'd ticket_store" where
  "issue_ticket hash random now r s0 =
     (let s = sweepExpired now s0 in
      if sr_expiresAt r \<le> sr_issuedAt r \<or> sr_expiresAt r \<le> now
         \<or> sr_expiresAt r - sr_issuedAt r > SEAT_RESERVATION_TTL_MS
      then (IssueRefused, s)
      else case draw_ticket hash random (tk_reservations s) of
             None \<Rightarrow> (IssueNoRandom, s)
           | Some (t, digest) \<Rightarrow>
               (Issued \<lparr>it_ticket = t, it_expiresAt = sr_expiresAt r\<rparr>,
                s\<lparr>tk_reservations := js_set digest r (tk_reservations s)\<rparr>))"

definition consumeWhen ::
  "(string \<Rightarrow> 'd) \<Rightarrow> int \<Rightarrow> string \<Rightarrow> (seat_reservation \<Rightarrow> 'x \<Rightarrow> 'a option \<times> 'x)
    \<Rightarrow> 'd ticket_store \<times> 'x \<Rightarrow> 'a option \<times> ('d ticket_store \<times> 'x)" where
  "consumeWhen hash now ticket admit sx =
     (case sx of (s0, x) \<Rightarrow>
       let s = sweepExpired now s0; digest = hash ticket in
       case js_get (tk_reservations s) digest of
         None \<Rightarrow> (None, (s, x))
       | Some r \<Rightarrow>
           if sr_expiresAt r \<le> now then (None, (s\<lparr>tk_reservations := js_delete digest (tk_reservations s)\<rparr>, x))
           else case admit r x of
                  (None, x') \<Rightarrow> (None, (s, x'))
                | (Some a, x') \<Rightarrow> (Some a, (s\<lparr>tk_reservations := js_delete digest (tk_reservations s)\<rparr>, x')))"

section \<open>Authentication\<close>

record admitted_seat =
  as_playerId :: int
  as_roomState :: room_state
  as_role :: player_role

record authenticated_principal = admitted_seat +
  ap_userId :: actor_id
  ap_nickname :: string
  ap_roomId :: string
  ap_isGuest :: bool
  ap_lobbyStats :: "lobby_stats option"
  ap_resume :: bool

text \<open>The characters of the regular expression \<open>^[A-Za-z0-9_-]{43}$\<close>.\<close>

definition ticket_char :: "char \<Rightarrow> bool" where
  "ticket_char ch \<longleftrightarrow> (let n = of_char ch :: nat in
     65 \<le> n \<and> n \<le> 90 \<or> 97 \<le> n \<and> n \<le> 122 \<or> 48 \<le> n \<and> n \<le> 57 \<or> n = 95 \<or> n = 45)"

definition ticket_shape :: "string \<Rightarrow> bool" where
  "ticket_shape t \<longleftrightarrow> length t = 43 \<and> list_all ticket_char t"

definition principal_of :: "seat_reservation \<Rightarrow> admitted_seat \<Rightarrow> authenticated_principal" where
  "principal_of r seat = \<lparr>as_playerId = as_playerId seat, as_roomState = as_roomState seat, as_role = as_role seat,
     ap_userId = sr_userId r, ap_nickname = sr_nickname r, ap_roomId = sr_roomId r,
     ap_isGuest = isGuestActor (sr_userId r), ap_lobbyStats = sr_lobbyStats r, ap_resume = sr_resume r\<rparr>"

definition admit_seat ::
  "(seat_reservation \<Rightarrow> 'r \<Rightarrow> admitted_seat option \<times> 'r) \<Rightarrow> string \<Rightarrow> int \<Rightarrow> int
    \<Rightarrow> seat_reservation \<Rightarrow> connection_manager \<times> 'r \<Rightarrow> authenticated_principal option \<times> (connection_manager \<times> 'r)" where
  "admit_seat admitReservation serverId now connectionId r cx =
     (case cx of (c, rooms) \<Rightarrow>
       if sr_expiresAt r \<le> now \<or> sr_serverId r \<noteq> serverId \<or> \<not> canAuthenticate c connectionId (sr_userId r)
       then (None, (c, rooms))
       else case admitReservation r rooms of
              (None, rooms') \<Rightarrow> (None, (c, rooms'))
            | (Some seat, rooms') \<Rightarrow>
                (case authenticate_connection connectionId (sr_userId r) c of
                   (False, c') \<Rightarrow> (None, (c', rooms'))
                 | (True, c') \<Rightarrow> (Some (principal_of r seat), (c', rooms'))))"

text \<open>
  \<open>now\<close> is the time after the yield at the start; the answer goes out no earlier than
  \<open>minimumResponseMs\<close> after \<open>startedAt\<close>.
\<close>

definition authenticate ::
  "(string \<Rightarrow> 'd) \<Rightarrow> (seat_reservation \<Rightarrow> 'r \<Rightarrow> admitted_seat option \<times> 'r) \<Rightarrow> string \<Rightarrow> int \<Rightarrow> int \<Rightarrow> int \<Rightarrow> int \<Rightarrow> string
    \<Rightarrow> 'd ticket_store \<times> (connection_manager \<times> 'r)
    \<Rightarrow> (authenticated_principal option \<times> int) \<times> ('d ticket_store \<times> (connection_manager \<times> 'r))" where
  "authenticate hash admitReservation serverId minimumResponseMs startedAt now connectionId ticket s =
     (let (principal, s') =
            (if ticket_shape ticket
             then consumeWhen hash now ticket (admit_seat admitReservation serverId now connectionId) s
             else (None, s));
          remaining = minimumResponseMs - (now - startedAt)
      in ((principal, if 0 < remaining then now + remaining else now), s'))"

section \<open>Lemmas\<close>

definition tickets_ok :: "'d ticket_store \<Rightarrow> bool" where
  "tickets_ok s \<longleftrightarrow> js_ok (tk_reservations s)"

lemma sweep_ok: "tickets_ok s \<Longrightarrow> tickets_ok (sweepExpired now s)"
  by (simp add: tickets_ok_def sweepExpired_def deleteExpired_def Let_def)

lemma sweep_get:
  assumes "tickets_ok s"
  shows "js_get (tk_reservations (sweepExpired now s)) d =
     (case js_get (tk_reservations s) d of None \<Rightarrow> None
      | Some r \<Rightarrow> if tk_nextSweepAt s \<le> now \<and> sr_expiresAt r \<le> now then None else Some r)"
  using assms by (auto simp: tickets_ok_def sweepExpired_def deleteExpired_def Let_def js_get_delete_where
      split: option.split)

lemma sweep_live:
  assumes "tickets_ok s" "js_get (tk_reservations s) d = Some r" "now < sr_expiresAt r"
  shows "js_get (tk_reservations (sweepExpired now s)) d = Some r"
  using assms by (simp add: sweep_get)

lemma sweep_sub:
  assumes "tickets_ok s" "js_get (tk_reservations (sweepExpired now s)) d = Some r"
  shows "js_get (tk_reservations s) d = Some r"
  using assms by (auto simp: sweep_get split: option.splits if_splits)

lemma draw_ticket_Some:
  "draw_ticket hash ts m = Some (t, d) \<Longrightarrow> d = hash t \<and> t \<in> set ts \<and> js_get m d = None"
  by (induction ts) (auto simp: js_has_def split: if_splits)

lemma draw_ticket_ex: "t \<in> set ts \<Longrightarrow> js_get m (hash t) = None \<Longrightarrow> draw_ticket hash ts m \<noteq> None"
  by (induction ts) (auto simp: js_has_def)

lemma tickets_ok_upd: "tickets_ok (s\<lparr>tk_reservations := m\<rparr>) \<longleftrightarrow> js_ok m"
  by (simp add: tickets_ok_def)

section \<open>A history of the store\<close>

text \<open>
  The calls of the store, and what they did: \<open>Gave\<close> a ticket with this digest for this reservation,
  \<open>Took\<close> one at this time. The admission of a consumed ticket is any function of the reservation.
\<close>

datatype ticket_call =
  TkIssue "string list" int seat_reservation
  | TkConsume int string "seat_reservation \<Rightarrow> bool"
  | TkPurge int

datatype 'd ticket_event = Gave 'd seat_reservation | Took 'd seat_reservation int

fun call_time :: "ticket_call \<Rightarrow> int" where
  "call_time (TkIssue _ now _) = now"
| "call_time (TkConsume now _ _) = now"
| "call_time (TkPurge now) = now"

definition yes_no :: "(seat_reservation \<Rightarrow> bool) \<Rightarrow> seat_reservation \<Rightarrow> unit \<Rightarrow> seat_reservation option \<times> unit" where
  "yes_no admit r x = (if admit r then Some r else None, ())"

fun ticket_step ::
  "(string \<Rightarrow> 'd) \<Rightarrow> ticket_call \<Rightarrow> 'd ticket_store \<times> 'd ticket_event list \<Rightarrow> 'd ticket_store \<times> 'd ticket_event list" where
  "ticket_step hash (TkIssue random now r) (s, hist) =
     (case issue_ticket hash random now r s of
        (Issued it, s') \<Rightarrow> (s', hist @ [Gave (hash (it_ticket it)) r])
      | (_, s') \<Rightarrow> (s', hist))"
| "ticket_step hash (TkConsume now ticket admit) (s, hist) =
     (case consumeWhen hash now ticket (yes_no admit) (s, ()) of
        (Some r, (s', _)) \<Rightarrow> (s', hist @ [Took (hash ticket) r now])
      | (None, (s', _)) \<Rightarrow> (s', hist))"
| "ticket_step hash (TkPurge now) (s, hist) = (snd (deleteExpired now s), hist)"

definition gave :: "'d \<Rightarrow> 'd ticket_event \<Rightarrow> bool" where
  "gave d e = (case e of Gave d' _ \<Rightarrow> d' = d | Took _ _ _ \<Rightarrow> False)"

definition took :: "'d \<Rightarrow> 'd ticket_event \<Rightarrow> bool" where
  "took d e = (case e of Gave _ _ \<Rightarrow> False | Took d' _ _ \<Rightarrow> d' = d)"

definition honest :: "'d ticket_event list \<Rightarrow> 'd ticket_event \<Rightarrow> bool" where
  "honest hist e = (case e of Gave _ r \<Rightarrow> sr_expiresAt r - sr_issuedAt r \<le> SEAT_RESERVATION_TTL_MS
     | Took d r now \<Rightarrow> Gave d r \<in> set hist \<and> now < sr_expiresAt r)"

definition balanced :: "'d ticket_store \<Rightarrow> 'd ticket_event list \<Rightarrow> 'd \<Rightarrow> bool" where
  "balanced s hist d \<longleftrightarrow>
     length (filter (took d) hist) + (if js_has (tk_reservations s) d then 1 else 0) \<le> length (filter (gave d) hist)"

definition history_ok :: "'d ticket_store \<times> 'd ticket_event list \<Rightarrow> bool" where
  "history_ok x \<longleftrightarrow> (case x of (s, hist) \<Rightarrow>
     tickets_ok s
     \<and> (\<forall>d. balanced s hist d)
     \<and> (\<forall>d r. js_get (tk_reservations s) d = Some r \<longrightarrow> Gave d r \<in> set hist)
     \<and> (\<forall>e \<in> set hist. honest hist e))"

lemma honest_mono: "honest hist e \<Longrightarrow> honest (hist @ es) e"
  by (auto simp: honest_def split: ticket_event.splits)

lemma history_less:
  assumes "history_ok (s, hist)" and "tickets_ok s'"
    and "\<And>d r. js_get (tk_reservations s') d = Some r \<Longrightarrow> js_get (tk_reservations s) d = Some r"
  shows "history_ok (s', hist)"
proof -
  have "balanced s' hist d" for d
  proof -
    have "balanced s hist d" using assms(1) by (simp add: history_ok_def)
    then show ?thesis using assms(3) [of d]
      by (cases "js_get (tk_reservations s') d") (auto simp: balanced_def js_has_def split: if_splits)
  qed
  with assms show ?thesis by (auto simp: history_ok_def)
qed

lemma history_sweep:
  assumes "history_ok (s, hist)"
  shows "history_ok (sweepExpired now s, hist)"
proof -
  have "tickets_ok s" using assms by (simp add: history_ok_def)
  then show ?thesis by (intro history_less [OF assms] sweep_ok) (auto dest: sweep_sub)
qed

lemma history_give:
  assumes "history_ok (s, hist)" "js_get (tk_reservations s) d = None"
    and "sr_expiresAt r - sr_issuedAt r \<le> SEAT_RESERVATION_TTL_MS"
  shows "history_ok (s\<lparr>tk_reservations := js_set d r (tk_reservations s)\<rparr>, hist @ [Gave d r])"
proof -
  have "balanced (s\<lparr>tk_reservations := js_set d r (tk_reservations s)\<rparr>) (hist @ [Gave d r]) d'" for d'
  proof -
    have "balanced s hist d'" using assms(1) by (simp add: history_ok_def)
    with assms(2) show ?thesis
      by (cases "d' = d") (auto simp: balanced_def js_has_def gave_def took_def)
  qed
  with assms show ?thesis
    by (auto simp: history_ok_def tickets_ok_def intro: honest_mono) (auto simp: honest_def)
qed

lemma history_take:
  assumes "history_ok (s, hist)" "js_get (tk_reservations s) d = Some r" "now < sr_expiresAt r"
  shows "history_ok (s\<lparr>tk_reservations := js_delete d (tk_reservations s)\<rparr>, hist @ [Took d r now])"
proof -
  have "balanced (s\<lparr>tk_reservations := js_delete d (tk_reservations s)\<rparr>) (hist @ [Took d r now]) d'" for d'
  proof -
    have "balanced s hist d'" using assms(1) by (simp add: history_ok_def)
    with assms(2) show ?thesis
      by (cases "d' = d") (auto simp: balanced_def js_has_def gave_def took_def)
  qed
  with assms show ?thesis
    by (auto simp: history_ok_def tickets_ok_def intro: honest_mono) (auto simp: honest_def)
qed

lemma history_drop:
  assumes "history_ok (s, hist)"
  shows "history_ok (s\<lparr>tk_reservations := js_delete d (tk_reservations s)\<rparr>, hist)"
  using assms by (rule history_less) (use assms in \<open>auto simp: history_ok_def tickets_ok_def split: if_splits\<close>)

lemma history_step:
  assumes "history_ok x"
  shows "history_ok (ticket_step hash c x)"
proof (cases x)
  case (Pair s hist)
  have ok: "history_ok (s, hist)" using assms Pair by simp
  show ?thesis unfolding Pair
  proof (cases c)
    case (TkIssue random now r)
    note sw = history_sweep [OF ok, of now]
    show "history_ok (ticket_step hash c (s, hist))"
    proof (cases "sr_expiresAt r \<le> sr_issuedAt r \<or> sr_expiresAt r \<le> now \<or> sr_expiresAt r - sr_issuedAt r > SEAT_RESERVATION_TTL_MS")
      case True
      with sw show ?thesis by (simp add: TkIssue issue_ticket_def Let_def)
    next
      case False
      show ?thesis
      proof (cases "draw_ticket hash random (tk_reservations (sweepExpired now s))")
        case None
        with False sw show ?thesis by (simp add: TkIssue issue_ticket_def Let_def)
      next
        case (Some td)
        obtain t d where td: "td = (t, d)" by (cases td)
        from draw_ticket_Some [OF Some [unfolded td]]
        have d: "d = hash t" and none: "js_get (tk_reservations (sweepExpired now s)) (hash t) = None" by auto
        from history_give [OF sw none, of r] False Some show ?thesis
          by (simp add: TkIssue issue_ticket_def Let_def td d)
      qed
    qed
  next
    case (TkConsume now ticket admit)
    note sw = history_sweep [OF ok, of now]
    let ?s = "sweepExpired now s"
    show "history_ok (ticket_step hash c (s, hist))"
    proof (cases "js_get (tk_reservations ?s) (hash ticket)")
      case None
      with sw show ?thesis by (simp add: TkConsume consumeWhen_def Let_def)
    next
      case (Some r)
      then show ?thesis
        using sw history_drop [OF sw, of "hash ticket"] history_take [OF sw Some, of now]
        by (auto simp: TkConsume consumeWhen_def Let_def yes_no_def)
    qed
  next
    case (TkPurge now)
    have "history_ok (snd (deleteExpired now s), hist)"
      using ok by (rule history_less)
        (use ok in \<open>auto simp: history_ok_def tickets_ok_def deleteExpired_def Let_def js_get_delete_where split: option.splits if_splits\<close>)
    then show "history_ok (ticket_step hash c (s, hist))" by (simp add: TkPurge)
  qed
qed

interpretation tickets: invariant_machine "ticket_step hash" history_ok for hash
  by unfold_locales (rule history_step)

section \<open>Properties\<close>

text \<open>
  C7. A ticket admits at most once. In any history of issued, presented and purged tickets, under any
  decisions of those who admit, the admissions with one digest are no more than the tickets
  issued with it; each is of a reservation issued under that digest, before it expired; and no ticket lives longer than the
  configured time.
\<close>

theorem ticket_single_use:
  "case fold (ticket_step hash) calls (new_ticket_store, []) of (s, hist) \<Rightarrow>
     length (filter (took d) hist) \<le> length (filter (gave d) hist)
     \<and> list_all (\<lambda>e. case e of Gave _ r \<Rightarrow> sr_expiresAt r - sr_issuedAt r \<le> SEAT_RESERVATION_TTL_MS
         | Took d' r now \<Rightarrow> Gave d' r \<in> set hist \<and> now < sr_expiresAt r) hist"
proof -
  have "history_ok (new_ticket_store, [])"
    by (simp add: history_ok_def tickets_ok_def new_ticket_store_def balanced_def js_has_def)
  then have "history_ok (fold (ticket_step hash) calls (new_ticket_store, []))"
    by (rule tickets.run_inv)
  then show ?thesis
    unfolding history_ok_def honest_def list_all_iff balanced_def by (auto split: prod.splits intro: add_leD1)
qed

text \<open>What a call that is about another ticket, or refused, leaves in place.\<close>

definition spares :: "(string \<Rightarrow> 'd) \<Rightarrow> string \<Rightarrow> seat_reservation \<Rightarrow> ticket_call \<Rightarrow> bool" where
  "spares hash t r c \<longleftrightarrow> call_time c < sr_expiresAt r
     \<and> (case c of TkConsume _ t' admit \<Rightarrow> hash t' \<noteq> hash t \<or> \<not> admit r | _ \<Rightarrow> True)"

lemma ticket_kept:
  assumes "tickets_ok s" "js_get (tk_reservations s) (hash t) = Some r" "spares hash t r c"
  shows "tickets_ok (fst (ticket_step hash c (s, hist)))
     \<and> js_get (tk_reservations (fst (ticket_step hash c (s, hist)))) (hash t) = Some r"
proof (cases c)
  case (TkIssue random now r')
  have live: "now < sr_expiresAt r" using assms(3) by (simp add: spares_def TkIssue)
  note k = sweep_ok [OF assms(1), of now] sweep_live [OF assms(1,2) live]
  show ?thesis
  proof (cases "draw_ticket hash random (tk_reservations (sweepExpired now s))")
    case None
    with k show ?thesis by (simp add: TkIssue issue_ticket_def Let_def)
  next
    case (Some td)
    obtain t' d where td: "td = (t', d)" by (cases td)
    have "js_get (tk_reservations (sweepExpired now s)) d = None"
      using draw_ticket_Some [OF Some [unfolded td]] by auto
    then have "hash t \<noteq> d" using k(2) by auto
    with Some k show ?thesis by (simp add: TkIssue issue_ticket_def Let_def td tickets_ok_def)
  qed
next
  case (TkConsume now t' admit)
  have live: "now < sr_expiresAt r" and other: "hash t' \<noteq> hash t \<or> \<not> admit r"
    using assms(3) by (simp_all add: spares_def TkConsume)
  note k = sweep_ok [OF assms(1), of now] sweep_live [OF assms(1,2) live]
  show ?thesis
  proof (cases "hash t' = hash t")
    case True
    with k other live show ?thesis by (simp add: TkConsume consumeWhen_def Let_def yes_no_def)
  next
    case False
    with k show ?thesis
      by (auto simp: TkConsume consumeWhen_def Let_def yes_no_def tickets_ok_def split: option.split)
  qed
next
  case (TkPurge now)
  then show ?thesis using assms
    by (simp add: spares_def deleteExpired_def Let_def js_get_delete_where tickets_ok_def)
qed

lemma tickets_kept:
  assumes "tickets_ok s" "js_get (tk_reservations s) (hash t) = Some r" "list_all (spares hash t r) calls"
  shows "tickets_ok (fst (fold (ticket_step hash) calls (s, hist)))
     \<and> js_get (tk_reservations (fst (fold (ticket_step hash) calls (s, hist)))) (hash t) = Some r"
  using assms
proof (induction calls arbitrary: s hist)
  case (Cons c calls)
  obtain s' hist' where st: "ticket_step hash c (s, hist) = (s', hist')" by fastforce
  from ticket_kept [where s = s and hash = hash and t = t and r = r and c = c and hist = hist] Cons.prems(1,2) Cons.prems(3) Cons.IH [of s' hist'] show ?case by (simp add: st)
qed simp

text \<open>
  A ticket that was given out works. As long as it has not expired, and whatever happened to other tickets, and
  although it may have been presented and refused before, presenting it admits its reservation and takes it away.
\<close>

theorem ticket_roundtrip:
  assumes "tickets_ok s" "issue_ticket hash random now r s = (Issued it, s1)"
    and "list_all (spares hash (it_ticket it) r) calls"
    and "later < sr_expiresAt r" "admit r x = (Some a, x')"
  shows "case consumeWhen hash later (it_ticket it) admit (fst (fold (ticket_step hash) calls (s1, [])), x) of (answer, s2, x2) \<Rightarrow>
     answer = Some a \<and> x2 = x' \<and> js_get (tk_reservations s2) (hash (it_ticket it)) = None"
proof -
  have "tickets_ok s1 \<and> js_get (tk_reservations s1) (hash (it_ticket it)) = Some r"
    using assms(1,2) sweep_ok [OF assms(1), of now]
    by (auto simp: issue_ticket_def Let_def tickets_ok_def dest!: draw_ticket_Some split: if_splits option.splits)
  with tickets_kept [of s1 hash "it_ticket it" r calls "[]"] assms(3)
  have k: "tickets_ok (fst (fold (ticket_step hash) calls (s1, [])))"
    "js_get (tk_reservations (fst (fold (ticket_step hash) calls (s1, [])))) (hash (it_ticket it)) = Some r" by auto
  from sweep_live [OF k assms(4)] assms(4,5) show ?thesis
    by (simp add: consumeWhen_def Let_def)
qed

definition demo_reservation :: seat_reservation where
  "demo_reservation = \<lparr>sr_userId = Account 7, sr_nickname = ''kim'', sr_lobbyStats = None, sr_roomId = ''room'',
     sr_serverId = ''server'', sr_issuedAt = 0, sr_expiresAt = 5000, sr_resume = False\<rparr>"

theorem ticket_roundtrip_witness:
  "case consumeWhen id 4999 ''t'' (\<lambda>r x. (Some (sr_userId r), x))
      (fst (fold (ticket_step id) [TkConsume 4000 ''t'' (\<lambda>r. False), TkPurge 4500]
        (snd (issue_ticket id [''t''] 0 demo_reservation new_ticket_store), [])), ()) of (answer, s2, x2) \<Rightarrow>
     answer = Some (Account 7) \<and> x2 = () \<and> js_get (tk_reservations s2) ''t'' = None"
proof -
  let ?s1 = "new_ticket_store\<lparr>tk_nextSweepAt := 10000, tk_reservations := js_set ''t'' demo_reservation js_empty\<rparr>"
  have s: "tickets_ok (new_ticket_store :: string ticket_store)"
    by (simp add: tickets_ok_def new_ticket_store_def)
  have i: "issue_ticket id [''t''] 0 demo_reservation new_ticket_store
      = (Issued \<lparr>it_ticket = ''t'', it_expiresAt = 5000\<rparr>, ?s1)"
    by (simp add: issue_ticket_def sweepExpired_def deleteExpired_def new_ticket_store_def demo_reservation_def
        SEAT_RESERVATION_TTL_MS_def TICKET_SWEEP_INTERVAL_MS_def js_has_def js_delete_where_def js_empty_def js_get_def)
  let ?it = "\<lparr>it_ticket = ''t'', it_expiresAt = 5000\<rparr>"
  have c: "list_all (spares id (it_ticket ?it) demo_reservation) [TkConsume 4000 ''t'' (\<lambda>r. False), TkPurge 4500]"
    and l: "4999 < sr_expiresAt demo_reservation"
    and a: "(\<lambda>r x. (Some (sr_userId r), x)) demo_reservation () = (Some (Account 7), ())"
    by (simp_all add: spares_def demo_reservation_def)
  show ?thesis
    using ticket_roundtrip [OF s i c l, where admit = "\<lambda>r x. (Some (sr_userId r), x)", OF a]
    unfolding i snd_conv by (simp only: issued_ticket.select_convs id_apply)
qed

lemma canAuthenticate_authenticate:
  assumes "canAuthenticate c k u"
  shows "\<exists>c'. authenticate_connection k u c = (True, c') \<and> js_get (cm_activeUsers c') u = Some k"
  using assms by (auto simp: canAuthenticate_def authenticate_connection_def split: option.splits)

lemma admit_seat_cases:
  "case admit_seat adm server now cid r (c, rooms) of (p, (c', rooms')) \<Rightarrow>
     (case p of
        None \<Rightarrow> c' = c \<and> (rooms' = rooms \<or> adm r rooms = (None, rooms'))
      | Some pr \<Rightarrow> sr_serverId r = server \<and> canAuthenticate c cid (sr_userId r)
          \<and> (\<exists>seat. adm r rooms = (Some seat, rooms') \<and> pr = principal_of r seat)
          \<and> js_get (cm_activeUsers c') (sr_userId r) = Some cid)"
proof (cases "sr_expiresAt r \<le> now \<or> sr_serverId r \<noteq> server \<or> \<not> canAuthenticate c cid (sr_userId r)")
  case True
  then show ?thesis by (simp add: admit_seat_def)
next
  case False
  then obtain c' where "authenticate_connection cid (sr_userId r) c = (True, c')"
    "js_get (cm_activeUsers c') (sr_userId r) = Some cid"
    using canAuthenticate_authenticate by blast
  with False show ?thesis by (simp add: admit_seat_def split: prod.split option.split)
qed


definition demo_ticket :: string where
  "demo_ticket = replicate 43 CHR ''a''"


end
