(* ===== verification/Bytes.thy ===== *)
theory Bytes
  imports Protocol
begin

text \<open>
  Reading and writing bytes: the part of \<open>DataView\<close> the codecs use (little endian), and the
  \<open>ByteWriter\<close> of \<open>shared/src/protocol/snapshot.ts\<close>. A buffer is a \<open>byte list\<close>; a
  \<open>DataView\<close> access at an offset is a list access, which the codecs only make after they have
  compared lengths. The writer is modelled twice: as the growing buffer it is, and as
  the list of the bytes written, and the first refines the second.
\<close>

section \<open>DataView\<close>

definition get_u8 :: "byte list \<Rightarrow> nat \<Rightarrow> int" where
  "get_u8 bs i = uint (bs ! i)"

definition get_i8 :: "byte list \<Rightarrow> nat \<Rightarrow> int" where
  "get_i8 bs i = sint (bs ! i)"

definition get_u16 :: "byte list \<Rightarrow> nat \<Rightarrow> int" where
  "get_u16 bs i = uint (bs ! i) + 256 * uint (bs ! (i + 1))"

definition get_u32 :: "byte list \<Rightarrow> nat \<Rightarrow> int" where
  "get_u32 bs i = uint (bs ! i) + 256 * uint (bs ! (i + 1))
     + 65536 * uint (bs ! (i + 2)) + 16777216 * uint (bs ! (i + 3))"

text \<open>\<open>setUint8\<close>, \<open>setInt8\<close>, \<open>setUint16\<close> and \<open>setUint32\<close> store the value modulo the width.\<close>

definition set_u8 :: "int \<Rightarrow> byte list" where
  "set_u8 v = [word_of_int v]"

definition set_u16 :: "int \<Rightarrow> byte list" where
  "set_u16 v = [word_of_int v, word_of_int (v div 256)]"

definition set_u32 :: "int \<Rightarrow> byte list" where
  "set_u32 v = [word_of_int v, word_of_int (v div 256), word_of_int (v div 65536), word_of_int (v div 16777216)]"

lemma uint_byte: "uint (word_of_int v :: byte) = v mod 256"
  by (simp add: uint_word_of_int)

lemma sint_byte: "- 128 \<le> v \<Longrightarrow> v \<le> 127 \<Longrightarrow> sint (word_of_int v :: byte) = v"
  by (simp add: sint_sbintrunc' signed_take_bit_int_eq_self_iff)

lemma uint_byte_range [simp]: "0 \<le> uint (b :: byte)" "uint (b :: byte) < 256" "uint (b :: byte) \<le> 255"
  using uint_lt2p [of b] by simp_all

lemma get_u8_range: "0 \<le> get_u8 bs i" "get_u8 bs i \<le> 255"
  by (simp_all add: get_u8_def)

lemma get_u16_range: "0 \<le> get_u16 bs i" "get_u16 bs i \<le> 65535"
proof -
  have "0 \<le> a + 256 * b \<and> a + 256 * b \<le> 65535" if "0 \<le> a" "a \<le> 255" "0 \<le> b" "b \<le> 255" for a b :: int
    using that by simp
  then show "0 \<le> get_u16 bs i" "get_u16 bs i \<le> 65535"
    unfolding get_u16_def using uint_byte_range by blast+
qed

lemma length_set [simp]: "length (set_u8 v) = 1" "length (set_u16 v) = 2" "length (set_u32 v) = 4"
  by (simp_all add: set_u8_def set_u16_def set_u32_def)

lemma get_set_u8 [simp]: "get_u8 (set_u8 v @ r) 0 = v mod 256"
  by (simp add: get_u8_def set_u8_def uint_byte)

lemma mod_div_256: "(v::int) mod 256 + 256 * (v div 256 mod 256) = v mod 65536"
  using mod_mult2_eq' [of v 256 256] zmod_zmult2_eq [of 256 v 256] by simp

lemma get_set_u16 [simp]: "get_u16 (set_u16 v @ r) 0 = v mod 65536"
  by (simp add: get_u16_def set_u16_def uint_byte mod_div_256)

lemma get_set_u32 [simp]: "get_u32 (set_u32 v @ r) 0 = v mod 4294967296"
proof -
  have whole: "v mod (65536 * 65536) = 65536 * (v div 65536 mod 65536) + v mod 65536"
    by (rule zmod_zmult2_eq) simp
  have high: "v div 65536 mod 256 + 256 * (v div 16777216 mod 256) = v div 65536 mod 65536"
    using mod_div_256 [of "v div 65536"] by (simp add: zdiv_zmult2_eq [symmetric])
  have "get_u32 (set_u32 v @ r) 0 = (v mod 256 + 256 * (v div 256 mod 256))
      + 65536 * (v div 65536 mod 256 + 256 * (v div 16777216 mod 256))"
    by (simp only: get_u32_def set_u32_def append.simps add_0 nth_Cons_0 uint_byte
        nth_Cons_Suc numeral_3_eq_3 numeral_2_eq_2 One_nat_def distrib_left mult.assoc [symmetric])
  also have "\<dots> = v mod (65536 * 65536)"
    unfolding mod_div_256 high whole by (rule add.commute)
  also have "(65536 * 65536 :: int) = 4294967296" by simp
  finally show ?thesis .
qed

lemma get_shift:
  "get_u8 (x # bs) (Suc i) = get_u8 bs i" "get_u16 (x # bs) (Suc i) = get_u16 bs i"
  "get_i8 (x # bs) (Suc i) = get_i8 bs i" "get_u32 (x # bs) (Suc i) = get_u32 bs i"
  by (simp_all add: get_u8_def get_u16_def get_i8_def get_u32_def add.commute [of _ 3] add.commute [of 2])

lemma get_append:
  "get_u8 (xs @ bs) (length xs + i) = get_u8 bs i"
  "get_u16 (xs @ bs) (length xs + i) = get_u16 bs i"
  "get_i8 (xs @ bs) (length xs + i) = get_i8 bs i"
  "get_u32 (xs @ bs) (length xs + i) = get_u32 bs i"
  by (simp_all add: get_u8_def get_u16_def get_i8_def get_u32_def nth_append)

section \<open>The values the writer stores\<close>

definition clampByte :: "real \<Rightarrow> int" where
  "clampByte v = clamp_int 0 255 (js_round v)"

definition ratioByte :: "real \<Rightarrow> int" where
  "ratioByte v = clampByte (v * 255)"

definition w_u8 :: "real \<Rightarrow> byte list" where
  "w_u8 v = set_u8 (clampByte v)"

definition w_i8 :: "real \<Rightarrow> byte list" where
  "w_i8 v = set_u8 (clamp_int (- 128) 127 (js_round v))"

definition w_u16 :: "real \<Rightarrow> byte list" where
  "w_u16 v = set_u16 (clamp_int 0 65535 (js_round v))"

definition w_u32 :: "real \<Rightarrow> byte list" where
  "w_u32 v = set_u32 (clamp_int 0 4294967295 (js_round v))"

text \<open>A section: its type, the length of its body as a \<open>u16\<close>, and the body.\<close>

definition w_section :: "int \<Rightarrow> byte list \<Rightarrow> byte list" where
  "w_section t body = w_u8 (of_int t) @ set_u16 (int (length body)) @ body"

lemma clamp_mod: "clamp_int 0 255 v mod 256 = clamp_int 0 255 v"
  "clamp_int 0 65535 v mod 65536 = clamp_int 0 65535 v"
  "clamp_int 0 4294967295 v mod 4294967296 = clamp_int 0 4294967295 v"
  by (simp_all add: clamp_int_def)

lemma clampByte_range: "0 \<le> clampByte v" "clampByte v \<le> 255"
  by (simp_all add: clampByte_def clamp_int_def)

lemma clampByte_of_int [simp]: "clampByte (of_int v) = clamp_int 0 255 v"
  by (simp add: clampByte_def)

lemma get_w [simp]:
  "get_u8 (w_u8 v @ r) 0 = clampByte v"
  "get_u16 (w_u16 v @ r) 0 = clamp_int 0 65535 (js_round v)"
  "get_u32 (w_u32 v @ r) 0 = clamp_int 0 4294967295 (js_round v)"
  by (simp_all add: w_u8_def w_u16_def w_u32_def clampByte_def clamp_mod)

lemma get_w_i8 [simp]: "get_i8 (w_i8 v @ r) 0 = clamp_int (- 128) 127 (js_round v)"
  using clamp_int_range [of "- 128" 127 "js_round v"]
  by (simp add: get_i8_def w_i8_def set_u8_def sint_byte)

lemma length_w [simp]: "length (w_u8 v) = 1" "length (w_i8 v) = 1" "length (w_u16 v) = 2" "length (w_u32 v) = 4"
  by (simp_all add: w_u8_def w_i8_def w_u16_def w_u32_def)

lemma length_w_section [simp]: "length (w_section t body) = 3 + length body"
  by (simp add: w_section_def)

text \<open>Dividing a quantised ratio by 255 returns it to within one 510th.\<close>

lemma ratioByte_near:
  assumes "0 \<le> v" "v \<le> 1"
  shows "\<bar>of_int (ratioByte v) / 255 - v\<bar> \<le> 1 / 510"
proof -
  have "0 \<le> js_round (v * 255)" "js_round (v * 255) \<le> 255"
    using assms by (auto intro!: js_round_ge js_round_le)
  then have "ratioByte v = js_round (v * 255)"
    by (simp add: ratioByte_def clampByte_def)
  then show ?thesis using js_round_near [of "v * 255"] by (simp add: abs_le_iff) argo
qed

section \<open>ByteWriter\<close>

record byte_writer =
  bw_buf :: "byte list"
  bw_len :: nat

definition bw_new :: byte_writer where
  "bw_new = \<lparr>bw_buf = replicate 1024 0, bw_len = 0\<rparr>"

text \<open>\<open>while (next < this.len + extra) next *= 2\<close>; the length starts at 1024 and never shrinks.\<close>

function grow_loop :: "nat \<Rightarrow> nat \<Rightarrow> nat" where
  "grow_loop next wanted = (if next < wanted \<and> 0 < next then grow_loop (next * 2) wanted else next)"
  by pat_completeness auto
termination
  by (relation "measure (\<lambda>(next, wanted). wanted - next)") auto

declare grow_loop.simps [simp del]

definition bw_ensure :: "nat \<Rightarrow> byte_writer \<Rightarrow> byte_writer" where
  "bw_ensure extra w =
     (if bw_len w + extra \<le> length (bw_buf w) then w
      else let next = grow_loop (length (bw_buf w) * 2) (bw_len w + extra);
               kept = take (bw_len w) (bw_buf w)
           in w\<lparr>bw_buf := kept @ replicate (next - length kept) 0\<rparr>)"

text \<open>Overwriting bytes from an offset on: \<open>view.setUint8(at, ...)\<close>, \<open>buf.set(b, at)\<close>.\<close>

definition bw_store :: "nat \<Rightarrow> byte list \<Rightarrow> byte_writer \<Rightarrow> byte_writer" where
  "bw_store off bs w =
     w\<lparr>bw_buf := take off (bw_buf w) @ bs @ drop (off + length bs) (bw_buf w)\<rparr>"

text \<open>\<open>u8\<close>, \<open>i8\<close>, \<open>u16\<close>, \<open>u32\<close> and \<open>bytes\<close> share one shape: ensure, store at \<open>len\<close>, advance.\<close>

definition bw_bytes :: "byte list \<Rightarrow> byte_writer \<Rightarrow> byte_writer" where
  "bw_bytes bs w =
     (let w1 = bw_store (bw_len w) bs (bw_ensure (length bs) w)
      in w1\<lparr>bw_len := bw_len w1 + length bs\<rparr>)"

definition bw_u8 :: "real \<Rightarrow> byte_writer \<Rightarrow> byte_writer" where "bw_u8 v = bw_bytes (w_u8 v)"
definition bw_i8 :: "real \<Rightarrow> byte_writer \<Rightarrow> byte_writer" where "bw_i8 v = bw_bytes (w_i8 v)"
definition bw_u16 :: "real \<Rightarrow> byte_writer \<Rightarrow> byte_writer" where "bw_u16 v = bw_bytes (w_u16 v)"
definition bw_u32 :: "real \<Rightarrow> byte_writer \<Rightarrow> byte_writer" where "bw_u32 v = bw_bytes (w_u32 v)"

text \<open>The header is written with length 0, the body runs, and the length is patched in.\<close>

definition bw_section :: "int \<Rightarrow> (byte_writer \<Rightarrow> byte_writer) \<Rightarrow> byte_writer \<Rightarrow> byte_writer" where
  "bw_section t body w =
     (let w1 = bw_u8 (of_int t) w;
          lengthAt = bw_len w1;
          w2 = bw_u16 0 w1;
          start = bw_len w2;
          w3 = body w2
      in bw_store lengthAt (set_u16 (int (bw_len w3 - start))) w3)"

definition bw_finish :: "byte_writer \<Rightarrow> byte list" where
  "bw_finish w = take (bw_len w) (bw_buf w)"

definition bw_ok :: "byte_writer \<Rightarrow> bool" where
  "bw_ok w \<longleftrightarrow> bw_len w \<le> length (bw_buf w) \<and> 0 < length (bw_buf w)"

section \<open>The growing buffer refines the list of bytes written\<close>

lemma grow_loop_ge: "0 < next \<Longrightarrow> wanted \<le> grow_loop next wanted \<and> next \<le> grow_loop next wanted"
proof (induction "next" wanted rule: grow_loop.induct)
  case (1 "next" wanted)
  show ?case
  proof (cases "next < wanted")
    case True
    then have "grow_loop next wanted = grow_loop (next * 2) wanted"
      using 1(2) by (simp add: grow_loop.simps [of "next"])
    then show ?thesis using 1(1) [OF conjI [OF True 1(2)]] 1(2) by simp
  next
    case False
    then show ?thesis by (simp add: grow_loop.simps [of "next"])
  qed
qed

lemma bw_ensure_ok:
  assumes "bw_ok w"
  shows "bw_ok (bw_ensure n w)" "bw_len (bw_ensure n w) = bw_len w"
    "bw_finish (bw_ensure n w) = bw_finish w" "bw_len w + n \<le> length (bw_buf (bw_ensure n w))"
  using assms grow_loop_ge [of "length (bw_buf w) * 2" "bw_len w + n"]
  by (auto simp: bw_ok_def bw_ensure_def Let_def bw_finish_def)

lemma bw_bytes_ok:
  assumes "bw_ok w"
  shows "bw_ok (bw_bytes bs w)" "bw_len (bw_bytes bs w) = bw_len w + length bs"
    "bw_finish (bw_bytes bs w) = bw_finish w @ bs"
proof -
  have len: "bw_len w \<le> length (bw_buf w)" using assms by (simp add: bw_ok_def)
  show "bw_ok (bw_bytes bs w)" "bw_len (bw_bytes bs w) = bw_len w + length bs"
    "bw_finish (bw_bytes bs w) = bw_finish w @ bs"
    using bw_ensure_ok [OF assms, of "length bs"] len
    by (auto simp: min_absorb1 min_absorb2 bw_bytes_def bw_store_def Let_def bw_ok_def bw_finish_def)
qed

text \<open>What a writer action must do for the list model to describe it: append \<open>out\<close>.\<close>

definition appends :: "(byte_writer \<Rightarrow> byte_writer) \<Rightarrow> byte list \<Rightarrow> bool" where
  "appends f out \<longleftrightarrow> (\<forall>w. bw_ok w \<longrightarrow> bw_ok (f w) \<and> bw_len (f w) = bw_len w + length out
      \<and> bw_finish (f w) = bw_finish w @ out)"

lemma appends_bytes: "appends (bw_bytes bs) bs"
  by (simp add: appends_def bw_bytes_ok)

lemma appends_writes:
  "appends (bw_u8 v) (w_u8 v)" "appends (bw_i8 v) (w_i8 v)"
  "appends (bw_u16 v) (w_u16 v)" "appends (bw_u32 v) (w_u32 v)"
  by (simp_all add: bw_u8_def bw_i8_def bw_u16_def bw_u32_def appends_bytes)

lemma appends_then: "appends f a \<Longrightarrow> appends g b \<Longrightarrow> appends (\<lambda>w. g (f w)) (a @ b)"
  by (simp add: appends_def)

lemma bw_ok_new: "bw_ok bw_new"
  by (simp add: bw_ok_def bw_new_def)

lemma appends_section:
  assumes "appends body out"
  shows "appends (bw_section t body) (w_section t out)"
  unfolding appends_def
proof (intro allI impI)
  fix w assume ok: "bw_ok w"
  let ?w2 = "bw_u16 0 (bw_u8 (of_int t) w)"
  let ?w3 = "body ?w2"
  have 1: "bw_ok (bw_u8 (of_int t) w)" "bw_len (bw_u8 (of_int t) w) = bw_len w + 1"
    "bw_finish (bw_u8 (of_int t) w) = bw_finish w @ w_u8 (of_int t)"
    using appends_writes(1) [of "of_int t"] ok by (auto simp: appends_def)
  have 2: "bw_ok ?w2" "bw_len ?w2 = bw_len w + 3"
    "bw_finish ?w2 = bw_finish w @ w_u8 (of_int t) @ w_u16 0"
    using appends_writes(3) [of 0] 1 by (auto simp: appends_def)
  have 3: "bw_ok ?w3" "bw_len ?w3 = bw_len w + 3 + length out"
    "bw_finish ?w3 = bw_finish w @ w_u8 (of_int t) @ w_u16 0 @ out"
    using assms 2 by (auto simp: appends_def)
  have lenw: "length (bw_finish w) = bw_len w" using ok by (simp add: bw_finish_def bw_ok_def)
  let ?buf = "bw_buf ?w3" let ?n = "bw_len w + 1" let ?l = "set_u16 (int (length out))"
  have parts: "take ?n ?buf = bw_finish w @ w_u8 (of_int t)"
    "take (length out) (drop (?n + 2) ?buf) = out"
  proof -
    have t: "take (bw_len w + 3 + length out) ?buf = bw_finish w @ w_u8 (of_int t) @ w_u16 0 @ out"
      using 3 by (simp add: bw_finish_def)
    have "take ?n (take (bw_len w + 3 + length out) ?buf) = bw_finish w @ w_u8 (of_int t)"
      unfolding t using lenw by simp
    then show "take ?n ?buf = bw_finish w @ w_u8 (of_int t)" by (simp add: min_def)
    have "drop (?n + 2) (take (bw_len w + 3 + length out) ?buf) = out"
      unfolding t using lenw by simp
    then show "take (length out) (drop (?n + 2) ?buf) = out" by (simp add: drop_take)
  qed
  have len3: "bw_len w + 3 + length out \<le> length ?buf" using 3 by (simp add: bw_ok_def)
  have sec: "bw_section t body w = bw_store ?n ?l ?w3"
    using 1 2 3 by (simp add: bw_section_def Let_def)
  have "bw_finish (bw_store ?n ?l ?w3) = bw_finish w @ w_section t out"
    using parts len3 3(2) lenw unfolding bw_store_def
    by (simp add: bw_finish_def [of "bw_buf_update _ _"] w_section_def)
  then show "bw_ok (bw_section t body w) \<and>
      bw_len (bw_section t body w) = bw_len w + length (w_section t out) \<and>
      bw_finish (bw_section t body w) = bw_finish w @ w_section t out"
    unfolding sec using 3 len3 by (simp add: bw_store_def bw_ok_def)
qed

text \<open>Any program of calls to the writer, sections nested as the code could nest them.\<close>

datatype writer_call =
  WU8 real | WI8 real | WU16 real | WU32 real | WBytes "byte list" | WSection int "writer_call list"

fun bw_call :: "writer_call \<Rightarrow> byte_writer \<Rightarrow> byte_writer"
  and bw_calls :: "writer_call list \<Rightarrow> byte_writer \<Rightarrow> byte_writer" where
  "bw_call (WU8 v) w = bw_u8 v w"
| "bw_call (WI8 v) w = bw_i8 v w"
| "bw_call (WU16 v) w = bw_u16 v w"
| "bw_call (WU32 v) w = bw_u32 v w"
| "bw_call (WBytes bs) w = bw_bytes bs w"
| "bw_call (WSection t cs) w = bw_section t (bw_calls cs) w"
| "bw_calls [] w = w"
| "bw_calls (c # cs) w = bw_calls cs (bw_call c w)"

fun call_bytes :: "writer_call \<Rightarrow> byte list" and calls_bytes :: "writer_call list \<Rightarrow> byte list" where
  "call_bytes (WU8 v) = w_u8 v"
| "call_bytes (WI8 v) = w_i8 v"
| "call_bytes (WU16 v) = w_u16 v"
| "call_bytes (WU32 v) = w_u32 v"
| "call_bytes (WBytes bs) = bs"
| "call_bytes (WSection t cs) = w_section t (calls_bytes cs)"
| "calls_bytes [] = []"
| "calls_bytes (c # cs) = call_bytes c @ calls_bytes cs"

lemma appends_calls: "appends (bw_call c) (call_bytes c)" "appends (bw_calls cs) (calls_bytes cs)"
proof (induction c and cs rule: call_bytes_calls_bytes.induct)
  case (6 t cs)
  have "bw_call (WSection t cs) = bw_section t (bw_calls cs)" by (rule ext) simp
  with appends_section [OF 6] show ?case by simp
next
  case 7
  then show ?case by (simp add: appends_def)
next
  case (8 c cs)
  from appends_then [OF 8] show ?case by (simp add: appends_def)
qed (use appends_writes appends_bytes in \<open>simp_all add: appends_def\<close>)


end
