(* ===== verification/Input.thy ===== *)
theory Input
  imports Bytes
begin

text \<open>
  The client's input packet: \<open>shared/src/protocol/input.ts\<close>. Six bytes; the decoder accepts
  exactly the packets of that length, version and type. Sequence numbers are 16 bits wide and
  wrap, so they are compared by their signed difference.
\<close>

unbundle bit_operations_syntax

section \<open>Model\<close>

definition MESSAGE_TYPE_INPUT_STATE :: int where "MESSAGE_TYPE_INPUT_STATE = 1"
definition INPUT_PACKET_BYTES :: nat where "INPUT_PACKET_BYTES = 6"

definition BIT_LEFT :: int where "BIT_LEFT = 1"
definition BIT_RIGHT :: int where "BIT_RIGHT = 2"
definition BIT_UP :: int where "BIT_UP = 4"
definition BIT_DOWN :: int where "BIT_DOWN = 8"

record input_state =
  in_sequence :: int
  in_left :: bool
  in_right :: bool
  in_up :: bool
  in_down :: bool
  in_heldActions :: int

datatype input_decode_error = BadLength nat | VersionMismatch int | UnknownType int

definition encodeInput :: "input_state \<Rightarrow> byte list" where
  "encodeInput state =
     (let m0 = (0::int);
          m1 = (if in_left state then m0 OR BIT_LEFT else m0);
          m2 = (if in_right state then m1 OR BIT_RIGHT else m1);
          m3 = (if in_up state then m2 OR BIT_UP else m2);
          movement = (if in_down state then m3 OR BIT_DOWN else m3)
      in set_u8 PROTOCOL_VERSION @ set_u8 MESSAGE_TYPE_INPUT_STATE
         @ set_u16 (in_sequence state AND 0xFFFF)
         @ set_u8 movement @ set_u8 (in_heldActions state AND 0xFF))"

definition decodeInput :: "byte list \<Rightarrow> input_decode_error + input_state" where
  "decodeInput buffer =
     (if length buffer \<noteq> INPUT_PACKET_BYTES then Inl (BadLength (length buffer))
      else let version = get_u8 buffer 0 in
        if version \<noteq> PROTOCOL_VERSION then Inl (VersionMismatch version)
        else let type = get_u8 buffer 1 in
          if type \<noteq> MESSAGE_TYPE_INPUT_STATE then Inl (UnknownType type)
          else let movement = get_u8 buffer 4 in
            Inr \<lparr>in_sequence = get_u16 buffer 2,
                 in_left = (movement AND BIT_LEFT \<noteq> 0),
                 in_right = (movement AND BIT_RIGHT \<noteq> 0),
                 in_up = (movement AND BIT_UP \<noteq> 0),
                 in_down = (movement AND BIT_DOWN \<noteq> 0),
                 in_heldActions = get_u8 buffer 5\<rparr>)"

text \<open>Opposite directions cancel; a diagonal is scaled by \<open>Math.SQRT1_2\<close>.\<close>

definition movementVector :: "input_state \<Rightarrow> real \<times> real" where
  "movementVector state =
     (let x = (if in_right state then 1 else 0) - (if in_left state then 1 else 0);
          y = (if in_down state then 1 else 0) - (if in_up state then 1 else 0)
      in if x \<noteq> 0 \<and> y \<noteq> 0 then let inv = sqrt (1 / 2) in (x * inv, y * inv) else (x, y))"

text \<open>\<open>(((a - b) & 0xffff) << 16) >> 16\<close> on JavaScript's signed 32-bit integers.\<close>

definition compareSequence :: "int \<Rightarrow> int \<Rightarrow> int" where
  "compareSequence a b =
     sint (signed_drop_bit 16 (push_bit 16 (word_of_int ((a - b) AND 0xFFFF) :: 32 word)))"

definition isNewerSequence :: "int \<Rightarrow> int \<Rightarrow> bool" where
  "isNewerSequence a b \<longleftrightarrow> 0 < compareSequence a b"

definition nextSequence :: "int \<Rightarrow> int" where
  "nextSequence current = (current + 1) AND 0xFFFF"

section \<open>Lemmas\<close>

lemma and_FFFF: "(a::int) AND 0xFFFF = a mod 65536"
  using take_bit_eq_mask [of 16 a] by (simp add: take_bit_eq_mod mask_eq_exp_minus_1 and.commute)

lemma and_FF: "(a::int) AND 0xFF = a mod 256"
  using take_bit_eq_mask [of 8 a] by (simp add: take_bit_eq_mod mask_eq_exp_minus_1 and.commute)

lemma shift_pair: "sint (signed_drop_bit 16 (push_bit 16 (word_of_int d :: 32 word))) = signed_take_bit 15 d"
proof (rule bit_eqI)
  fix n :: nat
  consider "n < 15" | "n = 15" | "15 < n" by linarith
  then show "bit (sint (signed_drop_bit 16 (push_bit 16 (word_of_int d :: 32 word)))) n
      = bit (signed_take_bit 15 d) n"
    by cases (auto simp: sint_signed_drop_bit_eq bit_drop_bit_eq bit_sint_iff bit_push_bit_iff
      bit_signed_take_bit_iff bit_word_of_int_iff min_def)
qed

lemma shift_mod: "((d::int) + 32768) mod 65536 =
    (if d mod 65536 < 32768 then d mod 65536 + 32768 else d mod 65536 - 32768)"
proof -
  have r: "0 \<le> d mod 65536" "d mod 65536 < 65536" by simp_all
  have "(d + 32768) mod 65536 = (d mod 65536 + 32768) mod 65536" by (simp add: mod_add_left_eq)
  also have "\<dots> = (if d mod 65536 < 32768 then d mod 65536 + 32768 else d mod 65536 - 32768)"
  proof (cases "d mod 65536 < 32768")
    case True
    with r show ?thesis by simp
  next
    case False
    have "(d mod 65536 + 32768) mod 65536 = (d mod 65536 + 32768 - 65536) mod 65536"
      by (simp only: minus_mod_self2)
    with False r show ?thesis by simp
  qed
  finally show ?thesis .
qed

lemma compareSequence_eq:
  "compareSequence a b = (if (a - b) mod 65536 < 32768 then (a - b) mod 65536 else (a - b) mod 65536 - 65536)"
  using shift_mod [of "(a - b) mod 65536"]
  by (simp add: compareSequence_def and_FFFF shift_pair signed_take_bit_eq_take_bit_shift take_bit_eq_mod)

lemma isNewerSequence_iff: "isNewerSequence a b \<longleftrightarrow> 0 < (a - b) mod 65536 \<and> (a - b) mod 65536 < 32768"
proof -
  have r: "0 \<le> (a - b) mod 65536" "(a - b) mod 65536 < 65536" by simp_all
  then show ?thesis unfolding isNewerSequence_def compareSequence_eq by auto
qed

lemma nextSequence_eq: "nextSequence s = (s + 1) mod 65536"
  by (simp add: nextSequence_def and_FFFF)

text \<open>Every four directions packed into one byte are read back.\<close>

lemma encodeInput_length: "length (encodeInput s) = INPUT_PACKET_BYTES"
  by (simp add: encodeInput_def Let_def INPUT_PACKET_BYTES_def)

lemma decodeInput_explicit:
  "decodeInput [b0, b1, b2, b3, b4, b5] =
     (if uint b0 \<noteq> 2 then Inl (VersionMismatch (uint b0))
      else if uint b1 \<noteq> 1 then Inl (UnknownType (uint b1))
      else Inr \<lparr>in_sequence = uint b2 + 256 * uint b3,
        in_left = (uint b4 AND 1 \<noteq> 0), in_right = (uint b4 AND 2 \<noteq> 0),
        in_up = (uint b4 AND 4 \<noteq> 0), in_down = (uint b4 AND 8 \<noteq> 0),
        in_heldActions = uint b5\<rparr>)"
  by (simp add: decodeInput_def INPUT_PACKET_BYTES_def get_u8_def get_u16_def PROTOCOL_VERSION_def
      MESSAGE_TYPE_INPUT_STATE_def BIT_LEFT_def BIT_RIGHT_def BIT_UP_def BIT_DOWN_def Let_def)

section \<open>Properties\<close>

text \<open>
  Decoding an encoded input gives it back: the four directions, the sequence number and the
  reserved byte, the last two reduced to the 16 and 8 bits the packet carries.
\<close>

theorem decodeInput_encodeInput:
  "decodeInput (encodeInput s) =
     Inr (s\<lparr>in_sequence := in_sequence s mod 65536, in_heldActions := in_heldActions s mod 256\<rparr>)"
proof -
  have seq: "v mod 65536 mod 256 + 256 * (v mod 65536 div 256 mod 256) = v mod 65536" for v :: int
    using mod_div_256 [of "v mod 65536"] by simp
  show ?thesis
    unfolding encodeInput_def Let_def set_u8_def set_u16_def append.simps decodeInput_explicit
    by (cases "in_left s"; cases "in_right s"; cases "in_up s"; cases "in_down s")
      (simp_all add: uint_byte PROTOCOL_VERSION_def MESSAGE_TYPE_INPUT_STATE_def and_FFFF and_FF seq
        BIT_LEFT_def BIT_RIGHT_def BIT_UP_def BIT_DOWN_def)
qed

text \<open>
  The decoder accepts a buffer exactly when it has six bytes and starts with the version and
  the message type; what it accepts has a 16-bit sequence number and an 8-bit reserved byte.
\<close>

theorem decodeInput_accepts_iff:
  "(case decodeInput buffer of
      Inr s \<Rightarrow> length buffer = 6 \<and> buffer ! 0 = 2 \<and> buffer ! 1 = 1
        \<and> in_sequence s \<in> {0..65535} \<and> in_heldActions s \<in> {0..255}
    | Inl (BadLength n) \<Rightarrow> length buffer = n \<and> n \<noteq> 6
    | Inl (VersionMismatch v) \<Rightarrow> length buffer = 6 \<and> uint (buffer ! 0) = v \<and> v \<noteq> 2
    | Inl (UnknownType t) \<Rightarrow> length buffer = 6 \<and> buffer ! 0 = 2 \<and> uint (buffer ! 1) = t \<and> t \<noteq> 1)"
proof -
  have two: "uint b = 2 \<longleftrightarrow> b = 2" and one: "uint b = 1 \<longleftrightarrow> b = 1" for b :: byte
    using word_uint_eq_iff [of b 2] word_uint_eq_iff [of b 1] by simp_all
  show ?thesis
    using get_u16_range [of buffer 2] get_u8_range [of buffer 5]
    by (auto simp: decodeInput_def Let_def INPUT_PACKET_BYTES_def PROTOCOL_VERSION_def
        MESSAGE_TYPE_INPUT_STATE_def get_u8_def [of buffer 0] get_u8_def [of buffer "Suc 0"] two one)
qed

text \<open>
  Wrap-around order. For 16-bit sequence numbers: a number is newer than another exactly when
  it is 1 to 32767 steps ahead modulo \<open>2^16\<close>; the relation is irreflexive and
  antisymmetric; the next number is always newer; two different numbers are
  incomparable exactly when they are half the range apart.
\<close>

theorem isNewerSequence_wraps:
  "(isNewerSequence a b \<longleftrightarrow> (\<exists>n \<in> {1..32767}. a mod 65536 = (b + n) mod 65536))
   \<and> \<not> isNewerSequence a a
   \<and> \<not> (isNewerSequence a b \<and> isNewerSequence b a)
   \<and> isNewerSequence (nextSequence a) a
   \<and> ((\<not> isNewerSequence a b \<and> \<not> isNewerSequence b a) \<longleftrightarrow> (a - b) mod 65536 \<in> {0, 32768})"
proof -
  let ?d = "(a - b) mod 65536"
  have r: "0 \<le> ?d" "?d < 65536" by simp_all
  have neg: "(b - a) mod 65536 = (if ?d = 0 then 0 else 65536 - ?d)"
    using zmod_zminus1_eq_if [of "a - b" 65536] by simp
  have ahead: "a mod 65536 = (b + n) mod 65536 \<longleftrightarrow> ?d = n" if "1 \<le> n" "n \<le> 32767" for n
  proof -
    have "a mod 65536 = (b + n) mod 65536 \<longleftrightarrow> 65536 dvd (a - b - n)"
      by (simp add: mod_eq_dvd_iff algebra_simps)
    also have "\<dots> \<longleftrightarrow> ?d = n mod 65536" by (simp add: mod_eq_dvd_iff)
    finally show ?thesis using that by simp
  qed
  have first: "isNewerSequence a b \<longleftrightarrow> (\<exists>n \<in> {1..32767}. a mod 65536 = (b + n) mod 65536)"
  proof
    assume "isNewerSequence a b"
    then show "\<exists>n \<in> {1..32767}. a mod 65536 = (b + n) mod 65536"
      using ahead [of ?d] by (intro bexI [of _ ?d]) (auto simp: isNewerSequence_iff)
  next
    assume "\<exists>n \<in> {1..32767}. a mod 65536 = (b + n) mod 65536"
    then obtain n where "1 \<le> n" "n \<le> 32767" "a mod 65536 = (b + n) mod 65536" by auto
    then have "?d = n" using ahead by blast
    then show "isNewerSequence a b" using \<open>1 \<le> n\<close> \<open>n \<le> 32767\<close> by (simp add: isNewerSequence_iff)
  qed
  have nxt: "(nextSequence a - a) mod 65536 = 1"
    by (simp add: nextSequence_eq mod_diff_left_eq)
  show ?thesis
  proof (intro conjI)
    show "\<not> (isNewerSequence a b \<and> isNewerSequence b a)"
      using r neg by (auto simp: isNewerSequence_iff)
    show "(\<not> isNewerSequence a b \<and> \<not> isNewerSequence b a) \<longleftrightarrow> (a - b) mod 65536 \<in> {0, 32768}"
      using r neg by (auto simp: isNewerSequence_iff split: if_splits)
  qed (use first nxt in \<open>simp_all add: isNewerSequence_iff\<close>)
qed

text \<open>
  Movement never exceeds the unit: the vector of any combination of keys is zero or has
  length one, and opposite keys cancel their axis.
\<close>

theorem movementVector_unit:
  "(case movementVector s of (x, y) \<Rightarrow>
      x * x + y * y = (if in_left s = in_right s \<and> in_up s = in_down s then 0 else 1)
      \<and> (x = 0 \<longleftrightarrow> in_left s = in_right s) \<and> (y = 0 \<longleftrightarrow> in_up s = in_down s))"
  by (auto simp: movementVector_def Let_def)

end
