(* ===== verification/Lobby.thy ===== *)
theory Lobby
  imports Tickets Input
begin

text \<open>
  The lobby of a room: \<open>server-game/src/rooms/lobby-state.ts\<close> (\<open>LobbyRoster\<close> and \<open>StartLock\<close>), the state machine
  \<open>rooms/room-state.ts\<close>, and the handle of a connection, \<open>transport/game-transport.ts\<close>. A member object is shared and
  mutated in the code; here it lives in the map under its user, and a mutation is an update there.
\<close>

section \<open>Roster\<close>

record game_connection =
  gc_id :: int
  gc_userId :: actor_id
  gc_resume :: bool
  gc_playerId :: int

record seat_hold =
  sh_reservation :: seat_reservation
  sh_playerId :: int
  sh_slot :: int

record lobby_member =
  lm_userId :: actor_id
  lm_playerId :: int
  lm_slot :: int
  lm_nickname :: string
  lm_guest :: bool
  lm_stats :: "lobby_stats option"
  lm_loadout :: skill_id
  lm_control :: "player_control option"
  lm_joinedOrder :: int
  lm_colorIndex :: int
  lm_role :: player_role
  lm_spectatorEligible :: bool
  lm_inCurrentGame :: bool
  lm_connection :: "game_connection option"
  lm_admissionPendingUntil :: "int option"
  lm_reconnectUntil :: "int option"
  lm_latestInput :: "input_state option"
  lm_lastInputSequence :: "int option"

record adopted_member =
  ad_userId :: actor_id
  ad_playerId :: int
  ad_slot :: int
  ad_nickname :: string
  ad_guest :: bool
  ad_stats :: "lobby_stats option"
  ad_loadout :: skill_id
  ad_joinedOrder :: int
  ad_colorIndex :: int
  ad_isHost :: bool

record lobby_roster =
  ro_capacity :: int
  ro_holds :: "(actor_id, seat_hold) js_map"
  ro_members :: "(actor_id, lobby_member) js_map"
  ro_joinOrder :: int
  ro_hostUserId :: "actor_id option"

datatype hold_failure = HoldDuplicate | HoldFull

datatype move_slot_result = SlotMoved | SlotNotFound | SlotOutOfRange | SlotOccupied

definition new_roster :: "int \<Rightarrow> lobby_roster option" where
  "new_roster capacity =
     (if capacity < 1 \<or> MAX_PLAYERS_PER_ROOM < capacity then None
      else Some \<lparr>ro_capacity = capacity, ro_holds = js_empty, ro_members = js_empty, ro_joinOrder = 0,
        ro_hostUserId = None\<rparr>)"

definition roster_size :: "lobby_roster \<Rightarrow> nat" where
  "roster_size r = js_size (ro_members r)"

definition occupiedSize :: "lobby_roster \<Rightarrow> nat" where
  "occupiedSize r = js_size (ro_members r) + js_size (ro_holds r)"

definition hostId :: "lobby_roster \<Rightarrow> int option" where
  "hostId r = (case ro_hostUserId r of None \<Rightarrow> None | Some u \<Rightarrow> map_option lm_playerId (js_get (ro_members r) u))"

definition members :: "lobby_roster \<Rightarrow> lobby_member list" where
  "members r = sort_key lm_joinedOrder (js_values (ro_members r))"

definition getByUser :: "lobby_roster \<Rightarrow> actor_id \<Rightarrow> lobby_member option" where
  "getByUser r u = js_get (ro_members r) u"

definition getByPlayerId :: "lobby_roster \<Rightarrow> int \<Rightarrow> lobby_member option" where
  "getByPlayerId r pid = List.find (\<lambda>m. lm_playerId m = pid) (members r)"

definition hasUser :: "lobby_roster \<Rightarrow> actor_id \<Rightarrow> bool" where
  "hasUser r u \<longleftrightarrow> js_has (ro_members r) u \<or> js_has (ro_holds r) u"

definition slotOccupied :: "lobby_roster \<Rightarrow> int \<Rightarrow> actor_id option \<Rightarrow> bool" where
  "slotOccupied r slot exceptUser \<longleftrightarrow>
     list_ex (\<lambda>h. Some (sr_userId (sh_reservation h)) \<noteq> exceptUser \<and> sh_slot h = slot) (js_values (ro_holds r))
     \<or> list_ex (\<lambda>m. Some (lm_userId m) \<noteq> exceptUser \<and> lm_slot m = slot) (js_values (ro_members r))"

definition firstFreeSeat :: "lobby_roster \<Rightarrow> int list \<Rightarrow> int option" where
  "firstFreeSeat r blocked =
     List.find (\<lambda>seat. seat \<notin> set blocked \<and> \<not> slotOccupied r seat None)
       [1..min (ro_capacity r) MAX_PLAYERS_PER_ROOM]"

definition hold :: "seat_reservation \<Rightarrow> int list \<Rightarrow> lobby_roster \<Rightarrow> (hold_failure + int) \<times> lobby_roster" where
  "hold reservation blocked r =
     (if hasUser r (sr_userId reservation) then (Inl HoldDuplicate, r)
      else case firstFreeSeat r blocked of
             None \<Rightarrow> (Inl HoldFull, r)
           | Some seat \<Rightarrow>
               (Inr seat, r\<lparr>ro_holds := js_set (sr_userId reservation)
                  \<lparr>sh_reservation = reservation, sh_playerId = seat, sh_slot = seat\<rparr> (ro_holds r)\<rparr>))"

definition heldSeat :: "lobby_roster \<Rightarrow> actor_id \<Rightarrow> seat_hold option" where
  "heldSeat r u = js_get (ro_holds r) u"

definition claimed_member :: "seat_hold \<Rightarrow> actor_id \<Rightarrow> int \<Rightarrow> player_role \<Rightarrow> lobby_member" where
  "claimed_member h u order role = \<lparr>lm_userId = u, lm_playerId = sh_playerId h, lm_slot = sh_slot h,
     lm_nickname = sr_nickname (sh_reservation h), lm_guest = isGuestActor u, lm_stats = sr_lobbyStats (sh_reservation h),
     lm_loadout = SkDash, lm_control = None, lm_joinedOrder = order, lm_colorIndex = sh_playerId h - 1, lm_role = role,
     lm_spectatorEligible = False, lm_inCurrentGame = (role = RolePlayer), lm_connection = None,
     lm_admissionPendingUntil = Some (sr_expiresAt (sh_reservation h)), lm_reconnectUntil = None,
     lm_latestInput = None, lm_lastInputSequence = None\<rparr>"

definition claim :: "actor_id \<Rightarrow> int \<Rightarrow> player_role \<Rightarrow> lobby_roster \<Rightarrow> lobby_member option \<times> lobby_roster" where
  "claim u now role r =
     (case js_get (ro_holds r) u of
        None \<Rightarrow> (None, r)
      | Some h \<Rightarrow>
          let r1 = r\<lparr>ro_holds := js_delete u (ro_holds r)\<rparr> in
          if sr_expiresAt (sh_reservation h) \<le> now then (None, r1)
          else
            let m = claimed_member h u (ro_joinOrder r1) role in
            (Some m, r1\<lparr>ro_joinOrder := ro_joinOrder r1 + 1, ro_members := js_set u m (ro_members r1),
               ro_hostUserId := (if ro_hostUserId r1 = None then Some u else ro_hostUserId r1)\<rparr>))"

definition adopted_seat :: "adopted_member \<Rightarrow> int \<Rightarrow> lobby_member" where
  "adopted_seat a until = \<lparr>lm_userId = ad_userId a, lm_playerId = ad_playerId a, lm_slot = ad_slot a,
     lm_nickname = ad_nickname a, lm_guest = ad_guest a, lm_stats = ad_stats a, lm_loadout = ad_loadout a,
     lm_control = None, lm_joinedOrder = ad_joinedOrder a, lm_colorIndex = ad_colorIndex a, lm_role = RolePlayer,
     lm_spectatorEligible = False, lm_inCurrentGame = False, lm_connection = None, lm_admissionPendingUntil = None,
     lm_reconnectUntil = Some until, lm_latestInput = None, lm_lastInputSequence = None\<rparr>"

definition adopt :: "adopted_member \<Rightarrow> int \<Rightarrow> lobby_roster \<Rightarrow> lobby_roster" where
  "adopt a until r = r\<lparr>ro_members := js_set (ad_userId a) (adopted_seat a until) (ro_members r),
     ro_joinOrder := max (ro_joinOrder r) (ad_joinedOrder a + 1),
     ro_hostUserId := (if ad_isHost a then Some (ad_userId a) else ro_hostUserId r)\<rparr>"

definition releaseHold :: "actor_id \<Rightarrow> lobby_roster \<Rightarrow> bool \<times> lobby_roster" where
  "releaseHold u r = (js_has (ro_holds r) u, r\<lparr>ro_holds := js_delete u (ro_holds r)\<rparr>)"

definition clearHolds :: "lobby_roster \<Rightarrow> lobby_roster" where
  "clearHolds r = r\<lparr>ro_holds := js_empty\<rparr>"

definition purgeExpiredHolds :: "int \<Rightarrow> lobby_roster \<Rightarrow> nat \<times> lobby_roster" where
  "purgeExpiredHolds now r =
     (let hs = js_delete_where (\<lambda>_ h. sr_expiresAt (sh_reservation h) \<le> now) (ro_holds r)
      in (js_size (ro_holds r) - js_size hs, r\<lparr>ro_holds := hs\<rparr>))"

definition remove_member :: "actor_id \<Rightarrow> lobby_roster \<Rightarrow> (lobby_member \<times> bool) option \<times> lobby_roster" where
  "remove_member u r =
     (case js_get (ro_members r) u of
        None \<Rightarrow> (None, r)
      | Some m \<Rightarrow>
          let r1 = r\<lparr>ro_members := js_delete u (ro_members r)\<rparr>;
              hostChanged = (ro_hostUserId r1 = Some u)
          in (Some (m, hostChanged),
              if hostChanged
              then r1\<lparr>ro_hostUserId := (case members r1 of [] \<Rightarrow> None | m' # _ \<Rightarrow> Some (lm_userId m'))\<rparr> else r1))"

definition passHost :: "actor_id \<Rightarrow> int \<Rightarrow> lobby_roster \<Rightarrow> bool \<times> lobby_roster" where
  "passHost requester pid r =
     (if ro_hostUserId r \<noteq> Some requester then (False, r)
      else case getByPlayerId r pid of
             None \<Rightarrow> (False, r)
           | Some m \<Rightarrow> (True, r\<lparr>ro_hostUserId := Some (lm_userId m)\<rparr>))"

definition isHost :: "lobby_roster \<Rightarrow> actor_id \<Rightarrow> bool" where
  "isHost r u \<longleftrightarrow> ro_hostUserId r = Some u"

text \<open>A mutation of the member object of \<open>u\<close>.\<close>

definition update_member :: "actor_id \<Rightarrow> (lobby_member \<Rightarrow> lobby_member) \<Rightarrow> lobby_roster \<Rightarrow> lobby_roster" where
  "update_member u f r =
     (case js_get (ro_members r) u of None \<Rightarrow> r | Some m \<Rightarrow> r\<lparr>ro_members := js_set u (f m) (ro_members r)\<rparr>)"

definition moveSlot :: "actor_id \<Rightarrow> int \<Rightarrow> lobby_roster \<Rightarrow> move_slot_result \<times> lobby_roster" where
  "moveSlot u target r =
     (if js_get (ro_members r) u = None then (SlotNotFound, r)
      else if target < 1 \<or> ro_capacity r < target then (SlotOutOfRange, r)
      else if slotOccupied r target (Some u) then (SlotOccupied, r)
      else (SlotMoved, update_member u
        (\<lambda>m. m\<lparr>lm_slot := target, lm_playerId := target, lm_colorIndex := target - 1\<rparr>) r))"

section \<open>Start lock\<close>

record lock_grant =
  lg_at :: int
  lg_durationMs :: int

record lock_options =
  lo_joinLockMs :: int
  lo_joinBudgetMs :: int
  lo_joinBudgetWindowMs :: int
  lo_mapLockMs :: int

record start_lock =
  sl_options :: lock_options
  sl_joinGrants :: "lock_grant list"
  sl_unlocksAt :: int

definition new_lock :: "lock_options \<Rightarrow> start_lock" where
  "new_lock o' = \<lparr>sl_options = o', sl_joinGrants = [], sl_unlocksAt = 0\<rparr>"

definition lock_prune :: "int \<Rightarrow> start_lock \<Rightarrow> start_lock" where
  "lock_prune now l = l\<lparr>sl_joinGrants :=
     dropWhile (\<lambda>g. lo_joinBudgetWindowMs (sl_options l) \<le> now - lg_at g) (sl_joinGrants l)\<rparr>"

definition applyJoin :: "int \<Rightarrow> start_lock \<Rightarrow> int \<times> start_lock" where
  "applyJoin now l0 =
     (let l = lock_prune now l0;
          used = sum_list (map lg_durationMs (sl_joinGrants l));
          grant = min (lo_joinLockMs (sl_options l)) (max 0 (lo_joinBudgetMs (sl_options l) - used))
      in if 0 < grant
         then (grant, l\<lparr>sl_joinGrants := sl_joinGrants l @ [\<lparr>lg_at = now, lg_durationMs = grant\<rparr>],
                        sl_unlocksAt := max (sl_unlocksAt l) (now + grant)\<rparr>)
         else (grant, l))"

definition applyMapChange :: "int \<Rightarrow> start_lock \<Rightarrow> start_lock" where
  "applyMapChange now l = l\<lparr>sl_unlocksAt := max (sl_unlocksAt l) (now + lo_mapLockMs (sl_options l))\<rparr>"

definition remainingMs :: "int \<Rightarrow> start_lock \<Rightarrow> int" where
  "remainingMs now l = max 0 (sl_unlocksAt l - now)"

section \<open>Room state machine\<close>

fun TRANSITIONS :: "room_state \<Rightarrow> room_state list" where
  "TRANSITIONS Allocating = [Waiting, Closed]"
| "TRANSITIONS Waiting = [Countdown, Closed]"
| "TRANSITIONS Countdown = [Playing, Closed]"
| "TRANSITIONS Playing = [PostGame, Closed]"
| "TRANSITIONS PostGame = [Waiting, Closed]"
| "TRANSITIONS Closed = []"

record state_machine =
  sm_state :: room_state
  sm_enteredAt :: int

definition new_machine :: "int \<Rightarrow> state_machine" where
  "new_machine createdAt = \<lparr>sm_state = Allocating, sm_enteredAt = createdAt\<rparr>"

text \<open>An illegal transition throws.\<close>

definition transition :: "room_state \<Rightarrow> int \<Rightarrow> state_machine \<Rightarrow> state_machine option" where
  "transition next_state now s =
     (if next_state \<in> set (TRANSITIONS (sm_state s)) then Some \<lparr>sm_state = next_state, sm_enteredAt = now\<rparr> else None)"

end
