(* ===== verification/Visibility.thy ===== *)
theory Visibility
  imports Protocol
begin

text \<open>
  Who sees whom: \<open>shared/src/visibility/core.ts\<close> and \<open>types.ts\<close>. The server's snapshot censoring and
  the replay share these functions. A tile index is an \<open>int\<close>; a position is a \<open>real\<close>.
\<close>

unbundle bit_operations_syntax

section \<open>Model\<close>

definition VISIBILITY_ASPECT :: real where "VISIBILITY_ASPECT = 9 / 16"
definition REVEAL_MANHATTAN :: int where "REVEAL_MANHATTAN = 4"
definition REVEAL_AXIS :: int where "REVEAL_AXIS = 3"
definition NEARBY_CONCEALMENT_ALPHA :: real where "NEARBY_CONCEALMENT_ALPHA = 45 / 100"

record visibility_actor =
  va_playerId :: int
  va_x :: real
  va_y :: real
  va_radius :: real
  va_sightRange :: real
  va_alive :: bool

record visibility_world =
  vw_cols :: int
  vw_rows :: int
  vw_tileSize :: real
  vw_tiles :: "tile list list"
  vw_players :: "visibility_actor list"

record visibility_result =
  vr_visible :: "int list"
  vr_obscured :: "int list"
  vr_tileAlphas :: "(int \<times> int \<times> real) list"

fun isConcealmentTile :: "tile option \<Rightarrow> bool" where
  "isConcealmentTile None = False"
| "isConcealmentTile (Some t) = (t = TILE_BUSH \<or> t = TILE_GAS)"

text \<open>\<open>tiles[ty]?.[tx]\<close> for indices that are not negative.\<close>

definition tile_at :: "tile list list \<Rightarrow> int \<Rightarrow> int \<Rightarrow> tile option" where
  "tile_at tiles ty tx =
     (if 0 \<le> ty \<and> nat ty < length tiles \<and> 0 \<le> tx \<and> nat tx < length (tiles ! nat ty)
      then Some (tiles ! nat ty ! nat tx) else None)"

definition circleOverlapsTile :: "real \<Rightarrow> real \<Rightarrow> real \<Rightarrow> int \<Rightarrow> int \<Rightarrow> real \<Rightarrow> bool" where
  "circleOverlapsTile cx cy r tx ty sz =
     (let left = of_int tx * sz;
          top = of_int ty * sz;
          nearestX = max left (min cx (left + sz));
          nearestY = max top (min cy (top + sz));
          dx = cx - nearestX;
          dy = cy - nearestY
      in dx * dx + dy * dy < r * r)"

definition world_tile :: "visibility_world \<Rightarrow> int \<Rightarrow> int \<Rightarrow> tile option" where
  "world_tile world ty tx =
     (if tx < 0 \<or> ty < 0 \<or> vw_cols world \<le> tx \<or> vw_rows world \<le> ty then None
      else tile_at (vw_tiles world) ty tx)"

definition isConcealed :: "visibility_world \<Rightarrow> visibility_actor \<Rightarrow> bool" where
  "isConcealed world actor =
     (let sz = vw_tileSize world;
          minTx = \<lfloor>(va_x actor - va_radius actor) / sz\<rfloor>;
          maxTx = \<lfloor>(va_x actor + va_radius actor) / sz\<rfloor>;
          minTy = \<lfloor>(va_y actor - va_radius actor) / sz\<rfloor>;
          maxTy = \<lfloor>(va_y actor + va_radius actor) / sz\<rfloor>
      in list_all (\<lambda>ty. list_all (\<lambda>tx.
           isConcealmentTile (world_tile world ty tx)
           \<or> \<not> circleOverlapsTile (va_x actor) (va_y actor) (va_radius actor) tx ty sz)
           [minTx..maxTx]) [minTy..maxTy])"

definition withinRevealWindow :: "visibility_world \<Rightarrow> visibility_actor \<Rightarrow> visibility_actor \<Rightarrow> bool" where
  "withinRevealWindow world a b =
     (let ax = \<lfloor>va_x a / vw_tileSize world\<rfloor>;
          ay = \<lfloor>va_y a / vw_tileSize world\<rfloor>;
          bx = \<lfloor>va_x b / vw_tileSize world\<rfloor>;
          by' = \<lfloor>va_y b / vw_tileSize world\<rfloor>;
          dx = \<bar>ax - bx\<bar>;
          dy = \<bar>ay - by'\<bar>
      in dx + dy < REVEAL_MANHATTAN \<and> dx < REVEAL_AXIS \<and> dy < REVEAL_AXIS)"

definition withinViewport :: "visibility_actor \<Rightarrow> visibility_actor \<Rightarrow> bool" where
  "withinViewport viewer target =
     (let halfW = va_sightRange viewer / 2 + va_radius target;
          halfH = (va_sightRange viewer * VISIBILITY_ASPECT) / 2 + va_radius target
      in \<bar>va_x target - va_x viewer\<bar> \<le> halfW \<and> \<bar>va_y target - va_y viewer\<bar> \<le> halfH)"

definition sees :: "visibility_world \<Rightarrow> visibility_actor \<Rightarrow> visibility_actor \<Rightarrow> bool" where
  "sees world viewer target =
     (if \<not> va_alive target then False
      else if va_playerId target = va_playerId viewer then True
      else if \<not> withinViewport viewer target then False
      else if isConcealed world target then withinRevealWindow world viewer target
      else True)"

definition find_actor :: "visibility_world \<Rightarrow> int \<Rightarrow> visibility_actor option" where
  "find_actor world pid = List.find (\<lambda>p. va_playerId p = pid) (vw_players world)"

definition canSeePlayer :: "visibility_world \<Rightarrow> int \<Rightarrow> int \<Rightarrow> bool" where
  "canSeePlayer world viewerId targetId =
     (case (find_actor world viewerId, find_actor world targetId) of
        (Some viewer, Some target) \<Rightarrow> sees world viewer target
      | _ \<Rightarrow> False)"

text \<open>The body of the double loop of \<open>nearbyConcealmentTiles\<close>: at most one entry for an offset.\<close>

definition nearby_cell :: "visibility_world \<Rightarrow> int \<Rightarrow> int \<Rightarrow> int \<Rightarrow> int \<Rightarrow> (int \<times> int \<times> real) list" where
  "nearby_cell world vx vy dx dy =
     (if REVEAL_MANHATTAN \<le> \<bar>dx\<bar> + \<bar>dy\<bar> then []
      else let tx = vx + dx; ty = vy + dy in
        if tx < 0 \<or> ty < 0 \<or> vw_cols world \<le> tx \<or> vw_rows world \<le> ty then []
        else if \<not> isConcealmentTile (tile_at (vw_tiles world) ty tx) then []
        else [(tx, ty, NEARBY_CONCEALMENT_ALPHA)])"

definition nearbyConcealmentTiles :: "visibility_world \<Rightarrow> visibility_actor \<Rightarrow> (int \<times> int \<times> real) list" where
  "nearbyConcealmentTiles world viewer =
     (let vx = \<lfloor>va_x viewer / vw_tileSize world\<rfloor>;
          vy = \<lfloor>va_y viewer / vw_tileSize world\<rfloor>;
          reach = REVEAL_AXIS - 1
      in concat (map (\<lambda>dy. concat (map (\<lambda>dx. nearby_cell world vx vy dx dy) [- reach..reach])) [- reach..reach]))"

definition computeVisibility :: "visibility_world \<Rightarrow> int \<Rightarrow> visibility_result" where
  "computeVisibility world viewerId =
     (case find_actor world viewerId of
        None \<Rightarrow> \<lparr>vr_visible = [], vr_obscured = [], vr_tileAlphas = []\<rparr>
      | Some viewer \<Rightarrow>
          let seen = filter (sees world viewer) (vw_players world) in
          \<lparr>vr_visible = map va_playerId seen,
           vr_obscured = map va_playerId (filter (isConcealed world) seen),
           vr_tileAlphas = nearbyConcealmentTiles world viewer\<rparr>)"

text \<open>The one-byte mask of visible slots (\<open>types.ts\<close>).\<close>

definition packVisibleMask :: "int list \<Rightarrow> int" where
  "packVisibleMask slots =
     fold (\<lambda>slot m. if 0 \<le> slot \<and> slot < 8 then m OR push_bit (nat slot) 1 else m) slots 0"

definition unpackVisibleMask :: "int \<Rightarrow> int list" where
  "unpackVisibleMask m = map int (filter (\<lambda>slot. m AND push_bit slot 1 \<noteq> 0) [0..<8])"

section \<open>Lemmas\<close>

lemma and_push_bit_iff: "(m::int) AND push_bit k 1 \<noteq> 0 \<longleftrightarrow> bit m k" "(m::int) AND 2 ^ k \<noteq> 0 \<longleftrightarrow> bit m k"
  by (simp_all add: and_exp_eq_0_iff_not_bit)

lemma fold_mask_bit:
  "bit (fold (\<lambda>slot m. if 0 \<le> slot \<and> slot < 8 then m OR push_bit (nat slot) 1 else m) slots m) k
     \<longleftrightarrow> bit (m::int) k \<or> (k < 8 \<and> int k \<in> set slots)"
proof (induction slots arbitrary: m)
  case Nil
  then show ?case by simp
next
  case (Cons slot slots)
  have step: "bit (m OR push_bit (nat slot) 1) k \<longleftrightarrow> bit m k \<or> nat slot = k" for m :: int
    by (auto simp: bit_or_iff bit_exp_iff)
  show ?case
  proof (cases "0 \<le> slot \<and> slot < 8")
    case True
    then have n: "nat slot = k \<longleftrightarrow> slot = int k" by (auto simp only: nat_eq_iff if_P)
    have "k < 8 \<and> slot = int k \<longleftrightarrow> slot = int k" using True by linarith
    then show ?thesis
      unfolding fold_Cons comp_apply Cons.IH list.set insert_iff if_P [OF True] step n by blast
  next
    case False
    then have "\<not> (k < 8 \<and> slot = int k)" by linarith
    then show ?thesis
      unfolding fold_Cons comp_apply Cons.IH list.set insert_iff if_not_P [OF False] by blast
  qed
qed

lemma pack_bit: "bit (packVisibleMask slots) k \<longleftrightarrow> k < 8 \<and> int k \<in> set slots"
  by (simp add: packVisibleMask_def fold_mask_bit)

lemma circleOverlapsTile_if_point:
  assumes "0 < sz" "(px - cx) * (px - cx) + (py - cy) * (py - cy) < r * r"
    and "of_int tx * sz \<le> px" "px < of_int tx * sz + sz"
    and "of_int ty * sz \<le> py" "py < of_int ty * sz + sz"
  shows "circleOverlapsTile cx cy r tx ty sz"
proof -
  have near: "(c - max l (min c (l + sz))) * (c - max l (min c (l + sz))) \<le> (p - c) * (p - c)"
    if "l \<le> p" "p < l + sz" for l c p :: real
  proof -
    have "\<bar>c - max l (min c (l + sz))\<bar> \<le> \<bar>p - c\<bar>" using that assms(1) by auto
    then show ?thesis by (metis abs_le_square_iff power2_eq_square)
  qed
  show ?thesis
    using near [OF assms(3,4), of cx] near [OF assms(5,6), of cy] assms(2)
    by (simp add: circleOverlapsTile_def Let_def)
qed

lemma convex_square:
  fixes a b e :: real
  assumes "0 \<le> e" "e \<le> 1"
  shows "((1 - e) * a + e * b) * ((1 - e) * a + e * b) \<le> (1 - e) * (a * a) + e * (b * b)"
proof -
  have "0 \<le> e * (1 - e) * ((a - b) * (a - b))" using assms by simp
  then show ?thesis by (simp add: algebra_simps)
qed

lemma point_if_circleOverlapsTile:
  assumes sz: "0 < sz" and over: "circleOverlapsTile cx cy r tx ty sz"
  shows "\<exists>px py. (px - cx) * (px - cx) + (py - cy) * (py - cy) < r * r
     \<and> of_int tx * sz \<le> px \<and> px < of_int tx * sz + sz
     \<and> of_int ty * sz \<le> py \<and> py < of_int ty * sz + sz"
proof -
  define l t where "l = of_int tx * sz" and "t = of_int ty * sz"
  define nx ny where "nx = max l (min cx (l + sz))" and "ny = max t (min cy (t + sz))"
  define mx my where "mx = l + sz / 2" and "my = t + sz / 2"
  define near far where "near = (nx - cx) * (nx - cx) + (ny - cy) * (ny - cy)"
    and "far = (mx - cx) * (mx - cx) + (my - cy) * (my - cy)"
  have near: "near < r * r"
    using over unfolding circleOverlapsTile_def near_def nx_def ny_def l_def t_def Let_def
    by (simp add: algebra_simps)
  have far: "0 \<le> far" by (simp add: far_def)
  define d where "d = r * r - near"
  define e where "e = d / (2 * (far + d))"
  have d: "0 < d" using near by (simp add: d_def)
  have nn: "0 \<le> near" by (simp add: near_def)
  have e: "0 < e" "e \<le> 1 / 2"
    using d far by (simp_all add: e_def field_simps)
  have "e * (far + d) = d / 2" using d far by (simp add: e_def field_simps)
  moreover have "0 < e * d" using e d by simp
  ultimately have efar: "e * far \<le> d / 2" by (simp add: distrib_left)
  define px py where "px = (1 - e) * nx + e * mx" and "py = (1 - e) * ny + e * my"
  have px: "px - cx = (1 - e) * (nx - cx) + e * (mx - cx)" and py: "py - cy = (1 - e) * (ny - cy) + e * (my - cy)"
    by (simp_all add: px_def py_def algebra_simps)
  have "(px - cx) * (px - cx) + (py - cy) * (py - cy) \<le> (1 - e) * near + e * far"
    using convex_square [of e "nx - cx" "mx - cx"] convex_square [of e "ny - cy" "my - cy"] e
    unfolding px py near_def far_def by (simp add: algebra_simps)
  also have "\<dots> \<le> near + d / 2"
    using efar mult_nonneg_nonneg [OF less_imp_le [OF e(1)] nn] by (simp add: left_diff_distrib)
  also have "\<dots> < near + d" using d by simp
  also have "near + d = r * r" by (simp add: d_def)
  finally have dist: "(px - cx) * (px - cx) + (py - cy) * (py - cy) < r * r" .
  have inside: "a \<le> (1 - e) * n + e * (a + sz / 2) \<and> (1 - e) * n + e * (a + sz / 2) < a + sz"
    if "a \<le> n" "n \<le> a + sz" for a n :: real
  proof -
    have "(1 - e) * a \<le> (1 - e) * n" "(1 - e) * n \<le> (1 - e) * (a + sz)"
      using that e by (simp_all add: mult_left_mono)
    moreover have "0 < e * sz" using e sz by simp
    ultimately show ?thesis by (simp add: algebra_simps)
  qed
  have "l \<le> nx" "nx \<le> l + sz" "t \<le> ny" "ny \<le> t + sz"
    using sz by (simp_all add: nx_def ny_def)
  then have "l \<le> px \<and> px < l + sz" "t \<le> py \<and> py < t + sz"
    unfolding px_def py_def mx_def my_def by (auto dest: inside)
  with dist show ?thesis unfolding l_def t_def by blast
qed

lemma floor_div_iff:
  fixes p sz :: real
  assumes "0 < sz"
  shows "\<lfloor>p / sz\<rfloor> = k \<longleftrightarrow> of_int k * sz \<le> p \<and> p < of_int k * sz + sz"
  using assms by (auto simp: floor_eq_iff field_simps)

text \<open>The tile under a point.\<close>

definition tile_under :: "visibility_world \<Rightarrow> real \<Rightarrow> real \<Rightarrow> tile option" where
  "tile_under world px py = world_tile world \<lfloor>py / vw_tileSize world\<rfloor> \<lfloor>px / vw_tileSize world\<rfloor>"

lemma disc_coordinate:
  fixes a b r :: real
  assumes "a * a + b * b < r * r" "0 \<le> r"
  shows "\<bar>a\<bar> \<le> r"
proof (rule ccontr)
  assume "\<not> \<bar>a\<bar> \<le> r"
  then have "r * r \<le> \<bar>a\<bar> * \<bar>a\<bar>" using assms(2) by (intro mult_mono) auto
  moreover have "\<bar>a\<bar> * \<bar>a\<bar> = a * a" by simp
  ultimately show False using assms(1) by (smt (verit) zero_le_square)
qed

lemma floor_div_range:
  fixes p c r sz :: real
  assumes "0 < sz" "\<bar>p - c\<bar> \<le> r"
  shows "\<lfloor>(c - r) / sz\<rfloor> \<le> \<lfloor>p / sz\<rfloor>" "\<lfloor>p / sz\<rfloor> \<le> \<lfloor>(c + r) / sz\<rfloor>"
  using assms by (intro floor_mono divide_right_mono; linarith)+

lemma concealed_under:
  assumes sz: "0 < vw_tileSize world" and c: "isConcealed world actor"
    and d: "(px - va_x actor) * (px - va_x actor) + (py - va_y actor) * (py - va_y actor) < va_radius actor * va_radius actor"
    and r: "0 \<le> va_radius actor"
  shows "isConcealmentTile (tile_under world px py)"
proof -
  let ?s = "vw_tileSize world" and ?x = "va_x actor" and ?y = "va_y actor" and ?r = "va_radius actor"
  let ?tx = "\<lfloor>px / ?s\<rfloor>" and ?ty = "\<lfloor>py / ?s\<rfloor>"
  have "\<bar>px - ?x\<bar> \<le> ?r" "\<bar>py - ?y\<bar> \<le> ?r"
    using disc_coordinate [OF d r] disc_coordinate [of "py - ?y" "px - ?x" ?r] d r by (simp_all add: add.commute)
  note rng = floor_div_range [OF sz this(1)] floor_div_range [OF sz this(2)]
  have "circleOverlapsTile ?x ?y ?r ?tx ?ty ?s"
    using circleOverlapsTile_if_point [OF sz d] floor_div_iff [OF sz] by blast
  with c rng show ?thesis
    unfolding isConcealed_def Let_def tile_under_def list_all_iff set_upto by (meson atLeastAtMost_iff)
qed

section \<open>Properties\<close>

text \<open>
  Concealment means the whole body: a player is concealed exactly when every point of
  the open disc of its body lies on a bush or gas tile inside the map.
\<close>

theorem isConcealed_iff_covered:
  assumes sz: "0 < vw_tileSize world" and r: "0 \<le> va_radius actor"
  shows "isConcealed world actor \<longleftrightarrow>
     (\<forall>px py. (px - va_x actor)\<^sup>2 + (py - va_y actor)\<^sup>2 < (va_radius actor)\<^sup>2
        \<longrightarrow> isConcealmentTile (tile_under world px py))"
proof -
  let ?s = "vw_tileSize world" and ?x = "va_x actor" and ?y = "va_y actor" and ?r = "va_radius actor"
  have bwd: "isConcealed world actor"
    if all: "\<And>px py. (px - ?x) * (px - ?x) + (py - ?y) * (py - ?y) < ?r * ?r
        \<Longrightarrow> isConcealmentTile (tile_under world px py)"
  proof -
    have "isConcealmentTile (world_tile world ty tx)" if o: "circleOverlapsTile ?x ?y ?r tx ty ?s" for tx ty
    proof -
      obtain px py where p: "(px - ?x) * (px - ?x) + (py - ?y) * (py - ?y) < ?r * ?r"
        "of_int tx * ?s \<le> px" "px < of_int tx * ?s + ?s" "of_int ty * ?s \<le> py" "py < of_int ty * ?s + ?s"
        using point_if_circleOverlapsTile [OF sz o] by blast
      then have "\<lfloor>px / ?s\<rfloor> = tx" "\<lfloor>py / ?s\<rfloor> = ty" using floor_div_iff [OF sz] by blast+
      with all [OF p(1)] show ?thesis by (simp add: tile_under_def)
    qed
    then show ?thesis unfolding isConcealed_def Let_def by (auto simp: list_all_iff)
  qed
  with concealed_under [OF sz _ _ r] show ?thesis unfolding power2_eq_square by blast
qed

text \<open>A bush of one tile, and a player in its middle.\<close>

definition bush_world :: "visibility_actor list \<Rightarrow> visibility_world" where
  "bush_world ps = \<lparr>vw_cols = 1, vw_rows = 1, vw_tileSize = 256, vw_tiles = [[TILE_BUSH]], vw_players = ps\<rparr>"

definition bush_actor :: "int \<Rightarrow> visibility_actor" where
  "bush_actor pid = \<lparr>va_playerId = pid, va_x = 128, va_y = 128, va_radius = 100, va_sightRange = 4096, va_alive = True\<rparr>"

lemma bush_concealed: "isConcealed (bush_world ps) (bush_actor pid)"
  by (simp add: isConcealed_def bush_world_def bush_actor_def Let_def world_tile_def tile_at_def
      circleOverlapsTile_def TILE_BUSH_def upto.simps)

theorem isConcealed_iff_covered_witness:
  "0 < vw_tileSize (bush_world []) \<and> 0 \<le> va_radius (bush_actor 1)
   \<and> isConcealmentTile (tile_under (bush_world []) 128 30)"
proof -
  have h: "0 < vw_tileSize (bush_world [])" "0 \<le> va_radius (bush_actor 1)"
    by (simp_all add: bush_world_def bush_actor_def)
  have "((128::real) - va_x (bush_actor 1))\<^sup>2 + (30 - va_y (bush_actor 1))\<^sup>2 < (va_radius (bush_actor 1))\<^sup>2"
    by (simp add: bush_actor_def power2_eq_square)
  with isConcealed_iff_covered [OF h] bush_concealed [of "[]" 1] h show ?thesis by blast
qed

lemma find_actor_unique:
  "distinct (map va_playerId (vw_players world)) \<Longrightarrow> p \<in> set (vw_players world)
     \<Longrightarrow> find_actor world (va_playerId p) = Some p"
  unfolding find_actor_def by (rule find_key_unique)

text \<open>
  One rule for lists and questions. With distinct player ids, the ids listed as visible
  for a viewer are exactly those for which \<open>canSeePlayer\<close> answers yes, in the order of the players and
  without repetition; the obscured ids are a subset; a viewer who is not in the world sees nothing.
\<close>

theorem computeVisibility_canSeePlayer:
  assumes "distinct (map va_playerId (vw_players world))"
  shows "set (vr_visible (computeVisibility world v)) = {t. canSeePlayer world v t}
     \<and> distinct (vr_visible (computeVisibility world v))
     \<and> set (vr_obscured (computeVisibility world v)) \<subseteq> set (vr_visible (computeVisibility world v))
     \<and> (find_actor world v = None \<longrightarrow> vr_tileAlphas (computeVisibility world v) = [])"
proof (cases "find_actor world v")
  case None
  then show ?thesis by (simp add: computeVisibility_def canSeePlayer_def)
next
  case (Some viewer)
  have "set (vr_visible (computeVisibility world v)) = {t. canSeePlayer world v t}"
  proof (rule set_eqI)
    fix t
    have "t \<in> set (vr_visible (computeVisibility world v))
        \<longleftrightarrow> (\<exists>p \<in> set (vw_players world). sees world viewer p \<and> va_playerId p = t)"
      using Some by (auto simp: computeVisibility_def Let_def)
    also have "\<dots> \<longleftrightarrow> (\<exists>p. find_actor world t = Some p \<and> sees world viewer p)"
      using find_actor_unique [OF assms] by (auto simp: find_actor_def dest!: find_SomeD)
    finally show "t \<in> set (vr_visible (computeVisibility world v)) \<longleftrightarrow> t \<in> {t. canSeePlayer world v t}"
      using Some by (auto simp: canSeePlayer_def split: option.splits)
  qed
  moreover have "distinct (vr_visible (computeVisibility world v))"
    using Some assms by (simp add: computeVisibility_def Let_def distinct_map inj_on_def)
  ultimately show ?thesis using Some by (auto simp: computeVisibility_def Let_def)
qed

theorem computeVisibility_canSeePlayer_witness:
  "distinct (map va_playerId (vw_players (bush_world [bush_actor 1, bush_actor 2])))
   \<and> set (vr_visible (computeVisibility (bush_world [bush_actor 1, bush_actor 2]) 1))
     = {t. canSeePlayer (bush_world [bush_actor 1, bush_actor 2]) 1 t}"
proof -
  have d: "distinct (map va_playerId (vw_players (bush_world [bush_actor 1, bush_actor 2])))"
    by (simp add: bush_world_def bush_actor_def)
  from computeVisibility_canSeePlayer [OF d, of 1] d show ?thesis by blast
qed

lemma nearby_mem:
  "(tx, ty, a) \<in> set (nearbyConcealmentTiles world viewer) \<longleftrightarrow>
     a = NEARBY_CONCEALMENT_ALPHA \<and> isConcealmentTile (world_tile world ty tx)
     \<and> (let dx = \<bar>\<lfloor>va_x viewer / vw_tileSize world\<rfloor> - tx\<bar>; dy = \<bar>\<lfloor>va_y viewer / vw_tileSize world\<rfloor> - ty\<bar>
        in dx + dy < REVEAL_MANHATTAN \<and> dx < REVEAL_AXIS \<and> dy < REVEAL_AXIS)"
proof -
  let ?vx = "\<lfloor>va_x viewer / vw_tileSize world\<rfloor>" and ?vy = "\<lfloor>va_y viewer / vw_tileSize world\<rfloor>"
  have cell: "(tx, ty, a) \<in> set (nearby_cell world ?vx ?vy dx dy) \<longleftrightarrow> \<not> 4 \<le> \<bar>dx\<bar> + \<bar>dy\<bar> \<and> tx = ?vx + dx \<and> ty = ?vy + dy
        \<and> isConcealmentTile (world_tile world ty tx) \<and> a = NEARBY_CONCEALMENT_ALPHA" for dx dy
    by (auto simp: nearby_cell_def Let_def REVEAL_MANHATTAN_def world_tile_def)
  have "(tx, ty, a) \<in> set (nearbyConcealmentTiles world viewer) \<longleftrightarrow>
     (\<exists>dy \<in> {- 2..2}. \<exists>dx \<in> {- 2..2}. (tx, ty, a) \<in> set (nearby_cell world ?vx ?vy dx dy))"
    by (simp add: nearbyConcealmentTiles_def Let_def REVEAL_AXIS_def del: upto_rec_numeral)
  also have "\<dots> \<longleftrightarrow> (\<exists>dy \<in> {- 2..2}. \<exists>dx \<in> {- 2..2}. \<not> 4 \<le> \<bar>dx\<bar> + \<bar>dy\<bar> \<and> tx = ?vx + dx \<and> ty = ?vy + dy
        \<and> isConcealmentTile (world_tile world ty tx) \<and> a = NEARBY_CONCEALMENT_ALPHA)"
    unfolding cell ..
  also have "\<dots> \<longleftrightarrow> (tx - ?vx) \<in> {- 2..2} \<and> (ty - ?vy) \<in> {- 2..2} \<and> \<not> 4 \<le> \<bar>tx - ?vx\<bar> + \<bar>ty - ?vy\<bar>
        \<and> isConcealmentTile (world_tile world ty tx) \<and> a = NEARBY_CONCEALMENT_ALPHA"
  proof -
    have "tx = ?vx + dx \<longleftrightarrow> dx = tx - ?vx" "ty = ?vy + dy \<longleftrightarrow> dy = ty - ?vy" for dx dy by auto
    then show ?thesis by auto
  qed
  finally have main: "(tx, ty, a) \<in> set (nearbyConcealmentTiles world viewer) \<longleftrightarrow>
      (tx - ?vx) \<in> {- 2..2} \<and> (ty - ?vy) \<in> {- 2..2} \<and> \<not> 4 \<le> \<bar>tx - ?vx\<bar> + \<bar>ty - ?vy\<bar>
        \<and> isConcealmentTile (world_tile world ty tx) \<and> a = NEARBY_CONCEALMENT_ALPHA" .
  have "(tx - ?vx) \<in> {- 2..2} \<and> (ty - ?vy) \<in> {- 2..2} \<and> \<not> 4 \<le> \<bar>tx - ?vx\<bar> + \<bar>ty - ?vy\<bar> \<longleftrightarrow>
      \<bar>?vx - tx\<bar> + \<bar>?vy - ty\<bar> < 4 \<and> \<bar>?vx - tx\<bar> < 3 \<and> \<bar>?vy - ty\<bar> < 3"
    by auto
  with main show ?thesis
    unfolding Let_def REVEAL_AXIS_def REVEAL_MANHATTAN_def by blast
qed

text \<open>
  C22. Hiding and showing agree. For a living player concealed in a bush inside the
  viewport of another player, the viewer is told of it exactly when the tile under its
  centre is one of the viewer's see-through tiles: no position of a hidden player leaks, and
  no player that is shown stands behind an opaque bush.
\<close>

theorem concealed_seen_iff_tile_shown:
  assumes "0 < vw_tileSize world" "0 < va_radius target" "va_alive target"
    and "find_actor world v = Some viewer" "find_actor world t = Some target" "v \<noteq> t"
    and "withinViewport viewer target" "isConcealed world target"
  shows "canSeePlayer world v t \<longleftrightarrow>
     (\<lfloor>va_x target / vw_tileSize world\<rfloor>, \<lfloor>va_y target / vw_tileSize world\<rfloor>, NEARBY_CONCEALMENT_ALPHA)
       \<in> set (vr_tileAlphas (computeVisibility world v))"
proof -
  have ids: "va_playerId viewer = v" "va_playerId target = t"
    using assms(4,5) by (auto simp: find_actor_def dest!: find_SomeD)
  have "isConcealmentTile (tile_under world (va_x target) (va_y target))"
    using concealed_under [OF assms(1,8)] assms(2) by simp
  then have tile: "isConcealmentTile (world_tile world \<lfloor>va_y target / vw_tileSize world\<rfloor> \<lfloor>va_x target / vw_tileSize world\<rfloor>)"
    by (simp add: tile_under_def)
  have "canSeePlayer world v t \<longleftrightarrow> withinRevealWindow world viewer target"
    using assms ids by (simp add: canSeePlayer_def sees_def)
  then show ?thesis
    using tile assms(4) by (simp add: computeVisibility_def nearby_mem withinRevealWindow_def Let_def)
qed

theorem concealed_seen_iff_tile_shown_witness:
  "canSeePlayer (bush_world [bush_actor 1, bush_actor 2]) 1 2
   \<and> (0, 0, NEARBY_CONCEALMENT_ALPHA) \<in> set (vr_tileAlphas (computeVisibility (bush_world [bush_actor 1, bush_actor 2]) 1))"
proof -
  let ?w = "bush_world [bush_actor 1, bush_actor 2]"
  have f: "find_actor ?w 1 = Some (bush_actor 1)" "find_actor ?w 2 = Some (bush_actor 2)"
    by (simp_all add: find_actor_def bush_world_def bush_actor_def)
  have h: "0 < vw_tileSize ?w" "0 < va_radius (bush_actor 2)" "va_alive (bush_actor 2)"
    "withinViewport (bush_actor 1) (bush_actor 2)"
    by (simp_all add: bush_world_def bush_actor_def withinViewport_def VISIBILITY_ASPECT_def Let_def)
  have cell: "\<lfloor>va_x (bush_actor 2) / vw_tileSize ?w\<rfloor> = 0" "\<lfloor>va_y (bush_actor 2) / vw_tileSize ?w\<rfloor> = 0"
    by (simp_all add: bush_world_def bush_actor_def)
  have "canSeePlayer ?w 1 2"
    using f bush_concealed by (simp add: canSeePlayer_def sees_def withinRevealWindow_def bush_actor_def
        withinViewport_def VISIBILITY_ASPECT_def REVEAL_AXIS_def REVEAL_MANHATTAN_def)
  with concealed_seen_iff_tile_shown [OF h(1,2,3) f _ h(4) bush_concealed] cell show ?thesis by simp
qed

text \<open>
  The one-byte mask. Unpacking a packed list of slots gives, in ascending order, exactly
  the slots of the list that are in 0 to 7; packing an unpacked mask gives its low byte.
\<close>

theorem mask_roundtrip:
  "set (unpackVisibleMask (packVisibleMask slots)) = {s \<in> set slots. 0 \<le> s \<and> s < 8}
   \<and> sorted (unpackVisibleMask m) \<and> distinct (unpackVisibleMask m)
   \<and> packVisibleMask (unpackVisibleMask m) = m mod 256"
proof (intro conjI)
  have "s \<in> set (unpackVisibleMask (packVisibleMask slots)) \<longleftrightarrow> s \<in> {s \<in> set slots. 0 \<le> s \<and> s < 8}" for s
  proof -
    have "s \<in> set (unpackVisibleMask (packVisibleMask slots)) \<longleftrightarrow> (\<exists>k < 8. s = int k \<and> int k \<in> set slots)"
      by (auto simp: unpackVisibleMask_def and_push_bit_iff pack_bit)
    also have "\<dots> \<longleftrightarrow> s \<in> {s \<in> set slots. 0 \<le> s \<and> s < 8}"
      by (auto intro: exI [of _ "nat s"])
    finally show ?thesis .
  qed
  then show "set (unpackVisibleMask (packVisibleMask slots)) = {s \<in> set slots. 0 \<le> s \<and> s < 8}" by blast
  show "sorted (unpackVisibleMask m)"
    by (simp add: unpackVisibleMask_def sorted_map sorted_wrt_filter)
  show "distinct (unpackVisibleMask m)"
    by (simp add: unpackVisibleMask_def distinct_map)
  show "packVisibleMask (unpackVisibleMask m) = m mod 256"
  proof (rule bit_eqI)
    fix k :: nat
    have "bit (m mod 256) k \<longleftrightarrow> k < 8 \<and> bit m k"
      using bit_take_bit_iff [of 8 m k] by (simp add: take_bit_eq_mod)
    then show "bit (packVisibleMask (unpackVisibleMask m)) k = bit (m mod 256) k"
      by (auto simp: pack_bit unpackVisibleMask_def and_push_bit_iff)
  qed
qed

end
