(* ===== verification/Markers.thy ===== *)
theory Markers
  imports Protocol
begin

text \<open>
  Markers and zones of a map, and the training pads derived from them: \<open>shared/src/protocol/mapMarkers.ts\<close>.
  The kinds travel as strings in the map bundle, so each kind has its name.
\<close>

datatype map_marker_kind =
  MkSkillDash | MkSkillFlash | MkSkillExhaust | MkTagger | MkReset | MkTrainingChaseMode
| MkTrainingDummyStill | MkTrainingDummyPatrol | MkTrainingDummyChase

fun marker_name :: "map_marker_kind \<Rightarrow> string" where
  "marker_name MkSkillDash = ''skill.dash''"
| "marker_name MkSkillFlash = ''skill.flash''"
| "marker_name MkSkillExhaust = ''skill.exhaust''"
| "marker_name MkTagger = ''tagger''"
| "marker_name MkReset = ''reset''"
| "marker_name MkTrainingChaseMode = ''training.chaseMode''"
| "marker_name MkTrainingDummyStill = ''training.dummy.still''"
| "marker_name MkTrainingDummyPatrol = ''training.dummy.patrol''"
| "marker_name MkTrainingDummyChase = ''training.dummy.chase''"

definition MAP_MARKER_KINDS :: "map_marker_kind list" where
  "MAP_MARKER_KINDS = [MkSkillDash, MkSkillFlash, MkSkillExhaust, MkTagger, MkReset, MkTrainingChaseMode,
     MkTrainingDummyStill, MkTrainingDummyPatrol, MkTrainingDummyChase]"

record map_marker =
  mm_kind :: map_marker_kind
  mm_x :: int
  mm_y :: int

datatype map_zone_kind = ZkTrainingCourse | ZkTrainingChase

fun zone_name :: "map_zone_kind \<Rightarrow> string" where
  "zone_name ZkTrainingCourse = ''training.course''"
| "zone_name ZkTrainingChase = ''training.chase''"

definition MAP_ZONE_KINDS :: "map_zone_kind list" where
  "MAP_ZONE_KINDS = [ZkTrainingCourse, ZkTrainingChase]"

record map_zone =
  mz_kind :: map_zone_kind
  mz_x :: int
  mz_y :: int
  mz_width :: int
  mz_height :: int

definition MAP_MARKER_RADIUS_TILES :: real where "MAP_MARKER_RADIUS_TILES = 3 / 4"

datatype training_pad_kind = PadTagger | PadSkillDash | PadSkillFlash | PadSkillExhaust | PadReset | PadChaseMode

record training_pad =
  tp_kind :: training_pad_kind
  tp_x :: real
  tp_y :: real
  tp_radius :: real

fun PAD_KIND_BY_MARKER :: "map_marker_kind \<Rightarrow> training_pad_kind option" where
  "PAD_KIND_BY_MARKER MkSkillDash = Some PadSkillDash"
| "PAD_KIND_BY_MARKER MkSkillFlash = Some PadSkillFlash"
| "PAD_KIND_BY_MARKER MkSkillExhaust = Some PadSkillExhaust"
| "PAD_KIND_BY_MARKER MkTagger = Some PadTagger"
| "PAD_KIND_BY_MARKER MkReset = Some PadReset"
| "PAD_KIND_BY_MARKER MkTrainingChaseMode = Some PadChaseMode"
| "PAD_KIND_BY_MARKER _ = None"

definition trainingPadsFromMarkers :: "map_marker list \<Rightarrow> real \<Rightarrow> training_pad list" where
  "trainingPadsFromMarkers markers tileSize =
     concat (map (\<lambda>marker. case PAD_KIND_BY_MARKER (mm_kind marker) of
        None \<Rightarrow> []
      | Some kind \<Rightarrow> [\<lparr>tp_kind = kind, tp_x = of_int (mm_x marker) * tileSize + tileSize / 2,
          tp_y = of_int (mm_y marker) * tileSize + tileSize / 2, tp_radius = MAP_MARKER_RADIUS_TILES * tileSize\<rparr>]) markers)"

lemma marker_name_inject [simp]: "marker_name a = marker_name b \<longleftrightarrow> a = b"
  by (cases a; cases b; simp)

lemma zone_name_inject [simp]: "zone_name a = zone_name b \<longleftrightarrow> a = b"
  by (cases a; cases b; simp)

lemma all_marker_kinds: "k \<in> set MAP_MARKER_KINDS"
  by (cases k) (simp_all add: MAP_MARKER_KINDS_def)

lemma all_zone_kinds: "k \<in> set MAP_ZONE_KINDS"
  by (cases k) (simp_all add: MAP_ZONE_KINDS_def)

end
