(* ===== verification/World.thy ===== *)
theory World
  imports Config Visibility Input Markers
begin

text \<open>
  The simulated world and the effects on a player: \<open>server-game/src/simulation/world.ts\<close> and
  \<open>effects.ts\<close>. The code edits player objects in place; here a player is named by its \<open>playerId\<close> and
  an edit maps over the list of players, which is the same because the ids of a world are
  distinct (an invariant that the room gives and every step keeps).
\<close>

section \<open>State\<close>

record effect_state =
  ef_endTick :: int
  ef_magnitude :: real

record match_stats =
  st_tagCount :: int
  st_taggedCount :: int
  st_switchTry :: int
  st_switchSuccess :: int
  st_eliminatedAtTick :: "int option"

record emoji_state =
  em_emojiId :: int
  em_expiresAtTick :: int

record player_state =
  ps_playerId :: int
  ps_x :: real
  ps_y :: real
  ps_vx :: real
  ps_vy :: real
  ps_facingX :: real
  ps_facingY :: real
  ps_radius :: real
  ps_sightRange :: real
  ps_colorIndex :: int
  ps_alive :: bool
  ps_isTagger :: bool
  ps_connected :: bool
  ps_effects :: "effect_type \<Rightarrow> effect_state option"
  ps_cooldowns :: "skill_id \<Rightarrow> real option"
  ps_loadout :: skill_id
  ps_emoji :: "emoji_state option"
  ps_stats :: match_stats

definition emptyStats :: match_stats where
  "emptyStats = \<lparr>st_tagCount = 0, st_taggedCount = 0, st_switchTry = 0, st_switchSuccess = 0,
     st_eliminatedAtTick = None\<rparr>"

record resolved_input =
  ri_playerId :: int
  ri_moveX :: real
  ri_moveY :: real
  ri_heldActions :: int
  ri_lastProcessedSequence :: int

type_synonym map_timeline = "int \<Rightarrow> (int \<times> int \<times> tile) list option"

record world_map =
  wm_mapId :: string
  wm_cols :: int
  wm_rows :: int
  wm_tileSize :: real
  wm_tiles :: "tile list list"
  wm_barrierSpeed :: real
  wm_timeline :: map_timeline
  wm_markers :: "map_marker list"
  wm_zones :: "map_zone list"

record storm_rect =
  sr_x :: real
  sr_y :: real
  sr_width :: real
  sr_height :: real

record world =
  w_tick :: int
  w_simulationHz :: int
  w_map :: world_map
  w_players :: "player_state list"
  w_storm :: "storm_rect option"
  w_tileChanges :: "(int \<times> int \<times> tile) list"
  w_taggerChangedAtTick :: int
  w_randomState :: "32 word"

text \<open>\<open>WorldEvent\<close>: one constructor per kind the step emits, with the fields that kind carries.\<close>

datatype world_event =
  EvTagged int "int option"
| EvEliminated int "int option"
| EvBlinked int real real
| EvSkillArea skill_id int real real "int option"

record skill_rejection_entry =
  sj_playerId :: int
  sj_slot :: int
  sj_reason :: skill_rejection

record authoritative_frame =
  fr_tick :: int
  fr_world :: world
  fr_events :: "world_event list"
  fr_skillRejections :: "skill_rejection_entry list"

section \<open>The random generator\<close>

unbundle bit_operations_syntax

text \<open>
  \<open>mulberry32\<close> on one 32-bit word; it returns the word that the code divides by
  \<open>2\<^sup>3\<^sup>2\<close>. Bitwise operators and \<open>Math.imul\<close> work modulo \<open>2\<^sup>3\<^sup>2\<close>, so signed and unsigned agree, and
  \<open>>>>\<close> is \<open>drop_bit\<close>. In \<open>t ^= t + Math.imul(...)\<close> the sum is reduced by the \<open>^\<close>.
\<close>

definition mulberry32 :: "world \<Rightarrow> 32 word \<times> world" where
  "mulberry32 world =
     (let s = w_randomState world + 0x6d2b79f5;
          t1 = (s XOR drop_bit 15 s) * (s OR 1);
          t2 = t1 XOR (t1 + (t1 XOR drop_bit 7 t1) * (t1 OR 61))
      in (t2 XOR drop_bit 14 t2, world\<lparr>w_randomState := s\<rparr>))"

definition nextRandomInt :: "int \<Rightarrow> world \<Rightarrow> int \<times> world" where
  "nextRandomInt exclusiveMax world =
     (if exclusiveMax \<le> 0 then (0, world)
      else let (r, world') = mulberry32 world in (uint r * exclusiveMax div 4294967296, world'))"

definition createWorld :: "world_map \<Rightarrow> player_state list \<Rightarrow> int \<Rightarrow> int option \<Rightarrow> world" where
  "createWorld m players seed simulationHz =
     \<lparr>w_tick = 0, w_simulationHz = (case simulationHz of Some hz \<Rightarrow> hz | None \<Rightarrow> SIMULATION_HZ),
      w_map = m, w_players = players, w_storm = None, w_tileChanges = [],
      w_taggerChangedAtTick = 0, w_randomState = word_of_int seed\<rparr>"

definition toVisibilityWorld :: "world \<Rightarrow> visibility_world" where
  "toVisibilityWorld world =
     \<lparr>vw_cols = wm_cols (w_map world), vw_rows = wm_rows (w_map world),
      vw_tileSize = wm_tileSize (w_map world), vw_tiles = wm_tiles (w_map world),
      vw_players = map (\<lambda>p. \<lparr>va_playerId = ps_playerId p, va_x = ps_x p, va_y = ps_y p,
        va_radius = ps_radius p, va_sightRange = ps_sightRange p, va_alive = ps_alive p\<rparr>) (w_players world)\<rparr>"

section \<open>Finding and editing players\<close>

definition find_player :: "int \<Rightarrow> player_state list \<Rightarrow> player_state option" where
  "find_player pid ps = List.find (\<lambda>p. ps_playerId p = pid) ps"

definition edit :: "int \<Rightarrow> (player_state \<Rightarrow> player_state) \<Rightarrow> player_state list \<Rightarrow> player_state list" where
  "edit pid f ps = map (\<lambda>p. if ps_playerId p = pid then f p else p) ps"

definition edit_world :: "int \<Rightarrow> (player_state \<Rightarrow> player_state) \<Rightarrow> world \<Rightarrow> world" where
  "edit_world pid f world = world\<lparr>w_players := edit pid f (w_players world)\<rparr>"

section \<open>Effects\<close>

definition INCREASE_EFFECTS :: "effect_type list" where
  "INCREASE_EFFECTS = [EffDash, EffFrenzy]"

definition isIncrease :: "effect_type \<Rightarrow> bool" where
  "isIncrease t \<longleftrightarrow> t \<in> set INCREASE_EFFECTS"

definition msToTicks :: "real \<Rightarrow> int \<Rightarrow> int" where
  "msToTicks ms simulationHz = max 1 (js_round (ms / 1000 * of_int simulationHz))"

definition applyEffect :: "world \<Rightarrow> effect_type \<Rightarrow> real \<Rightarrow> real \<Rightarrow> player_state \<Rightarrow> player_state" where
  "applyEffect world t magnitude durationMs player =
     (let endTick = w_tick world + msToTicks durationMs (w_simulationHz world);
          new = (case ps_effects player t of
              Some existing \<Rightarrow> \<lparr>ef_endTick = max (ef_endTick existing) endTick,
                 ef_magnitude = max (ef_magnitude existing) magnitude\<rparr>
            | None \<Rightarrow> \<lparr>ef_endTick = endTick, ef_magnitude = magnitude\<rparr>)
      in player\<lparr>ps_effects := (ps_effects player)(t \<mapsto> new)\<rparr>)"

definition expireEffects :: "world \<Rightarrow> player_state \<Rightarrow> player_state" where
  "expireEffects world player =
     player\<lparr>ps_effects := (\<lambda>t. case ps_effects player t of
        None \<Rightarrow> None
      | Some e \<Rightarrow> if ef_endTick e \<le> w_tick world then None else Some e)\<rparr>"

definition magnitudes :: "player_state \<Rightarrow> bool \<Rightarrow> real" where
  "magnitudes player inc =
     sum_list (map (\<lambda>t. case ps_effects player t of None \<Rightarrow> 0 | Some e \<Rightarrow> ef_magnitude e)
       (filter (\<lambda>t. isIncrease t = inc) EFFECT_BITS))"

definition currentSpeed :: "player_state \<Rightarrow> real" where
  "currentSpeed player =
     (let increase = magnitudes player True;
          decrease = magnitudes player False;
          slowFactor = max DECREASE_FLOOR (1 - decrease)
      in BASE_MOVE_SPEED_PX_PER_SEC * (1 + increase) * slowFactor)"

definition tickCooldowns :: "real \<Rightarrow> player_state \<Rightarrow> player_state" where
  "tickCooldowns rate player =
     player\<lparr>ps_cooldowns := (\<lambda>s. case ps_cooldowns player s of
        None \<Rightarrow> None
      | Some c \<Rightarrow> if c - rate \<le> 0 then None else Some (c - rate))\<rparr>"

definition isReady :: "player_state \<Rightarrow> skill_id \<Rightarrow> bool" where
  "isReady player skill \<longleftrightarrow> (case ps_cooldowns player skill of None \<Rightarrow> 0 | Some c \<Rightarrow> c) \<le> 0"

definition startCooldown :: "world \<Rightarrow> skill_id \<Rightarrow> real \<Rightarrow> player_state \<Rightarrow> player_state" where
  "startCooldown world skill cooldownMs player =
     player\<lparr>ps_cooldowns := (ps_cooldowns player)(skill \<mapsto> of_int (msToTicks cooldownMs (w_simulationHz world)))\<rparr>"

end
