(* ===== verification/Motion.thy ===== *)
theory Motion
  imports World
begin

text \<open>
  Movement and collisions of \<open>server-game/src/simulation\<close>: \<open>movement.ts\<close>, \<open>storm.ts\<close>,
  \<open>static-collision.ts\<close> and \<open>player-collision.ts\<close>. Nested loops over tiles and over pairs of players
  are folds over the list of what they visit, in their order.
\<close>

section \<open>Movement (movement.ts)\<close>

definition resolveInput :: "input_state \<Rightarrow> int \<Rightarrow> resolved_input" where
  "resolveInput state playerId =
     (let v = movementVector state in
      \<lparr>ri_playerId = playerId, ri_moveX = fst v, ri_moveY = snd v,
       ri_heldActions = in_heldActions state, ri_lastProcessedSequence = in_sequence state\<rparr>)"

definition integrate :: "player_state \<Rightarrow> resolved_input \<Rightarrow> player_state \<times> real \<times> real" where
  "integrate player input =
     (let speed = currentSpeed player;
          p1 = player\<lparr>ps_vx := ri_moveX input * speed, ps_vy := ri_moveY input * speed\<rparr>;
          p2 = (if ri_moveX input \<noteq> 0 \<or> ri_moveY input \<noteq> 0
                then p1\<lparr>ps_facingX := ri_moveX input, ps_facingY := ri_moveY input\<rparr> else p1);
          dt = SIMULATION_STEP_MS / 1000
      in (p2, ps_x p2 + ps_vx p2 * dt, ps_y p2 + ps_vy p2 * dt))"

definition js_hypot :: "real \<Rightarrow> real \<Rightarrow> real" where
  "js_hypot a b = sqrt (a * a + b * b)"

definition substepCount :: "real \<Rightarrow> real \<Rightarrow> real \<Rightarrow> real \<Rightarrow> nat" where
  "substepCount fromX fromY toX toY =
     (let distance = js_hypot (toX - fromX) (toY - fromY)
      in nat (max 1 \<lceil>distance / MAX_SUBSTEP_DISTANCE_PX\<rceil>))"

section \<open>The storm (storm.ts)\<close>

definition stormInset :: "int \<Rightarrow> real \<Rightarrow> real" where
  "stormInset tick barrierSpeed = of_int tick * barrierSpeed"

definition stormRect :: "world \<Rightarrow> storm_rect" where
  "stormRect world =
     (let inset = stormInset (w_tick world) (wm_barrierSpeed (w_map world));
          mapW = of_int (wm_cols (w_map world)) * wm_tileSize (w_map world);
          mapH = of_int (wm_rows (w_map world)) * wm_tileSize (w_map world)
      in \<lparr>sr_x = inset, sr_y = inset, sr_width = max 0 (mapW - inset * 2), sr_height = max 0 (mapH - inset * 2)\<rparr>)"

definition confineToStorm :: "real \<Rightarrow> real \<Rightarrow> real \<Rightarrow> storm_rect \<Rightarrow> real \<times> real" where
  "confineToStorm x y radius rect =
     (let minX = sr_x rect + radius;
          maxX = sr_x rect + sr_width rect - radius;
          minY = sr_y rect + radius;
          maxY = sr_y rect + sr_height rect - radius
      in (if minX > maxX then sr_x rect + sr_width rect / 2 else min (max x minX) maxX,
          if minY > maxY then sr_y rect + sr_height rect / 2 else min (max y minY) maxY))"

section \<open>Walls (static-collision.ts)\<close>

definition isSolid :: "tile option \<Rightarrow> bool" where
  "isSolid physics \<longleftrightarrow> physics = Some TILE_WALL"

definition blocked :: "world_map \<Rightarrow> int \<Rightarrow> int \<Rightarrow> bool" where
  "blocked m ty tx \<longleftrightarrow>
     tx < 0 \<or> ty < 0 \<or> wm_cols m \<le> tx \<or> wm_rows m \<le> ty \<or> isSolid (tile_at (wm_tiles m) ty tx)"

definition tiles_around :: "world_map \<Rightarrow> real \<Rightarrow> real \<Rightarrow> real \<Rightarrow> (int \<times> int) list" where
  "tiles_around m x y radius =
     List.product [\<lfloor>(y - radius) / wm_tileSize m\<rfloor>..\<lfloor>(y + radius) / wm_tileSize m\<rfloor>]
       [\<lfloor>(x - radius) / wm_tileSize m\<rfloor>..\<lfloor>(x + radius) / wm_tileSize m\<rfloor>]"

text \<open>The loop body: pushing a circle out of one tile. \<open>push_along\<close> is its last four lines.\<close>

definition push_along :: "real \<Rightarrow> real \<Rightarrow> real \<Rightarrow> real \<Rightarrow> real \<Rightarrow> real \<times> real" where
  "push_along radius px py dx dy =
     (let d = sqrt (dx * dx + dy * dy);
          push = radius - d
      in (px + dx / d * push, py + dy / d * push))"

definition push_out :: "world_map \<Rightarrow> real \<Rightarrow> int \<times> int \<Rightarrow> real \<times> real \<Rightarrow> real \<times> real" where
  "push_out m radius cell pos =
     (case (cell, pos) of ((ty, tx), (px, py)) \<Rightarrow>
        if \<not> blocked m ty tx then (px, py)
        else let tileSize = wm_tileSize m;
                 left = of_int tx * tileSize;
                 top = of_int ty * tileSize;
                 nearestX = max left (min px (left + tileSize));
                 nearestY = max top (min py (top + tileSize));
                 dx = px - nearestX;
                 dy = py - nearestY;
                 distSq = dx * dx + dy * dy
             in if radius * radius \<le> distSq then (px, py)
                else if distSq = 0
                then let dxc = px - (left + tileSize / 2); dyc = py - (top + tileSize / 2)
                     in push_along radius px py dxc (if dxc = 0 \<and> dyc = 0 then - 1 else dyc)
                else push_along radius px py dx dy)"

definition resolveWallCollision :: "world_map \<Rightarrow> real \<Rightarrow> real \<Rightarrow> real \<Rightarrow> real \<times> real" where
  "resolveWallCollision m x y radius = fold (push_out m radius) (tiles_around m x y radius) (x, y)"

definition resolveStatic :: "world_map \<Rightarrow> real \<Rightarrow> real \<Rightarrow> real \<Rightarrow> storm_rect \<Rightarrow> real \<times> real" where
  "resolveStatic m x y radius storm =
     (let (ax, ay) = resolveWallCollision m x y radius in confineToStorm ax ay radius storm)"

definition isPositionFree :: "world_map \<Rightarrow> real \<Rightarrow> real \<Rightarrow> real \<Rightarrow> storm_rect \<Rightarrow> bool" where
  "isPositionFree m x y radius storm =
     (if x - radius < sr_x storm \<or> sr_x storm + sr_width storm < x + radius then False
      else if y - radius < sr_y storm \<or> sr_y storm + sr_height storm < y + radius then False
      else list_all (\<lambda>(ty, tx). \<not> blocked m ty tx
          \<or> \<not> circleOverlapsTile x y radius tx ty (wm_tileSize m)) (tiles_around m x y radius))"

section \<open>Players against players (player-collision.ts)\<close>

fun pairs_of :: "'a list \<Rightarrow> ('a \<times> 'a) list" where
  "pairs_of [] = []"
| "pairs_of (x # xs) = map (Pair x) xs @ pairs_of xs"

definition overlap :: "player_state \<Rightarrow> player_state \<Rightarrow> bool" where
  "overlap a b \<longleftrightarrow>
     (let dx = ps_x b - ps_x a; dy = ps_y b - ps_y a; minDist = ps_radius a + ps_radius b
      in \<not> minDist * minDist \<le> dx * dx + dy * dy)"

text \<open>The unit vector from \<open>a\<close> to \<open>b\<close> and their distance; players at the same point use the x axis and 1.\<close>

definition push_axis :: "player_state \<Rightarrow> player_state \<Rightarrow> (real \<times> real) \<times> real" where
  "push_axis a b =
     (let dx0 = ps_x b - ps_x a;
          dy0 = ps_y b - ps_y a;
          (dx, dy) = (if dx0 * dx0 + dy0 * dy0 = 0 then (1, 0) else (dx0, dy0));
          d = sqrt (dx * dx + dy * dy)
      in ((dx / d, dy / d), d))"

definition push_power :: "player_state \<Rightarrow> real \<Rightarrow> real \<Rightarrow> real" where
  "push_power p nx ny = PUSH_BASE_POWER + max 0 (ps_vx p * nx + ps_vy p * ny) * PUSH_SPEED_FACTOR"

definition separate :: "player_state \<Rightarrow> player_state \<Rightarrow> (real \<times> real) \<times> (real \<times> real)" where
  "separate a b =
     (let ((nx, ny), d) = push_axis a b;
          penetration = ps_radius a + ps_radius b - d;
          powerA = push_power a nx ny;
          powerB = push_power b (- nx) (- ny);
          total = powerA + powerB;
          moveA = penetration * powerB / total;
          moveB = penetration * powerA / total
      in ((ps_x a - nx * moveA, ps_y a - ny * moveA), (ps_x b + nx * moveB, ps_y b + ny * moveB)))"

definition place :: "real \<times> real \<Rightarrow> player_state \<Rightarrow> player_state" where
  "place pos p = p\<lparr>ps_x := fst pos, ps_y := snd pos\<rparr>"

definition collide_pair ::
  "int \<times> int \<Rightarrow> player_state list \<times> (int \<times> int) list \<Rightarrow> player_state list \<times> (int \<times> int) list" where
  "collide_pair ij acc =
     (case (find_player (fst ij) (fst acc), find_player (snd ij) (fst acc)) of
        (Some a, Some b) \<Rightarrow>
          if overlap a b
          then (let (posA, posB) = separate a b
                in (edit (snd ij) (place posB) (edit (fst ij) (place posA) (fst acc)), snd acc @ [ij]))
          else acc
      | _ \<Rightarrow> acc)"

definition active_ids :: "player_state list \<Rightarrow> int list" where
  "active_ids ps = sort (map ps_playerId (filter ps_alive ps))"

definition resolvePlayerCollisions :: "player_state list \<Rightarrow> player_state list \<times> (int \<times> int) list" where
  "resolvePlayerCollisions ps = fold collide_pair (pairs_of (active_ids ps)) (ps, [])"

section \<open>Lemmas on players and edits\<close>

text \<open>An edit that keeps the identity of players.\<close>

definition keeps_id :: "(player_state \<Rightarrow> player_state) \<Rightarrow> bool" where
  "keeps_id f \<longleftrightarrow> (\<forall>p. ps_playerId (f p) = ps_playerId p)"

lemma edit_ids: "keeps_id f \<Longrightarrow> map ps_playerId (edit pid f ps) = map ps_playerId ps"
  by (simp add: edit_def keeps_id_def)

lemma edit_map: "(\<And>p. g (f p) = g p) \<Longrightarrow> map g (edit pid f ps) = map g ps"
  by (simp add: edit_def)

lemma find_player_SomeD: "find_player pid ps = Some p \<Longrightarrow> p \<in> set ps \<and> ps_playerId p = pid"
  unfolding find_player_def by (rule find_SomeD)

lemma find_player_mem: "distinct (map ps_playerId ps) \<Longrightarrow> p \<in> set ps \<Longrightarrow> find_player (ps_playerId p) ps = Some p"
  unfolding find_player_def by (rule find_key_unique)

lemma place_simps [simp]:
  "ps_playerId (place xy p) = ps_playerId p" "ps_alive (place xy p) = ps_alive p"
  "ps_isTagger (place xy p) = ps_isTagger p" "ps_stats (place xy p) = ps_stats p"
  "ps_effects (place xy p) = ps_effects p" "ps_cooldowns (place xy p) = ps_cooldowns p"
  "ps_radius (place xy p) = ps_radius p" "ps_loadout (place xy p) = ps_loadout p"
  "ps_x (place xy p) = fst xy" "ps_y (place xy p) = snd xy"
  by (simp_all add: place_def)

lemma keeps_id_place [simp]: "keeps_id (place xy)"
  by (simp add: keeps_id_def)

text \<open>Collisions only move players.\<close>

lemma collide_pair_map:
  assumes "\<And>xy p. g (place xy p) = g p"
  shows "map g (fst (collide_pair ij acc)) = map g (fst acc)"
  using assms by (auto simp: collide_pair_def edit_map split: option.split prod.split)

lemma resolvePlayerCollisions_map:
  assumes "\<And>xy p. g (place xy p) = g p"
  shows "map g (fst (resolvePlayerCollisions ps)) = map g ps"
proof -
  have "map g (fst (fold collide_pair ijs acc)) = map g (fst acc)" for ijs acc
    by (induction ijs arbitrary: acc) (simp_all add: collide_pair_map [OF assms])
  then show ?thesis by (simp add: resolvePlayerCollisions_def)
qed

lemma pairs_of_sorted: "sorted xs \<Longrightarrow> distinct xs \<Longrightarrow> (a, b) \<in> set (pairs_of xs) \<Longrightarrow> a < (b :: 'a :: linorder) \<and> a \<in> set xs \<and> b \<in> set xs"
  by (induction xs) (auto simp: less_le)

lemma collide_fold_pairs:
  "set (snd (fold collide_pair ijs acc)) \<subseteq> set (snd acc) \<union> set ijs"
proof (induction ijs arbitrary: acc)
  case Nil
  then show ?case by simp
next
  case (Cons ij ijs)
  have "set (snd (collide_pair ij acc)) \<subseteq> insert ij (set (snd acc))"
    by (auto simp: collide_pair_def Let_def split: option.split prod.split)
  with Cons [of "collide_pair ij acc"] show ?case by auto
qed

lemma contact_pairs:
  assumes "distinct (map ps_playerId ps)" "(a, b) \<in> set (snd (resolvePlayerCollisions ps))"
  shows "a < b" "a \<in> ps_playerId ` {p \<in> set ps. ps_alive p}" "b \<in> ps_playerId ` {p \<in> set ps. ps_alive p}"
proof -
  have "distinct (active_ids ps)"
    using assms(1) by (auto simp: active_ids_def distinct_map inj_on_def)
  moreover have "(a, b) \<in> set (pairs_of (active_ids ps))"
    using assms(2) collide_fold_pairs [of "pairs_of (active_ids ps)" "(ps, [])"]
    by (auto simp: resolvePlayerCollisions_def)
  ultimately have "a < b \<and> a \<in> set (active_ids ps) \<and> b \<in> set (active_ids ps)"
    by (intro pairs_of_sorted) (simp_all add: active_ids_def)
  then show "a < b" "a \<in> ps_playerId ` {p \<in> set ps. ps_alive p}" "b \<in> ps_playerId ` {p \<in> set ps. ps_alive p}"
    by (auto simp: active_ids_def)
qed

section \<open>Properties\<close>

text \<open>Inside the storm: within the rectangle by a radius, or on the middle line of a side that is too narrow.\<close>

definition confined :: "storm_rect \<Rightarrow> real \<Rightarrow> real \<Rightarrow> real \<Rightarrow> bool" where
  "confined rect x y radius \<longleftrightarrow>
     (if sr_width rect < 2 * radius then x = sr_x rect + sr_width rect / 2
      else sr_x rect + radius \<le> x \<and> x \<le> sr_x rect + sr_width rect - radius)
     \<and> (if sr_height rect < 2 * radius then y = sr_y rect + sr_height rect / 2
      else sr_y rect + radius \<le> y \<and> y \<le> sr_y rect + sr_height rect - radius)"

lemma confineToStorm_confined:
  "confined rect (fst (confineToStorm x y radius rect)) (snd (confineToStorm x y radius rect)) radius"
  unfolding confined_def confineToStorm_def Let_def by auto

lemma resolveStatic_confined:
  "confined storm (fst (resolveStatic m x y radius storm)) (snd (resolveStatic m x y radius storm)) radius"
  unfolding resolveStatic_def Let_def by (auto simp: confineToStorm_confined split: prod.split)

lemma push_power_pos: "0 < push_power p nx ny"
  by (simp add: push_power_def PUSH_BASE_POWER_def PUSH_SPEED_FACTOR_def add_pos_nonneg)

lemma unit_vector:
  fixes dx dy :: real
  assumes "dx * dx + dy * dy \<noteq> 0"
  defines "d \<equiv> sqrt (dx * dx + dy * dy)"
  shows "(dx / d) * (dx / d) + (dy / d) * (dy / d) = 1" "0 < d" "dx / d * d = dx" "dy / d * d = dy"
proof -
  have pos: "0 < dx * dx + dy * dy" using assms(1) by (metis less_eq_real_def sum_squares_ge_zero)
  then show "0 < d" by (simp add: d_def)
  have dd: "d * d = dx * dx + dy * dy" using pos by (simp add: d_def)
  have "(dx / d) * (dx / d) + (dy / d) * (dy / d) = (dx * dx + dy * dy) / (d * d)"
    by (simp add: add_divide_distrib)
  also have "\<dots> = 1" unfolding dd using assms(1) by (rule divide_self)
  finally show "(dx / d) * (dx / d) + (dy / d) * (dy / d) = 1" .
qed (use assms(1) in \<open>simp_all add: d_def\<close>)

text \<open>
  Pushing two players apart. After \<open>separate\<close> two overlapping players at different points touch
  exactly: their distance is the sum of the radii, along the same line. Each moves in proportion to the other's power,
  so the one that approaches faster moves less. Players at one and the same point end up one pixel
  closer than touching.
\<close>

theorem separate_touches:
  "(case separate a b of ((ax, ay), (bx, by')) \<Rightarrow>
      sqrt ((bx - ax)\<^sup>2 + (by' - ay)\<^sup>2) =
        (if ps_x a = ps_x b \<and> ps_y a = ps_y b then \<bar>ps_radius a + ps_radius b - 1\<bar> else \<bar>ps_radius a + ps_radius b\<bar>)
      \<and> (case push_axis a b of ((nx, ny), _) \<Rightarrow>
          sqrt ((ax - ps_x a)\<^sup>2 + (ay - ps_y a)\<^sup>2) * push_power a nx ny
          = sqrt ((bx - ps_x b)\<^sup>2 + (by' - ps_y b)\<^sup>2) * push_power b (- nx) (- ny)))"
proof -
  obtain nx ny d where axis: "push_axis a b = ((nx, ny), d)" by (metis surj_pair)
  define same where "same \<longleftrightarrow> ps_x a = ps_x b \<and> ps_y a = ps_y b"
  have zero: "(ps_x b - ps_x a) * (ps_x b - ps_x a) + (ps_y b - ps_y a) * (ps_y b - ps_y a) = 0 \<longleftrightarrow> same"
    by (auto simp: same_def sum_squares_eq_zero_iff)
  have n: "nx * nx + ny * ny = 1" and off: "ps_x b - ps_x a = nx * (if same then 0 else d)"
      "ps_y b - ps_y a = ny * (if same then 0 else d)" and d: "same \<Longrightarrow> d = 1"
  proof -
    show "nx * nx + ny * ny = 1"
      using axis zero unit_vector(1) [of "ps_x b - ps_x a" "ps_y b - ps_y a"]
      by (auto simp: push_axis_def Let_def split: if_splits)
    show "ps_x b - ps_x a = nx * (if same then 0 else d)" "ps_y b - ps_y a = ny * (if same then 0 else d)"
      using axis zero unit_vector(3,4) [of "ps_x b - ps_x a" "ps_y b - ps_y a"]
      by (auto simp: push_axis_def Let_def same_def split: if_splits)
    show "same \<Longrightarrow> d = 1" using axis zero by (auto simp: push_axis_def Let_def same_def)
  qed
  let ?pa = "push_power a nx ny" and ?pb = "push_power b (- nx) (- ny)"
  let ?m = "ps_radius a + ps_radius b - d"
  define mA mB where "mA = ?m * ?pb / (?pa + ?pb)" and "mB = ?m * ?pa / (?pa + ?pb)"
  have p: "0 < ?pa" "0 < ?pb" by (rule push_power_pos)+
  have sep: "separate a b = ((ps_x a - nx * mA, ps_y a - ny * mA), (ps_x b + nx * mB, ps_y b + ny * mB))"
    using axis by (simp add: separate_def Let_def mA_def mB_def)
  have sum: "mA + mB = ?m"
    using p by (simp add: mA_def mB_def add_divide_distrib [symmetric] distrib_left [symmetric] add.commute)
  have len: "sqrt ((nx * v)\<^sup>2 + (ny * v)\<^sup>2) = \<bar>v\<bar>" for v
  proof -
    have "(nx * v)\<^sup>2 + (ny * v)\<^sup>2 = (nx * nx + ny * ny) * v\<^sup>2" by (simp add: power2_eq_square algebra_simps)
    then show ?thesis using n by simp
  qed
  have gap: "(ps_x b + nx * mB) - (ps_x a - nx * mA) = nx * ((if same then 0 else d) + ?m)"
    "(ps_y b + ny * mB) - (ps_y a - ny * mA) = ny * ((if same then 0 else d) + ?m)"
  proof -
    have "(ps_x b + nx * mB) - (ps_x a - nx * mA) = (ps_x b - ps_x a) + nx * (mA + mB)"
      "(ps_y b + ny * mB) - (ps_y a - ny * mA) = (ps_y b - ps_y a) + ny * (mA + mB)"
      by (simp_all add: algebra_simps)
    then show "(ps_x b + nx * mB) - (ps_x a - nx * mA) = nx * ((if same then 0 else d) + ?m)"
      "(ps_y b + ny * mB) - (ps_y a - ny * mA) = ny * ((if same then 0 else d) + ?m)"
      unfolding off sum by (simp_all only: distrib_left)
  qed
  have move: "(ps_x a - nx * mA) - ps_x a = nx * - mA" "(ps_y a - ny * mA) - ps_y a = ny * - mA"
    "(ps_x b + nx * mB) - ps_x b = nx * mB" "(ps_y b + ny * mB) - ps_y b = ny * mB" by simp_all
  have share: "\<bar>- mA\<bar> * ?pa = \<bar>mB\<bar> * ?pb"
    using p by (simp add: abs_mult mA_def mB_def)
  show ?thesis
    unfolding sep axis prod.case gap move len share using d by (auto simp: same_def)
qed

definition in_tile :: "world_map \<Rightarrow> int \<Rightarrow> int \<Rightarrow> real \<Rightarrow> real \<Rightarrow> bool" where
  "in_tile m ty tx x y \<longleftrightarrow>
     of_int tx * wm_tileSize m \<le> x \<and> x \<le> of_int tx * wm_tileSize m + wm_tileSize m
     \<and> of_int ty * wm_tileSize m \<le> y \<and> y \<le> of_int ty * wm_tileSize m + wm_tileSize m"

text \<open>Moving away from an interval's nearest point does not change the nearest point.\<close>

lemma clamp_ray:
  fixes p l u t :: real
  assumes "l \<le> u" "0 \<le> t"
  defines "n \<equiv> max l (min p u)"
  shows "max l (min (n + t * (p - n)) u) = n"
proof -
  consider "p < l" | "l \<le> p" "p \<le> u" | "u < p" by linarith
  then show ?thesis
  proof cases
    case 1
    then have "t * (p - l) \<le> 0" using assms(2) by (simp add: mult_nonneg_nonpos)
    with 1 assms(1) show ?thesis by (simp add: n_def)
  next
    case 2
    then show ?thesis by (simp add: n_def)
  next
    case 3
    then have "0 \<le> t * (p - u)" using assms(2) by simp
    with 3 assms(1) show ?thesis by (simp add: n_def)
  qed
qed

lemma unit_component: "\<bar>dx / sqrt (dx * dx + dy * dy)\<bar> \<le> (1::real)"
proof -
  let ?d = "sqrt (dx * dx + dy * dy)"
  have "\<bar>dx\<bar> \<le> ?d"
    by (rule real_le_rsqrt) (simp add: power2_eq_square)
  moreover have "?d = 0 \<or> 0 < ?d" by (metis less_eq_real_def real_sqrt_ge_zero sum_squares_ge_zero)
  ultimately show ?thesis by (auto simp: abs_divide divide_le_eq_1)
qed

lemma push_along_eq:
  assumes "dx * dx + dy * dy \<noteq> 0"
  defines "d \<equiv> sqrt (dx * dx + dy * dy)"
  shows "push_along radius px py dx dy = (px - dx + radius / d * dx, py - dy + radius / d * dy)"
proof -
  have "0 < d" using unit_vector(2) [OF assms(1)] by (simp add: d_def)
  then show ?thesis
    unfolding push_along_def Let_def d_def [symmetric] by (simp add: field_simps)
qed

lemma push_out_outside:
  assumes size: "0 < wm_tileSize m" and r: "0 < radius" and b: "blocked m ty tx" and out: "\<not> in_tile m ty tx x y"
    and res: "push_out m radius (ty, tx) (x, y) = (x', y')"
  shows "\<not> circleOverlapsTile x' y' radius tx ty (wm_tileSize m)"
proof -
  let ?s = "wm_tileSize m"
  define l t where "l = of_int tx * ?s" and "t = of_int ty * ?s"
  define nx ny where "nx = max l (min x (l + ?s))" and "ny = max t (min y (t + ?s))"
  define dx dy where "dx = x - nx" and "dy = y - ny"
  have nz: "dx * dx + dy * dy \<noteq> 0"
  proof
    assume "dx * dx + dy * dy = 0"
    then have "x = nx" "y = ny" by (simp_all add: dx_def dy_def sum_squares_eq_zero_iff)
    then show False
      using out size unfolding in_tile_def l_def [symmetric] t_def [symmetric] nx_def ny_def
      by (auto simp: max_def min_def split: if_splits)
  qed
  have push: "push_out m radius (ty, tx) (x, y) =
      (if radius * radius \<le> dx * dx + dy * dy then (x, y) else push_along radius x y dx dy)"
    unfolding push_out_def Let_def prod.case l_def [symmetric] t_def [symmetric] nx_def [symmetric] ny_def [symmetric]
      dx_def [symmetric] dy_def [symmetric]
    by (simp only: b nz if_True if_False simp_thms)
  have over: "circleOverlapsTile a c radius tx ty ?s \<longleftrightarrow>
      (a - max l (min a (l + ?s))) * (a - max l (min a (l + ?s))) + (c - max t (min c (t + ?s))) * (c - max t (min c (t + ?s)))
        < radius * radius" for a c
    by (simp add: circleOverlapsTile_def Let_def l_def t_def)
  show ?thesis
  proof (cases "radius * radius \<le> dx * dx + dy * dy")
    case True
    then have "x' = x" "y' = y" using res push by simp_all
    with True show ?thesis unfolding over by (simp add: dx_def dy_def nx_def ny_def)
  next
    case False
    define d where "d = sqrt (dx * dx + dy * dy)"
    have d: "0 < d" "d * d = dx * dx + dy * dy"
      using unit_vector(2) [OF nz] by (simp_all add: d_def)
    define k where "k = radius / d"
    have k: "0 \<le> k" "k * d = radius" using r d(1) by (simp_all add: k_def)
    have xy: "x' = nx + k * dx" "y' = ny + k * dy"
    proof -
      have "(x', y') = push_along radius x y dx dy" using res push False by (simp only: if_False)
      then have "x' = x - dx + k * dx" "y' = y - dy + k * dy"
        unfolding push_along_eq [OF nz] k_def d_def by (simp_all only: prod.inject)
      moreover have "x - dx = nx" "y - dy = ny" by (simp_all add: dx_def dy_def)
      ultimately show "x' = nx + k * dx" "y' = ny + k * dy" by (simp_all only:)
    qed
    have near: "max l (min x' (l + ?s)) = nx" "max t (min y' (t + ?s)) = ny"
      unfolding xy
      using clamp_ray [of l "l + ?s" k x, folded nx_def dx_def] clamp_ray [of t "t + ?s" k y, folded ny_def dy_def]
        size k(1) by simp_all
    have "(x' - nx) * (x' - nx) + (y' - ny) * (y' - ny) = (k * dx) * (k * dx) + (k * dy) * (k * dy)"
      unfolding xy by simp
    also have "\<dots> = (k * k) * (dx * dx + dy * dy)" by (simp add: algebra_simps)
    also have "\<dots> = (k * d) * (k * d)" unfolding d(2) [symmetric] by simp
    finally show ?thesis unfolding over near k(2) by simp
  qed
qed

lemma push_out_inside:
  assumes size: "2 \<le> wm_tileSize m" and r: "0 < radius" "2 * radius \<le> wm_tileSize m"
    and b: "blocked m ty tx" and inside: "in_tile m ty tx x y"
    and res: "push_out m radius (ty, tx) (x, y) = (x', y')"
  shows "in_tile m ty tx x' y'"
proof -
  let ?s = "wm_tileSize m"
  define l t where "l = of_int tx * ?s" and "t = of_int ty * ?s"
  have near: "max l (min x (l + ?s)) = x" "max t (min y (t + ?s)) = y"
    using inside unfolding in_tile_def l_def t_def by auto
  define cx cy where "cx = l + ?s / 2" and "cy = t + ?s / 2"
  define dx dy where "dx = x - cx" and "dy = y - cy"
  have inside_iff: "in_tile m ty tx a c \<longleftrightarrow> \<bar>a - cx\<bar> \<le> ?s / 2 \<and> \<bar>c - cy\<bar> \<le> ?s / 2" for a c
    unfolding in_tile_def l_def [symmetric] t_def [symmetric] cx_def cy_def abs_le_iff
    by (safe; linarith)
  have r2: "0 < radius * radius" using r by simp
  define ey where "ey = (if dx = 0 \<and> dy = 0 then - 1 else dy)"
  have push: "push_out m radius (ty, tx) (x, y) = push_along radius x y dx ey"
    unfolding push_out_def Let_def prod.case l_def [symmetric] t_def [symmetric] near
      cx_def [symmetric] cy_def [symmetric] dx_def [symmetric] dy_def [symmetric] ey_def [symmetric]
    using b r2 by simp
  have nz: "dx * dx + ey * ey \<noteq> 0" by (simp add: ey_def sum_squares_eq_zero_iff)
  define d where "d = sqrt (dx * dx + ey * ey)"
  have d: "0 < d" using unit_vector(2) [OF nz] by (simp add: d_def)
  have xy: "x' - cx = dx / d * radius" "y' - cy = dy - ey + ey / d * radius"
    using res push push_along_eq [OF nz, of radius x y] by (simp_all add: d_def dx_def dy_def)
  have comp: "\<bar>dx / d * radius\<bar> \<le> radius" "\<bar>ey / d * radius\<bar> \<le> radius"
  proof -
    have "\<bar>dx / d\<bar> * radius \<le> 1 * radius" "\<bar>ey / d\<bar> * radius \<le> 1 * radius"
      using unit_component [of dx ey] unit_component [of ey dx] r
      by (intro mult_right_mono; simp add: d_def add.commute)+
    then show "\<bar>dx / d * radius\<bar> \<le> radius" "\<bar>ey / d * radius\<bar> \<le> radius" using r by (simp_all add: abs_mult)
  qed
  have "\<bar>y' - cy\<bar> \<le> ?s / 2"
  proof (cases "dx = 0 \<and> dy = 0")
    case True
    then have "d = 1" "ey = - 1" by (simp_all add: d_def ey_def)
    then have "y' - cy = 1 - radius" using True xy(2) by simp
    then show ?thesis using size r by linarith
  next
    case False
    then have "dy - ey = 0" by (simp add: ey_def)
    then have "y' - cy = ey / d * radius" unfolding xy(2) by (simp only: add_0)
    then show ?thesis using comp(2) r by linarith
  qed
  moreover have "\<bar>x' - cx\<bar> \<le> ?s / 2" unfolding xy(1) using comp(1) r by linarith
  ultimately show ?thesis unfolding inside_iff by blast
qed

text \<open>
  One push against a solid tile. A circle whose centre is outside the tile no longer overlaps it
  afterwards. A circle whose centre is inside the tile is not freed, although the comment says
  that it is pushed outwards: with a radius of at most half a tile, as the game's players have, the centre
  is put at one radius from the tile's centre and stays inside the tile.
\<close>

theorem push_out_result:
  assumes "2 \<le> wm_tileSize m" "0 < radius" "2 * radius \<le> wm_tileSize m" "blocked m ty tx"
  shows "case push_out m radius (ty, tx) (x, y) of (x', y') \<Rightarrow>
     if in_tile m ty tx x y then in_tile m ty tx x' y'
     else \<not> circleOverlapsTile x' y' radius tx ty (wm_tileSize m)"
proof (cases "push_out m radius (ty, tx) (x, y)")
  case (Pair x' y')
  then show ?thesis
    using push_out_outside [OF _ assms(2,4) _ Pair] push_out_inside [OF assms _ Pair] assms(1) by simp
qed

definition walled_map :: world_map where
  "walled_map = \<lparr>wm_mapId = ''m'', wm_cols = 1, wm_rows = 1, wm_tileSize = 256, wm_tiles = [[TILE_WALL]],
     wm_barrierSpeed = 0, wm_timeline = (\<lambda>_. None),
     wm_markers = [], wm_zones = []\<rparr>"

theorem push_out_result_witness:
  "2 * PLAYER_RADIUS_PX \<le> wm_tileSize walled_map \<and> blocked walled_map 0 0
   \<and> push_out walled_map PLAYER_RADIUS_PX (0, 0) (248, 128) = (128 + PLAYER_RADIUS_PX, 128)
   \<and> in_tile walled_map 0 0 (128 + PLAYER_RADIUS_PX) 128"
proof -
  have h: "2 \<le> wm_tileSize walled_map" "0 < PLAYER_RADIUS_PX" "2 * PLAYER_RADIUS_PX \<le> wm_tileSize walled_map"
    "blocked walled_map 0 0"
    by (simp_all add: walled_map_def PLAYER_RADIUS_PX_def MOVEMENT_def TILE_PX_def blocked_def isSolid_def tile_at_def)
  have p: "push_out walled_map PLAYER_RADIUS_PX (0, 0) (248, 128) = (128 + PLAYER_RADIUS_PX, 128)"
    using h(4) by (simp add: push_out_def push_along_def walled_map_def PLAYER_RADIUS_PX_def MOVEMENT_def TILE_PX_def Let_def)
  have i: "in_tile walled_map 0 0 248 128" by (simp add: in_tile_def walled_map_def)
  show ?thesis using push_out_result [OF h, of 248 128] p i h by simp
qed

end
