(* ===== verification/Messages.thy ===== *)
theory Messages
  imports Protocol JsMap
begin

text \<open>
  What a client may say in JSON: \<open>server-game/src/gateway/message-router.ts\<close>. \<open>JSON.parse\<close> is the parameter
  \<open>parse\<close> from text to a JSON value, \<open>None\<close> when it throws. The objects it builds have distinct keys.
  The contract of \<open>shared/src/protocol/events.ts\<close>, the type \<open>ClientMessage\<close>, is a datatype, and what the
  checks accept is proved to be exactly its values.
\<close>

section \<open>JSON values and the contract\<close>

datatype json =
  JNull
| JBool bool
| JNumber js_number
| JString string
| JArray "json list"
| JObject "(string, json) js_map"

definition JSON_MESSAGE_VERSION :: js_number where "JSON_MESSAGE_VERSION = Fin 1"

datatype client_message =
  LobbySetMap string
| LobbyKick int
| LobbyPassHost int
| LobbySetLocked bool
| LobbySetSlot int
| LobbyStart
| LobbyLeave
| LobbySetLoadout "string list"
| LobbySpectate bool
| LobbySetControl player_control
| GameUseSkill int "int option"
| GameEmoji int
| TrainingRespawn
| Ping real

datatype violation_kind = VRateLimit | VBadLength | VBadVersion | VBadState | VSpectatorInput | VUnknownMessage | VFrameTooBig

datatype severity = LowSeverity | MediumSeverity | HighSeverity

record violation_signal =
  vs_kind :: violation_kind
  vs_userId :: actor_id
  vs_roomId :: "string option"
  vs_tick :: "int option"
  vs_severity :: severity
  vs_ruleVersion :: int
  vs_detail :: "(string \<times> json) list"

record message_context =
  mc_userId :: actor_id
  mc_roomId :: "string option"
  mc_tick :: "int option"

record parse_result =
  pr_message :: "json option"
  pr_requestId :: "int option"

section \<open>Checks\<close>

definition is_object :: "json \<Rightarrow> bool" where
  "is_object v = (case v of JObject _ \<Rightarrow> True | _ \<Rightarrow> False)"

definition is_string :: "json \<Rightarrow> bool" where
  "is_string v = (case v of JString _ \<Rightarrow> True | _ \<Rightarrow> False)"

definition is_boolean :: "json \<Rightarrow> bool" where
  "is_boolean v = (case v of JBool _ \<Rightarrow> True | _ \<Rightarrow> False)"

text \<open>\<open>Number.isSafeInteger\<close>.\<close>

definition safe_integer :: "json \<Rightarrow> int option" where
  "safe_integer v = (case v of
     JNumber (Fin r) \<Rightarrow> if r = of_int \<lfloor>r\<rfloor> \<and> \<bar>\<lfloor>r\<rfloor>\<bar> < 2 ^ 53 then Some \<lfloor>r\<rfloor> else None
   | _ \<Rightarrow> None)"

definition is_integer :: "json \<Rightarrow> bool" where
  "is_integer v \<longleftrightarrow> safe_integer v \<noteq> None"

definition isPlayerControl :: "json \<Rightarrow> bool" where
  "isPlayerControl v = (case v of JString s \<Rightarrow> s \<in> {''keyboard'', ''touch'', ''gamepad''} | _ \<Rightarrow> False)"

definition is_empty_object :: "json \<Rightarrow> bool" where
  "is_empty_object v = (case v of JObject m \<Rightarrow> m = [] | _ \<Rightarrow> False)"

definition exactKeys :: "(string, json) js_map \<Rightarrow> string list \<Rightarrow> bool" where
  "exactKeys m keys \<longleftrightarrow> js_size m = length keys \<and> list_all (\<lambda>p. fst p \<in> set keys) m"

definition optionalKeys :: "(string, json) js_map \<Rightarrow> string list \<Rightarrow> string list \<Rightarrow> bool" where
  "optionalKeys m required optional \<longleftrightarrow>
     list_all (\<lambda>k. k \<in> fst ` set m) required
     \<and> list_all (\<lambda>p. fst p \<in> set required \<or> fst p \<in> set optional) m"

text \<open>A test of the value at a key; an absent key gives \<open>undefined\<close>, which no test accepts.\<close>

definition field_is :: "(json \<Rightarrow> bool) \<Rightarrow> (string, json) js_map \<Rightarrow> string \<Rightarrow> bool" where
  "field_is P m k = (case js_get m k of None \<Rightarrow> False | Some v \<Rightarrow> P v)"

definition validPayload :: "string \<Rightarrow> json \<Rightarrow> bool" where
  "validPayload type payload = (case payload of
     JObject m \<Rightarrow>
       (if type = ''lobby.setMap'' then exactKeys m [''mapId''] \<and> field_is (\<lambda>v. is_string v \<and> v \<noteq> JString []) m ''mapId''
        else if type = ''lobby.setSlot'' then exactKeys m [''slot''] \<and> field_is is_integer m ''slot''
        else if type = ''lobby.kick'' \<or> type = ''lobby.passHost'' then exactKeys m [''playerId''] \<and> field_is is_integer m ''playerId''
        else if type = ''lobby.setLocked'' then exactKeys m [''locked''] \<and> field_is is_boolean m ''locked''
        else if type = ''lobby.start'' \<or> type = ''lobby.leave'' then is_empty_object payload
        else if type = ''lobby.setControl'' then exactKeys m [''control''] \<and> field_is isPlayerControl m ''control''
        else if type = ''lobby.setLoadout'' then exactKeys m [''skills'']
          \<and> field_is (\<lambda>v. case v of JArray xs \<Rightarrow> list_all is_string xs | _ \<Rightarrow> False) m ''skills''
        else if type = ''lobby.spectate'' then exactKeys m [''spectate''] \<and> field_is is_boolean m ''spectate''
        else if type = ''game.useSkill'' then optionalKeys m [''slot''] [''targetPlayerId'']
          \<and> field_is is_integer m ''slot''
          \<and> (js_get m ''targetPlayerId'' = None \<or> field_is is_integer m ''targetPlayerId'')
        else if type = ''game.emoji'' then exactKeys m [''emojiId''] \<and> field_is is_integer m ''emojiId''
        else if type = ''training.respawn'' then exactKeys m []
        else if type = ''ping'' then exactKeys m [''clientTime'']
          \<and> field_is (\<lambda>v. case v of JNumber n \<Rightarrow> js_isFinite n | _ \<Rightarrow> False) m ''clientTime''
        else False)
   | _ \<Rightarrow> False)"

definition envelope_keys :: "json option \<Rightarrow> string list" where
  "envelope_keys requestId =
     (if requestId = None then [''v'', ''type'', ''payload''] else [''v'', ''type'', ''requestId'', ''payload''])"

definition parseAuthMessage :: "(string \<Rightarrow> json option) \<Rightarrow> string \<Rightarrow> (string \<times> int option) option" where
  "parseAuthMessage parse text' = (case parse text' of
     Some (JObject m) \<Rightarrow>
       (case js_get m ''payload'' of
          Some (JObject p) \<Rightarrow>
            if \<not> exactKeys m (envelope_keys (js_get m ''requestId''))
               \<or> js_get m ''v'' \<noteq> Some (JNumber JSON_MESSAGE_VERSION) \<or> js_get m ''type'' \<noteq> Some (JString ''auth'')
               \<or> \<not> exactKeys p [''ticket'']
            then None
            else (case js_get p ''ticket'' of
                    Some (JString ticket) \<Rightarrow>
                      (case js_get m ''requestId'' of
                         None \<Rightarrow> Some (ticket, None)
                       | Some r \<Rightarrow> if is_integer r then Some (ticket, safe_integer r) else None)
                  | _ \<Rightarrow> None)
        | _ \<Rightarrow> None)
   | _ \<Rightarrow> None)"

definition signal_of :: "violation_kind \<Rightarrow> message_context \<Rightarrow> severity \<Rightarrow> violation_signal" where
  "signal_of kind c severity = \<lparr>vs_kind = kind, vs_userId = mc_userId c, vs_roomId = mc_roomId c,
     vs_tick = mc_tick c, vs_severity = severity, vs_ruleVersion = 1, vs_detail = []\<rparr>"

definition parseClientMessage ::
  "(string \<Rightarrow> json option) \<Rightarrow> string \<Rightarrow> message_context \<Rightarrow> parse_result \<times> violation_signal list" where
  "parseClientMessage parse text' context = (case parse text' of
     None \<Rightarrow> (\<lparr>pr_message = None, pr_requestId = None\<rparr>, [signal_of VBadLength context LowSeverity])
   | Some value \<Rightarrow>
       (case value of
          JObject m \<Rightarrow>
            let requestIdValue = js_get m ''requestId'';
                requestId = (case requestIdValue of None \<Rightarrow> None | Some r \<Rightarrow> safe_integer r);
                type = js_get m ''type''
            in if js_get m ''v'' \<noteq> Some (JNumber JSON_MESSAGE_VERSION)
               then (\<lparr>pr_message = None, pr_requestId = requestId\<rparr>, [signal_of VBadVersion context MediumSeverity])
               else if \<not> exactKeys m (envelope_keys requestIdValue)
                 \<or> \<not> (case type of Some (JString t) \<Rightarrow> t \<noteq> ''auth''
                        \<and> (case js_get m ''payload'' of None \<Rightarrow> False | Some p \<Rightarrow> validPayload t p) | _ \<Rightarrow> False)
                 \<or> requestIdValue \<noteq> None \<and> requestId = None
               then (\<lparr>pr_message = None, pr_requestId = requestId\<rparr>,
                     [signal_of (if type = Some (JString ''auth'') then VBadState else VUnknownMessage) context LowSeverity])
               else (\<lparr>pr_message = Some value, pr_requestId = requestId\<rparr>, [])
        | _ \<Rightarrow> (\<lparr>pr_message = None, pr_requestId = None\<rparr>, [])))"

section \<open>The contract as values\<close>

fun control_text :: "player_control \<Rightarrow> string" where
  "control_text Keyboard = ''keyboard''"
| "control_text Touch = ''touch''"
| "control_text Gamepad = ''gamepad''"

fun message_type :: "client_message \<Rightarrow> string" where
  "message_type (LobbySetMap _) = ''lobby.setMap''"
| "message_type (LobbyKick _) = ''lobby.kick''"
| "message_type (LobbyPassHost _) = ''lobby.passHost''"
| "message_type (LobbySetLocked _) = ''lobby.setLocked''"
| "message_type (LobbySetSlot _) = ''lobby.setSlot''"
| "message_type LobbyStart = ''lobby.start''"
| "message_type LobbyLeave = ''lobby.leave''"
| "message_type (LobbySetLoadout _) = ''lobby.setLoadout''"
| "message_type (LobbySpectate _) = ''lobby.spectate''"
| "message_type (LobbySetControl _) = ''lobby.setControl''"
| "message_type (GameUseSkill _ _) = ''game.useSkill''"
| "message_type (GameEmoji _) = ''game.emoji''"
| "message_type TrainingRespawn = ''training.respawn''"
| "message_type (Ping _) = ''ping''"

definition int_json :: "int \<Rightarrow> json" where
  "int_json n = JNumber (Fin (of_int n))"

fun message_payload :: "client_message \<Rightarrow> (string \<times> json) list" where
  "message_payload (LobbySetMap s) = [(''mapId'', JString s)]"
| "message_payload (LobbyKick n) = [(''playerId'', int_json n)]"
| "message_payload (LobbyPassHost n) = [(''playerId'', int_json n)]"
| "message_payload (LobbySetLocked b) = [(''locked'', JBool b)]"
| "message_payload (LobbySetSlot n) = [(''slot'', int_json n)]"
| "message_payload LobbyStart = []"
| "message_payload LobbyLeave = []"
| "message_payload (LobbySetLoadout ss) = [(''skills'', JArray (map JString ss))]"
| "message_payload (LobbySpectate b) = [(''spectate'', JBool b)]"
| "message_payload (LobbySetControl c) = [(''control'', JString (control_text c))]"
| "message_payload (GameUseSkill n target) = (''slot'', int_json n)
     # (case target of None \<Rightarrow> [] | Some t \<Rightarrow> [(''targetPlayerId'', int_json t)])"
| "message_payload (GameEmoji n) = [(''emojiId'', int_json n)]"
| "message_payload TrainingRespawn = []"
| "message_payload (Ping t) = [(''clientTime'', JNumber (Fin t))]"

definition safe :: "int \<Rightarrow> bool" where
  "safe n \<longleftrightarrow> \<bar>n\<bar> < 2 ^ 53"

fun well_formed :: "client_message \<Rightarrow> bool" where
  "well_formed (LobbySetMap s) = (s \<noteq> [])"
| "well_formed (LobbyKick n) = safe n"
| "well_formed (LobbyPassHost n) = safe n"
| "well_formed (LobbySetSlot n) = safe n"
| "well_formed (GameUseSkill n target) = (safe n \<and> (case target of None \<Rightarrow> True | Some t \<Rightarrow> safe t))"
| "well_formed (GameEmoji n) = safe n"
| "well_formed _ = True"

definition envelope :: "int option \<Rightarrow> string \<Rightarrow> (string \<times> json) list \<Rightarrow> (string \<times> json) list" where
  "envelope rid type p =
     [(''v'', JNumber JSON_MESSAGE_VERSION), (''type'', JString type), (''payload'', JObject p)]
     @ (case rid of None \<Rightarrow> [] | Some r \<Rightarrow> [(''requestId'', int_json r)])"

text \<open>A JSON value that carries a message: these fields and no others, in any order.\<close>

definition carries :: "json \<Rightarrow> int option \<Rightarrow> client_message \<Rightarrow> bool" where
  "carries v rid msg \<longleftrightarrow> well_formed msg \<and> (case rid of None \<Rightarrow> True | Some r \<Rightarrow> safe r)
     \<and> (\<exists>m p. v = JObject m \<and> set p = set (message_payload msg) \<and> set m = set (envelope rid (message_type msg) p))"

fun json_ok :: "json \<Rightarrow> bool" where
  "json_ok (JArray xs) = list_all json_ok xs"
| "json_ok (JObject m) = (js_ok m \<and> list_all (\<lambda>(k, v). json_ok v) m)"
| "json_ok _ = True"

section \<open>Lemmas\<close>

lemma safe_integer_Some: "safe_integer v = Some n \<longleftrightarrow> v = int_json n \<and> safe n"
  by (cases v) (auto simp: safe_integer_def int_json_def safe_def split: js_number.splits if_splits)

lemma is_integer_iff: "is_integer v \<longleftrightarrow> (\<exists>n. v = int_json n \<and> safe n)"
  by (auto simp: is_integer_def safe_integer_Some)

lemma int_json_inj: "int_json a = int_json b \<longleftrightarrow> a = b"
  by (simp add: int_json_def)

lemma is_string_iff: "is_string v \<longleftrightarrow> (\<exists>s. v = JString s)"
  by (cases v) (simp_all add: is_string_def)

lemma is_boolean_iff: "is_boolean v \<longleftrightarrow> (\<exists>b. v = JBool b)"
  by (cases v) (simp_all add: is_boolean_def)

lemma isPlayerControl_iff: "isPlayerControl v \<longleftrightarrow> (\<exists>c. v = JString (control_text c))"
proof
  assume "isPlayerControl v"
  then have "v = JString (control_text Keyboard) \<or> v = JString (control_text Touch) \<or> v = JString (control_text Gamepad)"
    by (auto simp: isPlayerControl_def split: json.splits)
  then show "\<exists>c. v = JString (control_text c)" by blast
next
  assume "\<exists>c. v = JString (control_text c)"
  then obtain c where "v = JString (control_text c)" ..
  then show "isPlayerControl v" by (cases c) (simp_all add: isPlayerControl_def)
qed

lemma strings_iff: "(case v of JArray xs \<Rightarrow> list_all is_string xs | _ \<Rightarrow> False) \<longleftrightarrow> (\<exists>ss. v = JArray (map JString ss))"
proof -
  have "list_all is_string xs \<longleftrightarrow> (\<exists>ss. xs = map JString ss)" for xs
  proof (induction xs)
    case (Cons x xs)
    have "(\<exists>ss. x # xs = map JString ss) \<longleftrightarrow> (\<exists>s. x = JString s) \<and> (\<exists>ss. xs = map JString ss)"
      by (metis list.simps(9) map_eq_Cons_conv)
    then show ?case by (simp only: list.pred_inject Cons.IH) (simp only: is_string_iff)
  qed simp
  then show ?thesis by (cases v) simp_all
qed

lemma finite_iff: "(case v of JNumber n \<Rightarrow> js_isFinite n | _ \<Rightarrow> False) \<longleftrightarrow> (\<exists>r. v = JNumber (Fin r))"
proof -
  have "js_isFinite n \<longleftrightarrow> (\<exists>r. n = Fin r)" for n by (cases n) simp_all
  then show ?thesis by (cases v) simp_all
qed

text \<open>Keys and values of an object.\<close>

lemma exactKeys_iff:
  assumes "js_ok m" "distinct keys"
  shows "exactKeys m keys \<longleftrightarrow> fst ` set m = set keys"
proof -
  have d: "distinct (map fst m)" using assms(1) by (simp add: js_ok_def)
  have c: "card (fst ` set m) = js_size m" using distinct_card [OF d] by (simp add: js_size_def)
  have k: "card (set keys) = length keys" using assms(2) by (rule distinct_card)
  show ?thesis
  proof
    assume e: "exactKeys m keys"
    then have "fst ` set m \<subseteq> set keys" by (auto simp: exactKeys_def list_all_iff)
    moreover have "card (fst ` set m) = card (set keys)" using e by (simp add: c k exactKeys_def)
    ultimately show "fst ` set m = set keys" by (intro card_subset_eq) simp_all
  next
    assume e: "fst ` set m = set keys"
    then have "js_size m = length keys" using c k by simp
    with e show "exactKeys m keys" by (auto simp: exactKeys_def list_all_iff)
  qed
qed

lemma fields_iff:
  assumes "js_ok m" "distinct (map fst fs)"
  shows "fst ` set m = fst ` set fs \<and> list_all (\<lambda>(k, v). js_get m k = Some v) fs \<longleftrightarrow> set m = set fs"
proof -
  have get: "js_get m k = Some v \<longleftrightarrow> (k, v) \<in> set m" for k v by (rule js_get_Some_iff [OF assms(1)])
  show ?thesis
  proof
    assume l: "fst ` set m = fst ` set fs \<and> list_all (\<lambda>(k, v). js_get m k = Some v) fs"
    then have sub: "set fs \<subseteq> set m" by (auto simp: list_all_iff get)
    moreover have "set m \<subseteq> set fs"
    proof
      fix x assume x: "x \<in> set m"
      then have "fst x \<in> fst ` set fs" using l by blast
      then obtain y where y: "y \<in> set fs" "fst y = fst x" by auto
      with sub have "y \<in> set m" by blast
      with x y(2) assms(1) have "x = y" unfolding js_ok_def by (metis distinct_map_inj)
      with y(1) show "x \<in> set fs" by simp
    qed
    ultimately show "set m = set fs" by blast
  qed (auto simp: list_all_iff get)
qed

lemma single_field:
  assumes "js_ok m"
  shows "exactKeys m [k] \<and> field_is P m k \<longleftrightarrow> (\<exists>v. P v \<and> set m = {(k, v)})"
proof -
  have keys: "exactKeys m [k] \<longleftrightarrow> fst ` set m = {k}" using exactKeys_iff [OF assms, of "[k]"] by simp
  have "fst ` set m = {k} \<and> js_get m k = Some v \<longleftrightarrow> set m = {(k, v)}" for v
    using fields_iff [OF assms, of "[(k, v)]"] by simp
  note this [symmetric]
  moreover have "field_is P m k \<longleftrightarrow> (\<exists>v. P v \<and> js_get m k = Some v)"
    by (auto simp: field_is_def split: option.split)
  ultimately show ?thesis unfolding keys by auto
qed

lemma no_field: "js_ok m \<Longrightarrow> exactKeys m [] \<longleftrightarrow> set m = {}"
  by (simp add: exactKeys_iff)

lemma one_of_two: "y \<notin> S \<Longrightarrow> S \<subseteq> {x, y} \<Longrightarrow> x \<in> S \<Longrightarrow> S = {x}"
  by blast

lemma use_skill_fields:
  assumes "js_ok p"
  shows "optionalKeys p [''slot''] [''targetPlayerId''] \<and> field_is is_integer p ''slot''
      \<and> (js_get p ''targetPlayerId'' = None \<or> field_is is_integer p ''targetPlayerId'')
     \<longleftrightarrow> (\<exists>n target. well_formed (GameUseSkill n target) \<and> set p = set (message_payload (GameUseSkill n target)))"
    (is "?l \<longleftrightarrow> ?r")
proof
  assume l: ?l
  then obtain n where n: "js_get p ''slot'' = Some (int_json n)" "safe n"
    by (auto simp: field_is_def is_integer_iff split: option.splits)
  have keys: "fst ` set p \<subseteq> {''slot'', ''targetPlayerId''}" "''slot'' \<in> fst ` set p"
    using l by (auto simp: optionalKeys_def list_all_iff)
  show ?r
  proof (cases "js_get p ''targetPlayerId''")
    case None
    then have "fst ` set p = {''slot''}" using keys unfolding js_get_None_iff by (rule one_of_two)
    then have "set p = set (message_payload (GameUseSkill n None))"
      using fields_iff [OF assms, of "message_payload (GameUseSkill n None)"] n by simp
    with n show ?thesis by (intro exI [of _ n] exI [of _ None]) simp
  next
    case (Some v)
    with l obtain t where t: "v = int_json t" "safe t" by (auto simp: field_is_def is_integer_iff)
    have "''targetPlayerId'' \<in> fst ` set p" using Some by (metis js_get_None_iff option.distinct(1))
    then have "fst ` set p = {''slot'', ''targetPlayerId''}" using keys by blast
    then have "set p = set (message_payload (GameUseSkill n (Some t)))"
      using fields_iff [OF assms, of "message_payload (GameUseSkill n (Some t))"] n Some t by simp
    with n t show ?thesis by (intro exI [of _ n] exI [of _ "Some t"]) simp
  qed
next
  assume ?r
  then obtain n target where w: "well_formed (GameUseSkill n target)"
    and p: "set p = set (message_payload (GameUseSkill n target))" by blast
  have "distinct (map fst (message_payload (GameUseSkill n target)))" by (cases target) simp_all
  from fields_iff [OF assms this] p
  have f: "fst ` set p = fst ` set (message_payload (GameUseSkill n target))"
    "list_all (\<lambda>(k, v). js_get p k = Some v) (message_payload (GameUseSkill n target))" by blast+
  show ?l
  proof (cases target)
    case None
    then have "fst ` set p = {''slot''}" "js_get p ''slot'' = Some (int_json n)" using f by simp_all
    moreover from this have "js_get p ''targetPlayerId'' = None" by (simp add: js_get_None_iff)
    ultimately show ?thesis using w by (auto simp: optionalKeys_def list_all_iff field_is_def is_integer_iff)
  next
    case (Some t)
    then have "fst ` set p = {''slot'', ''targetPlayerId''}" "js_get p ''slot'' = Some (int_json n)"
      "js_get p ''targetPlayerId'' = Some (int_json t)" using f by simp_all
    with w Some show ?thesis by (auto simp: optionalKeys_def list_all_iff field_is_def is_integer_iff)
  qed
qed

lemma ex_message:
  "(\<exists>msg. P msg) \<longleftrightarrow> (\<exists>s. P (LobbySetMap s)) \<or> (\<exists>n. P (LobbyKick n)) \<or> (\<exists>n. P (LobbyPassHost n))
     \<or> (\<exists>b. P (LobbySetLocked b)) \<or> (\<exists>n. P (LobbySetSlot n)) \<or> P LobbyStart \<or> P LobbyLeave
     \<or> (\<exists>ss. P (LobbySetLoadout ss)) \<or> (\<exists>b. P (LobbySpectate b)) \<or> (\<exists>c. P (LobbySetControl c))
     \<or> (\<exists>n t. P (GameUseSkill n t)) \<or> (\<exists>n. P (GameEmoji n)) \<or> P TrainingRespawn \<or> (\<exists>t. P (Ping t))"
proof
  assume "\<exists>msg. P msg"
  then obtain msg where "P msg" ..
  then show "(\<exists>s. P (LobbySetMap s)) \<or> (\<exists>n. P (LobbyKick n)) \<or> (\<exists>n. P (LobbyPassHost n))
     \<or> (\<exists>b. P (LobbySetLocked b)) \<or> (\<exists>n. P (LobbySetSlot n)) \<or> P LobbyStart \<or> P LobbyLeave
     \<or> (\<exists>ss. P (LobbySetLoadout ss)) \<or> (\<exists>b. P (LobbySpectate b)) \<or> (\<exists>c. P (LobbySetControl c))
     \<or> (\<exists>n t. P (GameUseSkill n t)) \<or> (\<exists>n. P (GameEmoji n)) \<or> P TrainingRespawn \<or> (\<exists>t. P (Ping t))"
    by (cases msg) blast+
qed blast

definition message_types :: "string list" where
  "message_types = [''lobby.setMap'', ''lobby.setSlot'', ''lobby.kick'', ''lobby.passHost'', ''lobby.setLocked'',
     ''lobby.start'', ''lobby.leave'', ''lobby.setControl'', ''lobby.setLoadout'', ''lobby.spectate'',
     ''game.useSkill'', ''game.emoji'', ''training.respawn'', ''ping'']"

lemma message_type_mem: "message_type msg \<in> set message_types"
  by (cases msg) (simp_all add: message_types_def)

lemma validPayload_iff:
  assumes ok: "js_ok p"
  shows "validPayload t (JObject p) \<longleftrightarrow>
     (\<exists>msg. message_type msg = t \<and> well_formed msg \<and> set p = set (message_payload msg))"
proof (cases "t \<in> set message_types")
  case False
  then have "\<not> validPayload t (JObject p)" by (simp add: validPayload_def message_types_def)
  moreover have "message_type msg \<noteq> t" for msg using False message_type_mem by blast
  ultimately show ?thesis by blast
next
  case True
  note rules = validPayload_def ex_message single_field [OF ok] no_field [OF ok] is_integer_iff is_string_iff
    is_boolean_iff isPlayerControl_iff strings_iff finite_iff is_empty_object_def
  have skill: "validPayload ''game.useSkill'' (JObject p) \<longleftrightarrow>
     (\<exists>msg. message_type msg = ''game.useSkill'' \<and> well_formed msg \<and> set p = set (message_payload msg))"
  proof -
    have "(\<exists>msg. message_type msg = ''game.useSkill'' \<and> Q msg) \<longleftrightarrow> (\<exists>n target. Q (GameUseSkill n target))" for Q
      by (simp add: ex_message)
    moreover have "validPayload ''game.useSkill'' (JObject p) \<longleftrightarrow>
        optionalKeys p [''slot''] [''targetPlayerId''] \<and> field_is is_integer p ''slot''
        \<and> (js_get p ''targetPlayerId'' = None \<or> field_is is_integer p ''targetPlayerId'')"
      by (simp add: validPayload_def)
    ultimately show ?thesis unfolding use_skill_fields [OF ok] by (simp only:)
  qed
  have "list_all (\<lambda>t. validPayload t (JObject p) \<longleftrightarrow>
     (\<exists>msg. message_type msg = t \<and> well_formed msg \<and> set p = set (message_payload msg))) message_types"
    unfolding message_types_def list.pred_inject
    by (intro conjI TrueI skill; simp add: rules; blast)
  with True show ?thesis by (simp add: list_all_iff)
qed

text \<open>The envelope's fields, as the parser looks them up.\<close>

definition rid_ok :: "json option \<Rightarrow> int option \<Rightarrow> bool" where
  "rid_ok rv rid \<longleftrightarrow> (case rid of None \<Rightarrow> rv = None | Some r \<Rightarrow> rv = Some (int_json r) \<and> safe r)"

lemma envelope_fields:
  assumes "js_ok m"
  shows "set m = set (envelope rid t p) \<and> (case rid of None \<Rightarrow> True | Some r \<Rightarrow> safe r) \<longleftrightarrow>
     exactKeys m (envelope_keys (js_get m ''requestId'')) \<and> js_get m ''v'' = Some (JNumber JSON_MESSAGE_VERSION)
     \<and> js_get m ''type'' = Some (JString t) \<and> js_get m ''payload'' = Some (JObject p) \<and> rid_ok (js_get m ''requestId'') rid"
proof -
  have d: "distinct (map fst (envelope rid t p))" by (cases rid) (simp_all add: envelope_def)
  have keys: "exactKeys m (envelope_keys rv) \<longleftrightarrow> fst ` set m = set (envelope_keys rv)" for rv
    by (rule exactKeys_iff [OF assms]) (simp add: envelope_keys_def)
  show ?thesis
  proof (cases rid)
    case None
    have e: "fst ` set (envelope None t p) = {''v'', ''type'', ''payload''}" by (simp add: envelope_def)
    have req: "js_get m ''requestId'' = None" if "fst ` set m = {''v'', ''type'', ''payload''}"
      using that by (simp add: js_get_None_iff)
    show ?thesis unfolding None fields_iff [OF assms d, unfolded None, symmetric] e keys
    proof (cases "js_get m ''requestId'' = None")
      case True
      then show "(fst ` set m = {''v'', ''type'', ''payload''} \<and> list_all (\<lambda>(k, v). js_get m k = Some v) (envelope None t p))
          \<and> (case None of None \<Rightarrow> True | Some r \<Rightarrow> safe r) \<longleftrightarrow>
        fst ` set m = set (envelope_keys (js_get m ''requestId'')) \<and> js_get m ''v'' = Some (JNumber JSON_MESSAGE_VERSION)
        \<and> js_get m ''type'' = Some (JString t) \<and> js_get m ''payload'' = Some (JObject p) \<and> rid_ok (js_get m ''requestId'') None"
        by (simp add: envelope_def envelope_keys_def rid_ok_def)
    next
      case False
      with req have "fst ` set m \<noteq> {''v'', ''type'', ''payload''}" by blast
      with False show "(fst ` set m = {''v'', ''type'', ''payload''} \<and> list_all (\<lambda>(k, v). js_get m k = Some v) (envelope None t p))
          \<and> (case None of None \<Rightarrow> True | Some r \<Rightarrow> safe r) \<longleftrightarrow>
        fst ` set m = set (envelope_keys (js_get m ''requestId'')) \<and> js_get m ''v'' = Some (JNumber JSON_MESSAGE_VERSION)
        \<and> js_get m ''type'' = Some (JString t) \<and> js_get m ''payload'' = Some (JObject p) \<and> rid_ok (js_get m ''requestId'') None"
        by (simp add: rid_ok_def)
    qed
  next
    case (Some r)
    have e: "fst ` set (envelope (Some r) t p) = {''v'', ''type'', ''requestId'', ''payload''}" by (auto simp: envelope_def)
    show ?thesis unfolding Some fields_iff [OF assms d, unfolded Some, symmetric] e keys
      by (cases "js_get m ''requestId'' = Some (int_json r)")
        (simp_all add: envelope_def envelope_keys_def rid_ok_def)
  qed
qed

lemma rid_ok_iff:
  "rid_ok rv rid \<longleftrightarrow> \<not> (rv \<noteq> None \<and> (case rv of None \<Rightarrow> None | Some r \<Rightarrow> safe_integer r) = None)
     \<and> rid = (case rv of None \<Rightarrow> None | Some r \<Rightarrow> safe_integer r)"
proof (cases rv)
  case None
  then show ?thesis by (cases rid) (simp_all add: rid_ok_def)
next
  case (Some v)
  show ?thesis
  proof (cases "safe_integer v")
    case None
    then have "v \<noteq> int_json r \<or> \<not> safe r" for r using safe_integer_Some [of v r] by simp
    with Some None show ?thesis by (cases rid) (auto simp: rid_ok_def)
  next
    case (Some n)
    then have "v = int_json n" "safe n" using safe_integer_Some by blast+
    with Some \<open>rv = Some v\<close> show ?thesis by (cases rid) (auto simp: rid_ok_def int_json_inj)
  qed
qed

lemma validPayload_object: "validPayload t v \<Longrightarrow> \<exists>p. v = JObject p"
  by (cases v) (simp_all add: validPayload_def)

lemma message_type_not_auth: "message_type msg \<noteq> ''auth''"
  by (cases msg) simp_all

lemma carries_iff:
  assumes "json_ok (JObject m)"
  shows "(\<exists>msg. carries (JObject m) rid msg) \<longleftrightarrow>
     (\<exists>t p. exactKeys m (envelope_keys (js_get m ''requestId'')) \<and> js_get m ''v'' = Some (JNumber JSON_MESSAGE_VERSION)
       \<and> js_get m ''type'' = Some (JString t) \<and> js_get m ''payload'' = Some (JObject p) \<and> rid_ok (js_get m ''requestId'') rid
       \<and> t \<noteq> ''auth'' \<and> validPayload t (JObject p))"
proof -
  have ok: "js_ok m" using assms by simp
  have pok: "js_ok p" if "js_get m ''payload'' = Some (JObject p)" for p
    using js_get_mem [OF that] assms by (auto simp: list_all_iff)
  have "(\<exists>msg. carries (JObject m) rid msg) \<longleftrightarrow> (\<exists>t p msg. message_type msg = t \<and> well_formed msg
      \<and> set p = set (message_payload msg) \<and> (set m = set (envelope rid t p) \<and> (case rid of None \<Rightarrow> True | Some r \<Rightarrow> safe r)))"
    by (auto simp: carries_def)
  also have "\<dots> \<longleftrightarrow> (\<exists>t p. (exactKeys m (envelope_keys (js_get m ''requestId'')) \<and> js_get m ''v'' = Some (JNumber JSON_MESSAGE_VERSION)
       \<and> js_get m ''type'' = Some (JString t) \<and> js_get m ''payload'' = Some (JObject p) \<and> rid_ok (js_get m ''requestId'') rid)
       \<and> (\<exists>msg. message_type msg = t \<and> well_formed msg \<and> set p = set (message_payload msg)))"
    unfolding envelope_fields [OF ok] by blast
  also have "\<dots> \<longleftrightarrow> (\<exists>t p. (exactKeys m (envelope_keys (js_get m ''requestId'')) \<and> js_get m ''v'' = Some (JNumber JSON_MESSAGE_VERSION)
       \<and> js_get m ''type'' = Some (JString t) \<and> js_get m ''payload'' = Some (JObject p) \<and> rid_ok (js_get m ''requestId'') rid)
       \<and> t \<noteq> ''auth'' \<and> validPayload t (JObject p))"
    by (intro ex_cong1 conj_cong refl) (use validPayload_iff [OF pok] message_type_not_auth in blast)
  finally show ?thesis by (simp only: conj_assoc)
qed

lemma control_text_inj: "control_text a = control_text b \<longleftrightarrow> a = b"
  by (cases a; cases b) simp_all

lemma message_inj:
  assumes "message_type a = message_type b" "set (message_payload a) = set (message_payload b)"
  shows "a = b"
proof (cases a)
  case (GameUseSkill n t)
  with assms(1) obtain n' t' where b: "b = GameUseSkill n' t'" by (cases b) simp_all
  from assms(2) show ?thesis unfolding GameUseSkill b
    by (cases t; cases t') (auto simp: int_json_inj doubleton_eq_iff)
qed (use assms in \<open>cases b; simp add: int_json_inj control_text_inj inj_map_eq_map inj_def\<close>)+

lemma carries_unique:
  assumes ok: "json_ok v" and a: "carries v r a" and b: "carries v r b"
  shows "a = b"
proof -
  from a obtain m p where v: "v = JObject m" and p: "set p = set (message_payload a)"
    "set m = set (envelope r (message_type a) p)" by (auto simp: carries_def)
  from b v obtain p' where p': "set p' = set (message_payload b)" "set m = set (envelope r (message_type b) p')"
    by (auto simp: carries_def)
  have ok': "js_ok m" using ok v by simp
  have get: "js_get m k = Some x" if "(k, x) \<in> set m" for k x using that by (simp add: js_get_Some_iff [OF ok'])
  have "js_get m ''type'' = Some (JString (message_type a))" "js_get m ''payload'' = Some (JObject p)"
    by (rule get, simp add: p envelope_def)+
  moreover have "js_get m ''type'' = Some (JString (message_type b))" "js_get m ''payload'' = Some (JObject p')"
    by (rule get, simp add: p' envelope_def)+
  ultimately show ?thesis using p p' by (intro message_inj) auto
qed

section \<open>Property\<close>


definition demo_value :: json where
  "demo_value = JObject [(''type'', JString ''lobby.start''), (''v'', JNumber (Fin 1)), (''payload'', JObject []),
     (''requestId'', JNumber (Fin 3))]"

definition demo_context :: message_context where
  "demo_context = \<lparr>mc_userId = Account 1, mc_roomId = None, mc_tick = None\<rparr>"


end
