(* ===== verification/Room.thy ===== *)
theory Room
  imports Lobby Motion Messages
begin

text \<open>
  A room: \<open>server-game/src/rooms/room.ts\<close>. The object is a record, each method a function on it. What a method tells
  the outside - messages to connections, connections closed, calls of the lifecycle port, directory changes - is appended to the
  log \<open>rm_out\<close> in the order of the code. What it asks of the outside is in \<open>room_env\<close>: the clock, read as one value in a call, the
  tick of the server, known maps, whether a game may start, the digest of a password, the start of a game. An exception
  of the state machine is the effect \<open>Thrown\<close>. A \<open>queueMicrotask\<close> is an operation of its own, \<open>after_bind\<close>.
\<close>

section \<open>Data\<close>

record start_player =
  sp_playerId :: int
  sp_loadout :: skill_id

record start_snapshot =
  ss_roomId :: string
  ss_matchId :: string
  ss_mapId :: string
  ss_mode :: room_mode
  ss_players :: "start_player list"
  ss_rules :: "(string \<times> json) list"

record game_start_info =
  gi_startTick :: int
  gi_taggerId :: int

record game_spawn =
  gs_playerId :: int
  gs_x :: real
  gs_y :: real

record room_timing =
  rt_countdownMs :: int
  rt_postGameMs :: int
  rt_reconnectGraceMs :: int
  rt_startLock :: lock_options

record room_options =
  op_id :: string
  op_roomCode :: string
  op_matchId :: string
  op_name :: string
  op_password :: "string option"
  op_mode :: room_mode
  op_capacity :: int
  op_mapId :: string
  op_ownerReservation :: "seat_reservation option"
  op_adopted :: "adopted_member list option"
  op_playedGames :: int
  op_grantedMatchId :: "string option"
  op_locked :: bool
  op_minPlayersToStart :: nat
  op_simulationHz :: int
  op_rules :: "(string \<times> json) list"
  op_hudGameplay :: "(string \<times> real) list"
  op_timing :: room_timing

record room_env =
  en_now :: int
  en_serverTick :: int
  en_isKnownMap :: "string \<Rightarrow> room_mode \<Rightarrow> bool"
  en_canStartGame :: bool
  en_isDraining :: bool
  en_hash :: "string \<Rightarrow> string"
  en_startGame :: "start_snapshot \<Rightarrow> game_start_info"
  en_startPositions :: "start_snapshot \<Rightarrow> game_spawn list option"

record lobby_player =
  lp_playerId :: int
  lp_slot :: int
  lp_nickname :: string
  lp_colorIndex :: int
  lp_guest :: bool
  lp_role :: player_role
  lp_skills :: "skill_id list"
  lp_stats :: "lobby_stats option"
  lp_control :: "player_control option"

record lobby_state_payload =
  lb_selfId :: int
  lb_hostId :: int
  lb_roomName :: string
  lb_mapId :: string
  lb_mode :: room_mode
  lb_capacity :: int
  lb_locked :: bool
  lb_startLockMs :: int
  lb_roomState :: room_state
  lb_players :: "lobby_player list"

record starting_payload =
  st_startsAtTick :: int
  st_countdownMs :: int
  st_mapId :: string
  st_gameplay :: "(string \<times> real) list"
  st_spawns :: "game_spawn list option"

datatype server_message =
  LobbyStateMsg lobby_state_payload
| HostChangedMsg int
| GameStartingMsg starting_payload
| GameStartedMsg game_start_info
| SkillRejectedMsg int skill_rejection
| PlayerTaggedMsg int int
| PlayerEliminatedMsg int int
| PlayerLeftMsg int string
| PlayerReconnectingMsg int int
| SpectateChangedMsg int bool
| PlayerBlinkedMsg int real real
| PlayerSkillAreaMsg string int real real "int option"
| GameEndedMsg string "int list" int
| ErrorMsg "int option" error_code bool
| PongMsg real int int

datatype room_effect =
  Send int server_message
| CloseConnection int int string
| StartedGame start_snapshot
| StoppedRoom
| ConnectionChanged int bool
| ParticipantDisconnected int
| ParticipantRemoved int string
| DirectoryChanged
| Thrown string

record room =
  rm_options :: room_options
  rm_machine :: state_machine
  rm_roster :: lobby_roster
  rm_startLock :: start_lock
  rm_kickedUsers :: "actor_id list"
  rm_mapId :: string
  rm_matchId :: string
  rm_grantedMatchId :: "string option"
  rm_playedGames :: int
  rm_locked :: bool
  rm_countdownEndsAt :: "int option"
  rm_postGameEndsAt :: "int option"
  rm_startSnapshot :: "start_snapshot option"
  rm_resumeStarting :: "starting_payload option"
  rm_resumeStarted :: "game_start_info option"
  rm_handingOff :: bool
  rm_out :: "room_effect list"

section \<open>Construction and small reads\<close>

definition room_state :: "room \<Rightarrow> room_state" where
  "room_state r = sm_state (rm_machine r)"

definition empty_room :: "room_env \<Rightarrow> room_options \<Rightarrow> lobby_roster \<Rightarrow> room" where
  "empty_room e o' ro = \<lparr>rm_options = o', rm_machine = new_machine (en_now e), rm_roster = ro,
     rm_startLock = new_lock (rt_startLock (op_timing o')), rm_kickedUsers = [], rm_mapId = op_mapId o',
     rm_matchId = op_matchId o', rm_grantedMatchId = op_grantedMatchId o', rm_playedGames = op_playedGames o',
     rm_locked = op_locked o', rm_countdownEndsAt = None, rm_postGameEndsAt = None, rm_startSnapshot = None,
     rm_resumeStarting = None, rm_resumeStarted = None, rm_handingOff = False, rm_out = []\<rparr>"

text \<open>The constructor; \<open>None\<close> where it throws.\<close>

definition new_room :: "room_env \<Rightarrow> room_options \<Rightarrow> room option" where
  "new_room e o' =
     (if op_ownerReservation o' = None \<and> op_adopted o' = None then None
      else if (case op_ownerReservation o' of None \<Rightarrow> False | Some res \<Rightarrow> sr_roomId res \<noteq> op_id o' \<or> sr_resume res) then None
      else if \<not> en_isKnownMap e (op_mapId o') (op_mode o') then None
      else case new_roster (op_capacity o') of
             None \<Rightarrow> None
           | Some ro \<Rightarrow>
               (case op_ownerReservation o' of
                  None \<Rightarrow> Some (empty_room e o' ro)
                | Some res \<Rightarrow>
                    (case hold res [] ro of
                       (Inl _, _) \<Rightarrow> None
                     | (Inr _, ro') \<Rightarrow> Some (empty_room e o' ro'))))"

definition emit :: "room_effect \<Rightarrow> room \<Rightarrow> room" where
  "emit x r = r\<lparr>rm_out := rm_out r @ [x]\<rparr>"

definition directoryChanged :: "room \<Rightarrow> room" where
  "directoryChanged = emit DirectoryChanged"

definition enter :: "room_state \<Rightarrow> int \<Rightarrow> room \<Rightarrow> room" where
  "enter next_state now r = (case transition next_state now (rm_machine r) of
     None \<Rightarrow> emit (Thrown ''invalid room transition'') r
   | Some m \<Rightarrow> r\<lparr>rm_machine := m\<rparr>)"

definition update :: "actor_id \<Rightarrow> (lobby_member \<Rightarrow> lobby_member) \<Rightarrow> room \<Rightarrow> room" where
  "update u f r = r\<lparr>rm_roster := update_member u f (rm_roster r)\<rparr>"

definition roomTiming :: "room \<Rightarrow> room_timing" where
  "roomTiming r = op_timing (rm_options r)"

definition roomMode :: "room \<Rightarrow> room_mode" where
  "roomMode r = op_mode (rm_options r)"

definition locked_players :: "room \<Rightarrow> int list" where
  "locked_players r = (case rm_startSnapshot r of None \<Rightarrow> [] | Some s \<Rightarrow> map sp_playerId (ss_players s))"

definition belongsToLockedGame :: "room \<Rightarrow> lobby_member \<Rightarrow> bool" where
  "belongsToLockedGame r m \<longleftrightarrow> lm_playerId m \<in> set (locked_players r)"

definition lobbyEditable :: "room \<Rightarrow> bool" where
  "lobbyEditable r \<longleftrightarrow> room_state r = Waiting \<or> room_state r = PostGame"

section \<open>Sending\<close>

text \<open>A message to each connected member that satisfies a test, in the order of the roster.\<close>

definition send_to :: "(lobby_member \<Rightarrow> bool) \<Rightarrow> (lobby_member \<Rightarrow> server_message) \<Rightarrow> room \<Rightarrow> room" where
  "send_to P msg r = r\<lparr>rm_out := rm_out r @ concat (map (\<lambda>m. case lm_connection m of
     None \<Rightarrow> [] | Some c \<Rightarrow> if P m then [Send (gc_id c) (msg m)] else []) (members (rm_roster r)))\<rparr>"

definition broadcast :: "server_message \<Rightarrow> room \<Rightarrow> room" where
  "broadcast msg = send_to (\<lambda>_. True) (\<lambda>_. msg)"

definition broadcastCurrentGame :: "server_message \<Rightarrow> room \<Rightarrow> room" where
  "broadcastCurrentGame msg = send_to lm_inCurrentGame (\<lambda>_. msg)"

definition lobby_player_of :: "lobby_member \<Rightarrow> lobby_player" where
  "lobby_player_of m = \<lparr>lp_playerId = lm_playerId m, lp_slot = lm_slot m, lp_nickname = lm_nickname m,
     lp_colorIndex = lm_colorIndex m, lp_guest = lm_guest m, lp_role = lm_role m, lp_skills = [lm_loadout m],
     lp_stats = lm_stats m, lp_control = lm_control m\<rparr>"

definition broadcastLobbyState :: "room_env \<Rightarrow> room \<Rightarrow> room" where
  "broadcastLobbyState e r =
     (if room_state r = Closed then r
      else case hostId (rm_roster r) of
             None \<Rightarrow> r
           | Some host \<Rightarrow>
               send_to (\<lambda>_. True) (\<lambda>m. LobbyStateMsg
                 \<lparr>lb_selfId = lm_playerId m, lb_hostId = host, lb_roomName = op_name (rm_options r), lb_mapId = rm_mapId r,
                  lb_mode = roomMode r, lb_capacity = ro_capacity (rm_roster r), lb_locked = rm_locked r,
                  lb_startLockMs = remainingMs (en_now e) (rm_startLock r), lb_roomState = room_state r,
                  lb_players = map lobby_player_of (members (rm_roster r))\<rparr>) r)"

definition sendError :: "game_connection \<Rightarrow> int option \<Rightarrow> error_code \<Rightarrow> room \<Rightarrow> room" where
  "sendError c requestId code = emit (Send (gc_id c) (ErrorMsg requestId code (isRetryable code)))"

definition close_room :: "room_env \<Rightarrow> room \<Rightarrow> room" where
  "close_room e r =
     (if room_state r = Closed then r
      else
        let r1 = emit StoppedRoom r;
            r2 = r1\<lparr>rm_roster := clearHolds (rm_roster r1)\<rparr>;
            r3 = r2\<lparr>rm_out := rm_out r2 @ concat (map (\<lambda>m. case lm_connection m of
                   None \<Rightarrow> [] | Some c \<Rightarrow> [CloseConnection (gc_id c) CLOSE_NORMAL ''room closed'']) (members (rm_roster r2)))\<rparr>
        in directoryChanged (enter Closed (en_now e) r3))"

definition removeMember :: "room_env \<Rightarrow> actor_id \<Rightarrow> string \<Rightarrow> bool \<Rightarrow> room \<Rightarrow> bool \<times> room" where
  "removeMember e u reason notifyLifecycle r =
     (case remove_member u (rm_roster r) of
        (None, _) \<Rightarrow> (False, r)
      | (Some (m, hostChanged), ro) \<Rightarrow>
          let r1 = r\<lparr>rm_roster := ro\<rparr>;
              r2 = (if notifyLifecycle then emit (ParticipantRemoved (lm_playerId m) reason) r1 else r1);
              r3 = directoryChanged (broadcast (PlayerLeftMsg (lm_playerId m) reason) r2);
              r4 = (case hostId (rm_roster r3) of
                      Some h \<Rightarrow> if hostChanged then broadcast (HostChangedMsg h) r3 else r3
                    | None \<Rightarrow> r3)
          in (True, if roster_size (rm_roster r4) = 0 then close_room e r4 else broadcastLobbyState e r4))"

section \<open>The passing of time\<close>

record room_projection =
  pj_roomId :: string
  pj_roomCode :: string
  pj_matchId :: string
  pj_pendingMatchId :: "string option"
  pj_name :: string
  pj_ownerName :: string
  pj_mapId :: string
  pj_state :: room_state
  pj_playerCount :: nat
  pj_capacity :: int
  pj_hasPassword :: bool
  pj_locked :: bool
  pj_mode :: room_mode

definition projection :: "room \<Rightarrow> room_projection" where
  "projection r = \<lparr>pj_roomId = op_id (rm_options r), pj_roomCode = op_roomCode (rm_options r), pj_matchId = rm_matchId r,
     pj_pendingMatchId = (if rm_playedGames r = 0 then Some (rm_matchId r) else rm_grantedMatchId r),
     pj_name = op_name (rm_options r),
     pj_ownerName = (case hostId (rm_roster r) of
        None \<Rightarrow> [] | Some h \<Rightarrow> (case getByPlayerId (rm_roster r) h of None \<Rightarrow> [] | Some m \<Rightarrow> lm_nickname m)),
     pj_mapId = rm_mapId r, pj_state = room_state r, pj_playerCount = occupiedSize (rm_roster r),
     pj_capacity = ro_capacity (rm_roster r), pj_hasPassword = (op_password (rm_options r) \<noteq> None),
     pj_locked = rm_locked r, pj_mode = roomMode r\<rparr>"

text \<open>What the loop over the members does with one of them.\<close>

definition reconnect_expired :: "int \<Rightarrow> lobby_member \<Rightarrow> bool" where
  "reconnect_expired now m \<longleftrightarrow> lm_connection m = None
     \<and> (case lm_reconnectUntil m of None \<Rightarrow> False | Some t \<Rightarrow> t \<le> now)"

definition admission_expired :: "int \<Rightarrow> lobby_member \<Rightarrow> bool" where
  "admission_expired now m \<longleftrightarrow> lm_connection m = None
     \<and> (case lm_admissionPendingUntil m of None \<Rightarrow> False | Some t \<Rightarrow> t \<le> now)"

definition expire_member :: "room_env \<Rightarrow> actor_id \<Rightarrow> room \<Rightarrow> room" where
  "expire_member e u r = (case getByUser (rm_roster r) u of
     None \<Rightarrow> r
   | Some m \<Rightarrow>
       let r1 = (if admission_expired (en_now e) m then update u (\<lambda>m. m\<lparr>lm_admissionPendingUntil := None\<rparr>) r else r)
       in if admission_expired (en_now e) m \<and> lm_reconnectUntil m = None
          then snd (removeMember e u ''admission-timeout'' False r1)
          else if reconnect_expired (en_now e) m
          then snd (removeMember e u ''reconnect-timeout'' False r1) else r1)"

definition begin_game_member :: "start_snapshot \<Rightarrow> lobby_member \<Rightarrow> lobby_member" where
  "begin_game_member s m =
     (let playing = lm_playerId m \<in> set (map sp_playerId (ss_players s)) in
      m\<lparr>lm_inCurrentGame := playing, lm_role := (if playing then RolePlayer else RoleWaiting),
        lm_spectatorEligible := False, lm_latestInput := None, lm_lastInputSequence := None\<rparr>)"

definition end_game_member :: "lobby_member \<Rightarrow> lobby_member" where
  "end_game_member m = m\<lparr>lm_role := RolePlayer, lm_spectatorEligible := False, lm_inCurrentGame := False,
     lm_latestInput := None, lm_lastInputSequence := None\<rparr>"

definition update_all :: "(lobby_member \<Rightarrow> lobby_member) \<Rightarrow> room \<Rightarrow> room" where
  "update_all f r = fold (\<lambda>u. update u f) (map lm_userId (members (rm_roster r))) r"

definition start_playing :: "room_env \<Rightarrow> start_snapshot \<Rightarrow> room \<Rightarrow> room" where
  "start_playing e s r =
     (let started = en_startGame e s;
          r1 = update_all (begin_game_member s) (emit (StartedGame s) r);
          r2 = enter Playing (en_now e) (r1\<lparr>rm_countdownEndsAt := None\<rparr>);
          r3 = r2\<lparr>rm_resumeStarted := Some started\<rparr>
      in broadcastLobbyState e (broadcastCurrentGame (GameStartedMsg started) r3))"

definition return_to_lobby :: "room_env \<Rightarrow> room \<Rightarrow> room" where
  "return_to_lobby e r =
     (let r1 = (update_all end_game_member r)\<lparr>rm_postGameEndsAt := None, rm_startSnapshot := None\<rparr>
      in broadcastLobbyState e (enter Waiting (en_now e) r1))"

definition due :: "int \<Rightarrow> int option \<Rightarrow> bool" where
  "due now at' = (case at' of None \<Rightarrow> False | Some t \<Rightarrow> t \<le> now)"

definition advance_countdown :: "room_env \<Rightarrow> room \<Rightarrow> room" where
  "advance_countdown e r =
     (if room_state r = Countdown \<and> due (en_now e) (rm_countdownEndsAt r)
      then (case rm_startSnapshot r of
              None \<Rightarrow> emit (Thrown ''countdown has no locked start snapshot'') r
            | Some s \<Rightarrow> start_playing e s r)
      else r)"

definition advance_postgame :: "room_env \<Rightarrow> room \<Rightarrow> room" where
  "advance_postgame e r =
     (if room_state r = PostGame \<and> due (en_now e) (rm_postGameEndsAt r) then return_to_lobby e r else r)"

definition expire_members :: "room_env \<Rightarrow> room \<Rightarrow> room" where
  "expire_members e r = fold (expire_member e) (map lm_userId (members (rm_roster r))) r"

definition advance_inner :: "room_env \<Rightarrow> room \<Rightarrow> room" where
  "advance_inner e r =
     (if room_state r = Closed then r
      else
        let r1 = r\<lparr>rm_roster := snd (purgeExpiredHolds (en_now e) (rm_roster r))\<rparr>;
            r2 = expire_members e r1
        in if roster_size (rm_roster r2) = 0
           then (if room_state r2 \<noteq> Allocating \<or> occupiedSize (rm_roster r2) = 0 then close_room e r2 else r2)
           else advance_postgame e (advance_countdown e r2))"

definition advance :: "room_env \<Rightarrow> room \<Rightarrow> room" where
  "advance e r =
     (if rm_handingOff r then r
      else let r1 = advance_inner e r in if projection r \<noteq> projection r1 then directoryChanged r1 else r1)"

section \<open>Joining\<close>

definition reserveJoin :: "room_env \<Rightarrow> seat_reservation \<Rightarrow> string option \<Rightarrow> room \<Rightarrow> control_error option \<times> room" where
  "reserveJoin e res password r0 =
     (let r = advance e r0 in
      if room_state r = Closed then (Some CtlRoomNotFound, r)
      else if sr_roomId res \<noteq> op_id (rm_options r) \<or> sr_resume res \<or> sr_expiresAt res \<le> en_now e then (Some CtlExpired, r)
      else if (room_state r \<noteq> Waiting \<and> room_state r \<noteq> Playing) \<or> rm_locked r then (Some CtlRoomLocked, r)
      else if sr_userId res \<in> set (rm_kickedUsers r) then (Some CtlKickedFromRoom, r)
      else if (case op_password (rm_options r) of
                 None \<Rightarrow> False
               | Some expected \<Rightarrow> (case password of None \<Rightarrow> True | Some p \<Rightarrow> en_hash e expected \<noteq> en_hash e p))
      then (Some CtlBadPassword, r)
      else case hold res (if room_state r = Playing then locked_players r else []) (rm_roster r) of
             (Inl HoldDuplicate, _) \<Rightarrow> (Some CtlAlreadyInRoom, r)
           | (Inl HoldFull, _) \<Rightarrow> (Some CtlRoomFull, r)
           | (Inr _, ro) \<Rightarrow> (None, directoryChanged (r\<lparr>rm_roster := ro\<rparr>)))"

definition canReserveResume :: "room_env \<Rightarrow> actor_id \<Rightarrow> room \<Rightarrow> control_error option \<times> room" where
  "canReserveResume e u r0 =
     (let r = advance e r0 in
      if room_state r = Closed then (Some CtlRoomNotFound, r)
      else case getByUser (rm_roster r) u of
             None \<Rightarrow> (Some CtlNoGraceSlot, r)
           | Some m \<Rightarrow>
               if lm_connection m \<noteq> None \<or> lm_admissionPendingUntil m \<noteq> None then (Some CtlNoGraceSlot, r)
               else if (case lm_reconnectUntil m of None \<Rightarrow> False | Some t \<Rightarrow> en_now e < t) then (None, r)
               else (Some CtlNoGraceSlot, r))"

definition seat_in :: "room \<Rightarrow> lobby_member \<Rightarrow> admitted_seat" where
  "seat_in r m = \<lparr>as_playerId = lm_playerId m, as_roomState = room_state r, as_role = lm_role m\<rparr>"

definition admitReservation :: "room_env \<Rightarrow> seat_reservation \<Rightarrow> room \<Rightarrow> admitted_seat option \<times> room" where
  "admitReservation e res r0 =
     (let r = advance e r0; now = en_now e in
      if sr_roomId res \<noteq> op_id (rm_options r) \<or> sr_expiresAt res \<le> now \<or> room_state r = Closed then (None, r)
      else if sr_resume res then
        (case canReserveResume e (sr_userId res) r of
           (Some _, r1) \<Rightarrow> (None, r1)
         | (None, r1) \<Rightarrow>
             (case getByUser (rm_roster r1) (sr_userId res) of
                None \<Rightarrow> (None, r1)
              | Some m \<Rightarrow> (Some (seat_in r1 m),
                  update (sr_userId res) (\<lambda>m. m\<lparr>lm_admissionPendingUntil := Some (sr_expiresAt res)\<rparr>) r1)))
      else if room_state r \<noteq> Allocating \<and> room_state r \<noteq> Waiting \<and> room_state r \<noteq> Playing then (None, r)
      else case heldSeat (rm_roster r) (sr_userId res) of
             None \<Rightarrow> (None, r)
           | Some h \<Rightarrow>
               if sr_issuedAt (sh_reservation h) \<noteq> sr_issuedAt res \<or> sr_expiresAt (sh_reservation h) \<noteq> sr_expiresAt res
                  \<or> sr_serverId (sh_reservation h) \<noteq> sr_serverId res
               then (None, r)
               else (case claim (sr_userId res) now (if room_state r = Playing then RoleWaiting else RolePlayer) (rm_roster r) of
                       (None, ro) \<Rightarrow> (None, r\<lparr>rm_roster := ro\<rparr>)
                     | (Some m, ro) \<Rightarrow>
                         let r1 = r\<lparr>rm_roster := ro, rm_startLock := snd (applyJoin now (rm_startLock r))\<rparr>;
                             r2 = directoryChanged (if room_state r1 = Allocating then enter Waiting now r1 else r1)
                         in (Some (seat_in r2 m), r2)))"

definition replayGameState :: "game_connection \<Rightarrow> room \<Rightarrow> room" where
  "replayGameState c r = (case rm_resumeStarting r of
     None \<Rightarrow> r
   | Some starting \<Rightarrow>
       let r1 = emit (Send (gc_id c) (GameStartingMsg
             (if room_state r = Playing then starting\<lparr>st_countdownMs := 0\<rparr> else starting))) r
       in case rm_resumeStarted r1 of None \<Rightarrow> r1 | Some started \<Rightarrow> emit (Send (gc_id c) (GameStartedMsg started)) r1)"

definition bindConnection :: "room_env \<Rightarrow> game_connection \<Rightarrow> room \<Rightarrow> bool \<times> room" where
  "bindConnection e c r = (case getByUser (rm_roster r) (gc_userId c) of
     None \<Rightarrow> (False, r)
   | Some m \<Rightarrow>
       if lm_playerId m \<noteq> gc_playerId c \<or> lm_connection m \<noteq> None
          \<or> (case lm_admissionPendingUntil m of None \<Rightarrow> True | Some t \<Rightarrow> t \<le> en_now e)
       then (False, r)
       else if gc_resume c \<noteq> (lm_reconnectUntil m \<noteq> None) then (False, r)
       else (True, emit (ConnectionChanged (lm_playerId m) True)
         (update (gc_userId c) (\<lambda>m. m\<lparr>lm_connection := Some c, lm_admissionPendingUntil := None,
            lm_reconnectUntil := None, lm_latestInput := None, lm_lastInputSequence := None\<rparr>) r)))"

definition after_bind :: "room_env \<Rightarrow> game_connection \<Rightarrow> room \<Rightarrow> room" where
  "after_bind e c r = (case getByUser (rm_roster r) (gc_userId c) of
     None \<Rightarrow> r
   | Some m \<Rightarrow>
       if lm_connection m \<noteq> Some c \<or> room_state r = Closed then r
       else let r1 = broadcastLobbyState e r in if belongsToLockedGame r1 m then replayGameState c r1 else r1)"

section \<open>Hand-over to another server\<close>

record adopt_room_payload =
  ar_serverId :: string
  ar_roomId :: string
  ar_roomCode :: string
  ar_matchId :: string
  ar_playedGames :: int
  ar_grantedMatchId :: "string option"
  ar_locked :: bool
  ar_name :: string
  ar_password :: "string option"
  ar_capacity :: int
  ar_mapId :: string
  ar_mode :: room_mode
  ar_members :: "adopted_member list"

definition canHandOff :: "room \<Rightarrow> bool" where
  "canHandOff r \<longleftrightarrow> \<not> rm_handingOff r \<and> room_state r = Waiting
     \<and> (roomMode r \<noteq> MatchMode \<or> rm_playedGames r = 0 \<or> rm_grantedMatchId r \<noteq> None)
     \<and> occupiedSize (rm_roster r) = length (members (rm_roster r))
     \<and> list_all (\<lambda>m. lm_admissionPendingUntil m = None) (members (rm_roster r))
     \<and> list_ex (\<lambda>m. lm_connection m \<noteq> None) (members (rm_roster r))"

definition freezeForHandOff :: "room \<Rightarrow> bool \<times> room" where
  "freezeForHandOff r = (if \<not> canHandOff r then (False, r) else (True, r\<lparr>rm_handingOff := True\<rparr>))"

definition cancelHandOff :: "room \<Rightarrow> room" where
  "cancelHandOff r = r\<lparr>rm_handingOff := False\<rparr>"

definition export_member :: "int option \<Rightarrow> lobby_member \<Rightarrow> adopted_member" where
  "export_member host m = \<lparr>ad_userId = lm_userId m, ad_playerId = lm_playerId m, ad_slot = lm_slot m,
     ad_nickname = lm_nickname m, ad_guest = lm_guest m, ad_stats = lm_stats m, ad_loadout = lm_loadout m,
     ad_joinedOrder = lm_joinedOrder m, ad_colorIndex = lm_colorIndex m, ad_isHost = (Some (lm_playerId m) = host)\<rparr>"

definition exportForHandOff :: "string \<Rightarrow> room \<Rightarrow> adopt_room_payload" where
  "exportForHandOff targetServerId r = \<lparr>ar_serverId = targetServerId, ar_roomId = op_id (rm_options r),
     ar_roomCode = op_roomCode (rm_options r), ar_matchId = rm_matchId r, ar_playedGames = rm_playedGames r,
     ar_grantedMatchId = rm_grantedMatchId r, ar_locked = rm_locked r, ar_name = op_name (rm_options r),
     ar_password = op_password (rm_options r), ar_capacity = ro_capacity (rm_roster r), ar_mapId = rm_mapId r,
     ar_mode = roomMode r, ar_members = map (export_member (hostId (rm_roster r))) (members (rm_roster r))\<rparr>"

definition release_member :: "actor_id \<Rightarrow> room \<Rightarrow> room" where
  "release_member u r = (case getByUser (rm_roster r) u of
     None \<Rightarrow> r
   | Some m \<Rightarrow>
       update u (\<lambda>m. m\<lparr>lm_connection := None\<rparr>)
         (case lm_connection m of None \<Rightarrow> r
          | Some c \<Rightarrow> emit (CloseConnection (gc_id c) CLOSE_TRY_AGAIN_LATER ''room migrated'') r))"

definition releaseAfterHandOff :: "room_env \<Rightarrow> room \<Rightarrow> room" where
  "releaseAfterHandOff e r =
     enter Closed (en_now e) (fold release_member (map lm_userId (members (rm_roster r))) r)"

definition refreshHandOffGrace :: "room_env \<Rightarrow> room \<Rightarrow> room" where
  "refreshHandOffGrace e r = update_all (\<lambda>m. if lm_connection m = None
     then m\<lparr>lm_reconnectUntil := Some (en_now e + rt_reconnectGraceMs (roomTiming r))\<rparr> else m) r"

definition adoptMembers :: "room_env \<Rightarrow> adopted_member list \<Rightarrow> room \<Rightarrow> room" where
  "adoptMembers e ads r =
     (let r1 = r\<lparr>rm_roster := fold (\<lambda>a. adopt a (en_now e + rt_reconnectGraceMs (roomTiming r))) ads (rm_roster r)\<rparr>;
          r2 = (if room_state r1 = Allocating then enter Waiting (en_now e) r1 else r1)
      in directoryChanged (r2\<lparr>rm_startLock := snd (applyJoin (en_now e) (rm_startLock r2))\<rparr>))"

section \<open>Leaving\<close>

definition markEliminatedMember :: "room_env \<Rightarrow> actor_id \<Rightarrow> int \<Rightarrow> int \<Rightarrow> room \<Rightarrow> room" where
  "markEliminatedMember e u playerId by' r =
     (let r1 = update u (\<lambda>m. m\<lparr>lm_spectatorEligible := True, lm_role := RoleSpectator, lm_latestInput := None\<rparr>) r;
          r2 = broadcastCurrentGame (PlayerEliminatedMsg playerId by') r1;
          r3 = broadcastCurrentGame (SpectateChangedMsg playerId True) r2
      in broadcastLobbyState e r3)"

definition disconnect :: "room_env \<Rightarrow> game_connection \<Rightarrow> room \<Rightarrow> room" where
  "disconnect e c r = (case getByUser (rm_roster r) (gc_userId c) of
     None \<Rightarrow> r
   | Some m \<Rightarrow>
       if map_option gc_id (lm_connection m) \<noteq> Some (gc_id c) then r
       else
         let grace = rt_reconnectGraceMs (roomTiming r);
             r1 = emit (ConnectionChanged (lm_playerId m) False)
               (update (gc_userId c) (\<lambda>m. m\<lparr>lm_connection := None, lm_admissionPendingUntil := None,
                  lm_reconnectUntil := Some (en_now e + grace), lm_latestInput := None\<rparr>) r);
             reconnecting = PlayerReconnectingMsg (lm_playerId m) grace;
             in_game = (room_state r1 = Playing \<and> lm_inCurrentGame m);
             r2 = (if in_game then broadcastCurrentGame reconnecting r1 else broadcast reconnecting r1)
         in if in_game \<and> \<not> lm_spectatorEligible m
            then emit (ParticipantDisconnected (lm_playerId m))
              (markEliminatedMember e (gc_userId c) (lm_playerId m) (lm_playerId m) r2)
            else broadcastLobbyState e r2)"

definition releaseSeat :: "room_env \<Rightarrow> actor_id \<Rightarrow> string \<Rightarrow> room \<Rightarrow> bool \<times> room" where
  "releaseSeat e u reason r = (case releaseHold u (rm_roster r) of
     (True, ro) \<Rightarrow>
       let r1 = r\<lparr>rm_roster := ro\<rparr>
       in (True, directoryChanged (if occupiedSize (rm_roster r1) = 0 then close_room e r1 else r1))
   | (False, ro) \<Rightarrow> removeMember e u reason True (r\<lparr>rm_roster := ro\<rparr>))"

definition kick :: "room_env \<Rightarrow> actor_id \<Rightarrow> int \<Rightarrow> room \<Rightarrow> error_code option \<times> room" where
  "kick e requester playerId r =
     (if room_state r \<noteq> Waiting then (Some BadState, r)
      else if \<not> isHost (rm_roster r) requester then (Some NotHost, r)
      else case getByPlayerId (rm_roster r) playerId of
             None \<Rightarrow> (Some InvalidPayload, r)
           | Some m \<Rightarrow>
               if lm_userId m = requester then (Some InvalidPayload, r)
               else
                 let r1 = r\<lparr>rm_kickedUsers := List.insert (lm_userId m) (rm_kickedUsers r)\<rparr>;
                     r2 = (case lm_connection m of None \<Rightarrow> r1 | Some c \<Rightarrow> sendError c None Kicked r1);
                     r3 = snd (removeMember e (lm_userId m) ''kicked'' True r2)
                 in (None, case lm_connection m of None \<Rightarrow> r3
                           | Some c \<Rightarrow> emit (CloseConnection (gc_id c) CLOSE_POLICY_VIOLATION ''kicked'') r3))"

definition forceKick :: "room_env \<Rightarrow> actor_id \<Rightarrow> string \<Rightarrow> room \<Rightarrow> bool \<times> room" where
  "forceKick e u reason r =
     (let r1 = r\<lparr>rm_kickedUsers := List.insert u (rm_kickedUsers r), rm_roster := snd (releaseHold u (rm_roster r))\<rparr>
      in case getByUser (rm_roster r1) u of
           None \<Rightarrow> (False, r1)
         | Some m \<Rightarrow>
             let r2 = (case lm_connection m of None \<Rightarrow> r1 | Some c \<Rightarrow> sendError c None Kicked r1);
                 r3 = snd (removeMember e u reason True r2)
             in (True, case lm_connection m of None \<Rightarrow> r3
                       | Some c \<Rightarrow> emit (CloseConnection (gc_id c) CLOSE_POLICY_VIOLATION ''kicked'') r3))"

section \<open>Lobby commands\<close>

definition room_passHost :: "room_env \<Rightarrow> actor_id \<Rightarrow> int \<Rightarrow> room \<Rightarrow> error_code option \<times> room" where
  "room_passHost e requester playerId r =
     (if room_state r \<noteq> Waiting then (Some BadState, r)
      else if \<not> isHost (rm_roster r) requester then (Some NotHost, r)
      else case passHost requester playerId (rm_roster r) of
             (False, _) \<Rightarrow> (Some InvalidPayload, r)
           | (True, ro) \<Rightarrow>
               (None, directoryChanged (broadcastLobbyState e (broadcast (HostChangedMsg playerId) (r\<lparr>rm_roster := ro\<rparr>)))))"

definition setLocked :: "room_env \<Rightarrow> actor_id \<Rightarrow> bool \<Rightarrow> room \<Rightarrow> error_code option \<times> room" where
  "setLocked e requester locked r =
     (if room_state r \<noteq> Waiting then (Some BadState, r)
      else if \<not> isHost (rm_roster r) requester then (Some NotHost, r)
      else (None, if rm_locked r \<noteq> locked then directoryChanged (broadcastLobbyState e (r\<lparr>rm_locked := locked\<rparr>)) else r))"

definition setMap :: "room_env \<Rightarrow> actor_id \<Rightarrow> string \<Rightarrow> room \<Rightarrow> error_code option \<times> room" where
  "setMap e requester mapId r =
     (if room_state r \<noteq> Waiting then (Some BadState, r)
      else if \<not> isHost (rm_roster r) requester then (Some NotHost, r)
      else if \<not> en_isKnownMap e mapId (roomMode r) then (Some InvalidPayload, r)
      else (None, if mapId \<noteq> rm_mapId r
        then directoryChanged (broadcastLobbyState e
          (r\<lparr>rm_mapId := mapId, rm_startLock := applyMapChange (en_now e) (rm_startLock r)\<rparr>)) else r))"

definition setLoadout :: "room_env \<Rightarrow> actor_id \<Rightarrow> skill_id \<Rightarrow> room \<Rightarrow> error_code option \<times> room" where
  "setLoadout e u loadout r =
     (if \<not> lobbyEditable r then (Some BadState, r)
      else case getByUser (rm_roster r) u of
             None \<Rightarrow> (Some BadState, r)
           | Some m \<Rightarrow>
               if lm_role m \<noteq> RolePlayer then (Some BadState, r)
               else (None, if lm_loadout m \<noteq> loadout
                 then broadcastLobbyState e (update u (\<lambda>m. m\<lparr>lm_loadout := loadout\<rparr>) r) else r))"

definition setControl :: "room_env \<Rightarrow> actor_id \<Rightarrow> player_control \<Rightarrow> room \<Rightarrow> error_code option \<times> room" where
  "setControl e u control r = (case getByUser (rm_roster r) u of
     None \<Rightarrow> (Some BadState, r)
   | Some m \<Rightarrow>
       (None, if lm_control m \<noteq> Some control
        then (let r1 = update u (\<lambda>m. m\<lparr>lm_control := Some control\<rparr>) r in
              if lobbyEditable r1 then broadcastLobbyState e r1 else r1)
        else r))"

text \<open>\<open>None\<close> is \<open>bad-state\<close>.\<close>

definition room_moveSlot :: "room_env \<Rightarrow> actor_id \<Rightarrow> int \<Rightarrow> room \<Rightarrow> move_slot_result option \<times> room" where
  "room_moveSlot e u slot r =
     (if \<not> lobbyEditable r then (None, r)
      else case moveSlot u slot (rm_roster r) of
             (res, ro) \<Rightarrow>
               let r1 = r\<lparr>rm_roster := ro\<rparr> in (Some res, if res = SlotMoved then broadcastLobbyState e r1 else r1))"

section \<open>Games\<close>

definition connected_members :: "room \<Rightarrow> lobby_member list" where
  "connected_members r = filter (\<lambda>m. lm_connection m \<noteq> None) (members (rm_roster r))"

text \<open>Why a start is refused, in the order of the checks.\<close>

definition start_refusal :: "room_env \<Rightarrow> actor_id \<Rightarrow> room \<Rightarrow> error_code option" where
  "start_refusal e requester r =
     (if room_state r \<noteq> Waiting then Some BadState
      else if \<not> isHost (rm_roster r) requester then Some NotHost
      else if en_isDraining e then Some ServerDraining
      else if 0 < remainingMs (en_now e) (rm_startLock r) then Some StartLocked
      else if length (connected_members r) < op_minPlayersToStart (rm_options r) then Some BadState
      else if \<not> en_canStartGame e then Some ResultBacklog
      else if 0 < rm_playedGames r \<and> roomMode r = MatchMode \<and> rm_grantedMatchId r = None then Some ResultBacklog
      else None)"

definition take_match_id :: "room \<Rightarrow> room" where
  "take_match_id r =
     (if 0 < rm_playedGames r \<and> roomMode r = MatchMode
      then (case rm_grantedMatchId r of None \<Rightarrow> r | Some g \<Rightarrow> r\<lparr>rm_matchId := g, rm_grantedMatchId := None\<rparr>)
      else r)"

definition snapshot_of :: "room \<Rightarrow> lobby_member list \<Rightarrow> start_snapshot" where
  "snapshot_of r participants = \<lparr>ss_roomId = op_id (rm_options r), ss_matchId = rm_matchId r, ss_mapId = rm_mapId r,
     ss_mode = roomMode r,
     ss_players = map (\<lambda>m. \<lparr>sp_playerId = lm_playerId m, sp_loadout = lm_loadout m\<rparr>) participants,
     ss_rules = op_rules (rm_options r)\<rparr>"

definition starting_of :: "room_env \<Rightarrow> start_snapshot \<Rightarrow> room \<Rightarrow> starting_payload" where
  "starting_of e snap r = \<lparr>st_startsAtTick = en_serverTick e
       + \<lceil>real_of_int (rt_countdownMs (roomTiming r)) / 1000 * real_of_int (op_simulationHz (rm_options r))\<rceil>,
     st_countdownMs = rt_countdownMs (roomTiming r), st_mapId = rm_mapId r, st_gameplay = op_hudGameplay (rm_options r),
     st_spawns = en_startPositions e snap\<rparr>"

definition requestStart :: "room_env \<Rightarrow> actor_id \<Rightarrow> room \<Rightarrow> error_code option \<times> room" where
  "requestStart e requester r = (case start_refusal e requester r of
     Some err \<Rightarrow> (Some err, r)
   | None \<Rightarrow>
       let now = en_now e;
           participants = connected_members r;
           r1 = take_match_id r;
           r2 = r1\<lparr>rm_playedGames := rm_playedGames r1 + 1, rm_roster := clearHolds (rm_roster r1)\<rparr>;
           snap = snapshot_of r2 participants;
           r3 = r2\<lparr>rm_startSnapshot := Some snap, rm_countdownEndsAt := Some (now + rt_countdownMs (roomTiming r2))\<rparr>;
           r4 = directoryChanged (enter Countdown now r3);
           starting = starting_of e snap r4
       in (None, broadcast (GameStartingMsg starting) (r4\<lparr>rm_resumeStarting := Some starting, rm_resumeStarted := None\<rparr>)))"

text \<open>\<open>Inl\<close> is the exception for winners that are not distinct players of the match.\<close>

definition finishGame :: "room_env \<Rightarrow> int list \<Rightarrow> room \<Rightarrow> string + bool \<times> room" where
  "finishGame e winnerIds r =
     (if room_state r \<noteq> Playing then Inr (False, r)
      else
        let ordered = sort winnerIds in
        if \<not> distinct ordered \<or> \<not> list_all (\<lambda>w. w \<in> set (locked_players r)) ordered
        then Inl ''invalid winner ids''
        else
          let ends = en_now e + rt_postGameMs (roomTiming r);
              r1 = enter PostGame (en_now e) (r\<lparr>rm_postGameEndsAt := Some ends\<rparr>);
              r2 = directoryChanged (r1\<lparr>rm_resumeStarting := None, rm_resumeStarted := None\<rparr>)
          in Inr (True, broadcastCurrentGame (GameEndedMsg (rm_matchId r2) ordered ends) r2))"

definition grantMatchId :: "string \<Rightarrow> room \<Rightarrow> room" where
  "grantMatchId matchId r = (if matchId = rm_matchId r then r else r\<lparr>rm_grantedMatchId := Some matchId\<rparr>)"

text \<open>\<open>revived\<close> is the answer of the simulation.\<close>

definition reviveForTraining :: "room_env \<Rightarrow> int \<Rightarrow> bool \<Rightarrow> room \<Rightarrow> bool \<times> room" where
  "reviveForTraining e playerId revived r =
     (if roomMode r \<noteq> TrainingMode \<or> room_state r \<noteq> Playing then (False, r)
      else case getByPlayerId (rm_roster r) playerId of
             None \<Rightarrow> (False, r)
           | Some m \<Rightarrow>
               if \<not> lm_spectatorEligible m \<or> \<not> revived then (False, r)
               else (True, broadcastLobbyState e (broadcastCurrentGame (SpectateChangedMsg playerId False)
                 (update (lm_userId m) (\<lambda>m. m\<lparr>lm_spectatorEligible := False, lm_role := RolePlayer,
                    lm_inCurrentGame := True, lm_latestInput := None\<rparr>) r))))"

definition markEliminated :: "room_env \<Rightarrow> int \<Rightarrow> int \<Rightarrow> room \<Rightarrow> bool \<times> room" where
  "markEliminated e playerId by' r =
     (if room_state r \<noteq> Playing then (False, r)
      else case getByPlayerId (rm_roster r) playerId of
             None \<Rightarrow> (False, r)
           | Some m \<Rightarrow>
               if \<not> lm_inCurrentGame m \<or> lm_spectatorEligible m then (False, r)
               else (True, markEliminatedMember e (lm_userId m) (lm_playerId m) by' r))"

definition setSpectating :: "room_env \<Rightarrow> actor_id \<Rightarrow> bool \<Rightarrow> room \<Rightarrow> error_code option \<times> room" where
  "setSpectating e u spectating r =
     (if room_state r \<noteq> Playing then (Some BadState, r)
      else case getByUser (rm_roster r) u of
             None \<Rightarrow> (Some SpectateDenied, r)
           | Some m \<Rightarrow>
               if \<not> lm_spectatorEligible m then (Some SpectateDenied, r)
               else
                 let role = (if spectating then RoleSpectator else RoleWaiting) in
                 (None, if lm_role m \<noteq> role
                  then broadcastLobbyState e (broadcastCurrentGame (SpectateChangedMsg (lm_playerId m) spectating)
                    (update u (\<lambda>m. m\<lparr>lm_role := role, lm_latestInput := None\<rparr>) r))
                  else r))"

section \<open>What each member may see and do in a game\<close>

datatype snapshot_access = AccessNone | AccessFiltered | AccessUnfiltered

definition snapshotAccess :: "room \<Rightarrow> actor_id \<Rightarrow> snapshot_access" where
  "snapshotAccess r u =
     (if room_state r \<noteq> Playing then AccessNone
      else case getByUser (rm_roster r) u of
             None \<Rightarrow> AccessNone
           | Some m \<Rightarrow>
               if lm_connection m = None then AccessNone
               else if lm_role m = RoleSpectator \<and> lm_spectatorEligible m then AccessUnfiltered
               else if lm_role m = RolePlayer \<and> lm_inCurrentGame m \<and> \<not> lm_spectatorEligible m then AccessFiltered
               else AccessNone)"

definition snapshotTargets :: "room \<Rightarrow> (int \<times> game_connection \<times> snapshot_access) list" where
  "snapshotTargets r =
     (if room_state r \<noteq> Playing then []
      else concat (map (\<lambda>m. case lm_connection m of
        None \<Rightarrow> []
      | Some c \<Rightarrow> (let access = snapshotAccess r (lm_userId m) in
          if access = AccessNone then [] else [(lm_playerId m, c, access)])) (members (rm_roster r))))"

record participant =
  pa_playerId :: int
  pa_userId :: actor_id
  pa_nickname :: string
  pa_colorIndex :: int
  pa_guest :: bool

definition participants :: "room \<Rightarrow> participant list" where
  "participants r = map (\<lambda>m. \<lparr>pa_playerId = lm_playerId m, pa_userId = lm_userId m, pa_nickname = lm_nickname m,
     pa_colorIndex = lm_colorIndex m, pa_guest = lm_guest m\<rparr>) (members (rm_roster r))"

definition nicknameOf :: "room \<Rightarrow> int \<Rightarrow> string option" where
  "nicknameOf r playerId = map_option lm_nickname (getByPlayerId (rm_roster r) playerId)"

definition broadcastTagged :: "int \<Rightarrow> int option \<Rightarrow> room \<Rightarrow> room" where
  "broadcastTagged playerId by' = broadcastCurrentGame (PlayerTaggedMsg playerId (case by' of None \<Rightarrow> playerId | Some b \<Rightarrow> b))"

definition may_view :: "room \<Rightarrow> int \<Rightarrow> (int \<Rightarrow> bool) \<Rightarrow> lobby_member \<Rightarrow> bool" where
  "may_view r source canSee m \<longleftrightarrow>
     (let access = snapshotAccess r (lm_userId m) in
      access \<noteq> AccessNone \<and> \<not> (access = AccessFiltered \<and> lm_playerId m \<noteq> source \<and> \<not> canSee (lm_playerId m)))"

definition broadcastToViewers :: "server_message \<Rightarrow> int \<Rightarrow> (int \<Rightarrow> bool) \<Rightarrow> room \<Rightarrow> room" where
  "broadcastToViewers msg source canSee r = send_to (may_view r source canSee) (\<lambda>_. msg) r"

definition broadcastBlinked :: "int \<Rightarrow> real \<Rightarrow> real \<Rightarrow> (int \<Rightarrow> bool) \<Rightarrow> room \<Rightarrow> room" where
  "broadcastBlinked playerId fromX fromY canSee = broadcastToViewers (PlayerBlinkedMsg playerId fromX fromY) playerId canSee"

definition broadcastSkillArea :: "string \<Rightarrow> int \<Rightarrow> real \<Rightarrow> real \<Rightarrow> int option \<Rightarrow> (int \<Rightarrow> bool) \<Rightarrow> room \<Rightarrow> room" where
  "broadcastSkillArea skill playerId x y target canSee =
     broadcastToViewers (PlayerSkillAreaMsg skill playerId x y target) playerId canSee"

definition sendSkillRejected :: "int \<Rightarrow> int \<Rightarrow> skill_rejection \<Rightarrow> room \<Rightarrow> room" where
  "sendSkillRejected playerId slot reason r = (case getByPlayerId (rm_roster r) playerId of
     None \<Rightarrow> r
   | Some m \<Rightarrow> (case lm_connection m of None \<Rightarrow> r | Some c \<Rightarrow> emit (Send (gc_id c) (SkillRejectedMsg slot reason)) r))"

definition acceptInput :: "game_connection \<Rightarrow> input_state \<Rightarrow> room \<Rightarrow> bool \<times> room" where
  "acceptInput c input r = (case getByUser (rm_roster r) (gc_userId c) of
     None \<Rightarrow> (False, r)
   | Some m \<Rightarrow>
       if room_state r \<noteq> Playing \<or> map_option gc_id (lm_connection m) \<noteq> Some (gc_id c)
          \<or> lm_role m \<noteq> RolePlayer \<or> lm_spectatorEligible m
       then (False, r)
       else if (case lm_lastInputSequence m of None \<Rightarrow> False | Some s \<Rightarrow> \<not> isNewerSequence (in_sequence input) s) then (False, r)
       else (True, update (gc_userId c)
         (\<lambda>m. m\<lparr>lm_lastInputSequence := Some (in_sequence input), lm_latestInput := Some input\<rparr>) r))"

definition resolvedInputs :: "room \<Rightarrow> resolved_input list" where
  "resolvedInputs r =
     (if room_state r \<noteq> Playing then []
      else concat (map (\<lambda>m.
        if lm_connection m = None \<or> lm_role m \<noteq> RolePlayer \<or> lm_spectatorEligible m \<or> lm_lastInputSequence m = None then []
        else (case lm_latestInput m of None \<Rightarrow> [] | Some i \<Rightarrow> [resolveInput i (lm_playerId m)])) (members (rm_roster r))))"

definition room_hasUser :: "room \<Rightarrow> actor_id \<Rightarrow> bool" where
  "room_hasUser r u = hasUser (rm_roster r) u"

definition isKicked :: "room \<Rightarrow> actor_id \<Rightarrow> bool" where
  "isKicked r u \<longleftrightarrow> u \<in> set (rm_kickedUsers r)"

definition reservedPlayerId :: "room \<Rightarrow> actor_id \<Rightarrow> int option" where
  "reservedPlayerId r u = map_option sh_playerId (heldSeat (rm_roster r) u)"

end
