(* ===== verification/Manager.thy ===== *)
theory Manager
  imports Room Config
begin

text \<open>
  The manager of the rooms of a server: \<open>server-game/src/rooms/room-manager.ts\<close>. Rooms live in two maps, the open ones and
  the ones that another server is handing over. What the manager itself does outside - messages where there is no
  room, requests to the simulation, signals of violations - is in its log \<open>mg_out\<close>; what it does through a room is in the log
  of that room. A sink that is not configured answers \<open>False\<close>. A handler names the room of its connection.
\<close>

section \<open>State\<close>

record create_room =
  cr_id :: string
  cr_roomCode :: string
  cr_matchId :: string
  cr_name :: string
  cr_password :: "string option"
  cr_capacity :: int
  cr_mapId :: string
  cr_ownerReservation :: seat_reservation
  cr_mode :: "room_mode option"

record manager_options =
  mo_timing :: room_timing
  mo_maxRooms :: "nat option"
  mo_rules :: "(string \<times> json) list"
  mo_hudGameplay :: "(string \<times> real) list"
  mo_resumes :: bool

record manager_env =
  me_room :: room_env
  me_skillSink :: "string \<Rightarrow> int \<Rightarrow> int \<Rightarrow> int option \<Rightarrow> bool"
  me_emojiSink :: "string \<Rightarrow> int \<Rightarrow> int \<Rightarrow> bool"
  me_respawnSink :: "string \<Rightarrow> int \<Rightarrow> bool"

datatype manager_effect =
  MSend int server_message
| MDirectoryChanged
| MViolation violation_signal
| MSkill string int int "int option"
| MEmoji string int int
| MRespawn string int
| MResumed int snapshot_access

record room_manager =
  mg_options :: manager_options
  mg_rooms :: "(string, room) js_map"
  mg_staged :: "(string, room) js_map"
  mg_out :: "manager_effect list"

definition DEFAULT_TIMING :: room_timing where
  "DEFAULT_TIMING = \<lparr>rt_countdownMs = COUNTDOWN_MS, rt_postGameMs = POST_GAME_MS, rt_reconnectGraceMs = RECONNECT_GRACE_MS,
     rt_startLock = \<lparr>lo_joinLockMs = START_LOCK_ON_JOIN_MS, lo_joinBudgetMs = START_LOCK_JOIN_BUDGET_MS,
       lo_joinBudgetWindowMs = START_LOCK_JOIN_BUDGET_WINDOW_MS, lo_mapLockMs = START_LOCK_ON_MAP_CHANGE_MS\<rparr>\<rparr>"

definition new_room_manager :: "manager_options \<Rightarrow> room_manager" where
  "new_room_manager o' = \<lparr>mg_options = o', mg_rooms = js_empty, mg_staged = js_empty, mg_out = []\<rparr>"

definition mg_emit :: "manager_effect \<Rightarrow> room_manager \<Rightarrow> room_manager" where
  "mg_emit x m = m\<lparr>mg_out := mg_out m @ [x]\<rparr>"

definition mg_size :: "room_manager \<Rightarrow> nat" where
  "mg_size m = js_size (mg_rooms m) + js_size (mg_staged m)"

definition mg_get :: "room_manager \<Rightarrow> string \<Rightarrow> room option" where
  "mg_get m roomId = js_get (mg_rooms m) roomId"

definition put_room :: "string \<Rightarrow> room \<Rightarrow> room_manager \<Rightarrow> room_manager" where
  "put_room roomId r m = m\<lparr>mg_rooms := js_set roomId r (mg_rooms m)\<rparr>"

definition drop_room :: "string \<Rightarrow> room_manager \<Rightarrow> room_manager" where
  "drop_room roomId m = m\<lparr>mg_rooms := js_delete roomId (mg_rooms m)\<rparr>"

definition mg_projections :: "room_manager \<Rightarrow> room_projection list" where
  "mg_projections m = map projection (js_values (mg_rooms m))"

definition sweep :: "room_env \<Rightarrow> room_manager \<Rightarrow> string list \<times> room_manager" where
  "sweep e m =
     (let rs = map (\<lambda>(k, r). (k, advance e r)) (mg_rooms m)
      in (map fst (filter (\<lambda>(_, r). room_state r = Closed) rs),
          m\<lparr>mg_rooms := js_delete_where (\<lambda>_ r. room_state r = Closed) rs\<rparr>))"

section \<open>Opening rooms\<close>

definition training_timing :: "room_timing \<Rightarrow> room_timing" where
  "training_timing t = t\<lparr>rt_countdownMs := 0, rt_startLock := (rt_startLock t)\<lparr>lo_joinLockMs := 0, lo_mapLockMs := 0\<rparr>\<rparr>"

definition create_options :: "manager_options \<Rightarrow> create_room \<Rightarrow> room_options" where
  "create_options o' s = \<lparr>op_id = cr_id s, op_roomCode = cr_roomCode s, op_matchId = cr_matchId s, op_name = cr_name s,
     op_password = cr_password s, op_mode = (case cr_mode s of None \<Rightarrow> MatchMode | Some md \<Rightarrow> md), op_capacity = cr_capacity s,
     op_mapId = cr_mapId s, op_ownerReservation = Some (cr_ownerReservation s), op_adopted = None, op_playedGames = 0,
     op_grantedMatchId = None, op_locked = False,
     op_minPlayersToStart = (if cr_mode s = Some TrainingMode then 1 else MIN_PLAYERS_TO_START),
     op_simulationHz = SIMULATION_HZ, op_rules = mo_rules o', op_hudGameplay = mo_hudGameplay o',
     op_timing = (if cr_mode s = Some TrainingMode then training_timing (mo_timing o') else mo_timing o')\<rparr>"

definition server_full :: "room_manager \<Rightarrow> bool" where
  "server_full m = (case mo_maxRooms (mg_options m) of None \<Rightarrow> False | Some k \<Rightarrow> k \<le> mg_size m)"

definition createRoom :: "room_env \<Rightarrow> create_room \<Rightarrow> room_manager \<Rightarrow> (control_error + room) \<times> room_manager" where
  "createRoom e s m0 =
     (let m = snd (sweep e m0) in
      if js_has (mg_rooms m) (cr_id s) \<or> js_has (mg_staged m) (cr_id s) then (Inl CtlInternal, m)
      else if server_full m then (Inl CtlServerFull, m)
      else if \<not> en_isKnownMap e (cr_mapId s) (case cr_mode s of None \<Rightarrow> MatchMode | Some md \<Rightarrow> md) then (Inl CtlInvalidMap, m)
      else if sr_expiresAt (cr_ownerReservation s) \<le> en_now e then (Inl CtlExpired, m)
      else case new_room e (create_options (mg_options m) s) of
             None \<Rightarrow> (Inl CtlInternal, m)
           | Some r \<Rightarrow> (Inr r, mg_emit MDirectoryChanged (put_room (cr_id s) r m)))"

text \<open>The payload of an adoption with its optional fields filled in by their defaults.\<close>

definition adopt_options :: "manager_options \<Rightarrow> adopt_room_payload \<Rightarrow> room_options" where
  "adopt_options o' p = \<lparr>op_id = ar_roomId p, op_roomCode = ar_roomCode p, op_matchId = ar_matchId p, op_name = ar_name p,
     op_password = ar_password p, op_mode = ar_mode p, op_capacity = ar_capacity p, op_mapId = ar_mapId p,
     op_ownerReservation = None, op_adopted = Some (ar_members p), op_playedGames = ar_playedGames p,
     op_grantedMatchId = ar_grantedMatchId p, op_locked = ar_locked p,
     op_minPlayersToStart = (if ar_mode p = TrainingMode then 1 else MIN_PLAYERS_TO_START),
     op_simulationHz = SIMULATION_HZ, op_rules = mo_rules o', op_hudGameplay = mo_hudGameplay o',
     op_timing = (if ar_mode p = TrainingMode then training_timing (mo_timing o') else mo_timing o')\<rparr>"

definition commitAdoptedRoom :: "room_env \<Rightarrow> room \<Rightarrow> room_manager \<Rightarrow> room_manager" where
  "commitAdoptedRoom e r m =
     (let k = op_id (rm_options r);
          m1 = m\<lparr>mg_staged := js_delete k (mg_staged m)\<rparr>
      in mg_emit MDirectoryChanged (put_room k (refreshHandOffGrace e r) m1))"

definition discardStagedRoom :: "string \<Rightarrow> room_manager \<Rightarrow> room_manager" where
  "discardStagedRoom roomId m = m\<lparr>mg_staged := js_delete roomId (mg_staged m)\<rparr>"

definition adoptRoom :: "room_env \<Rightarrow> adopt_room_payload \<Rightarrow> bool \<Rightarrow> room_manager \<Rightarrow> (control_error + room) \<times> room_manager" where
  "adoptRoom e p staged m0 =
     (let m = snd (sweep e m0) in
      if js_has (mg_rooms m) (ar_roomId p) \<or> js_has (mg_staged m) (ar_roomId p) then (Inl CtlAlreadyInRoom, m)
      else if server_full m then (Inl CtlServerFull, m)
      else if \<not> en_isKnownMap e (ar_mapId p) (ar_mode p) then (Inl CtlInvalidMap, m)
      else if ar_members p = [] then (Inl CtlInternal, m)
      else case new_room e (adopt_options (mg_options m) p) of
             None \<Rightarrow> (Inl CtlInternal, m)
           | Some r0 \<Rightarrow>
               let r = adoptMembers e (ar_members p) r0 in
               (Inr r, if staged then m\<lparr>mg_staged := js_set (ar_roomId p) r (mg_staged m)\<rparr> else commitAdoptedRoom e r m))"

section \<open>Commands of the control plane\<close>

text \<open>A command for a room: refused where there is none or it is being handed over.\<close>

definition in_room :: "string \<Rightarrow> (room \<Rightarrow> (control_error + 'a) \<times> room_manager) \<Rightarrow> room_manager \<Rightarrow> (control_error + 'a) \<times> room_manager" where
  "in_room roomId body m = (case js_get (mg_rooms m) roomId of
     None \<Rightarrow> (Inl CtlRoomNotFound, m)
   | Some r \<Rightarrow> if rm_handingOff r then (Inl CtlRoomLocked, m) else body r)"

definition mg_reserveJoin ::
  "room_env \<Rightarrow> seat_reservation \<Rightarrow> string option \<Rightarrow> room_manager \<Rightarrow> (control_error + int) \<times> room_manager" where
  "mg_reserveJoin e res password m = in_room (sr_roomId res) (\<lambda>r.
     case reserveJoin e res password r of
       (Some err, r1) \<Rightarrow> (Inl err, put_room (sr_roomId res) r1 m)
     | (None, r1) \<Rightarrow>
         (case (case getByUser (rm_roster r1) (sr_userId res) of Some mem \<Rightarrow> Some (lm_playerId mem)
                | None \<Rightarrow> reservedPlayerId r1 (sr_userId res)) of
            None \<Rightarrow> (Inl CtlInternal, put_room (sr_roomId res) r1 m)
          | Some pid \<Rightarrow> (Inr pid, put_room (sr_roomId res) r1 m))) m"

definition mg_reserveResume :: "room_env \<Rightarrow> seat_reservation \<Rightarrow> room_manager \<Rightarrow> (control_error + int) \<times> room_manager" where
  "mg_reserveResume e res m = in_room (sr_roomId res) (\<lambda>r.
     if \<not> sr_resume res \<or> sr_expiresAt res \<le> en_now e then (Inl CtlExpired, m)
     else case canReserveResume e (sr_userId res) r of
            (Some err, r1) \<Rightarrow> (Inl err, put_room (sr_roomId res) r1 m)
          | (None, r1) \<Rightarrow>
              (case getByUser (rm_roster r1) (sr_userId res) of
                 None \<Rightarrow> (Inl CtlNoGraceSlot, put_room (sr_roomId res) r1 m)
               | Some mem \<Rightarrow> (Inr (lm_playerId mem), put_room (sr_roomId res) r1 m))) m"

definition put_or_drop :: "string \<Rightarrow> room \<Rightarrow> room_manager \<Rightarrow> room_manager" where
  "put_or_drop roomId r m = (if room_state r = Closed then drop_room roomId m else put_room roomId r m)"

definition mg_releaseSeat :: "room_env \<Rightarrow> string \<Rightarrow> actor_id \<Rightarrow> room_manager \<Rightarrow> (control_error + unit) \<times> room_manager" where
  "mg_releaseSeat e roomId u m = in_room roomId (\<lambda>r.
     (Inr (), put_or_drop roomId (snd (releaseSeat e u ''released'' r)) m)) m"

definition mg_kickUser :: "room_env \<Rightarrow> string \<Rightarrow> actor_id \<Rightarrow> string \<Rightarrow> room_manager \<Rightarrow> (control_error + unit) \<times> room_manager" where
  "mg_kickUser e roomId u reason m = in_room roomId (\<lambda>r.
     (Inr (), put_or_drop roomId (snd (forceKick e u reason r)) m)) m"

definition mg_grantMatch :: "string \<Rightarrow> string \<Rightarrow> room_manager \<Rightarrow> (control_error + unit) \<times> room_manager" where
  "mg_grantMatch roomId matchId m = in_room roomId (\<lambda>r. (Inr (), put_room roomId (grantMatchId matchId r) m)) m"

definition mg_admitReservation :: "room_env \<Rightarrow> seat_reservation \<Rightarrow> room_manager \<Rightarrow> admitted_seat option \<times> room_manager" where
  "mg_admitReservation e res m = (case js_get (mg_rooms m) (sr_roomId res) of
     None \<Rightarrow> (None, m)
   | Some r \<Rightarrow> if rm_handingOff r then (None, m)
       else (case admitReservation e res r of (seat, r1) \<Rightarrow> (seat, put_room (sr_roomId res) r1 m)))"

section \<open>Connections\<close>

text \<open>\<open>None\<close> is the exception that makes the transport drop the connection.\<close>

definition onConnect :: "room_env \<Rightarrow> string \<Rightarrow> game_connection \<Rightarrow> room_manager \<Rightarrow> room_manager option" where
  "onConnect e roomId c m = (case js_get (mg_rooms m) roomId of
     None \<Rightarrow> None
   | Some r \<Rightarrow> if rm_handingOff r then None
       else (case bindConnection e c r of (False, _) \<Rightarrow> None | (True, r1) \<Rightarrow> Some (put_room roomId r1 m)))"

text \<open>The microtask of \<open>onConnect\<close>.\<close>

definition after_connect :: "string \<Rightarrow> game_connection \<Rightarrow> room_manager \<Rightarrow> room_manager" where
  "after_connect roomId c m =
     (if \<not> gc_resume c \<or> \<not> mo_resumes (mg_options m) then m
      else case js_get (mg_rooms m) roomId of
             None \<Rightarrow> m
           | Some r \<Rightarrow> (case getByUser (rm_roster r) (gc_userId c) of
               None \<Rightarrow> m
             | Some mem \<Rightarrow> if map_option gc_id (lm_connection mem) = Some (gc_id c)
                 then mg_emit (MResumed (gc_id c) (snapshotAccess r (gc_userId c))) m else m))"

definition onDisconnect :: "room_env \<Rightarrow> string \<Rightarrow> game_connection \<Rightarrow> room_manager \<Rightarrow> room_manager" where
  "onDisconnect e roomId c m = (case js_get (mg_rooms m) roomId of
     None \<Rightarrow> m
   | Some r \<Rightarrow> put_room roomId (disconnect e c r) m)"

definition room_signal ::
  "room_env \<Rightarrow> game_connection \<Rightarrow> room \<Rightarrow> violation_kind \<Rightarrow> severity \<Rightarrow> (string \<times> json) list \<Rightarrow> manager_effect" where
  "room_signal e c r kind severity detail = MViolation \<lparr>vs_kind = kind, vs_userId = gc_userId c,
     vs_roomId = Some (op_id (rm_options r)), vs_tick = Some (en_serverTick e), vs_severity = severity, vs_ruleVersion = 1,
     vs_detail = detail\<rparr>"

definition onInput :: "room_env \<Rightarrow> string \<Rightarrow> game_connection \<Rightarrow> byte list \<Rightarrow> room_manager \<Rightarrow> room_manager" where
  "onInput e roomId c frame m = (case js_get (mg_rooms m) roomId of
     None \<Rightarrow> m
   | Some r \<Rightarrow>
       (case decodeInput frame of
          Inl _ \<Rightarrow> mg_emit (room_signal e c r VBadLength MediumSeverity []) m
        | Inr input \<Rightarrow>
            let mem = getByUser (rm_roster r) (gc_userId c) in
            if room_state r \<noteq> Playing \<or> (case mem of None \<Rightarrow> True | Some x \<Rightarrow> lm_role x \<noteq> RolePlayer \<or> lm_spectatorEligible x)
            then mg_emit (room_signal e c r
              (if map_option lm_role mem = Some RoleSpectator then VSpectatorInput else VBadState) MediumSeverity []) m
            else put_room roomId (snd (acceptInput c input r)) m))"

section \<open>Messages\<close>

datatype routed_message = RoutedAuth | Routed client_message

text \<open>What a message leads to: an error, the room, effects of the manager, and whether the room is taken off the map.\<close>

type_synonym outcome = "error_code option \<times> room \<times> manager_effect list \<times> bool"

definition of_room :: "error_code option \<times> room \<Rightarrow> outcome" where
  "of_room x = (fst x, snd x, [], False)"

definition handle_setSlot :: "room_env \<Rightarrow> game_connection \<Rightarrow> int \<Rightarrow> room \<Rightarrow> outcome" where
  "handle_setSlot e c slot r = (case room_moveSlot e (gc_userId c) slot r of (res, r1) \<Rightarrow>
     (if res = None \<or> res = Some SlotOccupied then Some BadState
      else if res = Some SlotNotFound \<or> res = Some SlotOutOfRange then Some InvalidPayload else None, r1, [], False))"

definition handle_leave :: "room_env \<Rightarrow> game_connection \<Rightarrow> room \<Rightarrow> outcome" where
  "handle_leave e c r =
     (if room_state r \<noteq> Waiting \<and> room_state r \<noteq> PostGame \<and> room_state r \<noteq> Playing then (Some BadState, r, [], False)
      else let r1 = emit (CloseConnection (gc_id c) 1000 ''left'') (snd (releaseSeat e (gc_userId c) ''left'' r))
           in (None, r1, [], roster_size (rm_roster r1) = 0))"

definition handle_setLoadout :: "room_env \<Rightarrow> game_connection \<Rightarrow> string list \<Rightarrow> room \<Rightarrow> outcome" where
  "handle_setLoadout e c skills r = (case skills of
     [s] \<Rightarrow> (case List.find (\<lambda>k. skill_name k = s) LOADOUT_SKILLS of
               None \<Rightarrow> (Some InvalidPayload, r, [], False)
             | Some k \<Rightarrow> of_room (setLoadout e (gc_userId c) k r))
   | _ \<Rightarrow> (Some InvalidPayload, r, [], False))"

definition handle_useSkill :: "manager_env \<Rightarrow> game_connection \<Rightarrow> int \<Rightarrow> int option \<Rightarrow> room \<Rightarrow> outcome" where
  "handle_useSkill e c slot target r =
     (let mem = getByUser (rm_roster r) (gc_userId c); roomId = op_id (rm_options r) in
      if map_option lm_role mem = Some RoleSpectator
      then (Some BadState, r, [room_signal (me_room e) c r VSpectatorInput MediumSeverity [(''kind'', JString ''skill'')]], False)
      else case mem of
             None \<Rightarrow> (Some BadState, r, [], False)
           | Some x \<Rightarrow>
               if room_state r \<noteq> Playing \<or> \<not> lm_inCurrentGame x then (Some BadState, r, [], False)
               else (if me_skillSink e roomId (lm_playerId x) slot target then None else Some BadState, r,
                     [MSkill roomId (lm_playerId x) slot target], False))"

definition handle_respawn :: "manager_env \<Rightarrow> game_connection \<Rightarrow> room \<Rightarrow> outcome" where
  "handle_respawn e c r =
     (let roomId = op_id (rm_options r) in
      if roomMode r \<noteq> TrainingMode \<or> room_state r \<noteq> Playing then (Some BadState, r, [], False)
      else case getByUser (rm_roster r) (gc_userId c) of
             None \<Rightarrow> (Some BadState, r, [], False)
           | Some x \<Rightarrow>
               let asked = (case getByPlayerId (rm_roster r) (lm_playerId x) of None \<Rightarrow> False | Some y \<Rightarrow> lm_spectatorEligible y)
               in case reviveForTraining (me_room e) (lm_playerId x) (me_respawnSink e roomId (lm_playerId x)) r of
                    (b, r1) \<Rightarrow> (if b then None else Some BadState, r1,
                      if asked then [MRespawn roomId (lm_playerId x)] else [], False))"

definition handle_emoji :: "manager_env \<Rightarrow> game_connection \<Rightarrow> int \<Rightarrow> room \<Rightarrow> outcome" where
  "handle_emoji e c emojiId r =
     (let roomId = op_id (rm_options r) in
      case getByUser (rm_roster r) (gc_userId c) of
        None \<Rightarrow> (Some BadState, r, [], False)
      | Some x \<Rightarrow>
          if room_state r \<noteq> Playing \<or> \<not> lm_inCurrentGame x \<or> lm_role x \<noteq> RolePlayer \<or> lm_spectatorEligible x
          then (Some BadState, r, [], False)
          else if \<not> isEmojiId emojiId then (Some InvalidPayload, r, [], False)
          else (if me_emojiSink e roomId (lm_playerId x) emojiId then None else Some BadState, r,
                [MEmoji roomId (lm_playerId x) emojiId], False))"

fun handle_message :: "manager_env \<Rightarrow> game_connection \<Rightarrow> routed_message \<Rightarrow> room \<Rightarrow> outcome" where
  "handle_message e c RoutedAuth r = (Some BadState, r, [], False)"
| "handle_message e c (Routed (LobbySetMap mapId)) r = of_room (setMap (me_room e) (gc_userId c) mapId r)"
| "handle_message e c (Routed (LobbyKick pid)) r = of_room (kick (me_room e) (gc_userId c) pid r)"
| "handle_message e c (Routed (LobbyPassHost pid)) r = of_room (room_passHost (me_room e) (gc_userId c) pid r)"
| "handle_message e c (Routed (LobbySetLocked b)) r = of_room (setLocked (me_room e) (gc_userId c) b r)"
| "handle_message e c (Routed (LobbySetSlot slot)) r = handle_setSlot (me_room e) c slot r"
| "handle_message e c (Routed LobbyStart) r = of_room (requestStart (me_room e) (gc_userId c) r)"
| "handle_message e c (Routed LobbyLeave) r = handle_leave (me_room e) c r"
| "handle_message e c (Routed (LobbySpectate b)) r = of_room (setSpectating (me_room e) (gc_userId c) b r)"
| "handle_message e c (Routed (LobbySetControl k)) r = of_room (setControl (me_room e) (gc_userId c) k r)"
| "handle_message e c (Routed (LobbySetLoadout skills)) r = handle_setLoadout (me_room e) c skills r"
| "handle_message e c (Routed (GameUseSkill slot target)) r = handle_useSkill e c slot target r"
| "handle_message e c (Routed TrainingRespawn) r = handle_respawn e c r"
| "handle_message e c (Routed (GameEmoji k)) r = handle_emoji e c k r"
| "handle_message e c (Routed (Ping t)) r =
     (None, emit (Send (gc_id c) (PongMsg t (en_now (me_room e)) (en_serverTick (me_room e)))) r, [], False)"

definition onJson ::
  "manager_env \<Rightarrow> string \<Rightarrow> game_connection \<Rightarrow> routed_message \<Rightarrow> int option \<Rightarrow> room_manager \<Rightarrow> room_manager" where
  "onJson e roomId c msg requestId m = (case js_get (mg_rooms m) roomId of
     None \<Rightarrow> mg_emit (MSend (gc_id c) (ErrorMsg requestId RoomClosed False)) m
   | Some r \<Rightarrow>
       if rm_handingOff r then mg_emit (MSend (gc_id c) (ErrorMsg requestId BadState True)) m
       else case handle_message e c msg r of
              (err, r1, effects, gone) \<Rightarrow>
                let r2 = (case err of None \<Rightarrow> r1 | Some code \<Rightarrow> sendError c requestId code r1);
                    m1 = m\<lparr>mg_out := mg_out m @ effects\<rparr>
                in if gone then drop_room roomId m1 else put_room roomId r2 m1)"

definition mg_counts :: "room_manager \<Rightarrow> nat \<times> nat" where
  "mg_counts m = (let states = map room_state (js_values (mg_rooms m)) in
     (length (filter (\<lambda>s. s = Waiting) states), length (filter (\<lambda>s. s \<in> {Countdown, Playing, PostGame}) states)))"

end
