(* ===== verification/JsText.thy ===== *)
theory JsText
  imports JsMap
begin

text \<open>
  The conversions between numbers and text that the code calls: the decimal text of a template string,
  \<open>Number(text)\<close>, and the order in which \<open>Object.entries\<close> lists the keys of an object. Strings are lists of 8-bit
  characters, and a decimal literal denotes its exact real value.
\<close>

section \<open>Numbers to text\<close>

fun digits :: "nat \<Rightarrow> string" where
  "digits n = (if n < 10 then [char_of (48 + n)] else digits (n div 10) @ [char_of (48 + n mod 10)])"

declare digits.simps [simp del]

definition number_text :: "int \<Rightarrow> string" where
  "number_text n = (if n < 0 then ''-'' @ digits (nat (- n)) else digits (nat n))"

section \<open>Text to numbers\<close>

definition char_code :: "char \<Rightarrow> nat" where "char_code c = of_char c"

definition is_digit :: "char \<Rightarrow> bool" where
  "is_digit c \<longleftrightarrow> 48 \<le> char_code c \<and> char_code c \<le> 57"

text \<open>The value of a digit of any radix up to 16; 16 for any other character.\<close>

definition digit_value :: "char \<Rightarrow> nat" where
  "digit_value c =
     (let k = char_code c in
      if 48 \<le> k \<and> k \<le> 57 then k - 48
      else if 65 \<le> k \<and> k \<le> 70 then k - 55
      else if 97 \<le> k \<and> k \<le> 102 then k - 87
      else 16)"

definition digits_value :: "nat \<Rightarrow> string \<Rightarrow> nat" where
  "digits_value radix s = fold (\<lambda>c acc. acc * radix + digit_value c) s 0"

definition is_space :: "char \<Rightarrow> bool" where
  "is_space c \<longleftrightarrow> char_code c \<in> {9, 10, 11, 12, 13, 32, 160}"

definition trim :: "string \<Rightarrow> string" where
  "trim s = rev (dropWhile is_space (rev (dropWhile is_space s)))"

definition radix_number :: "nat \<Rightarrow> string \<Rightarrow> js_number" where
  "radix_number radix s =
     (if s \<noteq> [] \<and> list_all (\<lambda>c. digit_value c < radix) s then Fin (of_nat (digits_value radix s)) else NotANumber)"

text \<open>The exponent part: empty, or \<open>e\<close> or \<open>E\<close>, a sign, and digits.\<close>

definition exponent_part :: "string \<Rightarrow> int option" where
  "exponent_part s = (case s of
     [] \<Rightarrow> Some 0
   | c # r \<Rightarrow>
       if c \<noteq> CHR ''e'' \<and> c \<noteq> CHR ''E'' then None
       else let ds = (case r of d # r' \<Rightarrow> if d = CHR ''+'' \<or> d = CHR ''-'' then r' else r | [] \<Rightarrow> [])
            in if ds = [] \<or> \<not> list_all is_digit ds then None
               else Some (if hd r = CHR ''-'' then - int (digits_value 10 ds) else int (digits_value 10 ds)))"

definition unsigned_decimal :: "string \<Rightarrow> js_number" where
  "unsigned_decimal s =
     (if s = ''Infinity'' then PosInf
      else let whole = takeWhile is_digit s;
               r1 = dropWhile is_digit s;
               fraction = (case r1 of c # r \<Rightarrow> if c = CHR ''.'' then takeWhile is_digit r else [] | [] \<Rightarrow> []);
               r2 = (case r1 of c # r \<Rightarrow> if c = CHR ''.'' then dropWhile is_digit r else r1 | [] \<Rightarrow> [])
           in if whole = [] \<and> fraction = [] then NotANumber
              else case exponent_part r2 of
                     None \<Rightarrow> NotANumber
                   | Some e \<Rightarrow>
                       let mantissa = real (digits_value 10 (whole @ fraction)); k = e - int (length fraction)
                       in Fin (if 0 \<le> k then mantissa * 10 ^ nat k else mantissa / 10 ^ nat (- k)))"

fun js_negate :: "js_number \<Rightarrow> js_number" where
  "js_negate (Fin v) = Fin (- v)"
| "js_negate PosInf = NegInf"
| "js_negate NegInf = PosInf"
| "js_negate NotANumber = NotANumber"

definition js_Number :: "string \<Rightarrow> js_number" where
  "js_Number text' =
     (let s = trim text' in
      if s = [] then Fin 0
      else if hd s = CHR ''+'' then unsigned_decimal (tl s)
      else if hd s = CHR ''-'' then js_negate (unsigned_decimal (tl s))
      else if take 2 s \<in> {''0x'', ''0X''} then radix_number 16 (drop 2 s)
      else if take 2 s \<in> {''0o'', ''0O''} then radix_number 8 (drop 2 s)
      else if take 2 s \<in> {''0b'', ''0B''} then radix_number 2 (drop 2 s)
      else unsigned_decimal s)"

text \<open>A finite number without a fraction, as an integer.\<close>

definition integral :: "js_number \<Rightarrow> int option" where
  "integral n = (case n of Fin r \<Rightarrow> if r = of_int \<lfloor>r\<rfloor> then Some \<lfloor>r\<rfloor> else None | _ \<Rightarrow> None)"

section \<open>The order of keys\<close>

text \<open>
  \<open>Object.entries\<close>: first the keys that are array indices, ascending, then the others in the order of their
  insertion.
\<close>

definition array_index :: "string \<Rightarrow> nat option" where
  "array_index k =
     (let n = digits_value 10 k in
      if k \<noteq> [] \<and> list_all is_digit k \<and> digits n = k \<and> int n < 2 ^ 32 - 1 then Some n else None)"

definition object_entries :: "(string, 'v) js_map \<Rightarrow> (string \<times> 'v) list" where
  "object_entries m =
     sort_key (\<lambda>p. the (array_index (fst p))) (filter (\<lambda>p. array_index (fst p) \<noteq> None) m)
     @ filter (\<lambda>p. array_index (fst p) = None) m"

lemma set_object_entries [simp]: "set (object_entries m) = set m"
  by (auto simp: object_entries_def)

lemma distinct_entries: "js_ok m \<Longrightarrow> distinct (map fst (object_entries m))"
  unfolding js_ok_def object_entries_def
  by (auto simp: distinct_map inj_on_def)

section \<open>The text of a number reads back\<close>

lemma char_code_digit: "d < 10 \<Longrightarrow> char_code (char_of (48 + d)) = 48 + d"
  by (simp add: char_code_def)

lemma digit_char [simp]:
  assumes "d < 10"
  shows "is_digit (char_of (48 + d))" "digit_value (char_of (48 + d)) = d"
  using assms char_code_digit [OF assms] by (simp_all add: is_digit_def digit_value_def)

lemma digits_all: "list_all is_digit (digits n)"
  by (induction n rule: digits.induct) (subst digits.simps, simp)

lemma digits_not_empty [simp]: "digits n \<noteq> []"
  by (subst digits.simps) simp

lemma digits_value_digits [simp]: "digits_value 10 (digits n) = n"
proof (induction n rule: digits.induct)
  case (1 n)
  show ?case
  proof (cases "n < 10")
    case True
    then show ?thesis by (subst digits.simps) (simp add: digits_value_def)
  next
    case False
    then have "digits_value 10 (digits n) = digits_value 10 (digits (n div 10)) * 10 + n mod 10"
      by (subst digits.simps) (simp add: digits_value_def)
    then show ?thesis using 1 False by simp
  qed
qed

lemma digit_not_space: "is_digit c \<Longrightarrow> \<not> is_space c"
  by (auto simp: is_digit_def is_space_def)

lemma trim_digits: "list_all is_digit s \<Longrightarrow> trim s = s"
proof -
  have "dropWhile is_space xs = xs" if "list_all is_digit xs" for xs
    using that by (cases xs) (auto simp: digit_not_space)
  then show "list_all is_digit s \<Longrightarrow> trim s = s" by (simp add: trim_def)
qed

lemma js_Number_digits:
  assumes "list_all is_digit s" "s \<noteq> []"
  shows "js_Number s = Fin (of_nat (digits_value 10 s))"
proof -
  obtain c r where s: "s = c # r" using assms(2) by (cases s) auto
  have c: "is_digit c" and r: "list_all is_digit r" using assms(1) s by auto
  have d: "takeWhile is_digit s = s" "dropWhile is_digit s = []"
    using assms(1) by (auto simp: list_all_iff takeWhile_eq_all_conv)
  have no: "c \<noteq> CHR ''+''" "c \<noteq> CHR ''-''" "c \<noteq> CHR ''I''"
    using c by (auto simp: is_digit_def char_code_def)
  have inf: "s \<noteq> ''Infinity''" using s no(3) by auto
  have radix: "take 2 s \<notin> {''0x'', ''0X''}" "take 2 s \<notin> {''0o'', ''0O''}" "take 2 s \<notin> {''0b'', ''0B''}"
    using r s by (cases r; auto simp: is_digit_def char_code_def)+
  have u: "unsigned_decimal s = Fin (of_nat (digits_value 10 s))"
    using inf assms(2) by (simp add: unsigned_decimal_def d exponent_part_def)
  show ?thesis using u radix no s assms trim_digits [OF assms(1)] by (auto simp: js_Number_def Let_def)
qed

lemma js_Number_number_text: "0 \<le> n \<Longrightarrow> js_Number (number_text n) = Fin (of_int n)"
  by (simp add: number_text_def js_Number_digits digits_all)

end
