(* ===== verification/Redis.thy ===== *)
theory Redis
  imports JsText JsMap
begin

text \<open>
  \<open>server-match/src/redis/redis.service.ts\<close>: the commands that the services of the match server send to Redis, and the
  scripts that run there atomically. Redis itself is not part of the repository: its commands are the argument \<open>'db redis\<close> of
  every definition, and \<open>redis_laws\<close> states what its documentation promises of them: the strings stored under
  keys, with the milliseconds they have left. \<open>memory_redis\<close> is a store with these laws.
\<close>

section \<open>Commands\<close>

record 'db redis =
  rd_get :: "string \<Rightarrow> 'db \<Rightarrow> string option"
  rd_pttl :: "string \<Rightarrow> 'db \<Rightarrow> int"
  rd_put :: "string \<Rightarrow> string \<Rightarrow> int option \<Rightarrow> 'db \<Rightarrow> 'db"
  rd_remove :: "string \<Rightarrow> 'db \<Rightarrow> 'db"
  rd_incr :: "string \<Rightarrow> 'db \<Rightarrow> int option \<times> 'db"
  rd_expire :: "string \<Rightarrow> int \<Rightarrow> 'db \<Rightarrow> 'db"
  rd_elapse :: "int \<Rightarrow> 'db \<Rightarrow> 'db"

text \<open>A store as one looks at it: the value and the remaining life of each key.\<close>

type_synonym entry = "string \<times> int option"
type_synonym keyspace = "string \<Rightarrow> entry option"

definition aged :: "int \<Rightarrow> entry option \<Rightarrow> entry option" where
  "aged ms e = (case e of Some (v, Some left) \<Rightarrow> if left \<le> ms then None else Some (v, Some (left - ms)) | _ \<Rightarrow> e)"

definition pttl_of :: "entry option \<Rightarrow> int" where
  "pttl_of e = (case e of None \<Rightarrow> - 2 | Some (_, None) \<Rightarrow> - 1 | Some (_, Some left) \<Rightarrow> left)"

definition redis_laws :: "'db redis \<Rightarrow> ('db \<Rightarrow> keyspace) \<Rightarrow> bool" where
  "redis_laws R view \<longleftrightarrow>
     (\<forall>k db. rd_get R k db = map_option fst (view db k))
   \<and> (\<forall>k db. rd_pttl R k db = pttl_of (view db k))
   \<and> (\<forall>k v t db. view (rd_put R k v t db) = (view db)(k := Some (v, t)))
   \<and> (\<forall>k db. view (rd_remove R k db) = (view db)(k := None))
   \<and> (\<forall>k db. view db k = None \<longrightarrow> fst (rd_incr R k db) = Some 1 \<and> view (snd (rd_incr R k db)) = (view db)(k := Some (number_text 1, None)))
   \<and> (\<forall>k db n t. 0 \<le> n \<longrightarrow> view db k = Some (number_text n, t) \<longrightarrow>
        fst (rd_incr R k db) = Some (n + 1) \<and> view (snd (rd_incr R k db)) = (view db)(k := Some (number_text (n + 1), t)))
   \<and> (\<forall>k j db. j \<noteq> k \<longrightarrow> view (snd (rd_incr R k db)) j = view db j)
   \<and> (\<forall>k s db. view (rd_expire R k s db) = (view db)(k := map_option (\<lambda>(v, _). (v, Some (s * 1000))) (view db k)))
   \<and> (\<forall>ms db. 0 \<le> ms \<longrightarrow> view (rd_elapse R ms db) = (\<lambda>k. aged ms (view db k)))"

section \<open>The service\<close>

definition redis_set :: "'db redis \<Rightarrow> string \<Rightarrow> string \<Rightarrow> int option \<Rightarrow> 'db \<Rightarrow> 'db" where
  "redis_set R key val ttlSeconds db =
     (case ttlSeconds of
        Some s \<Rightarrow> if s \<noteq> 0 then rd_put R key val (Some (s * 1000)) db else rd_put R key val None db
      | None \<Rightarrow> rd_put R key val None db)"

definition redis_get :: "'db redis \<Rightarrow> string \<Rightarrow> 'db \<Rightarrow> string option" where
  "redis_get R key db = rd_get R key db"

definition redis_del :: "'db redis \<Rightarrow> string \<Rightarrow> 'db \<Rightarrow> 'db" where
  "redis_del R key db = rd_remove R key db"

definition setIfAbsent :: "'db redis \<Rightarrow> string \<Rightarrow> string \<Rightarrow> int \<Rightarrow> 'db \<Rightarrow> bool \<times> 'db" where
  "setIfAbsent R key val ttlSeconds db =
     (if rd_get R key db = None then (True, rd_put R key val (Some (ttlSeconds * 1000)) db) else (False, db))"

definition compareAndDelete :: "'db redis \<Rightarrow> string \<Rightarrow> string \<Rightarrow> 'db \<Rightarrow> bool \<times> 'db" where
  "compareAndDelete R key expected db =
     (if rd_get R key db = Some expected then (True, rd_remove R key db) else (False, db))"

definition compareAndSetWithTtl :: "'db redis \<Rightarrow> string \<Rightarrow> string \<Rightarrow> string \<Rightarrow> int \<Rightarrow> 'db \<Rightarrow> bool \<times> 'db" where
  "compareAndSetWithTtl R key expected val ttlSeconds db =
     (if rd_get R key db = Some expected then (True, rd_put R key val (Some (ttlSeconds * 1000)) db) else (False, db))"

definition compareAndClaim :: "'db redis \<Rightarrow> string \<Rightarrow> string \<Rightarrow> string \<Rightarrow> string \<Rightarrow> int \<Rightarrow> 'db \<Rightarrow> int \<times> 'db" where
  "compareAndClaim R key expected claimKey claimValue claimTtlSeconds db =
     (if rd_get R claimKey db \<noteq> None then (- 2, db)
      else if rd_get R key db \<noteq> Some expected then (- 1, db)
      else (rd_pttl R key db, rd_put R claimKey claimValue (Some (claimTtlSeconds * 1000)) (rd_remove R key db)))"

definition releaseClaim :: "'db redis \<Rightarrow> string \<Rightarrow> string \<Rightarrow> string \<Rightarrow> string \<Rightarrow> int \<Rightarrow> 'db \<Rightarrow> bool \<times> 'db" where
  "releaseClaim R claimKey claimValue key val ttlMs db =
     (if rd_get R claimKey db \<noteq> Some claimValue then (False, db)
      else (True, rd_put R key val (Some (max 1 ttlMs)) (rd_remove R claimKey db)))"

definition ttlMilliseconds :: "'db redis \<Rightarrow> string \<Rightarrow> 'db \<Rightarrow> int" where
  "ttlMilliseconds R key db = rd_pttl R key db"

text \<open>\<open>None\<close> is the error of \<open>INCR\<close> on a value that is not a number.\<close>

definition incrementWithTtl :: "'db redis \<Rightarrow> string \<Rightarrow> int \<Rightarrow> 'db \<Rightarrow> int option \<times> 'db" where
  "incrementWithTtl R key ttlSeconds db =
     (case rd_incr R key db of (n, db') \<Rightarrow> (n, if n = Some 1 then rd_expire R key ttlSeconds db' else db'))"

section \<open>What the documentation gives\<close>

named_theorems redis_simps \<open>the service seen through the view of the store\<close>

lemma redis_lawsD:
  assumes "redis_laws R view"
  shows "rd_get R k db = map_option fst (view db k)"
    and "rd_pttl R k db = pttl_of (view db k)"
    and "view (rd_put R k v t db) = (view db)(k := Some (v, t))"
    and "view (rd_remove R k db) = (view db)(k := None)"
    and "view db k = None \<Longrightarrow> rd_incr R k db = (Some 1, db') \<Longrightarrow> view db' = (view db)(k := Some (number_text 1, None))"
    and "view (rd_expire R k s db) = (view db)(k := map_option (\<lambda>(v, _). (v, Some (s * 1000))) (view db k))"
    and "0 \<le> ms \<Longrightarrow> view (rd_elapse R ms db) = (\<lambda>k. aged ms (view db k))"
    and "j \<noteq> k \<Longrightarrow> view (snd (rd_incr R k db)) j = view db j"
  using assms by (simp_all add: redis_laws_def) (metis snd_conv)

text \<open>The script of \<open>incrementWithTtl\<close>: the first increment starts the life of the counter, later ones keep it.\<close>

lemma increment_first:
  assumes "redis_laws R view" and "view db k = None"
  shows "\<exists>db'. incrementWithTtl R k s db = (Some 1, db') \<and> view db' = (view db)(k := Some (number_text 1, Some (s * 1000)))"
proof -
  obtain n db' where i: "rd_incr R k db = (n, db')" by fastforce
  have "n = Some 1" "view db' = (view db)(k := Some (number_text 1, None))" using assms i unfolding redis_laws_def by (metis fst_conv snd_conv)+
  then show ?thesis using redis_lawsD(6) [OF assms(1)] by (simp add: incrementWithTtl_def i)
qed

lemma increment_next:
  assumes "redis_laws R view" and "view db k = Some (number_text n, t)" and "0 < n"
  shows "\<exists>db'. incrementWithTtl R k s db = (Some (n + 1), db') \<and> view db' = (view db)(k := Some (number_text (n + 1), t))"
proof -
  obtain m db' where i: "rd_incr R k db = (m, db')" by fastforce
  have "m = Some (n + 1)" "view db' = (view db)(k := Some (number_text (n + 1), t))" using assms i unfolding redis_laws_def by (metis fst_conv snd_conv less_imp_le)+
  then show ?thesis using assms(3) by (simp add: incrementWithTtl_def i)
qed

lemma increment_other:
  assumes "redis_laws R view" and "incrementWithTtl R k s db = (n, db')" and "j \<noteq> k"
  shows "view db' j = view db j"
proof -
  obtain m db1 where i: "rd_incr R k db = (m, db1)" by fastforce
  have "view db1 j = view db j" using redis_lawsD(8) [OF assms(1) assms(3), of db] by (simp add: i)
  then show ?thesis using assms(2,3) redis_lawsD(6) [OF assms(1)] by (auto simp: incrementWithTtl_def i split: if_splits)
qed

lemma increment_frame: "redis_laws R view \<Longrightarrow> j \<noteq> k \<Longrightarrow> view (snd (incrementWithTtl R k s db)) j = view db j"
  by (metis increment_other prod.collapse)

section \<open>Values that are used once\<close>

text \<open>
  What a one-time value is: a key that is set, taken with \<open>compareAndDelete\<close>, and otherwise only disappears. The services that rely
  on this are shown to be such machines for their keys.
\<close>

definition live :: "entry option \<Rightarrow> nat" where
  "live e = (if e = None then 0 else 1)"

lemma live_simps [simp]: "live None = 0" "live (Some x) = 1" "live y \<le> 1"
  by (simp_all add: live_def)

lemma live_aged: "live (aged ms x) \<le> live x"
  by (auto simp: live_def aged_def)

inductive token_step :: "'db redis \<Rightarrow> ('db \<Rightarrow> keyspace) \<Rightarrow> string \<Rightarrow> 'db \<times> nat \<times> nat \<Rightarrow> 'db \<times> nat \<times> nat \<Rightarrow> bool"
  for R view key where
  put: "token_step R view key (db, p, t) (redis_set R key v s db, p + 1, t)"
| take: "compareAndDelete R key v db = (ok, db') \<Longrightarrow> token_step R view key (db, p, t) (db', p, t + (if ok then 1 else 0))"
| fade: "live (view db' key) \<le> live (view db key) \<Longrightarrow> token_step R view key (db, p, t) (db', p, t)"

lemma token_step_bound:
  assumes R: "redis_laws R view" and "token_step R view key (db, p, t) (db', p', t')" and "t + live (view db key) \<le> p"
  shows "t' + live (view db' key) \<le> p'"
  using assms(2)
proof cases
  case (put v s)
  then show ?thesis using assms(3) live_simps(3) [of "view db' key"] by simp
next
  case (take v ok)
  then show ?thesis using assms(3) redis_lawsD(1,4) [OF R] by (auto simp: compareAndDelete_def split: if_splits)
next
  case fade
  then show ?thesis using assms(3) by simp
qed

lemma token_run_bound:
  assumes R: "redis_laws R view"
  shows "(token_step R view key)\<^sup>*\<^sup>* (db, p, t) (db', p', t') \<Longrightarrow> t + live (view db key) \<le> p \<Longrightarrow> t' + live (view db' key) \<le> p'"
proof (induction "(db', p', t')" arbitrary: db' p' t' rule: rtranclp_induct)
  case (step y)
  obtain db1 p1 t1 where y: "y = (db1, p1, t1)" by (metis prod_cases3)
  show ?case using token_step_bound [OF R step(2) [unfolded y]] step(3) [OF y step(4)] by simp
qed simp

section \<open>A store with these laws\<close>

text \<open>It reads the numbers of its counters back from the text they are stored as.\<close>

definition counter_value :: "string \<Rightarrow> int option" where
  "counter_value v = integral (js_Number v)"

definition memory_redis :: "keyspace redis" where
  "memory_redis = \<lparr>
     rd_get = (\<lambda>k m. map_option fst (m k)),
     rd_pttl = (\<lambda>k m. pttl_of (m k)),
     rd_put = (\<lambda>k v t m. m(k := Some (v, t))),
     rd_remove = (\<lambda>k m. m(k := None)),
     rd_incr = (\<lambda>k m. case m k of
         None \<Rightarrow> (Some 1, m(k := Some (number_text 1, None)))
       | Some (v, t) \<Rightarrow> (case counter_value v of
           Some n \<Rightarrow> (Some (n + 1), m(k := Some (number_text (n + 1), t)))
         | None \<Rightarrow> (None, m))),
     rd_expire = (\<lambda>k s m. m(k := map_option (\<lambda>(v, _). (v, Some (s * 1000))) (m k))),
     rd_elapse = (\<lambda>ms m k. aged ms (m k))\<rparr>"

lemma counter_value_text: "0 \<le> n \<Longrightarrow> counter_value (number_text n) = Some n"
  by (simp add: counter_value_def js_Number_number_text integral_def)

lemma memory_redis_laws: "redis_laws memory_redis (\<lambda>m. m)"
  by (simp add: redis_laws_def memory_redis_def counter_value_text split: option.split)

end
