(* ===== verification/RateLimit.thy ===== *)
theory RateLimit
  imports Connections JsText
begin

text \<open>
  Fixed-window rate limits and cooldowns: \<open>server-game/src/gateway/rate-limit.ts\<close>. Times, limits and windows are
  integers; the clock is an argument, read once in a call as the code does. Keys are the strings that the code builds.
\<close>

section \<open>Model\<close>

record rate_subject =
  rs_connectionId :: int
  rs_ip :: string
  rs_userId :: "actor_id option"

record rate_decision =
  rd_allowed :: bool
  rd_persistent :: bool
  rd_abusive :: bool

datatype rate_scope = ConnectionScope | IpScope | UserScope

record rate_policy =
  rp_scopes :: "rate_scope list option"
  rp_abusiveMultiplier :: "int option"
  rp_abusiveWindows :: "int option"

record bucket =
  bk_window :: int
  bk_expiresAt :: int
  bk_count :: int
  bk_violated :: bool
  bk_violationStreak :: int
  bk_abusive :: bool
  bk_abusiveStreak :: int

record rate_limiter =
  rl_buckets :: "(string, bucket) js_map"
  rl_cooldowns :: "(string, int) js_map"
  rl_nextSweepAt :: int

definition RATE_SWEEP_INTERVAL_MS :: int where "RATE_SWEEP_INTERVAL_MS = 5000"

definition new_limiter :: rate_limiter where
  "new_limiter = \<lparr>rl_buckets = js_empty, rl_cooldowns = js_empty, rl_nextSweepAt = 0\<rparr>"

text \<open>\<open>a ?? d\<close>.\<close>

definition or_default :: "'a option \<Rightarrow> 'a \<Rightarrow> 'a" where
  "or_default a d = (case a of None \<Rightarrow> d | Some v \<Rightarrow> v)"

fun actor_text :: "actor_id \<Rightarrow> string" where
  "actor_text (Account n) = number_text n"
| "actor_text (Guest g) = g"

definition subjectKeys :: "string \<Rightarrow> rate_subject \<Rightarrow> rate_scope list \<Rightarrow> string list" where
  "subjectKeys rule s scopes =
     (if ConnectionScope \<in> set scopes then [rule @ '':connection:'' @ number_text (rs_connectionId s)] else [])
     @ (if IpScope \<in> set scopes then [rule @ '':ip:'' @ rs_ip s] else [])
     @ (case rs_userId s of
          None \<Rightarrow> []
        | Some u \<Rightarrow> if UserScope \<in> set scopes then [rule @ '':user:'' @ actor_text u] else [])"

definition all_scopes :: "rate_scope list" where
  "all_scopes = [ConnectionScope, IpScope, UserScope]"

definition rate_sweep :: "int \<Rightarrow> rate_limiter \<Rightarrow> rate_limiter" where
  "rate_sweep now l =
     (if now < rl_nextSweepAt l then l
      else l\<lparr>rl_nextSweepAt := now + RATE_SWEEP_INTERVAL_MS,
             rl_buckets := js_delete_where (\<lambda>_ b. bk_expiresAt b \<le> now) (rl_buckets l),
             rl_cooldowns := js_delete_where (\<lambda>_ at'. at' \<le> now) (rl_cooldowns l)\<rparr>)"

text \<open>The bucket of the current window, taken over or begun.\<close>

definition bucket_for :: "int \<Rightarrow> int \<Rightarrow> bucket option \<Rightarrow> bucket" where
  "bucket_for window windowMs previous =
     (case previous of
        None \<Rightarrow> \<lparr>bk_window = window, bk_expiresAt = (window + 2) * windowMs, bk_count = 0, bk_violated = False,
           bk_violationStreak = 0, bk_abusive = False, bk_abusiveStreak = 0\<rparr>
      | Some b \<Rightarrow>
          if bk_window b = window then b
          else \<lparr>bk_window = window, bk_expiresAt = (window + 2) * windowMs, bk_count = 0, bk_violated = False,
            bk_violationStreak = (if bk_violated b \<and> bk_window b = window - 1 then bk_violationStreak b else 0),
            bk_abusive = False,
            bk_abusiveStreak = (if bk_abusive b \<and> bk_window b = window - 1 then bk_abusiveStreak b else 0)\<rparr>)"

text \<open>\<open>bucket.count += 1\<close> and what follows from passing the limits.\<close>

definition bump :: "int \<Rightarrow> int \<Rightarrow> bucket \<Rightarrow> bucket" where
  "bump limit mult b0 =
     (let b1 = b0\<lparr>bk_count := bk_count b0 + 1\<rparr>;
          b2 = (if limit < bk_count b1 \<and> \<not> bk_violated b1
                then b1\<lparr>bk_violated := True, bk_violationStreak := bk_violationStreak b1 + 1\<rparr> else b1)
      in if limit * mult < bk_count b2 \<and> \<not> bk_abusive b2
         then b2\<lparr>bk_abusive := True, bk_abusiveStreak := bk_abusiveStreak b2 + 1\<rparr> else b2)"

definition check_key ::
  "int \<Rightarrow> int \<Rightarrow> int \<Rightarrow> int \<Rightarrow> int \<Rightarrow> string \<Rightarrow> rate_decision \<times> (string, bucket) js_map \<Rightarrow> rate_decision \<times> (string, bucket) js_map" where
  "check_key window windowMs limit mult abusiveWindows key x =
     (case x of (d, m) \<Rightarrow>
       let b = bump limit mult (bucket_for window windowMs (js_get m key)) in
       (\<lparr>rd_allowed = (rd_allowed d \<and> bk_count b \<le> limit),
         rd_persistent = (rd_persistent d \<or> limit < bk_count b \<and> 3 \<le> bk_violationStreak b),
         rd_abusive = (rd_abusive d \<or> limit * mult < bk_count b \<and> abusiveWindows \<le> bk_abusiveStreak b)\<rparr>,
        js_set key b m))"

definition rate_check ::
  "int \<Rightarrow> string \<Rightarrow> rate_subject \<Rightarrow> int \<Rightarrow> int \<Rightarrow> rate_policy \<Rightarrow> rate_limiter \<Rightarrow> rate_decision \<times> rate_limiter" where
  "rate_check now rule subject limit windowMs policy l0 =
     (let l = rate_sweep now l0;
          (d, m) = fold (check_key (now div windowMs) windowMs limit (or_default (rp_abusiveMultiplier policy) 5)
                          (or_default (rp_abusiveWindows policy) 5))
                    (subjectKeys rule subject (or_default (rp_scopes policy) all_scopes))
                    (\<lparr>rd_allowed = True, rd_persistent = False, rd_abusive = False\<rparr>, rl_buckets l)
      in (d, l\<lparr>rl_buckets := m\<rparr>))"

definition rate_cooldown ::
  "int \<Rightarrow> string \<Rightarrow> rate_subject \<Rightarrow> int \<Rightarrow> rate_scope list \<Rightarrow> rate_limiter \<Rightarrow> rate_decision \<times> rate_limiter" where
  "rate_cooldown now rule subject cooldownMs scopes l0 =
     (let l = rate_sweep now l0;
          keys = subjectKeys rule subject scopes;
          allowed = list_all (\<lambda>key. or_default (js_get (rl_cooldowns l) key) 0 \<le> now) keys
      in (\<lparr>rd_allowed = allowed, rd_persistent = False, rd_abusive = False\<rparr>,
          if allowed then l\<lparr>rl_cooldowns := fold (\<lambda>key. js_set key (now + cooldownMs)) keys (rl_cooldowns l)\<rparr> else l))"

definition limiter_size :: "rate_limiter \<Rightarrow> nat" where
  "limiter_size l = js_size (rl_buckets l) + js_size (rl_cooldowns l)"

section \<open>Lemmas\<close>

lemma subjectKeys_distinct: "distinct (subjectKeys rule s scopes)"
  by (simp add: subjectKeys_def split: option.split)

lemma bump_simps:
  "bk_window (bump limit mult b) = bk_window b" "bk_expiresAt (bump limit mult b) = bk_expiresAt b"
  "bk_count (bump limit mult b) = bk_count b + 1"
  by (simp_all add: bump_def Let_def)

lemma bucket_for_simps:
  "bk_window (bucket_for w W p) = w"
  "bk_count (bucket_for w W p) = (case p of None \<Rightarrow> 0 | Some b \<Rightarrow> if bk_window b = w then bk_count b else 0)"
  by (simp_all add: bucket_for_def split: option.split)

lemma check_fold:
  assumes "distinct keys"
  shows "(case fold (check_key w W limit mult aw) keys (d, m) of (d', m') \<Rightarrow>
     (rd_allowed d' \<longleftrightarrow> rd_allowed d \<and> (\<forall>k \<in> set keys. bk_count (bucket_for w W (js_get m k)) + 1 \<le> limit))
     \<and> (\<forall>k. js_get m' k = (if k \<in> set keys then Some (bump limit mult (bucket_for w W (js_get m k))) else js_get m k))
     \<and> (js_ok m \<longrightarrow> js_ok m'))"
  using assms
proof (induction keys arbitrary: d m)
  case (Cons key keys)
  let ?b = "bump limit mult (bucket_for w W (js_get m key))"
  let ?d = "fst (check_key w W limit mult aw key (d, m))"
  obtain d' m' where r: "fold (check_key w W limit mult aw) keys (?d, js_set key ?b m) = (d', m')" by fastforce
  have st: "check_key w W limit mult aw key (d, m) = (?d, js_set key ?b m)"
    "rd_allowed ?d \<longleftrightarrow> rd_allowed d \<and> bk_count (bucket_for w W (js_get m key)) + 1 \<le> limit"
    by (simp_all add: check_key_def Let_def bump_simps)
  have off: "key \<notin> set keys" using Cons.prems by simp
  have g: "js_get (js_set key ?b m) k = js_get m k" if "k \<in> set keys" for k using that off by auto
  from Cons.IH [of ?d "js_set key ?b m"] Cons.prems r st off g show ?case
    by auto
qed simp

section \<open>A history of the limiter\<close>

datatype rate_call =
  RcCheck int string rate_subject int int rate_policy
  | RcCooldown int string rate_subject int "rate_scope list"

fun rate_time :: "rate_call \<Rightarrow> int" where
  "rate_time (RcCheck now _ _ _ _ _) = now"
| "rate_time (RcCooldown now _ _ _ _) = now"

text \<open>What is remembered of a call: the key was counted at a time, or is blocked until a time.\<close>

datatype rate_event = Counted string int | BlockedUntil string int

fun rate_step :: "rate_call \<Rightarrow> rate_limiter \<times> rate_event list \<Rightarrow> rate_limiter \<times> rate_event list" where
  "rate_step (RcCheck now rule subject limit windowMs policy) (l, h) =
     (snd (rate_check now rule subject limit windowMs policy l),
      h @ map (\<lambda>k. Counted k now) (subjectKeys rule subject (or_default (rp_scopes policy) all_scopes)))"
| "rate_step (RcCooldown now rule subject cooldownMs scopes) (l, h) =
     (case rate_cooldown now rule subject cooldownMs scopes l of (d, l') \<Rightarrow>
        (l', if rd_allowed d then h @ map (\<lambda>k. BlockedUntil k (now + cooldownMs)) (subjectKeys rule subject scopes) else h))"

definition counted_in :: "string \<Rightarrow> int \<Rightarrow> int \<Rightarrow> rate_event \<Rightarrow> bool" where
  "counted_in k windowMs w e = (case e of Counted k' t \<Rightarrow> k' = k \<and> t div windowMs = w | BlockedUntil _ _ \<Rightarrow> False)"

definition counts :: "rate_event list \<Rightarrow> string \<Rightarrow> int \<Rightarrow> int \<Rightarrow> int" where
  "counts h k windowMs w = int (length (filter (counted_in k windowMs w) h))"

definition free_at :: "rate_event list \<Rightarrow> string \<Rightarrow> int \<Rightarrow> bool" where
  "free_at h k now = list_all (\<lambda>e. case e of BlockedUntil k' t \<Rightarrow> k' = k \<longrightarrow> t \<le> now | Counted _ _ \<Rightarrow> True) h"

text \<open>The calls whose key \<open>k\<close> is counted use the window \<open>windowMs\<close>.\<close>

definition uses_window :: "string \<Rightarrow> int \<Rightarrow> rate_call \<Rightarrow> bool" where
  "uses_window k windowMs c = (case c of
     RcCheck _ rule subject _ windowMs' policy \<Rightarrow>
       k \<in> set (subjectKeys rule subject (or_default (rp_scopes policy) all_scopes)) \<longrightarrow> windowMs' = windowMs
   | RcCooldown _ _ _ _ _ \<Rightarrow> True)"

definition limiter_ok :: "rate_limiter \<Rightarrow> bool" where
  "limiter_ok l \<longleftrightarrow> js_ok (rl_buckets l) \<and> js_ok (rl_cooldowns l)"

definition bucket_count :: "rate_limiter \<Rightarrow> string \<Rightarrow> int \<Rightarrow> int" where
  "bucket_count l k w = bk_count (bucket_for w 0 (js_get (rl_buckets l) k))"

text \<open>At time \<open>t\<close> the bucket of \<open>k\<close> counts what the history counts, now and in later windows.\<close>

definition in_step :: "string \<Rightarrow> int \<Rightarrow> int \<Rightarrow> rate_limiter \<times> rate_event list \<Rightarrow> bool" where
  "in_step k windowMs t x \<longleftrightarrow> (case x of (l, h) \<Rightarrow>
     limiter_ok l
     \<and> (\<forall>w \<ge> t div windowMs. bucket_count l k w = counts h k windowMs w)
     \<and> (\<forall>w > t div windowMs. counts h k windowMs w = 0)
     \<and> (\<forall>b. js_get (rl_buckets l) k = Some b \<longrightarrow> bk_expiresAt b = (bk_window b + 2) * windowMs)
     \<and> (\<forall>t' \<ge> t. or_default (js_get (rl_cooldowns l) k) 0 \<le> t' \<longleftrightarrow> free_at h k t'))"

lemma rate_sweep_ok: "limiter_ok l \<Longrightarrow> limiter_ok (rate_sweep now l)"
  by (simp add: limiter_ok_def rate_sweep_def)

lemma bucket_count_window: "bk_count (bucket_for w W p) = bk_count (bucket_for w 0 p)"
  by (simp add: bucket_for_simps)

lemma sweep_in_step:
  assumes "in_step k W t (l, h)" "t \<le> now" "0 < W" "0 \<le> t"
  shows "in_step k W now (rate_sweep now l, h)"
proof -
  have ok: "limiter_ok l" and cnt: "\<And>w. t div W \<le> w \<Longrightarrow> bucket_count l k w = counts h k W w"
    and later: "\<And>w. t div W < w \<Longrightarrow> counts h k W w = 0"
    and ex: "\<And>b. js_get (rl_buckets l) k = Some b \<Longrightarrow> bk_expiresAt b = (bk_window b + 2) * W"
    and fr: "\<And>t'. t \<le> t' \<Longrightarrow> or_default (js_get (rl_cooldowns l) k) 0 \<le> t' \<longleftrightarrow> free_at h k t'"
    using assms(1) by (auto simp: in_step_def)
  have mono: "t div W \<le> now div W" using assms(2,3) by (simp add: zdiv_mono1)
  have g: "js_get (rl_buckets (rate_sweep now l)) k =
      (case js_get (rl_buckets l) k of None \<Rightarrow> None
       | Some b \<Rightarrow> if rl_nextSweepAt l \<le> now \<and> bk_expiresAt b \<le> now then None else Some b)"
    using ok by (auto simp: limiter_ok_def rate_sweep_def js_get_delete_where split: option.split)
  have gone: "bk_window b < now div W" if "js_get (rl_buckets l) k = Some b" "bk_expiresAt b \<le> now" for b
  proof -
    have "(bk_window b + 2) * W \<le> now" using ex [OF that(1)] that(2) by simp
    then have "bk_window b + 2 \<le> now div W" using assms(3) by (metis nonzero_mult_div_cancel_right order_less_irrefl zdiv_mono1)
    then show ?thesis by simp
  qed
  have "bucket_count (rate_sweep now l) k w = counts h k W w" if "now div W \<le> w" for w
    unfolding cnt [OF order_trans [OF mono that], symmetric]
    using gone that by (auto simp: bucket_count_def g bucket_for_simps split: option.split)
  moreover have "or_default (js_get (rl_cooldowns (rate_sweep now l)) k) 0 \<le> t' \<longleftrightarrow> free_at h k t'" if "now \<le> t'" for t'
    using fr [of t'] that assms(2,4) ok
    by (auto simp: rate_sweep_def limiter_ok_def js_get_delete_where or_default_def split: option.splits)
  moreover have "bk_expiresAt b = (bk_window b + 2) * W" if "js_get (rl_buckets (rate_sweep now l)) k = Some b" for b
    using that ex by (auto simp: g split: option.splits if_splits)
  ultimately show ?thesis using rate_sweep_ok [OF ok] later mono by (simp add: in_step_def)
qed

lemma get_fold_set: "js_get (fold (\<lambda>k. js_set k v) keys m) k' = (if k' \<in> set keys then Some v else js_get m k')"
  by (induction keys arbitrary: m) auto

lemma ok_fold_set: "js_ok m \<Longrightarrow> js_ok (fold (\<lambda>k. js_set k v) keys m)"
  by (induction keys arbitrary: m) auto

lemma counts_append: "counts (h @ h') k W w = counts h k W w + counts h' k W w"
  by (simp add: counts_def)

lemma counts_events:
  assumes "distinct keys"
  shows "counts (map (\<lambda>k. Counted k t) keys) k W w = (if k \<in> set keys \<and> t div W = w then 1 else 0)"
    "counts (map (\<lambda>k. BlockedUntil k t) keys) k W w = 0"
proof -
  have "counts (map (\<lambda>k. Counted k t) keys) k W w = int (length (filter (\<lambda>k'. k' = k \<and> t div W = w) keys))"
    by (simp add: counts_def filter_map comp_def counted_in_def)
  also have "\<dots> = (if k \<in> set keys \<and> t div W = w then 1 else 0)"
    using assms by (induction keys) (auto simp: filter_empty_conv)
  finally show "counts (map (\<lambda>k. Counted k t) keys) k W w = (if k \<in> set keys \<and> t div W = w then 1 else 0)" .
  show "counts (map (\<lambda>k. BlockedUntil k t) keys) k W w = 0"
    by (simp add: counts_def filter_map comp_def counted_in_def)
qed

lemma free_at_append: "free_at (h @ h') k t \<longleftrightarrow> free_at h k t \<and> free_at h' k t"
  by (simp add: free_at_def)

lemma free_at_events:
  "free_at (map (\<lambda>k. Counted k u) keys) k t"
  "free_at (map (\<lambda>k. BlockedUntil k u) keys) k t \<longleftrightarrow> (k \<in> set keys \<longrightarrow> u \<le> t)"
  by (auto simp: free_at_def list_all_iff)

lemma free_at_mono: "free_at h k t \<Longrightarrow> t \<le> t' \<Longrightarrow> free_at h k t'"
  by (auto simp: free_at_def list_all_iff split: rate_event.splits)

lemma check_in_step:
  assumes inv: "in_step k W t (l, h)" and time: "t \<le> now" "0 < W" "0 \<le> t"
    and use: "uses_window k W (RcCheck now rule subject limit windowMs policy)"
  shows "in_step k W now (rate_step (RcCheck now rule subject limit windowMs policy) (l, h))"
proof -
  let ?keys = "subjectKeys rule subject (or_default (rp_scopes policy) all_scopes)"
  let ?l = "rate_sweep now l" and ?w = "now div windowMs" and ?mult = "or_default (rp_abusiveMultiplier policy) 5"
  let ?h = "h @ map (\<lambda>k. Counted k now) ?keys"
  have D: "in_step k W now (?l, h)" by (rule sweep_in_step [OF inv time])
  obtain d m where r: "fold (check_key ?w windowMs limit ?mult (or_default (rp_abusiveWindows policy) 5)) ?keys
      (\<lparr>rd_allowed = True, rd_persistent = False, rd_abusive = False\<rparr>, rl_buckets ?l) = (d, m)" by fastforce
  have m: "js_get m k = (if k \<in> set ?keys then Some (bump limit ?mult (bucket_for ?w windowMs (js_get (rl_buckets ?l) k)))
      else js_get (rl_buckets ?l) k)" and mok: "js_ok (rl_buckets ?l) \<longrightarrow> js_ok m"
    using check_fold [OF subjectKeys_distinct [of rule subject "or_default (rp_scopes policy) all_scopes"], where w = ?w and W = windowMs and limit = limit and mult = ?mult
        and aw = "or_default (rp_abusiveWindows policy) 5" and d = "\<lparr>rd_allowed = True, rd_persistent = False, rd_abusive = False\<rparr>"
        and m = "rl_buckets ?l"] r
    by auto
  have st: "rate_step (RcCheck now rule subject limit windowMs policy) (l, h) = (?l\<lparr>rl_buckets := m\<rparr>, ?h)"
    by (simp add: rate_check_def Let_def r)
  have cnt: "counts ?h k W w = counts h k W w + (if k \<in> set ?keys \<and> now div W = w then 1 else 0)" for w
    by (simp only: counts_append counts_events(1) [OF subjectKeys_distinct])
  have fr: "free_at ?h k t' \<longleftrightarrow> free_at h k t'" for t' by (simp add: free_at_append free_at_events)
  show ?thesis
  proof (cases "k \<in> set ?keys")
    case False
    with D m mok show ?thesis unfolding st
      by (simp add: in_step_def limiter_ok_def cnt fr bucket_count_def)
  next
    case True
    then have W: "windowMs = W" using use by (simp add: uses_window_def)
    let ?b = "bump limit ?mult (bucket_for (now div W) W (js_get (rl_buckets ?l) k))"
    have g: "js_get m k = Some ?b" using m True by (simp add: W)
    have "bk_count (bucket_for w 0 (Some ?b)) = counts ?h k W w" if "now div W \<le> w" for w
    proof (cases "w = now div W")
      case True
      with D \<open>k \<in> set ?keys\<close> show ?thesis
        by (simp add: cnt in_step_def bucket_count_def bucket_for_simps bump_simps)
    next
      case False
      with that D show ?thesis by (simp add: cnt in_step_def bucket_for_simps bump_simps)
    qed
    moreover have "bk_expiresAt ?b = (bk_window ?b + 2) * W"
      using D by (auto simp: in_step_def bump_simps bucket_for_def split: option.split)
    moreover have "counts ?h k W w = 0" if "now div W < w" for w
      using D that by (simp add: in_step_def cnt)
    ultimately show ?thesis using D mok unfolding st
      by (simp add: in_step_def limiter_ok_def fr bucket_count_def g)
  qed
qed

lemma cooldown_in_step:
  assumes inv: "in_step k W t (l, h)" and time: "t \<le> now" "0 < W" "0 \<le> t"
  shows "in_step k W now (rate_step (RcCooldown now rule subject cooldownMs scopes) (l, h))"
proof -
  let ?keys = "subjectKeys rule subject scopes" and ?l = "rate_sweep now l"
  let ?h = "h @ map (\<lambda>k. BlockedUntil k (now + cooldownMs)) ?keys"
  have D: "in_step k W now (?l, h)" by (rule sweep_in_step [OF inv time])
  show ?thesis
  proof (cases "list_all (\<lambda>key. or_default (js_get (rl_cooldowns ?l) key) 0 \<le> now) ?keys")
    case False
    with D show ?thesis by (simp add: rate_cooldown_def Let_def)
  next
    case True
    then have "free_at h k now" if "k \<in> set ?keys"
      using D that by (auto simp: in_step_def list_all_iff)
    then have "or_default (js_get (fold (\<lambda>key. js_set key (now + cooldownMs)) ?keys (rl_cooldowns ?l)) k) 0 \<le> t'
        \<longleftrightarrow> free_at ?h k t'" if "now \<le> t'" for t'
      using D that free_at_mono [of h k now t']
      by (auto simp: in_step_def get_fold_set free_at_append free_at_events or_default_def split: if_splits)
    moreover have "counts ?h k W w = counts h k W w" for w
      by (simp only: counts_append counts_events(2) [OF subjectKeys_distinct] add_0_right)
    ultimately show ?thesis using True D
      by (simp add: rate_cooldown_def Let_def in_step_def limiter_ok_def ok_fold_set bucket_count_def)
  qed
qed

lemma rate_run_in_step:
  assumes "in_step k W t x" "0 < W" "0 \<le> t" "sorted (t # map rate_time calls)" "list_all (uses_window k W) calls"
  shows "in_step k W (List.last (t # map rate_time calls)) (fold rate_step calls x)"
  using assms
proof (induction calls arbitrary: t x)
  case (Cons c calls)
  obtain l h where x: "x = (l, h)" by (cases x)
  have "in_step k W (rate_time c) (rate_step c (l, h))"
    using Cons.prems unfolding x by (cases c) (auto intro: check_in_step cooldown_in_step simp del: rate_step.simps)
  with Cons.IH [of "rate_time c" "rate_step c (l, h)"] Cons.prems show ?case by (simp add: x)
qed simp

section \<open>Properties\<close>

lemma new_limiter_in_step: "0 < W \<Longrightarrow> in_step k W 0 (new_limiter, [])"
  by (simp add: in_step_def limiter_ok_def new_limiter_def bucket_count_def bucket_for_simps counts_def free_at_def
      or_default_def)

lemma rate_run_at:
  assumes "sorted (0 # map rate_time calls @ [now])" "0 < W" "list_all (uses_window k W) calls"
    and "fold rate_step calls (new_limiter, []) = (l, h)"
  shows "in_step k W now (rate_sweep now l, h)"
proof -
  let ?t = "List.last (0 # map rate_time calls)"
  have "in_step k W ?t (fold rate_step calls (new_limiter, []))"
    using assms(1,2,3) by (intro rate_run_in_step new_limiter_in_step) (auto simp: sorted_append)
  moreover have "?t \<in> set (0 # map rate_time calls)" by (rule last_in_set) simp
  then have "?t \<le> now" "0 \<le> ?t" using assms(1) by (auto simp: sorted_append simp del: last.simps)
  ultimately show ?thesis using assms(2,4) by (auto intro: sweep_in_step)
qed

text \<open>
  C23. The limiter is an exact counter. After any history of checks and cooldowns in the order of time, a check is
  allowed exactly if each of its keys was counted less than \<open>limit\<close> times in the current window. Sweeping old buckets
  never forgets a count that still matters.
\<close>

theorem rate_check_exact:
  assumes "sorted (0 # map rate_time calls @ [now])" "0 < windowMs"
    and "\<forall>k \<in> set (subjectKeys rule subject (or_default (rp_scopes policy) all_scopes)). list_all (uses_window k windowMs) calls"
  shows "case fold rate_step calls (new_limiter, []) of (l, h) \<Rightarrow>
     rd_allowed (fst (rate_check now rule subject limit windowMs policy l))
     \<longleftrightarrow> list_all (\<lambda>k. counts h k windowMs (now div windowMs) < limit)
            (subjectKeys rule subject (or_default (rp_scopes policy) all_scopes))"
proof -
  let ?keys = "subjectKeys rule subject (or_default (rp_scopes policy) all_scopes)" and ?w = "now div windowMs"
  obtain l h where r: "fold rate_step calls (new_limiter, []) = (l, h)" by fastforce
  have c: "bk_count (bucket_for ?w windowMs (js_get (rl_buckets (rate_sweep now l)) k)) = counts h k windowMs ?w"
    if "k \<in> set ?keys" for k
    using rate_run_at [OF assms(1,2) _ r, of k] assms(3) that
    by (simp add: in_step_def bucket_count_def bucket_for_simps)
  have "rd_allowed (fst (rate_check now rule subject limit windowMs policy l)) \<longleftrightarrow>
      (\<forall>k \<in> set ?keys. bk_count (bucket_for ?w windowMs (js_get (rl_buckets (rate_sweep now l)) k)) + 1 \<le> limit)"
    using check_fold [OF subjectKeys_distinct [of rule subject "or_default (rp_scopes policy) all_scopes"], where w = ?w
        and W = windowMs and limit = limit and mult = "or_default (rp_abusiveMultiplier policy) 5"
        and aw = "or_default (rp_abusiveWindows policy) 5" and d = "\<lparr>rd_allowed = True, rd_persistent = False, rd_abusive = False\<rparr>"
        and m = "rl_buckets (rate_sweep now l)"]
    by (auto simp: rate_check_def Let_def split: prod.splits)
  also have "\<dots> \<longleftrightarrow> list_all (\<lambda>k. counts h k windowMs ?w < limit) ?keys"
    using c by (auto simp: list_all_iff)
  finally show ?thesis by (simp add: r)
qed

definition demo_subject :: rate_subject where
  "demo_subject = \<lparr>rs_connectionId = 1, rs_ip = ''a'', rs_userId = Some (Guest ''g'')\<rparr>"

definition demo_policy :: rate_policy where
  "demo_policy = \<lparr>rp_scopes = Some [IpScope], rp_abusiveMultiplier = None, rp_abusiveWindows = None\<rparr>"

theorem rate_check_exact_witness:
  "case fold rate_step [RcCheck 1000 ''x'' demo_subject 1 1000 demo_policy] (new_limiter, []) of (l, h) \<Rightarrow>
     rd_allowed (fst (rate_check 1999 ''x'' demo_subject 1 1000 demo_policy l))
     = list_all (\<lambda>k. counts h k 1000 (1999 div 1000) < 1) (subjectKeys ''x'' demo_subject [IpScope])"
  using rate_check_exact [of "[RcCheck 1000 ''x'' demo_subject 1 1000 demo_policy]" 1999 1000 "''x''" demo_subject demo_policy 1]
  by (simp add: demo_policy_def or_default_def uses_window_def)

text \<open>
  Cooldowns. After any history in the order of time, an action with a cooldown is allowed exactly if
  no earlier one that was allowed still blocks one of its keys.
\<close>

theorem rate_cooldown_exact:
  assumes "sorted (0 # map rate_time calls @ [now])" "0 < windowMs"
    and "\<forall>k \<in> set (subjectKeys rule subject scopes). list_all (uses_window k windowMs) calls"
  shows "case fold rate_step calls (new_limiter, []) of (l, h) \<Rightarrow>
     rd_allowed (fst (rate_cooldown now rule subject cooldownMs scopes l))
     \<longleftrightarrow> list_all (\<lambda>k. free_at h k now) (subjectKeys rule subject scopes)"
proof -
  obtain l h where r: "fold rate_step calls (new_limiter, []) = (l, h)" by fastforce
  have "or_default (js_get (rl_cooldowns (rate_sweep now l)) k) 0 \<le> now \<longleftrightarrow> free_at h k now"
    if "k \<in> set (subjectKeys rule subject scopes)" for k
    using rate_run_at [OF assms(1,2) _ r, of k] assms(3) that by (simp add: in_step_def)
  then show ?thesis by (simp add: r rate_cooldown_def Let_def list_all_iff)
qed

theorem rate_cooldown_exact_witness:
  "case fold rate_step [RcCooldown 0 ''emoji'' demo_subject EMOJI_COOLDOWN_MS [IpScope]] (new_limiter, []) of (l, h) \<Rightarrow>
     rd_allowed (fst (rate_cooldown 1999 ''emoji'' demo_subject EMOJI_COOLDOWN_MS [IpScope] l))
     = list_all (\<lambda>k. free_at h k 1999) (subjectKeys ''emoji'' demo_subject [IpScope])"
  using rate_cooldown_exact [of "[RcCooldown 0 ''emoji'' demo_subject EMOJI_COOLDOWN_MS [IpScope]]" 1999 1000 "''emoji''"
      demo_subject "[IpScope]" EMOJI_COOLDOWN_MS]
  by (simp add: uses_window_def)

end
