(* ===== verification/Registry.thy ===== *)
theory Registry
  imports Manager Redis RateLimit
begin

text \<open>
  \<open>server-game/src/redis/registry.ts\<close>: what a game server tells the others through Redis - its heartbeat, the directory of its rooms, and
  one claim per user for the room the user is in. Everything that waits for Redis is a machine with one call per step, so that
  other servers and other parts of this one run in between; a call may also fail before or after it took effect. The values under the
  keys are JSON texts; \<open>JSON.parse\<close> and \<open>JSON.stringify\<close> are in \<open>registry_env\<close>. Calls on sorted sets are a log, because nothing here
  reads them back. The keys are those of \<open>shared/src/control/commands.ts\<close>, the commands those of \<open>redis/redis-client.ts\<close>.
\<close>

section \<open>Keys\<close>

definition env_key :: "string \<Rightarrow> string \<Rightarrow> string" where
  "env_key env s = env @ '':'' @ s"

definition k_gameServer :: "string \<Rightarrow> string \<Rightarrow> string" where "k_gameServer env i = env_key env (''game-server:'' @ i)"
definition k_gameServersAlive :: "string \<Rightarrow> string" where "k_gameServersAlive env = env_key env ''game-servers:alive''"
definition k_room :: "string \<Rightarrow> string \<Rightarrow> string" where "k_room env r = env_key env (''room:'' @ r)"
definition k_roomCode :: "string \<Rightarrow> string \<Rightarrow> string" where "k_roomCode env c = env_key env (''room-code:'' @ c)"
definition k_roomsWaiting :: "string \<Rightarrow> string" where "k_roomsWaiting env = env_key env ''rooms:waiting''"
definition k_userActiveRoom :: "string \<Rightarrow> actor_id \<Rightarrow> string" where
  "k_userActiveRoom env u = env_key env (''user:'' @ actor_text u @ '':active-room'')"
definition k_roomRejoin :: "string \<Rightarrow> string \<Rightarrow> actor_id \<Rightarrow> string" where
  "k_roomRejoin env r u = env_key env (''room-rejoin:'' @ r @ '':'' @ actor_text u)"
definition k_commands :: "string \<Rightarrow> string \<Rightarrow> string" where "k_commands env i = env_key env (''game-server:'' @ i @ '':commands'')"
definition k_replies :: "string \<Rightarrow> string" where "k_replies env = env_key env ''matching-server:replies''"
definition k_gameResults :: "string \<Rightarrow> string" where "k_gameResults env = env_key env ''game-results''"
definition k_operation :: "string \<Rightarrow> string \<Rightarrow> string" where "k_operation env i = env_key env (''operation:'' @ i)"

definition KICK_MARKER_PREFIX :: string where "KICK_MARKER_PREFIX = ''room-kicked''"

definition kick_marker :: "string \<Rightarrow> string \<Rightarrow> actor_id \<Rightarrow> string" where
  "kick_marker env r u = k_operation env (KICK_MARKER_PREFIX @ '':'' @ r @ '':'' @ actor_text u)"

section \<open>Commands\<close>

definition setPx :: "'db redis \<Rightarrow> string \<Rightarrow> string \<Rightarrow> int \<Rightarrow> 'db \<Rightarrow> 'db" where
  "setPx R key v ttlMs db = rd_put R key v (Some ttlMs) db"

definition setPxIfAbsent :: "'db redis \<Rightarrow> string \<Rightarrow> string \<Rightarrow> int \<Rightarrow> 'db \<Rightarrow> bool \<times> 'db" where
  "setPxIfAbsent R key v ttlMs db = (if rd_get R key db = None then (True, rd_put R key v (Some ttlMs) db) else (False, db))"

definition compareAndSetPx :: "'db redis \<Rightarrow> string \<Rightarrow> string \<Rightarrow> string \<Rightarrow> int \<Rightarrow> 'db \<Rightarrow> bool \<times> 'db" where
  "compareAndSetPx R key expected v ttlMs db =
     (if rd_get R key db = Some expected then (True, rd_put R key v (Some ttlMs) db) else (False, db))"

text \<open>\<open>PEXPIRE\<close> on a key whose value is known leaves that value with the new life.\<close>

definition compareAndExpire :: "'db redis \<Rightarrow> string \<Rightarrow> string \<Rightarrow> int \<Rightarrow> 'db \<Rightarrow> bool \<times> 'db" where
  "compareAndExpire R key expected ttlMs db =
     (if rd_get R key db = Some expected then (True, rd_put R key expected (Some ttlMs) db) else (False, db))"

record atomic_replacement =
  at_key :: string
  at_expected :: "string option"
  at_value :: string
  at_ttlMs :: int

text \<open>\<open>None\<close> is the error for keys given twice or a life that is not positive.\<close>

definition compareAndSetMany :: "'db redis \<Rightarrow> atomic_replacement list \<Rightarrow> 'db \<Rightarrow> (bool \<times> 'db) option" where
  "compareAndSetMany R reps db =
     (if reps = [] then Some (True, db)
      else if \<not> distinct (map at_key reps) \<or> list_ex (\<lambda>a. at_ttlMs a \<le> 0) reps then None
      else if list_all (\<lambda>a. rd_get R (at_key a) db = at_expected a) reps
        then Some (True, fold (\<lambda>a. rd_put R (at_key a) (at_value a) (Some (at_ttlMs a))) reps db)
      else Some (False, db))"

text \<open>How a call ends: it works, takes effect without an answer, or does nothing.\<close>

datatype call_end = Works | Lost | Down

section \<open>What this server keeps\<close>

definition ACTIVE_ROOM_TTL_MS :: int where "ACTIVE_ROOM_TTL_MS = 30000"
definition REJOIN_COOLDOWN_MS :: int where "REJOIN_COOLDOWN_MS = 60000"
definition HANDOFF_TTL_MS :: int where "HANDOFF_TTL_MS = 86400000"

record registry_env =
  re_prefix :: string
  re_serverId :: string
  re_parse :: "string \<Rightarrow> json option"
  re_stringify :: "json \<Rightarrow> string"

record tracked_seat =
  ts_joined :: bool
  ts_requestId :: string

record pending_release =
  pl_roomId :: string
  pl_userId :: actor_id
  pl_cooldown :: bool
  pl_kicked :: bool
  pl_releasedAt :: int

record registry =
  rg_tracked :: "(string, (actor_id, tracked_seat) js_map) js_map"
  rg_pending :: "(string \<times> actor_id, pending_release) js_map"
  rg_kicked :: "(string, actor_id list) js_map"
  rg_lastRooms :: "string list"
  rg_lastCodes :: "(string, string) js_map"
  rg_healthy :: bool
  rg_publishing :: bool
  rg_requested :: bool

definition new_registry :: registry where
  "new_registry = \<lparr>rg_tracked = js_empty, rg_pending = js_empty, rg_kicked = js_empty, rg_lastRooms = [], rg_lastCodes = js_empty,
     rg_healthy = False, rg_publishing = False, rg_requested = False\<rparr>"

text \<open>The text \<open>releaseKey\<close> holds the room and the user with its type, as the pair does.\<close>

definition trackSeat :: "string \<Rightarrow> actor_id \<Rightarrow> string \<Rightarrow> registry \<Rightarrow> registry" where
  "trackSeat roomId u requestId g =
     (let pending = (case js_get (rg_pending g) (roomId, u) of
            None \<Rightarrow> rg_pending g
          | Some p \<Rightarrow> if pl_kicked p then rg_pending g else js_delete (roomId, u) (rg_pending g));
          room = (case js_get (rg_tracked g) roomId of None \<Rightarrow> js_empty | Some m \<Rightarrow> m);
          room' = (if js_has room u then room else js_set u \<lparr>ts_joined = False, ts_requestId = requestId\<rparr> room)
      in g\<lparr>rg_pending := pending, rg_tracked := js_set roomId room' (rg_tracked g)\<rparr>)"

definition noteReleased :: "int \<Rightarrow> string \<Rightarrow> actor_id \<Rightarrow> bool \<Rightarrow> registry \<Rightarrow> registry" where
  "noteReleased now roomId u cooldown g =
     (let kicked = (case js_get (rg_kicked g) roomId of None \<Rightarrow> False | Some us \<Rightarrow> u \<in> set us);
          previous = js_get (rg_pending g) (roomId, u);
          release = \<lparr>pl_roomId = roomId, pl_userId = u,
            pl_cooldown = cooldown \<or> (case previous of None \<Rightarrow> False | Some p \<Rightarrow> pl_cooldown p),
            pl_kicked = kicked \<or> (case previous of None \<Rightarrow> False | Some p \<Rightarrow> pl_kicked p),
            pl_releasedAt = (case previous of None \<Rightarrow> now | Some p \<Rightarrow> pl_releasedAt p)\<rparr>
      in g\<lparr>rg_pending := js_set (roomId, u) release (rg_pending g),
           rg_tracked := (case js_get (rg_tracked g) roomId of None \<Rightarrow> rg_tracked g
             | Some m \<Rightarrow> js_set roomId (js_delete u m) (rg_tracked g))\<rparr>)"

definition noteKicked :: "string \<Rightarrow> actor_id \<Rightarrow> registry \<Rightarrow> registry" where
  "noteKicked roomId u g =
     (let users = (case js_get (rg_kicked g) roomId of None \<Rightarrow> [] | Some us \<Rightarrow> us)
      in g\<lparr>rg_kicked := js_set roomId (if u \<in> set users then users else users @ [u]) (rg_kicked g),
           rg_pending := (case js_get (rg_pending g) (roomId, u) of
               None \<Rightarrow> rg_pending g
             | Some p \<Rightarrow> if pl_kicked p then rg_pending g else js_set (roomId, u) (p\<lparr>pl_kicked := True\<rparr>) (rg_pending g))\<rparr>)"

definition trackAdoptedRoom :: "string \<Rightarrow> adopt_room_payload \<Rightarrow> registry \<Rightarrow> registry" where
  "trackAdoptedRoom transferId p g =
     fold (\<lambda>m. trackSeat (ar_roomId p) (ad_userId m) (''adopt:'' @ transferId)) (ar_members p) g"

definition forgetRoom :: "string \<Rightarrow> registry \<Rightarrow> registry" where
  "forgetRoom roomId g = g\<lparr>rg_lastRooms := filter (\<lambda>r. r \<noteq> roomId) (rg_lastRooms g), rg_lastCodes := js_delete roomId (rg_lastCodes g),
     rg_tracked := js_delete roomId (rg_tracked g), rg_pending := js_delete_where (\<lambda>_ p. pl_roomId p = roomId) (rg_pending g)\<rparr>"

text \<open>One publication runs at a time; a request in between makes one more follow. The first component says whether one starts now.\<close>

definition requestPublish :: "registry \<Rightarrow> bool \<times> registry" where
  "requestPublish g = (if rg_publishing g then (False, g\<lparr>rg_requested := True\<rparr>) else (True, g\<lparr>rg_publishing := True\<rparr>))"

definition registry_publish :: "registry \<Rightarrow> bool \<times> registry" where
  "registry_publish g = (if rg_publishing g then (False, g) else (True, g\<lparr>rg_publishing := True\<rparr>))"

definition publish_finally :: "registry \<Rightarrow> bool \<times> registry" where
  "publish_finally g =
     (if rg_requested g then (True, g\<lparr>rg_requested := False, rg_publishing := True\<rparr>) else (False, g\<lparr>rg_publishing := False\<rparr>))"

section \<open>Claims\<close>

text \<open>\<open>JSON.parse(raw).serverId\<close>, which throws on a text that is no JSON and on \<open>null\<close>.\<close>

datatype owner = OwnerThrows | OwnerIs "json option"

definition server_of :: "registry_env \<Rightarrow> string \<Rightarrow> owner" where
  "server_of X raw = (case re_parse X raw of
     None \<Rightarrow> OwnerThrows
   | Some JNull \<Rightarrow> OwnerThrows
   | Some (JObject m) \<Rightarrow> OwnerIs (js_get m ''serverId'')
   | Some _ \<Rightarrow> OwnerIs None)"

definition own :: "registry_env \<Rightarrow> string \<Rightarrow> bool" where
  "own X raw \<longleftrightarrow> server_of X raw = OwnerIs (Some (JString (re_serverId X)))"

definition claimBelongsToSeat :: "registry_env \<Rightarrow> string \<Rightarrow> string \<Rightarrow> string \<Rightarrow> bool" where
  "claimBelongsToSeat X raw roomId requestId = (case re_parse X raw of
     Some (JObject m) \<Rightarrow>
       if js_get m ''state'' = Some (JString ''reservation'') then js_get m ''requestId'' = Some (JString requestId)
       else js_get m ''state'' = Some (JString ''assigned'') \<and> js_get m ''roomId'' = Some (JString roomId)
         \<and> js_get m ''serverId'' = Some (JString (re_serverId X))
   | _ \<Rightarrow> False)"

definition claimPointsToRoom :: "registry_env \<Rightarrow> string \<Rightarrow> string \<Rightarrow> bool" where
  "claimPointsToRoom X raw roomId = (case re_parse X raw of
     Some (JObject m) \<Rightarrow> js_get m ''state'' = Some (JString ''assigned'') \<and> js_get m ''roomId'' = Some (JString roomId)
   | _ \<Rightarrow> False)"

text \<open>The test of \<open>deleteMatchingActiveRoom\<close>.\<close>

definition claim_matches :: "registry_env \<Rightarrow> string \<Rightarrow> string \<Rightarrow> bool" where
  "claim_matches X raw roomId = (case re_parse X raw of
     Some (JObject m) \<Rightarrow> js_get m ''roomId'' = Some (JString roomId) \<and> js_get m ''serverId'' = Some (JString (re_serverId X))
   | _ \<Rightarrow> False)"

definition assigned_claim :: "registry_env \<Rightarrow> string \<Rightarrow> string \<Rightarrow> string" where
  "assigned_claim X requestId roomId = re_stringify X (JObject
     [(''state'', JString ''assigned''), (''requestId'', JString requestId), (''roomId'', JString roomId), (''serverId'', JString (re_serverId X))])"

section \<open>The directory\<close>

fun room_state_text :: "room_state \<Rightarrow> string" where
  "room_state_text Allocating = ''ALLOCATING''"
| "room_state_text Waiting = ''WAITING''"
| "room_state_text Countdown = ''COUNTDOWN''"
| "room_state_text Playing = ''PLAYING''"
| "room_state_text PostGame = ''POST_GAME''"
| "room_state_text Closed = ''CLOSED''"

fun room_mode_text :: "room_mode \<Rightarrow> string" where
  "room_mode_text MatchMode = ''match''"
| "room_mode_text TrainingMode = ''training''"

definition nat_json :: "nat \<Rightarrow> json" where "nat_json n = JNumber (Fin (of_nat n))"

definition projection_json :: "room_projection \<Rightarrow> (string \<times> json) list" where
  "projection_json p =
     [(''roomId'', JString (pj_roomId p)), (''roomCode'', JString (pj_roomCode p)), (''matchId'', JString (pj_matchId p)),
      (''pendingMatchId'', case pj_pendingMatchId p of None \<Rightarrow> JNull | Some m \<Rightarrow> JString m), (''name'', JString (pj_name p)),
      (''ownerName'', JString (pj_ownerName p)), (''mapId'', JString (pj_mapId p)), (''state'', JString (room_state_text (pj_state p))),
      (''playerCount'', nat_json (pj_playerCount p)), (''capacity'', int_json (pj_capacity p)), (''hasPassword'', JBool (pj_hasPassword p)),
      (''locked'', JBool (pj_locked p)), (''mode'', JString (room_mode_text (pj_mode p)))]"

definition directory_value :: "registry_env \<Rightarrow> room_projection \<Rightarrow> int \<Rightarrow> string" where
  "directory_value X p updatedAt = re_stringify X (JObject (projection_json p @
     [(''serverId'', JString (re_serverId X)), (''status'', JString (room_state_text (pj_state p))), (''updatedAt'', int_json updatedAt)]))"

datatype zset_call = ZAdd string int string | ZRemove string string

datatype publish_pc = PbLook | PbClaim "string option" | PbCode | PbWaiting | PbDone | PbFailed

text \<open>\<open>publishRoom\<close>: nothing is written over another server's entry, and a room that is handed over is not entered anew.\<close>

definition listed :: "room_projection \<Rightarrow> bool" where
  "listed p \<longleftrightarrow> pj_mode p \<noteq> TrainingMode \<and> pj_state p = Waiting \<and> \<not> pj_locked p"

definition publish_step ::
    "'db redis \<Rightarrow> registry_env \<Rightarrow> room_projection \<Rightarrow> int \<Rightarrow> bool \<Rightarrow> call_end \<Rightarrow> publish_pc \<times> 'db \<Rightarrow> publish_pc \<times> 'db \<times> zset_call list" where
  "publish_step R X p now handingOff ends s = (case s of (pc, db) \<Rightarrow>
     (let key = k_room (re_prefix X) (pj_roomId p) in
      case pc of
        PbLook \<Rightarrow>
          if ends \<noteq> Works then (PbFailed, db, [])
          else (case rd_get R key db of
              None \<Rightarrow> (if handingOff then PbDone else PbClaim None, db, [])
            | Some previous \<Rightarrow> (case server_of X previous of
                  OwnerThrows \<Rightarrow> (PbFailed, db, [])
                | OwnerIs i \<Rightarrow> (if i \<noteq> Some (JString (re_serverId X)) then PbDone else PbClaim (Some previous), db, [])))
      | PbClaim previous \<Rightarrow>
          (case (case previous of None \<Rightarrow> setPxIfAbsent R key (directory_value X p now) HEARTBEAT_TTL_MS db
                 | Some old \<Rightarrow> compareAndSetPx R key old (directory_value X p now) HEARTBEAT_TTL_MS db) of
             (ok, db') \<Rightarrow> (if ends \<noteq> Works then PbFailed else if ok then PbCode else PbDone, if ends = Down then db else db', []))
      | PbCode \<Rightarrow>
          (if ends = Works then PbWaiting else PbFailed,
           if ends = Down then db else setPx R (k_roomCode (re_prefix X) (pj_roomCode p)) (pj_roomId p) HEARTBEAT_TTL_MS db, [])
      | PbWaiting \<Rightarrow>
          (if ends = Works then PbDone else PbFailed, db,
           if ends = Down then [] else if listed p then [ZAdd (k_roomsWaiting (re_prefix X)) now (pj_roomId p)]
           else [ZRemove (k_roomsWaiting (re_prefix X)) (pj_roomId p)])
      | PbDone \<Rightarrow> (PbDone, db, [])
      | PbFailed \<Rightarrow> (PbFailed, db, [])))"

text \<open>A room that is gone: the entry goes if it is this server's, then its code, then its place in the list.\<close>

datatype retire_pc = RtLook | RtDrop string | RtCode | RtWaiting | RtDone | RtFailed

definition retire_step ::
    "'db redis \<Rightarrow> registry_env \<Rightarrow> string \<Rightarrow> string option \<Rightarrow> call_end \<Rightarrow> retire_pc \<times> 'db \<Rightarrow> retire_pc \<times> 'db \<times> zset_call list" where
  "retire_step R X roomId oldCode ends s = (case s of (pc, db) \<Rightarrow>
     (let key = k_room (re_prefix X) roomId in
      case pc of
        RtLook \<Rightarrow>
          if ends \<noteq> Works then (RtFailed, db, [])
          else (case rd_get R key db of
              None \<Rightarrow> (RtDone, db, [])
            | Some old \<Rightarrow> (case server_of X old of
                  OwnerThrows \<Rightarrow> (RtFailed, db, [])
                | OwnerIs i \<Rightarrow> (if i \<noteq> Some (JString (re_serverId X)) then RtDone else RtDrop old, db, [])))
      | RtDrop old \<Rightarrow> (case compareAndDelete R key old db of (ok, db') \<Rightarrow>
          (if ends \<noteq> Works then RtFailed else if \<not> ok then RtDone else if oldCode = None \<or> oldCode = Some [] then RtWaiting else RtCode,
           if ends = Down then db else db', []))
      | RtCode \<Rightarrow> (case compareAndDelete R (k_roomCode (re_prefix X) (case oldCode of None \<Rightarrow> [] | Some c \<Rightarrow> c)) roomId db of (ok, db') \<Rightarrow>
          (if ends \<noteq> Works then RtFailed else RtWaiting, if ends = Down then db else db', []))
      | RtWaiting \<Rightarrow> (if ends = Works then RtDone else RtFailed, db, if ends = Down then [] else [ZRemove (k_roomsWaiting (re_prefix X)) roomId])
      | RtDone \<Rightarrow> (RtDone, db, [])
      | RtFailed \<Rightarrow> (RtFailed, db, [])))"

section \<open>Releases\<close>

text \<open>
  One turn of the loop of \<open>flushPendingReleases\<close>. It begins without a call: a user who is back is not released. \<open>RlLook\<close> and
  \<open>RlDrop\<close> are \<open>deleteMatchingActiveRoom\<close>.
\<close>

datatype release_pc = RlRejoin int | RlMarker | RlLook | RlDrop string | RlDone | RlFailed

definition release_marker :: "pending_release \<Rightarrow> release_pc" where
  "release_marker p = (if pl_kicked p then RlMarker else RlLook)"

definition release_begin :: "int \<Rightarrow> room option \<Rightarrow> pending_release \<Rightarrow> release_pc option" where
  "release_begin now room p =
     (if \<not> pl_kicked p \<and> (case room of None \<Rightarrow> False | Some r \<Rightarrow> room_hasUser r (pl_userId p)) then None
      else let remaining = REJOIN_COOLDOWN_MS - (now - pl_releasedAt p) in
        Some (if pl_cooldown p \<and> 0 < remaining then RlRejoin remaining else release_marker p))"

definition release_step ::
    "'db redis \<Rightarrow> registry_env \<Rightarrow> pending_release \<Rightarrow> call_end \<Rightarrow> release_pc \<times> 'db \<Rightarrow> release_pc \<times> 'db" where
  "release_step R X p ends s = (case s of (pc, db) \<Rightarrow>
     (let key = k_userActiveRoom (re_prefix X) (pl_userId p) in
      case pc of
        RlRejoin remaining \<Rightarrow>
          (if ends = Works then release_marker p else RlFailed,
           if ends = Down then db else setPx R (k_roomRejoin (re_prefix X) (pl_roomId p) (pl_userId p)) ''1'' remaining db)
      | RlMarker \<Rightarrow>
          (if ends = Works then RlLook else RlFailed,
           if ends = Down then db else setPx R (kick_marker (re_prefix X) (pl_roomId p) (pl_userId p)) ''1'' HEARTBEAT_TTL_MS db)
      | RlLook \<Rightarrow>
          (if ends \<noteq> Works then RlFailed
           else case rd_get R key db of
               None \<Rightarrow> RlDone
             | Some raw \<Rightarrow> if claim_matches X raw (pl_roomId p) then RlDrop raw else RlDone, db)
      | RlDrop raw \<Rightarrow> (case compareAndDelete R key raw db of (_, db') \<Rightarrow>
          (if ends = Works then RlDone else RlFailed, if ends = Down then db else db'))
      | RlDone \<Rightarrow> (RlDone, db)
      | RlFailed \<Rightarrow> (RlFailed, db)))"

definition release_finish :: "pending_release \<Rightarrow> registry \<Rightarrow> registry" where
  "release_finish p g = g\<lparr>rg_pending := js_delete (pl_roomId p, pl_userId p) (rg_pending g)\<rparr>"

section \<open>Seats\<close>

text \<open>
  One turn of the loop of \<open>synchronizeTrackedSeats\<close>: a seat that is still held keeps its claim alive, or claims the room anew; one that
  is not becomes a release.
\<close>

datatype seat_pc = StLook | StExpire string | StClaim | StDone | StFailed

definition seat_joined :: "room option \<Rightarrow> actor_id \<Rightarrow> tracked_seat \<Rightarrow> tracked_seat" where
  "seat_joined room u t =
     (case room of None \<Rightarrow> t | Some r \<Rightarrow> if getByUser (rm_roster r) u \<noteq> None then t\<lparr>ts_joined := True\<rparr> else t)"

definition seat_held :: "room option \<Rightarrow> actor_id \<Rightarrow> bool" where
  "seat_held room u = (case room of None \<Rightarrow> False | Some r \<Rightarrow> room_hasUser r u)"

definition seat_unclaimed :: "room \<Rightarrow> tracked_seat \<Rightarrow> seat_pc" where
  "seat_unclaimed r t = (if ts_joined t \<and> \<not> rm_handingOff r then StClaim else StDone)"

definition seat_step ::
    "'db redis \<Rightarrow> registry_env \<Rightarrow> string \<Rightarrow> room \<Rightarrow> actor_id \<Rightarrow> tracked_seat \<Rightarrow> call_end \<Rightarrow> seat_pc \<times> 'db \<Rightarrow> seat_pc \<times> 'db" where
  "seat_step R X roomId r u t ends s = (case s of (pc, db) \<Rightarrow>
     (let key = k_userActiveRoom (re_prefix X) u in
      case pc of
        StLook \<Rightarrow>
          (if ends \<noteq> Works then StFailed
           else case rd_get R key db of
               None \<Rightarrow> seat_unclaimed r t
             | Some raw \<Rightarrow> if claimBelongsToSeat X raw roomId (ts_requestId t) then StExpire raw else seat_unclaimed r t, db)
      | StExpire raw \<Rightarrow> (case compareAndExpire R key raw ACTIVE_ROOM_TTL_MS db of (ok, db') \<Rightarrow>
          (if ends \<noteq> Works then StFailed else if ok then StDone else seat_unclaimed r t, if ends = Down then db else db'))
      | StClaim \<Rightarrow>
          (case setPxIfAbsent R key (assigned_claim X (''heartbeat:'' @ re_serverId X @ '':'' @ roomId) roomId) ACTIVE_ROOM_TTL_MS db of
             (_, db') \<Rightarrow> (if ends = Works then StDone else StFailed, if ends = Down then db else db'))
      | StDone \<Rightarrow> (StDone, db)
      | StFailed \<Rightarrow> (StFailed, db)))"

text \<open>What becomes of a seat that is no longer held.\<close>

definition seat_release :: "int \<Rightarrow> string \<Rightarrow> room option \<Rightarrow> actor_id \<Rightarrow> tracked_seat \<Rightarrow> registry \<Rightarrow> registry" where
  "seat_release now roomId room u t g =
     (let kicked = (case room of None \<Rightarrow> False | Some r \<Rightarrow> isKicked r u);
          g1 = (if kicked then noteKicked roomId u g else g);
          release = \<lparr>pl_roomId = roomId, pl_userId = u, pl_cooldown = (room \<noteq> None \<and> ts_joined t), pl_kicked = kicked, pl_releasedAt = now\<rparr>
      in g1\<lparr>rg_pending := js_set (roomId, u) release (rg_pending g1),
            rg_tracked := (case js_get (rg_tracked g1) roomId of None \<Rightarrow> rg_tracked g1
              | Some m \<Rightarrow> js_set roomId (js_delete u m) (rg_tracked g1))\<rparr>)"

section \<open>Taking over a room\<close>

text \<open>
  \<open>claimAdoptedRoom\<close>: the directory entry, the claim of every member and the state of the transfer move in one script, each only if it
  is still what was read.
\<close>

datatype claim_pc = CaDirectory | CaMember "actor_id list" "atomic_replacement list" | CaSwap "atomic_replacement list" | CaDone | CaFailed

definition handoff_key :: "registry_env \<Rightarrow> string \<Rightarrow> string" where
  "handoff_key X transferId = k_operation (re_prefix X) (''handoff:'' @ transferId)"

definition claim_begin :: "registry_env \<Rightarrow> string option \<Rightarrow> string option \<Rightarrow> claim_pc" where
  "claim_begin X source transfer =
     (if source = None \<or> source = Some [] \<or> transfer = None \<or> transfer = Some [] \<or> source = Some (re_serverId X) then CaFailed else CaDirectory)"

definition claim_next :: "actor_id list \<Rightarrow> atomic_replacement list \<Rightarrow> claim_pc" where
  "claim_next us reps = (if us = [] then CaSwap reps else CaMember us reps)"

definition claim_step ::
    "'db redis \<Rightarrow> registry_env \<Rightarrow> string \<Rightarrow> string \<Rightarrow> string \<Rightarrow> actor_id list \<Rightarrow> room_projection \<Rightarrow> int \<Rightarrow> call_end \<Rightarrow> claim_pc \<times> 'db \<Rightarrow> claim_pc \<times> 'db" where
  "claim_step R X source transfer roomId users p now ends s = (case s of (pc, db) \<Rightarrow>
     (case pc of
        CaDirectory \<Rightarrow>
          (if ends \<noteq> Works then CaFailed
           else case rd_get R (k_room (re_prefix X) roomId) db of
               None \<Rightarrow> CaFailed
             | Some previous \<Rightarrow>
                 if server_of X previous \<noteq> OwnerIs (Some (JString source)) then CaFailed
                 else claim_next users
                   [\<lparr>at_key = handoff_key X transfer, at_expected = Some ''pending'', at_value = ''committed'', at_ttlMs = HANDOFF_TTL_MS\<rparr>,
                    \<lparr>at_key = k_room (re_prefix X) roomId, at_expected = Some previous, at_value = directory_value X p now, at_ttlMs = HEARTBEAT_TTL_MS\<rparr>], db)
      | CaMember [] reps \<Rightarrow> (CaSwap reps, db)
      | CaMember (u # us) reps \<Rightarrow>
          (if ends \<noteq> Works then CaFailed
           else case rd_get R (k_userActiveRoom (re_prefix X) u) db of
               None \<Rightarrow> CaFailed
             | Some raw \<Rightarrow>
                 if \<not> claimPointsToRoom X raw roomId \<or> server_of X raw \<noteq> OwnerIs (Some (JString source)) then CaFailed
                 else claim_next us (reps @ [\<lparr>at_key = k_userActiveRoom (re_prefix X) u, at_expected = Some raw,
                        at_value = assigned_claim X (''adopt:'' @ transfer) roomId, at_ttlMs = ACTIVE_ROOM_TTL_MS\<rparr>]), db)
      | CaSwap reps \<Rightarrow>
          (case compareAndSetMany R reps db of
             None \<Rightarrow> (CaFailed, db)
           | Some (ok, db') \<Rightarrow> (if ends = Works \<and> ok then CaDone else CaFailed, if ends = Down then db else db'))
      | CaDone \<Rightarrow> (CaDone, db)
      | CaFailed \<Rightarrow> (CaFailed, db)))"

section \<open>Heartbeat\<close>

record heartbeat_source =
  hs_buildVersion :: string
  hs_protocolVersion :: int
  hs_rulesVersion :: string
  hs_mapBundleHash :: string
  hs_internalAddress :: string
  hs_maxRooms :: int
  hs_connectionCount :: int
  hs_loopLagMs :: js_number
  hs_isDraining :: bool

definition heartbeat_value :: "registry_env \<Rightarrow> heartbeat_source \<Rightarrow> room_manager \<Rightarrow> int \<Rightarrow> string" where
  "heartbeat_value X h m now = (case mg_counts m of (waiting, playing) \<Rightarrow> re_stringify X (JObject
     [(''serverId'', JString (re_serverId X)), (''buildVersion'', JString (hs_buildVersion h)), (''protocolVersion'', int_json (hs_protocolVersion h)),
      (''rulesVersion'', JString (hs_rulesVersion h)), (''mapBundleHash'', JString (hs_mapBundleHash h)), (''waitingRooms'', nat_json waiting),
      (''playingRooms'', nat_json playing), (''connections'', int_json (hs_connectionCount h)), (''loopLagMs'', JNumber (hs_loopLagMs h)),
      (''draining'', JBool (hs_isDraining h)), (''internalAddress'', JString (hs_internalAddress h)), (''maxRooms'', int_json (hs_maxRooms h)),
      (''updatedAt'', int_json now)]))"

text \<open>A server id is taken only while no heartbeat under it lives.\<close>

definition claimServerId :: "'db redis \<Rightarrow> registry_env \<Rightarrow> heartbeat_source \<Rightarrow> room_manager \<Rightarrow> int \<Rightarrow> bool \<Rightarrow> 'db \<Rightarrow> bool \<times> 'db" where
  "claimServerId R X h m now ready db =
     (if \<not> ready then (False, db)
      else setPxIfAbsent R (k_gameServer (re_prefix X) (re_serverId X)) (heartbeat_value X h m now) HEARTBEAT_TTL_MS db)"

definition publish_heartbeat :: "'db redis \<Rightarrow> registry_env \<Rightarrow> heartbeat_source \<Rightarrow> room_manager \<Rightarrow> int \<Rightarrow> 'db \<Rightarrow> 'db \<times> zset_call list" where
  "publish_heartbeat R X h m now db =
     (setPx R (k_gameServer (re_prefix X) (re_serverId X)) (heartbeat_value X h m now) HEARTBEAT_TTL_MS db,
      [ZAdd (k_gameServersAlive (re_prefix X)) now (re_serverId X)])"

text \<open>The markers that keep kicked users out: those of rooms that are gone are forgotten, the others renewed.\<close>

definition kicked_rooms :: "room_manager \<Rightarrow> registry \<Rightarrow> registry" where
  "kicked_rooms m g = g\<lparr>rg_kicked := js_delete_where (\<lambda>roomId _. mg_get m roomId = None) (rg_kicked g)\<rparr>"

definition kick_markers :: "registry_env \<Rightarrow> registry \<Rightarrow> string list" where
  "kick_markers X g = concat (map (\<lambda>(roomId, us). map (kick_marker (re_prefix X) roomId) us) (rg_kicked g))"

end
