(* ===== verification/RegistryProps.thy ===== *)
theory RegistryProps
  imports Registry
begin

text \<open>
  What servers can rely on of each other: no server touches an entry or a claim that another one holds, and a room is handed over as a
  whole, to one server.
\<close>

section \<open>Keys\<close>

lemma env_key_inj [simp]: "env_key e a = env_key e b \<longleftrightarrow> a = b"
  by (simp add: env_key_def)

lemmas key_defs = k_room_def k_roomCode_def k_userActiveRoom_def k_roomRejoin_def kick_marker_def k_operation_def handoff_key_def

definition guarded :: "registry_env \<Rightarrow> string \<Rightarrow> bool" where
  "guarded X key \<longleftrightarrow> (\<exists>r. key = k_room (re_prefix X) r) \<or> (\<exists>u. key = k_userActiveRoom (re_prefix X) u)"

lemma guarded_other:
  "guarded X key \<Longrightarrow> key \<noteq> k_roomCode (re_prefix X) c" "guarded X key \<Longrightarrow> key \<noteq> k_roomRejoin (re_prefix X) r u"
  "guarded X key \<Longrightarrow> key \<noteq> k_operation (re_prefix X) i" "guarded X key \<Longrightarrow> key \<noteq> kick_marker (re_prefix X) r u"
  by (auto simp: guarded_def key_defs)

section \<open>Work under way\<close>

datatype registry_task =
    TPublish room_projection int bool publish_pc
  | TRetire string "string option" retire_pc
  | TRelease pending_release release_pc
  | TSeat string room actor_id tracked_seat seat_pc

fun task_step :: "'db redis \<Rightarrow> registry_env \<Rightarrow> call_end \<Rightarrow> registry_task \<times> 'db \<Rightarrow> registry_task \<times> 'db" where
  "task_step R X ends (TPublish p now h pc, db) = (case publish_step R X p now h ends (pc, db) of (pc', db', _) \<Rightarrow> (TPublish p now h pc', db'))"
| "task_step R X ends (TRetire r c pc, db) = (case retire_step R X r c ends (pc, db) of (pc', db', _) \<Rightarrow> (TRetire r c pc', db'))"
| "task_step R X ends (TRelease p pc, db) = (case release_step R X p ends (pc, db) of (pc', db') \<Rightarrow> (TRelease p pc', db'))"
| "task_step R X ends (TSeat i r u t pc, db) = (case seat_step R X i r u t ends (pc, db) of (pc', db') \<Rightarrow> (TSeat i r u t pc', db'))"

text \<open>What is about to be overwritten or deleted was this server's when it was read.\<close>

fun task_ok :: "registry_env \<Rightarrow> registry_task \<Rightarrow> bool" where
  "task_ok X (TPublish p now h (PbClaim (Some previous))) \<longleftrightarrow> own X previous"
| "task_ok X (TRetire r c (RtDrop old)) \<longleftrightarrow> own X old"
| "task_ok X (TRelease p (RlDrop raw)) \<longleftrightarrow> own X raw"
| "task_ok X t \<longleftrightarrow> True"

lemma task_ok_begin: "task_ok X (TPublish p now h PbLook)" "task_ok X (TRetire r c RtLook)" "task_ok X (TSeat i rm u t StLook)"
  by simp_all

lemma task_ok_release: "release_begin now room p = Some pc \<Longrightarrow> task_ok X (TRelease p pc)"
  by (auto simp: release_begin_def release_marker_def Let_def split: if_splits)

lemma own_matches: "claim_matches X raw r \<Longrightarrow> own X raw"
  by (auto simp: claim_matches_def own_def server_of_def split: option.splits json.splits)

lemma task_ok_step: "task_ok X t \<Longrightarrow> task_step R X ends (t, db) = (t', db') \<Longrightarrow> task_ok X t'"
proof (cases t)
  case (TPublish p now h pc)
  assume "task_step R X ends (t, db) = (t', db')"
  then show ?thesis
    unfolding TPublish by (cases pc) (auto simp: publish_step_def own_def Let_def split: if_splits option.splits owner.splits prod.splits)
next
  case (TRetire r c pc)
  assume "task_step R X ends (t, db) = (t', db')"
  then show ?thesis
    unfolding TRetire by (cases pc) (auto simp: retire_step_def own_def Let_def split: if_splits option.splits owner.splits prod.splits)
next
  case (TRelease p pc)
  assume "task_step R X ends (t, db) = (t', db')"
  then show ?thesis
    unfolding TRelease
    by (cases pc) (auto simp: release_step_def release_marker_def own_matches Let_def split: if_splits option.splits prod.splits)
next
  case (TSeat i r u s pc)
  assume "task_step R X ends (t, db) = (t', db')"
  then show ?thesis unfolding TSeat by (auto split: prod.splits)
qed

text \<open>The commands on a key that holds something else.\<close>

lemma put_kept: "redis_laws R view \<Longrightarrow> key \<noteq> k \<Longrightarrow> rd_get R key (rd_put R k v t db) = rd_get R key db"
  by (simp add: redis_lawsD)

lemma put_get: "redis_laws R view \<Longrightarrow> rd_get R k (rd_put R k v t db) = Some v"
  by (simp add: redis_lawsD)

lemma absent_kept:
  assumes "redis_laws R view" and "rd_get R key db = Some v"
  shows "rd_get R key (snd (setPxIfAbsent R k w t db)) = Some v"
  using assms put_kept [OF assms(1)] by (cases "key = k") (auto simp: setPxIfAbsent_def)

lemma compare_kept:
  assumes "redis_laws R view" and "rd_get R key db = Some v" and "v \<noteq> expected"
  shows "rd_get R key (snd (compareAndSetPx R k expected w t db)) = Some v" and "rd_get R key (snd (compareAndDelete R k expected db)) = Some v"
proof -
  have "rd_get R k db = Some expected \<Longrightarrow> key \<noteq> k" using assms(2,3) by auto
  then show "rd_get R key (snd (compareAndSetPx R k expected w t db)) = Some v" "rd_get R key (snd (compareAndDelete R k expected db)) = Some v"
    using assms(1,2) by (auto simp: compareAndSetPx_def compareAndDelete_def redis_lawsD)
qed

lemma expire_kept:
  assumes "redis_laws R view" and "rd_get R key db = Some v"
  shows "rd_get R key (snd (compareAndExpire R k expected t db)) = Some v"
  using assms put_kept [OF assms(1)] put_get [OF assms(1)] by (cases "key = k") (auto simp: compareAndExpire_def)

text \<open>
  C12. No server touches what is another's. While a server publishes rooms, takes back entries of rooms that are gone, releases users and
  keeps claims alive - each in several calls between which anything may happen, and each call perhaps failing halfway - a
  directory entry or a claim that names another server, or none, keeps its value.
\<close>

theorem registry_spares_others:
  assumes R: "redis_laws R view" and ok: "task_ok X t" and step: "task_step R X ends (t, db) = (t', db')"
    and key: "guarded X key" and held: "rd_get R key db = Some v" and other: "\<not> own X v"
  shows "rd_get R key db' = Some v \<and> task_ok X t'"
proof
  show "task_ok X t'" by (rule task_ok_step [OF ok step])
  note kept = absent_kept [OF R held] expire_kept [OF R held]
  have mine: "own X w \<Longrightarrow> v \<noteq> w" for w using other by auto
  have puts: "key \<noteq> k \<Longrightarrow> rd_get R key (setPx R k w n db) = Some v" for k w n using put_kept [OF R] held by (simp add: setPx_def)
  show "rd_get R key db' = Some v"
  proof (cases t)
    case (TPublish p now h pc)
    show ?thesis
    proof (cases pc)
      case (PbClaim previous)
      then show ?thesis
        using step ok held kept compare_kept(1) [OF R held mine] unfolding TPublish
        by (cases previous) (auto simp: publish_step_def Let_def case_prod_beta)
    qed (use step held puts guarded_other(1) [OF key] in
      \<open>auto simp: TPublish publish_step_def Let_def split: if_splits option.splits owner.splits\<close>)
  next
    case (TRetire r c pc)
    show ?thesis
    proof (cases pc)
      case (RtDrop old)
      then show ?thesis
        using step ok held compare_kept(2) [OF R held mine] unfolding TRetire by (auto simp: retire_step_def Let_def case_prod_beta)
    next
      case RtCode
      define code where "code = k_roomCode (re_prefix X) (case c of None \<Rightarrow> [] | Some x \<Rightarrow> x)"
      have "key \<noteq> code" using guarded_other(1) [OF key] by (simp add: code_def)
      then have "rd_get R key (snd (compareAndDelete R code r db)) = Some v"
        using held R by (auto simp: compareAndDelete_def redis_lawsD)
      then show ?thesis using step held RtCode unfolding TRetire by (auto simp: retire_step_def Let_def case_prod_beta code_def)
    qed (use step held in \<open>auto simp: TRetire retire_step_def Let_def split: if_splits option.splits owner.splits\<close>)
  next
    case (TRelease p pc)
    show ?thesis
    proof (cases pc)
      case (RlDrop raw)
      then show ?thesis
        using step ok held compare_kept(2) [OF R held mine] unfolding TRelease by (auto simp: release_step_def Let_def case_prod_beta)
    qed (use step held puts guarded_other [OF key] in \<open>auto simp: TRelease release_step_def Let_def split: if_splits option.splits\<close>)
  next
    case (TSeat i r u s pc)
    show ?thesis
    proof (cases pc)
      case (StExpire raw)
      then show ?thesis using step held kept unfolding TSeat by (auto simp: seat_step_def Let_def case_prod_beta)
    next
      case StClaim
      then show ?thesis using step held kept unfolding TSeat by (auto simp: seat_step_def Let_def case_prod_beta)
    qed (use step held in \<open>auto simp: TSeat seat_step_def Let_def split: if_splits option.splits\<close>)
  qed
qed

section \<open>Handing a room over\<close>

text \<open>What a takeover has read of the members so far, and would write.\<close>

definition member_ok :: "registry_env \<Rightarrow> string \<Rightarrow> string \<Rightarrow> string \<Rightarrow> actor_id \<Rightarrow> atomic_replacement \<Rightarrow> bool" where
  "member_ok X source transfer roomId u a \<longleftrightarrow> at_key a = k_userActiveRoom (re_prefix X) u
     \<and> (\<exists>raw. at_expected a = Some raw \<and> claimPointsToRoom X raw roomId \<and> server_of X raw = OwnerIs (Some (JString source)))
     \<and> at_value a = assigned_claim X (''adopt:'' @ transfer) roomId"

definition takeover_ok :: "registry_env \<Rightarrow> string \<Rightarrow> string \<Rightarrow> string \<Rightarrow> room_projection \<Rightarrow> int \<Rightarrow> actor_id list \<Rightarrow> atomic_replacement list \<Rightarrow> bool" where
  "takeover_ok X source transfer roomId p now users reps \<longleftrightarrow> (\<exists>h d ms. reps = h # d # ms
     \<and> at_key h = handoff_key X transfer \<and> at_expected h = Some ''pending'' \<and> at_value h = ''committed''
     \<and> at_key d = k_room (re_prefix X) roomId \<and> (\<exists>raw. at_expected d = Some raw \<and> server_of X raw = OwnerIs (Some (JString source)))
     \<and> at_value d = directory_value X p now \<and> list_all2 (member_ok X source transfer roomId) users ms)"

fun claim_ok :: "registry_env \<Rightarrow> string \<Rightarrow> string \<Rightarrow> string \<Rightarrow> actor_id list \<Rightarrow> room_projection \<Rightarrow> int \<Rightarrow> claim_pc \<Rightarrow> bool" where
  "claim_ok X source transfer roomId users p now (CaMember us reps) \<longleftrightarrow>
     (\<exists>seen. users = seen @ us \<and> takeover_ok X source transfer roomId p now seen reps)"
| "claim_ok X source transfer roomId users p now (CaSwap reps) \<longleftrightarrow> takeover_ok X source transfer roomId p now users reps"
| "claim_ok X source transfer roomId users p now pc \<longleftrightarrow> True"

lemma claim_next_ok:
  "users = seen @ us \<Longrightarrow> takeover_ok X source transfer roomId p now seen reps \<Longrightarrow> claim_ok X source transfer roomId users p now (claim_next us reps)"
  by (auto simp: claim_next_def)

lemma takeover_snoc:
  assumes "takeover_ok X source transfer roomId p now seen reps" and "member_ok X source transfer roomId u a"
  shows "takeover_ok X source transfer roomId p now (seen @ [u]) (reps @ [a])"
proof -
  obtain h d ms where "reps = h # d # ms" "list_all2 (member_ok X source transfer roomId) seen ms"
    using assms(1) unfolding takeover_ok_def by blast
  moreover from this have "list_all2 (member_ok X source transfer roomId) (seen @ [u]) (ms @ [a])"
    using assms(2) by (simp add: list_all2_appendI)
  ultimately show ?thesis using assms(1) unfolding takeover_ok_def by auto
qed

lemma claim_ok_step:
  assumes ok: "claim_ok X source transfer roomId users p now pc"
    and step: "claim_step R X source transfer roomId users p now ends (pc, db) = (pc', db')"
  shows "claim_ok X source transfer roomId users p now pc'"
proof (cases pc)
  case CaDirectory
  show ?thesis
  proof (cases "pc' = CaFailed")
    case False
    then obtain previous where "server_of X previous = OwnerIs (Some (JString source))"
      and pc': "pc' = claim_next users
        [\<lparr>at_key = handoff_key X transfer, at_expected = Some ''pending'', at_value = ''committed'', at_ttlMs = HANDOFF_TTL_MS\<rparr>,
         \<lparr>at_key = k_room (re_prefix X) roomId, at_expected = Some previous, at_value = directory_value X p now, at_ttlMs = HEARTBEAT_TTL_MS\<rparr>]"
      using step CaDirectory by (auto simp: claim_step_def split: if_splits option.splits)
    then show ?thesis by (auto simp: takeover_ok_def intro: claim_next_ok [of _ "[]"])
  qed simp
next
  case (CaMember us reps)
  obtain seen where seen: "users = seen @ us" "takeover_ok X source transfer roomId p now seen reps" using ok CaMember by auto
  show ?thesis
  proof (cases us)
    case Nil
    then show ?thesis using step CaMember seen by (auto simp: claim_step_def)
  next
    case (Cons u us')
    show ?thesis
    proof (cases "pc' = CaFailed")
      case False
      then obtain raw where raw: "claimPointsToRoom X raw roomId" "server_of X raw = OwnerIs (Some (JString source))"
        and pc': "pc' = claim_next us' (reps @ [\<lparr>at_key = k_userActiveRoom (re_prefix X) u, at_expected = Some raw,
            at_value = assigned_claim X (''adopt:'' @ transfer) roomId, at_ttlMs = ACTIVE_ROOM_TTL_MS\<rparr>])"
        using step CaMember Cons by (auto simp: claim_step_def split: if_splits option.splits)
      have "member_ok X source transfer roomId u \<lparr>at_key = k_userActiveRoom (re_prefix X) u, at_expected = Some raw,
          at_value = assigned_claim X (''adopt:'' @ transfer) roomId, at_ttlMs = ACTIVE_ROOM_TTL_MS\<rparr>"
        using raw by (simp add: member_ok_def)
      then show ?thesis
        unfolding pc' using seen Cons by (intro claim_next_ok [of _ "seen @ [u]"] takeover_snoc) auto
    qed simp
  qed
qed (use step in \<open>auto simp: claim_step_def split: option.splits prod.splits if_splits\<close>)

lemma fold_put_get:
  assumes R: "redis_laws R view"
  shows "k \<notin> at_key ` set reps \<Longrightarrow> rd_get R k (fold (\<lambda>a. rd_put R (at_key a) (at_value a) (Some (at_ttlMs a))) reps db) = rd_get R k db"
  by (induction reps arbitrary: db) (simp_all add: put_kept [OF R])

lemma fold_put_member:
  assumes R: "redis_laws R view"
  shows "distinct (map at_key reps) \<Longrightarrow> a \<in> set reps
    \<Longrightarrow> rd_get R (at_key a) (fold (\<lambda>a. rd_put R (at_key a) (at_value a) (Some (at_ttlMs a))) reps db) = Some (at_value a)"
proof (induction reps arbitrary: db)
  case (Cons b reps)
  show ?case
  proof (cases "a = b")
    case True
    then have "at_key a \<notin> at_key ` set reps" using Cons.prems(1) by simp
    then show ?thesis using True by (simp add: fold_put_get [OF R] put_get [OF R])
  next
    case False
    then show ?thesis using Cons by simp
  qed
qed simp

text \<open>The script replaces everything or nothing.\<close>

lemma set_many:
  assumes R: "redis_laws R view" and many: "compareAndSetMany R reps db = Some (ok, db')"
  shows "(if ok then list_all (\<lambda>a. rd_get R (at_key a) db = at_expected a \<and> rd_get R (at_key a) db' = Some (at_value a)) reps else db' = db)
    \<and> (k \<notin> at_key ` set reps \<longrightarrow> rd_get R k db' = rd_get R k db)"
  using many fold_put_member [OF R, of reps] fold_put_get [OF R, of k reps]
  by (auto simp: compareAndSetMany_def list_all_iff split: if_splits)

text \<open>The effect of a takeover: pending and all with the old server before, committed and all with the new server after.\<close>

definition taken_over :: "'db redis \<Rightarrow> registry_env \<Rightarrow> string \<Rightarrow> string \<Rightarrow> string \<Rightarrow> actor_id list \<Rightarrow> room_projection \<Rightarrow> int \<Rightarrow> 'db \<Rightarrow> 'db \<Rightarrow> bool" where
  "taken_over R X source transfer roomId users p now db db' \<longleftrightarrow>
     rd_get R (handoff_key X transfer) db = Some ''pending'' \<and> rd_get R (handoff_key X transfer) db' = Some ''committed''
   \<and> (\<exists>raw. rd_get R (k_room (re_prefix X) roomId) db = Some raw \<and> server_of X raw = OwnerIs (Some (JString source)))
   \<and> rd_get R (k_room (re_prefix X) roomId) db' = Some (directory_value X p now)
   \<and> list_all (\<lambda>u. (\<exists>raw. rd_get R (k_userActiveRoom (re_prefix X) u) db = Some raw \<and> server_of X raw = OwnerIs (Some (JString source)))
       \<and> rd_get R (k_userActiveRoom (re_prefix X) u) db' = Some (assigned_claim X (''adopt:'' @ transfer) roomId)) users"

lemma claim_step_moves:
  assumes R: "redis_laws R view" and ok: "claim_ok X source transfer roomId users p now pc"
    and step: "claim_step R X source transfer roomId users p now ends (pc, db) = (pc', db')"
  shows "db' = db \<and> pc' \<noteq> CaDone \<or> pc = CaDone \<and> db' = db \<or> taken_over R X source transfer roomId users p now db db'"
  (is "?nothing \<or> ?over \<or> ?moved")
proof (cases pc)
  case (CaSwap reps)
  show ?thesis
  proof (cases "compareAndSetMany R reps db")
    case None
    then show ?thesis using step CaSwap by (auto simp: claim_step_def)
  next
    case (Some x)
    obtain moved db1 where many: "compareAndSetMany R reps db = Some (moved, db1)" using Some by (cases x) auto
    show ?thesis
    proof (cases "moved \<and> ends \<noteq> Down")
      case True
      then have "db' = db1" using step CaSwap many by (auto simp: claim_step_def split: if_splits)
      then have each: "list_all (\<lambda>a. rd_get R (at_key a) db = at_expected a \<and> rd_get R (at_key a) db' = Some (at_value a)) reps"
        using set_many [OF R many] True by simp
      obtain h d ms where reps: "reps = h # d # ms" "at_key h = handoff_key X transfer" "at_expected h = Some ''pending''" "at_value h = ''committed''"
          "at_key d = k_room (re_prefix X) roomId" "\<exists>raw. at_expected d = Some raw \<and> server_of X raw = OwnerIs (Some (JString source))"
          "at_value d = directory_value X p now" "list_all2 (member_ok X source transfer roomId) users ms"
        using ok unfolding CaSwap claim_ok.simps takeover_ok_def by blast
      have "list_all (\<lambda>u. (\<exists>raw. rd_get R (k_userActiveRoom (re_prefix X) u) db = Some raw \<and> server_of X raw = OwnerIs (Some (JString source)))
          \<and> rd_get R (k_userActiveRoom (re_prefix X) u) db' = Some (assigned_claim X (''adopt:'' @ transfer) roomId)) users"
        unfolding list_all_iff
      proof
        fix u
        assume "u \<in> set users"
        then obtain a where a: "a \<in> set ms" "member_ok X source transfer roomId u a"
          using reps(8) by (metis in_set_conv_nth list_all2_conv_all_nth nth_mem)
        have "a \<in> set reps" using a(1) by (simp add: reps(1))
        then have "rd_get R (at_key a) db = at_expected a" "rd_get R (at_key a) db' = Some (at_value a)" using each by (auto simp: list_all_iff)
        then show "(\<exists>raw. rd_get R (k_userActiveRoom (re_prefix X) u) db = Some raw \<and> server_of X raw = OwnerIs (Some (JString source)))
            \<and> rd_get R (k_userActiveRoom (re_prefix X) u) db' = Some (assigned_claim X (''adopt:'' @ transfer) roomId)"
          using a(2) unfolding member_ok_def by auto
      qed
      then have ?moved using each reps(2-7) unfolding taken_over_def by (auto simp: reps(1))
      then show ?thesis by blast
    next
      case False
      have "db' = db" using step CaSwap many False set_many [OF R many, of undefined] by (auto simp: claim_step_def split: if_splits)
      moreover have "pc' \<noteq> CaDone" using step CaSwap many False by (auto simp: claim_step_def split: if_splits)
      ultimately show ?thesis by blast
    qed
  qed
next
  case (CaMember us reps)
  then show ?thesis using step by (cases us) (auto simp: claim_step_def claim_next_def split: if_splits option.splits)
qed (use step in \<open>auto simp: claim_step_def claim_next_def split: if_splits option.splits\<close>)

text \<open>
  C15. A room is taken over as a whole or not at all. Whatever changes between the reads of a takeover, its last call either leaves everything as
  it is, or finds the transfer pending, the directory entry and the claim of every member still with the old server, and moves all of
  them to the new one. The takeover is done only when that has happened.
\<close>

theorem takeover_atomic:
  assumes R: "redis_laws R view" and ok: "claim_ok X source transfer roomId users p now pc"
    and step: "claim_step R X source transfer roomId users p now ends (pc, db) = (pc', db')"
  shows "claim_ok X source transfer roomId users p now pc' \<and>
    (db' = db \<and> pc' \<noteq> CaDone \<or> pc = CaDone \<and> db' = db \<or> taken_over R X source transfer roomId users p now db db')"
  using claim_ok_step [OF ok step] claim_step_moves [OF R ok step] by blast

text \<open>
  Every server may try to take a room over; anything else happens as well, except that the transfer is declared pending a second time.
  The second component counts the takeovers that took effect.
\<close>

inductive handover_step :: "'db redis \<Rightarrow> string \<Rightarrow> 'db \<times> nat \<Rightarrow> 'db \<times> nat \<Rightarrow> bool" for R key where
  takeover: "claim_ok X source transfer roomId users p now pc \<Longrightarrow> handoff_key X transfer = key
    \<Longrightarrow> claim_step R X source transfer roomId users p now ends (pc, db) = (pc', db')
    \<Longrightarrow> handover_step R key (db, n) (db', if db' \<noteq> db then n + 1 else n)"
| elsewhere: "(rd_get R key db' = Some ''pending'' \<Longrightarrow> rd_get R key db = Some ''pending'') \<Longrightarrow> handover_step R key (db, n) (db', n)"

text \<open>
  C16. A room is handed over once. However many servers try to take the room of one transfer over and whatever else happens, at most one
  takeover takes effect.
\<close>

theorem handover_once:
  assumes R: "redis_laws R view" and run: "(handover_step R key)\<^sup>*\<^sup>* (db0, 0) (db, n)"
  shows "n \<le> 1 \<and> (rd_get R key db = Some ''pending'' \<longrightarrow> n = 0)"
  using run
proof (induction "(db, n)" arbitrary: db n rule: rtranclp_induct)
  case (step y)
  obtain db1 n1 where y: "y = (db1, n1)" by fastforce
  have IH: "n1 \<le> 1" "rd_get R key db1 = Some ''pending'' \<Longrightarrow> n1 = 0" using step(3) [OF y] by blast+
  from step(2) [unfolded y] show ?case
  proof cases
    case (takeover X source transfer roomId users p now pc ends pc')
    have "db = db1 \<or> rd_get R key db1 = Some ''pending'' \<and> rd_get R key db = Some ''committed''"
      using claim_step_moves [OF R takeover(2,4)] takeover(3) unfolding taken_over_def by blast
    then show ?thesis using IH takeover(1) by auto
  next
    case elsewhere
    then show ?thesis using IH by auto
  qed
qed simp

section \<open>An instance\<close>

definition demo_registry :: registry_env where
  "demo_registry = \<lparr>re_prefix = [], re_serverId = ''new'',
     re_parse = (\<lambda>s. if s = ''old-entry'' then Some (JObject [(''serverId'', JString ''old'')]) else None), re_stringify = (\<lambda>_. ''new-entry'')\<rparr>"

definition demo_store :: keyspace where
  "demo_store = Map.empty(handoff_key demo_registry ''t'' \<mapsto> (''pending'', None), k_room [] ''r'' \<mapsto> (''old-entry'', None))"

definition demo_swap :: "atomic_replacement list" where
  "demo_swap = [\<lparr>at_key = handoff_key demo_registry ''t'', at_expected = Some ''pending'', at_value = ''committed'', at_ttlMs = HANDOFF_TTL_MS\<rparr>,
     \<lparr>at_key = k_room [] ''r'', at_expected = Some ''old-entry'', at_value = ''new-entry'', at_ttlMs = HEARTBEAT_TTL_MS\<rparr>]"

definition demo_taken :: keyspace where
  "demo_taken = demo_store(handoff_key demo_registry ''t'' \<mapsto> (''committed'', Some HANDOFF_TTL_MS), k_room [] ''r'' \<mapsto> (''new-entry'', Some HEARTBEAT_TTL_MS))"

lemma demo_keys: "handoff_key demo_registry ''t'' \<noteq> k_room [] ''r''"
  by (simp add: handoff_key_def k_operation_def k_room_def demo_registry_def)

lemma demo_swap_ok: "claim_ok demo_registry ''old'' ''t'' ''r'' [] p now (CaSwap demo_swap)"
  by (auto simp: takeover_ok_def demo_swap_def directory_value_def demo_registry_def server_of_def js_get_def)

lemma demo_swap_step: "claim_step memory_redis demo_registry ''old'' ''t'' ''r'' [] p now Works (CaSwap demo_swap, demo_store) = (CaDone, demo_taken)"
  using demo_keys
  by (simp add: claim_step_def compareAndSetMany_def demo_swap_def demo_taken_def demo_store_def memory_redis_def HANDOFF_TTL_MS_def HEARTBEAT_TTL_MS_def fun_upd_twist)

theorem registry_spares_others_witness:
  "case task_step memory_redis demo_registry Works (TRetire ''r'' None RtLook, demo_store) of (t, db) \<Rightarrow> rd_get memory_redis (k_room [] ''r'') db = Some ''old-entry''"
proof -
  obtain t db where step: "task_step memory_redis demo_registry Works (TRetire ''r'' None RtLook, demo_store) = (t, db)" by fastforce
  have "guarded demo_registry (k_room [] ''r'')" "rd_get memory_redis (k_room [] ''r'') demo_store = Some ''old-entry''" "\<not> own demo_registry ''old-entry''"
    by (auto simp: guarded_def demo_registry_def demo_store_def memory_redis_def own_def server_of_def js_get_def)
  from registry_spares_others [OF memory_redis_laws task_ok_begin(2) step this] show ?thesis unfolding step prod.case by (rule conjunct1)
qed

theorem takeover_atomic_witness: "rd_get memory_redis (handoff_key demo_registry ''t'') demo_taken = Some ''committed''"
  using takeover_atomic [OF memory_redis_laws demo_swap_ok demo_swap_step] demo_keys unfolding taken_over_def by (auto simp: memory_redis_def demo_taken_def)

theorem handover_once_witness: "rd_get memory_redis (handoff_key demo_registry ''t'') demo_taken \<noteq> Some ''pending''"
proof -
  have moved: "demo_taken \<noteq> demo_store"
    using demo_keys by (auto simp: demo_taken_def demo_store_def dest: fun_cong [of _ _ "handoff_key demo_registry ''t''"])
  have "handover_step memory_redis (handoff_key demo_registry ''t'') (demo_store, 0) (demo_taken, if demo_taken \<noteq> demo_store then 0 + 1 else 0)"
    by (rule handover_step.takeover [OF demo_swap_ok refl demo_swap_step])
  then have "(handover_step memory_redis (handoff_key demo_registry ''t''))\<^sup>*\<^sup>* (demo_store, 0) (demo_taken, 1)" using moved by (simp add: r_into_rtranclp)
  from handover_once [OF memory_redis_laws this] show ?thesis by simp
qed

end
