(* ===== verification/Control.thy ===== *)
theory Control
  imports Messages JsText
begin

text \<open>
  \<open>server-game/src/redis/control-codec.ts\<close>: the commands that the match server sends to a game server and the replies. \<open>JSON.parse\<close>
  and \<open>JSON.stringify\<close> are arguments. After its checks the code casts the payload to its type; \<open>read_body\<close> reads what the handlers
  use of it. What is never checked - the statistics of a player and most fields of an adopted room - is read by
  \<open>payload_casts\<close>.
\<close>

section \<open>Texts\<close>

definition CONTROL_VERSION :: js_number where "CONTROL_VERSION = Fin 1"

definition hex_char :: "char \<Rightarrow> bool" where
  "hex_char c \<longleftrightarrow> digit_value c < 16"

text \<open>The two regular expressions, which ignore case.\<close>

definition uuid_v4 :: "string \<Rightarrow> bool" where
  "uuid_v4 s \<longleftrightarrow> length s = 36
     \<and> list_all (\<lambda>i. if i \<in> {8, 13, 18, 23} then s ! i = CHR ''-'' else hex_char (s ! i)) [0..<36]
     \<and> s ! 14 = CHR ''4'' \<and> s ! 19 \<in> set ''89abAB''"

definition guest_actor :: "string \<Rightarrow> bool" where
  "guest_actor s \<longleftrightarrow> length s = 38 \<and> s ! 0 \<in> set ''gG'' \<and> s ! 1 = CHR '':'' \<and> uuid_v4 (drop 2 s)"

definition isControlRequestId :: "json option \<Rightarrow> bool" where
  "isControlRequestId v = (case v of Some (JString s) \<Rightarrow> uuid_v4 s | _ \<Rightarrow> False)"

definition is_actor :: "json option \<Rightarrow> bool" where
  "is_actor v = (case v of
     Some (JString s) \<Rightarrow> guest_actor s
   | Some x \<Rightarrow> (case safe_integer x of Some n \<Rightarrow> 0 < n | None \<Rightarrow> False)
   | None \<Rightarrow> False)"

definition is_text :: "json option \<Rightarrow> bool" where
  "is_text v = (case v of Some (JString s) \<Rightarrow> s \<noteq> [] | _ \<Rightarrow> False)"

definition boundedText :: "json option \<Rightarrow> nat \<Rightarrow> bool" where
  "boundedText v maxLength = (case v of Some (JString s) \<Rightarrow> s \<noteq> [] \<and> length s \<le> maxLength | _ \<Rightarrow> False)"

definition nullableBoundedText :: "json option \<Rightarrow> nat \<Rightarrow> bool" where
  "nullableBoundedText v maxLength = (case v of Some JNull \<Rightarrow> True | Some (JString s) \<Rightarrow> length s \<le> maxLength | _ \<Rightarrow> False)"

definition is_number :: "json option \<Rightarrow> bool" where
  "is_number v = (case v of Some (JNumber _) \<Rightarrow> True | _ \<Rightarrow> False)"

definition is_bool :: "json option \<Rightarrow> bool" where
  "is_bool v = (case v of Some (JBool _) \<Rightarrow> True | _ \<Rightarrow> False)"

text \<open>\<open>[A-HJ-NP-Z2-9]{6}\<close>.\<close>

definition room_code_char :: "char \<Rightarrow> bool" where
  "room_code_char c \<longleftrightarrow> (let k = char_code c in 65 \<le> k \<and> k \<le> 72 \<or> 74 \<le> k \<and> k \<le> 78 \<or> 80 \<le> k \<and> k \<le> 90 \<or> 50 \<le> k \<and> k \<le> 57)"

definition is_room_code :: "string \<Rightarrow> bool" where
  "is_room_code s \<longleftrightarrow> length s = 6 \<and> list_all room_code_char s"

section \<open>Payloads\<close>

definition is_training :: "json option \<Rightarrow> bool" where
  "is_training v \<longleftrightarrow> v = Some (JString ''training'')"

definition createRoomPayload :: "(string, json) js_map \<Rightarrow> bool" where
  "createRoomPayload m \<longleftrightarrow>
     boundedText (js_get m ''matchId'') 128
   \<and> (case js_get m ''roomCode'' of Some (JString s) \<Rightarrow> is_room_code s | _ \<Rightarrow> False)
   \<and> boundedText (js_get m ''roomName'') 20
   \<and> nullableBoundedText (js_get m ''password'') 32
   \<and> is_actor (js_get m ''ownerUserId'')
   \<and> boundedText (js_get m ''ownerNickname'') 20
   \<and> (case js_get m ''capacity'' of None \<Rightarrow> False | Some v \<Rightarrow> (case safe_integer v of None \<Rightarrow> False
        | Some n \<Rightarrow> (if is_training (js_get m ''mode'') then 1 else 2) \<le> n \<and> n \<le> MAX_PLAYERS_PER_ROOM))
   \<and> boundedText (js_get m ''mapId'') 64
   \<and> (js_get m ''mode'' = None \<or> js_get m ''mode'' = Some (JString ''match'') \<or> is_training (js_get m ''mode''))"

definition reserveJoinPayload :: "(string, json) js_map \<Rightarrow> bool" where
  "reserveJoinPayload m \<longleftrightarrow>
     boundedText (js_get m ''roomId'') 128 \<and> is_actor (js_get m ''userId'')
   \<and> boundedText (js_get m ''nickname'') 20 \<and> nullableBoundedText (js_get m ''password'') 32"

definition reserveResumePayload :: "(string, json) js_map \<Rightarrow> bool" where
  "reserveResumePayload m \<longleftrightarrow> boundedText (js_get m ''roomId'') 128 \<and> is_actor (js_get m ''userId'')"

definition releaseSeatPayload :: "(string, json) js_map \<Rightarrow> bool" where
  "releaseSeatPayload m \<longleftrightarrow> boundedText (js_get m ''roomId'') 128 \<and> is_actor (js_get m ''userId'')"

definition kickUserPayload :: "(string, json) js_map \<Rightarrow> bool" where
  "kickUserPayload m \<longleftrightarrow> boundedText (js_get m ''roomId'') 128 \<and> is_actor (js_get m ''userId'') \<and> boundedText (js_get m ''reason'') 256"

definition deleteReplayPayload :: "(string, json) js_map \<Rightarrow> bool" where
  "deleteReplayPayload m \<longleftrightarrow> boundedText (js_get m ''replayId'') 128 \<and> boundedText (js_get m ''storageKey'') 1024"

definition grantMatchPayload :: "(string, json) js_map \<Rightarrow> bool" where
  "grantMatchPayload m \<longleftrightarrow> boundedText (js_get m ''roomId'') 64 \<and> isControlRequestId (js_get m ''matchId'')"

definition adopted_member_payload :: "json \<Rightarrow> bool" where
  "adopted_member_payload v = (case v of
     JObject m \<Rightarrow>
       (is_number (js_get m ''userId'') \<or> is_text (js_get m ''userId''))
     \<and> is_number (js_get m ''playerId'') \<and> is_number (js_get m ''slot'') \<and> is_text (js_get m ''nickname'')
     \<and> is_bool (js_get m ''guest'') \<and> is_bool (js_get m ''isHost'')
   | _ \<Rightarrow> False)"

definition adoptRoomPayload :: "(string, json) js_map \<Rightarrow> bool" where
  "adoptRoomPayload m \<longleftrightarrow>
     (js_get m ''sourceServerId'' = None \<or> is_text (js_get m ''sourceServerId''))
   \<and> (js_get m ''transferId'' = None \<or> is_text (js_get m ''transferId''))
   \<and> list_all (\<lambda>k. is_text (js_get m k)) [''serverId'', ''roomId'', ''roomCode'', ''matchId'', ''name'', ''mapId'', ''mode'']
   \<and> is_number (js_get m ''capacity'')
   \<and> (case js_get m ''playedGames'' of None \<Rightarrow> True | Some v \<Rightarrow> (case safe_integer v of None \<Rightarrow> False | Some n \<Rightarrow> 0 \<le> n))
   \<and> (js_get m ''grantedMatchId'' = None \<or> js_get m ''grantedMatchId'' = Some JNull \<or> is_text (js_get m ''grantedMatchId''))
   \<and> (js_get m ''locked'' = None \<or> is_bool (js_get m ''locked''))
   \<and> (js_get m ''password'' = Some JNull \<or> is_text (js_get m ''password''))
   \<and> (case js_get m ''members'' of
        Some (JArray xs) \<Rightarrow> xs \<noteq> [] \<and> int (length xs) \<le> MAX_PLAYERS_PER_ROOM \<and> list_all adopted_member_payload xs
      | _ \<Rightarrow> False)"

definition control_validPayload :: "string \<Rightarrow> json option \<Rightarrow> bool" where
  "control_validPayload type payload = (case payload of
     Some (JObject m) \<Rightarrow>
       (if type = ''CREATE_ROOM'' then createRoomPayload m
        else if type = ''RESERVE_JOIN'' then reserveJoinPayload m
        else if type = ''RESERVE_RESUME'' then reserveResumePayload m
        else if type = ''RELEASE_SEAT'' then releaseSeatPayload m
        else if type = ''KICK_USER'' then kickUserPayload m
        else if type = ''DRAIN_SERVER'' then is_text (js_get m ''serverId'')
        else if type = ''ADOPT_ROOM'' then adoptRoomPayload m
        else if type = ''DELETE_REPLAY'' then deleteReplayPayload m
        else if type = ''GRANT_MATCH'' then grantMatchPayload m
        else False)
   | _ \<Rightarrow> False)"

section \<open>Commands\<close>

record control_command =
  cm_requestId :: string
  cm_type :: string
  cm_issuedAt :: real
  cm_deadlineAt :: real
  cm_replyTo :: string
  cm_payload :: "(string, json) js_map"

text \<open>The text at a key that the checks have found to be one.\<close>

definition text_at :: "(string, json) js_map \<Rightarrow> string \<Rightarrow> string" where
  "text_at m k = (case js_get m k of Some (JString s) \<Rightarrow> s | _ \<Rightarrow> [])"

definition finite_at :: "(string, json) js_map \<Rightarrow> string \<Rightarrow> real option" where
  "finite_at m k = (case js_get m k of Some (JNumber (Fin r)) \<Rightarrow> Some r | _ \<Rightarrow> None)"

text \<open>\<open>None\<close> is the error of a malformed command.\<close>

definition decodeCommand :: "(string \<Rightarrow> json option) \<Rightarrow> string \<Rightarrow> control_command option" where
  "decodeCommand parse text' = (case parse text' of
     Some (JObject m) \<Rightarrow>
       if js_get m ''v'' \<noteq> Some (JNumber CONTROL_VERSION) \<or> \<not> isControlRequestId (js_get m ''requestId'') \<or> \<not> is_text (js_get m ''type'')
       then None
       else (case (finite_at m ''issuedAt'', finite_at m ''deadlineAt'') of
           (Some issued, Some deadline) \<Rightarrow>
             if deadline < issued \<or> \<not> is_text (js_get m ''replyTo'') \<or> \<not> control_validPayload (text_at m ''type'') (js_get m ''payload'') then None
             else Some \<lparr>cm_requestId = text_at m ''requestId'', cm_type = text_at m ''type'', cm_issuedAt = issued, cm_deadlineAt = deadline,
               cm_replyTo = text_at m ''replyTo'', cm_payload = (case js_get m ''payload'' of Some (JObject p) \<Rightarrow> p | _ \<Rightarrow> [])\<rparr>
         | _ \<Rightarrow> None)
   | _ \<Rightarrow> None)"

record create_payload =
  cp_matchId :: string
  cp_roomCode :: string
  cp_roomName :: string
  cp_password :: "string option"
  cp_ownerUserId :: actor_id
  cp_ownerNickname :: string
  cp_ownerStats :: "lobby_stats option"
  cp_capacity :: int
  cp_mapId :: string
  cp_mode :: "room_mode option"

record join_payload =
  jp_roomId :: string
  jp_userId :: actor_id
  jp_nickname :: string
  jp_stats :: "lobby_stats option"
  jp_password :: "string option"

datatype 'adopt command_body =
    CreateRoomBody create_payload
  | ReserveJoinBody join_payload
  | ReserveResumeBody string actor_id
  | ReleaseSeatBody string actor_id
  | KickUserBody string actor_id string
  | DrainServerBody string
  | AdoptRoomBody "string option" "string option" 'adopt
  | DeleteReplayBody string string
  | GrantMatchBody string string
  | UnknownBody

record 'adopt payload_casts =
  pc_stats :: "json option \<Rightarrow> lobby_stats option"
  pc_adopt :: "(string, json) js_map \<Rightarrow> 'adopt"

definition actor_at :: "(string, json) js_map \<Rightarrow> string \<Rightarrow> actor_id" where
  "actor_at m k = (case js_get m k of
     Some (JString s) \<Rightarrow> Guest s
   | Some v \<Rightarrow> (case safe_integer v of Some n \<Rightarrow> Account n | None \<Rightarrow> Account 0)
   | None \<Rightarrow> Account 0)"

definition nullable_at :: "(string, json) js_map \<Rightarrow> string \<Rightarrow> string option" where
  "nullable_at m k = (case js_get m k of Some (JString s) \<Rightarrow> Some s | _ \<Rightarrow> None)"

definition int_at :: "(string, json) js_map \<Rightarrow> string \<Rightarrow> int" where
  "int_at m k = (case js_get m k of Some v \<Rightarrow> (case safe_integer v of Some n \<Rightarrow> n | None \<Rightarrow> 0) | None \<Rightarrow> 0)"

definition read_create :: "'adopt payload_casts \<Rightarrow> (string, json) js_map \<Rightarrow> create_payload" where
  "read_create P m = \<lparr>cp_matchId = text_at m ''matchId'', cp_roomCode = text_at m ''roomCode'', cp_roomName = text_at m ''roomName'',
     cp_password = nullable_at m ''password'', cp_ownerUserId = actor_at m ''ownerUserId'', cp_ownerNickname = text_at m ''ownerNickname'',
     cp_ownerStats = pc_stats P (js_get m ''ownerStats''), cp_capacity = int_at m ''capacity'', cp_mapId = text_at m ''mapId'',
     cp_mode = (case js_get m ''mode'' of None \<Rightarrow> None | Some v \<Rightarrow> Some (if v = JString ''training'' then TrainingMode else MatchMode))\<rparr>"

definition read_join :: "'adopt payload_casts \<Rightarrow> (string, json) js_map \<Rightarrow> join_payload" where
  "read_join P m = \<lparr>jp_roomId = text_at m ''roomId'', jp_userId = actor_at m ''userId'', jp_nickname = text_at m ''nickname'',
     jp_stats = pc_stats P (js_get m ''stats''), jp_password = nullable_at m ''password''\<rparr>"

definition read_body :: "'adopt payload_casts \<Rightarrow> control_command \<Rightarrow> 'adopt command_body" where
  "read_body P c =
     (let m = cm_payload c; type = cm_type c in
      if type = ''CREATE_ROOM'' then CreateRoomBody (read_create P m)
      else if type = ''RESERVE_JOIN'' then ReserveJoinBody (read_join P m)
      else if type = ''RESERVE_RESUME'' then ReserveResumeBody (text_at m ''roomId'') (actor_at m ''userId'')
      else if type = ''RELEASE_SEAT'' then ReleaseSeatBody (text_at m ''roomId'') (actor_at m ''userId'')
      else if type = ''KICK_USER'' then KickUserBody (text_at m ''roomId'') (actor_at m ''userId'') (text_at m ''reason'')
      else if type = ''DRAIN_SERVER'' then DrainServerBody (text_at m ''serverId'')
      else if type = ''ADOPT_ROOM'' then AdoptRoomBody (nullable_at m ''sourceServerId'') (nullable_at m ''transferId'') (pc_adopt P m)
      else if type = ''DELETE_REPLAY'' then DeleteReplayBody (text_at m ''replayId'') (text_at m ''storageKey'')
      else if type = ''GRANT_MATCH'' then GrantMatchBody (text_at m ''roomId'') (text_at m ''matchId'')
      else UnknownBody)"

section \<open>Replies\<close>

record control_reply =
  rp_requestId :: string
  rp_serverId :: string
  rp_ok :: bool
  rp_code :: "string option"
  rp_payload :: json

fun control_error_text :: "control_error \<Rightarrow> string" where
  "control_error_text CtlServerDraining = ''SERVER_DRAINING''"
| "control_error_text CtlServerFull = ''SERVER_FULL''"
| "control_error_text CtlInvalidMap = ''INVALID_MAP''"
| "control_error_text CtlRoomNotFound = ''ROOM_NOT_FOUND''"
| "control_error_text CtlRoomFull = ''ROOM_FULL''"
| "control_error_text CtlRoomLocked = ''ROOM_LOCKED''"
| "control_error_text CtlBadPassword = ''BAD_PASSWORD''"
| "control_error_text CtlAlreadyInRoom = ''ALREADY_IN_ROOM''"
| "control_error_text CtlKickedFromRoom = ''KICKED_FROM_ROOM''"
| "control_error_text CtlRejoinCooldown = ''REJOIN_COOLDOWN''"
| "control_error_text CtlNoGraceSlot = ''NO_GRACE_SLOT''"
| "control_error_text CtlExpired = ''EXPIRED''"
| "control_error_text CtlInternal = ''INTERNAL''"

definition reply_json :: "control_reply \<Rightarrow> json" where
  "reply_json r = JObject
     [(''v'', JNumber CONTROL_VERSION), (''requestId'', JString (rp_requestId r)), (''serverId'', JString (rp_serverId r)),
      (''ok'', JBool (rp_ok r)), (''code'', case rp_code r of None \<Rightarrow> JNull | Some c \<Rightarrow> JString c), (''payload'', rp_payload r)]"

definition encodeReply :: "(json \<Rightarrow> string) \<Rightarrow> control_reply \<Rightarrow> string" where
  "encodeReply stringify r = stringify (reply_json r)"

definition decodeStoredReply :: "(string \<Rightarrow> json option) \<Rightarrow> string \<Rightarrow> control_reply option" where
  "decodeStoredReply parse text' = (case parse text' of
     Some (JObject m) \<Rightarrow>
       if js_get m ''v'' \<noteq> Some (JNumber CONTROL_VERSION) \<or> \<not> is_text (js_get m ''requestId'') then None
       else (case (js_get m ''serverId'', js_get m ''ok'', js_get m ''code'', js_get m ''payload'') of
           (Some (JString s), Some (JBool ok), Some JNull, Some p) \<Rightarrow>
             Some \<lparr>rp_requestId = text_at m ''requestId'', rp_serverId = s, rp_ok = ok, rp_code = None, rp_payload = p\<rparr>
         | (Some (JString s), Some (JBool ok), Some (JString c), Some p) \<Rightarrow>
             Some \<lparr>rp_requestId = text_at m ''requestId'', rp_serverId = s, rp_ok = ok, rp_code = Some c, rp_payload = p\<rparr>
         | _ \<Rightarrow> None)
   | _ \<Rightarrow> None)"

section \<open>Facts\<close>

text \<open>A reply that was stored is the reply that is read back.\<close>

lemma stored_reply_roundtrip:
  assumes "parse (stringify (reply_json r)) = Some (reply_json r)" and "rp_requestId r \<noteq> []"
  shows "decodeStoredReply parse (encodeReply stringify r) = Some r"
  using assms by (cases "rp_code r") (simp_all add: decodeStoredReply_def encodeReply_def reply_json_def js_get_def is_text_def text_at_def)

text \<open>What the handlers may rely on.\<close>

definition actor_valid :: "actor_id \<Rightarrow> bool" where
  "actor_valid a \<longleftrightarrow> (case a of Account n \<Rightarrow> 0 < n \<and> n < 2 ^ 53 | Guest s \<Rightarrow> guest_actor s)"

definition bounded :: "nat \<Rightarrow> string \<Rightarrow> bool" where
  "bounded n s \<longleftrightarrow> s \<noteq> [] \<and> length s \<le> n"

definition password_ok :: "string option \<Rightarrow> bool" where
  "password_ok p \<longleftrightarrow> (case p of None \<Rightarrow> True | Some s \<Rightarrow> length s \<le> 32)"

fun body_ok :: "'adopt command_body \<Rightarrow> bool" where
  "body_ok (CreateRoomBody p) \<longleftrightarrow> bounded 128 (cp_matchId p) \<and> is_room_code (cp_roomCode p) \<and> bounded 20 (cp_roomName p) \<and> password_ok (cp_password p)
     \<and> actor_valid (cp_ownerUserId p) \<and> bounded 20 (cp_ownerNickname p) \<and> bounded 64 (cp_mapId p)
     \<and> (if cp_mode p = Some TrainingMode then 1 else 2) \<le> cp_capacity p \<and> cp_capacity p \<le> 8"
| "body_ok (ReserveJoinBody p) \<longleftrightarrow> bounded 128 (jp_roomId p) \<and> actor_valid (jp_userId p) \<and> bounded 20 (jp_nickname p) \<and> password_ok (jp_password p)"
| "body_ok (ReserveResumeBody r u) \<longleftrightarrow> bounded 128 r \<and> actor_valid u"
| "body_ok (ReleaseSeatBody r u) \<longleftrightarrow> bounded 128 r \<and> actor_valid u"
| "body_ok (KickUserBody r u reason) \<longleftrightarrow> bounded 128 r \<and> actor_valid u \<and> bounded 256 reason"
| "body_ok (DrainServerBody s) \<longleftrightarrow> s \<noteq> []"
| "body_ok (AdoptRoomBody source transfer p) \<longleftrightarrow> source \<noteq> Some [] \<and> transfer \<noteq> Some []"
| "body_ok (DeleteReplayBody i k) \<longleftrightarrow> bounded 128 i \<and> bounded 1024 k"
| "body_ok (GrantMatchBody r m) \<longleftrightarrow> bounded 64 r \<and> uuid_v4 m"
| "body_ok UnknownBody \<longleftrightarrow> False"

lemma boundedText_at: "boundedText (js_get m k) n \<Longrightarrow> bounded n (text_at m k)"
  by (auto simp: boundedText_def bounded_def text_at_def split: option.splits json.splits)

lemma nullable_ok: "nullableBoundedText (js_get m k) 32 \<Longrightarrow> password_ok (nullable_at m k)"
  by (auto simp: nullableBoundedText_def password_ok_def nullable_at_def split: option.splits json.splits)

lemma safe_integer_bound: "safe_integer v = Some n \<Longrightarrow> n < 2 ^ 53"
  by (auto simp: safe_integer_def split: json.splits js_number.splits if_splits)

lemma actor_at_valid: "is_actor (js_get m k) \<Longrightarrow> actor_valid (actor_at m k)"
proof (cases "js_get m k")
  case (Some v)
  assume "is_actor (js_get m k)"
  then show ?thesis using Some by (cases v) (auto simp: is_actor_def actor_at_def actor_valid_def dest: safe_integer_bound split: option.splits)
qed (simp add: is_actor_def)

lemma is_text_at: "is_text (js_get m k) \<Longrightarrow> text_at m k \<noteq> []"
  by (auto simp: is_text_def text_at_def split: option.splits json.splits)

lemma uuid_at: "isControlRequestId (js_get m k) \<Longrightarrow> uuid_v4 (text_at m k)"
  by (auto simp: isControlRequestId_def text_at_def split: option.splits json.splits)

lemmas at_facts = boundedText_at nullable_ok actor_at_valid is_text_at uuid_at

lemma read_create_ok:
  assumes "createRoomPayload m"
  shows "body_ok (CreateRoomBody (read_create P m))"
proof -
  have parts: "case js_get m ''roomCode'' of Some (JString s) \<Rightarrow> is_room_code s | _ \<Rightarrow> False"
      "case js_get m ''capacity'' of None \<Rightarrow> False | Some v \<Rightarrow> (case safe_integer v of None \<Rightarrow> False
        | Some n \<Rightarrow> (if is_training (js_get m ''mode'') then 1 else 2) \<le> n \<and> n \<le> MAX_PLAYERS_PER_ROOM)"
    using assms unfolding createRoomPayload_def by blast+
  obtain s where code: "js_get m ''roomCode'' = Some (JString s)" "is_room_code s"
    using parts(1) by (cases "js_get m ''roomCode''") (auto split: json.splits)
  obtain v where v: "js_get m ''capacity'' = Some v" using parts(2) by (cases "js_get m ''capacity''") simp_all
  obtain n where n: "safe_integer v = Some n" using parts(2) v by (cases "safe_integer v") simp_all
  have cap: "js_get m ''capacity'' = Some v" "safe_integer v = Some n"
      "(if is_training (js_get m ''mode'') then 1 else 2) \<le> n" "n \<le> 8"
    using parts(2) v n by (simp_all add: MAX_PLAYERS_PER_ROOM_def)
  have mode: "cp_mode (read_create P m) = Some TrainingMode \<longleftrightarrow> is_training (js_get m ''mode'')"
    by (cases "js_get m ''mode''") (auto simp: read_create_def is_training_def)
  have checked: "boundedText (js_get m ''matchId'') 128" "boundedText (js_get m ''roomName'') 20" "nullableBoundedText (js_get m ''password'') 32"
      "is_actor (js_get m ''ownerUserId'')" "boundedText (js_get m ''ownerNickname'') 20" "boundedText (js_get m ''mapId'') 64"
    using assms by (simp_all only: createRoomPayload_def)
  have "cp_capacity (read_create P m) = n" "is_room_code (cp_roomCode (read_create P m))"
    using cap(1,2) code by (simp_all add: read_create_def int_at_def text_at_def)
  moreover have "bounded 128 (cp_matchId (read_create P m))" "bounded 20 (cp_roomName (read_create P m))" "password_ok (cp_password (read_create P m))"
      "actor_valid (cp_ownerUserId (read_create P m))" "bounded 20 (cp_ownerNickname (read_create P m))" "bounded 64 (cp_mapId (read_create P m))"
    using checked at_facts by (simp_all add: read_create_def)
  ultimately show ?thesis using cap(3,4) mode by (simp only: body_ok.simps)
qed

lemma adopt_ok: "adoptRoomPayload m \<Longrightarrow> nullable_at m ''sourceServerId'' \<noteq> Some [] \<and> nullable_at m ''transferId'' \<noteq> Some []"
  by (auto simp: adoptRoomPayload_def nullable_at_def is_text_def split: option.splits json.splits)


definition demo_command :: json where
  "demo_command = JObject [(''v'', JNumber (Fin 1)), (''requestId'', JString ''0123abcd-89ef-4012-8abc-0123456789ab''), (''type'', JString ''RELEASE_SEAT''),
     (''issuedAt'', JNumber (Fin 5)), (''deadlineAt'', JNumber (Fin 9)), (''replyTo'', JString ''answers''),
     (''payload'', JObject [(''roomId'', JString ''room''), (''userId'', JNumber (Fin 7))])]"

lemma demo_uuid: "uuid_v4 ''0123abcd-89ef-4012-8abc-0123456789ab''"
  by code_simp

lemma demo_accepted: "decodeCommand (\<lambda>_. Some demo_command) [] \<noteq> None"
  using demo_uuid
  by (simp add: decodeCommand_def demo_command_def js_get_def isControlRequestId_def CONTROL_VERSION_def is_text_def finite_at_def control_validPayload_def text_at_def
      releaseSeatPayload_def boundedText_def is_actor_def safe_integer_def)


end
