(* ===== verification/CommandConsumer.thy ===== *)
theory CommandConsumer
  imports Registry Control
begin

text \<open>
  \<open>server-game/src/redis/command-consumer.ts\<close>: commands of the match server arrive in a Redis stream at least once, are carried out on the
  rooms, and are answered. The results are kept under the id of the request, here and in Redis. Processing a command is a machine
  with one call per step; between two steps the rooms, the tickets, the registry and Redis change as they like.
\<close>

definition OPERATION_RESULT_TTL_MS :: int where "OPERATION_RESULT_TTL_MS = 60000"

section \<open>State\<close>

record cached_reply =
  ca_reply :: control_reply
  ca_expiresAt :: "int option"

datatype consumer_effect =
    AddReply string control_reply
  | AckEntry string
  | Handled string control_reply
  | BeginDrain
  | RequestPublish
  | LogFailure string

record 'd consumer =
  cn_rooms :: room_manager
  cn_tickets :: "'d ticket_store"
  cn_registry :: registry
  cn_draining :: bool
  cn_operations :: "(string, cached_reply) js_map"
  cn_staged :: "(string, room) js_map"
  cn_out :: "consumer_effect list"

record 'd consumer_env =
  cv_registry :: registry_env
  cv_wsPath :: string
  cv_hash :: "string \<Rightarrow> 'd"
  cv_casts :: "adopt_room_payload payload_casts"
  cv_resolveMapId :: "string \<Rightarrow> string"
  cv_canDrain :: bool
  cv_canDelete :: bool

text \<open>What a step asks of the outside: clock and rooms' environment, fresh random tickets and room ids, and how the call it waited for ended.\<close>

record moment =
  mo_room :: room_env
  mo_random :: "string list"
  mo_roomId :: string
  mo_ends :: call_end

definition moment_now :: "moment \<Rightarrow> int" where "moment_now t = en_now (mo_room t)"

definition cn_emit :: "consumer_effect \<Rightarrow> 'd consumer \<Rightarrow> 'd consumer" where
  "cn_emit x s = s\<lparr>cn_out := cn_out s @ [x]\<rparr>"

definition success_reply :: "'d consumer_env \<Rightarrow> control_command \<Rightarrow> (string \<times> json) list \<Rightarrow> control_reply" where
  "success_reply V c payload = \<lparr>rp_requestId = cm_requestId c, rp_serverId = re_serverId (cv_registry V), rp_ok = True, rp_code = None,
     rp_payload = JObject payload\<rparr>"

definition failure_reply :: "'d consumer_env \<Rightarrow> control_command \<Rightarrow> control_error \<Rightarrow> control_reply" where
  "failure_reply V c code = \<lparr>rp_requestId = cm_requestId c, rp_serverId = re_serverId (cv_registry V), rp_ok = False,
     rp_code = Some (control_error_text code), rp_payload = JNull\<rparr>"

section \<open>Commands that do not wait\<close>

definition reservation_for ::
    "'d consumer_env \<Rightarrow> int \<Rightarrow> actor_id \<Rightarrow> string \<Rightarrow> string \<Rightarrow> bool \<Rightarrow> lobby_stats option \<Rightarrow> seat_reservation" where
  "reservation_for V issuedAt u nickname roomId resume stats = \<lparr>sr_userId = u, sr_nickname = nickname, sr_lobbyStats = stats, sr_roomId = roomId,
     sr_serverId = re_serverId (cv_registry V), sr_issuedAt = issuedAt, sr_expiresAt = issuedAt + SEAT_RESERVATION_TTL_MS, sr_resume = resume\<rparr>"

definition grant_json :: "'d consumer_env \<Rightarrow> issued_ticket \<Rightarrow> (string \<times> json) list" where
  "grant_json V i = [(''wsPath'', JString (cv_wsPath V)), (''ticket'', JString (it_ticket i)), (''expiresAt'', int_json (it_expiresAt i))]"

text \<open>
  A ticket for a seat that the room has reserved. If none can be issued, \<open>giveBack\<close> undoes the reservation where the code does.
\<close>

definition issue_seat ::
    "'d consumer_env \<Rightarrow> moment \<Rightarrow> control_command \<Rightarrow> seat_reservation \<Rightarrow> (string \<times> json) list \<Rightarrow> bool \<Rightarrow> 'd consumer \<Rightarrow> control_reply \<times> 'd consumer" where
  "issue_seat V t c res extra giveBack s =
     (case issue_ticket (cv_hash V) (mo_random t) (moment_now t) res (cn_tickets s) of
        (Issued i, tickets) \<Rightarrow>
          (success_reply V c (extra @ grant_json V i),
           s\<lparr>cn_tickets := tickets, cn_registry := trackSeat (sr_roomId res) (sr_userId res) (cm_requestId c) (cn_registry s)\<rparr>)
      | (_, tickets) \<Rightarrow>
          (failure_reply V c CtlInternal,
           s\<lparr>cn_tickets := tickets,
             cn_rooms := if giveBack then snd (mg_releaseSeat (mo_room t) (sr_roomId res) (sr_userId res) (cn_rooms s)) else cn_rooms s\<rparr>))"

definition do_createRoom :: "'d consumer_env \<Rightarrow> moment \<Rightarrow> control_command \<Rightarrow> create_payload \<Rightarrow> 'd consumer \<Rightarrow> control_reply \<times> 'd consumer" where
  "do_createRoom V t c p s =
     (let roomId = mo_roomId t;
          res = reservation_for V (moment_now t) (cp_ownerUserId p) (cp_ownerNickname p) roomId False (cp_ownerStats p);
          mapId = cv_resolveMapId V (cp_mapId p)
      in case createRoom (mo_room t) \<lparr>cr_id = roomId, cr_roomCode = cp_roomCode p, cr_matchId = cp_matchId p, cr_name = cp_roomName p,
             cr_password = cp_password p, cr_capacity = cp_capacity p, cr_mapId = mapId, cr_ownerReservation = res, cr_mode = cp_mode p\<rparr> (cn_rooms s) of
           (Inl code, rooms) \<Rightarrow> (failure_reply V c code, s\<lparr>cn_rooms := rooms\<rparr>)
         | (Inr _, rooms) \<Rightarrow> issue_seat V t c res
             [(''roomId'', JString roomId), (''roomCode'', JString (cp_roomCode p)), (''mapId'', JString mapId)] True (s\<lparr>cn_rooms := rooms\<rparr>))"

definition do_reserveJoin :: "'d consumer_env \<Rightarrow> moment \<Rightarrow> control_command \<Rightarrow> join_payload \<Rightarrow> 'd consumer \<Rightarrow> control_reply \<times> 'd consumer" where
  "do_reserveJoin V t c p s =
     (let res = reservation_for V (moment_now t) (jp_userId p) (jp_nickname p) (jp_roomId p) False (jp_stats p)
      in case mg_reserveJoin (mo_room t) res (jp_password p) (cn_rooms s) of
           (Inl code, rooms) \<Rightarrow> (failure_reply V c code, s\<lparr>cn_rooms := rooms\<rparr>)
         | (Inr _, rooms) \<Rightarrow> issue_seat V t c res [] True (s\<lparr>cn_rooms := rooms\<rparr>))"

definition member_of :: "string \<Rightarrow> actor_id \<Rightarrow> room_manager \<Rightarrow> lobby_member option" where
  "member_of roomId u m = (case mg_get m roomId of None \<Rightarrow> None | Some r \<Rightarrow> getByUser (rm_roster r) u)"

definition do_reserveResume :: "'d consumer_env \<Rightarrow> moment \<Rightarrow> control_command \<Rightarrow> string \<Rightarrow> actor_id \<Rightarrow> 'd consumer \<Rightarrow> control_reply \<times> 'd consumer" where
  "do_reserveResume V t c roomId u s =
     (case member_of roomId u (cn_rooms s) of
        None \<Rightarrow> (failure_reply V c CtlNoGraceSlot, s)
      | Some member \<Rightarrow>
          let res = reservation_for V (moment_now t) u (lm_nickname member) roomId True (lm_stats member)
          in case mg_reserveResume (mo_room t) res (cn_rooms s) of
               (Inl code, rooms) \<Rightarrow> (failure_reply V c code, s\<lparr>cn_rooms := rooms\<rparr>)
             | (Inr _, rooms) \<Rightarrow> issue_seat V t c res [] False (s\<lparr>cn_rooms := rooms\<rparr>))"

definition do_releaseSeat :: "'d consumer_env \<Rightarrow> moment \<Rightarrow> control_command \<Rightarrow> string \<Rightarrow> actor_id \<Rightarrow> 'd consumer \<Rightarrow> control_reply \<times> 'd consumer" where
  "do_releaseSeat V t c roomId u s =
     (let joined = (member_of roomId u (cn_rooms s) \<noteq> None)
      in case mg_releaseSeat (mo_room t) roomId u (cn_rooms s) of
           (Inl code, rooms) \<Rightarrow> (failure_reply V c code, s\<lparr>cn_rooms := rooms\<rparr>)
         | (Inr _, rooms) \<Rightarrow> (success_reply V c [],
             s\<lparr>cn_rooms := rooms, cn_registry := noteReleased (moment_now t) roomId u joined (cn_registry s)\<rparr>))"

definition do_kickUser :: "'d consumer_env \<Rightarrow> moment \<Rightarrow> control_command \<Rightarrow> string \<Rightarrow> actor_id \<Rightarrow> string \<Rightarrow> 'd consumer \<Rightarrow> control_reply \<times> 'd consumer" where
  "do_kickUser V t c roomId u reason s =
     (let joined = (member_of roomId u (cn_rooms s) \<noteq> None)
      in case mg_kickUser (mo_room t) roomId u reason (cn_rooms s) of
           (Inl code, rooms) \<Rightarrow> (failure_reply V c code, s\<lparr>cn_rooms := rooms\<rparr>)
         | (Inr _, rooms) \<Rightarrow> (success_reply V c [],
             s\<lparr>cn_rooms := rooms, cn_registry := noteReleased (moment_now t) roomId u joined (noteKicked roomId u (cn_registry s))\<rparr>))"

definition do_grantMatch :: "'d consumer_env \<Rightarrow> control_command \<Rightarrow> string \<Rightarrow> string \<Rightarrow> 'd consumer \<Rightarrow> control_reply \<times> 'd consumer" where
  "do_grantMatch V c roomId matchId s =
     (case mg_grantMatch roomId matchId (cn_rooms s) of
        (Inl code, rooms) \<Rightarrow> (failure_reply V c code, s\<lparr>cn_rooms := rooms\<rparr>)
      | (Inr _, rooms) \<Rightarrow> (success_reply V c [], s\<lparr>cn_rooms := rooms\<rparr>))"

definition do_drainServer :: "'d consumer_env \<Rightarrow> control_command \<Rightarrow> string \<Rightarrow> 'd consumer \<Rightarrow> control_reply \<times> 'd consumer" where
  "do_drainServer V c serverId s =
     (if serverId \<noteq> re_serverId (cv_registry V) then (failure_reply V c CtlRoomNotFound, s)
      else if \<not> cv_canDrain V then (failure_reply V c CtlInternal, s)
      else (success_reply V c [(''remainingRooms'', nat_json (mg_size (cn_rooms s)))], cn_emit BeginDrain s))"

section \<open>Processing\<close>

datatype process_pc =
    PrGet int
  | PrCooldown join_payload
  | PrKicked join_payload bool
  | PrRemove string
  | PrState string string adopt_room_payload
  | PrClaiming string string adopt_room_payload claim_pc
  | PrResolve string adopt_room_payload
  | PrStore control_reply
  | PrSend control_reply
  | PrAck control_reply
  | PrDone
  | PrThrown

text \<open>The reply is known: it is kept here without an end until the entry is acknowledged.\<close>

definition keep_reply :: "control_command \<Rightarrow> control_reply \<Rightarrow> 'd consumer \<Rightarrow> process_pc \<times> 'd consumer" where
  "keep_reply c r s = (PrStore r, s\<lparr>cn_operations := js_set (cm_requestId c) \<lparr>ca_reply = r, ca_expiresAt = None\<rparr> (cn_operations s)\<rparr>)"

definition finish :: "control_command \<Rightarrow> control_reply \<times> 'd consumer \<Rightarrow> process_pc \<times> 'd consumer" where
  "finish c x = (case x of (r, s) \<Rightarrow> keep_reply c r (cn_emit (Handled (cm_requestId c) r) s))"

definition purge_operations :: "int \<Rightarrow> (string, cached_reply) js_map \<Rightarrow> (string, cached_reply) js_map" where
  "purge_operations now m = js_delete_where (\<lambda>_ k. case ca_expiresAt k of None \<Rightarrow> False | Some e \<Rightarrow> e \<le> now) m"

definition replyFor :: "int \<Rightarrow> control_command \<Rightarrow> 'd consumer \<Rightarrow> process_pc \<times> 'd consumer" where
  "replyFor now c s0 =
     (let s = s0\<lparr>cn_operations := purge_operations now (cn_operations s0)\<rparr>
      in case js_get (cn_operations s) (cm_requestId c) of
           None \<Rightarrow> (PrGet now, s)
         | Some k \<Rightarrow> (PrStore (ca_reply k), s\<lparr>cn_operations := js_set (cm_requestId c) (k\<lparr>ca_expiresAt := None\<rparr>) (cn_operations s)\<rparr>))"

text \<open>The end of an adoption: the room opens here.\<close>

definition adopt_commit :: "'d consumer_env \<Rightarrow> moment \<Rightarrow> control_command \<Rightarrow> string \<Rightarrow> adopt_room_payload \<Rightarrow> 'd consumer \<Rightarrow> process_pc \<times> 'd consumer" where
  "adopt_commit V t c transfer p s =
     (case js_get (cn_staged s) (cm_requestId c) of
        None \<Rightarrow> (PrThrown, s)
      | Some r \<Rightarrow> finish c (success_reply V c [],
          cn_emit RequestPublish (s\<lparr>cn_rooms := commitAdoptedRoom (mo_room t) r (cn_rooms s),
            cn_registry := trackAdoptedRoom transfer p (cn_registry s), cn_staged := js_delete (cm_requestId c) (cn_staged s)\<rparr>)))"

definition adopt_begin :: "'d consumer_env \<Rightarrow> moment \<Rightarrow> control_command \<Rightarrow> string option \<Rightarrow> string option \<Rightarrow> adopt_room_payload \<Rightarrow> 'd consumer \<Rightarrow> process_pc \<times> 'd consumer" where
  "adopt_begin V t c source transfer p s =
     (if ar_serverId p \<noteq> re_serverId (cv_registry V) then finish c (failure_reply V c CtlRoomNotFound, s)
      else if cn_draining s \<and> \<not> js_has (cn_staged s) (cm_requestId c) then finish c (failure_reply V c CtlServerDraining, s)
      else case (source, transfer) of
             (Some src, Some tr) \<Rightarrow>
               if src = [] \<or> tr = [] then finish c (failure_reply V c CtlInternal, s)
               else if js_has (cn_staged s) (cm_requestId c) then (PrState src tr p, s)
               else (case adoptRoom (mo_room t) p True (cn_rooms s) of
                   (Inl code, rooms) \<Rightarrow> finish c (failure_reply V c code, s\<lparr>cn_rooms := rooms\<rparr>)
                 | (Inr r, rooms) \<Rightarrow> (PrState src tr p, s\<lparr>cn_rooms := rooms, cn_staged := js_set (cm_requestId c) r (cn_staged s)\<rparr>))
           | _ \<Rightarrow> finish c (failure_reply V c CtlInternal, s))"

definition execute :: "'d consumer_env \<Rightarrow> moment \<Rightarrow> control_command \<Rightarrow> 'd consumer \<Rightarrow> process_pc \<times> 'd consumer" where
  "execute V t c s =
     (if cn_draining s \<and> (cm_type c = ''CREATE_ROOM'' \<or> cm_type c = ''RESERVE_JOIN'') then finish c (failure_reply V c CtlServerDraining, s)
      else case read_body (cv_casts V) c of
          CreateRoomBody p \<Rightarrow> finish c (do_createRoom V t c p s)
        | ReserveJoinBody p \<Rightarrow> (PrCooldown p, s)
        | ReserveResumeBody r u \<Rightarrow> finish c (do_reserveResume V t c r u s)
        | ReleaseSeatBody r u \<Rightarrow> finish c (do_releaseSeat V t c r u s)
        | KickUserBody r u reason \<Rightarrow> finish c (do_kickUser V t c r u reason s)
        | DrainServerBody i \<Rightarrow> finish c (do_drainServer V c i s)
        | AdoptRoomBody source transfer p \<Rightarrow> adopt_begin V t c source transfer p s
        | DeleteReplayBody i k \<Rightarrow> if cv_canDelete V then (PrRemove k, s) else finish c (failure_reply V c CtlInternal, s)
        | GrantMatchBody r m \<Rightarrow> finish c (do_grantMatch V c r m s)
        | UnknownBody \<Rightarrow> finish c (failure_reply V c CtlInternal, s))"

definition stored_reply :: "'d consumer_env \<Rightarrow> control_command \<Rightarrow> string option \<Rightarrow> control_reply option" where
  "stored_reply V c stored =
     (case stored of
        None \<Rightarrow> None
      | Some raw \<Rightarrow> (case decodeStoredReply (re_parse (cv_registry V)) raw of
            None \<Rightarrow> None
          | Some r \<Rightarrow> if rp_requestId r = cm_requestId c \<and> rp_serverId r = re_serverId (cv_registry V) then Some r else None))"

definition committed :: "'db redis \<Rightarrow> 'd consumer_env \<Rightarrow> string \<Rightarrow> 'db \<Rightarrow> bool" where
  "committed R V transfer db \<longleftrightarrow> rd_get R (handoff_key (cv_registry V) transfer) db = Some ''committed''"

text \<open>One call of the processing of a command whose stream entry is \<open>entry\<close>.\<close>

fun process_step :: "'db redis \<Rightarrow> 'd consumer_env \<Rightarrow> moment \<Rightarrow> string \<Rightarrow> control_command
    \<Rightarrow> process_pc \<times> 'd consumer \<times> 'db \<Rightarrow> process_pc \<times> 'd consumer \<times> 'db" where
  "process_step R V t entry c (PrGet now, s, db) =
     (if mo_ends t \<noteq> Works then (PrThrown, s, db)
      else case stored_reply V c (rd_get R (k_operation (re_prefix (cv_registry V)) (cm_requestId c)) db) of
          Some r \<Rightarrow> (case keep_reply c r s of (pc, s') \<Rightarrow> (pc, s', db))
        | None \<Rightarrow>
            (case if cm_deadlineAt c < of_int now \<and> \<not> js_has (cn_staged s) (cm_requestId c)
                  then finish c (failure_reply V c CtlExpired, s) else execute V t c s of
               (pc, s') \<Rightarrow> (pc, s', db)))"
| "process_step R V t entry c (PrCooldown p, s, db) =
     (if mo_ends t \<noteq> Works then (PrThrown, s, db)
      else (PrKicked p (rd_get R (k_roomRejoin (re_prefix (cv_registry V)) (jp_roomId p) (jp_userId p)) db \<noteq> None), s, db))"
| "process_step R V t entry c (PrKicked p cooling, s, db) =
     (if mo_ends t \<noteq> Works then (PrThrown, s, db)
      else (case finish c
              (if cooling then (failure_reply V c CtlRejoinCooldown, s)
               else if rd_get R (kick_marker (re_prefix (cv_registry V)) (jp_roomId p) (jp_userId p)) db \<noteq> None then (failure_reply V c CtlKickedFromRoom, s)
               else do_reserveJoin V t c p s) of
          (pc, s') \<Rightarrow> (pc, s', db)))"
| "process_step R V t entry c (PrRemove k, s, db) =
     (case finish c (if mo_ends t = Works then (success_reply V c [], s)
            else (failure_reply V c CtlInternal, cn_emit (LogFailure k) s)) of
        (pc, s') \<Rightarrow> (pc, s', db))"
| "process_step R V t entry c (PrState src tr p, s, db) =
     (if mo_ends t \<noteq> Works then (PrResolve tr p, s, db)
      else if committed R V tr db then (case adopt_commit V t c tr p s of (pc, s') \<Rightarrow> (pc, s', db))
      else (PrClaiming src tr p (claim_begin (cv_registry V) (Some src) (Some tr)), s, db))"
| "process_step R V t entry c (PrClaiming src tr p k, s, db) =
     (case js_get (cn_staged s) (cm_requestId c) of
        None \<Rightarrow> (PrThrown, s, db)
      | Some r \<Rightarrow>
         (case claim_step R (cv_registry V) src tr (ar_roomId p) (map ad_userId (ar_members p)) (projection r) (moment_now t) (mo_ends t) (k, db) of
            (k', db') \<Rightarrow>
              if k' = CaDone then (case adopt_commit V t c tr p s of (pc, s') \<Rightarrow> (pc, s', db'))
              else if k' = CaFailed then (PrResolve tr p, s, db')
              else (PrClaiming src tr p k', s, db')))"
| "process_step R V t entry c (PrResolve tr p, s, db) =
     (if mo_ends t \<noteq> Works then (PrThrown, s, db)
      else if committed R V tr db then (case adopt_commit V t c tr p s of (pc, s') \<Rightarrow> (pc, s', db))
      else (case finish c (failure_reply V c CtlInternal,
               s\<lparr>cn_staged := js_delete (cm_requestId c) (cn_staged s), cn_rooms := discardStagedRoom (ar_roomId p) (cn_rooms s)\<rparr>) of
          (pc, s') \<Rightarrow> (pc, s', db)))"
| "process_step R V t entry c (PrStore r, s, db) =
     (if mo_ends t = Works then PrSend r else PrThrown, s,
      if mo_ends t = Down then db
      else setPx R (k_operation (re_prefix (cv_registry V)) (cm_requestId c)) (encodeReply (re_stringify (cv_registry V)) r) OPERATION_RESULT_TTL_MS db)"
| "process_step R V t entry c (PrSend r, s, db) =
     (if mo_ends t = Works then PrAck r else PrThrown, if mo_ends t = Down then s else cn_emit (AddReply (cm_replyTo c) r) s, db)"
| "process_step R V t entry c (PrAck r, s, db) =
     (if mo_ends t = Works then PrDone else PrThrown,
      let s1 = (if mo_ends t = Down then s else cn_emit (AckEntry entry) s)
      in if mo_ends t \<noteq> Works then s1
         else (case js_get (cn_operations s1) (cm_requestId c) of
             None \<Rightarrow> s1
           | Some k \<Rightarrow> s1\<lparr>cn_operations :=
               js_set (cm_requestId c) (k\<lparr>ca_expiresAt := Some (moment_now t + OPERATION_RESULT_TTL_MS)\<rparr>) (cn_operations s1)\<rparr>), db)"
| "process_step R V t entry c (PrDone, s, db) = (PrDone, s, db)"
| "process_step R V t entry c (PrThrown, s, db) = (PrThrown, s, db)"

section \<open>Entries of the stream\<close>

text \<open>The id and the address that can still be read of a command that does not decode.\<close>

definition poison_address :: "'d consumer_env \<Rightarrow> string \<Rightarrow> string option \<Rightarrow> string \<times> string option" where
  "poison_address V entry raw =
     (let synthetic = ''invalid:'' @ re_serverId (cv_registry V) @ '':'' @ entry
      in case (case raw of None \<Rightarrow> None | Some x \<Rightarrow> re_parse (cv_registry V) x) of
           Some (JObject m) \<Rightarrow>
             (if isControlRequestId (js_get m ''requestId'') then text_at m ''requestId'' else synthetic,
              if is_text (js_get m ''replyTo'') then Some (text_at m ''replyTo'') else None)
         | _ \<Rightarrow> (synthetic, None))"

definition poison_reply :: "'d consumer_env \<Rightarrow> string \<Rightarrow> control_reply" where
  "poison_reply V requestId = \<lparr>rp_requestId = requestId, rp_serverId = re_serverId (cv_registry V), rp_ok = False,
     rp_code = Some (control_error_text CtlInternal), rp_payload = JNull\<rparr>"

datatype poison_pc = PoSend | PoAck | PoDone | PoThrown

fun poison_step :: "'d consumer_env \<Rightarrow> call_end \<Rightarrow> string \<Rightarrow> string option \<Rightarrow> poison_pc \<times> 'd consumer \<Rightarrow> poison_pc \<times> 'd consumer" where
  "poison_step V ends entry raw (PoSend, s) =
     (case poison_address V entry raw of (i, to) \<Rightarrow>
        (if ends = Works then PoAck else PoThrown,
         if ends = Down then s else cn_emit (AddReply (case to of None \<Rightarrow> k_replies (re_prefix (cv_registry V)) | Some a \<Rightarrow> a) (poison_reply V i)) s))"
| "poison_step V ends entry raw (PoAck, s) =
     (if ends = Works then PoDone else PoThrown, if ends = Down then s else cn_emit (AckEntry entry) s)"
| "poison_step V ends entry raw (PoDone, s) = (PoDone, s)"
| "poison_step V ends entry raw (PoThrown, s) = (PoThrown, s)"

text \<open>How \<open>process\<close> begins: a command, or nothing that can be carried out.\<close>

definition process_begin :: "'d consumer_env \<Rightarrow> int \<Rightarrow> string option \<Rightarrow> 'd consumer \<Rightarrow> (control_command \<times> process_pc) option \<times> 'd consumer" where
  "process_begin V now raw s =
     (case (case raw of None \<Rightarrow> None | Some x \<Rightarrow> decodeCommand (re_parse (cv_registry V)) x) of
        None \<Rightarrow> (None, s)
      | Some c \<Rightarrow> (case replyFor now c s of (pc, s') \<Rightarrow> (Some (c, pc), s')))"

text \<open>A poll takes each entry once, those of others first, in the order they were read.\<close>

fun first_of_each :: "string list \<Rightarrow> (string \<times> 'a) list \<Rightarrow> (string \<times> 'a) list" where
  "first_of_each seen [] = []"
| "first_of_each seen (e # es) = (if fst e \<in> set seen then first_of_each seen es else e # first_of_each (fst e # seen) es)"

definition poll_entries :: "(string \<times> 'a) list \<Rightarrow> (string \<times> 'a) list \<Rightarrow> (string \<times> 'a) list" where
  "poll_entries reclaimed fresh = first_of_each [] (reclaimed @ fresh)"

text \<open>The pause between polls doubles up to a second while nothing comes or Redis fails.\<close>

definition next_backoff :: "int \<Rightarrow> nat option \<Rightarrow> int" where
  "next_backoff backoffMs processed = (if processed = None \<or> processed = Some 0 then min (backoffMs * 2) 1000 else 50)"

end
