(* ===== verification/LobbyProps.thy ===== *)
theory LobbyProps
  imports Lobby
begin

text \<open>
  The roster keeps people on distinct seats. The abstract view of a roster is the map \<open>seat_of\<close> from
  users to seats, taken or held; the invariant is stated over it, and each operation of the roster
  is an update of it. The start lock keeps to its rolling budget.
\<close>

section \<open>Seats\<close>

definition seat_of :: "lobby_roster \<Rightarrow> actor_id \<Rightarrow> int option" where
  "seat_of r u = (case js_get (ro_members r) u of
     Some m \<Rightarrow> Some (lm_slot m)
   | None \<Rightarrow> map_option sh_slot (js_get (ro_holds r) u))"

definition hold_ok :: "int \<Rightarrow> actor_id \<Rightarrow> seat_hold \<Rightarrow> bool" where
  "hold_ok cap u h \<longleftrightarrow> sr_userId (sh_reservation h) = u \<and> sh_playerId h = sh_slot h \<and> 1 \<le> sh_slot h \<and> sh_slot h \<le> cap"

definition member_ok :: "int \<Rightarrow> actor_id \<Rightarrow> lobby_member \<Rightarrow> bool" where
  "member_ok cap u m \<longleftrightarrow> lm_userId m = u \<and> lm_playerId m = lm_slot m \<and> lm_colorIndex m = lm_slot m - 1
     \<and> 1 \<le> lm_slot m \<and> lm_slot m \<le> cap"

definition apart :: "('a \<Rightarrow> int option) \<Rightarrow> bool" where
  "apart f \<longleftrightarrow> (\<forall>u v s. f u = Some s \<longrightarrow> f v = Some s \<longrightarrow> u = v)"

definition seats_ok :: "lobby_roster \<Rightarrow> bool" where
  "seats_ok r \<longleftrightarrow> js_ok (ro_holds r) \<and> js_ok (ro_members r)
     \<and> ro_capacity r \<le> MAX_PLAYERS_PER_ROOM
     \<and> (\<forall>u h. js_get (ro_holds r) u = Some h \<longrightarrow> hold_ok (ro_capacity r) u h)
     \<and> (\<forall>u m. js_get (ro_members r) u = Some m \<longrightarrow> member_ok (ro_capacity r) u m)
     \<and> (\<forall>u. js_get (ro_holds r) u = None \<or> js_get (ro_members r) u = None)
     \<and> apart (seat_of r)"

text \<open>The host is a member, and there is one whenever there are members.\<close>

definition host_ok :: "lobby_roster \<Rightarrow> bool" where
  "host_ok r \<longleftrightarrow> (case ro_hostUserId r of
     None \<Rightarrow> \<forall>u. js_get (ro_members r) u = None
   | Some u \<Rightarrow> js_get (ro_members r) u \<noteq> None)"

definition roster_ok :: "lobby_roster \<Rightarrow> bool" where
  "roster_ok r \<longleftrightarrow> seats_ok r \<and> host_ok r"

lemma host_ok_holds [simp]: "host_ok (r\<lparr>ro_holds := hs\<rparr>) = host_ok r"
  by (simp add: host_ok_def split: option.split)

lemma seat_of_host [simp]: "seat_of (r\<lparr>ro_hostUserId := h\<rparr>) = seat_of r"
  by (rule ext) (simp add: seat_of_def split: option.split)

lemma seats_ok_host [simp]: "seats_ok (r\<lparr>ro_hostUserId := h\<rparr>) = seats_ok r"
  by (simp add: seats_ok_def)

lemmas seats_okI = seats_ok_def [THEN iffD2, rule_format]

lemma seats_okD:
  assumes "seats_ok r"
  shows "js_ok (ro_holds r)" "js_ok (ro_members r)" "ro_capacity r \<le> MAX_PLAYERS_PER_ROOM"
    "js_get (ro_holds r) u = Some h \<Longrightarrow> hold_ok (ro_capacity r) u h"
    "js_get (ro_members r) u = Some m \<Longrightarrow> member_ok (ro_capacity r) u m"
    "js_get (ro_holds r) u = None \<or> js_get (ro_members r) u = None"
    "apart (seat_of r)"
  using assms by (simp_all add: seats_ok_def)

lemma apart_upd: "apart f \<Longrightarrow> (\<And>v. f v \<noteq> Some s) \<Longrightarrow> apart (f(u := Some s))"
  unfolding apart_def by (metis fun_upd_apply option.inject)

lemma apart_upd_except: "apart f \<Longrightarrow> (\<And>v. f v = Some s \<Longrightarrow> v = u) \<Longrightarrow> apart (f(u := Some s))"
  unfolding apart_def by (metis fun_upd_apply option.inject)

lemma apart_less: "apart f \<Longrightarrow> (\<And>v s. g v = Some s \<Longrightarrow> f v = Some s) \<Longrightarrow> apart g"
  unfolding apart_def by blast

lemma seat_of_None: "seat_of r u = None \<longleftrightarrow> js_get (ro_members r) u = None \<and> js_get (ro_holds r) u = None"
  by (simp add: seat_of_def split: option.split)

lemma js_values_mem: "js_ok m \<Longrightarrow> x \<in> set (js_values m) \<longleftrightarrow> (\<exists>k. js_get m k = Some x)"
  by (force simp: js_values_def js_get_Some_iff)

lemma slotOccupied_iff:
  assumes ok: "seats_ok r"
  shows "slotOccupied r s ex \<longleftrightarrow> (\<exists>u. seat_of r u = Some s \<and> Some u \<noteq> ex)"
proof -
  note D = seats_okD [OF ok]
  have h: "list_ex (\<lambda>h. Some (sr_userId (sh_reservation h)) \<noteq> ex \<and> sh_slot h = s) (js_values (ro_holds r))
      \<longleftrightarrow> (\<exists>u h. js_get (ro_holds r) u = Some h \<and> Some u \<noteq> ex \<and> sh_slot h = s)"
    using D(4) by (force simp: list_ex_iff js_values_mem [OF D(1)] hold_ok_def)
  have m: "list_ex (\<lambda>m. Some (lm_userId m) \<noteq> ex \<and> lm_slot m = s) (js_values (ro_members r))
      \<longleftrightarrow> (\<exists>u m. js_get (ro_members r) u = Some m \<and> Some u \<noteq> ex \<and> lm_slot m = s)"
    using D(5) by (force simp: list_ex_iff js_values_mem [OF D(2)] member_ok_def)
  have "(\<exists>u. seat_of r u = Some s \<and> Some u \<noteq> ex) \<longleftrightarrow>
      (\<exists>u h. js_get (ro_holds r) u = Some h \<and> Some u \<noteq> ex \<and> sh_slot h = s)
      \<or> (\<exists>u m. js_get (ro_members r) u = Some m \<and> Some u \<noteq> ex \<and> lm_slot m = s)" (is "?l \<longleftrightarrow> ?h \<or> ?m")
  proof
    assume ?l
    then obtain u where u: "seat_of r u = Some s" "Some u \<noteq> ex" by blast
    then show "?h \<or> ?m" by (cases "js_get (ro_members r) u") (auto simp: seat_of_def)
  next
    assume "?h \<or> ?m"
    then show ?l
    proof
      assume ?h
      then obtain u h where u: "js_get (ro_holds r) u = Some h" "Some u \<noteq> ex" "sh_slot h = s" by blast
      with D(6) [of u] have "js_get (ro_members r) u = None" by simp
      with u show ?l by (intro exI [of _ u]) (simp add: seat_of_def)
    next
      assume ?m
      then obtain u m where "js_get (ro_members r) u = Some m" "Some u \<noteq> ex" "lm_slot m = s" by blast
      then show ?l by (intro exI [of _ u]) (simp add: seat_of_def)
    qed
  qed
  then show ?thesis unfolding slotOccupied_def h m by blast
qed

lemma firstFreeSeat_Some:
  assumes ok: "seats_ok r" and "firstFreeSeat r blocked = Some s"
  shows "1 \<le> s" "s \<le> ro_capacity r" "s \<notin> set blocked" "seat_of r u \<noteq> Some s"
proof -
  have f: "s \<in> set [1..min (ro_capacity r) MAX_PLAYERS_PER_ROOM]" "s \<notin> set blocked" "\<not> slotOccupied r s None"
    using find_SomeD [OF assms(2) [unfolded firstFreeSeat_def]] by blast+
  then show "1 \<le> s" "s \<le> ro_capacity r" "s \<notin> set blocked" by simp_all
  from f(3) show "seat_of r u \<noteq> Some s" unfolding slotOccupied_iff [OF ok] by blast
qed

section \<open>Operations\<close>

lemma hold_seats:
  assumes ok: "seats_ok r"
  shows "seats_ok (snd (hold res blocked r))
     \<and> seat_of (snd (hold res blocked r)) = (case fst (hold res blocked r) of
         Inl _ \<Rightarrow> seat_of r | Inr s \<Rightarrow> (seat_of r)(sr_userId res := Some s))
     \<and> (host_ok r \<longrightarrow> host_ok (snd (hold res blocked r)))"
proof (cases "hasUser r (sr_userId res)")
  case True
  with ok show ?thesis by (simp add: hold_def)
next
  case False
  let ?u = "sr_userId res"
  have none: "js_get (ro_members r) ?u = None" "js_get (ro_holds r) ?u = None"
    using False by (simp_all add: hasUser_def js_has_def)
  show ?thesis
  proof (cases "firstFreeSeat r blocked")
    case None
    with False ok show ?thesis by (simp add: hold_def)
  next
    case (Some s)
    note F = firstFreeSeat_Some [OF ok Some] and D = seats_okD [OF ok]
    let ?r = "r\<lparr>ro_holds := js_set ?u \<lparr>sh_reservation = res, sh_playerId = s, sh_slot = s\<rparr> (ro_holds r)\<rparr>"
    have s: "seat_of ?r = (seat_of r)(?u := Some s)"
      using none by (auto simp: seat_of_def fun_eq_iff split: option.split)
    have "seats_ok ?r"
      by (rule seats_okI)
        (use D F none s in \<open>auto simp: hold_ok_def apart_upd [OF D(7)] split: if_splits\<close>)
    with s False Some show ?thesis by (simp add: hold_def)
  qed
qed

lemma seats_drop_hold:
  assumes "seats_ok r"
  shows "seats_ok (r\<lparr>ro_holds := js_delete u (ro_holds r)\<rparr>)"
    "seat_of (r\<lparr>ro_holds := js_delete u (ro_holds r)\<rparr>)
      = (if js_get (ro_members r) u = None then (seat_of r)(u := None) else seat_of r)"
proof -
  show e: "seat_of (r\<lparr>ro_holds := js_delete u (ro_holds r)\<rparr>)
      = (if js_get (ro_members r) u = None then (seat_of r)(u := None) else seat_of r)"
    by (auto simp: seat_of_def fun_eq_iff split: option.split)
  note D = seats_okD [OF assms]
  have "apart (seat_of (r\<lparr>ro_holds := js_delete u (ro_holds r)\<rparr>))"
    unfolding e by (rule apart_less [OF D(7)]) (auto split: if_splits)
  with D show "seats_ok (r\<lparr>ro_holds := js_delete u (ro_holds r)\<rparr>)"
    by (intro seats_okI) (auto split: if_splits)
qed

lemma seats_fewer_holds:
  assumes "seats_ok r" "js_ok hs" "\<And>u h. js_get hs u = Some h \<Longrightarrow> js_get (ro_holds r) u = Some h"
  shows "seats_ok (r\<lparr>ro_holds := hs\<rparr>)"
proof -
  note D = seats_okD [OF assms(1)]
  have "js_get hs u = None \<or> js_get (ro_members r) u = None" for u
    using D(6) [of u] assms(3) [of u] by (cases "js_get hs u") auto
  moreover have "apart (seat_of (r\<lparr>ro_holds := hs\<rparr>))"
    by (rule apart_less [OF D(7)]) (auto simp: seat_of_def assms(3) split: option.splits)
  ultimately show ?thesis using D assms(2,3)
    by (intro seats_okI) auto
qed

lemma claim_seats:
  assumes ok: "seats_ok r"
  shows "seats_ok (snd (claim u now role r))"
    "seat_of (snd (claim u now role r)) = (case js_get (ro_holds r) u of None \<Rightarrow> seat_of r
       | Some h \<Rightarrow> if sr_expiresAt (sh_reservation h) \<le> now then (seat_of r)(u := None) else seat_of r)"
    "host_ok r \<Longrightarrow> host_ok (snd (claim u now role r))"
proof -
  note D = seats_okD [OF ok]
  have "seats_ok (snd (claim u now role r))
    \<and> seat_of (snd (claim u now role r)) = (case js_get (ro_holds r) u of None \<Rightarrow> seat_of r
       | Some h \<Rightarrow> if sr_expiresAt (sh_reservation h) \<le> now then (seat_of r)(u := None) else seat_of r)
    \<and> (host_ok r \<longrightarrow> host_ok (snd (claim u now role r)))"
  proof (cases "js_get (ro_holds r) u")
    case None
    with ok show ?thesis by (simp add: claim_def)
  next
    case (Some h)
    then have none: "js_get (ro_members r) u = None" using D(6) [of u] by simp
    let ?r = "r\<lparr>ro_holds := js_delete u (ro_holds r)\<rparr>"
    note drop = seats_drop_hold [OF ok, of u]
    show ?thesis
    proof (cases "sr_expiresAt (sh_reservation h) \<le> now")
      case True
      with drop Some none show ?thesis by (simp add: claim_def Let_def)
    next
      case False
      let ?m = "claimed_member h u (ro_joinOrder r) role"
      let ?r' = "snd (claim u now role r)"
      have e: "?r' = ?r\<lparr>ro_joinOrder := ro_joinOrder r + 1, ro_members := js_set u ?m (ro_members r),
          ro_hostUserId := (if ro_hostUserId r = None then Some u else ro_hostUserId r)\<rparr>"
        using False Some by (simp add: claim_def Let_def)
      have ho: "hold_ok (ro_capacity r) u h" using D(4) [OF Some] .
      have s: "seat_of ?r' = seat_of r"
        using none Some by (auto simp: e seat_of_def fun_eq_iff claimed_member_def split: option.split)
      have "seats_ok ?r'"
      proof (rule seats_okI, intro conjI allI impI)
        show "apart (seat_of ?r')" unfolding s by (rule D(7))
        show "member_ok (ro_capacity ?r') v m" if "js_get (ro_members ?r') v = Some m" for v m
          using that ho D(5) [of v m]
          by (auto simp: e member_ok_def hold_ok_def claimed_member_def split: if_splits)
        show "js_get (ro_holds ?r') v = None \<or> js_get (ro_members ?r') v = None" for v
          using D(6) [of v] none by (simp add: e)
        show "hold_ok (ro_capacity ?r') v h'" if "js_get (ro_holds ?r') v = Some h'" for v h'
          using that D(4) [of v h'] by (simp add: e split: if_splits)
      qed (use D in \<open>simp_all add: e\<close>)
      moreover have "host_ok ?r'" if "host_ok r"
        using that by (auto simp: e host_ok_def split: option.splits)
      ultimately show ?thesis using s Some False by simp
    qed
  qed
  then show "seats_ok (snd (claim u now role r))"
    "seat_of (snd (claim u now role r)) = (case js_get (ro_holds r) u of None \<Rightarrow> seat_of r
       | Some h \<Rightarrow> if sr_expiresAt (sh_reservation h) \<le> now then (seat_of r)(u := None) else seat_of r)"
    "host_ok r \<Longrightarrow> host_ok (snd (claim u now role r))" by blast+
qed

lemma releaseHold_seats:
  assumes "seats_ok r"
  shows "seats_ok (snd (releaseHold u r))" "host_ok r \<Longrightarrow> host_ok (snd (releaseHold u r))"
    "seat_of (snd (releaseHold u r)) = (if js_get (ro_members r) u = None then (seat_of r)(u := None) else seat_of r)"
  using seats_drop_hold [OF assms, of u] by (simp_all add: releaseHold_def)

lemma clearHolds_seats:
  assumes "seats_ok r"
  shows "seats_ok (clearHolds r)" "host_ok r \<Longrightarrow> host_ok (clearHolds r)"
  using seats_fewer_holds [OF assms, of js_empty] by (simp_all add: clearHolds_def)

lemma purge_seats:
  assumes "seats_ok r"
  shows "seats_ok (snd (purgeExpiredHolds now r))" "host_ok r \<Longrightarrow> host_ok (snd (purgeExpiredHolds now r))"
proof -
  have "js_ok (ro_holds r)" using assms by (simp add: seats_ok_def)
  then show "seats_ok (snd (purgeExpiredHolds now r))"
    unfolding purgeExpiredHolds_def Let_def snd_conv
    by (intro seats_fewer_holds [OF assms]) (auto simp: js_get_delete_where split: option.splits if_splits)
qed (simp add: purgeExpiredHolds_def Let_def)

lemma members_mem: "js_ok (ro_members r) \<Longrightarrow> m \<in> set (members r) \<longleftrightarrow> (\<exists>u. js_get (ro_members r) u = Some m)"
  by (simp add: members_def js_values_mem)

lemma getByPlayerId_Some:
  assumes "seats_ok r" "getByPlayerId r pid = Some m"
  shows "js_get (ro_members r) (lm_userId m) = Some m" "lm_playerId m = pid"
proof -
  note D = seats_okD [OF assms(1)]
  from find_SomeD [OF assms(2) [unfolded getByPlayerId_def]]
  have "m \<in> set (members r)" and pid: "lm_playerId m = pid" by blast+
  then obtain u where "js_get (ro_members r) u = Some m" by (auto simp: members_mem [OF D(2)])
  with D(5) [OF this] show "js_get (ro_members r) (lm_userId m) = Some m" by (simp add: member_ok_def)
  show "lm_playerId m = pid" by (rule pid)
qed

lemma remove_seats:
  assumes ok: "seats_ok r"
  shows "seats_ok (snd (remove_member u r))"
    "seat_of (snd (remove_member u r)) = (if js_get (ro_members r) u = None then seat_of r else (seat_of r)(u := None))"
    "host_ok r \<Longrightarrow> host_ok (snd (remove_member u r))"
proof -
  note D = seats_okD [OF ok]
  let ?r = "r\<lparr>ro_members := js_delete u (ro_members r)\<rparr>"
  have s: "seat_of ?r = (if js_get (ro_members r) u = None then seat_of r else (seat_of r)(u := None))"
    using D(6) [of u] by (auto simp: seat_of_def fun_eq_iff split: option.split)
  have ok1: "seats_ok ?r"
  proof (rule seats_okI, intro conjI allI impI)
    show "apart (seat_of ?r)" unfolding s by (rule apart_less [OF D(7)]) (auto split: if_splits)
    show "js_get (ro_holds ?r) v = None \<or> js_get (ro_members ?r) v = None" for v using D(6) [of v] by auto
  qed (use D in \<open>auto split: if_splits\<close>)
  show "seats_ok (snd (remove_member u r))"
    using ok ok1 by (simp add: remove_member_def Let_def split: option.split)
  show "seat_of (snd (remove_member u r)) = (if js_get (ro_members r) u = None then seat_of r else (seat_of r)(u := None))"
    using s by (auto simp: remove_member_def Let_def split: option.split)
  assume h: "host_ok r"
  show "host_ok (snd (remove_member u r))"
  proof (cases "js_get (ro_members r) u = None \<or> ro_hostUserId r \<noteq> Some u")
    case True
    with h show ?thesis by (auto simp: remove_member_def Let_def host_ok_def split: option.splits)
  next
    case False
    then obtain m where m: "js_get (ro_members r) u = Some m" "ro_hostUserId r = Some u" by auto
    have mem: "m' \<in> set (members ?r) \<longleftrightarrow> (\<exists>v. js_get (ro_members ?r) v = Some m')" for m'
      using D(2) by (intro members_mem) simp
    show ?thesis
    proof (cases "members ?r")
      case Nil
      with mem have "js_get (ro_members ?r) v = None" for v by (cases "js_get (ro_members ?r) v") auto
      with m Nil show ?thesis by (simp add: remove_member_def Let_def host_ok_def)
    next
      case (Cons m' ms)
      then obtain v where "js_get (ro_members ?r) v = Some m'" using mem [of m'] by auto
      moreover from this have "lm_userId m' = v" using D(5) [of v m'] by (auto simp: member_ok_def split: if_splits)
      ultimately show ?thesis using m Cons by (simp add: remove_member_def Let_def host_ok_def split: if_splits)
    qed
  qed
qed

lemma passHost_seats:
  assumes "seats_ok r"
  shows "seats_ok (snd (passHost requester pid r))" "seat_of (snd (passHost requester pid r)) = seat_of r"
    "host_ok r \<Longrightarrow> host_ok (snd (passHost requester pid r))"
proof -
  show "seats_ok (snd (passHost requester pid r))" "seat_of (snd (passHost requester pid r)) = seat_of r"
    using assms by (simp_all add: passHost_def split: option.split)
  show "host_ok (snd (passHost requester pid r))" if "host_ok r"
    using that getByPlayerId_Some [OF assms, of pid] by (auto simp: passHost_def host_ok_def split: option.split)
qed

text \<open>A mutation of a member that leaves its identity and seat alone.\<close>

definition keeps_seat :: "(lobby_member \<Rightarrow> lobby_member) \<Rightarrow> bool" where
  "keeps_seat f \<longleftrightarrow> (\<forall>m. lm_userId (f m) = lm_userId m \<and> lm_playerId (f m) = lm_playerId m \<and> lm_slot (f m) = lm_slot m
     \<and> lm_colorIndex (f m) = lm_colorIndex m \<and> lm_joinedOrder (f m) = lm_joinedOrder m)"

lemma update_get:
  "js_get (ro_members (update_member u f r)) v = (if v = u then map_option f (js_get (ro_members r) u) else js_get (ro_members r) v)"
  by (simp add: update_member_def split: option.split)

lemma update_other:
  "ro_holds (update_member u f r) = ro_holds r" "ro_hostUserId (update_member u f r) = ro_hostUserId r"
  "ro_capacity (update_member u f r) = ro_capacity r" "ro_joinOrder (update_member u f r) = ro_joinOrder r"
  "js_ok (ro_members r) \<Longrightarrow> js_ok (ro_members (update_member u f r))"
  by (simp_all add: update_member_def split: option.split)

lemma update_host: "host_ok r \<Longrightarrow> host_ok (update_member u f r)"
  by (auto simp: host_ok_def update_get update_other split: option.splits if_splits)

lemma update_seats:
  assumes "seats_ok r" "keeps_seat f"
  shows "seats_ok (update_member u f r)" "seat_of (update_member u f r) = seat_of r"
proof -
  note D = seats_okD [OF assms(1)]
  show e: "seat_of (update_member u f r) = seat_of r"
    using assms(2) by (auto simp: fun_eq_iff seat_of_def update_get update_other keeps_seat_def split: option.split)
  have "member_ok (ro_capacity r) v (f m)" if "js_get (ro_members r) v = Some m" for v m
    using D(5) [OF that] assms(2) by (simp add: member_ok_def keeps_seat_def)
  with D show "seats_ok (update_member u f r)"
    by (intro seats_okI) (auto simp: e update_get update_other split: if_splits)
qed

lemma moveSlot_seats:
  assumes ok: "seats_ok r"
  shows "seats_ok (snd (moveSlot u target r))"
    "seat_of (snd (moveSlot u target r)) = (if fst (moveSlot u target r) = SlotMoved then (seat_of r)(u := Some target) else seat_of r)"
    "host_ok r \<Longrightarrow> host_ok (snd (moveSlot u target r))"
    "fst (moveSlot u target r) = SlotMoved \<longleftrightarrow> js_get (ro_members r) u \<noteq> None \<and> 1 \<le> target \<and> target \<le> ro_capacity r
       \<and> (\<forall>v. v \<noteq> u \<longrightarrow> seat_of r v \<noteq> Some target)"
proof -
  note D = seats_okD [OF ok]
  let ?f = "\<lambda>m. m\<lparr>lm_slot := target, lm_playerId := target, lm_colorIndex := target - 1\<rparr>"
  show moved: "fst (moveSlot u target r) = SlotMoved \<longleftrightarrow> js_get (ro_members r) u \<noteq> None \<and> 1 \<le> target \<and> target \<le> ro_capacity r
       \<and> (\<forall>v. v \<noteq> u \<longrightarrow> seat_of r v \<noteq> Some target)"
    by (auto simp: moveSlot_def slotOccupied_iff [OF ok])
  show "host_ok r \<Longrightarrow> host_ok (snd (moveSlot u target r))"
    by (simp add: moveSlot_def update_host)
  have stay: "snd (moveSlot u target r) = r" if "fst (moveSlot u target r) \<noteq> SlotMoved"
    using that by (auto simp: moveSlot_def split: if_splits)
  have m: "snd (moveSlot u target r) = update_member u ?f r" if "fst (moveSlot u target r) = SlotMoved"
    using that by (auto simp: moveSlot_def split: if_splits)
  show e: "seat_of (snd (moveSlot u target r)) =
      (if fst (moveSlot u target r) = SlotMoved then (seat_of r)(u := Some target) else seat_of r)"
  proof (cases "fst (moveSlot u target r) = SlotMoved")
    case True
    with moved show ?thesis unfolding m [OF True]
      by (auto simp: seat_of_def fun_eq_iff update_get update_other split: option.split)
  qed (simp add: stay)
  show "seats_ok (snd (moveSlot u target r))"
  proof (cases "fst (moveSlot u target r) = SlotMoved")
    case True
    have "apart (seat_of (snd (moveSlot u target r)))"
      using True moved unfolding e by (auto intro: apart_upd_except [OF D(7)])
    moreover have "member_ok (ro_capacity r) u (?f m)" if "js_get (ro_members r) u = Some m" for m
      using D(5) [OF that] True moved by (simp add: member_ok_def)
    ultimately show ?thesis using D unfolding m [OF True]
      by (intro seats_okI) (auto simp: update_get update_other split: if_splits)
  qed (simp add: stay ok)
qed

section \<open>The roster as a machine\<close>

datatype roster_call =
  RHold seat_reservation "int list"
| RClaim actor_id int player_role
| RRelease actor_id
| RClear
| RPurge int
| RRemove actor_id
| RPassHost actor_id int
| RMoveSlot actor_id int

fun roster_step :: "roster_call \<Rightarrow> lobby_roster \<Rightarrow> lobby_roster" where
  "roster_step (RHold res blocked) r = snd (hold res blocked r)"
| "roster_step (RClaim u now role) r = snd (claim u now role r)"
| "roster_step (RRelease u) r = snd (releaseHold u r)"
| "roster_step RClear r = clearHolds r"
| "roster_step (RPurge now) r = snd (purgeExpiredHolds now r)"
| "roster_step (RRemove u) r = snd (remove_member u r)"
| "roster_step (RPassHost u pid) r = snd (passHost u pid r)"
| "roster_step (RMoveSlot u target) r = snd (moveSlot u target r)"

interpretation roster: invariant_machine roster_step roster_ok
proof
  show "roster_ok (roster_step c r)" if "roster_ok r" for c r
    using that by (cases c) (simp_all add: roster_ok_def hold_seats claim_seats releaseHold_seats clearHolds_seats
        purge_seats remove_seats passHost_seats moveSlot_seats)
qed

lemma new_roster_ok: "new_roster cap = Some r \<Longrightarrow> roster_ok r"
  by (auto simp: new_roster_def roster_ok_def seats_ok_def host_ok_def apart_def seat_of_def split: if_splits)

lemma roster_step_capacity: "ro_capacity (roster_step c r) = ro_capacity r"
  by (cases c) (simp_all add: hold_def claim_def releaseHold_def clearHolds_def purgeExpiredHolds_def remove_member_def
      passHost_def moveSlot_def update_other Let_def split: option.split)

lemma roster_run_capacity: "ro_capacity (fold roster_step cs r) = ro_capacity r"
  by (induction cs arbitrary: r) (simp_all add: roster_step_capacity)

text \<open>People on distinct seats are no more than the seats.\<close>

lemma occupied_le:
  assumes ok: "seats_ok r" and "0 \<le> ro_capacity r"
  shows "int (occupiedSize r) \<le> ro_capacity r"
proof -
  note D = seats_okD [OF ok]
  let ?U = "fst ` set (ro_members r) \<union> fst ` set (ro_holds r)" and ?seat = "\<lambda>u. the (seat_of r u)"
  have dom: "u \<in> ?U \<longleftrightarrow> seat_of r u \<noteq> None" for u
    unfolding seat_of_None [of r u] js_get_None_iff by blast
  have "fst ` set (ro_members r) \<inter> fst ` set (ro_holds r) = {}"
    using D(6) unfolding js_get_None_iff by blast
  then have "card ?U = card (fst ` set (ro_members r)) + card (fst ` set (ro_holds r))" by (intro card_Un_disjoint) auto
  also have "\<dots> = occupiedSize r"
    using D(1,2) distinct_card [of "map fst (ro_members r)"] distinct_card [of "map fst (ro_holds r)"]
    by (simp add: occupiedSize_def js_ok_def js_size_def)
  finally have c: "card ?U = occupiedSize r" .
  have "inj_on ?seat ?U"
  proof (rule inj_onI)
    fix u v assume uv: "u \<in> ?U" "v \<in> ?U" "?seat u = ?seat v"
    then obtain s t where "seat_of r u = Some s" "seat_of r v = Some t" using dom by blast
    with uv(3) D(7) show "u = v" by (auto simp: apart_def)
  qed
  moreover have "?seat ` ?U \<subseteq> {1..ro_capacity r}"
  proof
    fix s assume "s \<in> ?seat ` ?U"
    then obtain u where u: "u \<in> ?U" "s = ?seat u" by blast
    then have "seat_of r u = Some s" using dom [of u] by auto
    then show "s \<in> {1..ro_capacity r}" using D(4) [of u] D(5) [of u]
      by (auto simp: seat_of_def hold_ok_def member_ok_def split: option.splits)
  qed
  ultimately have "card ?U \<le> card {1..ro_capacity r}" by (intro card_inj_on_le) auto
  then show ?thesis unfolding c using assms(2) by simp
qed

text \<open>
  C9. Seats. After any sequence of holds, claims, releases, removals, hand-overs of the host and moves there are no
  more people than seats, two people never have the same seat, taken or held; a member's number and colour
  follow its seat; and there is a host, who is a member, exactly while there are members.
\<close>

theorem lobby_seats:
  assumes new: "new_roster cap = Some r0" and r: "r = fold roster_step calls r0"
  shows "int (occupiedSize r) \<le> cap \<and> apart (seat_of r)
     \<and> list_all (\<lambda>m. lm_playerId m = lm_slot m \<and> lm_colorIndex m = lm_slot m - 1 \<and> 1 \<le> lm_slot m \<and> lm_slot m \<le> cap)
         (js_values (ro_members r))
     \<and> (case ro_hostUserId r of None \<Rightarrow> ro_members r = [] | Some u \<Rightarrow> js_has (ro_members r) u)"
proof -
  have ok: "roster_ok r" unfolding r by (rule roster.run_inv [OF new_roster_ok [OF new]])
  have cap: "ro_capacity r = cap" "1 \<le> cap"
    using new by (auto simp: r roster_run_capacity new_roster_def split: if_splits)
  have seats: "seats_ok r" and host: "host_ok r" using ok by (simp_all add: roster_ok_def)
  note D = seats_okD [OF seats]
  have "ro_members r = []" if "\<forall>u. js_get (ro_members r) u = None"
    using that by (cases "ro_members r") (auto simp: js_get_def split: if_splits)
  moreover have "int (occupiedSize r) \<le> cap" using occupied_le [OF seats] cap by simp
  moreover have "list_all (\<lambda>m. lm_playerId m = lm_slot m \<and> lm_colorIndex m = lm_slot m - 1 \<and> 1 \<le> lm_slot m \<and> lm_slot m \<le> cap)
      (js_values (ro_members r))"
    using D(5) cap by (auto simp: list_all_iff js_values_mem [OF D(2)] member_ok_def)
  ultimately show ?thesis using D(7) host
    by (auto simp: host_ok_def js_has_def split: option.splits)
qed

theorem lobby_seats_witness:
  "int (occupiedSize (fold roster_step [RHold demo_reservation [1], RClaim (Account 7) 10 RolePlayer, RMoveSlot (Account 7) 4]
     (the (new_roster 8)))) \<le> 8"
proof -
  have "new_roster 8 = Some (the (new_roster 8))" by (simp add: new_roster_def MAX_PLAYERS_PER_ROOM_def)
  from lobby_seats [OF this refl] show ?thesis by blast
qed

section \<open>The budget of the start lock\<close>

text \<open>A start lock that has seen joins and map changes at these times, and what it granted.\<close>

datatype lock_call = LockJoin int | LockMap int

fun lock_time :: "lock_call \<Rightarrow> int" where
  "lock_time (LockJoin t) = t"
| "lock_time (LockMap t) = t"

fun lock_step :: "lock_call \<Rightarrow> start_lock \<times> lock_grant list \<Rightarrow> start_lock \<times> lock_grant list" where
  "lock_step (LockJoin t) (l, given) =
     (case applyJoin t l of (g, l') \<Rightarrow> (l', given @ [\<lparr>lg_at = t, lg_durationMs = g\<rparr>]))"
| "lock_step (LockMap t) (l, given) = (applyMapChange t l, given)"

definition granted_in :: "int \<Rightarrow> int \<Rightarrow> lock_grant list \<Rightarrow> int" where
  "granted_in window t given = sum_list (map lg_durationMs (filter (\<lambda>g. t - lg_at g < window) given))"

definition sorted_grants :: "lock_grant list \<Rightarrow> bool" where
  "sorted_grants gs = sorted (map lg_at gs)"

text \<open>The kept grants are the ones of the window, up to grants of nothing, which are not kept.\<close>

definition lock_inv :: "lock_options \<Rightarrow> int \<Rightarrow> start_lock \<times> lock_grant list \<Rightarrow> bool" where
  "lock_inv o' t x = (case x of (l, given) \<Rightarrow>
     sl_options l = o' \<and> sorted_grants (sl_joinGrants l) \<and> list_all (\<lambda>g. lg_at g \<le> t) (sl_joinGrants l)
     \<and> list_all (\<lambda>g. 0 \<le> lg_durationMs g \<and> lg_durationMs g \<le> lo_joinLockMs o' \<and> lg_at g \<le> t) given
     \<and> (\<forall>t' \<ge> t. granted_in (lo_joinBudgetWindowMs o') t' given
           = granted_in (lo_joinBudgetWindowMs o') t' (sl_joinGrants l))
     \<and> granted_in (lo_joinBudgetWindowMs o') t given \<le> lo_joinBudgetMs o')"

lemma granted_append: "granted_in w t (a @ b) = granted_in w t a + granted_in w t b"
  by (simp add: granted_in_def)

lemma granted_dropWhile:
  assumes "sorted_grants gs" "t \<le> t'"
  shows "granted_in w t' (dropWhile (\<lambda>g. w \<le> t - lg_at g) gs) = granted_in w t' gs"
  using assms by (induction gs) (auto simp: granted_in_def sorted_grants_def)

lemma dropWhile_all:
  assumes "sorted_grants gs"
  shows "filter (\<lambda>g. t - lg_at g < w) (dropWhile (\<lambda>g. w \<le> t - lg_at g) gs) = dropWhile (\<lambda>g. w \<le> t - lg_at g) gs"
  using assms by (induction gs) (auto simp: sorted_grants_def filter_id_conv)

lemma granted_mono:
  assumes "list_all (\<lambda>g. 0 \<le> lg_durationMs g) gs" "t \<le> t'"
  shows "granted_in w t' gs \<le> granted_in w t gs"
  using assms by (induction gs) (auto simp: granted_in_def)

lemma sorted_grants_drop: "sorted_grants gs \<Longrightarrow> sorted_grants (dropWhile P gs)"
  by (induction gs) (auto simp: sorted_grants_def)

lemma lock_join_inv:
  assumes inv: "lock_inv o' t (l, given)" and t: "t \<le> now" and nonneg: "0 \<le> lo_joinLockMs o'"
  shows "lock_inv o' now (lock_step (LockJoin now) (l, given))"
proof -
  let ?w = "lo_joinBudgetWindowMs o'" and ?b = "lo_joinBudgetMs o'" and ?gs = "sl_joinGrants l"
  have I: "sl_options l = o'" "sorted_grants ?gs" "list_all (\<lambda>g. lg_at g \<le> t) ?gs"
    "list_all (\<lambda>g. 0 \<le> lg_durationMs g \<and> lg_durationMs g \<le> lo_joinLockMs o' \<and> lg_at g \<le> t) given"
    "\<And>t'. t \<le> t' \<Longrightarrow> granted_in ?w t' given = granted_in ?w t' ?gs" "granted_in ?w t given \<le> ?b"
    using inv by (auto simp: lock_inv_def)
  let ?kept = "dropWhile (\<lambda>g. ?w \<le> now - lg_at g) ?gs"
  define used where "used = sum_list (map lg_durationMs ?kept)"
  define grant where "grant = min (lo_joinLockMs o') (max 0 (?b - used))"
  have "used = granted_in ?w now ?kept"
    unfolding used_def granted_in_def by (simp only: dropWhile_all [OF I(2)])
  also have "\<dots> = granted_in ?w now given" using I(5) [OF t] granted_dropWhile [OF I(2)] by simp
  finally have used: "granted_in ?w now given = used" by simp
  have "used \<le> granted_in ?w t given"
    unfolding used [symmetric] by (rule granted_mono [OF _ t]) (use I(4) in \<open>auto simp: list_all_iff\<close>)
  with I(6) have le: "used \<le> ?b" by simp
  have g: "0 \<le> grant" "grant \<le> lo_joinLockMs o'" "grant \<le> ?b - used"
    using nonneg le by (simp_all add: grant_def)
  let ?new = "[\<lparr>lg_at = now, lg_durationMs = grant\<rparr>]"
  have st: "lock_step (LockJoin now) (l, given) = (if 0 < grant
      then l\<lparr>sl_joinGrants := ?kept @ ?new, sl_unlocksAt := max (sl_unlocksAt l) (now + grant)\<rparr>
      else l\<lparr>sl_joinGrants := ?kept\<rparr>, given @ ?new)"
    by (simp add: applyJoin_def lock_prune_def Let_def I(1) used_def grant_def)
  have kept: "granted_in ?w t' ?kept = granted_in ?w t' given" if "now \<le> t'" for t'
    using granted_dropWhile [OF I(2) that] I(5) [of t'] t that by simp
  have bound: "granted_in ?w now (given @ ?new) \<le> ?b"
    using g used by (simp add: granted_append granted_in_def)
  have sub: "lg_at g \<le> now" if "g \<in> set ?kept" for g
    using set_dropWhileD [OF that] I(3) t by (auto simp: list_all_iff)
  have sorted: "sorted_grants ?kept" "sorted_grants (?kept @ ?new)"
    using sorted_grants_drop [OF I(2)] sub by (auto simp: sorted_grants_def sorted_append)
  have all: "list_all (\<lambda>g. 0 \<le> lg_durationMs g \<and> lg_durationMs g \<le> lo_joinLockMs o' \<and> lg_at g \<le> now) (given @ ?new)"
    using I(4) t g by (auto simp: list_all_iff)
  have more: "granted_in ?w t' (given @ ?new) = granted_in ?w t' (if 0 < grant then ?kept @ ?new else ?kept)" if "now \<le> t'" for t'
    using kept [OF that] g(1) by (simp add: granted_append granted_in_def)
  show ?thesis unfolding st lock_inv_def
    using sorted sub all more bound I(1) by (auto simp: list_all_iff)
qed

lemma lock_map_inv:
  assumes inv: "lock_inv o' t (l, given)" and t: "t \<le> now"
  shows "lock_inv o' now (lock_step (LockMap now) (l, given))"
proof -
  have "granted_in (lo_joinBudgetWindowMs o') now given \<le> granted_in (lo_joinBudgetWindowMs o') t given"
    by (rule granted_mono [OF _ t]) (use inv in \<open>auto simp: lock_inv_def list_all_iff\<close>)
  with inv t show ?thesis by (auto simp: lock_inv_def applyMapChange_def list_all_iff)
qed

lemma lock_idle_inv: "lock_inv o' t x \<Longrightarrow> t \<le> now \<Longrightarrow> lock_inv o' now x"
proof -
  assume inv: "lock_inv o' t x" and t: "t \<le> now"
  obtain l given where x: "x = (l, given)" by (cases x)
  have "granted_in (lo_joinBudgetWindowMs o') now given \<le> granted_in (lo_joinBudgetWindowMs o') t given"
    by (rule granted_mono [OF _ t]) (use inv in \<open>auto simp: x lock_inv_def list_all_iff\<close>)
  with inv t show ?thesis by (auto simp: x lock_inv_def list_all_iff)
qed

lemma lock_run_inv:
  assumes "lock_inv o' t x" "sorted (t # map lock_time calls @ [t'])" "0 \<le> lo_joinLockMs o'"
  shows "lock_inv o' t' (fold lock_step calls x)"
  using assms
proof (induction calls arbitrary: t x)
  case Nil
  then show ?case by (auto intro: lock_idle_inv)
next
  case (Cons c calls)
  obtain l given where x: "x = (l, given)" by (cases x)
  have "lock_inv o' (lock_time c) (lock_step c x)"
    using Cons.prems unfolding x
    by (cases c) (auto intro: lock_join_inv lock_map_inv simp del: lock_step.simps)
  from Cons.IH [OF this] Cons.prems show ?case by simp
qed

text \<open>
  Joining cannot hold up a room for long. Whatever the joins and map changes up to a time, the locks
  granted for joins within the rolling window before it add up to at most the budget, and each is at most one join lock.
\<close>

theorem start_lock_budget:
  assumes "sorted (0 # map lock_time calls @ [t])" "0 \<le> lo_joinLockMs o'" "0 \<le> lo_joinBudgetMs o'"
  shows "case fold lock_step calls (new_lock o', []) of (l, given) \<Rightarrow>
     granted_in (lo_joinBudgetWindowMs o') t given \<le> lo_joinBudgetMs o'
     \<and> list_all (\<lambda>g. 0 \<le> lg_durationMs g \<and> lg_durationMs g \<le> lo_joinLockMs o') given"
proof -
  have "lock_inv o' 0 (new_lock o', [])"
    using assms(3) by (simp add: lock_inv_def new_lock_def sorted_grants_def granted_in_def)
  from lock_run_inv [OF this assms(1,2)] show ?thesis
    by (auto simp: lock_inv_def list_all_iff split: prod.splits)
qed

definition game_lock_options :: lock_options where
  "game_lock_options = \<lparr>lo_joinLockMs = START_LOCK_ON_JOIN_MS, lo_joinBudgetMs = START_LOCK_JOIN_BUDGET_MS,
     lo_joinBudgetWindowMs = START_LOCK_JOIN_BUDGET_WINDOW_MS, lo_mapLockMs = START_LOCK_ON_MAP_CHANGE_MS\<rparr>"

theorem start_lock_budget_witness:
  "case fold lock_step [LockJoin 5, LockMap 7, LockJoin 9] (new_lock game_lock_options, []) of (l, given) \<Rightarrow>
     granted_in START_LOCK_JOIN_BUDGET_WINDOW_MS 9 given \<le> START_LOCK_JOIN_BUDGET_MS"
proof -
  have o': "0 \<le> lo_joinLockMs game_lock_options" "0 \<le> lo_joinBudgetMs game_lock_options"
    "lo_joinBudgetWindowMs game_lock_options = START_LOCK_JOIN_BUDGET_WINDOW_MS"
    "lo_joinBudgetMs game_lock_options = START_LOCK_JOIN_BUDGET_MS"
    by (simp_all add: game_lock_options_def START_LOCK_ON_JOIN_MS_def START_LOCK_JOIN_BUDGET_MS_def)
  have s: "sorted (0 # map lock_time [LockJoin 5, LockMap 7, LockJoin 9] @ [9])" by simp
  from start_lock_budget [OF s o'(1,2)] o' show ?thesis by (auto split: prod.splits)
qed

end
