(* ===== verification/RoomFacts.thy ===== *)
theory RoomFacts
  imports Room LobbyProps
begin

text \<open>
  What every method of a room keeps. \<open>room_ok\<close> is the invariant of the data, \<open>lively\<close> says that an open room has
  somebody in it, \<open>clean\<close> that nobody kicked is in it. \<open>moves r s\<close> is the relation between a room before and after a method that
  lets nobody in and kicks nobody: the invariants are kept and the state moved along the allowed transitions.
\<close>

section \<open>Invariants and the relation\<close>

definition transitions_rel :: "(room_state \<times> room_state) set" where
  "transitions_rel = {(a, b). b \<in> set (TRANSITIONS a)}"

definition reach :: "room \<Rightarrow> room \<Rightarrow> bool" where
  "reach r s \<longleftrightarrow> (room_state r, room_state s) \<in> transitions_rel\<^sup>*"

definition is_thrown :: "room_effect \<Rightarrow> bool" where
  "is_thrown x = (case x of Thrown _ \<Rightarrow> True | _ \<Rightarrow> False)"

definition no_members :: "room \<Rightarrow> bool" where
  "no_members r \<longleftrightarrow> (\<forall>u. js_get (ro_members (rm_roster r)) u = None)"

definition phase_ok :: "room \<Rightarrow> bool" where
  "phase_ok r \<longleftrightarrow> (case room_state r of
     Allocating \<Rightarrow> no_members r
   | Countdown \<Rightarrow> rm_countdownEndsAt r \<noteq> None \<and> rm_startSnapshot r \<noteq> None
   | Playing \<Rightarrow> rm_startSnapshot r \<noteq> None
   | PostGame \<Rightarrow> rm_postGameEndsAt r \<noteq> None
   | _ \<Rightarrow> True)"

definition room_ok :: "room \<Rightarrow> bool" where
  "room_ok r \<longleftrightarrow> roster_ok (rm_roster r) \<and> phase_ok r \<and> list_all (\<lambda>x. \<not> is_thrown x) (rm_out r)"

definition lively :: "room \<Rightarrow> bool" where
  "lively r \<longleftrightarrow> room_state r \<in> {Allocating, Closed} \<or> \<not> no_members r"

definition clean :: "room \<Rightarrow> bool" where
  "clean r \<longleftrightarrow> (\<forall>u \<in> set (rm_kickedUsers r). \<not> room_hasUser r u)"

definition shifts :: "room \<Rightarrow> room \<Rightarrow> bool" where
  "shifts r s \<longleftrightarrow> (room_ok r \<longrightarrow> room_ok s) \<and> reach r s \<and> rm_kickedUsers s = rm_kickedUsers r
     \<and> (\<forall>u. room_hasUser s u \<longrightarrow> room_hasUser r u) \<and> rm_options s = rm_options r"

definition moves :: "room \<Rightarrow> room \<Rightarrow> bool" where
  "moves r s \<longleftrightarrow> shifts r s \<and> (lively r \<longrightarrow> lively s)"

text \<open>A change of anything but the roster's shape, the state and its data.\<close>

definition calm :: "room \<Rightarrow> room \<Rightarrow> bool" where
  "calm r s \<longleftrightarrow> rm_machine s = rm_machine r \<and> rm_kickedUsers s = rm_kickedUsers r \<and> rm_options s = rm_options r
     \<and> rm_countdownEndsAt s = rm_countdownEndsAt r \<and> rm_postGameEndsAt s = rm_postGameEndsAt r
     \<and> rm_startSnapshot s = rm_startSnapshot r
     \<and> ro_holds (rm_roster s) = ro_holds (rm_roster r)
     \<and> (\<forall>u. js_get (ro_members (rm_roster s)) u = None \<longleftrightarrow> js_get (ro_members (rm_roster r)) u = None)
     \<and> (roster_ok (rm_roster r) \<longrightarrow> roster_ok (rm_roster s))
     \<and> filter is_thrown (rm_out s) = filter is_thrown (rm_out r)"

lemma reach_refl [simp]: "reach r r"
  by (simp add: reach_def)

lemma reach_trans: "reach r s \<Longrightarrow> reach s t \<Longrightarrow> reach r t"
  unfolding reach_def by (rule rtrancl_trans)

lemma reach_same: "room_state s = room_state r \<Longrightarrow> reach r s"
  by (simp add: reach_def)

lemma reach_step: "room_state s \<in> set (TRANSITIONS (room_state r)) \<Longrightarrow> reach r s"
  unfolding reach_def transitions_rel_def by (rule r_into_rtrancl) simp

lemma shifts_refl [simp]: "shifts r r"
  by (simp add: shifts_def)

lemma shifts_trans: "shifts r s \<Longrightarrow> shifts s t \<Longrightarrow> shifts r t"
  unfolding shifts_def by (auto intro: reach_trans)

lemma moves_shifts: "moves r s \<Longrightarrow> shifts r s"
  by (simp add: moves_def)

lemma moves_refl [simp]: "moves r r"
  by (simp add: moves_def)

lemma moves_trans: "moves r s \<Longrightarrow> moves s t \<Longrightarrow> moves r t"
  unfolding moves_def by (blast intro: shifts_trans)

lemma calm_refl [simp]: "calm r r"
  by (simp add: calm_def)

lemma calm_trans: "calm r s \<Longrightarrow> calm s t \<Longrightarrow> calm r t"
  unfolding calm_def by auto

lemma hasUser_get: "room_hasUser r u \<longleftrightarrow> js_get (ro_members (rm_roster r)) u \<noteq> None \<or> js_get (ro_holds (rm_roster r)) u \<noteq> None"
  by (simp add: room_hasUser_def hasUser_def js_has_def)

lemma no_thrown: "list_all (\<lambda>x. \<not> is_thrown x) xs \<longleftrightarrow> filter is_thrown xs = []"
  by (simp add: list_all_iff filter_empty_conv)

lemma calm_moves: "calm r s \<Longrightarrow> moves r s"
  unfolding calm_def moves_def shifts_def room_ok_def no_thrown
  by (auto simp: reach_def phase_ok_def no_members_def lively_def hasUser_get room_state_def split: room_state.splits)

section \<open>Calm changes\<close>

named_theorems calm_intros

lemma calm_emit [calm_intros]: "\<not> is_thrown x \<Longrightarrow> calm r (emit x r)"
  by (simp add: calm_def emit_def)

lemma calm_send [calm_intros]: "calm r (send_to P msg r)"
proof -
  have "filter is_thrown (concat (map (\<lambda>m. case lm_connection m of
     None \<Rightarrow> [] | Some c \<Rightarrow> if P m then [Send (gc_id c) (msg m)] else []) ms)) = []" for ms
    by (induction ms) (auto simp: is_thrown_def split: option.split)
  then show ?thesis by (simp add: calm_def send_to_def)
qed

lemma calm_broadcast [calm_intros]: "calm r (broadcast msg r)" "calm r (broadcastCurrentGame msg r)"
  by (simp_all add: broadcast_def broadcastCurrentGame_def calm_send)

lemma calm_directory [calm_intros]: "calm r (directoryChanged r)"
  by (simp add: directoryChanged_def calm_emit is_thrown_def)

lemma calm_lobby [calm_intros]: "calm r (broadcastLobbyState e r)"
  by (simp add: broadcastLobbyState_def calm_send split: option.split)

lemma calm_error [calm_intros]: "calm r (sendError c rid code r)"
  by (simp add: sendError_def calm_emit is_thrown_def)

lemma calm_update [calm_intros]: "keeps_seat f \<Longrightarrow> calm r (update u f r)"
  by (auto simp: calm_def update_def update_get update_other roster_ok_def update_host update_seats)

lemma calm_fields [calm_intros]:
  "calm r (r\<lparr>rm_mapId := a\<rparr>)" "calm r (r\<lparr>rm_locked := b\<rparr>)" "calm r (r\<lparr>rm_startLock := c\<rparr>)" "calm r (r\<lparr>rm_handingOff := b\<rparr>)"
  "calm r (r\<lparr>rm_grantedMatchId := d\<rparr>)" "calm r (r\<lparr>rm_matchId := a\<rparr>)" "calm r (r\<lparr>rm_playedGames := k\<rparr>)"
  "calm r (r\<lparr>rm_resumeStarting := p\<rparr>)" "calm r (r\<lparr>rm_resumeStarted := q\<rparr>)"
  by (simp_all add: calm_def)

lemma calm_update_all [calm_intros]:
  assumes "keeps_seat f" shows "calm r (update_all f r)"
proof -
  have "calm r (fold (\<lambda>u. update u f) us r)" for us
    by (induction us arbitrary: r) (auto intro: calm_trans calm_update [OF assms])
  then show ?thesis by (simp add: update_all_def)
qed

text \<open>Composition: \<open>calm r (f (g r))\<close> from \<open>calm s (f s)\<close> and \<open>calm r (g r)\<close>.\<close>

lemma calm_comp: "calm s t \<Longrightarrow> calm r s \<Longrightarrow> calm r t"
  by (rule calm_trans)

lemma moves_comp: "moves s t \<Longrightarrow> moves r s \<Longrightarrow> moves r t"
  by (rule moves_trans)

section \<open>Changes of the state\<close>

lemma enter_legal:
  assumes "next_state \<in> set (TRANSITIONS (room_state r))"
  shows "room_state (enter next_state now r) = next_state"
    "enter next_state now r = r\<lparr>rm_machine := \<lparr>sm_state = next_state, sm_enteredAt = now\<rparr>\<rparr>"
  using assms by (simp_all add: enter_def transition_def room_state_def)

lemma moves_enter:
  assumes "next_state \<in> set (TRANSITIONS (room_state r))"
    and "room_ok r \<Longrightarrow> phase_ok (r\<lparr>rm_machine := \<lparr>sm_state = next_state, sm_enteredAt = now\<rparr>\<rparr>)"
    and "lively r \<Longrightarrow> next_state = Closed \<or> \<not> no_members r"
  shows "moves r (enter next_state now r)"
proof -
  let ?s = "r\<lparr>rm_machine := \<lparr>sm_state = next_state, sm_enteredAt = now\<rparr>\<rparr>"
  have "reach r ?s" using assms(1) by (intro reach_step) (simp add: room_state_def)
  moreover have "room_ok ?s" if "room_ok r" using that assms(2) by (simp add: room_ok_def)
  moreover have "lively ?s" if "lively r" using assms(3) [OF that] by (auto simp: lively_def room_state_def no_members_def)
  ultimately show ?thesis unfolding enter_legal(2) [OF assms(1)]
    by (simp add: moves_def shifts_def hasUser_get)
qed

lemma moves_holds:
  assumes "roster_ok (rm_roster r) \<Longrightarrow> roster_ok ro" "ro_members ro = ro_members (rm_roster r)"
    and "\<And>u. js_get (ro_holds ro) u \<noteq> None \<Longrightarrow> js_get (ro_holds (rm_roster r)) u \<noteq> None"
  shows "moves r (r\<lparr>rm_roster := ro\<rparr>)"
proof -
  let ?s = "r\<lparr>rm_roster := ro\<rparr>"
  have same: "room_state ?s = room_state r" "no_members ?s = no_members r"
    by (simp_all add: room_state_def no_members_def assms(2))
  have "phase_ok ?s = phase_ok r"
    unfolding phase_ok_def same by (simp split: room_state.split)
  then have "room_ok r \<longrightarrow> room_ok ?s" using assms(1) by (simp add: room_ok_def)
  moreover have "lively ?s = lively r" unfolding lively_def same ..
  moreover have "room_hasUser ?s u \<longrightarrow> room_hasUser r u" for u
    using assms(2,3) by (auto simp: hasUser_get)
  ultimately show ?thesis by (simp add: moves_def shifts_def reach_same [OF same(1)])
qed

lemma close_room_state: "room_state (close_room e r) = Closed"
proof (cases "room_state r = Closed")
  case False
  then have "Closed \<in> set (TRANSITIONS (sm_state (rm_machine r)))" by (cases "sm_state (rm_machine r)") (simp_all add: room_state_def)
  with False show ?thesis
    by (simp add: close_room_def Let_def directoryChanged_def emit_def enter_def transition_def room_state_def)
qed (simp add: close_room_def)

lemma moves_close: "moves r (close_room e r)"
proof (cases "room_state r = Closed")
  case True
  then show ?thesis by (simp add: close_room_def)
next
  case False
  let ?r2 = "(emit StoppedRoom r)\<lparr>rm_roster := clearHolds (rm_roster r)\<rparr>"
  let ?closes = "concat (map (\<lambda>m. case lm_connection m of None \<Rightarrow> []
     | Some c \<Rightarrow> [CloseConnection (gc_id c) CLOSE_NORMAL ''room closed'']) (members (rm_roster ?r2)))"
  let ?r3 = "?r2\<lparr>rm_out := rm_out ?r2 @ ?closes\<rparr>"
  have st: "room_state ?r3 = room_state r" by (simp add: room_state_def emit_def)
  then have legal: "Closed \<in> set (TRANSITIONS (room_state ?r3))" using False by (cases "room_state r") simp_all
  have t: "filter is_thrown (concat (map (\<lambda>m. case lm_connection m of None \<Rightarrow> []
     | Some c \<Rightarrow> [CloseConnection (gc_id c) CLOSE_NORMAL s]) ms)) = []" for ms s
    by (induction ms) (auto simp: is_thrown_def split: option.split)
  have s1: "moves r (emit StoppedRoom r)" by (intro calm_moves calm_emit) (simp add: is_thrown_def)
  have s2: "moves (emit StoppedRoom r) ?r2"
    by (rule moves_holds [of "emit StoppedRoom r" "clearHolds (rm_roster r)", simplified])
      (simp_all add: roster_ok_def clearHolds_seats emit_def, simp_all add: clearHolds_def)
  have s3: "moves ?r2 ?r3" by (rule calm_moves) (simp add: calm_def t)
  have s4: "moves ?r3 (enter Closed (en_now e) ?r3)"
    by (rule moves_enter [OF legal]) (simp_all add: phase_ok_def room_state_def)
  have "close_room e r = directoryChanged (enter Closed (en_now e) ?r3)"
    using False by (simp add: close_room_def Let_def emit_def)
  then show ?thesis
    using moves_trans [OF moves_trans [OF moves_trans [OF moves_trans [OF s1 s2] s3] s4] calm_moves [OF calm_directory]]
    by simp
qed

lemma close_members: "ro_members (rm_roster (close_room e r)) = ro_members (rm_roster r)"
  by (simp add: close_room_def Let_def directoryChanged_def emit_def enter_def clearHolds_def split: option.split)

lemma close_no_user: "room_state r \<noteq> Closed \<Longrightarrow> js_get (ro_holds (rm_roster (close_room e r))) u = None"
  by (simp add: close_room_def Let_def directoryChanged_def emit_def enter_def clearHolds_def split: option.split)

section \<open>Removing members and the passing of time\<close>

lemma roster_size_0: "roster_size (rm_roster r) = 0 \<longleftrightarrow> no_members r"
proof -
  have "ms = [] \<longleftrightarrow> (\<forall>u. js_get ms u = None)" for ms :: "(actor_id, lobby_member) js_map"
    by (cases ms) (auto simp: js_get_def split: if_splits)
  then show ?thesis by (simp add: roster_size_def js_size_def no_members_def)
qed

lemma remove_member_get:
  "js_get (ro_members (snd (remove_member u ro))) v = (if v = u then None else js_get (ro_members ro) v)"
  "ro_holds (snd (remove_member u ro)) = ro_holds ro"
  by (auto simp: remove_member_def Let_def split: option.split)

text \<open>
  Removal, from a room that need not be clean: the member is out, the rest of the relation holds, and afterwards the
  room is closed or has somebody in it.
\<close>

lemma removeMember_moves:
  assumes "getByUser (rm_roster r) u = Some m"
  shows "moves r (snd (removeMember e u reason notify r))"
    "js_get (ro_members (rm_roster (snd (removeMember e u reason notify r)))) u = None"
    "lively (snd (removeMember e u reason notify r))"
proof -
  obtain host ro where rm: "remove_member u (rm_roster r) = (Some (m, host), ro)"
    using assms by (simp add: remove_member_def getByUser_def Let_def)
  let ?r1 = "r\<lparr>rm_roster := ro\<rparr>"
  let ?r2 = "if notify then emit (ParticipantRemoved (lm_playerId m) reason) ?r1 else ?r1"
  let ?r3 = "directoryChanged (broadcast (PlayerLeftMsg (lm_playerId m) reason) ?r2)"
  let ?r4 = "case hostId (rm_roster ?r3) of Some h \<Rightarrow> if host then broadcast (HostChangedMsg h) ?r3 else ?r3 | None \<Rightarrow> ?r3"
  let ?s = "if roster_size (rm_roster ?r4) = 0 then close_room e ?r4 else broadcastLobbyState e ?r4"
  have eq: "snd (removeMember e u reason notify r) = ?s"
    unfolding removeMember_def rm by (simp only: prod.case option.case Let_def snd_conv)
  have c2: "calm ?r1 ?r2" by (simp add: calm_emit is_thrown_def)
  have c3: "calm ?r2 ?r3" by (rule calm_trans [OF calm_broadcast(1) calm_directory])
  have c4: "calm ?r3 ?r4" by (simp add: calm_broadcast split: option.split)
  have calm: "calm ?r1 ?r4" by (rule calm_trans [OF calm_trans [OF c2 c3] c4])
  have ro: "js_get (ro_members ro) v = (if v = u then None else js_get (ro_members (rm_roster r)) v)"
    "ro_holds ro = ro_holds (rm_roster r)" for v
    using remove_member_get [of u "rm_roster r"] by (simp_all add: rm)
  have "shifts r ?r1"
  proof -
    have "roster_ok (rm_roster r) \<Longrightarrow> roster_ok ro"
      using remove_seats [of "rm_roster r" u] by (simp add: rm roster_ok_def)
    moreover have "phase_ok r \<Longrightarrow> phase_ok ?r1"
      using assms ro by (auto simp: phase_ok_def no_members_def room_state_def getByUser_def split: room_state.splits)
    ultimately have "room_ok r \<longrightarrow> room_ok ?r1" by (simp add: room_ok_def)
    then show ?thesis using ro by (auto simp: shifts_def hasUser_get room_state_def reach_def split: if_splits)
  qed
  moreover have "shifts ?r1 ?r4" by (intro moves_shifts calm_moves calm)
  moreover have step: "shifts ?r4 ?s" by (simp add: moves_shifts moves_close calm_moves [OF calm_lobby])
  ultimately have "shifts r ?s" by (blast intro: shifts_trans)
  moreover show "lively (snd (removeMember e u reason notify r))"
  proof (cases "roster_size (rm_roster ?r4) = 0")
    case True
    then show ?thesis unfolding eq by (simp add: lively_def close_room_state)
  next
    case False
    then have "\<not> no_members ?r4" by (simp add: roster_size_0)
    then have "\<not> no_members (broadcastLobbyState e ?r4)"
      using calm_lobby [of ?r4 e] by (simp add: calm_def no_members_def)
    with False show ?thesis unfolding eq by (simp add: lively_def)
  qed
  ultimately show "moves r (snd (removeMember e u reason notify r))" by (simp add: moves_def eq)
  have "js_get (ro_members (rm_roster ?r4)) u = None" using calm ro by (simp add: calm_def)
  moreover from this have "js_get (ro_members (rm_roster (broadcastLobbyState e ?r4))) u = None"
    using calm_lobby [of ?r4 e] unfolding calm_def by blast
  ultimately show "js_get (ro_members (rm_roster (snd (removeMember e u reason notify r)))) u = None"
    unfolding eq by (simp only: close_members split: if_split) blast
qed

lemma moves_calm: "moves r s \<Longrightarrow> calm s t \<Longrightarrow> moves r t"
  by (rule moves_trans [OF _ calm_moves])

lemma calm_moves_trans: "calm r s \<Longrightarrow> moves s t \<Longrightarrow> moves r t"
  by (rule moves_trans [OF calm_moves])

lemma moves_fold: "(\<And>x r. moves r (f x r)) \<Longrightarrow> moves r (fold f xs r)"
  by (induction xs arbitrary: r) (auto intro: moves_trans)

lemma removeMember_moves_any: "moves r (snd (removeMember e u reason notify r))"
proof (cases "getByUser (rm_roster r) u")
  case None
  then show ?thesis by (simp add: removeMember_def remove_member_def getByUser_def)
next
  case (Some m)
  then show ?thesis by (rule removeMember_moves)
qed

lemma expire_member_moves: "moves r (expire_member e u r)"
proof (cases "getByUser (rm_roster r) u")
  case None
  then show ?thesis by (simp add: expire_member_def)
next
  case (Some m)
  define r1 where "r1 = (if admission_expired (en_now e) m then update u (\<lambda>m. m\<lparr>lm_admissionPendingUntil := None\<rparr>) r else r)"
  have c: "calm r r1" unfolding r1_def by (simp add: calm_update keeps_seat_def)
  have "expire_member e u r = (if admission_expired (en_now e) m \<and> lm_reconnectUntil m = None
      then snd (removeMember e u ''admission-timeout'' False r1)
      else if reconnect_expired (en_now e) m then snd (removeMember e u ''reconnect-timeout'' False r1) else r1)"
    unfolding expire_member_def Some option.case Let_def r1_def ..
  then show ?thesis by (simp add: calm_moves_trans [OF c removeMember_moves_any] calm_moves [OF c])
qed

lemma enter_commute:
  "enter s now (r\<lparr>rm_countdownEndsAt := a\<rparr>) = (enter s now r)\<lparr>rm_countdownEndsAt := a\<rparr>"
  "enter s now (r\<lparr>rm_postGameEndsAt := a\<rparr>) = (enter s now r)\<lparr>rm_postGameEndsAt := a\<rparr>"
  "enter s now (r\<lparr>rm_startSnapshot := b\<rparr>) = (enter s now r)\<lparr>rm_startSnapshot := b\<rparr>"
  by (simp_all add: enter_def emit_def split: option.split)

text \<open>Data that the current state does not need may change.\<close>

lemma moves_data:
  "room_state r \<noteq> Countdown \<Longrightarrow> moves r (r\<lparr>rm_countdownEndsAt := a\<rparr>)"
  "room_state r \<noteq> PostGame \<Longrightarrow> moves r (r\<lparr>rm_postGameEndsAt := a\<rparr>)"
  "room_state r \<noteq> Countdown \<Longrightarrow> room_state r \<noteq> Playing \<Longrightarrow> moves r (r\<lparr>rm_startSnapshot := b\<rparr>)"
  by (auto simp: moves_def shifts_def room_ok_def phase_ok_def no_members_def room_state_def reach_def lively_def hasUser_get
      split: room_state.split room_state.split_asm)

lemma start_playing_moves:
  assumes "room_state r = Countdown" "rm_startSnapshot r = Some s"
  shows "moves r (start_playing e s r)"
proof -
  define r1 where "r1 = update_all (begin_game_member s) (emit (StartedGame s) r)"
  have c: "calm r r1" unfolding r1_def
    by (intro calm_trans [OF calm_emit calm_update_all]) (simp_all add: is_thrown_def keeps_seat_def begin_game_member_def Let_def)
  then have st: "room_state r1 = Countdown" "rm_startSnapshot r1 = Some s"
    using assms by (simp_all add: calm_def room_state_def)
  have legal: "Playing \<in> set (TRANSITIONS (room_state r1))" using st by simp
  have "moves r1 (enter Playing (en_now e) r1)"
    by (rule moves_enter [OF legal]) (use st in \<open>auto simp: phase_ok_def room_state_def lively_def\<close>)
  moreover have "moves (enter Playing (en_now e) r1) ((enter Playing (en_now e) r1)\<lparr>rm_countdownEndsAt := None\<rparr>)"
    using enter_legal(1) [OF legal] by (intro moves_data) simp
  moreover have "calm ((enter Playing (en_now e) r1)\<lparr>rm_countdownEndsAt := None\<rparr>) (start_playing e s r)"
    unfolding start_playing_def Let_def r1_def [symmetric] enter_commute
    by (rule calm_trans [OF calm_trans [OF calm_fields(9) calm_broadcast(2)] calm_lobby])
  ultimately show ?thesis using calm_moves [OF c] calm_moves moves_trans by blast
qed

lemma return_to_lobby_moves:
  assumes "room_state r = PostGame"
  shows "moves r (return_to_lobby e r)"
proof -
  define r1 where "r1 = update_all end_game_member r"
  have c: "calm r r1" unfolding r1_def by (intro calm_update_all) (simp add: keeps_seat_def end_game_member_def)
  then have st: "room_state r1 = PostGame" using assms by (simp add: calm_def room_state_def)
  have legal: "Waiting \<in> set (TRANSITIONS (room_state r1))" using st by simp
  let ?r2 = "enter Waiting (en_now e) r1"
  have st2: "room_state ?r2 = Waiting" "room_state (?r2\<lparr>rm_postGameEndsAt := None\<rparr>) = Waiting"
    using enter_legal(1) [OF legal] by (simp_all add: room_state_def)
  have "moves r1 ?r2"
    by (rule moves_enter [OF legal]) (use st in \<open>auto simp: phase_ok_def room_state_def lively_def\<close>)
  moreover have "moves ?r2 (?r2\<lparr>rm_postGameEndsAt := None\<rparr>)" using st2 by (intro moves_data) simp
  moreover have "moves (?r2\<lparr>rm_postGameEndsAt := None\<rparr>) (?r2\<lparr>rm_postGameEndsAt := None, rm_startSnapshot := None\<rparr>)"
    using st2 moves_data(3) [of "?r2\<lparr>rm_postGameEndsAt := None\<rparr>" None] by simp
  moreover have "calm (?r2\<lparr>rm_postGameEndsAt := None, rm_startSnapshot := None\<rparr>) (return_to_lobby e r)"
    unfolding return_to_lobby_def Let_def r1_def [symmetric] enter_commute by (rule calm_lobby)
  ultimately show ?thesis using calm_moves [OF c] calm_moves moves_trans by blast
qed

text \<open>In a good room the countdown has its snapshot, so nothing is thrown.\<close>

lemma advance_countdown_moves: "room_ok r \<Longrightarrow> moves r (advance_countdown e r)"
  by (auto simp: advance_countdown_def start_playing_moves room_ok_def phase_ok_def split: option.split)

lemma advance_postgame_moves: "moves r (advance_postgame e r)"
  by (simp add: advance_postgame_def return_to_lobby_moves)

lemma moves_ok: "moves r s \<Longrightarrow> room_ok r \<Longrightarrow> room_ok s"
  by (simp add: moves_def shifts_def)

lemma purge_moves:
  assumes ok: "room_ok r"
  shows "moves r (r\<lparr>rm_roster := snd (purgeExpiredHolds now (rm_roster r))\<rparr>)"
proof (rule moves_holds)
  show "roster_ok (snd (purgeExpiredHolds now (rm_roster r)))" if "roster_ok (rm_roster r)"
    using that by (simp add: roster_ok_def purge_seats)
  show "js_get (ro_holds (rm_roster r)) u \<noteq> None"
    if "js_get (ro_holds (snd (purgeExpiredHolds now (rm_roster r)))) u \<noteq> None" for u
    using that ok by (auto simp: purgeExpiredHolds_def Let_def js_get_delete_where room_ok_def roster_ok_def seats_ok_def
        split: option.splits if_splits)
qed (simp add: purgeExpiredHolds_def Let_def)

lemma advance_inner_moves:
  assumes ok: "room_ok r"
  shows "moves r (advance_inner e r)"
proof (cases "room_state r = Closed")
  case True
  then show ?thesis by (simp add: advance_inner_def)
next
  case False
  define r1 where "r1 = r\<lparr>rm_roster := snd (purgeExpiredHolds (en_now e) (rm_roster r))\<rparr>"
  define r2 where "r2 = expire_members e r1"
  have m1: "moves r r1" unfolding r1_def by (rule purge_moves [OF ok])
  have m2: "moves r1 r2" unfolding r2_def expire_members_def by (intro moves_fold expire_member_moves)
  have m: "moves r r2" by (rule moves_trans [OF m1 m2])
  have ok2: "room_ok r2" by (rule moves_ok [OF m ok])
  have eq: "advance_inner e r = (if roster_size (rm_roster r2) = 0
      then (if room_state r2 \<noteq> Allocating \<or> occupiedSize (rm_roster r2) = 0 then close_room e r2 else r2)
      else advance_postgame e (advance_countdown e r2))"
    using False by (simp add: advance_inner_def Let_def r1_def r2_def)
  have "moves r2 (advance_postgame e (advance_countdown e r2))"
    by (rule moves_trans [OF advance_countdown_moves [OF ok2] advance_postgame_moves])
  then show ?thesis unfolding eq by (simp add: moves_trans [OF m] moves_close m)
qed

lemma advance_moves: "room_ok r \<Longrightarrow> moves r (advance e r)"
  by (simp add: advance_def Let_def advance_inner_moves moves_calm [OF advance_inner_moves calm_directory])

end
