(* ===== verification/RoomCalls.thy ===== *)
theory RoomCalls
  imports RoomFacts
begin

text \<open>
  The room as a machine: every method of \<open>rooms/room.ts\<close> that changes it is a call. One lemma per call shows that it keeps the
  invariant of \<open>RoomFacts\<close> and is a path along the allowed transitions; the interpretation of \<open>ordered_machine\<close>
  carries both to any sequence of calls.
\<close>

section \<open>Calls\<close>

datatype room_call =
  CReserveJoin seat_reservation "string option"
| CCanReserveResume actor_id
| CAdmit seat_reservation
| CBind game_connection
| CAfterBind game_connection
| CDisconnect game_connection
| CReleaseSeat actor_id string
| CKick actor_id int
| CForceKick actor_id string
| CPassHost actor_id int
| CSetLocked actor_id bool
| CSetMap actor_id string
| CSetLoadout actor_id skill_id
| CSetControl actor_id player_control
| CMoveSlot actor_id int
| CRequestStart actor_id
| CFinishGame "int list"
| CGrantMatchId string
| CRevive int bool
| CMarkEliminated int int
| CSetSpectating actor_id bool
| CInput game_connection input_state
| CTagged int "int option"
| CBlinked int real real "int \<Rightarrow> bool"
| CSkillArea string int real real "int option" "int \<Rightarrow> bool"
| CSkillRejected int int skill_rejection
| CAdvance
| CClose
| CFreeze
| CCancelHandOff
| CHandOffDone
| CRefreshGrace

text \<open>An exception of \<open>finishGame\<close> leaves the room as it was. The hand-over is completed only for a frozen open room.\<close>

fun room_step :: "room_env \<times> room_call \<Rightarrow> room \<Rightarrow> room" where
  "room_step (e, CReserveJoin res pw) r = snd (reserveJoin e res pw r)"
| "room_step (e, CCanReserveResume u) r = snd (canReserveResume e u r)"
| "room_step (e, CAdmit res) r = snd (admitReservation e res r)"
| "room_step (e, CBind c) r = snd (bindConnection e c r)"
| "room_step (e, CAfterBind c) r = after_bind e c r"
| "room_step (e, CDisconnect c) r = disconnect e c r"
| "room_step (e, CReleaseSeat u reason) r = snd (releaseSeat e u reason r)"
| "room_step (e, CKick req pid) r = snd (kick e req pid r)"
| "room_step (e, CForceKick u reason) r = snd (forceKick e u reason r)"
| "room_step (e, CPassHost req pid) r = snd (room_passHost e req pid r)"
| "room_step (e, CSetLocked req b) r = snd (setLocked e req b r)"
| "room_step (e, CSetMap req m) r = snd (setMap e req m r)"
| "room_step (e, CSetLoadout u s) r = snd (setLoadout e u s r)"
| "room_step (e, CSetControl u c) r = snd (setControl e u c r)"
| "room_step (e, CMoveSlot u s) r = snd (room_moveSlot e u s r)"
| "room_step (e, CRequestStart u) r = snd (requestStart e u r)"
| "room_step (e, CFinishGame ws) r = (case finishGame e ws r of Inl _ \<Rightarrow> r | Inr x \<Rightarrow> snd x)"
| "room_step (e, CGrantMatchId m) r = grantMatchId m r"
| "room_step (e, CRevive pid b) r = snd (reviveForTraining e pid b r)"
| "room_step (e, CMarkEliminated pid by') r = snd (markEliminated e pid by' r)"
| "room_step (e, CSetSpectating u b) r = snd (setSpectating e u b r)"
| "room_step (e, CInput c i) r = snd (acceptInput c i r)"
| "room_step (e, CTagged pid by') r = broadcastTagged pid by' r"
| "room_step (e, CBlinked pid x y see) r = broadcastBlinked pid x y see r"
| "room_step (e, CSkillArea skill pid x y t see) r = broadcastSkillArea skill pid x y t see r"
| "room_step (e, CSkillRejected pid s reason) r = sendSkillRejected pid s reason r"
| "room_step (e, CAdvance) r = advance e r"
| "room_step (e, CClose) r = close_room e r"
| "room_step (e, CFreeze) r = snd (freezeForHandOff r)"
| "room_step (e, CCancelHandOff) r = cancelHandOff r"
| "room_step (e, CHandOffDone) r = (if rm_handingOff r \<and> room_state r \<noteq> Closed then releaseAfterHandOff e r else r)"
| "room_step (e, CRefreshGrace) r = refreshHandOffGrace e r"

section \<open>Each call keeps the invariant\<close>

definition room_inv :: "room \<Rightarrow> bool" where
  "room_inv r \<longleftrightarrow> room_ok r \<and> lively r \<and> clean r"

definition good_step :: "room \<Rightarrow> room \<Rightarrow> bool" where
  "good_step r s \<longleftrightarrow> room_inv s \<and> reach r s \<and> rm_options s = rm_options r
     \<and> set (rm_kickedUsers r) \<subseteq> set (rm_kickedUsers s)"

lemma moves_good: "room_inv r \<Longrightarrow> moves r s \<Longrightarrow> good_step r s"
  by (auto simp: room_inv_def good_step_def moves_def shifts_def clean_def)

lemma calm_good: "room_inv r \<Longrightarrow> calm r s \<Longrightarrow> good_step r s"
  by (rule moves_good [OF _ calm_moves])

lemma good_refl: "room_inv r \<Longrightarrow> good_step r r"
  by (simp add: good_step_def)

lemma good_trans: "good_step r s \<Longrightarrow> good_step s t \<Longrightarrow> good_step r t"
  by (auto simp: good_step_def intro: reach_trans)

lemmas inv_okD = room_inv_def [THEN iffD1, THEN conjunct1]

lemma advance_good: "room_inv r \<Longrightarrow> good_step r (advance e r)"
  by (rule moves_good [OF _ advance_moves]) (simp_all add: room_inv_def)

lemma hold_good:
  assumes inv: "room_inv r" and h: "hold res bl (rm_roster r) = (Inr s, ro)"
    and kicked: "sr_userId res \<notin> set (rm_kickedUsers r)" and opened: "room_state r \<noteq> Allocating"
  shows "good_step r (r\<lparr>rm_roster := ro\<rparr>)"
proof -
  have roster: "roster_ok (rm_roster r)" using inv by (simp add: room_inv_def room_ok_def)
  then have "roster_ok ro" using hold_seats [of "rm_roster r" res bl] h by (simp add: roster_ok_def)
  moreover have mem: "ro_members ro = ro_members (rm_roster r)"
    and holds: "ro_holds ro = js_set (sr_userId res) \<lparr>sh_reservation = res, sh_playerId = s, sh_slot = s\<rparr> (ro_holds (rm_roster r))"
    using h by (auto simp: hold_def split: if_splits option.splits)
  ultimately show ?thesis using inv kicked
    by (auto simp: good_step_def room_inv_def room_ok_def phase_ok_def no_members_def lively_def clean_def hasUser_get
        room_state_def reach_def split: if_splits cong: room_state.case_cong)
qed

lemma reserveJoin_good:
  assumes inv: "room_inv r"
  shows "good_step r (snd (reserveJoin e res pw r))"
proof -
  define r1 where "r1 = advance e r"
  have g: "good_step r r1" unfolding r1_def by (rule advance_good [OF inv])
  then have inv1: "room_inv r1" by (simp add: good_step_def)
  let ?bl = "if room_state r1 = Playing then locked_players r1 else []"
  obtain x ro where h: "hold res ?bl (rm_roster r1) = (x, ro)" by fastforce
  show ?thesis
  proof (cases x)
    case (Inl err)
    have "snd (reserveJoin e res pw r) = r1"
      using h unfolding Inl by (cases err) (simp_all add: reserveJoin_def Let_def r1_def [symmetric])
    with g show ?thesis by simp
  next
    case (Inr s)
    have cases: "snd (reserveJoin e res pw r) = r1
        \<or> snd (reserveJoin e res pw r) = directoryChanged (r1\<lparr>rm_roster := ro\<rparr>)
          \<and> sr_userId res \<notin> set (rm_kickedUsers r1) \<and> room_state r1 \<noteq> Allocating"
      using h unfolding Inr by (simp add: reserveJoin_def Let_def r1_def [symmetric]) auto
    show ?thesis
    proof (cases "snd (reserveJoin e res pw r) = r1")
      case True
      with g show ?thesis by simp
    next
      case False
      with cases have c: "snd (reserveJoin e res pw r) = directoryChanged (r1\<lparr>rm_roster := ro\<rparr>)"
        "sr_userId res \<notin> set (rm_kickedUsers r1)" "room_state r1 \<noteq> Allocating" by blast+
      have s: "good_step r1 (r1\<lparr>rm_roster := ro\<rparr>)" by (rule hold_good [OF inv1 h [unfolded Inr] c(2,3)])
      then have "room_inv (r1\<lparr>rm_roster := ro\<rparr>)" by (simp add: good_step_def)
      from good_trans [OF good_trans [OF g s] calm_good [OF this calm_directory]] show ?thesis by (simp add: c(1))
    qed
  qed
qed

lemma claim_moves:
  assumes cl: "claim u now role (rm_roster r) = (Some m, ro)" and inv: "room_inv r" and opened: "room_state r \<noteq> Closed"
  shows "good_step r (if room_state r = Allocating then enter Waiting now (r\<lparr>rm_roster := ro\<rparr>) else r\<lparr>rm_roster := ro\<rparr>)"
proof -
  define s where "s = (if room_state r = Allocating then enter Waiting now (r\<lparr>rm_roster := ro\<rparr>) else r\<lparr>rm_roster := ro\<rparr>)"
  have roster: "roster_ok (rm_roster r)" using inv by (simp add: room_inv_def room_ok_def)
  have ro: "roster_ok ro" using claim_seats [of "rm_roster r" u now role] roster cl by (simp add: roster_ok_def)
  obtain h where h: "js_get (ro_holds (rm_roster r)) u = Some h"
    and e: "ro_members ro = js_set u m (ro_members (rm_roster r))" "ro_holds ro = js_delete u (ro_holds (rm_roster r))"
    using cl by (auto simp: claim_def Let_def split: option.splits if_splits)
  have st: "room_state s = (if room_state r = Allocating then Waiting else room_state r)"
    and rest: "rm_roster s = ro" "rm_kickedUsers s = rm_kickedUsers r" "rm_options s = rm_options r" "rm_out s = rm_out r"
      "rm_countdownEndsAt s = rm_countdownEndsAt r" "rm_postGameEndsAt s = rm_postGameEndsAt r"
      "rm_startSnapshot s = rm_startSnapshot r"
    by (simp_all add: s_def enter_def transition_def room_state_def)
  have mem: "\<not> no_members s" by (auto simp: no_members_def rest e)
  have ok: "phase_ok r" using inv by (simp add: room_inv_def room_ok_def)
  have "phase_ok s" using ok unfolding phase_ok_def st rest by (cases "room_state r") simp_all
  then have "room_ok s" using inv ro by (simp add: room_ok_def rest room_inv_def)
  moreover have "lively s" using mem by (simp add: lively_def)
  moreover have "clean s" using inv h by (auto simp: clean_def hasUser_get rest e room_inv_def)
  moreover have "reach r s"
    using st by (cases "room_state r = Allocating") (auto intro: reach_step reach_same)
  ultimately have "good_step r s" using rest(2,3) by (simp add: good_step_def room_inv_def)
  then show ?thesis by (simp only: s_def)
qed

lemma claim_none:
  assumes cl: "claim u now role (rm_roster r) = (None, ro)"
  shows "moves r (r\<lparr>rm_roster := ro\<rparr>)"
proof (rule moves_holds)
  show "roster_ok ro" if "roster_ok (rm_roster r)"
    using claim_seats [of "rm_roster r" u now role] that cl by (simp add: roster_ok_def)
qed (use cl in \<open>auto simp: claim_def Let_def split: option.splits if_splits\<close>)

lemma canReserveResume_snd: "snd (canReserveResume e u r) = advance e r"
  by (simp add: canReserveResume_def Let_def split: option.split)

lemma enter_lock: "enter next_state now (r\<lparr>rm_startLock := l\<rparr>) = (enter next_state now r)\<lparr>rm_startLock := l\<rparr>"
  by (simp add: enter_def emit_def split: option.split)

lemma admit_good:
  assumes inv: "room_inv r"
  shows "good_step r (snd (admitReservation e res r))"
proof -
  define r1 where "r1 = advance e r"
  define r2 where "r2 = advance e r1"
  have g: "good_step r r1" unfolding r1_def by (rule advance_good [OF inv])
  then have inv1: "room_inv r1" by (simp add: good_step_def)
  have g2: "good_step r r2" unfolding r2_def by (rule good_trans [OF g advance_good [OF inv1]])
  then have inv2: "room_inv r2" by (simp add: good_step_def)
  define bad where "bad = (sr_roomId res \<noteq> op_id (rm_options r1) \<or> sr_expiresAt res \<le> en_now e \<or> room_state r1 = Closed)"
  consider (stop) "snd (admitReservation e res r) = r1"
    | (resume) "snd (admitReservation e res r) \<in>
        {r2, update (sr_userId res) (\<lambda>m. m\<lparr>lm_admissionPendingUntil := Some (sr_expiresAt res)\<rparr>) r2}"
    | (fresh) role p ro where "room_state r1 \<noteq> Closed" "claim (sr_userId res) (en_now e) role (rm_roster r1) = (p, ro)"
        "snd (admitReservation e res r) = (case p of None \<Rightarrow> r1\<lparr>rm_roster := ro\<rparr>
          | Some m \<Rightarrow> directoryChanged (if room_state r1 = Allocating
             then enter Waiting (en_now e) (r1\<lparr>rm_roster := ro, rm_startLock := snd (applyJoin (en_now e) (rm_startLock r1))\<rparr>)
             else r1\<lparr>rm_roster := ro, rm_startLock := snd (applyJoin (en_now e) (rm_startLock r1))\<rparr>))"
  proof (cases bad)
    case True
    then have "snd (admitReservation e res r) = r1"
      unfolding bad_def by (elim disjE) (simp_all add: admitReservation_def Let_def r1_def [symmetric])
    then show ?thesis by (rule stop)
  next
    case good: False
    then have conds: "sr_roomId res = op_id (rm_options r1)" "\<not> sr_expiresAt res \<le> en_now e" "room_state r1 \<noteq> Closed"
      by (simp_all add: bad_def)
    show ?thesis
    proof (cases "sr_resume res")
      case True
      obtain err r' where c: "canReserveResume e (sr_userId res) r1 = (err, r')" by fastforce
      then have r': "r' = r2" using canReserveResume_snd [of e "sr_userId res" r1] by (simp add: r2_def)
      show ?thesis
        by (rule resume) (use conds True c r' in \<open>simp add: admitReservation_def Let_def r1_def [symmetric] split: option.split\<close>)
    next
      case False
      let ?u = "sr_userId res"
      let ?role = "if room_state r1 = Playing then RoleWaiting else RolePlayer"
      obtain p ro where c: "claim ?u (en_now e) ?role (rm_roster r1) = (p, ro)" by fastforce
      show ?thesis
      proof (cases "snd (admitReservation e res r) = r1")
        case True
        then show ?thesis by (rule stop)
      next
        case moved: False
        show ?thesis
        proof (rule fresh [OF conds(3) c])
          show "snd (admitReservation e res r) = (case p of None \<Rightarrow> r1\<lparr>rm_roster := ro\<rparr>
            | Some m \<Rightarrow> directoryChanged (if room_state r1 = Allocating
               then enter Waiting (en_now e) (r1\<lparr>rm_roster := ro, rm_startLock := snd (applyJoin (en_now e) (rm_startLock r1))\<rparr>)
               else r1\<lparr>rm_roster := ro, rm_startLock := snd (applyJoin (en_now e) (rm_startLock r1))\<rparr>))"
            using moved conds False c
            by (cases p) (simp_all add: admitReservation_def Let_def r1_def [symmetric] room_state_def
                split: option.splits if_splits, auto)
        qed
      qed
    qed
  qed
  then show ?thesis
  proof cases
    case stop
    with g show ?thesis by simp
  next
    case resume
    have "good_step r2 (update (sr_userId res) (\<lambda>m. m\<lparr>lm_admissionPendingUntil := Some (sr_expiresAt res)\<rparr>) r2)"
      by (rule calm_good [OF inv2 calm_update]) (simp add: keeps_seat_def)
    with resume g2 show ?thesis by (auto intro: good_trans)
  next
    case fresh
    show ?thesis
    proof (cases p)
      case None
      have "good_step r1 (r1\<lparr>rm_roster := ro\<rparr>)"
        by (rule moves_good [OF inv1 claim_none]) (use fresh None in simp)
      with fresh None g show ?thesis by (auto intro: good_trans)
    next
      case (Some m)
      let ?t = "if room_state r1 = Allocating then enter Waiting (en_now e) (r1\<lparr>rm_roster := ro\<rparr>) else r1\<lparr>rm_roster := ro\<rparr>"
      let ?l = "snd (applyJoin (en_now e) (rm_startLock r1))"
      have s: "good_step r1 ?t" using fresh(1,2) Some inv1 by (intro claim_moves) simp_all
      have "snd (admitReservation e res r) = directoryChanged (?t\<lparr>rm_startLock := ?l\<rparr>)"
        using fresh(3) Some by (simp add: enter_lock)
      moreover have "good_step ?t (directoryChanged (?t\<lparr>rm_startLock := ?l\<rparr>))"
        using s by (intro calm_good calm_trans [OF calm_fields(3) calm_directory]) (simp add: good_step_def)
      ultimately show ?thesis using good_trans [OF good_trans [OF g s]] by simp
    qed
  qed
qed

section \<open>Connections and departures\<close>

lemma calm_when [calm_intros]: "calm r s \<Longrightarrow> calm r t \<Longrightarrow> calm r (if b then s else t)"
  by simp

lemma bind_good: "room_inv r \<Longrightarrow> good_step r (snd (bindConnection e c r))"
proof (erule calm_good)
  have u: "calm r (emit (ConnectionChanged p True) (update w (\<lambda>m. m\<lparr>lm_connection := Some c, lm_admissionPendingUntil := None,
      lm_reconnectUntil := None, lm_latestInput := None, lm_lastInputSequence := None\<rparr>) r))" for p w
    by (rule calm_trans [OF calm_update calm_emit]) (simp_all add: keeps_seat_def is_thrown_def)
  show "calm r (snd (bindConnection e c r))"
    by (simp add: bindConnection_def u split: option.split)
qed

lemma calm_replay: "calm r (replayGameState c r)"
proof -
  have e: "calm s (emit (Send i msg) s)" for s i msg by (rule calm_emit) (simp add: is_thrown_def)
  show ?thesis by (auto simp: replayGameState_def Let_def split: option.split intro: e calm_trans [OF e e])
qed

lemma calm_after_bind: "calm r (after_bind e c r)"
  by (simp add: after_bind_def Let_def calm_lobby calm_trans [OF calm_lobby calm_replay] split: option.split)

lemma calm_markEliminatedMember: "calm r (markEliminatedMember e u pid by' r)"
proof -
  have u: "calm r (update u (\<lambda>m. m\<lparr>lm_spectatorEligible := True, lm_role := RoleSpectator, lm_latestInput := None\<rparr>) r)"
    by (rule calm_update) (simp add: keeps_seat_def)
  show ?thesis unfolding markEliminatedMember_def Let_def
    by (rule calm_trans [OF calm_trans [OF calm_trans [OF u calm_broadcast(2)] calm_broadcast(2)] calm_lobby])
qed

lemma calm_disconnect: "calm r (disconnect e c r)"
proof (cases "getByUser (rm_roster r) (gc_userId c)")
  case None
  then show ?thesis by (simp add: disconnect_def)
next
  case (Some m)
  define r1 where "r1 = emit (ConnectionChanged (lm_playerId m) False)
      (update (gc_userId c) (\<lambda>m. m\<lparr>lm_connection := None, lm_admissionPendingUntil := None,
        lm_reconnectUntil := Some (en_now e + rt_reconnectGraceMs (roomTiming r)), lm_latestInput := None\<rparr>) r)"
  define msg where "msg = PlayerReconnectingMsg (lm_playerId m) (rt_reconnectGraceMs (roomTiming r))"
  define in_game where "in_game = (room_state r1 = Playing \<and> lm_inCurrentGame m)"
  define r2 where "r2 = (if in_game then broadcastCurrentGame msg r1 else broadcast msg r1)"
  have c1: "calm r r1" unfolding r1_def
    by (rule calm_trans [OF calm_update calm_emit]) (simp_all add: keeps_seat_def is_thrown_def)
  have c2: "calm r r2" using calm_trans [OF c1] by (simp add: r2_def calm_broadcast)
  have eq: "disconnect e c r = (if map_option gc_id (lm_connection m) \<noteq> Some (gc_id c) then r
      else if in_game \<and> \<not> lm_spectatorEligible m
        then emit (ParticipantDisconnected (lm_playerId m))
          (markEliminatedMember e (gc_userId c) (lm_playerId m) (lm_playerId m) r2)
        else broadcastLobbyState e r2)"
    unfolding disconnect_def Some option.case Let_def r1_def [symmetric] msg_def [symmetric] in_game_def [symmetric]
      r2_def [symmetric] ..
  have c3: "calm r2 (emit (ParticipantDisconnected (lm_playerId m))
      (markEliminatedMember e (gc_userId c) (lm_playerId m) (lm_playerId m) r2))"
    by (rule calm_trans [OF calm_markEliminatedMember calm_emit]) (simp add: is_thrown_def)
  show ?thesis unfolding eq by (simp add: calm_trans [OF c2 c3] calm_trans [OF c2 calm_lobby])
qed

lemma releaseHold_moves: "releaseHold u (rm_roster r) = (b, ro) \<Longrightarrow> moves r (r\<lparr>rm_roster := ro\<rparr>)"
proof (rule moves_holds)
  assume h: "releaseHold u (rm_roster r) = (b, ro)"
  show "roster_ok ro" if "roster_ok (rm_roster r)"
    using releaseHold_seats [of "rm_roster r" u] that h by (simp add: roster_ok_def)
  show "ro_members ro = ro_members (rm_roster r)" using h by (auto simp: releaseHold_def)
  show "js_get (ro_holds (rm_roster r)) v \<noteq> None" if "js_get (ro_holds ro) v \<noteq> None" for v
    using h that by (auto simp: releaseHold_def js_get_delete split: if_splits)
qed

lemma releaseSeat_moves: "moves r (snd (releaseSeat e u reason r))"
proof -
  obtain b ro where h: "releaseHold u (rm_roster r) = (b, ro)" by fastforce
  note m = releaseHold_moves [OF h]
  show ?thesis
  proof (cases b)
    case True
    have "snd (releaseSeat e u reason r) = directoryChanged
        (if occupiedSize (rm_roster (r\<lparr>rm_roster := ro\<rparr>)) = 0 then close_room e (r\<lparr>rm_roster := ro\<rparr>) else r\<lparr>rm_roster := ro\<rparr>)"
      by (simp add: releaseSeat_def h True Let_def)
    moreover have "moves r (if b' then close_room e (r\<lparr>rm_roster := ro\<rparr>) else r\<lparr>rm_roster := ro\<rparr>)" for b'
      by (simp add: m moves_trans [OF m moves_close])
    ultimately show ?thesis by (simp only: moves_calm [OF _ calm_directory])
  next
    case False
    then show ?thesis by (simp add: releaseSeat_def h moves_trans [OF m removeMember_moves_any])
  qed
qed

section \<open>Kicks\<close>

lemma removeMember_holds:
  "js_get (ro_holds (rm_roster (snd (removeMember e u reason notify r)))) v \<noteq> None \<Longrightarrow> js_get (ro_holds (rm_roster r)) v \<noteq> None"
proof (cases "getByUser (rm_roster r) u")
  case None
  then show "js_get (ro_holds (rm_roster (snd (removeMember e u reason notify r)))) v \<noteq> None \<Longrightarrow> js_get (ro_holds (rm_roster r)) v \<noteq> None"
    by (simp add: removeMember_def remove_member_def getByUser_def)
next
  case (Some m)
  then obtain host ro where rm: "remove_member u (rm_roster r) = (Some (m, host), ro)"
    by (simp add: remove_member_def getByUser_def Let_def)
  let ?r1 = "r\<lparr>rm_roster := ro\<rparr>"
  let ?r2 = "if notify then emit (ParticipantRemoved (lm_playerId m) reason) ?r1 else ?r1"
  let ?r3 = "directoryChanged (broadcast (PlayerLeftMsg (lm_playerId m) reason) ?r2)"
  define r4 where "r4 = (case hostId (rm_roster ?r3) of Some h \<Rightarrow> if host then broadcast (HostChangedMsg h) ?r3 else ?r3 | None \<Rightarrow> ?r3)"
  have eq: "snd (removeMember e u reason notify r) = (if roster_size (rm_roster r4) = 0 then close_room e r4 else broadcastLobbyState e r4)"
    unfolding removeMember_def rm r4_def by (simp only: prod.case option.case Let_def snd_conv)
  have c2: "calm ?r1 ?r2" by (simp add: calm_emit is_thrown_def)
  have c3: "calm ?r2 ?r3" by (rule calm_trans [OF calm_broadcast(1) calm_directory])
  have c4: "calm ?r3 r4" by (simp add: r4_def calm_broadcast split: option.split)
  have "calm ?r1 r4" by (rule calm_trans [OF calm_trans [OF c2 c3] c4])
  then have h: "ro_holds (rm_roster r4) = ro_holds (rm_roster r)"
    using remove_member_get(2) [of u "rm_roster r"] by (simp add: calm_def rm)
  have "ro_holds (rm_roster (broadcastLobbyState e r4)) = ro_holds (rm_roster r4)"
    using calm_lobby [of r4 e] by (simp add: calm_def)
  moreover have "js_get (ro_holds (rm_roster (close_room e r4))) v \<noteq> None \<Longrightarrow> js_get (ro_holds (rm_roster r4)) v \<noteq> None"
    using close_no_user [of r4 e v] by (cases "room_state r4 = Closed") (simp_all add: close_room_def)
  ultimately show "js_get (ro_holds (rm_roster (snd (removeMember e u reason notify r)))) v \<noteq> None \<Longrightarrow> js_get (ro_holds (rm_roster r)) v \<noteq> None"
    unfolding eq h by (simp split: if_splits)
qed

lemma kicked_calm: "calm r (case lm_connection m of None \<Rightarrow> r | Some c \<Rightarrow> sendError c None Kicked r)"
  by (simp add: calm_error split: option.split)

lemma kick_close_calm: "calm r (case lm_connection m of None \<Rightarrow> r
    | Some c \<Rightarrow> emit (CloseConnection (gc_id c) CLOSE_POLICY_VIOLATION ''kicked'') r)"
  by (simp add: calm_emit is_thrown_def split: option.split)

lemma calm_hasUser: "calm r s \<Longrightarrow> room_hasUser s u = room_hasUser r u"
  unfolding calm_def hasUser_get by metis

lemma kick_good:
  assumes inv: "room_inv r" and opened: "getByUser (rm_roster r) u = Some m"
  shows "good_step r (snd (removeMember e u reason notify
     (case lm_connection m of None \<Rightarrow> r\<lparr>rm_kickedUsers := List.insert u (rm_kickedUsers r)\<rparr>
      | Some c \<Rightarrow> sendError c None Kicked (r\<lparr>rm_kickedUsers := List.insert u (rm_kickedUsers r)\<rparr>))))"
proof -
  define r1 where "r1 = r\<lparr>rm_kickedUsers := List.insert u (rm_kickedUsers r)\<rparr>"
  define r2 where "r2 = (case lm_connection m of None \<Rightarrow> r1 | Some c \<Rightarrow> sendError c None Kicked r1)"
  define s where "s = snd (removeMember e u reason notify r2)"
  have ok1: "room_ok r1" using inv
    by (simp add: room_inv_def room_ok_def r1_def phase_ok_def room_state_def no_members_def cong: room_state.case_cong)
  have c: "calm r1 r2" unfolding r2_def by (rule kicked_calm)
  then have ok2: "room_ok r2" by (rule moves_ok [OF calm_moves ok1])
  have "js_get (ro_members (rm_roster r1)) u \<noteq> None" using opened by (simp add: r1_def getByUser_def)
  with c have mem: "js_get (ro_members (rm_roster r2)) u \<noteq> None" by (simp add: calm_def)
  then obtain m' where m': "getByUser (rm_roster r2) u = Some m'" by (auto simp: getByUser_def)
  note R = removeMember_moves [OF m', of e reason notify, folded s_def]
  have hold: "js_get (ro_holds (rm_roster r2)) u = None"
    using ok2 mem seats_okD(6) [of "rm_roster r2" u] by (auto simp: room_ok_def roster_ok_def)
  have gone: "\<not> room_hasUser s u"
    unfolding hasUser_get R(2) using removeMember_holds [of e u reason notify r2 u, folded s_def] hold by blast
  have k: "rm_kickedUsers s = List.insert u (rm_kickedUsers r)"
    using R(1) c by (simp add: moves_def shifts_def calm_def r1_def)
  have users: "room_hasUser r v" if "room_hasUser s v" for v
  proof -
    have "room_hasUser r2 v" using R(1) that by (simp add: moves_def shifts_def)
    then have "room_hasUser r1 v" using calm_hasUser [OF c] by simp
    then show ?thesis by (simp add: hasUser_get r1_def)
  qed
  have "clean s" using inv gone users unfolding clean_def k by (auto simp: room_inv_def clean_def)
  moreover have "room_ok s" by (rule moves_ok [OF R(1) ok2])
  moreover have "reach r s"
  proof -
    have "reach r r1" by (rule reach_same) (simp add: room_state_def r1_def)
    moreover have "reach r1 r2" by (rule reach_same) (use c in \<open>simp add: calm_def room_state_def\<close>)
    ultimately show ?thesis using R(1) by (auto simp: moves_def shifts_def intro: reach_trans)
  qed
  moreover have "rm_options s = rm_options r" using R(1) c by (simp add: moves_def shifts_def calm_def r1_def)
  ultimately have "good_step r s" using R(3) k by (auto simp: good_step_def room_inv_def)
  then show ?thesis by (simp only: s_def r2_def r1_def)
qed

lemma good_calm: "good_step r s \<Longrightarrow> calm s t \<Longrightarrow> good_step r t"
  by (rule good_trans [OF _ calm_good]) (simp_all add: good_step_def)

lemma kick_call_good:
  assumes inv: "room_inv r"
  shows "good_step r (snd (kick e requester playerId r))"
proof (cases "getByPlayerId (rm_roster r) playerId")
  case None
  then show ?thesis using good_refl [OF inv] by (simp add: kick_def)
next
  case (Some m)
  have "getByUser (rm_roster r) (lm_userId m) = Some m"
    using inv Some getByPlayerId_Some [of "rm_roster r" playerId m]
    by (auto simp: room_inv_def room_ok_def roster_ok_def getByUser_def)
  note k = good_calm [OF kick_good [OF inv this, of e "''kicked''" True] kick_close_calm [of _ m]]
  show ?thesis using good_refl [OF inv] k Some by (simp add: kick_def Let_def)
qed

lemma forceKick_good:
  assumes inv: "room_inv r"
  shows "good_step r (snd (forceKick e u reason r))"
proof -
  obtain b ro where h: "releaseHold u (rm_roster r) = (b, ro)" by fastforce
  define r1 where "r1 = r\<lparr>rm_roster := ro\<rparr>"
  have g1: "good_step r r1" unfolding r1_def by (rule moves_good [OF inv releaseHold_moves [OF h]])
  then have inv1: "room_inv r1" by (simp add: good_step_def)
  have k: "r\<lparr>rm_kickedUsers := List.insert u (rm_kickedUsers r), rm_roster := ro\<rparr>
      = r1\<lparr>rm_kickedUsers := List.insert u (rm_kickedUsers r1)\<rparr>" by (simp add: r1_def)
  have ro: "rm_roster r1 = ro" by (simp add: r1_def)
  show ?thesis
  proof (cases "getByUser ro u")
    case None
    then have gone: "\<not> room_hasUser r1 u"
      using h by (auto simp: hasUser_get r1_def getByUser_def releaseHold_def js_get_delete)
    have "good_step r1 (r1\<lparr>rm_kickedUsers := List.insert u (rm_kickedUsers r1)\<rparr>)"
      using inv1 gone
      by (auto simp: good_step_def room_inv_def room_ok_def phase_ok_def no_members_def lively_def clean_def hasUser_get
          room_state_def reach_def cong: room_state.case_cong)
    from None good_trans [OF g1 this] show ?thesis by (simp add: forceKick_def Let_def h k ro)
  next
    case (Some m)
    then have "getByUser (rm_roster r1) u = Some m" by (simp add: r1_def)
    note g = good_trans [OF g1 good_calm [OF kick_good [OF inv1 this, of e reason True] kick_close_calm [of _ m]]]
    show ?thesis using g Some by (simp add: forceKick_def Let_def h k ro)
  qed
qed

section \<open>Lobby commands\<close>

lemma passHost_moves: "moves r (snd (room_passHost e requester playerId r))"
proof -
  obtain b ro where h: "passHost requester playerId (rm_roster r) = (b, ro)" by fastforce
  have "moves r (r\<lparr>rm_roster := ro\<rparr>)"
  proof (rule moves_holds)
    show "roster_ok ro" if "roster_ok (rm_roster r)"
      using passHost_seats [of "rm_roster r" requester playerId] that h by (simp add: roster_ok_def)
  qed (use h in \<open>auto simp: passHost_def split: if_splits option.splits\<close>)
  note m = moves_calm [OF moves_calm [OF moves_calm [OF this calm_broadcast(1)] calm_lobby] calm_directory]
  show ?thesis using m by (cases b) (simp_all add: room_passHost_def h)
qed

lemma calm_settings:
  "calm r (snd (setLocked e requester b r))" "calm r (snd (setMap e requester mp r))"
  "calm r (snd (setLoadout e u skill r))" "calm r (snd (setControl e u c r))"
proof -
  note t = calm_trans [OF calm_trans [OF _ calm_lobby] calm_directory]
  show "calm r (snd (setLocked e requester b r))"
    by (simp add: setLocked_def t [OF calm_fields(2)])
  have "calm r (r\<lparr>rm_mapId := a, rm_startLock := l\<rparr>)" for a l by (simp add: calm_def)
  then show "calm r (snd (setMap e requester mp r))"
    by (simp add: setMap_def t)
  have "calm r (update u (\<lambda>m. m\<lparr>lm_loadout := skill\<rparr>) r)" by (rule calm_update) (simp add: keeps_seat_def)
  then show "calm r (snd (setLoadout e u skill r))"
    by (simp add: setLoadout_def calm_trans [OF _ calm_lobby] split: option.split)
  have "calm r (update u (\<lambda>m. m\<lparr>lm_control := Some c\<rparr>) r)" by (rule calm_update) (simp add: keeps_seat_def)
  then show "calm r (snd (setControl e u c r))"
    by (simp add: setControl_def Let_def calm_trans [OF _ calm_lobby] split: option.split)
qed

lemma moveSlot_calm: "calm r (snd (room_moveSlot e u slot r))"
proof -
  obtain res ro where h: "moveSlot u slot (rm_roster r) = (res, ro)" by fastforce
  have "ro_holds ro = ro_holds (rm_roster r)"
    "js_get (ro_members ro) v = None \<longleftrightarrow> js_get (ro_members (rm_roster r)) v = None" for v
    using h by (auto simp: moveSlot_def update_other update_get split: if_splits)
  moreover have "roster_ok ro" if "roster_ok (rm_roster r)"
    using moveSlot_seats [of "rm_roster r" u slot] that h by (simp add: roster_ok_def)
  ultimately have "calm r (r\<lparr>rm_roster := ro\<rparr>)" by (simp add: calm_def)
  then show ?thesis using calm_trans [OF _ calm_lobby] by (simp add: room_moveSlot_def h Let_def)
qed

section \<open>Games\<close>

lemma requestStart_moves: "moves r (snd (requestStart e u r))"
proof (cases "start_refusal e u r")
  case (Some err)
  then show ?thesis by (simp add: requestStart_def)
next
  case None
  then have st: "room_state r = Waiting" by (simp add: start_refusal_def split: if_splits)
  define r1 where "r1 = (take_match_id r)\<lparr>rm_playedGames := rm_playedGames (take_match_id r) + 1\<rparr>"
  have c1: "calm r r1" by (simp add: r1_def take_match_id_def calm_def split: option.split)
  then have st1: "room_state r1 = Waiting" using st by (simp add: calm_def room_state_def)
  define r2 where "r2 = r1\<lparr>rm_roster := clearHolds (rm_roster r1)\<rparr>"
  have m2: "moves r1 r2" unfolding r2_def
    by (rule moves_holds) (simp_all add: roster_ok_def clearHolds_seats, simp_all add: clearHolds_def)
  have st2: "room_state r2 = Waiting" using st1 by (simp add: r2_def room_state_def)
  obtain snap ends where eq: "snd (requestStart e u r) = (let r3 = r2\<lparr>rm_startSnapshot := Some snap, rm_countdownEndsAt := Some ends\<rparr>;
      r4 = directoryChanged (enter Countdown (en_now e) r3); starting = starting_of e snap r4
      in broadcast (GameStartingMsg starting) (r4\<lparr>rm_resumeStarting := Some starting, rm_resumeStarted := None\<rparr>))"
    using None by (simp add: requestStart_def Let_def r1_def r2_def)
  let ?s = "r2\<lparr>rm_startSnapshot := Some snap\<rparr>"
  define r3 where "r3 = r2\<lparr>rm_startSnapshot := Some snap, rm_countdownEndsAt := Some ends\<rparr>"
  have "moves r2 ?s" using st2 by (intro moves_data) simp_all
  moreover have "moves ?s r3" using st2 moves_data(1) [of ?s "Some ends"] by (simp add: r3_def room_state_def)
  ultimately have m3: "moves r2 r3" by (rule moves_trans)
  have st3: "room_state r3 = Waiting" using st2 by (simp add: r3_def room_state_def)
  have m4: "moves r3 (enter Countdown (en_now e) r3)"
  proof (rule moves_enter)
    show "Countdown \<in> set (TRANSITIONS (room_state r3))" using st3 by simp
    show "phase_ok (r3\<lparr>rm_machine := \<lparr>sm_state = Countdown, sm_enteredAt = en_now e\<rparr>\<rparr>)"
      by (simp add: phase_ok_def room_state_def r3_def)
    show "lively r3 \<Longrightarrow> Countdown = Closed \<or> \<not> no_members r3" using st3 by (simp add: lively_def)
  qed
  have c5: "calm s (broadcast msg (s\<lparr>rm_resumeStarting := a, rm_resumeStarted := b\<rparr>))" for s msg a b
    by (rule calm_trans [OF _ calm_broadcast(1)]) (simp add: calm_def)
  have "calm (enter Countdown (en_now e) r3) (snd (requestStart e u r))"
    unfolding eq Let_def r3_def [symmetric] by (rule calm_trans [OF calm_directory c5])
  then show ?thesis
    using moves_trans [OF moves_trans [OF moves_trans [OF calm_moves [OF c1] m2] m3] m4] by (rule moves_calm [rotated])
qed

lemma finishGame_moves: "finishGame e ws r = Inr (b, s) \<Longrightarrow> moves r s"
proof (cases "room_state r = Playing")
  case False
  then show "finishGame e ws r = Inr (b, s) \<Longrightarrow> moves r s" by (simp add: finishGame_def)
next
  case True
  assume fin: "finishGame e ws r = Inr (b, s)"
  define ends where "ends = en_now e + rt_postGameMs (roomTiming r)"
  define r1 where "r1 = r\<lparr>rm_postGameEndsAt := Some ends\<rparr>"
  have m1: "moves r r1" unfolding r1_def using True by (intro moves_data) simp
  have st: "room_state r1 = Playing" using True by (simp add: r1_def room_state_def)
  have m2: "moves r1 (enter PostGame (en_now e) r1)"
  proof (rule moves_enter)
    show "PostGame \<in> set (TRANSITIONS (room_state r1))" using st by simp
    show "phase_ok (r1\<lparr>rm_machine := \<lparr>sm_state = PostGame, sm_enteredAt = en_now e\<rparr>\<rparr>)"
      by (simp add: phase_ok_def room_state_def r1_def)
    show "lively r1 \<Longrightarrow> PostGame = Closed \<or> \<not> no_members r1" using st by (simp add: lively_def)
  qed
  have "calm x (broadcastCurrentGame msg (directoryChanged (x\<lparr>rm_resumeStarting := a, rm_resumeStarted := c\<rparr>)))" for x msg a c
    by (rule calm_trans [OF calm_trans [OF _ calm_directory] calm_broadcast(2)]) (simp add: calm_def)
  moreover have "\<exists>msg. s = broadcastCurrentGame msg
      (directoryChanged ((enter PostGame (en_now e) r1)\<lparr>rm_resumeStarting := None, rm_resumeStarted := None\<rparr>))"
    using fin True by (auto simp: finishGame_def Let_def r1_def ends_def split: if_splits)
  ultimately show "moves r s" using moves_calm [OF moves_trans [OF m1 m2]] by auto
qed

lemma finish_good: "room_inv r \<Longrightarrow> good_step r (case finishGame e ws r of Inl _ \<Rightarrow> r | Inr x \<Rightarrow> snd x)"
  using moves_good [OF _ finishGame_moves [of e ws r]] good_refl [of r] by (auto split: sum.split)

lemma calm_grant: "calm r (grantMatchId m r)"
  by (simp add: grantMatchId_def calm_fields)

lemma calm_revive: "calm r (snd (reviveForTraining e pid b r))"
proof -
  have "calm r (update u (\<lambda>m. m\<lparr>lm_spectatorEligible := False, lm_role := RolePlayer, lm_inCurrentGame := True,
      lm_latestInput := None\<rparr>) r)" for u
    by (rule calm_update) (simp add: keeps_seat_def)
  then show ?thesis
    by (simp add: reviveForTraining_def calm_trans [OF calm_trans [OF _ calm_broadcast(2)] calm_lobby] split: option.split)
qed

lemma calm_markEliminated: "calm r (snd (markEliminated e pid by' r))"
  by (simp add: markEliminated_def calm_markEliminatedMember split: option.split)

lemma calm_spectating: "calm r (snd (setSpectating e u b r))"
proof -
  have "calm r (update u (\<lambda>m. m\<lparr>lm_role := role, lm_latestInput := None\<rparr>) r)" for role
    by (rule calm_update) (simp add: keeps_seat_def)
  then have "calm r (broadcastLobbyState e (broadcastCurrentGame msg (update u (\<lambda>m. m\<lparr>lm_role := role, lm_latestInput := None\<rparr>) r)))"
    for role msg by (rule calm_trans [OF calm_trans [OF _ calm_broadcast(2)] calm_lobby])
  then show ?thesis by (simp add: setSpectating_def Let_def split: option.split)
qed

lemma calm_acceptInput: "calm r (snd (acceptInput c i r))"
proof -
  have "calm r (update u (\<lambda>m. m\<lparr>lm_lastInputSequence := a, lm_latestInput := b\<rparr>) r)" for u a b
    by (rule calm_update) (simp add: keeps_seat_def)
  then show ?thesis by (simp add: acceptInput_def split: option.split)
qed

lemma calm_events:
  "calm r (broadcastTagged pid by' r)" "calm r (broadcastBlinked pid x y see r)"
  "calm r (broadcastSkillArea skill pid x y t see r)" "calm r (sendSkillRejected pid slot reason r)"
  by (simp_all add: broadcastTagged_def broadcastBlinked_def broadcastSkillArea_def broadcastToViewers_def
      sendSkillRejected_def calm_broadcast calm_send calm_emit is_thrown_def split: option.split)

section \<open>Hand-over\<close>

lemma calm_freeze: "calm r (snd (freezeForHandOff r))" "calm r (cancelHandOff r)"
  by (simp_all add: freezeForHandOff_def cancelHandOff_def calm_fields)

lemma calm_release: "calm r (release_member u r)"
proof (cases "getByUser (rm_roster r) u")
  case (Some m)
  have c: "calm r (case lm_connection m of None \<Rightarrow> r
      | Some c \<Rightarrow> emit (CloseConnection (gc_id c) CLOSE_TRY_AGAIN_LATER ''room migrated'') r)"
    by (simp add: calm_emit is_thrown_def split: option.split)
  show ?thesis unfolding release_member_def Some option.case
    by (rule calm_trans [OF c calm_update]) (simp add: keeps_seat_def)
qed (simp add: release_member_def)

lemma calm_fold: "(\<And>x r. calm r (f x r)) \<Longrightarrow> calm r (fold f xs r)"
  by (induction xs arbitrary: r) (auto intro: calm_trans)

lemma released_moves:
  assumes "room_state r \<noteq> Closed"
  shows "moves r (releaseAfterHandOff e r)"
proof -
  define r1 where "r1 = fold release_member (map lm_userId (members (rm_roster r))) r"
  have c: "calm r r1" unfolding r1_def by (rule calm_fold [OF calm_release])
  then have "room_state r1 \<noteq> Closed" using assms by (simp add: calm_def room_state_def)
  then have legal: "Closed \<in> set (TRANSITIONS (room_state r1))" by (cases "room_state r1") simp_all
  have "moves r1 (enter Closed (en_now e) r1)"
    by (rule moves_enter [OF legal]) (simp_all add: phase_ok_def room_state_def)
  then show ?thesis unfolding releaseAfterHandOff_def r1_def [symmetric] by (rule calm_moves_trans [OF c])
qed

lemma calm_refresh: "calm r (refreshHandOffGrace e r)"
  unfolding refreshHandOffGrace_def by (rule calm_update_all) (simp add: keeps_seat_def)

section \<open>The machine\<close>

lemma room_step_good: "room_inv r \<Longrightarrow> good_step r (room_step x r)"
proof -
  assume inv: "room_inv r"
  note c = calm_good [OF inv] and m = moves_good [OF inv]
  obtain e call where x: "x = (e, call)" by (cases x)
  show "good_step r (room_step x r)"
    unfolding x by (cases call)
      (simp_all only: room_step.simps reserveJoin_good [OF inv] canReserveResume_snd advance_good [OF inv] admit_good [OF inv]
        bind_good [OF inv] c [OF calm_after_bind] c [OF calm_disconnect] m [OF releaseSeat_moves] kick_call_good [OF inv]
        forceKick_good [OF inv] m [OF passHost_moves] c [OF calm_settings(1)] c [OF calm_settings(2)] c [OF calm_settings(3)]
        c [OF calm_settings(4)] c [OF moveSlot_calm] m [OF requestStart_moves] finish_good [OF inv] c [OF calm_grant]
        c [OF calm_revive] c [OF calm_markEliminated] c [OF calm_spectating] c [OF calm_acceptInput] c [OF calm_events(1)]
        c [OF calm_events(2)] c [OF calm_events(3)] c [OF calm_events(4)] m [OF moves_close] c [OF calm_freeze(1)]
        c [OF calm_freeze(2)] c [OF calm_refresh] good_refl [OF inv] simp_thms split: if_split,
        simp add: m [OF released_moves])
qed

lemma room_step_inv: "room_inv r \<Longrightarrow> room_inv (room_step x r)"
  using room_step_good [of r x] by (simp add: good_step_def)

definition room_below :: "room \<Rightarrow> room \<Rightarrow> bool" where
  "room_below r s \<longleftrightarrow> reach r s \<and> rm_options s = rm_options r \<and> set (rm_kickedUsers r) \<subseteq> set (rm_kickedUsers s)"

interpretation room: ordered_machine room_step room_inv room_below
proof
  show "room_below s (room_step x s)" if "room_inv s" for x s
    using room_step_good [OF that, of x] by (simp add: good_step_def room_below_def)
qed (auto simp: room_step_inv room_below_def intro: reach_trans)

end
