(* ===== verification/RoomProps.thy ===== *)
theory RoomProps
  imports RoomCalls
begin

text \<open>
  The properties of rooms: what holds after any calls on a new room, that a kicked user stays out, who is told of
  events on the map, and that the clock clears what has run out.
\<close>

section \<open>New rooms\<close>

lemma new_room_inv:
  assumes "new_room e o' = Some r"
  shows "room_inv r" "rm_options r = o'" "room_state r = Allocating"
proof -
  obtain ro0 where ro0: "new_roster (op_capacity o') = Some ro0"
    using assms by (auto simp: new_room_def split: if_splits option.splits)
  have none: "js_get (ro_members ro0) u = None" for u using ro0 by (auto simp: new_roster_def split: if_splits)
  have mem: "ro_members (snd (hold res [] ro0)) = ro_members ro0" for res
    by (simp add: hold_def split: option.split)
  obtain ro where ro: "r = empty_room e o' ro" "roster_ok ro" "ro_members ro = ro_members ro0"
  proof (cases "op_ownerReservation o'")
    case None
    with assms ro0 have "r = empty_room e o' ro0" by (auto simp: new_room_def split: if_splits)
    with new_roster_ok [OF ro0] that show ?thesis by blast
  next
    case (Some res)
    with assms ro0 have "r = empty_room e o' (snd (hold res [] ro0))"
      by (auto simp: new_room_def split: if_splits prod.splits sum.splits)
    moreover have "roster_ok (snd (hold res [] ro0))"
      using new_roster_ok [OF ro0] hold_seats [of ro0 res "[]"] by (simp add: roster_ok_def)
    ultimately show ?thesis using that mem by blast
  qed
  show st: "room_state r = Allocating" and opt: "rm_options r = o'"
    by (simp_all add: ro(1) empty_room_def room_state_def new_machine_def)
  have r: "rm_roster r = ro" "rm_out r = []" "rm_kickedUsers r = []" by (simp_all add: ro(1) empty_room_def)
  show "room_inv r"
    using ro(2,3) none by (simp add: room_inv_def room_ok_def phase_ok_def st lively_def clean_def no_members_def r)
qed

lemma closed_final: "reach r s \<Longrightarrow> room_state r = Closed \<Longrightarrow> room_state s = Closed"
proof -
  have "(a, b) \<in> transitions_rel\<^sup>* \<Longrightarrow> a = Closed \<Longrightarrow> b = Closed" for a b
    by (induction rule: rtrancl_induct) (auto simp: transitions_rel_def)
  then show "reach r s \<Longrightarrow> room_state r = Closed \<Longrightarrow> room_state s = Closed" by (auto simp: reach_def)
qed

lemma lively_host: "room_inv r \<Longrightarrow> room_state r \<noteq> Allocating \<Longrightarrow> room_state r \<noteq> Closed \<Longrightarrow> hostId (rm_roster r) \<noteq> None"
  by (auto simp: room_inv_def lively_def room_ok_def roster_ok_def host_ok_def hostId_def no_members_def
      split: option.splits)

section \<open>An example\<close>

text \<open>A match room with its owner and a second player, both connected.\<close>

definition demo_env :: "int \<Rightarrow> room_env" where
  "demo_env now = \<lparr>en_now = now, en_serverTick = 100, en_isKnownMap = (\<lambda>_ _. True), en_canStartGame = True, en_isDraining = False,
     en_hash = id, en_startGame = (\<lambda>_. \<lparr>gi_startTick = 250, gi_taggerId = 1\<rparr>), en_startPositions = (\<lambda>_. None)\<rparr>"

definition demo_options :: room_options where
  "demo_options = \<lparr>op_id = ''room'', op_roomCode = ''1234'', op_matchId = ''m1'', op_name = ''lobby'', op_password = None,
     op_mode = MatchMode, op_capacity = 8, op_mapId = ''city'', op_ownerReservation = Some demo_reservation, op_adopted = None,
     op_playedGames = 0, op_grantedMatchId = None, op_locked = False, op_minPlayersToStart = 2, op_simulationHz = 60,
     op_rules = [], op_hudGameplay = [],
     op_timing = \<lparr>rt_countdownMs = 3000, rt_postGameMs = 5000, rt_reconnectGraceMs = 30000, rt_startLock = game_lock_options\<rparr>\<rparr>"

definition second_reservation :: seat_reservation where
  "second_reservation = demo_reservation\<lparr>sr_userId := Account 8, sr_nickname := ''lee''\<rparr>"

definition demo_calls :: "(room_env \<times> room_call) list" where
  "demo_calls = [(demo_env 10, CAdmit demo_reservation),
     (demo_env 20, CBind \<lparr>gc_id = 1, gc_userId = Account 7, gc_resume = False, gc_playerId = 1\<rparr>),
     (demo_env 30, CReserveJoin second_reservation None), (demo_env 40, CAdmit second_reservation),
     (demo_env 50, CBind \<lparr>gc_id = 2, gc_userId = Account 8, gc_resume = False, gc_playerId = 2\<rparr>)]"

definition demo_room :: room where
  "demo_room = the (new_room (demo_env 0) demo_options)"

lemma demo_new: "new_room (demo_env 0) demo_options = Some demo_room"
proof -
  have "new_room (demo_env 0) demo_options \<noteq> None" by code_simp
  then show ?thesis by (auto simp: demo_room_def)
qed

definition demo_lobby :: room where
  "demo_lobby = fold room_step demo_calls demo_room"

section \<open>The invariant\<close>

text \<open>
  C2. Whatever calls a new room gets, in whatever order and at whatever times: its state is reached along the
  allowed transitions and \<open>closed\<close> is final; no two people hold one seat; an open room that anyone ever entered has a host; a
  countdown has its deadline and its locked line-up, a running game its line-up, a finished one its deadline; nobody
  on the kick list is in the room or holds a seat; and the exceptions of the state machine never occur.
\<close>

theorem room_invariant:
  assumes new: "new_room e o' = Some r0" and r: "r = fold room_step calls r0"
  shows "(Allocating, room_state r) \<in> transitions_rel\<^sup>*
     \<and> (room_state (fold room_step (take n calls) r0) = Closed \<longrightarrow> room_state r = Closed)
     \<and> apart (seat_of (rm_roster r))
     \<and> (room_state r \<in> {Waiting, Countdown, Playing, PostGame} \<longrightarrow> hostId (rm_roster r) \<noteq> None)
     \<and> (room_state r = Countdown \<longrightarrow> rm_countdownEndsAt r \<noteq> None)
     \<and> (room_state r \<in> {Countdown, Playing} \<longrightarrow> rm_startSnapshot r \<noteq> None)
     \<and> (room_state r = PostGame \<longrightarrow> rm_postGameEndsAt r \<noteq> None)
     \<and> (\<forall>u \<in> set (rm_kickedUsers r). \<not> room_hasUser r u)
     \<and> list_all (\<lambda>x. \<not> is_thrown x) (rm_out r)"
proof -
  note new' = new_room_inv [OF new]
  have inv: "room_inv r" unfolding r by (rule room.run_inv [OF new'(1)])
  have "room_below r0 r" unfolding r by (rule room.run_below [OF new'(1)])
  then have path: "(Allocating, room_state r) \<in> transitions_rel\<^sup>*" by (simp add: room_below_def reach_def new'(3))
  have "r = fold room_step (drop n calls) (fold room_step (take n calls) r0)"
    unfolding r by (metis append_take_drop_id fold_append comp_apply)
  then have "room_below (fold room_step (take n calls) r0) r"
    using room.run_below [OF room.run_inv_prefix [OF new'(1), of n calls], of "drop n calls"] by simp
  then have final: "room_state (fold room_step (take n calls) r0) = Closed \<longrightarrow> room_state r = Closed"
    using closed_final by (auto simp: room_below_def)
  have ok: "roster_ok (rm_roster r)" "phase_ok r" "list_all (\<lambda>x. \<not> is_thrown x) (rm_out r)" "clean r"
    using inv by (simp_all add: room_inv_def room_ok_def)
  have "apart (seat_of (rm_roster r))" using ok(1) seats_okD(7) by (auto simp: roster_ok_def)
  with path final ok(2-) lively_host [OF inv] show ?thesis
    by (auto simp: phase_ok_def clean_def)
qed

theorem room_invariant_witness:
  "room_state demo_lobby = Waiting \<and> hostId (rm_roster demo_lobby) \<noteq> None"
proof -
  have st: "room_state demo_lobby = Waiting" by code_simp
  with room_invariant [OF demo_new demo_lobby_def] show ?thesis by simp
qed

section \<open>Kicks\<close>

lemma kick_adds:
  assumes "fst (kick e requester pid r) = None" "getByPlayerId (rm_roster r) pid = Some m"
  shows "lm_userId m \<in> set (rm_kickedUsers (snd (kick e requester pid r)))"
proof -
  have k: "rm_kickedUsers (snd (removeMember e u reason b s)) = rm_kickedUsers s" for u reason b s
    using removeMember_moves_any [of s e u reason b] by (simp add: moves_def shifts_def)
  have c: "rm_kickedUsers (case q of None \<Rightarrow> s | Some c \<Rightarrow> sendError c None Kicked s) = rm_kickedUsers s"
    "rm_kickedUsers (case q of None \<Rightarrow> s | Some c \<Rightarrow> emit (CloseConnection (gc_id c) CLOSE_POLICY_VIOLATION x) s) = rm_kickedUsers s"
    for q s x by (simp_all add: sendError_def emit_def split: option.split)
  show ?thesis using assms by (simp add: kick_def Let_def c k split: if_splits)
qed

lemma kicked_refused:
  assumes "room_inv s" "u \<in> set (rm_kickedUsers s)" "sr_userId res = u"
  shows "fst (reserveJoin e res pw s) \<noteq> None"
proof -
  define s1 where "s1 = advance e s"
  have "rm_kickedUsers s1 = rm_kickedUsers s"
    using advance_moves [of s e] assms(1) by (simp add: s1_def room_inv_def moves_def shifts_def)
  with assms(2,3) show ?thesis by (simp add: reserveJoin_def Let_def s1_def [symmetric])
qed

text \<open>
  A kick is for good. Once the host has kicked somebody, that user neither is in the room nor holds a seat
  after any further calls, and a reservation for them is never accepted.
\<close>

theorem kicked_stays_out:
  assumes new: "new_room e o' = Some r0" and r: "r = fold room_step before r0"
    and member: "getByPlayerId (rm_roster r) pid = Some m" and kick: "kick e' requester pid r = (None, r1)"
    and s: "s = fold room_step afterwards r1"
  shows "\<not> room_hasUser s (lm_userId m)
     \<and> (\<forall>e2 res pw. sr_userId res = lm_userId m \<longrightarrow> fst (reserveJoin e2 res pw s) \<noteq> None)"
proof -
  have "room_inv r" unfolding r by (rule room.run_inv [OF new_room_inv(1) [OF new]])
  from kick_call_good [OF this, of e' requester pid] have inv1: "room_inv r1" by (simp add: kick good_step_def)
  have k1: "lm_userId m \<in> set (rm_kickedUsers r1)" using kick_adds [OF _ member, of e' requester] kick by simp
  have inv: "room_inv s" and below: "room_below r1 s"
    unfolding s by (rule room.run_inv [OF inv1], rule room.run_below [OF inv1])
  have k: "lm_userId m \<in> set (rm_kickedUsers s)" using k1 below by (auto simp: room_below_def)
  moreover have "clean s" using inv by (simp add: room_inv_def)
  ultimately show ?thesis using kicked_refused [OF inv k] by (auto simp: clean_def)
qed

theorem kicked_stays_out_witness:
  "case kick (demo_env 60) (Account 7) 2 demo_lobby of (err, r1) \<Rightarrow>
     err = None \<and> fst (reserveJoin (demo_env 80) second_reservation None (fold room_step [(demo_env 70, CAdvance)] r1)) \<noteq> None"
proof -
  obtain err r1 where k: "kick (demo_env 60) (Account 7) 2 demo_lobby = (err, r1)" by fastforce
  have "fst (kick (demo_env 60) (Account 7) 2 demo_lobby) = None" by code_simp
  with k have e: "err = None" by simp
  have "map_option lm_userId (getByPlayerId (rm_roster demo_lobby) 2) = Some (Account 8)" by code_simp
  then obtain m where m: "getByPlayerId (rm_roster demo_lobby) 2 = Some m" "lm_userId m = Account 8" by auto
  have "sr_userId second_reservation = lm_userId m" by (simp add: m second_reservation_def)
  then have "fst (reserveJoin (demo_env 80) second_reservation None (fold room_step [(demo_env 70, CAdvance)] r1)) \<noteq> None"
    using kicked_stays_out [OF demo_new demo_lobby_def m(1) k [unfolded e] refl] by blast
  then show ?thesis unfolding k prod.case by (rule conjI [OF e])
qed

section \<open>Events on the map\<close>

text \<open>Whom an event of the map at \<open>source\<close> reaches, among those who are sent snapshots.\<close>

definition viewers :: "room \<Rightarrow> int \<Rightarrow> (int \<Rightarrow> bool) \<Rightarrow> game_connection list" where
  "viewers r source canSee = map (\<lambda>x. fst (snd x)) (filter (\<lambda>x. snd (snd x) = AccessUnfiltered \<or> fst x = source \<or> canSee (fst x))
     (snapshotTargets r))"

lemma broadcastToViewers_targets:
  "rm_out (broadcastToViewers msg source canSee r) = rm_out r @ map (\<lambda>c. Send (gc_id c) msg) (viewers r source canSee)"
proof (cases "room_state r = Playing")
  case False
  then have "snapshotAccess r u = AccessNone" for u by (simp add: snapshotAccess_def)
  then have "concat (map (\<lambda>m. case lm_connection m of None \<Rightarrow> []
      | Some c \<Rightarrow> if may_view r source canSee m then [Send (gc_id c) msg] else []) ms) = []" for ms
    by (induction ms) (auto simp: may_view_def Let_def split: option.split)
  with False show ?thesis by (simp add: broadcastToViewers_def send_to_def viewers_def snapshotTargets_def)
next
  case True
  let ?target = "\<lambda>m. case lm_connection m of None \<Rightarrow> []
     | Some c \<Rightarrow> (let access = snapshotAccess r (lm_userId m) in if access = AccessNone then [] else [(lm_playerId m, c, access)])"
  have "concat (map (\<lambda>m. case lm_connection m of None \<Rightarrow> []
      | Some c \<Rightarrow> if may_view r source canSee m then [Send (gc_id c) msg] else []) ms)
    = map (\<lambda>c. Send (gc_id c) msg) (map (\<lambda>x. fst (snd x))
        (filter (\<lambda>x. snd (snd x) = AccessUnfiltered \<or> fst x = source \<or> canSee (fst x)) (concat (map ?target ms))))" for ms
  proof (induction ms)
    case (Cons m ms)
    then show ?case by (cases "snapshotAccess r (lm_userId m)") (auto simp: may_view_def Let_def split: option.split)
  qed simp
  with True show ?thesis by (simp add: broadcastToViewers_def send_to_def viewers_def snapshotTargets_def)
qed

lemma snapshotTargets_mem:
  assumes "room_inv r" "(p, c, access) \<in> set (snapshotTargets r)"
  shows "\<exists>m. m \<in> set (members (rm_roster r)) \<and> lm_playerId m = p \<and> lm_connection m = Some c
     \<and> access = (if lm_role m = RoleSpectator then AccessUnfiltered else AccessFiltered)
     \<and> lm_spectatorEligible m = (lm_role m = RoleSpectator)
     \<and> (lm_role m = RoleSpectator \<or> lm_role m = RolePlayer \<and> lm_inCurrentGame m)"
proof -
  obtain m where m: "m \<in> set (members (rm_roster r))" "lm_connection m = Some c" "p = lm_playerId m"
    "access = snapshotAccess r (lm_userId m)" "access \<noteq> AccessNone" and st: "room_state r = Playing"
    using assms(2) by (auto simp: snapshotTargets_def Let_def split: if_splits option.splits)
  have seats: "seats_ok (rm_roster r)" using assms(1) by (simp add: room_inv_def room_ok_def roster_ok_def)
  obtain u where "js_get (ro_members (rm_roster r)) u = Some m"
    using m(1) members_mem [of "rm_roster r"] seats_okD(2) [OF seats] by blast
  moreover from this have "lm_userId m = u" using seats_okD(5) [OF seats] by (simp add: member_ok_def)
  ultimately have "getByUser (rm_roster r) (lm_userId m) = Some m" by (simp add: getByUser_def)
  with m st show ?thesis
    by (intro exI [of _ m]) (auto simp: snapshotAccess_def split: if_splits)
qed

text \<open>
  C29. Positions do not leak through events. A blink or the area of a skill is sent, once each, to exactly those of the
  connections that get snapshots which see everything or belong to the source or to a player who may see the source; and
  those who see everything are eliminated players who are spectating.
\<close>

theorem map_events_censored:
  assumes new: "new_room e o' = Some r0" and r: "r = fold room_step calls r0"
  shows "rm_out (broadcastBlinked pid x y canSee r)
       = rm_out r @ map (\<lambda>c. Send (gc_id c) (PlayerBlinkedMsg pid x y)) (viewers r pid canSee)
     \<and> rm_out (broadcastSkillArea skill pid x y target canSee r)
       = rm_out r @ map (\<lambda>c. Send (gc_id c) (PlayerSkillAreaMsg skill pid x y target)) (viewers r pid canSee)
     \<and> (\<forall>c \<in> set (viewers r pid canSee). \<exists>m \<in> set (members (rm_roster r)). lm_connection m = Some c
          \<and> (lm_role m = RoleSpectator \<and> lm_spectatorEligible m
             \<or> lm_role m = RolePlayer \<and> lm_inCurrentGame m \<and> (lm_playerId m = pid \<or> canSee (lm_playerId m))))"
proof -
  have inv: "room_inv r" unfolding r by (rule room.run_inv [OF new_room_inv(1) [OF new]])
  have "\<exists>m \<in> set (members (rm_roster r)). lm_connection m = Some c
      \<and> (lm_role m = RoleSpectator \<and> lm_spectatorEligible m
         \<or> lm_role m = RolePlayer \<and> lm_inCurrentGame m \<and> (lm_playerId m = pid \<or> canSee (lm_playerId m)))"
    if viewer: "c \<in> set (viewers r pid canSee)" for c
  proof -
    obtain p access where t: "(p, c, access) \<in> set (snapshotTargets r)"
      and a: "access = AccessUnfiltered \<or> p = pid \<or> canSee p"
      using viewer by (auto simp: viewers_def)
    from snapshotTargets_mem [OF inv t] a show ?thesis by (auto split: if_splits)
  qed
  then show ?thesis
    by (simp add: broadcastBlinked_def broadcastSkillArea_def broadcastToViewers_targets)
qed

text \<open>The example's game, with both players in it: the first blinks and the second does not see it.\<close>

definition demo_start :: "(room_env \<times> room_call) list" where
  "demo_start = [(demo_env 20000, CRequestStart (Account 7)), (demo_env 23000, CAdvance)]"

definition demo_game :: room where
  "demo_game = fold room_step (demo_calls @ demo_start) demo_room"

theorem map_events_censored_witness:
  "room_state demo_game = Playing
     \<and> rm_out (broadcastBlinked 1 0 0 (\<lambda>_. False) demo_game) = rm_out demo_game @ [Send 1 (PlayerBlinkedMsg 1 0 0)]"
proof -
  have v: "map gc_id (viewers demo_game 1 (\<lambda>_. False)) = [1]" by code_simp
  then obtain c where c: "viewers demo_game 1 (\<lambda>_. False) = [c]" "gc_id c = 1" by auto
  have "room_state demo_game = Playing" by code_simp
  moreover have "rm_out (broadcastBlinked 1 0 0 (\<lambda>_. False) demo_game)
      = rm_out demo_game @ map (\<lambda>c. Send (gc_id c) (PlayerBlinkedMsg 1 0 0)) (viewers demo_game 1 (\<lambda>_. False))"
    using map_events_censored [OF demo_new demo_game_def] by blast
  ultimately show ?thesis by (simp add: c)
qed

end
