(* ===== verification/RoomClock.thy ===== *)
theory RoomClock
  imports RoomProps
begin

text \<open>The passing of time in a room: \<open>advance\<close> clears every member, held seat and phase that has run out.\<close>

section \<open>The clock\<close>

text \<open>What the rosters of a room satisfy member by member and hold by hold.\<close>

definition all_members :: "(lobby_member \<Rightarrow> bool) \<Rightarrow> room \<Rightarrow> bool" where
  "all_members P r \<longleftrightarrow> (\<forall>u m. getByUser (rm_roster r) u = Some m \<longrightarrow> P m)"

definition all_holds :: "(seat_hold \<Rightarrow> bool) \<Rightarrow> room \<Rightarrow> bool" where
  "all_holds P r \<longleftrightarrow> (\<forall>u h. js_get (ro_holds (rm_roster r)) u = Some h \<longrightarrow> P h)"

lemma same_roster [simp]:
  "rm_roster (emit x r) = rm_roster r" "rm_roster (send_to Q msg r) = rm_roster r" "rm_roster (broadcast bm r) = rm_roster r"
  "rm_roster (broadcastCurrentGame bm r) = rm_roster r" "rm_roster (directoryChanged r) = rm_roster r"
  "rm_roster (broadcastLobbyState e r) = rm_roster r" "rm_roster (enter st now r) = rm_roster r"
  by (simp_all add: emit_def send_to_def broadcast_def broadcastCurrentGame_def directoryChanged_def broadcastLobbyState_def
      enter_def split: option.split)

lemma calm_state: "calm r s \<Longrightarrow> room_state s = room_state r"
  by (simp add: calm_def room_state_def)

lemma close_roster: "rm_roster (close_room e r) = (if room_state r = Closed then rm_roster r else clearHolds (rm_roster r))"
  by (simp add: close_room_def Let_def)

lemma all_close:
  "all_members P r \<Longrightarrow> all_members P (close_room e r)" "all_holds Q r \<Longrightarrow> all_holds Q (close_room e r)"
  by (simp_all add: all_members_def all_holds_def close_roster getByUser_def clearHolds_def)

lemma removeMember_roster:
  "getByUser (rm_roster (snd (removeMember e u reason b r))) v = (if v = u then None else getByUser (rm_roster r) v)"
  "all_holds Q r \<Longrightarrow> all_holds Q (snd (removeMember e u reason b r))"
proof -
  obtain res ro where rm: "remove_member u (rm_roster r) = (res, ro)" by fastforce
  have g: "js_get (ro_members ro) v = (if v = u then None else js_get (ro_members (rm_roster r)) v)"
    "ro_holds ro = ro_holds (rm_roster r)" for v
    using remove_member_get [of u "rm_roster r"] by (simp_all add: rm)
  have same: "ro = rm_roster r" if "res = None"
    using rm that by (auto simp: remove_member_def Let_def split: option.splits)
  have n: "rm_roster (snd (removeMember e u reason b r)) \<in> {ro, clearHolds ro}"
    unfolding removeMember_def rm using same by (auto simp: Let_def close_roster split: option.split)
  show "getByUser (rm_roster (snd (removeMember e u reason b r))) v = (if v = u then None else getByUser (rm_roster r) v)"
    using n by (elim insertE emptyE) (simp_all add: getByUser_def clearHolds_def g)
  show "all_holds Q (snd (removeMember e u reason b r))" if "all_holds Q r"
    using n that by (elim insertE emptyE) (simp_all add: all_holds_def clearHolds_def g)
qed

lemma update_roster:
  "getByUser (rm_roster (update u f r)) v = (if v = u then map_option f (getByUser (rm_roster r) u) else getByUser (rm_roster r) v)"
  "all_holds Q (update u f r) = all_holds Q r"
  by (simp_all add: update_def getByUser_def update_get all_holds_def update_other)

lemma all_update_all:
  assumes "\<And>m. P m \<Longrightarrow> P (f m)"
  shows "all_members P r \<Longrightarrow> all_members P (update_all f r)" "all_holds Q (update_all f r) = all_holds Q r"
proof -
  have "all_members P (fold (\<lambda>u. update u f) us r)" if "all_members P r" for us
    using that
  proof (induction us arbitrary: r)
    case (Cons u us)
    have "all_members P (update u f r)" using Cons.prems assms by (auto simp: all_members_def update_roster)
    then show ?case by (simp add: Cons.IH)
  qed simp
  then show "all_members P r \<Longrightarrow> all_members P (update_all f r)" by (simp add: update_all_def)
  have "all_holds Q (fold (\<lambda>u. update u f) us r) = all_holds Q r" for us
    by (induction us arbitrary: r) (simp_all add: update_roster)
  then show "all_holds Q (update_all f r) = all_holds Q r" by (simp add: update_all_def)
qed

text \<open>Nothing of a member has run out.\<close>

definition on_time :: "int \<Rightarrow> lobby_member \<Rightarrow> bool" where
  "on_time now m \<longleftrightarrow> \<not> reconnect_expired now m \<and> \<not> admission_expired now m"

lemma expire_member_get:
  "v \<noteq> u \<Longrightarrow> getByUser (rm_roster (expire_member e u r)) v = getByUser (rm_roster r) v"
  "getByUser (rm_roster (expire_member e u r)) u = Some m \<Longrightarrow> on_time (en_now e) m"
  "all_holds Q r \<Longrightarrow> all_holds Q (expire_member e u r)"
proof -
  have "(v \<noteq> u \<longrightarrow> getByUser (rm_roster (expire_member e u r)) v = getByUser (rm_roster r) v)
      \<and> (getByUser (rm_roster (expire_member e u r)) u = Some m \<longrightarrow> on_time (en_now e) m)
      \<and> (all_holds Q r \<longrightarrow> all_holds Q (expire_member e u r))" for v m
  proof (cases "getByUser (rm_roster r) u")
    case (Some m0)
    show ?thesis
      by (auto simp: expire_member_def Some Let_def removeMember_roster update_roster on_time_def admission_expired_def
          reconnect_expired_def split: option.splits)
  qed (simp add: expire_member_def)
  then show "v \<noteq> u \<Longrightarrow> getByUser (rm_roster (expire_member e u r)) v = getByUser (rm_roster r) v"
    "getByUser (rm_roster (expire_member e u r)) u = Some m \<Longrightarrow> on_time (en_now e) m"
    "all_holds Q r \<Longrightarrow> all_holds Q (expire_member e u r)"
    by simp_all
qed

lemma expire_fold:
  assumes "\<And>u m. u \<notin> set us \<Longrightarrow> getByUser (rm_roster r) u = Some m \<Longrightarrow> on_time (en_now e) m"
  shows "all_members (on_time (en_now e)) (fold (expire_member e) us r)"
  using assms
proof (induction us arbitrary: r)
  case Nil
  then show ?case by (simp add: all_members_def)
next
  case (Cons u us)
  show ?case unfolding fold.simps comp_apply
  proof (rule Cons.IH)
    fix v m assume v: "v \<notin> set us" "getByUser (rm_roster (expire_member e u r)) v = Some m"
    show "on_time (en_now e) m"
    proof (cases "v = u")
      case True
      with v show ?thesis using expire_member_get(2) by simp
    next
      case False
      with v Cons.prems [of v m] show ?thesis using expire_member_get(1) [OF False] by simp
    qed
  qed
qed

lemma all_holds_fold: "all_holds Q r \<Longrightarrow> all_holds Q (fold (expire_member e) us r)"
  by (induction us arbitrary: r) (simp_all add: expire_member_get(3))

lemma start_playing_keeps:
  assumes "room_state r = Countdown"
  shows "room_state (start_playing e s r) = Playing"
    "all_members (on_time now) r \<Longrightarrow> all_members (on_time now) (start_playing e s r)"
    "all_holds Q r \<Longrightarrow> all_holds Q (start_playing e s r)"
proof -
  define r1 where "r1 = update_all (begin_game_member s) (emit (StartedGame s) r)"
  have "calm r r1" unfolding r1_def
    by (intro calm_trans [OF calm_emit calm_update_all]) (simp_all add: is_thrown_def keeps_seat_def begin_game_member_def Let_def)
  then have st: "room_state r1 = Countdown" using assms calm_state by simp
  then have legal: "Playing \<in> set (TRANSITIONS (room_state r1))" by simp
  have eq: "start_playing e s r = broadcastLobbyState e (broadcastCurrentGame (GameStartedMsg (en_startGame e s))
      ((enter Playing (en_now e) r1)\<lparr>rm_countdownEndsAt := None, rm_resumeStarted := Some (en_startGame e s)\<rparr>))"
    by (simp add: start_playing_def Let_def r1_def enter_commute)
  show "room_state (start_playing e s r) = Playing"
    unfolding eq by (simp add: calm_state [OF calm_lobby] calm_state [OF calm_broadcast(2)] enter_legal(2) [OF legal], simp add: room_state_def)
  have ro: "rm_roster (start_playing e s r) = rm_roster r1" by (simp add: eq)
  have p: "on_time now m \<Longrightarrow> on_time now (begin_game_member s m)" for m
    by (simp add: on_time_def reconnect_expired_def admission_expired_def begin_game_member_def Let_def)
  show "all_members (on_time now) r \<Longrightarrow> all_members (on_time now) (start_playing e s r)"
    using all_update_all(1) [of "on_time now" "begin_game_member s", OF p, of "emit (StartedGame s) r"]
    by (simp add: all_members_def ro r1_def)
  show "all_holds Q r \<Longrightarrow> all_holds Q (start_playing e s r)"
    using all_update_all(2) [of "\<lambda>_. True" "begin_game_member s" Q "emit (StartedGame s) r"]
    by (simp add: all_holds_def ro r1_def)
qed

lemma return_to_lobby_keeps:
  assumes "room_state r = PostGame"
  shows "room_state (return_to_lobby e r) = Waiting"
    "all_members (on_time now) r \<Longrightarrow> all_members (on_time now) (return_to_lobby e r)"
    "all_holds Q r \<Longrightarrow> all_holds Q (return_to_lobby e r)"
proof -
  define r1 where "r1 = update_all end_game_member r"
  have "calm r r1" unfolding r1_def by (intro calm_update_all) (simp add: keeps_seat_def end_game_member_def)
  then have st: "room_state r1 = PostGame" using assms calm_state by simp
  then have legal: "Waiting \<in> set (TRANSITIONS (room_state r1))" by simp
  have eq: "return_to_lobby e r = broadcastLobbyState e
      ((enter Waiting (en_now e) r1)\<lparr>rm_postGameEndsAt := None, rm_startSnapshot := None\<rparr>)"
    by (simp add: return_to_lobby_def Let_def r1_def enter_commute)
  show "room_state (return_to_lobby e r) = Waiting"
    unfolding eq by (simp add: calm_state [OF calm_lobby] enter_legal(2) [OF legal], simp add: room_state_def)
  have ro: "rm_roster (return_to_lobby e r) = rm_roster r1" by (simp add: eq)
  have p: "on_time now m \<Longrightarrow> on_time now (end_game_member m)" for m
    by (simp add: on_time_def reconnect_expired_def admission_expired_def end_game_member_def)
  show "all_members (on_time now) r \<Longrightarrow> all_members (on_time now) (return_to_lobby e r)"
    using all_update_all(1) [of "on_time now" end_game_member, OF p, of r] by (simp add: all_members_def ro r1_def)
  show "all_holds Q r \<Longrightarrow> all_holds Q (return_to_lobby e r)"
    using all_update_all(2) [of "\<lambda>_. True" end_game_member Q r] by (simp add: all_holds_def ro r1_def)
qed

lemma advance_postgame_settles:
  assumes "\<not> (room_state r = Countdown \<and> due (en_now e) (rm_countdownEndsAt r))"
  shows "\<not> (room_state (advance_postgame e r) = Countdown \<and> due (en_now e) (rm_countdownEndsAt (advance_postgame e r)))
     \<and> \<not> (room_state (advance_postgame e r) = PostGame \<and> due (en_now e) (rm_postGameEndsAt (advance_postgame e r)))"
  using assms return_to_lobby_keeps(1) [of r e] by (auto simp: advance_postgame_def)

lemma advance_countdown_settles:
  assumes "room_ok r"
  shows "\<not> (room_state (advance_countdown e r) = Countdown \<and> due (en_now e) (rm_countdownEndsAt (advance_countdown e r)))"
  using assms start_playing_keeps(1) [of r e]
  by (auto simp: advance_countdown_def room_ok_def phase_ok_def split: option.split)

lemma advance_phases_keep:
  "all_members (on_time now) r \<Longrightarrow> all_members (on_time now) (advance_postgame e (advance_countdown e r))"
  "all_holds Q r \<Longrightarrow> all_holds Q (advance_postgame e (advance_countdown e r))"
proof -
  have c: "all_members (on_time now) r \<Longrightarrow> all_members (on_time now) (advance_countdown e r)"
    "all_holds Q r \<Longrightarrow> all_holds Q (advance_countdown e r)"
    by (simp_all add: advance_countdown_def start_playing_keeps split: option.split)
      (simp_all add: all_members_def all_holds_def)
  have p: "all_members (on_time now) s \<Longrightarrow> all_members (on_time now) (advance_postgame e s)"
    "all_holds Q s \<Longrightarrow> all_holds Q (advance_postgame e s)" for s
    by (simp_all add: advance_postgame_def return_to_lobby_keeps)
  show "all_members (on_time now) r \<Longrightarrow> all_members (on_time now) (advance_postgame e (advance_countdown e r))"
    "all_holds Q r \<Longrightarrow> all_holds Q (advance_postgame e (advance_countdown e r))"
    using c p by blast+
qed

definition live_hold :: "int \<Rightarrow> seat_hold \<Rightarrow> bool" where
  "live_hold now h \<longleftrightarrow> now < sr_expiresAt (sh_reservation h)"

definition settled :: "int \<Rightarrow> room \<Rightarrow> bool" where
  "settled now r \<longleftrightarrow> all_members (on_time now) r \<and> all_holds (live_hold now) r
     \<and> \<not> (room_state r = Countdown \<and> due now (rm_countdownEndsAt r))
     \<and> \<not> (room_state r = PostGame \<and> due now (rm_postGameEndsAt r))"

lemma advance_inner_settles:
  assumes inv: "room_inv r" and opened: "room_state r \<noteq> Closed"
  shows "settled (en_now e) (advance_inner e r)"
proof -
  define r1 where "r1 = r\<lparr>rm_roster := snd (purgeExpiredHolds (en_now e) (rm_roster r))\<rparr>"
  define r2 where "r2 = expire_members e r1"
  have ok: "roster_ok (rm_roster r)" and rok: "room_ok r" using inv by (simp_all add: room_inv_def room_ok_def)
  then have seats: "seats_ok (rm_roster r)" by (simp add: roster_ok_def)
  have h1: "all_holds (live_hold (en_now e)) r1" using seats_okD(1) [OF seats]
    by (auto simp: r1_def all_holds_def live_hold_def purgeExpiredHolds_def Let_def js_get_delete_where split: option.splits if_splits)
  have mem: "ro_members (rm_roster r1) = ro_members (rm_roster r)" by (simp add: r1_def purgeExpiredHolds_def Let_def)
  have users: "u \<in> set (map lm_userId (members (rm_roster r1)))" if u: "getByUser (rm_roster r1) u = Some m" for u m
  proof -
    have g: "js_get (ro_members (rm_roster r)) u = Some m" using u by (simp add: getByUser_def mem)
    then have "m \<in> set (members (rm_roster r))" using members_mem [OF seats_okD(2) [OF seats]] by blast
    moreover have "lm_userId m = u" using seats_okD(5) [OF seats g] by (simp add: member_ok_def)
    moreover have "members (rm_roster r1) = members (rm_roster r)" by (simp add: members_def mem)
    ultimately show ?thesis by auto
  qed
  have m2: "all_members (on_time (en_now e)) r2"
    unfolding r2_def expire_members_def by (rule expire_fold) (use users in blast)
  have h2: "all_holds (live_hold (en_now e)) r2"
    unfolding r2_def expire_members_def by (rule all_holds_fold [OF h1])
  have "moves r r1" unfolding r1_def by (rule purge_moves [OF rok])
  moreover have "moves r1 r2" unfolding r2_def expire_members_def by (intro moves_fold expire_member_moves)
  ultimately have ok2: "room_ok r2" using moves_ok rok by blast
  have eq: "advance_inner e r = (if roster_size (rm_roster r2) = 0
      then (if room_state r2 \<noteq> Allocating \<or> occupiedSize (rm_roster r2) = 0 then close_room e r2 else r2)
      else advance_postgame e (advance_countdown e r2))"
    using opened by (simp add: advance_inner_def Let_def r1_def r2_def)
  consider (close) "advance_inner e r = close_room e r2" | (hold) "advance_inner e r = r2" "room_state r2 = Allocating"
    | (go) "advance_inner e r = advance_postgame e (advance_countdown e r2)"
    unfolding eq by argo
  then show ?thesis
  proof cases
    case close
    then show ?thesis using all_close [of _ r2] m2 h2 by (simp add: settled_def close_room_state)
  next
    case hold
    then show ?thesis using m2 h2 by (simp add: settled_def)
  next
    case go
    then show ?thesis
      using advance_phases_keep(1) [OF m2] advance_phases_keep(2) [OF h2]
        advance_postgame_settles [OF advance_countdown_settles [OF ok2]] by (simp add: settled_def)
  qed
qed



end
