(* ===== verification/HandOff.thy ===== *)
theory HandOff
  imports Manager RoomClock
begin

text \<open>
  Handing a room over: what one server exports (\<open>exportForHandOff\<close> in \<open>rooms/room.ts\<close>) another can adopt
  (\<open>adoptRoom\<close> in \<open>rooms/room-manager.ts\<close>), and nothing of the room is lost but the list of kicked users.
\<close>

section \<open>Rosters as payloads\<close>

definition payload_ok :: "int \<Rightarrow> adopted_member list \<Rightarrow> bool" where
  "payload_ok cap ads \<longleftrightarrow> distinct (map ad_userId ads) \<and> distinct (map ad_slot ads)
     \<and> list_all (\<lambda>a. ad_playerId a = ad_slot a \<and> ad_colorIndex a = ad_slot a - 1 \<and> 1 \<le> ad_slot a \<and> ad_slot a \<le> cap) ads
     \<and> list_ex ad_isHost ads"

lemma adopt_fold_members:
  assumes "distinct (map ad_userId ads)" "\<And>a. a \<in> set ads \<Longrightarrow> js_get (ro_members ro) (ad_userId a) = None"
  shows "ro_members (fold (\<lambda>a. adopt a t) ads ro) = ro_members ro @ map (\<lambda>a. (ad_userId a, adopted_seat a t)) ads"
  using assms
proof (induction ads arbitrary: ro)
  case (Cons a ads)
  have e: "ro_members (adopt a t ro) = ro_members ro @ [(ad_userId a, adopted_seat a t)]"
    using Cons.prems(2) [of a] by (simp add: adopt_def js_set_absent)
  have "js_get (ro_members (adopt a t ro)) (ad_userId b) = None" if "b \<in> set ads" for b
    using Cons.prems that by (auto simp: adopt_def image_iff)
  then have "ro_members (fold (\<lambda>a. adopt a t) ads (adopt a t ro))
      = ro_members (adopt a t ro) @ map (\<lambda>a. (ad_userId a, adopted_seat a t)) ads"
    using Cons.IH Cons.prems(1) by simp
  then show ?case by (simp add: e)
qed simp

lemma adopt_fold_other:
  "ro_holds (fold (\<lambda>a. adopt a t) ads ro) = ro_holds ro" "ro_capacity (fold (\<lambda>a. adopt a t) ads ro) = ro_capacity ro"
  by (induction ads arbitrary: ro) (simp_all add: adopt_def)

lemma adopt_fold_host:
  "ro_hostUserId (fold (\<lambda>a. adopt a t) ads ro) =
     (if list_ex ad_isHost ads then Some (ad_userId (last (filter ad_isHost ads))) else ro_hostUserId ro)"
proof (induction ads arbitrary: ro)
  case (Cons a ads)
  have "list_ex ad_isHost ads \<longleftrightarrow> filter ad_isHost ads \<noteq> []" by (auto simp: list_ex_iff filter_empty_conv)
  with Cons [of "adopt a t ro"] show ?case by (auto simp: adopt_def)
qed simp

definition empty_roster :: "int \<Rightarrow> lobby_roster" where
  "empty_roster cap = \<lparr>ro_capacity = cap, ro_holds = js_empty, ro_members = js_empty, ro_joinOrder = 0, ro_hostUserId = None\<rparr>"

lemma adopted_roster:
  fixes t :: int
  assumes ok: "payload_ok cap ads" and cap: "cap \<le> MAX_PLAYERS_PER_ROOM"
  defines "ro \<equiv> fold (\<lambda>a. adopt a t) ads (empty_roster cap)"
  shows "roster_ok ro" "ro_members ro = map (\<lambda>a. (ad_userId a, adopted_seat a t)) ads" "ro_holds ro = js_empty"
    "ro_capacity ro = cap" "ro_hostUserId ro = Some (ad_userId (last (filter ad_isHost ads)))"
proof -
  have P: "distinct (map ad_userId ads)" "distinct (map ad_slot ads)" "list_ex ad_isHost ads"
    "\<And>a. a \<in> set ads \<Longrightarrow> ad_playerId a = ad_slot a \<and> ad_colorIndex a = ad_slot a - 1 \<and> 1 \<le> ad_slot a \<and> ad_slot a \<le> cap"
    using ok by (auto simp: payload_ok_def list_all_iff)
  show mem: "ro_members ro = map (\<lambda>a. (ad_userId a, adopted_seat a t)) ads"
    unfolding ro_def using adopt_fold_members [OF P(1)] by (simp add: empty_roster_def js_empty_def js_get_def)
  show holds: "ro_holds ro = js_empty" and capacity: "ro_capacity ro = cap"
    by (simp_all add: ro_def adopt_fold_other empty_roster_def)
  show host: "ro_hostUserId ro = Some (ad_userId (last (filter ad_isHost ads)))"
    using P(3) by (simp add: ro_def adopt_fold_host)
  have jok: "js_ok (ro_members ro)" using P(1) by (simp add: js_ok_def mem comp_def)
  have get: "js_get (ro_members ro) u = Some m \<longleftrightarrow> (\<exists>a \<in> set ads. u = ad_userId a \<and> m = adopted_seat a t)" for u m
    unfolding js_get_Some_iff [OF jok] by (auto simp: mem)
  have seats: "seats_ok ro"
  proof (rule seats_okI, intro conjI allI impI)
    show "member_ok (ro_capacity ro) u m" if "js_get (ro_members ro) u = Some m" for u m
      using that P(4) by (auto simp: get capacity member_ok_def adopted_seat_def)
    show "apart (seat_of ro)"
    proof (unfold apart_def, intro allI impI)
      fix u v s assume "seat_of ro u = Some s" "seat_of ro v = Some s"
      then obtain m n where "js_get (ro_members ro) u = Some m" "js_get (ro_members ro) v = Some n" "lm_slot m = s" "lm_slot n = s"
        by (auto simp: seat_of_def holds split: option.splits)
      then obtain a b where "a \<in> set ads" "b \<in> set ads" "u = ad_userId a" "v = ad_userId b" "ad_slot a = ad_slot b"
        unfolding get by (auto simp: adopted_seat_def)
      with distinct_map_inj [OF P(2)] show "u = v" by blast
    qed
  qed (use jok cap in \<open>simp_all add: holds capacity\<close>)
  have "filter ad_isHost ads \<noteq> []" using P(3) by (auto simp: list_ex_iff filter_empty_conv)
  then have "last (filter ad_isHost ads) \<in> set (filter ad_isHost ads)" by (rule last_in_set)
  then have "last (filter ad_isHost ads) \<in> set ads" by simp
  then have "\<exists>m. js_get (ro_members ro) (ad_userId (last (filter ad_isHost ads))) = Some m" unfolding get by blast
  then show "roster_ok ro" using seats by (auto simp: roster_ok_def host_ok_def host)
qed

section \<open>Adopting a room\<close>

lemma adopted_room:
  assumes new: "new_room e o' = Some r0" and owner: "op_ownerReservation o' = None"
    and ok: "payload_ok (op_capacity o') ads" "ads \<noteq> []"
  shows "room_inv (adoptMembers e ads r0)"
    "rm_roster (adoptMembers e ads r0)
       = fold (\<lambda>a. adopt a (en_now e + rt_reconnectGraceMs (op_timing o'))) ads (empty_roster (op_capacity o'))"
    "room_state (adoptMembers e ads r0) = Waiting" "rm_options (adoptMembers e ads r0) = o'"
    "rm_kickedUsers (adoptMembers e ads r0) = []" "rm_matchId (adoptMembers e ads r0) = op_matchId o'"
    "rm_mapId (adoptMembers e ads r0) = op_mapId o'" "rm_playedGames (adoptMembers e ads r0) = op_playedGames o'"
    "rm_grantedMatchId (adoptMembers e ads r0) = op_grantedMatchId o'" "rm_locked (adoptMembers e ads r0) = op_locked o'"
proof -
  let ?t = "en_now e + rt_reconnectGraceMs (op_timing o')"
  obtain ro0 where ro0: "new_roster (op_capacity o') = Some ro0" and r0: "r0 = empty_room e o' ro0"
    using new owner by (auto simp: new_room_def split: if_splits option.splits)
  then have ro0': "ro0 = empty_roster (op_capacity o')" and cap: "op_capacity o' \<le> MAX_PLAYERS_PER_ROOM"
    by (auto simp: new_roster_def empty_roster_def split: if_splits)
  define ro where "ro = fold (\<lambda>a. adopt a ?t) ads (empty_roster (op_capacity o'))"
  note R = adopted_roster [OF ok(1) cap, of ?t, folded ro_def]
  have eq: "adoptMembers e ads r0 = directoryChanged ((enter Waiting (en_now e) (r0\<lparr>rm_roster := ro\<rparr>))\<lparr>rm_startLock :=
      snd (applyJoin (en_now e) (rm_startLock (enter Waiting (en_now e) (r0\<lparr>rm_roster := ro\<rparr>))))\<rparr>)"
    by (simp add: adoptMembers_def Let_def r0 empty_room_def roomTiming_def ro_def ro0' room_state_def new_machine_def)
  have en: "enter Waiting (en_now e) (r0\<lparr>rm_roster := ro\<rparr>) = r0\<lparr>rm_roster := ro, rm_machine := \<lparr>sm_state = Waiting, sm_enteredAt = en_now e\<rparr>\<rparr>"
    by (simp add: enter_def transition_def r0 empty_room_def new_machine_def)
  show "rm_roster (adoptMembers e ads r0) = fold (\<lambda>a. adopt a ?t) ads (empty_roster (op_capacity o'))"
    and st: "room_state (adoptMembers e ads r0) = Waiting" and "rm_options (adoptMembers e ads r0) = o'"
    and k: "rm_kickedUsers (adoptMembers e ads r0) = []" and "rm_matchId (adoptMembers e ads r0) = op_matchId o'"
    and "rm_mapId (adoptMembers e ads r0) = op_mapId o'" and "rm_playedGames (adoptMembers e ads r0) = op_playedGames o'"
    and "rm_grantedMatchId (adoptMembers e ads r0) = op_grantedMatchId o'" and "rm_locked (adoptMembers e ads r0) = op_locked o'"
    unfolding eq en by (simp_all add: directoryChanged_def emit_def room_state_def r0 empty_room_def ro_def)
  have out: "rm_out (adoptMembers e ads r0) = [DirectoryChanged]" and roster: "rm_roster (adoptMembers e ads r0) = ro"
    unfolding eq en by (simp_all add: directoryChanged_def emit_def r0 empty_room_def)
  obtain a where "a \<in> set ads" using ok(2) by (cases ads) auto
  then have "js_get (ro_members ro) (ad_userId a) \<noteq> None"
    unfolding js_get_None_iff R(2) by force
  then have "\<not> no_members (adoptMembers e ads r0)" by (auto simp: no_members_def roster)
  then show "room_inv (adoptMembers e ads r0)"
    using R(1) by (simp add: room_inv_def room_ok_def phase_ok_def st lively_def clean_def k out roster is_thrown_def)
qed

section \<open>Exporting a room\<close>

lemma members_facts:
  assumes ok: "roster_ok ro"
  shows "distinct (map lm_userId (members ro))" "distinct (map lm_slot (members ro))" "sorted (map lm_joinedOrder (members ro))"
    "m \<in> set (members ro) \<Longrightarrow> member_ok (ro_capacity ro) (lm_userId m) m \<and> js_get (ro_members ro) (lm_userId m) = Some m"
proof -
  have seats: "seats_ok ro" using ok by (simp add: roster_ok_def)
  note D = seats_okD [OF seats]
  have get: "js_get (ro_members ro) (lm_userId m) = Some m \<and> member_ok (ro_capacity ro) (lm_userId m) m" if m: "m \<in> set (members ro)" for m
  proof -
    obtain u where "js_get (ro_members ro) u = Some m" using m unfolding members_mem [OF D(2)] by blast
    with D(5) [OF this] show ?thesis by (simp add: member_ok_def)
  qed
  then show "m \<in> set (members ro) \<Longrightarrow> member_ok (ro_capacity ro) (lm_userId m) m \<and> js_get (ro_members ro) (lm_userId m) = Some m" by blast
  show "sorted (map lm_joinedOrder (members ro))" by (simp add: members_def)
  have keys: "map lm_userId (js_values (ro_members ro)) = map fst (ro_members ro)"
  proof -
    have "lm_userId (snd p) = fst p" if "p \<in> set (ro_members ro)" for p
      using D(5) [of "fst p" "snd p"] that D(2) by (simp add: js_get_Some_iff member_ok_def)
    then show ?thesis by (simp add: js_values_def)
  qed
  have "distinct (map lm_userId (js_values (ro_members ro)))" using D(2) unfolding keys js_ok_def .
  then show du: "distinct (map lm_userId (members ro))" by (simp add: members_def distinct_map)
  have "inj_on lm_slot (set (members ro))"
  proof (rule inj_onI)
    fix m n assume mn: "m \<in> set (members ro)" "n \<in> set (members ro)" "lm_slot m = lm_slot n"
    then have "seat_of ro (lm_userId m) = Some (lm_slot m)" "seat_of ro (lm_userId n) = Some (lm_slot m)"
      using get by (simp_all add: seat_of_def)
    with D(7) have "lm_userId m = lm_userId n" unfolding apart_def by blast
    with distinct_map_inj [OF du] mn show "m = n" by blast
  qed
  moreover have "distinct (members ro)" using du distinct_map by blast
  ultimately show "distinct (map lm_slot (members ro))" by (simp add: distinct_map)
qed

lemma host_member:
  assumes "roster_ok ro" "ro_members ro \<noteq> []"
  obtains h where "h \<in> set (members ro)" "hostId ro = Some (lm_playerId h)" "ro_hostUserId ro = Some (lm_userId h)"
proof -
  have seats: "seats_ok ro" and host: "host_ok ro" using assms(1) by (simp_all add: roster_ok_def)
  note D = seats_okD [OF seats]
  obtain u m where m: "js_get (ro_members ro) u = Some m" "ro_hostUserId ro = Some u"
  proof (cases "ro_hostUserId ro")
    case None
    then have "\<forall>u. js_get (ro_members ro) u = None" using host by (simp add: host_ok_def)
    moreover obtain p ms where "ro_members ro = p # ms" using assms(2) by (cases "ro_members ro") auto
    ultimately have False by (metis js_get_def map_of_Cons_code(2) option.distinct(1) surj_pair)
    then show ?thesis ..
  next
    case (Some u)
    with host that show ?thesis by (auto simp: host_ok_def)
  qed
  have "lm_userId m = u" using D(5) [OF m(1)] by (simp add: member_ok_def)
  with m that [of m] show ?thesis by (auto simp: hostId_def members_mem [OF D(2)])
qed

lemma exported_ok:
  assumes inv: "roster_ok ro" and some: "ro_members ro \<noteq> []"
  shows "payload_ok (ro_capacity ro) (map (export_member (hostId ro)) (members ro))"
proof -
  note F = members_facts [OF inv]
  obtain h where h: "h \<in> set (members ro)" "hostId ro = Some (lm_playerId h)" by (rule host_member [OF inv some])
  have "ad_userId \<circ> export_member q = lm_userId" "ad_slot \<circ> export_member q = lm_slot" for q
    by (simp_all add: export_member_def comp_def)
  with F h show ?thesis
    by (auto simp: payload_ok_def list_all_iff list_ex_iff export_member_def member_ok_def)
qed

section \<open>From one server to another\<close>

lemma export_adopted:
  "export_member q (adopted_seat a t) = a\<lparr>ad_isHost := (Some (ad_playerId a) = q)\<rparr>"
  by (simp add: export_member_def adopted_seat_def)

lemma reexport:
  fixes t :: int
  assumes ok: "roster_ok ro" and some: "ro_members ro \<noteq> []"
  defines "ads \<equiv> map (export_member (hostId ro)) (members ro)"
  defines "ro2 \<equiv> fold (\<lambda>a. adopt a t) ads (empty_roster (ro_capacity ro))"
  shows "map (export_member (hostId ro2)) (members ro2) = ads"
proof -
  note F = members_facts [OF ok]
  have cap: "ro_capacity ro \<le> MAX_PLAYERS_PER_ROOM" using ok seats_okD(3) by (simp add: roster_ok_def)
  note R = adopted_roster [OF exported_ok [OF ok some] cap, of t, folded ads_def, folded ro2_def]
  obtain h where h: "h \<in> set (members ro)" "hostId ro = Some (lm_playerId h)" "ro_hostUserId ro = Some (lm_userId h)"
    by (rule host_member [OF ok some])
  have "js_values (ro_members ro2) = map (\<lambda>a. adopted_seat a t) ads" by (simp add: js_values_def R(2))
  moreover have "sorted (map lm_joinedOrder (map (\<lambda>a. adopted_seat a t) ads))"
    using F(3) by (simp add: ads_def comp_def adopted_seat_def export_member_def)
  ultimately have mem2: "members ro2 = map (\<lambda>a. adopted_seat a t) ads"
    by (simp add: members_def sorted_sort_id sort_key_id_if_sorted)
  have "filter ad_isHost ads \<noteq> []" using h by (auto simp: ads_def filter_empty_conv export_member_def)
  then have l: "last (filter ad_isHost ads) \<in> set (filter ad_isHost ads)" by (rule last_in_set)
  then obtain m where m: "m \<in> set (members ro)" "last (filter ad_isHost ads) = export_member (hostId ro) m"
    "lm_playerId m = lm_playerId h"
    by (auto simp: ads_def export_member_def h(2))
  then have "lm_slot m = lm_slot h" using F(4) h(1) by (simp add: member_ok_def)
  then have mh: "m = h" using distinct_map_inj [OF F(2)] m(1) h(1) by blast
  then have u2: "ro_hostUserId ro2 = Some (lm_userId h)" by (simp add: R(5) m(2) export_member_def)
  have "export_member (hostId ro) h \<in> set ads" using h(1) by (simp add: ads_def)
  then have "adopted_seat (export_member (hostId ro) h) t \<in> set (members ro2)" by (simp add: mem2)
  from members_facts(4) [OF R(1) this] have "hostId ro2 = Some (lm_playerId h)"
    by (simp add: hostId_def u2 adopted_seat_def export_member_def)
  then have q: "hostId ro2 = hostId ro" by (simp add: h(2))
  have "export_member (hostId ro2) (adopted_seat a t) = a" if "a \<in> set ads" for a
    using that unfolding export_adopted q by (auto simp: ads_def export_member_def)
  then show ?thesis by (simp add: mem2 map_idI)
qed



end
