(* ===== verification/ManagerProps.thy ===== *)
theory ManagerProps
  imports HandOff
begin

text \<open>
  The manager keeps its rooms good: every operation of \<open>rooms/room-manager.ts\<close> is a call of a machine whose invariant says
  that each open or staged room satisfies the invariant of rooms under its own name and that the server never holds more
  rooms than it may.
\<close>

datatype server_call =
  MgCreate create_room
| MgAdopt adopt_room_payload bool
| MgCommit string
| MgDiscard string
| MgSweep
| MgReserveJoin seat_reservation "string option"
| MgReserveResume seat_reservation
| MgReleaseSeat string actor_id
| MgKickUser string actor_id string
| MgGrant string string
| MgAdmit seat_reservation
| MgConnect string game_connection
| MgAfterConnect string game_connection
| MgDisconnect string game_connection
| MgInput string game_connection "byte list"
| MgJson string game_connection routed_message "int option"
| MgRoom string room_call

text \<open>\<open>MgRoom\<close> is a call on a room that the simulation or the hand-over loop got from \<open>get\<close>.\<close>

fun server_step :: "manager_env \<times> server_call \<Rightarrow> room_manager \<Rightarrow> room_manager" where
  "server_step (e, MgCreate s) m = snd (createRoom (me_room e) s m)"
| "server_step (e, MgAdopt p staged) m = snd (adoptRoom (me_room e) p staged m)"
| "server_step (e, MgCommit k) m = (case js_get (mg_staged m) k of None \<Rightarrow> m | Some r \<Rightarrow> commitAdoptedRoom (me_room e) r m)"
| "server_step (e, MgDiscard k) m = discardStagedRoom k m"
| "server_step (e, MgSweep) m = snd (sweep (me_room e) m)"
| "server_step (e, MgReserveJoin res pw) m = snd (mg_reserveJoin (me_room e) res pw m)"
| "server_step (e, MgReserveResume res) m = snd (mg_reserveResume (me_room e) res m)"
| "server_step (e, MgReleaseSeat k u) m = snd (mg_releaseSeat (me_room e) k u m)"
| "server_step (e, MgKickUser k u reason) m = snd (mg_kickUser (me_room e) k u reason m)"
| "server_step (e, MgGrant k matchId) m = snd (mg_grantMatch k matchId m)"
| "server_step (e, MgAdmit res) m = snd (mg_admitReservation (me_room e) res m)"
| "server_step (e, MgConnect k c) m = (case onConnect (me_room e) k c m of None \<Rightarrow> m | Some m' \<Rightarrow> m')"
| "server_step (e, MgAfterConnect k c) m = after_connect k c m"
| "server_step (e, MgDisconnect k c) m = onDisconnect (me_room e) k c m"
| "server_step (e, MgInput k c frame) m = onInput (me_room e) k c frame m"
| "server_step (e, MgJson k c msg rid) m = onJson e k c msg rid m"
| "server_step (e, MgRoom k call) m = (case js_get (mg_rooms m) k of None \<Rightarrow> m | Some r \<Rightarrow> put_room k (room_step (me_room e, call) r) m)"

text \<open>Payloads come from \<open>exportForHandOff\<close>, so they are good (\<open>exported_ok\<close>).\<close>

definition call_ok :: "manager_env \<times> server_call \<Rightarrow> bool" where
  "call_ok x = (case snd x of MgAdopt p _ \<Rightarrow> payload_ok (ar_capacity p) (ar_members p) | _ \<Rightarrow> True)"

definition rooms_ok :: "(string, room) js_map \<Rightarrow> bool" where
  "rooms_ok rs \<longleftrightarrow> js_ok rs \<and> (\<forall>k r. js_get rs k = Some r \<longrightarrow> room_inv r \<and> op_id (rm_options r) = k)"

definition server_ok :: "room_manager \<Rightarrow> bool" where
  "server_ok m \<longleftrightarrow> rooms_ok (mg_rooms m) \<and> rooms_ok (mg_staged m)
     \<and> (\<forall>k r. js_get (mg_rooms m) k = Some r \<longrightarrow> js_get (mg_staged m) k = None)
     \<and> (\<forall>k. mo_maxRooms (mg_options m) = Some k \<longrightarrow> mg_size m \<le> k)"

section \<open>Changes of the maps\<close>

lemma rooms_okD: "rooms_ok rs \<Longrightarrow> js_get rs k = Some r \<Longrightarrow> room_inv r" "rooms_ok rs \<Longrightarrow> js_get rs k = Some r \<Longrightarrow> op_id (rm_options r) = k"
  by (simp_all add: rooms_ok_def)

lemma rooms_ok_set: "rooms_ok rs \<Longrightarrow> room_inv r \<Longrightarrow> op_id (rm_options r) = k \<Longrightarrow> rooms_ok (js_set k r rs)"
  by (simp add: rooms_ok_def)

lemma rooms_ok_delete: "rooms_ok rs \<Longrightarrow> rooms_ok (js_delete k rs)"
  by (simp add: rooms_ok_def)

lemma size_delete_le: "js_size (js_delete k rs) \<le> js_size rs"
  by (simp add: js_size_def js_delete_def)

lemma server_ok_emit [simp]: "server_ok (mg_emit x m) = server_ok m" "server_ok (m\<lparr>mg_out := out\<rparr>) = server_ok m"
  by (simp_all add: server_ok_def mg_emit_def mg_size_def)

lemma server_ok_put:
  assumes m: "server_ok m" and r: "js_get (mg_rooms m) k = Some r" and s: "good_step r s"
  shows "server_ok (put_room k s m)"
proof -
  have "rooms_ok (mg_rooms m)" using m by (simp add: server_ok_def)
  then have "op_id (rm_options s) = k" using r s by (simp add: good_step_def rooms_okD(2))
  with m r s show ?thesis
    by (auto simp: server_ok_def put_room_def good_step_def rooms_ok_set mg_size_def js_size_set)
qed

lemma server_ok_drop: "server_ok m \<Longrightarrow> server_ok (drop_room k m)"
  using size_delete_le [of k "mg_rooms m"] by (fastforce simp: server_ok_def drop_room_def rooms_ok_delete mg_size_def)

lemma server_ok_put_or_drop:
  "server_ok m \<Longrightarrow> js_get (mg_rooms m) k = Some r \<Longrightarrow> good_step r s \<Longrightarrow> server_ok (put_or_drop k s m)"
  by (simp add: put_or_drop_def server_ok_put server_ok_drop)

lemma room_of: "server_ok m \<Longrightarrow> js_get (mg_rooms m) k = Some r \<Longrightarrow> room_inv r"
  unfolding server_ok_def by (blast intro: rooms_okD(1))

lemma js_get_map_snd: "js_get (map (\<lambda>(k, r). (k, f r)) rs) k = map_option f (js_get rs k)"
  by (induction rs) (auto simp: js_get_def)

lemma server_sweep_ok: "server_ok m \<Longrightarrow> server_ok (snd (sweep e m))"
proof -
  assume m: "server_ok m"
  let ?rs = "map (\<lambda>(k, r). (k, advance e r)) (mg_rooms m)"
  have jok: "js_ok ?rs" using m by (simp add: js_ok_def server_ok_def rooms_ok_def comp_def case_prod_beta)
  have good: "room_inv (advance e r) \<and> op_id (rm_options (advance e r)) = k" if "js_get (mg_rooms m) k = Some r" for k r
    using that m advance_good [of r e] by (auto simp: server_ok_def rooms_ok_def good_step_def)
  have "js_get (mg_staged m) k = None" if "js_get (js_delete_where (\<lambda>_ r. room_state r = Closed) ?rs) k = Some r" for k r
    using m jok that by (auto simp: js_get_delete_where js_get_map_snd server_ok_def split: option.splits if_splits)
  moreover have "rooms_ok (js_delete_where (\<lambda>_ r. room_state r = Closed) ?rs)"
    using jok good by (auto simp: rooms_ok_def js_get_delete_where js_get_map_snd split: option.splits if_splits)
  moreover have "js_size (js_delete_where (\<lambda>_ r. room_state r = Closed) ?rs) \<le> js_size (mg_rooms m)"
    using js_delete_where_size [of _ ?rs] by (simp add: js_size_def)
  ultimately show "server_ok (snd (sweep e m))"
    using m by (fastforce simp: server_ok_def sweep_def Let_def mg_size_def)
qed

lemma in_room_ok:
  assumes "server_ok m" and "\<And>r. js_get (mg_rooms m) k = Some r \<Longrightarrow> server_ok (snd (body r))"
  shows "server_ok (snd (in_room k body m))"
  using assms by (simp add: in_room_def split: option.split)

section \<open>Operations\<close>

lemma createRoom_ok:
  assumes m: "server_ok m"
  shows "server_ok (snd (createRoom e s m))"
proof -
  define m1 where "m1 = snd (sweep e m)"
  have m1: "server_ok m1" unfolding m1_def by (rule server_sweep_ok [OF m])
  have "server_ok (put_room (cr_id s) r m1)"
    if n: "new_room e (create_options (mg_options m1) s) = Some r"
      and free: "js_get (mg_rooms m1) (cr_id s) = None" "js_get (mg_staged m1) (cr_id s) = None" "\<not> server_full m1" for r
  proof -
    have "room_inv r" "op_id (rm_options r) = cr_id s" using new_room_inv [OF n] by (simp_all add: create_options_def)
    with m1 free show ?thesis
      by (auto simp: server_ok_def put_room_def rooms_ok_set mg_size_def js_size_set server_full_def)
  qed
  then show ?thesis using m1 by (simp add: createRoom_def Let_def m1_def [symmetric] js_has_def split: option.split)
qed

lemma commit_ok:
  assumes m: "server_ok m" and r: "room_inv r" and k: "js_get (mg_rooms m) (op_id (rm_options r)) = None"
    and size: "js_get (mg_staged m) (op_id (rm_options r)) = None \<longrightarrow> \<not> server_full m"
  shows "server_ok (commitAdoptedRoom e r m)"
proof -
  let ?k = "op_id (rm_options r)"
  have c: "calm r (refreshHandOffGrace e r)" by (rule calm_refresh)
  then have s: "room_inv (refreshHandOffGrace e r)" "op_id (rm_options (refreshHandOffGrace e r)) = ?k"
    using calm_good [OF r c] by (simp_all add: good_step_def)
  have jok: "js_ok (mg_staged m)" using m by (simp add: server_ok_def rooms_ok_def)
  have pos: "0 < js_size (mg_staged m)" if "js_get (mg_staged m) ?k \<noteq> None" by (rule js_size_pos [OF that])
  define m2 where "m2 = put_room ?k (refreshHandOffGrace e r) (m\<lparr>mg_staged := js_delete ?k (mg_staged m)\<rparr>)"
  have parts: "mg_rooms m2 = js_set ?k (refreshHandOffGrace e r) (mg_rooms m)" "mg_staged m2 = js_delete ?k (mg_staged m)"
    "mg_options m2 = mg_options m" by (simp_all add: m2_def put_room_def)
  have "mg_size m2 = (if js_get (mg_staged m) ?k = None then Suc (mg_size m) else mg_size m)"
    using k pos by (auto simp: mg_size_def parts js_size_set js_size_delete [OF jok])
  then have "mg_size m2 \<le> n" if "mo_maxRooms (mg_options m2) = Some n" for n
    using m size that by (auto simp: server_ok_def server_full_def parts split: if_splits)
  moreover have "rooms_ok (mg_rooms m2)" "rooms_ok (mg_staged m2)"
    using m s by (simp_all add: parts rooms_ok_set rooms_ok_delete server_ok_def)
  moreover have "js_get (mg_staged m2) q = None" if "js_get (mg_rooms m2) q = Some x" for q x
    using m that by (auto simp: parts server_ok_def split: if_splits)
  ultimately have "server_ok m2" by (simp add: server_ok_def)
  then show ?thesis by (simp add: commitAdoptedRoom_def Let_def m2_def)
qed

lemma adoptRoom_ok:
  assumes m: "server_ok m" and p: "payload_ok (ar_capacity p) (ar_members p)"
  shows "server_ok (snd (adoptRoom e p staged m))"
proof -
  define m1 where "m1 = snd (sweep e m)"
  have m1: "server_ok m1" unfolding m1_def by (rule server_sweep_ok [OF m])
  have "server_ok (if staged then m1\<lparr>mg_staged := js_set (ar_roomId p) (adoptMembers e (ar_members p) r0) (mg_staged m1)\<rparr>
      else commitAdoptedRoom e (adoptMembers e (ar_members p) r0) m1)"
    if n: "new_room e (adopt_options (mg_options m1) p) = Some r0" and ne: "ar_members p \<noteq> []"
      and free: "js_get (mg_rooms m1) (ar_roomId p) = None" "js_get (mg_staged m1) (ar_roomId p) = None" "\<not> server_full m1" for r0
  proof -
    have o': "op_ownerReservation (adopt_options (mg_options m1) p) = None"
      "op_capacity (adopt_options (mg_options m1) p) = ar_capacity p" "op_id (adopt_options (mg_options m1) p) = ar_roomId p"
      by (simp_all add: adopt_options_def)
    note A = adopted_room [OF n o'(1) _ ne, unfolded o'(2), OF p]
    have id: "op_id (rm_options (adoptMembers e (ar_members p) r0)) = ar_roomId p" by (simp add: A(4) o'(3))
    show ?thesis
    proof (cases staged)
      case True
      with m1 free A(1) id show ?thesis
        by (auto simp: server_ok_def rooms_ok_set mg_size_def js_size_set server_full_def)
    next
      case False
      with commit_ok [OF m1 A(1)] free show ?thesis by (simp add: id)
    qed
  qed
  then show ?thesis using m1 by (simp add: adoptRoom_def Let_def m1_def [symmetric] js_has_def split: option.split)
qed

lemma command_ok:
  assumes m: "server_ok m"
  shows "server_ok (snd (mg_reserveJoin e res pw m))" "server_ok (snd (mg_reserveResume e res m))"
    "server_ok (snd (mg_releaseSeat e k u m))" "server_ok (snd (mg_kickUser e k u reason m))"
    "server_ok (snd (mg_grantMatch k matchId m))" "server_ok (snd (mg_admitReservation e res m))"
proof -
  note put = server_ok_put [OF m] and inv = room_of [OF m]
  have "server_ok (put_room (sr_roomId res) r1 m)"
    if "js_get (mg_rooms m) (sr_roomId res) = Some r" "reserveJoin e res pw r = (err, r1)" for r err r1
    using put [OF that(1), of r1] reserveJoin_good [OF inv [OF that(1)], of e res pw] that(2) by simp
  then show "server_ok (snd (mg_reserveJoin e res pw m))"
    unfolding mg_reserveJoin_def by (intro in_room_ok [OF m]) (auto split: prod.split option.split)
  have "server_ok (put_room (sr_roomId res) r1 m)"
    if "js_get (mg_rooms m) (sr_roomId res) = Some r" "canReserveResume e (sr_userId res) r = (err, r1)" for r err r1
    using put [OF that(1), of r1] advance_good [OF inv [OF that(1)], of e] canReserveResume_snd [of e "sr_userId res" r] that(2)
    by simp
  then show "server_ok (snd (mg_reserveResume e res m))"
    unfolding mg_reserveResume_def using m by (intro in_room_ok [OF m]) (auto split: prod.split option.split)
  show "server_ok (snd (mg_releaseSeat e k u m))"
    unfolding mg_releaseSeat_def
    by (intro in_room_ok [OF m]) (auto intro: server_ok_put_or_drop [OF m] moves_good inv releaseSeat_moves)
  show "server_ok (snd (mg_kickUser e k u reason m))"
    unfolding mg_kickUser_def by (intro in_room_ok [OF m]) (auto intro: server_ok_put_or_drop [OF m] inv forceKick_good)
  show "server_ok (snd (mg_grantMatch k matchId m))"
    unfolding mg_grantMatch_def by (intro in_room_ok [OF m]) (auto intro: put inv calm_good calm_grant)
  have "server_ok (put_room (sr_roomId res) r1 m)"
    if "js_get (mg_rooms m) (sr_roomId res) = Some r" "admitReservation e res r = (seat, r1)" for r seat r1
    using put [OF that(1), of r1] admit_good [OF inv [OF that(1)], of e res] that(2) by simp
  then show "server_ok (snd (mg_admitReservation e res m))"
    using m by (auto simp: mg_admitReservation_def split: option.split prod.split)
qed

lemma connection_ok:
  assumes m: "server_ok m"
  shows "onConnect e k c m = Some m' \<Longrightarrow> server_ok m'" "server_ok (after_connect k c m)"
    "server_ok (onDisconnect e k c m)" "server_ok (onInput e k c frame m)"
proof -
  note put = server_ok_put [OF m] and inv = room_of [OF m]
  have "server_ok (put_room k r1 m)"
    if "js_get (mg_rooms m) k = Some r" "bindConnection e c r = (b, r1)" for r b r1
    using put [OF that(1), of r1] bind_good [OF inv [OF that(1)], of e c] that(2) by simp
  then show "onConnect e k c m = Some m' \<Longrightarrow> server_ok m'"
    by (auto simp: onConnect_def split: option.splits prod.splits bool.splits if_splits)
  show "server_ok (after_connect k c m)"
    using m by (simp add: after_connect_def split: option.split)
  show "server_ok (onDisconnect e k c m)"
    using m by (auto simp: onDisconnect_def intro: put calm_good inv calm_disconnect split: option.split)
  show "server_ok (onInput e k c frame m)"
    using m by (auto simp: onInput_def Let_def intro: put calm_good inv calm_acceptInput split: option.split sum.split)
qed

lemma of_room_snd: "fst (snd (of_room x)) = snd x"
  by (simp add: of_room_def)

lemma handle_good:
  assumes inv: "room_inv r"
  shows "good_step r (fst (snd (handle_message e c msg r)))"
proof -
  note calm = calm_good [OF inv] and moves = moves_good [OF inv] and refl = good_refl [OF inv]
  have slot: "good_step r (fst (snd (handle_setSlot e' c slot r)))" for e' slot
    using calm [OF moveSlot_calm, of e' "gc_userId c" slot] by (simp add: handle_setSlot_def case_prod_beta)
  have "moves r (emit (CloseConnection (gc_id c) 1000 ''left'') (snd (releaseSeat e' (gc_userId c) ''left'' r)))" for e'
    by (rule moves_calm [OF releaseSeat_moves calm_emit]) (simp add: is_thrown_def)
  then have leave: "good_step r (fst (snd (handle_leave e' c r)))" for e'
    by (simp add: handle_leave_def Let_def refl moves)
  have loadout: "good_step r (fst (snd (handle_setLoadout e' c skills r)))" for e' skills
    by (simp add: handle_setLoadout_def refl of_room_snd calm [OF calm_settings(3)] split: list.split option.split)
  have skill: "fst (snd (handle_useSkill e c a t r)) = r" "fst (snd (handle_emoji e c a r)) = r" for a t
    by (simp_all add: handle_useSkill_def handle_emoji_def Let_def split: option.split)
  have respawn: "good_step r (fst (snd (handle_respawn e c r)))"
    by (simp add: handle_respawn_def Let_def refl case_prod_beta calm [OF calm_revive] split: option.split)
  have ping: "good_step r (emit (Send i x) r)" for i x
    by (rule calm [OF calm_emit]) (simp add: is_thrown_def)
  show ?thesis
  proof (cases msg)
    case RoutedAuth
    then show ?thesis by (simp add: refl)
  next
    case (Routed x)
    then show ?thesis
      by (cases x) (simp_all add: of_room_snd refl slot leave loadout skill respawn ping
          calm [OF calm_settings(1)] calm [OF calm_settings(2)] calm [OF calm_settings(4)] kick_call_good [OF inv]
          moves [OF passHost_moves] moves [OF requestStart_moves] calm [OF calm_spectating])
  qed
qed

lemma onJson_ok:
  assumes m: "server_ok m"
  shows "server_ok (onJson e k c msg rid m)"
proof (cases "js_get (mg_rooms m) k")
  case None
  then show ?thesis using m by (simp add: onJson_def)
next
  case (Some r)
  obtain err r1 effects gone where h: "handle_message e c msg r = (err, r1, effects, gone)" by (metis prod_cases4)
  have g1: "good_step r r1" using handle_good [OF room_of [OF m Some], of e c msg] by (simp add: h)
  define r2 where "r2 = (case err of None \<Rightarrow> r1 | Some code \<Rightarrow> sendError c rid code r1)"
  have "good_step r r2" using g1 good_calm [OF g1 calm_error] by (simp add: r2_def split: option.split)
  moreover have "server_ok (m\<lparr>mg_out := out\<rparr>)" "js_get (mg_rooms (m\<lparr>mg_out := out\<rparr>)) k = Some r" for out
    using m Some by simp_all
  ultimately have "server_ok (put_room k r2 (m\<lparr>mg_out := out\<rparr>))" "server_ok (drop_room k (m\<lparr>mg_out := out\<rparr>))" for out
    using server_ok_put server_ok_drop by blast+
  with m show ?thesis by (simp add: onJson_def Some h Let_def r2_def [symmetric])
qed

section \<open>The machine\<close>

lemma server_step_ok: "server_ok m \<Longrightarrow> call_ok x \<Longrightarrow> server_ok (server_step x m)"
proof -
  assume m: "server_ok m" and c: "call_ok x"
  obtain e call where x: "x = (e, call)" by (cases x)
  show "server_ok (server_step x m)"
  proof (cases call)
    case (MgAdopt p staged)
    with c adoptRoom_ok [OF m] show ?thesis by (simp add: x call_ok_def)
  next
    case (MgCommit k)
    have "server_ok (commitAdoptedRoom (me_room e) r m)" if r: "js_get (mg_staged m) k = Some r" for r
    proof (rule commit_ok [OF m])
      have k: "op_id (rm_options r) = k" "room_inv r" using m r rooms_okD unfolding server_ok_def by blast+
      then show "room_inv r" by blast
      show "js_get (mg_rooms m) (op_id (rm_options r)) = None"
        using m r k by (cases "js_get (mg_rooms m) k") (auto simp: server_ok_def)
      show "js_get (mg_staged m) (op_id (rm_options r)) = None \<longrightarrow> \<not> server_full m" using r k by simp
    qed
    with m MgCommit show ?thesis by (simp add: x split: option.split)
  next
    case (MgDiscard k)
    have "server_ok (discardStagedRoom k m)"
      using m size_delete_le [of k "mg_staged m"]
      by (fastforce simp: server_ok_def discardStagedRoom_def rooms_ok_delete mg_size_def)
    with MgDiscard show ?thesis by (simp add: x)
  next
    case (MgConnect k c')
    with m connection_ok(1) [OF m] show ?thesis by (simp add: x split: option.split)
  next
    case (MgRoom k call')
    with m show ?thesis by (auto simp: x intro: server_ok_put [OF m] room_step_good room_of [OF m] split: option.split)
  qed (simp_all add: x createRoom_ok [OF m] server_sweep_ok [OF m] command_ok [OF m] connection_ok(2-) [OF m] onJson_ok [OF m])
qed

definition guarded :: "('c \<Rightarrow> bool) \<Rightarrow> ('c \<Rightarrow> 's \<Rightarrow> 's) \<Rightarrow> 'c \<Rightarrow> 's \<Rightarrow> 's" where
  "guarded P step c s = (if P c then step c s else s)"

interpretation rooms: invariant_machine "guarded call_ok server_step" server_ok
  by standard (simp add: guarded_def server_step_ok)

lemma fold_guarded: "list_all P cs \<Longrightarrow> fold (guarded P step) cs s = fold step cs s"
  by (induction cs arbitrary: s) (simp_all add: guarded_def)


text \<open>A server with one room: its owner joins, connects and sends a message, and the clock ticks.\<close>

definition demo_server :: "int \<Rightarrow> manager_env" where
  "demo_server now = \<lparr>me_room = demo_env now, me_skillSink = (\<lambda>_ _ _ _. True), me_emojiSink = (\<lambda>_ _ _. True),
     me_respawnSink = (\<lambda>_ _. True)\<rparr>"

definition demo_manager :: manager_options where
  "demo_manager = \<lparr>mo_timing = DEFAULT_TIMING, mo_maxRooms = Some 1, mo_rules = [], mo_hudGameplay = [], mo_resumes = True\<rparr>"

definition demo_create :: create_room where
  "demo_create = \<lparr>cr_id = ''room'', cr_roomCode = ''1234'', cr_matchId = ''m1'', cr_name = ''lobby'', cr_password = None,
     cr_capacity = 8, cr_mapId = ''city'', cr_ownerReservation = demo_reservation, cr_mode = None\<rparr>"

definition demo_session :: "(manager_env \<times> server_call) list" where
  "demo_session = (let c = \<lparr>gc_id = 1, gc_userId = Account 7, gc_resume = False, gc_playerId = 1\<rparr> in
     [(demo_server 0, MgCreate demo_create), (demo_server 10, MgAdmit demo_reservation), (demo_server 20, MgConnect ''room'' c),
      (demo_server 30, MgCreate (demo_create\<lparr>cr_id := ''other''\<rparr>)),
      (demo_server 40, MgJson ''room'' c (Routed (LobbySetSlot 5)) None), (demo_server 50, MgSweep)])"


end
