(* ===== verification/CommandProps.thy ===== *)
theory CommandProps
  imports CommandConsumer ManagerProps
begin

text \<open>
  Delivered at least once, carried out once. Entries of the stream come in any number and order, calls fail before or after they took
  effect, and between two calls everything but the consumer's own tables changes.
\<close>

section \<open>A consumer and its history\<close>

datatype command_event = EvHandled control_reply | EvReplied control_reply | EvAcked

type_synonym command_log = "(int \<times> string \<times> command_event) list"

text \<open>\<open>xw_busy\<close> is the entry under way, \<open>xw_clock\<close> the latest time that was read, \<open>xw_log\<close> what happened to which request and when.\<close>

record ('d, 'db) command_world =
  xw_consumer :: "'d consumer"
  xw_db :: 'db
  xw_busy :: "(string \<times> control_command \<times> process_pc) option"
  xw_clock :: int
  xw_log :: command_log

definition waits_store :: "process_pc \<Rightarrow> control_reply option" where
  "waits_store pc = (case pc of PrStore r \<Rightarrow> Some r | PrSend r \<Rightarrow> Some r | PrAck r \<Rightarrow> Some r | _ \<Rightarrow> None)"

text \<open>What a step adds to the history: results of handlers, replies that were added to the stream, acknowledgements.\<close>

definition new_events :: "call_end \<Rightarrow> process_pc \<Rightarrow> 'd consumer \<Rightarrow> 'd consumer \<Rightarrow> command_event list" where
  "new_events ends pc s s' =
     (case pc of
        PrSend r \<Rightarrow> if ends = Down then [] else [EvReplied r]
      | PrAck r \<Rightarrow> if ends = Down then [] else [EvAcked]
      | PrStore r \<Rightarrow> []
      | _ \<Rightarrow> concat (map (\<lambda>x. case x of Handled _ r \<Rightarrow> [EvHandled r] | _ \<Rightarrow> []) (drop (length (cn_out s)) (cn_out s'))))"

inductive command_step :: "'db redis \<Rightarrow> 'd consumer_env \<Rightarrow> ('d, 'db) command_world \<Rightarrow> ('d, 'db) command_world \<Rightarrow> bool" for R V where
  deliver: "xw_busy w = None \<Longrightarrow> xw_clock w \<le> now \<Longrightarrow> replyFor now c (xw_consumer w) = (pc, s')
    \<Longrightarrow> command_step R V w (w\<lparr>xw_consumer := s', xw_busy := Some (entry, c, pc), xw_clock := now\<rparr>)"
| call: "xw_busy w = Some (entry, c, pc) \<Longrightarrow> xw_clock w \<le> moment_now t
    \<Longrightarrow> process_step R V t entry c (pc, xw_consumer w, xw_db w) = (pc', s', db')
    \<Longrightarrow> command_step R V w (w\<lparr>xw_consumer := s', xw_db := db', xw_busy := Some (entry, c, pc'), xw_clock := moment_now t,
          xw_log := xw_log w @ map (\<lambda>x. (moment_now t, cm_requestId c, x)) (new_events (mo_ends t) pc (xw_consumer w) s')\<rparr>)"
| over: "xw_busy w = Some (entry, c, pc) \<Longrightarrow> pc = PrDone \<or> pc = PrThrown \<Longrightarrow> command_step R V w (w\<lparr>xw_busy := None\<rparr>)"
| elsewhere: "cn_operations s' = cn_operations (xw_consumer w) \<Longrightarrow> cn_staged s' = cn_staged (xw_consumer w) \<Longrightarrow> xw_clock w \<le> now
    \<Longrightarrow> command_step R V w (w\<lparr>xw_consumer := s', xw_db := db', xw_clock := now\<rparr>)"

definition new_command_world :: "'d consumer \<Rightarrow> 'db \<Rightarrow> ('d, 'db) command_world" where
  "new_command_world s db = \<lparr>xw_consumer = s\<lparr>cn_operations := js_empty, cn_staged := js_empty\<rparr>, xw_db = db, xw_busy = None, xw_clock = 0, xw_log = []\<rparr>"

section \<open>What a call does to the results that are kept\<close>

definition kept_ops :: "'d consumer \<Rightarrow> string \<Rightarrow> cached_reply option" where
  "kept_ops s i = js_get (cn_operations s) i"

definition handlers :: "process_pc \<Rightarrow> bool" where
  "handlers pc \<longleftrightarrow> waits_store pc = None \<and> pc \<noteq> PrDone \<and> pc \<noteq> PrThrown"

lemma ops_emit [simp]: "cn_operations (cn_emit x s) = cn_operations s"
  by (simp add: cn_emit_def)

lemma out_emit: "cn_out (cn_emit x s) = cn_out s @ [x]"
  by (simp add: cn_emit_def)

definition quiet :: "'d consumer \<Rightarrow> 'd consumer \<Rightarrow> bool" where
  "quiet s s' \<longleftrightarrow> cn_operations s' = cn_operations s
     \<and> (\<exists>xs. cn_out s' = cn_out s @ xs \<and> list_all (\<lambda>x. case x of Handled _ _ \<Rightarrow> False | _ \<Rightarrow> True) xs)"

lemma quiet_refl [simp]: "quiet s s"
  by (simp add: quiet_def)

lemma quiet_same: "cn_operations s' = cn_operations s \<Longrightarrow> cn_out s' = cn_out s \<Longrightarrow> quiet s s'"
  by (simp add: quiet_def)

lemma quiet_emit: "quiet s s' \<Longrightarrow> (case x of Handled _ _ \<Rightarrow> False | _ \<Rightarrow> True) \<Longrightarrow> quiet s (cn_emit x s')"
  by (auto simp: quiet_def out_emit)

lemma quiet_rooms [simp]: "quiet s (s\<lparr>cn_rooms := m\<rparr>)" "quiet s (s\<lparr>cn_rooms := m, cn_staged := g\<rparr>)" "quiet s (s\<lparr>cn_staged := g, cn_rooms := m\<rparr>)"
  by (simp_all add: quiet_same)

lemma quiet_issue: "quiet s (snd (issue_seat V t c res extra back s))"
  by (auto simp: issue_seat_def split: prod.splits issue_result.splits intro!: quiet_same)

lemma quiet_trans: "quiet s s' \<Longrightarrow> quiet s' s'' \<Longrightarrow> quiet s s''"
  by (auto simp: quiet_def)

lemma quiet_do [simp]:
  "quiet s (snd (do_createRoom V t c p s))" "quiet s (snd (do_reserveJoin V t c jp s))" "quiet s (snd (do_reserveResume V t c r u s))"
  "quiet s (snd (do_releaseSeat V t c r u s))" "quiet s (snd (do_kickUser V t c r u x s))" "quiet s (snd (do_grantMatch V c r m s))"
  "quiet s (snd (do_drainServer V c i s))"
proof -
  show "quiet s (snd (do_createRoom V t c p s))" "quiet s (snd (do_reserveJoin V t c jp s))" "quiet s (snd (do_reserveResume V t c r u s))"
    unfolding do_createRoom_def do_reserveJoin_def do_reserveResume_def Let_def
    by (auto split: prod.splits sum.splits option.splits intro!: quiet_trans [OF quiet_rooms(1) quiet_issue])
  show "quiet s (snd (do_releaseSeat V t c r u s))" "quiet s (snd (do_kickUser V t c r u x s))" "quiet s (snd (do_grantMatch V c r m s))"
    unfolding do_releaseSeat_def do_kickUser_def do_grantMatch_def Let_def
    by (auto split: prod.splits sum.splits intro!: quiet_same)
  show "quiet s (snd (do_drainServer V c i s))"
    unfolding do_drainServer_def by (auto intro!: quiet_emit)
qed

text \<open>How a call of a handler ends: still waiting, thrown, or with a reply that is kept, computed or read from Redis.\<close>

definition settles :: "control_command \<Rightarrow> process_pc \<Rightarrow> 'd consumer \<Rightarrow> process_pc \<Rightarrow> 'd consumer \<Rightarrow> command_event list \<Rightarrow> bool" where
  "settles c pc s pc' s' evs \<longleftrightarrow>
     (waits_store pc' = None \<and> pc' \<noteq> PrDone \<and> cn_operations s' = cn_operations s \<and> evs = [])
   \<or> (\<exists>r. pc' = PrStore r \<and> cn_operations s' = js_set (cm_requestId c) \<lparr>ca_reply = r, ca_expiresAt = None\<rparr> (cn_operations s) \<and> (evs = [] \<or> evs = [EvHandled r]))"

definition handled_events :: "'d consumer \<Rightarrow> 'd consumer \<Rightarrow> command_event list" where
  "handled_events s s' = concat (map (\<lambda>x. case x of Handled _ r \<Rightarrow> [EvHandled r] | _ \<Rightarrow> []) (drop (length (cn_out s)) (cn_out s')))"

lemma quiet_events: "quiet s s' \<Longrightarrow> handled_events s s' = []"
proof -
  have none: "list_all (\<lambda>x. case x of Handled _ _ \<Rightarrow> False | _ \<Rightarrow> True) xs \<Longrightarrow> concat (map (\<lambda>x. case x of Handled _ r \<Rightarrow> [EvHandled r] | _ \<Rightarrow> []) xs) = []" for xs
    by (induction xs) (auto split: consumer_effect.splits)
  show "quiet s s' \<Longrightarrow> handled_events s s' = []" using none by (auto simp: quiet_def handled_events_def)
qed

lemma settles_finish:
  assumes "quiet s s1" and "finish c (r, s1) = (pc', s')"
  shows "settles c pc s pc' s' (handled_events s s')"
proof -
  have out: "pc' = PrStore r" "cn_operations s' = js_set (cm_requestId c) \<lparr>ca_reply = r, ca_expiresAt = None\<rparr> (cn_operations s1)"
      "cn_out s' = cn_out s1 @ [Handled (cm_requestId c) r]"
    using assms(2) by (auto simp: finish_def keep_reply_def out_emit)
  obtain xs where xs: "cn_out s1 = cn_out s @ xs" "cn_operations s1 = cn_operations s" using assms(1) by (auto simp: quiet_def)
  have "handled_events s s' = handled_events s s1 @ [EvHandled r]" using out(3) xs by (simp add: handled_events_def)
  then show ?thesis using out xs quiet_events [OF assms(1)] by (simp add: settles_def)
qed

lemma settles_quiet: "waits_store pc' = None \<Longrightarrow> pc' \<noteq> PrDone \<Longrightarrow> quiet s s' \<Longrightarrow> settles c pc s pc' s' (handled_events s s')"
  using quiet_events by (auto simp: settles_def quiet_def)

lemma finish_pair: "quiet s (snd x) \<Longrightarrow> finish c x = (pc', s') \<Longrightarrow> settles c pc s pc' s' (handled_events s s')"
  by (cases x) (simp add: settles_finish)

lemma settles_commit: "quiet s s0 \<Longrightarrow> adopt_commit V t c tr p s0 = (pc', s') \<Longrightarrow> settles c pc s pc' s' (handled_events s s')"
proof (cases "js_get (cn_staged s0) (cm_requestId c)")
  case None
  assume "quiet s s0" "adopt_commit V t c tr p s0 = (pc', s')"
  then show ?thesis using None by (auto simp: adopt_commit_def waits_store_def intro: settles_quiet)
next
  case (Some r)
  assume q: "quiet s s0" and "adopt_commit V t c tr p s0 = (pc', s')"
  then have f: "finish c (success_reply V c [], cn_emit RequestPublish (s0\<lparr>cn_rooms := commitAdoptedRoom (mo_room t) r (cn_rooms s0),
      cn_registry := trackAdoptedRoom tr p (cn_registry s0), cn_staged := js_delete (cm_requestId c) (cn_staged s0)\<rparr>)) = (pc', s')"
    using Some by (simp add: adopt_commit_def)
  have "quiet s (cn_emit RequestPublish (s0\<lparr>cn_rooms := commitAdoptedRoom (mo_room t) r (cn_rooms s0),
      cn_registry := trackAdoptedRoom tr p (cn_registry s0), cn_staged := js_delete (cm_requestId c) (cn_staged s0)\<rparr>))"
    by (intro quiet_emit quiet_trans [OF q]) (auto intro!: quiet_same)
  from settles_finish [OF this f] show ?thesis .
qed

lemma settles_adopt: "adopt_begin V t c source transfer p s = (pc', s') \<Longrightarrow> settles c pc s pc' s' (handled_events s s')"
  unfolding adopt_begin_def
  by (auto simp: waits_store_def split: if_splits option.splits prod.splits sum.splits
      intro: settles_finish [OF quiet_refl] settles_finish [OF quiet_rooms(1)] settles_quiet quiet_rooms)

lemma settles_execute: "execute V t c s = (pc', s') \<Longrightarrow> settles c pc s pc' s' (handled_events s s')"
  unfolding execute_def
  by (auto simp: waits_store_def split: if_splits command_body.splits intro: settles_finish [OF quiet_refl] finish_pair [rotated] settles_quiet settles_adopt)

lemma settles_step:
  assumes "handlers pc" and step: "process_step R V t entry c (pc, s, db) = (pc', s', db')"
  shows "settles c pc s pc' s' (handled_events s s')"
proof (cases pc)
  case (PrGet now)
  show ?thesis
  proof (cases "mo_ends t = Works")
    case True
    show ?thesis
    proof (cases "stored_reply V c (rd_get R (k_operation (re_prefix (cv_registry V)) (cm_requestId c)) db)")
      case None
      then show ?thesis
        using step PrGet True by (auto split: prod.splits if_splits intro: settles_finish [OF quiet_refl] settles_execute)
    next
      case (Some r)
      then have "pc' = PrStore r" "s' = s\<lparr>cn_operations := js_set (cm_requestId c) \<lparr>ca_reply = r, ca_expiresAt = None\<rparr> (cn_operations s)\<rparr>"
        using step PrGet True by (auto simp: keep_reply_def)
      then show ?thesis by (simp add: settles_def handled_events_def)
    qed
  next
    case False
    then show ?thesis using step PrGet by (auto simp: waits_store_def intro: settles_quiet)
  qed
next
  case (PrCooldown p)
  then show ?thesis using step by (auto simp: waits_store_def split: if_splits intro: settles_quiet)
next
  case (PrKicked p cooling)
  then show ?thesis
    using step by (auto simp: waits_store_def split: if_splits prod.splits intro: settles_quiet settles_finish [OF quiet_refl] finish_pair [rotated])
next
  case (PrRemove k)
  have "quiet s (cn_emit (LogFailure k) s)" by (simp add: quiet_emit)
  then show ?thesis
    using step PrRemove by (auto split: if_splits prod.splits intro: settles_finish [OF quiet_refl] settles_finish)
next
  case (PrState src tr p)
  then show ?thesis using step by (auto simp: waits_store_def split: if_splits prod.splits intro: settles_quiet settles_commit [OF quiet_refl])
next
  case (PrClaiming src tr p k)
  then show ?thesis
    using step by (auto simp: waits_store_def split: if_splits prod.splits option.splits intro: settles_quiet settles_commit [OF quiet_refl])
next
  case (PrResolve tr p)
  then show ?thesis
    using step by (auto simp: waits_store_def split: if_splits prod.splits
        intro: settles_quiet settles_commit [OF quiet_refl] settles_finish [OF quiet_rooms(3)])
qed (use assms(1) in \<open>simp_all add: handlers_def waits_store_def\<close>)

section \<open>The history\<close>

text \<open>The reply that an event settles for its request.\<close>

fun event_reply :: "command_event \<Rightarrow> control_reply option" where
  "event_reply (EvHandled r) = Some r"
| "event_reply (EvReplied r) = Some r"
| "event_reply EvAcked = None"

text \<open>Carrying a request out again, or answering it differently.\<close>

fun contradicts :: "control_reply \<Rightarrow> command_event \<Rightarrow> bool" where
  "contradicts r (EvHandled r') \<longleftrightarrow> True"
| "contradicts r (EvReplied r') \<longleftrightarrow> r' \<noteq> r"
| "contradicts r EvAcked \<longleftrightarrow> False"

text \<open>An acknowledgement of the request that is a minute old.\<close>

definition acked_before :: "string \<Rightarrow> command_log \<Rightarrow> int \<Rightarrow> bool" where
  "acked_before i ys now \<longleftrightarrow> (\<exists>t. (t, i, EvAcked) \<in> set ys \<and> t + OPERATION_RESULT_TTL_MS \<le> now)"

definition requests_ok :: "command_log \<Rightarrow> bool" where
  "requests_ok L \<longleftrightarrow> (\<forall>xs t1 i ev1 ys t2 ev2 zs r. L = xs @ (t1, i, ev1) # ys @ (t2, i, ev2) # zs \<longrightarrow> event_reply ev1 = Some r
     \<longrightarrow> contradicts r ev2 \<longrightarrow> acked_before i ys t2)"

definition replied_first :: "command_log \<Rightarrow> bool" where
  "replied_first L \<longleftrightarrow> (\<forall>xs t i zs. L = xs @ (t, i, EvAcked) # zs \<longrightarrow> (\<exists>t' r. (t', i, EvReplied r) \<in> set xs))"

definition safe :: "(string, cached_reply) js_map \<Rightarrow> int \<Rightarrow> string \<Rightarrow> control_reply \<Rightarrow> command_log \<Rightarrow> bool" where
  "safe ops now i r ys \<longleftrightarrow> acked_before i ys now
     \<or> (\<exists>k. js_get ops i = Some k \<and> ca_reply k = r \<and> (\<forall>e. ca_expiresAt k = Some e \<longrightarrow> (\<exists>t. (t, i, EvAcked) \<in> set ys \<and> e = t + OPERATION_RESULT_TTL_MS)))"

definition anchors_ok :: "(string, cached_reply) js_map \<Rightarrow> int \<Rightarrow> command_log \<Rightarrow> bool" where
  "anchors_ok ops now L \<longleftrightarrow> (\<forall>xs t i ev ys r. L = xs @ (t, i, ev) # ys \<longrightarrow> event_reply ev = Some r \<longrightarrow> safe ops now i r ys)"

definition busy_ok :: "('d, 'db) command_world \<Rightarrow> bool" where
  "busy_ok w \<longleftrightarrow> (\<forall>entry c pc. xw_busy w = Some (entry, c, pc) \<longrightarrow>
     (handlers pc \<longrightarrow> js_get (cn_operations (xw_consumer w)) (cm_requestId c) = None)
   \<and> (\<forall>r. waits_store pc = Some r \<longrightarrow> js_get (cn_operations (xw_consumer w)) (cm_requestId c) = Some \<lparr>ca_reply = r, ca_expiresAt = None\<rparr>)
   \<and> (\<forall>r. pc = PrAck r \<longrightarrow> (\<exists>t. (t, cm_requestId c, EvReplied r) \<in> set (xw_log w))))"

definition command_inv :: "('d, 'db) command_world \<Rightarrow> bool" where
  "command_inv w \<longleftrightarrow> js_ok (cn_operations (xw_consumer w)) \<and> busy_ok w \<and> anchors_ok (cn_operations (xw_consumer w)) (xw_clock w) (xw_log w)
     \<and> requests_ok (xw_log w) \<and> replied_first (xw_log w)"

lemma snoc_split: "L @ [e] = xs @ a # ys \<longleftrightarrow> ys = [] \<and> L = xs \<and> e = a \<or> (\<exists>zs. ys = zs @ [e] \<and> L = xs @ a # zs)"
  by (cases ys rule: rev_cases) auto

lemma acked_mono: "acked_before i ys now \<Longrightarrow> now \<le> now' \<Longrightarrow> set ys \<subseteq> set ys' \<Longrightarrow> acked_before i ys' now'"
  by (fastforce simp: acked_before_def)

lemma safe_later: "safe ops now i r ys \<Longrightarrow> now \<le> now' \<Longrightarrow> set ys \<subseteq> set ys' \<Longrightarrow> safe ops now' i r ys'"
  using acked_mono unfolding safe_def by blast

lemma anchors_mono:
  "anchors_ok ops now L \<Longrightarrow> (\<And>i r ys. safe ops now i r ys \<Longrightarrow> safe ops' now' i r ys) \<Longrightarrow> anchors_ok ops' now' L"
  unfolding anchors_ok_def by blast

lemma anchors_snoc:
  assumes "anchors_ok ops now L" and "\<And>j r ys. safe ops now j r ys \<Longrightarrow> safe ops' now' j r (ys @ [(t, i, ev)])"
    and "\<And>r. event_reply ev = Some r \<Longrightarrow> safe ops' now' i r []"
  shows "anchors_ok ops' now' (L @ [(t, i, ev)])"
  unfolding anchors_ok_def
proof (intro allI impI)
  fix xs u j ev' ys r
  assume at: "L @ [(t, i, ev)] = xs @ (u, j, ev') # ys" and r: "event_reply ev' = Some r"
  show "safe ops' now' j r ys"
  proof (cases "ys = []")
    case True
    then show ?thesis using at r assms(3) by auto
  next
    case False
    then obtain zs where zs: "ys = zs @ [(t, i, ev)]" "L = xs @ (u, j, ev') # zs" using at unfolding snoc_split by blast
    then show ?thesis using assms(1,2) r unfolding anchors_ok_def by blast
  qed
qed

lemma history_snoc:
  assumes "requests_ok L" and "\<And>xs u ev1 ys r. L = xs @ (u, i, ev1) # ys \<Longrightarrow> event_reply ev1 = Some r \<Longrightarrow> contradicts r ev \<Longrightarrow> acked_before i ys t"
  shows "requests_ok (L @ [(t, i, ev)])"
  unfolding requests_ok_def
proof (intro allI impI)
  fix xs t1 j ev1 ys t2 ev2 zs r
  assume at: "L @ [(t, i, ev)] = xs @ (t1, j, ev1) # ys @ (t2, j, ev2) # zs" and r: "event_reply ev1 = Some r" "contradicts r ev2"
  have "L @ [(t, i, ev)] = (xs @ (t1, j, ev1) # ys) @ (t2, j, ev2) # zs" using at by simp
  then consider "zs = []" "L = xs @ (t1, j, ev1) # ys" "(t, i, ev) = (t2, j, ev2)"
    | vs where "L = (xs @ (t1, j, ev1) # ys) @ (t2, j, ev2) # vs" unfolding snoc_split by blast
  then show "acked_before j ys t2"
  proof cases
    case 1
    then show ?thesis using assms(2) r by simp
  next
    case 2
    then have "L = xs @ (t1, j, ev1) # ys @ (t2, j, ev2) # vs" by simp
    then show ?thesis using assms(1) r unfolding requests_ok_def by blast
  qed
qed

lemma replied_snoc:
  assumes "replied_first L" and "ev = EvAcked \<Longrightarrow> \<exists>t' r. (t', i, EvReplied r) \<in> set L"
  shows "replied_first (L @ [(t, i, ev)])"
  unfolding replied_first_def
proof (intro allI impI)
  fix xs u j zs
  assume "L @ [(t, i, ev)] = xs @ (u, j, EvAcked) # zs"
  then consider "L = xs" "(t, i, ev) = (u, j, EvAcked)" | vs where "L = xs @ (u, j, EvAcked) # vs" unfolding snoc_split by blast
  then show "\<exists>t' r. (t', j, EvReplied r) \<in> set xs"
  proof cases
    case 1
    then show ?thesis using assms(2) by simp
  next
    case 2
    then show ?thesis using assms(1) unfolding replied_first_def by blast
  qed
qed

text \<open>Forgetting what is older than a minute.\<close>

lemma safe_purge:
  assumes "js_ok ops" and "safe ops now i r ys" and "now \<le> now'"
  shows "safe (purge_operations now' ops) now' i r ys"
proof (cases "acked_before i ys now")
  case True
  then show ?thesis using acked_mono [OF True assms(3)] by (simp add: safe_def)
next
  case False
  then obtain k where k: "js_get ops i = Some k" "ca_reply k = r"
      "\<And>e. ca_expiresAt k = Some e \<Longrightarrow> \<exists>t. (t, i, EvAcked) \<in> set ys \<and> e = t + OPERATION_RESULT_TTL_MS"
    using assms(2) unfolding safe_def by blast
  show ?thesis
  proof (cases "\<exists>e. ca_expiresAt k = Some e \<and> e \<le> now'")
    case True
    then show ?thesis using k(3) unfolding safe_def acked_before_def by blast
  next
    case False
    then have "js_get (purge_operations now' ops) i = Some k"
      using k(1) assms(1) by (auto simp: purge_operations_def js_get_delete_where split: option.splits)
    then show ?thesis using k unfolding safe_def by blast
  qed
qed

lemma safe_renew:
  "safe ops now i r ys \<Longrightarrow> js_get ops j = Some k \<Longrightarrow> safe (js_set j (k\<lparr>ca_expiresAt := None\<rparr>) ops) now i r ys"
  by (auto simp: safe_def js_get_set)

lemma safe_new:
  assumes "safe ops now i r ys" and "js_get ops j = None"
  shows "safe (js_set j k ops) now i r ys"
  using assms by (auto simp: safe_def js_get_set)

section \<open>Every step keeps it\<close>

lemma command_invD:
  assumes "command_inv w"
  shows "js_ok (cn_operations (xw_consumer w))" and "anchors_ok (cn_operations (xw_consumer w)) (xw_clock w) (xw_log w)"
    and "requests_ok (xw_log w)" and "replied_first (xw_log w)"
    and "xw_busy w = Some (entry, c, pc) \<Longrightarrow> handlers pc \<Longrightarrow> js_get (cn_operations (xw_consumer w)) (cm_requestId c) = None"
    and "xw_busy w = Some (entry, c, pc) \<Longrightarrow> waits_store pc = Some r
      \<Longrightarrow> js_get (cn_operations (xw_consumer w)) (cm_requestId c) = Some \<lparr>ca_reply = r, ca_expiresAt = None\<rparr>"
    and "xw_busy w = Some (entry, c, PrAck r) \<Longrightarrow> \<exists>t. (t, cm_requestId c, EvReplied r) \<in> set (xw_log w)"
  using assms unfolding command_inv_def busy_ok_def by blast+

lemma command_inv_deliver:
  assumes I: "command_inv w" and clock: "xw_clock w \<le> now" and start: "replyFor now c (xw_consumer w) = (pc, s')"
  shows "command_inv (w\<lparr>xw_consumer := s', xw_busy := Some (entry, c, pc), xw_clock := now\<rparr>)"
proof -
  define ops where "ops = purge_operations now (cn_operations (xw_consumer w))"
  have ok: "js_ok ops" using command_invD(1) [OF I] by (auto simp: ops_def purge_operations_def)
  have anchors: "anchors_ok ops now (xw_log w)"
    using anchors_mono [OF command_invD(2) [OF I]] safe_purge [OF command_invD(1) [OF I] _ clock] unfolding ops_def by blast
  show ?thesis
  proof (cases "js_get ops (cm_requestId c)")
    case None
    then have "pc = PrGet now" "cn_operations s' = ops" using start by (auto simp: replyFor_def Let_def ops_def)
    then show ?thesis
      using I None ok anchors command_invD(3,4) [OF I] by (auto simp: command_inv_def busy_ok_def waits_store_def)
  next
    case (Some k)
    then have s': "pc = PrStore (ca_reply k)" "cn_operations s' = js_set (cm_requestId c) (k\<lparr>ca_expiresAt := None\<rparr>) ops"
      using start by (auto simp: replyFor_def Let_def ops_def)
    have "anchors_ok (cn_operations s') now (xw_log w)"
      unfolding s' by (rule anchors_mono [OF anchors safe_renew [OF _ Some]])
    moreover have eq: "k\<lparr>ca_expiresAt := None\<rparr> = \<lparr>ca_reply = ca_reply k, ca_expiresAt = None\<rparr>" by simp
    ultimately show ?thesis
      using ok command_invD(3,4) [OF I] s' [unfolded eq] by (auto simp: command_inv_def busy_ok_def waits_store_def handlers_def js_get_set)
  qed
qed

text \<open>A handler.\<close>

lemma command_inv_settles:
  assumes I: "command_inv w" and busy: "xw_busy w = Some (entry, c, pc)" and h: "handlers pc" and clock: "xw_clock w \<le> now"
    and set: "settles c pc (xw_consumer w) pc' s' evs"
  shows "command_inv (w\<lparr>xw_consumer := s', xw_db := db', xw_busy := Some (entry, c, pc'), xw_clock := now,
    xw_log := xw_log w @ map (\<lambda>x. (now, cm_requestId c, x)) evs\<rparr>)"
proof -
  define ops where "ops = cn_operations (xw_consumer w)"
  have none: "js_get ops (cm_requestId c) = None" using command_invD(5) [OF I busy h] by (simp add: ops_def)
  have later: "anchors_ok ops now (xw_log w)"
    unfolding ops_def by (rule anchors_mono [OF command_invD(2) [OF I]]) (rule safe_later [OF _ clock subset_refl])
  show ?thesis
  proof (cases "cn_operations s' = ops \<and> waits_store pc' = None")
    case True
    then have "evs = []" "pc' \<noteq> PrDone" using set by (auto simp: settles_def waits_store_def)
    then show ?thesis
      using True later none command_invD(1,3,4) [OF I] by (auto simp: command_inv_def busy_ok_def ops_def waits_store_def)
  next
    case False
    then obtain r where r: "pc' = PrStore r" "cn_operations s' = js_set (cm_requestId c) \<lparr>ca_reply = r, ca_expiresAt = None\<rparr> ops"
        "evs = [] \<or> evs = [EvHandled r]"
      using set by (auto simp: settles_def ops_def)
    have kept: "anchors_ok (cn_operations s') now (xw_log w)" unfolding r(2) by (rule anchors_mono [OF later]) (rule safe_new [OF _ none])
    have new: "safe (cn_operations s') now (cm_requestId c) r []" by (simp add: safe_def r(2) js_get_set)
    have anchors: "anchors_ok (cn_operations s') now (xw_log w @ map (\<lambda>x. (now, cm_requestId c, x)) evs)"
    proof (cases "evs = []")
      case False
      then have "evs = [EvHandled r]" using r(3) by blast
      moreover have "anchors_ok (cn_operations s') now (xw_log w @ [(now, cm_requestId c, EvHandled r)])"
        by (rule anchors_snoc [OF kept]) (use safe_later new in \<open>auto simp: subset_iff\<close>)
      ultimately show ?thesis by simp
    qed (use kept in simp)
    have history: "requests_ok (xw_log w @ map (\<lambda>x. (now, cm_requestId c, x)) evs)"
    proof (cases "evs = []")
      case False
      have "requests_ok (xw_log w @ [(now, cm_requestId c, EvHandled r)])"
      proof (rule history_snoc [OF command_invD(3) [OF I]])
        fix xs u ev1 ys r1
        assume "xw_log w = xs @ (u, cm_requestId c, ev1) # ys" "event_reply ev1 = Some r1"
        then have "safe ops now (cm_requestId c) r1 ys" using later unfolding anchors_ok_def by blast
        then show "acked_before (cm_requestId c) ys now" using none by (simp add: safe_def)
      qed
      then show ?thesis using False r(3) by auto
    qed (use command_invD(3) [OF I] in simp)
    have "replied_first (xw_log w @ [(now, cm_requestId c, EvHandled r)])" by (rule replied_snoc [OF command_invD(4) [OF I]]) simp
    then have "replied_first (xw_log w @ map (\<lambda>x. (now, cm_requestId c, x)) evs)" using r(3) command_invD(4) [OF I] by auto
    then show ?thesis
      using anchors history r(1,2) command_invD(1) [OF I] by (auto simp: command_inv_def busy_ok_def ops_def waits_store_def handlers_def js_get_set)
  qed
qed

text \<open>Keeping, sending and acknowledging.\<close>

lemma command_inv_tail:
  assumes I: "command_inv w" and busy: "xw_busy w = Some (entry, c, pc)" and r: "waits_store pc = Some r" and clock: "xw_clock w \<le> moment_now t"
    and step: "process_step R V t entry c (pc, xw_consumer w, xw_db w) = (pc', s', db')"
  shows "command_inv (w\<lparr>xw_consumer := s', xw_db := db', xw_busy := Some (entry, c, pc'), xw_clock := moment_now t,
    xw_log := xw_log w @ map (\<lambda>x. (moment_now t, cm_requestId c, x)) (new_events (mo_ends t) pc (xw_consumer w) s')\<rparr>)"
proof -
  define ops where "ops = cn_operations (xw_consumer w)"
  define i where "i = cm_requestId c"
  define now where "now = moment_now t"
  have mine: "js_get ops i = Some \<lparr>ca_reply = r, ca_expiresAt = None\<rparr>" using command_invD(6) [OF I busy r] by (simp add: ops_def i_def)
  have later: "anchors_ok ops now (xw_log w)"
    unfolding ops_def now_def by (rule anchors_mono [OF command_invD(2) [OF I]]) (rule safe_later [OF _ clock subset_refl])
  consider (store) "pc = PrStore r" | (send) "pc = PrSend r" | (ack) "pc = PrAck r" using r by (cases pc) (auto simp: waits_store_def)
  then show ?thesis
  proof cases
    case store
    then have "s' = xw_consumer w" "new_events (mo_ends t) pc (xw_consumer w) s' = []" "pc' = PrSend r \<or> pc' = PrThrown"
      using step by (auto simp: new_events_def split: if_splits)
    then show ?thesis
      using later mine command_invD(1,3,4) [OF I] by (auto simp: command_inv_def busy_ok_def ops_def i_def now_def waits_store_def handlers_def)
  next
    case send
    have ops': "cn_operations s' = ops" using step send by (auto simp: ops_def split: if_splits)
    have pc': "pc' = PrAck r \<and> mo_ends t = Works \<or> pc' = PrThrown" using step send by (auto split: if_splits)
    show ?thesis
    proof (cases "mo_ends t = Down")
      case True
      then have "new_events (mo_ends t) pc (xw_consumer w) s' = []" "pc' = PrThrown" using send pc' by (auto simp: new_events_def)
      then show ?thesis
        using later mine ops' command_invD(1,3,4) [OF I] by (auto simp: command_inv_def busy_ok_def ops_def i_def now_def waits_store_def handlers_def)
    next
      case False
      then have evs: "new_events (mo_ends t) pc (xw_consumer w) s' = [EvReplied r]" using send by (simp add: new_events_def)
      have anchors: "anchors_ok ops now (xw_log w @ [(now, i, EvReplied r)])"
      proof (rule anchors_snoc [OF later])
        show "safe ops now j q (ys @ [(now, i, EvReplied r)])" if "safe ops now j q ys" for j q ys
          by (rule safe_later [OF that order_refl]) auto
        show "safe ops now i q []" if "event_reply (EvReplied r) = Some q" for q using mine that by (simp add: safe_def)
      qed
      have history: "requests_ok (xw_log w @ [(now, i, EvReplied r)])"
      proof (rule history_snoc [OF command_invD(3) [OF I]])
        fix xs u ev1 ys r1
        assume "xw_log w = xs @ (u, i, ev1) # ys" "event_reply ev1 = Some r1" and differs: "contradicts r1 (EvReplied r)"
        then have "safe ops now i r1 ys" using later unfolding anchors_ok_def by blast
        then show "acked_before i ys now" using mine differs by (auto simp: safe_def)
      qed
      have "replied_first (xw_log w @ [(now, i, EvReplied r)])" by (rule replied_snoc [OF command_invD(4) [OF I]]) simp
      then show ?thesis
        using anchors history mine ops' evs pc' command_invD(1) [OF I]
        by (auto simp: command_inv_def busy_ok_def ops_def i_def now_def waits_store_def handlers_def)
    qed
  next
    case ack
    have pc': "pc' = PrDone \<or> pc' = PrThrown" using step ack by (auto split: if_splits)
    show ?thesis
    proof (cases "mo_ends t = Down")
      case True
      then have "new_events (mo_ends t) pc (xw_consumer w) s' = []" "s' = xw_consumer w" using step ack by (auto simp: new_events_def)
      then show ?thesis
        using later mine pc' command_invD(1,3,4) [OF I] by (auto simp: command_inv_def busy_ok_def ops_def i_def now_def waits_store_def handlers_def)
    next
      case False
      then have evs: "new_events (mo_ends t) pc (xw_consumer w) s' = [EvAcked]" using ack by (simp add: new_events_def)
      have ops': "cn_operations s' = (if mo_ends t = Works then js_set i \<lparr>ca_reply = r, ca_expiresAt = Some (now + OPERATION_RESULT_TTL_MS)\<rparr> ops else ops)"
        using step ack False mine by (auto simp: ops_def i_def now_def Let_def)
      have anchors: "anchors_ok (cn_operations s') now (xw_log w @ [(now, i, EvAcked)])"
      proof (rule anchors_snoc [OF later])
        fix j q ys
        assume s: "safe ops now j q ys"
        have longer: "safe ops now j q (ys @ [(now, i, EvAcked)])" by (rule safe_later [OF s order_refl]) auto
        show "safe (cn_operations s') now j q (ys @ [(now, i, EvAcked)])"
        proof (cases "j = i \<and> mo_ends t = Works")
          case True
          then show ?thesis using longer mine unfolding ops' by (auto simp: safe_def js_get_set)
        next
          case False
          then show ?thesis using longer unfolding ops' by (auto simp: safe_def js_get_set)
        qed
      qed simp
      have "requests_ok (xw_log w @ [(now, i, EvAcked)])" by (rule history_snoc [OF command_invD(3) [OF I]]) simp
      moreover have "replied_first (xw_log w @ [(now, i, EvAcked)])"
        using replied_snoc [OF command_invD(4) [OF I]] command_invD(7) [OF I busy [unfolded ack]] unfolding i_def by blast
      moreover have "js_ok (cn_operations s')" using command_invD(1) [OF I] unfolding ops' by (simp add: ops_def)
      ultimately show ?thesis
        using anchors evs pc' by (auto simp: command_inv_def busy_ok_def i_def now_def waits_store_def handlers_def)
    qed
  qed
qed

lemma command_inv_step: "command_step R V w w' \<Longrightarrow> command_inv w \<Longrightarrow> command_inv w'"
proof (induction rule: command_step.induct)
  case (deliver w now c pc s' entry)
  then show ?case by (intro command_inv_deliver)
next
  case (call w entry c pc t pc' s' db')
  consider "handlers pc" | r where "waits_store pc = Some r" | "pc = PrDone \<or> pc = PrThrown"
    by (cases "waits_store pc") (auto simp: handlers_def)
  then show ?case
  proof cases
    case 1
    have "new_events (mo_ends t) pc (xw_consumer w) s' = handled_events (xw_consumer w) s'"
      using 1 by (cases pc) (simp_all add: new_events_def handled_events_def handlers_def waits_store_def)
    then show ?thesis
      using command_inv_settles [OF call(4,1) 1 call(2) settles_step [OF 1 call(3)]] by simp
  next
    case 2
    then show ?thesis by (rule command_inv_tail [OF call(4,1) _ call(2,3)])
  next
    case 3
    then have same: "pc' = pc" "s' = xw_consumer w" "new_events (mo_ends t) pc (xw_consumer w) s' = []"
      using call(3) by (auto simp: new_events_def)
    have "anchors_ok (cn_operations (xw_consumer w)) (moment_now t) (xw_log w)"
      by (rule anchors_mono [OF command_invD(2) [OF call(4)]]) (rule safe_later [OF _ call(2) subset_refl])
    then show ?thesis
      using same 3 command_invD(1,3,4) [OF call(4)] by (auto simp: command_inv_def busy_ok_def handlers_def waits_store_def)
  qed
next
  case (over w entry c pc)
  then show ?case by (simp add: command_inv_def busy_ok_def)
next
  case (elsewhere s' w now db')
  have "anchors_ok (cn_operations (xw_consumer w)) now (xw_log w)"
    by (rule anchors_mono [OF command_invD(2) [OF elsewhere(4)]]) (rule safe_later [OF _ elsewhere(3) subset_refl])
  then show ?case using elsewhere(1,4) by (simp add: command_inv_def busy_ok_def)
qed

text \<open>
  C5. A command is carried out once. However often the stream delivers a request, whatever calls fail and whatever else runs in between: once
  a request has been carried out or answered, it is carried out again, or answered differently, only when its entry was acknowledged
  a minute or more before. And no entry is acknowledged before a reply was added to the stream of the asker.
\<close>

theorem command_once:
  assumes "(command_step R V)\<^sup>*\<^sup>* (new_command_world s db) w"
  shows "(xw_log w = xs @ (t1, i, ev1) # ys @ (t2, i, ev2) # zs \<and> event_reply ev1 = Some r \<and> contradicts r ev2
      \<longrightarrow> (\<exists>t. (t, i, EvAcked) \<in> set ys \<and> t + OPERATION_RESULT_TTL_MS \<le> t2))
    \<and> (xw_log w = xs @ (t1, i, EvAcked) # zs \<longrightarrow> (\<exists>t q. (t, i, EvReplied q) \<in> set xs))"
proof -
  have "command_inv w"
    using assms
  proof (induction rule: rtranclp_induct)
    case base
    show ?case
      by (simp add: new_command_world_def command_inv_def busy_ok_def anchors_ok_def requests_ok_def replied_first_def)
  qed (rule command_inv_step)
  then have H: "requests_ok (xw_log w)" and F: "replied_first (xw_log w)" by (simp_all add: command_inv_def)
  show ?thesis
  proof (intro conjI impI)
    assume "xw_log w = xs @ (t1, i, ev1) # ys @ (t2, i, ev2) # zs \<and> event_reply ev1 = Some r \<and> contradicts r ev2"
    then have "acked_before i ys t2" using H unfolding requests_ok_def by blast
    then show "\<exists>t. (t, i, EvAcked) \<in> set ys \<and> t + OPERATION_RESULT_TTL_MS \<le> t2" by (simp add: acked_before_def)
  next
    assume "xw_log w = xs @ (t1, i, EvAcked) # zs"
    then show "\<exists>t q. (t, i, EvReplied q) \<in> set xs" using F unfolding replied_first_def by blast
  qed
qed

section \<open>An instance\<close>

definition demo_consumer_env :: "string consumer_env" where
  "demo_consumer_env = \<lparr>cv_registry = \<lparr>re_prefix = ''dev'', re_serverId = ''g1'', re_parse = (\<lambda>_. None), re_stringify = (\<lambda>_. ''json'')\<rparr>,
     cv_wsPath = ''/ws'', cv_hash = (\<lambda>t. t), cv_casts = \<lparr>pc_stats = (\<lambda>_. None), pc_adopt = (\<lambda>_. undefined)\<rparr>, cv_resolveMapId = (\<lambda>m. m),
     cv_canDrain = True, cv_canDelete = False\<rparr>"

definition demo_consumer :: "string consumer" where
  "demo_consumer = \<lparr>cn_rooms = new_room_manager demo_manager, cn_tickets = new_ticket_store, cn_registry = new_registry, cn_draining = False,
     cn_operations = js_empty, cn_staged = js_empty, cn_out = []\<rparr>"

definition demo_drain :: control_command where
  "demo_drain = \<lparr>cm_requestId = ''q'', cm_type = ''DRAIN_SERVER'', cm_issuedAt = 0, cm_deadlineAt = 9, cm_replyTo = ''answers'',
     cm_payload = [(''serverId'', JString ''g1'')]\<rparr>"

definition demo_moment :: "int \<Rightarrow> moment" where
  "demo_moment now = \<lparr>mo_room = demo_env now, mo_random = [], mo_roomId = ''room'', mo_ends = Works\<rparr>"

definition demo_reply :: control_reply where
  "demo_reply = success_reply demo_consumer_env demo_drain [(''remainingRooms'', nat_json 0)]"

definition demo_drained :: "string consumer" where
  "demo_drained = demo_consumer\<lparr>cn_operations := [(''q'', \<lparr>ca_reply = demo_reply, ca_expiresAt = None\<rparr>)], cn_out := [BeginDrain, Handled ''q'' demo_reply]\<rparr>"

definition demo_run :: "(string, keyspace) command_world" where
  "demo_run = \<lparr>xw_consumer = cn_emit (AddReply ''answers'' demo_reply) demo_drained,
     xw_db = setPx memory_redis (k_operation ''dev'' ''q'') ''json'' OPERATION_RESULT_TTL_MS Map.empty,
     xw_busy = Some (''1-0'', demo_drain, PrAck demo_reply), xw_clock = 3, xw_log = [(1, ''q'', EvHandled demo_reply), (3, ''q'', EvReplied demo_reply)]\<rparr>"

lemma demo_start: "replyFor 0 demo_drain demo_consumer = (PrGet 0, demo_consumer)"
  by (simp add: replyFor_def purge_operations_def js_delete_where_def demo_consumer_def js_empty_def js_get_def Let_def)

lemma demo_handled: "process_step memory_redis demo_consumer_env (demo_moment 1) e demo_drain (PrGet 0, demo_consumer, Map.empty) = (PrStore demo_reply, demo_drained, Map.empty)"
  by (simp add: demo_moment_def stored_reply_def memory_redis_def demo_drain_def demo_consumer_def execute_def read_body_def do_drainServer_def demo_consumer_env_def
      text_at_def js_get_def finish_def keep_reply_def cn_emit_def demo_drained_def demo_reply_def success_reply_def nat_json_def mg_size_def new_room_manager_def
      js_size_def js_empty_def js_set_def Let_def)

lemma demo_reached: "(command_step memory_redis demo_consumer_env)\<^sup>*\<^sup>* (new_command_world demo_consumer Map.empty) demo_run"
proof -
  have now: "moment_now (demo_moment k) = k" "mo_ends (demo_moment k) = Works" for k by (simp_all add: moment_now_def demo_moment_def demo_env_def)
  define w0 where "w0 = (new_command_world demo_consumer Map.empty :: (string, keyspace) command_world)"
  define w1 where "w1 = (\<lparr>xw_consumer = demo_consumer, xw_db = Map.empty, xw_busy = Some (''1-0'', demo_drain, PrGet 0), xw_clock = 0, xw_log = []\<rparr>
    :: (string, keyspace) command_world)"
  define w2 where "w2 = (\<lparr>xw_consumer = demo_drained, xw_db = Map.empty, xw_busy = Some (''1-0'', demo_drain, PrStore demo_reply), xw_clock = 1,
    xw_log = [(1, ''q'', EvHandled demo_reply)]\<rparr> :: (string, keyspace) command_world)"
  define w3 where "w3 = \<lparr>xw_consumer = demo_drained, xw_db = setPx memory_redis (k_operation ''dev'' ''q'') ''json'' OPERATION_RESULT_TTL_MS Map.empty,
    xw_busy = Some (''1-0'', demo_drain, PrSend demo_reply), xw_clock = 2, xw_log = [(1, ''q'', EvHandled demo_reply)]\<rparr>"
  have w0: "xw_busy w0 = None" "xw_clock w0 = 0" "xw_consumer w0 = demo_consumer" "xw_db w0 = Map.empty" "xw_log w0 = []"
    by (simp_all add: w0_def new_command_world_def demo_consumer_def)
  have id: "cm_requestId demo_drain = ''q''" "cm_replyTo demo_drain = ''answers''" by (simp_all add: demo_drain_def)
  have "command_step memory_redis demo_consumer_env w0 w1"
  proof -
    have "w1 = w0\<lparr>xw_consumer := demo_consumer, xw_busy := Some (''1-0'', demo_drain, PrGet 0), xw_clock := 0\<rparr>"
      by (simp add: w1_def w0_def new_command_world_def demo_consumer_def)
    then show ?thesis using command_step.deliver [OF w0(1), of 0 demo_drain] demo_start by (simp add: w0)
  qed
  moreover have "command_step memory_redis demo_consumer_env w1 w2"
  proof -
    have busy: "xw_busy w1 = Some (''1-0'', demo_drain, PrGet 0)" "xw_clock w1 \<le> moment_now (demo_moment 1)" by (simp_all add: w1_def now)
    have "process_step memory_redis demo_consumer_env (demo_moment 1) ''1-0'' demo_drain (PrGet 0, xw_consumer w1, xw_db w1) = (PrStore demo_reply, demo_drained, Map.empty)"
    proof -
      have "xw_consumer w1 = demo_consumer" "xw_db w1 = Map.empty" by (simp_all add: w1_def)
      then show ?thesis by (simp only: demo_handled)
    qed
    from command_step.call [OF busy this] show ?thesis
      by (simp add: w2_def now id w1_def new_events_def demo_drained_def demo_consumer_def)
  qed
  moreover have "command_step memory_redis demo_consumer_env w2 w3"
  proof -
    have busy: "xw_busy w2 = Some (''1-0'', demo_drain, PrStore demo_reply)" "xw_clock w2 \<le> moment_now (demo_moment 2)" by (simp_all add: w2_def now)
    have "process_step memory_redis demo_consumer_env (demo_moment 2) ''1-0'' demo_drain (PrStore demo_reply, xw_consumer w2, xw_db w2)
        = (PrSend demo_reply, demo_drained, setPx memory_redis (k_operation ''dev'' ''q'') ''json'' OPERATION_RESULT_TTL_MS Map.empty)"
      by (simp add: w2_def now id demo_consumer_env_def encodeReply_def)
    from command_step.call [OF busy this] show ?thesis by (simp add: w3_def w2_def now new_events_def)
  qed
  moreover have "command_step memory_redis demo_consumer_env w3 demo_run"
  proof -
    have busy: "xw_busy w3 = Some (''1-0'', demo_drain, PrSend demo_reply)" "xw_clock w3 \<le> moment_now (demo_moment 3)" by (simp_all add: w3_def now)
    have "process_step memory_redis demo_consumer_env (demo_moment 3) ''1-0'' demo_drain (PrSend demo_reply, xw_consumer w3, xw_db w3)
        = (PrAck demo_reply, cn_emit (AddReply ''answers'' demo_reply) demo_drained, setPx memory_redis (k_operation ''dev'' ''q'') ''json'' OPERATION_RESULT_TTL_MS Map.empty)"
      by (simp add: w3_def w2_def now id)
    from command_step.call [OF busy this] show ?thesis by (simp add: demo_run_def w3_def w2_def w1_def w0_def new_command_world_def now id new_events_def)
  qed
  ultimately have "(command_step memory_redis demo_consumer_env)\<^sup>*\<^sup>* w0 demo_run"
    by (meson converse_rtranclp_into_rtranclp rtranclp.rtrancl_refl)
  then show ?thesis by (simp add: w0_def)
qed

text \<open>The acknowledgement of that entry follows its reply.\<close>

theorem command_once_witness:
  "\<exists>w :: (string, keyspace) command_world. xw_log w = [(1, ''q'', EvHandled demo_reply), (3, ''q'', EvReplied demo_reply)] @ (4, ''q'', EvAcked) # []
    \<and> (\<exists>t q. (t, ''q'', EvReplied q) \<in> set [(1 :: int, ''q'', EvHandled demo_reply), (3, ''q'', EvReplied demo_reply)])"
proof -
  have now: "moment_now (demo_moment 4) = 4" "mo_ends (demo_moment 4) = Works" by (simp_all add: moment_now_def demo_moment_def demo_env_def)
  obtain pc s db where step: "process_step memory_redis demo_consumer_env (demo_moment 4) ''1-0'' demo_drain (PrAck demo_reply, xw_consumer demo_run, xw_db demo_run) = (pc, s, db)"
    by (metis prod_cases3)
  have busy: "xw_busy demo_run = Some (''1-0'', demo_drain, PrAck demo_reply)" "xw_clock demo_run \<le> moment_now (demo_moment 4)"
    by (simp_all add: demo_run_def now)
  obtain w where w: "command_step memory_redis demo_consumer_env demo_run w"
      "xw_log w = [(1, ''q'', EvHandled demo_reply), (3, ''q'', EvReplied demo_reply)] @ (4, ''q'', EvAcked) # []"
    using command_step.call [OF busy step] by (auto simp: demo_run_def now new_events_def demo_drain_def)
  have "(command_step memory_redis demo_consumer_env)\<^sup>*\<^sup>* (new_command_world demo_consumer Map.empty) w"
    by (rule rtranclp.rtrancl_into_rtrancl [OF demo_reached w(1)])
  from conjunct2 [OF command_once [OF this, where xs = "[(1, ''q'', EvHandled demo_reply), (3, ''q'', EvReplied demo_reply)]" and zs = "[]"]] w(2)
  have "\<exists>t q. (t, ''q'', EvReplied q) \<in> set [(1 :: int, ''q'', EvHandled demo_reply), (3, ''q'', EvReplied demo_reply)]" by blast
  with w(2) show ?thesis by blast
qed

end
