(* ===== verification/Interpolation.thy ===== *)
theory Interpolation
  imports JsMap
begin

text \<open>
  How the web client turns snapshots into smooth motion: \<open>client/src/game/internal/entityInterpolation.ts\<close> with the small
  timing helpers beside it (\<open>frameDelta.ts\<close>, \<open>frameRateLimit.ts\<close>, \<open>cameraSmoothing.ts\<close>, \<open>SnapshotEmojiTracker.ts\<close>) and the delays of
  \<open>client/src/game/reconnectPolicy.ts\<close>. Ticks of snapshots are integers; positions, rendered ticks and milliseconds are reals.
\<close>

section \<open>Buffers\<close>

record entity_position =
  ep_id :: int
  ep_x :: real
  ep_y :: real

record position_sample =
  sm_tick :: int
  sm_x :: real
  sm_y :: real

type_synonym position_buffers = "(int, position_sample list) js_map"

definition ENTITY_INTERPOLATION_DELAY_MS :: real where "ENTITY_INTERPOLATION_DELAY_MS = 1000 / 30"
definition MAX_SAMPLES_PER_ENTITY :: nat where "MAX_SAMPLES_PER_ENTITY = 8"
definition RENDER_TICK_MAX_DELTA_MS :: real where "RENDER_TICK_MAX_DELTA_MS = 100"
definition RENDER_TICK_CONVERGENCE_PER_SECOND :: real where "RENDER_TICK_CONVERGENCE_PER_SECOND = 1"
definition RENDER_TICK_MAX_RATE_ADJUSTMENT :: real where "RENDER_TICK_MAX_RATE_ADJUSTMENT = 5 / 100"
definition RENDER_TICK_HARD_RESET_MS :: real where "RENDER_TICK_HARD_RESET_MS = 500"

definition distanceSquared :: "position_sample \<Rightarrow> position_sample \<Rightarrow> real" where
  "distanceSquared a b = (let dx = sm_x b - sm_x a; dy = sm_y b - sm_y a in dx * dx + dy * dy)"

text \<open>\<open>slice(-n)\<close>: the last \<open>n\<close> entries.\<close>

definition keep_last :: "nat \<Rightarrow> 'a list \<Rightarrow> 'a list" where
  "keep_last n xs = drop (length xs - n) xs"

text \<open>One position: its new samples, and whether the entity is drawn at once where it is.\<close>

definition next_samples :: "position_buffers \<Rightarrow> int \<Rightarrow> int list \<Rightarrow> real \<Rightarrow> entity_position \<Rightarrow> position_sample list \<times> bool" where
  "next_samples previous tick forceSnapIds maxDistance p =
     (let next = \<lparr>sm_tick = tick, sm_x = ep_x p, sm_y = ep_y p\<rparr>;
          existing = (case js_get previous (ep_id p) of Some ss \<Rightarrow> ss | None \<Rightarrow> [])
      in if existing = [] then ([next], True)
         else let latest = List.last existing in
           if ep_id p \<in> set forceSnapIds \<or> maxDistance * maxDistance \<le> distanceSquared latest next \<or> tick < sm_tick latest then ([next], True)
           else if tick = sm_tick latest then (butlast existing @ [next], False)
           else (keep_last MAX_SAMPLES_PER_ENTITY (existing @ [next]), False))"

definition bufferEntityPositions ::
    "position_buffers \<Rightarrow> int \<Rightarrow> entity_position list \<Rightarrow> int list \<Rightarrow> real \<Rightarrow> position_buffers \<times> int list" where
  "bufferEntityPositions previous tick positions forceSnapIds maxDistance =
     fold (\<lambda>p (buffers, snapped). case next_samples previous tick forceSnapIds maxDistance p of
         (ss, snap) \<Rightarrow> (js_set (ep_id p) ss buffers, if snap then List.insert (ep_id p) snapped else snapped))
       positions (js_empty, [])"

section \<open>Drawing between samples\<close>

text \<open>The loop over the samples: the first that is not before the rendered tick, and the one in front of it.\<close>

fun interpolate_from :: "position_sample \<Rightarrow> position_sample list \<Rightarrow> real \<Rightarrow> real \<times> real" where
  "interpolate_from from [] t = (sm_x from, sm_y from)"
| "interpolate_from from (to # rest) t =
     (if of_int (sm_tick to) < t then interpolate_from to rest t
      else let span = sm_tick to - sm_tick from in
        if span \<le> 0 then (sm_x to, sm_y to)
        else let alpha = (t - of_int (sm_tick from)) / of_int span
          in (sm_x from + (sm_x to - sm_x from) * alpha, sm_y from + (sm_y to - sm_y from) * alpha))"

definition interpolateEntityPosition :: "position_sample list \<Rightarrow> real \<Rightarrow> (real \<times> real) option" where
  "interpolateEntityPosition samples t =
     (case samples of
        [] \<Rightarrow> None
      | first # rest \<Rightarrow>
          if rest = [] \<or> t \<le> of_int (sm_tick first) then Some (sm_x first, sm_y first)
          else let final = List.last samples in
            if of_int (sm_tick final) \<le> t then Some (sm_x final, sm_y final) else Some (interpolate_from first rest t))"

text \<open>The clock of the renderer; \<open>None\<close> is the \<open>null\<close> before the first frame.\<close>

definition advanceRenderTick :: "real option \<Rightarrow> real \<Rightarrow> real \<Rightarrow> real \<Rightarrow> real \<Rightarrow> real" where
  "advanceRenderTick renderTick latestSnapshotTick deltaMs simulationHz delayMs =
     (let targetTick = latestSnapshotTick - (delayMs / 1000) * simulationHz in
      case renderTick of None \<Rightarrow> targetTick | Some tick \<Rightarrow>
        let maxResetErrorTicks = (RENDER_TICK_HARD_RESET_MS / 1000) * simulationHz in
        if maxResetErrorTicks < \<bar>targetTick - tick\<bar> then targetTick
        else let elapsedSeconds = min (max 0 deltaMs) RENDER_TICK_MAX_DELTA_MS / 1000;
                 normalAdvance = elapsedSeconds * simulationHz;
                 uncorrectedTick = tick + normalAdvance;
                 correction = max (- normalAdvance * RENDER_TICK_MAX_RATE_ADJUSTMENT)
                   (min (normalAdvance * RENDER_TICK_MAX_RATE_ADJUSTMENT)
                      ((targetTick - uncorrectedTick) * RENDER_TICK_CONVERGENCE_PER_SECOND * elapsedSeconds))
             in uncorrectedTick + correction)"

section \<open>Frames and the camera\<close>

definition MAX_FRAME_DELTA_MS :: real where "MAX_FRAME_DELTA_MS = 50"

fun boundFrameDelta :: "js_number \<Rightarrow> real" where
  "boundFrameDelta (Fin d) = (if d \<le> 0 then 0 else min d MAX_FRAME_DELTA_MS)"
| "boundFrameDelta _ = 0"

fun cameraFollowLerp :: "js_number \<Rightarrow> js_number \<Rightarrow> real" where
  "cameraFollowLerp (Fin d) h =
     (if d \<le> 0 then 0
      else case h of
          Fin halfLife \<Rightarrow> if halfLife \<le> 0 then 1 else 1 - (1 / 2) powr (min d 100 / halfLife)
        | _ \<Rightarrow> 1)"
| "cameraFollowLerp _ h = 0"

definition phaserFpsLimit :: "real \<Rightarrow> real" where
  "phaserFpsLimit frameRate = (if 0 < frameRate \<and> frameRate < 60 then frameRate else 0)"

text \<open>The emoji that each player shows; 0 and \<open>undefined\<close> are both no emoji.\<close>

definition emoji_update :: "int \<Rightarrow> int option \<Rightarrow> (int, int) js_map \<Rightarrow> bool \<times> (int, int) js_map" where
  "emoji_update playerId emojiId active =
     (let previous = js_get active playerId in
      case emojiId of
        None \<Rightarrow> (False, js_delete playerId active)
      | Some e \<Rightarrow> if e = 0 then (False, js_delete playerId active)
          else (previous \<noteq> Some e, js_set playerId e active))"

definition emoji_delete :: "int \<Rightarrow> (int, int) js_map \<Rightarrow> (int, int) js_map" where
  "emoji_delete playerId active = js_delete playerId active"

section \<open>Waiting before a reconnection\<close>

definition RECONNECT_INITIAL_DELAY_MS :: int where "RECONNECT_INITIAL_DELAY_MS = 250"
definition RECONNECT_MAX_DELAY_MS :: int where "RECONNECT_MAX_DELAY_MS = 2000"
definition RECONNECT_MAX_ELAPSED_MS :: int where "RECONNECT_MAX_ELAPSED_MS = 9000"

definition reconnectDelayMs :: "nat \<Rightarrow> int \<Rightarrow> int option" where
  "reconnectDelayMs attempt elapsedMs =
     (let remaining = RECONNECT_MAX_ELAPSED_MS - elapsedMs in
      if remaining \<le> 0 then None
      else Some (min (min RECONNECT_MAX_DELAY_MS (RECONNECT_INITIAL_DELAY_MS * 2 ^ attempt)) remaining))"

section \<open>Facts\<close>

text \<open>A buffer that can be drawn: not empty, not long, ticks ascending.\<close>

definition good_samples :: "position_sample list \<Rightarrow> bool" where
  "good_samples ss \<longleftrightarrow> ss \<noteq> [] \<and> length ss \<le> MAX_SAMPLES_PER_ENTITY \<and> sorted_wrt (<) (map sm_tick ss)"

definition good_buffers :: "position_buffers \<Rightarrow> bool" where
  "good_buffers m \<longleftrightarrow> (\<forall>k ss. js_get m k = Some ss \<longrightarrow> good_samples ss)"

lemma keep_last_length: "length (keep_last n xs) = min n (length xs)"
  by (simp add: keep_last_def)

lemma sorted_wrt_snoc: "xs \<noteq> [] \<Longrightarrow> sorted_wrt (<) (xs @ [x :: int]) \<longleftrightarrow> sorted_wrt (<) xs \<and> List.last xs < x"
  by (induction xs rule: rev_induct) (auto simp: sorted_wrt_append)

lemma good_samplesI: "ss \<noteq> [] \<Longrightarrow> length ss \<le> 8 \<Longrightarrow> sorted_wrt (<) (map sm_tick ss) \<Longrightarrow> good_samples ss"
  by (simp add: good_samples_def MAX_SAMPLES_PER_ENTITY_def)

lemma good_next_samples:
  assumes "good_buffers previous"
  shows "good_samples (fst (next_samples previous tick force d p))"
proof (cases "js_get previous (ep_id p)")
  case None
  then show ?thesis by (simp add: next_samples_def good_samples_def MAX_SAMPLES_PER_ENTITY_def)
next
  case (Some existing)
  then have g: "existing \<noteq> []" "length existing \<le> 8" "sorted_wrt (<) (map sm_tick existing)"
    using assms by (auto simp: good_buffers_def good_samples_def MAX_SAMPLES_PER_ENTITY_def)
  define sample where "sample = \<lparr>sm_tick = tick, sm_x = ep_x p, sm_y = ep_y p\<rparr>"
  have split: "existing = butlast existing @ [List.last existing]" using g(1) by simp
  have map_last: "List.last (map sm_tick existing) = sm_tick (List.last existing)" using g(1) by (simp add: last_map)
  have same: "good_samples (butlast existing @ [sample])" if "tick = sm_tick (List.last existing)"
  proof (rule good_samplesI)
    have "map sm_tick (butlast existing @ [sample]) = map sm_tick existing"
      using arg_cong [OF split, of "map sm_tick"] that by (simp add: sample_def)
    then show "sorted_wrt (<) (map sm_tick (butlast existing @ [sample]))" using g(3) by simp
  qed (use g in auto)
  have later: "good_samples (keep_last MAX_SAMPLES_PER_ENTITY (existing @ [sample]))" if "sm_tick (List.last existing) < tick"
  proof (rule good_samplesI)
    show "keep_last MAX_SAMPLES_PER_ENTITY (existing @ [sample]) \<noteq> []" "length (keep_last MAX_SAMPLES_PER_ENTITY (existing @ [sample])) \<le> 8"
      by (auto simp: keep_last_def MAX_SAMPLES_PER_ENTITY_def)
    have "sorted_wrt (<) (map sm_tick (existing @ [sample]))"
      using sorted_wrt_snoc [of "map sm_tick existing" tick] g that by (simp add: sample_def map_last)
    then show "sorted_wrt (<) (map sm_tick (keep_last MAX_SAMPLES_PER_ENTITY (existing @ [sample])))"
      by (simp only: keep_last_def drop_map [symmetric] sorted_wrt_drop)
  qed
  have one: "good_samples [sample]" by (simp add: good_samples_def MAX_SAMPLES_PER_ENTITY_def)
  show ?thesis
    using Some g(1) same later one by (auto simp: next_samples_def Let_def sample_def [symmetric])
qed

text \<open>
  Buffers stay drawable. Whatever ticks and positions arrive, every buffer has one to eight samples with ascending ticks, and
  there is a buffer for exactly the entities of the latest frame.
\<close>

theorem buffers_stay_good:
  assumes "good_buffers previous"
  shows "good_buffers (fst (bufferEntityPositions previous tick positions force d))
    \<and> (\<forall>k. js_get (fst (bufferEntityPositions previous tick positions force d)) k \<noteq> None \<longleftrightarrow> k \<in> ep_id ` set positions)"
proof -
  define add where "add = (\<lambda>p (buffers, snapped). case next_samples previous tick force d p of
      (ss, snap) \<Rightarrow> (js_set (ep_id p) ss buffers, if snap then List.insert (ep_id p) snapped else snapped))"
  have "good_buffers (fst (fold add positions s)) \<and> (\<forall>k. js_get (fst (fold add positions s)) k \<noteq> None \<longleftrightarrow> js_get (fst s) k \<noteq> None \<or> k \<in> ep_id ` set positions)"
    if "good_buffers (fst s)" for s
    using that
  proof (induction positions arbitrary: s)
    case (Cons p ps)
    have step: "fst (add p s) = js_set (ep_id p) (fst (next_samples previous tick force d p)) (fst s)" by (simp add: add_def case_prod_beta)
    have "good_buffers (fst (add p s))"
      using Cons.prems good_next_samples [OF assms] by (auto simp: step good_buffers_def js_get_set)
    from Cons.IH [OF this] show ?case by (auto simp: step js_get_set)
  qed simp
  from this [of "(js_empty, [])"] show ?thesis by (simp add: bufferEntityPositions_def add_def good_buffers_def)
qed

theorem buffers_stay_good_witness:
  "good_buffers (fst (bufferEntityPositions [(1, [\<lparr>sm_tick = 4, sm_x = 0, sm_y = 0\<rparr>])] 6 [\<lparr>ep_id = 1, ep_x = 3, ep_y = 4\<rparr>] [] 100))"
proof -
  have "good_buffers [(1, [\<lparr>sm_tick = 4, sm_x = 0, sm_y = 0\<rparr>])]"
    by (simp add: good_buffers_def js_get_def good_samples_def MAX_SAMPLES_PER_ENTITY_def)
  from buffers_stay_good [OF this] show ?thesis by (rule conjunct1)
qed

text \<open>A point of the polyline through the samples, at its time.\<close>

definition on_track :: "position_sample \<Rightarrow> position_sample \<Rightarrow> real \<Rightarrow> real \<times> real \<Rightarrow> bool" where
  "on_track from to k xy \<longleftrightarrow> 0 \<le> k \<and> k \<le> 1
     \<and> xy = (sm_x from + (sm_x to - sm_x from) * k, sm_y from + (sm_y to - sm_y from) * k)"

lemma interpolate_from_track:
  assumes "sorted_wrt (<) (map sm_tick (from # rest))" and "of_int (sm_tick from) \<le> t" and "t \<le> of_int (sm_tick (List.last (from # rest)))" and "rest \<noteq> []"
  shows "\<exists>i k. Suc i < length (from # rest) \<and> on_track ((from # rest) ! i) ((from # rest) ! Suc i) k (interpolate_from from rest t)
    \<and> t = of_int (sm_tick ((from # rest) ! i)) + of_int (sm_tick ((from # rest) ! Suc i) - sm_tick ((from # rest) ! i)) * k"
  using assms
proof (induction rest arbitrary: "from")
  case (Cons to rest)
  show ?case
  proof (cases "of_int (sm_tick to) < t")
    case True
    then have more: "rest \<noteq> []" using Cons.prems(3) by auto
    have "\<exists>i k. Suc i < length (to # rest) \<and> on_track ((to # rest) ! i) ((to # rest) ! Suc i) k (interpolate_from to rest t)
        \<and> t = of_int (sm_tick ((to # rest) ! i)) + of_int (sm_tick ((to # rest) ! Suc i) - sm_tick ((to # rest) ! i)) * k"
    proof (rule Cons.IH)
      show "sorted_wrt (<) (map sm_tick (to # rest))" using Cons.prems(1) by simp
      show "t \<le> of_int (sm_tick (List.last (to # rest)))" using Cons.prems(3) by simp
    qed (use True more in simp_all)
    then obtain i k where at: "Suc i < length (to # rest)" "on_track ((to # rest) ! i) ((to # rest) ! Suc i) k (interpolate_from to rest t)"
        "t = of_int (sm_tick ((to # rest) ! i)) + of_int (sm_tick ((to # rest) ! Suc i) - sm_tick ((to # rest) ! i)) * k"
      by blast
    have same: "interpolate_from from (to # rest) t = interpolate_from to rest t" using True by simp
    have "Suc (Suc i) < length (from # to # rest)" using at(1) by simp
    moreover have "on_track ((from # to # rest) ! Suc i) ((from # to # rest) ! Suc (Suc i)) k (interpolate_from from (to # rest) t)"
      using at(2) by (simp only: same nth_Cons_Suc)
    moreover have "t = of_int (sm_tick ((from # to # rest) ! Suc i))
        + of_int (sm_tick ((from # to # rest) ! Suc (Suc i)) - sm_tick ((from # to # rest) ! Suc i)) * k"
      using at(3) by (simp only: nth_Cons_Suc)
    ultimately show ?thesis by blast
  next
    case False
    have span: "sm_tick from < sm_tick to" using Cons.prems(1) by simp
    define k where "k = (t - of_int (sm_tick from)) / of_int (sm_tick to - sm_tick from)"
    have d: "(0 :: real) < of_int (sm_tick to - sm_tick from)" using span by simp
    have "0 \<le> k" using Cons.prems(2) d by (simp add: k_def)
    moreover have "k \<le> 1" using False d by (simp add: k_def divide_le_eq_1)
    moreover have "interpolate_from from (to # rest) t = (sm_x from + (sm_x to - sm_x from) * k, sm_y from + (sm_y to - sm_y from) * k)"
      using False span by (simp add: k_def Let_def)
    ultimately have "on_track ((from # to # rest) ! 0) ((from # to # rest) ! Suc 0) k (interpolate_from from (to # rest) t)"
      unfolding on_track_def nth_Cons_Suc nth_Cons_0 by blast
    moreover have "t = of_int (sm_tick ((from # to # rest) ! 0)) + of_int (sm_tick ((from # to # rest) ! Suc 0) - sm_tick ((from # to # rest) ! 0)) * k"
      unfolding nth_Cons_Suc nth_Cons_0 k_def using d by simp
    moreover have "Suc 0 < length (from # to # rest)" by simp
    ultimately show ?thesis by blast
  qed
qed simp

text \<open>
  C38. Drawn on the track. Between the first and the last sample an entity is drawn on the straight line between two consecutive samples, at
  the point that belongs to the rendered tick; before the first and after the last sample it stands still there. So it is never drawn
  anywhere the server did not lead it past.
\<close>

theorem drawn_on_track:
  assumes "good_samples ss"
  shows "(t \<le> of_int (sm_tick (hd ss)) \<longrightarrow> interpolateEntityPosition ss t = Some (sm_x (hd ss), sm_y (hd ss)))
    \<and> (of_int (sm_tick (List.last ss)) \<le> t \<longrightarrow> interpolateEntityPosition ss t = Some (sm_x (List.last ss), sm_y (List.last ss)))
    \<and> (of_int (sm_tick (hd ss)) < t \<and> t < of_int (sm_tick (List.last ss)) \<longrightarrow>
        (\<exists>i k xy. Suc i < length ss \<and> interpolateEntityPosition ss t = Some xy \<and> on_track (ss ! i) (ss ! Suc i) k xy
           \<and> t = of_int (sm_tick (ss ! i)) + of_int (sm_tick (ss ! Suc i) - sm_tick (ss ! i)) * k))"
proof -
  obtain first rest where ss: "ss = first # rest" using assms by (cases ss) (auto simp: good_samples_def)
  have sorted: "sorted_wrt (<) (map sm_tick (first # rest))" using assms by (simp add: good_samples_def ss)
  show ?thesis
  proof (cases "rest = []")
    case True
    then show ?thesis by (simp add: ss interpolateEntityPosition_def)
  next
    case False
    have "List.last rest \<in> set rest" using False by simp
    then have between: "sm_tick first < sm_tick (List.last rest)" using sorted by auto
    have "interpolateEntityPosition ss t = Some (interpolate_from first rest t)" "of_int (sm_tick first) \<le> t" "t \<le> of_int (sm_tick (List.last ss))"
      if "of_int (sm_tick (hd ss)) < t \<and> t < of_int (sm_tick (List.last ss))"
      using that False by (simp_all add: ss interpolateEntityPosition_def)
    then have mid: "\<exists>i k xy. Suc i < length ss \<and> interpolateEntityPosition ss t = Some xy \<and> on_track (ss ! i) (ss ! Suc i) k xy
        \<and> t = of_int (sm_tick (ss ! i)) + of_int (sm_tick (ss ! Suc i) - sm_tick (ss ! i)) * k"
      if "of_int (sm_tick (hd ss)) < t \<and> t < of_int (sm_tick (List.last ss))"
      using interpolate_from_track [OF sorted _ _ False, of t] that unfolding ss by metis
    have "t \<le> of_int (sm_tick (hd ss)) \<longrightarrow> interpolateEntityPosition ss t = Some (sm_x (hd ss), sm_y (hd ss))"
      by (simp add: interpolateEntityPosition_def ss)
    moreover have "of_int (sm_tick (List.last ss)) \<le> t \<longrightarrow> interpolateEntityPosition ss t = Some (sm_x (List.last ss), sm_y (List.last ss))"
      using between False by (auto simp: interpolateEntityPosition_def ss Let_def)
    ultimately show ?thesis using mid by blast
  qed
qed

theorem drawn_on_track_witness:
  "interpolateEntityPosition [\<lparr>sm_tick = 2, sm_x = 0, sm_y = 0\<rparr>, \<lparr>sm_tick = 4, sm_x = 10, sm_y = 0\<rparr>] 5 = Some (10, 0)"
  using drawn_on_track [of "[\<lparr>sm_tick = 2, sm_x = 0, sm_y = 0\<rparr>, \<lparr>sm_tick = 4, sm_x = 10, sm_y = 0\<rparr>]" 5]
  by (simp add: good_samples_def MAX_SAMPLES_PER_ENTITY_def)

text \<open>
  The rendered clock runs within five percent of real time, never backwards, and its correction never overshoots: unless it is
  reset because it is half a second off, one frame moves it by 0.95 to 1.05 of the elapsed ticks and leaves it no further from its target
  than no correction would.
\<close>

theorem render_clock_smooth:
  assumes "0 \<le> hz" and "\<bar>latest - (delay / 1000) * hz - tick\<bar> \<le> hz / 2"
  shows "let target = latest - (delay / 1000) * hz; advance = min (max 0 deltaMs) 100 / 1000 * hz; tick' = advanceRenderTick (Some tick) latest deltaMs hz delay
    in 95 / 100 * advance \<le> tick' - tick \<and> tick' - tick \<le> 105 / 100 * advance \<and> tick \<le> tick' \<and> \<bar>target - tick'\<bar> \<le> \<bar>target - (tick + advance)\<bar>"
proof -
  define target where "target = latest - (delay / 1000) * hz"
  define e where "e = min (max 0 deltaMs) 100 / 1000"
  define adv where "adv = e * hz"
  define c where "c = max (- adv * (5 / 100)) (min (adv * (5 / 100)) ((target - (tick + adv)) * e))"
  have e: "0 \<le> e" "e \<le> 1" by (simp_all add: e_def min_def max_def)
  have adv: "0 \<le> adv" using e assms(1) by (simp add: adv_def)
  have tick': "advanceRenderTick (Some tick) latest deltaMs hz delay = tick + adv + c"
    using assms(2) by (simp add: advanceRenderTick_def Let_def target_def e_def adv_def c_def RENDER_TICK_HARD_RESET_MS_def
        RENDER_TICK_MAX_DELTA_MS_def RENDER_TICK_MAX_RATE_ADJUSTMENT_def RENDER_TICK_CONVERGENCE_PER_SECOND_def)
  have bound: "- (5 / 100 * adv) \<le> c" "c \<le> 5 / 100 * adv" using adv by (simp_all add: c_def)
  define err where "err = target - (tick + adv)"
  have "0 \<le> err \<Longrightarrow> 0 \<le> err * e \<and> err * e \<le> err" "err \<le> 0 \<Longrightarrow> err \<le> err * e \<and> err * e \<le> 0"
    using e by (simp_all add: mult_left_le mult_nonpos_nonneg mult_le_cancel_left1)
  moreover have c: "c = max (- (5 / 100 * adv)) (min (5 / 100 * adv) (err * e))" by (simp add: c_def err_def)
  ultimately have "0 \<le> err \<Longrightarrow> 0 \<le> c \<and> c \<le> err" "err \<le> 0 \<Longrightarrow> err \<le> c \<and> c \<le> 0" using adv by (simp_all add: max_def min_def)
  then have "\<bar>err - c\<bar> \<le> \<bar>err\<bar>" by (cases "0 \<le> err") simp_all
  then have "\<bar>target - (tick + adv + c)\<bar> \<le> \<bar>target - (tick + adv)\<bar>" by (simp add: err_def algebra_simps)
  then show ?thesis using bound adv
    unfolding Let_def tick' target_def [symmetric] e_def [symmetric] adv_def [symmetric] by linarith
qed

theorem render_clock_smooth_witness:
  "advanceRenderTick (Some 96) 100 50 60 0 - 96 \<le> 105 / 100 * 3"
  using render_clock_smooth [of 60 100 0 96 50] by (simp add: Let_def)

text \<open>
  Reconnection ends. If every attempt starts no earlier than the wait before it, at most seven waits are granted, none longer than two
  seconds, and none past the nine seconds that the client gives itself.
\<close>

definition waits_granted :: "int list \<Rightarrow> bool" where
  "waits_granted es \<longleftrightarrow> (\<forall>i < length es. \<exists>d. reconnectDelayMs i (es ! i) = Some d \<and> 0 \<le> es ! i \<and> (Suc i < length es \<longrightarrow> es ! i + d \<le> es ! Suc i))"

lemma reconnect_delay_bounds: "reconnectDelayMs n e = Some d \<Longrightarrow> 0 < d \<and> d \<le> 2000 \<and> e + d \<le> 9000"
  by (auto simp: reconnectDelayMs_def RECONNECT_INITIAL_DELAY_MS_def RECONNECT_MAX_DELAY_MS_def RECONNECT_MAX_ELAPSED_MS_def Let_def min_def split: if_splits)

theorem reconnect_ends:
  assumes "waits_granted es"
  shows "length es \<le> 7"
proof (rule ccontr)
  assume "\<not> length es \<le> 7"
  then have len: "8 \<le> length es" by simp
  have step: "es ! i + min (min 2000 (250 * 2 ^ i)) (9000 - es ! i) \<le> es ! Suc i" "es ! i < 9000" "0 \<le> es ! i" if small: "i < 7" for i
  proof -
    obtain d where d: "reconnectDelayMs i (es ! i) = Some d" "0 \<le> es ! i" "es ! i + d \<le> es ! Suc i"
    proof -
      have "i < length es" "Suc i < length es" using small len by simp_all
      then show thesis using assms that unfolding waits_granted_def by blast
    qed
    then show "es ! i + min (min 2000 (250 * 2 ^ i)) (9000 - es ! i) \<le> es ! Suc i" "es ! i < 9000" "0 \<le> es ! i"
      by (auto simp: reconnectDelayMs_def RECONNECT_INITIAL_DELAY_MS_def RECONNECT_MAX_DELAY_MS_def RECONNECT_MAX_ELAPSED_MS_def Let_def split: if_splits)
  qed
  obtain d where "reconnectDelayMs 7 (es ! 7) = Some d" 
  proof -
    have "7 < length es" using len by simp
    then show thesis using assms that unfolding waits_granted_def by blast
  qed
  then have "es ! 7 < 9000" using reconnect_delay_bounds by fastforce
  then show False
    using step [of 0] step [of 1] step [of 2] step [of 3] step [of 4] step [of 5] step [of 6]
    by (simp add: numeral_eq_Suc)
qed

end
