(* ===== verification/Regions.thy ===== *)
theory Regions
  imports Protocol
begin

text \<open>
  \<open>client/src/game/internal/regions.ts\<close>: the tiles of one kind, and the clusters of gas tiles that dissipate together. A cluster is
  found by a flood fill over the eight neighbours of a tile with an explicit stack; the texts \<open>x,y\<close> that key the set of tiles already
  seen are the pairs here. The flood fill terminates because every tile is pushed once, and it finds exactly the connected components.
\<close>

section \<open>Flood fill\<close>

type_synonym cell = "int \<times> int"

definition CLIENT_TILE_SIZE :: real where "CLIENT_TILE_SIZE = 256"

record map_view =
  mv_cols :: int
  mv_rows :: int
  mv_tiles :: "tile option list list"

text \<open>\<open>tiles[y]?.[x]\<close>: a hole of a row is \<open>undefined\<close> like a place outside.\<close>

definition tile_at :: "map_view \<Rightarrow> cell \<Rightarrow> tile option" where
  "tile_at m c = (case c of (x, y) \<Rightarrow>
     if 0 \<le> y \<and> nat y < length (mv_tiles m) \<and> 0 \<le> x \<and> nat x < length (mv_tiles m ! nat y) then mv_tiles m ! nat y ! nat x else None)"

definition grid_cells :: "map_view \<Rightarrow> cell list" where
  "grid_cells m = concat (map (\<lambda>y. map (\<lambda>x. (x, y)) [0..mv_cols m - 1]) [0..mv_rows m - 1])"

definition collectTiles :: "map_view \<Rightarrow> tile \<Rightarrow> cell list" where
  "collectTiles m physics = filter (\<lambda>c. tile_at m c = Some physics) (grid_cells m)"

definition NEIGHBORS_8 :: "cell list" where
  "NEIGHBORS_8 = [(1, 0), (- 1, 0), (0, 1), (0, - 1), (1, 1), (- 1, - 1), (1, - 1), (- 1, 1)]"

definition push_neighbor :: "map_view \<Rightarrow> tile \<Rightarrow> cell \<Rightarrow> cell \<Rightarrow> cell set \<times> cell list \<Rightarrow> cell set \<times> cell list" where
  "push_neighbor m physics c d s = (case s of (seen, stack) \<Rightarrow>
     let n = (fst c + fst d, snd c + snd d)
     in if tile_at m n = Some physics \<and> n \<notin> seen then (insert n seen, n # stack) else (seen, stack))"

definition push_neighbors :: "map_view \<Rightarrow> tile \<Rightarrow> cell \<Rightarrow> cell set \<times> cell list \<Rightarrow> cell set \<times> cell list" where
  "push_neighbors m physics c s = fold (push_neighbor m physics c) NEIGHBORS_8 s"

definition matching :: "map_view \<Rightarrow> tile \<Rightarrow> cell set" where
  "matching m physics = {c. tile_at m c = Some physics}"

lemma finite_matching: "finite (matching m physics)"
proof -
  define w where "w = Max (insert 0 (length ` set (mv_tiles m)))"
  have "matching m physics \<subseteq> {0..int w} \<times> {0..int (length (mv_tiles m))}"
  proof
    fix c
    assume "c \<in> matching m physics"
    then obtain x y where c: "c = (x, y)" "0 \<le> y" "nat y < length (mv_tiles m)" "0 \<le> x" "nat x < length (mv_tiles m ! nat y)"
      by (cases c) (auto simp: matching_def tile_at_def split: if_splits)
    have "length (mv_tiles m ! nat y) \<le> w" unfolding w_def using c(3) by (intro Max_ge) auto
    then show "c \<in> {0..int w} \<times> {0..int (length (mv_tiles m))}" using c by auto
  qed
  then show ?thesis by (rule finite_subset) simp
qed

text \<open>How much is left: the tiles not seen yet and those on the stack. Pushing moves a tile from the first to the second.\<close>

definition flood_size :: "map_view \<Rightarrow> tile \<Rightarrow> cell set \<times> cell list \<Rightarrow> nat" where
  "flood_size m physics s = card (matching m physics - fst s) + length (snd s)"

lemma push_neighbor_size: "flood_size m physics (push_neighbor m physics c d s) = flood_size m physics s"
proof -
  obtain seen stack where s: "s = (seen, stack)" by fastforce
  define n where "n = (fst c + fst d, snd c + snd d)"
  show ?thesis
  proof (cases "tile_at m n = Some physics \<and> n \<notin> seen")
    case True
    then have "n \<in> matching m physics - seen" by (simp add: matching_def)
    moreover have "matching m physics - insert n seen = (matching m physics - seen) - {n}" by blast
    ultimately have "Suc (card (matching m physics - insert n seen)) = card (matching m physics - seen)"
      using finite_matching [of m physics] by (simp only:) (metis card_Suc_Diff1 finite_Diff)
    then show ?thesis using True by (simp add: s push_neighbor_def flood_size_def n_def [symmetric])
  next
    case False
    then show ?thesis by (auto simp: s push_neighbor_def n_def [symmetric])
  qed
qed

lemma push_neighbors_size: "flood_size m physics (push_neighbors m physics c s) = flood_size m physics s"
proof -
  have "flood_size m physics (fold (push_neighbor m physics c) ds s) = flood_size m physics s" for ds
    by (induction ds arbitrary: s) (simp_all add: push_neighbor_size)
  then show ?thesis by (simp add: push_neighbors_def)
qed

function flood :: "map_view \<Rightarrow> tile \<Rightarrow> cell set \<Rightarrow> cell list \<Rightarrow> cell list \<Rightarrow> cell set \<times> cell list" where
  "flood m physics seen [] tiles = (seen, tiles)"
| "flood m physics seen (c # stack) tiles =
     (case push_neighbors m physics c (seen, stack) of (seen', stack') \<Rightarrow> flood m physics seen' stack' (tiles @ [c]))"
  by pat_completeness auto
termination
proof (relation "measure (\<lambda>(m, physics, seen, stack, tiles). flood_size m physics (seen, stack))", goal_cases)
  case (2 m physics seen c stack tiles seen' stack')
  then have "flood_size m physics (seen', stack') = flood_size m physics (seen, stack)" using push_neighbors_size by metis
  then show ?case by (simp add: flood_size_def)
qed simp

record region_info =
  ri_first :: cell
  ri_tiles :: "cell list"
  ri_centerX :: real
  ri_centerY :: real

definition region_of :: "cell \<Rightarrow> cell list \<Rightarrow> region_info" where
  "region_of first tiles =
     (let mx = of_int (sum_list (map fst tiles)) / of_nat (length tiles);
          my = of_int (sum_list (map snd tiles)) / of_nat (length tiles)
      in \<lparr>ri_first = first, ri_tiles = tiles, ri_centerX = (mx + 1 / 2) * CLIENT_TILE_SIZE, ri_centerY = (my + 1 / 2) * CLIENT_TILE_SIZE\<rparr>)"

definition scan_cell :: "map_view \<Rightarrow> tile \<Rightarrow> cell \<Rightarrow> cell set \<times> region_info list \<Rightarrow> cell set \<times> region_info list" where
  "scan_cell m physics c s = (case s of (seen, regions) \<Rightarrow>
     if tile_at m c \<noteq> Some physics \<or> c \<in> seen then (seen, regions)
     else case flood m physics (insert c seen) [c] [] of (seen', tiles) \<Rightarrow> (seen', regions @ [region_of c tiles]))"

definition buildRegions :: "map_view \<Rightarrow> tile \<Rightarrow> region_info list" where
  "buildRegions m physics = snd (fold (scan_cell m physics) (grid_cells m) ({}, []))"

section \<open>Components\<close>

definition linked :: "map_view \<Rightarrow> tile \<Rightarrow> cell \<Rightarrow> cell \<Rightarrow> bool" where
  "linked m physics c d \<longleftrightarrow> c \<in> matching m physics \<and> d \<in> matching m physics \<and> (\<exists>e \<in> set NEIGHBORS_8. d = (fst c + fst e, snd c + snd e))"

definition cluster :: "map_view \<Rightarrow> tile \<Rightarrow> cell \<Rightarrow> cell set" where
  "cluster m physics c = {d. (linked m physics)\<^sup>*\<^sup>* c d}"

definition closed_cells :: "map_view \<Rightarrow> tile \<Rightarrow> cell set \<Rightarrow> bool" where
  "closed_cells m physics S \<longleftrightarrow> (\<forall>c \<in> S. \<forall>d. linked m physics c d \<longrightarrow> d \<in> S)"

lemma linked_sym: "linked m physics c d \<Longrightarrow> linked m physics d c"
proof -
  assume l: "linked m physics c d"
  then obtain e where e: "e \<in> set NEIGHBORS_8" "d = (fst c + fst e, snd c + snd e)" unfolding linked_def by blast
  have "list_all (\<lambda>e. (- fst e, - snd e) \<in> set NEIGHBORS_8) NEIGHBORS_8" by (simp add: NEIGHBORS_8_def)
  then have neg: "(- fst e, - snd e) \<in> set NEIGHBORS_8" using e(1) unfolding list_all_iff by (rule bspec)
  have "c = (fst d + - fst e, snd d + - snd e)" by (simp add: e(2))
  then have "\<exists>e' \<in> set NEIGHBORS_8. c = (fst d + fst e', snd d + snd e')" using neg by (intro bexI [OF _ neg]) simp
  moreover have "c \<in> matching m physics" "d \<in> matching m physics" using l by (simp_all only: linked_def)
  ultimately show ?thesis unfolding linked_def by (intro conjI)
qed

lemma cluster_self: "c \<in> cluster m physics c"
  by (simp add: cluster_def)

lemma cluster_step: "d \<in> cluster m physics c \<Longrightarrow> linked m physics d e \<Longrightarrow> e \<in> cluster m physics c"
  by (simp add: cluster_def rtranclp.rtrancl_into_rtrancl)

lemma closed_cluster: "closed_cells m physics (cluster m physics c)"
  by (simp add: closed_cells_def cluster_step)

lemma closed_Un: "closed_cells m physics A \<Longrightarrow> closed_cells m physics B \<Longrightarrow> closed_cells m physics (A \<union> B)"
  by (auto simp: closed_cells_def)

lemma cluster_matching: "c \<in> matching m physics \<Longrightarrow> cluster m physics c \<subseteq> matching m physics"
  unfolding cluster_def by (auto elim: rtranclp.cases simp: linked_def)

text \<open>What the loop over the neighbours pushes.\<close>

lemma push_neighbors_new:
  assumes "push_neighbors m physics c (seen, stack) = (seen', stack')" and c: "c \<in> matching m physics"
  shows "\<exists>new. stack' = new @ stack \<and> distinct new \<and> set new = seen' - seen \<and> seen' = seen \<union> {d. linked m physics c d}"
proof -
  define cells where "cells = (\<lambda>ds. {d \<in> matching m physics. \<exists>e \<in> set ds. d = (fst c + fst e, snd c + snd e)})"
  have "\<exists>new. snd (fold (push_neighbor m physics c) ds (seen, stack)) = new @ stack \<and> distinct new
      \<and> set new = fst (fold (push_neighbor m physics c) ds (seen, stack)) - seen
      \<and> fst (fold (push_neighbor m physics c) ds (seen, stack)) = seen \<union> cells ds" for ds seen stack
  proof (induction ds arbitrary: seen stack)
    case (Cons e ds)
    define n where "n = (fst c + fst e, snd c + snd e)"
    have cells: "cells (e # ds) = cells ds \<union> (if n \<in> matching m physics then {n} else {})" by (auto simp: cells_def n_def)
    show ?case
    proof (cases "tile_at m n = Some physics \<and> n \<notin> seen")
      case True
      then obtain new where new: "snd (fold (push_neighbor m physics c) ds (insert n seen, n # stack)) = new @ n # stack" "distinct new"
          "set new = fst (fold (push_neighbor m physics c) ds (insert n seen, n # stack)) - insert n seen"
          "fst (fold (push_neighbor m physics c) ds (insert n seen, n # stack)) = insert n seen \<union> cells ds"
        using Cons.IH [of "insert n seen" "n # stack"] by blast
      have go: "fold (push_neighbor m physics c) (e # ds) (seen, stack) = fold (push_neighbor m physics c) ds (insert n seen, n # stack)"
        using True by (simp add: push_neighbor_def n_def [symmetric])
      have nm: "n \<in> matching m physics" "n \<notin> seen" using True by (simp_all add: matching_def)
      then have all: "cells (e # ds) = insert n (cells ds)" by (simp add: cells)
      have "distinct (new @ [n])" using new(2,3) by simp
      moreover have "set (new @ [n]) = insert n seen \<union> cells ds - seen" using new(3,4) nm by auto
      ultimately show ?thesis unfolding go new(1,4) all by (intro exI [of _ "new @ [n]"]) simp
    next
      case False
      then have "fold (push_neighbor m physics c) (e # ds) (seen, stack) = fold (push_neighbor m physics c) ds (seen, stack)"
        by (auto simp: push_neighbor_def n_def [symmetric])
      moreover have "seen \<union> cells (e # ds) = seen \<union> cells ds" using False cells by (auto simp: matching_def)
      ultimately show ?thesis using Cons.IH [of seen stack] by simp
    qed
  qed (simp add: cells_def)
  moreover have "cells NEIGHBORS_8 = {d. linked m physics c d}" using c by (auto simp: cells_def linked_def)
  ultimately show ?thesis using assms(1) by (metis fst_conv push_neighbors_def snd_conv)
qed

text \<open>The flood fill: everything seen is old, popped or on the stack; the neighbours of what is popped are seen.\<close>

definition flood_inv :: "map_view \<Rightarrow> tile \<Rightarrow> cell set \<Rightarrow> cell \<Rightarrow> cell set \<Rightarrow> cell list \<Rightarrow> cell list \<Rightarrow> bool" where
  "flood_inv m physics old start seen stack tiles \<longleftrightarrow>
     seen = old \<union> set tiles \<union> set stack \<and> distinct (tiles @ stack) \<and> (set tiles \<union> set stack) \<inter> old = {}
   \<and> set tiles \<union> set stack \<subseteq> cluster m physics start \<and> start \<in> set tiles \<union> set stack
   \<and> (\<forall>c \<in> set tiles. \<forall>d. linked m physics c d \<longrightarrow> d \<in> seen)"

lemma flood_keeps:
  "flood_inv m physics old start seen stack tiles \<Longrightarrow> start \<in> matching m physics \<Longrightarrow> flood m physics seen stack tiles = (seen', tiles')
     \<Longrightarrow> flood_inv m physics old start seen' [] tiles'"
proof (induction m physics seen stack tiles rule: flood.induct)
  case (2 m physics seen c stack tiles)
  obtain s1 st1 where push: "push_neighbors m physics c (seen, stack) = (s1, st1)" by fastforce
  have inv: "seen = old \<union> set tiles \<union> set (c # stack)" "distinct (tiles @ c # stack)" "(set tiles \<union> set (c # stack)) \<inter> old = {}"
      "set tiles \<union> set (c # stack) \<subseteq> cluster m physics start" "start \<in> set tiles \<union> set (c # stack)"
      "\<forall>c \<in> set tiles. \<forall>d. linked m physics c d \<longrightarrow> d \<in> seen"
    using 2(2) unfolding flood_inv_def by blast+
  have c: "c \<in> cluster m physics start" using inv(4) by simp
  then have "c \<in> matching m physics" using cluster_matching [OF 2(3)] by blast
  from push_neighbors_new [OF push this] obtain new where new: "st1 = new @ stack" "distinct new" "set new = s1 - seen"
      "s1 = seen \<union> {d. linked m physics c d}" by blast
  have "set new \<subseteq> cluster m physics start" using new(3,4) cluster_step [OF c] by blast
  then have "flood_inv m physics old start s1 st1 (tiles @ [c])"
    unfolding flood_inv_def using inv new by auto
  from 2(1) [OF push [symmetric] this 2(3)] 2(4) show ?case by (simp add: push)
qed simp

lemma flood_component:
  assumes closed: "closed_cells m physics old" and start: "start \<in> matching m physics" "start \<notin> old"
    and run: "flood m physics (insert start old) [start] [] = (seen, tiles)"
  shows "set tiles = cluster m physics start \<and> distinct tiles \<and> seen = old \<union> set tiles \<and> set tiles \<inter> old = {}"
proof -
  have begins: "flood_inv m physics old start (insert start old) [start] []" using start cluster_self by (simp add: flood_inv_def)
  have kept: "flood_inv m physics old start seen [] tiles" by (rule flood_keeps [OF begins start(1) run])
  have inv: "seen = old \<union> set tiles" "distinct tiles" "set tiles \<inter> old = {}" "set tiles \<subseteq> cluster m physics start" "start \<in> set tiles"
      "\<forall>c \<in> set tiles. \<forall>d. linked m physics c d \<longrightarrow> d \<in> seen"
    using kept [unfolded flood_inv_def list.set append_Nil2 Un_empty_right] by blast+
  have "d \<in> set tiles" if "(linked m physics)\<^sup>*\<^sup>* start d" for d
    using that
  proof (induction rule: rtranclp_induct)
    case base
    show ?case by (rule inv(5))
  next
    case (step d e)
    then have "e \<in> seen" using inv(6) by blast
    moreover have "e \<notin> old" using closed linked_sym [OF step(2)] step(3) inv(3) unfolding closed_cells_def by blast
    ultimately show ?case using inv(1) by blast
  qed
  then show ?thesis using inv by (auto simp: cluster_def)
qed

definition scan_inv :: "map_view \<Rightarrow> tile \<Rightarrow> cell set \<Rightarrow> region_info list \<Rightarrow> bool" where
  "scan_inv m physics seen regions \<longleftrightarrow>
     closed_cells m physics seen \<and> seen = set (concat (map ri_tiles regions)) \<and> distinct (concat (map ri_tiles regions))
   \<and> list_all (\<lambda>r. ri_first r \<in> matching m physics \<and> set (ri_tiles r) = cluster m physics (ri_first r)) regions"

lemma scan_keeps:
  assumes "scan_inv m physics seen regions" and scan: "scan_cell m physics c (seen, regions) = (seen', regions')"
  shows "scan_inv m physics seen' regions' \<and> seen \<subseteq> seen' \<and> (c \<in> matching m physics \<longrightarrow> c \<in> seen')"
proof (cases "tile_at m c \<noteq> Some physics \<or> c \<in> seen")
  case True
  then show ?thesis using assms by (auto simp: scan_cell_def matching_def)
next
  case False
  obtain s1 tiles where run: "flood m physics (insert c seen) [c] [] = (s1, tiles)" by fastforce
  have c: "c \<in> matching m physics" "c \<notin> seen" using False by (simp_all add: matching_def)
  have inv: "closed_cells m physics seen" "seen = set (concat (map ri_tiles regions))" "distinct (concat (map ri_tiles regions))"
      "list_all (\<lambda>r. ri_first r \<in> matching m physics \<and> set (ri_tiles r) = cluster m physics (ri_first r)) regions"
    using assms(1) unfolding scan_inv_def by blast+
  have comp: "set tiles = cluster m physics c" "distinct tiles" "s1 = seen \<union> set tiles" "set tiles \<inter> seen = {}"
    using flood_component [OF inv(1) c run] by blast+
  have out: "seen' = s1" "regions' = regions @ [region_of c tiles]" using scan False run unfolding scan_cell_def prod.case by (metis prod.case prod.inject)+
  have "closed_cells m physics s1" using closed_Un [OF inv(1) closed_cluster [of m physics c]] by (simp add: comp)
  moreover have "ri_first (region_of c tiles) = c" "ri_tiles (region_of c tiles) = tiles" by (simp_all add: region_of_def Let_def)
  ultimately show ?thesis using comp inv c cluster_self [of c m physics] by (auto simp: out scan_inv_def)
qed

text \<open>
  C39. Clusters are components. The flood fill ends on every map, and its clusters are exactly the connected components, over eight
  neighbours, of the tiles of the kind asked for: no tile is in two clusters or twice in one, and none of the map is missed.
\<close>

theorem regions_are_components:
  "list_all (\<lambda>r. ri_first r \<in> matching m physics \<and> set (ri_tiles r) = cluster m physics (ri_first r)) (buildRegions m physics)
   \<and> distinct (concat (map ri_tiles (buildRegions m physics)))
   \<and> set (collectTiles m physics) \<subseteq> set (concat (map ri_tiles (buildRegions m physics)))"
proof -
  have "scan_inv m physics (fst (fold (scan_cell m physics) cs s)) (snd (fold (scan_cell m physics) cs s))
      \<and> fst s \<subseteq> fst (fold (scan_cell m physics) cs s)
      \<and> {c \<in> set cs. c \<in> matching m physics} \<subseteq> fst (fold (scan_cell m physics) cs s)"
    if "scan_inv m physics (fst s) (snd s)" for cs s
    using that
  proof (induction cs arbitrary: s)
    case (Cons c cs)
    have "scan_inv m physics (fst (scan_cell m physics c s)) (snd (scan_cell m physics c s)) \<and> fst s \<subseteq> fst (scan_cell m physics c s)
        \<and> (c \<in> matching m physics \<longrightarrow> c \<in> fst (scan_cell m physics c s))"
      using scan_keeps [of m physics "fst s" "snd s" c] Cons.prems by (metis prod.collapse)
    with Cons.IH [of "scan_cell m physics c s"] show ?case by auto
  qed simp
  from this [of "({}, [])" "grid_cells m"]
  show ?thesis by (auto simp: buildRegions_def collectTiles_def matching_def scan_inv_def closed_cells_def)
qed

end
