(* ===== verification/Sha256.thy ===== *)
theory Sha256
  imports Bytes
begin

unbundle bit_operations_syntax

text \<open>
  \<open>shared/src/humanCheck/sha256.ts\<close>: the synchronous SHA-256 that browser and server share. The numbers of the code
  are 32-bit words: its \<open>>>>\<close>, \<open><<\<close>, \<open>^\<close>, \<open>&\<close>, \<open>|\<close>, \<open>~\<close> and the sums ended by
  \<open>| 0\<close> work modulo \<open>2 ^ 32\<close>. The module's array \<open>W\<close> is rewritten for each block before it is read and is
  a local value here. Multi-byte accesses are big endian.
\<close>

section \<open>The digest\<close>

type_synonym word32 = "32 word"

definition K :: "word32 list" where
  "K = concat [
    [0x428a2f98, 0x71374491, 0xb5c0fbcf, 0xe9b5dba5, 0x3956c25b, 0x59f111f1, 0x923f82a4, 0xab1c5ed5],
    [0xd807aa98, 0x12835b01, 0x243185be, 0x550c7dc3, 0x72be5d74, 0x80deb1fe, 0x9bdc06a7, 0xc19bf174],
    [0xe49b69c1, 0xefbe4786, 0x0fc19dc6, 0x240ca1cc, 0x2de92c6f, 0x4a7484aa, 0x5cb0a9dc, 0x76f988da],
    [0x983e5152, 0xa831c66d, 0xb00327c8, 0xbf597fc7, 0xc6e00bf3, 0xd5a79147, 0x06ca6351, 0x14292967],
    [0x27b70a85, 0x2e1b2138, 0x4d2c6dfc, 0x53380d13, 0x650a7354, 0x766a0abb, 0x81c2c92e, 0x92722c85],
    [0xa2bfe8a1, 0xa81a664b, 0xc24b8b70, 0xc76c51a3, 0xd192e819, 0xd6990624, 0xf40e3585, 0x106aa070],
    [0x19a4c116, 0x1e376c08, 0x2748774c, 0x34b0bcb5, 0x391c0cb3, 0x4ed8aa4a, 0x5b9cca4f, 0x682e6ff3],
    [0x748f82ee, 0x78a5636f, 0x84c87814, 0x8cc70208, 0x90befffa, 0xa4506ceb, 0xbef9a3f7, 0xc67178f2]]"

text \<open>\<open>getUint32\<close> and \<open>setUint32\<close> without the flag for little endian.\<close>

definition get_be32 :: "byte list \<Rightarrow> nat \<Rightarrow> word32" where
  "get_be32 bs i = word_of_int (16777216 * uint (bs ! i) + 65536 * uint (bs ! (i + 1)) + 256 * uint (bs ! (i + 2)) + uint (bs ! (i + 3)))"

definition set_be32 :: "word32 \<Rightarrow> byte list" where
  "set_be32 w = [word_of_int (uint w div 16777216), word_of_int (uint w div 65536), word_of_int (uint w div 256), word_of_int (uint w)]"

text \<open>The message, the bit 1, zeros up to a multiple of 64 bytes, and the length in bits in the last eight.\<close>

definition padded_length :: "nat \<Rightarrow> nat" where
  "padded_length n = ((n + 9 + 63) div 64) * 64"

definition pad_message :: "byte list \<Rightarrow> byte list" where
  "pad_message message =
     (let bitLength = int (length message) * 8; size = padded_length (length message)
      in message @ [0x80] @ replicate (size - length message - 9) 0
           @ set_be32 (word_of_int (bitLength div 4294967296)) @ set_be32 (word_of_int bitLength))"

definition small_sigma0 :: "word32 \<Rightarrow> word32" where
  "small_sigma0 a = (drop_bit 7 a OR push_bit 25 a) XOR (drop_bit 18 a OR push_bit 14 a) XOR drop_bit 3 a"

definition small_sigma1 :: "word32 \<Rightarrow> word32" where
  "small_sigma1 b = (drop_bit 17 b OR push_bit 15 b) XOR (drop_bit 19 b OR push_bit 13 b) XOR drop_bit 10 b"

definition first_words :: "byte list \<Rightarrow> nat \<Rightarrow> word32 list" where
  "first_words padded offset = map (\<lambda>i. get_be32 padded (offset + i * 4)) [0..<16]"

definition next_word :: "word32 list \<Rightarrow> nat \<Rightarrow> word32 list" where
  "next_word W i = W @ [W ! (i - 16) + small_sigma0 (W ! (i - 15)) + W ! (i - 7) + small_sigma1 (W ! (i - 2))]"

definition schedule :: "byte list \<Rightarrow> nat \<Rightarrow> word32 list" where
  "schedule padded offset = foldl next_word (first_words padded offset) [16..<64]"

text \<open>The eight variables \<open>a\<close> to \<open>h\<close>, and the eight \<open>h0\<close> to \<open>h7\<close>.\<close>

datatype chain = Chain word32 word32 word32 word32 word32 word32 word32 word32

fun compress_round :: "chain \<Rightarrow> word32 \<times> word32 \<Rightarrow> chain" where
  "compress_round (Chain a b c d e f g h) (k, w) =
     (let S1 = (drop_bit 6 e OR push_bit 26 e) XOR (drop_bit 11 e OR push_bit 21 e) XOR (drop_bit 25 e OR push_bit 7 e);
          ch = (e AND f) XOR ((NOT e) AND g);
          t1 = h + S1 + ch + k + w;
          S0 = (drop_bit 2 a OR push_bit 30 a) XOR (drop_bit 13 a OR push_bit 19 a) XOR (drop_bit 22 a OR push_bit 10 a);
          maj = (a AND b) XOR (a AND c) XOR (b AND c);
          t2 = S0 + maj
      in Chain (t1 + t2) a b c (d + t1) e f g)"

fun chain_plus :: "chain \<Rightarrow> chain \<Rightarrow> chain" where
  "chain_plus (Chain h0 h1 h2 h3 h4 h5 h6 h7) (Chain a b c d e f g h) =
     Chain (h0 + a) (h1 + b) (h2 + c) (h3 + d) (h4 + e) (h5 + f) (h6 + g) (h7 + h)"

definition digest_block :: "byte list \<Rightarrow> chain \<Rightarrow> nat \<Rightarrow> chain" where
  "digest_block padded H offset = chain_plus H (foldl compress_round H (zip K (schedule padded offset)))"

definition initial_chain :: chain where
  "initial_chain = Chain 0x6a09e667 0xbb67ae85 0x3c6ef372 0xa54ff53a 0x510e527f 0x9b05688c 0x1f83d9ab 0x5be0cd19"

fun chain_bytes :: "chain \<Rightarrow> byte list" where
  "chain_bytes (Chain h0 h1 h2 h3 h4 h5 h6 h7) = concat (map set_be32 [h0, h1, h2, h3, h4, h5, h6, h7])"

definition sha256 :: "byte list \<Rightarrow> byte list" where
  "sha256 message =
     (let padded = pad_message message
      in chain_bytes (foldl (digest_block padded) initial_chain (map (\<lambda>i. i * 64) [0..<length padded div 64])))"

text \<open>\<open>Math.clz32\<close> of a byte, less 24, and the count over the digest.\<close>

fun byte_zeros :: "nat \<Rightarrow> byte \<Rightarrow> nat" where
  "byte_zeros 0 b = 0"
| "byte_zeros (Suc n) b = (if bit b n then 0 else Suc (byte_zeros n b))"

fun leadingZeroBits :: "byte list \<Rightarrow> nat" where
  "leadingZeroBits [] = 0"
| "leadingZeroBits (b # bs) = (if b = 0 then 8 + leadingZeroBits bs else byte_zeros 8 b)"

section \<open>Facts\<close>

lemma length_set_be32 [simp]: "length (set_be32 w) = 4"
  by (simp add: set_be32_def)

lemma padded_length_fits: "n + 9 \<le> padded_length n" "padded_length n < n + 73" "64 dvd padded_length n"
proof -
  have "(n + 72) div 64 * 64 + (n + 72) mod 64 = n + 72" "(n + 72) mod 64 < 64" by simp_all
  then have "n + 9 \<le> (n + 72) div 64 * 64" "(n + 72) div 64 * 64 < n + 73" by linarith+
  then show "n + 9 \<le> padded_length n" "padded_length n < n + 73" "64 dvd padded_length n" by (simp_all add: padded_length_def)
qed

lemma length_pad_message: "length (pad_message m) = padded_length (length m)"
  using padded_length_fits(1) [of "length m"] by (simp add: pad_message_def Let_def)

lemma length_sha256: "length (sha256 m) = 32"
proof -
  have "length (chain_bytes c) = 32" for c by (cases c) simp
  then show ?thesis by (simp add: sha256_def Let_def)
qed

lemma K_length: "length K = 64"
  by (simp add: K_def)

lemma foldl_next_word_length: "length (foldl next_word W is) = length W + length is"
  by (induction "is" arbitrary: W) (simp_all add: next_word_def)

lemma schedule_length: "length (schedule p k) = length K"
  by (simp add: schedule_def foldl_next_word_length first_words_def K_length del: upt_Suc upt_rec_numeral)

lemma byte_zeros_le: "byte_zeros n b \<le> n"
  by (induction n) auto

lemma leadingZeroBits_le: "leadingZeroBits ds \<le> 8 * length ds"
proof (induction ds)
  case (Cons b ds)
  with byte_zeros_le [of 8 b] show ?case by simp
qed simp

text \<open>Counting by bytes is counting the zeros at the front of the digest's bits.\<close>

definition byte_bits :: "byte \<Rightarrow> bool list" where
  "byte_bits b = map (bit b) (rev [0..<8])"

lemma byte_zeros_takeWhile: "byte_zeros n b = length (takeWhile Not (map (bit b) (rev [0..<n])))"
  by (induction n) auto

lemma byte_bits_zero_iff: "(\<forall>n < 8. \<not> bit b n) \<longleftrightarrow> b = (0 :: byte)"
proof
  assume none: "\<forall>n < 8. \<not> bit b n"
  show "b = 0" by (rule bit_word_eqI) (use none in simp)
qed simp

theorem leadingZeroBits_counts: "leadingZeroBits ds = length (takeWhile Not (concat (map byte_bits ds)))"
proof (induction ds)
  case (Cons b ds)
  show ?case
  proof (cases "b = 0")
    case True
    then have "\<forall>x \<in> set (byte_bits b). \<not> x" by (simp add: byte_bits_def)
    then have "takeWhile Not (byte_bits b @ ys) = byte_bits b @ takeWhile Not ys" for ys by (metis takeWhile_append2)
    with True Cons show ?thesis by (simp add: byte_bits_def)
  next
    case False
    then obtain n where "n < 8" "bit b n" using byte_bits_zero_iff [of b] by auto
    then have "\<exists>x \<in> set (byte_bits b). x" by (auto simp: byte_bits_def)
    then have "takeWhile Not (byte_bits b @ ys) = takeWhile Not (byte_bits b)" for ys by (auto intro: takeWhile_append1)
    with False show ?thesis by (simp add: byte_bits_def byte_zeros_takeWhile)
  qed
qed simp

end
