(* ===== verification/HumanCheck.thy ===== *)
theory HumanCheck
  imports Sha256 JsText
begin

unbundle bit_operations_syntax

text \<open>
  \<open>shared/src/humanCheck/round.ts\<close> and \<open>pow.ts\<close>: the scene of a human check, generated from a 32-bit seed by server and
  client alike, its accessible variant in turns, the judgement of an answer, and the proof of work. Times, distances, angles and
  slots of the scene are the integers the code draws; the positions drawn on the screen are reals.
\<close>

section \<open>The generator\<close>

definition SWITCH_SELF_X :: real where "SWITCH_SELF_X = 80"
definition SWITCH_SELF_Y :: real where "SWITCH_SELF_Y = 56"
definition SWITCH_RANGE :: real where "SWITCH_RANGE = 22"
definition SWITCH_APPROACH :: int where "SWITCH_APPROACH = 34"
definition SWITCH_GRACE_MS :: int where "SWITCH_GRACE_MS = 150"

text \<open>One call of the generator that \<open>seededRandom\<close> returns, with the variable \<open>state\<close> passed explicitly.\<close>

type_synonym seed = word32

definition seed_of :: "int \<Rightarrow> seed" where
  "seed_of n = word_of_int n"

definition next_random :: "seed \<Rightarrow> real \<times> seed" where
  "next_random s =
     (let state = s + 0x6d2b79f5;
          t = (state XOR drop_bit 15 state) * (state OR 1);
          t' = t XOR (t + (t XOR drop_bit 7 t) * (t OR 61))
      in (of_int (uint (t' XOR drop_bit 14 t')) / 4294967296, state))"

definition random_index :: "int \<Rightarrow> seed \<Rightarrow> int \<times> seed" where
  "random_index n s = (case next_random s of (u, s') \<Rightarrow> (\<lfloor>u * of_int n\<rfloor>, s'))"

definition intBetween :: "int \<Rightarrow> int \<Rightarrow> seed \<Rightarrow> int \<times> seed" where
  "intBetween lo hi s = (case random_index (hi - lo + 1) s of (k, s') \<Rightarrow> (lo + k, s'))"

text \<open>The loop \<open>for (let i = n; i > 0; i--)\<close> that swaps the entries at \<open>i\<close> and at a drawn index.\<close>

definition swap_entries :: "nat \<Rightarrow> nat \<Rightarrow> 'a list \<Rightarrow> 'a list" where
  "swap_entries i j xs = (xs[i := xs ! j])[j := xs ! i]"

fun shuffle_from :: "nat \<Rightarrow> 'a list \<Rightarrow> seed \<Rightarrow> 'a list \<times> seed" where
  "shuffle_from 0 xs s = (xs, s)"
| "shuffle_from (Suc i) xs s =
     (case random_index (int i + 2) s of (j, s') \<Rightarrow> shuffle_from i (swap_entries (Suc i) (nat j) xs) s')"

definition shuffledSlots :: "seed \<Rightarrow> int list \<times> seed" where
  "shuffledSlots s = shuffle_from 7 [1, 2, 3, 4, 5, 6, 7, 8] s"

section \<open>Last-second switch\<close>

record round_key =
  rk_t :: int
  rk_r :: int
  rk_a :: int

record round_actor =
  ra_slot :: int
  ra_keys :: "round_key list"

record switch_round =
  sr_version :: int
  sr_selfSlot :: int
  sr_tagger :: round_actor
  sr_runners :: "round_actor list"
  sr_openAt :: int
  sr_caughtAt :: int
  sr_endAt :: int
  sr_target :: int

definition angleGap :: "int \<Rightarrow> int \<Rightarrow> int" where
  "angleGap a b = (let diff = \<bar>a - b\<bar> mod 360 in if 180 < diff then 360 - diff else diff)"

text \<open>The two loops that choose directions: first at least sixty degrees apart, then any that is free.\<close>

fun spread_angles :: "nat \<Rightarrow> int list \<Rightarrow> int list \<Rightarrow> int list" where
  "spread_angles n [] angles = angles"
| "spread_angles n (c # cs) angles =
     (let angles' = (if list_all (\<lambda>taken. 60 \<le> angleGap taken c) angles then angles @ [c] else angles)
      in if length angles' = n then angles' else spread_angles n cs angles')"

fun fill_angles :: "nat \<Rightarrow> int list \<Rightarrow> int list \<Rightarrow> int list" where
  "fill_angles n [] angles = angles"
| "fill_angles n (c # cs) angles =
     (if length angles = n then angles
      else fill_angles n cs (if c \<in> set angles then angles else angles @ [c]))"

definition free_angles :: "int \<Rightarrow> int list" where
  "free_angles taggerAngle = filter (\<lambda>a. 45 < angleGap a taggerAngle) (map (\<lambda>i. int i * 30) [0..<12])"

definition drift :: "seed \<Rightarrow> int \<times> seed" where
  "drift s = intBetween (- 12) 12 s"

abbreviation at_key :: "int \<Rightarrow> int \<Rightarrow> int \<Rightarrow> round_key" where
  "at_key t r a \<equiv> \<lparr>rk_t = t, rk_r = r, rk_a = a\<rparr>"

text \<open>The runner to switch with, a bait that leaves too early, and one that stays away.\<close>

definition target_keys :: "int \<Rightarrow> int \<Rightarrow> int \<Rightarrow> int \<Rightarrow> seed \<Rightarrow> round_key list \<times> seed" where
  "target_keys openAt caughtAt endAt a s =
     (let (before, s1) = intBetween 300 700 s; (d1, s2) = drift s1; (d2, s3) = drift s2; (d3, s4) = drift s3
      in ([at_key 0 40 a, at_key (openAt - before) 15 (a + d1), at_key (caughtAt + 300) 17 (a + d2), at_key endAt 30 (a + d3)], s4))"

definition bait_keys :: "int \<Rightarrow> int \<Rightarrow> int \<Rightarrow> seed \<Rightarrow> round_key list \<times> seed" where
  "bait_keys openAt endAt a s =
     (let (inAt, s1) = intBetween 400 800 s; (before, s2) = intBetween 350 550 s1;
          (d1, s3) = drift s2; (d2, s4) = drift s3; (far, s5) = intBetween 34 40 s4; (d3, s6) = drift s5
      in ([at_key 0 38 a, at_key inAt 14 (a + d1), at_key (openAt - before) 34 (a + d2), at_key endAt far (a + d3)], s6))"

definition idle_keys :: "int \<Rightarrow> int \<Rightarrow> seed \<Rightarrow> round_key list \<times> seed" where
  "idle_keys endAt a s =
     (let (r0, s1) = intBetween 34 42 s; (r1, s2) = intBetween 32 42 s1; (d1, s3) = drift s2;
          (r2, s4) = intBetween 34 42 s3; (d2, s5) = drift s4
      in ([at_key 0 r0 a, at_key (endAt div 2) r1 (a + d1), at_key endAt r2 (a + d2)], s5))"

definition runner_keys :: "int \<Rightarrow> int \<Rightarrow> int \<Rightarrow> nat \<Rightarrow> nat \<Rightarrow> int \<Rightarrow> seed \<Rightarrow> round_key list \<times> seed" where
  "runner_keys openAt caughtAt endAt runnerCount index a s =
     (if index = 0 then target_keys openAt caughtAt endAt a s
      else if index = 1 \<or> index = 2 \<and> runnerCount = 5 then bait_keys openAt endAt a s
      else idle_keys endAt a s)"

fun build_runners :: "(nat \<Rightarrow> int \<Rightarrow> seed \<Rightarrow> round_key list \<times> seed) \<Rightarrow> int list \<Rightarrow> nat \<Rightarrow> int list \<Rightarrow> seed \<Rightarrow> round_actor list \<times> seed" where
  "build_runners keys angles index [] s = ([], s)"
| "build_runners keys angles index (slot # slots) s =
     (let (ks, s1) = keys index (angles ! index) s; (rest, s2) = build_runners keys angles (Suc index) slots s1
      in (\<lparr>ra_slot = slot, ra_keys = ks\<rparr> # rest, s2))"

definition HUMAN_ROUND_VERSION :: int where "HUMAN_ROUND_VERSION = 1"

definition buildSwitchRound :: "int \<Rightarrow> switch_round" where
  "buildSwitchRound seed =
     (let (slots, s1) = shuffledSlots (seed_of seed);
          selfSlot = slots ! 0; taggerSlot = slots ! 1;
          (u, s2) = next_random s1;
          runnerCount = (if u < 1 / 2 then 4 else 5);
          runnerSlots = take runnerCount (drop 2 slots);
          (openAt, s3) = intBetween 1900 2600 s2;
          (chase, s4) = intBetween 1000 1300 s3;
          caughtAt = openAt + chase;
          endAt = caughtAt + 500;
          (side, s5) = intBetween 0 2 s4;
          taggerAngle = [180, 0, 270] ! nat side;
          tagger = \<lparr>ra_slot = taggerSlot, ra_keys = [at_key 0 64 taggerAngle, at_key openAt SWITCH_APPROACH taggerAngle,
                     at_key caughtAt 8 taggerAngle, at_key endAt 8 taggerAngle]\<rparr>;
          free0 = free_angles taggerAngle;
          (free, s6) = shuffle_from (length free0 - 1) free0 s5;
          angles = fill_angles runnerCount free (spread_angles runnerCount free []);
          (runners, s7) = build_runners (runner_keys openAt caughtAt endAt runnerCount) angles 0 runnerSlots s6
      in \<lparr>sr_version = HUMAN_ROUND_VERSION, sr_selfSlot = selfSlot, sr_tagger = tagger, sr_runners = sort_key ra_slot runners,
          sr_openAt = openAt, sr_caughtAt = caughtAt, sr_endAt = endAt, sr_target = ra_slot (runners ! 0)\<rparr>)"

text \<open>The keys before and after a time: the first pair whose end is not before it, or the outermost pair.\<close>

fun find_segment :: "round_key list \<Rightarrow> real \<Rightarrow> (round_key \<times> round_key) option" where
  "find_segment (k # k' # ks) t = (if t \<le> of_int (rk_t k') then Some (k, k') else find_segment (k' # ks) t)"
| "find_segment _ t = None"

record round_place =
  rp_x :: real
  rp_y :: real
  rp_r :: real

definition roundPosition :: "round_key list \<Rightarrow> real \<Rightarrow> round_place" where
  "roundPosition keys t =
     (let (prev, next) = (case find_segment keys t of Some pair \<Rightarrow> pair | None \<Rightarrow> (hd keys, List.last keys));
          span = rk_t next - rk_t prev;
          k = (if span \<le> 0 then 1 else min 1 (max 0 ((t - of_int (rk_t prev)) / of_int span)));
          r = of_int (rk_r prev) + of_int (rk_r next - rk_r prev) * k;
          a = (of_int (rk_a prev) + of_int (rk_a next - rk_a prev) * k) * pi / 180
      in \<lparr>rp_x = SWITCH_SELF_X + cos a * r, rp_y = SWITCH_SELF_Y + sin a * r, rp_r = r\<rparr>)"

datatype switch_answer = AnswerOk | AnswerEarly | AnswerLate | AnswerWrong

definition checkSwitchAnswer :: "switch_round \<Rightarrow> int \<Rightarrow> real \<Rightarrow> switch_answer" where
  "checkSwitchAnswer scene slot atMs =
     (if atMs < of_int (sr_openAt scene - SWITCH_GRACE_MS) then AnswerEarly
      else if of_int (sr_caughtAt scene + SWITCH_GRACE_MS) < atMs then AnswerLate
      else if slot = sr_target scene then AnswerOk else AnswerWrong)"

section \<open>The round on the radio\<close>

definition RADIO_RANGE :: int where "RADIO_RANGE = 2"
definition RADIO_MIN_ELAPSED_MS :: int where "RADIO_MIN_ELAPSED_MS = 6000"

record radio_move =
  mv_slot :: int
  mv_distance :: int

record radio_turn =
  rt_tagger :: int
  rt_moves :: "radio_move list"

record radio_round =
  rr_version :: int
  rr_selfSlot :: int
  rr_taggerSlot :: int
  rr_runnerSlots :: "int list"
  rr_turns :: "radio_turn list"
  rr_target :: int

abbreviation moves_to :: "int \<Rightarrow> int \<Rightarrow> radio_move" where
  "moves_to slot distance \<equiv> \<lparr>mv_slot = slot, mv_distance = distance\<rparr>"

definition buildRadioRound :: "int \<Rightarrow> radio_round" where
  "buildRadioRound seed =
     (let (slots, s1) = shuffledSlots (seed_of seed);
          target = slots ! 2; bait = slots ! 3; walker = slots ! 4; idle = slots ! 5;
          (targetStart, s2) = intBetween 4 6 s1;
          (targetMid, s3) = intBetween 3 (targetStart - 1) s2;
          (targetEnd, s4) = intBetween 1 RADIO_RANGE s3;
          (baitStart, s5) = intBetween 1 RADIO_RANGE s4;
          (baitMid, s6) = intBetween 4 6 s5;
          (walkerStart, s7) = intBetween 5 7 s6;
          (walkerEnd, s8) = intBetween 4 (walkerStart - 1) s7;
          (idleAt, s9) = intBetween 4 7 s8;
          firstMoves = sort_key mv_slot [moves_to target targetStart, moves_to bait baitStart, moves_to walker walkerStart, moves_to idle idleAt];
          turns = [\<lparr>rt_tagger = 6, rt_moves = firstMoves\<rparr>,
            \<lparr>rt_tagger = 4, rt_moves = sort_key mv_slot [moves_to target targetMid, moves_to bait baitMid]\<rparr>,
            \<lparr>rt_tagger = 2, rt_moves = sort_key mv_slot [moves_to target targetEnd, moves_to walker walkerEnd]\<rparr>]
      in \<lparr>rr_version = HUMAN_ROUND_VERSION, rr_selfSlot = slots ! 0, rr_taggerSlot = slots ! 1,
          rr_runnerSlots = sort [target, bait, walker, idle], rr_turns = turns, rr_target = target\<rparr>)"

section \<open>Proof of work\<close>

definition POW_BASE :: int where "POW_BASE = 16"
definition POW_MAX :: int where "POW_MAX = 19"
definition POW_RADIO_EXTRA :: int where "POW_RADIO_EXTRA = 2"
definition POW_CEILING :: int where "POW_CEILING = 20"

definition powInput :: "string \<Rightarrow> int \<Rightarrow> byte list" where
  "powInput nonce counter = map (\<lambda>c. word_of_nat (char_code c) AND 0x7f) (nonce @ '':'' @ number_text counter)"

definition powDigestBits :: "string \<Rightarrow> int \<Rightarrow> nat" where
  "powDigestBits nonce counter = leadingZeroBits (sha256 (powInput nonce counter))"

text \<open>\<open>Number.isSafeInteger\<close>\<close>

definition safe_integer :: "js_number \<Rightarrow> int option" where
  "safe_integer n = (case integral n of Some k \<Rightarrow> if \<bar>k\<bar> \<le> 9007199254740991 then Some k else None | None \<Rightarrow> None)"

definition verifyPow :: "string \<Rightarrow> int \<Rightarrow> js_number \<Rightarrow> bool" where
  "verifyPow nonce bits counter =
     (case safe_integer counter of Some k \<Rightarrow> 0 \<le> k \<and> bits \<le> int (powDigestBits nonce k) | None \<Rightarrow> False)"

fun searchPow :: "string \<Rightarrow> int \<Rightarrow> int \<Rightarrow> nat \<Rightarrow> int option" where
  "searchPow nonce bits start 0 = None"
| "searchPow nonce bits start (Suc budget) =
     (if bits \<le> int (powDigestBits nonce start) then Some start else searchPow nonce bits (start + 1) budget)"

end
