(* ===== verification/HumanCheckProps.thy ===== *)
theory HumanCheckProps
  imports HumanCheck "HOL-Library.Multiset"
begin

unbundle bit_operations_syntax

text \<open>
  What a human check guarantees: for every seed the answer that is accepted is the one the drawn scene shows, the round on the radio
  has the same solution, and the proof of work is found exactly when it is accepted.
\<close>

section \<open>The generator and the shuffle\<close>

lemma uint_bounded_32: "0 \<le> uint (w :: word32)" "uint (w :: word32) < 4294967296"
  using uint_lt2p [of w] by simp_all

lemma next_random_range: "next_random s = (u, s') \<Longrightarrow> 0 \<le> u \<and> u < 1"
proof -
  have "0 \<le> real_of_int n / 4294967296 \<and> real_of_int n / 4294967296 < 1" if "0 \<le> n" "n < 4294967296" for n using that by simp
  then have "0 \<le> real_of_int (uint w) / 4294967296 \<and> real_of_int (uint w) / 4294967296 < 1" for w :: word32
    using uint_bounded_32 by blast
  moreover assume "next_random s = (u, s')"
  then have "\<exists>w :: word32. u = real_of_int (uint w) / 4294967296" unfolding next_random_def Let_def prod.inject by blast
  ultimately show ?thesis by blast
qed

lemma random_index_range: "random_index n s = (k, s') \<Longrightarrow> 0 < n \<Longrightarrow> 0 \<le> k \<and> k < n"
proof -
  assume r: "random_index n s = (k, s')" and n: "0 < n"
  obtain u where u: "next_random s = (u, s')" and k: "k = \<lfloor>u * of_int n\<rfloor>" using r by (auto simp: random_index_def split: prod.splits)
  have "0 \<le> u * of_int n" "u * of_int n < of_int n" using next_random_range [OF u] n by (simp_all add: mult_less_cancel_right2)
  then show ?thesis unfolding k by (simp add: le_floor_iff floor_less_iff)
qed

lemma intBetween_range: "intBetween lo hi s = (k, s') \<Longrightarrow> lo \<le> hi \<Longrightarrow> lo \<le> k \<and> k \<le> hi"
  using random_index_range [of "hi - lo + 1" s "k - lo" s'] by (auto simp: intBetween_def split: prod.splits)

lemma mset_swap_entries: "i < length xs \<Longrightarrow> j < length xs \<Longrightarrow> mset (swap_entries i j xs) = mset xs"
  unfolding swap_entries_def by (rule mset_swap)

lemma shuffle_from_mset: "shuffle_from i xs s = (ys, s') \<Longrightarrow> i < length xs \<Longrightarrow> mset ys = mset xs"
proof (induction i arbitrary: xs s)
  case (Suc i)
  obtain j s1 where j: "random_index (int i + 2) s = (j, s1)" by fastforce
  then have "nat j < length xs" using random_index_range [OF j] Suc.prems(2) by auto
  with Suc.prems(2) have same: "mset (swap_entries (Suc i) (nat j) xs) = mset xs" by (intro mset_swap_entries) auto
  then have "length (swap_entries (Suc i) (nat j) xs) = length xs" by (rule mset_eq_length)
  with Suc.IH [of "swap_entries (Suc i) (nat j) xs" s1] Suc.prems j same show ?case by simp
qed simp

lemma shuffledSlots_perm: "shuffledSlots s = (slots, s') \<Longrightarrow> distinct slots \<and> length slots = 8"
proof -
  assume "shuffledSlots s = (slots, s')"
  then have same: "mset slots = mset [1, 2, 3, 4, 5, 6, 7, 8 :: int]"
    unfolding shuffledSlots_def by (rule shuffle_from_mset) simp
  have "distinct slots" using mset_eq_imp_distinct_iff [OF same] by simp
  then show ?thesis using mset_eq_length [OF same] by simp
qed

section \<open>Directions\<close>

lemma angleGap_self: "angleGap a a = 0"
  by (simp add: angleGap_def)

lemma spread_angles_ok:
  "distinct angles \<Longrightarrow> length angles < n \<Longrightarrow> distinct (spread_angles n cs angles) \<and> length (spread_angles n cs angles) \<le> n
     \<and> set (spread_angles n cs angles) \<subseteq> set angles \<union> set cs"
proof (induction n cs angles rule: spread_angles.induct)
  case (2 n c cs angles)
  define angles' where "angles' = (if list_all (\<lambda>taken. 60 \<le> angleGap taken c) angles then angles @ [c] else angles)"
  have "c \<notin> set angles" if "list_all (\<lambda>taken. 60 \<le> angleGap taken c) angles" using that angleGap_self [of c] by (auto simp: list_all_iff)
  then have ok: "distinct angles'" "length angles' \<le> n" "set angles' \<subseteq> insert c (set angles)" using 2 by (auto simp: angles'_def)
  show ?case
  proof (cases "length angles' = n")
    case True
    then show ?thesis using ok by (auto simp: angles'_def [symmetric] Let_def)
  next
    case False
    then have "length angles' < n" using ok by simp
    from 2(1) [OF angles'_def False ok(1) this] show ?thesis using ok False by (auto simp: angles'_def [symmetric] Let_def)
  qed
qed auto

lemma fill_angles_ok:
  "distinct angles \<Longrightarrow> length angles \<le> n \<Longrightarrow> n \<le> card (set angles \<union> set cs) \<Longrightarrow>
     distinct (fill_angles n cs angles) \<and> length (fill_angles n cs angles) = n"
proof (induction n cs angles rule: fill_angles.induct)
  case (1 n angles)
  then show ?case by (simp add: distinct_card)
next
  case (2 n c cs angles)
  show ?case
  proof (cases "length angles = n")
    case False
    moreover have "set angles \<union> set (c # cs) = set (if c \<in> set angles then angles else angles @ [c]) \<union> set cs" by auto
    ultimately show ?thesis using 2 by (simp del: Un_insert_right split: if_splits)
  qed (use 2 in simp)
qed

lemma free_angles_nine:
  "side = 0 \<or> side = 1 \<or> side = 2 \<Longrightarrow> distinct (free_angles ([180, 0, 270] ! side)) \<and> length (free_angles ([180, 0, 270] ! side)) = 9"
  by (elim disjE) (simp_all add: free_angles_def angleGap_def upt_rec numeral_eq_Suc)

section \<open>Where the runners are drawn\<close>

definition self_distance :: "round_place \<Rightarrow> real" where
  "self_distance p = sqrt ((rp_x p - SWITCH_SELF_X)\<^sup>2 + (rp_y p - SWITCH_SELF_Y)\<^sup>2)"

lemma self_distance_position: "self_distance (roundPosition ks t) = \<bar>rp_r (roundPosition ks t)\<bar>"
proof -
  have "sqrt ((cos a * r)\<^sup>2 + (sin a * r)\<^sup>2) = \<bar>r\<bar>" for a r :: real
  proof -
    have "(cos a * r)\<^sup>2 + (sin a * r)\<^sup>2 = ((cos a)\<^sup>2 + (sin a)\<^sup>2) * r\<^sup>2" by (simp add: power_mult_distrib distrib_right del: sin_cos_squared_add sin_cos_squared_add2)
    then show ?thesis by simp
  qed
  then show ?thesis by (simp add: self_distance_def roundPosition_def Let_def split: prod.split)
qed

text \<open>Between two keys the distance stays between those of the keys.\<close>

lemma between_ends:
  fixes p n k :: real
  assumes "0 \<le> k" "k \<le> 1"
  shows "min p n \<le> p + (n - p) * k \<and> p + (n - p) * k \<le> max p n"
proof (cases "p \<le> n")
  case True
  then have "0 \<le> (n - p) * k" "(n - p) * k \<le> n - p" using assms by (simp_all add: mult_left_le)
  with True show ?thesis by simp
next
  case False
  then have "0 \<le> (p - n) * k" "(p - n) * k \<le> p - n" using assms by (simp_all add: mult_left_le)
  moreover have "(n - p) * k = - ((p - n) * k)" by (simp add: algebra_simps)
  moreover have "min p n = n" "max p n = p" using False by simp_all
  ultimately show ?thesis by linarith
qed

lemma distance_between:
  assumes "find_segment ks t = Some (p, n)"
  shows "of_int (min (rk_r p) (rk_r n)) \<le> rp_r (roundPosition ks t) \<and> rp_r (roundPosition ks t) \<le> of_int (max (rk_r p) (rk_r n))"
proof -
  define k :: real where "k = (if rk_t n - rk_t p \<le> 0 then 1 else min 1 (max 0 ((t - of_int (rk_t p)) / of_int (rk_t n - rk_t p))))"
  have "rp_r (roundPosition ks t) = of_int (rk_r p) + (of_int (rk_r n) - of_int (rk_r p)) * k"
    by (simp add: roundPosition_def assms k_def Let_def)
  moreover have "0 \<le> k" "k \<le> 1" by (simp_all add: k_def)
  ultimately show ?thesis using between_ends [of k "of_int (rk_r p)" "of_int (rk_r n)"] by (simp add: of_int_min of_int_max)
qed

lemma distance_at_end:
  assumes "find_segment ks t = Some (p, n)" and "t = of_int (rk_t n)"
  shows "rp_r (roundPosition ks t) = of_int (rk_r n)"
  using assms by (simp add: roundPosition_def Let_def)

definition in_window :: "switch_round \<Rightarrow> real \<Rightarrow> bool" where
  "in_window scene t \<longleftrightarrow> of_int (sr_openAt scene - SWITCH_GRACE_MS) \<le> t \<and> t \<le> of_int (sr_caughtAt scene + SWITCH_GRACE_MS)"

lemma target_near:
  assumes "real_of_int (openAt - 150) \<le> t" "t \<le> real_of_int (caughtAt + 150)" "1900 \<le> openAt"
  shows "\<bar>rp_r (roundPosition (fst (target_keys openAt caughtAt endAt a s)) t)\<bar> \<le> 22"
proof -
  obtain b s1 where b: "intBetween 300 700 s = (b, s1)" by fastforce
  have "300 \<le> b" "b \<le> 700" using intBetween_range [OF b] by simp_all
  then have "\<not> t \<le> of_int (openAt - b)" "t \<le> of_int (caughtAt + 300)" using assms by linarith+
  then have "\<exists>d d'. find_segment (fst (target_keys openAt caughtAt endAt a s)) t
      = Some (at_key (openAt - b) 15 d, at_key (caughtAt + 300) 17 d')"
    by (simp add: target_keys_def b split: prod.split)
  then show ?thesis using distance_between by fastforce
qed

lemma bait_far:
  assumes "real_of_int (openAt - 150) \<le> t" "t \<le> real_of_int (caughtAt + 150)" "1900 \<le> openAt" "endAt = caughtAt + 500"
  shows "22 < \<bar>rp_r (roundPosition (fst (bait_keys openAt endAt a s)) t)\<bar>"
proof -
  obtain i s1 where i: "intBetween 400 800 s = (i, s1)" by fastforce
  obtain b s2 where b: "intBetween 350 550 s1 = (b, s2)" by fastforce
  have "i \<le> 800" "350 \<le> b" "b \<le> 550" using intBetween_range [OF i] intBetween_range [OF b] by simp_all
  then have late: "\<not> t \<le> of_int i" "\<not> t \<le> of_int (openAt - b)" "t \<le> of_int endAt" using assms by linarith+
  have "\<exists>far d d'. find_segment (fst (bait_keys openAt endAt a s)) t = Some (at_key (openAt - b) 34 d, at_key endAt far d') \<and> 34 \<le> far"
    using late intBetween_range [of 34 40] by (fastforce simp: bait_keys_def i b split: prod.split)
  then obtain far d d' where "find_segment (fst (bait_keys openAt endAt a s)) t = Some (at_key (openAt - b) 34 d, at_key endAt far d')" "34 \<le> far"
    by blast
  from distance_between [OF this(1)] this(2) show ?thesis by simp
qed

lemma bait_early:
  assumes "1900 \<le> openAt"
  shows "\<exists>i. 400 \<le> i \<and> i \<le> 800 \<and> \<bar>rp_r (roundPosition (fst (bait_keys openAt endAt a s)) (of_int i))\<bar> = 14"
proof -
  obtain i s1 where i: "intBetween 400 800 s = (i, s1)" by fastforce
  have "\<exists>d. find_segment (fst (bait_keys openAt endAt a s)) (of_int i) = Some (at_key 0 38 a, at_key i 14 d)"
    by (simp add: bait_keys_def i split: prod.split)
  then obtain d where "find_segment (fst (bait_keys openAt endAt a s)) (of_int i) = Some (at_key 0 38 a, at_key i 14 d)" by blast
  from distance_at_end [OF this] intBetween_range [OF i] show ?thesis by auto
qed

lemma idle_far:
  assumes "t \<le> real_of_int endAt"
  shows "22 < \<bar>rp_r (roundPosition (fst (idle_keys endAt a s)) t)\<bar>"
proof -
  obtain r0 s1 where r0: "intBetween 34 42 s = (r0, s1)" by fastforce
  obtain r1 s2 where r1: "intBetween 32 42 s1 = (r1, s2)" by fastforce
  obtain d s3 where d: "drift s2 = (d, s3)" by fastforce
  obtain r2 s4 where r2: "intBetween 34 42 s3 = (r2, s4)" by fastforce
  have "34 \<le> r0" "32 \<le> r1" "34 \<le> r2" using intBetween_range [OF r0] intBetween_range [OF r1] intBetween_range [OF r2] by simp_all
  moreover have "\<exists>p n. find_segment (fst (idle_keys endAt a s)) t = Some (p, n) \<and> rk_r p \<in> {r0, r1} \<and> rk_r n \<in> {r1, r2}"
    using assms by (simp add: idle_keys_def r0 r1 d r2 split: prod.split)
  ultimately obtain p n where "find_segment (fst (idle_keys endAt a s)) t = Some (p, n)" "32 \<le> rk_r p" "32 \<le> rk_r n" by fastforce
  moreover from this have "real_of_int 32 \<le> of_int (min (rk_r p) (rk_r n))" unfolding of_int_le_iff by simp
  ultimately show ?thesis using distance_between [of "fst (idle_keys endAt a s)" t p n] by linarith
qed

section \<open>The scene\<close>

lemma build_runners_each:
  "build_runners keys angles i slots s = (rs, s') \<Longrightarrow>
     map ra_slot rs = slots \<and> (\<forall>j < length slots. \<exists>s''. ra_keys (rs ! j) = fst (keys (i + j) (angles ! (i + j)) s''))"
proof (induction keys angles i slots s arbitrary: rs s' rule: build_runners.induct)
  case (2 keys angles i slot slots s)
  obtain ks s1 where ks: "keys i (angles ! i) s = (ks, s1)" by fastforce
  obtain rest s2 where rest: "build_runners keys angles (Suc i) slots s1 = (rest, s2)" by fastforce
  have rs: "rs = \<lparr>ra_slot = slot, ra_keys = ks\<rparr> # rest" using 2(2) by (simp add: ks rest)
  from 2(1) [OF ks [symmetric] refl rest]
  have tail: "map ra_slot rest = slots" "\<And>j. j < length slots \<Longrightarrow> \<exists>s''. ra_keys (rest ! j) = fst (keys (Suc i + j) (angles ! (Suc i + j)) s'')"
    by auto
  have "\<exists>s''. ra_keys (rs ! j) = fst (keys (i + j) (angles ! (i + j)) s'')" if "j < length (slot # slots)" for j
  proof (cases j)
    case 0
    then show ?thesis using ks rs by (metis fst_conv nth_Cons_0 round_actor.select_convs(2) add_0_right)
  next
    case (Suc j')
    then show ?thesis using tail(2) [of j'] that by (simp add: rs)
  qed
  then show ?case using tail(1) by (simp add: rs)
qed simp

text \<open>Everything about a scene that the judgement and the drawing rest on.\<close>

definition scene_ok :: "switch_round \<Rightarrow> nat \<Rightarrow> int list \<Rightarrow> round_actor list \<Rightarrow> int list \<Rightarrow> bool" where
  "scene_ok scene n slots rs angles \<longleftrightarrow>
     distinct slots \<and> length slots = 8 \<and> (n = 4 \<or> n = 5) \<and> distinct angles \<and> length angles = n
     \<and> sr_selfSlot scene = slots ! 0 \<and> ra_slot (sr_tagger scene) = slots ! 1
     \<and> 1900 \<le> sr_openAt scene \<and> sr_endAt scene = sr_caughtAt scene + 500
     \<and> sr_openAt scene + 1000 \<le> sr_caughtAt scene
     \<and> sr_runners scene = sort_key ra_slot rs \<and> sr_target scene = ra_slot (rs ! 0) \<and> map ra_slot rs = take n (drop 2 slots)
     \<and> (\<forall>j < n. \<exists>s. ra_keys (rs ! j) = fst (runner_keys (sr_openAt scene) (sr_caughtAt scene) (sr_endAt scene) n j (angles ! j) s))"

lemma buildSwitchRound_ok: "\<exists>n slots rs angles. scene_ok (buildSwitchRound seed) n slots rs angles"
proof -
  obtain slots s1 where slots: "shuffledSlots (seed_of seed) = (slots, s1)" by fastforce
  obtain u s2 where u: "next_random s1 = (u, s2)" by fastforce
  define n :: nat where "n = (if u < 1 / 2 then 4 else 5)"
  obtain opens s3 where opens: "intBetween 1900 2600 s2 = (opens, s3)" by fastforce
  obtain chase s4 where chase: "intBetween 1000 1300 s3 = (chase, s4)" by fastforce
  obtain side s5 where side: "intBetween 0 2 s4 = (side, s5)" by fastforce
  define free0 where "free0 = free_angles ([180, 0, 270] ! nat side)"
  obtain free s6 where free: "shuffle_from (length free0 - 1) free0 s5 = (free, s6)" by fastforce
  define angles where "angles = fill_angles n free (spread_angles n free [])"
  define caught where "caught = opens + chase"
  obtain rs s7 where rs: "build_runners (runner_keys opens caught (caught + 500) n) angles 0 (take n (drop 2 slots)) s6 = (rs, s7)" by fastforce
  have n: "n = 4 \<or> n = 5" by (simp add: n_def)
  have "nat side = 0 \<or> nat side = 1 \<or> nat side = 2" using intBetween_range [OF side] by auto
  from free_angles_nine [OF this] have nine: "distinct free0" "length free0 = 9" by (simp_all add: free0_def)
  have perm: "mset free = mset free0" using shuffle_from_mset [OF free] nine(2) by simp
  have "distinct free" "length free = 9" using mset_eq_imp_distinct_iff [OF perm] mset_eq_length [OF perm] nine by simp_all
  then have nine': "card (set free) = 9" by (simp add: distinct_card)
  have spread: "distinct (spread_angles n free [])" "length (spread_angles n free []) \<le> n" "set (spread_angles n free []) \<subseteq> set free"
    using spread_angles_ok [of "[]" n free] n by auto
  then have "n \<le> card (set (spread_angles n free []) \<union> set free)" using nine' n by (auto simp: Un_absorb1)
  from fill_angles_ok [OF spread(1,2) this] have angles: "distinct angles" "length angles = n" by (simp_all add: angles_def)
  have built: "map ra_slot rs = take n (drop 2 slots)"
    "\<forall>j < n. \<exists>s. ra_keys (rs ! j) = fst (runner_keys opens caught (caught + 500) n j (angles ! j) s)"
    using build_runners_each [OF rs] shuffledSlots_perm [OF slots] n by auto
  have shape: "sr_selfSlot (buildSwitchRound seed) = slots ! 0" "ra_slot (sr_tagger (buildSwitchRound seed)) = slots ! 1"
      "sr_runners (buildSwitchRound seed) = sort_key ra_slot rs" "sr_openAt (buildSwitchRound seed) = opens"
      "sr_caughtAt (buildSwitchRound seed) = caught" "sr_endAt (buildSwitchRound seed) = caught + 500"
      "sr_target (buildSwitchRound seed) = ra_slot (rs ! 0)"
    unfolding buildSwitchRound_def Let_def slots u prod.case n_def [symmetric] opens chase side free0_def [symmetric] free
      caught_def [symmetric] angles_def [symmetric] rs by simp_all
  have "scene_ok (buildSwitchRound seed) n slots rs angles"
    unfolding scene_ok_def shape
    using shuffledSlots_perm [OF slots] n angles built intBetween_range [OF opens] intBetween_range [OF chase] by (simp add: caught_def)
  then show ?thesis by blast
qed

lemma scene_runners:
  assumes "scene_ok scene n slots rs angles"
  shows "length rs = n" "set (sr_runners scene) = set rs" "distinct (sr_selfSlot scene # ra_slot (sr_tagger scene) # map ra_slot rs)"
    "j < n \<Longrightarrow> ra_slot (rs ! j) = sr_target scene \<longleftrightarrow> j = 0"
proof -
  have n: "n = 4 \<or> n = 5" and slots: "distinct slots" "length slots = 8" and rs: "map ra_slot rs = take n (drop 2 slots)"
    and target: "sr_target scene = ra_slot (rs ! 0)"
    using assms by (simp_all add: scene_ok_def)
  have "length (map ra_slot rs) = n" unfolding rs using n slots by auto
  then show len: "length rs = n" by simp
  show "set (sr_runners scene) = set rs" using assms by (simp add: scene_ok_def)
  have "take (2 + n) slots = take 2 slots @ take n (drop 2 slots)" by (rule take_add)
  moreover have "take 2 slots = [slots ! 0, slots ! 1]" using slots by (simp add: take_Suc_conv_app_nth numeral_2_eq_2)
  ultimately have "take (2 + n) slots = slots ! 0 # slots ! 1 # map ra_slot rs" by (simp add: rs)
  then have "distinct (slots ! 0 # slots ! 1 # map ra_slot rs)" using distinct_take [OF slots(1), of "2 + n"] by simp
  moreover have "sr_selfSlot scene = slots ! 0" "ra_slot (sr_tagger scene) = slots ! 1" using assms by (simp_all add: scene_ok_def)
  ultimately show d: "distinct (sr_selfSlot scene # ra_slot (sr_tagger scene) # map ra_slot rs)" by simp
  then show "ra_slot (rs ! j) = sr_target scene \<longleftrightarrow> j = 0" if "j < n"
    using nth_eq_iff_index_eq [of "map ra_slot rs" j 0] that n len by (auto simp: target)
qed

lemma runner_in_range_iff:
  assumes ok: "scene_ok scene n slots rs angles" and j: "j < n" and t: "in_window scene t"
  shows "self_distance (roundPosition (ra_keys (rs ! j)) t) \<le> SWITCH_RANGE \<longleftrightarrow> j = 0"
proof -
  obtain s where keys: "ra_keys (rs ! j) = fst (runner_keys (sr_openAt scene) (sr_caughtAt scene) (sr_endAt scene) n j (angles ! j) s)"
    using ok j by (auto simp: scene_ok_def)
  have w: "real_of_int (sr_openAt scene - 150) \<le> t" "t \<le> real_of_int (sr_caughtAt scene + 150)"
    using t by (simp_all add: in_window_def SWITCH_GRACE_MS_def)
  have times: "1900 \<le> sr_openAt scene" "sr_endAt scene = sr_caughtAt scene + 500" using ok by (simp_all add: scene_ok_def)
  then have "t \<le> of_int (sr_endAt scene)" using w by simp
  then show ?thesis
    using target_near [OF w times(1)] bait_far [OF w times] idle_far
    by (simp add: self_distance_position keys runner_keys_def SWITCH_RANGE_def not_le)
qed

text \<open>
  The scene shows the answer. For every seed, every runner of the scene and every moment, the server, which looks at integers
  only, accepts the runner's number exactly if the moment is in the window and the runner is then drawn within the range of the
  switch. So what a player sees is what counts; there is one right number, no two actors share one, and some other runner is within range
  before the window opens.
\<close>

theorem switch_round_shows_answer:
  assumes "runner \<in> set (sr_runners (buildSwitchRound seed))"
  shows "checkSwitchAnswer (buildSwitchRound seed) (ra_slot runner) t = AnswerOk
    \<longleftrightarrow> in_window (buildSwitchRound seed) t \<and> self_distance (roundPosition (ra_keys runner) t) \<le> SWITCH_RANGE"
proof -
  obtain n slots rs angles where ok: "scene_ok (buildSwitchRound seed) n slots rs angles" using buildSwitchRound_ok by blast
  then obtain j where j: "j < n" "runner = rs ! j" using assms scene_runners(1,2) [OF ok] by (auto simp: in_set_conv_nth)
  show ?thesis
    using runner_in_range_iff [OF ok j(1)] scene_runners(4) [OF ok j(1)] j(2)
    by (auto simp: checkSwitchAnswer_def in_window_def)
qed

theorem switch_round_bait:
  "distinct (sr_selfSlot (buildSwitchRound seed) # ra_slot (sr_tagger (buildSwitchRound seed)) # map ra_slot (sr_runners (buildSwitchRound seed)))
   \<and> sr_target (buildSwitchRound seed) \<in> set (map ra_slot (sr_runners (buildSwitchRound seed)))
   \<and> (\<exists>runner \<in> set (sr_runners (buildSwitchRound seed)). \<exists>t. 400 \<le> t \<and> t \<le> 800 \<and> ra_slot runner \<noteq> sr_target (buildSwitchRound seed)
        \<and> self_distance (roundPosition (ra_keys runner) (of_int t)) \<le> SWITCH_RANGE
        \<and> checkSwitchAnswer (buildSwitchRound seed) (ra_slot runner) (of_int t) = AnswerEarly)"
proof -
  define scene where "scene = buildSwitchRound seed"
  obtain n slots rs angles where ok: "scene_ok scene n slots rs angles" unfolding scene_def using buildSwitchRound_ok by blast
  have n: "1 < n" "0 < n" and times: "1900 \<le> sr_openAt scene" using ok by (auto simp: scene_ok_def)
  have sorted: "sr_runners scene = sort_key ra_slot rs" using ok by (simp add: scene_ok_def)
  have "distinct (map ra_slot (sr_runners scene)) \<longleftrightarrow> distinct (map ra_slot rs)"
    by (rule mset_eq_imp_distinct_iff) (simp add: sorted)
  then have d: "distinct (sr_selfSlot scene # ra_slot (sr_tagger scene) # map ra_slot (sr_runners scene))"
    using scene_runners(3) [OF ok] by (simp add: sorted)
  have t: "sr_target scene \<in> set (map ra_slot (sr_runners scene))"
    using scene_runners(1,2,4) [OF ok] n by (metis length_greater_0_conv list.set_map imageI nth_mem)
  obtain s where "ra_keys (rs ! 1) = fst (runner_keys (sr_openAt scene) (sr_caughtAt scene) (sr_endAt scene) n 1 (angles ! 1) s)"
    using ok n by (auto simp: scene_ok_def)
  then have keys: "ra_keys (rs ! 1) = fst (bait_keys (sr_openAt scene) (sr_endAt scene) (angles ! 1) s)" by (simp add: runner_keys_def)
  obtain i where i: "400 \<le> i" "i \<le> 800" "\<bar>rp_r (roundPosition (ra_keys (rs ! 1)) (of_int i))\<bar> = 14"
    using bait_early [OF times] keys by metis
  then have near: "self_distance (roundPosition (ra_keys (rs ! 1)) (of_int i)) \<le> SWITCH_RANGE" by (simp add: self_distance_position SWITCH_RANGE_def)
  have early: "checkSwitchAnswer scene slot (of_int i) = AnswerEarly" for slot
    using i(2) times by (simp add: checkSwitchAnswer_def SWITCH_GRACE_MS_def)
  have "rs ! 1 \<in> set (sr_runners scene)" "ra_slot (rs ! 1) \<noteq> sr_target scene"
    using scene_runners(1,2) [OF ok] scene_runners(4) [OF ok, of 1] n by auto
  then show ?thesis using d t i(1,2) near early unfolding scene_def [symmetric] by blast
qed

theorem switch_round_shows_answer_witness:
  "\<exists>runner t. runner \<in> set (sr_runners (buildSwitchRound 42)) \<and> checkSwitchAnswer (buildSwitchRound 42) (ra_slot runner) t = AnswerOk
     \<and> self_distance (roundPosition (ra_keys runner) t) \<le> SWITCH_RANGE"
proof -
  define scene where "scene = buildSwitchRound 42"
  obtain n slots rs angles where ok: "scene_ok scene n slots rs angles" unfolding scene_def using buildSwitchRound_ok by blast
  obtain runner where r: "runner \<in> set (sr_runners scene)" "ra_slot runner = sr_target scene"
    using switch_round_bait [of 42] by (auto simp: scene_def)
  have "checkSwitchAnswer scene (ra_slot runner) (of_int (sr_openAt scene)) = AnswerOk"
    using ok r(2) by (simp add: checkSwitchAnswer_def SWITCH_GRACE_MS_def scene_ok_def)
  with switch_round_shows_answer [of runner 42] r show ?thesis unfolding scene_def by blast
qed

section \<open>The round on the radio\<close>

text \<open>What a listener knows after some turns: the last distance heard of each runner, and who is in range.\<close>

definition hear_moves :: "radio_move list \<Rightarrow> (int \<rightharpoonup> int) \<Rightarrow> (int \<rightharpoonup> int)" where
  "hear_moves ms m = fold (\<lambda>mv m. m(mv_slot mv \<mapsto> mv_distance mv)) ms m"

definition heard :: "radio_turn list \<Rightarrow> (int \<rightharpoonup> int)" where
  "heard turns = fold (\<lambda>turn. hear_moves (rt_moves turn)) turns Map.empty"

definition in_radio_range :: "radio_turn list \<Rightarrow> int set" where
  "in_radio_range turns = {slot. \<exists>d. heard turns slot = Some d \<and> d \<le> RADIO_RANGE}"

lemma hear_moves_other: "slot \<notin> mv_slot ` set ms \<Longrightarrow> hear_moves ms m slot = m slot"
  unfolding hear_moves_def by (induction ms arbitrary: m) auto

lemma hear_moves_told: "distinct (map mv_slot ms) \<Longrightarrow> mv \<in> set ms \<Longrightarrow> hear_moves ms m (mv_slot mv) = Some (mv_distance mv)"
proof (induction ms arbitrary: m)
  case (Cons x ms)
  then show ?case using hear_moves_other [of "mv_slot mv" ms] by (auto simp: hear_moves_def)
qed simp

lemma hear_sorted:
  assumes "distinct (map mv_slot ms)"
  shows "mv \<in> set ms \<Longrightarrow> hear_moves (sort_key mv_slot ms) m (mv_slot mv) = Some (mv_distance mv)"
    and "slot \<notin> mv_slot ` set ms \<Longrightarrow> hear_moves (sort_key mv_slot ms) m slot = m slot"
proof -
  have "distinct (map mv_slot (sort_key mv_slot ms))" using assms by (subst mset_eq_imp_distinct_iff [of _ "map mv_slot ms"]) simp_all
  then show "mv \<in> set ms \<Longrightarrow> hear_moves (sort_key mv_slot ms) m (mv_slot mv) = Some (mv_distance mv)" by (rule hear_moves_told) simp
  show "slot \<notin> mv_slot ` set ms \<Longrightarrow> hear_moves (sort_key mv_slot ms) m slot = m slot" by (rule hear_moves_other) simp
qed

lemma hear_sorted_slots:
  assumes "distinct (map mv_slot ms)"
  shows "hear_moves (sort_key mv_slot ms) m = m ++ map_of (map (\<lambda>mv. (mv_slot mv, mv_distance mv)) ms)"
proof
  fix slot
  have fst: "map fst (map (\<lambda>mv. (mv_slot mv, mv_distance mv)) ms) = map mv_slot ms" by simp
  show "hear_moves (sort_key mv_slot ms) m slot = (m ++ map_of (map (\<lambda>mv. (mv_slot mv, mv_distance mv)) ms)) slot"
  proof (cases "slot \<in> mv_slot ` set ms")
    case True
    then obtain mv where mv: "mv \<in> set ms" "slot = mv_slot mv" by blast
    then have "map_of (map (\<lambda>mv. (mv_slot mv, mv_distance mv)) ms) slot = Some (mv_distance mv)"
      using assms by (intro map_of_is_SomeI) (auto simp: comp_def)
    then show ?thesis using hear_sorted(1) [OF assms mv(1)] mv(2) by simp
  next
    case False
    then have "map_of (map (\<lambda>mv. (mv_slot mv, mv_distance mv)) ms) slot = None" by (auto simp: map_of_eq_None_iff image_image)
    then show ?thesis using hear_sorted(2) [OF assms False] by (simp add: map_add_def)
  qed
qed

text \<open>
  The round on the radio has one solution. For every seed, after the last turn exactly the accepted runner is in range, and after
  the first exactly one other runner is: answering from the first turn alone is always wrong.
\<close>

theorem radio_round_solution:
  "in_radio_range (rr_turns (buildRadioRound seed)) = {rr_target (buildRadioRound seed)}
   \<and> (\<exists>bait. bait \<noteq> rr_target (buildRadioRound seed) \<and> in_radio_range (take 1 (rr_turns (buildRadioRound seed))) = {bait})
   \<and> distinct (rr_selfSlot (buildRadioRound seed) # rr_taggerSlot (buildRadioRound seed) # rr_runnerSlots (buildRadioRound seed))"
proof -
  obtain slots s1 where slots: "shuffledSlots (seed_of seed) = (slots, s1)" by fastforce
  obtain a s2 where a: "intBetween 4 6 s1 = (a, s2)" by fastforce
  obtain b s3 where b: "intBetween 3 (a - 1) s2 = (b, s3)" by fastforce
  obtain c s4 where c: "intBetween 1 RADIO_RANGE s3 = (c, s4)" by fastforce
  obtain d s5 where d: "intBetween 1 RADIO_RANGE s4 = (d, s5)" by fastforce
  obtain e s6 where e: "intBetween 4 6 s5 = (e, s6)" by fastforce
  obtain g s7 where g: "intBetween 5 7 s6 = (g, s7)" by fastforce
  obtain h s8 where h: "intBetween 4 (g - 1) s7 = (h, s8)" by fastforce
  obtain k s9 where k: "intBetween 4 7 s8 = (k, s9)" by fastforce
  have "4 \<le> a" "5 \<le> g" using intBetween_range [OF a] intBetween_range [OF g] by simp_all
  then have ranges: "3 \<le> a" "c \<le> 2" "d \<le> 2" "3 \<le> e" "3 \<le> g" "3 \<le> h" "3 \<le> k"
    using intBetween_range [OF c] intBetween_range [OF d] intBetween_range [OF e] intBetween_range [OF h] intBetween_range [OF k]
    by (simp_all add: RADIO_RANGE_def)
  have eight: "length slots = 8" and "distinct slots" using shuffledSlots_perm [OF slots] by simp_all
  then have ne: "slots ! i \<noteq> slots ! j" if "i < 8" "j < 8" "i \<noteq> j" for i j using that by (simp add: nth_eq_iff_index_eq)
  define first where "first = [moves_to (slots ! 2) a, moves_to (slots ! 3) d, moves_to (slots ! 4) g, moves_to (slots ! 5) k]"
  define second where "second = [moves_to (slots ! 2) b, moves_to (slots ! 3) e]"
  define third where "third = [moves_to (slots ! 2) c, moves_to (slots ! 4) h]"
  have round: "rr_turns (buildRadioRound seed) = [\<lparr>rt_tagger = 6, rt_moves = sort_key mv_slot first\<rparr>,
      \<lparr>rt_tagger = 4, rt_moves = sort_key mv_slot second\<rparr>, \<lparr>rt_tagger = 2, rt_moves = sort_key mv_slot third\<rparr>]"
    "rr_target (buildRadioRound seed) = slots ! 2" "rr_selfSlot (buildRadioRound seed) = slots ! 0" "rr_taggerSlot (buildRadioRound seed) = slots ! 1"
    "rr_runnerSlots (buildRadioRound seed) = sort [slots ! 2, slots ! 3, slots ! 4, slots ! 5]"
    unfolding buildRadioRound_def Let_def slots prod.case a b c d e g h k first_def second_def third_def by simp_all
  have ds: "distinct (map mv_slot first)" "distinct (map mv_slot second)" "distinct (map mv_slot third)"
    by (simp_all add: first_def second_def third_def ne)
  have "heard (rr_turns (buildRadioRound seed)) = [slots ! 2 \<mapsto> c, slots ! 3 \<mapsto> e, slots ! 4 \<mapsto> h, slots ! 5 \<mapsto> k]"
    unfolding round heard_def by (simp add: hear_sorted_slots [OF ds(1)] hear_sorted_slots [OF ds(2)] hear_sorted_slots [OF ds(3)])
      (simp add: first_def second_def third_def fun_eq_iff ne)
  then have "in_radio_range (rr_turns (buildRadioRound seed)) = {slots ! 2}"
    using ranges by (auto simp: in_radio_range_def RADIO_RANGE_def ne split: if_splits)
  moreover have "heard (take 1 (rr_turns (buildRadioRound seed))) = map_of (map (\<lambda>mv. (mv_slot mv, mv_distance mv)) first)"
    unfolding round heard_def by (simp add: hear_sorted_slots [OF ds(1)])
  then have "in_radio_range (take 1 (rr_turns (buildRadioRound seed))) = {slots ! 3}"
    using ranges by (auto simp: in_radio_range_def RADIO_RANGE_def first_def ne split: if_splits)
  moreover have "distinct (slots ! 0 # slots ! 1 # sort [slots ! 2, slots ! 3, slots ! 4, slots ! 5])" using ne by simp
  ultimately show ?thesis unfolding round(2-5) using ne by simp
qed

section \<open>Proof of work\<close>

lemma verifyPow_integer:
  "0 \<le> k \<Longrightarrow> k \<le> 9007199254740991 \<Longrightarrow> verifyPow nonce bits (Fin (of_int k)) \<longleftrightarrow> bits \<le> int (powDigestBits nonce k)"
  by (simp add: verifyPow_def safe_integer_def integral_def)

text \<open>
  Charging and checking agree. The search returns the first counter of its range that the server accepts, and nothing if
  there is none; so slices searched one after the other find what one long search would.
\<close>

theorem searchPow_first_accepted:
  assumes "0 \<le> start" and "start + int budget \<le> 9007199254740992"
  shows "searchPow nonce bits start budget
    = List.find (\<lambda>k. verifyPow nonce bits (Fin (of_int k))) [start..start + int budget - 1]"
  using assms
proof (induction budget arbitrary: start)
  case (Suc budget)
  then have "verifyPow nonce bits (Fin (of_int start)) \<longleftrightarrow> bits \<le> int (powDigestBits nonce start)" by (intro verifyPow_integer) auto
  moreover have "[start..start + int (Suc budget) - 1] = start # [start + 1..start + 1 + int budget - 1]"
    using upto_rec1 [of start "start + int (Suc budget) - 1"] by (simp add: algebra_simps)
  ultimately show ?case using Suc.IH [of "start + 1"] Suc.prems by simp
qed simp

theorem searchPow_first_accepted_witness:
  "searchPow ''n'' 0 5 3 = Some 5 \<and> List.find (\<lambda>k. verifyPow ''n'' 0 (Fin (of_int k))) [5..5 + int 3 - 1] = Some 5"
proof -
  have "searchPow ''n'' 0 5 3 = Some 5" by (simp add: numeral_3_eq_3)
  with searchPow_first_accepted [of 5 3 "''n''" 0] show ?thesis by simp
qed

lemma searchPow_slices:
  "searchPow nonce bits start (a + b) = (case searchPow nonce bits start a of Some k \<Rightarrow> Some k | None \<Rightarrow> searchPow nonce bits (start + int a) b)"
proof (induction a arbitrary: start)
  case (Suc a)
  have one_on: "start + 1 + int a = start + int (Suc a)" by simp
  show ?case using Suc [of "start + 1"] unfolding one_on by (simp del: of_nat_Suc)
qed simp

text \<open>A higher difficulty accepts fewer counters.\<close>

lemma verifyPow_harder: "bits \<le> bits' \<Longrightarrow> verifyPow nonce bits' counter \<Longrightarrow> verifyPow nonce bits counter"
  by (auto simp: verifyPow_def split: option.splits)

lemma verifyPow_at_most_256: "verifyPow nonce bits counter \<Longrightarrow> bits \<le> 256"
proof -
  assume "verifyPow nonce bits counter"
  then obtain k where "bits \<le> int (powDigestBits nonce k)" by (auto simp: verifyPow_def split: option.splits)
  then show ?thesis using leadingZeroBits_le [of "sha256 (powInput nonce k)"] by (simp add: powDigestBits_def length_sha256)
qed

end
