(* ===== verification/Sha256Vector.thy ===== *)
theory Sha256Vector
  imports Sha256
begin

text \<open>The digest of \<open>Sha256\<close> is the standard's: the chain after the one block of the empty message.\<close>

lemma sha256_empty: "digest_block (pad_message []) initial_chain 0
    = Chain 0xe3b0c442 0x98fc1c14 0x9afbf4c8 0x996fb924 0x27ae41e4 0x649b934c 0xa495991b 0x7852b855"
  by code_simp

end
