(* ===== verification/VerificationCode.thy ===== *)
theory VerificationCode
  imports Redis
begin

text \<open>
  \<open>server-match/src/auth/verification-code.ts\<close>: the six-digit codes sent by mail. A code is issued, claimed by the request that
  supplies it, and the claim is committed or released. Every function awaits Redis several times, and other requests
  run in between; so a function is a machine that makes one call of Redis per step, and the whole function is its run. The random code, the
  claim identifier and the clock of Redis come from outside.
\<close>

section \<open>Keys and limits\<close>

definition VERIFICATION_CODE_TTL_SECONDS :: int where "VERIFICATION_CODE_TTL_SECONDS = 300"
definition MAX_ATTEMPTS :: int where "MAX_ATTEMPTS = 5"
definition ISSUE_COOLDOWN_SECONDS :: int where "ISSUE_COOLDOWN_SECONDS = 60"
definition MAX_ISSUES_PER_MINUTE :: int where "MAX_ISSUES_PER_MINUTE = 3"
definition MAX_ISSUES_PER_HOUR :: int where "MAX_ISSUES_PER_HOUR = 10"
definition CLAIM_TTL_SECONDS :: int where "CLAIM_TTL_SECONDS = 30"

definition codeKey :: "string \<Rightarrow> string \<Rightarrow> string" where
  "codeKey purpose email = ''auth:code:'' @ purpose @ '':'' @ email"

definition attemptsKey :: "string \<Rightarrow> string \<Rightarrow> string" where
  "attemptsKey purpose email = ''auth:code-attempts:'' @ purpose @ '':'' @ email"

definition cooldownKey :: "string \<Rightarrow> string \<Rightarrow> string" where
  "cooldownKey purpose email = ''auth:code-cooldown:'' @ purpose @ '':'' @ email"

definition issueMinuteKey :: "string \<Rightarrow> string \<Rightarrow> string" where
  "issueMinuteKey purpose email = ''auth:code-issue-minute:'' @ purpose @ '':'' @ email"

definition issueHourKey :: "string \<Rightarrow> string \<Rightarrow> string" where
  "issueHourKey purpose email = ''auth:code-issue-hour:'' @ purpose @ '':'' @ email"

definition claimKey :: "string \<Rightarrow> string \<Rightarrow> string" where
  "claimKey purpose email = ''auth:code-claim:'' @ purpose @ '':'' @ email"

record code_claim =
  cc_code :: string
  cc_claimId :: string
  cc_remainingTtlMs :: int

section \<open>Issuing\<close>

text \<open>
  The points at which \<open>issueVerificationCode\<close> waits. The two counters are incremented concurrently; here the one of the minute comes first, and the
  other way round is the same because they are different keys.
\<close>

datatype issue_pc =
    IsLook
  | IsCool
  | IsMinute
  | IsHour "int option"
  | IsStore
  | IsReset string
  | IsDone "string option"
  | IsFailed

fun issue_step :: "'db redis \<Rightarrow> string \<Rightarrow> string \<Rightarrow> int \<Rightarrow> issue_pc \<times> 'db \<Rightarrow> issue_pc \<times> 'db" where
  "issue_step R purpose email drawn (IsLook, db) =
     (if redis_get R (codeKey purpose email) db \<noteq> None then (IsDone None, db) else (IsCool, db))"
| "issue_step R purpose email drawn (IsCool, db) =
     (case setIfAbsent R (cooldownKey purpose email) ''1'' ISSUE_COOLDOWN_SECONDS db of
        (ok, db') \<Rightarrow> (if ok then IsMinute else IsDone None, db'))"
| "issue_step R purpose email drawn (IsMinute, db) =
     (case incrementWithTtl R (issueMinuteKey purpose email) 60 db of (n, db') \<Rightarrow> (IsHour n, db'))"
| "issue_step R purpose email drawn (IsHour n, db) =
     (case incrementWithTtl R (issueHourKey purpose email) (60 * 60) db of (m, db') \<Rightarrow>
        (case (n, m) of
           (Some minuteCount, Some hourCount) \<Rightarrow>
             if MAX_ISSUES_PER_MINUTE < minuteCount \<or> MAX_ISSUES_PER_HOUR < hourCount then (IsDone None, db') else (IsStore, db')
         | _ \<Rightarrow> (IsFailed, db')))"
| "issue_step R purpose email drawn (IsStore, db) =
     (let code = number_text drawn
      in (IsReset code, redis_set R (codeKey purpose email) code (Some VERIFICATION_CODE_TTL_SECONDS) db))"
| "issue_step R purpose email drawn (IsReset code, db) = (IsDone (Some code), redis_del R (attemptsKey purpose email) db)"
| "issue_step R purpose email drawn (IsDone r, db) = (IsDone r, db)"
| "issue_step R purpose email drawn (IsFailed, db) = (IsFailed, db)"

text \<open>The function when nothing else runs.\<close>

definition issueVerificationCode :: "'db redis \<Rightarrow> string \<Rightarrow> string \<Rightarrow> int \<Rightarrow> 'db \<Rightarrow> issue_pc \<times> 'db" where
  "issueVerificationCode R purpose email drawn db = (issue_step R purpose email drawn ^^ 6) (IsLook, db)"

section \<open>Claiming\<close>

text \<open>\<open>matches\<close> compares the UTF-8 bytes of the two codes, which are equal exactly if the codes are.\<close>

definition code_matches :: "string \<Rightarrow> string \<Rightarrow> bool" where
  "code_matches saved supplied = (saved = supplied)"

datatype claim_pc =
    ClLook
  | ClCount
  | ClDrop
  | ClTake string
  | ClDone "code_claim option"
  | ClFailed

fun claim_step :: "'db redis \<Rightarrow> string \<Rightarrow> string \<Rightarrow> string \<Rightarrow> string \<Rightarrow> claim_pc \<times> 'db \<Rightarrow> claim_pc \<times> 'db" where
  "claim_step R purpose email supplied claimId (ClLook, db) =
     (case redis_get R (codeKey purpose email) db of
        None \<Rightarrow> (ClDone None, db)
      | Some saved \<Rightarrow> if code_matches saved supplied then (ClTake saved, db) else (ClCount, db))"
| "claim_step R purpose email supplied claimId (ClCount, db) =
     (case incrementWithTtl R (attemptsKey purpose email) VERIFICATION_CODE_TTL_SECONDS db of
        (Some attempts, db') \<Rightarrow> (if MAX_ATTEMPTS \<le> attempts then ClDrop else ClDone None, db')
      | (None, db') \<Rightarrow> (ClFailed, db'))"
| "claim_step R purpose email supplied claimId (ClDrop, db) = (ClDone None, redis_del R (codeKey purpose email) db)"
| "claim_step R purpose email supplied claimId (ClTake saved, db) =
     (case compareAndClaim R (codeKey purpose email) saved (claimKey purpose email) claimId CLAIM_TTL_SECONDS db of
        (ttl, db') \<Rightarrow> (ClDone (if ttl \<le> 0 then None
             else Some \<lparr>cc_code = saved, cc_claimId = claimId, cc_remainingTtlMs = ttl\<rparr>), db'))"
| "claim_step R purpose email supplied claimId (ClDone r, db) = (ClDone r, db)"
| "claim_step R purpose email supplied claimId (ClFailed, db) = (ClFailed, db)"

definition claimVerificationCode :: "'db redis \<Rightarrow> string \<Rightarrow> string \<Rightarrow> string \<Rightarrow> string \<Rightarrow> 'db \<Rightarrow> claim_pc \<times> 'db" where
  "claimVerificationCode R purpose email supplied claimId db = (claim_step R purpose email supplied claimId ^^ 3) (ClLook, db)"

section \<open>Committing and releasing\<close>

text \<open>The first half of a commit gives the claim up, the second forgets the failed attempts.\<close>

definition commit_claim :: "'db redis \<Rightarrow> string \<Rightarrow> string \<Rightarrow> code_claim \<Rightarrow> 'db \<Rightarrow> bool \<times> 'db" where
  "commit_claim R purpose email c db = compareAndDelete R (claimKey purpose email) (cc_claimId c) db"

definition commit_attempts :: "'db redis \<Rightarrow> string \<Rightarrow> string \<Rightarrow> 'db \<Rightarrow> 'db" where
  "commit_attempts R purpose email db = redis_del R (attemptsKey purpose email) db"

definition commitVerificationCodeClaim :: "'db redis \<Rightarrow> string \<Rightarrow> string \<Rightarrow> code_claim \<Rightarrow> 'db \<Rightarrow> 'db" where
  "commitVerificationCodeClaim R purpose email c db = commit_attempts R purpose email (snd (commit_claim R purpose email c db))"

definition releaseVerificationCodeClaim :: "'db redis \<Rightarrow> string \<Rightarrow> string \<Rightarrow> code_claim \<Rightarrow> 'db \<Rightarrow> bool \<times> 'db" where
  "releaseVerificationCodeClaim R purpose email c db =
     releaseClaim R (claimKey purpose email) (cc_claimId c) (codeKey purpose email) (cc_code c) (cc_remainingTtlMs c) db"

end
