(* ===== verification/VerificationProps.thy ===== *)
theory VerificationProps
  imports VerificationCode
begin

text \<open>
  What the mail codes guarantee. \<open>code_step\<close> lets any number of requests for one purpose and address run at once, one call of
  Redis at a time, with time passing and other keys changing in between; three counters record what happened. In every run a stored code is
  granted to one work at a time. Guesses made one after the other are limited to five; guesses made at once are not.
\<close>

section \<open>Requests running at once\<close>

record 'db code_system =
  vs_db :: 'db
  vs_issuers :: "nat \<Rightarrow> issue_pc"
  vs_claimers :: "nat \<Rightarrow> claim_pc"
  vs_stored :: nat
  vs_granted :: nat
  vs_returned :: nat

text \<open>A request is a number; what it supplies, its claim identifier and the code it draws are given for each.\<close>

record request_inputs =
  in_drawn :: "nat \<Rightarrow> int"
  in_supplied :: "nat \<Rightarrow> string"
  in_claimId :: "nat \<Rightarrow> string"

definition unrelated :: "('db \<Rightarrow> keyspace) \<Rightarrow> string \<Rightarrow> string \<Rightarrow> 'db \<Rightarrow> 'db \<Rightarrow> bool" where
  "unrelated view purpose email db db' \<longleftrightarrow>
     view db' (codeKey purpose email) = view db (codeKey purpose email) \<and> view db' (claimKey purpose email) = view db (claimKey purpose email)
   \<and> view db' (attemptsKey purpose email) = view db (attemptsKey purpose email)"

inductive code_step :: "'db redis \<Rightarrow> ('db \<Rightarrow> keyspace) \<Rightarrow> string \<Rightarrow> string \<Rightarrow> request_inputs \<Rightarrow> 'db code_system \<Rightarrow> 'db code_system \<Rightarrow> bool"
  for R view purpose email inp where
  begin_issue: "code_step R view purpose email inp s (s\<lparr>vs_issuers := (vs_issuers s)(i := IsLook)\<rparr>)"
| begin_claim: "code_step R view purpose email inp s (s\<lparr>vs_claimers := (vs_claimers s)(i := ClLook)\<rparr>)"
| issue: "issue_step R purpose email (in_drawn inp i) (vs_issuers s i, vs_db s) = (pc, db) \<Longrightarrow>
    code_step R view purpose email inp s (s\<lparr>vs_db := db, vs_issuers := (vs_issuers s)(i := pc),
      vs_stored := vs_stored s + (if vs_issuers s i = IsStore then 1 else 0)\<rparr>)"
| claim: "claim_step R purpose email (in_supplied inp i) (in_claimId inp i) (vs_claimers s i, vs_db s) = (pc, db) \<Longrightarrow>
    code_step R view purpose email inp s (s\<lparr>vs_db := db, vs_claimers := (vs_claimers s)(i := pc),
      vs_granted := vs_granted s + (if (\<exists>saved. vs_claimers s i = ClTake saved) \<and> (\<exists>c. pc = ClDone (Some c)) then 1 else 0)\<rparr>)"
| commit: "code_step R view purpose email inp s (s\<lparr>vs_db := snd (commit_claim R purpose email c (vs_db s))\<rparr>)"
| forget: "code_step R view purpose email inp s (s\<lparr>vs_db := commit_attempts R purpose email (vs_db s)\<rparr>)"
| release: "releaseVerificationCodeClaim R purpose email c (vs_db s) = (ok, db) \<Longrightarrow>
    code_step R view purpose email inp s (s\<lparr>vs_db := db, vs_returned := vs_returned s + (if ok then 1 else 0)\<rparr>)"
| elapse: "0 \<le> ms \<Longrightarrow> code_step R view purpose email inp s (s\<lparr>vs_db := rd_elapse R ms (vs_db s)\<rparr>)"
| other: "unrelated view purpose email (vs_db s) db \<Longrightarrow> code_step R view purpose email inp s (s\<lparr>vs_db := db\<rparr>)"

abbreviation code_run :: "'db redis \<Rightarrow> ('db \<Rightarrow> keyspace) \<Rightarrow> string \<Rightarrow> string \<Rightarrow> request_inputs \<Rightarrow> 'db code_system \<Rightarrow> 'db code_system \<Rightarrow> bool" where
  "code_run R view purpose email inp \<equiv> (code_step R view purpose email inp)\<^sup>*\<^sup>*"

lemma code_keys_differ [simp]:
  "codeKey p e \<noteq> claimKey p e" "codeKey p e \<noteq> attemptsKey p e" "claimKey p e \<noteq> attemptsKey p e"
  "codeKey p e \<noteq> cooldownKey p e" "codeKey p e \<noteq> issueMinuteKey p e" "codeKey p e \<noteq> issueHourKey p e"
  "claimKey p e \<noteq> codeKey p e" "attemptsKey p e \<noteq> codeKey p e" "attemptsKey p e \<noteq> claimKey p e"
  "claimKey p e \<noteq> cooldownKey p e" "claimKey p e \<noteq> issueMinuteKey p e" "claimKey p e \<noteq> issueHourKey p e"
  "attemptsKey p e \<noteq> cooldownKey p e" "attemptsKey p e \<noteq> issueMinuteKey p e" "attemptsKey p e \<noteq> issueHourKey p e"
  by (simp_all add: codeKey_def claimKey_def attemptsKey_def cooldownKey_def issueMinuteKey_def issueHourKey_def)

section \<open>A code is granted to one work at a time\<close>

text \<open>A code in store, and a claim in store, are always paid for.\<close>

definition code_inv :: "('db \<Rightarrow> keyspace) \<Rightarrow> string \<Rightarrow> string \<Rightarrow> 'db code_system \<Rightarrow> bool" where
  "code_inv view purpose email s \<longleftrightarrow>
     vs_granted s + live (view (vs_db s) (codeKey purpose email)) \<le> vs_stored s + vs_returned s
   \<and> vs_returned s + live (view (vs_db s) (claimKey purpose email)) \<le> vs_granted s"

text \<open>Changes that add neither a code nor a claim.\<close>

definition fades :: "('db \<Rightarrow> keyspace) \<Rightarrow> string \<Rightarrow> string \<Rightarrow> 'db \<Rightarrow> 'db \<Rightarrow> bool" where
  "fades view purpose email db db' \<longleftrightarrow>
     live (view db' (codeKey purpose email)) \<le> live (view db (codeKey purpose email))
   \<and> live (view db' (claimKey purpose email)) \<le> live (view db (claimKey purpose email))"

lemma fades_inv:
  "code_inv view p e s \<Longrightarrow> fades view p e (vs_db s) (vs_db s') \<Longrightarrow> vs_granted s' = vs_granted s \<Longrightarrow> vs_returned s' = vs_returned s \<Longrightarrow>
     vs_stored s' = vs_stored s \<Longrightarrow> code_inv view p e s'"
  unfolding code_inv_def fades_def by linarith

lemma issue_frame:
  assumes "redis_laws R view" and "issue_step R p e d (pc, db) = (pc', db')" and "pc \<noteq> IsStore" and "j = codeKey p e \<or> j = claimKey p e"
  shows "view db' j = view db j"
proof -
  note D = redis_lawsD(3,4) [OF assms(1)] increment_frame [OF assms(1)]
  have keys: "j \<noteq> cooldownKey p e" "j \<noteq> issueMinuteKey p e" "j \<noteq> issueHourKey p e" "j \<noteq> attemptsKey p e"
    using assms(4) code_keys_differ [of p e] by metis+
  have "view (snd (issue_step R p e d (pc, db))) j = view db j"
    using assms(3) keys by (cases pc) (simp_all add: setIfAbsent_def redis_del_def D case_prod_beta split: option.split)
  then show ?thesis by (simp add: assms(2))
qed

lemma issue_fades:
  "redis_laws R view \<Longrightarrow> issue_step R p e d (pc, db) = (pc', db') \<Longrightarrow> pc \<noteq> IsStore \<Longrightarrow> fades view p e db db'"
  by (simp add: fades_def issue_frame)

lemma issue_stores:
  assumes "redis_laws R view" and "issue_step R p e d (IsStore, db) = (pc', db')"
  shows "view db' (claimKey p e) = view db (claimKey p e)"
  using assms redis_lawsD(3) [OF assms(1)] by (auto simp: redis_set_def VERIFICATION_CODE_TTL_SECONDS_def Let_def)

lemma claim_frame:
  assumes "redis_laws R view" and "claim_step R p e given cid (pc, db) = (pc', db')" and "\<nexists>saved. pc = ClTake saved"
  shows "view db' (claimKey p e) = view db (claimKey p e) \<and> (view db' (codeKey p e) = view db (codeKey p e) \<or> view db' (codeKey p e) = None)"
proof -
  note D = redis_lawsD(4) [OF assms(1)] increment_frame [OF assms(1)]
  have "view (snd (claim_step R p e given cid (pc, db))) (claimKey p e) = view db (claimKey p e)
      \<and> (view (snd (claim_step R p e given cid (pc, db))) (codeKey p e) = view db (codeKey p e)
         \<or> view (snd (claim_step R p e given cid (pc, db))) (codeKey p e) = None)"
    using assms(3) by (cases pc) (simp_all add: redis_del_def D case_prod_beta split: option.split)
  then show ?thesis by (simp add: assms(2))
qed

lemma claim_fades:
  "redis_laws R view \<Longrightarrow> claim_step R p e given cid (pc, db) = (pc', db') \<Longrightarrow> \<nexists>saved. pc = ClTake saved \<Longrightarrow> fades view p e db db'"
  using claim_frame by (fastforce simp: fades_def)

text \<open>Taking a code: either nothing changes, or the code becomes the claim. A code without the time limit that every stored one has
  would become a claim that the caller does not hear of.\<close>

lemma claim_takes:
  assumes "redis_laws R view" and "claim_step R p e given cid (ClTake saved, db) = (pc', db')"
  shows "pc' = ClDone None \<and> fades view p e db db'
    \<or> (\<exists>left. view db (codeKey p e) = Some (saved, left) \<and> view db (claimKey p e) = None \<and> view db' (codeKey p e) = None
        \<and> view db' (claimKey p e) = Some (cid, Some 30000)
        \<and> pc' = ClDone (if pttl_of (Some (saved, left)) \<le> 0 then None
             else Some \<lparr>cc_code = saved, cc_claimId = cid, cc_remainingTtlMs = pttl_of (Some (saved, left))\<rparr>))"
proof (cases "view db (claimKey p e) = None \<and> (\<exists>left. view db (codeKey p e) = Some (saved, left))")
  case True
  then obtain left where v: "view db (claimKey p e) = None" "view db (codeKey p e) = Some (saved, left)" by blast
  then have "compareAndClaim R (codeKey p e) saved (claimKey p e) cid CLAIM_TTL_SECONDS db
      = (pttl_of (Some (saved, left)), rd_put R (claimKey p e) cid (Some 30000) (rd_remove R (codeKey p e) db))"
    using redis_lawsD(1,2) [OF assms(1)] by (simp add: compareAndClaim_def CLAIM_TTL_SECONDS_def)
  then show ?thesis using assms(2) v redis_lawsD(3,4) [OF assms(1)] by auto
next
  case False
  have "fst (compareAndClaim R (codeKey p e) saved (claimKey p e) cid CLAIM_TTL_SECONDS db) < 0
      \<and> snd (compareAndClaim R (codeKey p e) saved (claimKey p e) cid CLAIM_TTL_SECONDS db) = db"
    using False redis_lawsD(1) [OF assms(1)] by (auto simp: compareAndClaim_def)
  then show ?thesis using assms(2) by (auto simp: fades_def split: prod.splits)
qed

lemma release_returns:
  assumes "redis_laws R view" and "releaseVerificationCodeClaim R p e c db = (ok, db')"
  shows "\<not> ok \<and> db' = db
    \<or> ok \<and> live (view db (claimKey p e)) = 1 \<and> live (view db' (claimKey p e)) = 0 \<and> live (view db' (codeKey p e)) = 1"
  using assms redis_lawsD(1,3,4) [OF assms(1)]
  by (auto simp: releaseVerificationCodeClaim_def releaseClaim_def split: if_splits)

text \<open>Every stored code has a time limit, so that \<open>PTTL\<close> is positive while it is there.\<close>

definition code_timed :: "('db \<Rightarrow> keyspace) \<Rightarrow> string \<Rightarrow> string \<Rightarrow> 'db \<Rightarrow> bool" where
  "code_timed view purpose email db \<longleftrightarrow>
     (case view db (codeKey purpose email) of Some (_, Some left) \<Rightarrow> 0 < left | Some (_, None) \<Rightarrow> False | None \<Rightarrow> True)"

lemma code_timed_cong: "view db' (codeKey p e) = view db (codeKey p e) \<Longrightarrow> code_timed view p e db \<Longrightarrow> code_timed view p e db'"
  by (simp add: code_timed_def)

lemma code_timed_gone [simp]: "view db' (codeKey p e) = None \<Longrightarrow> code_timed view p e db'"
  by (simp add: code_timed_def)

lemma aged_timed: "case x of Some (_, Some left) \<Rightarrow> 0 < left | Some (_, None) \<Rightarrow> False | None \<Rightarrow> True \<Longrightarrow>
    case aged ms x of Some (_, Some left) \<Rightarrow> 0 < left | Some (_, None) \<Rightarrow> False | None \<Rightarrow> True"
  by (auto simp: aged_def split: option.splits)

lemma issue_timed:
  assumes "redis_laws R view" and "issue_step R p e d (pc, db) = (pc', db')" and "code_timed view p e db"
  shows "code_timed view p e db'"
proof (cases "pc = IsStore")
  case True
  then show ?thesis using assms(2) redis_lawsD(3) [OF assms(1)]
    by (auto simp: redis_set_def VERIFICATION_CODE_TTL_SECONDS_def Let_def code_timed_def)
next
  case False
  have "view db' (codeKey p e) = view db (codeKey p e)" by (rule issue_frame [OF assms(1,2) False]) simp
  then show ?thesis using assms(3) by (rule code_timed_cong)
qed

lemma claim_timed:
  assumes "redis_laws R view" and "claim_step R p e given cid (pc, db) = (pc', db')" and "code_timed view p e db"
  shows "code_timed view p e db'"
proof -
  have "view db' (codeKey p e) = view db (codeKey p e) \<or> view db' (codeKey p e) = None"
  proof (cases "\<exists>saved. pc = ClTake saved")
    case True
    then obtain saved where pc: "pc = ClTake saved" by blast
    then show ?thesis using assms(2) redis_lawsD(3,4) [OF assms(1)] by (auto simp: compareAndClaim_def split: if_splits)
  next
    case False
    show ?thesis using claim_frame [OF assms(1,2) False] by (rule conjunct2)
  qed
  then show ?thesis using assms(3) by (auto simp: code_timed_def)
qed

definition code_good :: "('db \<Rightarrow> keyspace) \<Rightarrow> string \<Rightarrow> string \<Rightarrow> 'db code_system \<Rightarrow> bool" where
  "code_good view purpose email s \<longleftrightarrow> code_inv view purpose email s \<and> code_timed view purpose email (vs_db s)"

lemma code_step_good:
  assumes "code_step R view p e inp s s'" and R: "redis_laws R view" and good: "code_good view p e s"
  shows "code_good view p e s'"
proof -
  have inv: "code_inv view p e s" and timed: "code_timed view p e (vs_db s)" using good by (simp_all add: code_good_def)
  note D = redis_lawsD [OF R]
  show ?thesis
    using assms(1)
  proof cases
    case (issue i pc db)
    have "code_inv view p e s'"
    proof (cases "vs_issuers s i = IsStore")
      case True
      with issue(2) issue_stores [OF R, of p e "in_drawn inp i" "vs_db s" pc db] inv show ?thesis
        using live_simps(3) [of "view db (codeKey p e)"] by (simp add: issue(1) code_inv_def)
    next
      case False
      with fades_inv [OF inv, of s'] issue_fades [OF R issue(2)] show ?thesis by (simp add: issue(1))
    qed
    then show ?thesis using issue_timed [OF R issue(2) timed] by (simp add: code_good_def issue(1))
  next
    case (claim i pc db)
    have timed': "code_timed view p e db" by (rule claim_timed [OF R claim(2) timed])
    have "code_inv view p e s'"
    proof (cases "\<exists>saved. vs_claimers s i = ClTake saved")
      case True
      then obtain saved where saved: "vs_claimers s i = ClTake saved" by blast
      from claim_takes [OF R claim(2) [unfolded saved]] show ?thesis
      proof (elim disjE exE conjE)
        assume "pc = ClDone None" "fades view p e (vs_db s) db"
        with fades_inv [OF inv, of s'] show ?thesis by (simp add: claim(1))
      next
        fix left
        assume v: "view (vs_db s) (codeKey p e) = Some (saved, left)" "view (vs_db s) (claimKey p e) = None" "view db (codeKey p e) = None"
          "view db (claimKey p e) = Some (in_claimId inp i, Some 30000)"
          and pc: "pc = ClDone (if pttl_of (Some (saved, left)) \<le> 0 then None
             else Some \<lparr>cc_code = saved, cc_claimId = in_claimId inp i, cc_remainingTtlMs = pttl_of (Some (saved, left))\<rparr>)"
        have "0 < pttl_of (Some (saved, left))" using timed v(1) by (auto simp: code_timed_def pttl_of_def split: option.splits)
        then show ?thesis using inv v saved pc by (simp add: claim(1) code_inv_def)
      qed
    next
      case False
      with fades_inv [OF inv, of s'] claim_fades [OF R claim(2)] show ?thesis by (simp add: claim(1))
    qed
    then show ?thesis using timed' by (simp add: code_good_def claim(1))
  next
    case (commit c)
    have "fades view p e (vs_db s) (vs_db s')" "view (vs_db s') (codeKey p e) = view (vs_db s) (codeKey p e)"
      using D by (auto simp: commit commit_claim_def compareAndDelete_def fades_def)
    then show ?thesis using fades_inv [OF inv, of s'] code_timed_cong [OF _ timed, of "vs_db s'"] by (simp add: commit code_good_def)
  next
    case forget
    have "fades view p e (vs_db s) (vs_db s')" "view (vs_db s') (codeKey p e) = view (vs_db s) (codeKey p e)"
      using D by (simp_all add: forget commit_attempts_def redis_del_def fades_def)
    then show ?thesis using fades_inv [OF inv, of s'] code_timed_cong [OF _ timed, of "vs_db s'"] by (simp add: forget code_good_def)
  next
    case (release c ok db)
    have "view db (codeKey p e) = view (vs_db s) (codeKey p e) \<or> view db (codeKey p e) = Some (cc_code c, Some (max 1 (cc_remainingTtlMs c)))"
      using release(2) D by (auto simp: releaseVerificationCodeClaim_def releaseClaim_def split: if_splits)
    then have "code_timed view p e db" using timed by (auto simp: code_timed_def)
    then show ?thesis using release_returns [OF R release(2)] inv live_simps(3) [of "view (vs_db s) (codeKey p e)"]
      by (auto simp: release(1) code_good_def code_inv_def)
  next
    case (elapse ms)
    then show ?thesis using fades_inv [OF inv, of s'] live_aged aged_timed timed D(7) [OF elapse(2)]
      by (simp add: code_good_def fades_def code_timed_def)
  next
    case (other db)
    then show ?thesis using inv timed by (simp add: code_good_def code_inv_def code_timed_def unrelated_def)
  qed (use good in \<open>simp_all add: code_good_def code_inv_def\<close>)
qed

lemma code_run_good: "code_run R view p e inp s s' \<Longrightarrow> redis_laws R view \<Longrightarrow> code_good view p e s \<Longrightarrow> code_good view p e s'"
  by (induction rule: rtranclp_induct) (auto intro: code_step_good)

text \<open>
  C14. One work per code. However many requests for an address run at once, and however their calls of Redis interleave, works are
  granted at most as often as codes were stored or handed back, and handed back at most as often as granted: two requests never
  start work on the same code at the same time.
\<close>

theorem codes_granted_once:
  assumes "redis_laws R view" and "code_run R view purpose email inp s s'"
    and "view (vs_db s) (codeKey purpose email) = None" and "view (vs_db s) (claimKey purpose email) = None"
    and "vs_stored s = 0" and "vs_granted s = 0" and "vs_returned s = 0"
  shows "vs_granted s' \<le> vs_stored s' + vs_returned s' \<and> vs_returned s' \<le> vs_granted s'"
proof -
  have "code_good view purpose email s" using assms by (simp add: code_good_def code_inv_def)
  from code_run_good [OF assms(2,1) this] show ?thesis by (simp add: code_good_def code_inv_def)
qed

text \<open>A store in which a code is being stored and a claim is under way.\<close>

definition demo_system :: "keyspace code_system" where
  "demo_system = \<lparr>vs_db = (\<lambda>_. None), vs_issuers = (\<lambda>_. IsStore), vs_claimers = (\<lambda>_. ClTake (number_text 123456)),
     vs_stored = 0, vs_granted = 0, vs_returned = 0\<rparr>"

definition demo_inputs :: request_inputs where
  "demo_inputs = \<lparr>in_drawn = (\<lambda>_. 123456), in_supplied = (\<lambda>_. number_text 123456), in_claimId = (\<lambda>i. number_text (int i))\<rparr>"

theorem codes_granted_once_witness:
  "\<exists>s'. code_run memory_redis (\<lambda>m. m) ''signup'' ''a@b.c'' demo_inputs demo_system s' \<and> vs_granted s' = 1
     \<and> vs_granted s' \<le> vs_stored s' + vs_returned s'"
proof -
  let ?step = "code_step memory_redis (\<lambda>m. m) ''signup'' ''a@b.c'' demo_inputs"
  let ?code = "codeKey ''signup'' ''a@b.c''" and ?claim = "claimKey ''signup'' ''a@b.c''"
  define db1 where "db1 = redis_set memory_redis ?code (number_text 123456) (Some 300) (\<lambda>_. None)"
  have a: "db1 ?code = Some (number_text 123456, Some 300000)" "db1 ?claim = None"
    by (simp_all add: db1_def redis_set_def memory_redis_def)
  define s1 where "s1 = demo_system\<lparr>vs_db := db1, vs_issuers := (vs_issuers demo_system)(0 := IsReset (number_text 123456)), vs_stored := 1\<rparr>"
  have "issue_step memory_redis ''signup'' ''a@b.c'' (in_drawn demo_inputs 0) (vs_issuers demo_system 0, vs_db demo_system)
      = (IsReset (number_text 123456), db1)"
    by (simp add: demo_system_def demo_inputs_def db1_def VERIFICATION_CODE_TTL_SECONDS_def Let_def)
  from code_step.issue [OF this, where view = "\<lambda>m. m"] have step1: "?step demo_system s1"
    by (simp add: s1_def demo_system_def)
  obtain pc db2 where take: "claim_step memory_redis ''signup'' ''a@b.c'' (in_supplied demo_inputs 0) (in_claimId demo_inputs 0) (vs_claimers s1 0, vs_db s1) = (pc, db2)"
    by fastforce
  have "\<exists>c. pc = ClDone (Some c)"
    using claim_takes [OF memory_redis_laws take [unfolded s1_def demo_system_def code_system.simps]] a take
    by (auto simp: s1_def demo_system_def compareAndClaim_def memory_redis_def pttl_of_def)
  with code_step.claim [OF take, where view = "\<lambda>m. m"] have "\<exists>s'. ?step s1 s' \<and> vs_granted s' = 1"
    by (force simp: s1_def demo_system_def)
  then obtain s' where s': "?step s1 s'" "vs_granted s' = 1" by blast
  have run: "code_run memory_redis (\<lambda>m. m) ''signup'' ''a@b.c'' demo_inputs demo_system s'" using step1 s'(1) by auto
  from codes_granted_once [OF memory_redis_laws run] s'(2) run show ?thesis by (auto simp: demo_system_def)
qed

section \<open>Guesses at once\<close>

text \<open>
  The limit of five attempts counts after the comparison. Requests that look at the code before the first of them counts are all
  compared with it: any number of wrong guesses at once leaves the code there for the right one.
\<close>

lemma looks_at_once:
  assumes "redis_laws R view" and "view (vs_db s) (codeKey p e) = Some (code, t)" and "\<forall>i < n. vs_claimers s i = ClLook \<and> in_supplied inp i \<noteq> code"
  shows "code_run R view p e inp s (s\<lparr>vs_claimers := (\<lambda>i. if i < n then ClCount else vs_claimers s i)\<rparr>)"
  using assms(3)
proof (induction n)
  case (Suc n)
  define s1 where "s1 = s\<lparr>vs_claimers := (\<lambda>i. if i < n then ClCount else vs_claimers s i)\<rparr>"
  have run: "code_run R view p e inp s s1" using Suc by (simp add: s1_def)
  have "claim_step R p e (in_supplied inp n) (in_claimId inp n) (vs_claimers s1 n, vs_db s1) = (ClCount, vs_db s1)"
    using Suc.prems assms(2) redis_lawsD(1) [OF assms(1)] by (auto simp: s1_def redis_get_def code_matches_def)
  from code_step.claim [OF this, where view = view]
  have "code_step R view p e inp s1 (s1\<lparr>vs_claimers := (vs_claimers s1)(n := ClCount)\<rparr>)" by simp
  moreover have "s1\<lparr>vs_claimers := (vs_claimers s1)(n := ClCount)\<rparr> = s\<lparr>vs_claimers := (\<lambda>i. if i < Suc n then ClCount else vs_claimers s i)\<rparr>"
    by (auto simp: s1_def less_Suc_eq intro!: arg_cong [where f = "\<lambda>f. s\<lparr>vs_claimers := f\<rparr>"])
  ultimately show ?case using run by simp
qed simp

theorem guesses_at_once:
  assumes R: "redis_laws R view" and code: "view (vs_db s) (codeKey p e) = Some (code, Some left)" "0 < left"
    and claim: "view (vs_db s) (claimKey p e) = None"
    and wrong: "\<forall>i < n. vs_claimers s i = ClLook \<and> in_supplied inp i \<noteq> code" and right: "vs_claimers s n = ClTake code"
  shows "\<exists>s'. code_run R view p e inp s s' \<and> (\<forall>i < n. vs_claimers s' i = ClCount) \<and> (\<exists>c. vs_claimers s' n = ClDone (Some c))"
proof -
  define s1 where "s1 = s\<lparr>vs_claimers := (\<lambda>i. if i < n then ClCount else vs_claimers s i)\<rparr>"
  obtain pc db where take: "claim_step R p e (in_supplied inp n) (in_claimId inp n) (vs_claimers s1 n, vs_db s1) = (pc, db)" by fastforce
  have "\<exists>c. pc = ClDone (Some c)"
    using take right code claim redis_lawsD(1,2) [OF R] by (auto simp: s1_def compareAndClaim_def pttl_of_def)
  with code_step.claim [OF take, where view = view]
  have "\<exists>s'. code_step R view p e inp s1 s' \<and> (\<forall>i < n. vs_claimers s' i = ClCount) \<and> (\<exists>c. vs_claimers s' n = ClDone (Some c))"
    by (fastforce simp: s1_def)
  moreover have "code_run R view p e inp s s1" unfolding s1_def by (rule looks_at_once [OF R code(1) wrong])
  ultimately show ?thesis by (meson rtranclp.rtrancl_into_rtrancl)
qed

section \<open>Guesses one after the other\<close>

datatype guess_event = Guess string string | Wait int

fun guess_event_step :: "'db redis \<Rightarrow> string \<Rightarrow> string \<Rightarrow> guess_event \<Rightarrow> 'db \<Rightarrow> 'db" where
  "guess_event_step R purpose email (Guess supplied claimId) db = snd (claimVerificationCode R purpose email supplied claimId db)"
| "guess_event_step R purpose email (Wait ms) db = rd_elapse R ms db"

fun is_guess :: "guess_event \<Rightarrow> bool" where
  "is_guess (Guess _ _) = True"
| "is_guess (Wait _) = False"

fun misses :: "string \<Rightarrow> guess_event \<Rightarrow> bool" where
  "misses code (Guess supplied _) \<longleftrightarrow> supplied \<noteq> code"
| "misses code (Wait ms) \<longleftrightarrow> 0 \<le> ms"

lemma claim_whole:
  "claimVerificationCode R p e given cid db =
     claim_step R p e given cid (claim_step R p e given cid (claim_step R p e given cid (ClLook, db)))"
  by (simp add: claimVerificationCode_def numeral_3_eq_3)

lemma no_code_refused:
  "redis_laws R view \<Longrightarrow> view db (codeKey p e) = None \<Longrightarrow> claimVerificationCode R p e given cid db = (ClDone None, db)"
  by (simp add: claim_whole redis_get_def redis_lawsD(1))

text \<open>The counter of failed attempts lives at least as long as the code.\<close>

definition guessed :: "('db \<Rightarrow> keyspace) \<Rightarrow> string \<Rightarrow> string \<Rightarrow> string \<Rightarrow> int \<Rightarrow> 'db \<Rightarrow> bool" where
  "guessed view purpose email code n db \<longleftrightarrow>
     view db (codeKey purpose email) = None
   \<or> (\<exists>left. view db (codeKey purpose email) = Some (code, Some left) \<and> left \<le> 300000 \<and> n < 5
        \<and> (n = 0 \<and> view db (attemptsKey purpose email) = None
           \<or> 0 < n \<and> (\<exists>a. view db (attemptsKey purpose email) = Some (number_text n, Some a) \<and> left \<le> a)))"

lemma guessed_wait:
  assumes "redis_laws R view" and "guessed view p e code n db" and "0 \<le> ms"
  shows "guessed view p e code n (rd_elapse R ms db)"
proof (cases "aged ms (view db (codeKey p e))")
  case None
  then show ?thesis using redis_lawsD(7) [OF assms(1,3)] by (simp add: guessed_def)
next
  case (Some entry)
  then obtain left where left: "view db (codeKey p e) = Some (code, Some left)" "left \<le> 300000" "n < 5" "ms < left"
      "n = 0 \<and> view db (attemptsKey p e) = None \<or> 0 < n \<and> (\<exists>a. view db (attemptsKey p e) = Some (number_text n, Some a) \<and> left \<le> a)"
    using assms(2) by (auto simp: guessed_def aged_def split: if_splits)
  then show ?thesis using redis_lawsD(7) [OF assms(1,3)] assms(3) by (auto simp: guessed_def aged_def)
qed

lemma guessed_miss:
  assumes R: "redis_laws R view" and g: "guessed view p e code n db" and "0 \<le> n" and miss: "given \<noteq> code"
  shows "guessed view p e code (n + 1) (snd (claimVerificationCode R p e given cid db))"
proof (cases "view db (codeKey p e)")
  case None
  then show ?thesis using no_code_refused [OF R None] by (simp add: guessed_def)
next
  case (Some entry)
  then obtain left where code: "view db (codeKey p e) = Some (code, Some left)" "left \<le> 300000" "n < 5"
    and att: "n = 0 \<and> view db (attemptsKey p e) = None \<or> 0 < n \<and> (\<exists>a. view db (attemptsKey p e) = Some (number_text n, Some a) \<and> left \<le> a)"
    using g by (auto simp: guessed_def)
  have "\<exists>db' a. incrementWithTtl R (attemptsKey p e) VERIFICATION_CODE_TTL_SECONDS db = (Some (n + 1), db') \<and> left \<le> a
      \<and> view db' = (view db)(attemptsKey p e := Some (number_text (n + 1), Some a))"
  proof (cases "n = 0")
    case True
    then show ?thesis using increment_first [OF R, of db "attemptsKey p e" VERIFICATION_CODE_TTL_SECONDS] att code(2)
      by (auto simp: VERIFICATION_CODE_TTL_SECONDS_def)
  next
    case False
    then obtain a where a: "0 < n" "view db (attemptsKey p e) = Some (number_text n, Some a)" "left \<le> a" using att by auto
    show ?thesis using increment_next [OF R a(2,1), of VERIFICATION_CODE_TTL_SECONDS] a(3) by blast
  qed
  then obtain db' a where inc: "incrementWithTtl R (attemptsKey p e) VERIFICATION_CODE_TTL_SECONDS db = (Some (n + 1), db')" "left \<le> a"
      "view db' = (view db)(attemptsKey p e := Some (number_text (n + 1), Some a))" by blast
  have "rd_get R (codeKey p e) db = Some code" using redis_lawsD(1) [OF R] code(1) by simp
  then have "snd (claimVerificationCode R p e given cid db) = (if 5 \<le> n + 1 then rd_remove R (codeKey p e) db' else db')"
    using miss by (simp add: claim_whole redis_get_def code_matches_def inc(1) MAX_ATTEMPTS_def redis_del_def)
  then show ?thesis using inc(2,3) code assms(3) redis_lawsD(4) [OF R] by (auto simp: guessed_def)
qed

lemma guessed_run:
  assumes R: "redis_laws R view"
  shows "guessed view p e code n db \<Longrightarrow> 0 \<le> n \<Longrightarrow> list_all (misses code) es \<Longrightarrow>
    guessed view p e code (n + int (length (filter is_guess es))) (fold (guess_event_step R p e) es db)"
proof (induction es arbitrary: n db)
  case (Cons ev es)
  show ?case
  proof (cases ev)
    case (Guess given cid)
    then have "guessed view p e code (n + 1) (snd (claimVerificationCode R p e given cid db))"
      using guessed_miss [OF R Cons.prems(1,2)] Cons.prems(3) by simp
    from Cons.IH [OF this] Cons.prems Guess show ?thesis by (simp add: ac_simps)
  next
    case (Wait ms)
    then have "guessed view p e code n (rd_elapse R ms db)" using guessed_wait [OF R Cons.prems(1)] Cons.prems(3) by simp
    from Cons.IH [OF this] Cons.prems Wait show ?thesis by simp
  qed
qed simp

text \<open>
  C17. Five guesses. After five wrong guesses made one after the other, whatever time passes in between, a code is refused even when
  it is supplied correctly: the counter of failed attempts never expires before the code does.
\<close>

theorem five_guesses:
  assumes R: "redis_laws R view" and "view db (codeKey p e) = Some (code, Some left)" and "left \<le> VERIFICATION_CODE_TTL_SECONDS * 1000"
    and "view db (attemptsKey p e) = None" and "list_all (misses code) es" and "MAX_ATTEMPTS \<le> int (length (filter is_guess es))"
  shows "fst (claimVerificationCode R p e code claimId (fold (guess_event_step R p e) es db)) = ClDone None"
proof -
  have "guessed view p e code 0 db" using assms(2-4) by (simp add: guessed_def VERIFICATION_CODE_TTL_SECONDS_def)
  from guessed_run [OF R this _ assms(5)] assms(6)
  have "view (fold (guess_event_step R p e) es db) (codeKey p e) = None" by (auto simp: guessed_def MAX_ATTEMPTS_def)
  from no_code_refused [OF R this] show ?thesis by simp
qed

theorem five_guesses_witness:
  "fst (claimVerificationCode memory_redis ''signup'' ''a@b.c'' ''123456'' ''id''
      (fold (guess_event_step memory_redis ''signup'' ''a@b.c'') [Guess ''1'' ''a'', Guess ''2'' ''b'', Wait 1000, Guess ''3'' ''c'', Guess ''4'' ''d'', Guess ''5'' ''e'']
        (redis_set memory_redis (codeKey ''signup'' ''a@b.c'') ''123456'' (Some 300) (\<lambda>_. None)))) = ClDone None"
  by (rule five_guesses [OF memory_redis_laws, where left = 300000])
    (simp_all add: redis_set_def memory_redis_def VERIFICATION_CODE_TTL_SECONDS_def MAX_ATTEMPTS_def)

end
