(* ===== verification/HumanChallenge.thy ===== *)
theory HumanChallenge
  imports HumanCheck Redis
begin

text \<open>
  \<open>server-match/src/auth/human-challenge.service.ts\<close>: the service that issues human checks, verifies their answers and
  consumes the proofs that verified answers earn. Its state is in Redis. \<open>verify\<close> and \<open>consumeProof\<close> are machines that make one call
  of Redis per step, because other requests run in between; \<open>issue\<close> and the bookkeeping of failed logins only count and are
  functions. Keyed hashes, the JSON text of what is stored, random values and the clock are arguments. The counters are the integers that
  \<open>INCR\<close> stores.
\<close>

section \<open>Data\<close>

datatype challenge_purpose = Signup | ResetPassword | DeleteAccount | Login
datatype round_kind = SwitchKind | RadioKind

record stored_challenge =
  sc_purpose :: challenge_purpose
  sc_subjectHash :: string
  sc_contextHash :: string
  sc_issuedAt :: int
  sc_nonce :: string
  sc_bits :: int
  sc_round :: "(round_kind \<times> int) option"

record stored_proof =
  sp_purpose :: challenge_purpose
  sp_subjectHash :: string
  sp_contextHash :: string

record challenge_answer =
  ca_slot :: int
  ca_atMs :: "int option"

record issued_challenge =
  ic_token :: string
  ic_expiresIn :: int
  ic_nonce :: string
  ic_bits :: int
  ic_round :: "(round_kind \<times> int) option"

datatype challenge_error = ChExpired | ChInvalid | ChWrong | ChTooFast | ChRequired | ChLimited | ChInternal

record human_env =
  he_env :: string
  he_hmacIp :: "string \<Rightarrow> string option"
  he_hmacEmail :: "string \<Rightarrow> string"
  he_challengeText :: "stored_challenge \<Rightarrow> string"
  he_challengeParse :: "string \<Rightarrow> stored_challenge option"
  he_proofText :: "stored_proof \<Rightarrow> string"
  he_proofParse :: "string \<Rightarrow> stored_proof option"

definition CHALLENGE_TTL_SECONDS :: int where "CHALLENGE_TTL_SECONDS = 120"
definition PROOF_TTL_SECONDS :: int where "PROOF_TTL_SECONDS = 180"
definition LOGIN_FAILURE_TTL_SECONDS :: int where "LOGIN_FAILURE_TTL_SECONDS = 15 * 60"
definition FAILURE_TTL_SECONDS :: int where "FAILURE_TTL_SECONDS = 30 * 60"
definition ISSUE_WINDOW_SECONDS :: int where "ISSUE_WINDOW_SECONDS = 10 * 60"
definition RADIO_WINDOW_SECONDS :: int where "RADIO_WINDOW_SECONDS = 60 * 60"
definition ISSUES_BEFORE_ROUND :: int where "ISSUES_BEFORE_ROUND = 6"
definition RADIO_ISSUES_PER_HOUR :: int where "RADIO_ISSUES_PER_HOUR = 6"
definition LOGIN_CHALLENGE_AFTER_FAILURES :: int where "LOGIN_CHALLENGE_AFTER_FAILURES = 3"

definition operation_key :: "human_env \<Rightarrow> string \<Rightarrow> string" where
  "operation_key H s = he_env H @ '':operation:'' @ s"

definition challengeKey :: "human_env \<Rightarrow> string \<Rightarrow> string" where
  "challengeKey H token = operation_key H (''human-challenge:'' @ token)"

definition proofKey :: "human_env \<Rightarrow> string \<Rightarrow> string" where
  "proofKey H token = operation_key H (''human-proof:'' @ token)"

definition issueKey :: "human_env \<Rightarrow> string \<Rightarrow> string" where
  "issueKey H ipHash = operation_key H (''human-issue:'' @ ipHash)"

definition radioKey :: "human_env \<Rightarrow> string \<Rightarrow> string" where
  "radioKey H ipHash = operation_key H (''human-radio:'' @ ipHash)"

definition failureKey :: "human_env \<Rightarrow> string \<Rightarrow> string \<Rightarrow> string" where
  "failureKey H kind hash = operation_key H (''human-fail:'' @ kind @ '':'' @ hash)"

definition loginEmailKey :: "human_env \<Rightarrow> string \<Rightarrow> string" where
  "loginEmailKey H subjectHash = operation_key H (''login-human-risk:'' @ subjectHash)"

definition loginPairKey :: "human_env \<Rightarrow> string \<Rightarrow> string \<Rightarrow> string" where
  "loginPairKey H subjectHash ipHash = operation_key H (''login-human-risk:'' @ subjectHash @ '':'' @ ipHash)"

definition count_of :: "'db redis \<Rightarrow> string \<Rightarrow> 'db \<Rightarrow> int" where
  "count_of R key db =
     (case redis_get R key db of
        None \<Rightarrow> 0
      | Some v \<Rightarrow> (case integral (js_Number v) of Some n \<Rightarrow> n | None \<Rightarrow> 0))"

section \<open>Issuing\<close>

definition needs_round :: "int \<Rightarrow> int \<Rightarrow> int \<Rightarrow> bool" where
  "needs_round failures issues loginRisk \<longleftrightarrow> 0 < failures \<or> ISSUES_BEFORE_ROUND < issues \<or> LOGIN_CHALLENGE_AFTER_FAILURES \<le> loginRisk"

definition base_bits :: "int \<Rightarrow> int \<Rightarrow> int" where
  "base_bits failures issues = min POW_MAX (POW_BASE + failures + max 0 ((issues - ISSUES_BEFORE_ROUND) div 2))"

definition store_challenge ::
    "'db redis \<Rightarrow> human_env \<Rightarrow> string \<Rightarrow> stored_challenge \<Rightarrow> 'db \<Rightarrow> (challenge_error + issued_challenge) \<times> 'db" where
  "store_challenge R H token stored db =
     (Inr \<lparr>ic_token = token, ic_expiresIn = CHALLENGE_TTL_SECONDS, ic_nonce = sc_nonce stored, ic_bits = sc_bits stored, ic_round = sc_round stored\<rparr>,
      redis_set R (challengeKey H token) (he_challengeText H stored) (Some CHALLENGE_TTL_SECONDS) db)"

definition issue_challenge ::
    "'db redis \<Rightarrow> human_env \<Rightarrow> challenge_purpose \<Rightarrow> string \<Rightarrow> string \<Rightarrow> round_kind \<Rightarrow> string \<Rightarrow> int \<Rightarrow> string \<Rightarrow> int \<Rightarrow> 'db
      \<Rightarrow> (challenge_error + issued_challenge) \<times> 'db" where
  "issue_challenge R H purpose subject ip mode token now nonce seed db =
     (let subjectHash = he_hmacEmail H subject in
      case he_hmacIp H ip of None \<Rightarrow> (Inl ChInternal, db) | Some ipHash \<Rightarrow>
      case incrementWithTtl R (issueKey H ipHash) ISSUE_WINDOW_SECONDS db of
        (None, db1) \<Rightarrow> (Inl ChInternal, db1)
      | (Some issues, db1) \<Rightarrow>
          let failures = count_of R (failureKey H ''s'' subjectHash) db1 + count_of R (failureKey H ''i'' ipHash) db1;
              loginRisk = (if purpose = Login
                then max (count_of R (loginEmailKey H subjectHash) db1) (count_of R (loginPairKey H subjectHash ipHash) db1) else 0);
              bits = base_bits failures issues;
              stored = (\<lambda>bits round. \<lparr>sc_purpose = purpose, sc_subjectHash = subjectHash, sc_contextHash = ipHash, sc_issuedAt = now,
                sc_nonce = nonce, sc_bits = bits, sc_round = round\<rparr>)
          in if \<not> needs_round failures issues loginRisk then store_challenge R H token (stored bits None) db1
             else if mode = RadioKind then
               (case incrementWithTtl R (radioKey H ipHash) RADIO_WINDOW_SECONDS db1 of
                  (None, db2) \<Rightarrow> (Inl ChInternal, db2)
                | (Some radioIssues, db2) \<Rightarrow>
                    if RADIO_ISSUES_PER_HOUR < radioIssues then (Inl ChLimited, db2)
                    else store_challenge R H token (stored (min POW_CEILING (bits + POW_RADIO_EXTRA)) (Some (mode, seed))) db2)
             else store_challenge R H token (stored bits (Some (mode, seed))) db1)"

section \<open>Verifying\<close>

text \<open>What \<open>verify\<close> decides once the challenge is its own: refuse, refuse and count the failure, or earn a proof.\<close>

datatype verdict =
    Refuse challenge_error
  | RefuseCounted string string challenge_error
  | Earn stored_proof

text \<open>\<open>checkRound\<close>: \<open>None\<close> if it returns, else the error and whether the failure is counted.\<close>

definition checkRound :: "stored_challenge \<Rightarrow> challenge_answer option \<Rightarrow> int \<Rightarrow> (bool \<times> challenge_error) option" where
  "checkRound stored answer now =
     (case sc_round stored of
        None \<Rightarrow> None
      | Some (kind, seed) \<Rightarrow>
          let elapsed = now - sc_issuedAt stored in
          case kind of
            RadioKind \<Rightarrow>
              if elapsed < RADIO_MIN_ELAPSED_MS then Some (False, ChTooFast)
              else if map_option ca_slot answer \<noteq> Some (rr_target (buildRadioRound seed)) then Some (True, ChWrong)
              else None
          | SwitchKind \<Rightarrow>
              let scene = buildSwitchRound seed in
              case answer of None \<Rightarrow> Some (False, ChTooFast) | Some a \<Rightarrow>
              case ca_atMs a of None \<Rightarrow> Some (False, ChTooFast) | Some atMs \<Rightarrow>
                if elapsed < sr_openAt scene - SWITCH_GRACE_MS \<or> elapsed < atMs then Some (False, ChTooFast)
                else case checkSwitchAnswer scene (ca_slot a) (of_int atMs) of
                    AnswerOk \<Rightarrow> None
                  | AnswerEarly \<Rightarrow> Some (True, ChTooFast)
                  | _ \<Rightarrow> Some (True, ChWrong))"

definition judge :: "human_env \<Rightarrow> stored_challenge \<Rightarrow> js_number \<Rightarrow> challenge_answer option \<Rightarrow> string \<Rightarrow> int \<Rightarrow> verdict" where
  "judge H stored powCounter answer ip now =
     (case he_hmacIp H ip of
        None \<Rightarrow> Refuse ChInternal
      | Some ipHash \<Rightarrow>
          if sc_contextHash stored \<noteq> ipHash then Refuse ChInvalid
          else if \<not> verifyPow (sc_nonce stored) (sc_bits stored) powCounter then RefuseCounted (sc_subjectHash stored) ipHash ChWrong
          else case checkRound stored answer now of
              Some (True, err) \<Rightarrow> RefuseCounted (sc_subjectHash stored) ipHash err
            | Some (False, err) \<Rightarrow> Refuse err
            | None \<Rightarrow> Earn \<lparr>sp_purpose = sc_purpose stored, sp_subjectHash = sc_subjectHash stored, sp_contextHash = sc_contextHash stored\<rparr>)"

record verify_input =
  vi_token :: string
  vi_powCounter :: js_number
  vi_answer :: "challenge_answer option"
  vi_ip :: string
  vi_now :: int
  vi_proofToken :: string

datatype verify_pc =
    VfLook
  | VfDrop
  | VfTake string stored_challenge
  | VfCount string string challenge_error
  | VfCountIp string challenge_error
  | VfStore stored_proof
  | VfDone "challenge_error + string"

fun verify_step :: "'db redis \<Rightarrow> human_env \<Rightarrow> verify_input \<Rightarrow> verify_pc \<times> 'db \<Rightarrow> verify_pc \<times> 'db" where
  "verify_step R H v (VfLook, db) =
     (case redis_get R (challengeKey H (vi_token v)) db of
        None \<Rightarrow> (VfDone (Inl ChExpired), db)
      | Some raw \<Rightarrow>
          if raw = [] then (VfDone (Inl ChExpired), db)
          else (case he_challengeParse H raw of None \<Rightarrow> (VfDrop, db) | Some stored \<Rightarrow> (VfTake raw stored, db)))"
| "verify_step R H v (VfDrop, db) = (VfDone (Inl ChInvalid), redis_del R (challengeKey H (vi_token v)) db)"
| "verify_step R H v (VfTake raw stored, db) =
     (case compareAndDelete R (challengeKey H (vi_token v)) raw db of (taken, db') \<Rightarrow>
        (if \<not> taken then VfDone (Inl ChExpired)
         else (case judge H stored (vi_powCounter v) (vi_answer v) (vi_ip v) (vi_now v) of
             Refuse err \<Rightarrow> VfDone (Inl err)
           | RefuseCounted subjectHash ipHash err \<Rightarrow> VfCount subjectHash ipHash err
           | Earn proof \<Rightarrow> VfStore proof), db'))"
| "verify_step R H v (VfCount subjectHash ipHash err, db) =
     (case incrementWithTtl R (failureKey H ''s'' subjectHash) FAILURE_TTL_SECONDS db of (n, db') \<Rightarrow>
        (if n = None then VfDone (Inl ChInternal) else VfCountIp ipHash err, db'))"
| "verify_step R H v (VfCountIp ipHash err, db) =
     (case incrementWithTtl R (failureKey H ''i'' ipHash) FAILURE_TTL_SECONDS db of (n, db') \<Rightarrow>
        (VfDone (Inl (if n = None then ChInternal else err)), db'))"
| "verify_step R H v (VfStore proof, db) =
     (VfDone (Inr (vi_proofToken v)), redis_set R (proofKey H (vi_proofToken v)) (he_proofText H proof) (Some PROOF_TTL_SECONDS) db)"
| "verify_step R H v (VfDone r, db) = (VfDone r, db)"

definition verify_challenge :: "'db redis \<Rightarrow> human_env \<Rightarrow> verify_input \<Rightarrow> 'db \<Rightarrow> verify_pc \<times> 'db" where
  "verify_challenge R H v db = (verify_step R H v ^^ 4) (VfLook, db)"

section \<open>Consuming a proof\<close>

record consume_input =
  ci_token :: "string option"
  ci_purpose :: challenge_purpose
  ci_subject :: string
  ci_ip :: string

datatype consume_pc =
    CoLook
  | CoDrop string
  | CoTake string string
  | CoDone "challenge_error option"

fun consume_step :: "'db redis \<Rightarrow> human_env \<Rightarrow> consume_input \<Rightarrow> consume_pc \<times> 'db \<Rightarrow> consume_pc \<times> 'db" where
  "consume_step R H c (CoLook, db) =
     (case ci_token c of
        None \<Rightarrow> (CoDone (Some ChRequired), db)
      | Some token \<Rightarrow>
          if token = [] then (CoDone (Some ChRequired), db)
          else (case redis_get R (proofKey H token) db of
            None \<Rightarrow> (CoDone (Some ChRequired), db)
          | Some raw \<Rightarrow>
              if raw = [] then (CoDone (Some ChRequired), db)
              else (case he_proofParse H raw of
                None \<Rightarrow> (CoDrop token, db)
              | Some proof \<Rightarrow>
                  if sp_purpose proof \<noteq> ci_purpose c \<or> sp_subjectHash proof \<noteq> he_hmacEmail H (ci_subject c) then (CoDone (Some ChRequired), db)
                  else (case he_hmacIp H (ci_ip c) of
                      None \<Rightarrow> (CoDone (Some ChInternal), db)
                    | Some ipHash \<Rightarrow>
                        if sp_contextHash proof \<noteq> ipHash then (CoDone (Some ChRequired), db) else (CoTake token raw, db)))))"
| "consume_step R H c (CoDrop token, db) = (CoDone (Some ChRequired), redis_del R (proofKey H token) db)"
| "consume_step R H c (CoTake token raw, db) =
     (case compareAndDelete R (proofKey H token) raw db of (taken, db') \<Rightarrow> (CoDone (if taken then None else Some ChRequired), db'))"
| "consume_step R H c (CoDone r, db) = (CoDone r, db)"

definition consumeProof :: "'db redis \<Rightarrow> human_env \<Rightarrow> consume_input \<Rightarrow> 'db \<Rightarrow> consume_pc \<times> 'db" where
  "consumeProof R H c db = (consume_step R H c ^^ 2) (CoLook, db)"

definition assertLoginAllowed :: "'db redis \<Rightarrow> human_env \<Rightarrow> string \<Rightarrow> string \<Rightarrow> string option \<Rightarrow> 'db \<Rightarrow> consume_pc \<times> 'db" where
  "assertLoginAllowed R H email ip proofToken db =
     consumeProof R H \<lparr>ci_token = proofToken, ci_purpose = Login, ci_subject = email, ci_ip = ip\<rparr> db"

section \<open>Failed logins\<close>

definition recordLoginFailure :: "'db redis \<Rightarrow> human_env \<Rightarrow> string \<Rightarrow> string \<Rightarrow> 'db \<Rightarrow> (challenge_error + unit) \<times> 'db" where
  "recordLoginFailure R H email ip db =
     (let subjectHash = he_hmacEmail H email in
      case incrementWithTtl R (loginEmailKey H subjectHash) LOGIN_FAILURE_TTL_SECONDS db of
        (None, db1) \<Rightarrow> (Inl ChInternal, db1)
      | (Some _, db1) \<Rightarrow>
          (case he_hmacIp H ip of None \<Rightarrow> (Inl ChInternal, db1) | Some ipHash \<Rightarrow>
             (case incrementWithTtl R (loginPairKey H subjectHash ipHash) LOGIN_FAILURE_TTL_SECONDS db1 of
                (None, db2) \<Rightarrow> (Inl ChInternal, db2)
              | (Some _, db2) \<Rightarrow> (Inr (), db2))))"

definition clearLoginFailures :: "'db redis \<Rightarrow> human_env \<Rightarrow> string \<Rightarrow> string \<Rightarrow> 'db \<Rightarrow> (challenge_error + unit) \<times> 'db" where
  "clearLoginFailures R H email ip db =
     (let subjectHash = he_hmacEmail H email;
          db1 = redis_del R (loginEmailKey H subjectHash) db
      in case he_hmacIp H ip of
           None \<Rightarrow> (Inl ChInternal, db1)
         | Some ipHash \<Rightarrow> (Inr (), redis_del R (loginPairKey H subjectHash ipHash) db1))"

end
