(* ===== verification/HumanChallengeProps.thy ===== *)
theory HumanChallengeProps
  imports HumanChallenge HumanCheckProps
begin

text \<open>
  What a proof of the human check is worth: it was earned by one answer to one challenge, from the address the challenge was
  issued to, with the work done and, where a scene was asked for, with a number that was visibly the right one at that moment; and it is
  consumed once. \<open>challenge_step\<close> lets all requests interleave between their calls of Redis.
\<close>

section \<open>Earning a proof\<close>

definition round_solved :: "stored_challenge \<Rightarrow> challenge_answer option \<Rightarrow> int \<Rightarrow> bool" where
  "round_solved stored answer now \<longleftrightarrow>
     (case sc_round stored of
        None \<Rightarrow> True
      | Some (RadioKind, seed) \<Rightarrow> RADIO_MIN_ELAPSED_MS \<le> now - sc_issuedAt stored
          \<and> (\<exists>a. answer = Some a \<and> in_radio_range (rr_turns (buildRadioRound seed)) = {ca_slot a})
      | Some (SwitchKind, seed) \<Rightarrow> (\<exists>a ms runner. answer = Some a \<and> ca_atMs a = Some ms \<and> ms \<le> now - sc_issuedAt stored
          \<and> runner \<in> set (sr_runners (buildSwitchRound seed)) \<and> ra_slot runner = ca_slot a
          \<and> in_window (buildSwitchRound seed) (of_int ms)
          \<and> self_distance (roundPosition (ra_keys runner) (of_int ms)) \<le> SWITCH_RANGE))"

lemma answer_ok_target: "checkSwitchAnswer scene slot t = AnswerOk \<Longrightarrow> slot = sr_target scene"
  by (simp add: checkSwitchAnswer_def split: if_splits)

lemma checkRound_solved:
  assumes "checkRound stored answer now = None"
  shows "round_solved stored answer now"
proof (cases "sc_round stored")
  case None
  then show ?thesis by (simp add: round_solved_def)
next
  case (Some rnd)
  obtain kind seed where rnd: "rnd = (kind, seed)" by fastforce
  show ?thesis
  proof (cases kind)
    case RadioKind
    then show ?thesis using assms Some rnd radio_round_solution [of seed]
      by (auto simp: checkRound_def round_solved_def Let_def split: if_splits)
  next
    case SwitchKind
    define scene where "scene = buildSwitchRound seed"
    obtain a ms where a: "answer = Some a" "ca_atMs a = Some ms" "ms \<le> now - sc_issuedAt stored"
        and ok: "checkSwitchAnswer scene (ca_slot a) (of_int ms) = AnswerOk"
      using assms Some rnd SwitchKind
      by (auto simp: checkRound_def Let_def scene_def not_less split: option.splits if_splits switch_answer.splits)
    obtain runner where r: "runner \<in> set (sr_runners scene)" "ra_slot runner = ca_slot a"
      using switch_round_bait [of seed] answer_ok_target [OF ok] by (auto simp: scene_def)
    then have "in_window scene (of_int ms) \<and> self_distance (roundPosition (ra_keys runner) (of_int ms)) \<le> SWITCH_RANGE"
      using switch_round_shows_answer [of runner seed "of_int ms"] ok unfolding scene_def by simp
    then show ?thesis using a r by (auto simp: round_solved_def Some rnd SwitchKind scene_def)
  qed
qed

text \<open>
  C19. A proof is earned. When the verification of a challenge goes on to store a proof, the request came from the address the challenge was issued
  to, its counter passes the proof of work, and the round is solved: on the radio no sooner than the relay lasts and with the only
  runner in range, in the scene with a runner that is drawn within the range of the switch at the moment given, which lies in the past.
\<close>

theorem proof_is_earned:
  assumes "verify_step R H v (VfTake raw stored, db) = (VfStore earned, db')"
  shows "he_hmacIp H (vi_ip v) = Some (sc_contextHash stored)
    \<and> verifyPow (sc_nonce stored) (sc_bits stored) (vi_powCounter v)
    \<and> round_solved stored (vi_answer v) (vi_now v)
    \<and> earned = \<lparr>sp_purpose = sc_purpose stored, sp_subjectHash = sc_subjectHash stored, sp_contextHash = sc_contextHash stored\<rparr>
    \<and> rd_get R (challengeKey H (vi_token v)) db = Some raw"
proof -
  have taken: "rd_get R (challengeKey H (vi_token v)) db = Some raw"
    and "judge H stored (vi_powCounter v) (vi_answer v) (vi_ip v) (vi_now v) = Earn earned"
    using assms by (auto simp: compareAndDelete_def split: if_splits verdict.splits)
  then have "checkRound stored (vi_answer v) (vi_now v) = None"
    and "he_hmacIp H (vi_ip v) = Some (sc_contextHash stored)" "verifyPow (sc_nonce stored) (sc_bits stored) (vi_powCounter v)"
    and "earned = \<lparr>sp_purpose = sc_purpose stored, sp_subjectHash = sc_subjectHash stored, sp_contextHash = sc_contextHash stored\<rparr>"
    by (auto simp: judge_def split: option.splits if_splits bool.splits)
  then show ?thesis using checkRound_solved taken by simp
qed

definition demo_env_human :: human_env where
  "demo_env_human = \<lparr>he_env = ''dev'', he_hmacIp = Some, he_hmacEmail = (\<lambda>e. e), he_challengeText = (\<lambda>_. ''c''),
     he_challengeParse = (\<lambda>_. None), he_proofText = (\<lambda>_. ''p''), he_proofParse = (\<lambda>_. None)\<rparr>"

definition demo_challenge :: stored_challenge where
  "demo_challenge = \<lparr>sc_purpose = Login, sc_subjectHash = ''a'', sc_contextHash = ''1'', sc_issuedAt = 0, sc_nonce = ''n'', sc_bits = 0,
     sc_round = Some (SwitchKind, 42)\<rparr>"

definition demo_verify :: verify_input where
  "demo_verify = \<lparr>vi_token = ''t'', vi_powCounter = Fin 0,
     vi_answer = Some \<lparr>ca_slot = sr_target (buildSwitchRound 42), ca_atMs = Some (sr_openAt (buildSwitchRound 42))\<rparr>,
     vi_ip = ''1'', vi_now = sr_openAt (buildSwitchRound 42), vi_proofToken = ''p''\<rparr>"

theorem proof_is_earned_witness:
  "\<exists>earned db'. verify_step memory_redis demo_env_human demo_verify (VfTake ''raw'' demo_challenge,
        [challengeKey demo_env_human ''t'' \<mapsto> (''raw'', Some 1000)]) = (VfStore earned, db')
     \<and> round_solved demo_challenge (vi_answer demo_verify) (vi_now demo_verify)"
proof -
  let ?db = "[challengeKey demo_env_human ''t'' \<mapsto> (''raw'', Some 1000)] :: keyspace"
  obtain n slots rs angles where ok: "scene_ok (buildSwitchRound 42) n slots rs angles" using buildSwitchRound_ok by blast
  have "checkSwitchAnswer (buildSwitchRound 42) (sr_target (buildSwitchRound 42)) (of_int (sr_openAt (buildSwitchRound 42))) = AnswerOk"
    using ok by (simp add: checkSwitchAnswer_def SWITCH_GRACE_MS_def scene_ok_def)
  then have "checkRound demo_challenge (vi_answer demo_verify) (vi_now demo_verify) = None"
    by (simp add: checkRound_def demo_challenge_def demo_verify_def Let_def SWITCH_GRACE_MS_def)
  moreover have "verifyPow ''n'' 0 (Fin 0)" using verifyPow_integer [of 0 "''n''" 0] by simp
  ultimately have "judge demo_env_human demo_challenge (vi_powCounter demo_verify) (vi_answer demo_verify) (vi_ip demo_verify) (vi_now demo_verify)
      = Earn \<lparr>sp_purpose = Login, sp_subjectHash = ''a'', sp_contextHash = ''1''\<rparr>"
    by (simp add: judge_def demo_env_human_def demo_verify_def demo_challenge_def)
  moreover have "fst (compareAndDelete memory_redis (challengeKey demo_env_human (vi_token demo_verify)) ''raw'' ?db)"
    by (simp add: compareAndDelete_def memory_redis_def demo_verify_def)
  ultimately have "fst (verify_step memory_redis demo_env_human demo_verify (VfTake ''raw'' demo_challenge, ?db))
      = VfStore \<lparr>sp_purpose = Login, sp_subjectHash = ''a'', sp_contextHash = ''1''\<rparr>"
    by (simp add: case_prod_beta)
  then obtain earned db' where step: "verify_step memory_redis demo_env_human demo_verify (VfTake ''raw'' demo_challenge, ?db) = (VfStore earned, db')"
    by (metis prod.collapse)
  with proof_is_earned [OF step] show ?thesis by blast
qed

section \<open>Requests running at once\<close>

record 'db challenge_system =
  hs_db :: 'db
  hs_verifiers :: "nat \<Rightarrow> verify_pc"
  hs_consumers :: "nat \<Rightarrow> consume_pc"
  hs_issued :: nat
  hs_judged :: nat
  hs_earned :: nat
  hs_consumed :: nat

text \<open>
  The counters watch one challenge token and one proof token: how often the challenge was issued, how often an answer to it was
  judged, how often the proof was stored, and how often it was consumed.
\<close>

definition takes_challenge :: "'db redis \<Rightarrow> human_env \<Rightarrow> string \<Rightarrow> verify_input \<Rightarrow> verify_pc \<Rightarrow> 'db \<Rightarrow> bool" where
  "takes_challenge R H token v pc db \<longleftrightarrow>
     vi_token v = token \<and> (\<exists>raw stored. pc = VfTake raw stored \<and> fst (compareAndDelete R (challengeKey H (vi_token v)) raw db))"

definition stores_proof :: "string \<Rightarrow> verify_input \<Rightarrow> verify_pc \<Rightarrow> bool" where
  "stores_proof ptoken v pc \<longleftrightarrow> vi_proofToken v = ptoken \<and> (\<exists>earned. pc = VfStore earned)"

definition consumes_proof :: "string \<Rightarrow> consume_pc \<Rightarrow> consume_pc \<Rightarrow> bool" where
  "consumes_proof ptoken pc pc' \<longleftrightarrow> (\<exists>raw. pc = CoTake ptoken raw) \<and> pc' = CoDone None"

inductive challenge_step :: "'db redis \<Rightarrow> ('db \<Rightarrow> keyspace) \<Rightarrow> human_env \<Rightarrow> string \<Rightarrow> string \<Rightarrow> (nat \<Rightarrow> verify_input) \<Rightarrow> (nat \<Rightarrow> consume_input)
    \<Rightarrow> 'db challenge_system \<Rightarrow> 'db challenge_system \<Rightarrow> bool"
  for R view H token ptoken vin cin where
  begin_verify: "challenge_step R view H token ptoken vin cin s (s\<lparr>hs_verifiers := (hs_verifiers s)(i := VfLook)\<rparr>)"
| begin_consume: "challenge_step R view H token ptoken vin cin s (s\<lparr>hs_consumers := (hs_consumers s)(i := CoLook)\<rparr>)"
| verify: "verify_step R H (vin i) (hs_verifiers s i, hs_db s) = (pc, db) \<Longrightarrow>
    challenge_step R view H token ptoken vin cin s (s\<lparr>hs_db := db, hs_verifiers := (hs_verifiers s)(i := pc),
      hs_judged := hs_judged s + (if takes_challenge R H token (vin i) (hs_verifiers s i) (hs_db s) then 1 else 0),
      hs_earned := hs_earned s + (if stores_proof ptoken (vin i) (hs_verifiers s i) then 1 else 0)\<rparr>)"
| consume: "consume_step R H (cin i) (hs_consumers s i, hs_db s) = (pc, db) \<Longrightarrow>
    challenge_step R view H token ptoken vin cin s (s\<lparr>hs_db := db, hs_consumers := (hs_consumers s)(i := pc),
      hs_consumed := hs_consumed s + (if consumes_proof ptoken (hs_consumers s i) pc then 1 else 0)\<rparr>)"
| issue: "issue_challenge R H purpose subject ip mode tok now nonce seed (hs_db s) = (r, db) \<Longrightarrow>
    challenge_step R view H token ptoken vin cin s (s\<lparr>hs_db := db,
      hs_issued := hs_issued s + (if tok = token \<and> (\<exists>c. r = Inr c) then 1 else 0)\<rparr>)"
| elapse: "0 \<le> ms \<Longrightarrow> challenge_step R view H token ptoken vin cin s (s\<lparr>hs_db := rd_elapse R ms (hs_db s)\<rparr>)"
| other: "view db (challengeKey H token) = view (hs_db s) (challengeKey H token) \<Longrightarrow> view db (proofKey H ptoken) = view (hs_db s) (proofKey H ptoken) \<Longrightarrow>
    challenge_step R view H token ptoken vin cin s (s\<lparr>hs_db := db\<rparr>)"

abbreviation challenge_run :: "'db redis \<Rightarrow> ('db \<Rightarrow> keyspace) \<Rightarrow> human_env \<Rightarrow> string \<Rightarrow> string \<Rightarrow> (nat \<Rightarrow> verify_input) \<Rightarrow> (nat \<Rightarrow> consume_input)
    \<Rightarrow> 'db challenge_system \<Rightarrow> 'db challenge_system \<Rightarrow> bool" where
  "challenge_run R view H token ptoken vin cin \<equiv> (challenge_step R view H token ptoken vin cin)\<^sup>*\<^sup>*"

lemma operation_key_inj [simp]: "operation_key H a = operation_key H b \<longleftrightarrow> a = b"
  by (simp add: operation_key_def)

lemma challenge_keys [simp]:
  "challengeKey H a = challengeKey H b \<longleftrightarrow> a = b" "proofKey H a = proofKey H b \<longleftrightarrow> a = b"
  "challengeKey H a \<noteq> proofKey H b" "proofKey H b \<noteq> challengeKey H a"
  "challengeKey H a \<noteq> failureKey H k h" "proofKey H a \<noteq> failureKey H k h"
  "challengeKey H a \<noteq> issueKey H h" "proofKey H a \<noteq> issueKey H h"
  "challengeKey H a \<noteq> radioKey H h" "proofKey H a \<noteq> radioKey H h"
  by (simp_all add: challengeKey_def proofKey_def failureKey_def issueKey_def radioKey_def)

text \<open>Seen from the key of a challenge, or of a proof, every step of the system is a step of a one-time value.\<close>

lemma verify_token_steps:
  assumes R: "redis_laws R view" and step: "verify_step R H v (pc, db) = (pc', db')"
  shows "token_step R view (challengeKey H token) (db, p, t) (db', p, t + (if takes_challenge R H token v pc db then 1 else 0))"
    and "token_step R view (proofKey H ptoken) (db, p, t) (db', p + (if stores_proof ptoken v pc then 1 else 0), t)"
proof -
  note fade = token_step.fade [where R = R and view = view]
  note frame = increment_frame [OF R] redis_lawsD(3,4) [OF R]
  have db': "db' = snd (verify_step R H v (pc, db))" using step by simp
  show "token_step R view (challengeKey H token) (db, p, t) (db', p, t + (if takes_challenge R H token v pc db then 1 else 0))"
  proof (cases "vi_token v = token \<and> (\<exists>raw stored. pc = VfTake raw stored)")
    case True
    then obtain raw stored where pc: "pc = VfTake raw stored" "vi_token v = token" by blast
    obtain ok d where taken: "compareAndDelete R (challengeKey H token) raw db = (ok, d)" by fastforce
    have "db' = d" "takes_challenge R H token v pc db \<longleftrightarrow> ok" using pc taken by (simp_all add: db' takes_challenge_def)
    then show ?thesis using token_step.take [OF taken, where view = view] by simp
  next
    case False
    then have "\<not> takes_challenge R H token v pc db" by (auto simp: takes_challenge_def)
    moreover have "live (view db' (challengeKey H token)) \<le> live (view db (challengeKey H token))"
      unfolding db' using False
      by (cases pc) (auto simp: case_prod_beta frame redis_del_def redis_set_def PROOF_TTL_SECONDS_def compareAndDelete_def split: option.splits)
    ultimately show ?thesis using fade by simp
  qed
  show "token_step R view (proofKey H ptoken) (db, p, t) (db', p + (if stores_proof ptoken v pc then 1 else 0), t)"
  proof (cases "stores_proof ptoken v pc")
    case True
    then obtain earned where "pc = VfStore earned" "vi_proofToken v = ptoken" by (auto simp: stores_proof_def)
    then show ?thesis using token_step.put [where R = R and view = view] True by (simp add: db')
  next
    case False
    have "live (view db' (proofKey H ptoken)) \<le> live (view db (proofKey H ptoken))"
      unfolding db' using False
      by (cases pc) (auto simp: case_prod_beta frame redis_del_def redis_set_def PROOF_TTL_SECONDS_def compareAndDelete_def stores_proof_def split: option.splits)
    then show ?thesis using False fade by simp
  qed
qed

lemma consume_token_steps:
  assumes R: "redis_laws R view" and step: "consume_step R H c (pc, db) = (pc', db')"
  shows "token_step R view (challengeKey H token) (db, p, t) (db', p, t)"
    and "token_step R view (proofKey H ptoken) (db, p, t) (db', p, t + (if consumes_proof ptoken pc pc' then 1 else 0))"
proof -
  note frame = redis_lawsD(4) [OF R]
  show "token_step R view (challengeKey H token) (db, p, t) (db', p, t)"
  proof (rule token_step.fade)
    show "live (view db' (challengeKey H token)) \<le> live (view db (challengeKey H token))"
      using step by (cases pc) (auto simp: frame redis_del_def compareAndDelete_def split: option.splits if_splits)
  qed
  show "token_step R view (proofKey H ptoken) (db, p, t) (db', p, t + (if consumes_proof ptoken pc pc' then 1 else 0))"
  proof (cases "\<exists>raw. pc = CoTake ptoken raw")
    case True
    then obtain raw where pc: "pc = CoTake ptoken raw" by blast
    obtain ok d where taken: "compareAndDelete R (proofKey H ptoken) raw db = (ok, d)" by fastforce
    have "db' = d" "consumes_proof ptoken pc pc' \<longleftrightarrow> ok" using step taken by (auto simp: pc consumes_proof_def split: if_splits)
    then show ?thesis using token_step.take [OF taken, where view = view] by simp
  next
    case False
    have "live (view db' (proofKey H ptoken)) \<le> live (view db (proofKey H ptoken))"
      using step False by (cases pc) (auto simp: frame redis_del_def compareAndDelete_def split: option.splits if_splits)
    then show ?thesis using False token_step.fade by (simp add: consumes_proof_def)
  qed
qed

text \<open>Issuing: counters of other keys first, then at most one stored challenge.\<close>

lemma issue_shape:
  assumes R: "redis_laws R view" and issue: "issue_challenge R H purpose subject ip mode tok now nonce seed db = (r, db')"
  shows "\<exists>db1. (\<forall>token. view db1 (challengeKey H token) = view db (challengeKey H token) \<and> view db1 (proofKey H token) = view db (proofKey H token))
    \<and> ((\<exists>e. r = Inl e) \<and> db' = db1
       \<or> (\<exists>stored. sc_purpose stored = purpose \<and> he_hmacIp H ip = Some (sc_contextHash stored) \<and> sc_subjectHash stored = he_hmacEmail H subject
            \<and> sc_issuedAt stored = now \<and> (r, db') = store_challenge R H tok stored db1))"
proof (cases "he_hmacIp H ip")
  case None
  then show ?thesis using issue by (auto simp: issue_challenge_def Let_def)
next
  case (Some ipHash)
  obtain n db1 where i: "incrementWithTtl R (issueKey H ipHash) ISSUE_WINDOW_SECONDS db = (n, db1)" by fastforce
  obtain m db2 where j: "incrementWithTtl R (radioKey H ipHash) RADIO_WINDOW_SECONDS db1 = (m, db2)" by fastforce
  have keep1: "view db1 (challengeKey H token) = view db (challengeKey H token) \<and> view db1 (proofKey H token) = view db (proofKey H token)" for token
    using increment_other [OF R i] by simp
  then have keep2: "view db2 (challengeKey H token) = view db (challengeKey H token) \<and> view db2 (proofKey H token) = view db (proofKey H token)" for token
    using increment_other [OF R j] by simp
  have "db' = db1 \<and> (\<exists>e. r = Inl e) \<or> db' = db2 \<and> (\<exists>e. r = Inl e)
      \<or> (\<exists>stored d. sc_purpose stored = purpose \<and> sc_contextHash stored = ipHash \<and> sc_subjectHash stored = he_hmacEmail H subject
           \<and> sc_issuedAt stored = now \<and> (r, db') = store_challenge R H tok stored d \<and> (d = db1 \<or> d = db2))"
  proof -
    define failures where "failures = count_of R (failureKey H ''s'' (he_hmacEmail H subject)) db1 + count_of R (failureKey H ''i'' ipHash) db1"
    define risk where "risk = (if purpose = Login then max (count_of R (loginEmailKey H (he_hmacEmail H subject)) db1)
      (count_of R (loginPairKey H (he_hmacEmail H subject) ipHash) db1) else 0)"
    define stored where "stored = (\<lambda>bits round. \<lparr>sc_purpose = purpose, sc_subjectHash = he_hmacEmail H subject, sc_contextHash = ipHash,
      sc_issuedAt = now, sc_nonce = nonce, sc_bits = bits, sc_round = round\<rparr>)"
    have same: "sc_purpose (stored b q) = purpose \<and> sc_contextHash (stored b q) = ipHash \<and> sc_subjectHash (stored b q) = he_hmacEmail H subject
        \<and> sc_issuedAt (stored b q) = now" for b q
      by (simp add: stored_def)
    have out: "(r, db') = (case n of None \<Rightarrow> (Inl ChInternal, db1) | Some issues \<Rightarrow>
        let bits = base_bits failures issues in
        if \<not> needs_round failures issues risk then store_challenge R H tok (stored bits None) db1
        else if mode = RadioKind then (case m of None \<Rightarrow> (Inl ChInternal, db2) | Some radioIssues \<Rightarrow>
          if RADIO_ISSUES_PER_HOUR < radioIssues then (Inl ChLimited, db2)
          else store_challenge R H tok (stored (min POW_CEILING (bits + POW_RADIO_EXTRA)) (Some (mode, seed))) db2)
        else store_challenge R H tok (stored bits (Some (mode, seed))) db1)"
      unfolding issue [symmetric] issue_challenge_def Let_def Some option.case i prod.case j failures_def risk_def stored_def ..
    have storing: ?thesis if "(r, db') = store_challenge R H tok (stored b q) d" "d = db1 \<or> d = db2" for b q d
      using that same by blast
    show ?thesis
    proof (cases n)
      case None
      then show ?thesis using out by simp
    next
      case (Some issues)
      show ?thesis using out Some storing by (cases m) (auto simp: Let_def split: if_splits)
    qed
  qed
  then show ?thesis using keep1 keep2 Some by (elim disjE conjE exE) auto
qed

lemma issue_token_steps:
  assumes R: "redis_laws R view" and issue: "issue_challenge R H purpose subject ip mode tok now nonce seed db = (r, db')"
  shows "(token_step R view (challengeKey H token))\<^sup>*\<^sup>* (db, p, t) (db', p + (if tok = token \<and> (\<exists>c. r = Inr c) then 1 else 0), t)"
    and "(token_step R view (proofKey H ptoken))\<^sup>*\<^sup>* (db, p, t) (db', p, t)"
proof -
  obtain db1 where keep: "view db1 (challengeKey H token) = view db (challengeKey H token)" "view db1 (proofKey H ptoken) = view db (proofKey H ptoken)"
    and ends: "(\<exists>e. r = Inl e) \<and> db' = db1 \<or> (\<exists>stored. (r, db') = store_challenge R H tok stored db1)"
    using issue_shape [OF R issue] by metis
  have first: "token_step R view (challengeKey H token) (db, p, t) (db1, p, t)" "token_step R view (proofKey H ptoken) (db, p, t) (db1, p, t)"
    using keep by (simp_all add: token_step.fade)
  have "(token_step R view (challengeKey H token))\<^sup>*\<^sup>* (db1, p, t) (db', p + (if tok = token \<and> (\<exists>c. r = Inr c) then 1 else 0), t)
      \<and> (token_step R view (proofKey H ptoken))\<^sup>*\<^sup>* (db1, p, t) (db', p, t)"
    using ends
  proof (elim disjE conjE exE)
    fix stored
    assume st: "(r, db') = store_challenge R H tok stored db1"
    then have db': "db' = redis_set R (challengeKey H tok) (he_challengeText H stored) (Some CHALLENGE_TTL_SECONDS) db1" and r: "\<exists>c. r = Inr c"
      by (auto simp: store_challenge_def)
    have "token_step R view (proofKey H ptoken) (db1, p, t) (db', p, t)"
      using redis_lawsD(3) [OF R] by (intro token_step.fade) (simp add: db' redis_set_def CHALLENGE_TTL_SECONDS_def)
    moreover have "token_step R view (challengeKey H token) (db1, p, t) (db', p + (if tok = token then 1 else 0), t)"
    proof (cases "tok = token")
      case True
      then show ?thesis using token_step.put [of R view "challengeKey H tok" db1 p t] by (simp add: db')
    next
      case False
      then have "live (view db' (challengeKey H token)) \<le> live (view db1 (challengeKey H token))"
        using redis_lawsD(3) [OF R] by (simp add: db' redis_set_def CHALLENGE_TTL_SECONDS_def)
      then show ?thesis using False token_step.fade by simp
    qed
    ultimately show ?thesis using r by auto
  qed auto
  then show "(token_step R view (challengeKey H token))\<^sup>*\<^sup>* (db, p, t) (db', p + (if tok = token \<and> (\<exists>c. r = Inr c) then 1 else 0), t)"
    and "(token_step R view (proofKey H ptoken))\<^sup>*\<^sup>* (db, p, t) (db', p, t)"
    using first by (meson converse_rtranclp_into_rtranclp)+
qed

lemma challenge_step_tokens:
  assumes "challenge_step R view H token ptoken vin cin s s'" and R: "redis_laws R view"
  shows "(token_step R view (challengeKey H token))\<^sup>*\<^sup>* (hs_db s, hs_issued s, hs_judged s) (hs_db s', hs_issued s', hs_judged s')
    \<and> (token_step R view (proofKey H ptoken))\<^sup>*\<^sup>* (hs_db s, hs_earned s, hs_consumed s) (hs_db s', hs_earned s', hs_consumed s')"
  using assms(1)
proof cases
  case (verify i pc db)
  show ?thesis using verify_token_steps [OF R verify(2)] 
    by (auto simp: verify(1) split del: if_split intro!: r_into_rtranclp)
next
  case (consume i pc db)
  show ?thesis using consume_token_steps [OF R consume(2)] 
    by (auto simp: consume(1) split del: if_split intro!: r_into_rtranclp)
next
  case (issue purpose subject ip mode tok now nonce seed r db)
  show ?thesis using issue_token_steps [OF R issue(2)] by (simp add: issue(1))
next
  case (elapse ms)
  have "live (view (rd_elapse R ms (hs_db s)) k) \<le> live (view (hs_db s) k)" for k
    using redis_lawsD(7) [OF R elapse(2)] live_aged by simp
  then show ?thesis by (simp add: elapse(1) r_into_rtranclp token_step.fade)
next
  case (other db)
  then show ?thesis by (simp add: r_into_rtranclp token_step.fade)
qed auto

lemma challenge_run_tokens:
  "challenge_run R view H token ptoken vin cin s s' \<Longrightarrow> redis_laws R view \<Longrightarrow>
     (token_step R view (challengeKey H token))\<^sup>*\<^sup>* (hs_db s, hs_issued s, hs_judged s) (hs_db s', hs_issued s', hs_judged s')
     \<and> (token_step R view (proofKey H ptoken))\<^sup>*\<^sup>* (hs_db s, hs_earned s, hs_consumed s) (hs_db s', hs_earned s', hs_consumed s')"
  by (induction rule: rtranclp_induct) (use challenge_step_tokens in \<open>fastforce intro: rtranclp_trans\<close>)+

text \<open>
  C20. One answer, one use. However requests interleave, a challenge has at most as many answers judged as it was issued, and a proof is
  consumed at most as often as it was stored; with tokens drawn once, a challenge cannot be tried twice and a proof opens one door.
\<close>

theorem challenge_used_once:
  assumes "redis_laws R view" and "challenge_run R view H token ptoken vin cin s s'"
    and "view (hs_db s) (challengeKey H token) = None" and "view (hs_db s) (proofKey H ptoken) = None"
    and "hs_judged s = 0" and "hs_consumed s = 0"
  shows "hs_judged s' \<le> hs_issued s' \<and> hs_consumed s' \<le> hs_earned s'"
proof -
  note runs = challenge_run_tokens [OF assms(2,1)]
  have "hs_judged s + live (view (hs_db s) (challengeKey H token)) \<le> hs_issued s" "hs_consumed s + live (view (hs_db s) (proofKey H ptoken)) \<le> hs_earned s"
    using assms(3-6) by simp_all
  from token_run_bound [OF assms(1) conjunct1 [OF runs] this(1)] token_run_bound [OF assms(1) conjunct2 [OF runs] this(2)]
  show ?thesis by linarith
qed

theorem challenge_used_once_witness:
  "\<exists>s'. challenge_run memory_redis (\<lambda>m. m) demo_env_human ''t'' ''p'' (\<lambda>_. demo_verify) (\<lambda>_. \<lparr>ci_token = Some ''p'', ci_purpose = Login, ci_subject = ''a'', ci_ip = ''1''\<rparr>)
        \<lparr>hs_db = (\<lambda>_. None), hs_verifiers = (\<lambda>_. VfTake ''c'' demo_challenge), hs_consumers = (\<lambda>_. CoLook), hs_issued = 0, hs_judged = 0, hs_earned = 0, hs_consumed = 0\<rparr> s'
     \<and> hs_issued s' = 1 \<and> hs_judged s' \<le> hs_issued s' \<and> hs_consumed s' \<le> hs_earned s'"
proof -
  define cin :: consume_input where "cin = \<lparr>ci_token = Some ''p'', ci_purpose = Login, ci_subject = ''a'', ci_ip = ''1''\<rparr>"
  define s0 :: "keyspace challenge_system" where "s0 = \<lparr>hs_db = (\<lambda>_. None), hs_verifiers = (\<lambda>_. VfTake ''c'' demo_challenge), hs_consumers = (\<lambda>_. CoLook),
      hs_issued = 0, hs_judged = 0, hs_earned = 0, hs_consumed = 0\<rparr>"
  obtain r db where issue: "issue_challenge memory_redis demo_env_human Login ''a'' ''1'' SwitchKind ''t'' 0 ''n'' 42 (hs_db s0) = (r, db)" by fastforce
  have "\<exists>c. r = Inr c"
    using issue increment_first [OF memory_redis_laws, of "hs_db s0" "issueKey demo_env_human ''1''" ISSUE_WINDOW_SECONDS]
    by (auto simp: s0_def issue_challenge_def demo_env_human_def store_challenge_def Let_def split: if_splits)
  with challenge_step.issue [OF issue, where view = "\<lambda>m. m" and token = "''t''" and ptoken = "''p''" and vin = "\<lambda>_. demo_verify" and cin = "\<lambda>_. cin"]
  obtain s' where s': "challenge_step memory_redis (\<lambda>m. m) demo_env_human ''t'' ''p'' (\<lambda>_. demo_verify) (\<lambda>_. cin) s0 s'" "hs_issued s' = 1"
    by (force simp: s0_def)
  then have "challenge_run memory_redis (\<lambda>m. m) demo_env_human ''t'' ''p'' (\<lambda>_. demo_verify) (\<lambda>_. cin) s0 s'" by auto
  with challenge_used_once [OF memory_redis_laws this] s' show ?thesis unfolding cin_def [symmetric] s0_def [symmetric] by (auto simp: s0_def)
qed

section \<open>How hard a challenge is\<close>

text \<open>With counters that are not negative, the work asked for stays between the base and the ceiling.\<close>

lemma challenge_difficulty:
  assumes "issue_challenge R H purpose subject ip mode tok now nonce seed db = (Inr c, db')"
    and "\<And>key db. 0 \<le> count_of R key db"
  shows "POW_BASE \<le> ic_bits c \<and> ic_bits c \<le> POW_CEILING"
proof -
  have "16 \<le> base_bits (a + b) n \<and> base_bits (a + b) n \<le> 19" if "0 \<le> a" "0 \<le> b" for a b n
    using that by (simp add: base_bits_def POW_BASE_def POW_MAX_def)
  then have "16 \<le> base_bits (count_of R k d + count_of R k' d) n \<and> base_bits (count_of R k d + count_of R k' d) n \<le> 19" for k k' d n
    using assms(2) by blast
  then have "16 \<le> base_bits (count_of R k d + count_of R k' d) n" "base_bits (count_of R k d + count_of R k' d) n \<le> 20"
      "16 \<le> base_bits (count_of R k d + count_of R k' d) n + 2" for k k' d n
    by (smt (verit))+
  then show ?thesis
    using assms(1)
    by (auto simp: issue_challenge_def store_challenge_def Let_def POW_BASE_def POW_CEILING_def POW_RADIO_EXTRA_def
        split: option.splits prod.splits if_splits)
qed

end
