(* ===== verification/Snapshot.thy ===== *)
theory Snapshot
  imports Bytes
begin

text \<open>
  The frame format of \<open>shared/src/protocol/snapshot.ts\<close>: a header and a sequence of
  length-prefixed sections. The decoder works on untrusted bytes: every count is compared with
  the bytes the section has left before anything is read, and a section type that this build does not know
  is skipped. A section's payload is a byte list and a cursor \<open>p\<close> is the list of the bytes not yet read, so
  \<open>end - p\<close> is its length.

  \<open>TextEncoder\<close> and \<open>TextDecoder\<close> are the parameters \<open>utf8\<close> and \<open>dec\<close>.
\<close>

unbundle bit_operations_syntax

section \<open>Types\<close>

record snapshot_player =
  sp_id :: int
  sp_x :: real
  sp_y :: real
  sp_facingX :: real
  sp_facingY :: real
  sp_colorIndex :: int
  sp_obscured :: bool
  sp_isTagger :: bool
  sp_effects :: "effect_type \<Rightarrow> real option"
  sp_emojiId :: "int option"

record snapshot_map =
  sm_cols :: int
  sm_rows :: int
  sm_tiles :: "tile list list"

record tile_change =
  tc_x :: int
  tc_y :: int
  tc_physics :: tile

record tile_alpha =
  ta_x :: int
  ta_y :: int
  ta_alpha :: real

record snapshot_storm =
  ss_x :: real
  ss_y :: real
  ss_width :: real
  ss_height :: real

record snapshot_region =
  rg_x :: int
  rg_y :: int
  rg_remaining :: real

record cooldown_entry =
  cd_slot :: int
  cd_remainingMs :: real

record roster_entry =
  ro_id :: int
  ro_nickname :: string

text \<open>\<open>storm\<close> is absent, \<open>null\<close> (no storm) or a rectangle.\<close>

record snapshot =
  sn_version :: int
  sn_full :: bool
  sn_tick :: int
  sn_map :: "snapshot_map option"
  sn_tileChanges :: "tile_change list option"
  sn_tileAlphas :: "tile_alpha list option"
  sn_storm :: "snapshot_storm option option"
  sn_players :: "snapshot_player list option"
  sn_regions :: "snapshot_region list option"
  sn_selfId :: "int option"
  sn_cooldowns :: "cooldown_entry list option"
  sn_roster :: "roster_entry list option"

datatype snapshot_decode_error =
  TooShort nat
| PastEnd int nat
| NeedMore int nat nat

section \<open>Decoding\<close>

text \<open>\<open>need\<close>: the rest of the reader runs when the payload has \<open>want\<close> more bytes.\<close>

definition need ::
  "int \<Rightarrow> byte list \<Rightarrow> nat \<Rightarrow> snapshot_decode_error + 'a \<Rightarrow> snapshot_decode_error + 'a" where
  "need t p want k = (if length p < want then Inl (NeedMore t want (length p)) else k)"

text \<open>The loop over \<open>count\<close> entries of \<open>n\<close> bytes, after one \<open>need\<close> for all of them.\<close>

fun read_fixed :: "nat \<Rightarrow> (byte list \<Rightarrow> 'a) \<Rightarrow> nat \<Rightarrow> byte list \<Rightarrow> 'a list" where
  "read_fixed n f 0 p = []"
| "read_fixed n f (Suc count) p = f p # read_fixed n f count (drop n p)"

text \<open>The loop over \<open>count\<close> entries whose reader checks and consumes its own bytes.\<close>

fun read_each ::
  "(byte list \<Rightarrow> snapshot_decode_error + 'a \<times> byte list) \<Rightarrow> nat \<Rightarrow> byte list
     \<Rightarrow> snapshot_decode_error + 'a list" where
  "read_each f 0 p = Inr []"
| "read_each f (Suc count) p =
     (case f p of
        Inl e \<Rightarrow> Inl e
      | Inr (x, p') \<Rightarrow>
          (case read_each f count p' of Inl e \<Rightarrow> Inl e | Inr xs \<Rightarrow> Inr (x # xs)))"

fun read_rows :: "nat \<Rightarrow> nat \<Rightarrow> byte list \<Rightarrow> tile list list" where
  "read_rows cols 0 p = []"
| "read_rows cols (Suc rows) p =
     read_fixed 1 (\<lambda>q. get_u8 q 0) cols p # read_rows cols rows (drop cols p)"

fun read_effects ::
  "int \<Rightarrow> int \<Rightarrow> nat \<Rightarrow> effect_type list \<Rightarrow> (effect_type \<Rightarrow> real option) \<Rightarrow> byte list
     \<Rightarrow> snapshot_decode_error + (effect_type \<Rightarrow> real option) \<times> byte list" where
  "read_effects t bits k [] effects p = Inr (effects, p)"
| "read_effects t bits k (e # es) effects p =
     (if bits AND push_bit k 1 = 0 then read_effects t bits (k + 1) es effects p
      else need t p 1
        (read_effects t bits (k + 1) es (effects(e \<mapsto> of_int (get_u8 p 0) / 255)) (drop 1 p)))"

definition read_player ::
  "int \<Rightarrow> byte list \<Rightarrow> snapshot_decode_error + snapshot_player \<times> byte list" where
  "read_player t p = need t p 10
     (let flags = get_u8 p 8; effectMask = get_u8 p 9 in
      case read_effects t effectMask 0 EFFECT_BITS Map.empty (drop 10 p) of
        Inl e \<Rightarrow> Inl e
      | Inr (effects, p1) \<Rightarrow>
          let player = \<lparr>sp_id = get_u8 p 0, sp_x = of_int (get_u16 p 1), sp_y = of_int (get_u16 p 3),
                sp_facingX = of_int (get_i8 p 5) / 127, sp_facingY = of_int (get_i8 p 6) / 127,
                sp_colorIndex = get_u8 p 7,
                sp_obscured = (flags AND PLAYER_OBSCURED \<noteq> 0),
                sp_isTagger = (flags AND PLAYER_TAGGER \<noteq> 0),
                sp_effects = effects, sp_emojiId = None\<rparr>
          in if flags AND PLAYER_HAS_EMOJI \<noteq> 0
             then need t p1 1 (Inr (player\<lparr>sp_emojiId := Some (get_u8 p1 0)\<rparr>, drop 1 p1))
             else Inr (player, p1))"

definition read_roster_entry ::
  "(byte list \<Rightarrow> string) \<Rightarrow> int \<Rightarrow> byte list \<Rightarrow> snapshot_decode_error + roster_entry \<times> byte list" where
  "read_roster_entry dec t p = need t p 2
     (let len = nat (get_u8 p 1); p1 = drop 2 p in
      need t p1 len
        (Inr (\<lparr>ro_id = get_u8 p 0, ro_nickname = dec (take len p1)\<rparr>, drop len p1)))"

definition read_change :: "byte list \<Rightarrow> tile_change" where
  "read_change p = \<lparr>tc_x = get_u8 p 0, tc_y = get_u8 p 1, tc_physics = get_u8 p 2\<rparr>"

definition read_alpha :: "byte list \<Rightarrow> tile_alpha" where
  "read_alpha p = \<lparr>ta_x = get_u8 p 0, ta_y = get_u8 p 1, ta_alpha = of_int (get_u8 p 2) / 255\<rparr>"

definition read_region :: "byte list \<Rightarrow> snapshot_region" where
  "read_region p = \<lparr>rg_x = get_u8 p 0, rg_y = get_u8 p 1, rg_remaining = of_int (get_u8 p 2) / 255\<rparr>"

definition read_cooldown :: "byte list \<Rightarrow> cooldown_entry" where
  "read_cooldown p = \<lparr>cd_slot = get_u8 p 0, cd_remainingMs = of_int (get_u16 p 1)\<rparr>"

text \<open>The branches of \<open>readSection\<close>, each on the payload \<open>p\<close> of its section.\<close>

definition read_map :: "snapshot \<Rightarrow> int \<Rightarrow> byte list \<Rightarrow> snapshot_decode_error + snapshot" where
  "read_map s t p = need t p 2
     (let cols = get_u8 p 0; rows = get_u8 p 1; q = drop 2 p in
      need t q (nat (cols * rows))
        (Inr (s\<lparr>sn_map := Some \<lparr>sm_cols = cols, sm_rows = rows,
           sm_tiles = read_rows (nat cols) (nat rows) q\<rparr>\<rparr>)))"

definition read_changes :: "snapshot \<Rightarrow> int \<Rightarrow> byte list \<Rightarrow> snapshot_decode_error + snapshot" where
  "read_changes s t p = need t p 2
     (let count = nat (get_u16 p 0); q = drop 2 p in
      need t q (count * 3) (Inr (s\<lparr>sn_tileChanges := Some (read_fixed 3 read_change count q)\<rparr>)))"

definition read_alphas :: "snapshot \<Rightarrow> int \<Rightarrow> byte list \<Rightarrow> snapshot_decode_error + snapshot" where
  "read_alphas s t p = need t p 2
     (let count = nat (get_u16 p 0); q = drop 2 p in
      need t q (count * 3) (Inr (s\<lparr>sn_tileAlphas := Some (read_fixed 3 read_alpha count q)\<rparr>)))"

definition read_storm :: "snapshot \<Rightarrow> int \<Rightarrow> byte list \<Rightarrow> snapshot_decode_error + snapshot" where
  "read_storm s t p = need t p 1
     (if get_u8 p 0 = 0 then Inr (s\<lparr>sn_storm := Some None\<rparr>)
      else need t p 9
        (Inr (s\<lparr>sn_storm := Some (Some
          \<lparr>ss_x = of_int (get_u16 p 1), ss_y = of_int (get_u16 p 3),
           ss_width = of_int (get_u16 p 5), ss_height = of_int (get_u16 p 7)\<rparr>)\<rparr>)))"

definition read_players :: "snapshot \<Rightarrow> int \<Rightarrow> byte list \<Rightarrow> snapshot_decode_error + snapshot" where
  "read_players s t p = need t p 1
     (case read_each (read_player t) (nat (get_u8 p 0)) (drop 1 p) of
        Inl e \<Rightarrow> Inl e
      | Inr out \<Rightarrow> Inr (s\<lparr>sn_players := Some out\<rparr>))"

definition read_regions :: "snapshot \<Rightarrow> int \<Rightarrow> byte list \<Rightarrow> snapshot_decode_error + snapshot" where
  "read_regions s t p = need t p 1
     (let count = nat (get_u8 p 0); q = drop 1 p in
      need t q (count * 3) (Inr (s\<lparr>sn_regions := Some (read_fixed 3 read_region count q)\<rparr>)))"

text \<open>A frame from before the cooldowns existed ends after the id, so this reads on only if bytes are left.\<close>

definition read_self :: "snapshot \<Rightarrow> int \<Rightarrow> byte list \<Rightarrow> snapshot_decode_error + snapshot" where
  "read_self s t p = need t p 1
     (let s1 = s\<lparr>sn_selfId := Some (get_u8 p 0)\<rparr>; q = drop 1 p in
      if 1 \<le> length q
      then let count = nat (get_u8 q 0); r = drop 1 q in
        need t r (count * 3) (Inr (s1\<lparr>sn_cooldowns := Some (read_fixed 3 read_cooldown count r)\<rparr>))
      else Inr s1)"

definition read_roster ::
  "(byte list \<Rightarrow> string) \<Rightarrow> snapshot \<Rightarrow> int \<Rightarrow> byte list \<Rightarrow> snapshot_decode_error + snapshot" where
  "read_roster dec s t p = need t p 1
     (case read_each (read_roster_entry dec t) (nat (get_u8 p 0)) (drop 1 p) of
        Inl e \<Rightarrow> Inl e
      | Inr out \<Rightarrow> Inr (s\<lparr>sn_roster := Some out\<rparr>))"

definition readSection ::
  "(byte list \<Rightarrow> string) \<Rightarrow> snapshot \<Rightarrow> int \<Rightarrow> byte list \<Rightarrow> snapshot_decode_error + snapshot" where
  "readSection dec s t p =
     (if t = section_code SecMap then read_map s t p
      else if t = section_code SecTileChanges then read_changes s t p
      else if t = section_code SecTileAlphas then read_alphas s t p
      else if t = section_code SecStorm then read_storm s t p
      else if t = section_code SecPlayers then read_players s t p
      else if t = section_code SecRegions then read_regions s t p
      else if t = section_code SecSelf then read_self s t p
      else if t = section_code SecRoster then read_roster dec s t p
      else Inr s)"

text \<open>The loop of \<open>decodeSnapshot\<close> on the bytes from \<open>offset\<close> on.\<close>

function decode_sections ::
  "(byte list \<Rightarrow> string) \<Rightarrow> snapshot \<Rightarrow> byte list \<Rightarrow> snapshot_decode_error + snapshot" where
  "decode_sections dec s buf =
     (if SECTION_HEADER_BYTES \<le> length buf then
        (let t = get_u8 buf 0; len = nat (get_u16 buf 1) in
         if length buf < SECTION_HEADER_BYTES + len then Inl (PastEnd t len)
         else case readSection dec s t (take len (drop SECTION_HEADER_BYTES buf)) of
             Inl e \<Rightarrow> Inl e
           | Inr s' \<Rightarrow> decode_sections dec s' (drop (SECTION_HEADER_BYTES + len) buf))
      else Inr s)"
  by pat_completeness auto
termination
  by (relation "measure (\<lambda>(_, _, buf). length buf)") (auto simp: SECTION_HEADER_BYTES_def)

declare decode_sections.simps [simp del]

definition empty_snapshot :: "int \<Rightarrow> bool \<Rightarrow> int \<Rightarrow> snapshot" where
  "empty_snapshot version full tick =
     \<lparr>sn_version = version, sn_full = full, sn_tick = tick, sn_map = None, sn_tileChanges = None,
      sn_tileAlphas = None, sn_storm = None, sn_players = None, sn_regions = None, sn_selfId = None,
      sn_cooldowns = None, sn_roster = None\<rparr>"

definition decodeSnapshot :: "(byte list \<Rightarrow> string) \<Rightarrow> byte list \<Rightarrow> snapshot_decode_error + snapshot" where
  "decodeSnapshot dec buffer =
     (if length buffer < SNAPSHOT_HEADER_BYTES then Inl (TooShort (length buffer))
      else decode_sections dec
        (empty_snapshot (get_u8 buffer 0) (get_u8 buffer 1 AND FLAG_FULL \<noteq> 0) (get_u32 buffer 2))
        (drop SNAPSHOT_HEADER_BYTES buffer))"

end
