(* ===== verification/SnapshotCodec.thy ===== *)
theory SnapshotCodec
  imports Snapshot
begin

text \<open>
  The encoder of \<open>shared/src/protocol/snapshot.ts\<close>, the interface that a pair of an entry writer
  and an entry reader implements, and the round trip of whole frames. The encoder produces the list of
  bytes that the calls of \<open>ByteWriter\<close> append (theory \<open>Bytes\<close> relates the two).
\<close>

section \<open>Encoding\<close>

definition put_byte :: "int \<Rightarrow> byte list" where "put_byte v = w_u8 (of_int v)"

text \<open>\<open>row?.[x] ?? 0\<close>\<close>

definition tile_or_zero :: "tile list list \<Rightarrow> nat \<Rightarrow> nat \<Rightarrow> tile" where
  "tile_or_zero tiles y x =
     (if y < length tiles \<and> x < length (tiles ! y) then tiles ! y ! x else 0)"

definition enc_map :: "snapshot_map \<Rightarrow> byte list" where
  "enc_map m = put_byte (sm_cols m) @ put_byte (sm_rows m) @
     concat (map (\<lambda>y. concat (map (\<lambda>x. put_byte (tile_or_zero (sm_tiles m) y x)) [0..<nat (sm_cols m)]))
       [0..<nat (sm_rows m)])"

definition enc_change :: "tile_change \<Rightarrow> byte list" where
  "enc_change c = put_byte (tc_x c) @ put_byte (tc_y c) @ put_byte (tc_physics c)"

definition enc_alpha :: "tile_alpha \<Rightarrow> byte list" where
  "enc_alpha a = put_byte (ta_x a) @ put_byte (ta_y a) @ put_byte (ratioByte (ta_alpha a))"

definition enc_region :: "snapshot_region \<Rightarrow> byte list" where
  "enc_region r = put_byte (rg_x r) @ put_byte (rg_y r) @ put_byte (ratioByte (rg_remaining r))"

definition enc_cooldown :: "cooldown_entry \<Rightarrow> byte list" where
  "enc_cooldown c = put_byte (cd_slot c) @ w_u16 (cd_remainingMs c)"

definition enc_storm :: "snapshot_storm option \<Rightarrow> byte list" where
  "enc_storm storm =
     (case storm of
        None \<Rightarrow> put_byte 0
      | Some z \<Rightarrow> put_byte 1 @ w_u16 (ss_x z) @ w_u16 (ss_y z) @ w_u16 (ss_width z) @ w_u16 (ss_height z))"

definition player_flags :: "snapshot_player \<Rightarrow> int" where
  "player_flags p =
     (let f1 = (if sp_obscured p then 0 OR PLAYER_OBSCURED else 0);
          f2 = (if sp_isTagger p then f1 OR PLAYER_TAGGER else f1)
      in if sp_emojiId p \<noteq> None then f2 OR PLAYER_HAS_EMOJI else f2)"

definition effect_mask :: "(effect_type \<Rightarrow> real option) \<Rightarrow> int" where
  "effect_mask effects =
     fold (\<lambda>(k, e) m. if effects e \<noteq> None then m OR push_bit k 1 else m) (enumerate 0 EFFECT_BITS) 0"

definition enc_effects :: "(effect_type \<Rightarrow> real option) \<Rightarrow> byte list" where
  "enc_effects effects =
     concat (map (\<lambda>e. case effects e of Some v \<Rightarrow> put_byte (ratioByte v) | None \<Rightarrow> []) EFFECT_BITS)"

definition enc_player :: "snapshot_player \<Rightarrow> byte list" where
  "enc_player p =
     put_byte (sp_id p) @ w_u16 (sp_x p) @ w_u16 (sp_y p)
     @ w_i8 (sp_facingX p * 127) @ w_i8 (sp_facingY p * 127)
     @ put_byte (sp_colorIndex p) @ put_byte (player_flags p) @ put_byte (effect_mask (sp_effects p))
     @ enc_effects (sp_effects p)
     @ (case sp_emojiId p of Some e \<Rightarrow> put_byte e | None \<Rightarrow> [])"

definition enc_roster_entry :: "(string \<Rightarrow> byte list) \<Rightarrow> roster_entry \<Rightarrow> byte list" where
  "enc_roster_entry utf8 r =
     (let name = take 255 (utf8 (ro_nickname r))
      in put_byte (ro_id r) @ put_byte (int (length name)) @ name)"

definition enc_self :: "int \<Rightarrow> cooldown_entry list option \<Rightarrow> byte list" where
  "enc_self selfId cooldowns = put_byte selfId @
     (case cooldowns of None \<Rightarrow> [] | Some cs \<Rightarrow> put_byte (int (length cs)) @ concat (map enc_cooldown cs))"

text \<open>
  The optional sections of \<open>encodeSnapshot\<close> in its order. \<open>?.length\<close> leaves out an absent and
  an empty list, a plain truthiness test leaves out only an absent one.
\<close>

definition optional_section :: "'a option \<Rightarrow> section_type \<Rightarrow> ('a \<Rightarrow> byte list) \<Rightarrow> byte list" where
  "optional_section v t body = (case v of None \<Rightarrow> [] | Some x \<Rightarrow> w_section (section_code t) (body x))"

definition nonempty :: "'a list option \<Rightarrow> 'a list option" where
  "nonempty v = (case v of Some [] \<Rightarrow> None | _ \<Rightarrow> v)"

definition encodeSnapshot :: "(string \<Rightarrow> byte list) \<Rightarrow> snapshot \<Rightarrow> byte list" where
  "encodeSnapshot utf8 s =
     put_byte PROTOCOL_VERSION @ put_byte (if sn_full s then FLAG_FULL else 0) @ w_u32 (of_int (sn_tick s))
     @ optional_section (sn_map s) SecMap enc_map
     @ optional_section (nonempty (sn_tileChanges s)) SecTileChanges
         (\<lambda>cs. w_u16 (of_nat (length cs)) @ concat (map enc_change cs))
     @ optional_section (sn_tileAlphas s) SecTileAlphas
         (\<lambda>as. w_u16 (of_nat (length as)) @ concat (map enc_alpha as))
     @ optional_section (sn_storm s) SecStorm enc_storm
     @ optional_section (sn_players s) SecPlayers
         (\<lambda>ps. put_byte (int (length ps)) @ concat (map enc_player ps))
     @ optional_section (nonempty (sn_regions s)) SecRegions
         (\<lambda>rs. put_byte (int (length rs)) @ concat (map enc_region rs))
     @ optional_section (sn_selfId s) SecSelf (\<lambda>i. enc_self i (sn_cooldowns s))
     @ optional_section (nonempty (sn_roster s)) SecRoster
         (\<lambda>rs. put_byte (int (length rs)) @ concat (map (enc_roster_entry utf8) rs))"

section \<open>What a frame keeps of a snapshot\<close>

definition byte_ratio :: "real \<Rightarrow> real" where
  "byte_ratio v = of_int (ratioByte v) / 255"

definition u16_of :: "real \<Rightarrow> real" where
  "u16_of v = of_int (clamp_int 0 65535 (js_round v))"

definition i8_ratio :: "real \<Rightarrow> real" where
  "i8_ratio v = of_int (clamp_int (- 128) 127 (js_round (v * 127))) / 127"

abbreviation byte_of :: "int \<Rightarrow> int" where "byte_of v \<equiv> clamp_int 0 255 v"

definition q_player :: "snapshot_player \<Rightarrow> snapshot_player" where
  "q_player p = \<lparr>sp_id = byte_of (sp_id p), sp_x = u16_of (sp_x p), sp_y = u16_of (sp_y p),
     sp_facingX = i8_ratio (sp_facingX p), sp_facingY = i8_ratio (sp_facingY p),
     sp_colorIndex = byte_of (sp_colorIndex p),
     sp_obscured = sp_obscured p, sp_isTagger = sp_isTagger p,
     sp_effects = (\<lambda>e. map_option byte_ratio (sp_effects p e)),
     sp_emojiId = map_option byte_of (sp_emojiId p)\<rparr>"

definition q_change :: "tile_change \<Rightarrow> tile_change" where
  "q_change c = \<lparr>tc_x = byte_of (tc_x c), tc_y = byte_of (tc_y c), tc_physics = byte_of (tc_physics c)\<rparr>"

definition q_alpha :: "tile_alpha \<Rightarrow> tile_alpha" where
  "q_alpha a = \<lparr>ta_x = byte_of (ta_x a), ta_y = byte_of (ta_y a), ta_alpha = byte_ratio (ta_alpha a)\<rparr>"

definition q_region :: "snapshot_region \<Rightarrow> snapshot_region" where
  "q_region r = \<lparr>rg_x = byte_of (rg_x r), rg_y = byte_of (rg_y r), rg_remaining = byte_ratio (rg_remaining r)\<rparr>"

definition q_cooldown :: "cooldown_entry \<Rightarrow> cooldown_entry" where
  "q_cooldown c = \<lparr>cd_slot = byte_of (cd_slot c), cd_remainingMs = u16_of (cd_remainingMs c)\<rparr>"

definition q_storm :: "snapshot_storm \<Rightarrow> snapshot_storm" where
  "q_storm z = \<lparr>ss_x = u16_of (ss_x z), ss_y = u16_of (ss_y z), ss_width = u16_of (ss_width z),
     ss_height = u16_of (ss_height z)\<rparr>"

definition q_map :: "snapshot_map \<Rightarrow> snapshot_map" where
  "q_map m = m\<lparr>sm_tiles := map (\<lambda>y. map (\<lambda>x. byte_of (tile_or_zero (sm_tiles m) y x)) [0..<nat (sm_cols m)])
     [0..<nat (sm_rows m)]\<rparr>"

definition q_roster_entry :: "(string \<Rightarrow> byte list) \<Rightarrow> (byte list \<Rightarrow> string) \<Rightarrow> roster_entry \<Rightarrow> roster_entry" where
  "q_roster_entry utf8 dec r =
     \<lparr>ro_id = byte_of (ro_id r), ro_nickname = dec (take 255 (utf8 (ro_nickname r)))\<rparr>"

definition quantise :: "(string \<Rightarrow> byte list) \<Rightarrow> (byte list \<Rightarrow> string) \<Rightarrow> snapshot \<Rightarrow> snapshot" where
  "quantise utf8 dec s =
     \<lparr>sn_version = PROTOCOL_VERSION, sn_full = sn_full s,
      sn_tick = clamp_int 0 4294967295 (sn_tick s),
      sn_map = map_option q_map (sn_map s),
      sn_tileChanges = map_option (map q_change) (nonempty (sn_tileChanges s)),
      sn_tileAlphas = map_option (map q_alpha) (sn_tileAlphas s),
      sn_storm = map_option (map_option q_storm) (sn_storm s),
      sn_players = map_option (map q_player) (sn_players s),
      sn_regions = map_option (map q_region) (nonempty (sn_regions s)),
      sn_selfId = map_option byte_of (sn_selfId s),
      sn_cooldowns = (if sn_selfId s = None then None else map_option (map q_cooldown) (sn_cooldowns s)),
      sn_roster = map_option (map (q_roster_entry utf8 dec)) (nonempty (sn_roster s))\<rparr>"

text \<open>The counts and the grid fit the fields that carry them and each section fits its \<open>u16\<close> length.\<close>

definition fits :: "'a list option \<Rightarrow> nat \<Rightarrow> bool" where
  "fits v n = (case v of None \<Rightarrow> True | Some xs \<Rightarrow> length xs \<le> n)"

definition frame_ok :: "snapshot \<Rightarrow> bool" where
  "frame_ok s \<longleftrightarrow>
     (case sn_map s of None \<Rightarrow> True
      | Some m \<Rightarrow> 0 \<le> sm_cols m \<and> sm_cols m \<le> 255 \<and> 0 \<le> sm_rows m \<and> sm_rows m \<le> 255)
     \<and> fits (sn_tileChanges s) 21844 \<and> fits (sn_tileAlphas s) 21844 \<and> fits (sn_players s) 255
     \<and> fits (sn_regions s) 255 \<and> fits (sn_cooldowns s) 255 \<and> fits (sn_roster s) 254"

section \<open>Codecs of entries\<close>

text \<open>
  A writer and a reader of one entry agree when reading what was written, in front of anything,
  gives the value the frame keeps and the rest of the bytes. Lists of entries then agree.
\<close>

locale entry_codec =
  fixes wr :: "'a \<Rightarrow> byte list"
    and rd :: "byte list \<Rightarrow> snapshot_decode_error + 'a \<times> byte list"
    and keep :: "'a \<Rightarrow> 'a"
  assumes read_write: "rd (wr x @ r) = Inr (keep x, r)"
begin

lemma read_each_write: "read_each rd (length xs) (concat (map wr xs) @ r) = Inr (map keep xs)"
  by (induction xs) (simp_all add: read_write)

lemma read_each_all: "read_each rd (length xs) (concat (map wr xs)) = Inr (map keep xs)"
  using read_each_write [of xs "[]"] by simp

end

text \<open>Entries of a fixed number of bytes, whose reader needs no check of its own.\<close>

locale fixed_codec =
  fixes n :: nat
    and wr :: "'a \<Rightarrow> byte list"
    and rd :: "byte list \<Rightarrow> 'a"
    and keep :: "'a \<Rightarrow> 'a"
  assumes write_length: "length (wr x) = n"
    and read_write: "rd (wr x @ r) = keep x"
begin

lemma concat_length: "length (concat (map wr xs)) = length xs * n"
  by (induction xs) (simp_all add: write_length)

lemma read_fixed_write: "read_fixed n rd (length xs) (concat (map wr xs) @ r) = map keep xs"
  by (induction xs) (simp_all add: read_write write_length)

lemma read_fixed_all: "read_fixed n rd (length xs) (concat (map wr xs)) = map keep xs"
  using read_fixed_write [of xs "[]"] by simp

end

sublocale fixed_codec \<subseteq> each: entry_codec wr "\<lambda>p. Inr (rd p, drop n p)" keep
  by unfold_locales (simp add: read_write write_length)

subsection \<open>The codecs of the frame\<close>

lemma put_byte_list [wire_simps]: "put_byte v = [word_of_int (byte_of v)]"
  by (simp add: put_byte_def w_u8_def set_u8_def)

lemma w_lists [wire_simps]:
  "w_u16 v = [word_of_int (clamp_int 0 65535 (js_round v)), word_of_int (clamp_int 0 65535 (js_round v) div 256)]"
  "w_i8 v = [word_of_int (clamp_int (- 128) 127 (js_round v))]"
  by (simp_all add: w_u16_def w_i8_def set_u16_def set_u8_def)

lemma sint_clamp: "sint (word_of_int (clamp_int (- 128) 127 v) :: byte) = clamp_int (- 128) 127 v"
  using clamp_int_range [of "- 128" 127 v] by (intro sint_byte) simp_all

lemmas get_defs = get_u8_def get_u16_def get_i8_def

declare get_defs [wire_simps] uint_byte [wire_simps] mod_div_256 [wire_simps]
  clamp_mod [wire_simps] sint_clamp [wire_simps]

lemma ratioByte_byte [wire_simps]: "byte_of (ratioByte v) = ratioByte v"
  by (simp add: ratioByte_def clampByte_def clamp_int_def)

lemma ratioByte_mod [wire_simps]: "ratioByte v mod 256 = ratioByte v"
  using clampByte_range [of "v * 255"] by (simp add: ratioByte_def)

interpretation change: fixed_codec 3 enc_change read_change q_change
  by unfold_locales (simp_all add: enc_change_def read_change_def q_change_def wire_simps)

interpretation alpha: fixed_codec 3 enc_alpha read_alpha q_alpha
  by unfold_locales (simp_all add: enc_alpha_def read_alpha_def q_alpha_def byte_ratio_def wire_simps)

interpretation region: fixed_codec 3 enc_region read_region q_region
  by unfold_locales (simp_all add: enc_region_def read_region_def q_region_def byte_ratio_def wire_simps)

interpretation cooldown: fixed_codec 3 enc_cooldown read_cooldown q_cooldown
  by unfold_locales (simp_all add: enc_cooldown_def read_cooldown_def q_cooldown_def u16_of_def wire_simps)

lemma need_enough [simp]: "n \<le> length p \<Longrightarrow> need t p n k = k"
  by (simp add: need_def)

lemma effect_mask_cases:
  "effect_mask eff = (if eff EffDash = None then 0 else 1) + (if eff EffFrenzy = None then 0 else 2)
     + (if eff EffExhaust = None then 0 else 4)"
  by (simp add: effect_mask_def EFFECT_BITS_def push_bit_eq_mult)

lemma q_effects:
  "(\<lambda>e. map_option byte_ratio (eff e)) =
     (\<lambda>e. case e of EffDash \<Rightarrow> map_option byte_ratio (eff EffDash)
        | EffFrenzy \<Rightarrow> map_option byte_ratio (eff EffFrenzy)
        | EffExhaust \<Rightarrow> map_option byte_ratio (eff EffExhaust))"
  by (rule ext) (simp split: effect_type.split)

lemma effects_read:
  "read_effects t (effect_mask eff) 0 EFFECT_BITS Map.empty (enc_effects eff @ r)
     = Inr (\<lambda>e. map_option byte_ratio (eff e), r)"
  unfolding q_effects
  by (cases "eff EffDash"; cases "eff EffFrenzy"; cases "eff EffExhaust")
    (auto simp: effect_mask_cases enc_effects_def EFFECT_BITS_def push_bit_eq_mult byte_ratio_def need_def
      wire_simps fun_eq_iff split: effect_type.splits)

lemma effect_mask_range: "byte_of (effect_mask eff) = effect_mask eff" "effect_mask eff mod 256 = effect_mask eff"
  by (simp_all add: effect_mask_cases)

lemma player_flags_read:
  "byte_of (player_flags p) = player_flags p" "player_flags p mod 256 = player_flags p"
  "player_flags p AND PLAYER_OBSCURED \<noteq> 0 \<longleftrightarrow> sp_obscured p"
  "player_flags p AND PLAYER_TAGGER \<noteq> 0 \<longleftrightarrow> sp_isTagger p"
  "player_flags p AND PLAYER_HAS_EMOJI \<noteq> 0 \<longleftrightarrow> sp_emojiId p \<noteq> None"
  by (simp_all add: player_flags_def PLAYER_OBSCURED_def PLAYER_TAGGER_def PLAYER_HAS_EMOJI_def)

lemma put_byte_get: "get_u8 (put_byte v @ r) 0 = byte_of v"
  by (simp add: wire_simps)

lemma put_byte_length: "length (put_byte v) = 1"
  by (simp add: wire_simps)

text \<open>The ten fixed bytes of a player, apart from what follows them.\<close>

definition player_head :: "snapshot_player \<Rightarrow> byte list" where
  "player_head p = put_byte (sp_id p) @ w_u16 (sp_x p) @ w_u16 (sp_y p)
     @ w_i8 (sp_facingX p * 127) @ w_i8 (sp_facingY p * 127)
     @ put_byte (sp_colorIndex p) @ put_byte (player_flags p) @ put_byte (effect_mask (sp_effects p))"

definition player_tail :: "snapshot_player \<Rightarrow> byte list" where
  "player_tail p = (case sp_emojiId p of Some e \<Rightarrow> put_byte e | None \<Rightarrow> [])"

lemma enc_player_split: "enc_player p = player_head p @ enc_effects (sp_effects p) @ player_tail p"
  by (simp add: enc_player_def player_head_def player_tail_def)

lemma player_head_read:
  "length (player_head p) = 10"
  "get_u8 (player_head p @ r) 0 = byte_of (sp_id p)"
  "of_int (get_u16 (player_head p @ r) 1) = u16_of (sp_x p)"
  "of_int (get_u16 (player_head p @ r) 3) = u16_of (sp_y p)"
  "of_int (get_i8 (player_head p @ r) 5) / 127 = i8_ratio (sp_facingX p)"
  "of_int (get_i8 (player_head p @ r) 6) / 127 = i8_ratio (sp_facingY p)"
  "get_u8 (player_head p @ r) 7 = byte_of (sp_colorIndex p)"
  "get_u8 (player_head p @ r) 8 = player_flags p"
  "get_u8 (player_head p @ r) 9 = effect_mask (sp_effects p)"
  by (simp_all add: player_head_def wire_simps u16_of_def i8_ratio_def player_flags_read effect_mask_range)

lemma player_codec: "read_player t (enc_player p @ r) = Inr (q_player p, r)"
proof (cases "sp_emojiId p")
  case None
  then show ?thesis
    by (simp add: enc_player_split read_player_def player_head_read effects_read player_flags_read
        player_tail_def q_player_def Let_def del: One_nat_def)
next
  case (Some e)
  then show ?thesis
    by (simp add: enc_player_split read_player_def player_head_read effects_read player_flags_read
        player_tail_def q_player_def Let_def
        put_byte_get put_byte_length del: One_nat_def)
qed

interpretation player: entry_codec enc_player "read_player t" q_player for t
  by unfold_locales (rule player_codec)

interpretation roster: entry_codec "enc_roster_entry utf8" "read_roster_entry dec t" "q_roster_entry utf8 dec"
  for utf8 dec t
proof unfold_locales
  fix x :: roster_entry and r
  define name where "name = take 255 (utf8 (ro_nickname x))"
  have len: "length name \<le> 255" by (simp add: name_def)
  have enc: "enc_roster_entry utf8 x @ r = put_byte (ro_id x) @ put_byte (int (length name)) @ name @ r"
    by (simp add: enc_roster_entry_def name_def Let_def)
  have second: "get_u8 (put_byte (ro_id x) @ put_byte (int (length name)) @ name @ r) 1 = int (length name)"
    using get_append(1) [of "put_byte (ro_id x)" "put_byte (int (length name)) @ name @ r" 0] len
    by (simp add: put_byte_length put_byte_get del: One_nat_def)
  show "read_roster_entry dec t (enc_roster_entry utf8 x @ r) = Inr (q_roster_entry utf8 dec x, r)"
    unfolding enc read_roster_entry_def q_roster_entry_def name_def [symmetric] second Let_def
    by (simp add: put_byte_get put_byte_length)
qed

section \<open>Sections\<close>

lemma section_header:
  assumes "length body \<le> 65535" "0 \<le> t" "t \<le> 255"
  shows "get_u8 (w_section t body @ r) 0 = t" "nat (get_u16 (w_section t body @ r) 1) = length body"
    "drop SECTION_HEADER_BYTES (w_section t body @ r) = body @ r"
proof -
  have enc: "w_section t body = put_byte t @ set_u16 (int (length body)) @ body"
    by (simp add: w_section_def put_byte_def)
  show "get_u8 (w_section t body @ r) 0 = t"
    using assms by (simp add: enc put_byte_get)
  have "get_u16 (put_byte t @ set_u16 (int (length body)) @ body @ r) 1 = int (length body) mod 65536"
    using get_append(2) [of "put_byte t" "set_u16 (int (length body)) @ body @ r" 0]
    by (simp add: put_byte_length del: One_nat_def)
  then show "nat (get_u16 (w_section t body @ r) 1) = length body"
    using assms by (simp add: enc)
  show "drop SECTION_HEADER_BYTES (w_section t body @ r) = body @ r"
    by (simp add: enc put_byte_list set_u16_def SECTION_HEADER_BYTES_def)
qed

lemma decode_section:
  assumes "length body \<le> 65535" "0 \<le> t" "t \<le> 255"
  shows "decode_sections dec s (w_section t body @ rest) =
     (case readSection dec s t body of Inl e \<Rightarrow> Inl e | Inr s' \<Rightarrow> decode_sections dec s' rest)"
proof -
  have d: "drop (SECTION_HEADER_BYTES + length body) (w_section t body @ rest) = rest"
    using section_header(3) [OF assms, of rest]
    by (metis add.commute append_eq_conv_conj drop_drop)
  have long: "SECTION_HEADER_BYTES + length body \<le> length (w_section t body @ rest)"
    by (simp add: SECTION_HEADER_BYTES_def)
  then have long3: "SECTION_HEADER_BYTES \<le> length (w_section t body @ rest)" by linarith
  show ?thesis
    unfolding decode_sections.simps [of dec s "w_section t body @ rest"] Let_def section_header [OF assms] d
    using long long3 by simp
qed

lemma section_code_range: "0 \<le> section_code t" "section_code t \<le> 255"
  by (cases t, simp_all)+

text \<open>
  An optional section sets its fields: \<open>upd\<close> writes them, and leaves the snapshot alone when the section is absent.
\<close>

lemma decode_optional:
  assumes "upd None s = s"
    and "\<And>x. v = Some x \<Longrightarrow> length (body x) \<le> 65535"
    and "\<And>x. v = Some x \<Longrightarrow> readSection dec s (section_code t) (body x) = Inr (upd (Some (g x)) s)"
  shows "decode_sections dec s (optional_section v t body @ rest) = decode_sections dec (upd (map_option g v) s) rest"
proof (cases v)
  case None
  with assms(1) show ?thesis by (simp add: optional_section_def)
next
  case (Some x)
  with assms(2,3) [OF Some] show ?thesis
    by (simp add: optional_section_def decode_section section_code_range)
qed

lemma read_bytes_row: "read_fixed 1 (\<lambda>q. get_u8 q 0) (length xs) (concat (map put_byte xs) @ r) = map byte_of xs"
  by (induction xs) (simp_all add: wire_simps)

lemma concat_bytes_length: "length (concat (map (\<lambda>x. put_byte (f x)) xs)) = length xs"
  by (induction xs) (simp_all add: put_byte_list)

lemma read_rows_write:
  "read_rows cols (length ys) (concat (map (\<lambda>y. concat (map (\<lambda>x. put_byte (f y x)) [0..<cols])) ys))
     = map (\<lambda>y. map (\<lambda>x. byte_of (f y x)) [0..<cols]) ys"
proof (induction ys)
  case Nil
  then show ?case by simp
next
  case (Cons y ys)
  have "read_fixed 1 (\<lambda>q. get_u8 q 0) cols (concat (map (\<lambda>x. put_byte (f y x)) [0..<cols]) @ r)
      = map (\<lambda>x. byte_of (f y x)) [0..<cols]" for r
    using read_bytes_row [of "map (f y) [0..<cols]" r] by (simp add: comp_def)
  with Cons show ?case by (simp add: concat_bytes_length)
qed

lemma concat_rows_length:
  "length (concat (map (\<lambda>y. concat (map (\<lambda>x. put_byte (f y x)) [0..<cols])) ys)) = length ys * cols"
  by (induction ys) (simp_all add: concat_bytes_length)

lemma read_map_enc:
  assumes "0 \<le> sm_cols m" "sm_cols m \<le> 255" "0 \<le> sm_rows m" "sm_rows m \<le> 255"
  shows "readSection dec s (section_code SecMap) (enc_map m) = Inr (s\<lparr>sn_map := Some (q_map m)\<rparr>)"
    and "length (enc_map m) \<le> 65535"
proof -
  let ?g = "concat (map (\<lambda>y. concat (map (\<lambda>x. put_byte (tile_or_zero (sm_tiles m) y x)) [0..<nat (sm_cols m)]))
       [0..<nat (sm_rows m)])"
  have e: "enc_map m = put_byte (sm_cols m) @ put_byte (sm_rows m) @ ?g" by (simp add: enc_map_def)
  have len: "length ?g = nat (sm_cols m * sm_rows m)"
    using assms by (simp add: concat_rows_length nat_mult_distrib mult.commute)
  have "sm_cols m * sm_rows m \<le> 255 * 255" using assms by (intro mult_mono) simp_all
  then show "length (enc_map m) \<le> 65535" by (simp add: e len put_byte_length)
  have second: "get_u8 (put_byte (sm_cols m) @ put_byte (sm_rows m) @ ?g) 1 = sm_rows m"
    using get_append(1) [of "put_byte (sm_cols m)" "put_byte (sm_rows m) @ ?g" 0] assms
    by (simp add: put_byte_length put_byte_get del: One_nat_def)
  have rows: "read_rows (nat (sm_cols m)) (nat (sm_rows m)) ?g = sm_tiles (q_map m)"
    using read_rows_write [of "nat (sm_cols m)" "[0..<nat (sm_rows m)]" "tile_or_zero (sm_tiles m)"]
    by (simp add: q_map_def)
  show "readSection dec s (section_code SecMap) (enc_map m) = Inr (s\<lparr>sn_map := Some (q_map m)\<rparr>)"
    unfolding readSection_def read_map_def e second Let_def
    using assms len rows by (simp add: put_byte_get put_byte_length q_map_def)
qed

lemma w_u16_get: "n \<le> 65535 \<Longrightarrow> nat (get_u16 (w_u16 (of_nat n) @ r) 0) = n"
  using js_round_of_int [of "int n"] by simp

lemma read_counted:
  "length cs \<le> 21844 \<Longrightarrow>
     readSection dec s (section_code SecTileChanges) (w_u16 (of_nat (length cs)) @ concat (map enc_change cs))
       = Inr (s\<lparr>sn_tileChanges := Some (map q_change cs)\<rparr>)"
  "length as \<le> 21844 \<Longrightarrow>
     readSection dec s (section_code SecTileAlphas) (w_u16 (of_nat (length as)) @ concat (map enc_alpha as))
       = Inr (s\<lparr>sn_tileAlphas := Some (map q_alpha as)\<rparr>)"
  by (simp_all add: readSection_def read_changes_def read_alphas_def w_u16_get change.concat_length
      change.read_fixed_all alpha.concat_length alpha.read_fixed_all Let_def del: get_w)

lemma read_counted_byte:
  "length rs \<le> 255 \<Longrightarrow>
     readSection dec s (section_code SecRegions) (put_byte (int (length rs)) @ concat (map enc_region rs))
       = Inr (s\<lparr>sn_regions := Some (map q_region rs)\<rparr>)"
  "length ps \<le> 255 \<Longrightarrow>
     readSection dec s (section_code SecPlayers) (put_byte (int (length ps)) @ concat (map enc_player ps))
       = Inr (s\<lparr>sn_players := Some (map q_player ps)\<rparr>)"
  "length ns \<le> 255 \<Longrightarrow>
     readSection dec s (section_code SecRoster) (put_byte (int (length ns)) @ concat (map (enc_roster_entry utf8) ns))
       = Inr (s\<lparr>sn_roster := Some (map (q_roster_entry utf8 dec) ns)\<rparr>)"
  by (simp_all add: readSection_def read_regions_def read_players_def read_roster_def put_byte_get
      put_byte_length region.concat_length region.read_fixed_all player.read_each_all
      roster.read_each_all Let_def)

lemma read_storm_enc:
  "readSection dec s (section_code SecStorm) (enc_storm z) = Inr (s\<lparr>sn_storm := Some (map_option q_storm z)\<rparr>)"
  by (cases z) (simp_all add: readSection_def read_storm_def enc_storm_def q_storm_def u16_of_def need_def wire_simps)

lemma read_self_enc:
  assumes "case cs of None \<Rightarrow> True | Some c \<Rightarrow> length c \<le> 255" and "sn_cooldowns s = None"
  shows "readSection dec s (section_code SecSelf) (enc_self i cs)
     = Inr (s\<lparr>sn_selfId := Some (byte_of i), sn_cooldowns := map_option (map q_cooldown) cs\<rparr>)"
proof (cases cs)
  case None
  with assms(2) show ?thesis
    by (simp add: readSection_def read_self_def enc_self_def put_byte_list get_u8_def uint_byte clamp_mod)
next
  case (Some c)
  with assms(1) show ?thesis
    by (simp add: readSection_def read_self_def enc_self_def put_byte_get put_byte_length
        cooldown.concat_length cooldown.read_fixed_all Let_def)
qed

lemma enc_effects_length: "length (enc_effects eff) \<le> 3"
  by (simp add: enc_effects_def EFFECT_BITS_def put_byte_length split: option.split)

lemma enc_player_length: "length (enc_player p) \<le> 14"
  using enc_effects_length [of "sp_effects p"]
  by (simp add: enc_player_split player_head_read player_tail_def put_byte_length split: option.split)

lemma enc_roster_entry_length: "length (enc_roster_entry utf8 r) \<le> 257"
  by (simp add: enc_roster_entry_def put_byte_length Let_def)

lemma concat_length_le: "(\<And>x. length (f x) \<le> n) \<Longrightarrow> length (concat (map f xs)) \<le> length xs * n"
  by (induction xs) (simp_all add: add_mono)

lemma enc_self_length:
  "(case cs of None \<Rightarrow> True | Some c \<Rightarrow> length c \<le> 255) \<Longrightarrow> length (enc_self i cs) \<le> 65535"
  by (auto simp: enc_self_def put_byte_length cooldown.concat_length split: option.splits)

lemma enc_storm_length: "length (enc_storm z) \<le> 65535"
  by (simp add: enc_storm_def put_byte_length split: option.split)

lemma nonempty_Some: "nonempty v = Some xs \<Longrightarrow> v = Some xs"
  by (auto simp: nonempty_def split: option.splits list.splits)

lemma decode_header:
  "decodeSnapshot dec (put_byte v @ put_byte f @ w_u32 (of_int t) @ r) =
     decode_sections dec (empty_snapshot (byte_of v) (byte_of f AND FLAG_FULL \<noteq> 0) (clamp_int 0 4294967295 t)) r"
proof -
  let ?b = "put_byte v @ put_byte f @ w_u32 (of_int t) @ r"
  have 1: "get_u8 ?b 1 = byte_of f"
    using get_append(1) [of "put_byte v" "put_byte f @ w_u32 (of_int t) @ r" 0]
    by (simp add: put_byte_length put_byte_get del: One_nat_def)
  have 2: "get_u32 ?b 2 = clamp_int 0 4294967295 t"
    using get_append(4) [of "put_byte v @ put_byte f" "w_u32 (of_int t) @ r" 0]
    by (simp add: put_byte_length numeral_2_eq_2)
  have 3: "drop SNAPSHOT_HEADER_BYTES ?b = r"
    by (simp add: SNAPSHOT_HEADER_BYTES_def put_byte_length)
  have 4: "\<not> length ?b < SNAPSHOT_HEADER_BYTES"
    by (simp add: SNAPSHOT_HEADER_BYTES_def put_byte_length)
  show ?thesis
    unfolding decodeSnapshot_def 1 2 3 using 4 by (simp add: put_byte_get)
qed

lemma decode_sections_Nil: "decode_sections dec s [] = Inr s"
  by (simp add: decode_sections.simps SECTION_HEADER_BYTES_def)

text \<open>Reading each optional section back, into a snapshot that does not have its field yet.\<close>

lemma dec_map:
  assumes "sn_map z = None" "case v of None \<Rightarrow> True | Some m \<Rightarrow>
      0 \<le> sm_cols m \<and> sm_cols m \<le> 255 \<and> 0 \<le> sm_rows m \<and> sm_rows m \<le> 255"
  shows "decode_sections dec z (optional_section v SecMap enc_map @ r)
    = decode_sections dec (z\<lparr>sn_map := map_option q_map v\<rparr>) r"
  using assms by (intro decode_optional [where upd = "\<lambda>m y. y\<lparr>sn_map := m\<rparr>"]) (cases z; auto simp del: section_code.simps simp: read_map_enc)+

lemma dec_changes:
  assumes "sn_tileChanges z = None" "fits v 21844"
  shows "decode_sections dec z (optional_section (nonempty v) SecTileChanges
      (\<lambda>cs. w_u16 (of_nat (length cs)) @ concat (map enc_change cs)) @ r)
    = decode_sections dec (z\<lparr>sn_tileChanges := map_option (map q_change) (nonempty v)\<rparr>) r"
  using assms by (intro decode_optional [where upd = "\<lambda>m y. y\<lparr>sn_tileChanges := m\<rparr>"])
    (cases z; auto simp del: section_code.simps simp: read_counted fits_def change.concat_length dest: nonempty_Some)+

lemma dec_alphas:
  assumes "sn_tileAlphas z = None" "fits v 21844"
  shows "decode_sections dec z (optional_section v SecTileAlphas
      (\<lambda>as. w_u16 (of_nat (length as)) @ concat (map enc_alpha as)) @ r)
    = decode_sections dec (z\<lparr>sn_tileAlphas := map_option (map q_alpha) v\<rparr>) r"
  using assms by (intro decode_optional [where upd = "\<lambda>m y. y\<lparr>sn_tileAlphas := m\<rparr>"])
    (cases z; auto simp del: section_code.simps simp: read_counted fits_def alpha.concat_length)+

lemma dec_storm:
  assumes "sn_storm z = None"
  shows "decode_sections dec z (optional_section v SecStorm enc_storm @ r)
    = decode_sections dec (z\<lparr>sn_storm := map_option (map_option q_storm) v\<rparr>) r"
  using assms by (intro decode_optional [where upd = "\<lambda>m y. y\<lparr>sn_storm := m\<rparr>"]) (cases z; simp del: section_code.simps add: read_storm_enc enc_storm_length)+

lemma dec_players:
  assumes "sn_players z = None" "fits v 255"
  shows "decode_sections dec z (optional_section v SecPlayers
      (\<lambda>ps. put_byte (int (length ps)) @ concat (map enc_player ps)) @ r)
    = decode_sections dec (z\<lparr>sn_players := map_option (map q_player) v\<rparr>) r"
proof (rule decode_optional [where upd = "\<lambda>m y. y\<lparr>sn_players := m\<rparr>"])
  fix ps assume "v = Some ps"
  then have n: "length ps \<le> 255" using assms(2) by (simp add: fits_def)
  have "length (concat (map enc_player ps)) \<le> length ps * 14"
    by (rule concat_length_le) (rule enc_player_length)
  with n show "length (put_byte (int (length ps)) @ concat (map enc_player ps)) \<le> 65535"
    by (simp add: put_byte_length)
qed (use assms in \<open>cases z; auto simp del: section_code.simps simp: read_counted_byte fits_def\<close>)+

lemma dec_regions:
  assumes "sn_regions z = None" "fits v 255"
  shows "decode_sections dec z (optional_section (nonempty v) SecRegions
      (\<lambda>rs. put_byte (int (length rs)) @ concat (map enc_region rs)) @ r)
    = decode_sections dec (z\<lparr>sn_regions := map_option (map q_region) (nonempty v)\<rparr>) r"
  using assms by (intro decode_optional [where upd = "\<lambda>m y. y\<lparr>sn_regions := m\<rparr>"])
    (cases z; auto simp del: section_code.simps simp: read_counted_byte fits_def region.concat_length put_byte_length dest: nonempty_Some)+

lemma dec_self:
  assumes "sn_selfId z = None" "sn_cooldowns z = None" "fits cs 255"
  shows "decode_sections dec z (optional_section v SecSelf (\<lambda>i. enc_self i cs) @ r)
    = decode_sections dec (z\<lparr>sn_selfId := map_option byte_of v,
        sn_cooldowns := (if v = None then None else map_option (map q_cooldown) cs)\<rparr>) r"
proof -
  let ?u = "\<lambda>i z. z\<lparr>sn_selfId := i, sn_cooldowns := (if i = None then None else map_option (map q_cooldown) cs)\<rparr>"
  have cs: "case cs of None \<Rightarrow> True | Some c \<Rightarrow> length c \<le> 255"
    using assms(3) by (simp add: fits_def)
  have "decode_sections dec z (optional_section v SecSelf (\<lambda>i. enc_self i cs) @ r)
    = decode_sections dec (?u (map_option byte_of v) z) r"
    by (rule decode_optional [where upd = "?u"])
      (use assms cs in \<open>cases z; simp del: section_code.simps add: read_self_enc enc_self_length\<close>)+
  then show ?thesis by simp
qed

lemma dec_roster:
  assumes "sn_roster z = None" "fits v 254"
  shows "decode_sections dec z (optional_section (nonempty v) SecRoster
      (\<lambda>rs. put_byte (int (length rs)) @ concat (map (enc_roster_entry utf8) rs)) @ r)
    = decode_sections dec (z\<lparr>sn_roster := map_option (map (q_roster_entry utf8 dec)) (nonempty v)\<rparr>) r"
proof (rule decode_optional [where upd = "\<lambda>m y. y\<lparr>sn_roster := m\<rparr>"])
  fix rs assume "nonempty v = Some rs"
  then have n: "length rs \<le> 254" using assms(2) by (auto simp del: section_code.simps simp: fits_def dest: nonempty_Some)
  have "length (concat (map (enc_roster_entry utf8) rs)) \<le> length rs * 257"
    by (rule concat_length_le) (rule enc_roster_entry_length)
  with n show "length (put_byte (int (length rs)) @ concat (map (enc_roster_entry utf8) rs)) \<le> 65535"
    by (simp add: put_byte_length)
qed (use assms in \<open>cases z; auto simp del: section_code.simps simp: read_counted_byte fits_def dest: nonempty_Some\<close>)+

lemmas dec_parts = dec_map dec_changes dec_alphas dec_storm dec_players dec_regions dec_self dec_roster

section \<open>Properties\<close>

text \<open>
  C8. Round trip. A snapshot whose counts fit the frame's fields decodes from its encoding to the
  same snapshot with every number rounded and clamped to the field that carries it, an empty
  list of tile changes, regions or names left out, and cooldowns only beside an own id.
\<close>

theorem decodeSnapshot_encodeSnapshot:
  assumes ok: "frame_ok s"
  shows "decodeSnapshot dec (encodeSnapshot utf8 s) = Inr (quantise utf8 dec s)"
proof -
  have head: "byte_of PROTOCOL_VERSION = PROTOCOL_VERSION"
    "byte_of (if sn_full s then FLAG_FULL else 0) AND FLAG_FULL \<noteq> 0 \<longleftrightarrow> sn_full s"
    by (simp_all add: PROTOCOL_VERSION_def FLAG_FULL_def)
  note parts = ok [unfolded frame_ok_def]
  show ?thesis
    unfolding encodeSnapshot_def decode_header head
    using parts
    by (simp add: dec_parts dec_roster [where r = "[]", simplified] decode_sections_Nil quantise_def empty_snapshot_def del: section_code.simps)
qed

text \<open>A concrete instance of the text encoder and decoder, for ASCII text.\<close>

definition ascii_encode :: "string \<Rightarrow> byte list" where
  "ascii_encode = map of_char"

definition ascii_decode :: "byte list \<Rightarrow> string" where
  "ascii_decode = map (\<lambda>b. char_of (uint b))"

theorem decodeSnapshot_encodeSnapshot_witness:
  "frame_ok (empty_snapshot 2 True 7\<lparr>sn_selfId := Some 300,
       sn_cooldowns := Some [\<lparr>cd_slot = 1, cd_remainingMs = 70000\<rparr>], sn_storm := Some None\<rparr>)
   \<and> decodeSnapshot ascii_decode (encodeSnapshot ascii_encode (empty_snapshot 2 True 7\<lparr>sn_selfId := Some 300,
       sn_cooldowns := Some [\<lparr>cd_slot = 1, cd_remainingMs = 70000\<rparr>], sn_storm := Some None\<rparr>))
     = Inr (empty_snapshot 2 True 7\<lparr>sn_selfId := Some 255,
       sn_cooldowns := Some [\<lparr>cd_slot = 1, cd_remainingMs = 65535\<rparr>], sn_storm := Some None\<rparr>)"
  (is "frame_ok ?s \<and> _ = Inr ?t")
proof -
  have ok: "frame_ok ?s" by (simp add: frame_ok_def fits_def empty_snapshot_def)
  have "quantise ascii_encode ascii_decode ?s = ?t"
    by (simp add: quantise_def empty_snapshot_def nonempty_def q_cooldown_def u16_of_def clamp_int_def
        PROTOCOL_VERSION_def)
  with decodeSnapshot_encodeSnapshot [OF ok, of ascii_decode ascii_encode] ok show ?thesis by simp
qed

text \<open>A frame as a header and a list of sections, each a type and a body.\<close>

definition frame :: "byte list \<Rightarrow> (int \<times> byte list) list \<Rightarrow> byte list" where
  "frame header sections = header @ concat (map (\<lambda>(t, body). w_section t body) sections)"

definition section_fits :: "int \<times> byte list \<Rightarrow> bool" where
  "section_fits x \<longleftrightarrow> 0 \<le> fst x \<and> fst x \<le> 255 \<and> length (snd x) \<le> 65535"

definition known_type :: "int \<Rightarrow> bool" where
  "known_type t \<longleftrightarrow> t \<in> {1, 2, 3, 4, 5, 6, 7, 9}"

lemma unknown_skipped: "\<not> known_type t \<Longrightarrow> readSection dec s t p = Inr s"
  by (simp add: known_type_def readSection_def)

lemma decode_sections_known:
  "list_all section_fits secs \<Longrightarrow>
     decode_sections dec s (concat (map (\<lambda>(t, body). w_section t body) secs) @ tail)
   = decode_sections dec s (concat (map (\<lambda>(t, body). w_section t body) (filter (known_type \<circ> fst) secs)) @ tail)"
proof (induction secs arbitrary: s)
  case Nil
  then show ?case by simp
next
  case (Cons x secs)
  then show ?case
    by (cases x) (simp add: section_fits_def decode_section unknown_skipped split: sum.split)
qed

text \<open>
  Forward compatibility. Sections of a type that this build does not know, the retired
  type 8 included, make no difference: a frame decodes (or fails) as it does without them,
  whatever bytes follow the sections.
\<close>

theorem decodeSnapshot_skips_unknown:
  assumes "length header = SNAPSHOT_HEADER_BYTES" and "list_all section_fits secs"
  shows "decodeSnapshot dec (frame header secs @ tail)
       = decodeSnapshot dec (frame header (filter (known_type \<circ> fst) secs) @ tail)"
proof -
  have h: "get_u8 (header @ a) 0 = get_u8 header 0" "get_u8 (header @ a) 1 = get_u8 header 1"
    "get_u32 (header @ a) 2 = get_u32 header 2" for a
    using assms(1) by (simp_all add: get_u8_def get_u32_def nth_append SNAPSHOT_HEADER_BYTES_def)
  show ?thesis
    unfolding decodeSnapshot_def frame_def append_assoc h
    using assms(1) decode_sections_known [OF assms(2)] by simp
qed

theorem decodeSnapshot_skips_unknown_witness:
  "length [2, 1, 7, 0, 0, 0 :: byte] = SNAPSHOT_HEADER_BYTES \<and> list_all section_fits [(8, [1, 2]), (7, [5])]
   \<and> decodeSnapshot ascii_decode (frame [2, 1, 7, 0, 0, 0] [(8, [1, 2]), (7, [5])] @ [9])
     = decodeSnapshot ascii_decode (frame [2, 1, 7, 0, 0, 0] [(7, [5])] @ [9])"
proof -
  have h: "length [2, 1, 7, 0, 0, 0 :: byte] = SNAPSHOT_HEADER_BYTES"
    and f: "list_all section_fits [(8, [1, 2]), (7, [5])]"
    by (simp_all add: SNAPSHOT_HEADER_BYTES_def section_fits_def)
  from decodeSnapshot_skips_unknown [OF h f, of ascii_decode "[9]"] h f show ?thesis
    by (simp add: known_type_def)
qed

end
