(* ===== verification/Skills.thy ===== *)
theory Skills
  imports Motion
begin

text \<open>
  The skills: \<open>server-game/src/simulation/skills.ts\<close>. A skill takes the world and the events so far and
  returns its outcome with both updated. A player reference of the code is a player id; what the
  code reads of the caster before editing it is read from the state that it was found in.
\<close>

section \<open>Model\<close>

record skill_request =
  rq_playerId :: int
  rq_slot :: int
  rq_targetPlayerId :: "int option"

datatype skill_outcome = Used skill_id | Refused skill_rejection

type_synonym skill_result = "skill_outcome \<times> world \<times> world_event list"

definition livingRunners :: "world \<Rightarrow> player_state list" where
  "livingRunners world =
     sort_key ps_playerId (filter (\<lambda>p. ps_alive p \<and> \<not> ps_isTagger p) (w_players world))"

definition distance :: "player_state \<Rightarrow> player_state \<Rightarrow> real" where
  "distance a b = js_hypot (ps_x a - ps_x b) (ps_y a - ps_y b)"

definition find_tagger :: "player_state list \<Rightarrow> player_state option" where
  "find_tagger ps = List.find (\<lambda>p. ps_isTagger p \<and> ps_alive p) ps"

definition grantTaggerFrenzy :: "world \<Rightarrow> player_state \<Rightarrow> player_state" where
  "grantTaggerFrenzy world =
     applyEffect world EffFrenzy (FRENZY_SPEED_INCREASE SKILL_TUNING) (FRENZY_DURATION_MS SKILL_TUNING)"

definition useDash :: "world \<Rightarrow> player_state \<Rightarrow> world_event list \<Rightarrow> skill_result" where
  "useDash world caster events =
     (let w1 = edit_world (ps_playerId caster)
            (applyEffect world EffDash (DASH_SPEED_INCREASE SKILL_TUNING) (DASH_DURATION_MS SKILL_TUNING)) world;
          w2 = edit_world (ps_playerId caster) (startCooldown world SkDash (DASH_COOLDOWN_MS SKILL_TUNING)) w1
      in (Used SkDash, w2, events))"

lemma scan_decreases:
  fixes stepLen limit travelled :: real
  assumes "travelled \<le> limit" "0 < stepLen"
  shows "nat (\<lfloor>(limit - (travelled + stepLen)) / stepLen\<rfloor> + 1) < nat (\<lfloor>(limit - travelled) / stepLen\<rfloor> + 1)"
proof -
  have "(limit - (travelled + stepLen)) / stepLen = (limit - travelled) / stepLen - 1"
    using assms by (simp add: diff_divide_distrib add_divide_distrib)
  then have "\<lfloor>(limit - (travelled + stepLen)) / stepLen\<rfloor> = \<lfloor>(limit - travelled) / stepLen\<rfloor> - 1"
    by simp
  moreover have "0 \<le> \<lfloor>(limit - travelled) / stepLen\<rfloor>" using assms by simp
  ultimately show ?thesis by linarith
qed

text \<open>One of the two search loops of \<open>findFlashLanding\<close>, from \<open>travelled\<close> on.\<close>

function scan_landing ::
  "(real \<Rightarrow> real \<Rightarrow> bool) \<Rightarrow> real \<Rightarrow> real \<Rightarrow> real \<Rightarrow> real \<Rightarrow> real \<Rightarrow> real \<Rightarrow> real \<Rightarrow> (real \<times> real) option" where
  "scan_landing free x0 y0 dirX dirY stepLen limit travelled =
     (if travelled \<le> limit \<and> 0 < stepLen then
        (let x = x0 + dirX * travelled; y = y0 + dirY * travelled in
         if free x y then Some (x, y)
         else scan_landing free x0 y0 dirX dirY stepLen limit (travelled + stepLen))
      else None)"
  by pat_completeness auto
termination
  by (relation "measure (\<lambda>(free, x0, y0, dirX, dirY, stepLen, limit, travelled).
      nat (\<lfloor>(limit - travelled) / stepLen\<rfloor> + 1))")
    (simp, simp only: in_measure prod.case, elim conjE, rule scan_decreases)

declare scan_landing.simps [simp del]

definition findFlashLanding ::
  "real \<Rightarrow> real \<Rightarrow> real \<Rightarrow> real \<Rightarrow> real \<Rightarrow> real \<Rightarrow> real \<Rightarrow> (real \<Rightarrow> real \<Rightarrow> bool) \<Rightarrow> real \<times> real" where
  "findFlashLanding fromX fromY dirX dirY dst maxOvershoot radius free =
     (let targetX = fromX + dirX * dst; targetY = fromY + dirY * dst in
      if free targetX targetY then (targetX, targetY)
      else let stepLen = max 1 (radius / 2) in
        case scan_landing free targetX targetY dirX dirY stepLen maxOvershoot stepLen of
          Some p \<Rightarrow> p
        | None \<Rightarrow>
            (case scan_landing free targetX targetY (- dirX) (- dirY) stepLen dst stepLen of
               Some p \<Rightarrow> p
             | None \<Rightarrow> (fromX, fromY)))"

definition useFlash :: "world \<Rightarrow> player_state \<Rightarrow> world_event list \<Rightarrow> skill_result" where
  "useFlash world caster events =
     (let len = js_hypot (ps_facingX caster) (ps_facingY caster) in
      if len = 0 then (Refused NoTarget, world, events)
      else let dirX = ps_facingX caster / len;
               dirY = ps_facingY caster / len;
               storm = stormRect world;
               free = (\<lambda>x y. isPositionFree (w_map world) x y (ps_radius caster) storm);
               landing = findFlashLanding (ps_x caster) (ps_y caster) dirX dirY
                 FLASH_DISTANCE_PX FLASH_WALL_EXIT_MAX_PX (ps_radius caster) free;
               w1 = edit_world (ps_playerId caster) (place landing) world;
               w2 = edit_world (ps_playerId caster) (startCooldown world SkFlash (FLASH_COOLDOWN_MS SKILL_TUNING)) w1
           in (Used SkFlash, w2, events @ [EvBlinked (ps_playerId caster) (ps_x caster) (ps_y caster)]))"

definition exhaust_hits :: "world \<Rightarrow> player_state \<Rightarrow> player_state list" where
  "exhaust_hits world caster =
     sort_key ps_playerId (filter (\<lambda>p. ps_alive p \<and> ps_playerId p \<noteq> ps_playerId caster
       \<and> distance caster p \<le> EXHAUST_RANGE_PX) (w_players world))"

definition useExhaust :: "world \<Rightarrow> player_state \<Rightarrow> world_event list \<Rightarrow> skill_result" where
  "useExhaust world caster events =
     (let hits = exhaust_hits world caster;
          events1 = events @ [EvSkillArea SkExhaust (ps_playerId caster) (ps_x caster) (ps_y caster) None];
          w1 = edit_world (ps_playerId caster) (startCooldown world SkExhaust (EXHAUST_COOLDOWN_MS SKILL_TUNING)) world
      in if hits = [] then (Refused OutOfRange, w1, events1)
         else let w2 = fold (\<lambda>hit w. edit_world (ps_playerId hit)
                    (applyEffect world EffExhaust (EXHAUST_SPEED_DECREASE SKILL_TUNING) (EXHAUST_DURATION_MS SKILL_TUNING)) w)
                    hits w1;
                  w3 = edit_world (ps_playerId caster)
                    (applyEffect world EffExhaust (EXHAUST_SELF_DECREASE SKILL_TUNING) (EXHAUST_SELF_DURATION_MS SKILL_TUNING)) w2
              in (Used SkExhaust, w3, events1))"

definition count_switch_try :: "player_state \<Rightarrow> player_state" where
  "count_switch_try p = p\<lparr>ps_stats := (ps_stats p)\<lparr>st_switchTry := st_switchTry (ps_stats p) + 1\<rparr>\<rparr>"

definition count_switch_success :: "player_state \<Rightarrow> player_state" where
  "count_switch_success p = p\<lparr>ps_stats := (ps_stats p)\<lparr>st_switchSuccess := st_switchSuccess (ps_stats p) + 1\<rparr>\<rparr>"

definition set_tagger :: "bool \<Rightarrow> player_state \<Rightarrow> player_state" where
  "set_tagger b p = p\<lparr>ps_isTagger := b\<rparr>"

definition switch_roles :: "world \<Rightarrow> int \<Rightarrow> int \<Rightarrow> int \<Rightarrow> world \<Rightarrow> world" where
  "switch_roles world taggerId targetId casterId w0 =
     (let w1 = edit_world taggerId (set_tagger False) w0;
          w2 = edit_world taggerId (applyEffect world EffExhaust (SWITCH_VICTIM_SPEED_DECREASE SKILL_TUNING)
                 (SWITCH_VICTIM_DURATION_MS SKILL_TUNING)) w1;
          w3 = edit_world targetId (set_tagger True) w2;
          w4 = edit_world targetId (grantTaggerFrenzy world) w3;
          w5 = w4\<lparr>w_taggerChangedAtTick := w_tick w4\<rparr>;
          w6 = edit_world casterId (grantTaggerFrenzy world) w5
      in edit_world casterId count_switch_success w6)"

definition useSwitch ::
  "world \<Rightarrow> player_state \<Rightarrow> int option \<Rightarrow> world_event list \<Rightarrow> skill_result" where
  "useSwitch world caster targetPlayerId events =
     (if ps_isTagger caster then (Refused RoleMismatch, world, events)
      else case find_tagger (w_players world) of
        None \<Rightarrow> (Refused NoTagger, world, events)
      | Some tagger \<Rightarrow>
          let target = (case targetPlayerId of None \<Rightarrow> None | Some t \<Rightarrow> find_player t (w_players world));
              targetValid = (case target of None \<Rightarrow> False
                | Some t \<Rightarrow> ps_alive t \<and> \<not> ps_isTagger t \<and> ps_playerId t \<noteq> ps_playerId caster);
              w1 = edit_world (ps_playerId caster) (startCooldown world SkSwitch (SWITCH_COOLDOWN_MS SKILL_TUNING)) world;
              w2 = edit_world (ps_playerId caster) count_switch_try w1;
              events1 = events @ [EvSkillArea SkSwitch (ps_playerId caster) (ps_x caster) (ps_y caster) targetPlayerId]
          in if SWITCH_RANGE_PX < distance caster tagger then (Refused OutOfRange, w2, events1)
             else if \<not> targetValid then (Refused NoTarget, w2, events1)
             else let targetId = ps_playerId (the target) in
               (Used SkSwitch, switch_roles world (ps_playerId tagger) targetId (ps_playerId caster) w2,
                events1 @ [EvTagged targetId (Some (ps_playerId caster))]))"

definition skillInSlot :: "player_state \<Rightarrow> int \<Rightarrow> skill_id option" where
  "skillInSlot player slot =
     (if slot = SLOT_SWITCH then (if ps_isTagger player then None else Some SkSwitch)
      else if slot = SLOT_MOVEMENT then Some (ps_loadout player)
      else None)"

definition useSkill :: "world \<Rightarrow> skill_request \<Rightarrow> world_event list \<Rightarrow> skill_result" where
  "useSkill world request events =
     (case find_player (rq_playerId request) (w_players world) of
        None \<Rightarrow> (Refused NotAlive, world, events)
      | Some caster \<Rightarrow>
          if \<not> ps_alive caster then (Refused NotAlive, world, events)
          else if rq_slot request = SLOT_SWITCH \<and> ps_isTagger caster then (Refused RoleMismatch, world, events)
          else case skillInSlot caster (rq_slot request) of
            None \<Rightarrow> (Refused NoSkill, world, events)
          | Some skill \<Rightarrow>
              if \<not> isReady caster skill then (Refused OnCooldown, world, events)
              else case skill of
                SkDash \<Rightarrow> useDash world caster events
              | SkFlash \<Rightarrow> useFlash world caster events
              | SkExhaust \<Rightarrow> useExhaust world caster events
              | SkSwitch \<Rightarrow> useSwitch world caster (rq_targetPlayerId request) events)"

definition rotationCandidates :: "world \<Rightarrow> player_state list" where
  "rotationCandidates world = livingRunners world"

end
