(* ===== verification/Step.thy ===== *)
theory Step
  imports Skills
begin

text \<open>
  One tick of the simulation: \<open>server-game/src/simulation/step.ts\<close>. \<open>stepWorld\<close> runs its numbered
  stages in the code's order; a loop over the players that only touches the player it is at
  is a map over the players.
\<close>

section \<open>Model\<close>

record emoji_request =
  eq_playerId :: int
  eq_emojiId :: int

text \<open>The changes of this tick, one at a time; \<open>row[x] === undefined\<close> is an index outside the row.\<close>

definition apply_change :: "int \<times> int \<times> tile \<Rightarrow> world \<Rightarrow> world" where
  "apply_change c world =
     (case c of (x, y, physics) \<Rightarrow>
        (case tile_at (wm_tiles (w_map world)) y x of
           None \<Rightarrow> world
         | Some old \<Rightarrow>
             if old = physics then world
             else world\<lparr>w_map := (w_map world)\<lparr>wm_tiles :=
                    (wm_tiles (w_map world))[nat y := (wm_tiles (w_map world) ! nat y)[nat x := physics]]\<rparr>,
                  w_tileChanges := w_tileChanges world @ [(x, y, physics)]\<rparr>))"

definition applyMapTimeline :: "world \<Rightarrow> world" where
  "applyMapTimeline world =
     (case wm_timeline (w_map world) (w_tick world) of
        None \<Rightarrow> world
      | Some changes \<Rightarrow> fold apply_change changes world)"

definition extendFrenzyOnTag :: "world \<Rightarrow> player_state \<Rightarrow> player_state" where
  "extendFrenzyOnTag world tagger =
     (case ps_effects tagger EffFrenzy of
        None \<Rightarrow> tagger
      | Some current \<Rightarrow>
          let remainingMs = of_int (max 0 (ef_endTick current - w_tick world)) * (1000 / of_int (w_simulationHz world))
          in applyEffect world EffFrenzy (ef_magnitude current + FRENZY_TAG_BONUS_INCREASE SKILL_TUNING)
               (remainingMs + FRENZY_TAG_BONUS_MS SKILL_TUNING) tagger)"

definition eliminate :: "world \<Rightarrow> player_state \<Rightarrow> player_state" where
  "eliminate world p = p\<lparr>ps_alive := False,
     ps_stats := (ps_stats p)\<lparr>st_taggedCount := st_taggedCount (ps_stats p) + 1,
       st_eliminatedAtTick := Some (w_tick world)\<rparr>\<rparr>"

definition count_tag :: "player_state \<Rightarrow> player_state" where
  "count_tag p = p\<lparr>ps_stats := (ps_stats p)\<lparr>st_tagCount := st_tagCount (ps_stats p) + 1\<rparr>\<rparr>"

definition tag_pair :: "int \<Rightarrow> int \<times> int \<Rightarrow> world \<times> world_event list \<Rightarrow> world \<times> world_event list" where
  "tag_pair taggerId pair acc =
     (let world = fst acc; events = snd acc;
          otherId = (if fst pair = taggerId then Some (snd pair)
                     else if snd pair = taggerId then Some (fst pair) else None)
      in case otherId of
           None \<Rightarrow> acc
         | Some vid \<Rightarrow>
             (case find_player vid (w_players world) of
                None \<Rightarrow> acc
              | Some victim \<Rightarrow>
                  if \<not> ps_alive victim then acc
                  else let w1 = edit_world vid (eliminate world) world;
                           w2 = edit_world taggerId count_tag w1;
                           w3 = w2\<lparr>w_taggerChangedAtTick := w_tick w2\<rparr>;
                           w4 = edit_world taggerId (extendFrenzyOnTag w3) w3
                       in (w4, events @ [EvEliminated vid (Some taggerId)])))"

definition resolveTagging :: "world \<Rightarrow> (int \<times> int) list \<Rightarrow> world_event list \<Rightarrow> world \<times> world_event list" where
  "resolveTagging world pairs events =
     (case find_tagger (w_players world) of
        None \<Rightarrow> (world, events)
      | Some tagger \<Rightarrow> fold (tag_pair (ps_playerId tagger)) pairs (world, events))"

definition rotation_cooldown_ticks :: "world \<Rightarrow> int" where
  "rotation_cooldown_ticks world = js_round (TAGGER_CHANGE_COOLDOWN / 1000 * of_int (w_simulationHz world))"

definition rotateTaggerIfStale :: "world \<Rightarrow> world_event list \<Rightarrow> world \<times> world_event list" where
  "rotateTaggerIfStale world events =
     (if w_tick world - w_taggerChangedAtTick world < rotation_cooldown_ticks world then (world, events)
      else let runners = rotationCandidates world in
        if runners = [] then (world, events)
        else let (i, w1) = nextRandomInt (int (length runners)) world;
                 pickedId = ps_playerId (runners ! nat i);
                 w2 = w1\<lparr>w_players := map (\<lambda>p. set_tagger (ps_playerId p = pickedId) p) (w_players w1)\<rparr>;
                 w3 = w2\<lparr>w_taggerChangedAtTick := w_tick w2\<rparr>;
                 w4 = edit_world pickedId (grantTaggerFrenzy w3) w3
             in (w4, events @ [EvTagged pickedId None]))"

definition cooldownRate :: "player_state \<Rightarrow> player_state option \<Rightarrow> real" where
  "cooldownRate player tagger =
     (case tagger of
        None \<Rightarrow> 1
      | Some t \<Rightarrow>
          if ps_isTagger player \<or> \<not> ps_alive player then 1
          else let dx = ps_x t - ps_x player; dy = ps_y t - ps_y player; radius = NEAR_TAGGER_RADIUS_PX in
            if radius * radius < dx * dx + dy * dy then 1
            else 1 + NEAR_TAGGER_COOLDOWN_BONUS SKILL_TUNING)"

definition survivors :: "world \<Rightarrow> player_state list" where
  "survivors world = filter ps_alive (w_players world)"

definition isFinished :: "world \<Rightarrow> bool" where
  "isFinished world \<longleftrightarrow> length (survivors world) \<le> SURVIVORS_TO_WIN"

section \<open>The stages of stepWorld\<close>

text \<open>Stage 1: effects, cooldowns and emojis expire.\<close>

definition refresh :: "world \<Rightarrow> player_state option \<Rightarrow> player_state \<Rightarrow> player_state" where
  "refresh world tagger player =
     (let p1 = expireEffects world player;
          p2 = tickCooldowns (cooldownRate p1 tagger) p1
      in p2\<lparr>ps_emoji := (case ps_emoji p2 of
            None \<Rightarrow> None
          | Some e \<Rightarrow> if em_expiresAtTick e \<le> w_tick world then None else Some e)\<rparr>)"

definition request_skill ::
  "skill_request \<Rightarrow> world \<times> world_event list \<times> skill_rejection_entry list
     \<Rightarrow> world \<times> world_event list \<times> skill_rejection_entry list" where
  "request_skill request acc =
     (case acc of (world, events, rejections) \<Rightarrow>
        (case useSkill world request events of
           (Used _, w, es) \<Rightarrow> (w, es, rejections)
         | (Refused reason, w, es) \<Rightarrow>
             (w, es, rejections @ [\<lparr>sj_playerId = rq_playerId request, sj_slot = rq_slot request, sj_reason = reason\<rparr>])))"

definition request_emoji :: "emoji_request \<Rightarrow> world \<Rightarrow> world" where
  "request_emoji request world =
     (case find_player (eq_playerId request) (w_players world) of
        None \<Rightarrow> world
      | Some p \<Rightarrow>
          if \<not> ps_alive p then world
          else edit_world (eq_playerId request) (\<lambda>p. p\<lparr>ps_emoji := Some \<lparr>em_emojiId = eq_emojiId request,
             em_expiresAtTick = w_tick world + msToTicks EMOJI_DISPLAY_MS (w_simulationHz world)\<rparr>\<rparr>) world)"

text \<open>Stages 4 to 6: \<open>inputById\<close> keeps the last input of a player.\<close>

definition input_of :: "resolved_input list \<Rightarrow> int \<Rightarrow> resolved_input option" where
  "input_of inputs pid = List.find (\<lambda>i. ri_playerId i = pid) (rev inputs)"

definition move_player :: "world_map \<Rightarrow> storm_rect \<Rightarrow> resolved_input list \<Rightarrow> player_state \<Rightarrow> player_state" where
  "move_player m storm inputs player =
     (if \<not> ps_alive player then player
      else let (p1, targetX, targetY) =
             (case input_of inputs (ps_playerId player) of
                Some input \<Rightarrow> integrate player input
              | None \<Rightarrow> (player\<lparr>ps_vx := 0, ps_vy := 0\<rparr>, ps_x player, ps_y player));
               steps = substepCount (ps_x p1) (ps_y p1) targetX targetY;
               stepX = (targetX - ps_x p1) / of_nat steps;
               stepY = (targetY - ps_y p1) / of_nat steps
           in ((\<lambda>p. place (resolveStatic m (ps_x p + stepX) (ps_y p + stepY) (ps_radius p) storm) p) ^^ steps) p1)"

definition settle :: "world_map \<Rightarrow> storm_rect \<Rightarrow> player_state \<Rightarrow> player_state" where
  "settle m storm p =
     (if \<not> ps_alive p then p else place (resolveStatic m (ps_x p) (ps_y p) (ps_radius p) storm) p)"

text \<open>Stages 7 and 8: at most \<open>n\<close> rounds, until no pair overlaps.\<close>

fun collision_rounds :: "nat \<Rightarrow> world_map \<Rightarrow> storm_rect \<Rightarrow> player_state list \<Rightarrow> player_state list" where
  "collision_rounds 0 m storm ps = ps"
| "collision_rounds (Suc n) m storm ps =
     (let (ps1, pairs) = resolvePlayerCollisions ps;
          ps2 = map (settle m storm) ps1
      in if pairs = [] then ps2 else collision_rounds n m storm ps2)"

definition begin_tick :: "world \<Rightarrow> world" where
  "begin_tick world =
     (let w1 = world\<lparr>w_tick := w_tick world + 1, w_tileChanges := []\<rparr>;
          tagger = find_tagger (w_players w1)
      in w1\<lparr>w_players := map (refresh w1 tagger) (w_players w1)\<rparr>)"

definition apply_requests ::
  "world \<Rightarrow> skill_request list \<Rightarrow> emoji_request list \<Rightarrow> world \<times> world_event list \<times> skill_rejection_entry list" where
  "apply_requests world skillRequests emojiRequests =
     (let (w1, events, rejections) = fold request_skill (sort_key rq_playerId skillRequests) (world, [], []);
          w2 = fold request_emoji (sort_key eq_playerId emojiRequests) w1
      in (w2, events, rejections))"

definition move_all :: "world \<Rightarrow> resolved_input list \<Rightarrow> world \<times> (int \<times> int) list" where
  "move_all world inputs =
     (let w1 = applyMapTimeline world;
          storm = stormRect w1;
          w2 = w1\<lparr>w_storm := Some storm\<rparr>;
          moved = map (move_player (w_map w2) storm inputs) (w_players w2);
          contactPairs = snd (resolvePlayerCollisions moved);
          settled = collision_rounds PLAYER_COLLISION_ITERATIONS (w_map w2) storm moved
      in (w2\<lparr>w_players := settled\<rparr>, contactPairs))"

definition finish_tick :: "world \<Rightarrow> (int \<times> int) list \<Rightarrow> world_event list \<Rightarrow> world \<times> world_event list" where
  "finish_tick world contactPairs events =
     (let (w1, events1) = resolveTagging world contactPairs events
      in if isFinished w1 then (w1, events1) else rotateTaggerIfStale w1 events1)"

definition stepWorld ::
  "world \<Rightarrow> resolved_input list \<Rightarrow> skill_request list \<Rightarrow> emoji_request list \<Rightarrow> authoritative_frame" where
  "stepWorld world inputs skillRequests emojiRequests =
     (let w0 = begin_tick world;
          (w1, events, rejections) = apply_requests w0 skillRequests emojiRequests;
          (w2, contactPairs) = move_all w1 inputs;
          (w3, events1) = finish_tick w2 contactPairs events
      in \<lparr>fr_tick = w_tick w3, fr_world = w3, fr_events = events1, fr_skillRejections = rejections\<rparr>)"

end
