(* ===== verification/SnapshotView.thy ===== *)
theory SnapshotView
  imports SnapshotCodec Step Room
begin

text \<open>
  What one viewer is sent of a tick: \<open>server-game/src/game/snapshot-view.ts\<close>. The authoritative frame knows no connection;
  here the viewer is chosen, the visibility core decides whom they see, and only that goes into the snapshot. The last
  section shows that nothing of a hidden player gets through.
\<close>

section \<open>Model\<close>

record viewer_context =
  vc_playerId :: "int option"
  vc_access :: snapshot_access
  vc_full :: bool

definition effectRatios :: "player_state \<Rightarrow> int \<Rightarrow> int \<Rightarrow> effect_type \<Rightarrow> real option" where
  "effectRatios player tick simulationHz = (\<lambda>key. case ps_effects player key of
     None \<Rightarrow> None
   | Some e \<Rightarrow> Some (min 1 (of_int (max 0 (ef_endTick e - tick)) / of_int simulationHz)))"

definition toSnapshotPlayer :: "player_state \<Rightarrow> bool \<Rightarrow> int \<Rightarrow> int \<Rightarrow> snapshot_player" where
  "toSnapshotPlayer player obscured tick simulationHz =
     \<lparr>sp_id = ps_playerId player, sp_x = of_int (js_round (ps_x player)), sp_y = of_int (js_round (ps_y player)),
      sp_facingX = ps_facingX player, sp_facingY = ps_facingY player, sp_colorIndex = ps_colorIndex player,
      sp_obscured = obscured, sp_isTagger = ps_isTagger player, sp_effects = effectRatios player tick simulationHz,
      sp_emojiId = (case ps_emoji player of
         None \<Rightarrow> None
       | Some em \<Rightarrow> if tick < em_expiresAtTick em then Some (em_emojiId em) else None)\<rparr>"

definition snapshot_storm_of :: "storm_rect \<Rightarrow> snapshot_storm" where
  "snapshot_storm_of s = \<lparr>ss_x = sr_x s, ss_y = sr_y s, ss_width = sr_width s, ss_height = sr_height s\<rparr>"

definition tile_change_of :: "int \<times> int \<times> tile \<Rightarrow> tile_change" where
  "tile_change_of c = (case c of (x, y, physics) \<Rightarrow> \<lparr>tc_x = x, tc_y = y, tc_physics = physics\<rparr>)"

definition base_snapshot ::
  "authoritative_frame \<Rightarrow> bool \<Rightarrow> roster_entry list \<Rightarrow> (int \<times> int \<times> tile) list \<Rightarrow> snapshot" where
  "base_snapshot fr full roster changes =
     (let world = fr_world fr in
      \<lparr>sn_version = PROTOCOL_VERSION, sn_full = full, sn_tick = fr_tick fr,
       sn_map = (if full then Some \<lparr>sm_cols = wm_cols (w_map world), sm_rows = wm_rows (w_map world),
          sm_tiles = wm_tiles (w_map world)\<rparr> else None),
       sn_tileChanges = (if full \<or> changes = [] then None else Some (map tile_change_of changes)),
       sn_tileAlphas = None, sn_storm = Some (map_option snapshot_storm_of (w_storm world)), sn_players = None,
       sn_regions = None, sn_selfId = None, sn_cooldowns = None, sn_roster = (if full then Some roster else None)\<rparr>)"

definition cooldown_entries :: "world \<Rightarrow> player_state \<Rightarrow> cooldown_entry list" where
  "cooldown_entries world self = concat (map (\<lambda>slot. case skillInSlot self slot of
     None \<Rightarrow> []
   | Some skill \<Rightarrow>
       let remainingTicks = max 0 (case ps_cooldowns self skill of None \<Rightarrow> 0 | Some c \<Rightarrow> c)
       in [\<lparr>cd_slot = slot, cd_remainingMs = of_int (min 65535
            (js_round (remainingTicks / of_int (w_simulationHz world) * 1000)))\<rparr>]) [SLOT_SWITCH, SLOT_MOVEMENT])"

definition buildSnapshot ::
  "authoritative_frame \<Rightarrow> viewer_context \<Rightarrow> roster_entry list \<Rightarrow> (int \<times> int \<times> tile) list \<Rightarrow> snapshot" where
  "buildSnapshot fr viewer roster changes =
     (let world = fr_world fr; tick = fr_tick fr; hz = w_simulationHz world;
          base = base_snapshot fr (vc_full viewer) roster changes;
          everyone = base\<lparr>sn_players := Some (map (\<lambda>p. toSnapshotPlayer p False tick hz) (filter ps_alive (w_players world)))\<rparr>
      in if vc_access viewer = AccessUnfiltered then everyone
         else case vc_playerId viewer of
                None \<Rightarrow> everyone
              | Some pid \<Rightarrow>
                  let visibility = computeVisibility (toVisibilityWorld world) pid;
                      shown = filter (\<lambda>p. ps_alive p \<and> ps_playerId p \<in> set (vr_visible visibility)) (w_players world)
                  in base\<lparr>sn_players := Some (map (\<lambda>p. toSnapshotPlayer p
                         (ps_playerId p \<in> set (vr_obscured visibility)) tick hz) shown),
                       sn_tileAlphas := Some (map (\<lambda>(x, y, a). \<lparr>ta_x = x, ta_y = y, ta_alpha = a\<rparr>) (vr_tileAlphas visibility)),
                       sn_selfId := Some pid,
                       sn_cooldowns := map_option (cooldown_entries world) (find_player pid (w_players world))\<rparr>)"

definition encodeForViewer ::
  "(string \<Rightarrow> byte list) \<Rightarrow> authoritative_frame \<Rightarrow> viewer_context \<Rightarrow> roster_entry list \<Rightarrow> (int \<times> int \<times> tile) list \<Rightarrow> byte list" where
  "encodeForViewer utf8 fr viewer roster changes = encodeSnapshot utf8 (buildSnapshot fr viewer roster changes)"

section \<open>Hidden players leave no trace\<close>

text \<open>Two worlds that differ at most in players whom \<open>viewer\<close> sees in neither.\<close>

definition hidden :: "world \<Rightarrow> int \<Rightarrow> player_state \<Rightarrow> bool" where
  "hidden world viewer p \<longleftrightarrow> ps_playerId p \<noteq> viewer \<and> \<not> canSeePlayer (toVisibilityWorld world) viewer (ps_playerId p)"

definition alike :: "int \<Rightarrow> world \<Rightarrow> world \<Rightarrow> bool" where
  "alike viewer w1 w2 \<longleftrightarrow> w_map w1 = w_map w2 \<and> w_simulationHz w1 = w_simulationHz w2 \<and> w_storm w1 = w_storm w2
     \<and> distinct (map ps_playerId (w_players w1))
     \<and> list_all2 (\<lambda>p q. ps_playerId p = ps_playerId q \<and> (p = q \<or> hidden w1 viewer p \<and> hidden w2 viewer q))
         (w_players w1) (w_players w2)"

definition actor_of :: "player_state \<Rightarrow> visibility_actor" where
  "actor_of p = \<lparr>va_playerId = ps_playerId p, va_x = ps_x p, va_y = ps_y p, va_radius = ps_radius p,
     va_sightRange = ps_sightRange p, va_alive = ps_alive p\<rparr>"

lemma players_toVisibility: "vw_players (toVisibilityWorld w) = map actor_of (w_players w)"
  by (simp add: toVisibilityWorld_def actor_of_def)

lemma concealed_map:
  assumes "w_map w1 = w_map w2"
  shows "isConcealed (toVisibilityWorld w1) a = isConcealed (toVisibilityWorld w2) a"
    "withinRevealWindow (toVisibilityWorld w1) a b = withinRevealWindow (toVisibilityWorld w2) a b"
    "nearbyConcealmentTiles (toVisibilityWorld w1) a = nearbyConcealmentTiles (toVisibilityWorld w2) a"
proof -
  have F: "vw_cols (toVisibilityWorld w1) = vw_cols (toVisibilityWorld w2)" "vw_rows (toVisibilityWorld w1) = vw_rows (toVisibilityWorld w2)"
    "vw_tileSize (toVisibilityWorld w1) = vw_tileSize (toVisibilityWorld w2)" "vw_tiles (toVisibilityWorld w1) = vw_tiles (toVisibilityWorld w2)"
    using assms by (simp_all add: toVisibilityWorld_def)
  show "isConcealed (toVisibilityWorld w1) a = isConcealed (toVisibilityWorld w2) a"
    "withinRevealWindow (toVisibilityWorld w1) a b = withinRevealWindow (toVisibilityWorld w2) a b"
    "nearbyConcealmentTiles (toVisibilityWorld w1) a = nearbyConcealmentTiles (toVisibilityWorld w2) a"
    by (simp_all only: isConcealed_def withinRevealWindow_def nearbyConcealmentTiles_def nearby_cell_def world_tile_def F)
qed

lemma sees_map: "w_map w1 = w_map w2 \<Longrightarrow> sees (toVisibilityWorld w1) a b = sees (toVisibilityWorld w2) a b"
  by (simp add: sees_def concealed_map [of w1 w2])

lemma find_actor_player:
  "find_actor (toVisibilityWorld w) v = map_option actor_of (find_player v (w_players w))"
  by (simp add: find_actor_def find_player_def players_toVisibility find_map actor_of_def comp_def)

lemma find_alike:
  assumes "list_all2 (\<lambda>p q. ps_playerId p = ps_playerId q \<and> (p = q \<or> h1 p \<and> h2 q)) ps qs"
    and "\<And>p. h1 p \<Longrightarrow> ps_playerId p \<noteq> v"
  shows "find_player v ps = find_player v qs"
  using assms by (induction rule: list_all2_induct) (auto simp: find_player_def)

lemma visible_iff:
  assumes "distinct (map ps_playerId (w_players w))" "p \<in> set (w_players w)" "find_player v (w_players w) = Some x"
  shows "ps_playerId p \<in> set (vr_visible (computeVisibility (toVisibilityWorld w) v))
       \<longleftrightarrow> sees (toVisibilityWorld w) (actor_of x) (actor_of p)"
    "ps_playerId p \<in> set (vr_obscured (computeVisibility (toVisibilityWorld w) v))
       \<longleftrightarrow> sees (toVisibilityWorld w) (actor_of x) (actor_of p) \<and> isConcealed (toVisibilityWorld w) (actor_of p)"
    "canSeePlayer (toVisibilityWorld w) v (ps_playerId p) = sees (toVisibilityWorld w) (actor_of x) (actor_of p)"
proof -
  have same: "q = p" if "q \<in> set (w_players w)" "ps_playerId q = ps_playerId p" for q
    using distinct_map_inj [OF assms(1)] that assms(2) by blast
  have "find_player (ps_playerId p) (w_players w) = Some p"
    unfolding find_player_def by (rule find_key_unique [OF assms(1,2)])
  then show "canSeePlayer (toVisibilityWorld w) v (ps_playerId p) = sees (toVisibilityWorld w) (actor_of x) (actor_of p)"
    by (simp add: canSeePlayer_def find_actor_player assms(3))
  have pick: "ps_playerId p \<in> ps_playerId ` {q \<in> set (w_players w). P q} \<longleftrightarrow> P p" for P
  proof
    assume "ps_playerId p \<in> ps_playerId ` {q \<in> set (w_players w). P q}"
    then obtain q where q: "q \<in> set (w_players w)" "P q" "ps_playerId q = ps_playerId p" by force
    from same [OF q(1,3)] q(2) show "P p" by simp
  next
    assume "P p"
    with assms(2) show "ps_playerId p \<in> ps_playerId ` {q \<in> set (w_players w). P q}" by (intro imageI) simp
  qed
  have id: "va_playerId (actor_of q) = ps_playerId q" for q by (simp add: actor_of_def)
  let ?sees = "\<lambda>q. sees (toVisibilityWorld w) (actor_of x) (actor_of q)"
  have lists: "vr_visible (computeVisibility (toVisibilityWorld w) v) = map ps_playerId (filter ?sees (w_players w))"
    "vr_obscured (computeVisibility (toVisibilityWorld w) v)
      = map ps_playerId (filter (\<lambda>q. isConcealed (toVisibilityWorld w) (actor_of q)) (filter ?sees (w_players w)))"
    by (simp_all only: computeVisibility_def find_actor_player assms(3) players_toVisibility option.map option.case Let_def
        visibility_result.simps filter_map map_map comp_def id)
  have ids: "set (vr_visible (computeVisibility (toVisibilityWorld w) v)) = ps_playerId ` {q \<in> set (w_players w). ?sees q}"
    "set (vr_obscured (computeVisibility (toVisibilityWorld w) v))
      = ps_playerId ` {q \<in> set (w_players w). ?sees q \<and> isConcealed (toVisibilityWorld w) (actor_of q)}"
    by (simp_all add: lists)
  show "ps_playerId p \<in> set (vr_visible (computeVisibility (toVisibilityWorld w) v))
       \<longleftrightarrow> sees (toVisibilityWorld w) (actor_of x) (actor_of p)"
    "ps_playerId p \<in> set (vr_obscured (computeVisibility (toVisibilityWorld w) v))
       \<longleftrightarrow> sees (toVisibilityWorld w) (actor_of x) (actor_of p) \<and> isConcealed (toVisibilityWorld w) (actor_of p)"
    unfolding ids pick by (rule refl)+
qed

lemma shown_alike:
  assumes "list_all2 (\<lambda>p q. p = q \<and> P1 p = P2 q \<and> f1 p = f2 q \<or> \<not> P1 p \<and> \<not> P2 q) ps qs"
  shows "map f1 (filter P1 ps) = map f2 (filter P2 qs)"
  using assms by (induction rule: list_all2_induct) auto

lemma list_all2_in: "list_all2 R xs ys \<Longrightarrow> (\<And>x y. x \<in> set xs \<Longrightarrow> y \<in> set ys \<Longrightarrow> R x y \<Longrightarrow> S x y) \<Longrightarrow> list_all2 S xs ys"
  by (induction rule: list_all2_induct) auto

text \<open>
  C3. A player who is hidden leaves no trace. If two worlds differ only in players whom the viewer does not see in either - their
  positions, effects, cooldowns, emojis, whether they live - then the viewer is sent the same bytes.
\<close>

theorem snapshot_hides:
  assumes same: "alike v w1 w2" and viewer: "vc_playerId viewer = Some v" "vc_access viewer = AccessFiltered"
  shows "encodeForViewer utf8 \<lparr>fr_tick = t, fr_world = w1, fr_events = es1, fr_skillRejections = rs1\<rparr> viewer roster changes
       = encodeForViewer utf8 \<lparr>fr_tick = t, fr_world = w2, fr_events = es2, fr_skillRejections = rs2\<rparr> viewer roster changes"
proof -
  have S: "w_map w1 = w_map w2" "w_simulationHz w1 = w_simulationHz w2" "w_storm w1 = w_storm w2"
    "distinct (map ps_playerId (w_players w1))"
    and rel: "list_all2 (\<lambda>p q. ps_playerId p = ps_playerId q \<and> (p = q \<or> hidden w1 v p \<and> hidden w2 v q))
       (w_players w1) (w_players w2)"
    using same by (simp_all add: alike_def)
  have "map ps_playerId (w_players w1) = map ps_playerId (w_players w2)"
    using rel by (induction rule: list_all2_induct) auto
  then have d2: "distinct (map ps_playerId (w_players w2))" using S(4) by simp
  have find: "find_player v (w_players w1) = find_player v (w_players w2)"
    by (rule find_alike [OF rel]) (simp add: hidden_def)
  let ?V1 = "computeVisibility (toVisibilityWorld w1) v" and ?V2 = "computeVisibility (toVisibilityWorld w2) v"
  let ?f = "\<lambda>V p. toSnapshotPlayer p (ps_playerId p \<in> set (vr_obscured V)) t (w_simulationHz w2)"
  have players: "map (?f ?V1) (filter (\<lambda>p. ps_alive p \<and> ps_playerId p \<in> set (vr_visible ?V1)) (w_players w1))
      = map (?f ?V2) (filter (\<lambda>p. ps_alive p \<and> ps_playerId p \<in> set (vr_visible ?V2)) (w_players w2))"
  proof (cases "find_player v (w_players w1)")
    case None
    then show ?thesis using find by (simp add: computeVisibility_def find_actor_player)
  next
    case (Some x)
    then have x2: "find_player v (w_players w2) = Some x" using find by simp
    note v1 = visible_iff [OF S(4) _ Some] and v2 = visible_iff [OF d2 _ x2]
    show ?thesis
    proof (rule shown_alike, rule list_all2_in [OF rel])
      fix p q assume pq: "p \<in> set (w_players w1)" "q \<in> set (w_players w2)"
        "ps_playerId p = ps_playerId q \<and> (p = q \<or> hidden w1 v p \<and> hidden w2 v q)"
      show "p = q \<and> (ps_alive p \<and> ps_playerId p \<in> set (vr_visible ?V1)) = (ps_alive q \<and> ps_playerId q \<in> set (vr_visible ?V2))
          \<and> ?f ?V1 p = ?f ?V2 q
        \<or> \<not> (ps_alive p \<and> ps_playerId p \<in> set (vr_visible ?V1)) \<and> \<not> (ps_alive q \<and> ps_playerId q \<in> set (vr_visible ?V2))"
        using pq v1 [OF pq(1)] v2 [OF pq(2)] sees_map [OF S(1)] concealed_map(1) [OF S(1)]
        by (auto simp: hidden_def)
    qed
  qed
  have alphas: "vr_tileAlphas ?V1 = vr_tileAlphas ?V2"
    by (simp add: computeVisibility_def find_actor_player find concealed_map(3) [OF S(1)] Let_def split: option.split)
  have cooldowns: "cooldown_entries w1 = cooldown_entries w2"
    by (rule ext) (simp add: cooldown_entries_def S(2) cong: option.case_cong)
  have base: "base_snapshot \<lparr>fr_tick = t, fr_world = w1, fr_events = es1, fr_skillRejections = rs1\<rparr> full roster changes
      = base_snapshot \<lparr>fr_tick = t, fr_world = w2, fr_events = es2, fr_skillRejections = rs2\<rparr> full roster changes" for full
    by (simp add: base_snapshot_def S)
  show ?thesis
    unfolding encodeForViewer_def buildSnapshot_def Let_def
    by (simp add: viewer base players alphas find cooldowns S(2))
qed

text \<open>Two players far apart; the second stands at different places in the two worlds.\<close>

definition far_player :: "int \<Rightarrow> real \<Rightarrow> player_state" where
  "far_player pid x = \<lparr>ps_playerId = pid, ps_x = x, ps_y = 0, ps_vx = 0, ps_vy = 0, ps_facingX = 0, ps_facingY = 1, ps_radius = 100,
     ps_sightRange = 4096, ps_colorIndex = pid - 1, ps_alive = True, ps_isTagger = False, ps_connected = True,
     ps_effects = (\<lambda>_. None), ps_cooldowns = (\<lambda>_. None), ps_loadout = SkDash, ps_emoji = None, ps_stats = emptyStats\<rparr>"

definition far_world :: "real \<Rightarrow> world" where
  "far_world x = createWorld \<lparr>wm_mapId = ''m'', wm_cols = 1, wm_rows = 1, wm_tileSize = 256, wm_tiles = [[TILE_FLOOR]],
     wm_barrierSpeed = 0, wm_timeline = (\<lambda>_. None),
     wm_markers = [], wm_zones = []\<rparr> [far_player 1 0, far_player 2 x] 7 None"

lemma far_hidden: "5000 \<le> x \<Longrightarrow> hidden (far_world x) 1 (far_player 2 y)"
  by (simp add: hidden_def canSeePlayer_def find_actor_def sees_def withinViewport_def far_world_def far_player_def createWorld_def
      toVisibilityWorld_def)

theorem snapshot_hides_witness:
  "encodeForViewer (\<lambda>_. []) \<lparr>fr_tick = 3, fr_world = far_world 5000, fr_events = [], fr_skillRejections = []\<rparr>
       \<lparr>vc_playerId = Some 1, vc_access = AccessFiltered, vc_full = True\<rparr> [] []
     = encodeForViewer (\<lambda>_. []) \<lparr>fr_tick = 3, fr_world = far_world 6000, fr_events = [], fr_skillRejections = []\<rparr>
       \<lparr>vc_playerId = Some 1, vc_access = AccessFiltered, vc_full = True\<rparr> [] []"
proof -
  have "w_players (far_world x) = [far_player 1 0, far_player 2 x]" for x by (simp add: far_world_def createWorld_def)
  then have "alike 1 (far_world 5000) (far_world 6000)"
    using far_hidden [of 5000 5000] far_hidden [of 6000 6000]
    by (simp add: alike_def) (simp add: far_world_def createWorld_def far_player_def)
  from snapshot_hides [OF this, where viewer = "\<lparr>vc_playerId = Some 1, vc_access = AccessFiltered, vc_full = True\<rparr>"]
  show ?thesis by simp
qed

end
