(* ===== verification/Recorder.thy ===== *)
theory Recorder
  imports SnapshotView
begin

text \<open>
  What a match leaves for its replay: \<open>server-game/src/game/session-recorder.ts\<close>. A recorder is the list of the calls made
  to it (\<open>ReplayRecorder\<close> of \<open>server-game/src/replay/recorder.ts\<close>); theory \<open>Spool\<close> says what the memory
  recorder makes of them.
\<close>

section \<open>The calls of a recorder\<close>

definition FRAMES_PER_CHUNK :: nat where "FRAMES_PER_CHUNK = 60"

record replay_participant =
  rp_playerId :: int
  rp_nickname :: string
  rp_colorIndex :: int
  rp_guest :: bool

record replay_meta =
  re_matchId :: string
  re_mapId :: string
  re_snapshotHz :: int
  re_startTick :: int
  re_buildId :: string
  re_protocolVersion :: int
  re_rulesVersion :: string
  re_mapBundleHash :: string
  re_visibilityCoreVersion :: int
  re_participants :: "replay_participant list"

record replay_event =
  rv_kind :: string
  rv_playerId :: int
  rv_by :: "int option"
  rv_fromX :: "real option"
  rv_fromY :: "real option"
  rv_slot :: "int option"
  rv_targetPlayerId :: "int option"
  rv_skillId :: "string option"

datatype recorder_call =
  RcBegin replay_meta
| RcFrame int "byte list" bool
| RcVisibility int "byte list"
| RcEvent int replay_event
| RcFinish int
| RcAbort string

text \<open>What the storage of a replay answers.\<close>

record replay_handle =
  rh_storageKey :: string
  rh_formatVersion :: int
  rh_chunkCount :: int
  rh_sizeBytes :: int
  rh_rootHash :: string

section \<open>Recording a session\<close>

record session_recorder =
  sc_roster :: "roster_entry list"
  sc_recordedFrames :: nat
  sc_calls :: "recorder_call list"

definition call :: "recorder_call \<Rightarrow> session_recorder \<Rightarrow> session_recorder" where
  "call c s = s\<lparr>sc_calls := sc_calls s @ [c]\<rparr>"

definition replayEvent :: "world_event \<Rightarrow> replay_event" where
  "replayEvent event = (let plain = (\<lambda>kind pid. \<lparr>rv_kind = kind, rv_playerId = pid, rv_by = None, rv_fromX = None, rv_fromY = None,
        rv_slot = None, rv_targetPlayerId = None, rv_skillId = None\<rparr>) in
     case event of
       EvTagged pid by' \<Rightarrow> (plain ''tagged'' pid)\<lparr>rv_by := by'\<rparr>
     | EvEliminated pid by' \<Rightarrow> (plain ''eliminated'' pid)\<lparr>rv_by := by'\<rparr>
     | EvBlinked pid x y \<Rightarrow> (plain ''blinked'' pid)\<lparr>rv_fromX := Some x, rv_fromY := Some y\<rparr>
     | EvSkillArea skill pid x y target \<Rightarrow> (plain ''skillArea'' pid)\<lparr>rv_fromX := Some x, rv_fromY := Some y,
         rv_targetPlayerId := target, rv_skillId := Some (skill_name skill)\<rparr>)"

definition recordEvents :: "int \<Rightarrow> world_event list \<Rightarrow> session_recorder \<Rightarrow> session_recorder" where
  "recordEvents tick events s = fold (\<lambda>event. call (RcEvent tick (replayEvent event))) events s"

text \<open>One byte per viewer of the roster, at the place of the viewer; later entries of the same player overwrite.\<close>

definition visibility_masks :: "world \<Rightarrow> roster_entry list \<Rightarrow> byte list" where
  "visibility_masks world roster =
     fold (\<lambda>entry masks. let slotIndex = ro_id entry - 1 in
        if slotIndex < 0 \<or> 8 \<le> slotIndex then masks
        else masks[nat slotIndex := of_int (packVisibleMask
               (map (\<lambda>playerId. playerId - 1) (vr_visible (computeVisibility (toVisibilityWorld world) (ro_id entry)))))])
       roster (replicate 8 0)"

definition writeFrame ::
  "(string \<Rightarrow> byte list) \<Rightarrow> authoritative_frame \<Rightarrow> bool \<Rightarrow> (int \<times> int \<times> tile) list \<Rightarrow> session_recorder \<Rightarrow> session_recorder" where
  "writeFrame utf8 fr full changes s =
     (let bytes = encodeForViewer utf8 fr \<lparr>vc_playerId = None, vc_access = AccessUnfiltered, vc_full = full\<rparr> (sc_roster s) changes;
          s1 = call (RcFrame (fr_tick fr) bytes full) s;
          s2 = s1\<lparr>sc_recordedFrames := sc_recordedFrames s1 + 1\<rparr>
      in call (RcVisibility (fr_tick fr) (visibility_masks (fr_world fr) (sc_roster s))) s2)"

definition recordSnapshotTick ::
  "(string \<Rightarrow> byte list) \<Rightarrow> authoritative_frame \<Rightarrow> (int \<times> int \<times> tile) list \<Rightarrow> session_recorder \<Rightarrow> session_recorder" where
  "recordSnapshotTick utf8 fr changes s = writeFrame utf8 fr (sc_recordedFrames s mod FRAMES_PER_CHUNK = 0) changes s"

definition recordFinalFrame ::
  "(string \<Rightarrow> byte list) \<Rightarrow> authoritative_frame \<Rightarrow> (int \<times> int \<times> tile) list \<Rightarrow> session_recorder \<Rightarrow> session_recorder" where
  "recordFinalFrame utf8 fr changes s = writeFrame utf8 fr True changes s"

end
