(* ===== verification/Training.thy ===== *)
theory Training
  imports Skills "HOL-Library.Monad_Syntax"
begin

text \<open>
  The training ground: \<open>server-game/src/training/training-ground.ts\<close>. Its targets are players of the world, which the code
  shares by reference; here a target names its player by id and reads it from the world. A computation that may throw
  returns an option, \<open>None\<close> where it throws. Keys of tiles, strings in the code, are the tiles themselves. The Korean labels of
  the targets are the parameter \<open>label\<close>.
\<close>

section \<open>Types\<close>

definition TRAINING_DUMMY_RESPAWN_MS :: real where "TRAINING_DUMMY_RESPAWN_MS = 3000"
definition BOT_DASH_MIN_TILES :: real where "BOT_DASH_MIN_TILES = 4"

type_synonym tile_point = "int \<times> int"

datatype dummy_role = Still | Patrol | Chase

datatype chase_mode = PlayerHunts | PlayerFlees

record route_result =
  rr_tiles :: "tile_point list"
  rr_reachedTarget :: bool

record dummy_state =
  du_playerId :: int
  du_course :: "tile_point list"
  du_kind :: dummy_role
  du_zone :: "map_zone option"
  du_home :: tile_point
  du_targetIndex :: nat
  du_respawnAtTick :: "int option"
  du_cachedChaseTargetKey :: "tile_point option"
  du_flashAimedAtTick :: "int option"
  du_cachedRoute :: "route_result option"
  du_cachedFromKey :: "tile_point option"
  du_cachedTargetIndex :: int

record training_ground =
  tg_players :: "player_state list"
  tg_roster :: "(int \<times> string) list"
  tg_states :: "dummy_state list"
  tg_dummyIds :: "int list"
  tg_pads :: "training_pad list"
  tg_standingOn :: "(int, training_pad_kind) js_map"
  tg_chaseMode :: chase_mode
  tg_chaseActive :: bool

section \<open>Tiles and routes\<close>

definition tileCenter :: "world_map \<Rightarrow> tile_point \<Rightarrow> real \<times> real" where
  "tileCenter m t = ((of_int (fst t) + 1 / 2) * wm_tileSize m, (of_int (snd t) + 1 / 2) * wm_tileSize m)"

definition isWalkable :: "world_map \<Rightarrow> tile_point \<Rightarrow> bool" where
  "isWalkable m t \<longleftrightarrow> 0 \<le> fst t \<and> 0 \<le> snd t \<and> fst t < wm_cols m \<and> snd t < wm_rows m
     \<and> tile_at (wm_tiles m) (snd t) (fst t) \<noteq> Some TILE_WALL"

definition desiredTile :: "world_map \<Rightarrow> real \<Rightarrow> real \<Rightarrow> tile_point" where
  "desiredTile m x y = (max 0 (min (wm_cols m - 1) \<lfloor>x * of_int (wm_cols m)\<rfloor>),
     max 0 (min (wm_rows m - 1) \<lfloor>y * of_int (wm_rows m)\<rfloor>))"

definition tile_of_point :: "world_map \<Rightarrow> real \<Rightarrow> real \<Rightarrow> tile_point" where
  "tile_of_point m x y = (\<lfloor>x / wm_tileSize m\<rfloor>, \<lfloor>y / wm_tileSize m\<rfloor>)"

definition hasClearPath :: "world_map \<Rightarrow> real \<times> real \<Rightarrow> real \<times> real \<Rightarrow> real \<Rightarrow> bool" where
  "hasClearPath m a b radius =
     (let dx = fst b - fst a; dy = snd b - snd a; d = js_hypot dx dy in
      if d = 0 then True
      else let stepCount = nat (max 1 \<lceil>d / (radius / 2)\<rceil>);
               sideX = - dy / d; sideY = dx / d
           in list_all (\<lambda>offset. list_all (\<lambda>step.
                let t = of_nat step / of_nat stepCount in
                isWalkable m (tile_of_point m (fst a + dx * t + sideX * offset) (snd a + dy * t + sideY * offset)))
                [0..<Suc stepCount]) [0, radius, - radius])"

definition manhattan :: "tile_point \<Rightarrow> tile_point \<Rightarrow> int" where
  "manhattan a b = \<bar>fst a - fst b\<bar> + \<bar>snd a - snd b\<bar>"

text \<open>All tiles of the map, row by row.\<close>

definition map_tiles :: "world_map \<Rightarrow> tile_point list" where
  "map_tiles m = concat (map (\<lambda>y. map (\<lambda>x. (x, y)) [0..wm_cols m - 1]) [0..wm_rows m - 1])"

definition nearer :: "world_map \<Rightarrow> tile_point \<Rightarrow> tile_point \<Rightarrow> tile_point option \<Rightarrow> tile_point option" where
  "nearer m desired candidate best =
     (if \<not> isWalkable m candidate then best
      else case best of
             None \<Rightarrow> Some candidate
           | Some b \<Rightarrow> if manhattan candidate desired < manhattan b desired then Some candidate else Some b)"

definition nearestWalkable :: "world_map \<Rightarrow> tile_point \<Rightarrow> tile_point option" where
  "nearestWalkable m desired = fold (nearer m desired) (map_tiles m) None"

definition CARDINAL_DIRECTIONS :: "tile_point list" where
  "CARDINAL_DIRECTIONS = [(1, 0), (0, 1), (- 1, 0), (0, - 1)]"

type_synonym came_from = "(tile_point, tile_point option) js_map"

text \<open>The loop over the four directions: the new tiles are recorded with the tile they were reached from.\<close>

definition visit :: "world_map \<Rightarrow> tile_point \<Rightarrow> tile_point \<Rightarrow> tile_point list \<times> came_from \<Rightarrow> tile_point list \<times> came_from" where
  "visit m current dir acc =
     (let nxt = (fst current + fst dir, snd current + snd dir) in
      if \<not> isWalkable m nxt \<or> js_has (snd acc) nxt then acc
      else (fst acc @ [nxt], js_set nxt (Some current) (snd acc)))"

definition neighbours :: "world_map \<Rightarrow> tile_point \<Rightarrow> came_from \<Rightarrow> tile_point list \<times> came_from" where
  "neighbours m current prev = fold (visit m current) CARDINAL_DIRECTIONS ([], prev)"

definition unvisited :: "world_map \<Rightarrow> came_from \<Rightarrow> nat" where
  "unvisited m prev = length (filter (\<lambda>t. \<not> js_has prev t) (map_tiles m))"

lemma set_map_tiles: "set (map_tiles m) = {t. 0 \<le> fst t \<and> fst t < wm_cols m \<and> 0 \<le> snd t \<and> snd t < wm_rows m}"
  by (force simp: map_tiles_def)

lemma js_has_set [simp]: "js_has (js_set k v m) k' \<longleftrightarrow> k' = k \<or> js_has m k'"
  by (simp add: js_has_def)

lemma visit_measure:
  "2 * unvisited m (snd (visit m current dir acc)) + length (fst (visit m current dir acc))
     \<le> 2 * unvisited m (snd acc) + length (fst acc)"
proof (cases "isWalkable m (fst current + fst dir, snd current + snd dir) \<and> \<not> js_has (snd acc) (fst current + fst dir, snd current + snd dir)")
  case True
  let ?n = "(fst current + fst dir, snd current + snd dir)"
  have "?n \<in> set (filter (\<lambda>t. \<not> js_has (snd acc) t) (map_tiles m))"
    using True by (simp add: set_map_tiles isWalkable_def)
  from length_filter_less [OF this, of "\<lambda>t. t \<noteq> ?n"]
  have "length (filter (\<lambda>t. \<not> js_has (js_set ?n (Some current) (snd acc)) t) (map_tiles m))
      < length (filter (\<lambda>t. \<not> js_has (snd acc) t) (map_tiles m))" by (simp add: conj_commute)
  then show ?thesis using True by (simp add: visit_def unvisited_def Let_def)
qed (auto simp: visit_def Let_def)

lemma neighbours_measure:
  "2 * unvisited m (snd (neighbours m current prev)) + length (fst (neighbours m current prev)) \<le> 2 * unvisited m prev"
proof -
  have "2 * unvisited m (snd (fold (visit m current) dirs acc)) + length (fst (fold (visit m current) dirs acc))
      \<le> 2 * unvisited m (snd acc) + length (fst acc)" for dirs acc
  proof (induction dirs arbitrary: acc)
    case (Cons dir dirs)
    from Cons.IH [of "visit m current dir acc"] visit_measure [of m current dir acc] show ?case by simp
  qed simp
  from this [of CARDINAL_DIRECTIONS "([], prev)"] show ?thesis by (simp add: neighbours_def)
qed

text \<open>The search: the tiles still in the queue, where each known tile was reached from, and the best tile so far.\<close>

function search ::
  "world_map \<Rightarrow> tile_point \<Rightarrow> tile_point list \<Rightarrow> came_from \<Rightarrow> tile_point \<Rightarrow> tile_point \<times> came_from" where
  "search m target [] prev best = (best, prev)"
| "search m target (current # queue) prev best =
     (let best' = (if manhattan current target < manhattan best target then current else best) in
      if manhattan current target = 0 then (current, prev)
      else search m target (queue @ fst (neighbours m current prev)) (snd (neighbours m current prev)) best')"
  by pat_completeness auto
termination
proof (relation "measure (\<lambda>(m, target, queue, prev, best). 2 * unvisited m prev + length queue)", goal_cases)
  case (2 m target current queue prev best)
  show ?case using neighbours_measure [of m current prev] by simp
qed simp

declare search.simps [simp del]

text \<open>The way back from a tile; a known tile is met at most once, so the number of known tiles is enough.\<close>

fun trace :: "nat \<Rightarrow> came_from \<Rightarrow> tile_point \<Rightarrow> tile_point list" where
  "trace 0 prev cursor = []"
| "trace (Suc n) prev cursor = cursor # (case js_get prev cursor of Some (Some p) \<Rightarrow> trace n prev p | _ \<Rightarrow> [])"

definition routeToward :: "world_map \<Rightarrow> tile_point \<Rightarrow> tile_point \<Rightarrow> route_result option" where
  "routeToward m a target = do {
     start \<leftarrow> (if isWalkable m a then Some a else nearestWalkable m a);
     let (best, prev) = search m target [start] (js_set start None js_empty) start;
     Some \<lparr>rr_tiles = rev (trace (js_size prev) prev best), rr_reachedTarget = (manhattan best target = 0)\<rparr>
   }"

section \<open>Construction\<close>

fun DUMMY_ROLE_BY_MARKER :: "map_marker_kind \<Rightarrow> dummy_role option" where
  "DUMMY_ROLE_BY_MARKER MkTrainingDummyStill = Some Still"
| "DUMMY_ROLE_BY_MARKER MkTrainingDummyPatrol = Some Patrol"
| "DUMMY_ROLE_BY_MARKER MkTrainingDummyChase = Some Chase"
| "DUMMY_ROLE_BY_MARKER _ = None"

definition patrolCourse :: "world_map \<Rightarrow> tile_point \<Rightarrow> map_zone option \<Rightarrow> tile_point list option" where
  "patrolCourse m home zone = (case zone of
     None \<Rightarrow> Some [home]
   | Some z \<Rightarrow>
       let left = mz_x z + 1; top = mz_y z + 1;
           right = mz_x z + mz_width z - 1 - 1; bottom = mz_y z + mz_height z - 1 - 1
       in if right \<le> left \<or> bottom \<le> top then Some [home]
          else do {
            corners \<leftarrow> those (map (nearestWalkable m) [(left, top), (right, top), (right, bottom), (left, bottom)]);
            Some (home # corners)
          })"

definition zoneContaining :: "world_map \<Rightarrow> int \<Rightarrow> int \<Rightarrow> dummy_role \<Rightarrow> map_zone option" where
  "zoneContaining m x y role =
     (let wanted = (if role = Chase then ZkTrainingChase else ZkTrainingCourse) in
      List.find (\<lambda>z. mz_kind z = wanted \<and> mz_x z \<le> x \<and> x < mz_x z + mz_width z \<and> mz_y z \<le> y \<and> y < mz_y z + mz_height z)
        (wm_zones m))"

definition insideZone :: "map_zone \<Rightarrow> real \<Rightarrow> real \<Rightarrow> real \<Rightarrow> bool" where
  "insideZone z tileSize x y \<longleftrightarrow> of_int (mz_x z) * tileSize \<le> x \<and> x < of_int (mz_x z + mz_width z) * tileSize
     \<and> of_int (mz_y z) * tileSize \<le> y \<and> y < of_int (mz_y z + mz_height z) * tileSize"

definition chaseLoadout :: "nat \<Rightarrow> skill_id" where
  "chaseLoadout index = (if index mod 2 = 0 then SkFlash else SkDash)"

definition makeDummy :: "int \<Rightarrow> int \<Rightarrow> world_map \<Rightarrow> tile_point \<Rightarrow> skill_id \<Rightarrow> player_state" where
  "makeDummy playerId colorIndex m start loadout =
     \<lparr>ps_playerId = playerId, ps_x = fst (tileCenter m start), ps_y = snd (tileCenter m start), ps_vx = 0, ps_vy = 0,
      ps_facingX = 0, ps_facingY = 1, ps_radius = PLAYER_RADIUS_PX, ps_sightRange = SIGHT_RANGE_PX,
      ps_colorIndex = colorIndex, ps_alive = True, ps_isTagger = False, ps_connected = True, ps_effects = (\<lambda>_. None),
      ps_cooldowns = (\<lambda>_. None), ps_loadout = loadout, ps_emoji = None, ps_stats = emptyStats\<rparr>"

definition make_state :: "world_map \<Rightarrow> nat \<Rightarrow> map_marker \<Rightarrow> dummy_role \<Rightarrow> int \<Rightarrow> (player_state \<times> dummy_state) option" where
  "make_state m index marker role playerId =
     (let home = (mm_x marker, mm_y marker); zone = zoneContaining m (mm_x marker) (mm_y marker) role in do {
        patrol \<leftarrow> (if role = Still then Some [home] else patrolCourse m home zone);
        Some (makeDummy playerId (playerId - 1) m home (if role = Chase then chaseLoadout index else SkDash),
          \<lparr>du_playerId = playerId, du_course = patrol, du_kind = role, du_zone = zone, du_home = home,
           du_targetIndex = (if role = Still then 0 else if 1 < length patrol then 1 else 0), du_respawnAtTick = None,
           du_cachedChaseTargetKey = None, du_flashAimedAtTick = None, du_cachedRoute = None, du_cachedFromKey = None,
           du_cachedTargetIndex = - 1\<rparr>)
      })"

definition spawn_markers :: "world_map \<Rightarrow> (map_marker \<times> dummy_role) list" where
  "spawn_markers m = concat (map (\<lambda>k. case DUMMY_ROLE_BY_MARKER (mm_kind k) of None \<Rightarrow> [] | Some r \<Rightarrow> [(k, r)]) (wm_markers m))"

definition new_ground :: "(dummy_role \<Rightarrow> string) \<Rightarrow> world_map \<Rightarrow> int list \<Rightarrow> training_ground option" where
  "new_ground label m occupied =
     (let availableIds = filter (\<lambda>i. i \<notin> set occupied) [1..MAX_PLAYERS_PER_ROOM] in do {
        made \<leftarrow> those (map (\<lambda>(index, (marker, role), pid). make_state m index marker role pid)
                  (enumerate 0 (zip (spawn_markers m) availableIds)));
        let players = map fst made; states = map snd made in
        Some \<lparr>tg_players = players, tg_roster = map (\<lambda>d. (du_playerId d, label (du_kind d))) states, tg_states = states,
           tg_dummyIds = map ps_playerId players, tg_pads = trainingPadsFromMarkers (wm_markers m) (wm_tileSize m),
           tg_standingOn = js_empty, tg_chaseMode = PlayerHunts, tg_chaseActive = False\<rparr>
      })"

section \<open>Reading the targets\<close>

definition isDummy :: "training_ground \<Rightarrow> int \<Rightarrow> bool" where
  "isDummy g pid \<longleftrightarrow> pid \<in> set (tg_dummyIds g)"

definition dummy_is :: "world \<Rightarrow> (player_state \<Rightarrow> bool) \<Rightarrow> dummy_state \<Rightarrow> bool" where
  "dummy_is world P d \<longleftrightarrow> (case find_player (du_playerId d) (w_players world) of None \<Rightarrow> False | Some p \<Rightarrow> P p)"

definition humans :: "training_ground \<Rightarrow> world \<Rightarrow> player_state list" where
  "humans g world = filter (\<lambda>p. ps_alive p \<and> \<not> isDummy g (ps_playerId p)) (w_players world)"

text \<open>\<open>#prey\<close>: the first living human.\<close>

definition prey :: "training_ground \<Rightarrow> world \<Rightarrow> player_state option" where
  "prey g world = List.find (\<lambda>p. ps_alive p \<and> \<not> isDummy g (ps_playerId p)) (w_players world)"

definition dummy_input :: "int \<Rightarrow> real \<Rightarrow> real \<Rightarrow> resolved_input" where
  "dummy_input pid moveX moveY =
     \<lparr>ri_playerId = pid, ri_moveX = moveX, ri_moveY = moveY, ri_heldActions = 0, ri_lastProcessedSequence = 0\<rparr>"

definition steerTo :: "player_state \<Rightarrow> real \<times> real \<Rightarrow> resolved_input" where
  "steerTo p target =
     (let dx = fst target - ps_x p; dy = snd target - ps_y p; len = js_hypot dx dy in
      if len = 0 then dummy_input (ps_playerId p) 0 0 else dummy_input (ps_playerId p) (dx / len) (dy / len))"

section \<open>The chase zone\<close>

text \<open>All players lose the role of the tagger and its frenzy.\<close>

definition drop_effect :: "effect_type \<Rightarrow> player_state \<Rightarrow> player_state" where
  "drop_effect t p = p\<lparr>ps_effects := (ps_effects p)(t := None)\<rparr>"

definition clear_taggers :: "world \<Rightarrow> world" where
  "clear_taggers world = world\<lparr>w_players := map (\<lambda>p. drop_effect EffFrenzy (set_tagger False p)) (w_players world)\<rparr>"

definition tagger_changed :: "world \<Rightarrow> world" where
  "tagger_changed world = world\<lparr>w_taggerChangedAtTick := w_tick world\<rparr>"

definition make_tagger :: "int \<Rightarrow> world \<Rightarrow> world" where
  "make_tagger pid world = edit_world pid (\<lambda>p. grantTaggerFrenzy world (set_tagger True p)) world"

definition back_home :: "real \<times> real \<Rightarrow> player_state \<Rightarrow> player_state" where
  "back_home pos p = (place pos p)\<lparr>ps_vx := 0, ps_vy := 0, ps_alive := True,
     ps_stats := (ps_stats p)\<lparr>st_eliminatedAtTick := None\<rparr>, ps_effects := (\<lambda>_. None)\<rparr>"

definition sendHome :: "world \<Rightarrow> dummy_state \<Rightarrow> world \<times> dummy_state" where
  "sendHome world d =
     (edit_world (du_playerId d) (back_home (tileCenter (w_map world) (du_home d))) world,
      d\<lparr>du_targetIndex := (if 1 < length (du_course d) then 1 else 0), du_cachedRoute := None, du_respawnAtTick := None\<rparr>)"

definition reset_state :: "dummy_state \<Rightarrow> world \<times> dummy_state list \<Rightarrow> world \<times> dummy_state list" where
  "reset_state d acc =
     (if du_kind d \<noteq> Chase then (fst acc, snd acc @ [d])
      else let (w, d') = sendHome (edit_world (du_playerId d) (set_tagger False) (fst acc)) d in (w, snd acc @ [d']))"

definition resetChase :: "world \<Rightarrow> training_ground \<Rightarrow> world \<times> training_ground" where
  "resetChase world g =
     (let w1 = (if tg_chaseActive g then clear_taggers world else world);
          (w2, states) = fold reset_state (tg_states g) (w1, [])
      in (tagger_changed w2, g\<lparr>tg_chaseActive := False, tg_states := states\<rparr>))"

text \<open>The loop that picks the chaser nearest to \<open>self\<close>, starting from the first.\<close>

definition nearest_chaser :: "player_state \<Rightarrow> player_state list \<Rightarrow> player_state option" where
  "nearest_chaser self chasers = (case chasers of
     [] \<Rightarrow> None
   | c # cs \<Rightarrow> Some (fold (\<lambda>candidate best. if distance candidate self < distance best self then candidate else best) cs c))"

definition wake :: "world \<Rightarrow> training_ground \<Rightarrow> player_state \<Rightarrow> world" where
  "wake world g self =
     (if tg_chaseMode g = PlayerHunts then make_tagger (ps_playerId self) (clear_taggers world)
      else let chasers = concat (map (\<lambda>d. case find_player (du_playerId d) (w_players world) of
                  Some p \<Rightarrow> if du_kind d = Chase \<and> ps_alive p then [p] else [] | None \<Rightarrow> []) (tg_states g))
           in case nearest_chaser self chasers of
                None \<Rightarrow> clear_taggers world
              | Some c \<Rightarrow> make_tagger (ps_playerId c) (clear_taggers world))"

definition updateChaseZone :: "world \<Rightarrow> training_ground \<Rightarrow> world \<times> training_ground" where
  "updateChaseZone world g =
     (case Option.bind (List.find (\<lambda>d. du_kind d = Chase) (tg_states g)) du_zone of
        None \<Rightarrow> (world, g)
      | Some zone \<Rightarrow>
          let inside = filter (\<lambda>p. insideZone zone (wm_tileSize (w_map world)) (ps_x p) (ps_y p)) (humans g world) in
          case inside of
            [] \<Rightarrow> if tg_chaseActive g then resetChase world g else (world, g)
          | self # _ \<Rightarrow>
              if tg_chaseActive g
              then (let expectedTagger = (tg_chaseMode g = PlayerFlees);
                        dummyIsTagger = list_ex (\<lambda>d. du_kind d = Chase \<and> dummy_is world ps_isTagger d) (tg_states g)
                    in if expectedTagger \<noteq> dummyIsTagger then resetChase world g else (world, g))
              else (tagger_changed (wake world g self), g\<lparr>tg_chaseActive := True\<rparr>))"

section \<open>Inputs and skills of the targets\<close>

definition flashGainsGround :: "world \<Rightarrow> player_state \<Rightarrow> player_state \<Rightarrow> bool" where
  "flashGainsGround world self target =
     (let dx = ps_x target - ps_x self; dy = ps_y target - ps_y self; d = js_hypot dx dy in
      if d = 0 then False
      else let landingX = ps_x self + dx / d * FLASH_DISTANCE_PX; landingY = ps_y self + dy / d * FLASH_DISTANCE_PX in
        if \<not> isPositionFree (w_map world) landingX landingY (ps_radius self) (stormRect world) then False
        else if \<not> hasClearPath (w_map world) (landingX, landingY) (ps_x target, ps_y target) (ps_radius self) then False
        else js_hypot (ps_x target - landingX) (ps_y target - landingY) < d)"

definition wantsFlash :: "world \<Rightarrow> player_state \<Rightarrow> player_state \<Rightarrow> bool" where
  "wantsFlash world self target \<longleftrightarrow>
     ps_loadout self = SkFlash \<and> isReady self SkFlash \<and> flashGainsGround world self target"

definition chooseSkill :: "world \<Rightarrow> player_state \<Rightarrow> player_state \<Rightarrow> dummy_state \<Rightarrow> bool \<times> dummy_state" where
  "chooseSkill world self target d =
     (if \<not> isReady self (ps_loadout self) then (False, d)
      else if ps_loadout self = SkFlash
      then (case du_flashAimedAtTick d of
              None \<Rightarrow> (False, d)
            | Some t \<Rightarrow> if w_tick world \<le> t then (False, d) else (True, d\<lparr>du_flashAimedAtTick := None\<rparr>))
      else if ps_loadout self = SkDash
      then (hasClearPath (w_map world) (ps_x self, ps_y self) (ps_x target, ps_y target) (ps_radius self)
              \<and> wm_tileSize (w_map world) * BOT_DASH_MIN_TILES < js_hypot (ps_x target - ps_x self) (ps_y target - ps_y self), d)
      else (False, d))"

definition skill_of_dummy ::
  "world \<Rightarrow> player_state \<Rightarrow> dummy_state \<Rightarrow> skill_request list \<times> dummy_state list \<Rightarrow> skill_request list \<times> dummy_state list" where
  "skill_of_dummy world target d acc =
     (case find_player (du_playerId d) (w_players world) of
        None \<Rightarrow> (fst acc, snd acc @ [d])
      | Some self \<Rightarrow>
          if du_kind d \<noteq> Chase \<or> \<not> ps_alive self \<or> \<not> ps_isTagger self then (fst acc, snd acc @ [d])
          else case chooseSkill world self target d of
            (False, d') \<Rightarrow> (fst acc, snd acc @ [d'])
          | (True, d') \<Rightarrow> (fst acc @ [\<lparr>rq_playerId = du_playerId d, rq_slot = SLOT_MOVEMENT, rq_targetPlayerId = None\<rparr>], snd acc @ [d']))"

definition resolveSkills :: "world \<Rightarrow> training_ground \<Rightarrow> skill_request list \<times> training_ground" where
  "resolveSkills world g =
     (if \<not> tg_chaseActive g then ([], g)
      else case prey g world of
        None \<Rightarrow> ([], g)
      | Some target \<Rightarrow>
          (let (requests, states) = fold (skill_of_dummy world target) (tg_states g) ([], [])
           in (requests, g\<lparr>tg_states := states\<rparr>)))"

text \<open>A cached route whose next step has become a wall is not used again.\<close>

definition stepBlocked :: "world_map \<Rightarrow> route_result \<Rightarrow> bool" where
  "stepBlocked m r \<longleftrightarrow> 1 < length (rr_tiles r) \<and> \<not> isWalkable m (rr_tiles r ! 1)"

definition routeTo :: "world \<Rightarrow> player_state \<Rightarrow> tile_point \<Rightarrow> dummy_state \<Rightarrow> (route_result \<times> dummy_state) option" where
  "routeTo world self targetTile d =
     (let m = w_map world; from = tile_of_point m (ps_x self) (ps_y self);
          fresh = do {
            route \<leftarrow> routeToward m from targetTile;
            Some (route, d\<lparr>du_cachedRoute := Some route, du_cachedFromKey := Some from,
              du_cachedChaseTargetKey := Some targetTile, du_cachedTargetIndex := - 1\<rparr>)
          }
      in case du_cachedRoute d of
           None \<Rightarrow> fresh
         | Some cached \<Rightarrow>
             if \<not> stepBlocked m cached \<and> du_cachedFromKey d = Some from \<and> du_cachedChaseTargetKey d = Some targetTile
             then Some (cached, d) else fresh)"

definition routeFor :: "world \<Rightarrow> player_state \<Rightarrow> tile_point \<Rightarrow> dummy_state \<Rightarrow> (route_result \<times> dummy_state) option" where
  "routeFor world self targetTile d =
     (let m = w_map world; from = tile_of_point m (ps_x self) (ps_y self);
          fresh = do {
            route \<leftarrow> routeToward m from targetTile;
            Some (route, d\<lparr>du_cachedRoute := Some route, du_cachedFromKey := Some from,
              du_cachedTargetIndex := int (du_targetIndex d)\<rparr>)
          }
      in case du_cachedRoute d of
           None \<Rightarrow> fresh
         | Some cached \<Rightarrow>
             if \<not> stepBlocked m cached \<and> du_cachedFromKey d = Some from \<and> du_cachedTargetIndex d = int (du_targetIndex d)
             then Some (cached, d) else fresh)"

definition hunt :: "world \<Rightarrow> training_ground \<Rightarrow> player_state \<Rightarrow> dummy_state \<Rightarrow> (resolved_input \<times> dummy_state) option" where
  "hunt world g self d =
     (case prey g world of
        None \<Rightarrow> Some (dummy_input (ps_playerId self) 0 0, d\<lparr>du_flashAimedAtTick := None\<rparr>)
      | Some target \<Rightarrow>
          if hasClearPath (w_map world) (ps_x self, ps_y self) (ps_x target, ps_y target) (ps_radius self)
          then Some (steerTo self (ps_x target, ps_y target), d\<lparr>du_cachedRoute := None, du_flashAimedAtTick := None\<rparr>)
          else if wantsFlash world self target
          then Some (steerTo self (ps_x target, ps_y target),
                 d\<lparr>du_flashAimedAtTick := (case du_flashAimedAtTick d of None \<Rightarrow> Some (w_tick world) | Some t \<Rightarrow> Some t)\<rparr>)
          else do {
            (route, d') \<leftarrow> routeTo world self (tile_of_point (w_map world) (ps_x target) (ps_y target)) (d\<lparr>du_flashAimedAtTick := None\<rparr>);
            Some (steerTo self (if 1 < length (rr_tiles route) then tileCenter (w_map world) (rr_tiles route ! 1)
                    else (ps_x target, ps_y target)), d')
          })"

text \<open>\<open>state.course[state.targetIndex]!\<close>: reading past the course gives \<open>undefined\<close>, and the route to it throws.\<close>

definition course_target :: "dummy_state \<Rightarrow> tile_point option" where
  "course_target d = (if du_targetIndex d < length (du_course d) then Some (du_course d ! du_targetIndex d) else None)"

definition arrivalRadius :: "world \<Rightarrow> real" where
  "arrivalRadius world = min (wm_tileSize (w_map world) / 16) (PLAYER_RADIUS_PX / 6)"

definition follow :: "world \<Rightarrow> player_state \<Rightarrow> dummy_state \<Rightarrow> (resolved_input \<times> dummy_state) option" where
  "follow world self d = do {
     targetTile \<leftarrow> course_target d;
     (route, d1) \<leftarrow> routeFor world self targetTile d;
     let end1 = tileCenter (w_map world) (last (rr_tiles route));
     let arrived = (js_hypot (ps_x self - fst end1) (ps_y self - snd end1) \<le> arrivalRadius world);
     (targetTile, route, d2) \<leftarrow>
       (if \<not> arrived then Some (targetTile, route, d1)
        else let d' = d1\<lparr>du_targetIndex := (du_targetIndex d1 + 1) mod length (du_course d1)\<rparr> in do {
          t \<leftarrow> course_target d';
          (r, d'') \<leftarrow> routeFor world self t d';
          Some (t, r, d'')
        });
     let target = (if 1 < length (rr_tiles route) then tileCenter (w_map world) (rr_tiles route ! 1)
                   else if rr_reachedTarget route then tileCenter (w_map world) targetTile
                   else tileCenter (w_map world) (last (rr_tiles route)));
     Some (steerTo self target, d2)
   }"

definition respawned :: "real \<times> real \<Rightarrow> player_state \<Rightarrow> player_state" where
  "respawned pos p = (place pos p)\<lparr>ps_vx := 0, ps_vy := 0, ps_facingX := 0, ps_facingY := 1, ps_alive := True, ps_isTagger := False,
     ps_effects := (\<lambda>_. None), ps_cooldowns := (\<lambda>_. None), ps_emoji := None,
     ps_stats := (ps_stats p)\<lparr>st_eliminatedAtTick := None\<rparr>\<rparr>"

definition respawn_dummy :: "dummy_state \<Rightarrow> world \<times> dummy_state list \<Rightarrow> world \<times> dummy_state list" where
  "respawn_dummy d acc =
     (case du_respawnAtTick d of
        None \<Rightarrow> (fst acc, snd acc @ [d])
      | Some t \<Rightarrow>
          if w_tick (fst acc) < t then (fst acc, snd acc @ [d])
          else (edit_world (du_playerId d) (respawned (tileCenter (w_map (fst acc)) (hd (du_course d)))) (fst acc),
                snd acc @ [d\<lparr>du_cachedRoute := None, du_targetIndex := (if du_kind d = Still then 0 else 1), du_respawnAtTick := None\<rparr>]))"

definition respawnDue :: "world \<Rightarrow> training_ground \<Rightarrow> world \<times> training_ground" where
  "respawnDue world g =
     (let (w, states) = fold respawn_dummy (tg_states g) (world, []) in (w, g\<lparr>tg_states := states\<rparr>))"

definition input_of_dummy :: "world \<Rightarrow> training_ground \<Rightarrow> dummy_state \<Rightarrow> (resolved_input list \<times> dummy_state) option" where
  "input_of_dummy world g d =
     (case find_player (du_playerId d) (w_players world) of
        None \<Rightarrow> Some ([], d)
      | Some self \<Rightarrow>
          if \<not> ps_alive self then Some ([], d)
          else if du_kind d = Still \<or> du_kind d = Chase \<and> \<not> tg_chaseActive g then Some ([dummy_input (ps_playerId self) 0 0], d)
          else map_option (\<lambda>(i, d'). ([i], d'))
                 (if du_kind d = Chase \<and> ps_isTagger self then hunt world g self d else follow world self d))"

definition resolveInputs :: "world \<Rightarrow> training_ground \<Rightarrow> (resolved_input list \<times> world \<times> training_ground) option" where
  "resolveInputs world g =
     (let (w1, g1) = respawnDue world g; (w2, g2) = updateChaseZone w1 g1 in do {
        made \<leftarrow> those (map (input_of_dummy w2 g2) (tg_states g2));
        Some (concat (map fst made), w2, g2\<lparr>tg_states := map snd made\<rparr>)
      })"

section \<open>Pads and respawning\<close>

definition clear_timers :: "player_state \<Rightarrow> player_state" where
  "clear_timers p = p\<lparr>ps_cooldowns := (\<lambda>_. None), ps_effects := (\<lambda>_. None)\<rparr>"

definition set_skill :: "skill_id \<Rightarrow> player_state \<Rightarrow> player_state" where
  "set_skill s p = p\<lparr>ps_loadout := s\<rparr>"

definition trigger :: "player_state \<Rightarrow> training_pad_kind \<Rightarrow> world \<times> training_ground \<Rightarrow> world \<times> training_ground" where
  "trigger player kind acc =
     (let (world, g) = acc; pid = ps_playerId player in
      case kind of
        PadSkillDash \<Rightarrow> (edit_world pid (set_skill SkDash) world, g)
      | PadSkillFlash \<Rightarrow> (edit_world pid (set_skill SkFlash) world, g)
      | PadSkillExhaust \<Rightarrow> (edit_world pid (set_skill SkExhaust) world, g)
      | PadTagger \<Rightarrow>
          (let becoming = (\<not> ps_isTagger player); w1 = clear_taggers world;
               w2 = (if becoming then make_tagger pid w1 else w1)
           in (tagger_changed w2, g))
      | PadChaseMode \<Rightarrow>
          resetChase world (g\<lparr>tg_chaseMode := (if tg_chaseMode g = PlayerHunts then PlayerFlees else PlayerHunts)\<rparr>)
      | PadReset \<Rightarrow> (edit_world pid clear_timers world, g))"

definition pad_under :: "training_ground \<Rightarrow> player_state \<Rightarrow> training_pad option" where
  "pad_under g p = List.find (\<lambda>c. let dx = tp_x c - ps_x p; dy = tp_y c - ps_y p in
     dx * dx + dy * dy \<le> tp_radius c * tp_radius c) (tg_pads g)"

definition apply_pad :: "int \<Rightarrow> world \<times> training_ground \<Rightarrow> world \<times> training_ground" where
  "apply_pad pid acc =
     (let (world, g) = acc in
      case find_player pid (w_players world) of
        None \<Rightarrow> acc
      | Some player \<Rightarrow>
          if \<not> ps_alive player \<or> isDummy g pid then acc
          else case pad_under g player of
            None \<Rightarrow> (world, g\<lparr>tg_standingOn := js_delete pid (tg_standingOn g)\<rparr>)
          | Some pad \<Rightarrow>
              let previous = js_get (tg_standingOn g) pid;
                  g1 = g\<lparr>tg_standingOn := js_set pid (tp_kind pad) (tg_standingOn g)\<rparr>
              in if previous = Some (tp_kind pad) then (world, g1) else trigger player (tp_kind pad) (world, g1))"

definition applyPads :: "world \<Rightarrow> training_ground \<Rightarrow> world \<times> training_ground" where
  "applyPads world g = fold apply_pad (map ps_playerId (w_players world)) (world, g)"

definition afterStep :: "world \<Rightarrow> training_ground \<Rightarrow> world \<times> training_ground" where
  "afterStep world g =
     (let (w1, g1) = applyPads world g; delayTicks = msToTicks TRAINING_DUMMY_RESPAWN_MS (w_simulationHz w1)
      in (w1, g1\<lparr>tg_states := map (\<lambda>d. if dummy_is w1 (\<lambda>p. \<not> ps_alive p) d \<and> du_respawnAtTick d = None
            then d\<lparr>du_respawnAtTick := Some (w_tick w1 + delayTicks)\<rparr> else d) (tg_states g1)\<rparr>))"

definition safe_tile :: "world \<Rightarrow> training_ground \<Rightarrow> player_state \<Rightarrow> tile_point \<Rightarrow> bool" where
  "safe_tile world g player t =
     (let m = w_map world; (px, py) = tileCenter m t in
      tile_at (wm_tiles m) (snd t) (fst t) = Some TILE_FLOOR
      \<and> \<not> list_ex (\<lambda>z. mz_kind z = ZkTrainingChase \<and> insideZone z (wm_tileSize m) px py) (wm_zones m)
      \<and> \<not> list_ex (\<lambda>pad. js_hypot (tp_x pad - px) (tp_y pad - py) \<le> tp_radius pad + ps_radius player) (tg_pads g)
      \<and> \<not> list_ex (\<lambda>other. ps_playerId other \<noteq> ps_playerId player \<and> ps_alive other
            \<and> js_hypot (ps_x other - px) (ps_y other - py) \<le> ps_radius other + ps_radius player) (w_players world)
      \<and> isPositionFree m px py (ps_radius player) (stormRect world))"

definition revived :: "real \<times> real \<Rightarrow> player_state \<Rightarrow> player_state" where
  "revived pos p = (place pos p)\<lparr>ps_vx := 0, ps_vy := 0, ps_alive := True, ps_isTagger := False,
     ps_stats := (ps_stats p)\<lparr>st_eliminatedAtTick := None\<rparr>, ps_cooldowns := (\<lambda>_. None), ps_effects := (\<lambda>_. None)\<rparr>"

definition respawn :: "world \<Rightarrow> training_ground \<Rightarrow> int \<Rightarrow> bool \<times> world \<times> training_ground" where
  "respawn world g pid =
     (case find_player pid (w_players world) of
        None \<Rightarrow> (False, world, g)
      | Some player \<Rightarrow>
          if isDummy g pid \<or> ps_alive player then (False, world, g)
          else let center = desiredTile (w_map world) (1 / 2) (1 / 2);
                   safeTiles = sort_key (\<lambda>t. manhattan t center) (filter (safe_tile world g player) (map_tiles (w_map world)))
               in case safeTiles of
                    [] \<Rightarrow> (False, world, g)
                  | safeTile # _ \<Rightarrow>
                      (let (w1, g1) = resetChase world g;
                           g2 = g1\<lparr>tg_standingOn := js_delete pid (tg_standingOn g1)\<rparr>
                       in (True, edit_world pid (revived (tileCenter (w_map w1) safeTile)) w1, g2)))"

end
