(* ===== verification/Session.thy ===== *)
theory Session
  imports Recorder Training Messages JsText
begin

text \<open>
  One match: \<open>server-game/src/game/game-session.ts\<close>. A session and its room are two states that the operations take and
  return together; what a session does outside is a log of effects. The time, \<open>TextEncoder\<close>, the fill of a socket's buffer and
  the handle that the storage of the replay answers are arguments. The asynchronous end of a match is split where the code waits
  for the replay: \<open>startFinish\<close> runs up to there and \<open>finishDone\<close> after it. Where the code lets an exception out, the
  result is \<open>None\<close>.
\<close>

section \<open>State\<close>

definition MATCH_RESULT_VERSION :: int where "MATCH_RESULT_VERSION = 1"
definition VISIBILITY_CORE_VERSION :: int where "VISIBILITY_CORE_VERSION = 1"
definition SOCKET_BUFFER_SOFT_LIMIT_BYTES :: int where "SOCKET_BUFFER_SOFT_LIMIT_BYTES = 64 * 1024"

record participant_result =
  pr_userId :: "int option"
  pr_playerId :: int
  pr_nickname :: string
  pr_colorIndex :: int
  pr_isGuest :: bool
  pr_tagCount :: int
  pr_taggedCount :: int
  pr_switchTry :: int
  pr_switchSuccess :: int
  pr_survivedMs :: int

record match_result =
  mr_v :: int
  mr_matchId :: string
  mr_roomId :: string
  mr_serverId :: string
  mr_mapId :: string
  mr_startedAt :: int
  mr_endedAt :: int
  mr_durationTicks :: int
  mr_buildId :: string
  mr_protocolVersion :: int
  mr_rulesVersion :: string
  mr_mapBundleHash :: string
  mr_visibilityCoreVersion :: int
  mr_winnerPlayerIds :: "int list"
  mr_replay :: "replay_handle option"
  mr_players :: "participant_result list"

datatype session_effect =
  SentBinary int "byte list"
| Violated violation_signal
| MatchFinished match_result

text \<open>\<open>rulesVersion\<close> is the constant that \<open>config/rules.ts\<close> computes when the process starts.\<close>

record session_meta =
  sm_serverId :: string
  sm_buildId :: string
  sm_mapId :: string
  sm_mapBundleHash :: string
  sm_rulesVersion :: string

record game_session =
  gx_id :: string
  gx_matchId :: string
  gx_mode :: room_mode
  gx_meta :: session_meta
  gx_world :: world
  gx_roster :: "roster_entry list"
  gx_training :: "training_ground option"
  gx_pendingSkills :: "skill_request list"
  gx_pendingEmojis :: "(int, emoji_request) js_map"
  gx_needsFull :: "int list"
  gx_pendingTileChanges :: "(int \<times> int \<times> tile) list"
  gx_recorder :: session_recorder
  gx_maxDurationTicks :: int
  gx_identities :: "(int, participant) js_map"
  gx_finished :: bool
  gx_finishing :: "int list option"
  gx_startedAt :: int
  gx_out :: "session_effect list"

section \<open>Construction and requests\<close>

definition replay_meta_of :: "string \<Rightarrow> session_meta \<Rightarrow> world \<Rightarrow> (int, participant) js_map \<Rightarrow> replay_meta" where
  "replay_meta_of matchId meta world identities =
     \<lparr>re_matchId = matchId, re_mapId = sm_mapId meta, re_snapshotHz = SNAPSHOT_HZ, re_startTick = 0, re_buildId = sm_buildId meta,
      re_protocolVersion = PROTOCOL_VERSION, re_rulesVersion = sm_rulesVersion meta, re_mapBundleHash = sm_mapBundleHash meta,
      re_visibilityCoreVersion = VISIBILITY_CORE_VERSION,
      re_participants = map (\<lambda>p. let identity = js_get identities (ps_playerId p) in
        \<lparr>rp_playerId = ps_playerId p,
         rp_nickname = (case identity of Some i \<Rightarrow> pa_nickname i | None \<Rightarrow> ''P'' @ number_text (ps_playerId p)),
         rp_colorIndex = ps_colorIndex p,
         rp_guest = (case identity of Some i \<Rightarrow> pa_guest i | None \<Rightarrow> True)\<rparr>) (w_players world)\<rparr>"

definition identities_of :: "participant list \<Rightarrow> (int, participant) js_map" where
  "identities_of ps = fold (\<lambda>p. js_set (pa_playerId p) p) ps js_empty"

definition new_session ::
  "int \<Rightarrow> room \<Rightarrow> world \<Rightarrow> string \<Rightarrow> room_mode \<Rightarrow> roster_entry list \<Rightarrow> training_ground option \<Rightarrow> int option \<Rightarrow> session_meta \<Rightarrow> game_session option" where
  "new_session now r world matchId mode roster training maxDurationTicks meta =
     (let limit = (case maxDurationTicks of Some t \<Rightarrow> t | None \<Rightarrow> MAX_MATCH_DURATION_TICKS);
          identities = identities_of (participants r)
      in if limit < 1 \<or> 2 ^ 53 \<le> limit then None
         else Some \<lparr>gx_id = op_id (rm_options r), gx_matchId = matchId, gx_mode = mode, gx_meta = meta, gx_world = world,
            gx_roster = roster, gx_training = training, gx_pendingSkills = [], gx_pendingEmojis = js_empty,
            gx_needsFull = map ps_playerId (w_players world), gx_pendingTileChanges = [],
            gx_recorder = call (RcBegin (replay_meta_of matchId meta world identities))
              \<lparr>sc_roster = roster, sc_recordedFrames = 0, sc_calls = []\<rparr>,
            gx_maxDurationTicks = limit, gx_identities = identities, gx_finished = False, gx_finishing = None,
            gx_startedAt = now, gx_out = []\<rparr>)"

definition emit_session :: "session_effect \<Rightarrow> game_session \<Rightarrow> game_session" where
  "emit_session x s = s\<lparr>gx_out := gx_out s @ [x]\<rparr>"

definition on_recorder :: "(session_recorder \<Rightarrow> session_recorder) \<Rightarrow> game_session \<Rightarrow> game_session" where
  "on_recorder f s = s\<lparr>gx_recorder := f (gx_recorder s)\<rparr>"

definition actorOf :: "game_session \<Rightarrow> int \<Rightarrow> actor_id" where
  "actorOf s playerId = (case js_get (gx_identities s) playerId of
     Some i \<Rightarrow> pa_userId i
   | None \<Rightarrow> Guest (''room:'' @ gx_id s @ ''#'' @ number_text playerId))"

definition queue_violation :: "game_session \<Rightarrow> string \<Rightarrow> int \<Rightarrow> violation_signal" where
  "queue_violation s what playerId =
     \<lparr>vs_kind = VRateLimit, vs_userId = actorOf s playerId, vs_roomId = Some (gx_id s), vs_tick = Some (w_tick (gx_world s)),
      vs_severity = LowSeverity, vs_ruleVersion = 1,
      vs_detail = [(''kind'', JString what), (''playerId'', JNumber (Fin (of_int playerId)))]\<rparr>"

definition session_queueSkill :: "skill_request \<Rightarrow> game_session \<Rightarrow> game_session" where
  "session_queueSkill request s =
     (if gx_finished s then s
      else if MAX_JSON_COMMANDS_PER_SEC \<le> length (gx_pendingSkills s)
      then emit_session (Violated (queue_violation s ''skill-queue'' (rq_playerId request))) s
      else s\<lparr>gx_pendingSkills := gx_pendingSkills s @ [request]\<rparr>)"

definition session_queueEmoji :: "emoji_request \<Rightarrow> game_session \<Rightarrow> game_session" where
  "session_queueEmoji request s =
     (if gx_finished s then s
      else if \<not> js_has (gx_pendingEmojis s) (eq_playerId request) \<and> MAX_JSON_COMMANDS_PER_SEC \<le> js_size (gx_pendingEmojis s)
      then emit_session (Violated (queue_violation s ''emoji-queue'' (eq_playerId request))) s
      else s\<lparr>gx_pendingEmojis := js_set (eq_playerId request) request (gx_pendingEmojis s)\<rparr>)"

definition session_respawn :: "int \<Rightarrow> game_session \<Rightarrow> bool \<times> game_session" where
  "session_respawn playerId s = (case gx_training s of
     None \<Rightarrow> (False, s)
   | Some g \<Rightarrow> (let (done, w, g') = respawn (gx_world s) g playerId in (done, s\<lparr>gx_world := w, gx_training := Some g'\<rparr>)))"

definition session_requestFull :: "int \<Rightarrow> game_session \<Rightarrow> game_session" where
  "session_requestFull playerId s = s\<lparr>gx_needsFull := List.insert playerId (gx_needsFull s)\<rparr>"

section \<open>The end of a match\<close>

definition matchHasEnded :: "game_session \<Rightarrow> bool" where
  "matchHasEnded s \<longleftrightarrow> isFinished (gx_world s) \<or> gx_maxDurationTicks s \<le> w_tick (gx_world s)"

definition confirmedWinnerIds :: "game_session \<Rightarrow> int list" where
  "confirmedWinnerIds s = sort (remdups (map ps_playerId (filter (\<lambda>p. ps_alive p \<and> js_has (gx_identities s) (ps_playerId p)) (w_players (gx_world s)))))"

definition handleFinishException :: "room_env \<Rightarrow> game_session \<Rightarrow> room \<Rightarrow> game_session \<times> room" where
  "handleFinishException e s r =
     (let signal = \<lparr>vs_kind = VBadState, vs_userId = Guest (''room:'' @ gx_id s), vs_roomId = Some (gx_id s),
            vs_tick = Some (w_tick (gx_world s)), vs_severity = HighSeverity, vs_ruleVersion = 1,
            vs_detail = [(''kind'', JString ''internal-exception''), (''phase'', JString ''finish''),
              (''matchId'', JString (gx_matchId s)), (''error'', JString ''Error'')]\<rparr>
      in (on_recorder (call (RcAbort ''session-finish-failed'')) (emit_session (Violated signal) s), close_room e r))"

definition startFinish :: "room_env \<Rightarrow> game_session \<Rightarrow> room \<Rightarrow> game_session \<times> room" where
  "startFinish e s r =
     (let winners = confirmedWinnerIds s in
      case finishGame e winners r of
        Inl _ \<Rightarrow> handleFinishException e s r
      | Inr (False, r') \<Rightarrow> (on_recorder (call (RcAbort ''room-already-finished'')) s, r')
      | Inr (True, r') \<Rightarrow>
          (on_recorder (call (RcFinish (w_tick (gx_world s)))) (s\<lparr>gx_finishing := Some winners\<rparr>), r'))"

definition participant_result_of :: "game_session \<Rightarrow> player_state \<Rightarrow> participant_result" where
  "participant_result_of s p =
     (let identity = js_get (gx_identities s) (ps_playerId p);
          stats = ps_stats p;
          endTick = (case st_eliminatedAtTick stats of Some t \<Rightarrow> t | None \<Rightarrow> w_tick (gx_world s));
          guest = (case identity of Some i \<Rightarrow> pa_guest i | None \<Rightarrow> True)
      in \<lparr>pr_userId = (if guest then None else case identity of Some i \<Rightarrow> (case pa_userId i of Account n \<Rightarrow> Some n | Guest _ \<Rightarrow> None) | None \<Rightarrow> None),
          pr_playerId = ps_playerId p,
          pr_nickname = (case identity of Some i \<Rightarrow> pa_nickname i | None \<Rightarrow> ''P'' @ number_text (ps_playerId p)),
          pr_colorIndex = ps_colorIndex p, pr_isGuest = guest, pr_tagCount = st_tagCount stats,
          pr_taggedCount = st_taggedCount stats, pr_switchTry = st_switchTry stats, pr_switchSuccess = st_switchSuccess stats,
          pr_survivedMs = js_round (of_int endTick * (1000 / of_int (w_simulationHz (gx_world s))))\<rparr>)"

definition buildResult :: "int \<Rightarrow> game_session \<Rightarrow> int list \<Rightarrow> replay_handle option \<Rightarrow> match_result" where
  "buildResult now s winners replay =
     \<lparr>mr_v = MATCH_RESULT_VERSION, mr_matchId = gx_matchId s, mr_roomId = gx_id s, mr_serverId = sm_serverId (gx_meta s),
      mr_mapId = sm_mapId (gx_meta s), mr_startedAt = gx_startedAt s, mr_endedAt = now, mr_durationTicks = w_tick (gx_world s),
      mr_buildId = sm_buildId (gx_meta s), mr_protocolVersion = PROTOCOL_VERSION, mr_rulesVersion = sm_rulesVersion (gx_meta s),
      mr_mapBundleHash = sm_mapBundleHash (gx_meta s), mr_visibilityCoreVersion = VISIBILITY_CORE_VERSION,
      mr_winnerPlayerIds = winners, mr_replay = replay,
      mr_players = map (participant_result_of s) (filter (\<lambda>p. js_has (gx_identities s) (ps_playerId p)) (w_players (gx_world s)))\<rparr>"

text \<open>The replay has been stored, or given up.\<close>

definition finishDone :: "int \<Rightarrow> replay_handle option \<Rightarrow> game_session \<Rightarrow> game_session" where
  "finishDone now handle s = (case gx_finishing s of
     None \<Rightarrow> s
   | Some winners \<Rightarrow> emit_session (MatchFinished (buildResult now s winners handle)) (s\<lparr>gx_finishing := None\<rparr>))"

definition stop_session :: "game_session \<Rightarrow> game_session" where
  "stop_session s = (if gx_finished s then s
     else on_recorder (call (RcAbort ''session-stopped'')) (s\<lparr>gx_finished := True\<rparr>))"

section \<open>Ticks\<close>

definition applyEvent :: "room_env \<Rightarrow> game_session \<Rightarrow> world_event \<Rightarrow> room \<Rightarrow> room" where
  "applyEvent e s event r =
     (let canSee = (\<lambda>playerId viewer. canSeePlayer (toVisibilityWorld (gx_world s)) viewer playerId);
          dummy = (\<lambda>playerId. case gx_training s of None \<Rightarrow> False | Some g \<Rightarrow> isDummy g playerId)
      in case event of
           EvEliminated playerId by' \<Rightarrow>
             if dummy playerId then r else snd (markEliminated e playerId (case by' of Some b \<Rightarrow> b | None \<Rightarrow> playerId) r)
         | EvTagged playerId by' \<Rightarrow> broadcastTagged playerId by' r
         | EvBlinked playerId x y \<Rightarrow> broadcastBlinked playerId x y (canSee playerId) r
         | EvSkillArea skill playerId x y target \<Rightarrow> broadcastSkillArea (skill_name skill) playerId x y target (canSee playerId) r)"

definition sendRejection :: "skill_rejection_entry \<Rightarrow> room \<Rightarrow> room" where
  "sendRejection x r = sendSkillRejected (sj_playerId x) (sj_slot x) (sj_reason x) r"

text \<open>The inputs, skills and emojis of a tick; the training ground moves its targets while it makes theirs.\<close>

definition gather ::
  "game_session \<Rightarrow> room \<Rightarrow> (resolved_input list \<times> skill_request list \<times> emoji_request list \<times> world \<times> training_ground option) option" where
  "gather s r = (case gx_training s of
     None \<Rightarrow> Some (resolvedInputs r, gx_pendingSkills s, js_values (gx_pendingEmojis s), gx_world s, None)
   | Some g \<Rightarrow> do {
       (inputs, w, g1) \<leftarrow> resolveInputs (gx_world s) g;
       let (skills, g2) = resolveSkills w g1;
       Some (resolvedInputs r @ inputs, gx_pendingSkills s @ skills, js_values (gx_pendingEmojis s), w, Some g2)
     })"

definition session_step ::
  "(string \<Rightarrow> byte list) \<Rightarrow> room_env \<Rightarrow> game_session \<Rightarrow> room \<Rightarrow> (authoritative_frame option \<times> game_session \<times> room) option" where
  "session_step utf8 e s r =
     (if gx_finished s then Some (None, s, r)
      else do {
        (inputs, skills, emojis, w0, g) \<leftarrow> gather s r;
        let fr = stepWorld w0 inputs skills emojis;
        let s1 = s\<lparr>gx_pendingSkills := [], gx_pendingEmojis := js_empty, gx_world := fr_world fr, gx_training := g,
                   gx_pendingTileChanges := gx_pendingTileChanges s @ w_tileChanges (fr_world fr)\<rparr>;
        let r1 = fold sendRejection (fr_skillRejections fr) r;
        let r2 = fold (applyEvent e s1) (fr_events fr) r1;
        let (w1, g1) = (case g of None \<Rightarrow> (gx_world s1, None) | Some g0 \<Rightarrow> (let (w, g') = afterStep (gx_world s1) g0 in (w, Some g')));
        let fr1 = fr\<lparr>fr_world := w1\<rparr>;
        let s2 = on_recorder (recordEvents (fr_tick fr) (fr_events fr)) (s1\<lparr>gx_world := w1, gx_training := g1\<rparr>);
        (if gx_mode s2 = MatchMode \<and> matchHasEnded s2
         then let s3 = on_recorder (recordFinalFrame utf8 fr1 (w_tileChanges w1)) (s2\<lparr>gx_finished := True\<rparr>);
                  (s4, r3) = startFinish e s3 r2
              in Some (Some fr1, s4, r3)
         else Some (Some fr1, s2, r2))
      })"

definition publish_to ::
  "(string \<Rightarrow> byte list) \<Rightarrow> (game_connection \<Rightarrow> int) \<Rightarrow> authoritative_frame \<Rightarrow> int \<times> game_connection \<times> snapshot_access \<Rightarrow> game_session \<Rightarrow> game_session" where
  "publish_to utf8 buffered fr target s =
     (case target of (playerId, connection, access) \<Rightarrow>
        if access = AccessNone then s
        else let full = (playerId \<in> set (gx_needsFull s) \<or> fr_tick fr \<le> 1);
                 s1 = s\<lparr>gx_needsFull := removeAll playerId (gx_needsFull s)\<rparr>;
                 payload = encodeForViewer utf8 fr
                   \<lparr>vc_playerId = (if access = AccessUnfiltered then None else Some playerId), vc_access = access, vc_full = full\<rparr>
                   (gx_roster s) (gx_pendingTileChanges s)
             in if \<not> full \<and> SOCKET_BUFFER_SOFT_LIMIT_BYTES < buffered connection
                then s1\<lparr>gx_needsFull := List.insert playerId (gx_needsFull s1)\<rparr>
                else emit_session (SentBinary (gc_id connection) payload) s1)"

definition publish ::
  "(string \<Rightarrow> byte list) \<Rightarrow> (game_connection \<Rightarrow> int) \<Rightarrow> authoritative_frame \<Rightarrow> game_session \<Rightarrow> room \<Rightarrow> game_session" where
  "publish utf8 buffered fr s r =
     (let s1 = fold (publish_to utf8 buffered fr) (snapshotTargets r) s;
          s2 = (if gx_finished s1 then s1 else on_recorder (recordSnapshotTick utf8 fr (gx_pendingTileChanges s)) s1)
      in s2\<lparr>gx_pendingTileChanges := []\<rparr>)"

definition eliminated_now :: "int \<Rightarrow> player_state \<Rightarrow> player_state" where
  "eliminated_now tick p = p\<lparr>ps_connected := False, ps_alive := False,
     ps_stats := (ps_stats p)\<lparr>st_eliminatedAtTick := Some tick\<rparr>\<rparr>"

text \<open>A departed tagger is replaced at once.\<close>

definition replace_tagger :: "game_session \<Rightarrow> game_session \<times> int option" where
  "replace_tagger s =
     (let world = gx_world s; runners = rotationCandidates world;
          (i, w1) = nextRandomInt (int (length runners)) world
      in if i < 0 \<or> int (length runners) \<le> i then (s\<lparr>gx_world := w1\<rparr>, None)
         else let picked = ps_playerId (runners ! nat i);
                  w2 = w1\<lparr>w_players := map (\<lambda>p. set_tagger (ps_playerId p = picked) p) (w_players w1), w_taggerChangedAtTick := w_tick w1\<rparr>;
                  w3 = edit_world picked (grantTaggerFrenzy w2) w2
              in (s\<lparr>gx_world := w3\<rparr>, Some picked))"

text \<open>The player is out, and where nobody living is tagger any more, a runner becomes it.\<close>

definition depart :: "int \<Rightarrow> game_session \<Rightarrow> room \<Rightarrow> game_session \<times> world_event list \<times> room" where
  "depart playerId s r =
     (let s1 = s\<lparr>gx_world := edit_world playerId (eliminated_now (w_tick (gx_world s))) (gx_world s)\<rparr>;
          gone = EvEliminated playerId None
      in if gx_mode s1 = MatchMode \<and> \<not> matchHasEnded s1 \<and> \<not> list_ex (\<lambda>p. ps_alive p \<and> ps_isTagger p) (w_players (gx_world s1))
         then (case replace_tagger s1 of
                 (s2, None) \<Rightarrow> (s2, [gone], r)
               | (s2, Some picked) \<Rightarrow> (s2, [gone, EvTagged picked None], broadcastTagged picked None r))
         else (s1, [gone], r))"

definition end_departure ::
  "(string \<Rightarrow> byte list) \<Rightarrow> room_env \<Rightarrow> game_session \<times> world_event list \<times> room \<Rightarrow> game_session \<times> room" where
  "end_departure utf8 e d = (case d of (s, events, r) \<Rightarrow>
     let tick = w_tick (gx_world s);
         s1 = on_recorder (recordEvents tick events) s
     in if gx_mode s1 = MatchMode \<and> matchHasEnded s1
        then let fr = \<lparr>fr_tick = tick, fr_world = gx_world s1, fr_events = events, fr_skillRejections = []\<rparr>;
                 s2 = on_recorder (recordFinalFrame utf8 fr (gx_pendingTileChanges s1)) (s1\<lparr>gx_finished := True\<rparr>)
             in startFinish e (s2\<lparr>gx_pendingTileChanges := []\<rparr>) r
        else (s1, r))"

definition eliminateDisconnected ::
  "(string \<Rightarrow> byte list) \<Rightarrow> room_env \<Rightarrow> int \<Rightarrow> game_session \<Rightarrow> room \<Rightarrow> bool \<times> game_session \<times> room" where
  "eliminateDisconnected utf8 e playerId s r =
     (if gx_finished s then (False, s, r)
      else case find_player playerId (w_players (gx_world s)) of
        None \<Rightarrow> (False, s, r)
      | Some player \<Rightarrow>
          if \<not> ps_alive player then (False, s, r)
          else (True, end_departure utf8 e (depart playerId s r)))"

end
