(* ===== verification/StepFacts.thy ===== *)
theory StepFacts
  imports Step
begin

text \<open>
  What the stages of a tick do to the parts of a player that decide the game: identity, life, role and
  tag statistics. Most stages touch none of them; the lemmas here say so once for each stage, and the
  two relations \<open>evolves\<close> and \<open>tagger_is\<close> carry the stages that do.
\<close>

section \<open>The core of a player\<close>

definition core :: "player_state \<Rightarrow> int \<times> bool \<times> bool \<times> int \<times> int" where
  "core p = (ps_playerId p, ps_alive p, ps_isTagger p, st_tagCount (ps_stats p), st_taggedCount (ps_stats p))"

definition keeps_core :: "(player_state \<Rightarrow> player_state) \<Rightarrow> bool" where
  "keeps_core f \<longleftrightarrow> (\<forall>p. core (f p) = core p)"

lemma core_applyEffect [simp]: "core (applyEffect w t m d p) = core p"
  by (simp add: core_def applyEffect_def Let_def)

lemma core_grant [simp]: "core (grantTaggerFrenzy w p) = core p"
  by (simp add: grantTaggerFrenzy_def)

lemma core_startCooldown [simp]: "core (startCooldown w s c p) = core p"
  by (simp add: core_def startCooldown_def)

lemma core_place [simp]: "core (place xy p) = core p"
  by (simp add: core_def)

lemma core_refresh [simp]: "core (refresh w t p) = core p"
  by (simp add: core_def refresh_def Let_def expireEffects_def tickCooldowns_def)

lemma core_counts [simp]: "core (count_switch_try p) = core p" "core (count_switch_success p) = core p"
  by (simp_all add: core_def count_switch_try_def count_switch_success_def)

lemma core_settle [simp]: "core (settle m s p) = core p"
  by (simp add: settle_def)

lemma core_power_place: "core (((\<lambda>p. place (f p) p) ^^ n) p) = core p"
  by (induction n) simp_all

lemma core_integrate [simp]: "core (fst (integrate p i)) = core p"
  by (simp add: core_def integrate_def Let_def)

lemma core_stop [simp]: "core (p\<lparr>ps_vx := a, ps_vy := b\<rparr>) = core p" "core (p\<lparr>ps_emoji := e\<rparr>) = core p"
  by (simp_all add: core_def)

lemma core_integrate_eq: "integrate p i = (q, xy) \<Longrightarrow> core q = core p"
  using core_integrate [of p i] by simp

lemma core_move_player [simp]: "core (move_player m s inputs p) = core p"
  by (simp add: move_player_def core_power_place Let_def core_integrate_eq split: option.split prod.split)

lemma core_extendFrenzy [simp]: "core (extendFrenzyOnTag w p) = core p"
  by (simp add: extendFrenzyOnTag_def Let_def split: option.split)

lemma core_edit: "(\<And>p. core (f p) = core p) \<Longrightarrow> map core (edit pid f ps) = map core ps"
  by (rule edit_map)

lemma core_edit_world: "(\<And>p. core (f p) = core p) \<Longrightarrow> map core (w_players (edit_world pid f w)) = map core (w_players w)"
  by (simp add: edit_world_def core_edit)

lemma core_collisions: "map core (fst (resolvePlayerCollisions ps)) = map core ps"
  by (rule resolvePlayerCollisions_map) simp

lemma core_rounds: "map core (collision_rounds n m storm ps) = map core ps"
proof (induction n arbitrary: ps)
  case 0
  then show ?case by simp
next
  case (Suc n)
  have "map core (map (settle m storm) (fst (resolvePlayerCollisions ps))) = map core ps"
    using core_collisions [of ps] by (simp add: comp_def)
  with Suc show ?case by (cases "resolvePlayerCollisions ps") (simp add: Let_def)
qed

lemma core_apply_change: "w_players (apply_change c w) = w_players w"
  by (auto simp: apply_change_def split: prod.split option.split)

lemma applyMapTimeline_players: "w_players (applyMapTimeline w) = w_players w"
proof -
  have "w_players (fold apply_change cs w) = w_players w" for cs w
    by (induction cs arbitrary: w) (simp_all add: core_apply_change)
  then show ?thesis by (simp add: applyMapTimeline_def split: option.split)
qed

lemma core_begin_tick: "map core (w_players (begin_tick w)) = map core (w_players w)"
  by (simp add: begin_tick_def Let_def comp_def)

lemma core_move_all: "map core (w_players (fst (move_all w inputs))) = map core (w_players w)"
  by (simp add: move_all_def Let_def core_rounds applyMapTimeline_players comp_def)

lemma core_request_emoji: "map core (w_players (request_emoji r w)) = map core (w_players w)"
  by (simp add: request_emoji_def core_edit_world split: option.split)

section \<open>Evolution of the tallies\<close>

definition tally :: "(player_state \<Rightarrow> int) \<Rightarrow> player_state list \<Rightarrow> int" where
  "tally g ps = sum_list (map g ps)"

definition tags :: "player_state list \<Rightarrow> int" where
  "tags = tally (\<lambda>p. st_tagCount (ps_stats p))"

definition tagged :: "player_state list \<Rightarrow> int" where
  "tagged = tally (\<lambda>p. st_taggedCount (ps_stats p))"

definition dead :: "player_state list \<Rightarrow> int" where
  "dead = tally (\<lambda>p. if ps_alive p then 0 else 1)"

text \<open>\<open>n\<close> players were eliminated between two states of the same players, and nobody was revived.\<close>

definition evolves :: "nat \<Rightarrow> player_state list \<Rightarrow> player_state list \<Rightarrow> bool" where
  "evolves n ps ps' \<longleftrightarrow>
     map ps_playerId ps' = map ps_playerId ps
     \<and> list_all2 (\<lambda>p q. ps_alive q \<longrightarrow> ps_alive p) ps ps'
     \<and> tags ps' = tags ps + int n \<and> tagged ps' = tagged ps + int n \<and> dead ps' = dead ps + int n"

lemma core_map_eqD:
  assumes "map core ps' = map core ps"
  shows "map ps_playerId ps' = map ps_playerId ps" "map ps_alive ps' = map ps_alive ps"
    "map ps_isTagger ps' = map ps_isTagger ps" "tags ps' = tags ps" "tagged ps' = tagged ps" "dead ps' = dead ps"
proof -
  have m: "map (f \<circ> core) ps' = map (f \<circ> core) ps" for f :: "int \<times> bool \<times> bool \<times> int \<times> int \<Rightarrow> 'z"
    using arg_cong [OF assms, of "map f"] by simp
  show "map ps_playerId ps' = map ps_playerId ps" using m [of fst] by (simp add: core_def comp_def)
  show "map ps_alive ps' = map ps_alive ps" using m [of "\<lambda>c. fst (snd c)"] by (simp add: core_def comp_def)
  show "map ps_isTagger ps' = map ps_isTagger ps" using m [of "\<lambda>c. fst (snd (snd c))"] by (simp add: core_def comp_def)
  show "tags ps' = tags ps" using m [of "\<lambda>c. fst (snd (snd (snd c)))"] by (simp add: core_def comp_def tags_def tally_def)
  show "tagged ps' = tagged ps" using m [of "\<lambda>c. snd (snd (snd (snd c)))"] by (simp add: core_def comp_def tagged_def tally_def)
  have "map (\<lambda>p. if ps_alive p then 0 else 1 :: int) ps' = map (\<lambda>p. if ps_alive p then 0 else 1) ps"
    using m [of "\<lambda>c. if fst (snd c) then 0 else 1 :: int"] by (simp add: core_def comp_def)
  then show "dead ps' = dead ps" by (simp only: dead_def tally_def)
qed

lemma evolves_core: "map core ps' = map core ps \<Longrightarrow> evolves 0 ps ps'"
  using core_map_eqD [of ps' ps]
  by (auto simp: evolves_def list_all2_conv_all_nth dest: map_eq_imp_length_eq) (metis nth_map map_eq_imp_length_eq)

lemma evolves_refl: "evolves 0 ps ps"
  by (rule evolves_core) simp

lemma evolves_trans: "evolves m ps qs \<Longrightarrow> evolves n qs rs \<Longrightarrow> evolves (m + n) ps rs"
proof -
  assume a: "evolves m ps qs" and b: "evolves n qs rs"
  have "list_all2 (\<lambda>p q. ps_alive q \<longrightarrow> ps_alive p) ps rs"
    using a b list_all2_trans [of "\<lambda>p q. ps_alive q \<longrightarrow> ps_alive p" "\<lambda>p q. ps_alive q \<longrightarrow> ps_alive p"
        "\<lambda>p q. ps_alive q \<longrightarrow> ps_alive p" ps qs rs] by (simp add: evolves_def)
  with a b show ?thesis by (simp add: evolves_def)
qed

lemma tally_edit:
  assumes "distinct (map ps_playerId ps)" "find_player pid ps = Some p"
  shows "tally g (edit pid f ps) = tally g ps + (g (f p) - g p)"
  using assms
proof (induction ps)
  case Nil
  then show ?case by (simp add: find_player_def)
next
  case (Cons q ps)
  show ?case
  proof (cases "ps_playerId q = pid")
    case True
    then have "pid \<notin> ps_playerId ` set ps" using Cons.prems(1) by auto
    then have "edit pid f ps = ps" by (auto simp: edit_def intro!: map_idI)
    then show ?thesis using True Cons.prems(2) by (simp add: tally_def edit_def find_player_def)
  next
    case False
    with Cons show ?thesis by (simp add: tally_def edit_def find_player_def)
  qed
qed

lemma find_player_edit:
  "keeps_id f \<Longrightarrow> find_player pid (edit pid' f ps) =
     (if pid = pid' then map_option f (find_player pid ps) else find_player pid ps)"
  unfolding find_player_def edit_def keeps_id_def by (induction ps) auto

section \<open>The role of the tagger\<close>

definition tagger_is :: "int \<Rightarrow> player_state list \<Rightarrow> bool" where
  "tagger_is t ps \<longleftrightarrow>
     list_ex (\<lambda>p. ps_playerId p = t \<and> ps_alive p) ps \<and> list_all (\<lambda>p. ps_isTagger p = (ps_playerId p = t)) ps"

text \<open>What a running game keeps: distinct ids and exactly one tagger, who is alive.\<close>

definition game_ok :: "player_state list \<Rightarrow> bool" where
  "game_ok ps \<longleftrightarrow> distinct (map ps_playerId ps) \<and> (\<exists>t. tagger_is t ps)"

lemma tagger_is_core: "map core ps' = map core ps \<Longrightarrow> tagger_is t ps' = tagger_is t ps"
proof -
  have "tagger_is t ps \<longleftrightarrow> list_ex (\<lambda>c. fst c = t \<and> fst (snd c)) (map core ps)
      \<and> list_all (\<lambda>c. fst (snd (snd c)) = (fst c = t)) (map core ps)" for ps
    by (simp add: tagger_is_def list_ex_iff list_all_iff core_def)
  then show "map core ps' = map core ps \<Longrightarrow> tagger_is t ps' = tagger_is t ps" by simp
qed

lemma game_ok_core: "map core ps' = map core ps \<Longrightarrow> game_ok ps' = game_ok ps"
  using core_map_eqD(1) tagger_is_core unfolding game_ok_def by metis

lemma find_tagger_SomeD: "find_tagger ps = Some p \<Longrightarrow> p \<in> set ps \<and> ps_isTagger p \<and> ps_alive p"
  unfolding find_tagger_def using find_SomeD by fast

lemma find_tagger_is: "tagger_is t ps \<Longrightarrow> \<exists>p. find_tagger ps = Some p \<and> ps_playerId p = t"
proof -
  assume t: "tagger_is t ps"
  then have "find_tagger ps \<noteq> None"
    by (auto simp: find_tagger_def find_None_iff_all tagger_is_def list_ex_iff list_all_iff)
  then obtain p where p: "find_tagger ps = Some p" by blast
  with t find_tagger_SomeD [OF p] show ?thesis by (auto simp: tagger_is_def list_all_iff)
qed

lemma game_ok_distinct: "game_ok ps \<Longrightarrow> distinct (map ps_playerId ps)"
  by (simp add: game_ok_def)

text \<open>Stages that keep the core keep everything.\<close>

lemma core_useDash: "map core (w_players (fst (snd (useDash w c es)))) = map core (w_players w)"
  by (simp add: useDash_def Let_def core_edit_world)

lemma core_useFlash: "map core (w_players (fst (snd (useFlash w c es)))) = map core (w_players w)"
  by (simp add: useFlash_def Let_def core_edit_world)

lemma core_fold_edit:
  "(\<And>h p. core (f h p) = core p) \<Longrightarrow>
     map core (w_players (fold (\<lambda>h w. edit_world (k h) (f h) w) hs w)) = map core (w_players w)"
  by (induction hs arbitrary: w) (simp_all add: core_edit_world)

lemma core_useExhaust: "map core (w_players (fst (snd (useExhaust w c es)))) = map core (w_players w)"
  by (simp add: useExhaust_def Let_def core_edit_world core_fold_edit)

subsection \<open>Switching\<close>

text \<open>Roles and tallies of a list of players, apart from identity and life.\<close>

lemma edit_world_players [simp]: "w_players (edit_world pid f w) = edit pid f (w_players w)"
  "w_tick (edit_world pid f w) = w_tick w" "w_map (edit_world pid f w) = w_map w"
  "w_simulationHz (edit_world pid f w) = w_simulationHz w"
  "w_taggerChangedAtTick (edit_world pid f w) = w_taggerChangedAtTick w"
  by (simp_all add: edit_world_def)

lemma core_eq_iff: "core p = core q \<longleftrightarrow> ps_playerId p = ps_playerId q \<and> ps_alive p = ps_alive q
    \<and> ps_isTagger p = ps_isTagger q \<and> st_tagCount (ps_stats p) = st_tagCount (ps_stats q)
    \<and> st_taggedCount (ps_stats p) = st_taggedCount (ps_stats q)"
  by (auto simp: core_def)

lemma core_set_tagger: "core (set_tagger b p) = (case core p of (i, a, _, x, y) \<Rightarrow> (i, a, b, x, y))"
  by (simp add: core_def set_tagger_def)

text \<open>After the roles are switched, exactly the tagger's and the target's flags differ.\<close>

definition assign_tagger :: "int \<Rightarrow> int \<Rightarrow> player_state \<Rightarrow> player_state" where
  "assign_tagger old new p = set_tagger (if ps_playerId p = new then True else if ps_playerId p = old then False else ps_isTagger p) p"

lemma core_switch_roles:
  "map core (w_players (switch_roles w old new c w0)) = map core (map (assign_tagger old new) (w_players w0))"
proof -
  have ids: "ps_playerId (set_tagger b p) = ps_playerId p" "ps_playerId (applyEffect w e m d p) = ps_playerId p"
    "ps_playerId (grantTaggerFrenzy w p) = ps_playerId p" for b p e m d
    by (simp_all add: set_tagger_def applyEffect_def grantTaggerFrenzy_def Let_def)
  show ?thesis
    by (auto simp add: switch_roles_def Let_def edit_def ids if_distrib [of ps_playerId] core_set_tagger assign_tagger_def)
      (simp_all add: core_def)
qed

lemma assign_tagger_simps [simp]:
  "ps_playerId (assign_tagger o' n p) = ps_playerId p" "ps_alive (assign_tagger o' n p) = ps_alive p"
  "ps_stats (assign_tagger o' n p) = ps_stats p"
  "ps_isTagger (assign_tagger o' n p) = (if ps_playerId p = n then True else if ps_playerId p = o' then False else ps_isTagger p)"
  by (simp_all add: assign_tagger_def set_tagger_def)

definition retag :: "int \<Rightarrow> int \<Rightarrow> int \<times> bool \<times> bool \<times> int \<times> int \<Rightarrow> int \<times> bool \<times> bool \<times> int \<times> int" where
  "retag o' n c = (fst c, fst (snd c),
     if fst c = n then True else if fst c = o' then False else fst (snd (snd c)), snd (snd (snd c)))"

lemma core_assign_map: "map core (map (assign_tagger o' n) ps) = map (retag o' n) (map core ps)"
  by (simp add: retag_def core_def)

lemma evolves_assign: "evolves 0 ps (map (assign_tagger o' n) ps)"
  by (simp add: evolves_def tags_def tagged_def dead_def tally_def comp_def list_all2_map2 list.rel_refl)

lemma tagger_is_assign:
  assumes "tagger_is t ps" "find_player n ps = Some p" "ps_alive p"
  shows "tagger_is n (map (assign_tagger t n) ps)"
  using assms find_player_SomeD [OF assms(2)]
  by (auto simp: tagger_is_def list_ex_iff list_all_iff)

text \<open>What a stage must do: keep the game well formed and eliminate \<open>n\<close> players.\<close>

definition stage :: "nat \<Rightarrow> player_state list \<Rightarrow> player_state list \<Rightarrow> bool" where
  "stage n ps ps' \<longleftrightarrow> evolves n ps ps' \<and> (game_ok ps \<longrightarrow> game_ok ps')"

lemma stage_core: "map core ps' = map core ps \<Longrightarrow> stage 0 ps ps'"
  using evolves_core [of ps' ps] game_ok_core [of ps' ps] unfolding stage_def by blast

lemma stage_refl [simp]: "stage 0 ps ps"
  by (rule stage_core) simp

lemma stage_trans: "stage m ps qs \<Longrightarrow> stage n qs rs \<Longrightarrow> stage (m + n) ps rs"
  using evolves_trans [of m ps qs n rs] by (simp add: stage_def)

lemma stage_trans0: "stage 0 ps qs \<Longrightarrow> stage n qs rs \<Longrightarrow> stage n ps rs"
  using stage_trans [of 0 ps qs n rs] by (simp only: add_0 simp_thms)

lemma stage_ids: "stage n ps ps' \<Longrightarrow> map ps_playerId ps' = map ps_playerId ps"
  by (simp add: stage_def evolves_def)

lemma evolves_core_right: "evolves n ps qs \<Longrightarrow> map core rs = map core qs \<Longrightarrow> evolves n ps rs"
  using evolves_trans [of n ps qs 0 rs] evolves_core [of rs qs] by simp

lemma stage_core_right: "stage n ps qs \<Longrightarrow> map core rs = map core qs \<Longrightarrow> stage n ps rs"
  using stage_trans [of n ps qs 0 rs] stage_core [of rs qs] by simp

lemma tagger_unique: "game_ok ps \<Longrightarrow> find_tagger ps = Some p \<Longrightarrow> tagger_is (ps_playerId p) ps"
proof -
  assume "game_ok ps" and p: "find_tagger ps = Some p"
  then obtain t where t: "tagger_is t ps" by (auto simp: game_ok_def)
  with find_tagger_is p show "tagger_is (ps_playerId p) ps" by fastforce
qed

lemma stage_assign:
  assumes "find_tagger ps = Some t" "find_player n ps = Some p" "ps_alive p"
  shows "stage 0 ps (map (assign_tagger (ps_playerId t) n) ps)"
proof -
  have "game_ok (map (assign_tagger (ps_playerId t) n) ps)" if "game_ok ps"
    using tagger_is_assign [OF tagger_unique [OF that assms(1)] assms(2,3)] game_ok_distinct [OF that]
    unfolding game_ok_def by (auto simp: comp_def)
  then show ?thesis by (simp add: stage_def evolves_assign)
qed

lemma stage_useSwitch: "stage 0 (w_players w) (w_players (fst (snd (useSwitch w c target es))))"
proof -
  let ?w2 = "edit_world (ps_playerId c) count_switch_try
      (edit_world (ps_playerId c) (startCooldown w SkSwitch (SWITCH_COOLDOWN_MS SKILL_TUNING)) w)"
  have c2: "map core (w_players ?w2) = map core (w_players w)"
    using core_edit [of count_switch_try] core_edit [of "startCooldown w SkSwitch (SWITCH_COOLDOWN_MS SKILL_TUNING)"]
    by simp
  have main: "stage 0 (w_players w) (w_players (switch_roles w (ps_playerId t) n (ps_playerId c) ?w2))"
    if "find_tagger (w_players w) = Some t" "find_player n (w_players w) = Some p" "ps_alive p" for t n p
  proof -
    have "map core (map (assign_tagger a n) ps) = map core (map (assign_tagger a n) qs)"
      if "map core ps = map core qs" for a ps qs
      using core_assign_map [of a n ps] core_assign_map [of a n qs] that by simp
    then show ?thesis
      using stage_core_right [OF stage_assign [OF that]] core_switch_roles c2 by metis
  qed
  show ?thesis
    unfolding useSwitch_def Let_def
    using stage_core [OF c2] main
    by (auto split: option.splits dest: find_player_SomeD)
qed

lemma stage_useSkill: "stage 0 (w_players w) (w_players (fst (snd (useSkill w r es))))"
  unfolding useSkill_def
  using stage_core [OF core_useDash] stage_core [OF core_useFlash] stage_core [OF core_useExhaust] stage_useSwitch
  by (auto split: option.split skill_id.split)

lemma stage_request_skill: "stage 0 (w_players (fst acc)) (w_players (fst (request_skill r acc)))"
proof (cases acc)
  case (fields w es js)
  then show ?thesis
    using stage_useSkill [of w r es]
    by (auto simp: request_skill_def split: prod.splits skill_outcome.splits)
qed

lemma stage_requests: "stage 0 (w_players w) (w_players (fst (apply_requests w rs ms)))"
proof -
  have skills: "stage 0 (w_players (fst acc)) (w_players (fst (fold request_skill rs acc)))" for rs acc
  proof (induction rs arbitrary: acc)
    case Nil
    then show ?case by simp
  next
    case (Cons r rs)
    show ?case using stage_trans0 [OF stage_request_skill Cons] by (simp only: fold_Cons comp_apply)
  qed
  have emojis: "map core (w_players (fold request_emoji ms w)) = map core (w_players w)" for ms w
    by (induction ms arbitrary: w) (simp_all add: core_request_emoji)
  show ?thesis
    using skills [of "(w, [], [])" "sort_key rq_playerId rs"] emojis
    by (auto simp: apply_requests_def Let_def split: prod.splits intro: stage_core_right)
qed

subsection \<open>Tagging\<close>

lemma keeps_id_stats [simp]: "keeps_id (eliminate w)" "keeps_id count_tag" "keeps_id (extendFrenzyOnTag w)"
  by (auto simp: keeps_id_def eliminate_def count_tag_def extendFrenzyOnTag_def applyEffect_def Let_def
      split: option.split)

definition eliminations :: "world_event list \<Rightarrow> nat" where
  "eliminations es = length (filter (\<lambda>e. case e of EvEliminated _ _ \<Rightarrow> True | _ \<Rightarrow> False) es)"

lemma eliminations_append [simp]: "eliminations (es @ fs) = eliminations es + eliminations fs"
  by (simp add: eliminations_def)

lemma evolves_eliminate:
  assumes d: "distinct (map ps_playerId ps)" and v: "find_player vid ps = Some v" "ps_alive v"
    and t: "find_player tid ps = Some t" and ne: "vid \<noteq> tid"
  shows "evolves 1 ps (edit tid count_tag (edit vid (eliminate w) ps))"
proof -
  let ?ps1 = "edit vid (eliminate w) ps"
  have t1: "find_player tid ?ps1 = Some t" using t ne by (simp add: find_player_edit)
  have d1: "distinct (map ps_playerId ?ps1)" using d by (simp add: edit_ids)
  have sums: "tally g (edit tid count_tag ?ps1) = tally g ps + (g (eliminate w v) - g v) + (g (count_tag t) - g t)" for g
    using tally_edit [OF d v(1)] tally_edit [OF d1 t1] by simp
  have "list_all2 (\<lambda>p q. ps_alive q \<longrightarrow> ps_alive p) ps (edit tid count_tag ?ps1)"
    by (simp add: edit_def list_all2_map2 list.rel_refl eliminate_def count_tag_def)
  then show ?thesis
    using v(2) sums by (simp add: evolves_def edit_ids tags_def tagged_def dead_def eliminate_def count_tag_def)
qed

lemma tagger_is_eliminate:
  assumes "tagger_is tid ps" "vid \<noteq> tid"
  shows "tagger_is tid (edit tid count_tag (edit vid (eliminate w) ps))"
proof -
  let ?f = "\<lambda>p. if ps_playerId p = vid then eliminate w p else p"
  let ?g = "\<lambda>p. if ps_playerId p = tid then count_tag p else p"
  have e: "edit tid count_tag (edit vid (eliminate w) ps) = map (\<lambda>p. ?g (?f p)) ps"
    by (simp add: edit_def)
  have f: "ps_playerId (?g (?f p)) = ps_playerId p" "ps_isTagger (?g (?f p)) = ps_isTagger p"
    "ps_playerId p = tid \<Longrightarrow> ps_alive (?g (?f p)) = ps_alive p" for p
    using assms(2) by (simp_all add: eliminate_def count_tag_def)
  have "list_all (\<lambda>p. ps_isTagger p = (ps_playerId p = tid)) (map (\<lambda>p. ?g (?f p)) ps)"
    using assms(1) unfolding tagger_is_def list_all_iff set_map ball_simps f by blast
  moreover have "list_ex (\<lambda>p. ps_playerId p = tid \<and> ps_alive p) (map (\<lambda>p. ?g (?f p)) ps)"
    using assms(1) f(3) unfolding tagger_is_def list_ex_iff set_map bex_simps f(1) by blast
  ultimately show ?thesis unfolding e tagger_is_def by blast
qed

text \<open>A contact pair is a pair of different ids; one of them may be the tagger's.\<close>

lemma stage_tag_pair:
  assumes d: "distinct (map ps_playerId (w_players (fst acc)))"
    and t: "tid \<in> set (map ps_playerId (w_players (fst acc)))" and ne: "fst pair \<noteq> snd pair"
  shows "\<exists>n. evolves n (w_players (fst acc)) (w_players (fst (tag_pair tid pair acc)))
     \<and> eliminations (snd (tag_pair tid pair acc)) = eliminations (snd acc) + n
     \<and> (tagger_is tid (w_players (fst acc)) \<longrightarrow> tagger_is tid (w_players (fst (tag_pair tid pair acc))))"
proof -
  let ?ps = "w_players (fst acc)"
  obtain p where p: "p \<in> set ?ps" "ps_playerId p = tid" using t by auto
  have tp: "find_player tid ?ps = Some p" using find_player_mem [OF d p(1)] p(2) by simp
  show ?thesis
  proof (cases "tag_pair tid pair acc = acc")
    case True
    then show ?thesis using evolves_refl by (intro exI [of _ 0]) simp
  next
    case False
    then obtain vid v where vid: "vid = (if fst pair = tid then snd pair else fst pair)"
      "tid = fst pair \<or> tid = snd pair" "find_player vid ?ps = Some v" "ps_alive v"
      by (auto simp: tag_pair_def Let_def split: if_splits option.splits)
    have other: "vid \<noteq> tid" using vid(1,2) ne by auto
    let ?w2 = "edit_world tid count_tag (edit_world vid (eliminate (fst acc)) (fst acc))"
    let ?w3 = "?w2\<lparr>w_taggerChangedAtTick := w_tick ?w2\<rparr>"
    have res: "tag_pair tid pair acc = (edit_world tid (extendFrenzyOnTag ?w3) ?w3, snd acc @ [EvEliminated vid (Some tid)])"
      using vid by (auto simp: tag_pair_def Let_def)
    have core3: "map core (w_players (fst (tag_pair tid pair acc))) = map core (edit tid count_tag (edit vid (eliminate (fst acc)) ?ps))"
      by (simp add: res core_edit)
    have "evolves 1 ?ps (w_players (fst (tag_pair tid pair acc)))"
      by (rule evolves_core_right [OF evolves_eliminate [OF d vid(3,4) tp other] core3])
    moreover have "tagger_is tid ?ps \<longrightarrow> tagger_is tid (w_players (fst (tag_pair tid pair acc)))"
      using tagger_is_eliminate [OF _ other] tagger_is_core [OF core3] by blast
    moreover have "eliminations (snd (tag_pair tid pair acc)) = eliminations (snd acc) + 1"
      by (simp add: res eliminations_def)
    ultimately show ?thesis by blast
  qed
qed

lemma stage_tag_pairs:
  assumes "distinct (map ps_playerId (w_players (fst acc)))" "tid \<in> set (map ps_playerId (w_players (fst acc)))"
    "\<And>pair. pair \<in> set pairs \<Longrightarrow> fst pair \<noteq> snd pair"
  shows "\<exists>n. evolves n (w_players (fst acc)) (w_players (fst (fold (tag_pair tid) pairs acc)))
     \<and> eliminations (snd (fold (tag_pair tid) pairs acc)) = eliminations (snd acc) + n
     \<and> (tagger_is tid (w_players (fst acc)) \<longrightarrow> tagger_is tid (w_players (fst (fold (tag_pair tid) pairs acc))))"
  using assms
proof (induction pairs arbitrary: acc)
  case Nil
  then show ?case using evolves_refl by (intro exI [of _ 0]) simp
next
  case (Cons pair pairs)
  let ?acc = "tag_pair tid pair acc"
  obtain n where n: "evolves n (w_players (fst acc)) (w_players (fst ?acc))"
    "eliminations (snd ?acc) = eliminations (snd acc) + n"
    "tagger_is tid (w_players (fst acc)) \<longrightarrow> tagger_is tid (w_players (fst ?acc))"
    using stage_tag_pair [OF Cons.prems(1,2)] Cons.prems(3) by (metis list.set_intros(1))
  have ids: "map ps_playerId (w_players (fst ?acc)) = map ps_playerId (w_players (fst acc))"
    using n(1) by (simp add: evolves_def)
  have "\<exists>k. evolves k (w_players (fst ?acc)) (w_players (fst (fold (tag_pair tid) pairs ?acc)))
     \<and> eliminations (snd (fold (tag_pair tid) pairs ?acc)) = eliminations (snd ?acc) + k
     \<and> (tagger_is tid (w_players (fst ?acc)) \<longrightarrow> tagger_is tid (w_players (fst (fold (tag_pair tid) pairs ?acc))))"
    by (rule Cons.IH) (use Cons.prems ids in auto)
  then obtain k where k: "evolves k (w_players (fst ?acc)) (w_players (fst (fold (tag_pair tid) pairs ?acc)))"
     "eliminations (snd (fold (tag_pair tid) pairs ?acc)) = eliminations (snd ?acc) + k"
     "tagger_is tid (w_players (fst ?acc)) \<longrightarrow> tagger_is tid (w_players (fst (fold (tag_pair tid) pairs ?acc)))"
    by blast
  show ?case
  proof (intro exI [of _ "n + k"] conjI)
    show "evolves (n + k) (w_players (fst acc)) (w_players (fst (fold (tag_pair tid) (pair # pairs) acc)))"
      using evolves_trans [OF n(1) k(1)] by simp
    show "eliminations (snd (fold (tag_pair tid) (pair # pairs) acc)) = eliminations (snd acc) + (n + k)"
      using n(2) k(2) by simp
    show "tagger_is tid (w_players (fst acc)) \<longrightarrow> tagger_is tid (w_players (fst (fold (tag_pair tid) (pair # pairs) acc)))"
      using n(3) k(3) by simp
  qed
qed

lemma stage_resolveTagging:
  assumes d: "distinct (map ps_playerId (w_players w))"
    and pairs: "\<And>pair. pair \<in> set pairs \<Longrightarrow> fst pair \<noteq> snd pair"
  shows "\<exists>n. stage n (w_players w) (w_players (fst (resolveTagging w pairs es)))
     \<and> eliminations (snd (resolveTagging w pairs es)) = eliminations es + n"
proof (cases "find_tagger (w_players w)")
  case None
  then show ?thesis by (intro exI [of _ 0]) (simp add: resolveTagging_def)
next
  case (Some t)
  let ?r = "fold (tag_pair (ps_playerId t)) pairs (w, es)"
  have mem: "ps_playerId t \<in> set (map ps_playerId (w_players (fst (w, es))))"
    using find_tagger_SomeD [OF Some] by simp
  obtain n where n: "evolves n (w_players w) (w_players (fst ?r))" "eliminations (snd ?r) = eliminations es + n"
    "tagger_is (ps_playerId t) (w_players w) \<longrightarrow> tagger_is (ps_playerId t) (w_players (fst ?r))"
    using stage_tag_pairs [OF _ mem pairs] d by auto
  have "game_ok (w_players (fst ?r))" if g: "game_ok (w_players w)"
    using n(3) tagger_unique [OF g Some] n(1) d by (auto simp: game_ok_def evolves_def)
  with n Some show ?thesis by (auto simp: resolveTagging_def stage_def)
qed

subsection \<open>Rotation\<close>

lemma nextRandomInt_range: "0 < n \<Longrightarrow> nextRandomInt n w = (i, w') \<Longrightarrow> 0 \<le> i \<and> i < n \<and> w_players w' = w_players w
    \<and> w_tick w' = w_tick w \<and> w_map w' = w_map w \<and> w_simulationHz w' = w_simulationHz w"
proof -
  assume n: "0 < n" and e: "nextRandomInt n w = (i, w')"
  obtain r where r: "i = uint (r :: 32 word) * n div 4294967296"
    using n e by (auto simp: nextRandomInt_def split: prod.splits)
  have "0 \<le> uint r" "uint r < 4294967296" using uint_lt2p [of r] by simp_all
  then have "0 \<le> uint r * n" "uint r * n < 4294967296 * n" using n by simp_all
  then have "0 \<le> i \<and> i < n" unfolding r by (simp add: div_less_iff_less_mult pos_imp_zdiv_nonneg_iff mult.commute)
  moreover have "w_players w' = w_players w \<and> w_tick w' = w_tick w \<and> w_map w' = w_map w \<and> w_simulationHz w' = w_simulationHz w"
    using n e by (auto simp: nextRandomInt_def mulberry32_def Let_def)
  ultimately show "0 \<le> i \<and> i < n \<and> w_players w' = w_players w \<and> w_tick w' = w_tick w \<and> w_map w' = w_map w \<and> w_simulationHz w' = w_simulationHz w"
    by blast
qed

lemma runners_mem: "p \<in> set (rotationCandidates w) \<longleftrightarrow> p \<in> set (w_players w) \<and> ps_alive p \<and> \<not> ps_isTagger p"
  by (auto simp: rotationCandidates_def livingRunners_def)

text \<open>A rotation that happens picks a living runner, makes it the only tagger, and restarts the clock.\<close>

lemma rotate_result:
  assumes stale: "rotation_cooldown_ticks w \<le> w_tick w - w_taggerChangedAtTick w" and r: "rotationCandidates w \<noteq> []"
  obtains q where "q \<in> set (rotationCandidates w)"
    "map core (w_players (fst (rotateTaggerIfStale w es)))
       = map core (map (\<lambda>p. set_tagger (ps_playerId p = ps_playerId q) p) (w_players w))"
    "w_taggerChangedAtTick (fst (rotateTaggerIfStale w es)) = w_tick w"
    "w_tick (fst (rotateTaggerIfStale w es)) = w_tick w"
    "snd (rotateTaggerIfStale w es) = es @ [EvTagged (ps_playerId q) None]"
proof -
  let ?rs = "rotationCandidates w"
  obtain i w1 where iw: "nextRandomInt (int (length ?rs)) w = (i, w1)" by fastforce
  have rng: "0 \<le> i" "i < int (length ?rs)" "w_players w1 = w_players w" "w_tick w1 = w_tick w"
    using nextRandomInt_range [OF _ iw] r by auto
  let ?q = "?rs ! nat i"
  have mem: "?q \<in> set ?rs" using rng(1,2) by (intro nth_mem) linarith
  have ns: "\<not> w_tick w - w_taggerChangedAtTick w < rotation_cooldown_ticks w" using stale by simp
  show ?thesis
    by (rule that [OF mem]) (use ns r iw rng in \<open>simp_all add: rotateTaggerIfStale_def Let_def core_edit comp_def\<close>)
qed

lemma stage_rotate:
  assumes d: "distinct (map ps_playerId (w_players w))"
  shows "stage 0 (w_players w) (w_players (fst (rotateTaggerIfStale w es)))
     \<and> eliminations (snd (rotateTaggerIfStale w es)) = eliminations es"
proof (cases "rotation_cooldown_ticks w \<le> w_tick w - w_taggerChangedAtTick w \<and> rotationCandidates w \<noteq> []")
  case False
  then show ?thesis by (auto simp: rotateTaggerIfStale_def Let_def)
next
  case True
  then obtain q where q: "q \<in> set (rotationCandidates w)"
    and c: "map core (w_players (fst (rotateTaggerIfStale w es)))
       = map core (map (\<lambda>p. set_tagger (ps_playerId p = ps_playerId q) p) (w_players w))"
    and e: "snd (rotateTaggerIfStale w es) = es @ [EvTagged (ps_playerId q) None]"
    using rotate_result [of w es] by blast
  let ?ps = "map (\<lambda>p. set_tagger (ps_playerId p = ps_playerId q) p) (w_players w)"
  have "evolves 0 (w_players w) ?ps"
    by (simp add: evolves_def set_tagger_def tags_def tagged_def dead_def tally_def comp_def list_all2_map2 list.rel_refl)
  moreover have "game_ok ?ps"
    using q d by (auto simp: runners_mem game_ok_def tagger_is_def list_ex_iff list_all_iff set_tagger_def comp_def)
  ultimately have "stage 0 (w_players w) ?ps" by (simp add: stage_def)
  with c e show ?thesis by (auto intro: stage_core_right simp: eliminations_def)
qed

end
