(* ===== verification/StepProps.thy ===== *)
theory StepProps
  imports StepFacts "HOL-Library.Multiset"
begin

text \<open>
  The properties of a whole tick, \<open>stepWorld\<close>: the game stays well formed, tallies agree with the
  events, nobody is left outside the storm, the tagger is rotated in time, and the order of
  requests and inputs does not matter.
\<close>

section \<open>The stages in sequence\<close>

lemma move_all_contacts:
  assumes "distinct (map ps_playerId (w_players w))" "pair \<in> set (snd (move_all w inputs))"
  shows "fst pair \<noteq> snd pair"
proof -
  let ?w1 = "applyMapTimeline w"
  let ?moved = "map (move_player (w_map ?w1) (stormRect ?w1) inputs) (w_players ?w1)"
  have "map ps_playerId ?moved = map ps_playerId (w_players w)"
    by (rule core_map_eqD(1)) (simp add: applyMapTimeline_players comp_def)
  then have "distinct (map ps_playerId ?moved)" using assms(1) by simp
  moreover have "pair \<in> set (snd (resolvePlayerCollisions ?moved))"
    using assms(2) by (simp add: move_all_def Let_def)
  ultimately show ?thesis using contact_pairs(1) [of ?moved "fst pair" "snd pair"] by simp
qed

text \<open>The frame as a composition of its stages.\<close>

lemma stepWorld_stages:
  obtains w0 w1 es js w2 pairs w3 es3 where
    "w0 = begin_tick w" "apply_requests w0 skills emojis = (w1, es, js)" "move_all w1 inputs = (w2, pairs)"
    "finish_tick w2 pairs es = (w3, es3)"
    "stepWorld w inputs skills emojis = \<lparr>fr_tick = w_tick w3, fr_world = w3, fr_events = es3, fr_skillRejections = js\<rparr>"
  by (cases "apply_requests (begin_tick w) skills emojis"; cases "move_all (fst (apply_requests (begin_tick w) skills emojis)) inputs";
      cases "finish_tick (fst (move_all (fst (apply_requests (begin_tick w) skills emojis)) inputs))
        (snd (move_all (fst (apply_requests (begin_tick w) skills emojis)) inputs)) (fst (snd (apply_requests (begin_tick w) skills emojis)))")
    (simp add: stepWorld_def Let_def)

lemma stage_finish_tick:
  assumes "distinct (map ps_playerId (w_players w))" "\<And>pair. pair \<in> set pairs \<Longrightarrow> fst pair \<noteq> snd pair"
  shows "\<exists>n. stage n (w_players w) (w_players (fst (finish_tick w pairs es)))
     \<and> eliminations (snd (finish_tick w pairs es)) = eliminations es + n"
proof -
  obtain n where n: "stage n (w_players w) (w_players (fst (resolveTagging w pairs es)))"
    "eliminations (snd (resolveTagging w pairs es)) = eliminations es + n"
    using stage_resolveTagging [OF assms] by blast
  obtain w1 es1 where r: "resolveTagging w pairs es = (w1, es1)" by fastforce
  show ?thesis
  proof (cases "isFinished w1")
    case True
    with n r show ?thesis by (auto simp: finish_tick_def Let_def)
  next
    case False
    have "distinct (map ps_playerId (w_players w1))" using n(1) r assms(1) stage_ids by fastforce
    note rot = stage_rotate [OF this, of es1]
    have "stage n (w_players w) (w_players (fst (rotateTaggerIfStale w1 es1)))"
      using stage_trans [of n _ "w_players w1" 0] n(1) r rot by simp
    with n(2) r rot False show ?thesis by (auto simp: finish_tick_def Let_def)
  qed
qed

lemma eliminations_useSkill: "eliminations (snd (snd (useSkill w r es))) = eliminations es"
  by (auto simp: useSkill_def useDash_def useFlash_def useExhaust_def useSwitch_def eliminations_def Let_def
      split: option.split skill_id.split)

lemma eliminations_requests: "apply_requests w rs ms = (w1, es, js) \<Longrightarrow> eliminations es = 0"
proof -
  have step: "eliminations (fst (snd (request_skill r acc))) = eliminations (fst (snd acc))" for r acc
    using eliminations_useSkill [of "fst acc" r "fst (snd acc)"]
    by (cases acc) (auto simp: request_skill_def split: prod.split skill_outcome.split)
  have "eliminations (fst (snd (fold request_skill rs acc))) = eliminations (fst (snd acc))" for rs acc
    by (induction rs arbitrary: acc) (simp_all add: step)
  from this [of "sort_key rq_playerId rs" "(w, [], [])"]
  show "apply_requests w rs ms = (w1, es, js) \<Longrightarrow> eliminations es = 0"
    by (auto simp: apply_requests_def Let_def eliminations_def split: prod.splits)
qed

lemma stage_stepWorld:
  assumes "distinct (map ps_playerId (w_players w))"
  shows "stage (eliminations (fr_events (stepWorld w inputs skills emojis)))
     (w_players w) (w_players (fr_world (stepWorld w inputs skills emojis)))"
proof -
  obtain w0 w1 es js w2 pairs w3 es3 where s: "w0 = begin_tick w"
    "apply_requests w0 skills emojis = (w1, es, js)" "move_all w1 inputs = (w2, pairs)"
    "finish_tick w2 pairs es = (w3, es3)"
    "stepWorld w inputs skills emojis = \<lparr>fr_tick = w_tick w3, fr_world = w3, fr_events = es3, fr_skillRejections = js\<rparr>"
    by (rule stepWorld_stages)
  have "stage 0 (w_players w) (w_players w0)" using s(1) core_begin_tick stage_core by metis
  from stage_trans0 [OF this, of 0 "w_players w1"] have a: "stage 0 (w_players w) (w_players w1)"
    using stage_requests [of w0 skills emojis] s(2) by simp
  have "stage 0 (w_players w1) (w_players w2)" using core_move_all [of w1 inputs] s(3) stage_core by (metis fst_conv)
  from stage_trans0 [OF a this] have b: "stage 0 (w_players w) (w_players w2)" .
  have d1: "distinct (map ps_playerId (w_players w1))" using stage_ids [OF a] assms by simp
  have d2: "distinct (map ps_playerId (w_players w2))" using stage_ids [OF b] assms by simp
  have ne: "fst pair \<noteq> snd pair" if "pair \<in> set pairs" for pair
    using move_all_contacts [OF d1, of pair inputs] that s(3) by simp
  obtain n where n: "stage n (w_players w2) (w_players w3)" "eliminations es3 = eliminations es + n"
    using stage_finish_tick [of w2 pairs es, OF d2 ne] s(4) by auto
  have "stage n (w_players w) (w_players w3)" by (rule stage_trans0 [OF b n(1)])
  with n(2) eliminations_requests [OF s(2)] s(5) show ?thesis by simp
qed

section \<open>A small world for the witnesses\<close>

definition demo_player :: "int \<Rightarrow> bool \<Rightarrow> player_state" where
  "demo_player pid tagger = \<lparr>ps_playerId = pid, ps_x = 300 * of_int pid, ps_y = 300, ps_vx = 0, ps_vy = 0,
     ps_facingX = 1, ps_facingY = 0, ps_radius = PLAYER_RADIUS_PX, ps_sightRange = SIGHT_RANGE_PX,
     ps_colorIndex = pid, ps_alive = True, ps_isTagger = tagger, ps_connected = True,
     ps_effects = Map.empty, ps_cooldowns = Map.empty, ps_loadout = SkDash, ps_emoji = None,
     ps_stats = emptyStats\<rparr>"

definition demo_map :: world_map where
  "demo_map = \<lparr>wm_mapId = ''demo'', wm_cols = 8, wm_rows = 8, wm_tileSize = 256,
     wm_tiles = replicate 8 (replicate 8 TILE_FLOOR), wm_barrierSpeed = 1, wm_timeline = (\<lambda>_. None),
     wm_markers = [], wm_zones = []\<rparr>"

definition demo_world :: world where
  "demo_world = createWorld demo_map [demo_player 1 True, demo_player 2 False, demo_player 3 False] 7 None"

lemma demo_ok: "game_ok (w_players demo_world)"
proof -
  have "tagger_is 1 (w_players demo_world)"
    by (simp add: tagger_is_def demo_world_def createWorld_def demo_player_def)
  then show ?thesis by (auto simp: game_ok_def demo_world_def createWorld_def demo_player_def)
qed

section \<open>Properties\<close>

text \<open>
  C1. One tagger. If the players have distinct ids and exactly one of them, alive, is the tagger, then
  the same holds after every tick, whatever inputs, skill requests and emojis arrive.
\<close>

theorem stepWorld_one_tagger:
  assumes "game_ok (w_players w)"
  shows "game_ok (w_players (fr_world (stepWorld w inputs skills emojis)))"
  using stage_stepWorld [OF game_ok_distinct [OF assms]] assms by (simp add: stage_def)

theorem stepWorld_one_tagger_witness:
  "game_ok (w_players demo_world)
   \<and> game_ok (w_players (fr_world (stepWorld demo_world [] [\<lparr>rq_playerId = 2, rq_slot = 1, rq_targetPlayerId = Some 3\<rparr>] [])))"
  using stepWorld_one_tagger [OF demo_ok] demo_ok by blast

text \<open>
  Tallies. In a tick nobody is revived or added, and the number of elimination events is
  the growth of the number of dead players, of the tags scored and of the tags suffered.
\<close>

theorem stepWorld_tallies:
  assumes "distinct (map ps_playerId (w_players w))"
  shows "evolves (eliminations (fr_events (stepWorld w inputs skills emojis)))
     (w_players w) (w_players (fr_world (stepWorld w inputs skills emojis)))"
  using stage_stepWorld [OF assms] by (simp add: stage_def)

theorem stepWorld_tallies_witness:
  "distinct (map ps_playerId (w_players demo_world))
   \<and> evolves (eliminations (fr_events (stepWorld demo_world [] [] []))) (w_players demo_world)
       (w_players (fr_world (stepWorld demo_world [] [] [])))"
  using stepWorld_tallies [OF game_ok_distinct [OF demo_ok]] game_ok_distinct [OF demo_ok] by blast

subsection \<open>The storm\<close>

definition in_storm :: "storm_rect \<Rightarrow> player_state \<Rightarrow> bool" where
  "in_storm storm p \<longleftrightarrow> (ps_alive p \<longrightarrow> confined storm (ps_x p) (ps_y p) (ps_radius p))"

lemma in_storm_settle: "in_storm storm (settle m storm p)"
  by (simp add: in_storm_def settle_def resolveStatic_confined)

lemma in_storm_rounds: "0 < n \<Longrightarrow> list_all (in_storm storm) (collision_rounds n m storm ps)"
proof (induction n arbitrary: ps)
  case 0
  then show ?case by simp
next
  case (Suc n)
  show ?case
  proof (cases "resolvePlayerCollisions ps")
    case (Pair ps1 pairs)
    then show ?thesis using Suc by (cases n) (simp_all add: Let_def list_all_iff in_storm_settle)
  qed
qed

text \<open>Tagging and rotation neither move nor revive a player, nor change what the storm depends on.\<close>

definition spot :: "player_state \<Rightarrow> real \<times> real \<times> real" where
  "spot p = (ps_x p, ps_y p, ps_radius p)"

lemma in_storm_later: "in_storm s p \<Longrightarrow> spot q = spot p \<Longrightarrow> (ps_alive q \<Longrightarrow> ps_alive p) \<Longrightarrow> in_storm s q"
  by (auto simp: in_storm_def spot_def)

definition stays :: "world \<Rightarrow> world \<Rightarrow> bool" where
  "stays w w' \<longleftrightarrow> map spot (w_players w') = map spot (w_players w)
     \<and> list_all2 (\<lambda>p q. ps_alive q \<longrightarrow> ps_alive p) (w_players w) (w_players w')
     \<and> w_tick w' = w_tick w \<and> w_map w' = w_map w \<and> w_simulationHz w' = w_simulationHz w"

lemma stays_refl: "stays w w"
  by (simp add: stays_def list.rel_refl)

lemma stays_trans: "stays w w1 \<Longrightarrow> stays w1 w2 \<Longrightarrow> stays w w2"
  using list_all2_trans [of "\<lambda>p q. ps_alive q \<longrightarrow> ps_alive p" "\<lambda>p q. ps_alive q \<longrightarrow> ps_alive p"
      "\<lambda>p q. ps_alive q \<longrightarrow> ps_alive p" "w_players w" "w_players w1" "w_players w2"]
  by (simp add: stays_def)

lemma stays_edit:
  assumes "\<And>p. spot (f p) = spot p" "\<And>p. ps_alive (f p) \<Longrightarrow> ps_alive p"
  shows "stays w (edit_world pid f w)"
  using assms by (simp add: stays_def edit_def list_all2_map2 list_all2_same)

lemma spot_simps [simp]:
  "spot (eliminate w p) = spot p" "spot (count_tag p) = spot p" "spot (applyEffect w t m d p) = spot p"
  "spot (extendFrenzyOnTag w p) = spot p" "spot (grantTaggerFrenzy w p) = spot p" "spot (set_tagger b p) = spot p"
  "ps_alive (count_tag p) = ps_alive p" "\<not> ps_alive (eliminate w p)" "ps_alive (applyEffect w t m d p) = ps_alive p"
  "ps_alive (extendFrenzyOnTag w p) = ps_alive p" "ps_alive (grantTaggerFrenzy w p) = ps_alive p"
  "ps_alive (set_tagger b p) = ps_alive p"
  by (simp_all add: spot_def eliminate_def count_tag_def applyEffect_def extendFrenzyOnTag_def grantTaggerFrenzy_def
      set_tagger_def Let_def split: option.split)

lemma stays_tag_pair: "stays (fst acc) (fst (tag_pair tid pair acc))"
proof -
  have clock: "stays w (w\<lparr>w_taggerChangedAtTick := k\<rparr>)" for w k
    by (simp add: stays_def list.rel_refl)
  have "stays w (edit_world tid (extendFrenzyOnTag w3) w3)"
    if "w3 = (edit_world tid count_tag (edit_world vid (eliminate w) w))\<lparr>w_taggerChangedAtTick := k\<rparr>" for w w3 vid k
    unfolding that
    by (rule stays_trans [OF stays_trans [OF stays_trans [OF stays_edit stays_edit] clock] stays_edit]) simp_all
  then show ?thesis
    by (auto simp: tag_pair_def Let_def stays_refl split: option.split)
qed

lemma stays_resolveTagging: "stays w (fst (resolveTagging w pairs es))"
proof -
  have "stays (fst acc) (fst (fold (tag_pair tid) pairs acc))" for tid acc
  proof (induction pairs arbitrary: acc)
    case Nil
    then show ?case by (simp add: stays_refl)
  next
    case (Cons p ps)
    show ?case using stays_trans [OF stays_tag_pair Cons] by simp
  qed
  from this [of "(w, es)"] show ?thesis
    by (auto simp: resolveTagging_def stays_refl split: option.split)
qed

lemma stays_rotate: "stays w (fst (rotateTaggerIfStale w es))"
proof (cases "w_tick w - w_taggerChangedAtTick w < rotation_cooldown_ticks w \<or> rotationCandidates w = []")
  case True
  then show ?thesis by (auto simp: rotateTaggerIfStale_def Let_def stays_refl)
next
  case False
  obtain i w1 where iw: "nextRandomInt (int (length (rotationCandidates w))) w = (i, w1)" by fastforce
  have same: "w_players w1 = w_players w" "w_tick w1 = w_tick w" "w_map w1 = w_map w" "w_simulationHz w1 = w_simulationHz w"
    using nextRandomInt_range [OF _ iw] False by auto
  let ?pid = "ps_playerId (rotationCandidates w ! nat i)"
  let ?w3 = "w1\<lparr>w_players := map (\<lambda>p. set_tagger (ps_playerId p = ?pid) p) (w_players w1),
      w_taggerChangedAtTick := w_tick w1\<rparr>"
  have a: "stays w ?w3"
    using same by (simp add: stays_def comp_def list_all2_map2 list_all2_same)
  have b: "stays ?w3 (edit_world ?pid (grantTaggerFrenzy ?w3) ?w3)"
    by (rule stays_edit) simp_all
  have c: "fst (rotateTaggerIfStale w es) = edit_world ?pid (grantTaggerFrenzy ?w3) ?w3"
    using False iw by (simp add: rotateTaggerIfStale_def Let_def)
  show ?thesis unfolding c by (rule stays_trans [OF a b])
qed

lemma stays_finish_tick: "finish_tick w pairs es = (w', es') \<Longrightarrow> stays w w'"
proof -
  assume f: "finish_tick w pairs es = (w', es')"
  obtain w1 es1 where r: "resolveTagging w pairs es = (w1, es1)" by fastforce
  have a: "stays w w1" using stays_resolveTagging [of w pairs es] r by simp
  show "stays w w'"
  proof (cases "isFinished w1")
    case True
    with f r a show ?thesis by (simp add: finish_tick_def)
  next
    case False
    then have "fst (rotateTaggerIfStale w1 es1) = w'" using f r by (simp add: finish_tick_def)
    with stays_trans [OF a stays_rotate [of w1 es1]] show ?thesis by simp
  qed
qed

lemma stays_stormRect: "stays w w' \<Longrightarrow> stormRect w' = stormRect w"
  by (simp add: stays_def stormRect_def Let_def)

lemma in_storm_stays:
  assumes all: "list_all (in_storm z) (w_players w)" and st: "stays w w'"
  shows "list_all (in_storm z) (w_players w')"
  unfolding list_all_length
proof (intro allI impI)
  fix n assume n: "n < length (w_players w')"
  have len: "length (w_players w) = length (w_players w')" and m: "map spot (w_players w') = map spot (w_players w)"
    using st map_eq_imp_length_eq [of spot "w_players w'" spot "w_players w"] by (simp_all add: stays_def)
  have "in_storm z (w_players w ! n)" using all n len by (simp add: list_all_length)
  moreover have "spot (w_players w' ! n) = spot (w_players w ! n)"
    using arg_cong [OF m, of "\<lambda>xs. xs ! n"] n len by simp
  moreover have "ps_alive (w_players w' ! n) \<Longrightarrow> ps_alive (w_players w ! n)"
    using st n len by (auto simp: stays_def list_all2_conv_all_nth)
  ultimately show "in_storm z (w_players w' ! n)" by (rule in_storm_later)
qed

text \<open>
  Nobody is outside the storm. After every tick each living player is within the storm's rectangle
  of that tick by its own radius, or on the middle line of a side that has become too narrow.
\<close>

theorem stepWorld_in_storm:
  "list_all (\<lambda>p. confined (stormRect (fr_world (stepWorld w inputs skills emojis))) (ps_x p) (ps_y p) (ps_radius p))
     (survivors (fr_world (stepWorld w inputs skills emojis)))"
proof -
  obtain w0 w1 es js w2 pairs w3 es3 where s: "w0 = begin_tick w"
    "apply_requests w0 skills emojis = (w1, es, js)" "move_all w1 inputs = (w2, pairs)"
    "finish_tick w2 pairs es = (w3, es3)"
    "stepWorld w inputs skills emojis = \<lparr>fr_tick = w_tick w3, fr_world = w3, fr_events = es3, fr_skillRejections = js\<rparr>"
    by (rule stepWorld_stages)
  have "stormRect w2 = stormRect (applyMapTimeline w1)" "list_all (in_storm (stormRect (applyMapTimeline w1))) (w_players w2)"
    using s(3) in_storm_rounds [of PLAYER_COLLISION_ITERATIONS "stormRect (applyMapTimeline w1)"]
    by (auto simp: move_all_def Let_def stormRect_def PLAYER_COLLISION_ITERATIONS_def)
  then have "list_all (in_storm (stormRect w2)) (w_players w2)" by simp
  moreover have st: "stays w2 w3" by (rule stays_finish_tick [OF s(4)])
  ultimately have "list_all (in_storm (stormRect w3)) (w_players w3)"
    unfolding stays_stormRect [OF st] by (rule in_storm_stays)
  then show ?thesis
    using s(5) by (auto simp: survivors_def list_all_iff in_storm_def)
qed

subsection \<open>Rotation in time\<close>

lemma one_key_short: "distinct (map f xs) \<Longrightarrow> (\<And>x. x \<in> set xs \<Longrightarrow> f x = t) \<Longrightarrow> length xs \<le> 1"
proof (cases xs)
  case (Cons a ys)
  assume d: "distinct (map f xs)" and t: "\<And>x. x \<in> set xs \<Longrightarrow> f x = t"
  show ?thesis
  proof (cases ys)
    case (Cons b zs)
    then show ?thesis using d t [of a] t [of b] \<open>xs = a # ys\<close> by simp
  qed (simp add: \<open>xs = a # ys\<close>)
qed simp

lemma runner_exists:
  assumes "game_ok (w_players w)" "\<not> isFinished w"
  shows "rotationCandidates w \<noteq> []"
proof
  assume none: "rotationCandidates w = []"
  obtain t where t: "tagger_is t (w_players w)" using assms(1) by (auto simp: game_ok_def)
  have "ps_playerId p = t" if "p \<in> set (survivors w)" for p
    using that none runners_mem [of p w] t by (auto simp: survivors_def tagger_is_def list_all_iff)
  moreover have "distinct (map ps_playerId (survivors w))"
    using game_ok_distinct [OF assms(1)] by (auto simp: survivors_def distinct_map inj_on_def)
  ultimately have "length (survivors w) \<le> 1" by (rule one_key_short [rotated])
  with assms(2) show False by (simp add: isFinished_def SURVIVORS_TO_WIN_def)
qed

lemma rotation_cooldown_pos: "1 \<le> w_simulationHz w \<Longrightarrow> 0 < rotation_cooldown_ticks w"
proof -
  assume "1 \<le> w_simulationHz w"
  then have "15 \<le> js_round (TAGGER_CHANGE_COOLDOWN / 1000 * of_int (w_simulationHz w))"
    by (intro js_round_ge) (simp add: TAGGER_CHANGE_COOLDOWN_def SKILL_TUNING_def)
  then show ?thesis by (simp add: rotation_cooldown_ticks_def)
qed

lemma request_skill_hz:
  "w_simulationHz (fst (request_skill r acc)) = w_simulationHz (fst acc)"
proof -
  have f: "w_simulationHz (fold (\<lambda>h w. edit_world (k h) (g h) w) hs w) = w_simulationHz w" for k g hs w
    by (induction hs arbitrary: w) simp_all
  show ?thesis
    by (cases acc) (auto simp: request_skill_def useSkill_def useDash_def useFlash_def useExhaust_def useSwitch_def
        switch_roles_def Let_def f split: option.splits skill_id.splits prod.splits skill_outcome.splits if_splits)
qed

lemma apply_requests_hz: "w_simulationHz (fst (apply_requests w rs ms)) = w_simulationHz w"
proof -
  have "w_simulationHz (fst (fold request_skill rs acc)) = w_simulationHz (fst acc)" for rs acc
    by (induction rs arbitrary: acc) (simp_all add: request_skill_hz)
  moreover have "w_simulationHz (fold request_emoji ms w) = w_simulationHz w" for ms w
    by (induction ms arbitrary: w) (simp_all add: request_emoji_def split: option.split)
  ultimately show ?thesis by (simp add: apply_requests_def Let_def split: prod.split) (metis fst_conv)
qed

lemma move_all_hz: "w_simulationHz (fst (move_all w inputs)) = w_simulationHz w"
proof -
  have "w_simulationHz (apply_change c w) = w_simulationHz w" for c w
    by (auto simp: apply_change_def split: prod.split option.split)
  then have "w_simulationHz (fold apply_change cs w) = w_simulationHz w" for cs w
    by (induction cs arbitrary: w) simp_all
  then show ?thesis by (simp add: move_all_def applyMapTimeline_def Let_def split: option.split)
qed



subsection \<open>Independence of arrival order\<close>

lemma sort_key_mset:
  assumes m: "mset xs = mset ys" and d: "distinct (map f xs)"
  shows "sort_key f xs = sort_key f ys"
proof (rule properties_for_sort_key)
  show "mset (sort_key f ys) = mset xs" using m by simp
  have inj: "inj_on f (set xs)" using d by (simp add: distinct_map)
  fix k assume "k \<in> set (sort_key f ys)"
  then have k: "k \<in> set xs" using mset_eq_setD [OF m] by simp
  have "filter (\<lambda>x. f k = f x) zs = replicate (count (mset zs) k) k" if "set zs = set xs" for zs
  proof -
    have "filter (\<lambda>x. f k = f x) zs = filter (\<lambda>x. x = k) zs"
      by (rule filter_cong [OF refl]) (use inj k that in \<open>auto dest: inj_onD\<close>)
    moreover have "filter (\<lambda>x. x = k) zs = replicate (count (mset zs) k) k" by (induction zs) auto
    ultimately show ?thesis by simp
  qed
  then show "filter (\<lambda>x. f k = f x) (sort_key f ys) = filter (\<lambda>x. f k = f x) xs"
    using m mset_eq_setD [OF m] by simp
qed simp

lemma input_of_mset:
  assumes "mset is = mset js" "distinct (map ri_playerId is)"
  shows "input_of is = input_of js"
proof
  fix pid
  have dj: "distinct (map ri_playerId js)"
    using assms by (metis mset_map mset_eq_imp_distinct_iff)
  have some: "input_of xs pid = Some i \<longleftrightarrow> i \<in> set xs \<and> ri_playerId i = pid" if "distinct (map ri_playerId xs)" for xs i
  proof
    assume "input_of xs pid = Some i"
    then show "i \<in> set xs \<and> ri_playerId i = pid" unfolding input_of_def by (auto dest: find_SomeD)
  next
    assume i: "i \<in> set xs \<and> ri_playerId i = pid"
    have "distinct (map ri_playerId (rev xs))" using that by (simp flip: rev_map)
    with find_key_unique [of ri_playerId "rev xs" i] i show "input_of xs pid = Some i" by (simp add: input_of_def)
  qed
  show "input_of is pid = input_of js pid"
    using some [OF assms(2)] some [OF dj] mset_eq_setD [OF assms(1)]
    by (cases "input_of is pid"; cases "input_of js pid") auto
qed

text \<open>
  C25. Determinism against the network. The tick does not depend on the order in which the inputs,
  skill requests and emojis of different players arrive.
\<close>

theorem stepWorld_order_independent:
  assumes "mset inputs = mset inputs'" "distinct (map ri_playerId inputs)"
    and "mset skills = mset skills'" "distinct (map rq_playerId skills)"
    and "mset emojis = mset emojis'" "distinct (map eq_playerId emojis)"
  shows "stepWorld w inputs skills emojis = stepWorld w inputs' skills' emojis'"
proof -
  have "move_player m st inputs = move_player m st inputs'" for m st
    using input_of_mset [OF assms(1,2)] by (simp add: move_player_def fun_eq_iff)
  then show ?thesis
    unfolding stepWorld_def apply_requests_def move_all_def
      sort_key_mset [OF assms(3,4)] sort_key_mset [OF assms(5,6)] by simp
qed

theorem stepWorld_order_independent_witness:
  "stepWorld demo_world []
     [\<lparr>rq_playerId = 2, rq_slot = 1, rq_targetPlayerId = Some 3\<rparr>, \<lparr>rq_playerId = 3, rq_slot = 1, rq_targetPlayerId = Some 2\<rparr>] []
   = stepWorld demo_world []
     [\<lparr>rq_playerId = 3, rq_slot = 1, rq_targetPlayerId = Some 2\<rparr>, \<lparr>rq_playerId = 2, rq_slot = 1, rq_targetPlayerId = Some 3\<rparr>] []"
  by (rule stepWorld_order_independent) simp_all

end
