(* ===== verification/SessionProps.thy ===== *)
theory SessionProps
  imports Session StepProps RoomProps
begin

text \<open>
  The life of a match (theory \<open>Session\<close>) under every interleaving of ticks, publications, requests, disconnections and room
  operations: the result is made at most once, by winners the room accepts, and the match ends.
\<close>

section \<open>What a session does to its room\<close>

text \<open>The calls of a tick into the room change neither its phase nor the players locked in at the start.\<close>

definition same_game :: "room \<Rightarrow> room \<Rightarrow> bool" where
  "same_game r r' \<longleftrightarrow> room_state r' = room_state r \<and> locked_players r' = locked_players r"

lemma same_game_refl [simp]: "same_game r r"
  by (simp add: same_game_def)

lemma same_game_trans: "same_game r s \<Longrightarrow> same_game s t \<Longrightarrow> same_game r t"
  by (simp add: same_game_def)

lemma same_game_out: "same_game r (r\<lparr>rm_out := x\<rparr>)" "same_game r (r\<lparr>rm_roster := y\<rparr>)"
  by (simp_all add: same_game_def room_state_def locked_players_def)

lemma same_game_send [simp]: "same_game r (send_to P msg r)" "same_game r (emit x r)" "same_game r (update u f r)"
  by (simp_all add: send_to_def emit_def update_def same_game_out)

lemma same_game_lobby [simp]: "same_game r (broadcastLobbyState e r)"
  by (simp add: broadcastLobbyState_def split: option.split)

lemma same_game_current [simp]: "same_game r (broadcastCurrentGame msg r)"
  by (simp add: broadcastCurrentGame_def)

lemma same_game_calls [simp]:
  "same_game r (broadcastTagged i by' r)" "same_game r (broadcastBlinked i x y see r)"
  "same_game r (broadcastSkillArea k i x y t see r)"
  by (simp_all add: broadcastTagged_def broadcastBlinked_def broadcastSkillArea_def broadcastToViewers_def)

lemma same_game_eliminated [simp]: "same_game r (snd (markEliminated e i by' r))"
proof -
  have "same_game r (markEliminatedMember e u j by' r)" for u j
    unfolding markEliminatedMember_def Let_def
    by (intro same_game_trans [OF same_game_trans [OF same_game_trans [OF same_game_send(3) same_game_current] same_game_current] same_game_lobby])
  then show ?thesis by (simp add: markEliminated_def split: option.split)
qed

lemma same_game_rejected [simp]: "same_game r (sendRejection x r)"
  by (simp add: sendRejection_def sendSkillRejected_def split: option.split)

lemma same_game_event [simp]: "same_game r (applyEvent e s event r)"
  by (simp add: applyEvent_def Let_def split: world_event.split)

lemma same_game_fold: "(\<And>x r. same_game r (f x r)) \<Longrightarrow> same_game r (fold f xs r)"
  by (induction xs arbitrary: r) (auto intro: same_game_trans)

section \<open>The end\<close>

lemma winners_sorted: "sort (confirmedWinnerIds s) = confirmedWinnerIds s" "distinct (confirmedWinnerIds s)" "sorted (confirmedWinnerIds s)"
  by (simp_all add: confirmedWinnerIds_def sorted_sort_id)

lemma winners_iff:
  "i \<in> set (confirmedWinnerIds s) \<longleftrightarrow>
     (\<exists>p \<in> set (w_players (gx_world s)). ps_playerId p = i \<and> ps_alive p \<and> js_has (gx_identities s) i)"
  by (auto simp: confirmedWinnerIds_def)

text \<open>Every participant of the match is among the players that the room locked in.\<close>

definition seated :: "game_session \<Rightarrow> room \<Rightarrow> bool" where
  "seated s r \<longleftrightarrow> (\<forall>i \<in> set (map ps_playerId (w_players (gx_world s))). js_has (gx_identities s) i \<longrightarrow> i \<in> set (locked_players r))"

lemma finishGame_seated:
  assumes "seated s r"
  shows "finishGame e (confirmedWinnerIds s) r = Inr (False, r) \<and> room_state r \<noteq> Playing
    \<or> (\<exists>r'. finishGame e (confirmedWinnerIds s) r = Inr (True, r')) \<and> room_state r = Playing"
proof -
  have "\<forall>w \<in> set (confirmedWinnerIds s). w \<in> set (locked_players r)"
    using assms by (auto simp: winners_iff seated_def)
  then show ?thesis by (auto simp: finishGame_def winners_sorted Let_def list_all_iff)
qed

lemma startFinish_seated:
  assumes "seated s r"
  obtains f c r' where "startFinish e s r = (s\<lparr>gx_finishing := f, gx_recorder := c\<rparr>, r')"
    "f = (if room_state r = Playing then Some (confirmedWinnerIds s) else gx_finishing s)"
proof -
  consider (late) "finishGame e (confirmedWinnerIds s) r = Inr (False, r)" "room_state r \<noteq> Playing"
    | (now) r1 where "finishGame e (confirmedWinnerIds s) r = Inr (True, r1)" "room_state r = Playing"
    using finishGame_seated [OF assms, of e] by blast
  then show thesis
  proof cases
    case late
    then show ?thesis
      by (intro that [where f = "gx_finishing s" and c = "call (RcAbort ''room-already-finished'') (gx_recorder s)" and r' = r])
        (simp_all add: startFinish_def Let_def on_recorder_def)
  next
    case (now r1)
    then show ?thesis
      by (intro that [where f = "Some (confirmedWinnerIds s)" and c = "call (RcFinish (w_tick (gx_world s))) (gx_recorder s)" and r' = r1])
        (simp_all add: startFinish_def Let_def on_recorder_def)
  qed
qed

section \<open>The life of a match\<close>

text \<open>
  One call into a session, or one operation of its room by somebody else. While the match runs, those keep the players locked
  in: the room replaces its start snapshot only when it starts from \<open>Waiting\<close> or returns to the lobby.
\<close>

inductive match_step :: "(string \<Rightarrow> byte list) \<Rightarrow> game_session \<times> room \<Rightarrow> game_session \<times> room \<Rightarrow> bool"
  for utf8 :: "string \<Rightarrow> byte list" where
  tick: "session_step utf8 e s r = Some (fr, s', r') \<Longrightarrow> match_step utf8 (s, r) (s', r')"
| publish: "match_step utf8 (s, r) (publish utf8 buffered fr s r, r)"
| skill: "match_step utf8 (s, r) (session_queueSkill rq s, r)"
| emoji: "match_step utf8 (s, r) (session_queueEmoji eq s, r)"
| full: "match_step utf8 (s, r) (session_requestFull i s, r)"
| respawn: "match_step utf8 (s, r) (snd (session_respawn i s), r)"
| gone: "eliminateDisconnected utf8 e i s r = (b, s', r') \<Longrightarrow> match_step utf8 (s, r) (s', r')"
| stored: "match_step utf8 (s, r) (finishDone now handle s, r)"
| stop: "match_step utf8 (s, r) (stop_session s, r)"
| room: "gx_finished s \<or> locked_players r' = locked_players r \<Longrightarrow> match_step utf8 (s, r) (s, r')"

inductive_cases match_stepE: "match_step utf8 (s, r) (s', r')"

abbreviation match_run :: "(string \<Rightarrow> byte list) \<Rightarrow> game_session \<times> room \<Rightarrow> game_session \<times> room \<Rightarrow> bool" where
  "match_run utf8 \<equiv> (match_step utf8)\<^sup>*\<^sup>*"

fun is_result :: "session_effect \<Rightarrow> bool" where
  "is_result (MatchFinished _) = True"
| "is_result _ = False"

fun is_crash :: "session_effect \<Rightarrow> bool" where
  "is_crash (Violated v) = (vs_kind v = VBadState)"
| "is_crash _ = False"

definition results_of :: "game_session \<Rightarrow> session_effect list" where
  "results_of s = filter is_result (gx_out s)"

text \<open>What a result must be: its winners are the living participants in ascending order, each with a row of the result.\<close>

definition result_ok :: "game_session \<Rightarrow> match_result \<Rightarrow> bool" where
  "result_ok s m \<longleftrightarrow> mr_winnerPlayerIds m = confirmedWinnerIds s \<and> mr_matchId m = gx_matchId s
     \<and> mr_players m = map (participant_result_of s) (filter (\<lambda>p. js_has (gx_identities s) (ps_playerId p)) (w_players (gx_world s)))"

definition match_inv :: "game_session \<Rightarrow> room \<Rightarrow> bool" where
  "match_inv s r \<longleftrightarrow> gx_mode s = MatchMode \<and> gx_training s = None
     \<and> (gx_finished s \<or> game_ok (w_players (gx_world s)) \<and> seated s r \<and> \<not> matchHasEnded s
          \<and> gx_finishing s = None \<and> results_of s = [])
     \<and> (\<forall>w. gx_finishing s = Some w \<longrightarrow> w = confirmedWinnerIds s \<and> results_of s = [])
     \<and> (results_of s = [] \<or> (\<exists>m. results_of s = [MatchFinished m] \<and> result_ok s m))
     \<and> \<not> list_ex is_crash (gx_out s)"

lemma match_invD:
  assumes "match_inv s r"
  shows "gx_mode s = MatchMode" "gx_training s = None" "\<not> list_ex is_crash (gx_out s)"
    "\<not> gx_finished s \<Longrightarrow> game_ok (w_players (gx_world s)) \<and> seated s r \<and> \<not> matchHasEnded s \<and> gx_finishing s = None \<and> results_of s = []"
  using assms by (auto simp: match_inv_def)

lemma participant_result_cong:
  "gx_identities s' = gx_identities s \<Longrightarrow> gx_world s' = gx_world s \<Longrightarrow> participant_result_of s' = participant_result_of s"
  by (rule ext) (simp only: participant_result_of_def)

text \<open>The parts of a session that the invariant reads.\<close>

lemma match_inv_cong:
  assumes "gx_mode s' = gx_mode s" "gx_training s' = gx_training s" "gx_finished s' = gx_finished s" "gx_world s' = gx_world s"
    "gx_finishing s' = gx_finishing s" "gx_identities s' = gx_identities s" "gx_matchId s' = gx_matchId s"
    "gx_maxDurationTicks s' = gx_maxDurationTicks s" "results_of s' = results_of s"
    "list_ex is_crash (gx_out s') = list_ex is_crash (gx_out s)" "locked_players r' = locked_players r"
  shows "match_inv s' r' = match_inv s r"
proof -
  have w: "confirmedWinnerIds s' = confirmedWinnerIds s" by (simp add: confirmedWinnerIds_def assms)
  have p: "participant_result_of s' = participant_result_of s" by (rule participant_result_cong) (simp_all add: assms)
  have e: "matchHasEnded s' = matchHasEnded s" by (simp add: matchHasEnded_def assms)
  have q: "seated s' r' = seated s r" by (simp add: seated_def assms)
  have "result_ok s' m = result_ok s m" for m by (simp add: result_ok_def w p assms)
  then show ?thesis by (simp add: match_inv_def w e q assms)
qed

text \<open>The session just finished: from here on the world stands still.\<close>

lemma match_inv_finished:
  assumes "gx_mode s = MatchMode" "gx_training s = None" "gx_finished s" "gx_finishing s = None" "results_of s = []"
    "\<not> list_ex is_crash (gx_out s)" "seated s r"
  shows "startFinish e s r = (s', r') \<Longrightarrow> match_inv s' r' \<and> gx_finished s'"
proof -
  assume fin: "startFinish e s r = (s', r')"
  obtain f c r1 where eq: "startFinish e s r = (s\<lparr>gx_finishing := f, gx_recorder := c\<rparr>, r1)"
    and f: "f = (if room_state r = Playing then Some (confirmedWinnerIds s) else gx_finishing s)"
    by (rule startFinish_seated [OF assms(7)])
  have s': "s' = s\<lparr>gx_finishing := f, gx_recorder := c\<rparr>" using eq fin by simp
  have w: "confirmedWinnerIds s' = confirmedWinnerIds s" by (simp add: confirmedWinnerIds_def s')
  have o': "results_of s' = []" "gx_out s' = gx_out s" using assms(5) by (simp_all add: results_of_def s')
  show ?thesis
    unfolding match_inv_def w o' using assms f by (auto simp: s' split: if_splits)
qed

lemma gather_match: "gx_training s = None \<Longrightarrow>
    gather s r = Some (resolvedInputs r, gx_pendingSkills s, js_values (gx_pendingEmojis s), gx_world s, None)"
  by (simp add: gather_def)

lemma seated_cong:
  "map ps_playerId (w_players (gx_world s')) = map ps_playerId (w_players (gx_world s)) \<Longrightarrow> gx_identities s' = gx_identities s
     \<Longrightarrow> locked_players r' = locked_players r \<Longrightarrow> seated s' r' = seated s r"
  unfolding seated_def by simp

lemma frame_world_same: "fr\<lparr>fr_world := fr_world fr\<rparr> = fr"
  by (cases fr) simp

text \<open>A tick of a running match, in one equation.\<close>

lemma match_tick:
  fixes s :: game_session and r :: room
  assumes "gx_training s = None" "\<not> gx_finished s"
  defines "fr \<equiv> stepWorld (gx_world s) (resolvedInputs r) (gx_pendingSkills s) (js_values (gx_pendingEmojis s))"
  obtains s2 r2 where
    "session_step utf8 e s r = Some (Some fr,
       if gx_mode s = MatchMode \<and> matchHasEnded s2
       then startFinish e (on_recorder (recordFinalFrame utf8 fr (w_tileChanges (fr_world fr))) (s2\<lparr>gx_finished := True\<rparr>)) r2
       else (s2, r2))"
    "same_game r r2"
    "s2 = s\<lparr>gx_pendingSkills := [], gx_pendingEmojis := js_empty,
       gx_pendingTileChanges := gx_pendingTileChanges s @ w_tileChanges (fr_world fr), gx_world := fr_world fr, gx_training := None,
       gx_recorder := recordEvents (fr_tick fr) (fr_events fr) (gx_recorder s)\<rparr>"
proof -
  let ?s1 = "s\<lparr>gx_pendingSkills := [], gx_pendingEmojis := js_empty, gx_world := fr_world fr, gx_training := None,
       gx_pendingTileChanges := gx_pendingTileChanges s @ w_tileChanges (fr_world fr)\<rparr>"
  let ?r2 = "fold (applyEvent e ?s1) (fr_events fr) (fold sendRejection (fr_skillRejections fr) r)"
  have g: "same_game r ?r2"
    by (rule same_game_trans [OF same_game_fold [OF same_game_rejected] same_game_fold [OF same_game_event]])
  show thesis
    by (rule that [OF _ g refl])
      (simp add: session_step_def assms(1,2) gather_match fr_def [symmetric] Let_def on_recorder_def case_prod_beta frame_world_same)
qed

text \<open>The same for a match that satisfies the invariant: the tick leaves it well formed and seated.\<close>

lemma match_tick_seated:
  fixes s :: game_session and r :: room
  assumes inv: "match_inv s r" and run: "\<not> gx_finished s"
  defines "fr \<equiv> stepWorld (gx_world s) (resolvedInputs r) (gx_pendingSkills s) (js_values (gx_pendingEmojis s))"
  obtains s2 r2 where
    "session_step utf8 e s r = Some (Some fr,
       if matchHasEnded s2
       then startFinish e (on_recorder (recordFinalFrame utf8 fr (w_tileChanges (fr_world fr))) (s2\<lparr>gx_finished := True\<rparr>)) r2
       else (s2, r2))"
    "same_game r r2" "game_ok (w_players (fr_world fr))" "seated s2 r2"
    "s2 = s\<lparr>gx_pendingSkills := [], gx_pendingEmojis := js_empty,
       gx_pendingTileChanges := gx_pendingTileChanges s @ w_tileChanges (fr_world fr), gx_world := fr_world fr, gx_training := None,
       gx_recorder := recordEvents (fr_tick fr) (fr_events fr) (gx_recorder s)\<rparr>"
proof -
  note I = match_invD [OF inv] and J = match_invD(4) [OF inv run]
  obtain s2 r2 where eq: "session_step utf8 e s r = Some (Some fr,
       if gx_mode s = MatchMode \<and> matchHasEnded s2
       then startFinish e (on_recorder (recordFinalFrame utf8 fr (w_tileChanges (fr_world fr))) (s2\<lparr>gx_finished := True\<rparr>)) r2
       else (s2, r2))"
    and g: "same_game r r2"
    and s2: "s2 = s\<lparr>gx_pendingSkills := [], gx_pendingEmojis := js_empty,
       gx_pendingTileChanges := gx_pendingTileChanges s @ w_tileChanges (fr_world fr), gx_world := fr_world fr, gx_training := None,
       gx_recorder := recordEvents (fr_tick fr) (fr_events fr) (gx_recorder s)\<rparr>"
    unfolding fr_def by (rule match_tick [OF I(2) run])
  have stg: "stage (eliminations (fr_events fr)) (w_players (gx_world s)) (w_players (fr_world fr))"
    unfolding fr_def using stage_stepWorld J game_ok_distinct by blast
  have ok: "game_ok (w_players (fr_world fr))" using stg J by (simp add: stage_def)
  have "map ps_playerId (w_players (gx_world s2)) = map ps_playerId (w_players (gx_world s))" "gx_identities s2 = gx_identities s"
    by (simp_all add: s2 stage_ids [OF stg])
  then have seat: "seated s2 r2" using J g seated_cong [of s2 s r2 r] by (simp add: same_game_def)
  show thesis by (rule that [OF _ g ok seat s2]) (use eq I(1) in simp)
qed

lemma seated_recorder: "seated (on_recorder f (s\<lparr>gx_finished := b\<rparr>)) r = seated s r"
  by (rule seated_cong) (simp_all add: on_recorder_def)

lemma step_match_inv:
  assumes inv: "match_inv s r" and step: "session_step utf8 e s r = Some (fr, s', r')"
  shows "match_inv s' r'"
proof (cases "gx_finished s")
  case True
  then show ?thesis using inv step by (simp add: session_step_def)
next
  case False
  note I = match_invD [OF inv] and J = match_invD(4) [OF inv False]
  define fw where "fw = stepWorld (gx_world s) (resolvedInputs r) (gx_pendingSkills s) (js_values (gx_pendingEmojis s))"
  obtain s2 r2 where eq: "session_step utf8 e s r = Some (Some fw,
       if matchHasEnded s2
       then startFinish e (on_recorder (recordFinalFrame utf8 fw (w_tileChanges (fr_world fw))) (s2\<lparr>gx_finished := True\<rparr>)) r2
       else (s2, r2))"
    and "same_game r r2" and ok: "game_ok (w_players (fr_world fw))" and seat: "seated s2 r2"
    and s2: "s2 = s\<lparr>gx_pendingSkills := [], gx_pendingEmojis := js_empty,
       gx_pendingTileChanges := gx_pendingTileChanges s @ w_tileChanges (fr_world fw), gx_world := fr_world fw, gx_training := None,
       gx_recorder := recordEvents (fr_tick fw) (fr_events fw) (gx_recorder s)\<rparr>"
    unfolding fw_def by (rule match_tick_seated [OF inv False])
  have out: "results_of s2 = []" "gx_finishing s2 = None" "gx_out s2 = gx_out s" using J by (simp_all add: results_of_def s2)
  show ?thesis
  proof (cases "matchHasEnded s2")
    case True
    let ?s3 = "on_recorder (recordFinalFrame utf8 fw (w_tileChanges (fr_world fw))) (s2\<lparr>gx_finished := True\<rparr>)"
    have fin: "startFinish e ?s3 r2 = (s', r')" using eq step True by simp
    have "seated ?s3 r2" using seat by (simp only: seated_recorder)
    from match_inv_finished [OF _ _ _ _ _ _ this fin] show ?thesis
      using I out by (simp add: s2 on_recorder_def results_of_def)
  next
    case False
    then have "s' = s2" "r' = r2" using eq step by simp_all
    then show ?thesis
      using I ok seat out False by (simp add: match_inv_def) (simp add: s2)
  qed
qed

text \<open>A tick that finishes the match ends in \<open>startFinish\<close>.\<close>

lemma tick_finishes:
  assumes inv: "match_inv s r" and step: "session_step utf8 e s r = Some (fr, s', r')" and fin: "\<not> gx_finished s" "gx_finished s'"
  obtains s3 r2 where "startFinish e s3 r2 = (s', r')" "seated s3 r2"
proof -
  define fw where "fw = stepWorld (gx_world s) (resolvedInputs r) (gx_pendingSkills s) (js_values (gx_pendingEmojis s))"
  obtain s2 r2 where eq: "session_step utf8 e s r = Some (Some fw,
       if matchHasEnded s2
       then startFinish e (on_recorder (recordFinalFrame utf8 fw (w_tileChanges (fr_world fw))) (s2\<lparr>gx_finished := True\<rparr>)) r2
       else (s2, r2))"
    and "same_game r r2" "game_ok (w_players (fr_world fw))" and seat: "seated s2 r2"
    and s2: "s2 = s\<lparr>gx_pendingSkills := [], gx_pendingEmojis := js_empty,
       gx_pendingTileChanges := gx_pendingTileChanges s @ w_tileChanges (fr_world fw), gx_world := fr_world fw, gx_training := None,
       gx_recorder := recordEvents (fr_tick fw) (fr_events fw) (gx_recorder s)\<rparr>"
    unfolding fw_def by (rule match_tick_seated [OF inv fin(1)])
  show thesis
  proof (cases "matchHasEnded s2")
    case True
    let ?s3 = "on_recorder (recordFinalFrame utf8 fw (w_tileChanges (fr_world fw))) (s2\<lparr>gx_finished := True\<rparr>)"
    show thesis
    proof (rule that)
      show "startFinish e ?s3 r2 = (s', r')" using eq True step by simp
      show "seated ?s3 r2" using seat by (simp only: seated_recorder)
    qed
  next
    case False
    then have "s' = s2" using eq step by simp
    with fin show thesis by (simp add: s2)
  qed
qed

section \<open>A participant leaves\<close>

lemma eliminated_now_simps [simp]:
  "ps_playerId (eliminated_now t p) = ps_playerId p" "ps_isTagger (eliminated_now t p) = ps_isTagger p"
  "ps_alive (eliminated_now t p) = False"
  by (simp_all add: eliminated_now_def)

lemma edit_same_ids: "(\<And>p. ps_playerId (f p) = ps_playerId p) \<Longrightarrow> map ps_playerId (edit i f ps) = map ps_playerId ps"
  by (rule edit_map)

text \<open>Whoever leaves, the tagger is still the only one, or nobody living has the role.\<close>

lemma tagger_left:
  assumes "tagger_is t ps"
  shows "i \<noteq> t \<Longrightarrow> tagger_is t (edit i (eliminated_now k) ps)"
    "list_ex (\<lambda>p. ps_alive p \<and> ps_isTagger p) (edit i (eliminated_now k) ps) \<Longrightarrow> i \<noteq> t"
proof -
  have all: "ps_isTagger q = (ps_playerId q = t)" if "q \<in> set (edit i (eliminated_now k) ps)" for q
  proof -
    obtain p where p: "p \<in> set ps" "q = (if ps_playerId p = i then eliminated_now k p else p)"
      using \<open>q \<in> _\<close> unfolding edit_def by auto
    have "ps_isTagger q = ps_isTagger p" "ps_playerId q = ps_playerId p" unfolding p(2) by simp_all
    with assms p(1) show ?thesis by (simp add: tagger_is_def list_all_iff)
  qed
  have left: "\<not> ps_alive q" if "q \<in> set (edit i (eliminated_now k) ps)" "ps_playerId q = i" for q
  proof -
    obtain p where p: "q = (if ps_playerId p = i then eliminated_now k p else p)"
      using \<open>q \<in> _\<close> unfolding edit_def set_map by blast
    with that(2) have "ps_playerId p = i" by (cases "ps_playerId p = i") simp_all
    with p show ?thesis by simp
  qed
  {
    assume "i \<noteq> t"
    obtain p where p: "p \<in> set ps" "ps_playerId p = t" "ps_alive p" using assms by (auto simp: tagger_is_def list_ex_iff)
    then have "p \<in> set (edit i (eliminated_now k) ps)" using \<open>i \<noteq> t\<close> unfolding edit_def set_map by (intro image_eqI [of _ _ p]) simp_all
    then show "tagger_is t (edit i (eliminated_now k) ps)"
      unfolding tagger_is_def list_ex_iff list_all_iff using p(2,3) all by blast
  }
  {
    assume "list_ex (\<lambda>p. ps_alive p \<and> ps_isTagger p) (edit i (eliminated_now k) ps)"
    then obtain q where "q \<in> set (edit i (eliminated_now k) ps)" "ps_alive q" "ps_isTagger q" by (auto simp: list_ex_iff)
    with all left show "i \<noteq> t" by blast
  }
qed

text \<open>A replacement is a living runner, and the only tagger from then on.\<close>

lemma replace_tagger_ok:
  assumes "rotationCandidates (gx_world s) \<noteq> []" "distinct (map ps_playerId (w_players (gx_world s)))"
  obtains w picked where "replace_tagger s = (s\<lparr>gx_world := w\<rparr>, Some picked)" "game_ok (w_players w)" "w_tick w = w_tick (gx_world s)"
    "map ps_playerId (w_players w) = map ps_playerId (w_players (gx_world s))" "map ps_alive (w_players w) = map ps_alive (w_players (gx_world s))"
    "w_simulationHz w = w_simulationHz (gx_world s)"
proof -
  let ?rs = "rotationCandidates (gx_world s)"
  obtain i w1 where iw: "nextRandomInt (int (length ?rs)) (gx_world s) = (i, w1)" by fastforce
  have rng: "0 \<le> i" "i < int (length ?rs)" "w_players w1 = w_players (gx_world s)" "w_tick w1 = w_tick (gx_world s)"
    "w_simulationHz w1 = w_simulationHz (gx_world s)"
    using nextRandomInt_range [OF _ iw] assms(1) by auto
  let ?q = "?rs ! nat i"
  have mem: "?q \<in> set ?rs" using rng(1,2) by (intro nth_mem) linarith
  let ?ps = "map (\<lambda>p. set_tagger (ps_playerId p = ps_playerId ?q) p) (w_players (gx_world s))"
  let ?w2 = "w1\<lparr>w_players := ?ps, w_taggerChangedAtTick := w_tick w1\<rparr>"
  let ?w = "edit_world (ps_playerId ?q) (grantTaggerFrenzy ?w2) ?w2"
  have core: "map core (w_players ?w) = map core ?ps" by (simp add: core_edit)
  have "game_ok ?ps"
    using mem assms(2) by (auto simp: runners_mem game_ok_def tagger_is_def list_ex_iff list_all_iff set_tagger_def comp_def)
  then have ok: "game_ok (w_players ?w)" using game_ok_core [OF core] by blast
  have eq: "replace_tagger s = (s\<lparr>gx_world := ?w\<rparr>, Some (ps_playerId ?q))"
    using rng by (simp add: replace_tagger_def iw Let_def)
  have ids: "map ps_playerId (w_players ?w) = map ps_playerId (w_players (gx_world s))"
    "map ps_alive (w_players ?w) = map ps_alive (w_players (gx_world s))"
    using core_map_eqD(1,2) [OF core] by (simp_all add: set_tagger_def comp_def)
  show thesis by (rule that [OF eq ok _ ids]) (simp_all add: rng(4,5))
qed

lemma tagger_gone_runners:
  assumes "game_ok ps" "\<not> list_ex (\<lambda>p. ps_alive p \<and> ps_isTagger p) ps'" "w_players w = ps'"
    "\<not> isFinished w"
  shows "rotationCandidates w \<noteq> []"
proof -
  have "filter ps_alive ps' \<noteq> []" using assms(3,4) by (auto simp: isFinished_def survivors_def SURVIVORS_TO_WIN_def)
  then obtain p where "p \<in> set ps'" "ps_alive p" by (auto simp: filter_empty_conv)
  then have "p \<in> set (rotationCandidates w)" using assms(2,3) by (auto simp: runners_mem list_ex_iff)
  then show ?thesis by auto
qed

text \<open>A departure leaves a playable world, or one in which the match is over.\<close>

lemma depart_effect:
  assumes inv: "match_inv s r" and run: "\<not> gx_finished s"
  obtains w es r1 where "depart i s r = (s\<lparr>gx_world := w\<rparr>, es, r1)"
    "same_game r r1" "map ps_playerId (w_players w) = map ps_playerId (w_players (gx_world s))"
    "w_tick w = w_tick (gx_world s)" "matchHasEnded (s\<lparr>gx_world := w\<rparr>) \<or> game_ok (w_players w)"
proof -
  note I = match_invD [OF inv] and J = match_invD(4) [OF inv run]
  let ?t = "w_tick (gx_world s)"
  define w1 where "w1 = edit_world i (eliminated_now ?t) (gx_world s)"
  have w1: "w_players w1 = edit i (eliminated_now ?t) (w_players (gx_world s))" "w_tick w1 = ?t" by (simp_all add: w1_def)
  have ids1: "map ps_playerId (w_players w1) = map ps_playerId (w_players (gx_world s))" by (simp add: w1 edit_same_ids)
  have d1: "distinct (map ps_playerId (w_players w1))" using J game_ok_distinct ids1 by simp
  let ?gone = "\<not> matchHasEnded (s\<lparr>gx_world := w1\<rparr>) \<and> \<not> list_ex (\<lambda>p. ps_alive p \<and> ps_isTagger p) (w_players w1)"
  show thesis
  proof (cases ?gone)
    case False
    have ok: "matchHasEnded (s\<lparr>gx_world := w1\<rparr>) \<or> game_ok (w_players w1)"
    proof (cases "matchHasEnded (s\<lparr>gx_world := w1\<rparr>)")
      case False
      then have "list_ex (\<lambda>p. ps_alive p \<and> ps_isTagger p) (w_players w1)" using \<open>\<not> ?gone\<close> by simp
      moreover obtain t where t: "tagger_is t (w_players (gx_world s))" using J by (auto simp: game_ok_def)
      ultimately have "tagger_is t (w_players w1)" using tagger_left [OF t] unfolding w1(1) by blast
      with d1 show ?thesis by (auto simp: game_ok_def)
    qed simp
    have "depart i s r = (s\<lparr>gx_world := w1\<rparr>, [EvEliminated i None], r)"
      using False by (auto simp: depart_def w1_def [symmetric] Let_def)
    from that [OF this same_game_refl ids1 w1(2) ok] show thesis .
  next
    case True
    then have rc: "rotationCandidates (gx_world (s\<lparr>gx_world := w1\<rparr>)) \<noteq> []"
      using tagger_gone_runners [of "w_players (gx_world s)" "w_players w1" w1] J by (simp add: matchHasEnded_def)
    from d1 have dd: "distinct (map ps_playerId (w_players (gx_world (s\<lparr>gx_world := w1\<rparr>))))" by simp
    obtain w picked where rep: "replace_tagger (s\<lparr>gx_world := w1\<rparr>) = (s\<lparr>gx_world := w\<rparr>, Some picked)"
      and w: "game_ok (w_players w)" "w_tick w = ?t" "map ps_playerId (w_players w) = map ps_playerId (w_players w1)"
      by (rule replace_tagger_ok [OF rc dd]) (use w1(2) in simp)
    have "depart i s r = (s\<lparr>gx_world := w\<rparr>, [EvEliminated i None, EvTagged picked None], broadcastTagged picked None r)"
      using True I(1) by (simp add: depart_def w1_def [symmetric] Let_def rep)
    from that [OF this same_game_calls(1) _ w(2) disjI2 [OF w(1)]] show thesis using w(3) ids1 by simp
  qed
qed

lemma gone_match_inv:
  assumes inv: "match_inv s r" and gone: "eliminateDisconnected utf8 e i s r = (b, s', r')"
  shows "match_inv s' r' \<and> gx_maxDurationTicks s' = gx_maxDurationTicks s \<and> w_tick (gx_world s') = w_tick (gx_world s)"
proof (cases "\<not> gx_finished s \<and> (\<exists>p. find_player i (w_players (gx_world s)) = Some p \<and> ps_alive p)")
  case False
  then have "s' = s" "r' = r" using gone by (auto simp: eliminateDisconnected_def split: option.splits if_splits)
  with inv show ?thesis by simp
next
  case True
  then have run: "\<not> gx_finished s" by simp
  note I = match_invD [OF inv] and J = match_invD(4) [OF inv run]
  obtain w es r1 where d: "depart i s r = (s\<lparr>gx_world := w\<rparr>, es, r1)"
    and g: "same_game r r1" "map ps_playerId (w_players w) = map ps_playerId (w_players (gx_world s))"
      "w_tick w = w_tick (gx_world s)" "matchHasEnded (s\<lparr>gx_world := w\<rparr>) \<or> game_ok (w_players w)"
    by (rule depart_effect [OF inv run])
  have eq: "end_departure utf8 e (s\<lparr>gx_world := w\<rparr>, es, r1) = (s', r')"
    using True gone d by (auto simp: eliminateDisconnected_def)
  define s1 where "s1 = on_recorder (recordEvents (w_tick w) es) (s\<lparr>gx_world := w\<rparr>)"
  have s1: "gx_mode s1 = MatchMode" "gx_training s1 = None" "gx_world s1 = w" "gx_out s1 = gx_out s" "gx_finishing s1 = None"
    "gx_finished s1 = False" "gx_identities s1 = gx_identities s" "gx_maxDurationTicks s1 = gx_maxDurationTicks s"
    "matchHasEnded s1 = matchHasEnded (s\<lparr>gx_world := w\<rparr>)"
    using I J run by (simp_all add: s1_def on_recorder_def matchHasEnded_def)
  have seat: "seated s1 r1"
    using J g seated_cong [of s1 s r1 r] by (simp add: s1 same_game_def)
  have out: "results_of s1 = []" using J by (simp add: results_of_def s1)
  show ?thesis
  proof (cases "matchHasEnded s1")
    case False
    then have "s' = s1" "r' = r1" using eq by (simp_all add: end_departure_def s1_def Let_def)
    then show ?thesis using I(3) s1 out seat False g by (simp add: match_inv_def)
  next
    case True
    define s2 where "s2 = (on_recorder (recordFinalFrame utf8
        \<lparr>fr_tick = w_tick w, fr_world = w, fr_events = es, fr_skillRejections = []\<rparr> (gx_pendingTileChanges s1))
        (s1\<lparr>gx_finished := True\<rparr>))\<lparr>gx_pendingTileChanges := []\<rparr>"
    have fin: "startFinish e s2 r1 = (s', r')"
      using eq True s1 by (simp add: end_departure_def s1_def [symmetric] s2_def Let_def)
    have s2: "gx_mode s2 = MatchMode" "gx_training s2 = None" "gx_world s2 = w" "gx_out s2 = gx_out s" "gx_finishing s2 = None"
      "gx_finished s2" "gx_identities s2 = gx_identities s" "gx_maxDurationTicks s2 = gx_maxDurationTicks s"
      using s1 by (simp_all add: s2_def on_recorder_def)
    have seat2: "seated s2 r1" using seat seated_cong [of s2 s1 r1 r1] by (simp add: s1 s2)
    have out2: "results_of s2 = []" using out by (simp add: results_of_def s1 s2)
    obtain f c r2 where "startFinish e s2 r1 = (s2\<lparr>gx_finishing := f, gx_recorder := c\<rparr>, r2)"
      by (rule startFinish_seated [OF seat2])
    then have "s' = s2\<lparr>gx_finishing := f, gx_recorder := c\<rparr>" using fin by simp
    then show ?thesis
      using match_inv_finished [OF s2(1,2,6,5) out2 _ seat2 fin] I(3) g(3) s2 by simp
  qed
qed

section \<open>Every interleaving\<close>

lemma publish_to_keeps:
  "\<exists>f o'. publish_to utf8 buffered fr x s = s\<lparr>gx_needsFull := f, gx_out := gx_out s @ o'\<rparr>
     \<and> list_all (\<lambda>y. \<not> is_result y \<and> \<not> is_crash y) o'"
proof (cases x)
  case (fields i c a)
  consider (none) "publish_to utf8 buffered fr x s = s"
    | (skip) f where "publish_to utf8 buffered fr x s = s\<lparr>gx_needsFull := f\<rparr>"
    | (sent) f b where "publish_to utf8 buffered fr x s = emit_session (SentBinary (gc_id c) b) (s\<lparr>gx_needsFull := f\<rparr>)"
  proof (cases "a = AccessNone")
    case True
    then show ?thesis by (intro none) (simp add: publish_to_def fields)
  next
    case access: False
    let ?full = "i \<in> set (gx_needsFull s) \<or> fr_tick fr \<le> 1"
    show ?thesis
    proof (cases "\<not> ?full \<and> SOCKET_BUFFER_SOFT_LIMIT_BYTES < buffered c")
      case True
      show ?thesis by (rule skip) (use access True in \<open>simp add: publish_to_def fields Let_def\<close>)
    next
      case False
      show ?thesis by (rule sent) (use access False in \<open>simp only: publish_to_def fields Let_def prod.case if_False\<close>)
    qed
  qed
  then show ?thesis
  proof cases
    case none
    then show ?thesis by (intro exI [of _ "gx_needsFull s"] exI [of _ "[]"]) simp
  next
    case (skip f)
    then show ?thesis by (intro exI [of _ f] exI [of _ "[]"]) simp
  next
    case (sent f b)
    then show ?thesis by (intro exI [of _ f] exI [of _ "[SentBinary (gc_id c) b]"]) (simp add: emit_session_def)
  qed
qed

lemma publish_fold_keeps:
  "\<exists>f o'. fold (publish_to utf8 buffered fr) xs s = s\<lparr>gx_needsFull := f, gx_out := gx_out s @ o'\<rparr>
     \<and> list_all (\<lambda>y. \<not> is_result y \<and> \<not> is_crash y) o'"
proof (induction xs arbitrary: s)
  case Nil
  show ?case by (intro exI [of _ "gx_needsFull s"] exI [of _ "[]"]) simp
next
  case (Cons x xs)
  obtain f o1 where a: "publish_to utf8 buffered fr x s = s\<lparr>gx_needsFull := f, gx_out := gx_out s @ o1\<rparr>"
    "list_all (\<lambda>y. \<not> is_result y \<and> \<not> is_crash y) o1" using publish_to_keeps by blast
  obtain g o2 where b: "fold (publish_to utf8 buffered fr) xs (s\<lparr>gx_needsFull := f, gx_out := gx_out s @ o1\<rparr>)
      = s\<lparr>gx_needsFull := g, gx_out := gx_out s @ o1 @ o2\<rparr>" "list_all (\<lambda>y. \<not> is_result y \<and> \<not> is_crash y) o2"
    using Cons.IH [of "s\<lparr>gx_needsFull := f, gx_out := gx_out s @ o1\<rparr>"] by auto
  show ?case by (intro exI [of _ g] exI [of _ "o1 @ o2"]) (use a b in simp)
qed

lemma publish_keeps:
  obtains f c o' where "publish utf8 buffered fr s r =
      s\<lparr>gx_needsFull := f, gx_recorder := c, gx_pendingTileChanges := [], gx_out := gx_out s @ o'\<rparr>"
    "list_all (\<lambda>y. \<not> is_result y \<and> \<not> is_crash y) o'"
proof -
  obtain f o' where a: "fold (publish_to utf8 buffered fr) (snapshotTargets r) s = s\<lparr>gx_needsFull := f, gx_out := gx_out s @ o'\<rparr>"
    "list_all (\<lambda>y. \<not> is_result y \<and> \<not> is_crash y) o'" using publish_fold_keeps by blast
  show thesis
  proof (cases "gx_finished s")
    case True
    then show thesis
      by (intro that [where f = f and o' = o' and c = "gx_recorder s"]) (use a in \<open>simp_all add: publish_def Let_def\<close>)
  next
    case False
    then show thesis
      by (intro that [where f = f and o' = o' and c = "recordSnapshotTick utf8 fr (gx_pendingTileChanges s) (gx_recorder s)"])
        (use a in \<open>simp_all add: publish_def Let_def on_recorder_def\<close>)
  qed
qed

lemma quiet_out:
  assumes "list_all (\<lambda>y. \<not> is_result y \<and> \<not> is_crash y) o'"
  shows "filter is_result o' = []" "\<not> list_ex is_crash o'"
  using assms by (auto simp: list_all_iff list_ex_iff filter_empty_conv)

lemma queue_inv:
  "match_inv (session_queueSkill rq s) r = match_inv s r" "match_inv (session_queueEmoji eq s) r = match_inv s r"
  "match_inv (session_requestFull i s) r = match_inv s r" "gx_training s = None \<Longrightarrow> snd (session_respawn i s) = s"
proof -
  show "match_inv (session_queueSkill rq s) r = match_inv s r"
    by (rule match_inv_cong) (simp_all add: session_queueSkill_def emit_session_def results_of_def queue_violation_def)
  show "match_inv (session_queueEmoji eq s) r = match_inv s r"
    by (rule match_inv_cong) (simp_all add: session_queueEmoji_def emit_session_def results_of_def queue_violation_def)
  show "match_inv (session_requestFull i s) r = match_inv s r"
    by (rule match_inv_cong) (simp_all add: session_requestFull_def results_of_def)
qed (simp add: session_respawn_def)

lemma publish_inv: "match_inv (publish utf8 buffered fr s r') r = match_inv s r"
proof -
  obtain f c o' where eq: "publish utf8 buffered fr s r' =
      s\<lparr>gx_needsFull := f, gx_recorder := c, gx_pendingTileChanges := [], gx_out := gx_out s @ o'\<rparr>"
    and q: "list_all (\<lambda>y. \<not> is_result y \<and> \<not> is_crash y) o'" by (rule publish_keeps)
  show ?thesis by (rule match_inv_cong) (simp_all add: eq results_of_def quiet_out [OF q])
qed

lemma stop_inv: "match_inv s r \<Longrightarrow> match_inv (stop_session s) r"
proof (cases "gx_finished s")
  case True
  then show "match_inv s r \<Longrightarrow> match_inv (stop_session s) r" by (simp add: stop_session_def)
next
  case False
  assume inv: "match_inv s r"
  note I = match_invD [OF inv] and J = match_invD(4) [OF inv False]
  have "results_of (stop_session s) = []" using False J by (simp add: stop_session_def on_recorder_def results_of_def)
  then show "match_inv (stop_session s) r"
    using I J False by (simp add: match_inv_def) (simp add: stop_session_def on_recorder_def)
qed

lemma finishDone_inv: "match_inv s r \<Longrightarrow> match_inv (finishDone now handle s) r"
proof (cases "gx_finishing s")
  case None
  then show "match_inv s r \<Longrightarrow> match_inv (finishDone now handle s) r" by (simp add: finishDone_def)
next
  case (Some ws)
  assume inv: "match_inv s r"
  have f: "gx_finished s" "ws = confirmedWinnerIds s" "results_of s = []"
    using inv Some by (auto simp: match_inv_def)
  have eq: "finishDone now handle s = s\<lparr>gx_finishing := None, gx_out := gx_out s @ [MatchFinished (buildResult now s ws handle)]\<rparr>"
    by (simp add: finishDone_def Some emit_session_def buildResult_def participant_result_cong [of "s\<lparr>gx_finishing := None\<rparr>" s])
  have "participant_result_of (finishDone now handle s) = participant_result_of s"
    by (rule participant_result_cong) (simp_all add: eq)
  then have ok: "result_ok (finishDone now handle s) (buildResult now s ws handle)"
    by (simp add: result_ok_def buildResult_def f(2) eq confirmedWinnerIds_def)
  have res: "results_of (finishDone now handle s) = [MatchFinished (buildResult now s ws handle)]"
    using f(3) by (simp add: results_of_def eq)
  show "match_inv (finishDone now handle s) r"
    using match_invD [OF inv] ok f(1) res by (simp add: match_inv_def) (simp add: eq)
qed

lemma match_step_inv: "match_step utf8 x y \<Longrightarrow> match_inv (fst x) (snd x) \<Longrightarrow> match_inv (fst y) (snd y)"
proof (induction rule: match_step.induct)
  case (tick e s r fr s' r')
  then show ?case using step_match_inv [of s r utf8 e fr s' r'] by simp
next
  case (gone e i s r b s' r')
  then show ?case using gone_match_inv [of s r utf8 e i b s' r'] by simp
next
  case (respawn s r i)
  then show ?case using queue_inv(4) match_invD(2) [of s r] by simp
next
  case (room s r' r)
  then show ?case by (auto simp: match_inv_def seated_def)
qed (simp_all add: queue_inv publish_inv stop_inv finishDone_inv)

lemma match_run_inv: "match_run utf8 (s, r) (s', r') \<Longrightarrow> match_inv s r \<Longrightarrow> match_inv s' r'"
  by (induction rule: rtranclp_induct2) (use match_step_inv in fastforce)+

section \<open>The clock of a match\<close>

lemma request_skill_tick: "w_tick (fst (request_skill r acc)) = w_tick (fst acc)"
proof -
  have f: "w_tick (fold (\<lambda>h w. edit_world (k h) (g h) w) hs w) = w_tick w" for k g hs w
    by (induction hs arbitrary: w) simp_all
  show ?thesis
    by (cases acc) (auto simp: request_skill_def useSkill_def useDash_def useFlash_def useExhaust_def useSwitch_def
        switch_roles_def Let_def f split: option.splits skill_id.splits prod.splits skill_outcome.splits if_splits)
qed

lemma apply_requests_tick: "w_tick (fst (apply_requests w rs ms)) = w_tick w"
proof -
  have "w_tick (fst (fold request_skill rs acc)) = w_tick (fst acc)" for rs acc
    by (induction rs arbitrary: acc) (simp_all add: request_skill_tick)
  moreover have "w_tick (fold request_emoji ms w) = w_tick w" for ms w
    by (induction ms arbitrary: w) (simp_all add: request_emoji_def split: option.split)
  ultimately show ?thesis by (simp add: apply_requests_def Let_def split: prod.split) (metis fst_conv)
qed

lemma move_all_tick: "w_tick (fst (move_all w inputs)) = w_tick w"
proof -
  have "w_tick (apply_change c w) = w_tick w" for c w
    by (auto simp: apply_change_def split: prod.split option.split)
  then have "w_tick (fold apply_change cs w) = w_tick w" for cs w
    by (induction cs arbitrary: w) simp_all
  then show ?thesis by (simp add: move_all_def applyMapTimeline_def Let_def split: option.split)
qed

lemma stepWorld_tick: "w_tick (fr_world (stepWorld w inputs skills emojis)) = w_tick w + 1"
proof -
  obtain w0 w1 es js w2 pairs w3 es3 where s: "w0 = begin_tick w"
    "apply_requests w0 skills emojis = (w1, es, js)" "move_all w1 inputs = (w2, pairs)"
    "finish_tick w2 pairs es = (w3, es3)"
    "stepWorld w inputs skills emojis = \<lparr>fr_tick = w_tick w3, fr_world = w3, fr_events = es3, fr_skillRejections = js\<rparr>"
    by (rule stepWorld_stages)
  show ?thesis
    using stays_finish_tick [OF s(4)] move_all_tick [of w1 inputs] apply_requests_tick [of w0 skills emojis] s
    by (simp add: stays_def begin_tick_def Let_def)
qed

lemma startFinish_keeps:
  "gx_world (fst (startFinish e s r)) = gx_world s \<and> gx_maxDurationTicks (fst (startFinish e s r)) = gx_maxDurationTicks s
     \<and> gx_finished (fst (startFinish e s r)) = gx_finished s"
  by (auto simp: startFinish_def handleFinishException_def on_recorder_def emit_session_def Let_def split: sum.split prod.split bool.split)

lemma tick_clock:
  assumes inv: "match_inv s r" and step: "session_step utf8 e s r = Some (fr, s', r')"
  shows "gx_maxDurationTicks s' = gx_maxDurationTicks s"
    "\<not> gx_finished s \<Longrightarrow> w_tick (gx_world s') = w_tick (gx_world s) + 1" "gx_finished s \<Longrightarrow> s' = s"
proof -
  show "gx_finished s \<Longrightarrow> s' = s" using step by (simp add: session_step_def)
  have both: "gx_maxDurationTicks s' = gx_maxDurationTicks s \<and> w_tick (gx_world s') = w_tick (gx_world s) + 1" if run: "\<not> gx_finished s"
  proof -
    define fw where "fw = stepWorld (gx_world s) (resolvedInputs r) (gx_pendingSkills s) (js_values (gx_pendingEmojis s))"
    obtain s2 r2 where eq: "session_step utf8 e s r = Some (Some fw,
         if gx_mode s = MatchMode \<and> matchHasEnded s2
         then startFinish e (on_recorder (recordFinalFrame utf8 fw (w_tileChanges (fr_world fw))) (s2\<lparr>gx_finished := True\<rparr>)) r2
         else (s2, r2))"
      and "same_game r r2"
      and s2: "s2 = s\<lparr>gx_pendingSkills := [], gx_pendingEmojis := js_empty,
         gx_pendingTileChanges := gx_pendingTileChanges s @ w_tileChanges (fr_world fw), gx_world := fr_world fw, gx_training := None,
         gx_recorder := recordEvents (fr_tick fw) (fr_events fw) (gx_recorder s)\<rparr>"
      unfolding fw_def by (rule match_tick [OF match_invD(2) [OF inv] run])
    have w2: "w_tick (gx_world s2) = w_tick (gx_world s) + 1" "gx_maxDurationTicks s2 = gx_maxDurationTicks s"
      by (simp_all add: s2 fw_def stepWorld_tick)
    show ?thesis
    proof (cases "gx_mode s = MatchMode \<and> matchHasEnded s2")
      case True
      let ?s3 = "on_recorder (recordFinalFrame utf8 fw (w_tileChanges (fr_world fw))) (s2\<lparr>gx_finished := True\<rparr>)"
      have "startFinish e ?s3 r2 = (s', r')" using eq step True by simp
      then show ?thesis using startFinish_keeps [of e ?s3 r2] w2 by (simp add: on_recorder_def)
    next
      case False
      have "(s', r') = (s2, r2)" using eq step unfolding if_not_P [OF False] by simp
      then show ?thesis using w2 by simp
    qed
  qed
  then show "\<not> gx_finished s \<Longrightarrow> w_tick (gx_world s') = w_tick (gx_world s) + 1" by blast
  show "gx_maxDurationTicks s' = gx_maxDurationTicks s"
    using both step by (cases "gx_finished s") (simp_all add: session_step_def)
qed

text \<open>Any other call leaves the clock, and never reopens a match.\<close>

lemma match_step_clock:
  assumes "match_step utf8 x y" "match_inv (fst x) (snd x)"
  shows "gx_maxDurationTicks (fst y) = gx_maxDurationTicks (fst x) \<and> w_tick (gx_world (fst x)) \<le> w_tick (gx_world (fst y))
     \<and> (gx_finished (fst x) \<longrightarrow> gx_finished (fst y))"
  using assms
proof (induction rule: match_step.induct)
  case (tick e s r fr s' r')
  then have inv: "match_inv s r" by simp
  from tick_clock [OF inv tick.hyps] show ?case by (cases "gx_finished s") auto
next
  case (publish s r buffered fr)
  obtain f c o' where "publish utf8 buffered fr s r =
      s\<lparr>gx_needsFull := f, gx_recorder := c, gx_pendingTileChanges := [], gx_out := gx_out s @ o'\<rparr>"
    by (rule publish_keeps)
  then show ?case by simp
next
  case (respawn s r i)
  then show ?case using queue_inv(4) match_invD(2) [of s r] by simp
next
  case (gone e i s r b s' r')
  then show ?case
    using gone_match_inv [of s r utf8 e i b s' r'] by (auto simp: eliminateDisconnected_def)
qed (simp_all add: session_queueSkill_def session_queueEmoji_def session_requestFull_def stop_session_def finishDone_def
      emit_session_def on_recorder_def split: option.split)

text \<open>A run in which at least \<open>n\<close> of the steps are ticks.\<close>

inductive ticks :: "(string \<Rightarrow> byte list) \<Rightarrow> nat \<Rightarrow> game_session \<times> room \<Rightarrow> game_session \<times> room \<Rightarrow> bool"
  for utf8 :: "string \<Rightarrow> byte list" where
  none: "ticks utf8 0 x x"
| tick: "ticks utf8 n x (s, r) \<Longrightarrow> session_step utf8 e s r = Some (fr, y) \<Longrightarrow> ticks utf8 (Suc n) x y"
| other: "ticks utf8 n x y \<Longrightarrow> match_step utf8 y z \<Longrightarrow> ticks utf8 n x z"

lemma ticks_clock:
  assumes "ticks utf8 n x y" "match_inv (fst x) (snd x)"
  shows "match_inv (fst y) (snd y) \<and> gx_maxDurationTicks (fst y) = gx_maxDurationTicks (fst x)
     \<and> (gx_finished (fst y) \<or> w_tick (gx_world (fst x)) + int n \<le> w_tick (gx_world (fst y)))"
  using assms
proof (induction rule: ticks.induct)
  case (tick n x s r e fr y)
  then have inv: "match_inv s r" by simp
  obtain s' r' where y: "y = (s', r')" by fastforce
  note c = tick_clock [OF inv tick.hyps(2) [unfolded y]]
  have "match_inv s' r'" using step_match_inv [OF inv] tick.hyps(2) y by blast
  with tick c y show ?case by (cases "gx_finished s") auto
next
  case (other n x y z)
  then show ?case using match_step_inv [OF other.hyps(2)] match_step_clock [OF other.hyps(2)] by auto
qed simp

section \<open>Properties\<close>

text \<open>
  A match as it begins: a new session over a world with one living tagger in which the game is not over, whose participants are
  the players the room locked in.
\<close>

definition begins :: "room \<Rightarrow> game_session \<Rightarrow> bool" where
  "begins r s \<longleftrightarrow> (\<exists>now w matchId roster limit meta. new_session now r w matchId MatchMode roster None limit meta = Some s
       \<and> game_ok (w_players w) \<and> \<not> isFinished w \<and> w_tick w = 0)
     \<and> pa_playerId ` set (participants r) \<subseteq> set (locked_players r)"

lemma identities_keys: "js_has (identities_of ps) i \<longleftrightarrow> i \<in> pa_playerId ` set ps"
proof -
  have "js_has (fold (\<lambda>p. js_set (pa_playerId p) p) ps m) i \<longleftrightarrow> i \<in> pa_playerId ` set ps \<or> js_has m i" for m
    by (induction ps arbitrary: m) (auto simp: js_has_def)
  then show ?thesis by (simp add: identities_of_def) (simp add: js_has_def)
qed

lemma begins_inv: "begins r s \<Longrightarrow> match_inv s r"
proof -
  assume b: "begins r s"
  then obtain now w matchId roster limit meta where n: "new_session now r w matchId MatchMode roster None limit meta = Some s"
    and w: "game_ok (w_players w)" "\<not> isFinished w" "w_tick w = 0"
    and l: "pa_playerId ` set (participants r) \<subseteq> set (locked_players r)"
    unfolding begins_def by blast
  have s: "gx_mode s = MatchMode" "gx_training s = None" "gx_world s = w" "gx_finishing s = None" "gx_out s = []"
    "gx_identities s = identities_of (participants r)" "1 \<le> gx_maxDurationTicks s"
    using n by (auto simp: new_session_def Let_def split: if_splits)
  have "seated s r" using l by (auto simp: seated_def s identities_keys)
  moreover have "\<not> matchHasEnded s" using w s(7) by (simp add: matchHasEnded_def s(3))
  ultimately show "match_inv s r" using w by (simp add: match_inv_def s results_of_def)
qed

definition demo_game :: room where
  "demo_game = fold room_step (demo_calls @ [(demo_env 6000, CRequestStart (Account 7)), (demo_env 15000, CAdvance)]) demo_room"

definition demo_four :: world where
  "demo_four = createWorld demo_map [demo_player 1 True, demo_player 2 False, demo_player 3 False, demo_player 4 False] 7 None"

lemma demo_four_ok: "game_ok (w_players demo_four)"
proof -
  have "tagger_is 1 (w_players demo_four)" by (simp add: tagger_is_def demo_four_def createWorld_def demo_player_def)
  then show ?thesis by (auto simp: game_ok_def demo_four_def createWorld_def demo_player_def)
qed

definition demo_meta :: session_meta where
  "demo_meta = \<lparr>sm_serverId = ''g1'', sm_buildId = ''b1'', sm_mapId = ''demo'', sm_mapBundleHash = ''h'', sm_rulesVersion = ''r''\<rparr>"

definition demo_match :: "int \<Rightarrow> game_session" where
  "demo_match limit = the (new_session 9000 demo_game demo_four ''m1'' MatchMode [] None (Some limit) demo_meta)"

lemma demo_begins: "1 \<le> limit \<Longrightarrow> limit < 2 ^ 53 \<Longrightarrow> begins demo_game (demo_match limit)"
proof -
  assume l: "1 \<le> limit" "limit < 2 ^ 53"
  have "list_all (\<lambda>p. pa_playerId p \<in> set (locked_players demo_game)) (participants demo_game)" by code_simp
  then have a: "pa_playerId ` set (participants demo_game) \<subseteq> set (locked_players demo_game)" by (auto simp: list_all_iff)
  have n: "new_session 9000 demo_game demo_four ''m1'' MatchMode [] None (Some limit) demo_meta = Some (demo_match limit)"
    using l by (simp add: demo_match_def new_session_def Let_def)
  have "\<not> isFinished demo_four" "w_tick demo_four = 0"
    by (simp_all add: isFinished_def survivors_def demo_four_def createWorld_def demo_player_def SURVIVORS_TO_WIN_def)
  with n a demo_four_ok show ?thesis unfolding begins_def by blast
qed


text \<open>A match of one tick, whose replay is stored afterwards.\<close>

lemma demo_first_tick:
  obtains fr s r where "session_step utf8 e (demo_match 1) demo_game = Some (Some fr, s, r)" "gx_finished s"
    "gx_finishing s = Some (confirmedWinnerIds s)" "results_of s = []"
proof -
  have b: "begins demo_game (demo_match 1)" by (rule demo_begins) simp_all
  have inv: "match_inv (demo_match 1) demo_game" by (rule begins_inv [OF b])
  have s0: "gx_finished (demo_match 1) = False" "gx_maxDurationTicks (demo_match 1) = 1" "w_tick (gx_world (demo_match 1)) = 0"
    by (simp_all add: demo_match_def new_session_def Let_def demo_four_def createWorld_def)
  have run: "\<not> gx_finished (demo_match 1)" by (simp add: s0)
  have playing: "room_state demo_game = Playing" by code_simp
  define fw where "fw = stepWorld (gx_world (demo_match 1)) (resolvedInputs demo_game) (gx_pendingSkills (demo_match 1))
      (js_values (gx_pendingEmojis (demo_match 1)))"
  obtain s2 r2 where eq: "session_step utf8 e (demo_match 1) demo_game = Some (Some fw,
       if gx_mode (demo_match 1) = MatchMode \<and> matchHasEnded s2
       then startFinish e (on_recorder (recordFinalFrame utf8 fw (w_tileChanges (fr_world fw))) (s2\<lparr>gx_finished := True\<rparr>)) r2
       else (s2, r2))"
    and g: "same_game demo_game r2"
    and s2: "s2 = (demo_match 1)\<lparr>gx_pendingSkills := [], gx_pendingEmojis := js_empty,
       gx_pendingTileChanges := gx_pendingTileChanges (demo_match 1) @ w_tileChanges (fr_world fw), gx_world := fr_world fw,
       gx_training := None, gx_recorder := recordEvents (fr_tick fw) (fr_events fw) (gx_recorder (demo_match 1))\<rparr>"
    unfolding fw_def by (rule match_tick [OF match_invD(2) [OF inv] run])
  have ended: "matchHasEnded s2"
    by (simp add: matchHasEnded_def s2 s0 fw_def stepWorld_tick)
  let ?s3 = "on_recorder (recordFinalFrame utf8 fw (w_tileChanges (fr_world fw))) (s2\<lparr>gx_finished := True\<rparr>)"
  have "map ps_playerId (w_players (fr_world fw)) = map ps_playerId (w_players (gx_world (demo_match 1)))"
    unfolding fw_def using match_invD(4) [OF inv] s0(1) stage_stepWorld game_ok_distinct stage_ids by blast
  then have "seated ?s3 r2"
    using match_invD(4) [OF inv] s0(1) g seated_cong [of ?s3 "demo_match 1" r2 demo_game]
    by (simp add: same_game_def on_recorder_def s2)
  then obtain f c r' where fin: "startFinish e ?s3 r2 = (?s3\<lparr>gx_finishing := f, gx_recorder := c\<rparr>, r')"
    and f: "f = (if room_state r2 = Playing then Some (confirmedWinnerIds ?s3) else gx_finishing ?s3)"
    by (rule startFinish_seated)
  show thesis
  proof (rule that [of fw "?s3\<lparr>gx_finishing := f, gx_recorder := c\<rparr>" r'])
    show "session_step utf8 e (demo_match 1) demo_game = Some (Some fw, ?s3\<lparr>gx_finishing := f, gx_recorder := c\<rparr>, r')"
      using eq ended fin match_invD(1) [OF inv] by simp
  qed (use f g playing match_invD(4) [OF inv] s0(1) in
      \<open>simp_all add: same_game_def on_recorder_def results_of_def confirmedWinnerIds_def s2\<close>)
qed


text \<open>
  C26. One tagger through departures. Until a match finishes, exactly one player is the tagger and that player lives: a tick that
  tags, a switch, a rotation, and the departure of the tagger between ticks all leave a living tagger behind.
\<close>

theorem match_one_tagger:
  assumes "begins r s0" and "match_run utf8 (s0, r) (s, r')" and "\<not> gx_finished s"
  shows "game_ok (w_players (gx_world s))"
  using match_invD(4) [OF match_run_inv [OF assms(2) begins_inv [OF assms(1)]] assms(3)] by blast

theorem match_one_tagger_witness:
  "\<not> gx_finished (fst (snd (eliminateDisconnected (\<lambda>_. []) (demo_env 20000) 1 (demo_match 100) demo_game)))
   \<and> game_ok (w_players (gx_world (fst (snd (eliminateDisconnected (\<lambda>_. []) (demo_env 20000) 1 (demo_match 100) demo_game)))))"
proof -
  have b: "begins demo_game (demo_match 100)" by (rule demo_begins) simp_all
  obtain ok s r where gone: "eliminateDisconnected (\<lambda>_. []) (demo_env 20000) 1 (demo_match 100) demo_game = (ok, s, r)"
    by (metis prod_cases3)
  have "\<not> gx_finished (fst (snd (eliminateDisconnected (\<lambda>_. []) (demo_env 20000) 1 (demo_match 100) demo_game)))" by code_simp
  then have open_match: "\<not> gx_finished s" using gone by simp
  have "match_run (\<lambda>_. []) (demo_match 100, demo_game) (s, r)" using match_step.gone [OF gone] by blast
  from match_one_tagger [OF b this open_match] gone open_match show ?thesis by simp
qed

text \<open>
  C27. A match ends. Once a match has been given as many ticks as its longest duration, among whatever other calls, it is finished,
  and a tick of a match never fails.
\<close>

theorem match_ends:
  assumes "begins r s0" and "ticks utf8 n (s0, r) (s, r')"
  shows "(gx_maxDurationTicks s0 \<le> int n \<longrightarrow> gx_finished s) \<and> session_step utf8 e s r' \<noteq> None"
proof -
  have inv0: "match_inv s0 r" by (rule begins_inv [OF assms(1)])
  have t0: "w_tick (gx_world s0) = 0" using assms(1) by (auto simp: begins_def new_session_def Let_def split: if_splits)
  from ticks_clock [OF assms(2)] inv0 have inv: "match_inv s r'" and "gx_maxDurationTicks s = gx_maxDurationTicks s0"
    and "gx_finished s \<or> w_tick (gx_world s0) + int n \<le> w_tick (gx_world s)" by auto
  with match_invD(4) [OF inv] t0 have "gx_maxDurationTicks s0 \<le> int n \<longrightarrow> gx_finished s"
    by (cases "gx_finished s") (simp_all add: matchHasEnded_def)
  moreover have "session_step utf8 e s r' \<noteq> None"
  proof (cases "gx_finished s")
    case True
    then show ?thesis by (simp add: session_step_def)
  next
    case False
    show ?thesis by (rule match_tick [OF match_invD(2) [OF inv] False, of utf8 e r']) simp
  qed
  ultimately show ?thesis by blast
qed

theorem match_ends_witness:
  "\<exists>fr s r. session_step (\<lambda>_. []) (demo_env 20000) (demo_match 1) demo_game = Some (fr, s, r) \<and> gx_finished s
     \<and> session_step (\<lambda>_. []) (demo_env 20001) s r \<noteq> None"
proof -
  have b: "begins demo_game (demo_match 1)" by (rule demo_begins) simp_all
  obtain fr s r where step: "session_step (\<lambda>_. []) (demo_env 20000) (demo_match 1) demo_game = Some (Some fr, s, r)"
    by (rule demo_first_tick)
  have t: "ticks (\<lambda>_. []) (Suc 0) (demo_match 1, demo_game) (s, r)" by (rule ticks.tick [OF ticks.none step])
  have "gx_maxDurationTicks (demo_match 1) = 1" by (simp add: demo_match_def new_session_def Let_def)
  with match_ends [OF b t, of "demo_env 20001"] step show ?thesis by auto
qed

lemma enter_PostGame: "room_state r = Playing \<Longrightarrow> room_state (enter PostGame now r) = PostGame"
  by (simp add: enter_def transition_def room_state_def)

lemma finishGame_left: "finishGame e ws r = Inr (b, r') \<Longrightarrow> room_state r' \<noteq> Playing"
proof (cases "room_state r = Playing")
  case True
  assume fin: "finishGame e ws r = Inr (b, r')"
  define r1 where "r1 = r\<lparr>rm_postGameEndsAt := Some (en_now e + rt_postGameMs (roomTiming r))\<rparr>"
  have "room_state r1 = Playing" using True by (simp add: r1_def room_state_def)
  then have "room_state (enter PostGame (en_now e) r1) = PostGame" by (rule enter_PostGame)
  moreover have "room_state (broadcastCurrentGame msg (directoryChanged (x\<lparr>rm_resumeStarting := a, rm_resumeStarted := c\<rparr>))) = room_state x"
    for msg x a c by (simp add: broadcastCurrentGame_def send_to_def directoryChanged_def emit_def room_state_def)
  ultimately show ?thesis using fin True by (auto simp: finishGame_def Let_def r1_def [symmetric] split: if_splits)
next
  case False
  then show "finishGame e ws r = Inr (b, r') \<Longrightarrow> room_state r' \<noteq> Playing" by (simp add: finishGame_def)
qed

lemma startFinish_left:
  assumes "seated s r" "startFinish e s r = (s', r')"
  shows "room_state r' \<noteq> Playing"
proof -
  consider (late) "finishGame e (confirmedWinnerIds s) r = Inr (False, r)" "room_state r \<noteq> Playing"
    | (now) r1 where "finishGame e (confirmedWinnerIds s) r = Inr (True, r1)"
    using finishGame_seated [OF assms(1), of e] by blast
  then show ?thesis
    by cases (use assms(2) finishGame_left in \<open>auto simp: startFinish_def Let_def\<close>)
qed

text \<open>
  Nothing is sent of a match that has ended. In the tick that finishes a match the room leaves its playing state, so the
  publication that follows it - of the last frame - reaches nobody and only clears the pending tile changes.
\<close>

theorem last_frame_unsent:
  assumes "begins r0 s0" "match_run utf8 (s0, r0) (s, r)" and "session_step utf8 e s r = Some (Some fr, s', r')"
    and "\<not> gx_finished s" "gx_finished s'"
  shows "snapshotTargets r' = [] \<and> publish utf8 buffered fr s' r' = s'\<lparr>gx_pendingTileChanges := []\<rparr>"
proof -
  have inv: "match_inv s r" by (rule match_run_inv [OF assms(2) begins_inv [OF assms(1)]])
  obtain s3 r2 where "startFinish e s3 r2 = (s', r')" "seated s3 r2" by (rule tick_finishes [OF inv assms(3-5)])
  then have "snapshotTargets r' = []" using startFinish_left by (simp add: snapshotTargets_def)
  then show ?thesis using assms(5) by (simp add: publish_def)
qed

theorem last_frame_unsent_witness:
  "\<exists>fr s r. session_step (\<lambda>_. []) (demo_env 20000) (demo_match 1) demo_game = Some (Some fr, s, r) \<and> gx_finished s
     \<and> publish (\<lambda>_. []) (\<lambda>_. 0) fr s r = s\<lparr>gx_pendingTileChanges := []\<rparr>"
proof -
  have b: "begins demo_game (demo_match 1)" by (rule demo_begins) simp_all
  have run: "\<not> gx_finished (demo_match 1)" by (simp add: demo_match_def new_session_def Let_def)
  obtain fr s r where step: "session_step (\<lambda>_. []) (demo_env 20000) (demo_match 1) demo_game = Some (Some fr, s, r)" "gx_finished s"
    by (rule demo_first_tick)
  from last_frame_unsent [OF b rtranclp.rtrancl_refl step(1) run step(2), of "\<lambda>_. 0"] step show ?thesis by blast
qed

end
