(* ===== verification/Replay.thy ===== *)
theory Replay
  imports Recorder
begin

text \<open>
  The replay file: \<open>shared/src/replay/format.ts\<close> and \<open>signature.ts\<close>. A container is a header, a manifest in JSON, an index
  and compressed chunks; a signature is a trailer behind it. Compression, digest and signing key are parameters, as they are in the
  code (\<open>ReplayCodec\<close>, \<open>ReplaySigner\<close>, \<open>ReplayVerifier\<close>); so is the JSON text of events and manifests. A reader is
  modelled on the bytes that are left from its offset on.
\<close>

section \<open>Constants\<close>

definition REPLAY_MAGIC :: string where "REPLAY_MAGIC = ''SWRP''"
definition REPLAY_CONTAINER_VERSION :: int where "REPLAY_CONTAINER_VERSION = 1"
definition REPLAY_FORMAT_VERSION :: int where "REPLAY_FORMAT_VERSION = 1"
definition MAX_MANIFEST_BYTES :: nat where "MAX_MANIFEST_BYTES = 64 * 1024"
definition MAX_CHUNKS :: nat where "MAX_CHUNKS = 10000"
definition MAX_RAW_CHUNK_BYTES :: int where "MAX_RAW_CHUNK_BYTES = 16 * 1024 * 1024"
definition MAX_EVENT_JSON_BYTES :: nat where "MAX_EVENT_JSON_BYTES = 4096"
definition SHA256_BYTES :: nat where "SHA256_BYTES = 32"
definition CHUNK_INDEX_ENTRY_BYTES :: nat where "CHUNK_INDEX_ENTRY_BYTES = 4 + 4 + 4 + 4 + 4 + SHA256_BYTES"

section \<open>Data\<close>

record recorded_frame =
  rf_tick :: int
  rf_full :: bool
  rf_bytes :: "byte list"

record recorded_visibility =
  rw_tick :: int
  rw_masks :: "byte list"

record recorded_event =
  rn_tick :: int
  rn_event :: replay_event

record chunk_accumulator =
  ca_frames :: "recorded_frame list"
  ca_visibilities :: "recorded_visibility list"
  ca_events :: "recorded_event list"

text \<open>The manifest is the base that the recorder fills in, extended by what the builder adds.\<close>

record manifest_base =
  mf_replayFormatVersion :: int
  mf_matchId :: string
  mf_mapId :: string
  mf_snapshotHz :: int
  mf_startTick :: int
  mf_endTick :: int
  mf_durationTicks :: int
  mf_buildId :: string
  mf_protocolVersion :: int
  mf_rulesVersion :: string
  mf_mapBundleHash :: string
  mf_visibilityCoreVersion :: int
  mf_recordedAt :: "int option"
  mf_participants :: "replay_participant list"

record replay_manifest = manifest_base +
  mf_chunkCount :: int
  mf_rootHash :: string

record chunk_index_entry =
  ce_startTick :: int
  ce_endTick :: int
  ce_offset :: int
  ce_compressedLen :: int
  ce_rawLen :: int
  ce_sha256 :: string

record replay_container =
  rc_bytes :: "byte list"
  rc_chunkCount :: int
  rc_rootHash :: string
  rc_sizeBytes :: int

text \<open>\<open>SyntaxError\<close> is what \<open>JSON.parse\<close> throws; the other errors of the readers are \<open>ReplayDecodeError\<close>.\<close>

datatype replay_error =
  BadHexLength | BadHexDigit | ChunkTruncated | TooManyFrames int | TooManyVisibilities int | TooManyEvents int | JsonSyntax
| FileTooShort | BadMagic | UnsupportedVersion int | TruncatedHeader | BadManifestLength int | ManifestNotJson
| TruncatedIndexHeader | TooManyChunksDeclared int | TruncatedIndexEntry | TooMuchRawData int | IndexPastEnd
| ChunkOutOfBounds | DigestOutOfRange | HashMismatch | GunzipFailed | RawLengthMismatch
| EventTooLarge | NoChunks | TooManyChunks | ManifestTooLarge | KeyIdTooLong | BadSignatureLength

record replay_codec =
  cx_gzip :: "byte list \<Rightarrow> byte list"
  cx_gunzip :: "byte list \<Rightarrow> byte list option"
  cx_sha256 :: "byte list \<Rightarrow> byte list"

text \<open>The UTF-8 bytes of \<open>JSON.stringify\<close>, and \<open>JSON.parse\<close> of decoded bytes.\<close>

record replay_json =
  rj_event :: "replay_event \<Rightarrow> byte list"
  rj_parseEvent :: "byte list \<Rightarrow> replay_event option"
  rj_manifest :: "replay_manifest \<Rightarrow> byte list"
  rj_parseManifest :: "byte list \<Rightarrow> replay_manifest option"

section \<open>Byte tools\<close>

definition ascii :: "string \<Rightarrow> byte list" where
  "ascii = map (\<lambda>c. of_char c)"

definition hex_digit :: "int \<Rightarrow> char" where
  "hex_digit v = (if v < 10 then char_of (48 + v) else char_of (87 + v))"

definition toHex :: "byte list \<Rightarrow> string" where
  "toHex bytes = concat (map (\<lambda>b. [hex_digit (uint b div 16), hex_digit (uint b mod 16)]) bytes)"

text \<open>\<open>Number.parseInt(s, 16)\<close>: blanks, a sign, a prefix \<open>0x\<close>, and the longest run of digits; without digits \<open>NaN\<close>.\<close>

definition hex_value :: "char \<Rightarrow> int option" where
  "hex_value c = (let v = of_char c :: int in
     if 48 \<le> v \<and> v \<le> 57 then Some (v - 48) else if 97 \<le> v \<and> v \<le> 102 then Some (v - 87)
     else if 65 \<le> v \<and> v \<le> 70 then Some (v - 55) else None)"

definition hex_digits :: "string \<Rightarrow> int option" where
  "hex_digits s = (case takeWhile (\<lambda>c. hex_value c \<noteq> None) s of
     [] \<Rightarrow> None
   | ds \<Rightarrow> Some (fold (\<lambda>c v. v * 16 + the (hex_value c)) ds 0))"

definition js_blank :: "char \<Rightarrow> bool" where
  "js_blank c \<longleftrightarrow> of_char c \<in> {9, 10, 11, 12, 13, 32, 160 :: int}"

definition parseInt16 :: "string \<Rightarrow> int option" where
  "parseInt16 s =
     (let t = dropWhile js_blank s;
          negative = (t \<noteq> [] \<and> hd t = CHR ''-'');
          u = (if t \<noteq> [] \<and> (hd t = CHR ''-'' \<or> hd t = CHR ''+'') then tl t else t);
          v = (if take 2 u = ''0x'' \<or> take 2 u = ''0X'' then drop 2 u else u)
      in map_option (\<lambda>n. if negative then - n else n) (hex_digits v))"

function fromHex_pairs :: "string \<Rightarrow> replay_error + byte list" where
  "fromHex_pairs (a # b # s) = (case parseInt16 [a, b] of
     None \<Rightarrow> Inl BadHexDigit
   | Some v \<Rightarrow> and_then (fromHex_pairs s) (\<lambda>bs. Inr (word_of_int v # bs)))"
| "fromHex_pairs [] = Inr []"
| "fromHex_pairs [a] = Inr []"
  by pat_completeness auto
termination by (relation "measure length") auto

definition fromHex :: "string \<Rightarrow> replay_error + byte list" where
  "fromHex hex = require (even (length hex)) BadHexLength (fromHex_pairs hex)"

section \<open>The layout of a chunk\<close>

definition encode_frame :: "recorded_frame \<Rightarrow> byte list" where
  "encode_frame fr = set_u32 (rf_tick fr) @ set_u8 (if rf_full fr then 1 else 0) @ set_u32 (int (length (rf_bytes fr))) @ rf_bytes fr"

definition encode_visibility :: "recorded_visibility \<Rightarrow> byte list" where
  "encode_visibility vis = set_u32 (rw_tick vis) @ take 8 (rw_masks vis) @ replicate (8 - length (rw_masks vis)) 0"

definition encode_event :: "replay_json \<Rightarrow> recorded_event \<Rightarrow> replay_error + byte list" where
  "encode_event js rec = (let json = rj_event js (rn_event rec) in
     require (length json \<le> MAX_EVENT_JSON_BYTES) EventTooLarge
       (Inr (set_u32 (rn_tick rec) @ set_u16 (int (length json)) @ json)))"

definition encodeRawChunk :: "replay_json \<Rightarrow> chunk_accumulator \<Rightarrow> replay_error + byte list" where
  "encodeRawChunk js chunk =
     and_then (all_of (encode_event js) (ca_events chunk)) (\<lambda>events.
       Inr (set_u32 (int (length (ca_frames chunk))) @ concat (map encode_frame (ca_frames chunk))
         @ set_u32 (int (length (ca_visibilities chunk))) @ concat (map encode_visibility (ca_visibilities chunk))
         @ set_u32 (int (length (ca_events chunk))) @ concat events))"

text \<open>\<open>need(n)\<close>, then the rest; each reader returns what it read and what is left.\<close>

definition has :: "nat \<Rightarrow> byte list \<Rightarrow> replay_error + 'a \<Rightarrow> replay_error + 'a" where
  "has n raw k = require (n \<le> length raw) ChunkTruncated k"

definition read_frame :: "byte list \<Rightarrow> replay_error + recorded_frame \<times> byte list" where
  "read_frame raw = has 9 raw
     (let bodyLen = nat (get_u32 raw 5); body = drop 9 raw in
      has bodyLen body
        (Inr (\<lparr>rf_tick = get_u32 raw 0, rf_full = (get_u8 raw 4 \<noteq> 0), rf_bytes = take bodyLen body\<rparr>, drop bodyLen body)))"

definition read_visibility :: "byte list \<Rightarrow> replay_error + recorded_visibility \<times> byte list" where
  "read_visibility raw = has 12 raw (Inr (\<lparr>rw_tick = get_u32 raw 0, rw_masks = take 8 (drop 4 raw)\<rparr>, drop 12 raw))"

definition read_event :: "replay_json \<Rightarrow> byte list \<Rightarrow> replay_error + recorded_event \<times> byte list" where
  "read_event js raw = has 6 raw
     (let jsonLen = nat (get_u16 raw 4); body = drop 6 raw in
      has jsonLen body
        (case rj_parseEvent js (take jsonLen body) of
           None \<Rightarrow> Inl JsonSyntax
         | Some event \<Rightarrow> Inr (\<lparr>rn_tick = get_u32 raw 0, rn_event = event\<rparr>, drop jsonLen body)))"

fun read_times :: "(byte list \<Rightarrow> replay_error + 'a \<times> byte list) \<Rightarrow> nat \<Rightarrow> byte list \<Rightarrow> replay_error + 'a list \<times> byte list" where
  "read_times f 0 raw = Inr ([], raw)"
| "read_times f (Suc n) raw = and_then (f raw) (\<lambda>(x, rest). and_then (read_times f n rest) (\<lambda>(xs, end). Inr (x # xs, end)))"

text \<open>A count, its limit, and that many entries.\<close>

definition read_block ::
  "(int \<Rightarrow> replay_error) \<Rightarrow> int \<Rightarrow> (byte list \<Rightarrow> replay_error + 'a \<times> byte list) \<Rightarrow> byte list \<Rightarrow> replay_error + 'a list \<times> byte list" where
  "read_block too_many limit f raw = has 4 raw
     (let n = get_u32 raw 0 in require (n \<le> limit) (too_many n) (read_times f (nat n) (drop 4 raw)))"

definition decodeRawChunk :: "replay_json \<Rightarrow> byte list \<Rightarrow> replay_error + chunk_accumulator" where
  "decodeRawChunk js raw =
     and_then (read_block TooManyFrames (int FRAMES_PER_CHUNK * 4) read_frame raw) (\<lambda>(frames, rest1).
     and_then (read_block TooManyVisibilities (int FRAMES_PER_CHUNK * 4) read_visibility rest1) (\<lambda>(visibilities, rest2).
     and_then (read_block TooManyEvents (int FRAMES_PER_CHUNK * 64) (read_event js) rest2) (\<lambda>(events, rest3).
       Inr \<lparr>ca_frames = frames, ca_visibilities = visibilities, ca_events = events\<rparr>)))"

section \<open>Building a container\<close>

text \<open>A chunk on its way into the container: its bytes, its digest, and its entry in the index without the offset.\<close>

record packed_chunk =
  pk_compressed :: "byte list"
  pk_sha256 :: "byte list"
  pk_entry :: chunk_index_entry

definition pack_chunk :: "replay_codec \<Rightarrow> replay_json \<Rightarrow> manifest_base \<Rightarrow> chunk_accumulator \<Rightarrow> replay_error + packed_chunk" where
  "pack_chunk codec js base chunk =
     and_then (encodeRawChunk js chunk) (\<lambda>raw.
       let compressed = cx_gzip codec raw;
           sha256 = cx_sha256 codec compressed;
           ticks = map rf_tick (ca_frames chunk)
       in Inr \<lparr>pk_compressed = compressed, pk_sha256 = sha256,
            pk_entry = \<lparr>ce_startTick = (if ticks = [] then mf_startTick base else hd ticks),
              ce_endTick = (if ticks = [] then mf_startTick base else last ticks), ce_offset = 0,
              ce_compressedLen = int (length compressed), ce_rawLen = int (length raw), ce_sha256 = toHex sha256\<rparr>\<rparr>)"

fun place_chunks :: "int \<Rightarrow> packed_chunk list \<Rightarrow> chunk_index_entry list" where
  "place_chunks cursor [] = []"
| "place_chunks cursor (k # ks) = (pk_entry k)\<lparr>ce_offset := cursor\<rparr> # place_chunks (cursor + int (length (pk_compressed k))) ks"

definition encode_entry :: "chunk_index_entry \<Rightarrow> replay_error + byte list" where
  "encode_entry entry =
     and_then (fromHex (ce_sha256 entry)) (\<lambda>digest. require (length digest \<le> SHA256_BYTES) DigestOutOfRange
       (Inr (set_u32 (ce_startTick entry) @ set_u32 (ce_endTick entry) @ set_u32 (ce_offset entry) @ set_u32 (ce_compressedLen entry)
         @ set_u32 (ce_rawLen entry) @ digest @ replicate (SHA256_BYTES - length digest) 0)))"

definition manifest_of :: "manifest_base \<Rightarrow> int \<Rightarrow> string \<Rightarrow> replay_manifest" where
  "manifest_of base chunkCount rootHash = manifest_base.extend base \<lparr>mf_chunkCount = chunkCount, mf_rootHash = rootHash\<rparr>"

definition buildReplayContainer ::
  "replay_codec \<Rightarrow> replay_json \<Rightarrow> manifest_base \<Rightarrow> chunk_accumulator list \<Rightarrow> replay_error + replay_container" where
  "buildReplayContainer codec js base chunks =
     require (chunks \<noteq> []) NoChunks (require (length chunks \<le> MAX_CHUNKS) TooManyChunks
     (and_then (all_of (pack_chunk codec js base) chunks) (\<lambda>packed.
      let rootHash = toHex (cx_sha256 codec (concat (map pk_sha256 packed)));
          manifestJson = rj_manifest js (manifest_of base (int (length chunks)) rootHash)
      in require (length manifestJson \<le> MAX_MANIFEST_BYTES) ManifestTooLarge
        (let headerLen = 4 + 2 + 4;
             indexLen = 4 + length chunks * CHUNK_INDEX_ENTRY_BYTES;
             fullIndex = place_chunks (int (headerLen + length manifestJson + indexLen)) packed
         in and_then (all_of encode_entry fullIndex) (\<lambda>entries.
           let bytes = ascii REPLAY_MAGIC @ set_u16 REPLAY_CONTAINER_VERSION @ set_u32 (int (length manifestJson)) @ manifestJson
                 @ set_u32 (int (length fullIndex)) @ concat entries @ concat (map pk_compressed packed)
           in Inr \<lparr>rc_bytes = bytes, rc_chunkCount = int (length fullIndex), rc_rootHash = rootHash,
                rc_sizeBytes = int (length bytes)\<rparr>)))))"

section \<open>Reading a container\<close>

definition parse_entry :: "nat \<Rightarrow> byte list \<Rightarrow> replay_error + chunk_index_entry \<times> byte list" where
  "parse_entry fileLen rest =
     require (CHUNK_INDEX_ENTRY_BYTES \<le> length rest) TruncatedIndexEntry
     (let entry = \<lparr>ce_startTick = get_u32 rest 0, ce_endTick = get_u32 rest 4, ce_offset = get_u32 rest 8,
            ce_compressedLen = get_u32 rest 12, ce_rawLen = get_u32 rest 16, ce_sha256 = toHex (take SHA256_BYTES (drop 20 rest))\<rparr>
      in require (ce_rawLen entry \<le> MAX_RAW_CHUNK_BYTES) (TooMuchRawData (ce_rawLen entry))
         (require (ce_offset entry + ce_compressedLen entry \<le> int fileLen) IndexPastEnd
          (Inr (entry, drop CHUNK_INDEX_ENTRY_BYTES rest))))"

definition parseReplayContainer :: "replay_json \<Rightarrow> byte list \<Rightarrow> replay_error + replay_manifest \<times> chunk_index_entry list" where
  "parseReplayContainer js bytes =
     require (10 \<le> length bytes) FileTooShort (require (take 4 bytes = ascii REPLAY_MAGIC) BadMagic
     (let version = get_u16 bytes 4 in require (version = REPLAY_CONTAINER_VERSION) (UnsupportedVersion version)
     (let manifestLen = get_u32 bytes 6; rest = drop 10 bytes
      in require (manifestLen \<le> int MAX_MANIFEST_BYTES \<and> manifestLen \<le> int (length rest)) (BadManifestLength manifestLen)
        (case rj_parseManifest js (take (nat manifestLen) rest) of
           None \<Rightarrow> Inl ManifestNotJson
         | Some manifest \<Rightarrow>
             (let rest1 = drop (nat manifestLen) rest
              in require (4 \<le> length rest1) TruncatedIndexHeader
                (let chunkCount = get_u32 rest1 0
                 in require (chunkCount \<le> int MAX_CHUNKS) (TooManyChunksDeclared chunkCount)
                   (and_then (read_times (parse_entry (length bytes)) (nat chunkCount) (drop 4 rest1)) (\<lambda>(index, _).
                     Inr (manifest, index)))))))))"

definition decodeChunk :: "replay_codec \<Rightarrow> replay_json \<Rightarrow> byte list \<Rightarrow> chunk_index_entry \<Rightarrow> replay_error + chunk_accumulator" where
  "decodeChunk codec js bytes entry =
     require (ce_offset entry + ce_compressedLen entry \<le> int (length bytes)) ChunkOutOfBounds
     (let compressed = take (nat (ce_compressedLen entry)) (drop (nat (ce_offset entry)) bytes)
      in require (toHex (cx_sha256 codec compressed) = ce_sha256 entry) HashMismatch
        (case cx_gunzip codec compressed of
           None \<Rightarrow> Inl GunzipFailed
         | Some raw \<Rightarrow> require (int (length raw) = ce_rawLen entry) RawLengthMismatch (decodeRawChunk js raw)))"

definition verifyRootHash :: "replay_codec \<Rightarrow> replay_manifest \<Rightarrow> chunk_index_entry list \<Rightarrow> replay_error + bool" where
  "verifyRootHash codec manifest index =
     and_then (all_of (\<lambda>entry. fromHex (ce_sha256 entry)) index) (\<lambda>digests.
       Inr (toHex (cx_sha256 codec (concat digests)) = mf_rootHash manifest))"

section \<open>Signatures\<close>

definition SIGNATURE_MAGIC :: string where "SIGNATURE_MAGIC = ''SWSG''"
definition SIGNATURE_KEY_ID_BYTES :: nat where "SIGNATURE_KEY_ID_BYTES = 16"
definition SIGNATURE_BYTES :: nat where "SIGNATURE_BYTES = 64"
definition SIGNATURE_TRAILER_BYTES :: nat where "SIGNATURE_TRAILER_BYTES = SIGNATURE_KEY_ID_BYTES + SIGNATURE_BYTES + 4"

text \<open>The key id as its UTF-8 bytes.\<close>

record replay_signer =
  sg_sign :: "byte list \<Rightarrow> byte list"
  sg_keyId :: "byte list"

record replay_signature =
  rs_keyId :: "byte list"
  rs_signature :: "byte list"
  rs_signedBytes :: "byte list"

definition strip_zeros :: "byte list \<Rightarrow> byte list" where
  "strip_zeros bs = rev (dropWhile (\<lambda>b. b = 0) (rev bs))"

definition readSignature :: "byte list \<Rightarrow> replay_signature option" where
  "readSignature bytes =
     (if length bytes < SIGNATURE_TRAILER_BYTES then None
      else if drop (length bytes - 4) bytes \<noteq> ascii SIGNATURE_MAGIC then None
      else let trailerAt = length bytes - SIGNATURE_TRAILER_BYTES; trailer = drop trailerAt bytes
           in Some \<lparr>rs_keyId = strip_zeros (take SIGNATURE_KEY_ID_BYTES trailer),
                rs_signature = take SIGNATURE_BYTES (drop SIGNATURE_KEY_ID_BYTES trailer), rs_signedBytes = take trailerAt bytes\<rparr>)"

definition signReplayContainer :: "byte list \<Rightarrow> replay_signer \<Rightarrow> replay_error + byte list" where
  "signReplayContainer bytes signer =
     require (length (sg_keyId signer) \<le> SIGNATURE_KEY_ID_BYTES) KeyIdTooLong
     (let signature = sg_sign signer bytes
      in require (length signature = SIGNATURE_BYTES) BadSignatureLength
        (Inr (bytes @ sg_keyId signer @ replicate (SIGNATURE_KEY_ID_BYTES - length (sg_keyId signer)) 0 @ signature
          @ ascii SIGNATURE_MAGIC)))"

datatype signature_check = Signed | Forged | UnknownKey | Absent

definition checkReplaySignature :: "byte list \<Rightarrow> (byte list \<Rightarrow> byte list \<Rightarrow> byte list \<Rightarrow> bool option) \<Rightarrow> signature_check" where
  "checkReplaySignature bytes verify = (case readSignature bytes of
     None \<Rightarrow> Absent
   | Some found \<Rightarrow> (case verify (rs_keyId found) (rs_signedBytes found) (rs_signature found) of
       None \<Rightarrow> UnknownKey | Some True \<Rightarrow> Signed | Some False \<Rightarrow> Forged))"

end
