(* ===== verification/ReplayProps.thy ===== *)
theory ReplayProps
  imports Replay
begin

text \<open>
  What is written into a replay file is read out of it: chunks, index, manifest, digests and signature (theory \<open>Replay\<close>).
\<close>

section \<open>Hexadecimal\<close>

lemma parseInt16_digit:
  assumes "0 \<le> a" "a \<le> 15" "0 \<le> b" "b \<le> 15"
  shows "parseInt16 [hex_digit a, hex_digit b] = Some (16 * a + b)"
proof -
  have "list_all (\<lambda>a. list_all (\<lambda>b. parseInt16 [hex_digit a, hex_digit b] = Some (16 * a + b)) [0..15]) [0..15]"
    by code_simp
  moreover have "a \<in> set [0..15]" "b \<in> set [0..15]" using assms by simp_all
  ultimately show ?thesis unfolding list_all_iff by blast
qed

lemma fromHex_pairs_toHex: "fromHex_pairs (toHex bs) = Inr bs"
proof (induction bs)
  case (Cons b bs)
  have "parseInt16 [hex_digit (uint b div 16), hex_digit (uint b mod 16)] = Some (16 * (uint b div 16) + uint b mod 16)"
  proof (rule parseInt16_digit)
    have "0 \<le> v div 16" "v div 16 \<le> 15" "0 \<le> v mod 16" "v mod 16 \<le> 15" if "0 \<le> v" "v < 256" for v :: int
      using that by presburger+
    then show "0 \<le> uint b div 16" "uint b div 16 \<le> 15" "0 \<le> uint b mod 16" "uint b mod 16 \<le> 15"
      using uint_byte_range [of b] by blast+
  qed
  also have "\<dots> = Some (uint b)" by simp
  finally have "parseInt16 [hex_digit (uint b div 16), hex_digit (uint b mod 16)] = Some (uint b)" .
  then show ?case using Cons by (simp add: toHex_def and_then_def)
qed (simp add: toHex_def)

lemma even_toHex: "even (length (toHex bs))"
  by (induction bs) (simp_all add: toHex_def)

lemma fromHex_toHex [simp]: "fromHex (toHex bs) = Inr bs"
  by (simp add: fromHex_def even_toHex fromHex_pairs_toHex)

section \<open>Entries that read back\<close>

lemma get_at:
  "length xs = i \<Longrightarrow> get_u32 (xs @ ys) i = get_u32 ys 0" "length xs = i \<Longrightarrow> get_u16 (xs @ ys) i = get_u16 ys 0"
  "length xs = i \<Longrightarrow> get_u8 (xs @ ys) i = get_u8 ys 0"
  using get_append [of xs ys 0] by auto

text \<open>A reader undoes a writer on the values that satisfy \<open>ok\<close>, whatever follows.\<close>

locale entry_pair =
  fixes enc :: "'a \<Rightarrow> byte list"
    and read :: "byte list \<Rightarrow> replay_error + 'a \<times> byte list"
    and ok :: "'a \<Rightarrow> bool"
  assumes read_enc: "ok x \<Longrightarrow> read (enc x @ rest) = Inr (x, rest)"
begin

lemma read_all: "list_all ok xs \<Longrightarrow> read_times read (length xs) (concat (map enc xs) @ rest) = Inr (xs, rest)"
  by (induction xs) (simp_all add: read_enc)

lemma read_block_all:
  assumes "list_all ok xs" "int (length xs) \<le> limit" "limit < 4294967296"
  shows "read_block too_many limit read (set_u32 (int (length xs)) @ concat (map enc xs) @ rest) = Inr (xs, rest)"
proof -
  have "get_u32 (set_u32 (int (length xs)) @ concat (map enc xs) @ rest) 0 = int (length xs)" using assms by simp
  then show ?thesis using assms by (simp add: read_block_def has_def require_def read_all Let_def)
qed

end

definition tick_ok :: "int \<Rightarrow> bool" where
  "tick_ok t \<longleftrightarrow> 0 \<le> t \<and> t < 4294967296"

definition frame_ok :: "recorded_frame \<Rightarrow> bool" where
  "frame_ok fr \<longleftrightarrow> tick_ok (rf_tick fr) \<and> int (length (rf_bytes fr)) < 4294967296"

definition visibility_ok :: "recorded_visibility \<Rightarrow> bool" where
  "visibility_ok vis \<longleftrightarrow> tick_ok (rw_tick vis) \<and> length (rw_masks vis) = 8"

definition event_ok :: "replay_json \<Rightarrow> recorded_event \<Rightarrow> bool" where
  "event_ok js rec \<longleftrightarrow> tick_ok (rn_tick rec) \<and> length (rj_event js (rn_event rec)) \<le> MAX_EVENT_JSON_BYTES
     \<and> rj_parseEvent js (rj_event js (rn_event rec)) = Some (rn_event rec)"

definition event_bytes :: "replay_json \<Rightarrow> recorded_event \<Rightarrow> byte list" where
  "event_bytes js rec = set_u32 (rn_tick rec) @ set_u16 (int (length (rj_event js (rn_event rec)))) @ rj_event js (rn_event rec)"

lemma tick_mod [simp]: "tick_ok t \<Longrightarrow> t mod 4294967296 = t"
  by (simp add: tick_ok_def)

lemma drop_u32 [simp]: "drop (4 + n) (set_u32 a @ r) = drop n r" "drop (2 + n) (set_u16 b @ r) = drop n r" "drop (1 + n) (set_u8 c @ r) = drop n r"
  by (simp_all add: drop_append)

interpretation frame: entry_pair encode_frame read_frame frame_ok
proof
  fix fr rest
  assume ok: "frame_ok fr"
  let ?head = "set_u32 (rf_tick fr) @ set_u8 (if rf_full fr then 1 else 0)"
  define raw0 where "raw0 = encode_frame fr @ rest"
  have raw: "raw0 = set_u32 (rf_tick fr) @ set_u8 (if rf_full fr then 1 else 0) @ set_u32 (int (length (rf_bytes fr))) @ rf_bytes fr @ rest"
    by (simp add: raw0_def encode_frame_def)
  have len: "get_u32 raw0 5 = int (length (rf_bytes fr))"
    using get_at(1) [of ?head 5 "set_u32 (int (length (rf_bytes fr))) @ rf_bytes fr @ rest"] ok by (simp add: raw frame_ok_def)
  have full: "(get_u8 raw0 4 \<noteq> 0) = rf_full fr"
    using get_at(3) [of "set_u32 (rf_tick fr)" 4 "set_u8 (if rf_full fr then 1 else 0) @ set_u32 (int (length (rf_bytes fr))) @ rf_bytes fr @ rest"]
    by (simp add: raw)
  have tick: "get_u32 raw0 0 = rf_tick fr" using ok by (simp add: raw frame_ok_def)
  have body: "drop 9 raw0 = rf_bytes fr @ rest" by (simp add: raw drop_append)
  have "9 \<le> length raw0" by (simp add: raw)
  then show "read_frame (encode_frame fr @ rest) = Inr (fr, rest)"
    unfolding raw0_def [symmetric]
    by (simp add: read_frame_def has_def require_def len full tick body Let_def)
qed

interpretation visibility: entry_pair encode_visibility read_visibility visibility_ok
proof
  fix vis rest
  assume "visibility_ok vis"
  then show "read_visibility (encode_visibility vis @ rest) = Inr (vis, rest)"
    by (simp add: read_visibility_def encode_visibility_def visibility_ok_def has_def require_def drop_append)
qed

interpretation event: entry_pair "event_bytes js" "read_event js" "event_ok js" for js
proof
  fix rec rest
  assume ok: "event_ok js rec"
  let ?json = "rj_event js (rn_event rec)"
  define raw0 where "raw0 = event_bytes js rec @ rest"
  have raw: "raw0 = set_u32 (rn_tick rec) @ set_u16 (int (length ?json)) @ ?json @ rest" by (simp add: raw0_def event_bytes_def)
  have len: "get_u16 raw0 4 = int (length ?json)"
    using get_at(2) [of "set_u32 (rn_tick rec)" 4 "set_u16 (int (length ?json)) @ ?json @ rest"] ok
    by (simp add: raw event_ok_def MAX_EVENT_JSON_BYTES_def)
  have tick: "get_u32 raw0 0 = rn_tick rec" using ok by (simp add: raw event_ok_def)
  have body: "drop 6 raw0 = ?json @ rest" by (simp add: raw drop_append)
  have "6 \<le> length raw0" by (simp add: raw)
  then show "read_event js (event_bytes js rec @ rest) = Inr (rec, rest)"
    unfolding raw0_def [symmetric]
    using ok by (simp add: read_event_def has_def require_def len tick body event_ok_def Let_def)
qed

text \<open>A chunk within the limits of the reader.\<close>

definition chunk_ok :: "replay_json \<Rightarrow> chunk_accumulator \<Rightarrow> bool" where
  "chunk_ok js c \<longleftrightarrow> list_all frame_ok (ca_frames c) \<and> list_all visibility_ok (ca_visibilities c) \<and> list_all (event_ok js) (ca_events c)
     \<and> length (ca_frames c) \<le> FRAMES_PER_CHUNK * 4 \<and> length (ca_visibilities c) \<le> FRAMES_PER_CHUNK * 4
     \<and> length (ca_events c) \<le> FRAMES_PER_CHUNK * 64"

lemma encode_events: "list_all (event_ok js) es \<Longrightarrow> all_of (encode_event js) es = Inr (map (event_bytes js) es)"
  by (induction es) (simp_all add: encode_event_def event_ok_def event_bytes_def require_def Let_def)

lemma decodeRawChunk_encodeRawChunk:
  assumes "chunk_ok js c"
  obtains raw where "encodeRawChunk js c = Inr raw" "decodeRawChunk js raw = Inr c"
proof -
  let ?es = "set_u32 (int (length (ca_events c))) @ concat (map (event_bytes js) (ca_events c))"
  let ?vs = "set_u32 (int (length (ca_visibilities c))) @ concat (map encode_visibility (ca_visibilities c))"
  let ?fs = "set_u32 (int (length (ca_frames c))) @ concat (map encode_frame (ca_frames c))"
  have enc: "encodeRawChunk js c = Inr (?fs @ ?vs @ ?es)"
    using assms by (simp add: encodeRawChunk_def chunk_ok_def encode_events)
  have lim: "int FRAMES_PER_CHUNK * 4 < 4294967296" "int FRAMES_PER_CHUNK * 64 < 4294967296" by (simp_all add: FRAMES_PER_CHUNK_def)
  have "read_block TooManyFrames (int FRAMES_PER_CHUNK * 4) read_frame (?fs @ ?vs @ ?es) = Inr (ca_frames c, ?vs @ ?es)"
    using frame.read_block_all [OF _ _ lim(1), of "ca_frames c" TooManyFrames "?vs @ ?es"] assms by (simp add: chunk_ok_def)
  moreover have "read_block TooManyVisibilities (int FRAMES_PER_CHUNK * 4) read_visibility (?vs @ ?es) = Inr (ca_visibilities c, ?es)"
    using visibility.read_block_all [OF _ _ lim(1), of "ca_visibilities c" TooManyVisibilities ?es] assms by (simp add: chunk_ok_def)
  moreover have "read_block TooManyEvents (int FRAMES_PER_CHUNK * 64) (read_event js) ?es = Inr (ca_events c, [])"
    using event.read_block_all [OF _ _ lim(2), of js "ca_events c" TooManyEvents "[]"] assms by (simp add: chunk_ok_def)
  ultimately have "decodeRawChunk js (?fs @ ?vs @ ?es) = Inr c" by (simp add: decodeRawChunk_def)
  with enc show thesis by (rule that)
qed

section \<open>Index entries\<close>

definition entry_ok :: "nat \<Rightarrow> chunk_index_entry \<Rightarrow> bool" where
  "entry_ok fileLen entry \<longleftrightarrow> tick_ok (ce_startTick entry) \<and> tick_ok (ce_endTick entry) \<and> tick_ok (ce_offset entry)
     \<and> tick_ok (ce_compressedLen entry) \<and> 0 \<le> ce_rawLen entry \<and> ce_rawLen entry \<le> MAX_RAW_CHUNK_BYTES
     \<and> ce_offset entry + ce_compressedLen entry \<le> int fileLen
     \<and> (\<exists>digest. length digest = SHA256_BYTES \<and> ce_sha256 entry = toHex digest)"

definition entry_bytes :: "chunk_index_entry \<Rightarrow> byte list" where
  "entry_bytes entry = set_u32 (ce_startTick entry) @ set_u32 (ce_endTick entry) @ set_u32 (ce_offset entry)
     @ set_u32 (ce_compressedLen entry) @ set_u32 (ce_rawLen entry) @ projr (fromHex (ce_sha256 entry))"

lemma encode_entry_digest:
  assumes "length digest = SHA256_BYTES" "ce_sha256 entry = toHex digest"
  shows "encode_entry entry = Inr (entry_bytes entry)" "length (entry_bytes entry) = CHUNK_INDEX_ENTRY_BYTES"
  using assms by (simp_all add: encode_entry_def entry_bytes_def require_def and_then_def CHUNK_INDEX_ENTRY_BYTES_def)

lemma length_entry_bytes: "entry_ok n entry \<Longrightarrow> length (entry_bytes entry) = CHUNK_INDEX_ENTRY_BYTES"
  using encode_entry_digest(2) by (auto simp: entry_ok_def)

text \<open>Five fields of four bytes.\<close>

lemma get_fields:
  "get_u32 (set_u32 a @ r) 0 = a mod 4294967296"
  "get_u32 (set_u32 a @ set_u32 b @ r) 4 = b mod 4294967296"
  "get_u32 (set_u32 a @ set_u32 b @ set_u32 c @ r) 8 = c mod 4294967296"
  "get_u32 (set_u32 a @ set_u32 b @ set_u32 c @ set_u32 d @ r) 12 = d mod 4294967296"
  "get_u32 (set_u32 a @ set_u32 b @ set_u32 c @ set_u32 d @ set_u32 e @ r) 16 = e mod 4294967296"
  using get_at(1) [of "set_u32 a" 4 "set_u32 b @ r"] get_at(1) [of "set_u32 a @ set_u32 b" 8 "set_u32 c @ r"]
    get_at(1) [of "set_u32 a @ set_u32 b @ set_u32 c" 12 "set_u32 d @ r"]
    get_at(1) [of "set_u32 a @ set_u32 b @ set_u32 c @ set_u32 d" 16 "set_u32 e @ r"] by simp_all

interpretation entry: entry_pair entry_bytes "parse_entry n" "entry_ok n" for n
proof
  fix entry rest
  assume ok: "entry_ok n entry"
  then obtain digest where d: "length digest = SHA256_BYTES" "ce_sha256 entry = toHex digest" by (auto simp: entry_ok_def)
  define raw where "raw = entry_bytes entry @ rest"
  have raw: "raw = set_u32 (ce_startTick entry) @ set_u32 (ce_endTick entry) @ set_u32 (ce_offset entry)
     @ set_u32 (ce_compressedLen entry) @ set_u32 (ce_rawLen entry) @ digest @ rest"
    by (simp add: raw_def entry_bytes_def d(2))
  have ticks: "tick_ok (ce_startTick entry)" "tick_ok (ce_endTick entry)" "tick_ok (ce_offset entry)" "tick_ok (ce_compressedLen entry)"
    "tick_ok (ce_rawLen entry)"
    using ok by (auto simp: entry_ok_def tick_ok_def MAX_RAW_CHUNK_BYTES_def)
  have fields: "get_u32 raw 0 = ce_startTick entry" "get_u32 raw 4 = ce_endTick entry" "get_u32 raw 8 = ce_offset entry"
    "get_u32 raw 12 = ce_compressedLen entry" "get_u32 raw 16 = ce_rawLen entry"
    unfolding raw get_fields using ticks by simp_all
  have dig: "take SHA256_BYTES (drop 20 raw) = digest" using d(1) by (simp add: raw drop_append)
  have len: "length (entry_bytes entry) = CHUNK_INDEX_ENTRY_BYTES" by (rule length_entry_bytes [OF ok])
  then have rest: "drop CHUNK_INDEX_ENTRY_BYTES raw = rest" "CHUNK_INDEX_ENTRY_BYTES \<le> length raw" by (simp_all add: raw_def)
  have lim: "ce_rawLen entry \<le> MAX_RAW_CHUNK_BYTES" "ce_offset entry + ce_compressedLen entry \<le> int n" using ok by (simp_all add: entry_ok_def)
  show "parse_entry n (entry_bytes entry @ rest) = Inr (entry, rest)"
    unfolding raw_def [symmetric] parse_entry_def Let_def fields dig rest require_def chunk_index_entry.simps
    using rest lim d(2) by simp
qed

section \<open>Containers\<close>

text \<open>What the code relies on of the two algorithms it is given.\<close>

definition codec_ok :: "replay_codec \<Rightarrow> bool" where
  "codec_ok codec \<longleftrightarrow> (\<forall>x. cx_gunzip codec (cx_gzip codec x) = Some x) \<and> (\<forall>x. length (cx_sha256 codec x) = SHA256_BYTES)"

text \<open>Where a chunk goes, relative to the file.\<close>

lemma place_chunks_length [simp]: "length (place_chunks cursor ks) = length ks"
  by (induction ks arbitrary: cursor) simp_all

lemma place_chunks_nth:
  "i < length ks \<Longrightarrow> place_chunks cursor ks ! i
     = (pk_entry (ks ! i))\<lparr>ce_offset := cursor + int (length (concat (map pk_compressed (take i ks))))\<rparr>"
proof (induction ks arbitrary: cursor i)
  case (Cons k ks)
  then show ?case by (cases i) (simp_all add: algebra_simps)
qed simp

lemma concat_take_drop:
  "i < length xs \<Longrightarrow> take (length (xs ! i)) (drop (length (concat (take i xs))) (concat xs @ rest)) = xs ! i"
proof (induction xs arbitrary: i)
  case (Cons x xs)
  then show ?case by (cases i) simp_all
qed simp

lemma pack_chunk_ok:
  assumes "chunk_ok js c" "pack_chunk codec js base c = Inr k" "codec_ok codec"
  obtains raw where "encodeRawChunk js c = Inr raw" "decodeRawChunk js raw = Inr c" "pk_compressed k = cx_gzip codec raw"
    "pk_sha256 k = cx_sha256 codec (cx_gzip codec raw)" "ce_sha256 (pk_entry k) = toHex (pk_sha256 k)"
    "ce_compressedLen (pk_entry k) = int (length (pk_compressed k))" "ce_rawLen (pk_entry k) = int (length raw)"
    "length (pk_sha256 k) = SHA256_BYTES"
proof -
  obtain raw where "encodeRawChunk js c = Inr raw" "decodeRawChunk js raw = Inr c"
    by (rule decodeRawChunk_encodeRawChunk [OF assms(1)])
  with assms(2,3) show thesis
    by (intro that [of raw]) (auto simp: pack_chunk_def Let_def codec_ok_def and_then_def split: sum.splits)
qed

lemma pack_chunk_ticks:
  assumes "chunk_ok js c" "pack_chunk codec js base c = Inr k" "tick_ok (mf_startTick base)"
  shows "tick_ok (ce_startTick (pk_entry k)) \<and> tick_ok (ce_endTick (pk_entry k))"
proof -
  let ?ticks = "map rf_tick (ca_frames c)"
  have ok: "list_all tick_ok ?ticks" using assms(1) by (auto simp: chunk_ok_def list_all_iff frame_ok_def)
  have "ce_startTick (pk_entry k) = (if ?ticks = [] then mf_startTick base else hd ?ticks)"
    "ce_endTick (pk_entry k) = (if ?ticks = [] then mf_startTick base else last ?ticks)"
    using assms(2) unfolding pack_chunk_def Let_def and_then_Inr by auto
  moreover have "tick_ok t" if "t \<in> set ?ticks" for t using ok that unfolding list_all_iff by blast
  ultimately show ?thesis using assms(3) hd_in_set [of ?ticks] last_in_set [of ?ticks] by (cases "?ticks = []") metis+
qed

definition chunk_fits :: "replay_json \<Rightarrow> chunk_accumulator \<Rightarrow> bool" where
  "chunk_fits js c \<longleftrightarrow> chunk_ok js c \<and> int (length (projr (encodeRawChunk js c))) \<le> MAX_RAW_CHUNK_BYTES"

lemma all_of_map: "(\<And>x. x \<in> set xs \<Longrightarrow> f x = Inr (g x)) \<Longrightarrow> all_of f xs = Inr (map g xs)"
  by (induction xs) (simp_all add: and_then_def)

lemma all_of_nth: "all_of f xs = Inr ys \<longleftrightarrow> length ys = length xs \<and> (\<forall>i < length xs. f (xs ! i) = Inr (ys ! i))"
  unfolding all_of_Inr list_all2_conv_all_nth by auto

lemma concat_prefix_length: "i < length xs \<Longrightarrow> length (concat (take i xs)) + length (xs ! i) \<le> length (concat xs)"
proof (induction xs arbitrary: i)
  case (Cons x xs)
  then show ?case by (cases i) simp_all
qed simp

text \<open>The bytes of a container: everything before the chunks, and the chunks.\<close>

definition container_head :: "byte list \<Rightarrow> chunk_index_entry list \<Rightarrow> byte list" where
  "container_head manifestJson index = ascii REPLAY_MAGIC @ set_u16 REPLAY_CONTAINER_VERSION @ set_u32 (int (length manifestJson)) @ manifestJson
     @ set_u32 (int (length index)) @ concat (map entry_bytes index)"

lemma build_layout:
  assumes build: "buildReplayContainer codec js base chunks = Inr container" and codec: "codec_ok codec"
    and fits: "list_all (chunk_fits js) chunks" and start: "tick_ok (mf_startTick base)" and size: "rc_sizeBytes container < 4294967296"
  obtains packed index manifestJson where
    "all_of (pack_chunk codec js base) chunks = Inr packed"
    "manifestJson = rj_manifest js (manifest_of base (int (length chunks)) (rc_rootHash container))"
    "length manifestJson \<le> MAX_MANIFEST_BYTES" "chunks \<noteq> []" "length chunks \<le> MAX_CHUNKS"
    "index = place_chunks (int (length (container_head manifestJson index))) packed"
    "rc_bytes container = container_head manifestJson index @ concat (map pk_compressed packed)"
    "rc_rootHash container = toHex (cx_sha256 codec (concat (map pk_sha256 packed)))"
    "list_all (entry_ok (length (rc_bytes container))) index"
proof -
  obtain packed where packed: "all_of (pack_chunk codec js base) chunks = Inr packed"
    using build by (auto simp: buildReplayContainer_def)
  define root where "root = toHex (cx_sha256 codec (concat (map pk_sha256 packed)))"
  define json where "json = rj_manifest js (manifest_of base (int (length chunks)) root)"
  define cursor where "cursor = 4 + 2 + 4 + length json + (4 + length chunks * CHUNK_INDEX_ENTRY_BYTES)"
  define index where "index = place_chunks (int cursor) packed"
  have n: "length packed = length chunks" using packed by (rule all_of_length)
  have ret: "and_then (Inr v) f = f v" for v and f :: "packed_chunk list \<Rightarrow> replay_error + replay_container"
    by (simp add: and_then_def)
  have "require (chunks \<noteq> []) NoChunks (require (length chunks \<le> MAX_CHUNKS) TooManyChunks
      (require (length json \<le> MAX_MANIFEST_BYTES) ManifestTooLarge (and_then (all_of encode_entry index) (\<lambda>entries.
        Inr \<lparr>rc_bytes = ascii REPLAY_MAGIC @ set_u16 REPLAY_CONTAINER_VERSION @ set_u32 (int (length json)) @ json
                 @ set_u32 (int (length index)) @ concat entries @ concat (map pk_compressed packed),
             rc_chunkCount = int (length index), rc_rootHash = root,
             rc_sizeBytes = int (length (ascii REPLAY_MAGIC @ set_u16 REPLAY_CONTAINER_VERSION @ set_u32 (int (length json)) @ json
                 @ set_u32 (int (length index)) @ concat entries @ concat (map pk_compressed packed)))\<rparr>)))) = Inr container"
    using build unfolding buildReplayContainer_def Let_def packed ret root_def [symmetric] json_def [symmetric]
      cursor_def [symmetric] index_def [symmetric] .
  then obtain entries where from_build: "chunks \<noteq> []" "length chunks \<le> MAX_CHUNKS" "length json \<le> MAX_MANIFEST_BYTES"
    and entries: "all_of encode_entry index = Inr entries"
    and parts: "rc_bytes container = ascii REPLAY_MAGIC @ set_u16 REPLAY_CONTAINER_VERSION @ set_u32 (int (length json)) @ json
       @ set_u32 (int (length index)) @ concat entries @ concat (map pk_compressed packed)"
      "rc_rootHash container = root" "rc_sizeBytes container = int (length (rc_bytes container))"
    unfolding require_Inr and_then_Inr by auto
  have packing: "chunk_ok js (chunks ! i)" "int (length (projr (encodeRawChunk js (chunks ! i)))) \<le> MAX_RAW_CHUNK_BYTES"
      "pack_chunk codec js base (chunks ! i) = Inr (packed ! i)" if "i < length packed" for i
    using fits packed that n by (simp_all add: all_of_nth list_all_length chunk_fits_def)
  have at: "index ! i = (pk_entry (packed ! i))\<lparr>ce_offset := int cursor + int (length (concat (map pk_compressed (take i packed))))\<rparr>"
    if "i < length packed" for i using that by (simp add: index_def place_chunks_nth)
  have len: "length index = length packed" by (simp add: index_def)
  have digest: "length (pk_sha256 (packed ! i)) = SHA256_BYTES \<and> ce_sha256 (index ! i) = toHex (pk_sha256 (packed ! i))"
    if i: "i < length packed" for i
  proof -
    obtain raw where "ce_sha256 (pk_entry (packed ! i)) = toHex (pk_sha256 (packed ! i))" "length (pk_sha256 (packed ! i)) = SHA256_BYTES"
      "encodeRawChunk js (chunks ! i) = Inr raw"
      by (rule pack_chunk_ok [OF packing(1,3) [OF i] codec])
    then show ?thesis by (simp add: at [OF i])
  qed
  have enc: "encode_entry e = Inr (entry_bytes e) \<and> length (entry_bytes e) = CHUNK_INDEX_ENTRY_BYTES" if "e \<in> set index" for e
  proof -
    obtain i where "i < length packed" "e = index ! i" using \<open>e \<in> _\<close> len by (auto simp: in_set_conv_nth)
    with digest encode_entry_digest show ?thesis by blast
  qed
  then have ent: "entries = map entry_bytes index" using entries all_of_map [of index encode_entry entry_bytes] by simp
  have "length (concat (map entry_bytes index)) = length index * CHUNK_INDEX_ENTRY_BYTES"
  proof -
    have "length (concat (map entry_bytes es)) = length es * CHUNK_INDEX_ENTRY_BYTES" if "set es \<subseteq> set index" for es
      using that enc by (induction es) auto
    then show ?thesis by blast
  qed
  then have head: "length (container_head json index) = cursor"
    by (simp add: container_head_def cursor_def ascii_def REPLAY_MAGIC_def len n)
  have bytes: "rc_bytes container = container_head json index @ concat (map pk_compressed packed)"
    by (simp add: parts(1) ent container_head_def)
  have total: "length (rc_bytes container) = cursor + length (concat (map pk_compressed packed))" by (simp add: bytes head)
  have "entry_ok (length (rc_bytes container)) (index ! i)" if i: "i < length packed" for i
  proof -
    obtain raw where r: "encodeRawChunk js (chunks ! i) = Inr raw" "ce_compressedLen (pk_entry (packed ! i)) = int (length (pk_compressed (packed ! i)))"
      "ce_rawLen (pk_entry (packed ! i)) = int (length raw)"
      by (rule pack_chunk_ok [OF packing(1,3) [OF i] codec])
    have ticks: "tick_ok (ce_startTick (pk_entry (packed ! i)))" "tick_ok (ce_endTick (pk_entry (packed ! i)))"
      using pack_chunk_ticks [OF packing(1,3) [OF i] start] by simp_all
    have inside: "cursor + length (concat (map pk_compressed (take i packed))) + length (pk_compressed (packed ! i)) \<le> length (rc_bytes container)"
      using concat_prefix_length [of i "map pk_compressed packed"] i by (simp add: total take_map)
    show ?thesis
      using ticks r packing(2) [OF i] inside size parts(3) digest [OF i]
      by (auto simp: entry_ok_def at [OF i] tick_ok_def)
  qed
  then have ok: "list_all (entry_ok (length (rc_bytes container))) index" by (simp add: list_all_length len)
  have placed: "index = place_chunks (int (length (container_head json index))) packed" unfolding head by (rule index_def)
  show thesis
    by (rule that [OF packed json_def [folded parts(2)] from_build(3,1,2) placed bytes parts(2) [unfolded root_def] ok])
qed

lemma entry_ok_longer: "entry_ok n entry \<Longrightarrow> n \<le> m \<Longrightarrow> entry_ok m entry"
  by (auto simp: entry_ok_def)

text \<open>Parsing the head of a container, whatever follows it.\<close>

lemma parse_head:
  assumes json: "length json \<le> MAX_MANIFEST_BYTES" "rj_parseManifest js json = Some manifest"
    and index: "list_all (entry_ok (length (container_head json index @ rest))) index" "length index \<le> MAX_CHUNKS"
  shows "parseReplayContainer js (container_head json index @ rest) = Inr (manifest, index)"
proof -
  let ?body = "set_u32 (int (length index)) @ concat (map entry_bytes index) @ rest"
  define raw where "raw = container_head json index @ rest"
  have raw: "raw = ascii REPLAY_MAGIC @ set_u16 REPLAY_CONTAINER_VERSION @ set_u32 (int (length json)) @ json @ ?body"
    by (simp add: raw_def container_head_def)
  have magic: "length (ascii REPLAY_MAGIC) = 4" by (simp add: ascii_def REPLAY_MAGIC_def)
  have a: "10 \<le> length raw" "take 4 raw = ascii REPLAY_MAGIC" by (simp_all add: raw magic)
  have v: "get_u16 raw 4 = REPLAY_CONTAINER_VERSION"
    using get_at(2) [OF magic, of "set_u16 REPLAY_CONTAINER_VERSION @ set_u32 (int (length json)) @ json @ ?body"]
    by (simp add: raw REPLAY_CONTAINER_VERSION_def)
  have m: "get_u32 raw 6 = int (length json)"
    using get_at(1) [of "ascii REPLAY_MAGIC @ set_u16 REPLAY_CONTAINER_VERSION" 6 "set_u32 (int (length json)) @ json @ ?body"] json(1)
    by (simp add: raw magic MAX_MANIFEST_BYTES_def)
  have d: "drop 10 raw = json @ ?body" by (simp add: raw magic drop_append)
  have n: "get_u32 ?body 0 = int (length index)" using index(2) by (simp add: MAX_CHUNKS_def)
  have e: "read_times (parse_entry (length raw)) (length index) (concat (map entry_bytes index) @ rest) = Inr (index, rest)"
    using entry.read_all [OF index(1) [folded raw_def]] .
  have "drop 4 ?body = concat (map entry_bytes index) @ rest" "4 \<le> length ?body" by simp_all
  with a v m d n e json index(2) show ?thesis
    unfolding raw_def [symmetric] parseReplayContainer_def Let_def by (simp add: require_def and_then_def)
qed

section \<open>Properties\<close>

text \<open>
  C10. A replay file holds what was recorded. If a container is built from chunks within the limits, then reading the file - also with
  a signature behind it - gives the manifest, an index with one entry per chunk, and each chunk as it was recorded: every frame,
  visibility mask and event. The digests of the chunks and the root hash of the manifest check. Relied on: decompression undoes
  compression, digests have 32 bytes, and the JSON of these events and of this manifest reads back.
\<close>

theorem replay_roundtrip:
  assumes "codec_ok codec" and "list_all (chunk_fits js) chunks" and "tick_ok (mf_startTick base)"
    and build: "buildReplayContainer codec js base chunks = Inr container" and "rc_sizeBytes container < 4294967296"
    and manifest: "manifest = manifest_of base (int (length chunks)) (rc_rootHash container)"
      "rj_parseManifest js (rj_manifest js manifest) = Some manifest"
  shows "\<exists>index. parseReplayContainer js (rc_bytes container @ trailer) = Inr (manifest, index)
     \<and> all_of (decodeChunk codec js (rc_bytes container @ trailer)) index = Inr chunks
     \<and> verifyRootHash codec manifest index = Inr True"
proof -
  obtain packed index json where L: "all_of (pack_chunk codec js base) chunks = Inr packed"
    "json = rj_manifest js manifest" "length json \<le> MAX_MANIFEST_BYTES" "chunks \<noteq> []" "length chunks \<le> MAX_CHUNKS"
    "index = place_chunks (int (length (container_head json index))) packed"
    "rc_bytes container = container_head json index @ concat (map pk_compressed packed)"
    "rc_rootHash container = toHex (cx_sha256 codec (concat (map pk_sha256 packed)))"
    "list_all (entry_ok (length (rc_bytes container))) index"
    unfolding manifest(1) by (rule build_layout [OF build assms(1-3) assms(5)])
  let ?bytes = "rc_bytes container @ trailer"
  have n: "length packed = length chunks" using L(1) by (rule all_of_length)
  have len: "length index = length packed" using place_chunks_length [of _ packed] by (subst L(6)) simp
  have at: "index ! i = (pk_entry (packed ! i))\<lparr>ce_offset := int (length (container_head json index) + length (concat (take i (map pk_compressed packed))))\<rparr>"
    if "i < length packed" for i by (subst L(6)) (simp add: that place_chunks_nth take_map)
  have parse: "parseReplayContainer js ?bytes = Inr (manifest, index)"
  proof -
    have "list_all (entry_ok (length (container_head json index @ (concat (map pk_compressed packed) @ trailer)))) index"
      using L(9) entry_ok_longer by (auto simp: L(7) list_all_iff)
    from parse_head [OF L(3) manifest(2) [folded L(2)] this] L(5) show ?thesis by (simp add: L(7) len n)
  qed
  have decode: "decodeChunk codec js ?bytes (index ! i) = Inr (chunks ! i)" if i: "i < length packed" for i
  proof -
    have c: "chunk_ok js (chunks ! i)" "pack_chunk codec js base (chunks ! i) = Inr (packed ! i)"
      using assms(2) L(1) i n by (simp_all add: all_of_nth list_all_length chunk_fits_def)
    obtain raw where r: "decodeRawChunk js raw = Inr (chunks ! i)" "pk_compressed (packed ! i) = cx_gzip codec raw"
      "pk_sha256 (packed ! i) = cx_sha256 codec (cx_gzip codec raw)" "ce_sha256 (pk_entry (packed ! i)) = toHex (pk_sha256 (packed ! i))"
      "ce_compressedLen (pk_entry (packed ! i)) = int (length (pk_compressed (packed ! i)))" "ce_rawLen (pk_entry (packed ! i)) = int (length raw)"
      by (rule pack_chunk_ok [OF c assms(1)])
    let ?off = "length (container_head json index) + length (concat (take i (map pk_compressed packed)))"
    have "drop ?off ?bytes = drop (length (concat (take i (map pk_compressed packed)))) (concat (map pk_compressed packed) @ trailer)"
      by (simp add: L(7))
    then have body: "take (length (pk_compressed (packed ! i))) (drop ?off ?bytes) = pk_compressed (packed ! i)"
      using concat_take_drop [of i "map pk_compressed packed" trailer] i by simp
    have inside: "?off + length (pk_compressed (packed ! i)) \<le> length ?bytes"
      using concat_prefix_length [of i "map pk_compressed packed"] i by (simp add: L(7))
    have gz: "cx_gunzip codec (pk_compressed (packed ! i)) = Some raw" using assms(1) r(2) by (simp add: codec_ok_def)
    have hash: "toHex (cx_sha256 codec (pk_compressed (packed ! i))) = ce_sha256 (pk_entry (packed ! i))" using r by simp
    have E: "ce_offset (index ! i) = int ?off" "ce_compressedLen (index ! i) = int (length (pk_compressed (packed ! i)))"
      "ce_sha256 (index ! i) = ce_sha256 (pk_entry (packed ! i))" "ce_rawLen (index ! i) = int (length raw)"
      by (simp_all add: at [OF i] r(5,6))
    have "int ?off + int (length (pk_compressed (packed ! i))) \<le> int (length ?bytes)" using inside by linarith
    then show ?thesis
      unfolding decodeChunk_def Let_def E nat_int body by (simp add: require_def hash gz r(1))
  qed
  have "ce_sha256 (index ! i) = toHex (pk_sha256 (packed ! i))" if i: "i < length packed" for i
  proof -
    have c: "chunk_ok js (chunks ! i)" "pack_chunk codec js base (chunks ! i) = Inr (packed ! i)"
      using assms(2) L(1) i n by (simp_all add: all_of_nth list_all_length chunk_fits_def)
    obtain raw where "ce_sha256 (pk_entry (packed ! i)) = toHex (pk_sha256 (packed ! i))" "encodeRawChunk js (chunks ! i) = Inr raw"
      by (rule pack_chunk_ok [OF c assms(1)])
    then show ?thesis by (simp add: at [OF i])
  qed
  then have "all_of (\<lambda>entry. fromHex (ce_sha256 entry)) index = Inr (map pk_sha256 packed)"
    by (simp add: all_of_nth len)
  then have root: "verifyRootHash codec manifest index = Inr True"
    by (simp add: verifyRootHash_def and_then_def manifest(1) L(8) manifest_of_def manifest_base.defs)
  have "all_of (decodeChunk codec js ?bytes) index = Inr chunks" using decode by (simp add: all_of_nth len n)
  with parse root show ?thesis by blast
qed

definition demo_codec :: replay_codec where
  "demo_codec = \<lparr>cx_gzip = (\<lambda>x. x), cx_gunzip = Some, cx_sha256 = (\<lambda>_. replicate 32 0)\<rparr>"

definition demo_event :: replay_event where
  "demo_event = \<lparr>rv_kind = ''tagged'', rv_playerId = 1, rv_by = Some 2, rv_fromX = None, rv_fromY = None, rv_slot = None,
     rv_targetPlayerId = None, rv_skillId = None\<rparr>"

definition demo_chunk :: chunk_accumulator where
  "demo_chunk = \<lparr>ca_frames = [\<lparr>rf_tick = 2, rf_full = True, rf_bytes = [5, 6, 7]\<rparr>, \<lparr>rf_tick = 4, rf_full = False, rf_bytes = []\<rparr>],
     ca_visibilities = [\<lparr>rw_tick = 2, rw_masks = replicate 8 3\<rparr>], ca_events = [\<lparr>rn_tick = 3, rn_event = demo_event\<rparr>]\<rparr>"

definition demo_base :: manifest_base where
  "demo_base = \<lparr>mf_replayFormatVersion = 1, mf_matchId = ''m'', mf_mapId = ''city'', mf_snapshotHz = 30, mf_startTick = 0, mf_endTick = 4,
     mf_durationTicks = 4, mf_buildId = ''b'', mf_protocolVersion = 1, mf_rulesVersion = ''r'', mf_mapBundleHash = ''h'',
     mf_visibilityCoreVersion = 1, mf_recordedAt = None, mf_participants = []\<rparr>"

text \<open>A text from which these two can be read: of this event and of the manifest with this root hash.\<close>

definition demo_json :: replay_json where
  "demo_json = \<lparr>rj_event = (\<lambda>_. [1]), rj_parseEvent = (\<lambda>_. Some demo_event), rj_manifest = (\<lambda>m. ascii (mf_rootHash m)),
     rj_parseManifest = (\<lambda>bs. Some (manifest_of demo_base 2 (toHex (replicate 32 0))))\<rparr>"

lemma demo_container:
  obtains c where "buildReplayContainer demo_codec demo_json demo_base [demo_chunk, demo_chunk] = Inr c" "rc_sizeBytes c < 4294967296"
    "rc_rootHash c = toHex (replicate 32 0)"
proof -
  have events: "encode_event demo_json \<lparr>rn_tick = 3, rn_event = demo_event\<rparr> = Inr (set_u32 3 @ set_u16 1 @ [1])"
    by (simp add: encode_event_def demo_json_def require_def MAX_EVENT_JSON_BYTES_def Let_def)
  obtain raw where raw: "encodeRawChunk demo_json demo_chunk = Inr raw" "length raw < 100"
    by (simp add: encodeRawChunk_def demo_chunk_def and_then_def events encode_frame_def encode_visibility_def)
  obtain k where k: "pack_chunk demo_codec demo_json demo_base demo_chunk = Inr k" "pk_compressed k = raw" "pk_sha256 k = replicate 32 0"
    "ce_sha256 (pk_entry k) = toHex (replicate 32 0)"
    by (simp add: pack_chunk_def raw and_then_def demo_codec_def Let_def)
  have hash: "length (toHex (replicate 32 0)) = 64" by (simp add: toHex_def length_concat comp_def sum_list_replicate)
  have packed: "all_of (pack_chunk demo_codec demo_json demo_base) [demo_chunk, demo_chunk] = Inr [k, k]"
    by (simp add: k(1) and_then_def)
  have root: "toHex (cx_sha256 demo_codec x) = toHex (replicate 32 0)" for x by (simp add: demo_codec_def)
  have json: "rj_manifest demo_json (manifest_of demo_base n h) = ascii h" for n h
    by (simp add: demo_json_def manifest_of_def manifest_base.defs)
  have entry: "encode_entry ((pk_entry k)\<lparr>ce_offset := n\<rparr>) = Inr (entry_bytes ((pk_entry k)\<lparr>ce_offset := n\<rparr>))"
    "length (entry_bytes ((pk_entry k)\<lparr>ce_offset := n\<rparr>)) = CHUNK_INDEX_ENTRY_BYTES" for n
    using encode_entry_digest [of "replicate 32 0" "(pk_entry k)\<lparr>ce_offset := n\<rparr>"] k(4) by (simp_all add: SHA256_BYTES_def)
  have entries: "all_of encode_entry (place_chunks n [k, k]) = Inr (map entry_bytes (place_chunks n [k, k]))" for n
    by (simp add: entry and_then_def)
  have "\<exists>c. buildReplayContainer demo_codec demo_json demo_base [demo_chunk, demo_chunk] = Inr c \<and> rc_sizeBytes c < 4294967296
      \<and> rc_rootHash c = toHex (replicate 32 0)"
    unfolding buildReplayContainer_def packed Let_def root json entries and_then_def sum.case
    using raw(2) hash by (simp add: require_def ascii_def MAX_MANIFEST_BYTES_def MAX_CHUNKS_def entry k(2) CHUNK_INDEX_ENTRY_BYTES_def
        SHA256_BYTES_def REPLAY_MAGIC_def)
  then show thesis using that by blast
qed

theorem replay_roundtrip_witness:
  "\<exists>c manifest index. buildReplayContainer demo_codec demo_json demo_base [demo_chunk, demo_chunk] = Inr c
     \<and> parseReplayContainer demo_json (rc_bytes c @ [9]) = Inr (manifest, index)
     \<and> all_of (decodeChunk demo_codec demo_json (rc_bytes c @ [9])) index = Inr [demo_chunk, demo_chunk]"
proof -
  obtain c where c: "buildReplayContainer demo_codec demo_json demo_base [demo_chunk, demo_chunk] = Inr c" "rc_sizeBytes c < 4294967296"
    "rc_rootHash c = toHex (replicate 32 0)"
    by (rule demo_container)
  have codec: "codec_ok demo_codec" by (simp add: codec_ok_def demo_codec_def SHA256_BYTES_def)
  have fits: "list_all (chunk_fits demo_json) [demo_chunk, demo_chunk]" by code_simp
  have start: "tick_ok (mf_startTick demo_base)" by code_simp
  let ?m = "manifest_of demo_base (int (length [demo_chunk, demo_chunk])) (rc_rootHash c)"
  have reads: "rj_parseManifest demo_json (rj_manifest demo_json ?m) = Some ?m" by (simp add: demo_json_def c(3))
  show ?thesis using replay_roundtrip [OF codec fits start c(1,2) refl reads, of "[9]"] c(1) by blast
qed

section \<open>Signatures\<close>

lemma strip_zeros_padded: "bs = [] \<or> last bs \<noteq> 0 \<Longrightarrow> strip_zeros (bs @ replicate n 0) = bs"
proof -
  have "dropWhile (\<lambda>b. b = 0) (replicate n 0 @ rev bs) = dropWhile (\<lambda>b. b = (0::byte)) (rev bs)"
    by (rule dropWhile_append2) simp
  then show "bs = [] \<or> last bs \<noteq> 0 \<Longrightarrow> strip_zeros (bs @ replicate n 0) = bs"
    by (cases bs rule: rev_cases) (auto simp: strip_zeros_def)
qed

text \<open>
  A signature is read back. Signing a container appends a trailer from which the reader gets the key, the signature and exactly
  the bytes that were signed, so the check answers what the verifier says of them; bytes without the trailer are \<open>absent\<close>,
  never \<open>forged\<close>.
\<close>

theorem signature_roundtrip:
  assumes "signReplayContainer bytes signer = Inr out" and "sg_keyId signer = [] \<or> last (sg_keyId signer) \<noteq> 0"
  shows "readSignature out = Some \<lparr>rs_keyId = sg_keyId signer, rs_signature = sg_sign signer bytes, rs_signedBytes = bytes\<rparr>
     \<and> checkReplaySignature out verify = (case verify (sg_keyId signer) bytes (sg_sign signer bytes) of
          None \<Rightarrow> UnknownKey | Some True \<Rightarrow> Signed | Some False \<Rightarrow> Forged)
     \<and> (drop (length other - 4) other \<noteq> ascii SIGNATURE_MAGIC \<longrightarrow> checkReplaySignature other verify = Absent)"
proof -
  let ?key = "sg_keyId signer" and ?sig = "sg_sign signer bytes"
  let ?pad = "?key @ replicate (SIGNATURE_KEY_ID_BYTES - length ?key) 0"
  have len: "length ?key \<le> SIGNATURE_KEY_ID_BYTES" "length ?sig = SIGNATURE_BYTES"
    and eq: "out = bytes @ ?pad @ ?sig @ ascii SIGNATURE_MAGIC"
    using assms(1) by (auto simp: signReplayContainer_def Let_def)
  have magic: "length (ascii SIGNATURE_MAGIC) = 4" by (simp add: ascii_def SIGNATURE_MAGIC_def)
  have pad: "length ?pad = SIGNATURE_KEY_ID_BYTES" using len(1) by simp
  have total: "length out = length bytes + SIGNATURE_TRAILER_BYTES"
    using pad len(2) magic by (simp add: eq SIGNATURE_TRAILER_BYTES_def)
  have "out = (bytes @ ?pad @ ?sig) @ ascii SIGNATURE_MAGIC" by (simp add: eq)
  moreover have "length out - 4 = length (bytes @ ?pad @ ?sig)" using magic by (simp add: eq)
  ultimately have "drop (length out - 4) out = ascii SIGNATURE_MAGIC" by (metis append_eq_conv_conj)
  moreover have "drop (length out - SIGNATURE_TRAILER_BYTES) out = ?pad @ ?sig @ ascii SIGNATURE_MAGIC"
    "take (length out - SIGNATURE_TRAILER_BYTES) out = bytes" by (simp_all only: total add_diff_cancel_right') (simp_all add: eq)
  moreover have "take SIGNATURE_KEY_ID_BYTES (?pad @ ?sig @ ascii SIGNATURE_MAGIC) = ?pad"
    "take SIGNATURE_BYTES (drop SIGNATURE_KEY_ID_BYTES (?pad @ ?sig @ ascii SIGNATURE_MAGIC)) = ?sig"
    using pad len(2) by (metis append_eq_conv_conj)+
  ultimately have "readSignature out = Some \<lparr>rs_keyId = ?key, rs_signature = ?sig, rs_signedBytes = bytes\<rparr>"
    unfolding readSignature_def Let_def using strip_zeros_padded [OF assms(2)] total by simp
  then show ?thesis by (simp add: checkReplaySignature_def) (simp add: readSignature_def)
qed

theorem signature_roundtrip_witness:
  "\<exists>out. signReplayContainer [1, 2] \<lparr>sg_sign = (\<lambda>_. replicate 64 7), sg_keyId = [5]\<rparr> = Inr out
     \<and> checkReplaySignature out (\<lambda>k m s. if k = [5] then Some (m = [1, 2]) else None) = Signed"
proof -
  let ?signer = "\<lparr>sg_sign = (\<lambda>_. replicate 64 7), sg_keyId = [5]\<rparr> :: replay_signer"
  obtain out where s: "signReplayContainer [1, 2] ?signer = Inr out"
    by (simp add: signReplayContainer_def require_def SIGNATURE_KEY_ID_BYTES_def SIGNATURE_BYTES_def Let_def)
  have key: "sg_keyId ?signer = [] \<or> last (sg_keyId ?signer) \<noteq> 0" by simp
  from signature_roundtrip [OF s key, of "\<lambda>k m s. if k = [5] then Some (m = [1, 2]) else None" "[]"] s show ?thesis by auto
qed

end
