(* ===== verification/Spool.thy ===== *)
theory Spool
  imports Replay
begin

text \<open>
  The recorder that keeps a match in memory until it ends: \<open>server-game/src/replay/recorder.ts\<close>. All recorders of a process share
  one budget of bytes, so each operation takes the sum that is spooled and returns it. \<open>finish\<close> waits for the storage; it is split
  there into \<open>mem_finish\<close>, which seals the recording, and \<open>mem_release\<close>, which runs when the storage has answered.
\<close>

definition PROCESS_SPOOL_LIMIT_BYTES :: int where "PROCESS_SPOOL_LIMIT_BYTES = 256 * 1024 * 1024"
definition MATCH_FRAME_LIMIT :: nat where "MATCH_FRAME_LIMIT = 20 * 60 * 30"

definition empty_chunk :: chunk_accumulator where
  "empty_chunk = \<lparr>ca_frames = [], ca_visibilities = [], ca_events = []\<rparr>"

record memory_recorder =
  mem_recordVisibility :: bool
  mem_meta :: "replay_meta option"
  mem_chunks :: "chunk_accumulator list"
  mem_current :: chunk_accumulator
  mem_frameCount :: nat
  mem_spooledBytes :: int
  mem_aborted :: bool
  mem_finished :: bool

definition new_recorder :: "bool \<Rightarrow> memory_recorder" where
  "new_recorder recordVisibility = \<lparr>mem_recordVisibility = recordVisibility, mem_meta = None, mem_chunks = [], mem_current = empty_chunk,
     mem_frameCount = 0, mem_spooledBytes = 0, mem_aborted = False, mem_finished = False\<rparr>"

definition mem_begin :: "replay_meta \<Rightarrow> memory_recorder \<Rightarrow> memory_recorder" where
  "mem_begin meta r = r\<lparr>mem_meta := Some meta\<rparr>"

definition mem_release :: "int \<times> memory_recorder \<Rightarrow> int \<times> memory_recorder" where
  "mem_release s = (case s of (pool, r) \<Rightarrow>
     (max 0 (pool - mem_spooledBytes r), r\<lparr>mem_spooledBytes := 0, mem_chunks := [], mem_current := empty_chunk\<rparr>))"

definition mem_abort :: "int \<times> memory_recorder \<Rightarrow> int \<times> memory_recorder" where
  "mem_abort s = (case s of (pool, r) \<Rightarrow>
     if mem_aborted r \<or> mem_finished r then (pool, r) else mem_release (pool, r\<lparr>mem_aborted := True\<rparr>))"

definition rotateChunk :: "memory_recorder \<Rightarrow> memory_recorder" where
  "rotateChunk r = r\<lparr>mem_chunks := mem_chunks r @ [mem_current r], mem_current := empty_chunk\<rparr>"

definition mem_writeFrame :: "int \<Rightarrow> byte list \<Rightarrow> bool \<Rightarrow> int \<times> memory_recorder \<Rightarrow> int \<times> memory_recorder" where
  "mem_writeFrame tick bytes full s = (case s of (pool, r) \<Rightarrow>
     if mem_aborted r \<or> mem_finished r \<or> mem_meta r = None then (pool, r)
     else let r1 = (if full \<and> ca_frames (mem_current r) \<noteq> [] then rotateChunk r else r);
              size = int (length bytes)
          in if MATCH_FRAME_LIMIT \<le> mem_frameCount r1 then mem_abort (pool, r1)
             else if PROCESS_SPOOL_LIMIT_BYTES < pool + size then mem_abort (pool, r1)
             else (pool + size, r1\<lparr>
               mem_current := (mem_current r1)\<lparr>ca_frames := ca_frames (mem_current r1) @ [\<lparr>rf_tick = tick, rf_full = full, rf_bytes = bytes\<rparr>]\<rparr>,
               mem_frameCount := mem_frameCount r1 + 1, mem_spooledBytes := mem_spooledBytes r1 + size\<rparr>))"

definition mem_writeVisibility :: "int \<Rightarrow> byte list \<Rightarrow> memory_recorder \<Rightarrow> memory_recorder" where
  "mem_writeVisibility tick masks r =
     (if mem_aborted r \<or> mem_finished r \<or> \<not> mem_recordVisibility r then r
      else r\<lparr>mem_current := (mem_current r)\<lparr>ca_visibilities := ca_visibilities (mem_current r) @ [\<lparr>rw_tick = tick, rw_masks = masks\<rparr>]\<rparr>\<rparr>)"

definition mem_writeEvent :: "int \<Rightarrow> replay_event \<Rightarrow> memory_recorder \<Rightarrow> memory_recorder" where
  "mem_writeEvent tick event r =
     (if mem_aborted r \<or> mem_finished r then r
      else r\<lparr>mem_current := (mem_current r)\<lparr>ca_events := ca_events (mem_current r) @ [\<lparr>rn_tick = tick, rn_event = event\<rparr>]\<rparr>\<rparr>)"

text \<open>What is sealed: the chunks, or nothing where the answer is \<open>null\<close> at once.\<close>

definition sealed_chunks :: "memory_recorder \<Rightarrow> chunk_accumulator list" where
  "sealed_chunks r = mem_chunks r @ (if mem_current r = empty_chunk then [] else [mem_current r])"

definition mem_finish :: "int \<times> memory_recorder \<Rightarrow> (replay_meta \<times> chunk_accumulator list) option \<times> int \<times> memory_recorder" where
  "mem_finish s = (case s of (pool, r) \<Rightarrow>
     (case mem_meta r of
        None \<Rightarrow> (None, mem_release (pool, r))
      | Some meta \<Rightarrow>
          if mem_aborted r \<or> mem_finished r then (None, mem_release (pool, r))
          else let r1 = r\<lparr>mem_finished := True, mem_chunks := sealed_chunks r\<rparr>
               in if mem_chunks r1 = [] then (None, mem_release (pool, r1)) else (Some (meta, mem_chunks r1), pool, r1)))"

definition base_of :: "replay_meta \<Rightarrow> int \<Rightarrow> int \<Rightarrow> manifest_base" where
  "base_of meta endTick now = \<lparr>mf_replayFormatVersion = REPLAY_FORMAT_VERSION, mf_matchId = re_matchId meta, mf_mapId = re_mapId meta,
     mf_snapshotHz = re_snapshotHz meta, mf_startTick = re_startTick meta, mf_endTick = endTick,
     mf_durationTicks = endTick - re_startTick meta, mf_buildId = re_buildId meta, mf_protocolVersion = re_protocolVersion meta,
     mf_rulesVersion = re_rulesVersion meta, mf_mapBundleHash = re_mapBundleHash meta,
     mf_visibilityCoreVersion = re_visibilityCoreVersion meta, mf_recordedAt = Some now, mf_participants = re_participants meta\<rparr>"

text \<open>The container, signed where there is a signer, and the handle if the storage took it; any error gives up the replay.\<close>

definition stored_bytes ::
  "replay_codec \<Rightarrow> replay_json \<Rightarrow> replay_signer option \<Rightarrow> manifest_base \<Rightarrow> chunk_accumulator list \<Rightarrow> replay_error + replay_container \<times> byte list" where
  "stored_bytes codec js signer base chunks =
     and_then (buildReplayContainer codec js base chunks) (\<lambda>container.
       case signer of
         None \<Rightarrow> Inr (container, rc_bytes container)
       | Some sg \<Rightarrow> and_then (signReplayContainer (rc_bytes container) sg) (\<lambda>bytes. Inr (container, bytes)))"

definition store_replay ::
  "replay_codec \<Rightarrow> replay_json \<Rightarrow> replay_signer option \<Rightarrow> (string \<Rightarrow> byte list \<Rightarrow> bool) \<Rightarrow> (string \<Rightarrow> string) \<Rightarrow> int \<Rightarrow> int
     \<Rightarrow> replay_meta \<times> chunk_accumulator list \<Rightarrow> replay_handle option" where
  "store_replay codec js signer put storageKeyFor endTick now sealed = (case sealed of (meta, chunks) \<Rightarrow>
     (case stored_bytes codec js signer (base_of meta endTick now) chunks of
        Inl _ \<Rightarrow> None
      | Inr (container, bytes) \<Rightarrow>
          let storageKey = storageKeyFor (re_matchId meta)
          in if put storageKey bytes
             then Some \<lparr>rh_storageKey = storageKey, rh_formatVersion = REPLAY_FORMAT_VERSION, rh_chunkCount = rc_chunkCount container,
                    rh_sizeBytes = int (length bytes), rh_rootHash = rc_rootHash container\<rparr>
             else None))"

fun mem_call :: "recorder_call \<Rightarrow> int \<times> memory_recorder \<Rightarrow> int \<times> memory_recorder" where
  "mem_call (RcBegin meta) (pool, r) = (pool, mem_begin meta r)"
| "mem_call (RcFrame tick bytes full) s = mem_writeFrame tick bytes full s"
| "mem_call (RcVisibility tick masks) (pool, r) = (pool, mem_writeVisibility tick masks r)"
| "mem_call (RcEvent tick event) (pool, r) = (pool, mem_writeEvent tick event r)"
| "mem_call (RcFinish endTick) s = snd (mem_finish s)"
| "mem_call (RcAbort reason) s = mem_abort s"

section \<open>All recorders of a process\<close>

record spool_process =
  pp_pool :: int
  pp_recorders :: "memory_recorder list"

datatype spool_call =
  SpNew bool
| SpCall nat recorder_call
| SpStored nat

definition on_nth :: "nat \<Rightarrow> (int \<times> memory_recorder \<Rightarrow> int \<times> memory_recorder) \<Rightarrow> spool_process \<Rightarrow> spool_process" where
  "on_nth i f p = (if i < length (pp_recorders p)
     then (case f (pp_pool p, pp_recorders p ! i) of (pool, r) \<Rightarrow> \<lparr>pp_pool = pool, pp_recorders = (pp_recorders p)[i := r]\<rparr>)
     else p)"

text \<open>The storage answers a recorder that waits for it, that is, one that is sealed.\<close>

fun spool_step :: "spool_call \<Rightarrow> spool_process \<Rightarrow> spool_process" where
  "spool_step (SpNew v) p = p\<lparr>pp_recorders := pp_recorders p @ [new_recorder v]\<rparr>"
| "spool_step (SpCall i c) p = on_nth i (mem_call c) p"
| "spool_step (SpStored i) p = on_nth i (\<lambda>s. if mem_finished (snd s) then mem_release s else s) p"

end
