(* ===== verification/SpoolProps.thy ===== *)
theory SpoolProps
  imports Spool
begin

text \<open>
  The spool of a process (theory \<open>Spool\<close>): its budget is accounted for exactly, and what a recorder holds is what a match has
  recorded, in chunks that start with a whole frame.
\<close>

section \<open>The budget\<close>

definition frame_bytes :: "recorded_frame list \<Rightarrow> int" where
  "frame_bytes frames = sum_list (map (\<lambda>fr. int (length (rf_bytes fr))) frames)"

definition all_frames :: "chunk_accumulator list \<Rightarrow> recorded_frame list" where
  "all_frames chunks = concat (map ca_frames chunks)"

text \<open>The chunks a recorder holds; a sealed one has moved its current chunk to the others.\<close>

definition held :: "memory_recorder \<Rightarrow> chunk_accumulator list" where
  "held r = (if mem_finished r then mem_chunks r else mem_chunks r @ [mem_current r])"

definition recorder_ok :: "memory_recorder \<Rightarrow> bool" where
  "recorder_ok r \<longleftrightarrow> mem_spooledBytes r = frame_bytes (all_frames (held r)) \<and> length (all_frames (held r)) \<le> mem_frameCount r
     \<and> mem_frameCount r \<le> MATCH_FRAME_LIMIT \<and> (mem_aborted r \<longrightarrow> mem_chunks r = [] \<and> mem_current r = empty_chunk)"

lemma frame_bytes_simps [simp]:
  "frame_bytes [] = 0" "frame_bytes (fr # frames) = int (length (rf_bytes fr)) + frame_bytes frames"
  "frame_bytes (xs @ ys) = frame_bytes xs + frame_bytes ys"
  by (simp_all add: frame_bytes_def)

lemma frame_bytes_nonneg: "0 \<le> frame_bytes frames"
  by (induction frames) simp_all

lemma all_frames_simps [simp]: "all_frames [] = []" "all_frames (c # cs) = ca_frames c @ all_frames cs"
  "all_frames (cs @ ds) = all_frames cs @ all_frames ds" "all_frames [empty_chunk] = []" "ca_frames empty_chunk = []"
  by (simp_all add: all_frames_def empty_chunk_def)

lemma sealed_frames [simp]: "all_frames (sealed_chunks r) = all_frames (mem_chunks r @ [mem_current r])"
  by (simp add: sealed_chunks_def)

text \<open>An operation keeps the recorder consistent and moves the pool by what the recorder's share moves.\<close>

definition balances :: "(int \<times> memory_recorder \<Rightarrow> int \<times> memory_recorder) \<Rightarrow> bool" where
  "balances f \<longleftrightarrow> (\<forall>pool r pool' r'. recorder_ok r \<longrightarrow> mem_spooledBytes r \<le> pool \<longrightarrow> pool \<le> PROCESS_SPOOL_LIMIT_BYTES
     \<longrightarrow> f (pool, r) = (pool', r')
     \<longrightarrow> recorder_ok r' \<and> pool' - mem_spooledBytes r' = pool - mem_spooledBytes r \<and> pool' \<le> PROCESS_SPOOL_LIMIT_BYTES)"

lemma balancesI:
  "(\<And>pool r pool' r'. recorder_ok r \<Longrightarrow> mem_spooledBytes r \<le> pool \<Longrightarrow> pool \<le> PROCESS_SPOOL_LIMIT_BYTES \<Longrightarrow> f (pool, r) = (pool', r')
     \<Longrightarrow> recorder_ok r' \<and> pool' - mem_spooledBytes r' = pool - mem_spooledBytes r \<and> pool' \<le> PROCESS_SPOOL_LIMIT_BYTES) \<Longrightarrow> balances f"
  unfolding balances_def by blast

lemma balancesD:
  "balances f \<Longrightarrow> recorder_ok r \<Longrightarrow> mem_spooledBytes r \<le> pool \<Longrightarrow> pool \<le> PROCESS_SPOOL_LIMIT_BYTES \<Longrightarrow> f (pool, r) = (pool', r')
     \<Longrightarrow> recorder_ok r' \<and> pool' - mem_spooledBytes r' = pool - mem_spooledBytes r \<and> pool' \<le> PROCESS_SPOOL_LIMIT_BYTES"
  unfolding balances_def by blast

lemma recorder_ok_nonneg: "recorder_ok r \<Longrightarrow> 0 \<le> mem_spooledBytes r"
  by (simp add: recorder_ok_def frame_bytes_nonneg)

lemma released_ok: "mem_frameCount r \<le> MATCH_FRAME_LIMIT \<Longrightarrow>
    recorder_ok (r\<lparr>mem_spooledBytes := 0, mem_chunks := [], mem_current := empty_chunk\<rparr>)"
  by (simp add: recorder_ok_def held_def)

lemma release_flags:
  assumes "recorder_ok r" "mem_spooledBytes r \<le> pool" "pool \<le> PROCESS_SPOOL_LIMIT_BYTES"
    and "mem_spooledBytes q = mem_spooledBytes r" "mem_frameCount q = mem_frameCount r" "mem_release (pool, q) = (pool', r')"
  shows "recorder_ok r' \<and> pool' - mem_spooledBytes r' = pool - mem_spooledBytes r \<and> pool' \<le> PROCESS_SPOOL_LIMIT_BYTES"
proof -
  have "mem_frameCount q \<le> MATCH_FRAME_LIMIT" using assms(1,5) by (simp add: recorder_ok_def)
  from released_ok [OF this] recorder_ok_nonneg [OF assms(1)] show ?thesis
    using assms(2-4,6) by (auto simp: mem_release_def)
qed

lemma release_balances: "balances mem_release"
  by (rule balancesI) (erule (2) release_flags, simp_all)

lemma abort_balances: "balances mem_abort"
proof (rule balancesI)
  fix pool r pool' r'
  assume a: "recorder_ok r" "mem_spooledBytes r \<le> pool" "pool \<le> PROCESS_SPOOL_LIMIT_BYTES" "mem_abort (pool, r) = (pool', r')"
  show "recorder_ok r' \<and> pool' - mem_spooledBytes r' = pool - mem_spooledBytes r \<and> pool' \<le> PROCESS_SPOOL_LIMIT_BYTES"
  proof (cases "mem_aborted r \<or> mem_finished r")
    case True
    then show ?thesis using a by (simp add: mem_abort_def)
  next
    case False
    then show ?thesis using release_flags [OF a(1-3), of "r\<lparr>mem_aborted := True\<rparr>"] a(4) by (simp add: mem_abort_def)
  qed
qed

lemma rotate_ok: "recorder_ok r \<Longrightarrow> \<not> mem_aborted r \<Longrightarrow> \<not> mem_finished r \<Longrightarrow> recorder_ok (rotateChunk r)"
  by (simp add: recorder_ok_def rotateChunk_def held_def)

lemma rotate_fields [simp]: "mem_spooledBytes (rotateChunk r) = mem_spooledBytes r" "mem_finished (rotateChunk r) = mem_finished r"
  "mem_aborted (rotateChunk r) = mem_aborted r" "mem_frameCount (rotateChunk r) = mem_frameCount r"
  "mem_meta (rotateChunk r) = mem_meta r" "mem_recordVisibility (rotateChunk r) = mem_recordVisibility r"
  by (simp_all add: rotateChunk_def)

lemma writeFrame_balances: "balances (mem_writeFrame tick bytes full)"
proof (rule balancesI)
  fix pool r pool' r'
  assume a: "recorder_ok r" "mem_spooledBytes r \<le> pool" "pool \<le> PROCESS_SPOOL_LIMIT_BYTES"
    and w: "mem_writeFrame tick bytes full (pool, r) = (pool', r')"
  show "recorder_ok r' \<and> pool' - mem_spooledBytes r' = pool - mem_spooledBytes r \<and> pool' \<le> PROCESS_SPOOL_LIMIT_BYTES"
  proof (cases "mem_aborted r \<or> mem_finished r \<or> mem_meta r = None")
    case True
    then show ?thesis using a w by (auto simp: mem_writeFrame_def)
  next
    case False
    define q where "q = (if full \<and> ca_frames (mem_current r) \<noteq> [] then rotateChunk r else r)"
    have q: "recorder_ok q" "mem_spooledBytes q = mem_spooledBytes r" "\<not> mem_aborted q" "\<not> mem_finished q"
      using False a rotate_ok [of r] by (simp_all add: q_def)
    show ?thesis
    proof (cases "MATCH_FRAME_LIMIT \<le> mem_frameCount q \<or> PROCESS_SPOOL_LIMIT_BYTES < pool + int (length bytes)")
      case True
      then have "mem_abort (pool, q) = (pool', r')"
        using False w by (cases "MATCH_FRAME_LIMIT \<le> mem_frameCount q") (auto simp: mem_writeFrame_def q_def [symmetric] Let_def)
      from balancesD [OF abort_balances q(1) _ a(3) this] show ?thesis using a(2) q(2) by simp
    next
      case room: False
      then show ?thesis
        using False w q by (auto simp: mem_writeFrame_def q_def [symmetric] Let_def recorder_ok_def held_def)
    qed
  qed
qed

lemma finish_balances: "balances (\<lambda>s. snd (mem_finish s))"
proof (rule balancesI)
  fix pool r pool' r'
  assume a: "recorder_ok r" "mem_spooledBytes r \<le> pool" "pool \<le> PROCESS_SPOOL_LIMIT_BYTES" "snd (mem_finish (pool, r)) = (pool', r')"
  define q where "q = r\<lparr>mem_finished := True, mem_chunks := sealed_chunks r\<rparr>"
  consider "mem_release (pool, r) = (pool', r')" | "mem_release (pool, q) = (pool', r')"
    | "\<not> mem_aborted r" "\<not> mem_finished r" "(pool', r') = (pool, q)"
    using a(4) unfolding q_def by (auto simp: mem_finish_def Let_def split: option.splits if_splits)
  then show "recorder_ok r' \<and> pool' - mem_spooledBytes r' = pool - mem_spooledBytes r \<and> pool' \<le> PROCESS_SPOOL_LIMIT_BYTES"
  proof cases
    case 1
    with a release_flags show ?thesis by blast
  next
    case 2
    with a release_flags [of r pool q] show ?thesis by (simp add: q_def)
  next
    case 3
    with a show ?thesis by (simp add: q_def recorder_ok_def held_def)
  qed
qed

lemma call_balances: "balances (mem_call c)"
proof (cases c)
  case (RcBegin meta)
  then show ?thesis by (intro balancesI) (auto simp: mem_begin_def recorder_ok_def held_def)
next
  case (RcFrame tick bytes full)
  then have "mem_call c = mem_writeFrame tick bytes full" by auto
  then show ?thesis by (simp add: writeFrame_balances)
next
  case (RcVisibility tick masks)
  then show ?thesis
    by (intro balancesI) (auto simp: mem_writeVisibility_def recorder_ok_def held_def empty_chunk_def split: if_splits)
next
  case (RcEvent tick event)
  then show ?thesis
    by (intro balancesI) (auto simp: mem_writeEvent_def recorder_ok_def held_def empty_chunk_def split: if_splits)
next
  case (RcFinish endTick)
  then have "mem_call c = (\<lambda>s. snd (mem_finish s))" by auto
  then show ?thesis by (simp add: finish_balances)
next
  case (RcAbort reason)
  then have "mem_call c = mem_abort" by auto
  then show ?thesis by (simp add: abort_balances)
qed

definition spool_inv :: "spool_process \<Rightarrow> bool" where
  "spool_inv p \<longleftrightarrow> list_all recorder_ok (pp_recorders p) \<and> pp_pool p = sum_list (map mem_spooledBytes (pp_recorders p))
     \<and> pp_pool p \<le> PROCESS_SPOOL_LIMIT_BYTES"

lemma sum_list_update_int: "i < length xs \<Longrightarrow> sum_list (xs[i := y]) = sum_list xs + y - (xs ! i :: int)"
  by (induction xs arbitrary: i) (auto split: nat.split)

lemma on_nth_inv:
  assumes "balances f" "spool_inv p"
  shows "spool_inv (on_nth i f p)"
proof (cases "i < length (pp_recorders p)")
  case True
  let ?rs = "pp_recorders p"
  obtain pool r where f: "f (pp_pool p, ?rs ! i) = (pool, r)" by fastforce
  have ok: "recorder_ok (?rs ! i)" using assms(2) True by (simp add: spool_inv_def list_all_length)
  have "0 \<le> sum_list (map mem_spooledBytes rs)" if "list_all recorder_ok rs" for rs
    using that recorder_ok_nonneg by (induction rs) fastforce+
  moreover have "sum_list (map mem_spooledBytes ?rs) = mem_spooledBytes (?rs ! i)
      + sum_list (map mem_spooledBytes (take i ?rs @ drop (Suc i) ?rs))"
    by (subst id_take_nth_drop [OF True]) simp
  moreover have "list_all recorder_ok (take i ?rs @ drop (Suc i) ?rs)"
    using assms(2) by (auto simp: spool_inv_def list_all_iff dest: in_set_takeD in_set_dropD)
  ultimately have le: "mem_spooledBytes (?rs ! i) \<le> pp_pool p" using assms(2) by (fastforce simp: spool_inv_def)
  have lim: "pp_pool p \<le> PROCESS_SPOOL_LIMIT_BYTES" using assms(2) by (simp add: spool_inv_def)
  have b: "recorder_ok r" "pool - mem_spooledBytes r = pp_pool p - mem_spooledBytes (?rs ! i)" "pool \<le> PROCESS_SPOOL_LIMIT_BYTES"
    using balancesD [OF assms(1) ok le lim f] by auto
  have "list_all recorder_ok (?rs[i := r])"
    using assms(2) b(1) set_update_subset_insert [of ?rs i r] by (auto simp: spool_inv_def list_all_iff)
  moreover have "sum_list (map mem_spooledBytes (?rs[i := r])) = pool"
    using sum_list_update_int [of i "map mem_spooledBytes ?rs" "mem_spooledBytes r"] True b(2) assms(2)
    by (simp add: map_update spool_inv_def)
  ultimately show ?thesis using True b(3) f by (simp add: on_nth_def spool_inv_def)
next
  case False
  then show ?thesis using assms(2) by (simp add: on_nth_def)
qed

lemma stored_balances: "balances (\<lambda>s. if mem_finished (snd s) then mem_release s else s)"
  by (rule balancesI) (auto split: if_splits dest: balancesD [OF release_balances])

interpretation spool: invariant_machine spool_step spool_inv
proof
  fix p c
  assume inv: "spool_inv p"
  show "spool_inv (spool_step c p)"
  proof (cases c)
    case (SpNew v)
    have "recorder_ok (new_recorder v)" by (simp add: recorder_ok_def new_recorder_def held_def)
    with inv SpNew show ?thesis by (simp add: spool_inv_def new_recorder_def)
  next
    case (SpCall i d)
    then show ?thesis using on_nth_inv [OF call_balances inv] by simp
  next
    case (SpStored i)
    then show ?thesis using on_nth_inv [OF stored_balances inv] by simp
  qed
qed

text \<open>
  The budget of the spool is exact. Whatever recorders of a process are created and called, in whatever order, and whenever the
  storage answers: the shared counter is the number of frame bytes that the recorders still hold, it never exceeds 256 MiB, no
  recorder holds more than the frame limit of a match, and an aborted one holds nothing.
\<close>

theorem spool_exact:
  assumes "p = fold spool_step calls \<lparr>pp_pool = 0, pp_recorders = []\<rparr>"
  shows "pp_pool p = sum_list (map (\<lambda>r. frame_bytes (all_frames (held r))) (pp_recorders p))
     \<and> 0 \<le> pp_pool p \<and> pp_pool p \<le> PROCESS_SPOOL_LIMIT_BYTES
     \<and> list_all (\<lambda>r. length (all_frames (held r)) \<le> MATCH_FRAME_LIMIT) (pp_recorders p)
     \<and> list_all (\<lambda>r. mem_aborted r \<longrightarrow> held r = [] \<or> held r = [empty_chunk]) (pp_recorders p)"
proof -
  have "spool_inv \<lparr>pp_pool = 0, pp_recorders = []\<rparr>" by (simp add: spool_inv_def PROCESS_SPOOL_LIMIT_BYTES_def)
  then have inv: "spool_inv p" unfolding assms by (rule spool.run_inv)
  then have each: "recorder_ok r" if "r \<in> set (pp_recorders p)" for r using that by (simp add: spool_inv_def list_all_iff)
  have sum: "pp_pool p = sum_list (map (\<lambda>r. frame_bytes (all_frames (held r))) (pp_recorders p))"
    using inv each by (auto simp: spool_inv_def recorder_ok_def intro!: arg_cong [of _ _ sum_list] map_cong)
  have "0 \<le> sum_list (map (\<lambda>r. frame_bytes (all_frames (held r))) rs)" for rs
    by (induction rs) (simp_all add: frame_bytes_nonneg)
  then have "0 \<le> pp_pool p" unfolding sum .
  with sum inv each show ?thesis by (fastforce simp: spool_inv_def list_all_iff recorder_ok_def held_def)
qed

theorem spool_exact_witness:
  "\<exists>p :: spool_process. pp_pool p = 3 \<and> length (pp_recorders p) = 1 \<and> pp_pool p = sum_list (map (\<lambda>r. frame_bytes (all_frames (held r))) (pp_recorders p))"
proof -
  define calls where "calls = [SpNew True, SpCall 0 (RcBegin \<lparr>re_matchId = ''m'', re_mapId = ''city'', re_snapshotHz = 30, re_startTick = 0,
       re_buildId = ''b'', re_protocolVersion = 1, re_rulesVersion = ''r'', re_mapBundleHash = ''h'', re_visibilityCoreVersion = 1,
       re_participants = []\<rparr>), SpCall 0 (RcFrame 2 [1, 2, 3] True)]"
  define p where "p = fold spool_step calls \<lparr>pp_pool = 0, pp_recorders = []\<rparr>"
  have "pp_pool p = 3" "length (pp_recorders p) = 1"
    by (simp_all add: p_def calls_def on_nth_def new_recorder_def mem_begin_def mem_writeFrame_def MATCH_FRAME_LIMIT_def
        PROCESS_SPOOL_LIMIT_BYTES_def empty_chunk_def)
  with spool_exact [OF p_def] show ?thesis by blast
qed

section \<open>What a session records\<close>

text \<open>The calls a \<open>SessionReplayRecorder\<close> makes before the match ends; \<open>n\<close> counts the frames.\<close>

inductive recorded :: "nat \<Rightarrow> recorder_call list \<Rightarrow> bool" where
  start: "recorded 0 [RcBegin meta]"
| event: "recorded n cs \<Longrightarrow> recorded n (cs @ [RcEvent tick event])"
| frame: "recorded n cs \<Longrightarrow> n mod FRAMES_PER_CHUNK = 0 \<longrightarrow> full \<Longrightarrow> recorded (n + 1) (cs @ [RcFrame tick bytes full, RcVisibility tick masks])"

lemma recordEvents_calls: "recorded n (sc_calls s) \<Longrightarrow> recorded n (sc_calls (recordEvents tick events s))
    \<and> sc_recordedFrames (recordEvents tick events s) = sc_recordedFrames s"
  unfolding recordEvents_def by (induction events arbitrary: s) (simp_all add: call_def recorded.event)

lemma session_recorded:
  assumes "recorded (sc_recordedFrames s) (sc_calls s)"
  shows "recorded (sc_recordedFrames (recordEvents tick events s)) (sc_calls (recordEvents tick events s))"
    "recorded (sc_recordedFrames (recordSnapshotTick utf8 fr changes s)) (sc_calls (recordSnapshotTick utf8 fr changes s))"
    "recorded (sc_recordedFrames (recordFinalFrame utf8 fr changes s)) (sc_calls (recordFinalFrame utf8 fr changes s))"
  using recordEvents_calls [OF assms] recorded.frame [OF assms]
  by (simp_all add: recordSnapshotTick_def recordFinalFrame_def writeFrame_def call_def Let_def)

definition frames_of :: "recorder_call list \<Rightarrow> recorded_frame list" where
  "frames_of cs = concat (map (\<lambda>c. case c of RcFrame t b f \<Rightarrow> [\<lparr>rf_tick = t, rf_full = f, rf_bytes = b\<rparr>] | _ \<Rightarrow> []) cs)"

definition masks_of :: "recorder_call list \<Rightarrow> recorded_visibility list" where
  "masks_of cs = concat (map (\<lambda>c. case c of RcVisibility t m \<Rightarrow> [\<lparr>rw_tick = t, rw_masks = m\<rparr>] | _ \<Rightarrow> []) cs)"

definition events_of :: "recorder_call list \<Rightarrow> recorded_event list" where
  "events_of cs = concat (map (\<lambda>c. case c of RcEvent t e \<Rightarrow> [\<lparr>rn_tick = t, rn_event = e\<rparr>] | _ \<Rightarrow> []) cs)"

text \<open>Feeding calls to a recorder while other recorders move the shared counter: each call sees some value of it.\<close>

fun mem_feed :: "(nat \<Rightarrow> int) \<Rightarrow> recorder_call list \<Rightarrow> memory_recorder \<Rightarrow> memory_recorder" where
  "mem_feed pools [] r = r"
| "mem_feed pools (c # cs) r = mem_feed (\<lambda>i. pools (Suc i)) cs (snd (mem_call c (pools 0, r)))"

lemma mem_feed_append: "mem_feed pools (cs @ ds) r = mem_feed (\<lambda>i. pools (length cs + i)) ds (mem_feed pools cs r)"
  by (induction cs arbitrary: pools r) simp_all

definition key_chunk :: "chunk_accumulator \<Rightarrow> bool" where
  "key_chunk c \<longleftrightarrow> length (ca_frames c) \<le> FRAMES_PER_CHUNK \<and> length (ca_visibilities c) = length (ca_frames c)
     \<and> (ca_frames c \<noteq> [] \<longrightarrow> rf_full (hd (ca_frames c)))"

definition filling :: "nat \<Rightarrow> recorder_call list \<Rightarrow> memory_recorder \<Rightarrow> bool" where
  "filling n cs r \<longleftrightarrow> mem_meta r \<noteq> None \<and> \<not> mem_finished r \<and> mem_recordVisibility r
     \<and> all_frames (mem_chunks r @ [mem_current r]) = frames_of cs
     \<and> concat (map ca_visibilities (mem_chunks r @ [mem_current r])) = masks_of cs
     \<and> concat (map ca_events (mem_chunks r @ [mem_current r])) = events_of cs
     \<and> list_all key_chunk (mem_chunks r @ [mem_current r])
     \<and> (0 < n \<longrightarrow> ca_frames (mem_current r) \<noteq> [])
     \<and> length (ca_frames (mem_current r)) \<le> (if n mod FRAMES_PER_CHUNK = 0 then FRAMES_PER_CHUNK else n mod FRAMES_PER_CHUNK)"

lemma contents_append [simp]:
  "frames_of (cs @ ds) = frames_of cs @ frames_of ds" "masks_of (cs @ ds) = masks_of cs @ masks_of ds"
  "events_of (cs @ ds) = events_of cs @ events_of ds"
  by (simp_all add: frames_of_def masks_of_def events_of_def)

lemma aborted_stays: "mem_aborted r \<Longrightarrow> mem_aborted (snd (mem_call c (pool, r)))"
  by (cases c) (auto simp: mem_begin_def mem_writeFrame_def mem_writeVisibility_def mem_writeEvent_def mem_finish_def mem_abort_def
      mem_release_def split: option.split)

text \<open>One frame and its masks.\<close>

lemma frame_filling:
  assumes fill: "filling n cs r" "\<not> mem_aborted r" and full: "n mod FRAMES_PER_CHUNK = 0 \<Longrightarrow> full"
    and r1: "r1 = snd (mem_writeFrame tick bytes full (pool, r))" and r2: "r2 = mem_writeVisibility tick masks r1"
  shows "mem_aborted r2 \<or> filling (n + 1) (cs @ [RcFrame tick bytes full, RcVisibility tick masks]) r2"
proof -
  let ?fr = "\<lparr>rf_tick = tick, rf_full = full, rf_bytes = bytes\<rparr>" and ?vis = "\<lparr>rw_tick = tick, rw_masks = masks\<rparr>"
  have F: "mem_meta r \<noteq> None" "\<not> mem_finished r" "mem_recordVisibility r" using fill by (simp_all add: filling_def)
  define q where "q = (if full \<and> ca_frames (mem_current r) \<noteq> [] then rotateChunk r else r)"
  have q: "\<not> mem_aborted q" "\<not> mem_finished q" "mem_recordVisibility q" "mem_meta q \<noteq> None" using F fill(2) by (simp_all add: q_def)
  show ?thesis
  proof (cases "MATCH_FRAME_LIMIT \<le> mem_frameCount q \<or> PROCESS_SPOOL_LIMIT_BYTES < pool + int (length bytes)")
    case True
    then have "r1 = snd (mem_abort (pool, q))"
      using F fill(2) unfolding r1 by (cases "MATCH_FRAME_LIMIT \<le> mem_frameCount q") (auto simp: mem_writeFrame_def q_def [symmetric] Let_def)
    then have "mem_aborted r1" using q by (simp add: mem_abort_def mem_release_def)
    then show ?thesis by (simp add: r2 mem_writeVisibility_def)
  next
    case False
    let ?cur = "mem_current q"
    have r2': "r2 = q\<lparr>mem_current := ?cur\<lparr>ca_frames := ca_frames ?cur @ [?fr], ca_visibilities := ca_visibilities ?cur @ [?vis]\<rparr>,
        mem_frameCount := mem_frameCount q + 1, mem_spooledBytes := mem_spooledBytes q + int (length bytes)\<rparr>"
      using F fill(2) False q unfolding r2 r1 by (auto simp: mem_writeFrame_def q_def [symmetric] Let_def mem_writeVisibility_def)
    have Q: "all_frames (mem_chunks q @ [?cur]) = frames_of cs"
      "concat (map ca_visibilities (mem_chunks q @ [?cur])) = masks_of cs" "concat (map ca_events (mem_chunks q @ [?cur])) = events_of cs"
      "list_all key_chunk (mem_chunks q)" "key_chunk ?cur"
      using fill(1) by (auto simp: q_def filling_def rotateChunk_def empty_chunk_def key_chunk_def)
    have len: "length (ca_frames ?cur) + 1 \<le> (if (n + 1) mod FRAMES_PER_CHUNK = 0 then FRAMES_PER_CHUNK else (n + 1) mod FRAMES_PER_CHUNK)"
      and first: "ca_frames ?cur = [] \<longrightarrow> full"
    proof -
      have cur: "0 < n \<longrightarrow> ca_frames (mem_current r) \<noteq> []"
        "length (ca_frames (mem_current r)) \<le> (if n mod FRAMES_PER_CHUNK = 0 then FRAMES_PER_CHUNK else n mod FRAMES_PER_CHUNK)"
        using fill(1) by (simp_all add: filling_def)
      have "length (ca_frames ?cur) + 1 \<le> (if (n + 1) mod FRAMES_PER_CHUNK = 0 then FRAMES_PER_CHUNK else (n + 1) mod FRAMES_PER_CHUNK)
          \<and> (ca_frames ?cur = [] \<longrightarrow> full)"
      proof (cases full)
        case True
        then have "ca_frames ?cur = []" by (simp add: q_def rotateChunk_def)
        then show ?thesis using True by (simp add: FRAMES_PER_CHUNK_def)
      next
        case False
        then have n: "n mod FRAMES_PER_CHUNK \<noteq> 0" using full by blast
        then have "0 < n" by (cases n) simp_all
        with cur n False show ?thesis by (simp add: q_def mod_Suc)
      qed
      then show "length (ca_frames ?cur) + 1 \<le> (if (n + 1) mod FRAMES_PER_CHUNK = 0 then FRAMES_PER_CHUNK else (n + 1) mod FRAMES_PER_CHUNK)"
        "ca_frames ?cur = [] \<longrightarrow> full" by simp_all
    qed
    have "(n + 1) mod FRAMES_PER_CHUNK < FRAMES_PER_CHUNK" by (simp add: FRAMES_PER_CHUNK_def)
    then have "length (ca_frames ?cur) + 1 \<le> FRAMES_PER_CHUNK" using len by (simp split: if_splits)
    then have "filling (n + 1) (cs @ [RcFrame tick bytes full, RcVisibility tick masks]) r2"
      using Q len first q by (auto simp: filling_def r2' frames_of_def masks_of_def events_of_def key_chunk_def all_frames_def hd_append)
    then show ?thesis ..
  qed
qed

lemma event_filling:
  "filling n cs r \<Longrightarrow> \<not> mem_aborted r \<Longrightarrow> filling n (cs @ [RcEvent tick event]) (mem_writeEvent tick event r)"
  by (simp add: filling_def mem_writeEvent_def frames_of_def masks_of_def events_of_def key_chunk_def all_frames_def)

lemma recorded_filling:
  "recorded n cs \<Longrightarrow> mem_aborted (mem_feed pools cs (new_recorder True)) \<or> filling n cs (mem_feed pools cs (new_recorder True))"
proof (induction arbitrary: pools rule: recorded.induct)
  case (start meta)
  show ?case
    by (simp add: filling_def new_recorder_def mem_begin_def frames_of_def masks_of_def events_of_def key_chunk_def empty_chunk_def
        all_frames_def)
next
  case (event n cs tick event)
  let ?r = "mem_feed pools cs (new_recorder True)"
  show ?case
    using event.IH [of pools] event_filling [of n cs ?r tick event] by (cases "mem_aborted ?r")
      (auto simp: mem_feed_append mem_writeEvent_def)
next
  case (frame n cs full tick bytes masks)
  let ?r = "mem_feed pools cs (new_recorder True)"
  show ?case
  proof (cases "mem_aborted ?r")
    case True
    then show ?thesis by (simp add: mem_feed_append mem_writeFrame_def mem_writeVisibility_def)
  next
    case False
    then show ?thesis
      using frame_filling [of n cs ?r full _ tick bytes "pools (length cs)" _ masks, OF _ False _ refl refl] frame.IH [of pools]
        frame.hyps(2) by (auto simp: mem_feed_append)
  qed
qed

text \<open>
  C13. The replay of a match is complete and seekable. Take the calls that a session makes of its recorder until the match ends,
  while other recorders use the same budget. Unless the recording was given up, what \<open>finish\<close> seals are all frames, visibility masks
  and events in the order they were recorded, in chunks of at most 60 frames with one set of masks per frame, each of which starts
  with a whole frame.
\<close>

theorem spool_faithful:
  assumes "recorded n cs" and "r = mem_feed pools cs (new_recorder True)" and "mem_finish (pool, r) = (Some (meta, chunks), pool', r')"
  shows "all_frames chunks = frames_of cs \<and> concat (map ca_visibilities chunks) = masks_of cs \<and> concat (map ca_events chunks) = events_of cs
     \<and> list_all key_chunk chunks"
proof -
  have "\<not> mem_aborted r" and sealed: "chunks = sealed_chunks r"
    using assms(3) by (auto simp: mem_finish_def Let_def split: option.splits if_splits)
  then have fill: "filling n cs r" using recorded_filling [OF assms(1), of pools] assms(2) by blast
  have parts: "concat (map g (sealed_chunks r)) = concat (map g (mem_chunks r @ [mem_current r]))" if "g empty_chunk = []" for g :: "chunk_accumulator \<Rightarrow> 'a list"
    using that by (simp add: sealed_chunks_def)
  have "concat (map ca_visibilities (sealed_chunks r)) = masks_of cs" "concat (map ca_events (sealed_chunks r)) = events_of cs"
    using fill parts [of ca_visibilities] parts [of ca_events] by (simp_all add: filling_def empty_chunk_def)
  moreover have "list_all key_chunk (sealed_chunks r)" using fill by (simp add: filling_def sealed_chunks_def)
  moreover have "all_frames (sealed_chunks r) = frames_of cs" using fill by (simp only: filling_def sealed_frames)
  ultimately show ?thesis unfolding sealed by blast
qed

theorem spool_faithful_witness:
  "\<exists>meta chunks pool r. mem_finish (0, mem_feed (\<lambda>_. 0) [RcBegin meta, RcFrame 2 [1, 2, 3] True, RcVisibility 2 [0]] (new_recorder True))
      = (Some (meta, chunks), pool, r) \<and> all_frames chunks = [\<lparr>rf_tick = 2, rf_full = True, rf_bytes = [1, 2, 3]\<rparr>] \<and> list_all key_chunk chunks"
proof -
  define meta where "meta = \<lparr>re_matchId = ''m'', re_mapId = ''city'', re_snapshotHz = 30, re_startTick = 0, re_buildId = ''b'',
    re_protocolVersion = 1, re_rulesVersion = ''r'', re_mapBundleHash = ''h'', re_visibilityCoreVersion = 1, re_participants = []\<rparr>"
  let ?cs = "[RcBegin meta, RcFrame 2 [1, 2, 3] True, RcVisibility 2 [0]]"
  have rec: "recorded 1 ?cs" using recorded.frame [OF recorded.start, of True meta 2 "[1, 2, 3]" "[0]"] by simp
  obtain chunks pool r where fin: "mem_finish (0, mem_feed (\<lambda>_. 0) ?cs (new_recorder True)) = (Some (meta, chunks), pool, r)"
    by (simp add: new_recorder_def mem_begin_def mem_writeFrame_def mem_writeVisibility_def mem_finish_def sealed_chunks_def
        MATCH_FRAME_LIMIT_def PROCESS_SPOOL_LIMIT_BYTES_def empty_chunk_def Let_def)
  from spool_faithful [OF rec refl fin] have "all_frames chunks = frames_of ?cs" "list_all key_chunk chunks" by simp_all
  with fin show ?thesis by (auto simp: frames_of_def)
qed

end
