(* ===== verification/PlayerLaws.thy ===== *)
theory PlayerLaws
  imports StepProps
begin

text \<open>
  Laws of single players. A predicate that every elementary edit of a player keeps holds for all
  players after every tick; the interface \<open>player_law\<close> lists the elementary edits that the
  simulation makes. Below it are the properties of effects, speed and the skills themselves.
\<close>

section \<open>Elementary edits\<close>

text \<open>The strengths that the game gives effects when it applies them anew.\<close>

definition game_effect :: "effect_type \<Rightarrow> real \<Rightarrow> bool" where
  "game_effect t m \<longleftrightarrow>
     (t = EffDash \<and> m = DASH_SPEED_INCREASE SKILL_TUNING)
     \<or> (t = EffFrenzy \<and> m = FRENZY_SPEED_INCREASE SKILL_TUNING)
     \<or> (t = EffExhaust \<and> m \<in> {EXHAUST_SPEED_DECREASE SKILL_TUNING, EXHAUST_SELF_DECREASE SKILL_TUNING,
          SWITCH_VICTIM_SPEED_DECREASE SKILL_TUNING})"

locale player_law =
  fixes P :: "player_state \<Rightarrow> bool"
  assumes on_place: "P p \<Longrightarrow> P (place xy p)"
    and on_velocity: "P p \<Longrightarrow> P (p\<lparr>ps_vx := a, ps_vy := b\<rparr>)"
    and on_facing: "P p \<Longrightarrow> P (p\<lparr>ps_facingX := a, ps_facingY := b\<rparr>)"
    and on_emoji: "P p \<Longrightarrow> P (p\<lparr>ps_emoji := e\<rparr>)"
    and on_stats: "P p \<Longrightarrow> P (p\<lparr>ps_stats := s\<rparr>)"
    and on_death: "P p \<Longrightarrow> P (p\<lparr>ps_alive := False, ps_stats := s\<rparr>)"
    and on_role: "P p \<Longrightarrow> P (set_tagger r p)"
    and on_expire: "P p \<Longrightarrow> P (expireEffects w p)"
    and on_cooldowns: "P p \<Longrightarrow> P (p\<lparr>ps_cooldowns := c\<rparr>)"
    and on_effect: "P p \<Longrightarrow> game_effect t m \<Longrightarrow> P (applyEffect w t m d p)"
    and on_frenzy: "P p \<Longrightarrow> P (extendFrenzyOnTag w p)"
begin

lemma edit_law: "list_all P ps \<Longrightarrow> (\<And>p. P p \<Longrightarrow> P (f p)) \<Longrightarrow> list_all P (edit pid f ps)"
  by (auto simp: edit_def list_all_iff)

lemma grant_law: "P p \<Longrightarrow> P (grantTaggerFrenzy w p)"
  unfolding grantTaggerFrenzy_def by (rule on_effect, assumption, simp add: game_effect_def)

lemma cooldown_law: "P p \<Longrightarrow> P (startCooldown w s c p)" "P p \<Longrightarrow> P (tickCooldowns r p)"
  by (simp_all add: startCooldown_def tickCooldowns_def on_cooldowns)

lemma count_law: "P p \<Longrightarrow> P (count_switch_try p)" "P p \<Longrightarrow> P (count_switch_success p)" "P p \<Longrightarrow> P (count_tag p)"
  by (simp_all add: count_switch_try_def count_switch_success_def count_tag_def on_stats)

lemma eliminate_law: "P p \<Longrightarrow> P (eliminate w p)"
  by (simp add: eliminate_def on_death)

lemma refresh_law: "P p \<Longrightarrow> P (refresh w t p)"
  by (simp add: refresh_def Let_def on_emoji cooldown_law on_expire)

lemma begin_tick_law: "list_all P (w_players w) \<Longrightarrow> list_all P (w_players (begin_tick w))"
  by (simp add: begin_tick_def Let_def list_all_iff refresh_law)

lemma dash_law: "list_all P (w_players w) \<Longrightarrow> list_all P (w_players (fst (snd (useDash w c es))))"
  by (simp add: useDash_def Let_def edit_law cooldown_law on_effect game_effect_def)

lemma flash_law: "list_all P (w_players w) \<Longrightarrow> list_all P (w_players (fst (snd (useFlash w c es))))"
  by (simp add: useFlash_def Let_def edit_law cooldown_law on_place)

lemma exhaust_law: "list_all P (w_players w) \<Longrightarrow> list_all P (w_players (fst (snd (useExhaust w c es))))"
proof -
  have hits: "list_all P (w_players (fold (\<lambda>hit u. edit_world (ps_playerId hit)
        (applyEffect w EffExhaust (EXHAUST_SPEED_DECREASE SKILL_TUNING) (EXHAUST_DURATION_MS SKILL_TUNING)) u) hits u))"
    if "list_all P (w_players u)" for hits u
    using that by (induction hits arbitrary: u) (simp_all add: edit_law on_effect game_effect_def)
  show "list_all P (w_players w) \<Longrightarrow> list_all P (w_players (fst (snd (useExhaust w c es))))"
    unfolding useExhaust_def Let_def
    by (auto intro!: edit_law hits cooldown_law on_effect simp: game_effect_def)
qed

lemma roles_law: "list_all P (w_players u) \<Longrightarrow> list_all P (w_players (switch_roles w a b c u))"
  by (simp add: switch_roles_def Let_def edit_law on_role on_effect grant_law count_law game_effect_def)

lemma switch_law: "list_all P (w_players w) \<Longrightarrow> list_all P (w_players (fst (snd (useSwitch w c t es))))"
  by (simp add: useSwitch_def Let_def edit_law cooldown_law count_law roles_law split: option.split)

lemma skill_law: "list_all P (w_players w) \<Longrightarrow> list_all P (w_players (fst (snd (useSkill w r es))))"
  by (simp add: useSkill_def dash_law flash_law exhaust_law switch_law split: option.split skill_id.split)

lemma requests_law: "list_all P (w_players w) \<Longrightarrow> list_all P (w_players (fst (apply_requests w rs ms)))"
proof -
  have one: "list_all P (w_players (fst acc)) \<Longrightarrow> list_all P (w_players (fst (request_skill r acc)))" for r acc
    using skill_law [of "fst acc" r "fst (snd acc)"]
    by (cases acc) (auto simp: request_skill_def split: prod.splits skill_outcome.splits)
  have skills: "list_all P (w_players (fst acc)) \<Longrightarrow> list_all P (w_players (fst (fold request_skill rs acc)))" for rs acc
    by (induction rs arbitrary: acc) (simp_all add: one)
  have emojis: "list_all P (w_players u) \<Longrightarrow> list_all P (w_players (fold request_emoji ms u))" for ms u
    by (induction ms arbitrary: u) (simp_all add: request_emoji_def edit_law on_emoji split: option.split)
  assume "list_all P (w_players w)"
  then show ?thesis
    using skills [of "(w, [], [])" "sort_key rq_playerId rs"] emojis
    by (cases "fold request_skill (sort_key rq_playerId rs) (w, [], [])") (simp add: apply_requests_def)
qed

lemma integrate_law: "P p \<Longrightarrow> integrate p i = (q, xy) \<Longrightarrow> P q"
  using on_facing [OF on_velocity [of p]] on_velocity [of p] by (auto simp: integrate_def Let_def split: if_splits)

lemma place_power_law: "P p \<Longrightarrow> P (((\<lambda>p. place (f p) p) ^^ n) p)"
  by (induction n) (simp_all add: on_place)

lemma move_law: "P p \<Longrightarrow> P (move_player m s inputs p)"
  by (simp add: move_player_def Let_def place_power_law integrate_law on_velocity split: option.split prod.split)

lemma collisions_law: "list_all P ps \<Longrightarrow> list_all P (fst (resolvePlayerCollisions ps))"
proof -
  have one: "list_all P (fst acc) \<Longrightarrow> list_all P (fst (collide_pair ij acc))" for ij acc
    by (simp add: collide_pair_def edit_law on_place split: option.split prod.split)
  have "list_all P (fst acc) \<Longrightarrow> list_all P (fst (fold collide_pair ijs acc))" for ijs acc
    by (induction ijs arbitrary: acc) (simp_all add: one)
  then show "list_all P ps \<Longrightarrow> list_all P (fst (resolvePlayerCollisions ps))"
    by (simp add: resolvePlayerCollisions_def)
qed

lemma rounds_law: "list_all P ps \<Longrightarrow> list_all P (collision_rounds n m s ps)"
proof (induction n arbitrary: ps)
  case 0
  then show ?case by simp
next
  case (Suc n)
  have one: "P q \<Longrightarrow> P (settle m s q)" for q by (simp add: settle_def on_place)
  have "list_all P (map (settle m s) (fst (resolvePlayerCollisions ps)))"
    using collisions_law [OF Suc.prems] one by (auto simp: list_all_iff)
  with Suc.IH show ?case by (cases "resolvePlayerCollisions ps") (simp add: Let_def)
qed

lemma move_all_law: "list_all P (w_players w) \<Longrightarrow> list_all P (w_players (fst (move_all w inputs)))"
proof -
  assume p: "list_all P (w_players w)"
  have "list_all P (map (move_player m s inputs) (w_players w))" for m s
    using p move_law by (auto simp: list_all_iff)
  then show "list_all P (w_players (fst (move_all w inputs)))"
    by (simp add: move_all_def Let_def applyMapTimeline_players rounds_law)
qed

lemma tag_pair_law: "list_all P (w_players (fst acc)) \<Longrightarrow> list_all P (w_players (fst (tag_pair t pair acc)))"
  by (simp add: tag_pair_def Let_def edit_law on_frenzy count_law eliminate_law split: option.split)

lemma tagging_law: "list_all P (w_players w) \<Longrightarrow> list_all P (w_players (fst (resolveTagging w pairs es)))"
proof -
  have "list_all P (w_players (fst acc)) \<Longrightarrow> list_all P (w_players (fst (fold (tag_pair t) pairs acc)))" for t acc
    by (induction pairs arbitrary: acc) (simp_all add: tag_pair_law)
  then show "list_all P (w_players w) \<Longrightarrow> list_all P (w_players (fst (resolveTagging w pairs es)))"
    by (simp add: resolveTagging_def split: option.split)
qed

lemma rotate_law: "list_all P (w_players w) \<Longrightarrow> list_all P (w_players (fst (rotateTaggerIfStale w es)))"
proof (cases "w_tick w - w_taggerChangedAtTick w < rotation_cooldown_ticks w \<or> rotationCandidates w = []")
  case True
  then show "list_all P (w_players w) \<Longrightarrow> ?thesis" by (auto simp: rotateTaggerIfStale_def Let_def)
next
  case False
  obtain i w1 where iw: "nextRandomInt (int (length (rotationCandidates w))) w = (i, w1)" by fastforce
  have same: "w_players w1 = w_players w" using nextRandomInt_range [OF _ iw] False by auto
  assume a: "list_all P (w_players w)"
  have "list_all P (map (\<lambda>p. set_tagger (b p) p) (w_players w))" for b
    using a by (simp add: list_all_iff on_role)
  then show ?thesis using False iw same by (simp add: rotateTaggerIfStale_def Let_def edit_law grant_law)
qed

lemma step_law: "list_all P (w_players w) \<Longrightarrow> list_all P (w_players (fr_world (stepWorld w inputs skills emojis)))"
proof -
  assume p: "list_all P (w_players w)"
  obtain w0 w1 es js w2 pairs w3 es3 where s: "w0 = begin_tick w"
    "apply_requests w0 skills emojis = (w1, es, js)" "move_all w1 inputs = (w2, pairs)"
    "finish_tick w2 pairs es = (w3, es3)"
    "stepWorld w inputs skills emojis = \<lparr>fr_tick = w_tick w3, fr_world = w3, fr_events = es3, fr_skillRejections = js\<rparr>"
    by (rule stepWorld_stages)
  have "list_all P (w_players w1)" using requests_law [OF begin_tick_law [OF p], of skills emojis] s(1,2) by simp
  then have "list_all P (w_players w2)" using move_all_law [of w1 inputs] s(3) by simp
  then have "list_all P (w_players (fst (resolveTagging w2 pairs es)))" by (rule tagging_law)
  then have "list_all P (w_players (fst (finish_tick w2 pairs es)))"
    using rotate_law by (cases "resolveTagging w2 pairs es") (simp add: finish_tick_def)
  with s(4,5) show ?thesis by simp
qed

end

section \<open>Strengths of effects\<close>

text \<open>Every effect on a player has a strength the game can give; slowing ones are at most a quarter.\<close>

definition strengths_ok :: "player_state \<Rightarrow> bool" where
  "strengths_ok p \<longleftrightarrow>
     (case ps_effects p EffDash of None \<Rightarrow> True | Some e \<Rightarrow> ef_magnitude e = 1 / 2)
     \<and> (case ps_effects p EffFrenzy of None \<Rightarrow> True | Some e \<Rightarrow> 1 / 5 \<le> ef_magnitude e)
     \<and> (case ps_effects p EffExhaust of None \<Rightarrow> True | Some e \<Rightarrow> 1 / 10 \<le> ef_magnitude e \<and> ef_magnitude e \<le> 1 / 4)"

lemma strengths_cong: "ps_effects q = ps_effects p \<Longrightarrow> strengths_ok q = strengths_ok p"
  by (simp add: strengths_ok_def)

lemma strengths_apply: "strengths_ok p \<Longrightarrow> game_effect t m \<Longrightarrow> strengths_ok (applyEffect w t m d p)"
  unfolding strengths_ok_def game_effect_def applyEffect_def Let_def SKILL_TUNING_def
  by (cases t) (auto split: option.splits)

lemma strengths_frenzy: "strengths_ok p \<Longrightarrow> strengths_ok (extendFrenzyOnTag w p)"
  unfolding strengths_ok_def extendFrenzyOnTag_def applyEffect_def Let_def SKILL_TUNING_def
  by (auto split: option.splits)

interpretation strength: player_law strengths_ok
proof unfold_locales
  fix p w assume "strengths_ok p"
  then show "strengths_ok (expireEffects w p)" by (auto simp: strengths_ok_def expireEffects_def split: option.split)
next
  fix p t m w d assume "strengths_ok p" "game_effect t m"
  then show "strengths_ok (applyEffect w t m d p)" by (rule strengths_apply)
next
  fix p w assume "strengths_ok p"
  then show "strengths_ok (extendFrenzyOnTag w p)" by (rule strengths_frenzy)
qed (simp_all add: strengths_ok_def set_tagger_def)

text \<open>A second law: a player's body, sight and chosen skill never change during a game.\<close>

definition built_as :: "real \<Rightarrow> real \<Rightarrow> skill_id \<Rightarrow> player_state \<Rightarrow> bool" where
  "built_as radius sight loadout p \<longleftrightarrow> ps_radius p = radius \<and> ps_sightRange p = sight \<and> ps_loadout p = loadout"

interpretation build: player_law "built_as radius sight loadout" for radius sight loadout
  by unfold_locales (auto simp: built_as_def place_def set_tagger_def expireEffects_def applyEffect_def
      extendFrenzyOnTag_def Let_def split: option.split)

lemma magnitudes_eq:
  "magnitudes p True = (case ps_effects p EffDash of None \<Rightarrow> 0 | Some e \<Rightarrow> ef_magnitude e)
     + (case ps_effects p EffFrenzy of None \<Rightarrow> 0 | Some e \<Rightarrow> ef_magnitude e)"
  "magnitudes p False = (case ps_effects p EffExhaust of None \<Rightarrow> 0 | Some e \<Rightarrow> ef_magnitude e)"
  by (simp_all add: magnitudes_def EFFECT_BITS_def isIncrease_def INCREASE_EFFECTS_def)

lemma speed_bounds:
  assumes "strengths_ok p"
  shows "3 / 4 * BASE_MOVE_SPEED_PX_PER_SEC \<le> currentSpeed p"
    and "currentSpeed p \<le> BASE_MOVE_SPEED_PX_PER_SEC * (1 + magnitudes p True)"
proof -
  define inc dec where "inc = magnitudes p True" and "dec = magnitudes p False"
  have i: "0 \<le> inc" and d: "0 \<le> dec" "dec \<le> 1 / 4"
    using assms by (auto simp: inc_def dec_def magnitudes_eq strengths_ok_def split: option.splits)
  have base: "0 \<le> BASE_MOVE_SPEED_PX_PER_SEC" by (simp add: BASE_MOVE_SPEED_PX_PER_SEC_def MOVEMENT_def TILE_PX_def)
  have speed: "currentSpeed p = BASE_MOVE_SPEED_PX_PER_SEC * ((1 + inc) * max DECREASE_FLOOR (1 - dec))"
    by (simp add: currentSpeed_def Let_def inc_def dec_def mult.assoc)
  have slow: "3 / 4 \<le> max DECREASE_FLOOR (1 - dec)" "max DECREASE_FLOOR (1 - dec) \<le> 1"
    using d by (simp_all add: DECREASE_FLOOR_def SPEED_DECREASE_FLOOR_def)
  have "1 * (3 / 4) \<le> (1 + inc) * max DECREASE_FLOOR (1 - dec)" "(1 + inc) * max DECREASE_FLOOR (1 - dec) \<le> (1 + inc) * 1"
    using i slow by (intro mult_mono; simp)+
  then have "BASE_MOVE_SPEED_PX_PER_SEC * (3 / 4) \<le> currentSpeed p"
    "currentSpeed p \<le> BASE_MOVE_SPEED_PX_PER_SEC * (1 + inc)"
    unfolding speed using base by (simp_all only: mult_left_mono mult_1_left mult_1_right)
  then show "3 / 4 * BASE_MOVE_SPEED_PX_PER_SEC \<le> currentSpeed p"
    "currentSpeed p \<le> BASE_MOVE_SPEED_PX_PER_SEC * (1 + magnitudes p True)" by (simp_all add: inc_def mult.commute)
qed

text \<open>
  Effects have only the strengths of the tuning table: from players whose effects do, a
  tick leads to players whose effects do, and each of them can move at three quarters of the base speed or faster, so
  no combination of slowing skills stops a player.
\<close>

theorem stepWorld_speed_floor:
  assumes "list_all strengths_ok (w_players w)"
  shows "list_all (\<lambda>p. strengths_ok p \<and> 3 / 4 * BASE_MOVE_SPEED_PX_PER_SEC \<le> currentSpeed p)
     (w_players (fr_world (stepWorld w inputs skills emojis)))"
  using strength.step_law [OF assms, of inputs skills emojis] speed_bounds(1) by (auto simp: list_all_iff)

theorem stepWorld_speed_floor_witness:
  "list_all strengths_ok (w_players demo_world)
   \<and> list_all (\<lambda>p. strengths_ok p \<and> 3 / 4 * BASE_MOVE_SPEED_PX_PER_SEC \<le> currentSpeed p)
     (w_players (fr_world (stepWorld demo_world [] [\<lparr>rq_playerId = 1, rq_slot = 2, rq_targetPlayerId = None\<rparr>] [])))"
proof -
  have s: "list_all strengths_ok (w_players demo_world)"
    by (simp add: demo_world_def createWorld_def demo_player_def strengths_ok_def)
  from stepWorld_speed_floor [OF s] s show ?thesis by blast
qed

section \<open>Effects do not stack\<close>

lemma msToTicks_mono: "0 \<le> hz \<Longrightarrow> a \<le> b \<Longrightarrow> msToTicks a hz \<le> msToTicks b hz"
  unfolding msToTicks_def by (intro max.mono order_refl js_round_mono mult_right_mono divide_right_mono) simp_all

lemma msToTicks_max: "0 \<le> hz \<Longrightarrow> msToTicks (max a b) hz = max (msToTicks a hz) (msToTicks b hz)"
  using msToTicks_mono [of hz a b] msToTicks_mono [of hz b a] by (cases "a \<le> b") (simp_all add: max_def)

text \<open>
  Two applications of one effect in a tick are one application of the stronger strength for the
  longer time: effects of a type do not add up, and a weaker one never shortens or weakens a stronger one.
\<close>

theorem applyEffect_twice:
  assumes "0 \<le> w_simulationHz w"
  shows "applyEffect w t m2 d2 (applyEffect w t m1 d1 p) = applyEffect w t (max m1 m2) (max d1 d2) p
     \<and> ps_effects (applyEffect w t m1 d1 p) t' = (if t' = t then ps_effects (applyEffect w t m1 d1 p) t else ps_effects p t')"
proof -
  have "max (w_tick w + a) (w_tick w + b) = w_tick w + max a b" for a b by simp
  then show ?thesis
    by (cases "ps_effects p t")
      (simp_all add: applyEffect_def Let_def msToTicks_max [OF assms] max.assoc max.commute max.left_commute)
qed

theorem applyEffect_twice_witness:
  "applyEffect demo_world EffExhaust (1 / 10) 2500 (applyEffect demo_world EffExhaust (1 / 4) 4000 (demo_player 1 True))
   = applyEffect demo_world EffExhaust (max (1 / 4) (1 / 10)) (max 4000 2500) (demo_player 1 True)"
proof -
  have "0 \<le> w_simulationHz demo_world" by (simp add: demo_world_def createWorld_def SIMULATION_HZ_def)
  from applyEffect_twice [OF this] show ?thesis by blast
qed

end
