(* ===== verification/SkillProps.thy ===== *)
theory SkillProps
  imports PlayerLaws
begin

text \<open>
  The properties of single skills: where a flash lands, and what a switch does on each of its branches.
\<close>

section \<open>Flash\<close>

lemma scan_landing_Some:
  "scan_landing free x0 y0 dx dy s limit t = Some (x, y) \<Longrightarrow>
     free x y \<and> (\<exists>k. t \<le> k \<and> k \<le> limit \<and> x = x0 + dx * k \<and> y = y0 + dy * k)"
proof (induction free x0 y0 dx dy s limit t rule: scan_landing.induct)
  case (1 free x0 y0 dx dy s limit t)
  from 1(2) have c: "t \<le> limit \<and> 0 < s" by (subst (asm) scan_landing.simps) (auto split: if_splits)
  show ?case
  proof (cases "free (x0 + dx * t) (y0 + dy * t)")
    case True
    then have "x = x0 + dx * t" "y = y0 + dy * t" using 1(2) c by (simp_all add: scan_landing.simps [of free])
    with True c show ?thesis by auto
  next
    case False
    then have "scan_landing free x0 y0 dx dy s limit (t + s) = Some (x, y)"
      using 1(2) c by (simp add: scan_landing.simps [of free _ _ _ _ _ _ t])
    from 1(1) [OF c refl refl False this] obtain k where
      "free x y" "t + s \<le> k" "k \<le> limit" "x = x0 + dx * k" "y = y0 + dy * k" by blast
    with c show ?thesis by (intro conjI exI [of _ k]) auto
  qed
qed

text \<open>
  A flash lands well. Whatever the walls, the landing point is free, or it is the starting point; it lies on the
  ray in the viewing direction, never behind the start and at most the distance and the
  overshoot away; a free target is taken exactly.
\<close>

theorem findFlashLanding_lands:
  assumes "0 \<le> dst" "0 \<le> over"
  shows "case findFlashLanding fx fy dx dy dst over radius free of (x, y) \<Rightarrow>
     (free x y \<or> (x = fx \<and> y = fy))
     \<and> (\<exists>k. 0 \<le> k \<and> k \<le> dst + over \<and> x = fx + dx * k \<and> y = fy + dy * k)
     \<and> (if free (fx + dx * dst) (fy + dy * dst) then x = fx + dx * dst \<and> y = fy + dy * dst else True)"
proof -
  let ?tx = "fx + dx * dst" and ?ty = "fy + dy * dst" and ?s = "max 1 (radius / 2)"
  consider (target) "free ?tx ?ty"
    | (forward) x y where "\<not> free ?tx ?ty" "scan_landing free ?tx ?ty dx dy ?s over ?s = Some (x, y)"
    | (backward) x y where "\<not> free ?tx ?ty" "scan_landing free ?tx ?ty dx dy ?s over ?s = None"
        "scan_landing free ?tx ?ty (- dx) (- dy) ?s dst ?s = Some (x, y)"
    | (stay) "\<not> free ?tx ?ty" "scan_landing free ?tx ?ty dx dy ?s over ?s = None"
        "scan_landing free ?tx ?ty (- dx) (- dy) ?s dst ?s = None"
    by (metis option.exhaust surj_pair)
  then show ?thesis
  proof cases
    case target
    then show ?thesis using assms by (auto simp: findFlashLanding_def Let_def intro: exI [of _ dst])
  next
    case (forward x y)
    then have r: "findFlashLanding fx fy dx dy dst over radius free = (x, y)"
      by (simp add: findFlashLanding_def Let_def)
    obtain k where k: "?s \<le> k" "k \<le> over" "x = ?tx + dx * k" "y = ?ty + dy * k" "free x y"
      using scan_landing_Some [OF forward(2)] by blast
    then have "\<exists>k. 0 \<le> k \<and> k \<le> dst + over \<and> x = fx + dx * k \<and> y = fy + dy * k"
      using assms by (intro exI [of _ "dst + k"]) (simp add: algebra_simps)
    with r k(5) forward(1) show ?thesis by simp
  next
    case (backward x y)
    then have r: "findFlashLanding fx fy dx dy dst over radius free = (x, y)"
      by (simp add: findFlashLanding_def Let_def)
    obtain k where k: "?s \<le> k" "k \<le> dst" "x = ?tx + - dx * k" "y = ?ty + - dy * k" "free x y"
      using scan_landing_Some [OF backward(3)] by blast
    then have "\<exists>k. 0 \<le> k \<and> k \<le> dst + over \<and> x = fx + dx * k \<and> y = fy + dy * k"
      using assms by (intro exI [of _ "dst - k"]) (simp add: algebra_simps)
    with r k(5) backward(1) show ?thesis by simp
  next
    case stay
    then have "findFlashLanding fx fy dx dy dst over radius free = (fx, fy)"
      by (simp add: findFlashLanding_def Let_def)
    with assms stay(1) show ?thesis by (auto intro: exI [of _ 0])
  qed
qed

theorem findFlashLanding_lands_witness:
  "case findFlashLanding 0 0 1 0 FLASH_DISTANCE_PX FLASH_WALL_EXIT_MAX_PX PLAYER_RADIUS_PX (\<lambda>x y. x < 500) of (x, y) \<Rightarrow>
     (x < 500 \<or> (x = 0 \<and> y = 0)) \<and> (\<exists>k. 0 \<le> k \<and> k \<le> FLASH_DISTANCE_PX + FLASH_WALL_EXIT_MAX_PX \<and> x = k)"
proof -
  have h: "0 \<le> FLASH_DISTANCE_PX" "0 \<le> FLASH_WALL_EXIT_MAX_PX"
    by (simp_all add: FLASH_DISTANCE_PX_def FLASH_WALL_EXIT_MAX_PX_def SKILL_TUNING_def TILE_PX_def)
  from findFlashLanding_lands [OF h, where fx = 0 and fy = 0 and dx = 1 and dy = 0
      and radius = PLAYER_RADIUS_PX and free = "\<lambda>x y. x < 500"] show ?thesis
    by (auto split: prod.splits)
qed

section \<open>Switch\<close>

lemma keeps_id_skills [simp]:
  "keeps_id (startCooldown w s c)" "keeps_id count_switch_try" "keeps_id count_switch_success"
  "keeps_id (set_tagger b)" "keeps_id (applyEffect w t m d)" "keeps_id (grantTaggerFrenzy w)"
  by (simp_all add: keeps_id_def startCooldown_def count_switch_try_def count_switch_success_def set_tagger_def
      applyEffect_def grantTaggerFrenzy_def Let_def)

text \<open>The bookkeeping of a player: the cooldown of its switch and its counts of tries and successes.\<close>

definition switch_book :: "player_state \<Rightarrow> real option \<times> int \<times> int" where
  "switch_book p = (ps_cooldowns p SkSwitch, st_switchTry (ps_stats p), st_switchSuccess (ps_stats p))"

lemma switch_book_simps [simp]:
  "switch_book (set_tagger b p) = switch_book p" "switch_book (applyEffect w t m d p) = switch_book p"
  "switch_book (grantTaggerFrenzy w p) = switch_book p"
  "switch_book (count_switch_success p) = (fst (switch_book p), fst (snd (switch_book p)), snd (snd (switch_book p)) + 1)"
  "switch_book (count_switch_try p) = (fst (switch_book p), fst (snd (switch_book p)) + 1, snd (snd (switch_book p)))"
  "switch_book (startCooldown w SkSwitch c p) = (Some (of_int (msToTicks c (w_simulationHz w))), snd (switch_book p))"
  by (simp_all add: switch_book_def set_tagger_def applyEffect_def grantTaggerFrenzy_def count_switch_success_def
      count_switch_try_def startCooldown_def Let_def)

definition book_of :: "int \<Rightarrow> world \<Rightarrow> (real option \<times> int \<times> int) option" where
  "book_of pid w = map_option switch_book (find_player pid (w_players w))"

lemma book_of_edit:
  "keeps_id f \<Longrightarrow> book_of pid (edit_world pid' f w) =
     (if pid = pid' then map_option (\<lambda>p. switch_book (f p)) (find_player pid (w_players w)) else book_of pid w)"
  by (simp add: book_of_def find_player_edit option.map_comp comp_def)

text \<open>A target that the caster may name.\<close>

definition may_target :: "world \<Rightarrow> player_state \<Rightarrow> int option \<Rightarrow> bool" where
  "may_target w caster target = (case target of None \<Rightarrow> False
     | Some t \<Rightarrow> (case find_player t (w_players w) of None \<Rightarrow> False
        | Some p \<Rightarrow> ps_alive p \<and> \<not> ps_isTagger p \<and> t \<noteq> ps_playerId caster))"

text \<open>
  The switch. A living runner with the skill ready uses it. It succeeds exactly when the tagger is in range and the
  target is another living runner, anywhere; then the target is the only tagger and the rotation clock restarts.
  Otherwise nobody's role changes, and the reason is the range first and the target second. In every case the cooldown
  starts and the try is counted; only a success counts as one.
\<close>

theorem useSkill_switch:
  assumes ok: "game_ok (w_players w)"
    and caster: "find_player c (w_players w) = Some p" "ps_alive p" "\<not> ps_isTagger p" "isReady p SkSwitch"
    and tagger: "find_tagger (w_players w) = Some t"
  shows "case useSkill w \<lparr>rq_playerId = c, rq_slot = SLOT_SWITCH, rq_targetPlayerId = target\<rparr> es of (out, w', es') \<Rightarrow>
     (if SWITCH_RANGE_PX < distance p t
      then out = Refused OutOfRange \<and> map ps_isTagger (w_players w') = map ps_isTagger (w_players w)
      else if \<not> may_target w p target
      then out = Refused NoTarget \<and> map ps_isTagger (w_players w') = map ps_isTagger (w_players w)
      else out = Used SkSwitch \<and> tagger_is (the target) (w_players w') \<and> w_taggerChangedAtTick w' = w_tick w)
     \<and> book_of c w' = Some (Some (of_int (msToTicks (SWITCH_COOLDOWN_MS SKILL_TUNING) (w_simulationHz w))),
         st_switchTry (ps_stats p) + 1, st_switchSuccess (ps_stats p) + (if out = Used SkSwitch then 1 else 0))"
proof -
  have id: "ps_playerId p = c" using find_player_SomeD [OF caster(1)] by simp
  let ?w1 = "edit_world c (startCooldown w SkSwitch (SWITCH_COOLDOWN_MS SKILL_TUNING)) w"
  let ?w2 = "edit_world c count_switch_try ?w1"
  let ?es = "es @ [EvSkillArea SkSwitch c (ps_x p) (ps_y p) target]"
  have use: "useSkill w \<lparr>rq_playerId = c, rq_slot = SLOT_SWITCH, rq_targetPlayerId = target\<rparr> es = useSwitch w p target es"
    using caster by (simp add: useSkill_def skillInSlot_def)
  have same: "map ps_isTagger (w_players ?w2) = map ps_isTagger (w_players w)"
    by (rule core_map_eqD(3)) (simp add: core_edit)
  have book2: "book_of c ?w2 = Some (Some (of_int (msToTicks (SWITCH_COOLDOWN_MS SKILL_TUNING) (w_simulationHz w))),
      st_switchTry (ps_stats p) + 1, st_switchSuccess (ps_stats p))"
    using caster(1) by (simp add: book_of_edit find_player_edit) (simp add: switch_book_def)
  show ?thesis
  proof (cases "SWITCH_RANGE_PX < distance p t \<or> \<not> may_target w p target")
    case True
    then have "useSwitch w p target es =
        (Refused (if SWITCH_RANGE_PX < distance p t then OutOfRange else NoTarget), ?w2, ?es)"
      using caster(3) tagger id find_player_SomeD
      by (auto simp: useSwitch_def Let_def may_target_def split: option.splits)
    with True use same book2 show ?thesis by auto
  next
    case False
    then obtain n q where n: "target = Some n" "find_player n (w_players w) = Some q" "ps_alive q" "\<not> ps_isTagger q" "n \<noteq> c"
      using id by (auto simp: may_target_def split: option.splits)
    have qid: "ps_playerId q = n" using find_player_SomeD [OF n(2)] by simp
    let ?w3 = "switch_roles w (ps_playerId t) n c ?w2"
    have res: "useSwitch w p target es = (Used SkSwitch, ?w3, ?es @ [EvTagged n (Some c)])"
      using False caster(3) tagger id n qid by (simp add: useSwitch_def Let_def)
    have core2: "map core (w_players ?w2) = map core (w_players w)" by (simp add: core_edit)
    have "map core (w_players ?w3) = map core (map (assign_tagger (ps_playerId t) n) (w_players w))"
      using core_assign_map core2 by (simp only: core_switch_roles core_assign_map)
    moreover have "tagger_is n (map (assign_tagger (ps_playerId t) n) (w_players w))"
      by (rule tagger_is_assign [OF tagger_unique [OF ok tagger] n(2,3)])
    ultimately have role: "tagger_is n (w_players ?w3)" using tagger_is_core by blast
    have clock: "w_taggerChangedAtTick ?w3 = w_tick w" by (simp add: switch_roles_def Let_def)
    have "book_of c ?w3 = Some (Some (of_int (msToTicks (SWITCH_COOLDOWN_MS SKILL_TUNING) (w_simulationHz w))),
        st_switchTry (ps_stats p) + 1, st_switchSuccess (ps_stats p) + 1)"
    proof -
      have clock_book: "book_of c (u\<lparr>w_taggerChangedAtTick := k\<rparr>) = book_of c u" for u k by (simp add: book_of_def)
      have keep: "book_of c (edit_world i f u) = book_of c u" if "keeps_id f" "\<And>z. switch_book (f z) = switch_book z" for i f u
        using that by (simp add: book_of_edit book_of_def [of c u])
      have count: "book_of c (edit_world c count_switch_success u)
          = map_option (\<lambda>b. (fst b, fst (snd b), snd (snd b) + 1)) (book_of c u)" for u
        by (simp add: book_of_edit book_of_def [of c u] option.map_comp comp_def)
      show ?thesis
        unfolding switch_roles_def Let_def count by (simp add: keep clock_book book2)
    qed
    with False use res role clock n(1) show ?thesis by simp
  qed
qed

theorem useSkill_switch_witness:
  "case useSkill demo_world \<lparr>rq_playerId = 2, rq_slot = SLOT_SWITCH, rq_targetPlayerId = Some 3\<rparr> [] of (out, w', es') \<Rightarrow>
     out = Used SkSwitch \<and> tagger_is 3 (w_players w')"
proof -
  let ?p = "demo_player 2 False" and ?t = "demo_player 1 True"
  have f: "find_player 2 (w_players demo_world) = Some ?p" "find_tagger (w_players demo_world) = Some ?t"
    "find_player 3 (w_players demo_world) = Some (demo_player 3 False)"
    by (simp_all add: find_player_def find_tagger_def demo_world_def createWorld_def demo_player_def)
  have p: "ps_alive ?p" "\<not> ps_isTagger ?p" "isReady ?p SkSwitch" "ps_playerId ?p = 2"
    by (simp_all add: demo_player_def isReady_def)
  have "may_target demo_world ?p (Some 3)" using f(3) p(4) by (simp add: may_target_def) (simp add: demo_player_def)
  moreover have "distance ?p ?t = 300" by (simp add: distance_def js_hypot_def demo_player_def)
  moreover have "\<not> SWITCH_RANGE_PX < 300" by (simp add: SWITCH_RANGE_PX_def SKILL_TUNING_def TILE_PX_def)
  ultimately show ?thesis
    using useSkill_switch [OF demo_ok f(1) p(1,2,3) f(2), of "Some 3" "[]"] by (auto split: prod.splits)
qed

end

