(* ===== verification/TrainingProps.thy ===== *)
theory TrainingProps
  imports Training
begin

text \<open>
  What the targets of the training ground do: their routes are paths to the closest reachable tile, and the
  computation of their inputs does not throw unless a target came back to a course of one point.
\<close>

declare split_paired_All [simp del] split_paired_Ex [simp del]

section \<open>Routes\<close>

definition adjacent :: "tile_point \<Rightarrow> tile_point \<Rightarrow> bool" where
  "adjacent a b \<longleftrightarrow> (\<exists>d \<in> set CARDINAL_DIRECTIONS. b = (fst a + fst d, snd a + snd d))"

definition step_ok :: "world_map \<Rightarrow> tile_point \<Rightarrow> tile_point \<Rightarrow> bool" where
  "step_ok m a b \<longleftrightarrow> adjacent a b \<and> isWalkable m b"

text \<open>The tiles that can be reached over walkable tiles.\<close>

inductive reach :: "world_map \<Rightarrow> tile_point \<Rightarrow> tile_point \<Rightarrow> bool" for m s where
  here: "reach m s s"
| onward: "reach m s t \<Longrightarrow> step_ok m t u \<Longrightarrow> reach m s u"

text \<open>The map \<open>previous\<close> as the search builds it: every later tile was reached from an earlier one.\<close>

inductive grown :: "world_map \<Rightarrow> tile_point \<Rightarrow> came_from \<Rightarrow> bool" for m s where
  start: "grown m s [(s, None)]"
| grow: "grown m s prev \<Longrightarrow> p \<in> fst ` set prev \<Longrightarrow> step_ok m p k \<Longrightarrow> k \<notin> fst ` set prev \<Longrightarrow> grown m s (prev @ [(k, Some p)])"

lemma js_set_new: "k \<notin> fst ` set xs \<Longrightarrow> js_set k v xs = xs @ [(k, v)]"
  unfolding js_set_def by (induction xs) auto

lemma js_has_iff: "js_has prev k \<longleftrightarrow> k \<in> fst ` set prev"
  by (auto simp: js_has_def js_get_None_iff)

lemma grown_ok: "grown m s prev \<Longrightarrow> js_ok prev \<and> s \<in> fst ` set prev"
  by (induction rule: grown.induct) (auto simp: js_ok_def)

lemma grown_reach: "grown m s prev \<Longrightarrow> k \<in> fst ` set prev \<Longrightarrow> reach m s k"
  by (induction arbitrary: k rule: grown.induct) (auto intro: reach.intros)

lemma js_get_append: "js_get (xs @ ys) k = (case js_get xs k of Some v \<Rightarrow> Some v | None \<Rightarrow> js_get ys k)"
  by (simp add: js_get_def map_add_def split: option.split)

lemma grown_parent: "grown m s prev \<Longrightarrow> js_get prev k = Some (Some p) \<Longrightarrow> p \<in> fst ` set prev"
  by (induction arbitrary: k p rule: grown.induct)
    (auto simp: js_get_def map_add_def split: if_splits option.splits)

lemma trace_append:
  assumes "grown m s prev"
  shows "k \<in> fst ` set prev \<Longrightarrow> trace n (prev @ ext) k = trace n prev k"
proof (induction n arbitrary: k)
  case (Suc n)
  obtain v where v: "js_get prev k = Some v" using Suc.prems by (metis js_get_None_iff not_None_eq)
  show ?case
  proof (cases v)
    case (Some p)
    have "trace n (prev @ ext) p = trace n prev p"
      using v Some by (intro Suc.IH grown_parent [OF assms]) simp
    with v Some show ?thesis by (simp add: js_get_append)
  qed (use v in \<open>simp add: js_get_append\<close>)
qed simp

lemma trace_path:
  "grown m s prev \<Longrightarrow> k \<in> fst ` set prev \<Longrightarrow> length prev \<le> n \<Longrightarrow>
     trace n prev k \<noteq> [] \<and> hd (trace n prev k) = k \<and> last (trace n prev k) = s
     \<and> successively (step_ok m) (rev (trace n prev k))"
proof (induction arbitrary: k n rule: grown.induct)
  case start
  then obtain n' where "n = Suc n'" "k = s" by (cases n) auto
  then show ?case by (simp add: js_get_def)
next
  case (grow prev p k0)
  obtain n' where n: "n = Suc n'" "length prev \<le> n'" using grow.prems(2) by (cases n) auto
  show ?case
  proof (cases "k = k0")
    case False
    with grow.prems have "k \<in> fst ` set prev" by auto
    with grow.IH [OF this, of n] grow.prems(2) trace_append [OF grow.hyps(1) this] show ?thesis by simp
  next
    case True
    have get: "js_get (prev @ [(k0, Some p)]) k0 = Some (Some p)"
      using grow.hyps(4) by (simp add: js_get_append js_get_None_iff [THEN iffD2]) (simp add: js_get_def)
    have p: "trace n' (prev @ [(k0, Some p)]) p = trace n' prev p"
      by (rule trace_append [OF grow.hyps(1,2)])
    note ih = grow.IH [OF grow.hyps(2) n(2)]
    have "rev (trace n' prev p) \<noteq> [] \<and> last (rev (trace n' prev p)) = p" using ih by (simp add: last_rev)
    then show ?thesis using ih grow.hyps(3) by (simp add: n(1) True get p successively_append_iff)
  qed
qed

text \<open>Looking at the four neighbours of a known tile.\<close>

lemma visit_grown:
  assumes "grown m s (snd acc)" "current \<in> fst ` set (snd acc)" "dir \<in> set CARDINAL_DIRECTIONS"
  shows "grown m s (snd (visit m current dir acc))
    \<and> fst ` set (snd (visit m current dir acc)) = fst ` set (snd acc)
        \<union> {t. t = (fst current + fst dir, snd current + snd dir) \<and> isWalkable m t}
    \<and> set (fst (visit m current dir acc)) = set (fst acc) \<union> (fst ` set (snd (visit m current dir acc)) - fst ` set (snd acc))"
proof -
  let ?n = "(fst current + fst dir, snd current + snd dir)"
  show ?thesis
  proof (cases "isWalkable m ?n \<and> ?n \<notin> fst ` set (snd acc)")
    case True
    moreover have "step_ok m current ?n" using True assms(3) by (auto simp: step_ok_def adjacent_def)
    ultimately show ?thesis using assms(1,2) grown.grow [OF assms(1,2)]
      by (auto simp: visit_def js_has_iff js_set_new Let_def)
  next
    case False
    then have "visit m current dir acc = acc" by (auto simp: visit_def js_has_iff Let_def)
    with False assms(1) show ?thesis by auto
  qed
qed

lemma visits_grown:
  assumes "set dirs \<subseteq> set CARDINAL_DIRECTIONS" "grown m s (snd acc)" "current \<in> fst ` set (snd acc)"
  shows "grown m s (snd (fold (visit m current) dirs acc))
    \<and> fst ` set (snd (fold (visit m current) dirs acc)) = fst ` set (snd acc)
        \<union> {t. isWalkable m t \<and> (\<exists>d \<in> set dirs. t = (fst current + fst d, snd current + snd d))}
    \<and> set (fst (fold (visit m current) dirs acc))
        = set (fst acc) \<union> (fst ` set (snd (fold (visit m current) dirs acc)) - fst ` set (snd acc))"
  using assms
proof (induction dirs arbitrary: acc)
  case (Cons dir dirs)
  have dir: "dir \<in> set CARDINAL_DIRECTIONS" using Cons.prems(1) by simp
  note v = visit_grown [OF Cons.prems(2,3) dir]
  from Cons.IH [of "visit m current dir acc"] v Cons.prems show ?case by (simp only: fold_simps) auto
qed simp

lemma neighbours_grown:
  assumes "grown m s prev" "current \<in> fst ` set prev"
  shows "grown m s (snd (neighbours m current prev))
    \<and> fst ` set (snd (neighbours m current prev)) = fst ` set prev \<union> {t. step_ok m current t}
    \<and> set (fst (neighbours m current prev)) = fst ` set (snd (neighbours m current prev)) - fst ` set prev"
  using visits_grown [OF order_refl, of m s "([], prev)" current] assms
  by (auto simp: neighbours_def step_ok_def adjacent_def)

text \<open>The invariant of the search: tiles that left the queue have their neighbours known, and none of them is closer than the best.\<close>

definition searching :: "world_map \<Rightarrow> tile_point \<Rightarrow> tile_point \<Rightarrow> tile_point list \<Rightarrow> came_from \<Rightarrow> tile_point \<Rightarrow> bool" where
  "searching m s target queue prev best \<longleftrightarrow>
     grown m s prev \<and> set queue \<subseteq> fst ` set prev \<and> best \<in> fst ` set prev
     \<and> (\<forall>k \<in> fst ` set prev - set queue. manhattan best target \<le> manhattan k target
          \<and> (\<forall>t. step_ok m k t \<longrightarrow> t \<in> fst ` set prev))"

lemma closed_reach:
  assumes "\<forall>k \<in> K. \<forall>t. step_ok m k t \<longrightarrow> t \<in> K" "s \<in> K" "reach m s t"
  shows "t \<in> K"
  using assms(3,1,2) by (induction rule: reach.induct) auto

lemma manhattan_0: "manhattan a b = 0 \<longleftrightarrow> a = b"
  by (auto simp: manhattan_def prod_eq_iff)

lemma manhattan_ge0: "0 \<le> manhattan a b"
  by (simp add: manhattan_def)

lemma search_best:
  "searching m s target queue prev best \<Longrightarrow> search m target queue prev best = (b, prev') \<Longrightarrow>
     grown m s prev' \<and> b \<in> fst ` set prev' \<and> (\<forall>t. reach m s t \<longrightarrow> manhattan b target \<le> manhattan t target)"
proof (induction m target queue prev best rule: search.induct)
  case (1 m target prev best)
  then have inv: "grown m s prev" "best \<in> fst ` set prev" and out: "b = best" "prev' = prev"
    and K: "\<forall>k \<in> fst ` set prev. manhattan best target \<le> manhattan k target"
      "\<forall>k \<in> fst ` set prev. \<forall>t. step_ok m k t \<longrightarrow> t \<in> fst ` set prev"
    by (simp_all add: searching_def search.simps)
  have "s \<in> fst ` set prev" using grown_ok [OF inv(1)] by simp
  with inv out K closed_reach [OF K(2)] show ?case by blast
next
  case (2 m target current queue prev best)
  have g: "grown m s prev" "current \<in> fst ` set prev" using "2.prems"(1) by (auto simp: searching_def)
  show ?case
  proof (cases "manhattan current target = 0")
    case True
    then show ?thesis using "2.prems" g by (auto simp: manhattan_ge0 search.simps)
  next
    case False
    let ?best = "if manhattan current target < manhattan best target then current else best"
    let ?n = "neighbours m current prev"
    note n = neighbours_grown [OF g]
    have keep: "manhattan ?best target \<le> manhattan best target \<and> manhattan ?best target \<le> manhattan current target" by simp
    have "searching m s target (queue @ fst ?n) (snd ?n) ?best"
      unfolding searching_def
    proof (intro conjI ballI)
      have old: "set queue \<subseteq> fst ` set prev" "best \<in> fst ` set prev" using "2.prems"(1) by (simp_all add: searching_def)
      show "grown m s (snd ?n)" using n by simp
      show "set (queue @ fst ?n) \<subseteq> fst ` set (snd ?n)" using n old(1) by (simp add: le_supI1)
      show "?best \<in> fst ` set (snd ?n)" using n old(2) g(2) by simp
      fix k assume "k \<in> fst ` set (snd ?n) - set (queue @ fst ?n)"
      then have k: "k \<in> fst ` set prev" "k \<notin> set queue" using n by auto
      then have "k = current \<or> k \<in> fst ` set prev - set (current # queue)" by simp
      then have "k = current \<or> manhattan best target \<le> manhattan k target \<and> (\<forall>t. step_ok m k t \<longrightarrow> t \<in> fst ` set prev)"
        using "2.prems"(1) unfolding searching_def by blast
      then show "manhattan ?best target \<le> manhattan k target"
        and "\<forall>t. step_ok m k t \<longrightarrow> t \<in> fst ` set (snd ?n)" using keep n by auto
    qed
    with "2.IH" [OF refl False] "2.prems"(2) False show ?thesis by (simp add: search.simps)
  qed
qed

text \<open>Where the route starts: the tile itself, or the nearest walkable one.\<close>

definition route_start :: "world_map \<Rightarrow> tile_point \<Rightarrow> tile_point option" where
  "route_start m a = (if isWalkable m a then Some a else nearestWalkable m a)"

lemma nearest_fold:
  "fold (nearer m a) ts best = Some b \<Longrightarrow> (\<And>c. best = Some c \<Longrightarrow> isWalkable m c) \<Longrightarrow>
     isWalkable m b \<and> (\<forall>c. best = Some c \<longrightarrow> manhattan b a \<le> manhattan c a)
     \<and> (\<forall>t \<in> set ts. isWalkable m t \<longrightarrow> manhattan b a \<le> manhattan t a)"
proof (induction ts arbitrary: best)
  case (Cons t ts)
  let ?best = "nearer m a t best"
  have rest: "fold (nearer m a) ts ?best = Some b" using Cons.prems(1) by simp
  have walk: "isWalkable m c" if "?best = Some c" for c
    using that Cons.prems(2) by (auto simp: nearer_def split: if_splits option.splits)
  note ih = Cons.IH [OF rest walk]
  have "\<exists>c'. ?best = Some c' \<and> manhattan c' a \<le> manhattan c a" if "best = Some c" for c
    using that by (simp add: nearer_def)
  moreover have "\<exists>c'. ?best = Some c' \<and> manhattan c' a \<le> manhattan t a" if "isWalkable m t"
    using that by (cases best) (simp_all add: nearer_def)
  ultimately show ?case using ih by (metis order_trans set_ConsD)
qed simp

lemma nearest_fold_None: "fold (nearer m a) ts best = None \<longleftrightarrow> best = None \<and> (\<forall>t \<in> set ts. \<not> isWalkable m t)"
  by (induction ts arbitrary: best) (auto simp: nearer_def split: option.split)

lemma walkable_on_map: "isWalkable m t \<Longrightarrow> t \<in> set (map_tiles m)"
  by (simp add: set_map_tiles isWalkable_def)

lemma route_start_None: "route_start m a = None \<longleftrightarrow> (\<forall>t. \<not> isWalkable m t)"
  by (auto simp: route_start_def nearestWalkable_def nearest_fold_None walkable_on_map)

lemma route_start_Some: "route_start m a = Some s \<Longrightarrow> isWalkable m s \<and> (\<forall>t. isWalkable m t \<longrightarrow> manhattan s a \<le> manhattan t a)"
  using nearest_fold [of m a "map_tiles m" None s] walkable_on_map
  by (auto simp: route_start_def nearestWalkable_def manhattan_0 manhattan_ge0 manhattan_0 [THEN iffD2, OF refl] split: if_splits)

text \<open>
  A route is a path to the closest tile there is a way to. It starts where the target stands, or at the nearest
  walkable tile if that is a wall, goes from neighbour to neighbour over walkable tiles, and ends at a tile that is at least as
  close to the goal as every tile that can be reached; it says that the goal was reached exactly if it can be. There is
  a route unless the map has no walkable tile.
\<close>

theorem routeToward_closest:
  "case routeToward m a target of
     None \<Rightarrow> \<forall>t. \<not> isWalkable m t
   | Some r \<Rightarrow> \<exists>s. route_start m a = Some s \<and> isWalkable m s \<and> rr_tiles r \<noteq> [] \<and> hd (rr_tiles r) = s
       \<and> successively (step_ok m) (rr_tiles r) \<and> reach m s (last (rr_tiles r))
       \<and> (\<forall>t. reach m s t \<longrightarrow> manhattan (last (rr_tiles r)) target \<le> manhattan t target)
       \<and> (rr_reachedTarget r \<longleftrightarrow> reach m s target)"
proof (cases "route_start m a")
  case None
  then have "routeToward m a target = None" by (simp add: routeToward_def route_start_def split: if_splits)
  with None show ?thesis by (simp add: route_start_None)
next
  case (Some s)
  obtain b prev where sr: "search m target [s] (js_set s None js_empty) s = (b, prev)" by (rule prod.exhaust)
  have first: "js_set s None js_empty = [(s, None)]" by (simp add: js_set_def js_empty_def)
  have "searching m s target [s] [(s, None)] s" by (simp add: searching_def grown.start)
  note found = search_best [OF this sr [unfolded first]]
  then have g: "grown m s prev" "b \<in> fst ` set prev"
    and best: "\<forall>t. reach m s t \<longrightarrow> manhattan b target \<le> manhattan t target" by simp_all
  have r: "routeToward m a target = Some \<lparr>rr_tiles = rev (trace (js_size prev) prev b), rr_reachedTarget = (manhattan b target = 0)\<rparr>"
    using Some by (simp add: routeToward_def route_start_def sr split: if_splits)
  note path = trace_path [OF g, of "js_size prev"]
  have "reach m s b" by (rule grown_reach [OF g])
  moreover have "manhattan b target = 0 \<longleftrightarrow> reach m s target"
  proof
    assume "reach m s target"
    with best have "manhattan b target \<le> 0" by (metis manhattan_0)
    with manhattan_ge0 [of b target] show "manhattan b target = 0" by simp
  qed (use \<open>reach m s b\<close> in \<open>simp add: manhattan_0\<close>)
  moreover have "rev (trace (js_size prev) prev b) \<noteq> [] \<and> hd (rev (trace (js_size prev) prev b)) = s
      \<and> last (rev (trace (js_size prev) prev b)) = b \<and> successively (step_ok m) (rev (trace (js_size prev) prev b))"
    using path by (simp add: js_size_def hd_rev last_rev)
  ultimately show ?thesis
    unfolding r option.case using Some route_start_Some [OF Some] best by (intro exI [of _ s]) simp
qed

text \<open>Where a wall divides the map, the tile behind the wall cannot be reached, and the route ends beside the wall.\<close>

definition demo_walled :: world_map where
  "demo_walled = \<lparr>wm_mapId = ''walled'', wm_cols = 3, wm_rows = 1, wm_tileSize = 256,
     wm_tiles = [[TILE_FLOOR, TILE_WALL, TILE_FLOOR]], wm_barrierSpeed = 0, wm_timeline = (\<lambda>_. None),
     wm_markers = [], wm_zones = []\<rparr>"

theorem routeToward_closest_witness:
  "\<exists>r. routeToward demo_walled (0, 0) (2, 0) = Some r \<and> last (rr_tiles r) = (0, 0) \<and> \<not> reach demo_walled (0, 0) (2, 0)"
proof -
  have run: "case routeToward demo_walled (0, 0) (2, 0) of None \<Rightarrow> False
      | Some r \<Rightarrow> last (rr_tiles r) = (0, 0) \<and> \<not> rr_reachedTarget r" by code_simp
  have start: "route_start demo_walled (0, 0) = Some (0, 0)" by code_simp
  obtain r where r: "routeToward demo_walled (0, 0) (2, 0) = Some r" "last (rr_tiles r) = (0, 0)" "\<not> rr_reachedTarget r"
    using run by (cases "routeToward demo_walled (0, 0) (2, 0)") simp_all
  show ?thesis using routeToward_closest [of demo_walled "(0, 0)" "(2, 0)"] r start by auto
qed

section \<open>The inputs of the targets\<close>

definition index_ok :: "dummy_state \<Rightarrow> bool" where
  "index_ok d \<longleftrightarrow> du_targetIndex d < length (du_course d)"

text \<open>What respawning and sending home do to the state of a target.\<close>

definition due_state :: "int \<Rightarrow> dummy_state \<Rightarrow> bool" where
  "due_state tick d \<longleftrightarrow> (case du_respawnAtTick d of None \<Rightarrow> False | Some t \<Rightarrow> t \<le> tick)"

definition respawned_state :: "int \<Rightarrow> dummy_state \<Rightarrow> dummy_state" where
  "respawned_state tick d = (if due_state tick d
     then d\<lparr>du_cachedRoute := None, du_targetIndex := (if du_kind d = Still then 0 else 1), du_respawnAtTick := None\<rparr> else d)"

definition home_state :: "dummy_state \<Rightarrow> dummy_state" where
  "home_state d = (if du_kind d \<noteq> Chase then d
     else d\<lparr>du_targetIndex := (if 1 < length (du_course d) then 1 else 0), du_cachedRoute := None, du_respawnAtTick := None\<rparr>)"

lemma respawn_fold:
  "w_tick (fst (fold respawn_dummy ds acc)) = w_tick (fst acc) \<and> w_map (fst (fold respawn_dummy ds acc)) = w_map (fst acc)
   \<and> map ps_playerId (w_players (fst (fold respawn_dummy ds acc))) = map ps_playerId (w_players (fst acc))
   \<and> snd (fold respawn_dummy ds acc) = snd acc @ map (respawned_state (w_tick (fst acc))) ds"
proof (induction ds arbitrary: acc)
  case (Cons d ds)
  have "w_tick (fst (respawn_dummy d acc)) = w_tick (fst acc) \<and> w_map (fst (respawn_dummy d acc)) = w_map (fst acc)
     \<and> map ps_playerId (w_players (fst (respawn_dummy d acc))) = map ps_playerId (w_players (fst acc))
     \<and> snd (respawn_dummy d acc) = snd acc @ [respawned_state (w_tick (fst acc)) d]"
    by (auto simp: respawn_dummy_def respawned_state_def due_state_def edit_world_def edit_def respawned_def place_def split: option.split)
  with Cons.IH [of "respawn_dummy d acc"] show ?case by simp
qed simp

lemma reset_fold: "snd (fold reset_state ds acc) = snd acc @ map home_state ds"
proof (induction ds arbitrary: acc)
  case (Cons d ds)
  have "snd (reset_state d acc) = snd acc @ [home_state d]"
    by (simp add: reset_state_def home_state_def sendHome_def)
  with Cons.IH [of "reset_state d acc"] show ?case by simp
qed simp

lemma reset_fold_world:
  "w_map (fst (fold reset_state ds acc)) = w_map (fst acc)
   \<and> map ps_playerId (w_players (fst (fold reset_state ds acc))) = map ps_playerId (w_players (fst acc))"
proof (induction ds arbitrary: acc)
  case (Cons d ds)
  have "w_map (fst (reset_state d acc)) = w_map (fst acc)
     \<and> map ps_playerId (w_players (fst (reset_state d acc))) = map ps_playerId (w_players (fst acc))"
    by (simp add: reset_state_def sendHome_def edit_world_def edit_def back_home_def place_def set_tagger_def)
  with Cons.IH [of "reset_state d acc"] show ?case by simp
qed simp

lemma resetChase_states: "tg_states (snd (resetChase world g)) = map home_state (tg_states g)"
  using reset_fold [of "tg_states g" "(if tg_chaseActive g then clear_taggers world else world, [])"]
  by (simp add: resetChase_def Let_def case_prod_beta)

lemma resetChase_world:
  "w_map (fst (resetChase world g)) = w_map world
   \<and> map ps_playerId (w_players (fst (resetChase world g))) = map ps_playerId (w_players world)"
  using reset_fold_world [of "tg_states g" "(if tg_chaseActive g then clear_taggers world else world, [])"]
  by (auto simp: resetChase_def Let_def tagger_changed_def clear_taggers_def drop_effect_def set_tagger_def case_prod_beta)

lemma make_tagger_world: "w_map (make_tagger pid w) = w_map w \<and> map ps_playerId (w_players (make_tagger pid w)) = map ps_playerId (w_players w)"
  by (simp add: make_tagger_def edit_world_def edit_def grantTaggerFrenzy_def applyEffect_def set_tagger_def Let_def)

lemma updateChaseZone_world:
  "w_map (fst (updateChaseZone world g)) = w_map world
   \<and> map ps_playerId (w_players (fst (updateChaseZone world g))) = map ps_playerId (w_players world)"
  using make_tagger_world resetChase_world [of world g]
  by (auto simp: updateChaseZone_def Let_def tagger_changed_def wake_def clear_taggers_def drop_effect_def set_tagger_def
      split: option.split list.split)

lemma updateChaseZone_states:
  "tg_states (snd (updateChaseZone world g)) = tg_states g
   \<or> tg_states (snd (updateChaseZone world g)) = map home_state (tg_states g)"
  by (auto simp: updateChaseZone_def resetChase_states Let_def split: option.split list.split)

lemma routeToward_Some: "\<exists>t. isWalkable m t \<Longrightarrow> \<exists>r. routeToward m a t = Some r"
  using routeToward_closest [of m a t] by (cases "routeToward m a t") auto

lemma route_Some:
  assumes "\<exists>t. isWalkable (w_map world) t"
  shows "\<exists>r d'. routeFor world self t d = Some (r, d') \<and> du_course d' = du_course d \<and> du_targetIndex d' = du_targetIndex d
      \<and> du_kind d' = du_kind d"
    and "\<exists>r d'. routeTo world self t d = Some (r, d') \<and> du_course d' = du_course d \<and> du_targetIndex d' = du_targetIndex d
      \<and> du_kind d' = du_kind d"
proof -
  obtain r where "routeToward (w_map world) (tile_of_point (w_map world) (ps_x self) (ps_y self)) t = Some r"
    using routeToward_Some [OF assms] by blast
  then show "\<exists>r d'. routeFor world self t d = Some (r, d') \<and> du_course d' = du_course d \<and> du_targetIndex d' = du_targetIndex d
      \<and> du_kind d' = du_kind d"
    and "\<exists>r d'. routeTo world self t d = Some (r, d') \<and> du_course d' = du_course d \<and> du_targetIndex d' = du_targetIndex d
      \<and> du_kind d' = du_kind d"
    by (simp_all add: routeFor_def routeTo_def Let_def split: option.split)
qed

text \<open>The course, the kind and a valid index of a target are kept by hunting and following.\<close>

definition keeps :: "dummy_state \<Rightarrow> dummy_state \<Rightarrow> bool" where
  "keeps d d' \<longleftrightarrow> du_course d' = du_course d \<and> du_kind d' = du_kind d \<and> (index_ok d \<longrightarrow> index_ok d')"

lemma hunt_Some:
  assumes "\<exists>t. isWalkable (w_map world) t"
  shows "\<exists>i d'. hunt world g self d = Some (i, d') \<and> keeps d d'"
proof (cases "prey g world")
  case (Some target)
  obtain r d' where "routeTo world self (tile_of_point (w_map world) (ps_x target) (ps_y target)) (d\<lparr>du_flashAimedAtTick := None\<rparr>)
      = Some (r, d')" "keeps d d'"
    using route_Some(2) [OF assms] by (fastforce simp: keeps_def index_ok_def)
  then show ?thesis by (simp add: hunt_def Some) (simp add: keeps_def index_ok_def)
qed (simp add: hunt_def keeps_def index_ok_def)

lemma follow_Some:
  assumes w: "\<exists>t. isWalkable (w_map world) t" and ok: "index_ok d"
  shows "\<exists>i d'. follow world self d = Some (i, d') \<and> keeps d d'"
proof -
  obtain t where t: "course_target d = Some t" using ok by (simp add: course_target_def index_ok_def)
  obtain r d1 where r: "routeFor world self t d = Some (r, d1)" "du_course d1 = du_course d" "du_targetIndex d1 = du_targetIndex d"
    "du_kind d1 = du_kind d"
    using route_Some(1) [OF w] by blast
  define d2 where "d2 = d1\<lparr>du_targetIndex := Suc (du_targetIndex d1) mod length (du_course d1)\<rparr>"
  have d2: "index_ok d2" "du_course d2 = du_course d" "du_kind d2 = du_kind d"
    using ok r by (auto simp: d2_def index_ok_def intro: mod_less_divisor)
  obtain t2 where t2: "course_target d2 = Some t2" using d2(1) by (simp add: course_target_def index_ok_def)
  obtain r2 d3 where r2: "routeFor world self t2 d2 = Some (r2, d3)" "du_course d3 = du_course d2"
    "du_targetIndex d3 = du_targetIndex d2" "du_kind d3 = du_kind d2"
    using route_Some(1) [OF w] by blast
  have "keeps d d1" "keeps d d3" using r r2 d2 ok by (simp_all add: keeps_def index_ok_def)
  then show ?thesis
    by (simp add: follow_def t r(1) Let_def d2_def [symmetric] t2 r2(1))
qed

lemma input_of_dummy_Some:
  assumes "\<exists>t. isWalkable (w_map world) t" "index_ok d"
  shows "\<exists>i d'. input_of_dummy world g d = Some (i, d') \<and> keeps d d'"
proof -
  show ?thesis
  proof (cases "find_player (du_playerId d) (w_players world)")
    case (Some self)
    obtain i d1 where "hunt world g self d = Some (i, d1)" "keeps d d1" using hunt_Some [OF assms(1)] by metis
    moreover obtain j d2 where "follow world self d = Some (j, d2)" "keeps d d2" using follow_Some [OF assms] by metis
    ultimately show ?thesis by (auto simp: input_of_dummy_def Some keeps_def)
  qed (simp add: input_of_dummy_def keeps_def)
qed

lemma those_map_Some:
  assumes "\<And>x. x \<in> set xs \<Longrightarrow> \<exists>y. f x = Some y \<and> R x y"
  shows "\<exists>ys. those (map f xs) = Some ys \<and> list_all2 R xs ys"
  using assms
proof (induction xs)
  case (Cons x xs)
  from Cons.IH Cons.prems obtain ys where "those (map f xs) = Some ys" "list_all2 R xs ys" by auto
  moreover obtain y where "f x = Some y" "R x y" using Cons.prems by auto
  ultimately show ?case by simp
qed simp

lemma those_map_None: "x \<in> set xs \<Longrightarrow> f x = None \<Longrightarrow> those (map f xs) = None"
  by (induction xs) (auto split: option.split)

lemma home_ok: "index_ok d \<Longrightarrow> index_ok (home_state d)"
  by (auto simp: index_ok_def home_state_def)

lemma respawned_ok: "index_ok d \<Longrightarrow> (due_state tick d \<Longrightarrow> du_kind d = Still \<or> 1 < length (du_course d)) \<Longrightarrow> index_ok (respawned_state tick d)"
  by (auto simp: index_ok_def respawned_state_def)

text \<open>Players of one id who live stay alive while the chase zone is updated.\<close>

definition alive_id :: "int \<Rightarrow> world \<Rightarrow> bool" where
  "alive_id pid w \<longleftrightarrow> (\<forall>p \<in> set (w_players w). ps_playerId p = pid \<longrightarrow> ps_alive p)"

lemma alive_edit: "alive_id pid w \<Longrightarrow> (\<And>p. ps_playerId (f p) = ps_playerId p) \<Longrightarrow> (\<And>p. ps_alive p \<Longrightarrow> ps_alive (f p)) \<Longrightarrow> alive_id pid (edit_world i f w)"
  by (auto simp: alive_id_def edit_world_def edit_def)

lemma alive_set_tagger: "alive_id pid w \<Longrightarrow> alive_id pid (edit_world i (set_tagger b) w)"
  by (rule alive_edit) (simp_all add: set_tagger_def)

lemma alive_reset: "alive_id pid (fst acc) \<Longrightarrow> alive_id pid (fst (fold reset_state ds acc))"
proof (induction ds arbitrary: acc)
  case (Cons d ds)
  have "alive_id pid (fst (reset_state d acc))"
    using Cons.prems by (auto simp: reset_state_def sendHome_def back_home_def place_def intro!: alive_edit alive_set_tagger)
  with Cons.IH show ?case by simp
qed simp

lemma alive_clear: "alive_id pid w \<Longrightarrow> alive_id pid (clear_taggers w)"
  by (auto simp: alive_id_def clear_taggers_def drop_effect_def set_tagger_def)

lemma alive_make_tagger: "alive_id pid w \<Longrightarrow> alive_id pid (make_tagger i w)"
  unfolding make_tagger_def by (rule alive_edit) (simp_all add: grantTaggerFrenzy_def applyEffect_def set_tagger_def Let_def)

lemma alive_changed [simp]: "alive_id pid (tagger_changed w) = alive_id pid w"
  by (simp add: alive_id_def tagger_changed_def)

lemma alive_updateChaseZone:
  assumes "alive_id pid world"
  shows "alive_id pid (fst (updateChaseZone world g))"
proof -
  have "alive_id pid (fst (resetChase world g))"
    using assms by (simp add: resetChase_def Let_def case_prod_beta alive_reset alive_clear)
  then show ?thesis
    using assms by (auto simp: updateChaseZone_def wake_def Let_def intro!: alive_make_tagger alive_clear split: option.split list.split)
qed

lemma alive_respawn:
  assumes "d \<in> set ds" "due_state (w_tick (fst acc)) d" "du_playerId d = pid"
  shows "alive_id pid (fst (fold respawn_dummy ds acc))"
proof -
  have later: "alive_id pid (fst (fold respawn_dummy ds' acc'))" if "alive_id pid (fst acc')" for ds' acc'
    using that
  proof (induction ds' arbitrary: acc')
    case (Cons e ds')
    have "alive_id pid (fst (respawn_dummy e acc'))"
      using Cons.prems by (auto simp: respawn_dummy_def respawned_def place_def intro!: alive_edit split: option.split)
    with Cons.IH show ?case by simp
  qed simp
  obtain xs ys where "ds = xs @ d # ys" using assms(1) by (meson split_list)
  moreover have "alive_id pid (fst (respawn_dummy d acc'))" if "w_tick (fst acc') = w_tick (fst acc)" for acc'
    using assms(2,3) that
    by (auto simp: respawn_dummy_def due_state_def alive_id_def edit_world_def edit_def respawned_def place_def split: option.splits)
  ultimately show ?thesis using respawn_fold [of xs acc] later by simp
qed

lemma input_throws:
  assumes "du_kind d = Patrol" "\<not> index_ok d" "du_playerId d \<in> set (map ps_playerId (w_players w))" "alive_id (du_playerId d) w"
  shows "input_of_dummy w g d = None"
proof -
  obtain self where self: "find_player (du_playerId d) (w_players w) = Some self"
    using assms(3) by (cases "find_player (du_playerId d) (w_players w)") (auto simp: find_player_def find_None_iff_all)
  then have "ps_alive self" using assms(4) by (auto simp: alive_id_def find_player_def dest: find_SomeD)
  with self assms(1,2) show ?thesis
    by (simp add: input_of_dummy_def follow_def course_target_def index_ok_def)
qed


text \<open>A patrolling target outside every zone, which was tagged and is due to come back.\<close>

definition demo_training_map :: world_map where
  "demo_training_map = \<lparr>wm_mapId = ''dojo'', wm_cols = 3, wm_rows = 1, wm_tileSize = 256,
     wm_tiles = [[TILE_FLOOR, TILE_FLOOR, TILE_FLOOR]], wm_barrierSpeed = 0, wm_timeline = (\<lambda>_. None),
     wm_markers = [\<lparr>mm_kind = MkTrainingDummyPatrol, mm_x = 1, mm_y = 0\<rparr>], wm_zones = []\<rparr>"

definition demo_ground :: training_ground where
  "demo_ground = the (new_ground (\<lambda>_. ''target'') demo_training_map [])"

definition demo_training_world :: world where
  "demo_training_world = createWorld demo_training_map (tg_players demo_ground) 1 None"

definition demo_tagged :: "training_ground" where
  "demo_tagged = demo_ground\<lparr>tg_states := map (\<lambda>d. d\<lparr>du_respawnAtTick := Some 0\<rparr>) (tg_states demo_ground)\<rparr>"


section \<open>Respawning\<close>

lemma edited_player: "p \<in> set (w_players (edit_world pid f w)) \<Longrightarrow> \<exists>q. p = (if ps_playerId q = pid then f q else q)"
  unfolding edit_world_def edit_def by (simp, blast)

lemma revived_player:
  assumes "p \<in> set (w_players (edit_world pid (revived pos) w))" "ps_playerId p = pid"
  shows "(ps_x p, ps_y p) = pos \<and> ps_alive p \<and> \<not> ps_isTagger p \<and> ps_effects p = Map.empty \<and> ps_cooldowns p = Map.empty"
proof -
  obtain q where q: "p = (if ps_playerId q = pid then revived pos q else q)" using edited_player [OF assms(1)] by blast
  have "ps_playerId q = pid" using q assms(2) by (cases "ps_playerId q = pid") simp_all
  with q have p: "p = revived pos q" by simp
  show ?thesis unfolding p by (simp add: revived_def place_def)
qed

text \<open>
  A player who is revived in the training ground stands at the centre of a floor tile of the map that is free for their
  body, outside the chase zones, off every pad and clear of every living player; they are alive, no tagger, without effects
  and cooldowns, and can be respawned again only after dying again. A refused respawn changes nothing.
\<close>

theorem respawn_safe:
  "case respawn world g pid of (done, world', g') \<Rightarrow>
     if done then (\<exists>player t. find_player pid (w_players world) = Some player \<and> \<not> ps_alive player \<and> \<not> isDummy g pid
         \<and> t \<in> set (map_tiles (w_map world)) \<and> safe_tile world g player t
         \<and> (\<forall>p \<in> set (w_players world'). ps_playerId p = pid \<longrightarrow> (ps_x p, ps_y p) = tileCenter (w_map world) t
              \<and> ps_alive p \<and> \<not> ps_isTagger p \<and> ps_effects p = Map.empty \<and> ps_cooldowns p = Map.empty)
         \<and> js_get (tg_standingOn g') pid = None \<and> \<not> tg_chaseActive g')
     else world' = world \<and> g' = g"
proof (cases "find_player pid (w_players world)")
  case (Some player)
  let ?tiles = "sort_key (\<lambda>t. manhattan t (desiredTile (w_map world) (1 / 2) (1 / 2)))
      (filter (safe_tile world g player) (map_tiles (w_map world)))"
  show ?thesis
  proof (cases "isDummy g pid \<or> ps_alive player \<or> ?tiles = []")
    case False
    then obtain t ts where t: "?tiles = t # ts" by (cases ?tiles) auto
    then have "t \<in> set ?tiles" by simp
    then have mem: "t \<in> set (map_tiles (w_map world))" "safe_tile world g player t" by simp_all
    have map: "w_map (fst (resetChase world g)) = w_map world" using resetChase_world by simp
    have g: "\<not> tg_chaseActive (snd (resetChase world g))" by (simp add: resetChase_def Let_def case_prod_beta)
    define w1 where "w1 = fst (resetChase world g)"
    have eq: "respawn world g pid = (True, edit_world pid (revived (tileCenter (w_map world) t)) w1,
        (snd (resetChase world g))\<lparr>tg_standingOn := js_delete pid (tg_standingOn (snd (resetChase world g)))\<rparr>)"
      using False by (simp add: respawn_def Some t map case_prod_beta Let_def w1_def)
    have there: "(ps_x p, ps_y p) = tileCenter (w_map world) t \<and> ps_alive p \<and> \<not> ps_isTagger p
        \<and> ps_effects p = Map.empty \<and> ps_cooldowns p = Map.empty"
      if "p \<in> set (w_players (edit_world pid (revived (tileCenter (w_map world) t)) w1))" and pid: "ps_playerId p = pid" for p
      using that by (rule revived_player)
    show ?thesis
      unfolding eq prod.case if_True using False mem g Some
      by (intro conjI exI [of _ player] exI [of _ t] ballI impI) (use there in \<open>blast | simp\<close>)+
  qed (auto simp: respawn_def Some Let_def)
qed (simp add: respawn_def)

text \<open>A ground without targets, and a player who died in it.\<close>

definition demo_hall :: world_map where
  "demo_hall = \<lparr>wm_mapId = ''hall'', wm_cols = 3, wm_rows = 3, wm_tileSize = 256,
     wm_tiles = replicate 3 [TILE_FLOOR, TILE_WALL, TILE_FLOOR], wm_barrierSpeed = 0, wm_timeline = (\<lambda>_. None),
     wm_markers = [], wm_zones = []\<rparr>"

definition demo_fallen :: world where
  "demo_fallen = createWorld demo_hall [\<lparr>ps_playerId = 1, ps_x = 0, ps_y = 0, ps_vx = 0, ps_vy = 0, ps_facingX = 0, ps_facingY = 1,
     ps_radius = PLAYER_RADIUS_PX, ps_sightRange = SIGHT_RANGE_PX, ps_colorIndex = 0, ps_alive = False, ps_isTagger = True,
     ps_connected = True, ps_effects = Map.empty, ps_cooldowns = Map.empty, ps_loadout = SkDash, ps_emoji = None,
     ps_stats = emptyStats\<rparr>] 1 None"

definition demo_empty_ground :: training_ground where
  "demo_empty_ground = \<lparr>tg_players = [], tg_roster = [], tg_states = [], tg_dummyIds = [], tg_pads = [], tg_standingOn = js_empty,
     tg_chaseMode = PlayerHunts, tg_chaseActive = False\<rparr>"

theorem respawn_safe_witness:
  "fst (respawn demo_fallen demo_empty_ground 1)
   \<and> (\<exists>player t. find_player 1 (w_players demo_fallen) = Some player \<and> safe_tile demo_fallen demo_empty_ground player t)"
proof -
  obtain player where p: "w_players demo_fallen = [player]" "ps_playerId player = 1" "\<not> ps_alive player" "ps_radius player = PLAYER_RADIUS_PX"
    by (simp add: demo_fallen_def createWorld_def)
  have m: "w_map demo_fallen = demo_hall" by (simp add: demo_fallen_def createWorld_def)
  have "(0, 0) \<in> set (map_tiles demo_hall)" "tile_at (wm_tiles demo_hall) 0 0 = Some TILE_FLOOR" "wm_zones demo_hall = []"
    "case tileCenter demo_hall (0, 0) of (x, y) \<Rightarrow> isPositionFree demo_hall x y PLAYER_RADIUS_PX (stormRect demo_fallen)"
    by code_simp+
  then have "(0, 0) \<in> set (filter (safe_tile demo_fallen demo_empty_ground player) (map_tiles demo_hall))"
    by (simp add: safe_tile_def m p demo_empty_ground_def case_prod_beta Let_def)
  then have "sort_key f (filter (safe_tile demo_fallen demo_empty_ground player) (map_tiles demo_hall)) \<noteq> []" for f :: "tile_point \<Rightarrow> int"
    by (metis empty_iff list.set(1) set_sort)
  then have ok: "fst (respawn demo_fallen demo_empty_ground 1)"
    by (auto simp: respawn_def find_player_def p m isDummy_def demo_empty_ground_def Let_def case_prod_beta split: list.split)
  show ?thesis using respawn_safe [where world = demo_fallen and g = demo_empty_ground and pid = 1] ok unfolding case_prod_beta by (metis (no_types, lifting))
qed

end
