(* ===== verification/MapLoader.thy ===== *)
theory MapLoader
  imports Messages World JsText
begin

text \<open>
  The map bundle: \<open>server-game/src/maps/map-loader.ts\<close>. A file is parsed into maps with every check the code makes,
  and a room gets its own copy of a map. A failed check is a constructor of \<open>bundle_error\<close> instead of its message; the
  path that a message names is left out. \<open>JSON.stringify\<close> and SHA-256 are the parameter \<open>digest\<close>, reading the file and
  \<open>JSON.parse\<close> the parameter \<open>parsed\<close>. A bundle has no map called \<open>__proto__\<close>.
\<close>

section \<open>Types\<close>

definition MAP_BUNDLE_SCHEMA_VERSION :: real where "MAP_BUNDLE_SCHEMA_VERSION = 3"

type_synonym map_change = "int \<times> int \<times> tile"

record server_map =
  sv_mapId :: string
  sv_size :: int
  sv_barrierSpeed :: real
  sv_initialMap :: "tile list list"
  sv_timeline :: map_timeline
  sv_startPositions :: "int \<Rightarrow> (real \<times> real) list option"
  sv_markers :: "map_marker list"
  sv_zones :: "map_zone list"
  sv_trainingOnly :: bool

record server_map_bundle =
  sb_schemaVersion :: real
  sb_mapBundleHash :: string
  sb_simulationHz :: real
  sb_tileSize :: int
  sb_maps :: "(string, server_map) js_map"

datatype bundle_error =
  NotAnObject | NotPositive | NotAnInteger | UnknownPhysics | WrongRows | WrongColumns | InvalidTick | NotAnArray
| NotAChange | OutsideMap | NotOnePointPerPlayer | NotAPoint | UnknownKind | NotATileIndex | OnAWall | SharesATile
| PastTheMap | UnsupportedSchema | OtherSimulationHz | NotADigest | NoMaps | DigestMismatch | EmptyMapId | Unreadable
| UnknownMap | NoSuchField

section \<open>Checks on values\<close>

text \<open>A value is \<open>None\<close> where the code reads \<open>undefined\<close>.\<close>

definition object_of :: "json option \<Rightarrow> bundle_error + (string, json) js_map" where
  "object_of v = (case v of Some (JObject m) \<Rightarrow> Inr m | _ \<Rightarrow> Inl NotAnObject)"

definition array_of :: "bundle_error \<Rightarrow> json option \<Rightarrow> bundle_error + json list" where
  "array_of e v = (case v of Some (JArray xs) \<Rightarrow> Inr xs | _ \<Rightarrow> Inl e)"

definition finitePositive :: "json option \<Rightarrow> bundle_error + real" where
  "finitePositive v = (case v of
     Some (JNumber (Fin r)) \<Rightarrow> if r \<le> 0 then Inl NotPositive else Inr r
   | _ \<Rightarrow> Inl NotPositive)"

definition positiveInteger :: "json option \<Rightarrow> bundle_error + int" where
  "positiveInteger v = and_then (finitePositive v)
     (\<lambda>r. case integral (Fin r) of Some n \<Rightarrow> Inr n | None \<Rightarrow> Inl NotAnInteger)"

definition integer_of :: "json option \<Rightarrow> int option" where
  "integer_of v = (case v of Some (JNumber n) \<Rightarrow> integral n | _ \<Rightarrow> None)"

definition PHYSICS_VALUES :: "tile list" where
  "PHYSICS_VALUES = [TILE_FLOOR, TILE_WALL, TILE_BUSH, TILE_GAS]"

definition physics_of :: "json option \<Rightarrow> bundle_error + tile" where
  "physics_of v = (case integer_of v of
     Some t \<Rightarrow> if t \<in> set PHYSICS_VALUES then Inr t else Inl UnknownPhysics
   | None \<Rightarrow> Inl UnknownPhysics)"

definition tileIndex :: "json option \<Rightarrow> int \<Rightarrow> bundle_error + int" where
  "tileIndex v size' = (case integer_of v of
     Some n \<Rightarrow> if 0 \<le> n \<and> n < size' then Inr n else Inl NotATileIndex
   | None \<Rightarrow> Inl NotATileIndex)"

section \<open>One map\<close>

definition parse_rows :: "int \<Rightarrow> json option \<Rightarrow> bundle_error + tile list list" where
  "parse_rows size' v = and_then (array_of WrongRows v) (\<lambda>rows.
     require (int (length rows) = size') WrongRows
       (all_of (\<lambda>row. and_then (array_of WrongColumns (Some row)) (\<lambda>tiles.
          require (int (length tiles) = size') WrongColumns (all_of (\<lambda>tile. physics_of (Some tile)) tiles))) rows))"

definition parse_tick :: "string \<Rightarrow> bundle_error + int" where
  "parse_tick tickText = (case integral (js_Number tickText) of
     Some tick \<Rightarrow> if \<bar>tick\<bar> < 2 ^ 53 \<and> 0 \<le> tick \<and> number_text tick = tickText then Inr tick else Inl InvalidTick
   | None \<Rightarrow> Inl InvalidTick)"

definition parse_change :: "int \<Rightarrow> json \<Rightarrow> bundle_error + map_change" where
  "parse_change size' v = (case v of
     JArray [jx, jy, jp] \<Rightarrow>
       (case (integer_of (Some jx), integer_of (Some jy)) of
          (Some x, Some y) \<Rightarrow>
            require (0 \<le> x \<and> 0 \<le> y \<and> x < size' \<and> y < size') OutsideMap
              (and_then (physics_of (Some jp)) (\<lambda>p. Inr (x, y, p)))
        | _ \<Rightarrow> Inl OutsideMap)
   | _ \<Rightarrow> Inl NotAChange)"

definition parse_moment :: "int \<Rightarrow> string \<times> json \<Rightarrow> bundle_error + int \<times> map_change list" where
  "parse_moment size' entry = and_then (parse_tick (fst entry)) (\<lambda>tick.
     and_then (array_of NotAnArray (Some (snd entry))) (\<lambda>changes.
       and_then (all_of (parse_change size') changes) (\<lambda>cs. Inr (tick, cs))))"

text \<open>An object filled entry by entry: a later value of a key replaces an earlier one.\<close>

definition filled :: "(int \<times> 'v) list \<Rightarrow> int \<Rightarrow> 'v option" where
  "filled entries = map_of (rev entries)"

definition parse_timeline :: "int \<Rightarrow> json option \<Rightarrow> bundle_error + map_timeline" where
  "parse_timeline size' v = and_then (object_of v) (\<lambda>raw.
     and_then (all_of (parse_moment size') (object_entries raw)) (\<lambda>ms. Inr (filled ms)))"

definition parse_point :: "json \<Rightarrow> bundle_error + real \<times> real" where
  "parse_point v = (case v of
     JArray [JNumber (Fin x), JNumber (Fin y)] \<Rightarrow> Inr (x, y)
   | _ \<Rightarrow> Inl NotAPoint)"

definition parse_starts_of :: "string \<times> json \<Rightarrow> bundle_error + int \<times> (real \<times> real) list" where
  "parse_starts_of entry = (case (integral (js_Number (fst entry)), snd entry) of
     (Some n, JArray points) \<Rightarrow>
       require (3 \<le> n \<and> n \<le> 8 \<and> int (length points) = n) NotOnePointPerPlayer
         (and_then (all_of parse_point points) (\<lambda>ps. Inr (n, ps)))
   | _ \<Rightarrow> Inl NotOnePointPerPlayer)"

definition parse_starts :: "json option \<Rightarrow> bundle_error + (int \<Rightarrow> (real \<times> real) list option)" where
  "parse_starts v = and_then (object_of v) (\<lambda>raw.
     and_then (all_of parse_starts_of (object_entries raw)) (\<lambda>ss. Inr (filled ss)))"

definition kind_named :: "('k \<Rightarrow> string) \<Rightarrow> 'k list \<Rightarrow> json option \<Rightarrow> bundle_error + 'k" where
  "kind_named name kinds v = (case v of
     Some (JString s) \<Rightarrow> (case List.find (\<lambda>k. name k = s) kinds of Some k \<Rightarrow> Inr k | None \<Rightarrow> Inl UnknownKind)
   | _ \<Rightarrow> Inl UnknownKind)"

definition parse_marker :: "int \<Rightarrow> tile list list \<Rightarrow> json \<Rightarrow> bundle_error + map_marker" where
  "parse_marker size' initialMap entry = and_then (object_of (Some entry)) (\<lambda>marker.
     and_then (kind_named marker_name MAP_MARKER_KINDS (js_get marker ''kind'')) (\<lambda>kind.
       and_then (tileIndex (js_get marker ''x'') size') (\<lambda>x.
         and_then (tileIndex (js_get marker ''y'') size') (\<lambda>y.
           require (tile_at initialMap y x \<noteq> Some TILE_WALL) OnAWall
             (Inr \<lparr>mm_kind = kind, mm_x = x, mm_y = y\<rparr>)))))"

text \<open>The set of tiles that already have a marker; its keys \<open>x,y\<close> are pairs.\<close>

fun parse_markers_from ::
  "int \<Rightarrow> tile list list \<Rightarrow> (int \<times> int) list \<Rightarrow> json list \<Rightarrow> bundle_error + map_marker list" where
  "parse_markers_from size' initialMap seen [] = Inr []"
| "parse_markers_from size' initialMap seen (entry # rest) =
     and_then (parse_marker size' initialMap entry) (\<lambda>m.
       require ((mm_x m, mm_y m) \<notin> set seen) SharesATile
         (and_then (parse_markers_from size' initialMap ((mm_x m, mm_y m) # seen) rest) (\<lambda>ms. Inr (m # ms))))"

definition parseMarkers :: "json option \<Rightarrow> int \<Rightarrow> tile list list \<Rightarrow> bundle_error + map_marker list" where
  "parseMarkers v size' initialMap =
     (if v = None then Inr []
      else and_then (array_of NotAnArray v) (parse_markers_from size' initialMap []))"

definition parse_zone :: "int \<Rightarrow> json \<Rightarrow> bundle_error + map_zone" where
  "parse_zone size' entry = and_then (object_of (Some entry)) (\<lambda>zone.
     and_then (kind_named zone_name MAP_ZONE_KINDS (js_get zone ''kind'')) (\<lambda>kind.
       and_then (tileIndex (js_get zone ''x'') size') (\<lambda>x.
         and_then (tileIndex (js_get zone ''y'') size') (\<lambda>y.
           and_then (positiveInteger (js_get zone ''width'')) (\<lambda>width.
             and_then (positiveInteger (js_get zone ''height'')) (\<lambda>height.
               require (x + width \<le> size' \<and> y + height \<le> size') PastTheMap
                 (Inr \<lparr>mz_kind = kind, mz_x = x, mz_y = y, mz_width = width, mz_height = height\<rparr>)))))))"

definition parseZones :: "json option \<Rightarrow> int \<Rightarrow> bundle_error + map_zone list" where
  "parseZones v size' =
     (if v = None then Inr [] else and_then (array_of NotAnArray v) (all_of (parse_zone size')))"

definition parseMap :: "string \<Rightarrow> json \<Rightarrow> bundle_error + server_map" where
  "parseMap mapId v = and_then (object_of (Some v)) (\<lambda>raw.
     and_then (positiveInteger (js_get raw ''size'')) (\<lambda>size'.
       and_then (finitePositive (js_get raw ''barrier_speed'')) (\<lambda>barrierSpeed.
         and_then (parse_rows size' (js_get raw ''initial_map'')) (\<lambda>initialMap.
           and_then (parse_timeline size' (js_get raw ''timeline'')) (\<lambda>timeline.
             and_then (parse_starts (js_get raw ''start_pos'')) (\<lambda>startPositions.
               and_then (parseMarkers (js_get raw ''markers'') size' initialMap) (\<lambda>markers.
                 and_then (parseZones (js_get raw ''zones'') size') (\<lambda>zones.
                   Inr \<lparr>sv_mapId = mapId, sv_size = size', sv_barrierSpeed = barrierSpeed, sv_initialMap = initialMap,
                      sv_timeline = timeline, sv_startPositions = startPositions, sv_markers = markers, sv_zones = zones,
                      sv_trainingOnly = (js_get raw ''training_only'' = Some (JBool True))\<rparr>))))))))"

section \<open>The bundle\<close>

definition is_sha256_hex :: "string \<Rightarrow> bool" where
  "is_sha256_hex s \<longleftrightarrow> length s = 64 \<and> list_all (\<lambda>c. is_digit c \<or> 97 \<le> char_code c \<and> char_code c \<le> 102) s"

text \<open>What the hash covers; a field that is missing is not written.\<close>

definition hash_input :: "(string, json) js_map \<Rightarrow> json" where
  "hash_input raw = JObject (concat (map (\<lambda>k. case js_get raw k of None \<Rightarrow> [] | Some v \<Rightarrow> [(k, v)])
     [''schemaVersion'', ''simulationHz'', ''tileSize'', ''maps'']))"

definition parse_maps :: "(string, json) js_map \<Rightarrow> bundle_error + (string, server_map) js_map" where
  "parse_maps raw = and_then (all_of (\<lambda>(mapId, v).
       require (mapId \<noteq> []) EmptyMapId (and_then (parseMap mapId v) (\<lambda>m. Inr (mapId, m)))) (object_entries raw))
     (\<lambda>ms. Inr (fold (\<lambda>(k, m). js_set k m) ms js_empty))"

definition parseMapBundle :: "(json \<Rightarrow> string) \<Rightarrow> json \<Rightarrow> real \<Rightarrow> bundle_error + server_map_bundle" where
  "parseMapBundle digest v expectedSimulationHz = and_then (object_of (Some v)) (\<lambda>raw.
     require (js_get raw ''schemaVersion'' = Some (JNumber (Fin MAP_BUNDLE_SCHEMA_VERSION))) UnsupportedSchema
     (require (js_get raw ''simulationHz'' = Some (JNumber (Fin expectedSimulationHz))) OtherSimulationHz
     (and_then (positiveInteger (js_get raw ''tileSize'')) (\<lambda>tileSize.
     (case js_get raw ''mapBundleHash'' of
        Some (JString h) \<Rightarrow>
          require (is_sha256_hex h) NotADigest
          (and_then (object_of (js_get raw ''maps'')) (\<lambda>mapsRaw.
          require (mapsRaw \<noteq> []) NoMaps
          (require (digest (hash_input raw) = h) DigestMismatch
          (and_then (parse_maps mapsRaw) (\<lambda>maps.
             Inr \<lparr>sb_schemaVersion = MAP_BUNDLE_SCHEMA_VERSION, sb_mapBundleHash = h, sb_simulationHz = expectedSimulationHz, sb_tileSize = tileSize, sb_maps = maps\<rparr>)))))
      | _ \<Rightarrow> Inl NotADigest)))))"

definition loadMapBundle :: "(json \<Rightarrow> string) \<Rightarrow> json option \<Rightarrow> real \<Rightarrow> bundle_error + server_map_bundle" where
  "loadMapBundle digest parsed expectedSimulationHz =
     (case parsed of None \<Rightarrow> Inl Unreadable | Some v \<Rightarrow> parseMapBundle digest v expectedSimulationHz)"

section \<open>Maps of a bundle\<close>

text \<open>
  \<open>bundle.maps[mapId]\<close> also finds what every object inherits. Such a value is a function or the prototype object: it is not
  \<open>undefined\<close>, and every field of a map is \<open>undefined\<close> on it.
\<close>

definition OBJECT_PROTOTYPE :: "string list" where
  "OBJECT_PROTOTYPE = [''constructor'', ''__defineGetter__'', ''__defineSetter__'', ''hasOwnProperty'',
     ''__lookupGetter__'', ''__lookupSetter__'', ''isPrototypeOf'', ''propertyIsEnumerable'', ''toString'', ''valueOf'',
     ''__proto__'', ''toLocaleString'']"

datatype looked_up = OwnMap server_map | Inherited | Missing

definition map_lookup :: "server_map_bundle \<Rightarrow> string \<Rightarrow> looked_up" where
  "map_lookup bundle mapId = (case js_get (sb_maps bundle) mapId of
     Some m \<Rightarrow> OwnMap m
   | None \<Rightarrow> if mapId \<in> set OBJECT_PROTOTYPE then Inherited else Missing)"

text \<open>On an inherited value \<open>map.initialMap.map\<close> is a \<open>TypeError\<close>.\<close>

definition instantiateMap :: "server_map_bundle \<Rightarrow> string \<Rightarrow> bundle_error + world_map" where
  "instantiateMap bundle mapId = (case map_lookup bundle mapId of
     Missing \<Rightarrow> Inl UnknownMap
   | Inherited \<Rightarrow> Inl NoSuchField
   | OwnMap m \<Rightarrow> Inr \<lparr>wm_mapId = mapId, wm_cols = sv_size m, wm_rows = sv_size m, wm_tileSize = of_int (sb_tileSize bundle),
       wm_tiles = sv_initialMap m, wm_barrierSpeed = sv_barrierSpeed m, wm_timeline = sv_timeline m,
       wm_markers = sv_markers m, wm_zones = sv_zones m\<rparr>)"

definition isPlayable :: "server_map \<Rightarrow> room_mode \<Rightarrow> bool" where
  "isPlayable m mode \<longleftrightarrow> mode = TrainingMode \<or> \<not> sv_trainingOnly m"

definition playableMapIds :: "server_map_bundle \<Rightarrow> room_mode \<Rightarrow> string list" where
  "playableMapIds bundle mode = map fst (filter (\<lambda>p. isPlayable (snd p) mode) (object_entries (sb_maps bundle)))"

definition isPlayableMap :: "server_map_bundle \<Rightarrow> string \<Rightarrow> room_mode \<Rightarrow> bool" where
  "isPlayableMap bundle mapId mode = (case map_lookup bundle mapId of
     Missing \<Rightarrow> False
   | Inherited \<Rightarrow> True
   | OwnMap m \<Rightarrow> isPlayable m mode)"

section \<open>Every map of a parsed bundle is well formed\<close>

definition good_grid :: "int \<Rightarrow> tile list list \<Rightarrow> bool" where
  "good_grid size' tiles \<longleftrightarrow> int (length tiles) = size'
     \<and> (\<forall>row \<in> set tiles. int (length row) = size' \<and> set row \<subseteq> set PHYSICS_VALUES)"

definition good_change :: "int \<Rightarrow> map_change \<Rightarrow> bool" where
  "good_change size' c \<longleftrightarrow> (case c of (x, y, p) \<Rightarrow>
     0 \<le> x \<and> x < size' \<and> 0 \<le> y \<and> y < size' \<and> p \<in> set PHYSICS_VALUES)"

definition good_marker :: "int \<Rightarrow> tile list list \<Rightarrow> map_marker \<Rightarrow> bool" where
  "good_marker size' tiles m \<longleftrightarrow> 0 \<le> mm_x m \<and> mm_x m < size' \<and> 0 \<le> mm_y m \<and> mm_y m < size'
     \<and> tile_at tiles (mm_y m) (mm_x m) \<noteq> Some TILE_WALL"

definition good_zone :: "int \<Rightarrow> map_zone \<Rightarrow> bool" where
  "good_zone size' z \<longleftrightarrow> 0 \<le> mz_x z \<and> 0 \<le> mz_y z \<and> 0 < mz_width z \<and> 0 < mz_height z
     \<and> mz_x z + mz_width z \<le> size' \<and> mz_y z + mz_height z \<le> size'"

definition good_map :: "server_map \<Rightarrow> bool" where
  "good_map m \<longleftrightarrow> 0 < sv_size m \<and> 0 < sv_barrierSpeed m \<and> good_grid (sv_size m) (sv_initialMap m)
     \<and> (\<forall>t cs. sv_timeline m t = Some cs \<longrightarrow> 0 \<le> t \<and> t < 2 ^ 53 \<and> (\<forall>c \<in> set cs. good_change (sv_size m) c))
     \<and> (\<forall>n ps. sv_startPositions m n = Some ps \<longrightarrow> 3 \<le> n \<and> n \<le> 8 \<and> int (length ps) = n)
     \<and> (\<forall>k \<in> set (sv_markers m). good_marker (sv_size m) (sv_initialMap m) k)
     \<and> distinct (map (\<lambda>k. (mm_x k, mm_y k)) (sv_markers m))
     \<and> (\<forall>z \<in> set (sv_zones m). good_zone (sv_size m) z)"

lemma object_of_Inr [simp]: "object_of v = Inr m \<longleftrightarrow> v = Some (JObject m)"
  by (auto simp: object_of_def split: option.splits json.splits)

lemma array_of_Inr [simp]: "array_of e v = Inr xs \<longleftrightarrow> v = Some (JArray xs)"
  by (auto simp: array_of_def split: option.splits json.splits)

lemma finitePositive_Inr: "finitePositive v = Inr r \<Longrightarrow> 0 < r"
  by (auto simp: finitePositive_def split: option.splits json.splits js_number.splits if_splits)

lemma integral_Fin: "integral (Fin r) = Some n \<longleftrightarrow> r = of_int n"
  by (auto simp: integral_def split: if_splits)

lemma integral_of_int [simp]: "integral (Fin (of_int n)) = Some n"
  by (simp add: integral_Fin)

lemma positiveInteger_Inr: "positiveInteger v = Inr n \<Longrightarrow> 0 < n"
  by (auto simp: positiveInteger_def integral_Fin split: option.splits dest!: finitePositive_Inr)

lemma physics_of_Inr: "physics_of v = Inr t \<Longrightarrow> t \<in> set PHYSICS_VALUES"
  by (auto simp: physics_of_def split: option.splits if_splits)

lemma tileIndex_Inr: "tileIndex v n = Inr k \<Longrightarrow> 0 \<le> k \<and> k < n"
  by (auto simp: tileIndex_def split: option.splits if_splits)

lemma parse_rows_good: "parse_rows size' v = Inr tiles \<Longrightarrow> good_grid size' tiles"
  unfolding parse_rows_def good_grid_def
  by (fastforce dest: all_of_length all_of_each physics_of_Inr)

lemma parse_tick_Inr: "parse_tick s = Inr t \<longleftrightarrow> 0 \<le> t \<and> t < 2 ^ 53 \<and> s = number_text t"
  using js_Number_number_text [of t]
  by (auto simp: parse_tick_def integral_Fin split: option.splits if_splits)

lemma parse_change_good: "parse_change size' v = Inr c \<Longrightarrow> good_change size' c"
  by (auto simp: parse_change_def good_change_def dest: physics_of_Inr split: json.splits list.splits option.splits)

lemma filled_mem: "filled es k = Some v \<Longrightarrow> (k, v) \<in> set es"
  by (auto simp: filled_def dest: map_of_SomeD)

lemma parse_timeline_good:
  assumes "parse_timeline size' v = Inr moments" "moments t = Some cs"
  shows "0 \<le> t \<and> t < 2 ^ 53 \<and> (\<forall>c \<in> set cs. good_change size' c)"
proof -
  obtain raw ms where r: "all_of (parse_moment size') (object_entries raw) = Inr ms" "moments = filled ms"
    using assms(1) by (auto simp: parse_timeline_def)
  with filled_mem assms(2) obtain e where "parse_moment size' e = Inr (t, cs)"
    using all_of_each [OF r(1)] by metis
  then obtain xs where "0 \<le> t" "t < 2 ^ 53" and cs: "all_of (parse_change size') xs = Inr cs"
    by (auto simp: parse_moment_def parse_tick_Inr)
  with parse_change_good all_of_each [OF cs] show ?thesis by blast
qed

lemma parse_starts_good:
  assumes "parse_starts v = Inr st" "st n = Some ps"
  shows "3 \<le> n \<and> n \<le> 8 \<and> int (length ps) = n"
proof -
  obtain raw ms where r: "all_of parse_starts_of (object_entries raw) = Inr ms" "st = filled ms"
    using assms(1) by (auto simp: parse_starts_def)
  with filled_mem assms(2) obtain e where "parse_starts_of e = Inr (n, ps)"
    using all_of_each [OF r(1)] by metis
  then show ?thesis
    by (auto simp: parse_starts_of_def split: option.splits json.splits dest: all_of_length)
qed

lemma parse_marker_good: "parse_marker size' tiles v = Inr m \<Longrightarrow> good_marker size' tiles m"
  by (auto simp: parse_marker_def good_marker_def dest: tileIndex_Inr)

lemma parse_markers_good:
  "parse_markers_from size' tiles seen xs = Inr ms \<Longrightarrow>
     (\<forall>m \<in> set ms. good_marker size' tiles m \<and> (mm_x m, mm_y m) \<notin> set seen)
     \<and> distinct (map (\<lambda>k. (mm_x k, mm_y k)) ms)"
proof (induction xs arbitrary: seen ms)
  case (Cons x xs)
  then obtain m ms' where m: "parse_marker size' tiles x = Inr m" "(mm_x m, mm_y m) \<notin> set seen" "ms = m # ms'"
    and rest: "parse_markers_from size' tiles ((mm_x m, mm_y m) # seen) xs = Inr ms'"
    by auto
  from Cons.IH [OF rest] m parse_marker_good [OF m(1)] show ?case by auto
qed simp

lemma parse_zone_good: "parse_zone size' v = Inr z \<Longrightarrow> good_zone size' z"
  by (auto simp: parse_zone_def good_zone_def dest: tileIndex_Inr positiveInteger_Inr)

lemma parseMarkers_good:
  assumes "parseMarkers v size' tiles = Inr ms"
  shows "(\<forall>m \<in> set ms. good_marker size' tiles m) \<and> distinct (map (\<lambda>k. (mm_x k, mm_y k)) ms)"
  using assms parse_markers_good [where seen = "[]"] by (force simp: parseMarkers_def split: if_splits)

lemma parseZones_good:
  assumes "parseZones v size' = Inr zs"
  shows "\<forall>z \<in> set zs. good_zone size' z"
  using assms all_of_each parse_zone_good by (fastforce simp: parseZones_def split: if_splits)

lemma parseMap_good:
  assumes "parseMap mapId v = Inr m"
  shows "good_map m \<and> sv_mapId m = mapId"
proof -
  obtain raw where v: "v = JObject raw"
    and parts: "positiveInteger (js_get raw ''size'') = Inr (sv_size m)"
      "finitePositive (js_get raw ''barrier_speed'') = Inr (sv_barrierSpeed m)"
      "parse_rows (sv_size m) (js_get raw ''initial_map'') = Inr (sv_initialMap m)"
      "parse_timeline (sv_size m) (js_get raw ''timeline'') = Inr (sv_timeline m)"
      "parse_starts (js_get raw ''start_pos'') = Inr (sv_startPositions m)"
      "parseMarkers (js_get raw ''markers'') (sv_size m) (sv_initialMap m) = Inr (sv_markers m)"
      "parseZones (js_get raw ''zones'') (sv_size m) = Inr (sv_zones m)" "sv_mapId m = mapId"
    using assms by (force simp: parseMap_def)
  show ?thesis
    unfolding good_map_def
    using positiveInteger_Inr [OF parts(1)] finitePositive_Inr [OF parts(2)] parse_rows_good [OF parts(3)]
      parse_timeline_good [OF parts(4)] parse_starts_good [OF parts(5)] parseMarkers_good [OF parts(6)]
      parseZones_good [OF parts(7)] parts(8) by simp
qed

lemma fold_js_set:
  assumes "js_ok m0" "\<forall>(k, v) \<in> set kvs. P k v" "\<forall>(k, v) \<in> set m0. P k v"
  shows "js_ok (fold (\<lambda>(k, v). js_set k v) kvs m0) \<and> (\<forall>(k, v) \<in> set (fold (\<lambda>(k, v). js_set k v) kvs m0). P k v)"
  using assms
proof (induction kvs arbitrary: m0)
  case (Cons kv kvs)
  obtain k v where kv: "kv = (k, v)" by (cases kv)
  have "\<forall>(k, v) \<in> set (js_set k v m0). P k v"
  proof safe
    fix k' v' assume "(k', v') \<in> set (js_set k v m0)"
    from js_get_Some_iff [THEN iffD2, OF js_ok_set [OF Cons.prems(1)] this]
    show "P k' v'" using Cons.prems kv by (auto split: if_splits dest!: js_get_mem)
  qed
  with Cons.prems kv Cons.IH [of "js_set k v m0"] show ?case by simp
qed simp

lemma fold_js_set_keys: "fst ` set (fold (\<lambda>(k, v). js_set k v) kvs m0) = fst ` set m0 \<union> fst ` set kvs"
proof (induction kvs arbitrary: m0)
  case (Cons kv kvs)
  obtain k v where "kv = (k, v)" by (cases kv)
  then show ?case using Cons.IH [of "js_set k v m0"] by (auto simp: js_set_def dom_update)
qed simp

lemma parse_maps_good:
  assumes "parse_maps raw = Inr maps"
  shows "js_ok maps \<and> (\<forall>(mapId, m) \<in> set maps. mapId \<noteq> [] \<and> good_map m \<and> sv_mapId m = mapId)
    \<and> fst ` set maps = fst ` set raw"
proof -
  obtain ms where ms: "all_of (\<lambda>(mapId, v). require (mapId \<noteq> []) EmptyMapId (and_then (parseMap mapId v) (\<lambda>m. Inr (mapId, m))))
      (object_entries raw) = Inr ms" and maps: "maps = fold (\<lambda>(k, m). js_set k m) ms js_empty"
    using assms by (auto simp: parse_maps_def)
  have each: "\<forall>(mapId, m) \<in> set ms. mapId \<noteq> [] \<and> good_map m \<and> sv_mapId m = mapId"
    using all_of_each [OF ms] by (fastforce dest: parseMap_good)
  have "fst ` set ms = fst ` set (object_entries raw)"
    using ms unfolding all_of_Inr by (induction rule: list_all2_induct) auto
  with maps fold_js_set [OF js_ok_empty each] show ?thesis
    by (simp add: fold_js_set_keys js_empty_def)
qed

text \<open>
  C28. A bundle that is accepted is sound. Whatever the file holds, if parsing succeeds then the hash in it is the hash of what it
  says, it runs at the expected rate, and every map in it is well formed: a square grid of known tiles, a timeline inside
  the grid, one start per player for 3 to 8 players, markers on different tiles that are no walls, zones inside the map.
\<close>

theorem parseMapBundle_good:
  assumes "parseMapBundle digest (JObject raw) hz = Inr bundle"
  shows "sb_mapBundleHash bundle = digest (hash_input raw) \<and> js_get raw ''mapBundleHash'' = Some (JString (sb_mapBundleHash bundle))
    \<and> sb_simulationHz bundle = hz \<and> 0 < sb_tileSize bundle \<and> sb_maps bundle \<noteq> [] \<and> js_ok (sb_maps bundle)
    \<and> (\<exists>mapsRaw. js_get raw ''maps'' = Some (JObject mapsRaw) \<and> fst ` set (sb_maps bundle) = fst ` set mapsRaw)
    \<and> (\<forall>(mapId, m) \<in> set (sb_maps bundle). mapId \<noteq> [] \<and> good_map m \<and> sv_mapId m = mapId)"
proof -
  obtain h where h: "js_get raw ''mapBundleHash'' = Some (JString h)"
  proof (cases "js_get raw ''mapBundleHash''")
    case (Some v)
    then show ?thesis using assms that by (cases v) (simp_all add: parseMapBundle_def)
  qed (use assms in \<open>simp add: parseMapBundle_def\<close>)
  obtain mapsRaw maps tileSize where m: "js_get raw ''maps'' = Some (JObject mapsRaw)" "mapsRaw \<noteq> []"
    "digest (hash_input raw) = h" "positiveInteger (js_get raw ''tileSize'') = Inr tileSize" "parse_maps mapsRaw = Inr maps"
    "bundle = \<lparr>sb_schemaVersion = MAP_BUNDLE_SCHEMA_VERSION, sb_mapBundleHash = h, sb_simulationHz = hz,
       sb_tileSize = tileSize, sb_maps = maps\<rparr>"
    using assms by (auto simp: parseMapBundle_def h)
  have "maps \<noteq> []" using parse_maps_good [OF m(5)] m(2) by auto
  then show ?thesis using m h parse_maps_good [OF m(5)] positiveInteger_Inr [OF m(4)] by simp
qed

text \<open>A one-map bundle with a timeline, starts for three, a marker and a zone.\<close>

definition demo_num :: "real \<Rightarrow> json" where "demo_num r = JNumber (Fin r)"

definition demo_map_json :: json where
  "demo_map_json = JObject [(''size'', demo_num 2), (''barrier_speed'', demo_num (1 / 2)),
     (''initial_map'', JArray [JArray [demo_num 0, demo_num 2], JArray [demo_num 0, demo_num 1]]),
     (''timeline'', JObject [(''12'', JArray [JArray [demo_num 1, demo_num 0, demo_num 0]])]),
     (''start_pos'', JObject [(''3'', JArray [JArray [demo_num 128, demo_num 128], JArray [demo_num 384, demo_num 128],
        JArray [demo_num 128, demo_num 384]])]),
     (''markers'', JArray [JObject [(''kind'', JString ''reset''), (''x'', demo_num 0), (''y'', demo_num 1)]]),
     (''zones'', JArray [JObject [(''kind'', JString ''training.chase''), (''x'', demo_num 0), (''y'', demo_num 0),
        (''width'', demo_num 2), (''height'', demo_num 1)]])]"

definition demo_hash :: string where "demo_hash = replicate 64 CHR ''a''"

definition demo_bundle_raw :: "(string, json) js_map" where
  "demo_bundle_raw = [(''schemaVersion'', demo_num 3), (''simulationHz'', demo_num 60), (''tileSize'', demo_num 256),
     (''mapBundleHash'', JString demo_hash), (''maps'', JObject [(''arena'', demo_map_json)])]"

lemma demo_bundle_parses: "\<not> isl (parseMapBundle (\<lambda>_. demo_hash) (JObject demo_bundle_raw) 60)"
  by code_simp

definition demo_bundle :: server_map_bundle where
  "demo_bundle = projr (parseMapBundle (\<lambda>_. demo_hash) (JObject demo_bundle_raw) 60)"

lemma demo_bundle: "parseMapBundle (\<lambda>_. demo_hash) (JObject demo_bundle_raw) 60 = Inr demo_bundle"
  using demo_bundle_parses by (simp add: demo_bundle_def)

lemma demo_bundle_maps: "map fst (sb_maps demo_bundle) = [''arena'']"
  by code_simp

theorem parseMapBundle_good_witness:
  "map fst (sb_maps demo_bundle) = [''arena''] \<and> list_all (\<lambda>(mapId, m). good_map m \<and> sv_mapId m = mapId) (sb_maps demo_bundle)"
  using parseMapBundle_good [OF demo_bundle] demo_bundle_maps by (auto simp: list_all_iff)

section \<open>Choosing maps\<close>

lemma map_lookup_Own: "map_lookup bundle mapId = OwnMap m \<longleftrightarrow> js_get (sb_maps bundle) mapId = Some m"
  by (simp add: map_lookup_def split: option.split)

text \<open>
  Which maps a room may have. The maps offered are exactly the maps of the bundle that the mode may play; each of them is
  accepted and can be instantiated. What is accepted beyond them are names that every JavaScript object inherits, such as
  \<open>constructor\<close>: a room takes them as its map in every mode although the bundle has no such map and starting a game
  with it fails.
\<close>

theorem isPlayableMap_exact:
  assumes "js_ok (sb_maps bundle)"
  shows "(isPlayableMap bundle mapId mode \<longleftrightarrow>
      mapId \<in> set (playableMapIds bundle mode) \<or> js_get (sb_maps bundle) mapId = None \<and> mapId \<in> set OBJECT_PROTOTYPE)
    \<and> (mapId \<in> set (playableMapIds bundle mode) \<longrightarrow> (\<exists>m. instantiateMap bundle mapId = Inr m))
    \<and> (js_get (sb_maps bundle) mapId = None \<longrightarrow> (\<exists>e. instantiateMap bundle mapId = Inl e))"
proof -
  have "mapId \<in> set (playableMapIds bundle mode) \<longleftrightarrow> (\<exists>m. js_get (sb_maps bundle) mapId = Some m \<and> isPlayable m mode)"
    using assms by (force simp: playableMapIds_def js_get_Some_iff)
  then show ?thesis
    by (auto simp: isPlayableMap_def instantiateMap_def map_lookup_def split: option.split)
qed

theorem isPlayableMap_exact_witness:
  "isPlayableMap demo_bundle ''arena'' MatchMode \<and> playableMapIds demo_bundle MatchMode = [''arena'']
   \<and> isPlayableMap demo_bundle ''constructor'' MatchMode \<and> isl (instantiateMap demo_bundle ''constructor'')"
proof -
  have ok: "js_ok (sb_maps demo_bundle)" using demo_bundle_maps by (simp add: js_ok_def)
  have ids: "playableMapIds demo_bundle MatchMode = [''arena'']" by code_simp
  have none: "js_get (sb_maps demo_bundle) ''constructor'' = None"
    using demo_bundle_maps by (cases "sb_maps demo_bundle") (auto simp: js_get_def)
  note exact = isPlayableMap_exact [OF ok, where mode = MatchMode]
  show ?thesis
    using exact [of "''arena''"] exact [of "''constructor''"] ids none by (auto simp: OBJECT_PROTOTYPE_def)
qed

text \<open>A room's own copy of a map of an accepted bundle is a rectangular grid of known tiles with a timeline that stays inside.\<close>

definition good_world_map :: "world_map \<Rightarrow> bool" where
  "good_world_map m \<longleftrightarrow> 0 < wm_cols m \<and> wm_rows m = wm_cols m \<and> 0 < wm_tileSize m \<and> good_grid (wm_cols m) (wm_tiles m)
     \<and> (\<forall>t cs. wm_timeline m t = Some cs \<longrightarrow> (\<forall>c \<in> set cs. good_change (wm_cols m) c))
     \<and> (\<forall>k \<in> set (wm_markers m). good_marker (wm_cols m) (wm_tiles m) k)
     \<and> (\<forall>z \<in> set (wm_zones m). good_zone (wm_cols m) z)"

lemma instantiateMap_good:
  assumes "parseMapBundle digest (JObject raw) hz = Inr bundle" "instantiateMap bundle mapId = Inr m"
  shows "good_world_map m"
proof -
  obtain sm where sm: "js_get (sb_maps bundle) mapId = Some sm"
    and m: "m = \<lparr>wm_mapId = mapId, wm_cols = sv_size sm, wm_rows = sv_size sm, wm_tileSize = of_int (sb_tileSize bundle),
       wm_tiles = sv_initialMap sm, wm_barrierSpeed = sv_barrierSpeed sm, wm_timeline = sv_timeline sm,
       wm_markers = sv_markers sm, wm_zones = sv_zones sm\<rparr>"
    using assms(2) by (auto simp: instantiateMap_def map_lookup_def split: option.splits if_splits)
  have "good_map sm" "0 < sb_tileSize bundle"
    using parseMapBundle_good [OF assms(1)] js_get_mem [OF sm] by auto
  then show ?thesis by (auto simp: m good_world_map_def good_map_def)
qed

end
