(* ===== verification/Scheduler.thy ===== *)
theory Scheduler
  imports Config
begin

text \<open>
  The fixed-step scheduler: \<open>server-game/src/simulation/scheduler.ts\<close>. What it drives is a parameter: the
  \<open>step\<close> of a target, which returns a frame or ends the target. Frames handed to \<open>publish\<close> are a log. The clock is
  an argument, read where the code reads it. A target's \<open>step\<close> does not add or remove other
  targets in the model. Times are reals, so the epsilon of the code is kept but never decides.
\<close>

section \<open>Model\<close>

record ('t, 'f) scheduler =
  sc_targets :: "(string, 't) js_map"
  sc_accumulatorMs :: real
  sc_lastNowMs :: "real option"
  sc_tickCounter :: int
  sc_timer :: bool
  sc_loopLagMs :: real
  sc_droppedMs :: real
  sc_targetCount :: nat
  sc_published :: "(string \<times> 'f) list"

definition EPSILON_MS :: real where "EPSILON_MS = 1 / 1000000000"

definition new_scheduler :: "('t, 'f) scheduler" where
  "new_scheduler = \<lparr>sc_targets = js_empty, sc_accumulatorMs = 0, sc_lastNowMs = None, sc_tickCounter = 0,
     sc_timer = False, sc_loopLagMs = 0, sc_droppedMs = 0, sc_targetCount = 0, sc_published = []\<rparr>"

definition sched_add :: "string \<Rightarrow> 't \<Rightarrow> ('t, 'f) scheduler \<Rightarrow> ('t, 'f) scheduler" where
  "sched_add tid target s =
     (let ts = js_set tid target (sc_targets s) in s\<lparr>sc_targets := ts, sc_targetCount := js_size ts\<rparr>)"

definition sched_remove :: "string \<Rightarrow> ('t, 'f) scheduler \<Rightarrow> ('t, 'f) scheduler" where
  "sched_remove tid s =
     (let ts = js_delete tid (sc_targets s) in s\<lparr>sc_targets := ts, sc_targetCount := js_size ts\<rparr>)"

definition sched_start :: "real \<Rightarrow> ('t, 'f) scheduler \<Rightarrow> ('t, 'f) scheduler" where
  "sched_start now s = (if sc_timer s then s else s\<lparr>sc_lastNowMs := Some now, sc_timer := True\<rparr>)"

definition sched_stop :: "('t, 'f) scheduler \<Rightarrow> ('t, 'f) scheduler" where
  "sched_stop s =
     (if \<not> sc_timer s then s else s\<lparr>sc_timer := False, sc_lastNowMs := None, sc_accumulatorMs := 0\<rparr>)"

text \<open>One target of the copied list: it steps, and is removed or perhaps published.\<close>

definition step_target ::
  "('t \<Rightarrow> 'f option \<times> 't) \<Rightarrow> bool \<Rightarrow> string \<times> 't \<Rightarrow> ('t, 'f) scheduler \<Rightarrow> ('t, 'f) scheduler" where
  "step_target step isSnapshotTick entry s =
     (let (frame, target) = step (snd entry) in
      case frame of
        None \<Rightarrow> sched_remove (fst entry) s
      | Some f \<Rightarrow>
          let s1 = s\<lparr>sc_targets := js_set (fst entry) target (sc_targets s)\<rparr>
          in if isSnapshotTick then s1\<lparr>sc_published := sc_published s1 @ [(fst entry, f)]\<rparr> else s1)"

definition stepAll :: "('t \<Rightarrow> 'f option \<times> 't) \<Rightarrow> ('t, 'f) scheduler \<Rightarrow> ('t, 'f) scheduler" where
  "stepAll step s =
     (let s1 = s\<lparr>sc_tickCounter := sc_tickCounter s + 1\<rparr>;
          isSnapshotTick = (sc_tickCounter s1 mod SNAPSHOT_INTERVAL_TICKS = 0)
      in fold (step_target step isSnapshotTick) (sc_targets s1) s1)"

text \<open>The catch-up loop; \<open>left\<close> is \<open>MAX_CATCHUP_STEPS - steps\<close>.\<close>

fun catch_up :: "('t \<Rightarrow> 'f option \<times> 't) \<Rightarrow> nat \<Rightarrow> ('t, 'f) scheduler \<Rightarrow> ('t, 'f) scheduler" where
  "catch_up step left s =
     (if SIMULATION_STEP_MS \<le> sc_accumulatorMs s + EPSILON_MS then
        (case left of
           0 \<Rightarrow> s\<lparr>sc_droppedMs := sc_droppedMs s + sc_accumulatorMs s, sc_accumulatorMs := 0\<rparr>
         | Suc n \<Rightarrow> catch_up step n (stepAll step (s\<lparr>sc_accumulatorMs := sc_accumulatorMs s - SIMULATION_STEP_MS\<rparr>)))
      else s)"

declare catch_up.simps [simp del]

definition sched_advance :: "('t \<Rightarrow> 'f option \<times> 't) \<Rightarrow> real \<Rightarrow> real \<Rightarrow> ('t, 'f) scheduler \<Rightarrow> ('t, 'f) scheduler" where
  "sched_advance step now later s =
     (case sc_lastNowMs s of
        None \<Rightarrow> s\<lparr>sc_lastNowMs := Some now\<rparr>
      | Some prev \<Rightarrow>
          let elapsed = now - prev;
              s1 = s\<lparr>sc_lastNowMs := Some now, sc_accumulatorMs := sc_accumulatorMs s + elapsed\<rparr>;
              s2 = catch_up step MAX_CATCHUP_STEPS s1
          in s2\<lparr>sc_loopLagMs := later - now\<rparr>)"

definition shouldDrain :: "('t, 'f) scheduler \<Rightarrow> bool" where
  "shouldDrain s \<longleftrightarrow> LOOP_LAG_DRAIN_THRESHOLD_MS < sc_loopLagMs s"

section \<open>Lemmas\<close>

lemma step_target_clock:
  "sc_accumulatorMs (step_target step b e s) = sc_accumulatorMs s"
  "sc_droppedMs (step_target step b e s) = sc_droppedMs s"
  "sc_tickCounter (step_target step b e s) = sc_tickCounter s"
  "sc_lastNowMs (step_target step b e s) = sc_lastNowMs s"
  by (auto simp: step_target_def sched_remove_def Let_def split: prod.split option.split)

lemma stepAll_clock:
  "sc_accumulatorMs (stepAll step s) = sc_accumulatorMs s"
  "sc_droppedMs (stepAll step s) = sc_droppedMs s"
  "sc_tickCounter (stepAll step s) = sc_tickCounter s + 1"
proof -
  have f: "sc_accumulatorMs (fold (step_target step b) es s) = sc_accumulatorMs s
      \<and> sc_droppedMs (fold (step_target step b) es s) = sc_droppedMs s
      \<and> sc_tickCounter (fold (step_target step b) es s) = sc_tickCounter s" for b es and s :: "('t, 'f) scheduler"
    and step :: "'t \<Rightarrow> 'f option \<times> 't"
    by (induction es arbitrary: s) (simp_all add: step_target_clock)
  show "sc_accumulatorMs (stepAll step s) = sc_accumulatorMs s"
    "sc_droppedMs (stepAll step s) = sc_droppedMs s"
    "sc_tickCounter (stepAll step s) = sc_tickCounter s + 1"
    by (simp_all add: stepAll_def Let_def f)
qed

lemma catch_up_balance:
  "\<exists>k \<le> left. sc_tickCounter (catch_up step left s) = sc_tickCounter s + int k
     \<and> sc_accumulatorMs (catch_up step left s) + sc_droppedMs (catch_up step left s) + real k * SIMULATION_STEP_MS
       = sc_accumulatorMs s + sc_droppedMs s
     \<and> sc_accumulatorMs (catch_up step left s) < SIMULATION_STEP_MS
     \<and> (sc_droppedMs (catch_up step left s) = sc_droppedMs s \<or> k = left)"
proof (induction left arbitrary: s)
  case 0
  have "0 < SIMULATION_STEP_MS" by (simp add: SIMULATION_STEP_MS_def SIMULATION_HZ_def)
  then show ?case by (auto simp: catch_up.simps [of step 0 s] EPSILON_MS_def)
next
  case (Suc n)
  show ?case
  proof (cases "SIMULATION_STEP_MS \<le> sc_accumulatorMs s + EPSILON_MS")
    case False
    then show ?thesis by (intro exI [of _ 0]) (simp add: catch_up.simps [of step "Suc n" s] EPSILON_MS_def)
  next
    case True
    let ?s = "stepAll step (s\<lparr>sc_accumulatorMs := sc_accumulatorMs s - SIMULATION_STEP_MS\<rparr>)"
    have eq: "catch_up step (Suc n) s = catch_up step n ?s" using True by (simp add: catch_up.simps [of step "Suc n" s])
    from Suc [of ?s] obtain k where k: "k \<le> n" "sc_tickCounter (catch_up step n ?s) = sc_tickCounter ?s + int k"
      "sc_accumulatorMs (catch_up step n ?s) + sc_droppedMs (catch_up step n ?s) + real k * SIMULATION_STEP_MS
         = sc_accumulatorMs ?s + sc_droppedMs ?s"
      "sc_accumulatorMs (catch_up step n ?s) < SIMULATION_STEP_MS"
      "sc_droppedMs (catch_up step n ?s) = sc_droppedMs ?s \<or> k = n" by blast
    then show ?thesis unfolding eq
      by (intro exI [of _ "Suc k"]) (auto simp: stepAll_clock algebra_simps)
  qed
qed

section \<open>Properties\<close>

text \<open>
  Time is dropped, ticks are not skipped. One wake-up of the scheduler runs \<open>k\<close> whole ticks, at most
  \<open>MAX_CATCHUP_STEPS\<close>; the elapsed time is exactly the \<open>k\<close> steps, the rest carried over, which is
  less than a step, and the time dropped; nothing is dropped unless the maximum was reached.
\<close>

theorem sched_advance_balance:
  assumes "sc_lastNowMs s = Some prev"
  shows "\<exists>k \<le> MAX_CATCHUP_STEPS.
     sc_tickCounter (sched_advance step now later s) = sc_tickCounter s + int k
     \<and> sc_accumulatorMs (sched_advance step now later s) + sc_droppedMs (sched_advance step now later s)
         + real k * SIMULATION_STEP_MS = sc_accumulatorMs s + sc_droppedMs s + (now - prev)
     \<and> sc_accumulatorMs (sched_advance step now later s) < SIMULATION_STEP_MS
     \<and> (sc_droppedMs (sched_advance step now later s) = sc_droppedMs s \<or> k = MAX_CATCHUP_STEPS)"
  using catch_up_balance [of MAX_CATCHUP_STEPS step
      "s\<lparr>sc_lastNowMs := Some now, sc_accumulatorMs := sc_accumulatorMs s + (now - prev)\<rparr>"] assms
  by (auto simp: sched_advance_def Let_def)

theorem sched_advance_balance_witness:
  "\<exists>k \<le> MAX_CATCHUP_STEPS.
     sc_tickCounter (sched_advance (\<lambda>t :: nat. (Some t, Suc t)) 1000 1001 (sched_start 0 new_scheduler)) = int k
     \<and> sc_accumulatorMs (sched_advance (\<lambda>t :: nat. (Some t, Suc t)) 1000 1001 (sched_start 0 new_scheduler)) < SIMULATION_STEP_MS"
proof -
  have "sc_lastNowMs (sched_start 0 (new_scheduler :: (nat, nat) scheduler)) = Some 0"
    "sc_tickCounter (sched_start 0 (new_scheduler :: (nat, nat) scheduler)) = 0"
    by (simp_all add: sched_start_def new_scheduler_def)
  from sched_advance_balance [OF this(1), of "\<lambda>t. (Some t, Suc t)" 1000 1001] this(2) show ?thesis by auto
qed

end
