(* ===== verification/Progression.thy ===== *)
theory Progression
  imports Prelude
begin

text \<open>
  Experience and levels: \<open>shared/src/protocol/progression.ts\<close>. The inputs cross a stream and
  a database, so they are JavaScript numbers with their special values. The level loop is
  modelled as the loop it is, and proved to compute the greatest level whose cumulative cost
  the experience covers.
\<close>

section \<open>Arithmetic on numbers with special values\<close>

text \<open>\<open>Math.max(0, Math.floor(v)) * k\<close> for a positive constant \<open>k\<close>; \<open>NaN\<close> passes through.\<close>

fun floor0_times :: "js_number \<Rightarrow> int \<Rightarrow> js_number" where
  "floor0_times (Fin v) k = Fin (of_int (max 0 \<lfloor>v\<rfloor> * k))"
| "floor0_times PosInf k = PosInf"
| "floor0_times NegInf k = Fin 0"
| "floor0_times NotANumber k = NotANumber"

text \<open>Addition of numbers that are never negative infinity.\<close>

fun js_add :: "js_number \<Rightarrow> js_number \<Rightarrow> js_number" where
  "js_add (Fin a) (Fin b) = Fin (a + b)"
| "js_add NotANumber _ = NotANumber"
| "js_add _ NotANumber = NotANumber"
| "js_add PosInf NegInf = NotANumber"
| "js_add NegInf PosInf = NotANumber"
| "js_add PosInf _ = PosInf"
| "js_add _ PosInf = PosInf"
| "js_add NegInf _ = NegInf"
| "js_add _ NegInf = NegInf"

section \<open>PROGRESSION\<close>

definition XP_PER_MATCH :: int where "XP_PER_MATCH = 40"
definition XP_PER_WIN :: int where "XP_PER_WIN = 60"
definition XP_PER_TAG :: int where "XP_PER_TAG = 20"
definition XP_PER_SWITCH_SUCCESS :: int where "XP_PER_SWITCH_SUCCESS = 15"
definition XP_PER_SURVIVED_MINUTE :: int where "XP_PER_SURVIVED_MINUTE = 12"
definition XP_SURVIVAL_CAP_MS :: int where "XP_SURVIVAL_CAP_MS = 10 * 60 * 1000"
definition LEVEL_BASE_COST :: nat where "LEVEL_BASE_COST = 100"
definition LEVEL_COST_STEP :: nat where "LEVEL_COST_STEP = 50"

record match_xp_input =
  mx_won :: bool
  mx_tagCount :: js_number
  mx_switchSuccess :: js_number
  mx_survivedMs :: "js_number option"

record match_xp_breakdown =
  xb_played :: js_number
  xb_win :: js_number
  xb_tags :: js_number
  xb_switches :: js_number
  xb_survival :: js_number
  xb_total :: js_number

text \<open>\<open>Math.min(CAP, Number.isFinite(ms) ? Math.max(0, ms) : 0)\<close>; a missing field is not finite.\<close>

definition survived_ms :: "js_number option \<Rightarrow> real" where
  "survived_ms ms = min (of_int XP_SURVIVAL_CAP_MS) (case ms of Some (Fin v) \<Rightarrow> max 0 v | _ \<Rightarrow> 0)"

definition matchXpBreakdown :: "match_xp_input \<Rightarrow> match_xp_breakdown" where
  "matchXpBreakdown input =
     (let survivedMs = survived_ms (mx_survivedMs input);
          played = Fin (of_int XP_PER_MATCH);
          win = Fin (of_int (if mx_won input then XP_PER_WIN else 0));
          tags = floor0_times (mx_tagCount input) XP_PER_TAG;
          switches = floor0_times (mx_switchSuccess input) XP_PER_SWITCH_SUCCESS;
          survival = Fin (of_int \<lfloor>survivedMs / 60000 * of_int XP_PER_SURVIVED_MINUTE\<rfloor>)
      in \<lparr>xb_played = played, xb_win = win, xb_tags = tags, xb_switches = switches,
          xb_survival = survival,
          xb_total = js_add (js_add (js_add (js_add played win) tags) switches) survival\<rparr>)"

definition matchXp :: "match_xp_input \<Rightarrow> js_number" where
  "matchXp input = xb_total (matchXpBreakdown input)"

record level_progress =
  lp_level :: nat
  lp_xpIntoLevel :: nat
  lp_xpForNextLevel :: nat

text \<open>The \<open>while (remaining >= cost)\<close> loop.\<close>

function level_loop :: "nat \<Rightarrow> nat \<Rightarrow> nat \<Rightarrow> level_progress" where
  "level_loop remaining level cost =
     (if cost \<le> remaining then level_loop (remaining - cost) (level + 1) (cost + LEVEL_COST_STEP)
      else \<lparr>lp_level = level, lp_xpIntoLevel = remaining, lp_xpForNextLevel = cost\<rparr>)"
  by pat_completeness auto
termination
  by (relation "measure (\<lambda>(r, l, c). 2 * r + (if c = 0 then 1 else 0))")
    (auto simp: LEVEL_COST_STEP_def)

declare level_loop.simps [simp del]

fun levelFromXp :: "js_number \<Rightarrow> level_progress" where
  "levelFromXp (Fin xp) = level_loop (if 0 < xp then nat \<lfloor>xp\<rfloor> else 0) 1 LEVEL_BASE_COST"
| "levelFromXp _ = level_loop 0 1 LEVEL_BASE_COST"

section \<open>Lemmas\<close>

text \<open>The experience that the first \<open>n\<close> level-ups cost together.\<close>

definition cumulative_cost :: "nat \<Rightarrow> nat" where
  "cumulative_cost n = (\<Sum>k<n. LEVEL_BASE_COST + k * LEVEL_COST_STEP)"

lemma cumulative_cost_0 [simp]: "cumulative_cost 0 = 0"
  by (simp add: cumulative_cost_def)

lemma cumulative_cost_Suc [simp]:
  "cumulative_cost (Suc n) = cumulative_cost n + (LEVEL_BASE_COST + n * LEVEL_COST_STEP)"
  by (simp add: cumulative_cost_def)

lemma cumulative_cost_closed: "cumulative_cost n = 100 * n + 25 * (n * (n - 1))"
proof (induction n)
  case 0
  then show ?case by simp
next
  case (Suc n)
  then show ?case
    by (cases n) (simp_all add: LEVEL_BASE_COST_def LEVEL_COST_STEP_def algebra_simps)
qed

lemma cumulative_cost_mono: "m \<le> n \<Longrightarrow> cumulative_cost m \<le> cumulative_cost n"
  by (rule lift_Suc_mono_le [of cumulative_cost]) simp_all

lemma level_loop_spec:
  assumes "cost = LEVEL_BASE_COST + n * LEVEL_COST_STEP"
  shows "\<exists>m i. level_loop r (n + 1) cost =
           \<lparr>lp_level = m + 1, lp_xpIntoLevel = i, lp_xpForNextLevel = LEVEL_BASE_COST + m * LEVEL_COST_STEP\<rparr>
         \<and> cumulative_cost n + r = cumulative_cost m + i
         \<and> i < LEVEL_BASE_COST + m * LEVEL_COST_STEP"
  using assms
proof (induction r arbitrary: n cost rule: less_induct)
  case (less r)
  show ?case
  proof (cases "cost \<le> r")
    case False
    with less.prems show ?thesis
      by (intro exI [of _ n] exI [of _ r]) (simp add: level_loop.simps [of r])
  next
    case True
    have "r - cost < r"
      using True less.prems by (simp add: LEVEL_BASE_COST_def)
    from less.IH [OF this, of "cost + LEVEL_COST_STEP" "n + 1"] less.prems
    obtain m i where "level_loop (r - cost) (n + 1 + 1) (cost + LEVEL_COST_STEP) =
        \<lparr>lp_level = m + 1, lp_xpIntoLevel = i, lp_xpForNextLevel = LEVEL_BASE_COST + m * LEVEL_COST_STEP\<rparr>"
      and "cumulative_cost (n + 1) + (r - cost) = cumulative_cost m + i"
      and "i < LEVEL_BASE_COST + m * LEVEL_COST_STEP"
      by auto
    with True less.prems show ?thesis
      by (intro exI [of _ m] exI [of _ i]) (simp add: level_loop.simps [of r])
  qed
qed

lemma survived_ms_bounds: "0 \<le> survived_ms ms \<and> survived_ms ms \<le> of_int XP_SURVIVAL_CAP_MS"
  by (auto simp: survived_ms_def XP_SURVIVAL_CAP_MS_def split: option.splits js_number.splits)

lemma survival_xp_bounds:
  "0 \<le> \<lfloor>survived_ms ms / 60000 * of_int XP_PER_SURVIVED_MINUTE\<rfloor>
   \<and> \<lfloor>survived_ms ms / 60000 * of_int XP_PER_SURVIVED_MINUTE\<rfloor> \<le> 120"
proof -
  have "0 \<le> survived_ms ms" and "survived_ms ms \<le> 600000"
    using survived_ms_bounds [of ms] by (simp_all add: XP_SURVIVAL_CAP_MS_def)
  then show ?thesis
    unfolding XP_PER_SURVIVED_MINUTE_def by (simp add: floor_le_iff)
qed

text \<open>
  \<open>levelFromXp\<close> on a finite non-negative experience \<open>xp\<close> returns the one level
  decomposition of \<open>floor(xp)\<close>: the cumulative cost of the levels passed plus the rest is the
  whole experience, the rest is below the next cost, and the next cost is the linear curve's
  value at that level.
\<close>

theorem levelFromXp_decomposes:
  assumes "0 \<le> xp"
  shows "\<exists>m. lp_level (levelFromXp (Fin xp)) = Suc m
     \<and> cumulative_cost m + lp_xpIntoLevel (levelFromXp (Fin xp)) = nat \<lfloor>xp\<rfloor>
     \<and> lp_xpIntoLevel (levelFromXp (Fin xp)) < lp_xpForNextLevel (levelFromXp (Fin xp))
     \<and> lp_xpForNextLevel (levelFromXp (Fin xp)) = LEVEL_BASE_COST + m * LEVEL_COST_STEP
     \<and> (\<forall>k. cumulative_cost k \<le> nat \<lfloor>xp\<rfloor> \<longleftrightarrow> k \<le> m)"
proof -
  let ?r = "if 0 < xp then nat \<lfloor>xp\<rfloor> else 0"
  have r: "?r = nat \<lfloor>xp\<rfloor>" using assms by auto
  obtain m i where loop: "level_loop ?r (0 + 1) LEVEL_BASE_COST =
        \<lparr>lp_level = m + 1, lp_xpIntoLevel = i, lp_xpForNextLevel = LEVEL_BASE_COST + m * LEVEL_COST_STEP\<rparr>"
    and sum: "cumulative_cost 0 + ?r = cumulative_cost m + i"
    and i: "i < LEVEL_BASE_COST + m * LEVEL_COST_STEP"
    using level_loop_spec [of LEVEL_BASE_COST 0 ?r] by auto
  have "cumulative_cost k \<le> nat \<lfloor>xp\<rfloor> \<longleftrightarrow> k \<le> m" for k
  proof
    assume "k \<le> m"
    then show "cumulative_cost k \<le> nat \<lfloor>xp\<rfloor>"
      using cumulative_cost_mono [of k m] sum r by simp
  next
    assume le: "cumulative_cost k \<le> nat \<lfloor>xp\<rfloor>"
    show "k \<le> m"
    proof (rule ccontr)
      assume "\<not> k \<le> m"
      then have "cumulative_cost (Suc m) \<le> cumulative_cost k"
        by (intro cumulative_cost_mono) simp
      with le sum r i show False by simp
    qed
  qed
  with loop sum i r show ?thesis by auto
qed

theorem levelFromXp_decomposes_witness:
  "(0::real) \<le> 275 \<and> (\<exists>m. lp_level (levelFromXp (Fin 275)) = Suc m
     \<and> cumulative_cost m + lp_xpIntoLevel (levelFromXp (Fin 275)) = nat \<lfloor>275::real\<rfloor>
     \<and> lp_level (levelFromXp (Fin 275)) = 3)"
proof -
  have "(0::real) \<le> 275" by simp
  from levelFromXp_decomposes [OF this]
  obtain m where "lp_level (levelFromXp (Fin 275)) = Suc m"
    and "cumulative_cost m + lp_xpIntoLevel (levelFromXp (Fin 275)) = nat \<lfloor>275::real\<rfloor>"
    by blast
  moreover have "lp_level (levelFromXp (Fin 275)) = 3"
    by (simp add: level_loop.simps LEVEL_BASE_COST_def LEVEL_COST_STEP_def)
  ultimately show ?thesis by auto
qed

text \<open>
  The experience of one match is a finite non-negative number, at least the share for
  taking part and growing with the tags and switches by the tariff, exactly when both counts
  are not \<open>NaN\<close> and not plus infinity; a \<open>NaN\<close> count makes the total \<open>NaN\<close>, although the
  comment on the function says that it stops \<open>NaN\<close>.
\<close>

theorem matchXp_finite_iff:
  "(js_isFinite (matchXp input) \<longleftrightarrow>
      mx_tagCount input \<notin> {NotANumber, PosInf} \<and> mx_switchSuccess input \<notin> {NotANumber, PosInf})
   \<and> (matchXp input = NotANumber \<longleftrightarrow>
      mx_tagCount input = NotANumber \<or> mx_switchSuccess input = NotANumber)
   \<and> (case matchXp input of Fin v \<Rightarrow> of_int XP_PER_MATCH \<le> v | _ \<Rightarrow> True)"
proof -
  let ?s = "\<lfloor>survived_ms (mx_survivedMs input) / 60000 * of_int XP_PER_SURVIVED_MINUTE\<rfloor>"
  have s: "0 \<le> ?s" using survival_xp_bounds by blast
  have t: "0 \<le> max 0 \<lfloor>v\<rfloor> * XP_PER_TAG" and w: "0 \<le> max 0 \<lfloor>v\<rfloor> * XP_PER_SWITCH_SUCCESS" for v :: real
    by (simp_all add: XP_PER_TAG_def XP_PER_SWITCH_SUCCESS_def)
  show ?thesis
    using s t w
    by (cases "mx_tagCount input"; cases "mx_switchSuccess input")
      (auto simp: matchXp_def matchXpBreakdown_def Let_def XP_PER_WIN_def simp flip: of_int_mult of_int_add)
qed

end
