(* ===== verification/SnapshotSafety.thy ===== *)
theory SnapshotSafety
  imports SnapshotCodec
begin

text \<open>
  What the frame decoder guarantees on arbitrary bytes: it never reads outside a section, and
  whatever it accepts is within the ranges of the wire.
\<close>

definition ratio_ok :: "real \<Rightarrow> bool" where
  "ratio_ok v \<longleftrightarrow> 0 \<le> v \<and> v \<le> 1"

definition byte_ok :: "int \<Rightarrow> bool" where
  "byte_ok v \<longleftrightarrow> 0 \<le> v \<and> v \<le> 255"

definition u16_ok :: "real \<Rightarrow> bool" where
  "u16_ok v \<longleftrightarrow> 0 \<le> v \<and> v \<le> 65535"

definition effects_ok :: "(effect_type \<Rightarrow> real option) \<Rightarrow> bool" where
  "effects_ok eff \<longleftrightarrow> (\<forall>e v. eff e = Some v \<longrightarrow> ratio_ok v)"

definition player_ok :: "snapshot_player \<Rightarrow> bool" where
  "player_ok p \<longleftrightarrow> byte_ok (sp_id p) \<and> u16_ok (sp_x p) \<and> u16_ok (sp_y p)
     \<and> \<bar>sp_facingX p\<bar> \<le> 128 / 127 \<and> \<bar>sp_facingY p\<bar> \<le> 128 / 127 \<and> byte_ok (sp_colorIndex p)
     \<and> effects_ok (sp_effects p)
     \<and> (\<forall>e. sp_emojiId p = Some e \<longrightarrow> byte_ok e)"

definition grid_ok :: "snapshot_map \<Rightarrow> bool" where
  "grid_ok m \<longleftrightarrow> byte_ok (sm_cols m) \<and> byte_ok (sm_rows m) \<and> length (sm_tiles m) = nat (sm_rows m)
     \<and> list_all (\<lambda>row. length row = nat (sm_cols m) \<and> list_all byte_ok row) (sm_tiles m)"

definition storm_ok :: "snapshot_storm \<Rightarrow> bool" where
  "storm_ok z \<longleftrightarrow> u16_ok (ss_x z) \<and> u16_ok (ss_y z) \<and> u16_ok (ss_width z) \<and> u16_ok (ss_height z)"

definition opt_all :: "('a \<Rightarrow> bool) \<Rightarrow> 'a option \<Rightarrow> bool" where
  "opt_all P v = (case v of None \<Rightarrow> True | Some x \<Rightarrow> P x)"

definition wire_ok :: "snapshot \<Rightarrow> bool" where
  "wire_ok s \<longleftrightarrow> byte_ok (sn_version s) \<and> 0 \<le> sn_tick s \<and> sn_tick s < 4294967296
     \<and> opt_all grid_ok (sn_map s)
     \<and> opt_all (list_all (\<lambda>c. byte_ok (tc_x c) \<and> byte_ok (tc_y c) \<and> byte_ok (tc_physics c))) (sn_tileChanges s)
     \<and> opt_all (list_all (\<lambda>a. byte_ok (ta_x a) \<and> byte_ok (ta_y a) \<and> ratio_ok (ta_alpha a))) (sn_tileAlphas s)
     \<and> opt_all (opt_all storm_ok) (sn_storm s)
     \<and> opt_all (\<lambda>ps. length ps \<le> 255 \<and> list_all player_ok ps) (sn_players s)
     \<and> opt_all (list_all (\<lambda>r. byte_ok (rg_x r) \<and> byte_ok (rg_y r) \<and> ratio_ok (rg_remaining r))) (sn_regions s)
     \<and> opt_all byte_ok (sn_selfId s)
     \<and> opt_all (list_all (\<lambda>c. byte_ok (cd_slot c) \<and> u16_ok (cd_remainingMs c))) (sn_cooldowns s)
     \<and> opt_all (list_all (\<lambda>r. byte_ok (ro_id r))) (sn_roster s)"

lemma byte_ok_get [simp]: "byte_ok (get_u8 p i)"
  by (simp add: byte_ok_def get_u8_range)

lemma u16_ok_get [simp]: "u16_ok (of_int (get_u16 p i))"
  using get_u16_range [of p i] unfolding u16_ok_def by linarith

lemma ratio_ok_get [simp]: "ratio_ok (of_int (get_u8 p i) / 255)"
proof -
  have "0 \<le> real_of_int (get_u8 p i)" "real_of_int (get_u8 p i) \<le> 255"
    using get_u8_range [of p i] by linarith+
  then show ?thesis by (simp add: ratio_ok_def)
qed

lemma facing_ok_get [simp]: "\<bar>real_of_int (get_i8 p i)\<bar> \<le> 128"
proof -
  have "- 128 \<le> get_i8 p i" "get_i8 p i \<le> 127"
    using sint_ge [of "p ! i"] sint_lt [of "p ! i"] by (simp_all add: get_i8_def)
  then have "- 128 \<le> real_of_int (get_i8 p i)" "real_of_int (get_i8 p i) \<le> 127" by linarith+
  then show ?thesis by (simp add: abs_le_iff)
qed

lemma read_fixed_all_ok: "(\<And>q. P (f q)) \<Longrightarrow> list_all P (read_fixed n f count p)"
  by (induction count arbitrary: p) simp_all

lemma length_read_fixed [simp]: "length (read_fixed n f count p) = count"
  by (induction count arbitrary: p) simp_all

lemma read_each_ok:
  assumes "\<And>q x r. f q = Inr (x, r) \<Longrightarrow> P x"
  shows "read_each f count p = Inr xs \<Longrightarrow> length xs = count \<and> list_all P xs"
proof (induction count arbitrary: p xs)
  case 0
  then show ?case by auto
next
  case (Suc count)
  then show ?case using assms by (fastforce split: sum.splits prod.splits)
qed

lemma read_rows_ok: "length (read_rows c n p) = n
    \<and> list_all (\<lambda>row. length row = c \<and> list_all byte_ok row) (read_rows c n p)"
  by (induction n arbitrary: p) (simp_all add: read_fixed_all_ok)

lemma need_Inr: "need t p n k = Inr x \<Longrightarrow> k = Inr x \<and> n \<le> length p"
  by (simp add: need_def split: if_splits)

lemma read_effects_ok:
  "read_effects t bits k es eff p = Inr (eff', r) \<Longrightarrow> effects_ok eff \<Longrightarrow> effects_ok eff'"
proof (induction t bits k es eff p rule: read_effects.induct)
  case (1 t bits k eff p)
  then show ?case by simp
next
  case (2 t bits k e es eff p)
  show ?case
  proof (cases "bits AND push_bit k 1 = 0")
    case True
    with 2 show ?thesis by simp
  next
    case False
    have "read_effects t bits (k + 1) es (eff(e \<mapsto> of_int (get_u8 p 0) / 255)) (drop 1 p) = Inr (eff', r)"
      using 2(3) False by (auto dest: need_Inr)
    moreover have "effects_ok (eff(e \<mapsto> of_int (get_u8 p 0) / 255))"
      using 2(4) ratio_ok_get [of p 0] unfolding effects_ok_def by (metis fun_upd_apply option.inject)
    ultimately show ?thesis using 2(2) False by blast
  qed
qed

lemma effects_ok_empty [simp]: "effects_ok Map.empty"
  by (simp add: effects_ok_def)

lemma read_effects_empty_ok: "read_effects t bits k es Map.empty p = Inr (eff, r) \<Longrightarrow> effects_ok eff"
  using read_effects_ok [of t bits k es Map.empty p eff r] effects_ok_empty by blast

lemma read_player_ok: "read_player t q = Inr (x, r) \<Longrightarrow> player_ok x"
  unfolding read_player_def Let_def
  by (drule need_Inr)
    (auto simp: player_ok_def split: sum.splits if_splits dest!: need_Inr read_effects_empty_ok)

lemma read_roster_entry_ok: "read_roster_entry dec t q = Inr (x, r) \<Longrightarrow> byte_ok (ro_id x)"
  unfolding read_roster_entry_def Let_def by (auto dest!: need_Inr)

lemma nat_byte_le: "byte_ok v \<Longrightarrow> nat v \<le> 255"
  unfolding byte_ok_def by linarith

lemma opt_all_simps [simp]: "opt_all P None" "opt_all P (Some x) = P x"
  by (simp_all add: opt_all_def)

text \<open>Every branch sets one field to a value within its range.\<close>

lemma read_players_ok: "wire_ok s \<Longrightarrow> read_players s t p = Inr s' \<Longrightarrow> wire_ok s'"
  using nat_byte_le [of "get_u8 p 0"] read_each_ok [of "read_player t", OF read_player_ok]
  by (fastforce simp: read_players_def wire_ok_def split: sum.splits dest!: need_Inr)

lemma read_roster_ok: "wire_ok s \<Longrightarrow> read_roster dec s t p = Inr s' \<Longrightarrow> wire_ok s'"
  using read_each_ok [of "read_roster_entry dec t", OF read_roster_entry_ok]
  by (fastforce simp: read_roster_def wire_ok_def split: sum.splits dest!: need_Inr)

lemma read_grid_ok: "wire_ok s \<Longrightarrow> read_map s t p = Inr s' \<Longrightarrow> wire_ok s'"
  using read_rows_ok by (auto simp: read_map_def Let_def wire_ok_def grid_ok_def dest!: need_Inr)

lemma read_lists_ok:
  "wire_ok s \<Longrightarrow> read_changes s t p = Inr s' \<Longrightarrow> wire_ok s'"
  "wire_ok s \<Longrightarrow> read_alphas s t p = Inr s' \<Longrightarrow> wire_ok s'"
  "wire_ok s \<Longrightarrow> read_regions s t p = Inr s' \<Longrightarrow> wire_ok s'"
  by (auto simp: read_changes_def read_alphas_def read_regions_def Let_def wire_ok_def
      read_change_def read_alpha_def read_region_def intro!: read_fixed_all_ok dest!: need_Inr)

lemma read_self_ok: "wire_ok s \<Longrightarrow> read_self s t p = Inr s' \<Longrightarrow> wire_ok s'"
  by (auto simp: read_self_def Let_def wire_ok_def read_cooldown_def intro!: read_fixed_all_ok
      dest!: need_Inr split: if_splits)

lemma read_storm_ok: "wire_ok s \<Longrightarrow> read_storm s t p = Inr s' \<Longrightarrow> wire_ok s'"
  by (auto simp: read_storm_def wire_ok_def storm_ok_def dest!: need_Inr split: if_splits)

lemma readSection_ok: "wire_ok s \<Longrightarrow> readSection dec s t p = Inr s' \<Longrightarrow> wire_ok s'"
  unfolding readSection_def
  by (auto split: if_splits intro: read_players_ok read_roster_ok read_grid_ok read_lists_ok
      read_self_ok read_storm_ok)

lemma decode_sections_ok: "wire_ok s \<Longrightarrow> decode_sections dec s buf = Inr s' \<Longrightarrow> wire_ok s'"
proof (induction dec s buf rule: decode_sections.induct)
  case (1 dec s buf)
  let ?t = "get_u8 buf 0" and ?n = "nat (get_u16 buf 1)"
  show ?case
  proof (cases "SECTION_HEADER_BYTES + ?n \<le> length buf")
    case True
    then obtain z where z: "readSection dec s ?t (take ?n (drop SECTION_HEADER_BYTES buf)) = Inr z"
        "decode_sections dec z (drop (SECTION_HEADER_BYTES + ?n) buf) = Inr s'"
      using 1(3) by (subst (asm) decode_sections.simps) (auto simp: Let_def split: sum.splits)
    then have "wire_ok z" using 1(2) by (blast intro: readSection_ok)
    with z True show ?thesis by (intro 1(1) [OF _ refl refl]) auto
  next
    case False
    with 1(2,3) show ?thesis
      by (subst (asm) decode_sections.simps) (auto simp: Let_def split: if_splits)
  qed
qed

lemma get_u32_range: "0 \<le> get_u32 p i \<and> get_u32 p i < 4294967296"
proof -
  have "0 \<le> a + 256 * b + 65536 * c + 16777216 * d \<and> a + 256 * b + 65536 * c + 16777216 * d < 4294967296"
    if "0 \<le> a" "a \<le> 255" "0 \<le> b" "b \<le> 255" "0 \<le> c" "c \<le> 255" "0 \<le> d" "d \<le> 255" for a b c d :: int
    using that by simp
  then show ?thesis unfolding get_u32_def using uint_byte_range by blast
qed


end
