(* ===== verification/Spec2Isabelle.thy ===== *)
theory Spec2Isabelle
  imports OutboxProps RegistryProps CommandProps Interpolation Regions HumanCheckProps Sha256Vector VerificationProps HumanChallengeProps SessionProps ReplayProps SpoolProps SkillProps PlayerLaws StepProps TrainingProps MapLoader Scheduler Progression Input SnapshotSafety Visibility Messages RateLimit ManagerProps SnapshotView
begin

text \<open>
  A verification development for the game \<open>swITchRemake\<close>: the TypeScript code of the shared protocol package
  (\<open>shared/src\<close>), of the authoritative game server (\<open>server-game/src\<close>), and of parts of the match server (\<open>server-match/src\<close>) and of the
  web client (\<open>client/src\<close>). Every definition translates the code it is named after; names clash rarely and carry a suffix or a prefix
  then. This header says which theory models what, what the lemmas show, and what is left out.

  The program. Players of a room play tag on a tile map that collapses and is closed in by a storm. The game server is
  authoritative: clients send six-byte inputs and JSON commands, the server simulates sixty ticks a second, and every other tick sends each
  client a binary snapshot of what that player may see. A match server starts rooms through a control channel and receives the result of each
  match. A client connects with a ticket that the control channel had issued for a seat.

  Foundations. \<open>Prelude\<close> has numbers, searching and the interfaces \<open>invariant_machine\<close> and \<open>ordered_machine\<close>: an object is a
  machine whose calls keep an invariant and a relation over any run. \<open>JsMap\<close> is JavaScript's \<open>Map\<close> with the interface \<open>keyed_store\<close>,
  \<open>JsText\<close> the conversions between numbers and text. Identifiers, ticks and milliseconds are \<open>int\<close>, positions and ratios
  \<open>real\<close> (rounding of doubles is not modelled), bit fields and bytes are words. Exceptions are \<open>None\<close> or \<open>Inl\<close>.
  What a component does outside itself is a log of effects in its state, in the order of the code; what it asks of the outside (clock,
  random bytes, digests, files, sinks) is an argument.

  Wire formats, \<open>shared/src/protocol\<close>. \<open>Protocol\<close> (\<open>constants.ts\<close>, \<open>effects.ts\<close>), \<open>Bytes\<close> (\<open>DataView\<close> and the growing \<open>ByteWriter\<close>,
  which refines the list of bytes written), \<open>Input\<close> (\<open>input.ts\<close>), \<open>Snapshot\<close> and \<open>SnapshotCodec\<close> (\<open>snapshot.ts\<close>: reader, writer and
  the interface of a pair of entry codecs, whence the round trip), \<open>SnapshotSafety\<close> (ranges of whatever is accepted), \<open>Messages\<close>
  (\<open>gateway/message-router.ts\<close>: the JSON commands), \<open>Progression\<close> (levels), \<open>Markers\<close> (\<open>mapMarkers.ts\<close>).

  Visibility. \<open>Visibility\<close> (\<open>shared/src/visibility/core.ts\<close>) decides who sees whom; server and client run the same code.
  \<open>SnapshotView\<close> (\<open>game/snapshot-view.ts\<close>) builds what one viewer is sent: worlds that differ in hidden players only give the same bytes.

  Simulation, \<open>server-game/src/simulation\<close>. \<open>Config\<close> (tuning), \<open>World\<close> (\<open>world.ts\<close>, effects), \<open>Motion\<close> (movement, storm, collisions),
  \<open>Skills\<close>, \<open>Step\<close> (\<open>step.ts\<close>: \<open>stepWorld\<close> as begin, requests, movement, end of a tick). \<open>StepFacts\<close> says what each stage does to the
  core of the players; \<open>StepProps\<close>, \<open>SkillProps\<close> and \<open>PlayerLaws\<close> (interface \<open>player_law\<close>) carry this to whole ticks. \<open>Scheduler\<close>
  (\<open>scheduler.ts\<close>) turns elapsed time into ticks. \<open>MapLoader\<close> (\<open>maps/map-loader.ts\<close>) parses the bundle of maps, \<open>Training\<close> and
  \<open>TrainingProps\<close> (\<open>training/training-ground.ts\<close>) are the computer-controlled targets: walking routes by breadth-first search with its
  termination proof, chase zones, pads, respawns.

  Rooms, \<open>server-game/src/rooms\<close>. \<open>Lobby\<close> and \<open>LobbyProps\<close> (\<open>lobby-state.ts\<close>, the state machine of \<open>shared/src/lobby\<close>), \<open>Room\<close> (\<open>room.ts\<close>,
  every method), \<open>RoomCalls\<close> (the room as a machine), \<open>RoomFacts\<close> (its invariant), \<open>RoomProps\<close>, \<open>RoomClock\<close>, \<open>HandOff\<close> (moving a room to another
  server), \<open>Manager\<close> and \<open>ManagerProps\<close> (\<open>room-manager.ts\<close>: all rooms of a server and the dispatch of messages).

  Matches, \<open>server-game/src/game\<close>. \<open>Recorder\<close> (\<open>session-recorder.ts\<close>), \<open>Session\<close> (\<open>game-session.ts\<close>) and \<open>SessionProps\<close>: a match composes the
  room, the simulation, the training ground, the views and the recorder. Its life is the step relation \<open>match_step\<close>, in which ticks,
  publications, requests, disconnections, the storing of the replay and operations of the room interleave freely; the invariant
  \<open>match_inv\<close> gives one result with winners the room accepts, one living tagger, and an end after the longest duration.

  Gateway, \<open>server-game/src/gateway\<close>. \<open>Tickets\<close> (\<open>ticket-store.ts\<close> and the authentication of a connection), \<open>Connections\<close>
  (\<open>connection-manager.ts\<close>), \<open>RateLimit\<close> (\<open>rate-limit.ts\<close>).

  Replays. \<open>Replay\<close> and \<open>ReplayProps\<close> (\<open>shared/src/replay\<close>): chunks, container, manifest and signature trailer, whence the round trip
  of writing and verifying. \<open>Spool\<close> and \<open>SpoolProps\<close> (\<open>server-game/src/replay\<close>): the recorder in memory with its budget, and what reaches
  the file store. gzip, the digest of \<open>node:crypto\<close>, the signing key and JSON texts are parameters.

  Control plane, \<open>server-game/src/redis\<close>. \<open>Control\<close> (\<open>control-codec.ts\<close>, \<open>shared/src/control\<close>: commands and replies), \<open>Registry\<close> and
  \<open>RegistryProps\<close> (\<open>registry.ts\<close>: heartbeat, directory, claims, taking over a room), \<open>CommandConsumer\<close> and \<open>CommandProps\<close>
  (\<open>command-consumer.ts\<close>: carrying out the commands of the match server, composed with the room manager, the tickets and the
  registry), \<open>Journal\<close>, \<open>JournalProps\<close>, \<open>Outbox\<close> and \<open>OutboxProps\<close> (\<open>result-journal.ts\<close>, \<open>result-outbox.ts\<close>: results of matches on
  a shared disk until the database has them). Redis is the parameter of \<open>Redis\<close>, known by \<open>redis_laws\<close>. Whatever waits for Redis or
  the file system is a machine with one call per step: other servers, workers and requests run in between, a call may fail before or
  after its effect, a worker may die, and a power loss leaves of the disk what was synced. The theorems hold for every such
  interleaving: a command is carried out once, a room is handed over once and as a whole, entries of other servers stay as they are,
  the journal is never corrupt and no result is lost.

  Match server and accounts, \<open>server-match/src\<close>. \<open>Redis\<close> (\<open>redis.service.ts\<close>, its laws and an instance of them), \<open>VerificationCode\<close>,
  \<open>VerificationProps\<close> (\<open>auth/verification-code.ts\<close>: a mail code starts one work, and five wrong guesses use it up), \<open>HumanChallenge\<close>,
  \<open>HumanChallengeProps\<close> (the human check as a service over Redis), \<open>HumanCheck\<close>, \<open>HumanCheckProps\<close> (its proof of work and its scenes,
  \<open>shared/src/human-check\<close>), \<open>Sha256\<close> (the synchronous digest on 32-bit words) and \<open>Sha256Vector\<close> (a published test vector, evaluated).

  Web client, \<open>client/src/game\<close>. \<open>Interpolation\<close> (positions between snapshots, the render clock, camera and frame bounds, pauses
  between connection attempts) and \<open>Regions\<close> (clusters of tiles by flood fill, which are the connected components).

  Bounds and fuel. Loops are structural recursions or have a termination proof; the only fuel is in the reconstruction of a
  training route, which follows at most as many predecessors as tiles are known, and a lemma shows that this reaches the start. Two's
  complement wrap-around is written out where a value is stored in a field of fixed width. Iterations of the collision solver are the
  constant of the code.

  Not modelled. The services of the match server over MySQL and payments, whose logic is in SQL; the pages and the rendering of the web
  client; the tools; sockets, ioredis (connections, streams and sorted sets) and process configuration: input and output over
  frameworks. Of the registry, the timers and the loop of one publication over all rooms and seats are not put together: their
  steps are. Rounding of doubles, the timing of the event loop beyond the order of calls, and the text of log and error messages are
  left out. gzip, UTF-8, \<open>JSON.parse\<close>, \<open>JSON.stringify\<close> and the digests of \<open>node:crypto\<close> are parameters.
\<close>

end
